(* ===== verification/Prelude.thy ===== *)
theory Prelude
  imports Main "HOL-Library.Word"
begin

text \<open>
  Shared vocabulary of the development: the machine integers of the C sources, faults (what
  the C code leaves undefined) and their sequencing, little-endian byte sequences (the memory
  layout of the packed structures on all three targets), and the byte memory with the lemmas
  the components share.
\<close>

unbundle bit_operations_syntax

section \<open>Types\<close>

text \<open>Fixed-width integers. The signed ones are the same words, read with \<open>sint\<close>.\<close>

type_synonym u8 = "8 word"
type_synonym u16 = "16 word"
type_synonym u32 = "32 word"
type_synonym s8 = "8 word"
type_synonym s16 = "16 word"
type_synonym s32 = "32 word"

text \<open>A C \<open>float\<close>, as its IEEE 754 bit pattern.\<close>

type_synonym f32 = "32 word"

text \<open>Addresses of the byte memory; 0 is the null pointer.\<close>

type_synonym addr = nat

abbreviation (input) NULL :: addr where
  "NULL \<equiv> 0"

text \<open>
  What the C code does not define, as a value: an access outside the object it is meant
  for, a failed \<open>assert\<close>, a null pointer that is followed, a loop that never ends, or a division of
  integers by zero.
\<close>

datatype fault = OutOfBounds | AssertFailed | NullDeref | Diverges | DivisionByZero

type_synonym 'a result = "fault + 'a"

definition bindR :: "'a result \<Rightarrow> ('a \<Rightarrow> 'b result) \<Rightarrow> 'b result" where
  "bindR m f = (case m of Inl e \<Rightarrow> Inl e | Inr x \<Rightarrow> f x)"

lemma bindR_simps [simp]:
  "bindR (Inl e) f = Inl e"
  "bindR (Inr x) f = f x"
  by (simp_all add: bindR_def)

lemma bindR_bindR: "bindR (bindR m f) g = bindR m (\<lambda>x. bindR (f x) g)"
  by (cases m) simp_all

lemma bindR_Inr_iff: "bindR m f = Inr y \<longleftrightarrow> (\<exists>x. m = Inr x \<and> f x = Inr y)"
  by (cases m) simp_all

lemma bindR_InrE:
  assumes "bindR m f = Inr y"
  obtains x where "m = Inr x" and "f x = Inr y"
  using assms by (auto simp: bindR_Inr_iff)

text \<open>Running a fallible step over a list, left to right.\<close>

fun foldR :: "('a \<Rightarrow> 's \<Rightarrow> 's result) \<Rightarrow> 'a list \<Rightarrow> 's \<Rightarrow> 's result" where
  "foldR f [] s = Inr s"
| "foldR f (x # xs) s = bindR (f x s) (foldR f xs)"

lemma foldR_append: "foldR f (xs @ ys) s = bindR (foldR f xs s) (foldR f ys)"
  by (induction xs arbitrary: s) (auto simp: bindR_def split: sum.splits)

lemma foldR_invariant:
  assumes step: "\<And>x s s'. x \<in> set xs \<Longrightarrow> I s \<Longrightarrow> f x s = Inr s' \<Longrightarrow> I s'"
    and "I s" and "foldR f xs s = Inr s'"
  shows "I s'"
  using assms
proof (induction xs arbitrary: s)
  case Nil
  then show ?case by simp
next
  case (Cons x xs)
  from Cons.prems(3) obtain t where t: "f x s = Inr t" and rest: "foldR f xs t = Inr s'"
    by (auto elim: bindR_InrE)
  have "I t" using Cons.prems(1)[of x s t] Cons.prems(2) t by simp
  show ?case
  proof (rule Cons.IH[OF _ \<open>I t\<close> rest])
    fix y u u'
    assume "y \<in> set xs" "I u" "f y u = Inr u'"
    then show "I u'" using Cons.prems(1)[of y u u'] by simp
  qed
qed

section \<open>Named collections\<close>

text \<open>
  \<open>codec\<close>: how the field decoders undo the field encoders. \<open>layout\<close>: byte counts of the
  packed structures. \<open>ring\<close>: the abstraction of the ring buffers.
\<close>

named_theorems codec
named_theorems layout
named_theorems ring

section \<open>Little-endian byte sequences\<close>

fun le_bytes :: "nat \<Rightarrow> nat \<Rightarrow> u8 list" where
  "le_bytes 0 x = []"
| "le_bytes (Suc n) x = word_of_nat (x mod 256) # le_bytes n (x div 256)"

fun le_val :: "u8 list \<Rightarrow> nat" where
  "le_val [] = 0"
| "le_val (b # bs) = unat b + 256 * le_val bs"

lemma length_le_bytes [simp]: "length (le_bytes n x) = n"
  by (induction n arbitrary: x) simp_all

lemma unat_u8_less [simp]: "unat (b :: u8) < 256"
  using unsigned_less[of b] by simp

lemma unat_u16_less [simp]: "unat (w :: u16) < 65536"
  using unsigned_less[of w] by simp

lemma unat_u32_less [simp]: "unat (w :: u32) < 4294967296"
  using unsigned_less[of w] by simp

lemma ucast_u8_u16: "ucast (ucast b :: u16) = (b :: u8)"
  by (rule bit_word_eqI) (simp add: bit_unsigned_iff)

lemma unat_of_nat_mod256 [simp]: "unat (word_of_nat (x mod 256) :: u8) = x mod 256"
  by (simp add: unat_of_nat)

lemma le_val_le_bytes: "le_val (le_bytes n x) = x mod 256 ^ n"
proof (induction n arbitrary: x)
  case 0
  then show ?case by simp
next
  case (Suc n)
  have "x mod 256 + 256 * (x div 256 mod 256 ^ n) = x mod (256 * 256 ^ n)"
    by (simp add: mod_mult2_eq)
  with Suc show ?case by simp
qed

lemma le_bytes_le_val: "le_bytes (length bs) (le_val bs) = bs"
proof (induction bs)
  case Nil
  then show ?case by simp
next
  case (Cons b bs)
  have "(unat b + 256 * le_val bs) mod 256 = unat b"
    by (simp add: mod_mult_self2 mod_less)
  moreover have "(unat b + 256 * le_val bs) div 256 = le_val bs"
    by (simp add: div_mult_self2)
  ultimately show ?case using Cons by simp
qed

lemma le_val_less: "le_val bs < 256 ^ length bs"
proof (induction bs)
  case Nil
  then show ?case by simp
next
  case (Cons b bs)
  then have "256 * (le_val bs + 1) \<le> 256 * 256 ^ length bs"
    by (intro mult_le_mono2) simp
  moreover have "unat b + 256 * le_val bs < 256 * (le_val bs + 1)"
    using unat_u8_less[of b] by (simp add: algebra_simps del: unat_u8_less)
  ultimately have "unat b + 256 * le_val bs < 256 * 256 ^ length bs"
    by (rule order.strict_trans2[rotated])
  then show ?case by simp
qed

text \<open>Field encoders, and decoders that return the value and the bytes that follow.\<close>

definition put8 :: "u8 \<Rightarrow> u8 list" where
  "put8 b = [b]"

definition put16 :: "u16 \<Rightarrow> u8 list" where
  "put16 w = le_bytes 2 (unat w)"

definition put32 :: "u32 \<Rightarrow> u8 list" where
  "put32 w = le_bytes 4 (unat w)"

definition get8 :: "u8 list \<Rightarrow> u8 \<times> u8 list" where
  "get8 bs = (word_of_nat (le_val (take 1 bs)), drop 1 bs)"

definition get16 :: "u8 list \<Rightarrow> u16 \<times> u8 list" where
  "get16 bs = (word_of_nat (le_val (take 2 bs)), drop 2 bs)"

definition get32 :: "u8 list \<Rightarrow> u32 \<times> u8 list" where
  "get32 bs = (word_of_nat (le_val (take 4 bs)), drop 4 bs)"

lemma length_put [simp, layout]:
  "length (put8 b) = 1" "length (put16 w) = 2" "length (put32 v) = 4"
  by (simp_all add: put8_def put16_def put32_def)

lemma get8_put8 [codec, simp]: "get8 (put8 b @ bs) = (b, bs)"
  by (simp add: get8_def put8_def)

lemma get16_put16 [codec, simp]: "get16 (put16 w @ bs) = (w, bs)"
  by (simp add: get16_def put16_def le_val_le_bytes)

lemma get32_put32 [codec, simp]: "get32 (put32 w @ bs) = (w, bs)"
  by (simp add: get32_def put32_def le_val_le_bytes)

lemma get_put_last [codec, simp]:
  "get8 (put8 b) = (b, [])" "get16 (put16 w) = (w, [])" "get32 (put32 v) = (v, [])"
  using get8_put8[of b "[]"] get16_put16[of w "[]"] get32_put32[of v "[]"] by simp_all

lemma get8_Cons: "get8 (b # bs) = (b, bs)"
  by (simp add: get8_def)

lemma put8_get8:
  assumes "get8 bs = (x, rest)" and "1 \<le> length bs"
  shows "put8 x @ rest = bs"
  using assms by (cases bs) (auto simp: get8_def put8_def)

lemma put16_get16:
  assumes "get16 bs = (x, rest)" and "2 \<le> length bs"
  shows "put16 x @ rest = bs"
proof -
  have len: "length (take 2 bs) = 2" using assms(2) by simp
  have "le_val (take 2 bs) < 256 ^ 2" using le_val_less[of "take 2 bs"] len by simp
  then have "unat (word_of_nat (le_val (take 2 bs)) :: u16) = le_val (take 2 bs)"
    by (simp add: unat_of_nat)
  then have "put16 x = take 2 bs"
    using assms(1) le_bytes_le_val[of "take 2 bs"] len by (auto simp: get16_def put16_def)
  then show ?thesis using assms(1) by (auto simp: get16_def)
qed

lemma put32_get32:
  assumes "get32 bs = (x, rest)" and "4 \<le> length bs"
  shows "put32 x @ rest = bs"
proof -
  have len: "length (take 4 bs) = 4" using assms(2) by simp
  have "le_val (take 4 bs) < 256 ^ 4" using le_val_less[of "take 4 bs"] len by simp
  then have "unat (word_of_nat (le_val (take 4 bs)) :: u32) = le_val (take 4 bs)"
    by (simp add: unat_of_nat)
  then have "put32 x = take 4 bs"
    using assms(1) le_bytes_le_val[of "take 4 bs"] len by (auto simp: get32_def put32_def)
  then show ?thesis using assms(1) by (auto simp: get32_def)
qed

section \<open>Byte memory\<close>

type_synonym memory = "addr \<Rightarrow> u8"

definition read_mem :: "memory \<Rightarrow> addr \<Rightarrow> nat \<Rightarrow> u8 list" where
  "read_mem m a n = map (\<lambda>i. m (a + i)) [0..<n]"

definition write_mem :: "memory \<Rightarrow> addr \<Rightarrow> u8 list \<Rightarrow> memory" where
  "write_mem m a bs = (\<lambda>x. if a \<le> x \<and> x < a + length bs then bs ! (x - a) else m x)"

lemma length_read_mem [simp]: "length (read_mem m a n) = n"
  by (simp add: read_mem_def)

lemma nth_read_mem [simp]: "i < n \<Longrightarrow> read_mem m a n ! i = m (a + i)"
  by (simp add: read_mem_def)

lemma write_mem_Nil [simp]: "write_mem m a [] = m"
  unfolding write_mem_def by (rule ext) (simp, linarith)

lemma write_mem_outside: "x < a \<or> a + length bs \<le> x \<Longrightarrow> write_mem m a bs x = m x"
  by (auto simp: write_mem_def)

lemma write_mem_snoc:
  "(write_mem m a bs)(a + length bs := b) = write_mem m a (bs @ [b])"
  by (auto simp: write_mem_def fun_eq_iff nth_append)

lemma write_mem_Cons: "write_mem (m(a := b)) (a + 1) bs = write_mem m a (b # bs)"
  by (auto simp: write_mem_def fun_eq_iff nth_Cons' Suc_diff_Suc)

lemma read_write_mem [simp]: "length bs = n \<Longrightarrow> read_mem (write_mem m a bs) a n = bs"
  by (rule nth_equalityI) (auto simp: write_mem_def)

lemma read_mem_cong:
  "(\<And>x. a \<le> x \<Longrightarrow> x < a + n \<Longrightarrow> m x = m' x) \<Longrightarrow> read_mem m a n = read_mem m' a n"
  by (simp add: read_mem_def)

lemma read_write_mem_disjoint:
  "a + n \<le> b \<or> b + length bs \<le> a \<Longrightarrow> read_mem (write_mem m b bs) a n = read_mem m a n"
  by (rule read_mem_cong) (auto simp: write_mem_def)

section \<open>C integer helpers\<close>

lemma nat_1_int [simp]: "nat (1 + int n) = Suc n"
  by simp

text \<open>C division truncates towards zero.\<close>

definition c_div :: "int \<Rightarrow> int \<Rightarrow> int" where
  "c_div a b = sgn a * sgn b * (\<bar>a\<bar> div \<bar>b\<bar>)"

lemma c_div_nonneg: "0 \<le> a \<Longrightarrow> 0 < b \<Longrightarrow> c_div a b = a div b"
  by (cases "a = 0") (simp_all add: c_div_def)

lemma c_div_neg: "c_div (- a) b = - c_div a b"
  by (simp add: c_div_def)

lemma abs_c_div: "0 < b \<Longrightarrow> \<bar>c_div a b\<bar> = \<bar>a\<bar> div b"
proof -
  assume b: "0 < b"
  have nn: "0 \<le> \<bar>a\<bar> div b" using b by (simp add: pos_imp_zdiv_nonneg_iff)
  show ?thesis
    using b nn by (cases "a = 0") (auto simp: c_div_def abs_mult sgn_if)
qed

lemma sint_s16_bounds [simp]: "- 32768 \<le> sint (w :: s16)" "sint (w :: s16) \<le> 32767"
  using sint_greater_eq[of w] sint_less[of w] by simp_all

lemma sint_s8_bounds [simp]: "- 128 \<le> sint (w :: s8)" "sint (w :: s8) \<le> 127"
  using sint_greater_eq[of w] sint_less[of w] by simp_all

lemma sint_of_int_s16:
  "- 32768 \<le> i \<Longrightarrow> i \<le> 32767 \<Longrightarrow> sint (word_of_int i :: s16) = i"
  by (simp add: signed_of_int signed_take_bit_int_eq_self_iff)

lemma uint_unat_bounds:
  "n \<le> unat w \<Longrightarrow> int n \<le> uint (w :: 'a :: len word)" "unat w < n \<Longrightarrow> uint (w :: 'a :: len word) < int n"
  by (simp_all only: uint_nat of_nat_le_iff of_nat_less_iff)

lemma sint_s8_split: "sint (w :: s8) = (if uint w < 128 then uint w else uint w - 256)"
proof -
  have "- 128 \<le> i \<Longrightarrow> i \<le> 127 \<Longrightarrow> sint (word_of_int i :: s8) = i" for i
    by (simp add: signed_of_int signed_take_bit_int_eq_self_iff)
  from this[of "uint w"] this[of "uint w - 256"] uint_lt2p[of w] uint_ge_0[of w]
  have "uint w < 128 \<Longrightarrow> sint w = uint w" "128 \<le> uint w \<Longrightarrow> sint (word_of_int (uint w - 256) :: s8) = uint w - 256"
    by simp_all
  moreover have "(256 :: s8) = 0" by (simp add: word_uint_eq_iff)
  then have "word_of_int (uint w - 256) = w" by simp
  ultimately show ?thesis by (metis not_le)
qed

lemma sint_s16_split: "sint (w :: s16) = (if uint w < 32768 then uint w else uint w - 65536)"
proof (cases "uint w < 32768")
  case True
  have "0 \<le> uint w" by simp
  then have "- 32768 \<le> uint w" by linarith
  then show ?thesis using sint_of_int_s16[of "uint w"] True by simp
next
  case False
  have w: "word_of_int (uint w - 65536) = w"
  proof -
    have "word_of_int (uint w - 65536) = w - (65536 :: s16)" by simp
    also have "(65536 :: s16) = 0" by (simp add: word_uint_eq_iff)
    finally show ?thesis by simp
  qed
  have "sint (word_of_int (uint w - 65536) :: s16) = uint w - 65536"
    by (rule sint_of_int_s16) (use False uint_lt2p[of w] in simp_all)
  then show ?thesis using False by (simp only: w if_False)
qed

lemma uint_s16_nonneg: "0 \<le> sint (w :: s16) \<Longrightarrow> uint w = sint w"
  using uint_lt2p[of w] by (simp add: sint_s16_split split: if_splits)

lemma uint_s16_minus: "sint (w :: s16) < 0 \<Longrightarrow> uint (- w) = - sint w"
  using uint_lt2p[of w] uint_word_ariths(4)[of w]
  by (simp add: sint_s16_split zmod_zminus1_eq_if split: if_splits)

lemma uint_ucast_u8: "uint (ucast (w :: u16) :: u8) = uint w mod 256"
  by (simp add: unsigned_ucast_eq take_bit_eq_mod)

end
