(* ===== verification/Packets.thy ===== *)
theory Packets
  imports Prelude
begin

text \<open>
  The data that travels: \<open>src/orazio_lib/src/common/packet_header.h\<close>,
  \<open>packet_operations.h\<close> and \<open>orazio_packets.h\<close>. Every \<open>#pragma pack(1)\<close> structure is a
  record with the C field order; \<open>put_X\<close> lays it out in memory (little endian, no padding)
  and \<open>get_X\<close> reads it back and returns the bytes that follow. Floats are their 32-bit
  patterns, so that copying a packet copies it bit by bit.
\<close>

section \<open>Limits and identifiers\<close>

abbreviation (input) PACKET_SIZE_ANY :: u8 where "PACKET_SIZE_ANY \<equiv> 0xFF"
abbreviation (input) PACKET_TYPE_MAX :: nat where "PACKET_TYPE_MAX \<equiv> 20"
abbreviation (input) PACKET_SIZE_MAX :: nat where "PACKET_SIZE_MAX \<equiv> 254"

abbreviation (input) NUM_JOINTS :: nat where "NUM_JOINTS \<equiv> 2"
abbreviation (input) SONARS_MAX :: nat where "SONARS_MAX \<equiv> 8"
abbreviation (input) MESSAGE_MAX_SIZE :: nat where "MESSAGE_MAX_SIZE \<equiv> 80"

definition ORAZIO_PROTOCOL_VERSION :: u32 where
  "ORAZIO_PROTOCOL_VERSION = 0x20180915"

abbreviation (input) RESPONSE_PACKET_ID :: u8 where "RESPONSE_PACKET_ID \<equiv> 0"
abbreviation (input) PARAM_CONTROL_PACKET_ID :: u8 where "PARAM_CONTROL_PACKET_ID \<equiv> 1"
abbreviation (input) SYSTEM_STATUS_PACKET_ID :: u8 where "SYSTEM_STATUS_PACKET_ID \<equiv> 2"
abbreviation (input) SYSTEM_PARAM_PACKET_ID :: u8 where "SYSTEM_PARAM_PACKET_ID \<equiv> 3"
abbreviation (input) JOINT_STATUS_PACKET_ID :: u8 where "JOINT_STATUS_PACKET_ID \<equiv> 4"
abbreviation (input) JOINT_CONTROL_PACKET_ID :: u8 where "JOINT_CONTROL_PACKET_ID \<equiv> 5"
abbreviation (input) JOINT_PARAM_PACKET_ID :: u8 where "JOINT_PARAM_PACKET_ID \<equiv> 6"
abbreviation (input) DIFFERENTIAL_DRIVE_STATUS_PACKET_ID :: u8 where
  "DIFFERENTIAL_DRIVE_STATUS_PACKET_ID \<equiv> 7"
abbreviation (input) DIFFERENTIAL_DRIVE_CONTROL_PACKET_ID :: u8 where
  "DIFFERENTIAL_DRIVE_CONTROL_PACKET_ID \<equiv> 8"
abbreviation (input) DIFFERENTIAL_DRIVE_PARAM_PACKET_ID :: u8 where
  "DIFFERENTIAL_DRIVE_PARAM_PACKET_ID \<equiv> 9"
abbreviation (input) END_EPOCH_PACKET_ID :: u8 where "END_EPOCH_PACKET_ID \<equiv> 10"
abbreviation (input) MESSAGE_PACKET_ID :: u8 where "MESSAGE_PACKET_ID \<equiv> 11"
abbreviation (input) SONAR_STATUS_PACKET_ID :: u8 where "SONAR_STATUS_PACKET_ID \<equiv> 12"
abbreviation (input) SONAR_PARAM_PACKET_ID :: u8 where "SONAR_PARAM_PACKET_ID \<equiv> 13"

section \<open>Enumerations\<close>

text \<open>\<open>JointMode\<close>; the C code stores and compares it as a \<open>uint8_t\<close>.\<close>

abbreviation (input) JointDisabled :: u8 where "JointDisabled \<equiv> 0"
abbreviation (input) JointPWM :: u8 where "JointPWM \<equiv> 1"
abbreviation (input) JointPID :: u8 where "JointPID \<equiv> 2"

datatype HBridgeType = HBridgeTypePWMDir | HBridgeTypeDualPWM | HBridgeTypeHalfCyclePWM

text \<open>\<open>ParamType\<close>, \<open>ParamAction\<close> and the periodic packet mask, stored as \<open>uint8_t\<close>.\<close>

abbreviation (input) ParamSystem :: u8 where "ParamSystem \<equiv> 0"
abbreviation (input) ParamJointsSingle :: u8 where "ParamJointsSingle \<equiv> 1"
abbreviation (input) ParamDrive :: u8 where "ParamDrive \<equiv> 2"
abbreviation (input) ParamSonar :: u8 where "ParamSonar \<equiv> 3"

abbreviation (input) ParamRequest :: u8 where "ParamRequest \<equiv> 0"
abbreviation (input) ParamLoad :: u8 where "ParamLoad \<equiv> 1"
abbreviation (input) ParamSave :: u8 where "ParamSave \<equiv> 2"

abbreviation (input) PSystemStatusFlag :: u8 where "PSystemStatusFlag \<equiv> 1"
abbreviation (input) PJointStatusFlag :: u8 where "PJointStatusFlag \<equiv> 2"
abbreviation (input) PDriveStatusFlag :: u8 where "PDriveStatusFlag \<equiv> 4"
abbreviation (input) PSonarStatusFlag :: u8 where "PSonarStatusFlag \<equiv> 8"

datatype PacketStatus =
    UnknownType | RxBufferError | InvalidSize | ChecksumError | Unsync
  | PacketTypeOutOfBounds | PacketInstallError | PacketUninstallError | TxBufferFull
  | NoHandler | Timeout | WrongPins | VersionMismatch | GenericError
  | Success | SyncAA | Sync55 | SyncType | SyncSize | SyncPayload | SyncPayloadComplete
  | SyncChecksum

text \<open>The numeric value of each status: errors are negative.\<close>

fun status_code :: "PacketStatus \<Rightarrow> int" where
  "status_code UnknownType = -1"
| "status_code RxBufferError = -2"
| "status_code InvalidSize = -3"
| "status_code ChecksumError = -4"
| "status_code Unsync = -5"
| "status_code PacketTypeOutOfBounds = -6"
| "status_code PacketInstallError = -7"
| "status_code PacketUninstallError = -8"
| "status_code TxBufferFull = -9"
| "status_code NoHandler = -10"
| "status_code Timeout = -11"
| "status_code WrongPins = -12"
| "status_code VersionMismatch = -13"
| "status_code GenericError = -127"
| "status_code Success = 0"
| "status_code SyncAA = 1"
| "status_code Sync55 = 2"
| "status_code SyncType = 3"
| "status_code SyncSize = 4"
| "status_code SyncPayload = 5"
| "status_code SyncPayloadComplete = 6"
| "status_code SyncChecksum = 7"

text \<open>\<open>status < 0\<close> of the C code.\<close>

definition is_error :: "PacketStatus \<Rightarrow> bool" where
  "is_error s \<longleftrightarrow> status_code s < 0"

text \<open>
  The functions whose addresses the program stores in a \<open>PacketOperations\<close>: the buffer
  providers (\<open>PacketGenFn\<close>) and the receivers (\<open>PacketFn\<close>) of the deferred handler
  (firmware) and of the client (host). What each of them does is defined where the C code
  defines it; the packet handler is parameterised by that meaning.
\<close>

datatype PacketGenFn = Deferred_initializeBuffer | Client_initializeBuffer

datatype PacketFn =
    Deferred_onReceive | Client_copyToBuffer | Client_copyToIndexedBuffer

text \<open>Function pointers may be null (\<open>None\<close>).\<close>

record PacketOperations =
  op_type :: u8
  op_size :: u8
  initialize_buffer_fn :: PacketGenFn
  initialize_buffer_args :: addr
  on_receive_fn :: "PacketFn option"
  on_receive_args :: addr

section \<open>Array fields\<close>

definition put8s :: "u8 list \<Rightarrow> u8 list" where
  "put8s xs = xs"

definition get8s :: "nat \<Rightarrow> u8 list \<Rightarrow> u8 list \<times> u8 list" where
  "get8s n bs = (take n bs, drop n bs)"

definition put16s :: "u16 list \<Rightarrow> u8 list" where
  "put16s ws = concat (map put16 ws)"

fun get16s :: "nat \<Rightarrow> u8 list \<Rightarrow> u16 list \<times> u8 list" where
  "get16s 0 bs = ([], bs)"
| "get16s (Suc n) bs = (case get16 bs of (w, r) \<Rightarrow> case get16s n r of (ws, r') \<Rightarrow> (w # ws, r'))"

lemma length_put8s [simp]: "length (put8s xs) = length xs"
  by (simp add: put8s_def)

lemma length_put16s [simp]: "length (put16s ws) = 2 * length ws"
  by (induction ws) (simp_all add: put16s_def)

lemma get8s_put8s [simp, codec]: "length xs = n \<Longrightarrow> get8s n (put8s xs @ bs) = (xs, bs)"
  by (simp add: get8s_def put8s_def)

lemma get16s_put16s [simp, codec]: "length ws = n \<Longrightarrow> get16s n (put16s ws @ bs) = (ws, bs)"
  by (induction ws arbitrary: n) (auto simp: put16s_def)

lemma length_get_field [simp]:
  "length (snd (get8 bs)) = length bs - 1"
  "length (snd (get16 bs)) = length bs - 2"
  "length (snd (get32 bs)) = length bs - 4"
  "length (snd (get8s n bs)) = length bs - n"
  by (simp_all add: get8_def get16_def get32_def get8s_def)

lemma length_get16s [simp]:
  "length (snd (get16s n bs)) = length bs - 2 * n" "length (fst (get16s n bs)) = n"
  by (induction n arbitrary: bs) (simp_all add: split_beta)

lemma length_get8s_fst [simp]: "n \<le> length bs \<Longrightarrow> length (fst (get8s n bs)) = n"
  by (simp add: get8s_def)

lemma put_get_field [simp, codec]:
  "1 \<le> length bs \<Longrightarrow> put8 (fst (get8 bs)) @ snd (get8 bs) = bs"
  "2 \<le> length bs \<Longrightarrow> put16 (fst (get16 bs)) @ snd (get16 bs) = bs"
  "4 \<le> length bs \<Longrightarrow> put32 (fst (get32 bs)) @ snd (get32 bs) = bs"
  "n \<le> length bs \<Longrightarrow> put8s (fst (get8s n bs)) @ snd (get8s n bs) = bs"
  using put8_get8[of bs] put16_get16[of bs] put32_get32[of bs]
  by (auto simp: prod_eq_iff put8s_def get8s_def)

lemma put_get16s [simp, codec]:
  "2 * n \<le> length bs \<Longrightarrow> put16s (fst (get16s n bs)) @ snd (get16s n bs) = bs"
proof (induction n arbitrary: bs)
  case 0
  then show ?case by (simp add: put16s_def)
next
  case (Suc n)
  then have "put16s (fst (get16s n (snd (get16 bs)))) @ snd (get16s n (snd (get16 bs)))
      = snd (get16 bs)"
    by simp
  with Suc.prems show ?case by (simp add: put16s_def split_beta)
qed

section \<open>The packed structures\<close>

subsection \<open>PacketHeader\<close>

record PacketHeader =
  h_type :: "u8"
  h_size :: "u8"
  h_seq :: "u16"

definition put_PacketHeader :: "PacketHeader \<Rightarrow> u8 list" where
  "put_PacketHeader p =
     put8 (h_type p) @
     put8 (h_size p) @
     put16 (h_seq p)"

definition get_PacketHeader :: "u8 list \<Rightarrow> PacketHeader \<times> u8 list" where
  "get_PacketHeader bs0 =
    (let (v_type, bs1) = get8 bs0;
         (v_size, bs2) = get8 bs1;
         (v_seq, bs3) = get16 bs2
     in (\<lparr>h_type = v_type, h_size = v_size, h_seq = v_seq\<rparr>, bs3))"

definition sizeof_PacketHeader :: nat where
  "sizeof_PacketHeader = 4"

lemma length_put_PacketHeader [simp, layout]:
  "length (put_PacketHeader p) = sizeof_PacketHeader"
  by (simp add: put_PacketHeader_def sizeof_PacketHeader_def)

lemma get_put_PacketHeader [simp, codec]:
  "get_PacketHeader (put_PacketHeader p @ bs) = (p, bs)"
  by (simp add: put_PacketHeader_def get_PacketHeader_def Let_def)

lemma length_get_PacketHeader [simp, layout]:
  "length (snd (get_PacketHeader bs)) = length bs - sizeof_PacketHeader"
  by (simp add: get_PacketHeader_def split_beta Let_def sizeof_PacketHeader_def)

lemma put_get_PacketHeader [simp, codec]:
  "sizeof_PacketHeader \<le> length bs \<Longrightarrow> put_PacketHeader (fst (get_PacketHeader bs)) @ snd (get_PacketHeader bs) = bs"
  by (simp add: put_PacketHeader_def get_PacketHeader_def split_beta Let_def sizeof_PacketHeader_def)


subsection \<open>PacketIndexed\<close>

record PacketIndexed =
  pi_header :: "PacketHeader"
  pi_index :: "u8"

definition put_PacketIndexed :: "PacketIndexed \<Rightarrow> u8 list" where
  "put_PacketIndexed p =
     put_PacketHeader (pi_header p) @
     put8 (pi_index p)"

definition get_PacketIndexed :: "u8 list \<Rightarrow> PacketIndexed \<times> u8 list" where
  "get_PacketIndexed bs0 =
    (let (v_header, bs1) = get_PacketHeader bs0;
         (v_index, bs2) = get8 bs1
     in (\<lparr>pi_header = v_header, pi_index = v_index\<rparr>, bs2))"

definition sizeof_PacketIndexed :: nat where
  "sizeof_PacketIndexed = 5"

lemma length_put_PacketIndexed [simp, layout]:
  "length (put_PacketIndexed p) = sizeof_PacketIndexed"
  by (simp add: put_PacketIndexed_def sizeof_PacketIndexed_def sizeof_PacketHeader_def)

lemma get_put_PacketIndexed [simp, codec]:
  "get_PacketIndexed (put_PacketIndexed p @ bs) = (p, bs)"
  by (simp add: put_PacketIndexed_def get_PacketIndexed_def Let_def)

lemma length_get_PacketIndexed [simp, layout]:
  "length (snd (get_PacketIndexed bs)) = length bs - sizeof_PacketIndexed"
  by (simp add: get_PacketIndexed_def split_beta Let_def sizeof_PacketIndexed_def sizeof_PacketHeader_def)

lemma put_get_PacketIndexed [simp, codec]:
  "sizeof_PacketIndexed \<le> length bs \<Longrightarrow> put_PacketIndexed (fst (get_PacketIndexed bs)) @ snd (get_PacketIndexed bs) = bs"
  by (simp add: put_PacketIndexed_def get_PacketIndexed_def split_beta Let_def sizeof_PacketIndexed_def sizeof_PacketHeader_def)


subsection \<open>JointInfo\<close>

record JointInfo =
  ji_encoder_position :: "u16"
  ji_encoder_speed :: "s16"
  ji_desired_speed :: "s16"
  ji_pwm :: "s16"
  ji_sensed_current :: "s16"
  ji_mode :: "u8"

definition put_JointInfo :: "JointInfo \<Rightarrow> u8 list" where
  "put_JointInfo p =
     put16 (ji_encoder_position p) @
     put16 (ji_encoder_speed p) @
     put16 (ji_desired_speed p) @
     put16 (ji_pwm p) @
     put16 (ji_sensed_current p) @
     put8 (ji_mode p)"

definition get_JointInfo :: "u8 list \<Rightarrow> JointInfo \<times> u8 list" where
  "get_JointInfo bs0 =
    (let (v_encoder_position, bs1) = get16 bs0;
         (v_encoder_speed, bs2) = get16 bs1;
         (v_desired_speed, bs3) = get16 bs2;
         (v_pwm, bs4) = get16 bs3;
         (v_sensed_current, bs5) = get16 bs4;
         (v_mode, bs6) = get8 bs5
     in (\<lparr>ji_encoder_position = v_encoder_position, ji_encoder_speed = v_encoder_speed, ji_desired_speed = v_desired_speed, ji_pwm = v_pwm, ji_sensed_current = v_sensed_current, ji_mode = v_mode\<rparr>, bs6))"

definition sizeof_JointInfo :: nat where
  "sizeof_JointInfo = 11"

lemma length_put_JointInfo [simp, layout]:
  "length (put_JointInfo p) = sizeof_JointInfo"
  by (simp add: put_JointInfo_def sizeof_JointInfo_def)

lemma get_put_JointInfo [simp, codec]:
  "get_JointInfo (put_JointInfo p @ bs) = (p, bs)"
  by (simp add: put_JointInfo_def get_JointInfo_def Let_def)

lemma length_get_JointInfo [simp, layout]:
  "length (snd (get_JointInfo bs)) = length bs - sizeof_JointInfo"
  by (simp add: get_JointInfo_def split_beta Let_def sizeof_JointInfo_def)

lemma put_get_JointInfo [simp, codec]:
  "sizeof_JointInfo \<le> length bs \<Longrightarrow> put_JointInfo (fst (get_JointInfo bs)) @ snd (get_JointInfo bs) = bs"
  by (simp add: put_JointInfo_def get_JointInfo_def split_beta Let_def sizeof_JointInfo_def)


subsection \<open>JointParams\<close>

record JointParams =
  jp_kp :: "s16"
  jp_ki :: "s16"
  jp_kd :: "s16"
  jp_max_i :: "s16"
  jp_min_pwm :: "s16"
  jp_max_pwm :: "s16"
  jp_max_speed :: "s16"
  jp_slope :: "s16"
  jp_h_bridge_type :: "u8"
  jp_h_bridge_pins :: "u8 list"

definition put_JointParams :: "JointParams \<Rightarrow> u8 list" where
  "put_JointParams p =
     put16 (jp_kp p) @
     put16 (jp_ki p) @
     put16 (jp_kd p) @
     put16 (jp_max_i p) @
     put16 (jp_min_pwm p) @
     put16 (jp_max_pwm p) @
     put16 (jp_max_speed p) @
     put16 (jp_slope p) @
     put8 (jp_h_bridge_type p) @
     put8s (jp_h_bridge_pins p)"

definition get_JointParams :: "u8 list \<Rightarrow> JointParams \<times> u8 list" where
  "get_JointParams bs0 =
    (let (v_kp, bs1) = get16 bs0;
         (v_ki, bs2) = get16 bs1;
         (v_kd, bs3) = get16 bs2;
         (v_max_i, bs4) = get16 bs3;
         (v_min_pwm, bs5) = get16 bs4;
         (v_max_pwm, bs6) = get16 bs5;
         (v_max_speed, bs7) = get16 bs6;
         (v_slope, bs8) = get16 bs7;
         (v_h_bridge_type, bs9) = get8 bs8;
         (v_h_bridge_pins, bs10) = get8s 3 bs9
     in (\<lparr>jp_kp = v_kp, jp_ki = v_ki, jp_kd = v_kd, jp_max_i = v_max_i, jp_min_pwm = v_min_pwm, jp_max_pwm = v_max_pwm, jp_max_speed = v_max_speed, jp_slope = v_slope, jp_h_bridge_type = v_h_bridge_type, jp_h_bridge_pins = v_h_bridge_pins\<rparr>, bs10))"

definition sizeof_JointParams :: nat where
  "sizeof_JointParams = 20"

definition wf_JointParams :: "JointParams \<Rightarrow> bool" where
  "wf_JointParams p \<longleftrightarrow> length (jp_h_bridge_pins p) = 3"

lemma length_put_JointParams [simp, layout]:
  "wf_JointParams p \<Longrightarrow> length (put_JointParams p) = sizeof_JointParams"
  by (simp add: put_JointParams_def sizeof_JointParams_def wf_JointParams_def)

lemma get_put_JointParams [simp, codec]:
  "wf_JointParams p \<Longrightarrow> get_JointParams (put_JointParams p @ bs) = (p, bs)"
  by (simp add: put_JointParams_def get_JointParams_def wf_JointParams_def Let_def)

lemma length_get_JointParams [simp, layout]:
  "length (snd (get_JointParams bs)) = length bs - sizeof_JointParams"
  by (simp add: get_JointParams_def split_beta Let_def sizeof_JointParams_def)

lemma wf_get_JointParams [simp]:
  "sizeof_JointParams \<le> length bs \<Longrightarrow> wf_JointParams (fst (get_JointParams bs))"
  by (simp add: get_JointParams_def split_beta Let_def sizeof_JointParams_def wf_JointParams_def)

lemma put_get_JointParams [simp, codec]:
  "sizeof_JointParams \<le> length bs \<Longrightarrow> put_JointParams (fst (get_JointParams bs)) @ snd (get_JointParams bs) = bs"
  by (simp add: put_JointParams_def get_JointParams_def split_beta Let_def sizeof_JointParams_def)


subsection \<open>JointControl\<close>

record JointControl =
  jc_speed :: "s16"
  jc_mode :: "u8"

definition put_JointControl :: "JointControl \<Rightarrow> u8 list" where
  "put_JointControl p =
     put16 (jc_speed p) @
     put8 (jc_mode p)"

definition get_JointControl :: "u8 list \<Rightarrow> JointControl \<times> u8 list" where
  "get_JointControl bs0 =
    (let (v_speed, bs1) = get16 bs0;
         (v_mode, bs2) = get8 bs1
     in (\<lparr>jc_speed = v_speed, jc_mode = v_mode\<rparr>, bs2))"

definition sizeof_JointControl :: nat where
  "sizeof_JointControl = 3"

lemma length_put_JointControl [simp, layout]:
  "length (put_JointControl p) = sizeof_JointControl"
  by (simp add: put_JointControl_def sizeof_JointControl_def)

lemma get_put_JointControl [simp, codec]:
  "get_JointControl (put_JointControl p @ bs) = (p, bs)"
  by (simp add: put_JointControl_def get_JointControl_def Let_def)

lemma length_get_JointControl [simp, layout]:
  "length (snd (get_JointControl bs)) = length bs - sizeof_JointControl"
  by (simp add: get_JointControl_def split_beta Let_def sizeof_JointControl_def)

lemma put_get_JointControl [simp, codec]:
  "sizeof_JointControl \<le> length bs \<Longrightarrow> put_JointControl (fst (get_JointControl bs)) @ snd (get_JointControl bs) = bs"
  by (simp add: put_JointControl_def get_JointControl_def split_beta Let_def sizeof_JointControl_def)


subsection \<open>ResponsePacket\<close>

record ResponsePacket =
  rp_header :: "PacketHeader"
  rp_p_type :: "u8"
  rp_p_seq :: "u16"
  rp_p_result :: "u8"

definition put_ResponsePacket :: "ResponsePacket \<Rightarrow> u8 list" where
  "put_ResponsePacket p =
     put_PacketHeader (rp_header p) @
     put8 (rp_p_type p) @
     put16 (rp_p_seq p) @
     put8 (rp_p_result p)"

definition get_ResponsePacket :: "u8 list \<Rightarrow> ResponsePacket \<times> u8 list" where
  "get_ResponsePacket bs0 =
    (let (v_header, bs1) = get_PacketHeader bs0;
         (v_p_type, bs2) = get8 bs1;
         (v_p_seq, bs3) = get16 bs2;
         (v_p_result, bs4) = get8 bs3
     in (\<lparr>rp_header = v_header, rp_p_type = v_p_type, rp_p_seq = v_p_seq, rp_p_result = v_p_result\<rparr>, bs4))"

definition sizeof_ResponsePacket :: nat where
  "sizeof_ResponsePacket = 8"

lemma length_put_ResponsePacket [simp, layout]:
  "length (put_ResponsePacket p) = sizeof_ResponsePacket"
  by (simp add: put_ResponsePacket_def sizeof_ResponsePacket_def sizeof_PacketHeader_def)

lemma get_put_ResponsePacket [simp, codec]:
  "get_ResponsePacket (put_ResponsePacket p @ bs) = (p, bs)"
  by (simp add: put_ResponsePacket_def get_ResponsePacket_def Let_def)

lemma length_get_ResponsePacket [simp, layout]:
  "length (snd (get_ResponsePacket bs)) = length bs - sizeof_ResponsePacket"
  by (simp add: get_ResponsePacket_def split_beta Let_def sizeof_ResponsePacket_def sizeof_PacketHeader_def)

lemma put_get_ResponsePacket [simp, codec]:
  "sizeof_ResponsePacket \<le> length bs \<Longrightarrow> put_ResponsePacket (fst (get_ResponsePacket bs)) @ snd (get_ResponsePacket bs) = bs"
  by (simp add: put_ResponsePacket_def get_ResponsePacket_def split_beta Let_def sizeof_ResponsePacket_def sizeof_PacketHeader_def)


subsection \<open>ParamControlPacket\<close>

record ParamControlPacket =
  pc_header :: "PacketHeader"
  pc_action :: "u8"
  pc_param_type :: "u8"
  pc_index :: "u8"

definition put_ParamControlPacket :: "ParamControlPacket \<Rightarrow> u8 list" where
  "put_ParamControlPacket p =
     put_PacketHeader (pc_header p) @
     put8 (pc_action p) @
     put8 (pc_param_type p) @
     put8 (pc_index p)"

definition get_ParamControlPacket :: "u8 list \<Rightarrow> ParamControlPacket \<times> u8 list" where
  "get_ParamControlPacket bs0 =
    (let (v_header, bs1) = get_PacketHeader bs0;
         (v_action, bs2) = get8 bs1;
         (v_param_type, bs3) = get8 bs2;
         (v_index, bs4) = get8 bs3
     in (\<lparr>pc_header = v_header, pc_action = v_action, pc_param_type = v_param_type, pc_index = v_index\<rparr>, bs4))"

definition sizeof_ParamControlPacket :: nat where
  "sizeof_ParamControlPacket = 7"

lemma length_put_ParamControlPacket [simp, layout]:
  "length (put_ParamControlPacket p) = sizeof_ParamControlPacket"
  by (simp add: put_ParamControlPacket_def sizeof_ParamControlPacket_def sizeof_PacketHeader_def)

lemma get_put_ParamControlPacket [simp, codec]:
  "get_ParamControlPacket (put_ParamControlPacket p @ bs) = (p, bs)"
  by (simp add: put_ParamControlPacket_def get_ParamControlPacket_def Let_def)

lemma length_get_ParamControlPacket [simp, layout]:
  "length (snd (get_ParamControlPacket bs)) = length bs - sizeof_ParamControlPacket"
  by (simp add: get_ParamControlPacket_def split_beta Let_def sizeof_ParamControlPacket_def sizeof_PacketHeader_def)

lemma put_get_ParamControlPacket [simp, codec]:
  "sizeof_ParamControlPacket \<le> length bs \<Longrightarrow> put_ParamControlPacket (fst (get_ParamControlPacket bs)) @ snd (get_ParamControlPacket bs) = bs"
  by (simp add: put_ParamControlPacket_def get_ParamControlPacket_def split_beta Let_def sizeof_ParamControlPacket_def sizeof_PacketHeader_def)


subsection \<open>SystemStatusPacket\<close>

record SystemStatusPacket =
  ss_header :: "PacketHeader"
  ss_rx_buffer_size :: "u16"
  ss_rx_packets :: "u16"
  ss_rx_packet_errors :: "u16"
  ss_tx_buffer_size :: "u16"
  ss_tx_packets :: "u16"
  ss_tx_packet_errors :: "u16"
  ss_battery_level :: "u16"
  ss_watchdog_count :: "s16"
  ss_rx_seq :: "u16"
  ss_rx_packet_queue :: "u8"
  ss_idle_cycles :: "u32"

definition put_SystemStatusPacket :: "SystemStatusPacket \<Rightarrow> u8 list" where
  "put_SystemStatusPacket p =
     put_PacketHeader (ss_header p) @
     put16 (ss_rx_buffer_size p) @
     put16 (ss_rx_packets p) @
     put16 (ss_rx_packet_errors p) @
     put16 (ss_tx_buffer_size p) @
     put16 (ss_tx_packets p) @
     put16 (ss_tx_packet_errors p) @
     put16 (ss_battery_level p) @
     put16 (ss_watchdog_count p) @
     put16 (ss_rx_seq p) @
     put8 (ss_rx_packet_queue p) @
     put32 (ss_idle_cycles p)"

definition get_SystemStatusPacket :: "u8 list \<Rightarrow> SystemStatusPacket \<times> u8 list" where
  "get_SystemStatusPacket bs0 =
    (let (v_header, bs1) = get_PacketHeader bs0;
         (v_rx_buffer_size, bs2) = get16 bs1;
         (v_rx_packets, bs3) = get16 bs2;
         (v_rx_packet_errors, bs4) = get16 bs3;
         (v_tx_buffer_size, bs5) = get16 bs4;
         (v_tx_packets, bs6) = get16 bs5;
         (v_tx_packet_errors, bs7) = get16 bs6;
         (v_battery_level, bs8) = get16 bs7;
         (v_watchdog_count, bs9) = get16 bs8;
         (v_rx_seq, bs10) = get16 bs9;
         (v_rx_packet_queue, bs11) = get8 bs10;
         (v_idle_cycles, bs12) = get32 bs11
     in (\<lparr>ss_header = v_header, ss_rx_buffer_size = v_rx_buffer_size, ss_rx_packets = v_rx_packets, ss_rx_packet_errors = v_rx_packet_errors, ss_tx_buffer_size = v_tx_buffer_size, ss_tx_packets = v_tx_packets, ss_tx_packet_errors = v_tx_packet_errors, ss_battery_level = v_battery_level, ss_watchdog_count = v_watchdog_count, ss_rx_seq = v_rx_seq, ss_rx_packet_queue = v_rx_packet_queue, ss_idle_cycles = v_idle_cycles\<rparr>, bs12))"

definition sizeof_SystemStatusPacket :: nat where
  "sizeof_SystemStatusPacket = 27"

lemma length_put_SystemStatusPacket [simp, layout]:
  "length (put_SystemStatusPacket p) = sizeof_SystemStatusPacket"
  by (simp add: put_SystemStatusPacket_def sizeof_SystemStatusPacket_def sizeof_PacketHeader_def)

lemma get_put_SystemStatusPacket [simp, codec]:
  "get_SystemStatusPacket (put_SystemStatusPacket p @ bs) = (p, bs)"
  by (simp add: put_SystemStatusPacket_def get_SystemStatusPacket_def Let_def)

lemma length_get_SystemStatusPacket [simp, layout]:
  "length (snd (get_SystemStatusPacket bs)) = length bs - sizeof_SystemStatusPacket"
  by (simp add: get_SystemStatusPacket_def split_beta Let_def sizeof_SystemStatusPacket_def sizeof_PacketHeader_def)

lemma put_get_SystemStatusPacket [simp, codec]:
  "sizeof_SystemStatusPacket \<le> length bs \<Longrightarrow> put_SystemStatusPacket (fst (get_SystemStatusPacket bs)) @ snd (get_SystemStatusPacket bs) = bs"
  by (simp add: put_SystemStatusPacket_def get_SystemStatusPacket_def split_beta Let_def sizeof_SystemStatusPacket_def sizeof_PacketHeader_def)


subsection \<open>SystemParamPacket\<close>

record SystemParamPacket =
  sp_header :: "PacketHeader"
  sp_protocol_version :: "u32"
  sp_firmware_version :: "u32"
  sp_timer_period_ms :: "s16"
  sp_comm_speed :: "u32"
  sp_comm_cycles :: "u16"
  sp_periodic_packet_mask :: "u8"
  sp_watchdog_cycles :: "u16"
  sp_num_joints :: "u8"

definition put_SystemParamPacket :: "SystemParamPacket \<Rightarrow> u8 list" where
  "put_SystemParamPacket p =
     put_PacketHeader (sp_header p) @
     put32 (sp_protocol_version p) @
     put32 (sp_firmware_version p) @
     put16 (sp_timer_period_ms p) @
     put32 (sp_comm_speed p) @
     put16 (sp_comm_cycles p) @
     put8 (sp_periodic_packet_mask p) @
     put16 (sp_watchdog_cycles p) @
     put8 (sp_num_joints p)"

definition get_SystemParamPacket :: "u8 list \<Rightarrow> SystemParamPacket \<times> u8 list" where
  "get_SystemParamPacket bs0 =
    (let (v_header, bs1) = get_PacketHeader bs0;
         (v_protocol_version, bs2) = get32 bs1;
         (v_firmware_version, bs3) = get32 bs2;
         (v_timer_period_ms, bs4) = get16 bs3;
         (v_comm_speed, bs5) = get32 bs4;
         (v_comm_cycles, bs6) = get16 bs5;
         (v_periodic_packet_mask, bs7) = get8 bs6;
         (v_watchdog_cycles, bs8) = get16 bs7;
         (v_num_joints, bs9) = get8 bs8
     in (\<lparr>sp_header = v_header, sp_protocol_version = v_protocol_version, sp_firmware_version = v_firmware_version, sp_timer_period_ms = v_timer_period_ms, sp_comm_speed = v_comm_speed, sp_comm_cycles = v_comm_cycles, sp_periodic_packet_mask = v_periodic_packet_mask, sp_watchdog_cycles = v_watchdog_cycles, sp_num_joints = v_num_joints\<rparr>, bs9))"

definition sizeof_SystemParamPacket :: nat where
  "sizeof_SystemParamPacket = 24"

lemma length_put_SystemParamPacket [simp, layout]:
  "length (put_SystemParamPacket p) = sizeof_SystemParamPacket"
  by (simp add: put_SystemParamPacket_def sizeof_SystemParamPacket_def sizeof_PacketHeader_def)

lemma get_put_SystemParamPacket [simp, codec]:
  "get_SystemParamPacket (put_SystemParamPacket p @ bs) = (p, bs)"
  by (simp add: put_SystemParamPacket_def get_SystemParamPacket_def Let_def)

lemma length_get_SystemParamPacket [simp, layout]:
  "length (snd (get_SystemParamPacket bs)) = length bs - sizeof_SystemParamPacket"
  by (simp add: get_SystemParamPacket_def split_beta Let_def sizeof_SystemParamPacket_def sizeof_PacketHeader_def)

lemma put_get_SystemParamPacket [simp, codec]:
  "sizeof_SystemParamPacket \<le> length bs \<Longrightarrow> put_SystemParamPacket (fst (get_SystemParamPacket bs)) @ snd (get_SystemParamPacket bs) = bs"
  by (simp add: put_SystemParamPacket_def get_SystemParamPacket_def split_beta Let_def sizeof_SystemParamPacket_def sizeof_PacketHeader_def)


subsection \<open>JointStatusPacket\<close>

record JointStatusPacket =
  jst_header :: "PacketIndexed"
  jst_info :: "JointInfo"

definition put_JointStatusPacket :: "JointStatusPacket \<Rightarrow> u8 list" where
  "put_JointStatusPacket p =
     put_PacketIndexed (jst_header p) @
     put_JointInfo (jst_info p)"

definition get_JointStatusPacket :: "u8 list \<Rightarrow> JointStatusPacket \<times> u8 list" where
  "get_JointStatusPacket bs0 =
    (let (v_header, bs1) = get_PacketIndexed bs0;
         (v_info, bs2) = get_JointInfo bs1
     in (\<lparr>jst_header = v_header, jst_info = v_info\<rparr>, bs2))"

definition sizeof_JointStatusPacket :: nat where
  "sizeof_JointStatusPacket = 16"

lemma length_put_JointStatusPacket [simp, layout]:
  "length (put_JointStatusPacket p) = sizeof_JointStatusPacket"
  by (simp add: put_JointStatusPacket_def sizeof_JointStatusPacket_def sizeof_PacketIndexed_def sizeof_JointInfo_def)

lemma get_put_JointStatusPacket [simp, codec]:
  "get_JointStatusPacket (put_JointStatusPacket p @ bs) = (p, bs)"
  by (simp add: put_JointStatusPacket_def get_JointStatusPacket_def Let_def)

lemma length_get_JointStatusPacket [simp, layout]:
  "length (snd (get_JointStatusPacket bs)) = length bs - sizeof_JointStatusPacket"
  by (simp add: get_JointStatusPacket_def split_beta Let_def sizeof_JointStatusPacket_def sizeof_PacketIndexed_def sizeof_JointInfo_def)

lemma put_get_JointStatusPacket [simp, codec]:
  "sizeof_JointStatusPacket \<le> length bs \<Longrightarrow> put_JointStatusPacket (fst (get_JointStatusPacket bs)) @ snd (get_JointStatusPacket bs) = bs"
  by (simp add: put_JointStatusPacket_def get_JointStatusPacket_def split_beta Let_def sizeof_JointStatusPacket_def sizeof_PacketIndexed_def sizeof_JointInfo_def)


subsection \<open>JointControlPacket\<close>

record JointControlPacket =
  jct_header :: "PacketIndexed"
  jct_control :: "JointControl"

definition put_JointControlPacket :: "JointControlPacket \<Rightarrow> u8 list" where
  "put_JointControlPacket p =
     put_PacketIndexed (jct_header p) @
     put_JointControl (jct_control p)"

definition get_JointControlPacket :: "u8 list \<Rightarrow> JointControlPacket \<times> u8 list" where
  "get_JointControlPacket bs0 =
    (let (v_header, bs1) = get_PacketIndexed bs0;
         (v_control, bs2) = get_JointControl bs1
     in (\<lparr>jct_header = v_header, jct_control = v_control\<rparr>, bs2))"

definition sizeof_JointControlPacket :: nat where
  "sizeof_JointControlPacket = 8"

lemma length_put_JointControlPacket [simp, layout]:
  "length (put_JointControlPacket p) = sizeof_JointControlPacket"
  by (simp add: put_JointControlPacket_def sizeof_JointControlPacket_def sizeof_PacketIndexed_def sizeof_JointControl_def)

lemma get_put_JointControlPacket [simp, codec]:
  "get_JointControlPacket (put_JointControlPacket p @ bs) = (p, bs)"
  by (simp add: put_JointControlPacket_def get_JointControlPacket_def Let_def)

lemma length_get_JointControlPacket [simp, layout]:
  "length (snd (get_JointControlPacket bs)) = length bs - sizeof_JointControlPacket"
  by (simp add: get_JointControlPacket_def split_beta Let_def sizeof_JointControlPacket_def sizeof_PacketIndexed_def sizeof_JointControl_def)

lemma put_get_JointControlPacket [simp, codec]:
  "sizeof_JointControlPacket \<le> length bs \<Longrightarrow> put_JointControlPacket (fst (get_JointControlPacket bs)) @ snd (get_JointControlPacket bs) = bs"
  by (simp add: put_JointControlPacket_def get_JointControlPacket_def split_beta Let_def sizeof_JointControlPacket_def sizeof_PacketIndexed_def sizeof_JointControl_def)


subsection \<open>JointParamPacket\<close>

record JointParamPacket =
  jpp_header :: "PacketIndexed"
  jpp_param :: "JointParams"

definition put_JointParamPacket :: "JointParamPacket \<Rightarrow> u8 list" where
  "put_JointParamPacket p =
     put_PacketIndexed (jpp_header p) @
     put_JointParams (jpp_param p)"

definition get_JointParamPacket :: "u8 list \<Rightarrow> JointParamPacket \<times> u8 list" where
  "get_JointParamPacket bs0 =
    (let (v_header, bs1) = get_PacketIndexed bs0;
         (v_param, bs2) = get_JointParams bs1
     in (\<lparr>jpp_header = v_header, jpp_param = v_param\<rparr>, bs2))"

definition sizeof_JointParamPacket :: nat where
  "sizeof_JointParamPacket = 25"

definition wf_JointParamPacket :: "JointParamPacket \<Rightarrow> bool" where
  "wf_JointParamPacket p \<longleftrightarrow> wf_JointParams (jpp_param p)"

lemma length_put_JointParamPacket [simp, layout]:
  "wf_JointParamPacket p \<Longrightarrow> length (put_JointParamPacket p) = sizeof_JointParamPacket"
  by (simp add: put_JointParamPacket_def sizeof_JointParamPacket_def wf_JointParamPacket_def sizeof_PacketIndexed_def sizeof_JointParams_def)

lemma get_put_JointParamPacket [simp, codec]:
  "wf_JointParamPacket p \<Longrightarrow> get_JointParamPacket (put_JointParamPacket p @ bs) = (p, bs)"
  by (simp add: put_JointParamPacket_def get_JointParamPacket_def wf_JointParamPacket_def Let_def)

lemma length_get_JointParamPacket [simp, layout]:
  "length (snd (get_JointParamPacket bs)) = length bs - sizeof_JointParamPacket"
  by (simp add: get_JointParamPacket_def split_beta Let_def sizeof_JointParamPacket_def sizeof_PacketIndexed_def sizeof_JointParams_def)

lemma wf_get_JointParamPacket [simp]:
  "sizeof_JointParamPacket \<le> length bs \<Longrightarrow> wf_JointParamPacket (fst (get_JointParamPacket bs))"
  by (simp add: get_JointParamPacket_def split_beta Let_def sizeof_JointParamPacket_def wf_JointParamPacket_def sizeof_PacketIndexed_def sizeof_JointParams_def)

lemma put_get_JointParamPacket [simp, codec]:
  "sizeof_JointParamPacket \<le> length bs \<Longrightarrow> put_JointParamPacket (fst (get_JointParamPacket bs)) @ snd (get_JointParamPacket bs) = bs"
  by (simp add: put_JointParamPacket_def get_JointParamPacket_def split_beta Let_def sizeof_JointParamPacket_def sizeof_PacketIndexed_def sizeof_JointParams_def)


subsection \<open>DifferentialDriveStatusPacket\<close>

record DifferentialDriveStatusPacket =
  ds_header :: "PacketHeader"
  ds_odom_x :: "f32"
  ds_odom_y :: "f32"
  ds_odom_theta :: "f32"
  ds_translational_velocity_measured :: "f32"
  ds_rotational_velocity_measured :: "f32"
  ds_translational_velocity_desired :: "f32"
  ds_rotational_velocity_desired :: "f32"
  ds_translational_velocity_adjusted :: "f32"
  ds_rotational_velocity_adjusted :: "f32"
  ds_enabled :: "u8"

definition put_DifferentialDriveStatusPacket :: "DifferentialDriveStatusPacket \<Rightarrow> u8 list" where
  "put_DifferentialDriveStatusPacket p =
     put_PacketHeader (ds_header p) @
     put32 (ds_odom_x p) @
     put32 (ds_odom_y p) @
     put32 (ds_odom_theta p) @
     put32 (ds_translational_velocity_measured p) @
     put32 (ds_rotational_velocity_measured p) @
     put32 (ds_translational_velocity_desired p) @
     put32 (ds_rotational_velocity_desired p) @
     put32 (ds_translational_velocity_adjusted p) @
     put32 (ds_rotational_velocity_adjusted p) @
     put8 (ds_enabled p)"

definition get_DifferentialDriveStatusPacket :: "u8 list \<Rightarrow> DifferentialDriveStatusPacket \<times> u8 list" where
  "get_DifferentialDriveStatusPacket bs0 =
    (let (v_header, bs1) = get_PacketHeader bs0;
         (v_odom_x, bs2) = get32 bs1;
         (v_odom_y, bs3) = get32 bs2;
         (v_odom_theta, bs4) = get32 bs3;
         (v_translational_velocity_measured, bs5) = get32 bs4;
         (v_rotational_velocity_measured, bs6) = get32 bs5;
         (v_translational_velocity_desired, bs7) = get32 bs6;
         (v_rotational_velocity_desired, bs8) = get32 bs7;
         (v_translational_velocity_adjusted, bs9) = get32 bs8;
         (v_rotational_velocity_adjusted, bs10) = get32 bs9;
         (v_enabled, bs11) = get8 bs10
     in (\<lparr>ds_header = v_header, ds_odom_x = v_odom_x, ds_odom_y = v_odom_y, ds_odom_theta = v_odom_theta, ds_translational_velocity_measured = v_translational_velocity_measured, ds_rotational_velocity_measured = v_rotational_velocity_measured, ds_translational_velocity_desired = v_translational_velocity_desired, ds_rotational_velocity_desired = v_rotational_velocity_desired, ds_translational_velocity_adjusted = v_translational_velocity_adjusted, ds_rotational_velocity_adjusted = v_rotational_velocity_adjusted, ds_enabled = v_enabled\<rparr>, bs11))"

definition sizeof_DifferentialDriveStatusPacket :: nat where
  "sizeof_DifferentialDriveStatusPacket = 41"

lemma length_put_DifferentialDriveStatusPacket [simp, layout]:
  "length (put_DifferentialDriveStatusPacket p) = sizeof_DifferentialDriveStatusPacket"
  by (simp add: put_DifferentialDriveStatusPacket_def sizeof_DifferentialDriveStatusPacket_def sizeof_PacketHeader_def)

lemma get_put_DifferentialDriveStatusPacket [simp, codec]:
  "get_DifferentialDriveStatusPacket (put_DifferentialDriveStatusPacket p @ bs) = (p, bs)"
  by (simp add: put_DifferentialDriveStatusPacket_def get_DifferentialDriveStatusPacket_def Let_def)

lemma length_get_DifferentialDriveStatusPacket [simp, layout]:
  "length (snd (get_DifferentialDriveStatusPacket bs)) = length bs - sizeof_DifferentialDriveStatusPacket"
  by (simp add: get_DifferentialDriveStatusPacket_def split_beta Let_def sizeof_DifferentialDriveStatusPacket_def sizeof_PacketHeader_def)

lemma put_get_DifferentialDriveStatusPacket [simp, codec]:
  "sizeof_DifferentialDriveStatusPacket \<le> length bs \<Longrightarrow> put_DifferentialDriveStatusPacket (fst (get_DifferentialDriveStatusPacket bs)) @ snd (get_DifferentialDriveStatusPacket bs) = bs"
  by (simp add: put_DifferentialDriveStatusPacket_def get_DifferentialDriveStatusPacket_def split_beta Let_def sizeof_DifferentialDriveStatusPacket_def sizeof_PacketHeader_def)


subsection \<open>DifferentialDriveControlPacket\<close>

record DifferentialDriveControlPacket =
  dc_header :: "PacketHeader"
  dc_translational_velocity :: "f32"
  dc_rotational_velocity :: "f32"

definition put_DifferentialDriveControlPacket :: "DifferentialDriveControlPacket \<Rightarrow> u8 list" where
  "put_DifferentialDriveControlPacket p =
     put_PacketHeader (dc_header p) @
     put32 (dc_translational_velocity p) @
     put32 (dc_rotational_velocity p)"

definition get_DifferentialDriveControlPacket :: "u8 list \<Rightarrow> DifferentialDriveControlPacket \<times> u8 list" where
  "get_DifferentialDriveControlPacket bs0 =
    (let (v_header, bs1) = get_PacketHeader bs0;
         (v_translational_velocity, bs2) = get32 bs1;
         (v_rotational_velocity, bs3) = get32 bs2
     in (\<lparr>dc_header = v_header, dc_translational_velocity = v_translational_velocity, dc_rotational_velocity = v_rotational_velocity\<rparr>, bs3))"

definition sizeof_DifferentialDriveControlPacket :: nat where
  "sizeof_DifferentialDriveControlPacket = 12"

lemma length_put_DifferentialDriveControlPacket [simp, layout]:
  "length (put_DifferentialDriveControlPacket p) = sizeof_DifferentialDriveControlPacket"
  by (simp add: put_DifferentialDriveControlPacket_def sizeof_DifferentialDriveControlPacket_def sizeof_PacketHeader_def)

lemma get_put_DifferentialDriveControlPacket [simp, codec]:
  "get_DifferentialDriveControlPacket (put_DifferentialDriveControlPacket p @ bs) = (p, bs)"
  by (simp add: put_DifferentialDriveControlPacket_def get_DifferentialDriveControlPacket_def Let_def)

lemma length_get_DifferentialDriveControlPacket [simp, layout]:
  "length (snd (get_DifferentialDriveControlPacket bs)) = length bs - sizeof_DifferentialDriveControlPacket"
  by (simp add: get_DifferentialDriveControlPacket_def split_beta Let_def sizeof_DifferentialDriveControlPacket_def sizeof_PacketHeader_def)

lemma put_get_DifferentialDriveControlPacket [simp, codec]:
  "sizeof_DifferentialDriveControlPacket \<le> length bs \<Longrightarrow> put_DifferentialDriveControlPacket (fst (get_DifferentialDriveControlPacket bs)) @ snd (get_DifferentialDriveControlPacket bs) = bs"
  by (simp add: put_DifferentialDriveControlPacket_def get_DifferentialDriveControlPacket_def split_beta Let_def sizeof_DifferentialDriveControlPacket_def sizeof_PacketHeader_def)


subsection \<open>DifferentialDriveParamPacket\<close>

record DifferentialDriveParamPacket =
  dp_header :: "PacketHeader"
  dp_ikr :: "f32"
  dp_ikl :: "f32"
  dp_baseline :: "f32"
  dp_max_translational_velocity :: "f32"
  dp_max_translational_acceleration :: "f32"
  dp_max_translational_brake :: "f32"
  dp_max_rotational_velocity :: "f32"
  dp_max_rotational_acceleration :: "f32"
  dp_right_joint_index :: "u8"
  dp_left_joint_index :: "u8"

definition put_DifferentialDriveParamPacket :: "DifferentialDriveParamPacket \<Rightarrow> u8 list" where
  "put_DifferentialDriveParamPacket p =
     put_PacketHeader (dp_header p) @
     put32 (dp_ikr p) @
     put32 (dp_ikl p) @
     put32 (dp_baseline p) @
     put32 (dp_max_translational_velocity p) @
     put32 (dp_max_translational_acceleration p) @
     put32 (dp_max_translational_brake p) @
     put32 (dp_max_rotational_velocity p) @
     put32 (dp_max_rotational_acceleration p) @
     put8 (dp_right_joint_index p) @
     put8 (dp_left_joint_index p)"

definition get_DifferentialDriveParamPacket :: "u8 list \<Rightarrow> DifferentialDriveParamPacket \<times> u8 list" where
  "get_DifferentialDriveParamPacket bs0 =
    (let (v_header, bs1) = get_PacketHeader bs0;
         (v_ikr, bs2) = get32 bs1;
         (v_ikl, bs3) = get32 bs2;
         (v_baseline, bs4) = get32 bs3;
         (v_max_translational_velocity, bs5) = get32 bs4;
         (v_max_translational_acceleration, bs6) = get32 bs5;
         (v_max_translational_brake, bs7) = get32 bs6;
         (v_max_rotational_velocity, bs8) = get32 bs7;
         (v_max_rotational_acceleration, bs9) = get32 bs8;
         (v_right_joint_index, bs10) = get8 bs9;
         (v_left_joint_index, bs11) = get8 bs10
     in (\<lparr>dp_header = v_header, dp_ikr = v_ikr, dp_ikl = v_ikl, dp_baseline = v_baseline, dp_max_translational_velocity = v_max_translational_velocity, dp_max_translational_acceleration = v_max_translational_acceleration, dp_max_translational_brake = v_max_translational_brake, dp_max_rotational_velocity = v_max_rotational_velocity, dp_max_rotational_acceleration = v_max_rotational_acceleration, dp_right_joint_index = v_right_joint_index, dp_left_joint_index = v_left_joint_index\<rparr>, bs11))"

definition sizeof_DifferentialDriveParamPacket :: nat where
  "sizeof_DifferentialDriveParamPacket = 38"

lemma length_put_DifferentialDriveParamPacket [simp, layout]:
  "length (put_DifferentialDriveParamPacket p) = sizeof_DifferentialDriveParamPacket"
  by (simp add: put_DifferentialDriveParamPacket_def sizeof_DifferentialDriveParamPacket_def sizeof_PacketHeader_def)

lemma get_put_DifferentialDriveParamPacket [simp, codec]:
  "get_DifferentialDriveParamPacket (put_DifferentialDriveParamPacket p @ bs) = (p, bs)"
  by (simp add: put_DifferentialDriveParamPacket_def get_DifferentialDriveParamPacket_def Let_def)

lemma length_get_DifferentialDriveParamPacket [simp, layout]:
  "length (snd (get_DifferentialDriveParamPacket bs)) = length bs - sizeof_DifferentialDriveParamPacket"
  by (simp add: get_DifferentialDriveParamPacket_def split_beta Let_def sizeof_DifferentialDriveParamPacket_def sizeof_PacketHeader_def)

lemma put_get_DifferentialDriveParamPacket [simp, codec]:
  "sizeof_DifferentialDriveParamPacket \<le> length bs \<Longrightarrow> put_DifferentialDriveParamPacket (fst (get_DifferentialDriveParamPacket bs)) @ snd (get_DifferentialDriveParamPacket bs) = bs"
  by (simp add: put_DifferentialDriveParamPacket_def get_DifferentialDriveParamPacket_def split_beta Let_def sizeof_DifferentialDriveParamPacket_def sizeof_PacketHeader_def)


subsection \<open>StringMessagePacket\<close>

record StringMessagePacket =
  sm_header :: "PacketHeader"
  sm_message :: "u8 list"

definition put_StringMessagePacket :: "StringMessagePacket \<Rightarrow> u8 list" where
  "put_StringMessagePacket p =
     put_PacketHeader (sm_header p) @
     put8s (sm_message p)"

definition get_StringMessagePacket :: "u8 list \<Rightarrow> StringMessagePacket \<times> u8 list" where
  "get_StringMessagePacket bs0 =
    (let (v_header, bs1) = get_PacketHeader bs0;
         (v_message, bs2) = get8s 80 bs1
     in (\<lparr>sm_header = v_header, sm_message = v_message\<rparr>, bs2))"

definition sizeof_StringMessagePacket :: nat where
  "sizeof_StringMessagePacket = 84"

definition wf_StringMessagePacket :: "StringMessagePacket \<Rightarrow> bool" where
  "wf_StringMessagePacket p \<longleftrightarrow> length (sm_message p) = 80"

lemma length_put_StringMessagePacket [simp, layout]:
  "wf_StringMessagePacket p \<Longrightarrow> length (put_StringMessagePacket p) = sizeof_StringMessagePacket"
  by (simp add: put_StringMessagePacket_def sizeof_StringMessagePacket_def wf_StringMessagePacket_def sizeof_PacketHeader_def)

lemma get_put_StringMessagePacket [simp, codec]:
  "wf_StringMessagePacket p \<Longrightarrow> get_StringMessagePacket (put_StringMessagePacket p @ bs) = (p, bs)"
  by (simp add: put_StringMessagePacket_def get_StringMessagePacket_def wf_StringMessagePacket_def Let_def)

lemma length_get_StringMessagePacket [simp, layout]:
  "length (snd (get_StringMessagePacket bs)) = length bs - sizeof_StringMessagePacket"
  by (simp add: get_StringMessagePacket_def split_beta Let_def sizeof_StringMessagePacket_def sizeof_PacketHeader_def)

lemma wf_get_StringMessagePacket [simp]:
  "sizeof_StringMessagePacket \<le> length bs \<Longrightarrow> wf_StringMessagePacket (fst (get_StringMessagePacket bs))"
  by (simp add: get_StringMessagePacket_def split_beta Let_def sizeof_StringMessagePacket_def wf_StringMessagePacket_def sizeof_PacketHeader_def)

lemma put_get_StringMessagePacket [simp, codec]:
  "sizeof_StringMessagePacket \<le> length bs \<Longrightarrow> put_StringMessagePacket (fst (get_StringMessagePacket bs)) @ snd (get_StringMessagePacket bs) = bs"
  by (simp add: put_StringMessagePacket_def get_StringMessagePacket_def split_beta Let_def sizeof_StringMessagePacket_def sizeof_PacketHeader_def)


subsection \<open>SonarStatusPacket\<close>

record SonarStatusPacket =
  sns_header :: "PacketHeader"
  sns_ranges :: "u16 list"

definition put_SonarStatusPacket :: "SonarStatusPacket \<Rightarrow> u8 list" where
  "put_SonarStatusPacket p =
     put_PacketHeader (sns_header p) @
     put16s (sns_ranges p)"

definition get_SonarStatusPacket :: "u8 list \<Rightarrow> SonarStatusPacket \<times> u8 list" where
  "get_SonarStatusPacket bs0 =
    (let (v_header, bs1) = get_PacketHeader bs0;
         (v_ranges, bs2) = get16s 8 bs1
     in (\<lparr>sns_header = v_header, sns_ranges = v_ranges\<rparr>, bs2))"

definition sizeof_SonarStatusPacket :: nat where
  "sizeof_SonarStatusPacket = 20"

definition wf_SonarStatusPacket :: "SonarStatusPacket \<Rightarrow> bool" where
  "wf_SonarStatusPacket p \<longleftrightarrow> length (sns_ranges p) = 8"

lemma length_put_SonarStatusPacket [simp, layout]:
  "wf_SonarStatusPacket p \<Longrightarrow> length (put_SonarStatusPacket p) = sizeof_SonarStatusPacket"
  by (simp add: put_SonarStatusPacket_def sizeof_SonarStatusPacket_def wf_SonarStatusPacket_def sizeof_PacketHeader_def)

lemma get_put_SonarStatusPacket [simp, codec]:
  "wf_SonarStatusPacket p \<Longrightarrow> get_SonarStatusPacket (put_SonarStatusPacket p @ bs) = (p, bs)"
  by (simp add: put_SonarStatusPacket_def get_SonarStatusPacket_def wf_SonarStatusPacket_def Let_def)

lemma length_get_SonarStatusPacket [simp, layout]:
  "length (snd (get_SonarStatusPacket bs)) = length bs - sizeof_SonarStatusPacket"
  by (simp add: get_SonarStatusPacket_def split_beta Let_def sizeof_SonarStatusPacket_def sizeof_PacketHeader_def)

lemma wf_get_SonarStatusPacket [simp]:
  "sizeof_SonarStatusPacket \<le> length bs \<Longrightarrow> wf_SonarStatusPacket (fst (get_SonarStatusPacket bs))"
  by (simp add: get_SonarStatusPacket_def split_beta Let_def sizeof_SonarStatusPacket_def wf_SonarStatusPacket_def sizeof_PacketHeader_def)

lemma put_get_SonarStatusPacket [simp, codec]:
  "sizeof_SonarStatusPacket \<le> length bs \<Longrightarrow> put_SonarStatusPacket (fst (get_SonarStatusPacket bs)) @ snd (get_SonarStatusPacket bs) = bs"
  by (simp add: put_SonarStatusPacket_def get_SonarStatusPacket_def split_beta Let_def sizeof_SonarStatusPacket_def sizeof_PacketHeader_def)


subsection \<open>SonarParamPacket\<close>

record SonarParamPacket =
  snp_header :: "PacketHeader"
  snp_pattern :: "u8 list"

definition put_SonarParamPacket :: "SonarParamPacket \<Rightarrow> u8 list" where
  "put_SonarParamPacket p =
     put_PacketHeader (snp_header p) @
     put8s (snp_pattern p)"

definition get_SonarParamPacket :: "u8 list \<Rightarrow> SonarParamPacket \<times> u8 list" where
  "get_SonarParamPacket bs0 =
    (let (v_header, bs1) = get_PacketHeader bs0;
         (v_pattern, bs2) = get8s 8 bs1
     in (\<lparr>snp_header = v_header, snp_pattern = v_pattern\<rparr>, bs2))"

definition sizeof_SonarParamPacket :: nat where
  "sizeof_SonarParamPacket = 12"

definition wf_SonarParamPacket :: "SonarParamPacket \<Rightarrow> bool" where
  "wf_SonarParamPacket p \<longleftrightarrow> length (snp_pattern p) = 8"

lemma length_put_SonarParamPacket [simp, layout]:
  "wf_SonarParamPacket p \<Longrightarrow> length (put_SonarParamPacket p) = sizeof_SonarParamPacket"
  by (simp add: put_SonarParamPacket_def sizeof_SonarParamPacket_def wf_SonarParamPacket_def sizeof_PacketHeader_def)

lemma get_put_SonarParamPacket [simp, codec]:
  "wf_SonarParamPacket p \<Longrightarrow> get_SonarParamPacket (put_SonarParamPacket p @ bs) = (p, bs)"
  by (simp add: put_SonarParamPacket_def get_SonarParamPacket_def wf_SonarParamPacket_def Let_def)

lemma length_get_SonarParamPacket [simp, layout]:
  "length (snd (get_SonarParamPacket bs)) = length bs - sizeof_SonarParamPacket"
  by (simp add: get_SonarParamPacket_def split_beta Let_def sizeof_SonarParamPacket_def sizeof_PacketHeader_def)

lemma wf_get_SonarParamPacket [simp]:
  "sizeof_SonarParamPacket \<le> length bs \<Longrightarrow> wf_SonarParamPacket (fst (get_SonarParamPacket bs))"
  by (simp add: get_SonarParamPacket_def split_beta Let_def sizeof_SonarParamPacket_def wf_SonarParamPacket_def sizeof_PacketHeader_def)

lemma put_get_SonarParamPacket [simp, codec]:
  "sizeof_SonarParamPacket \<le> length bs \<Longrightarrow> put_SonarParamPacket (fst (get_SonarParamPacket bs)) @ snd (get_SonarParamPacket bs) = bs"
  by (simp add: put_SonarParamPacket_def get_SonarParamPacket_def split_beta Let_def sizeof_SonarParamPacket_def sizeof_PacketHeader_def)

text \<open>\<open>typedef PacketHeader EndEpochPacket\<close>.\<close>

type_synonym EndEpochPacket = PacketHeader

text \<open>Every packet starts with its header: type, size, sequence number.\<close>

lemma put_PacketHeader_bytes:
  "put_PacketHeader p = h_type p # h_size p # put16 (h_seq p)"
  by (simp add: put_PacketHeader_def put8_def)

lemmas sizeof_defs [layout] =
  sizeof_PacketHeader_def sizeof_PacketIndexed_def sizeof_JointInfo_def sizeof_JointParams_def
  sizeof_JointControl_def sizeof_ResponsePacket_def sizeof_ParamControlPacket_def
  sizeof_SystemStatusPacket_def sizeof_SystemParamPacket_def sizeof_JointStatusPacket_def
  sizeof_JointControlPacket_def sizeof_JointParamPacket_def
  sizeof_DifferentialDriveStatusPacket_def sizeof_DifferentialDriveControlPacket_def
  sizeof_DifferentialDriveParamPacket_def sizeof_StringMessagePacket_def
  sizeof_SonarStatusPacket_def sizeof_SonarParamPacket_def

end
