(* ===== verification/Ring.thy ===== *)
theory Ring
  imports Prelude
begin

text \<open>
  \<open>src/orazio_lib/src/common/buffer_utils.h\<close>: the two macros behind every circular buffer of
  the program, on \<open>int\<close> indices (packet handler, deferred packets) and on \<open>uint8_t\<close> indices
  (UART), the list that a circular buffer stands for, and the FIFO contract (\<open>locale fifo\<close>)
  that the transmit ring, the UART rings and the logger's queue are shown to meet.
\<close>

section \<open>The macros\<close>

text \<open>
  \<open>BUFFER_PUT(X, MAX)\<close> works on \<open>X_end\<close> and \<open>X_size\<close>, \<open>BUFFER_GET(X, MAX)\<close> on
  \<open>X_start\<close> and \<open>X_size\<close>. On \<open>uint8_t\<close> fields the increments wrap at 256 and the
  comparison is done on the promoted value.
\<close>

definition BUFFER_PUT :: "int \<Rightarrow> int \<times> int \<Rightarrow> int \<times> int" where
  "BUFFER_PUT bsize_max = (\<lambda>(e, n).
     let e' = e + 1 in (if bsize_max \<le> e' then 0 else e', n + 1))"

definition BUFFER_GET :: "int \<Rightarrow> int \<times> int \<Rightarrow> int \<times> int" where
  "BUFFER_GET bsize_max = (\<lambda>(s, n).
     let s' = s + 1 in (if bsize_max \<le> s' then 0 else s', n - 1))"

definition BUFFER_PUT_u8 :: "int \<Rightarrow> u8 \<times> u8 \<Rightarrow> u8 \<times> u8" where
  "BUFFER_PUT_u8 bsize_max = (\<lambda>(e, n).
     let e' = e + 1 in (if bsize_max \<le> uint e' then 0 else e', n + 1))"

definition BUFFER_GET_u8 :: "int \<Rightarrow> u8 \<times> u8 \<Rightarrow> u8 \<times> u8" where
  "BUFFER_GET_u8 bsize_max = (\<lambda>(s, n).
     let s' = s + 1 in (if bsize_max \<le> uint s' then 0 else s', n - 1))"

section \<open>What a circular buffer holds\<close>

definition ring_items :: "'a list \<Rightarrow> nat \<Rightarrow> nat \<Rightarrow> nat \<Rightarrow> 'a list" where
  "ring_items buf start n cap = map (\<lambda>k. buf ! ((start + k) mod cap)) [0..<n]"

lemma length_ring_items [simp]: "length (ring_items buf start n cap) = n"
  by (simp add: ring_items_def)

lemma ring_items_0 [simp]: "ring_items buf start 0 cap = []"
  by (simp add: ring_items_def)

lemma ring_items_eq_Nil [simp]: "ring_items buf start n cap = [] \<longleftrightarrow> n = 0"
  by (simp add: ring_items_def)

text \<open>Two offsets below the capacity name two different slots.\<close>

lemma ring_slot_inj:
  assumes "k < n" and "n < (cap :: nat)"
  shows "(start + k) mod cap \<noteq> (start + n) mod cap"
proof
  assume "(start + k) mod cap = (start + n) mod cap"
  then have "cap dvd (start + n) - (start + k)"
    using assms mod_eq_dvd_iff_nat[of "start + k" "start + n" cap] by simp
  then have "cap dvd n - k" by simp
  then show False using assms by (auto dest!: dvd_imp_le)
qed

lemma ring_items_put [ring]:
  assumes "n < cap" and "cap \<le> length buf" and "e = (start + n) mod cap"
  shows "ring_items (buf[e := x]) start (Suc n) cap = ring_items buf start n cap @ [x]"
proof -
  have "e < cap" using assms(1,3) by simp
  then have e: "e < length buf" using assms(2) by simp
  have "buf[e := x] ! ((start + k) mod cap) = buf ! ((start + k) mod cap)" if "k < n" for k
    using ring_slot_inj[OF that assms(1), of start] assms(3) by simp
  then show ?thesis using e assms(3) by (simp add: ring_items_def)
qed

lemma ring_items_get [ring]:
  assumes "0 < n" and "start < cap"
  shows "ring_items buf start n cap
    = buf ! start # ring_items buf ((start + 1) mod cap) (n - 1) cap"
proof -
  have "[0..<n] = 0 # map Suc [0..<n - 1]"
    using assms(1) by (simp add: map_Suc_upt upt_conv_Cons)
  then show ?thesis
    using assms(2) by (simp add: ring_items_def o_def mod_add_left_eq)
qed

text \<open>The wrap of the macros is \<open>mod\<close>.\<close>

lemma wrap_mod:
  assumes "i < (cap :: nat)"
  shows "(if int cap \<le> int i + 1 then 0 else int i + 1) = int ((i + 1) mod cap)"
  using assms by (cases "i + 1 = cap") (auto simp: mod_less)

lemma BUFFER_PUT_nat:
  "e < cap \<Longrightarrow> BUFFER_PUT (int cap) (int e, int n) = (int ((e + 1) mod cap), int (Suc n))"
  using wrap_mod[of e cap] by (simp add: BUFFER_PUT_def Let_def)

lemma BUFFER_GET_nat:
  "s < cap \<Longrightarrow> 0 < n \<Longrightarrow>
    BUFFER_GET (int cap) (int s, int n) = (int ((s + 1) mod cap), int (n - 1))"
  using wrap_mod[of s cap] by (simp add: BUFFER_GET_def Let_def)

text \<open>With a bound of 256 the comparison of the \<open>uint8_t\<close> version never succeeds.\<close>

lemma BUFFER_u8_256:
  "BUFFER_PUT_u8 256 (e, n) = (e + 1, n + 1)"
  "BUFFER_GET_u8 256 (s, n) = (s + 1, n - 1)"
proof -
  have "\<not> 256 \<le> uint (x :: u8)" for x
    using uint_lt2p[of x] by simp
  then show "BUFFER_PUT_u8 256 (e, n) = (e + 1, n + 1)"
    "BUFFER_GET_u8 256 (s, n) = (s + 1, n - 1)"
    by (simp_all add: BUFFER_PUT_u8_def BUFFER_GET_u8_def Let_def)
qed

section \<open>The FIFO contract\<close>

text \<open>
  Draining a queue: the shape of the flush loops (\<open>while (size) f(get())\<close>). The fuel bounds
  the number of rounds; the contract shows that the number of items is enough.
\<close>

fun drain :: "('s \<Rightarrow> bool) \<Rightarrow> ('s \<Rightarrow> 'a \<times> 's) \<Rightarrow> nat \<Rightarrow> 's \<Rightarrow> 'a list \<times> 's" where
  "drain is_empty get 0 s = ([], s)"
| "drain is_empty get (Suc n) s =
     (if is_empty s then ([], s)
      else case get s of (x, s') \<Rightarrow> case drain is_empty get n s' of (xs, s'') \<Rightarrow> (x # xs, s''))"

text \<open>
  \<open>put\<close> appends, \<open>get\<close> removes the oldest item, \<open>is_empty\<close> tells whether there is one;
  \<open>items\<close> is the abstract content, \<open>ok\<close> the representation invariant, and \<open>fits n\<close> says
  that the queue has room for \<open>n\<close> items.
\<close>

locale fifo =
  fixes put :: "'a \<Rightarrow> 's \<Rightarrow> 's"
    and get :: "'s \<Rightarrow> 'a \<times> 's"
    and is_empty :: "'s \<Rightarrow> bool"
    and items :: "'s \<Rightarrow> 'a list"
    and ok :: "'s \<Rightarrow> bool"
    and fits :: "nat \<Rightarrow> bool"
  assumes items_put: "ok s \<Longrightarrow> fits (Suc (length (items s))) \<Longrightarrow> items (put x s) = items s @ [x]"
    and ok_put: "ok s \<Longrightarrow> fits (Suc (length (items s))) \<Longrightarrow> ok (put x s)"
    and empty_iff: "ok s \<Longrightarrow> is_empty s \<longleftrightarrow> items s = []"
    and fst_get: "ok s \<Longrightarrow> items s = x # xs \<Longrightarrow> fst (get s) = x"
    and items_get: "ok s \<Longrightarrow> items s = x # xs \<Longrightarrow> items (snd (get s)) = xs"
    and ok_get: "ok s \<Longrightarrow> items s = x # xs \<Longrightarrow> ok (snd (get s))"
    and fits_le: "fits n \<Longrightarrow> m \<le> n \<Longrightarrow> fits m"
begin

lemma put_all:
  assumes "ok s" and "fits (length (items s) + length xs)"
  shows "items (fold put xs s) = items s @ xs \<and> ok (fold put xs s)"
  using assms
proof (induction xs arbitrary: s)
  case Nil
  then show ?case by simp
next
  case (Cons x xs)
  have f: "fits (Suc (length (items s)))" using fits_le[OF Cons.prems(2)] by simp
  have i: "items (put x s) = items s @ [x]" and o': "ok (put x s)"
    using items_put[OF Cons.prems(1) f] ok_put[OF Cons.prems(1) f] by simp_all
  have "fits (length (items (put x s)) + length xs)" using Cons.prems(2) i by simp
  from Cons.IH[OF o' this] i show ?case by simp
qed

lemma drain_all:
  assumes "ok s" and "length (items s) \<le> n"
  shows "fst (drain is_empty get n s) = items s \<and> items (snd (drain is_empty get n s)) = []
    \<and> ok (snd (drain is_empty get n s))"
  using assms
proof (induction n arbitrary: s)
  case 0
  then show ?case by simp
next
  case (Suc n)
  show ?case
  proof (cases "items s")
    case Nil
    then show ?thesis using Suc.prems empty_iff by simp
  next
    case (Cons x xs)
    have "ok (snd (get s))" and "items (snd (get s)) = xs" and "fst (get s) = x"
      using ok_get items_get fst_get Suc.prems(1) Cons by blast+
    with Suc.IH[of "snd (get s)"] Suc.prems Cons empty_iff[OF Suc.prems(1)]
    show ?thesis by (auto simp: split_beta)
  qed
qed

text \<open>First in, first out: what is put into an empty queue comes out in the same order.\<close>

lemma put_drain:
  assumes "ok s" and "items s = []" and "fits (length xs)" and "length xs \<le> n"
  shows "fst (drain is_empty get n (fold put xs s)) = xs"
proof -
  have "items (fold put xs s) = xs" and "ok (fold put xs s)"
    using put_all[of s xs] assms by simp_all
  then show ?thesis using drain_all[of "fold put xs s" n] assms(4) by simp
qed

end

end
