(* ===== verification/PacketHandler.thy ===== *)
theory PacketHandler
  imports Packets Ring
begin

text \<open>
  \<open>src/orazio_lib/src/common/packet_handler.c\<close> and \<open>packet_handler.h\<close>: the table of packet
  operations, the byte-driven receiver (a state machine whose state is the function pointer
  \<open>rxFn\<close>), and the transmit ring with its framing
  \<open>0xAA 0x55 <packet bytes> <xor of the packet bytes>\<close>.
\<close>

section \<open>State\<close>

text \<open>
  The memory the handler works on: bytes, and the \<open>PacketOperations\<close> structures, by address.
  The client of the handler extends this record with its own variables.
\<close>

record store =
  mem :: memory
  ops_at :: "addr \<Rightarrow> PacketOperations"

text \<open>The values of the function pointer \<open>rxFn\<close>.\<close>

datatype RxFn = rxAA | rx55 | rxType | rxSize | rxPayload | rxChecksum

record PacketHandler =
  operations :: "addr list"
  rx_current_op :: addr
  rx_current_packet :: addr
  rx_checksum :: u8
  rx_buffer :: addr
  rx_buffer_end :: addr
  rx_bytes_to_read :: u8
  rxFn :: RxFn
  tx_buffer :: "u8 list"
  tx_start :: int
  tx_end :: int
  tx_size :: int
  tx_checksum :: u8

text \<open>
  \<open>PacketHandler_initialize\<close>: the transmit buffer and checksum keep what they held.
\<close>

definition PacketHandler_initialize :: "PacketHandler \<Rightarrow> PacketStatus \<times> PacketHandler" where
  "PacketHandler_initialize h = (Success,
     h\<lparr>operations := replicate PACKET_TYPE_MAX NULL,
       rx_current_op := NULL, rx_current_packet := NULL, rx_checksum := 0,
       rx_buffer := NULL, rx_buffer_end := NULL, rx_bytes_to_read := 0,
       rxFn := rxAA, tx_size := 0, tx_start := 0, tx_end := 0\<rparr>)"

section \<open>The table of operations\<close>

definition PacketHandler_installPacket ::
  "'a store_scheme \<Rightarrow> addr \<Rightarrow> PacketHandler \<Rightarrow> PacketStatus \<times> PacketHandler" where
  "PacketHandler_installPacket s ops h =
     (let t = unat (op_type (ops_at s ops)) in
      if PACKET_TYPE_MAX \<le> t then (PacketTypeOutOfBounds, h)
      else if operations h ! t \<noteq> NULL then (PacketInstallError, h)
      else (Success, h\<lparr>operations := (operations h)[t := ops]\<rparr>))"

definition PacketHandler_uninstallPacket ::
  "u8 \<Rightarrow> PacketHandler \<Rightarrow> PacketStatus \<times> PacketHandler" where
  "PacketHandler_uninstallPacket type h =
     (let t = unat type in
      if PACKET_TYPE_MAX \<le> t then (PacketTypeOutOfBounds, h)
      else if operations h ! t = NULL then (PacketUninstallError, h)
      else (Success, h\<lparr>operations := (operations h)[t := NULL]\<rparr>))"

section \<open>The receiver\<close>

text \<open>
  What the stored function pointers do is a parameter: \<open>gen f type size args s\<close> is the
  buffer that \<open>f\<close> returns (null when it has none), \<open>on_rx f packet args s\<close> the effect of the
  receiver \<open>f\<close>, whose status the handler ignores. A step may end in a fault of the receiver.
\<close>

type_synonym 's gen_call = "PacketGenFn \<Rightarrow> u8 \<Rightarrow> u8 \<Rightarrow> addr \<Rightarrow> 's \<Rightarrow> addr"
type_synonym 's rx_call = "PacketFn \<Rightarrow> addr \<Rightarrow> addr \<Rightarrow> 's \<Rightarrow> 's result"

definition rxAA_step :: "u8 \<Rightarrow> PacketHandler \<Rightarrow> PacketStatus \<times> PacketHandler" where
  "rxAA_step c h =
     (let h1 = h\<lparr>rx_checksum := 0\<rparr> in
      if c = 0xAA then (SyncAA, h1\<lparr>rxFn := rx55\<rparr>) else (Unsync, h1))"

definition rx55_step :: "u8 \<Rightarrow> PacketHandler \<Rightarrow> PacketStatus \<times> PacketHandler" where
  "rx55_step c h =
     (if c = 0x55 then (Sync55, h\<lparr>rxFn := rxType, rx_checksum := 0\<rparr>)
      else (Unsync, h\<lparr>rxFn := rxAA\<rparr>))"

definition rxType_step :: "u8 \<Rightarrow> PacketHandler \<Rightarrow> PacketStatus \<times> PacketHandler" where
  "rxType_step c h =
     (let h1 = h\<lparr>rx_checksum := rx_checksum h XOR c\<rparr> in
      if PACKET_TYPE_MAX \<le> unat c then (Unsync, h1\<lparr>rxFn := rxAA\<rparr>)
      else
        let h2 = h1\<lparr>rx_current_op := operations h1 ! unat c\<rparr> in
        if rx_current_op h2 = NULL then (UnknownType, h2\<lparr>rxFn := rxAA\<rparr>)
        else (SyncType, h2\<lparr>rxFn := rxSize\<rparr>))"

text \<open>
  \<open>c-sizeof(PacketHeader)+sizeof(PacketSeq)\<close> is computed in a wider type and truncated to
  the \<open>uint8_t\<close> field, which is the same subtraction modulo 256. The diagnostic output is
  left out.
\<close>

definition rxSize_step ::
  "'a store_scheme gen_call \<Rightarrow> u8 \<Rightarrow> PacketHandler \<Rightarrow> 'a store_scheme \<Rightarrow>
     PacketStatus \<times> PacketHandler \<times> 'a store_scheme" where
  "rxSize_step gen c h s =
     (let op = ops_at s (rx_current_op h) in
      if op_size op \<noteq> PACKET_SIZE_ANY \<and> op_size op \<noteq> c then (InvalidSize, h\<lparr>rxFn := rxAA\<rparr>, s)
      else
        let h1 = h\<lparr>rx_current_packet :=
              gen (initialize_buffer_fn op) (op_type op) (op_size op)
                (initialize_buffer_args op) s\<rparr> in
        if rx_current_packet h1 = NULL then (RxBufferError, h1\<lparr>rxFn := rxAA\<rparr>, s)
        else
          let b = rx_current_packet h1 in
          (SyncSize,
           h1\<lparr>rx_checksum := rx_checksum h1 XOR c,
              rx_bytes_to_read := c - 4 + 2,
              rx_buffer := b, rx_buffer_end := b + 2, rxFn := rxPayload\<rparr>,
           s\<lparr>mem := (mem s)(b := op_type op, b + 1 := op_size op)\<rparr>))"

definition rxPayload_step ::
  "u8 \<Rightarrow> PacketHandler \<Rightarrow> 'a store_scheme \<Rightarrow> PacketStatus \<times> PacketHandler \<times> 'a store_scheme" where
  "rxPayload_step c h s =
     (let h1 = h\<lparr>rx_checksum := rx_checksum h XOR c, rx_buffer_end := rx_buffer_end h + 1,
                 rx_bytes_to_read := rx_bytes_to_read h - 1\<rparr>;
          s1 = s\<lparr>mem := (mem s)(rx_buffer_end h := c)\<rparr> in
      if rx_bytes_to_read h1 = 0 then (SyncPayloadComplete, h1\<lparr>rxFn := rxChecksum\<rparr>, s1)
      else (SyncPayload, h1, s1))"

definition rxChecksum_step ::
  "'a store_scheme rx_call \<Rightarrow> u8 \<Rightarrow> PacketHandler \<Rightarrow> 'a store_scheme \<Rightarrow>
     (PacketStatus \<times> PacketHandler \<times> 'a store_scheme) result" where
  "rxChecksum_step on_rx c h s =
     (let h1 = h\<lparr>rxFn := rxAA, rx_buffer := NULL, rx_buffer_end := NULL\<rparr>;
          op = ops_at s (rx_current_op h1) in
      if c = rx_checksum h1 then
        (case on_receive_fn op of
           None \<Rightarrow> Inr (SyncChecksum, h1, s)
         | Some f \<Rightarrow> bindR (on_rx f (rx_current_packet h1) (on_receive_args op) s)
                      (\<lambda>s1. Inr (SyncChecksum, h1, s1)))
      else Inr (ChecksumError, h1, s))"

text \<open>\<open>PacketHandler_rxByte\<close>: the call through the function pointer.\<close>

definition PacketHandler_rxByte ::
  "'a store_scheme gen_call \<Rightarrow> 'a store_scheme rx_call \<Rightarrow> u8 \<Rightarrow> PacketHandler \<Rightarrow> 'a store_scheme \<Rightarrow>
     (PacketStatus \<times> PacketHandler \<times> 'a store_scheme) result" where
  "PacketHandler_rxByte gen on_rx c h s =
     (case rxFn h of
        rxAA \<Rightarrow> (case rxAA_step c h of (st, h1) \<Rightarrow> Inr (st, h1, s))
      | rx55 \<Rightarrow> (case rx55_step c h of (st, h1) \<Rightarrow> Inr (st, h1, s))
      | rxType \<Rightarrow> (case rxType_step c h of (st, h1) \<Rightarrow> Inr (st, h1, s))
      | rxSize \<Rightarrow> Inr (rxSize_step gen c h s)
      | rxPayload \<Rightarrow> Inr (rxPayload_step c h s)
      | rxChecksum \<Rightarrow> rxChecksum_step on_rx c h s)"

text \<open>A run of the receiver over a sequence of bytes, with the statuses it reports.\<close>

fun rx_run ::
  "'a store_scheme gen_call \<Rightarrow> 'a store_scheme rx_call \<Rightarrow> u8 list \<Rightarrow> PacketHandler \<Rightarrow>
     'a store_scheme \<Rightarrow> (PacketStatus list \<times> PacketHandler \<times> 'a store_scheme) result" where
  "rx_run gen on_rx [] h s = Inr ([], h, s)"
| "rx_run gen on_rx (c # cs) h s =
     bindR (PacketHandler_rxByte gen on_rx c h s) (\<lambda>(st, h1, s1).
       bindR (rx_run gen on_rx cs h1 s1) (\<lambda>(sts, h2, s2). Inr (st # sts, h2, s2)))"

section \<open>The transmitter\<close>

definition putTxByte :: "u8 \<Rightarrow> PacketHandler \<Rightarrow> PacketHandler" where
  "putTxByte c h =
     (if tx_size h = int PACKET_SIZE_MAX then h
      else
        case BUFFER_PUT (int PACKET_SIZE_MAX) (tx_end h, tx_size h) of (e, n) \<Rightarrow>
          h\<lparr>tx_buffer := (tx_buffer h)[nat (tx_end h) := c], tx_end := e, tx_size := n\<rparr>)"

definition PacketHandler_txByte :: "PacketHandler \<Rightarrow> u8 \<times> PacketHandler" where
  "PacketHandler_txByte h =
     (if tx_size h = 0 then (0, h)
      else
        case BUFFER_GET (int PACKET_SIZE_MAX) (tx_start h, tx_size h) of (st, n) \<Rightarrow>
          (tx_buffer h ! nat (tx_start h), h\<lparr>tx_start := st, tx_size := n\<rparr>))"

text \<open>The \<open>while(size)\<close> loop of \<open>PacketHandler_sendPacket\<close> over the packet's bytes.\<close>

fun send_bytes :: "u8 list \<Rightarrow> PacketHandler \<Rightarrow> PacketHandler" where
  "send_bytes [] h = h"
| "send_bytes (b # bs) h = send_bytes bs (putTxByte b (h\<lparr>tx_checksum := tx_checksum h XOR b\<rparr>))"

text \<open>
  \<open>PacketHandler_sendPacket\<close>: the packet is the memory at \<open>header\<close>, given here by its bytes,
  of which the second is its size. The loop reads \<open>size\<close> bytes.
\<close>

definition PacketHandler_sendPacket ::
  "u8 list \<Rightarrow> PacketHandler \<Rightarrow> PacketStatus \<times> PacketHandler" where
  "PacketHandler_sendPacket pkt h =
     (let size = unat (pkt ! 1);
          tx_free = int PACKET_SIZE_MAX - tx_size h;
          real_size = int size + 3 in
      if tx_free < real_size then (TxBufferFull, h)
      else
        let h1 = putTxByte 0x55 (putTxByte 0xAA h);
            h2 = send_bytes (take size pkt) (h1\<lparr>tx_checksum := 0\<rparr>) in
        (Success, putTxByte (tx_checksum h2) h2))"

end
