(* ===== verification/PacketFraming.thy ===== *)
theory PacketFraming
  imports PacketHandler
begin

text \<open>
  Properties of the packet handler: the transmit ring is a FIFO of at most 254 bytes
  (an instance of \<open>locale fifo\<close>), \<open>PacketHandler_sendPacket\<close> appends one whole frame or
  nothing, the receiver stores exactly the packet of a well-formed frame and reports each
  byte's status, and what the transmitter of one side emits the receiver of the other side
  accepts.
\<close>

section \<open>The transmit ring\<close>

definition tx_ok :: "PacketHandler \<Rightarrow> bool" where
  "tx_ok h \<longleftrightarrow> length (tx_buffer h) = PACKET_SIZE_MAX
     \<and> 0 \<le> tx_start h \<and> tx_start h < 254 \<and> 0 \<le> tx_size h \<and> tx_size h \<le> 254
     \<and> tx_end h = (tx_start h + tx_size h) mod 254"

definition tx_items :: "PacketHandler \<Rightarrow> u8 list" where
  "tx_items h = ring_items (tx_buffer h) (nat (tx_start h)) (nat (tx_size h)) PACKET_SIZE_MAX"

lemma length_tx_items [simp]: "length (tx_items h) = nat (tx_size h)"
  by (simp add: tx_items_def)

lemma tx_ok_obtain:
  assumes "tx_ok h"
  obtains st n where "tx_start h = int st" and "st < 254" and "tx_size h = int n" and "n \<le> 254"
    and "tx_end h = int ((st + n) mod 254)" and "length (tx_buffer h) = 254"
    and "tx_items h = ring_items (tx_buffer h) st n 254"
proof (rule that[of "nat (tx_start h)" "nat (tx_size h)"])
  show "tx_end h = int ((nat (tx_start h) + nat (tx_size h)) mod 254)"
    using assms by (simp add: tx_ok_def zmod_int)
qed (use assms in \<open>auto simp: tx_ok_def tx_items_def\<close>)

lemma tx_okI:
  assumes "tx_start h = int st" and "st < 254" and "tx_size h = int n" and "n \<le> 254"
    and "tx_end h = int ((st + n) mod 254)" and "length (tx_buffer h) = 254"
  shows "tx_ok h"
  using assms by (simp add: tx_ok_def zmod_int)

lemma putTxByte_ok:
  assumes "tx_ok h" and "length (tx_items h) < 254"
  shows "tx_items (putTxByte c h) = tx_items h @ [c] \<and> tx_ok (putTxByte c h)"
proof -
  obtain st n where h: "tx_start h = int st" "st < 254" "tx_size h = int n" "n \<le> 254"
    "tx_end h = int ((st + n) mod 254)" "length (tx_buffer h) = 254"
    "tx_items h = ring_items (tx_buffer h) st n 254"
    using assms(1) by (rule tx_ok_obtain)
  have n: "n < 254" using assms(2) h by simp
  have put: "putTxByte c h = h\<lparr>tx_buffer := (tx_buffer h)[(st + n) mod 254 := c],
      tx_end := int ((st + Suc n) mod 254), tx_size := int (Suc n)\<rparr>"
    using BUFFER_PUT_nat[of "(st + n) mod 254" 254 n] h n
    by (simp add: putTxByte_def mod_Suc_eq)
  have "tx_items (putTxByte c h) = tx_items h @ [c]"
    using ring_items_put[OF n, of "tx_buffer h" "(st + n) mod 254" st c] h
    by (simp add: put tx_items_def)
  moreover have "tx_ok (putTxByte c h)"
    by (rule tx_okI[of _ st "Suc n"]) (use h n in \<open>simp_all add: put\<close>)
  ultimately show ?thesis ..
qed

lemma PacketHandler_txByte_ok:
  assumes "tx_ok h" and "tx_items h = x # xs"
  shows "fst (PacketHandler_txByte h) = x \<and> tx_items (snd (PacketHandler_txByte h)) = xs
    \<and> tx_ok (snd (PacketHandler_txByte h))"
proof -
  obtain st n where h: "tx_start h = int st" "st < 254" "tx_size h = int n" "n \<le> 254"
    "tx_end h = int ((st + n) mod 254)" "length (tx_buffer h) = 254"
    "tx_items h = ring_items (tx_buffer h) st n 254"
    using assms(1) by (rule tx_ok_obtain)
  have n: "0 < n" using assms(2) h by (cases n) auto
  have get: "PacketHandler_txByte h = (tx_buffer h ! st,
      h\<lparr>tx_start := int ((st + 1) mod 254), tx_size := int (n - 1)\<rparr>)"
    using BUFFER_GET_nat[of st 254 n] h n by (simp add: PacketHandler_txByte_def)
  have items: "tx_items h = tx_buffer h ! st # ring_items (tx_buffer h) ((st + 1) mod 254) (n - 1) 254"
    using ring_items_get[OF n, of st 254 "tx_buffer h"] h by simp
  obtain k where k: "n = Suc k" using n by (cases n) simp_all
  have "((st + 1) mod 254 + (n - 1)) mod 254 = (st + n) mod 254"
    using mod_add_left_eq[of "st + 1" 254 k] by (simp add: k)
  then have "tx_ok (snd (PacketHandler_txByte h))"
    by (intro tx_okI[of _ "(st + 1) mod 254" "n - 1"]) (use h n in \<open>simp_all add: get\<close>)
  then show ?thesis using items assms(2) h by (simp add: get tx_items_def)
qed

interpretation txq: fifo putTxByte PacketHandler_txByte "\<lambda>h. tx_size h = 0" tx_items tx_ok
  "\<lambda>n. n \<le> 254"
proof unfold_locales
  fix h :: PacketHandler
  assume "tx_ok h"
  then show "(tx_size h = 0) = (tx_items h = [])"
    by (auto simp: tx_ok_def tx_items_def)
qed (use putTxByte_ok PacketHandler_txByte_ok in auto)

text \<open>Transmission does not touch the receiver or the table of operations.\<close>

definition same_rx :: "PacketHandler \<Rightarrow> PacketHandler \<Rightarrow> bool" where
  "same_rx h h' \<longleftrightarrow> operations h' = operations h \<and> rx_current_op h' = rx_current_op h
     \<and> rx_current_packet h' = rx_current_packet h \<and> rx_checksum h' = rx_checksum h
     \<and> rx_buffer h' = rx_buffer h \<and> rx_buffer_end h' = rx_buffer_end h
     \<and> rx_bytes_to_read h' = rx_bytes_to_read h \<and> rxFn h' = rxFn h"

lemma same_rx_refl [simp]: "same_rx h h"
  by (simp add: same_rx_def)

lemma same_rx_trans [trans]: "same_rx a b \<Longrightarrow> same_rx b c \<Longrightarrow> same_rx a c"
  by (simp add: same_rx_def)

lemma putTxByte_frame [simp]:
  "tx_checksum (putTxByte c h) = tx_checksum h" "same_rx h (putTxByte c h)"
  by (auto simp: putTxByte_def same_rx_def split: prod.splits)

lemma PacketHandler_txByte_same_rx [simp]: "same_rx h (snd (PacketHandler_txByte h))"
  by (auto simp: PacketHandler_txByte_def same_rx_def split: prod.splits)

lemma tx_checksum_update [simp]:
  "tx_items (h\<lparr>tx_checksum := x\<rparr>) = tx_items h" "tx_ok (h\<lparr>tx_checksum := x\<rparr>) = tx_ok h"
  "same_rx h (h\<lparr>tx_checksum := x\<rparr>)"
  by (simp_all add: tx_items_def tx_ok_def same_rx_def)

section \<open>Frames\<close>

definition checksum :: "u8 list \<Rightarrow> u8" where
  "checksum bs = foldl (XOR) 0 bs"

definition frame :: "u8 list \<Rightarrow> u8 list" where
  "frame pkt = 0xAA # 0x55 # pkt @ [checksum pkt]"

lemma length_frame [simp]: "length (frame pkt) = length pkt + 3"
  by (simp add: frame_def)

lemma foldl_xor: "foldl (XOR) a bs = a XOR foldl (XOR) (0 :: u8) bs"
proof (induction bs arbitrary: a)
  case (Cons b bs)
  show ?case
    using Cons[of "a XOR b"] Cons[of "0 XOR b"] by (simp add: ac_simps)
qed simp

lemma send_bytes_ok:
  assumes "tx_ok h" and "length (tx_items h) + length bs \<le> 254"
  shows "tx_items (send_bytes bs h) = tx_items h @ bs \<and> tx_ok (send_bytes bs h)
    \<and> tx_checksum (send_bytes bs h) = foldl (XOR) (tx_checksum h) bs
    \<and> same_rx h (send_bytes bs h)"
  using assms
proof (induction bs arbitrary: h)
  case Nil
  then show ?case by simp
next
  case (Cons b bs)
  let ?h = "putTxByte b (h\<lparr>tx_checksum := tx_checksum h XOR b\<rparr>)"
  have ok: "tx_ok ?h" and items: "tx_items ?h = tx_items h @ [b]"
    using putTxByte_ok[of "h\<lparr>tx_checksum := tx_checksum h XOR b\<rparr>" b] Cons.prems by simp_all
  have len: "length (tx_items ?h) + length bs \<le> 254"
    using Cons.prems(2) by (simp only: items length_append list.size)
  have "same_rx h ?h" using same_rx_trans[OF tx_checksum_update(3) putTxByte_frame(2)] .
  from Cons.IH[OF ok len] same_rx_trans[OF this] show ?case by (simp add: items)
qed

text \<open>The packet is as long as its second byte says; what is behind it is not sent.\<close>

lemma sendPacket_fits:
  assumes ok: "tx_ok h" and size: "unat (p ! 1) \<le> length p"
    and room0: "length (tx_items h) + unat (p ! 1) + 3 \<le> 254"
  defines "pkt \<equiv> take (unat (p ! 1)) p"
  shows "fst (PacketHandler_sendPacket p h) = Success"
    and "tx_items (snd (PacketHandler_sendPacket p h)) = tx_items h @ frame pkt"
    and "tx_ok (snd (PacketHandler_sendPacket p h))"
    and "same_rx h (snd (PacketHandler_sendPacket p h))"
proof -
  have len: "length pkt = unat (p ! 1)" using size by (simp add: pkt_def)
  have room: "length (tx_items h) + length pkt + 3 \<le> 254" using room0 by (simp only: len)
  define h1 where "h1 = putTxByte 0x55 (putTxByte 0xAA h)"
  define h2 where "h2 = send_bytes pkt (h1\<lparr>tx_checksum := 0\<rparr>)"
  have a: "tx_items (putTxByte 0xAA h) = tx_items h @ [0xAA]" "tx_ok (putTxByte 0xAA h)"
    using putTxByte_ok[OF ok, of "0xAA"] room by simp_all
  have h1: "tx_items h1 = tx_items h @ [0xAA, 0x55]" "tx_ok h1" "same_rx h h1"
    using putTxByte_ok[OF a(2), of "0x55"] room
      same_rx_trans[OF putTxByte_frame(2) putTxByte_frame(2)]
    by (auto simp: h1_def a(1) simp del: length_tx_items)
  have l1: "length (tx_items h1) = length (tx_items h) + 2" by (simp only: h1(1)) simp
  have h2: "tx_items h2 = tx_items h1 @ pkt" "tx_ok h2" "tx_checksum h2 = checksum pkt"
    "same_rx h1 h2"
    using send_bytes_ok[of "h1\<lparr>tx_checksum := 0\<rparr>" pkt] room l1 h1(2)
      same_rx_trans[OF tx_checksum_update(3)[of h1 0]]
    by (auto simp: h2_def checksum_def simp del: length_tx_items)
  have l2: "length (tx_items h2) = length (tx_items h) + 2 + length pkt"
    by (simp only: h2(1) length_append l1)
  have "0 \<le> tx_size h" using ok by (simp add: tx_ok_def)
  then have free: "\<not> 254 - tx_size h < int (unat (p ! 1)) + 3"
    using room len length_tx_items[of h] by linarith
  have eq: "PacketHandler_sendPacket p h = (Success, putTxByte (tx_checksum h2) h2)"
    using free len by (simp add: PacketHandler_sendPacket_def h1_def h2_def Let_def pkt_def)
  have h3: "tx_items (putTxByte (tx_checksum h2) h2) = tx_items h2 @ [tx_checksum h2]"
    "tx_ok (putTxByte (tx_checksum h2) h2)"
    using putTxByte_ok[OF h2(2), of "tx_checksum h2"] room l2 by (simp_all del: length_tx_items)
  show "fst (PacketHandler_sendPacket p h) = Success" by (simp add: eq)
  show "tx_items (snd (PacketHandler_sendPacket p h)) = tx_items h @ frame pkt"
    unfolding eq snd_conv h3(1) h2(1) h1(1) frame_def by (simp add: h2(3))
  show "tx_ok (snd (PacketHandler_sendPacket p h))" by (simp add: eq h3(2))
  show "same_rx h (snd (PacketHandler_sendPacket p h))"
    using same_rx_trans[OF same_rx_trans[OF h1(3) h2(4)] putTxByte_frame(2)] by (simp add: eq)
qed

lemma sendPacket_ok:
  assumes "tx_ok h" and "length pkt = unat (pkt ! 1)"
    and "length (tx_items h) + length pkt + 3 \<le> 254"
  shows "fst (PacketHandler_sendPacket pkt h) = Success"
    and "tx_items (snd (PacketHandler_sendPacket pkt h)) = tx_items h @ frame pkt"
    and "tx_ok (snd (PacketHandler_sendPacket pkt h))"
    and "same_rx h (snd (PacketHandler_sendPacket pkt h))"
  using sendPacket_fits[of h pkt] assms by simp_all

lemma sendPacket_full:
  assumes "tx_ok h" and "254 < length (tx_items h) + unat (pkt ! 1) + 3"
  shows "PacketHandler_sendPacket pkt h = (TxBufferFull, h)"
proof -
  have "0 \<le> tx_size h" using assms(1) by (simp add: tx_ok_def)
  then have "254 - tx_size h < int (unat (pkt ! 1)) + 3"
    using assms(2) length_tx_items[of h] by linarith
  then show ?thesis by (simp add: PacketHandler_sendPacket_def Let_def)
qed

section \<open>Reception of one frame\<close>

lemma rx_run_append:
  "rx_run gen on_rx (xs @ ys) h s = bindR (rx_run gen on_rx xs h s) (\<lambda>(sts, h1, s1).
     bindR (rx_run gen on_rx ys h1 s1) (\<lambda>(sts', h2, s2). Inr (sts @ sts', h2, s2)))"
proof (induction xs arbitrary: h s)
  case Nil
  then show ?case by (auto simp: bindR_def split: sum.splits)
next
  case (Cons x xs)
  then show ?case by (auto simp: bindR_def split: sum.splits)
qed

lemma length_rx_run:
  "rx_run gen on_rx bs h s = Inr (sts, h', s') \<Longrightarrow> length sts = length bs"
  by (induction bs arbitrary: h s sts h' s') (auto simp: bindR_Inr_iff)

lemma rx_payload_run:
  assumes "rxFn h = rxPayload" and "bs \<noteq> []" and "unat (rx_bytes_to_read h) = length bs"
  shows "rx_run gen on_rx bs h s =
    Inr (replicate (length bs - 1) SyncPayload @ [SyncPayloadComplete],
         h\<lparr>rx_checksum := foldl (XOR) (rx_checksum h) bs,
           rx_buffer_end := rx_buffer_end h + length bs,
           rx_bytes_to_read := 0, rxFn := rxChecksum\<rparr>,
         s\<lparr>mem := write_mem (mem s) (rx_buffer_end h) bs\<rparr>)"
  using assms
proof (induction bs arbitrary: h s)
  case Nil
  then show ?case by simp
next
  case (Cons b bs)
  have step: "unat (rx_bytes_to_read h - 1) = length bs"
    using Cons.prems(3) unat_minus_one[of "rx_bytes_to_read h"] by fastforce
  let ?h = "h\<lparr>rx_checksum := rx_checksum h XOR b, rx_buffer_end := rx_buffer_end h + 1,
      rx_bytes_to_read := rx_bytes_to_read h - 1\<rparr>"
  let ?s = "s\<lparr>mem := (mem s)(rx_buffer_end h := b)\<rparr>"
  have wm: "write_mem ((mem s)(rx_buffer_end h := b)) (rx_buffer_end h + 1) bs
      = write_mem (mem s) (rx_buffer_end h) (b # bs)"
    by (rule write_mem_Cons)
  show ?case
  proof (cases "bs = []")
    case True
    then have "rx_bytes_to_read h - 1 = 0" using step by (simp add: unat_eq_0)
    with True Cons.prems(1) wm show ?thesis
      by (simp add: PacketHandler_rxByte_def rxPayload_step_def)
  next
    case False
    then have "rx_bytes_to_read h - 1 \<noteq> 0" using step by auto
    then have byte: "PacketHandler_rxByte gen on_rx b h s = Inr (SyncPayload, ?h, ?s)"
      using Cons.prems(1) by (simp add: PacketHandler_rxByte_def rxPayload_step_def)
    have "?s\<lparr>mem := write_mem (mem ?s) (rx_buffer_end ?h) bs\<rparr>
        = s\<lparr>mem := write_mem ((mem s)(rx_buffer_end h := b)) (rx_buffer_end h + 1) bs\<rparr>"
      by simp
    then have m: "?s\<lparr>mem := write_mem (mem ?s) (rx_buffer_end ?h) bs\<rparr>
        = s\<lparr>mem := write_mem (mem s) (rx_buffer_end h) (b # bs)\<rparr>"
      by (simp only: wm)
    have ih: "rx_run gen on_rx bs ?h ?s =
      Inr (replicate (length bs - 1) SyncPayload @ [SyncPayloadComplete],
         ?h\<lparr>rx_checksum := foldl (XOR) (rx_checksum ?h) bs,
           rx_buffer_end := rx_buffer_end ?h + length bs,
           rx_bytes_to_read := 0, rxFn := rxChecksum\<rparr>,
         s\<lparr>mem := write_mem (mem s) (rx_buffer_end h) (b # bs)\<rparr>)"
      unfolding m[symmetric] by (rule Cons.IH) (use Cons.prems(1) False step in simp_all)
    show ?thesis
      unfolding rx_run.simps byte bindR_simps prod.case ih
      using False by (cases bs) simp_all
  qed
qed

text \<open>
  The packet the receiver accepts: type and size fields as registered, at least one byte
  after them, and as many bytes as the size field says.
\<close>

definition wf_packet :: "u8 list \<Rightarrow> PacketOperations \<Rightarrow> bool" where
  "wf_packet pkt op \<longleftrightarrow> length pkt = unat (op_size op) \<and> 3 \<le> length pkt
     \<and> pkt ! 0 = op_type op \<and> pkt ! 1 = op_size op"

definition frame_statuses :: "nat \<Rightarrow> PacketStatus list" where
  "frame_statuses n = [SyncAA, Sync55, SyncType, SyncSize] @ replicate (n - 3) SyncPayload
     @ [SyncPayloadComplete]"

text \<open>The receiver with the whole packet stored, waiting for the checksum byte.\<close>

definition rx_complete :: "u8 list \<Rightarrow> addr \<Rightarrow> addr \<Rightarrow> PacketHandler \<Rightarrow> PacketHandler" where
  "rx_complete pkt a b h = h\<lparr>rx_checksum := checksum pkt, rx_current_op := a,
     rx_current_packet := b, rx_buffer := b, rx_buffer_end := b + length pkt,
     rx_bytes_to_read := 0, rxFn := rxChecksum\<rparr>"

text \<open>The receiver after the checksum byte, idle again.\<close>

definition rx_idle :: "u8 list \<Rightarrow> addr \<Rightarrow> addr \<Rightarrow> PacketHandler \<Rightarrow> PacketHandler" where
  "rx_idle pkt a b h = h\<lparr>rx_checksum := checksum pkt, rx_current_op := a,
     rx_current_packet := b, rx_bytes_to_read := 0, rxFn := rxAA, rx_buffer := NULL,
     rx_buffer_end := NULL\<rparr>"

lemma wf_packet_split:
  assumes "wf_packet pkt op"
  obtains rest where "pkt = op_type op # op_size op # rest" and "rest \<noteq> []"
    and "unat (op_size op) = length rest + 2"
proof -
  have len: "3 \<le> length pkt" using assms by (simp add: wf_packet_def)
  then obtain x y rest where pkt: "pkt = x # y # rest"
    by (cases pkt rule: remdups_adj.cases) auto
  then have "rest \<noteq> []" using len by auto
  then show ?thesis using assms pkt that[of rest] by (auto simp: wf_packet_def)
qed

lemma rx_header_run:
  assumes "rxFn h = rxAA" and "unat t < PACKET_TYPE_MAX" and "operations h ! unat t = a" and "a \<noteq> NULL"
    and "op = ops_at s a" and "op_size op = sz" and "op_type op = t"
    and "gen (initialize_buffer_fn op) t sz (initialize_buffer_args op) s = b" and "b \<noteq> NULL"
  shows "rx_run gen on_rx [0xAA, 0x55, t, sz] h s = Inr ([SyncAA, Sync55, SyncType, SyncSize],
    h\<lparr>rx_checksum := t XOR sz, rx_current_op := a, rx_current_packet := b,
      rx_bytes_to_read := sz - 4 + 2, rx_buffer := b, rx_buffer_end := b + 2, rxFn := rxPayload\<rparr>,
    s\<lparr>mem := write_mem (mem s) b [t, sz]\<rparr>)"
proof -
  have "(mem s)(b := t, Suc b := sz) = write_mem (mem s) b [t, sz]"
    using write_mem_Cons[of "mem s" b t "[sz]"] write_mem_Cons[of "(mem s)(b := t)" "b + 1" sz "[]"]
    by simp
  then show ?thesis
    using assms
    by (simp add: PacketHandler_rxByte_def rxAA_step_def rx55_step_def rxType_step_def
        rxSize_step_def Let_def)
qed

lemma rx_packet_run:
  assumes idle: "rxFn h = rxAA" and t: "unat (pkt ! 0) < PACKET_TYPE_MAX"
    and a: "operations h ! unat (pkt ! 0) = a" "a \<noteq> NULL" and wf: "wf_packet pkt (ops_at s a)"
    and b: "gen (initialize_buffer_fn (ops_at s a)) (pkt ! 0) (pkt ! 1)
             (initialize_buffer_args (ops_at s a)) s = b" "b \<noteq> NULL"
  shows "rx_run gen on_rx (0xAA # 0x55 # pkt) h s = Inr (frame_statuses (length pkt),
    rx_complete pkt a b h, s\<lparr>mem := write_mem (mem s) b pkt\<rparr>)"
proof -
  let ?op = "ops_at s a"
  obtain rest where pkt: "pkt = op_type ?op # op_size ?op # rest" and ne: "rest \<noteq> []"
    and sz: "unat (op_size ?op) = length rest + 2"
    using wf by (rule wf_packet_split)
  let ?h = "h\<lparr>rx_checksum := op_type ?op XOR op_size ?op, rx_current_op := a,
    rx_current_packet := b, rx_bytes_to_read := op_size ?op - 4 + 2, rx_buffer := b,
    rx_buffer_end := b + 2, rxFn := rxPayload\<rparr>"
  let ?s = "s\<lparr>mem := write_mem (mem s) b [op_type ?op, op_size ?op]\<rparr>"
  have hd: "rx_run gen on_rx [0xAA, 0x55, op_type ?op, op_size ?op] h s =
      Inr ([SyncAA, Sync55, SyncType, SyncSize], ?h, ?s)"
    by (rule rx_header_run) (use idle t a b pkt in simp_all)
  have "unat (op_size ?op - 2) = length rest"
    using sz unat_sub[of 2 "op_size ?op"] by (simp add: word_le_nat_alt)
  then have "unat (rx_bytes_to_read ?h) = length rest"
    by (simp add: algebra_simps)
  then have pl: "rx_run gen on_rx rest ?h ?s =
    Inr (replicate (length rest - 1) SyncPayload @ [SyncPayloadComplete],
         ?h\<lparr>rx_checksum := foldl (XOR) (rx_checksum ?h) rest,
           rx_buffer_end := rx_buffer_end ?h + length rest,
           rx_bytes_to_read := 0, rxFn := rxChecksum\<rparr>,
         ?s\<lparr>mem := write_mem (mem ?s) (rx_buffer_end ?h) rest\<rparr>)"
    by (intro rx_payload_run ne) simp_all
  have m: "write_mem (write_mem (mem s) b [op_type ?op, op_size ?op]) (Suc (Suc b)) rest
      = write_mem (mem s) b (op_type ?op # op_size ?op # rest)"
    by (rule ext) (auto simp: write_mem_def nth_Cons' Suc_diff_Suc numeral_2_eq_2)
  have split: "0xAA # 0x55 # pkt = [0xAA, 0x55, op_type ?op, op_size ?op] @ rest"
    by (simp add: pkt)
  show ?thesis
    unfolding split rx_run_append hd bindR_simps prod.case pl
    by (simp add: m) (simp add: pkt frame_statuses_def rx_complete_def checksum_def)
qed

lemma rxByte_complete:
  assumes "ops_at s a = op"
  shows "PacketHandler_rxByte gen on_rx c (rx_complete pkt a b h) s =
    (if c = checksum pkt then
       bindR (case on_receive_fn op of None \<Rightarrow> Inr s
              | Some f \<Rightarrow> on_rx f b (on_receive_args op) s)
         (\<lambda>s1. Inr (SyncChecksum, rx_idle pkt a b h, s1))
     else Inr (ChecksumError, rx_idle pkt a b h, s))"
  using assms
  by (auto simp: PacketHandler_rxByte_def rxChecksum_step_def rx_complete_def rx_idle_def Let_def
      split: option.splits)

lemma rx_run_snoc:
  assumes "rx_run gen on_rx xs h s = Inr (sts, h1, s1)"
  shows "rx_run gen on_rx (xs @ [c]) h s =
    bindR (PacketHandler_rxByte gen on_rx c h1 s1) (\<lambda>(st, h2, s2). Inr (sts @ [st], h2, s2))"
  unfolding rx_run_append assms by (auto simp: bindR_def split: sum.splits prod.splits)

lemma rx_frame_run:
  assumes "rxFn h = rxAA" and "unat (pkt ! 0) < PACKET_TYPE_MAX"
    and "operations h ! unat (pkt ! 0) = a" "a \<noteq> NULL" and "wf_packet pkt (ops_at s a)"
    and "gen (initialize_buffer_fn (ops_at s a)) (pkt ! 0) (pkt ! 1)
             (initialize_buffer_args (ops_at s a)) s = b" "b \<noteq> NULL"
  shows "rx_run gen on_rx (0xAA # 0x55 # pkt @ [c]) h s =
    (if c = checksum pkt then
       bindR (case on_receive_fn (ops_at s a) of None \<Rightarrow> Inr (s\<lparr>mem := write_mem (mem s) b pkt\<rparr>)
              | Some f \<Rightarrow> on_rx f b (on_receive_args (ops_at s a))
                           (s\<lparr>mem := write_mem (mem s) b pkt\<rparr>))
         (\<lambda>s1. Inr (frame_statuses (length pkt) @ [SyncChecksum], rx_idle pkt a b h, s1))
     else Inr (frame_statuses (length pkt) @ [ChecksumError], rx_idle pkt a b h,
               s\<lparr>mem := write_mem (mem s) b pkt\<rparr>))"
proof -
  have "rx_run gen on_rx ((0xAA # 0x55 # pkt) @ [c]) h s =
      bindR (PacketHandler_rxByte gen on_rx c (rx_complete pkt a b h)
              (s\<lparr>mem := write_mem (mem s) b pkt\<rparr>))
        (\<lambda>(st, h2, s2). Inr (frame_statuses (length pkt) @ [st], h2, s2))"
    by (rule rx_run_snoc, rule rx_packet_run) (use assms in simp_all)
  moreover have "ops_at (s\<lparr>mem := write_mem (mem s) b pkt\<rparr>) a = ops_at s a" by simp
  ultimately show ?thesis
    by (auto simp: rxByte_complete bindR_def split: sum.splits option.splits)
qed

text \<open>A single wrong byte changes the checksum.\<close>

lemma checksum_Cons: "checksum (b # bs) = b XOR checksum bs"
  using foldl_xor[of b bs] by (simp add: checksum_def)

lemma checksum_append: "checksum (xs @ ys) = checksum xs XOR checksum ys"
  by (induction xs) (simp_all add: checksum_Cons ac_simps, simp add: checksum_def)

lemma xor_left_cancel: "(p :: u8) XOR x = p XOR y \<longleftrightarrow> x = y"
proof
  assume "p XOR x = p XOR y"
  then have "p XOR (p XOR x) = p XOR (p XOR y)" by simp
  then show "x = y" by (simp add: xor.assoc[symmetric])
qed simp

lemma checksum_update:
  assumes "i < length bs" and "x \<noteq> bs ! i"
  shows "checksum (bs[i := x]) \<noteq> checksum bs"
proof -
  have old: "bs = take i bs @ bs ! i # drop (Suc i) bs" using assms(1) by (rule id_take_nth_drop)
  have new: "bs[i := x] = take i bs @ x # drop (Suc i) bs" using assms(1) by (rule upd_conv_take_nth_drop)
  have c: "(p XOR (x XOR q) = p XOR (y XOR q)) = (x = y)" for p q y :: u8
    using xor_left_cancel[of p "x XOR q" "y XOR q"] xor_left_cancel[of q x y]
    by (simp add: xor.commute)
  show ?thesis
    using assms(2) by (subst (2) old, subst new) (simp add: checksum_append checksum_Cons c)
qed

end
