(* ===== verification/PacketReceiver.thy ===== *)
theory PacketReceiver
  imports PacketFraming
begin

text \<open>
  The interface between the receiver of \<open>packet_handler.c\<close> and the code that installs
  packets in it: what the buffer generators and the receive callbacks stored in the table of
  operations must promise (\<open>locale packet_client\<close>, and \<open>packet_client_total\<close> when no callback
  faults), and what the receiver gives in return on every byte stream: it stays in a
  well-formed state and writes only inside the buffers it was handed.
\<close>

section \<open>The table of operations\<close>

text \<open>
  \<open>op_sane\<close> is what the receiver needs of a registered packet: a size that leaves at least
  one byte after type and size, and that is not the wildcard (for which the header byte it
  stores and the byte count it reads are both wrong).
\<close>

definition op_sane :: "PacketOperations \<Rightarrow> bool" where
  "op_sane op \<longleftrightarrow> 3 \<le> unat (op_size op) \<and> op_size op \<noteq> PACKET_SIZE_ANY"

definition table_ok :: "('a store_scheme \<Rightarrow> addr \<Rightarrow> bool) \<Rightarrow> PacketHandler \<Rightarrow> 'a store_scheme \<Rightarrow> bool" where
  "table_ok valid h s \<longleftrightarrow> length (operations h) = PACKET_TYPE_MAX \<and>
     (\<forall>t < PACKET_TYPE_MAX. operations h ! t \<noteq> NULL \<longrightarrow>
        valid s (operations h ! t) \<and> unat (op_type (ops_at s (operations h ! t))) = t)"

lemma table_okD:
  assumes "table_ok valid h s" and "t < PACKET_TYPE_MAX" and "operations h ! t \<noteq> NULL"
  shows "valid s (operations h ! t)" and "unat (op_type (ops_at s (operations h ! t))) = t"
  using assms by (simp_all add: table_ok_def)

lemma table_ok_cong:
  assumes "operations h' = operations h" and "ops_at s' = ops_at s" and "\<And>a. valid s a \<Longrightarrow> valid s' a"
    and "table_ok valid h s"
  shows "table_ok valid h' s'"
  using assms by (simp add: table_ok_def)

section \<open>The contract of the callbacks\<close>

text \<open>
  \<open>valid s a\<close>: the operations at \<open>a\<close> were installed by this client. \<open>owns s a b\<close>: \<open>b\<close> is the
  buffer the client currently hands out for them. The receiver may store any byte inside an
  owned buffer, and hands the buffer over when its packet is complete.
\<close>

definition in_buffer :: "'a store_scheme \<Rightarrow> addr \<Rightarrow> addr \<Rightarrow> addr \<Rightarrow> bool" where
  "in_buffer s a b x \<longleftrightarrow> b \<le> x \<and> x < b + unat (op_size (ops_at s a))"

text \<open>The invariant of the receiver together with its client.\<close>

definition receiver_inv ::
  "('a store_scheme \<Rightarrow> bool) \<Rightarrow> ('a store_scheme \<Rightarrow> addr \<Rightarrow> bool) \<Rightarrow>
   ('a store_scheme \<Rightarrow> addr \<Rightarrow> addr \<Rightarrow> bool) \<Rightarrow> PacketHandler \<Rightarrow> 'a store_scheme \<Rightarrow> bool" where
  "receiver_inv cinv valid owns h s \<longleftrightarrow> table_ok valid h s \<and> cinv s \<and>
     (rxFn h \<in> {rxSize, rxPayload, rxChecksum} \<longrightarrow> valid s (rx_current_op h)) \<and>
     (rxFn h \<in> {rxPayload, rxChecksum} \<longrightarrow>
        owns s (rx_current_op h) (rx_current_packet h) \<and>
        mem s (rx_current_packet h) = op_type (ops_at s (rx_current_op h))) \<and>
     (rxFn h = rxPayload \<longrightarrow>
        0 < unat (rx_bytes_to_read h) \<and> rx_current_packet h + 2 \<le> rx_buffer_end h \<and>
        rx_buffer_end h + unat (rx_bytes_to_read h)
          = rx_current_packet h + unat (op_size (ops_at s (rx_current_op h))))"

text \<open>Every byte that differs lies in a buffer that was handed out.\<close>

definition stores_owned ::
  "('a store_scheme \<Rightarrow> addr \<Rightarrow> bool) \<Rightarrow> ('a store_scheme \<Rightarrow> addr \<Rightarrow> addr \<Rightarrow> bool) \<Rightarrow>
   'a store_scheme \<Rightarrow> 'a store_scheme \<Rightarrow> bool" where
  "stores_owned valid owns s s' \<longleftrightarrow> (\<forall>x. mem s' x \<noteq> mem s x \<longrightarrow>
     (\<exists>a b. valid s a \<and> owns s a b \<and> in_buffer s a b x))"

locale packet_client =
  fixes gen :: "'a store_scheme gen_call"
    and on_rx :: "'a store_scheme rx_call"
    and inv :: "'a store_scheme \<Rightarrow> bool"
    and valid :: "'a store_scheme \<Rightarrow> addr \<Rightarrow> bool"
    and owns :: "'a store_scheme \<Rightarrow> addr \<Rightarrow> addr \<Rightarrow> bool"
  assumes valid_sane: "valid s a \<Longrightarrow> op_sane (ops_at s a)"
    and gen_owns: "inv s \<Longrightarrow> valid s a \<Longrightarrow> op = ops_at s a \<Longrightarrow>
      gen (initialize_buffer_fn op) (op_type op) (op_size op) (initialize_buffer_args op) s = b \<Longrightarrow>
      b \<noteq> NULL \<Longrightarrow> owns s a b"
    and write_ok: "inv s \<Longrightarrow> valid s a \<Longrightarrow> owns s a b \<Longrightarrow> in_buffer s a b x \<Longrightarrow>
      inv (s\<lparr>mem := (mem s)(x := c)\<rparr>)"
    and write_owns: "owns s a b \<Longrightarrow> owns (s\<lparr>mem := m\<rparr>) a b"
    and write_valid: "valid s a \<Longrightarrow> valid (s\<lparr>mem := m\<rparr>) a"
    and rx_ok: "inv s \<Longrightarrow> valid s a \<Longrightarrow> owns s a b \<Longrightarrow> mem s b = op_type (ops_at s a) \<Longrightarrow>
      on_receive_fn (ops_at s a) = Some f \<Longrightarrow>
      on_rx f b (on_receive_args (ops_at s a)) s = Inr s' \<Longrightarrow> inv s'"
    and rx_ops: "valid s a \<Longrightarrow> on_receive_fn (ops_at s a) = Some f \<Longrightarrow>
      on_rx f b args s = Inr s' \<Longrightarrow> ops_at s' = ops_at s"
    and rx_valid: "valid s a \<Longrightarrow> on_receive_fn (ops_at s a) = Some f \<Longrightarrow>
      on_rx f b args s = Inr s' \<Longrightarrow> valid s a' \<Longrightarrow> valid s' a'"
begin

abbreviation rx_inv :: "PacketHandler \<Rightarrow> 'a store_scheme \<Rightarrow> bool" where
  "rx_inv \<equiv> receiver_inv inv valid owns"

lemmas rx_inv_def = receiver_inv_def [where cinv = inv and valid = valid and owns = owns]

abbreviation writes_owned :: "'a store_scheme \<Rightarrow> 'a store_scheme \<Rightarrow> bool" where
  "writes_owned \<equiv> stores_owned valid owns"

lemmas writes_owned_def = stores_owned_def [where valid = valid and owns = owns]

lemma writes_owned_refl [simp]: "writes_owned s s"
  by (simp add: writes_owned_def)

lemma rx_inv_idle:
  assumes "rx_inv h s" and "operations h' = operations h" and "rxFn h' \<in> {rxAA, rx55, rxType}"
  shows "rx_inv h' s"
proof -
  have "table_ok valid h s" and "inv s" using assms(1) by (simp_all add: rx_inv_def)
  moreover from this have "table_ok valid h' s" using assms(2) by (simp add: table_ok_def)
  moreover have "rxFn h' \<notin> {rxSize, rxPayload, rxChecksum}" using assms(3) by auto
  ultimately show ?thesis unfolding rx_inv_def by blast
qed

lemma rxType_inv:
  assumes "rx_inv h s" and "rxType_step c h = (st, h')"
  shows "rx_inv h' s"
proof (cases "rxFn h' = rxSize")
  case True
  have t: "unat c < PACKET_TYPE_MAX" "operations h ! unat c \<noteq> NULL"
    and h': "h' = h\<lparr>rx_checksum := rx_checksum h XOR c, rx_current_op := operations h ! unat c,
      rxFn := rxSize\<rparr>"
    using assms(2) True by (auto simp: rxType_step_def Let_def split: if_splits)
  have tab: "table_ok valid h s" and inv: "inv s" using assms(1) by (simp_all add: rx_inv_def)
  from tab have "table_ok valid h' s" by (simp add: table_ok_def h')
  then show ?thesis
    using inv table_okD(1)[OF tab t] by (simp add: rx_inv_def h')
next
  case False
  then have "operations h' = operations h" "rxFn h' = rxAA"
    using assms(2) by (auto simp: rxType_step_def Let_def split: if_splits)
  then show ?thesis using rx_inv_idle[OF assms(1)] by simp
qed

lemma rxSize_inv:
  assumes I: "rx_inv h s" and fn: "rxFn h = rxSize" and step: "rxSize_step gen c h s = (st, h', s')"
  shows "rx_inv h' s' \<and> writes_owned s s'"
proof (cases "rxFn h' = rxPayload")
  case False
  then have "operations h' = operations h" "rxFn h' = rxAA" "s' = s"
    using step by (auto simp: rxSize_step_def Let_def split: if_splits)
  then show ?thesis using rx_inv_idle[OF I] by simp
next
  case True
  define a where "a = rx_current_op h"
  define op where "op = ops_at s a"
  define b where "b = gen (initialize_buffer_fn op) (op_type op) (op_size op)
    (initialize_buffer_args op) s"
  have b: "b \<noteq> NULL" and sz: "op_size op = PACKET_SIZE_ANY \<or> op_size op = c"
    and s': "s' = s\<lparr>mem := (mem s)(b := op_type op, b + 1 := op_size op)\<rparr>"
    and h': "operations h' = operations h" "rx_current_op h' = a" "rx_current_packet h' = b"
      "rx_bytes_to_read h' = c - 4 + 2" "rx_buffer_end h' = b + 2"
    using step True by (auto simp: rxSize_step_def Let_def a_def op_def b_def split: if_splits)
  have inv: "inv s" and va: "valid s a" and tab: "table_ok valid h s"
    using I fn by (simp_all add: rx_inv_def a_def)
  have sane: "3 \<le> unat c" "op_size op = c"
    using valid_sane[OF va] sz by (auto simp: op_sane_def op_def)
  have own: "owns s a b"
    using gen_owns[OF inv va op_def b_def[symmetric]] b by simp
  have in1: "in_buffer s a b b" and in2: "in_buffer s a b (b + 1)"
    using sane by (simp_all add: in_buffer_def op_def)
  let ?s1 = "s\<lparr>mem := (mem s)(b := op_type op)\<rparr>"
  have "inv ?s1" by (rule write_ok[OF inv va own in1])
  moreover have "in_buffer ?s1 a b (b + 1)" using in2 by (simp add: in_buffer_def)
  ultimately have "inv (?s1\<lparr>mem := (mem ?s1)(b + 1 := op_size op)\<rparr>)"
    using write_ok write_valid[OF va] write_owns[OF own] by blast
  then have inv': "inv s'" by (simp add: s')
  have ops: "ops_at s' = ops_at s" by (simp add: s')
  have val: "\<And>a. valid s a \<Longrightarrow> valid s' a" unfolding s' by (rule write_valid)
  have tab': "table_ok valid h' s'"
    by (rule table_ok_cong[OF h'(1) ops val tab])
  have own': "owns s' a b" unfolding s' by (rule write_owns[OF own])
  have n: "unat (c - 4 + 2) = unat c - 2"
  proof -
    have "c - 4 + 2 = c - 2" by simp
    then show ?thesis using sane(1) unat_sub[of 2 c] by (simp add: word_le_nat_alt)
  qed
  have "rx_inv h' s'"
    using True h' n sane val[OF va] own' inv' tab'
    by (simp add: rx_inv_def ops op_def) (simp add: s' op_def)
  moreover have "writes_owned s s'"
    using va own in1 in2 by (auto simp: writes_owned_def s')
  ultimately show ?thesis ..
qed

lemma rxPayload_inv:
  assumes I: "rx_inv h s" and fn: "rxFn h = rxPayload" and step: "rxPayload_step c h s = (st, h', s')"
  shows "rx_inv h' s' \<and> writes_owned s s'"
proof -
  define a where "a = rx_current_op h"
  define b where "b = rx_current_packet h"
  define x where "x = rx_buffer_end h"
  define n where "n = rx_bytes_to_read h"
  have inv: "inv s" and va: "valid s a" and own: "owns s a b" and tab: "table_ok valid h s"
    and ty: "mem s b = op_type (ops_at s a)" and n: "0 < unat n" and x: "b + 2 \<le> x"
    and xn: "x + unat n = b + unat (op_size (ops_at s a))"
    using I fn by (simp_all add: rx_inv_def a_def b_def x_def n_def)
  have s': "s' = s\<lparr>mem := (mem s)(x := c)\<rparr>" and h': "operations h' = operations h"
    "rx_current_op h' = a" "rx_current_packet h' = b" "rx_buffer_end h' = x + 1"
    "rx_bytes_to_read h' = n - 1" "rxFn h' = (if n - 1 = 0 then rxChecksum else rxPayload)"
    using step fn by (auto simp: rxPayload_step_def Let_def a_def b_def x_def n_def split: if_splits)
  have inb: "in_buffer s a b x" using x xn n by (simp add: in_buffer_def)
  have inv': "inv s'" unfolding s' by (rule write_ok[OF inv va own inb])
  have ops: "ops_at s' = ops_at s" by (simp add: s')
  have val: "\<And>a. valid s a \<Longrightarrow> valid s' a" unfolding s' by (rule write_valid)
  have tab': "table_ok valid h' s'"
    by (rule table_ok_cong[OF h'(1) ops val tab])
  have own': "owns s' a b" unfolding s' by (rule write_owns[OF own])
  have ty': "mem s' b = op_type (ops_at s a)" using ty x by (simp add: s')
  have "n \<noteq> 0" using n by auto
  then have n1: "unat (n - 1) = unat n - 1" by (rule unat_minus_one)
  have "0 < unat (n - 1)" if "n - 1 \<noteq> 0" using that by (simp add: unat_gt_0)
  then have "rx_inv h' s'"
    using h' x xn n n1 val[OF va] own' inv' tab' ty' by (auto simp: rx_inv_def ops)
  moreover have "writes_owned s s'" using va own inb by (auto simp: writes_owned_def s')
  ultimately show ?thesis ..
qed

lemma rxChecksum_inv:
  assumes I: "rx_inv h s" and fn: "rxFn h = rxChecksum"
    and step: "rxChecksum_step on_rx c h s = Inr (st, h', s')"
  shows "rx_inv h' s'"
proof (cases "s' = s \<and> operations h' = operations h \<and> rxFn h' = rxAA")
  case True
  then show ?thesis using rx_inv_idle[OF I] by simp
next
  case False
  define a where "a = rx_current_op h"
  define b where "b = rx_current_packet h"
  have inv: "inv s" and va: "valid s a" and own: "owns s a b" and tab: "table_ok valid h s"
    and ty: "mem s b = op_type (ops_at s a)"
    using I fn by (simp_all add: rx_inv_def a_def b_def)
  obtain f where f: "on_receive_fn (ops_at s a) = Some f"
    "on_rx f b (on_receive_args (ops_at s a)) s = Inr s'"
    and h': "operations h' = operations h" "rxFn h' = rxAA"
    using step False
    by (auto simp: rxChecksum_step_def Let_def a_def b_def bindR_Inr_iff split: if_splits option.splits)
  have "inv s'" by (rule rx_ok[OF inv va own ty f])
  moreover have "table_ok valid h' s'"
    by (rule table_ok_cong[OF h'(1) rx_ops[OF va f] rx_valid[OF va f] tab])
  ultimately show ?thesis using h' by (simp add: rx_inv_def)
qed

theorem rxByte_inv:
  assumes "rx_inv h s" and "PacketHandler_rxByte gen on_rx c h s = Inr (st, h', s')"
  shows "rx_inv h' s'"
proof (cases "rxFn h")
  case rxAA
  then have "operations h' = operations h" "rxFn h' \<in> {rxAA, rx55}" "s' = s"
    using assms(2)
    by (auto simp: PacketHandler_rxByte_def rxAA_step_def Let_def split: if_splits prod.splits)
  then show ?thesis using rx_inv_idle[OF assms(1)] by auto
next
  case rx55
  then have "operations h' = operations h" "rxFn h' \<in> {rxAA, rxType}" "s' = s"
    using assms(2)
    by (auto simp: PacketHandler_rxByte_def rx55_step_def split: if_splits prod.splits)
  then show ?thesis using rx_inv_idle[OF assms(1)] by auto
next
  case rxType
  then show ?thesis
    using assms rxType_inv[OF assms(1)] by (auto simp: PacketHandler_rxByte_def split: prod.splits)
next
  case rxSize
  then show ?thesis using assms rxSize_inv[OF assms(1)] by (simp add: PacketHandler_rxByte_def)
next
  case rxPayload
  then show ?thesis using assms rxPayload_inv[OF assms(1)] by (simp add: PacketHandler_rxByte_def)
next
  case rxChecksum
  then show ?thesis using assms rxChecksum_inv[OF assms(1)] by (simp add: PacketHandler_rxByte_def)
qed

text \<open>Before the hand-over, a byte is stored inside an owned buffer or nowhere.\<close>

lemma rxByte_writes:
  assumes "rx_inv h s" and "PacketHandler_rxByte gen on_rx c h s = Inr (st, h', s')"
    and "rxFn h \<noteq> rxChecksum"
  shows "writes_owned s s'"
  using assms rxSize_inv[OF assms(1)] rxPayload_inv[OF assms(1)]
  by (cases "rxFn h") (auto simp: PacketHandler_rxByte_def split: prod.splits)

lemma rx_run_inv:
  "rx_inv h s \<Longrightarrow> rx_run gen on_rx bs h s = Inr (sts, h', s') \<Longrightarrow> rx_inv h' s'"
proof (induction bs arbitrary: h s sts)
  case Nil
  then show ?case by simp
next
  case (Cons c bs)
  then show ?case by (auto simp: bindR_Inr_iff dest: rxByte_inv)
qed

end

section \<open>Clients whose callbacks never fault\<close>

locale packet_client_total = packet_client +
  assumes rx_total: "inv s \<Longrightarrow> valid s a \<Longrightarrow> owns s a b \<Longrightarrow> mem s b = op_type (ops_at s a) \<Longrightarrow>
      on_receive_fn (ops_at s a) = Some f \<Longrightarrow>
      \<exists>s'. on_rx f b (on_receive_args (ops_at s a)) s = Inr s'"
begin

lemma rxByte_total:
  assumes "rx_inv h s"
  shows "\<exists>st h' s'. PacketHandler_rxByte gen on_rx c h s = Inr (st, h', s')"
proof (cases "rxFn h = rxChecksum")
  case False
  then show ?thesis
    by (cases "rxFn h") (auto simp: PacketHandler_rxByte_def split: prod.splits intro: prod_cases3)
next
  case True
  then have "\<exists>s'. on_rx f (rx_current_packet h) (on_receive_args (ops_at s (rx_current_op h))) s = Inr s'"
    if "on_receive_fn (ops_at s (rx_current_op h)) = Some f" for f
    using assms rx_total that by (simp add: rx_inv_def)
  then show ?thesis using True
    by (fastforce simp: PacketHandler_rxByte_def rxChecksum_step_def Let_def split: option.splits)
qed

lemma rx_run_total:
  "rx_inv h s \<Longrightarrow>
    \<exists>sts h' s'. rx_run gen on_rx bs h s = Inr (sts, h', s') \<and> length sts = length bs \<and> rx_inv h' s'"
proof (induction bs arbitrary: h s)
  case Nil
  then show ?case by simp
next
  case (Cons c bs)
  obtain st h1 s1 where 1: "PacketHandler_rxByte gen on_rx c h s = Inr (st, h1, s1)"
    using rxByte_total[OF Cons.prems] by blast
  obtain sts h2 s2 where "rx_run gen on_rx bs h1 s1 = Inr (sts, h2, s2)" "length sts = length bs"
    "rx_inv h2 s2"
    using Cons.IH[OF rxByte_inv[OF Cons.prems 1]] by blast
  with 1 show ?case by simp
qed

end

end
