(* ===== verification/Deferred.thy ===== *)
theory Deferred
  imports PacketReceiver
begin

text \<open>
  \<open>src/orazio_lib/src/common/deferred_packet_handler.c\<close> and \<open>deferred_packet_handler.h\<close>:
  packets are received into per-type rings of buffers, queued, and acted upon later. The
  handler is the client of the receiver (an instance of \<open>packet_client_total\<close>): its asserts
  never fail, and every queued packet is processed once, in order.
\<close>

section \<open>State\<close>

abbreviation (input) PENDING_PACKETS_MAX :: nat where "PENDING_PACKETS_MAX \<equiv> 8"
abbreviation (input) PACKETS_PER_TYPE_MAX :: nat where "PACKETS_PER_TYPE_MAX \<equiv> 2"

text \<open>
  \<open>DeferredPacketOps\<close> without its \<open>ops\<close> member, which is an object that others point to: it is
  in \<open>ops_at\<close>, at the address \<open>info_ops t\<close> for the entry \<open>t\<close> of \<open>packet_infos\<close>. \<open>'f\<close> are the
  functions that \<open>deferred_action_fn\<close> may point to.
\<close>

record 'f DeferredPacketOps =
  packet_buffers :: "addr list"
  packet_buffers_max :: int
  packet_buffers_size :: int
  packet_buffers_start :: int
  packet_buffers_end :: int
  deferred_action_fn :: "'f option"
  deferred_action_args :: addr

text \<open>\<open>DeferredPacketHandler\<close> without its \<open>base_handler\<close>, which the functions take beside it.\<close>

record 'f deferred = store +
  packet_infos :: "'f DeferredPacketOps list"
  pending_packets :: "addr list"
  pending_packets_size :: int

definition info_ops :: "nat \<Rightarrow> addr" where
  "info_ops t = Suc t"

text \<open>The address of the handler itself, which the callbacks receive as their argument.\<close>

abbreviation (input) DEFERRED_HANDLER :: addr where "DEFERRED_HANDLER \<equiv> 1"

definition zero_info :: "'f DeferredPacketOps" where
  "zero_info = \<lparr>packet_buffers = replicate PACKETS_PER_TYPE_MAX NULL, packet_buffers_max = 0,
     packet_buffers_size = 0, packet_buffers_start = 0, packet_buffers_end = 0,
     deferred_action_fn = None, deferred_action_args = NULL\<rparr>"

section \<open>Operations\<close>

definition Deferred_initializeBuffer_call :: "u8 \<Rightarrow> ('f, 'z) deferred_scheme \<Rightarrow> addr" where
  "Deferred_initializeBuffer_call type s =
     (let info = packet_infos s ! unat type in
      if packet_buffers_max info \<le> packet_buffers_size info then NULL
      else packet_buffers info ! nat (packet_buffers_end info))"

definition Deferred_onReceive_call ::
  "addr \<Rightarrow> ('f, 'z) deferred_scheme \<Rightarrow> ('f, 'z) deferred_scheme result" where
  "Deferred_onReceive_call packet s =
     (let t = unat (mem s packet) in
      if length (packet_infos s) \<le> t then Inl OutOfBounds
      else
        let info = packet_infos s ! t in
        if packet \<noteq> packet_buffers info ! nat (packet_buffers_end info) then Inl AssertFailed
        else if int PENDING_PACKETS_MAX \<le> pending_packets_size s then Inr s
        else
          case BUFFER_PUT (packet_buffers_max info)
                 (packet_buffers_end info, packet_buffers_size info) of (e, n) \<Rightarrow>
            Inr (s\<lparr>pending_packets := (pending_packets s)[nat (pending_packets_size s) := packet],
                   packet_infos := (packet_infos s)[t :=
                     info\<lparr>packet_buffers_end := e, packet_buffers_size := n\<rparr>],
                   pending_packets_size := pending_packets_size s + 1\<rparr>))"

text \<open>
  What the function pointers of the packet handler do when the deferred handler installed
  them; \<open>other\<close> stands for the functions of other files.
\<close>

definition Deferred_gen ::
  "('f, 'z) deferred_scheme gen_call \<Rightarrow> ('f, 'z) deferred_scheme gen_call" where
  "Deferred_gen other f type sz args s =
     (if f = Deferred_initializeBuffer then Deferred_initializeBuffer_call type s
      else other f type sz args s)"

definition Deferred_on_rx ::
  "('f, 'z) deferred_scheme rx_call \<Rightarrow> ('f, 'z) deferred_scheme rx_call" where
  "Deferred_on_rx other f packet args s =
     (if f = Deferred_onReceive then Deferred_onReceive_call packet s
      else other f packet args s)"

definition DeferredPacketHandler_initialize ::
  "PacketHandler \<Rightarrow> ('f, 'z) deferred_scheme \<Rightarrow> PacketHandler \<times> ('f, 'z) deferred_scheme" where
  "DeferredPacketHandler_initialize h s =
     (snd (PacketHandler_initialize h),
      s\<lparr>packet_infos := replicate PACKET_TYPE_MAX zero_info, pending_packets_size := 0\<rparr>)"

text \<open>
  The loop that fills \<open>src_info.packet_buffers\<close>, an array of two entries, has no bound of its
  own: a larger \<open>num_buffers\<close> runs past it.
\<close>

definition DeferredPacketHandler_installPacket ::
  "u8 \<Rightarrow> u8 \<Rightarrow> addr \<Rightarrow> int \<Rightarrow> 'f option \<Rightarrow> addr \<Rightarrow> PacketHandler \<Rightarrow> ('f, 'z) deferred_scheme \<Rightarrow>
     (PacketStatus \<times> PacketHandler \<times> ('f, 'z) deferred_scheme) result" where
  "DeferredPacketHandler_installPacket type sz buffer num_buffers action action_args h s =
     (if PACKET_TYPE_MAX \<le> unat type then Inr (PacketInstallError, h, s)
      else if int PACKETS_PER_TYPE_MAX < num_buffers then Inl OutOfBounds
      else
        let t = unat type;
            bufs = map (\<lambda>i. buffer + i * unat sz) [0..<nat num_buffers]
                     @ replicate (PACKETS_PER_TYPE_MAX - nat num_buffers) NULL;
            ops = \<lparr>op_type = type, op_size = sz,
                   initialize_buffer_fn = Deferred_initializeBuffer,
                   initialize_buffer_args = DEFERRED_HANDLER,
                   on_receive_fn = Some Deferred_onReceive,
                   on_receive_args = DEFERRED_HANDLER\<rparr>;
            s1 = s\<lparr>ops_at := (ops_at s)(info_ops t := ops),
                   packet_infos := (packet_infos s)[t :=
                     \<lparr>packet_buffers = bufs, packet_buffers_max = num_buffers,
                      packet_buffers_size = 0, packet_buffers_start = 0, packet_buffers_end = 0,
                      deferred_action_fn = action, deferred_action_args = action_args\<rparr>]\<rparr>
        in case PacketHandler_installPacket s1 (info_ops t) h of (st, h1) \<Rightarrow> Inr (st, h1, s1))"

text \<open>
  \<open>DeferredPacketHandler_processPendingPackets\<close>; \<open>act f packet args\<close> is what the action \<open>f\<close>
  does (its status is ignored).
\<close>

type_synonym ('f, 's) action_call = "'f \<Rightarrow> addr \<Rightarrow> addr \<Rightarrow> 's \<Rightarrow> 's result"

definition run_action ::
  "('f, ('f, 'z) deferred_scheme) action_call \<Rightarrow> addr \<Rightarrow> ('f, 'z) deferred_scheme \<Rightarrow>
     ('f, 'z) deferred_scheme result" where
  "run_action act p s =
     (let info = packet_infos s ! unat (mem s p) in
      case deferred_action_fn info of
        None \<Rightarrow> Inr s
      | Some f \<Rightarrow> act f p (deferred_action_args info) s)"

definition retire_buffer :: "nat \<Rightarrow> ('f, 'z) deferred_scheme \<Rightarrow> ('f, 'z) deferred_scheme" where
  "retire_buffer t s =
     (let info = packet_infos s ! t in
      case BUFFER_GET (packet_buffers_max info) (packet_buffers_start info, packet_buffers_size info)
      of (st, n) \<Rightarrow> s\<lparr>packet_infos := (packet_infos s)[t :=
           info\<lparr>packet_buffers_start := st, packet_buffers_size := n\<rparr>]\<rparr>)"

function process_from ::
  "('f, ('f, 'z) deferred_scheme) action_call \<Rightarrow> nat \<Rightarrow> ('f, 'z) deferred_scheme \<Rightarrow>
     ('f, 'z) deferred_scheme result" where
  "process_from act pnum s =
     (if pending_packets_size s \<le> int pnum then Inr s
      else if PENDING_PACKETS_MAX \<le> pnum then Inl OutOfBounds
      else
        let p = pending_packets s ! pnum; t = unat (mem s p) in
        if length (packet_infos s) \<le> t then Inl OutOfBounds
        else
          let info = packet_infos s ! t in
          if p \<noteq> packet_buffers info ! nat (packet_buffers_start info) then Inl AssertFailed
          else bindR (run_action act p s) (\<lambda>s1. process_from act (Suc pnum) (retire_buffer t s1)))"
  by pat_completeness auto
termination
  by (relation "measure (\<lambda>(act, pnum, s). PENDING_PACKETS_MAX - pnum)") auto

declare process_from.simps [simp del]

definition DeferredPacketHandler_processPendingPackets ::
  "('f, ('f, 'z) deferred_scheme) action_call \<Rightarrow> ('f, 'z) deferred_scheme \<Rightarrow>
     ('f, 'z) deferred_scheme result" where
  "DeferredPacketHandler_processPendingPackets act s =
     bindR (process_from act 0 s) (\<lambda>s1. Inr (s1\<lparr>pending_packets_size := 0\<rparr>))"

section \<open>Invariant\<close>

text \<open>The queue of pending packets, and the part of it that is in the ring of type \<open>t\<close>.\<close>

definition pending :: "('f, 'z) deferred_scheme \<Rightarrow> addr list" where
  "pending s = take (nat (pending_packets_size s)) (pending_packets s)"

definition info_items :: "'f DeferredPacketOps \<Rightarrow> addr list" where
  "info_items info = ring_items (packet_buffers info) (nat (packet_buffers_start info))
     (nat (packet_buffers_size info)) (nat (packet_buffers_max info))"

definition info_ok :: "'f DeferredPacketOps \<Rightarrow> bool" where
  "info_ok i \<longleftrightarrow> length (packet_buffers i) = PACKETS_PER_TYPE_MAX
     \<and> 0 \<le> packet_buffers_size i \<and> packet_buffers_size i \<le> packet_buffers_max i
     \<and> packet_buffers_max i \<le> int PACKETS_PER_TYPE_MAX
     \<and> (0 < packet_buffers_max i \<longrightarrow>
         0 \<le> packet_buffers_start i \<and> packet_buffers_start i < packet_buffers_max i
         \<and> packet_buffers_end i = (packet_buffers_start i + packet_buffers_size i) mod packet_buffers_max i)"

text \<open>The buffers of an entry, with the size of the packets they hold.\<close>

definition region :: "('f, 'z) deferred_scheme \<Rightarrow> nat \<Rightarrow> nat \<Rightarrow> addr \<times> nat" where
  "region s t i = (packet_buffers (packet_infos s ! t) ! i, unat (op_size (ops_at s (info_ops t))))"

definition disjoint_regions :: "addr \<times> nat \<Rightarrow> addr \<times> nat \<Rightarrow> bool" where
  "disjoint_regions r q \<longleftrightarrow> fst r + snd r \<le> fst q \<or> fst q + snd q \<le> fst r"

definition installed :: "('f, 'z) deferred_scheme \<Rightarrow> nat \<Rightarrow> bool" where
  "installed s t \<longleftrightarrow> t < PACKET_TYPE_MAX \<and> 0 < packet_buffers_max (packet_infos s ! t)"

definition ops_ok :: "nat \<Rightarrow> PacketOperations \<Rightarrow> bool" where
  "ops_ok t op \<longleftrightarrow> op_sane op \<and> unat (op_type op) = t
     \<and> initialize_buffer_fn op = Deferred_initializeBuffer
     \<and> on_receive_fn op = Some Deferred_onReceive"

definition num_buffers_of :: "('f, 'z) deferred_scheme \<Rightarrow> nat \<Rightarrow> nat" where
  "num_buffers_of s t = nat (packet_buffers_max (packet_infos s ! t))"

definition buffers_ok :: "('f, 'z) deferred_scheme \<Rightarrow> bool" where
  "buffers_ok s \<longleftrightarrow> (\<forall>t < PACKET_TYPE_MAX. \<forall>i < num_buffers_of s t.
     fst (region s t i) \<noteq> NULL \<and>
     (\<forall>t' < PACKET_TYPE_MAX. \<forall>i' < num_buffers_of s t'.
        (t, i) \<noteq> (t', i') \<longrightarrow> disjoint_regions (region s t i) (region s t' i')))"

definition deferred_inv :: "('f, 'z) deferred_scheme \<Rightarrow> bool" where
  "deferred_inv s \<longleftrightarrow> length (packet_infos s) = PACKET_TYPE_MAX
     \<and> length (pending_packets s) = PENDING_PACKETS_MAX
     \<and> 0 \<le> pending_packets_size s \<and> pending_packets_size s \<le> int PENDING_PACKETS_MAX
     \<and> (\<forall>t < PACKET_TYPE_MAX. info_ok (packet_infos s ! t)
          \<and> (installed s t \<longrightarrow> ops_ok t (ops_at s (info_ops t)))
          \<and> filter (\<lambda>p. unat (mem s p) = t) (pending s) = info_items (packet_infos s ! t))
     \<and> (\<forall>p \<in> set (pending s). unat (mem s p) < PACKET_TYPE_MAX)
     \<and> buffers_ok s"

definition deferred_valid :: "('f, 'z) deferred_scheme \<Rightarrow> addr \<Rightarrow> bool" where
  "deferred_valid s a \<longleftrightarrow> (\<exists>t < PACKET_TYPE_MAX. a = info_ops t \<and> installed s t
     \<and> ops_ok t (ops_at s a))"

definition deferred_owns :: "('f, 'z) deferred_scheme \<Rightarrow> addr \<Rightarrow> addr \<Rightarrow> bool" where
  "deferred_owns s a b \<longleftrightarrow> (\<exists>t < PACKET_TYPE_MAX. a = info_ops t \<and>
     (let i = packet_infos s ! t in
      packet_buffers_size i < packet_buffers_max i \<and> b = packet_buffers i ! nat (packet_buffers_end i)))"

section \<open>One ring of buffers\<close>

lemma info_okE:
  assumes "info_ok i"
  obtains st n m where "packet_buffers_size i = int n" and "packet_buffers_max i = int m"
    and "n \<le> m" and "m \<le> 2" and "length (packet_buffers i) = 2"
    and "0 < m \<longrightarrow> packet_buffers_start i = int st \<and> st < m \<and> packet_buffers_end i = int ((st + n) mod m)"
    and "0 < m \<longrightarrow> info_items i = ring_items (packet_buffers i) st n m"
proof (rule that[of "nat (packet_buffers_size i)" "nat (packet_buffers_max i)" "nat (packet_buffers_start i)"])
  show "0 < nat (packet_buffers_max i) \<longrightarrow>
      packet_buffers_start i = int (nat (packet_buffers_start i)) \<and>
      nat (packet_buffers_start i) < nat (packet_buffers_max i) \<and>
      packet_buffers_end i = int ((nat (packet_buffers_start i) + nat (packet_buffers_size i))
        mod nat (packet_buffers_max i))"
    using assms by (auto simp: info_ok_def zmod_int)
qed (use assms in \<open>auto simp: info_ok_def info_items_def\<close>)

lemma info_okI:
  assumes "packet_buffers_size i = int n" and "packet_buffers_max i = int m"
    and "n \<le> m" and "m \<le> 2" and "length (packet_buffers i) = 2"
    and "packet_buffers_start i = int st" and "st < m"
    and "packet_buffers_end i = int ((st + n) mod m)"
  shows "info_ok i" and "info_items i = ring_items (packet_buffers i) st n m"
  using assms by (simp_all add: info_ok_def info_items_def zmod_int)

lemma info_put:
  assumes "info_ok i" and "packet_buffers_size i < packet_buffers_max i"
    and "BUFFER_PUT (packet_buffers_max i) (packet_buffers_end i, packet_buffers_size i) = (e, n')"
  defines "i' \<equiv> i\<lparr>packet_buffers_end := e, packet_buffers_size := n'\<rparr>"
  shows "info_ok i'"
    and "info_items i' = info_items i @ [packet_buffers i ! nat (packet_buffers_end i)]"
proof -
  obtain st n m where i: "packet_buffers_size i = int n" "packet_buffers_max i = int m" "n \<le> m"
    "m \<le> 2" "length (packet_buffers i) = 2"
    "0 < m \<longrightarrow> packet_buffers_start i = int st \<and> st < m \<and> packet_buffers_end i = int ((st + n) mod m)"
    "0 < m \<longrightarrow> info_items i = ring_items (packet_buffers i) st n m"
    using assms(1) by (rule info_okE)
  have n: "n < m" and m: "0 < m" using assms(2) i by simp_all
  note i6 = i(6)[rule_format, OF m] and i7 = i(7)[rule_format, OF m]
  have "e = int ((st + Suc n) mod m)" and "n' = int (Suc n)"
    using assms(3) i6 i m BUFFER_PUT_nat[of "(st + n) mod m" m n] by (simp_all add: mod_Suc_eq)
  then have i': "packet_buffers_size i' = int (Suc n)" "packet_buffers_max i' = int m"
    "length (packet_buffers i') = 2" "packet_buffers_start i' = int st"
    "packet_buffers_end i' = int ((st + Suc n) mod m)" "packet_buffers i' = packet_buffers i"
    using i i6 by (simp_all add: i'_def)
  note ok' = info_okI[OF i'(1,2) _ i(4) i'(3,4) _ i'(5)]
  show "info_ok i'" using n i6 by (intro ok'(1)) simp_all
  have "info_items i' = ring_items (packet_buffers i) st (Suc n) m"
    using n i6 by (subst ok'(2)) (simp_all add: i')
  also have "\<dots> = ring_items ((packet_buffers i)[(st + n) mod m :=
      packet_buffers i ! ((st + n) mod m)]) st (Suc n) m"
    by simp
  also have "\<dots> = info_items i @ [packet_buffers i ! ((st + n) mod m)]"
    by (subst ring_items_put[OF n]) (use i i7 in simp_all)
  finally show "info_items i' = info_items i @ [packet_buffers i ! nat (packet_buffers_end i)]"
    using i6 by simp
qed

lemma info_get:
  assumes "info_ok i" and "info_items i = p # ps"
    and "BUFFER_GET (packet_buffers_max i) (packet_buffers_start i, packet_buffers_size i) = (st', n')"
  defines "i' \<equiv> i\<lparr>packet_buffers_start := st', packet_buffers_size := n'\<rparr>"
  shows "info_ok i'" and "info_items i' = ps"
    and "packet_buffers i ! nat (packet_buffers_start i) = p"
proof -
  obtain st n m where i: "packet_buffers_size i = int n" "packet_buffers_max i = int m" "n \<le> m"
    "m \<le> 2" "length (packet_buffers i) = 2"
    "0 < m \<longrightarrow> packet_buffers_start i = int st \<and> st < m \<and> packet_buffers_end i = int ((st + n) mod m)"
    "0 < m \<longrightarrow> info_items i = ring_items (packet_buffers i) st n m"
    using assms(1) by (rule info_okE)
  have "0 < n" using assms(2) i(1) by (cases n) (simp_all add: info_items_def)
  then obtain k where k: "n = Suc k" by (cases n) simp_all
  have m: "0 < m" using i(3) k by simp
  note i6 = i(6)[rule_format, OF m] and i7 = i(7)[rule_format, OF m]
  have "st' = int ((st + 1) mod m)" and "n' = int k"
    using assms(3) i6 i k BUFFER_GET_nat[of st m n] by simp_all
  moreover have "((st + 1) mod m + k) mod m = (st + n) mod m"
    using mod_add_left_eq[of "st + 1" m k] by (simp add: k)
  ultimately have i': "packet_buffers_size i' = int k" "packet_buffers_max i' = int m"
    "length (packet_buffers i') = 2" "packet_buffers_start i' = int ((st + 1) mod m)"
    "packet_buffers_end i' = int (((st + 1) mod m + k) mod m)" "packet_buffers i' = packet_buffers i"
    using i i6 by (simp_all add: i'_def)
  note ok' = info_okI[OF i'(1,2) _ i(4) i'(3,4) _ i'(5)]
  show "info_ok i'" using m k i(3) by (intro ok'(1)) simp_all
  have "ring_items (packet_buffers i) st n m
      = packet_buffers i ! st # ring_items (packet_buffers i) ((st + 1) mod m) k m"
    using ring_items_get[of n st m "packet_buffers i"] i6 k by simp
  then have ps: "ps = ring_items (packet_buffers i) ((st + 1) mod m) k m" "p = packet_buffers i ! st"
    using assms(2) i7 by simp_all
  show "info_items i' = ps"
    using m k i(3) by (subst ok'(2)) (simp_all add: i' ps)
  show "packet_buffers i ! nat (packet_buffers_start i) = p" using i6 ps by simp
qed

section \<open>Access to the invariant\<close>

lemma deferred_invD:
  assumes "deferred_inv s"
  shows "length (packet_infos s) = 20" and "length (pending_packets s) = 8"
    and "0 \<le> pending_packets_size s" and "pending_packets_size s \<le> 8"
    and "t < 20 \<Longrightarrow> info_ok (packet_infos s ! t)"
    and "t < 20 \<Longrightarrow> filter (\<lambda>p. unat (mem s p) = t) (pending s) = info_items (packet_infos s ! t)"
    and "p \<in> set (pending s) \<Longrightarrow> unat (mem s p) < 20"
    and "buffers_ok s"
    and "installed s t \<Longrightarrow> ops_ok t (ops_at s (info_ops t))"
  using assms by (auto simp: deferred_inv_def installed_def)

text \<open>A pending packet is one of the buffers of its type, in use.\<close>

lemma pending_slot:
  assumes "deferred_inv s" and "p \<in> set (pending s)" and "t = unat (mem s p)"
  obtains k st n m where "t < 20" and "0 < m" and "k < n" and "n \<le> m"
    and "packet_buffers_size (packet_infos s ! t) = int n"
    and "packet_buffers_max (packet_infos s ! t) = int m"
    and "packet_buffers_end (packet_infos s ! t) = int ((st + n) mod m)"
    and "p = packet_buffers (packet_infos s ! t) ! ((st + k) mod m)"
proof -
  let ?i = "packet_infos s ! t"
  have t: "t < 20" using deferred_invD(7)[OF assms(1,2)] assms(3) by simp
  have "p \<in> set (info_items ?i)"
    unfolding deferred_invD(6)[OF assms(1) t, symmetric] using assms(2,3) by simp
  moreover obtain st n m where i: "packet_buffers_size ?i = int n" "packet_buffers_max ?i = int m" "n \<le> m"
    "0 < m \<longrightarrow> packet_buffers_start ?i = int st \<and> st < m \<and> packet_buffers_end ?i = int ((st + n) mod m)"
    "0 < m \<longrightarrow> info_items ?i = ring_items (packet_buffers ?i) st n m"
    using deferred_invD(5)[OF assms(1) t] by (rule info_okE)
  moreover have "0 < m"
    using calculation by (cases "m = 0") (auto simp: info_items_def)
  ultimately obtain k where "k < n" "p = packet_buffers ?i ! ((st + k) mod m)"
    by (auto simp: ring_items_def)
  with t i \<open>0 < m\<close> show ?thesis by (intro that) auto
qed

text \<open>The buffer being received into is disjoint from every pending packet.\<close>

lemma owned_pending_disjoint:
  assumes inv: "deferred_inv s" and own: "deferred_owns s a b" and p: "p \<in> set (pending s)"
    and x: "in_buffer s a b x"
  shows "x < p \<or> p + unat (op_size (ops_at s (info_ops (unat (mem s p))))) \<le> x"
    and "3 \<le> unat (op_size (ops_at s (info_ops (unat (mem s p)))))"
proof -
  obtain t where t: "t < 20" "a = info_ops t"
    "packet_buffers_size (packet_infos s ! t) < packet_buffers_max (packet_infos s ! t)"
    "b = packet_buffers (packet_infos s ! t) ! nat (packet_buffers_end (packet_infos s ! t))"
    using own by (auto simp: deferred_owns_def Let_def)
  let ?i = "packet_infos s ! t"
  obtain st n m where i: "packet_buffers_size ?i = int n" "packet_buffers_max ?i = int m"
    "0 < m \<longrightarrow> packet_buffers_start ?i = int st \<and> st < m \<and> packet_buffers_end ?i = int ((st + n) mod m)"
    using deferred_invD(5)[OF inv t(1)] by (rule info_okE)
  have m: "0 < m" and n: "n < m" using t(3) i by simp_all
  define t' where "t' = unat (mem s p)"
  obtain k st' n' m' where p': "t' < 20" "0 < m'" "k < n'" "n' \<le> m'"
    "packet_buffers_size (packet_infos s ! t') = int n'"
    "packet_buffers_max (packet_infos s ! t') = int m'"
    "packet_buffers_end (packet_infos s ! t') = int ((st' + n') mod m')"
    "p = packet_buffers (packet_infos s ! t') ! ((st' + k) mod m')"
    using pending_slot[OF inv p t'_def] by metis
  let ?e = "(st + n) mod m" and ?j = "(st' + k) mod m'"
  have ne: "(t, ?e) \<noteq> (t', ?j)"
  proof
    assume eq: "(t, ?e) = (t', ?j)"
    then have "m' = m" "n' = n" using i p' by simp_all
    with eq p' i(3)[rule_format, OF m] have "(st' + n) mod m = (st' + k) mod m" by simp
    then show False using ring_slot_inj[of k n m st'] p' n \<open>n' = n\<close> by simp
  qed
  have "disjoint_regions (region s t ?e) (region s t' ?j)"
    using deferred_invD(8)[OF inv] t(1) p'(1,2,6) m ne i(2)
    by (simp add: buffers_ok_def num_buffers_of_def)
  moreover have "region s t ?e = (b, unat (op_size (ops_at s a)))"
    using t i(3)[rule_format, OF m] by (simp add: region_def)
  moreover have "region s t' ?j = (p, unat (op_size (ops_at s (info_ops t'))))"
    by (simp add: region_def p'(8)[symmetric])
  ultimately show "x < p \<or> p + unat (op_size (ops_at s (info_ops (unat (mem s p))))) \<le> x"
    unfolding t'_def[symmetric] using x by (auto simp: disjoint_regions_def in_buffer_def)
  show "3 \<le> unat (op_size (ops_at s (info_ops (unat (mem s p)))))"
    unfolding t'_def[symmetric] using deferred_invD(9)[OF inv, of t'] p'(1,2,6)
    by (auto simp: installed_def ops_ok_def op_sane_def)
qed

lemma owned_not_pending:
  assumes "deferred_inv s" and "deferred_owns s a b" and "in_buffer s a b x" and "p \<in> set (pending s)"
  shows "p \<noteq> x"
  using owned_pending_disjoint[OF assms(1,2,4,3)] by auto

section \<open>The deferred handler as a client of the receiver\<close>

lemma deferred_valid_sane: "deferred_valid s a \<Longrightarrow> op_sane (ops_at s a)"
  by (auto simp: deferred_valid_def ops_ok_def)

lemma deferred_gen_owns:
  assumes "deferred_valid s a" and "op = ops_at s a"
    and "Deferred_gen other (initialize_buffer_fn op) (op_type op) (op_size op)
      (initialize_buffer_args op) s = b"
    and "b \<noteq> NULL"
  shows "deferred_owns s a b"
  using assms
  by (auto simp: deferred_valid_def deferred_owns_def ops_ok_def Deferred_gen_def
      Deferred_initializeBuffer_call_def Let_def split: if_splits)

lemma pending_mem [simp]: "pending (s\<lparr>mem := m\<rparr>) = pending s"
  by (simp add: pending_def)

lemma buffers_ok_cong:
  assumes "ops_at s' = ops_at s" and "\<And>t. t < 20 \<Longrightarrow> packet_buffers (packet_infos s' ! t) = packet_buffers (packet_infos s ! t)"
    and "\<And>t. t < 20 \<Longrightarrow> packet_buffers_max (packet_infos s' ! t) = packet_buffers_max (packet_infos s ! t)"
  shows "buffers_ok s' = buffers_ok s"
  using assms by (simp add: buffers_ok_def num_buffers_of_def region_def)

lemma deferred_write_ok:
  assumes inv: "deferred_inv s" and va: "deferred_valid s a" and own: "deferred_owns s a b"
    and x: "in_buffer s a b x"
  shows "deferred_inv (s\<lparr>mem := (mem s)(x := c)\<rparr>)"
proof -
  let ?s = "s\<lparr>mem := (mem s)(x := c)\<rparr>"
  have same: "mem ?s p = mem s p" if "p \<in> set (pending s)" for p
    using owned_not_pending[OF inv own x that] by simp
  have "filter (\<lambda>p. unat (mem ?s p) = t) (pending s) = filter (\<lambda>p. unat (mem s p) = t) (pending s)" for t
    by (rule filter_cong[OF refl]) (simp only: same)
  moreover have "\<forall>p \<in> set (pending s). unat (mem ?s p) < 20"
    using deferred_invD(7)[OF inv] same by simp
  moreover have "buffers_ok ?s = buffers_ok s" by (rule buffers_ok_cong) simp_all
  ultimately show ?thesis using inv by (simp add: deferred_inv_def installed_def)
qed

text \<open>Receiving a complete packet: queued when there is room, otherwise dropped.\<close>

lemma Deferred_onReceive_spec:
  assumes inv: "deferred_inv s" and va: "deferred_valid s a" and own: "deferred_owns s a b"
    and ty: "mem s b = op_type (ops_at s a)"
  shows "\<exists>s'. Deferred_onReceive_call b s = Inr s' \<and> deferred_inv s' \<and>
    pending s' = (if pending_packets_size s < 8 then pending s @ [b] else pending s) \<and>
    mem s' = mem s \<and> ops_at s' = ops_at s \<and> (\<forall>t < 20. installed s' t = installed s t)"
proof -
  obtain t where t: "t < 20" "a = info_ops t" "ops_ok t (ops_at s a)"
    using va by (auto simp: deferred_valid_def)
  let ?i = "packet_infos s ! t"
  have b: "packet_buffers_size ?i < packet_buffers_max ?i"
    "b = packet_buffers ?i ! nat (packet_buffers_end ?i)"
    using own t by (auto simp: deferred_owns_def Let_def info_ops_def)
  have tb: "unat (mem s b) = t" using t ty by (simp add: ops_ok_def)
  have len: "length (packet_infos s) = 20" by (rule deferred_invD(1)[OF inv])
  show ?thesis
  proof (cases "pending_packets_size s < 8")
    case False
    then have "Deferred_onReceive_call b s = Inr s"
      using t(1) tb b(2) len by (simp add: Deferred_onReceive_call_def Let_def)
    then show ?thesis using inv False by simp
  next
    case True
    obtain e n where put: "BUFFER_PUT (packet_buffers_max ?i) (packet_buffers_end ?i, packet_buffers_size ?i) = (e, n)"
      by (cases "BUFFER_PUT (packet_buffers_max ?i) (packet_buffers_end ?i, packet_buffers_size ?i)")
    let ?i' = "?i\<lparr>packet_buffers_end := e, packet_buffers_size := n\<rparr>"
    define s' where "s' = s\<lparr>pending_packets := (pending_packets s)[nat (pending_packets_size s) := b],
      packet_infos := (packet_infos s)[t := ?i'], pending_packets_size := pending_packets_size s + 1\<rparr>"
    have eq: "Deferred_onReceive_call b s = Inr s'"
      using t(1) tb b(2) len True put by (simp add: Deferred_onReceive_call_def Let_def s'_def)
    have sz: "nat (pending_packets_size s) < length (pending_packets s)"
      and sz1: "nat (pending_packets_size s + 1) = Suc (nat (pending_packets_size s))"
      using True deferred_invD(2,3)[OF inv] by simp_all
    have pend: "pending s' = pending s @ [b]"
      using sz by (simp add: pending_def s'_def sz1 take_Suc_conv_app_nth)
    have m: "mem s' = mem s" and ops: "ops_at s' = ops_at s" by (simp_all add: s'_def)
    have infos: "packet_infos s' ! u = (if u = t then ?i' else packet_infos s ! u)" if "u < 20" for u
      using that len by (simp add: s'_def nth_list_update)
    have ins: "installed s' u = installed s u" if "u < 20" for u
      using that infos[OF that] by (simp add: installed_def)
    note ring = info_put[OF deferred_invD(5)[OF inv t(1)] b(1) put]
    have "info_ok (packet_infos s' ! u)" if "u < 20" for u
      using deferred_invD(5)[OF inv that] ring(1) infos[OF that] by simp
    moreover have "filter (\<lambda>p. unat (mem s' p) = u) (pending s') = info_items (packet_infos s' ! u)"
      if "u < 20" for u
      using deferred_invD(6)[OF inv that] ring(2) infos[OF that] tb b(2) by (auto simp: pend m)
    moreover have "buffers_ok s'"
      using deferred_invD(8)[OF inv] by (subst buffers_ok_cong[of _ s]) (simp_all add: infos ops)
    moreover have "\<forall>p \<in> set (pending s'). unat (mem s' p) < 20"
      using deferred_invD(7)[OF inv] tb t(1) by (auto simp: pend m)
    moreover have "length (packet_infos s') = 20" "length (pending_packets s') = 8"
      "0 \<le> pending_packets_size s'" "pending_packets_size s' \<le> 8"
      using len deferred_invD(2,3)[OF inv] True by (simp_all add: s'_def)
    ultimately have "deferred_inv s'"
      using deferred_invD(9)[OF inv] ins by (simp add: deferred_inv_def ops)
    then show ?thesis using eq pend True m ops ins by simp
  qed
qed

lemma deferred_valid_cong:
  assumes "ops_at s' = ops_at s" and "\<And>t. t < 20 \<Longrightarrow> installed s' t = installed s t"
  shows "deferred_valid s' = deferred_valid s"
  using assms by (auto simp: deferred_valid_def fun_eq_iff)

lemma deferred_callback:
  assumes "deferred_valid s a" and "on_receive_fn (ops_at s a) = Some f"
  shows "Deferred_on_rx other f b args s = Deferred_onReceive_call b s"
  using assms by (auto simp: deferred_valid_def ops_ok_def Deferred_on_rx_def)

lemma Deferred_onReceive_frame:
  assumes "Deferred_onReceive_call b s = Inr s'"
  shows "ops_at s' = ops_at s \<and> mem s' = mem s \<and>
    (\<forall>t. packet_buffers_max (packet_infos s' ! t) = packet_buffers_max (packet_infos s ! t))"
proof -
  have upd: "packet_buffers_max (xs[u := i] ! t) = packet_buffers_max (xs ! t)"
    if "packet_buffers_max i = packet_buffers_max (xs ! u)"
    for xs :: "'a DeferredPacketOps list" and u i t
    using that by (cases "u < length xs"; cases "u = t") (simp_all add: list_update_beyond)
  show ?thesis
    using assms by (auto simp: Deferred_onReceive_call_def Let_def upd split: if_splits prod.splits)
qed

interpretation defrx: packet_client_total
  "Deferred_gen (og :: ('f, 'z) deferred_scheme gen_call)" "Deferred_on_rx oo" deferred_inv
  deferred_valid deferred_owns
proof unfold_locales
  fix s s' :: "('f, 'z) deferred_scheme" and a b a' args f m
  show "deferred_owns s a b \<Longrightarrow> deferred_owns (s\<lparr>mem := m\<rparr>) a b" by (simp add: deferred_owns_def)
  show "deferred_valid s a \<Longrightarrow> deferred_valid (s\<lparr>mem := m\<rparr>) a"
    by (simp add: deferred_valid_def installed_def)
  assume va: "deferred_valid s a" and f: "on_receive_fn (ops_at s a) = Some f"
  note call = deferred_callback[OF this, of oo b]
  show "Deferred_on_rx oo f b args s = Inr s' \<Longrightarrow> ops_at s' = ops_at s"
    using Deferred_onReceive_frame[of b s s'] by (simp add: call)
  show "Deferred_on_rx oo f b args s = Inr s' \<Longrightarrow> deferred_valid s a' \<Longrightarrow> deferred_valid s' a'"
    using Deferred_onReceive_frame[of b s s'] deferred_valid_cong[of s' s]
    by (simp add: call installed_def)
  assume st: "deferred_inv s" "deferred_owns s a b" "mem s b = op_type (ops_at s a)"
  show "Deferred_on_rx oo f b (on_receive_args (ops_at s a)) s = Inr s' \<Longrightarrow> deferred_inv s'"
    using Deferred_onReceive_spec[OF st(1) va st(2,3)] by (auto simp: call)
  show "\<exists>s'. Deferred_on_rx oo f b (on_receive_args (ops_at s a)) s = Inr s'"
    using Deferred_onReceive_spec[OF st(1) va st(2,3)] by (auto simp: call)
qed (use deferred_valid_sane deferred_gen_owns deferred_write_ok in blast)+

section \<open>Deferred processing\<close>

text \<open>
  The contract of the deferred actions: they leave the deferred handler and the received bytes
  alone, and do not look at the buffer bookkeeping.
\<close>

definition same_queue :: "('f, 'z) deferred_scheme \<Rightarrow> ('f, 'z) deferred_scheme \<Rightarrow> bool" where
  "same_queue s s' \<longleftrightarrow> mem s' = mem s \<and> ops_at s' = ops_at s \<and> packet_infos s' = packet_infos s
     \<and> pending_packets s' = pending_packets s \<and> pending_packets_size s' = pending_packets_size s"

lemma same_queue_refl [simp]: "same_queue s s"
  by (simp add: same_queue_def)

lemma same_queue_trans: "same_queue a b \<Longrightarrow> same_queue b c \<Longrightarrow> same_queue a c"
  by (simp add: same_queue_def)

text \<open>The bookkeeping of one type after all its packets have been processed.\<close>

definition flush_info :: "'f DeferredPacketOps \<Rightarrow> 'f DeferredPacketOps" where
  "flush_info i = (if 0 < packet_buffers_size i
     then i\<lparr>packet_buffers_start := packet_buffers_end i, packet_buffers_size := 0\<rparr> else i)"

definition retire_all :: "('f, 'z) deferred_scheme \<Rightarrow> ('f, 'z) deferred_scheme" where
  "retire_all s = s\<lparr>packet_infos := map flush_info (packet_infos s), pending_packets_size := 0\<rparr>"

text \<open>The rings agree with the packets that are still to be processed.\<close>

definition rings_match :: "('f, 'z) deferred_scheme \<Rightarrow> addr list \<Rightarrow> bool" where
  "rings_match s ps \<longleftrightarrow> length (packet_infos s) = 20 \<and>
     (\<forall>t < 20. info_ok (packet_infos s ! t)
        \<and> filter (\<lambda>p. unat (mem s p) = t) ps = info_items (packet_infos s ! t))
     \<and> (\<forall>p \<in> set ps. unat (mem s p) < 20)"

lemma rings_match_pending: "deferred_inv s \<Longrightarrow> rings_match s (pending s)"
  by (simp add: rings_match_def deferred_inv_def)

lemma info_items_Nil: "info_ok i \<Longrightarrow> info_items i = [] \<Longrightarrow> packet_buffers_size i = 0"
  by (auto simp: info_ok_def info_items_def)

lemma flush_info_get:
  assumes "info_ok i" and "info_items i = p # ps"
    and "BUFFER_GET (packet_buffers_max i) (packet_buffers_start i, packet_buffers_size i) = (st', n')"
  shows "flush_info (i\<lparr>packet_buffers_start := st', packet_buffers_size := n'\<rparr>) = flush_info i"
proof -
  let ?i = "i\<lparr>packet_buffers_start := st', packet_buffers_size := n'\<rparr>"
  have ok: "info_ok ?i" by (rule info_get(1)[OF assms])
  have pos: "0 < packet_buffers_size i"
    using assms(1,2) by (cases "packet_buffers_size i = 0") (auto simp: info_ok_def info_items_def)
  then have max: "0 < packet_buffers_max i" using assms(1) by (simp add: info_ok_def)
  have "n' = packet_buffers_size i - 1"
    using assms(3) by (simp add: BUFFER_GET_def Let_def split: if_splits)
  moreover have "st' = packet_buffers_end i" if "n' = 0"
    using ok that max by (simp add: info_ok_def)
  ultimately show ?thesis using pos by (simp add: flush_info_def)
qed

lemma retire_buffer_step:
  assumes m: "rings_match s (p # ps)" and t: "t = unat (mem s p)"
  shows "p = packet_buffers (packet_infos s ! t) ! nat (packet_buffers_start (packet_infos s ! t))"
    and "\<exists>I. retire_buffer t s = s\<lparr>packet_infos := I\<rparr> \<and> rings_match (s\<lparr>packet_infos := I\<rparr>) ps
      \<and> map flush_info I = map flush_info (packet_infos s)
      \<and> (\<forall>u. deferred_action_fn (I ! u) = deferred_action_fn (packet_infos s ! u)
            \<and> deferred_action_args (I ! u) = deferred_action_args (packet_infos s ! u))"
proof -
  let ?i = "packet_infos s ! t"
  have len: "length (packet_infos s) = 20" and t20: "t < 20" and ok: "info_ok ?i"
    using m t by (auto simp: rings_match_def)
  have items: "info_items ?i = p # filter (\<lambda>p. unat (mem s p) = t) ps"
    using m t t20 by (auto simp: rings_match_def)
  obtain st n where get: "BUFFER_GET (packet_buffers_max ?i) (packet_buffers_start ?i, packet_buffers_size ?i) = (st, n)"
    by (cases "BUFFER_GET (packet_buffers_max ?i) (packet_buffers_start ?i, packet_buffers_size ?i)")
  note g = info_get[OF ok items get] flush_info_get[OF ok items get]
  show "p = packet_buffers ?i ! nat (packet_buffers_start ?i)" using g(3) by simp
  let ?i' = "?i\<lparr>packet_buffers_start := st, packet_buffers_size := n\<rparr>"
  let ?I = "(packet_infos s)[t := ?i']"
  have nth: "?I ! u = (if u = t then ?i' else packet_infos s ! u)" for u
    using t20 len by (cases "u < 20") (auto simp: nth_list_update list_update_beyond)
  have "info_ok (?I ! u) \<and> filter (\<lambda>p. unat (mem s p) = u) ps = info_items (?I ! u)" if u: "u < 20" for u
  proof (cases "u = t")
    case True
    then show ?thesis using g(1,2) by (simp add: nth)
  next
    case False
    moreover have "info_ok (packet_infos s ! u)"
      "filter (\<lambda>p. unat (mem s p) = u) (p # ps) = info_items (packet_infos s ! u)"
      using m u by (simp_all only: rings_match_def)
    moreover have "unat (mem s p) \<noteq> u" using False t by simp
    ultimately show ?thesis by (simp add: nth)
  qed
  then have "rings_match (s\<lparr>packet_infos := ?I\<rparr>) ps"
    using m by (simp add: rings_match_def)
  moreover have "map flush_info ?I = map flush_info (packet_infos s)"
  proof (rule nth_equalityI)
    fix u
    assume "u < length (map flush_info ?I)"
    then have "u < 20" using len by simp
    then show "map flush_info ?I ! u = map flush_info (packet_infos s) ! u"
      using g(4) len by (simp add: nth)
  qed simp
  moreover have "retire_buffer t s = s\<lparr>packet_infos := ?I\<rparr>"
    by (simp add: retire_buffer_def Let_def get)
  ultimately show "\<exists>I. retire_buffer t s = s\<lparr>packet_infos := I\<rparr> \<and> rings_match (s\<lparr>packet_infos := I\<rparr>) ps
      \<and> map flush_info I = map flush_info (packet_infos s)
      \<and> (\<forall>u. deferred_action_fn (I ! u) = deferred_action_fn (packet_infos s ! u)
            \<and> deferred_action_args (I ! u) = deferred_action_args (packet_infos s ! u))"
    using nth by (intro exI[of _ ?I]) auto
qed

locale deferred_actions =
  fixes act :: "('f, ('f, 'z) deferred_scheme) action_call"
  assumes act_queue: "act f p args s = Inr s' \<Longrightarrow> same_queue s s'"
    and act_infos: "act f p args (s\<lparr>packet_infos := I\<rparr>) =
      bindR (act f p args s) (\<lambda>s'. Inr (s'\<lparr>packet_infos := I\<rparr>))"
begin

lemma run_action_queue: "run_action act p s = Inr s' \<Longrightarrow> same_queue s s'"
  using act_queue by (auto simp: run_action_def Let_def split: option.splits)

lemma run_action_infos:
  assumes "\<And>u. deferred_action_fn (I ! u) = deferred_action_fn (packet_infos s ! u)"
    and "\<And>u. deferred_action_args (I ! u) = deferred_action_args (packet_infos s ! u)"
  shows "run_action act p (s\<lparr>packet_infos := I\<rparr>) =
    bindR (run_action act p s) (\<lambda>s'. Inr (s'\<lparr>packet_infos := I\<rparr>))"
  using assms by (simp add: run_action_def Let_def act_infos split: option.splits)

lemma foldR_run_action_infos:
  assumes "\<And>u. deferred_action_fn (I ! u) = deferred_action_fn (packet_infos s ! u)"
    and "\<And>u. deferred_action_args (I ! u) = deferred_action_args (packet_infos s ! u)"
  shows "foldR (run_action act) ps (s\<lparr>packet_infos := I\<rparr>) =
    bindR (foldR (run_action act) ps s) (\<lambda>s'. Inr (s'\<lparr>packet_infos := I\<rparr>))"
  using assms
proof (induction ps arbitrary: s)
  case Nil
  then show ?case by simp
next
  case (Cons p ps)
  have "foldR (run_action act) ps (s'\<lparr>packet_infos := I\<rparr>) =
      bindR (foldR (run_action act) ps s') (\<lambda>s'. Inr (s'\<lparr>packet_infos := I\<rparr>))"
    if "run_action act p s = Inr s'" for s'
    using run_action_queue[OF that] Cons.prems by (intro Cons.IH) (simp_all add: same_queue_def)
  then show ?case
    by (cases "run_action act p s") (simp_all add: run_action_infos[OF Cons.prems])
qed

text \<open>
  The loop runs the actions of the queued packets in order, and its asserts hold; it fails
  only when an action fails.
\<close>

lemma process_from_spec:
  assumes "rings_match s ps" and "drop pnum (pending s) = ps" and "nat (pending_packets_size s) \<le> 8"
    and "length (pending_packets s) = 8"
  shows "process_from act pnum s =
    bindR (foldR (run_action act) ps s) (\<lambda>s'. Inr (s'\<lparr>packet_infos := map flush_info (packet_infos s)\<rparr>))"
  using assms
proof (induction ps arbitrary: pnum s)
  case Nil
  have "length (pending s) = nat (pending_packets_size s)"
    using Nil.prems(3,4) by (simp add: pending_def)
  then have fin: "pending_packets_size s \<le> int pnum" using Nil.prems(2) by simp
  have "flush_info (packet_infos s ! t) = packet_infos s ! t" if "t < 20" for t
    using Nil.prems(1) that info_items_Nil by (force simp: rings_match_def flush_info_def)
  then have "map flush_info (packet_infos s) = packet_infos s"
    using Nil.prems(1) by (intro nth_equalityI) (auto simp: rings_match_def)
  then show ?case using fin by (simp add: process_from.simps)
next
  case (Cons p ps)
  have len: "length (pending s) = nat (pending_packets_size s)"
    using Cons.prems(3,4) by (simp add: pending_def)
  have lt: "pnum < length (pending s)" using Cons.prems(2) by (metis drop_all leI list.distinct(1))
  then have more: "\<not> pending_packets_size s \<le> int pnum" "pnum < 8"
    using len Cons.prems(3) by linarith+
  have p: "pending_packets s ! pnum = p"
    using nth_via_drop[OF Cons.prems(2)] lt len by (simp add: pending_def)
  define t where "t = unat (mem s p)"
  have t20: "t < 20" and len20: "length (packet_infos s) = 20"
    using Cons.prems(1) by (auto simp: rings_match_def t_def)
  note head = retire_buffer_step(1)[OF Cons.prems(1) t_def, symmetric]
  have unfold: "process_from act pnum s =
      bindR (run_action act p s) (\<lambda>s1. process_from act (Suc pnum) (retire_buffer t s1))"
    using more p t20 len20 head by (subst process_from.simps) (simp add: Let_def t_def[symmetric])
  have "process_from act (Suc pnum) (retire_buffer t s1) =
      bindR (foldR (run_action act) ps s1)
        (\<lambda>s'. Inr (s'\<lparr>packet_infos := map flush_info (packet_infos s)\<rparr>))"
    if s1: "run_action act p s = Inr s1" for s1
  proof -
    have q: "same_queue s s1" by (rule run_action_queue[OF s1])
    then have q': "mem s1 = mem s" "packet_infos s1 = packet_infos s" "pending_packets s1 = pending_packets s"
      "pending_packets_size s1 = pending_packets_size s" by (simp_all add: same_queue_def)
    then have m1: "rings_match s1 (p # ps)" and t1: "t = unat (mem s1 p)"
      using Cons.prems(1) by (simp_all add: rings_match_def t_def)
    obtain I where I: "retire_buffer t s1 = s1\<lparr>packet_infos := I\<rparr>" "rings_match (s1\<lparr>packet_infos := I\<rparr>) ps"
      "map flush_info I = map flush_info (packet_infos s1)"
      "\<And>u. deferred_action_fn (I ! u) = deferred_action_fn (packet_infos s1 ! u)"
      "\<And>u. deferred_action_args (I ! u) = deferred_action_args (packet_infos s1 ! u)"
      using retire_buffer_step(2)[OF m1 t1] by blast
    have dr: "drop (Suc pnum) (pending (s1\<lparr>packet_infos := I\<rparr>)) = ps"
      using Cons.prems(2) by (simp add: pending_def q' drop_Suc flip: tl_drop)
    have "process_from act (Suc pnum) (s1\<lparr>packet_infos := I\<rparr>) =
        bindR (foldR (run_action act) ps (s1\<lparr>packet_infos := I\<rparr>))
          (\<lambda>s'. Inr (s'\<lparr>packet_infos := map flush_info I\<rparr>))"
      using Cons.IH[OF I(2) dr] Cons.prems(3,4) q' by simp
    then show ?thesis
      unfolding I(1) foldR_run_action_infos[OF I(4,5)]
      by (cases "foldR (run_action act) ps s1") (simp_all add: I(3) q'(2))
  qed
  then show ?case
    unfolding unfold by (cases "run_action act p s") simp_all
qed

lemma foldR_run_action_queue:
  "foldR (run_action act) ps s = Inr s' \<Longrightarrow> same_queue s s'"
proof (induction ps arbitrary: s)
  case Nil
  then show ?case by simp
next
  case (Cons p ps)
  then show ?case
    using run_action_queue same_queue_trans by (fastforce simp: bindR_Inr_iff)
qed

lemma processPendingPackets_spec:
  assumes "deferred_inv s"
  shows "DeferredPacketHandler_processPendingPackets act s =
    bindR (foldR (run_action act) (pending s) s) (\<lambda>s'. Inr (retire_all s'))"
proof -
  have "process_from act 0 s = bindR (foldR (run_action act) (pending s) s)
      (\<lambda>s'. Inr (s'\<lparr>packet_infos := map flush_info (packet_infos s)\<rparr>))"
    using deferred_invD(2,4)[OF assms]
    by (intro process_from_spec rings_match_pending assms) simp_all
  then show ?thesis
    using foldR_run_action_queue[of "pending s" s]
    by (cases "foldR (run_action act) (pending s) s")
      (simp_all add: DeferredPacketHandler_processPendingPackets_def retire_all_def same_queue_def)
qed

end

section \<open>Life cycle: initialisation, installation, processing\<close>

lemma flush_info_ok:
  assumes "info_ok i"
  shows "info_ok (flush_info i)" and "info_items (flush_info i) = []"
proof -
  have "0 \<le> packet_buffers_end i \<and> packet_buffers_end i < packet_buffers_max i"
    if "0 < packet_buffers_size i"
    using assms that by (simp add: info_ok_def)
  then show "info_ok (flush_info i)" using assms by (auto simp: info_ok_def flush_info_def)
  show "info_items (flush_info i) = []"
    using assms by (auto simp: info_items_def flush_info_def info_ok_def)
qed

lemma flush_info_fields [simp]:
  "packet_buffers (flush_info i) = packet_buffers i"
  "packet_buffers_max (flush_info i) = packet_buffers_max i"
  by (simp_all add: flush_info_def)

lemma retire_all_inv:
  assumes "deferred_inv s"
  shows "deferred_inv (retire_all s)" and "pending (retire_all s) = []"
proof -
  have infos: "packet_infos (retire_all s) ! t = flush_info (packet_infos s ! t)" if "t < 20" for t
    using that deferred_invD(1)[OF assms] by (simp add: retire_all_def)
  have ops: "ops_at (retire_all s) = ops_at s" by (simp add: retire_all_def)
  have "buffers_ok (retire_all s)"
    using deferred_invD(8)[OF assms] by (subst buffers_ok_cong[of _ s]) (simp_all add: infos ops)
  moreover have "installed (retire_all s) t = installed s t" for t
    using infos by (auto simp: installed_def)
  moreover show pend: "pending (retire_all s) = []" by (simp add: pending_def retire_all_def)
  moreover have "length (packet_infos (retire_all s)) = 20"
    "length (pending_packets (retire_all s)) = 8" "pending_packets_size (retire_all s) = 0"
    using deferred_invD(1,2)[OF assms] by (simp_all add: retire_all_def)
  ultimately show "deferred_inv (retire_all s)"
    using flush_info_ok[OF deferred_invD(5)[OF assms]] deferred_invD(9)[OF assms]
    by (simp add: deferred_inv_def infos ops)
qed

text \<open>Processing in the middle of a reception does not disturb the reception.\<close>

lemma retire_all_owns:
  assumes "deferred_inv s" and "deferred_owns s a b"
  shows "deferred_owns (retire_all s) a b"
proof -
  obtain t where t: "t < 20" "a = info_ops t"
    "packet_buffers_size (packet_infos s ! t) < packet_buffers_max (packet_infos s ! t)"
    "b = packet_buffers (packet_infos s ! t) ! nat (packet_buffers_end (packet_infos s ! t))"
    using assms(2) by (auto simp: deferred_owns_def Let_def)
  have infos: "packet_infos (retire_all s) ! t = flush_info (packet_infos s ! t)"
    using t(1) deferred_invD(1)[OF assms(1)] by (simp add: retire_all_def)
  have "0 \<le> packet_buffers_size (packet_infos s ! t)"
    using deferred_invD(5)[OF assms(1) t(1)] by (simp add: info_ok_def)
  then show ?thesis
    using t by (auto simp: deferred_owns_def Let_def infos flush_info_def)
qed

text \<open>The invariant of a running handler: the receiver and its client together.\<close>

definition handler_inv :: "PacketHandler \<Rightarrow> ('f, 'z) deferred_scheme \<Rightarrow> bool" where
  "handler_inv h s \<longleftrightarrow> receiver_inv deferred_inv deferred_valid deferred_owns h s"

lemma deferred_valid_retire: "deferred_inv s \<Longrightarrow> deferred_valid (retire_all s) = deferred_valid s"
  by (rule deferred_valid_cong) (simp_all add: retire_all_def installed_def deferred_invD(1))

lemma retire_all_handler_inv:
  assumes "handler_inv h s"
  shows "handler_inv h (retire_all s)"
proof -
  have inv: "deferred_inv s" using assms by (simp add: handler_inv_def receiver_inv_def)
  have same: "ops_at (retire_all s) = ops_at s" "mem (retire_all s) = mem s"
    by (simp_all add: retire_all_def)
  show ?thesis
    using assms retire_all_inv(1)[OF inv] retire_all_owns[OF inv]
    by (auto simp: handler_inv_def receiver_inv_def table_ok_def same deferred_valid_retire[OF inv])
qed

lemma same_queue_inv:
  assumes "same_queue s s'"
  shows "deferred_inv s' = deferred_inv s" and "deferred_valid s' = deferred_valid s"
    and "deferred_owns s' = deferred_owns s" and "pending s' = pending s"
    and "handler_inv h s' = handler_inv h s"
proof -
  have eq: "mem s' = mem s" "ops_at s' = ops_at s" "packet_infos s' = packet_infos s"
    "pending_packets s' = pending_packets s" "pending_packets_size s' = pending_packets_size s"
    using assms by (simp_all add: same_queue_def)
  have b: "buffers_ok s' = buffers_ok s" by (rule buffers_ok_cong) (simp_all add: eq)
  show p: "pending s' = pending s" by (simp add: pending_def eq)
  show i: "deferred_inv s' = deferred_inv s" by (simp add: deferred_inv_def installed_def b p eq)
  show v: "deferred_valid s' = deferred_valid s"
    by (auto simp: deferred_valid_def installed_def eq fun_eq_iff)
  show o: "deferred_owns s' = deferred_owns s" by (auto simp: deferred_owns_def eq fun_eq_iff)
  show "handler_inv h s' = handler_inv h s"
    by (simp add: handler_inv_def receiver_inv_def table_ok_def i v o eq)
qed

lemma initialize_inv:
  assumes "length (pending_packets s) = 8"
  shows "case DeferredPacketHandler_initialize h s of (h', s') \<Rightarrow>
    handler_inv h' s' \<and> pending s' = [] \<and> (\<forall>t < 20. \<not> installed s' t)"
  using assms
  by (simp add: DeferredPacketHandler_initialize_def PacketHandler_initialize_def handler_inv_def
      receiver_inv_def table_ok_def deferred_inv_def installed_def info_ok_def zero_info_def
      info_items_def pending_def buffers_ok_def num_buffers_of_def)

text \<open>Installing a type that is not installed yet, with buffers that overlap no others.\<close>

definition fresh_area :: "('f, 'z) deferred_scheme \<Rightarrow> addr \<Rightarrow> nat \<Rightarrow> bool" where
  "fresh_area s buffer n \<longleftrightarrow> buffer \<noteq> NULL \<and>
     (\<forall>t < PACKET_TYPE_MAX. \<forall>i < num_buffers_of s t. disjoint_regions (buffer, n) (region s t i))"

lemma info_ops_inj [simp]: "info_ops t = info_ops u \<longleftrightarrow> t = u"
  by (simp add: info_ops_def)

lemma info_ops_nonnull [simp]: "info_ops t \<noteq> NULL" "0 < info_ops t"
  by (simp_all add: info_ops_def)

lemma installPacket_ok:
  assumes inv: "handler_inv h s" and t: "unat type < 20" and new: "\<not> installed s (unat type)"
    and free: "operations h ! unat type = NULL"
    and sz: "3 \<le> unat sz" "sz \<noteq> PACKET_SIZE_ANY" and num: "1 \<le> num" "num \<le> 2"
    and fresh: "fresh_area s buffer (nat num * unat sz)"
  shows "\<exists>h' s'. DeferredPacketHandler_installPacket type sz buffer num action args h s
      = Inr (Success, h', s') \<and> handler_inv h' s' \<and> installed s' (unat type) \<and>
      pending s' = pending s \<and> mem s' = mem s \<and>
      (\<forall>u < 20. u \<noteq> unat type \<longrightarrow> installed s' u = installed s u)"
proof -
  define t where "t = unat type"
  have t20: "t < 20" using t by (simp add: t_def)
  have dinv: "deferred_inv s" and tab: "table_ok deferred_valid h s"
    using inv by (simp_all add: handler_inv_def receiver_inv_def)
  obtain k where k: "num = int k" "k = 1 \<or> k = 2" 
  proof (rule that[of "nat num"])
    show "nat num = 1 \<or> nat num = 2" using num by linarith
  qed (use num in simp)
  define bufs where "bufs = map (\<lambda>i. buffer + i * unat sz) [0..<k] @ replicate (2 - k) NULL"
  define ops where "ops = \<lparr>op_type = type, op_size = sz,
    initialize_buffer_fn = Deferred_initializeBuffer, initialize_buffer_args = 1,
    on_receive_fn = Some Deferred_onReceive, on_receive_args = 1\<rparr>"
  define info where "info = \<lparr>packet_buffers = bufs, packet_buffers_max = int k,
    packet_buffers_size = 0, packet_buffers_start = 0, packet_buffers_end = 0,
    deferred_action_fn = action, deferred_action_args = args\<rparr>"
  define s' where "s' = s\<lparr>ops_at := (ops_at s)(info_ops t := ops),
    packet_infos := (packet_infos s)[t := info]\<rparr>"
  define h' where "h' = h\<lparr>operations := (operations h)[t := info_ops t]\<rparr>"
  have call: "DeferredPacketHandler_installPacket type sz buffer num action args h s
      = Inr (Success, h', s')"
    using t num free k
    by (simp add: DeferredPacketHandler_installPacket_def PacketHandler_installPacket_def Let_def
        t_def s'_def h'_def ops_def info_def bufs_def)
  have infos: "packet_infos s' ! u = (if u = t then info else packet_infos s ! u)" if "u < 20" for u
    using that deferred_invD(1)[OF dinv] by (simp add: s'_def nth_list_update)
  have opsu: "ops_at s' (info_ops u) = (if u = t then ops else ops_at s (info_ops u))" for u
    by (simp add: s'_def)
  have ins: "installed s' u = (u = t \<or> installed s u)" if "u < 20" for u
    using infos[OF that] t20 k by (auto simp: installed_def info_def)
  have pend: "pending s' = pending s" and m: "mem s' = mem s" by (simp_all add: pending_def s'_def)
  have nth_bufs: "bufs ! i = buffer + i * unat sz" if "i < k" for i
    using that by (simp add: bufs_def nth_append)
  have info_ok: "info_ok info" "info_items info = []"
    using k by (auto simp: info_ok_def info_def bufs_def info_items_def)
  have ops_ok: "ops_ok t ops" using sz by (simp add: ops_ok_def ops_def op_sane_def t_def)
  have max0: "packet_buffers_max (packet_infos s ! t) \<le> 0"
    using new t20 by (simp add: installed_def t_def)
  then have none: "filter (\<lambda>p. unat (mem s p) = t) (pending s) = []"
    using deferred_invD(5,6)[OF dinv t20] by (auto simp: info_ok_def info_items_def)
  have nb: "num_buffers_of s' u = (if u = t then k else num_buffers_of s u)" if "u < 20" for u
    using infos[OF that] by (simp add: num_buffers_of_def info_def)
  have reg: "region s' u i = (if u = t then (buffer + i * unat sz, unat sz) else region s u i)"
    if "u < 20" "i < num_buffers_of s' u" for u i
    using infos[OF that(1)] that nth_bufs nb[OF that(1)] opsu[of u]
    by (auto simp: region_def info_def ops_def)
  have sub: "disjoint_regions (buffer + i * unat sz, unat sz) r \<and> disjoint_regions r (buffer + i * unat sz, unat sz)"
    if d: "disjoint_regions (buffer, k * unat sz) r" and i: "i < k" for i r
  proof -
    have "i * unat sz + unat sz \<le> k * unat sz"
      using mult_le_mono1[of "Suc i" k "unat sz"] i by simp
    then show ?thesis using d by (auto simp: disjoint_regions_def)
  qed
  have old: "disjoint_regions (buffer, k * unat sz) (region s u i)" if "u < 20" "i < num_buffers_of s u" for u i
    using fresh that k(1) by (simp add: fresh_area_def)
  have own: "disjoint_regions (buffer + i * unat sz, unat sz) (buffer + j * unat sz, unat sz)"
    if "i < k" "j < k" "i \<noteq> j" for i j
  proof -
    have "i < j \<or> j < i" using that(3) by arith
    then have "Suc i * unat sz \<le> j * unat sz \<or> Suc j * unat sz \<le> i * unat sz"
      using mult_le_mono1[of "Suc i" j] mult_le_mono1[of "Suc j" i] by auto
    then show ?thesis by (auto simp: disjoint_regions_def algebra_simps)
  qed
  have bok: "buffers_ok s'"
    unfolding buffers_ok_def
  proof (intro allI impI conjI)
    fix u i v j
    assume u: "u < 20" "i < num_buffers_of s' u"
    show "fst (region s' u i) \<noteq> NULL"
      using reg[OF u] nb[OF u(1)] u fresh deferred_invD(8)[OF dinv]
      by (auto simp: fresh_area_def buffers_ok_def)
    assume v: "v < 20" "j < num_buffers_of s' v" and ne: "(u, i) \<noteq> (v, j)"
    have uv: "disjoint_regions (region s u i) (region s v j)" if "u \<noteq> t" "v \<noteq> t"
      using deferred_invD(8)[OF dinv] u v ne nb[OF u(1)] nb[OF v(1)] that by (simp add: buffers_ok_def)
    show "disjoint_regions (region s' u i) (region s' v j)"
      unfolding reg[OF u] reg[OF v]
      using uv u v ne nb[OF u(1)] nb[OF v(1)] sub[OF old[OF u(1)]] sub[OF old[OF v(1)]] own[of i j]
      by (auto split: if_splits)
  qed
  have dinv': "deferred_inv s'"
    unfolding deferred_inv_def
  proof (intro conjI allI impI ballI bok)
    fix u :: nat
    assume u: "u < 20"
    show "info_ok (packet_infos s' ! u)"
      using infos[OF u] info_ok deferred_invD(5)[OF dinv u] by simp
    show "installed s' u \<Longrightarrow> ops_ok u (ops_at s' (info_ops u))"
      using ins[OF u] opsu ops_ok deferred_invD(9)[OF dinv] by auto
    show "filter (\<lambda>p. unat (mem s' p) = u) (pending s') = info_items (packet_infos s' ! u)"
      using infos[OF u] info_ok(2) none deferred_invD(6)[OF dinv u]
      by (cases "u = t") (simp_all add: pend m)
  next
    fix p
    assume "p \<in> set (pending s')"
    then show "unat (mem s' p) < 20" using deferred_invD(7)[OF dinv] by (simp add: pend m)
  qed (use deferred_invD[OF dinv] in \<open>simp_all add: s'_def\<close>)
  have valid: "deferred_valid s' a" if "deferred_valid s a" for a
    using that ins opsu ops_ok by (auto simp: deferred_valid_def)
  have valid_t: "deferred_valid s' (info_ops t)"
    using t20 ins opsu ops_ok by (auto simp: deferred_valid_def)
  have not_t: "a \<noteq> info_ops t" if "deferred_valid s a" for a
    using that new by (auto simp: deferred_valid_def t_def)
  have opsa: "ops_at s' a = ops_at s a" if "deferred_valid s a" for a
    using not_t[OF that] by (simp add: s'_def)
  have owns: "deferred_owns s' a b" if "deferred_owns s a b" "deferred_valid s a" for a b
    using that infos not_t[OF that(2)] by (auto simp: deferred_owns_def Let_def)
  have "table_ok deferred_valid h' s'"
    using tab t20 valid valid_t opsa opsu[of t]
    by (auto simp: table_ok_def h'_def nth_list_update ops_def t_def)
  then have "handler_inv h' s'"
    using inv dinv' valid owns opsa by (auto simp: handler_inv_def receiver_inv_def m h'_def)
  with call ins pend m t20 show ?thesis
    by (intro exI[of _ h'] exI[of _ s']) (simp add: t_def)
qed

end
