(* ===== verification/PacketProperties.thy ===== *)
theory PacketProperties
  imports Deferred
begin

text \<open>
  What the packet layer (\<open>src/orazio_lib/src/common\<close>) promises to the rest of the program:
  transfer of packets from one side to the other, robustness on arbitrary and on corrupted
  input, and the limits of the receiver.
\<close>

section \<open>Concrete states for the witnesses\<close>

definition empty_handler :: PacketHandler where
  "empty_handler = \<lparr>operations = replicate PACKET_TYPE_MAX NULL, rx_current_op = NULL,
     rx_current_packet = NULL, rx_checksum = 0, rx_buffer = NULL, rx_buffer_end = NULL,
     rx_bytes_to_read = 0, rxFn = rxAA, tx_buffer = replicate PACKET_SIZE_MAX 0, tx_start = 0,
     tx_end = 0, tx_size = 0, tx_checksum = 0\<rparr>"

definition no_ops :: PacketOperations where
  "no_ops = \<lparr>op_type = 0, op_size = 0, initialize_buffer_fn = Client_initializeBuffer,
     initialize_buffer_args = NULL, on_receive_fn = None, on_receive_args = NULL\<rparr>"

definition empty_store :: "unit deferred" where
  "empty_store = \<lparr>mem = (\<lambda>_. 0), ops_at = (\<lambda>_. no_ops), packet_infos = replicate PACKET_TYPE_MAX zero_info,
     pending_packets = replicate PENDING_PACKETS_MAX NULL, pending_packets_size = 0\<rparr>"

text \<open>A handler with the end-epoch packet (type 10, 4 bytes) installed in two buffers.\<close>

definition demo :: "PacketHandler \<times> unit deferred" where
  "demo = (case DeferredPacketHandler_installPacket END_EPOCH_PACKET_ID 4 1000 2 (Some ()) NULL
       empty_handler empty_store of
     Inr (st, h, s) \<Rightarrow> (h, s) | Inl e \<Rightarrow> (empty_handler, empty_store))"

lemma demo_ok:
  "fst demo = empty_handler\<lparr>operations := (replicate 20 NULL)[10 := 11]\<rparr>"
  "handler_inv (fst demo) (snd demo)"
proof -
  have "handler_inv empty_handler empty_store"
    using initialize_inv[of empty_store empty_handler]
    by (simp add: DeferredPacketHandler_initialize_def PacketHandler_initialize_def empty_handler_def
        empty_store_def)
  moreover have "fresh_area empty_store 1000 (nat 2 * unat (4 :: u8))"
    by (simp add: fresh_area_def num_buffers_of_def empty_store_def zero_info_def)
  ultimately have "\<exists>h' s'. DeferredPacketHandler_installPacket 10 4 1000 2 (Some ()) NULL empty_handler
      empty_store = Inr (Success, h', s') \<and> handler_inv h' s'"
    using installPacket_ok[of empty_handler empty_store 10 4 2 1000 "Some ()" NULL]
    by (auto simp: installed_def empty_store_def zero_info_def empty_handler_def)
  then show "handler_inv (fst demo) (snd demo)" by (auto simp: demo_def)
  show "fst demo = empty_handler\<lparr>operations := (replicate 20 NULL)[10 := 11]\<rparr>"
    by (simp add: demo_def DeferredPacketHandler_installPacket_def PacketHandler_installPacket_def
        Let_def empty_handler_def info_ops_def)
qed

lemma demo_store:
  "ops_at (snd demo) 11 = \<lparr>op_type = 10, op_size = 4, initialize_buffer_fn = Deferred_initializeBuffer,
     initialize_buffer_args = 1, on_receive_fn = Some Deferred_onReceive, on_receive_args = 1\<rparr>"
  "packet_infos (snd demo) ! 10 = \<lparr>packet_buffers = [1000, 1004], packet_buffers_max = 2,
     packet_buffers_size = 0, packet_buffers_start = 0, packet_buffers_end = 0,
     deferred_action_fn = Some (), deferred_action_args = NULL\<rparr>"
  "pending (snd demo) = []" "pending_packets_size (snd demo) = 0"
  by (simp_all add: demo_def DeferredPacketHandler_installPacket_def PacketHandler_installPacket_def
      Let_def empty_handler_def empty_store_def info_ops_def pending_def upt_rec)

lemma empty_handler_tx: "tx_ok empty_handler" "tx_size empty_handler = 0"
  by (simp_all add: tx_ok_def empty_handler_def)

text \<open>No function of another file is called by the deferred handler.\<close>

definition no_gen :: "unit deferred gen_call" where
  "no_gen f type sz args s = NULL"

definition no_rx :: "unit deferred rx_call" where
  "no_rx f packet args s = Inl NullDeref"

section \<open>Transfer\<close>

text \<open>
  C10. A packet that is sent and whose bytes are drained from the transmit ring one by one is
  the frame that the receiving side accepts: the receiver, idle and with the type
  registered, reports the progress of the reception byte by byte, stores exactly the
  packet in the buffer it was given, and calls the receive function once, at the end.
\<close>

theorem packet_transfer:
  assumes tx: "tx_ok ht" "tx_size ht = 0" "length pkt \<le> 251"
    and idle: "rxFn h = rxAA" and t: "unat (pkt ! 0) < PACKET_TYPE_MAX"
    and a: "operations h ! unat (pkt ! 0) = a" "a \<noteq> NULL" and op: "ops_at s a = op" and wf: "wf_packet pkt op"
    and b: "gen (initialize_buffer_fn op) (pkt ! 0) (pkt ! 1) (initialize_buffer_args op) s = b" "b \<noteq> NULL"
  shows "\<exists>ht1 ht2. PacketHandler_sendPacket pkt ht = (Success, ht1) \<and>
    drain (\<lambda>h. tx_size h = 0) PacketHandler_txByte (length pkt + 3) ht1 = (frame pkt, ht2) \<and>
    tx_size ht2 = 0 \<and>
    rx_run gen on_rx (frame pkt) h s =
      (let s1 = s\<lparr>mem := write_mem (mem s) b pkt\<rparr> in
       bindR (case on_receive_fn op of None \<Rightarrow> Inr s1 | Some f \<Rightarrow> on_rx f b (on_receive_args op) s1)
         (\<lambda>s2. Inr ([SyncAA, Sync55, SyncType, SyncSize] @ replicate (length pkt - 3) SyncPayload
                    @ [SyncPayloadComplete, SyncChecksum], rx_idle pkt a b h, s2)))"
proof -
  have empty: "tx_items ht = []" using tx(2) by (simp add: tx_items_def)
  have len: "length pkt = unat (pkt ! 1)" using wf by (simp add: wf_packet_def)
  have room: "length (tx_items ht) + length pkt + 3 \<le> 254"
    using tx(3) by (simp add: empty del: length_tx_items)
  obtain ht1 where ht1: "PacketHandler_sendPacket pkt ht = (Success, ht1)"
    using sendPacket_ok(1)[OF tx(1) len room] by (cases "PacketHandler_sendPacket pkt ht") simp
  have ok1: "tx_ok ht1" and items1: "tx_items ht1 = frame pkt"
    using sendPacket_ok(2,3)[OF tx(1) len room] by (simp_all add: ht1 empty)
  obtain bs ht2 where dr: "drain (\<lambda>h. tx_size h = 0) PacketHandler_txByte (length pkt + 3) ht1 = (bs, ht2)"
    by (cases "drain (\<lambda>h. tx_size h = 0) PacketHandler_txByte (length pkt + 3) ht1")
  have "bs = frame pkt" and "tx_items ht2 = []" and "tx_ok ht2"
    using txq.drain_all[OF ok1, of "length pkt + 3"] by (simp_all add: dr items1 del: length_tx_items)
  moreover have "tx_size ht2 = 0" using calculation txq.empty_iff by blast
  moreover have "rx_run gen on_rx (0xAA # 0x55 # pkt @ [checksum pkt]) h s =
      bindR (case on_receive_fn op of None \<Rightarrow> Inr (s\<lparr>mem := write_mem (mem s) b pkt\<rparr>)
             | Some f \<Rightarrow> on_rx f b (on_receive_args op) (s\<lparr>mem := write_mem (mem s) b pkt\<rparr>))
        (\<lambda>s1. Inr (frame_statuses (length pkt) @ [SyncChecksum], rx_idle pkt a b h, s1))"
    by (subst rx_frame_run[OF idle t a]) (use op wf b in \<open>simp_all cong: option.case_cong\<close>)
  ultimately show ?thesis
    using ht1 dr by (simp add: frame_def frame_statuses_def Let_def)
qed

theorem packet_transfer_witness:
  "\<exists>ht1 ht2. PacketHandler_sendPacket [10, 4, 7, 0] empty_handler = (Success, ht1) \<and>
    drain (\<lambda>h. tx_size h = 0) PacketHandler_txByte (length [10, 4, 7, 0 :: u8] + 3) ht1
      = (frame [10, 4, 7, 0], ht2) \<and> tx_size ht2 = 0"
proof -
  have "rxFn (fst demo) = rxAA" "operations (fst demo) ! 10 = 11"
    by (simp_all add: demo_ok(1) empty_handler_def)
  moreover have "wf_packet [10, 4, 7, 0] (ops_at (snd demo) 11)"
    by (simp add: wf_packet_def demo_store)
  moreover have "Deferred_gen no_gen Deferred_initializeBuffer 10 4 1 (snd demo) = 1000"
    by (simp add: Deferred_gen_def Deferred_initializeBuffer_call_def demo_store)
  ultimately show ?thesis
    using packet_transfer[of empty_handler "[10, 4, 7, 0]" "fst demo" 11 "snd demo" "ops_at (snd demo) 11"
        "Deferred_gen no_gen" 1000 "Deferred_on_rx no_rx"] empty_handler_tx
    by (auto simp: demo_store)
qed

section \<open>Reception on the deferred handler\<close>

lemma table_entry:
  assumes "handler_inv h s" and "t < 20" and "operations h ! t = a" and "a \<noteq> NULL"
  shows "a = info_ops t" and "deferred_valid s a" and "unat (op_type (ops_at s a)) = t"
    and "initialize_buffer_fn (ops_at s a) = Deferred_initializeBuffer"
    and "on_receive_fn (ops_at s a) = Some Deferred_onReceive"
proof -
  have tab: "table_ok deferred_valid h s" using assms(1) by (simp add: handler_inv_def receiver_inv_def)
  have v: "deferred_valid s a" and u: "unat (op_type (ops_at s a)) = t"
    using table_okD[OF tab assms(2)] assms(3,4) by auto
  then show "a = info_ops t" "initialize_buffer_fn (ops_at s a) = Deferred_initializeBuffer"
    "on_receive_fn (ops_at s a) = Some Deferred_onReceive"
    by (auto simp: deferred_valid_def ops_ok_def)
  show "deferred_valid s a" "unat (op_type (ops_at s a)) = t" by (fact v u)+
qed

lemma in_buffer_write:
  assumes "length pkt = unat (op_size (ops_at s a))" and "write_mem (mem s) b pkt x \<noteq> mem s x"
  shows "in_buffer s a b x"
  using assms write_mem_outside[of x b pkt "mem s"] by (fastforce simp: in_buffer_def not_less)

text \<open>Reception leaves the registered actions alone.\<close>

definition same_actions :: "('f, 'z) deferred_scheme \<Rightarrow> ('f, 'z) deferred_scheme \<Rightarrow> bool" where
  "same_actions s s' \<longleftrightarrow> (\<forall>u. deferred_action_fn (packet_infos s' ! u) = deferred_action_fn (packet_infos s ! u)
     \<and> deferred_action_args (packet_infos s' ! u) = deferred_action_args (packet_infos s ! u)
     \<and> packet_buffers_max (packet_infos s' ! u) = packet_buffers_max (packet_infos s ! u))"

lemma nth_update_if: "(xs[t := y]) ! u = (if t = u \<and> t < length xs then y else xs ! u)"
  by (cases "t < length xs") (auto simp: nth_list_update list_update_beyond)

lemma onReceive_actions:
  assumes "Deferred_onReceive_call b s = Inr s'"
  shows "same_actions s s'"
  using assms by (auto simp: Deferred_onReceive_call_def same_actions_def Let_def nth_update_if split: if_splits prod.splits)

lemma queue_frame:
  assumes inv: "handler_inv h s" and idle: "rxFn h = rxAA"
    and t: "t < PACKET_TYPE_MAX" "operations h ! t \<noteq> NULL" and pt: "unat (pkt ! 0) = t"
    and wf: "wf_packet pkt (ops_at s (info_ops t))"
    and room: "packet_buffers_size (packet_infos s ! t) < packet_buffers_max (packet_infos s ! t)"
      "pending_packets_size s < int PENDING_PACKETS_MAX"
  shows "\<exists>sts h' s' b. rx_run (Deferred_gen og) (Deferred_on_rx oo) (frame pkt) h s = Inr (sts, h', s')
    \<and> last sts = SyncChecksum \<and> rxFn h' = rxAA \<and> handler_inv h' s'
    \<and> pending s' = pending s @ [b] \<and> b \<notin> set (pending s) \<and> read_mem (mem s') b (length pkt) = pkt
    \<and> (\<forall>p \<in> set (pending s). \<forall>i < unat (op_size (ops_at s (info_ops (unat (mem s p))))).
          mem s' (p + i) = mem s (p + i))
    \<and> operations h' = operations h \<and> ops_at s' = ops_at s \<and> same_actions s s'"
proof -
  obtain a where a: "operations h ! t = a" "a \<noteq> NULL" using t(2) by simp
  note entry = table_entry[OF inv t(1) a]
  have dinv: "deferred_inv s" using inv by (simp add: handler_inv_def receiver_inv_def)
  define b where "b = packet_buffers (packet_infos s ! t) ! nat (packet_buffers_end (packet_infos s ! t))"
  have pkt: "pkt ! 0 = op_type (ops_at s a)" "pkt ! 1 = op_size (ops_at s a)"
    "length pkt = unat (op_size (ops_at s a))" "3 \<le> length pkt"
    using wf entry(1) by (simp_all add: wf_packet_def)
  have own: "deferred_owns s a b"
    using t(1) room(1) entry(1) by (auto simp: deferred_owns_def b_def Let_def)
  have gen: "Deferred_gen og (initialize_buffer_fn (ops_at s a)) (pkt ! 0) (pkt ! 1)
      (initialize_buffer_args (ops_at s a)) s = b"
    using room(1) pt entry(4) by (simp add: Deferred_gen_def Deferred_initializeBuffer_call_def b_def Let_def)
  have bnz: "b \<noteq> NULL"
  proof -
    have i: "info_ok (packet_infos s ! t)" by (rule deferred_invD(5)[OF dinv t(1)])
    have "nat (packet_buffers_end (packet_infos s ! t)) < num_buffers_of s t"
      using i room(1) by (auto simp: info_ok_def num_buffers_of_def)
    then show ?thesis
      using deferred_invD(8)[OF dinv] t(1) by (simp add: buffers_ok_def region_def b_def)
  qed
  let ?s1 = "s\<lparr>mem := write_mem (mem s) b pkt\<rparr>"
  have rt: "unat (pkt ! 0) < 20" "operations h ! unat (pkt ! 0) = a" using t(1) pt a(1) by simp_all
  have wf': "wf_packet pkt (ops_at s a)" using wf entry(1) by simp
  have "rx_run (Deferred_gen og) (Deferred_on_rx oo) (0xAA # 0x55 # pkt) h s
      = Inr (frame_statuses (length pkt), rx_complete pkt a b h, ?s1)"
    by (rule rx_packet_run) (use idle rt a(2) wf' gen bnz in simp_all)
  then have inv1: "receiver_inv deferred_inv deferred_valid deferred_owns (rx_complete pkt a b h) ?s1"
    using defrx.rx_run_inv[OF inv[unfolded handler_inv_def]] by blast
  then have s1: "deferred_inv ?s1" "deferred_valid ?s1 a" "deferred_owns ?s1 a b"
    "mem ?s1 b = op_type (ops_at ?s1 a)"
    by (simp_all add: receiver_inv_def rx_complete_def)
  obtain s' where s': "Deferred_onReceive_call b ?s1 = Inr s'" "pending s' = pending s @ [b]"
    "mem s' = mem ?s1" "ops_at s' = ops_at s"
    using Deferred_onReceive_spec[OF s1] room(2) by auto
  have run: "rx_run (Deferred_gen og) (Deferred_on_rx oo) (frame pkt) h s
      = Inr (frame_statuses (length pkt) @ [SyncChecksum], rx_idle pkt a b h, s')"
    unfolding frame_def
    by (subst rx_frame_run[where a = a and b = b])
      (use idle rt a(2) wf' gen bnz in \<open>simp_all add: entry(5) Deferred_on_rx_def s'(1)\<close>)
  have "handler_inv (rx_idle pkt a b h) s'"
    using defrx.rx_run_inv[OF inv[unfolded handler_inv_def] run] by (simp add: handler_inv_def)
  moreover have "b \<notin> set (pending s)"
    using owned_not_pending[OF dinv own, of b] pkt(3,4) by (auto simp: in_buffer_def)
  moreover have "mem s' (p + i) = mem s (p + i)"
    if "p \<in> set (pending s)" "i < unat (op_size (ops_at s (info_ops (unat (mem s p)))))" for p i
    using owned_pending_disjoint(1)[OF dinv own that(1), of "p + i"] that(2)
      in_buffer_write[OF pkt(3), of b "p + i"] s'(3) by force
  moreover have "same_actions s s'" using onReceive_actions[OF s'(1)] by (simp add: same_actions_def)
  ultimately show ?thesis using run s'(2-4) by (intro exI[of _ "frame_statuses (length pkt) @ [SyncChecksum]"] exI[of _ "rx_idle pkt a b h"] exI[of _ s'] exI[of _ b])
      (auto simp: rx_idle_def)
qed


text \<open>
  C12. On the deferred handler: when the type is installed, one of its buffers is free and the
  queue has room, a frame that arrives at an idle receiver ends up as the newest packet of
  the queue, with the bytes that were sent, and no earlier packet of the queue is touched.
\<close>

theorem deferred_reception:
  assumes inv: "handler_inv h s" and idle: "rxFn h = rxAA"
    and t: "t < PACKET_TYPE_MAX" "operations h ! t \<noteq> NULL" and pt: "unat (pkt ! 0) = t"
    and wf: "wf_packet pkt (ops_at s (info_ops t))"
    and room: "packet_buffers_size (packet_infos s ! t) < packet_buffers_max (packet_infos s ! t)"
      "pending_packets_size s < int PENDING_PACKETS_MAX"
  shows "\<exists>sts h' s' b. rx_run (Deferred_gen og) (Deferred_on_rx oo) (frame pkt) h s = Inr (sts, h', s')
    \<and> last sts = SyncChecksum \<and> rxFn h' = rxAA \<and> handler_inv h' s'
    \<and> pending s' = pending s @ [b] \<and> b \<notin> set (pending s) \<and> read_mem (mem s') b (length pkt) = pkt
    \<and> (\<forall>p \<in> set (pending s). \<forall>i < unat (op_size (ops_at s (info_ops (unat (mem s p))))).
          mem s' (p + i) = mem s (p + i))"
proof -
  obtain sts h' s' b where "rx_run (Deferred_gen og) (Deferred_on_rx oo) (frame pkt) h s = Inr (sts, h', s')"
    "last sts = SyncChecksum" "rxFn h' = rxAA" "handler_inv h' s'" "pending s' = pending s @ [b]" "b \<notin> set (pending s)"
    "read_mem (mem s') b (length pkt) = pkt"
    "\<forall>p \<in> set (pending s). \<forall>i < unat (op_size (ops_at s (info_ops (unat (mem s p))))). mem s' (p + i) = mem s (p + i)"
    using queue_frame[OF assms] by blast
  then show ?thesis by blast
qed

theorem deferred_reception_witness:
  "\<exists>sts h' s' b. rx_run (Deferred_gen no_gen) (Deferred_on_rx no_rx) (frame [10, 4, 7, 0]) (fst demo) (snd demo)
      = Inr (sts, h', s') \<and> last sts = SyncChecksum \<and> pending s' = [b]
      \<and> read_mem (mem s') b 4 = [10, 4, 7, 0]"
proof -
  have "wf_packet [10, 4, 7, 0] (ops_at (snd demo) (info_ops 10))"
    by (simp add: wf_packet_def demo_store info_ops_def)
  then have "\<exists>sts h' s' b. rx_run (Deferred_gen no_gen) (Deferred_on_rx no_rx) (frame [10, 4, 7, 0]) (fst demo)
      (snd demo) = Inr (sts, h', s') \<and> last sts = SyncChecksum \<and> rxFn h' = rxAA \<and> handler_inv h' s'
    \<and> pending s' = pending (snd demo) @ [b] \<and> b \<notin> set (pending (snd demo))
    \<and> read_mem (mem s') b (length [10, 4, 7, 0 :: u8]) = [10, 4, 7, 0]
    \<and> (\<forall>p \<in> set (pending (snd demo)). \<forall>i < unat (op_size (ops_at (snd demo) (info_ops (unat (mem (snd demo) p))))).
          mem s' (p + i) = mem (snd demo) (p + i))"
    by (intro deferred_reception[OF demo_ok(2), where t = 10])
      (simp_all add: demo_store, simp_all add: demo_ok(1) empty_handler_def)
  then show ?thesis by (auto simp: demo_store eval_nat_numeral)
qed

section \<open>Arbitrary input\<close>

text \<open>
  C9. Whatever bytes arrive, the receiver of a deferred handler consumes them all: no assert
  of the handler fails, nothing is accessed out of bounds, and the invariant of handler
  and queue is kept.
\<close>

theorem deferred_any_input:
  assumes "handler_inv h s"
  shows "\<exists>sts h' s'. rx_run (Deferred_gen og) (Deferred_on_rx oo) bs h s = Inr (sts, h', s')
    \<and> length sts = length bs \<and> handler_inv h' s'"
  using defrx.rx_run_total assms unfolding handler_inv_def by blast

theorem deferred_any_input_witness:
  "\<exists>sts h' s'. rx_run (Deferred_gen no_gen) (Deferred_on_rx no_rx) [0xAA, 0x55, 10, 4, 0xFF] (fst demo) (snd demo)
    = Inr (sts, h', s') \<and> length sts = length [0xAA, 0x55, 10, 4, 0xFF :: u8] \<and> handler_inv h' s'"
  by (rule deferred_any_input[OF demo_ok(2)])

text \<open>Where a received byte is stored.\<close>

lemma rx_store:
  assumes "PacketHandler_rxByte gen on_rx c h s = Inr (st, h', s')" and "mem s' x \<noteq> mem s x" and "rxFn h \<noteq> rxChecksum"
  shows "(rxFn h = rxPayload \<and> rx_current_packet h' = rx_current_packet h \<and> x = rx_buffer_end h)
    \<or> (rxFn h = rxSize \<and> rx_current_packet h' \<noteq> NULL \<and> x - rx_current_packet h' < 2 \<and> rx_current_packet h' \<le> x
       \<and> rx_current_packet h' = (let op = ops_at s (rx_current_op h) in
            gen (initialize_buffer_fn op) (op_type op) (op_size op) (initialize_buffer_args op) s))"
  using assms
  by (cases "rxFn h") (auto simp: PacketHandler_rxByte_def rxSize_step_def rxPayload_step_def Let_def split: prod.splits if_splits)

lemma deferred_store_owned:
  assumes "handler_inv h s" and "PacketHandler_rxByte (Deferred_gen og) (Deferred_on_rx oo) c h s = Inr (st, h', s')" and "mem s' x \<noteq> mem s x"
  shows "rxFn h \<in> {rxSize, rxPayload}" and "rxFn h = rxPayload \<Longrightarrow> rx_current_packet h' = rx_current_packet h"
    and "deferred_valid s (rx_current_op h)" and "deferred_owns s (rx_current_op h) (rx_current_packet h')"
    and "in_buffer s (rx_current_op h) (rx_current_packet h') x"
proof -
  have inv: "receiver_inv deferred_inv deferred_valid deferred_owns h s" and dinv: "deferred_inv s"
    using assms(1) by (simp_all add: handler_inv_def receiver_inv_def)
  have "mem s' = mem s" if "rxFn h = rxChecksum"
  proof -
    have "on_receive_fn (ops_at s (rx_current_op h)) = Some Deferred_onReceive"
      using inv that by (auto simp: receiver_inv_def deferred_valid_def ops_ok_def)
    then show ?thesis
      using assms(2) that Deferred_onReceive_frame[of "rx_current_packet h" s s']
      by (auto simp: PacketHandler_rxByte_def rxChecksum_step_def Let_def Deferred_on_rx_def bindR_Inr_iff split: if_splits)
  qed
  then have "rxFn h \<noteq> rxChecksum" using assms(3) by auto
  note at = rx_store[OF assms(2,3) this]
  then show "rxFn h \<in> {rxSize, rxPayload}" "rxFn h = rxPayload \<Longrightarrow> rx_current_packet h' = rx_current_packet h" by auto
  show v: "deferred_valid s (rx_current_op h)" using at inv by (auto simp: receiver_inv_def)
  then have "3 \<le> unat (op_size (ops_at s (rx_current_op h)))" by (auto simp: deferred_valid_def ops_ok_def op_sane_def)
  then show "deferred_owns s (rx_current_op h) (rx_current_packet h')" "in_buffer s (rx_current_op h) (rx_current_packet h') x"
    using at inv defrx.gen_owns[OF dinv v refl refl] by (auto simp: receiver_inv_def in_buffer_def Let_def)
qed

text \<open>
  C16. A received byte changes memory only while the size or the payload of a packet is read, and only in the buffer of
  that packet: the free buffer at the end of the ring of the type whose operations the receiver works on, within the size of the type. During the
  payload it is the buffer where the packet was begun. No queued packet is written.
\<close>

theorem deferred_writes_in_buffer:
  assumes "handler_inv h s"
    and "PacketHandler_rxByte (Deferred_gen og) (Deferred_on_rx oo) c h s = Inr (st, h', s')"
    and "mem s' x \<noteq> mem s x"
    and "op = ops_at s (rx_current_op h)" and "i = packet_infos s ! unat (op_type op)"
  shows "rxFn h \<in> {rxSize, rxPayload} \<and> unat (op_type op) < PACKET_TYPE_MAX \<and> rx_current_op h = info_ops (unat (op_type op))
    \<and> packet_buffers_size i < packet_buffers_max i
    \<and> rx_current_packet h' = packet_buffers i ! nat (packet_buffers_end i)
    \<and> (rxFn h = rxPayload \<longrightarrow> rx_current_packet h = packet_buffers i ! nat (packet_buffers_end i))
    \<and> rx_current_packet h' \<le> x \<and> x < rx_current_packet h' + unat (op_size op)
    \<and> (\<forall>p \<in> set (pending s). x < p \<or>
          p + unat (op_size (ops_at s (info_ops (unat (mem s p))))) \<le> x)"
proof -
  have dinv: "deferred_inv s" using assms(1) by (simp add: handler_inv_def receiver_inv_def)
  note st = deferred_store_owned[OF assms(1-3)]
  obtain t where t: "t < 20" "rx_current_op h = info_ops t" "unat (op_type op) = t"
    using st(3) assms(4) by (auto simp: deferred_valid_def ops_ok_def)
  have "packet_buffers_size i < packet_buffers_max i" "rx_current_packet h' = packet_buffers i ! nat (packet_buffers_end i)"
    using st(4) assms(5) t by (auto simp: deferred_owns_def Let_def)
  moreover have "rx_current_packet h' \<le> x" "x < rx_current_packet h' + unat (op_size op)"
    using st(5) assms(4) by (simp_all add: in_buffer_def)
  moreover have "x < p \<or> p + unat (op_size (ops_at s (info_ops (unat (mem s p))))) \<le> x" if "p \<in> set (pending s)" for p
    using owned_pending_disjoint(1)[OF dinv st(4) that st(5)] .
  ultimately show ?thesis using st(1,2) t by auto
qed

text \<open>The run of the demonstration handler up to the first payload byte.\<close>

lemma demo_payload:
  "\<exists>h (s :: unit deferred). handler_inv h s \<and> rxFn h = rxPayload \<and> rx_buffer_end h = 1002 \<and> mem s 1002 = 0"
proof -
  have "rx_run (Deferred_gen no_gen) (Deferred_on_rx no_rx) [0xAA, 0x55, 10, 4] (fst demo) (snd demo)
      = Inr ([SyncAA, Sync55, SyncType, SyncSize],
    (fst demo)\<lparr>rx_checksum := 10 XOR 4, rx_current_op := 11, rx_current_packet := 1000,
      rx_bytes_to_read := 4 - 4 + 2, rx_buffer := 1000, rx_buffer_end := 1000 + 2, rxFn := rxPayload\<rparr>,
    (snd demo)\<lparr>mem := write_mem (mem (snd demo)) 1000 [10, 4]\<rparr>)"
    by (rule rx_header_run[where op = "ops_at (snd demo) 11"])
      (simp_all add: demo_store Deferred_gen_def Deferred_initializeBuffer_call_def,
       simp_all add: demo_ok(1) empty_handler_def)
  then obtain h s where h: "rxFn h = rxPayload" "rx_buffer_end h = 1002"
    and s: "mem s = write_mem (mem (snd demo)) 1000 [10, 4]"
    and run: "rx_run (Deferred_gen no_gen) (Deferred_on_rx no_rx) [0xAA, 0x55, 10, 4] (fst demo) (snd demo)
      = Inr ([SyncAA, Sync55, SyncType, SyncSize], h, s)"
    by fastforce
  have "handler_inv h s"
    using defrx.rx_run_inv[OF demo_ok(2)[unfolded handler_inv_def] run] by (simp add: handler_inv_def)
  moreover have "mem (snd demo) 1002 = 0"
    by (simp add: demo_def DeferredPacketHandler_installPacket_def PacketHandler_installPacket_def
        Let_def empty_handler_def empty_store_def)
  ultimately show ?thesis using h s by (intro exI[of _ h] exI[of _ s]) (simp add: write_mem_def)
qed

theorem deferred_writes_in_buffer_witness:
  "\<exists>(h :: PacketHandler) (s :: unit deferred). rxFn h = rxPayload \<and> rx_current_packet h \<le> 1002
    \<and> 1002 < rx_current_packet h + unat (op_size (ops_at s (rx_current_op h)))"
proof -
  obtain h and s :: "unit deferred" where hs: "handler_inv h s" "rxFn h = rxPayload" "rx_buffer_end h = 1002" "mem s 1002 = 0"
    using demo_payload by blast
  obtain st h' s' where byte: "rxPayload_step 7 h s = (st, h', s')" by (cases "rxPayload_step 7 h s")
  have run: "PacketHandler_rxByte (Deferred_gen no_gen) (Deferred_on_rx no_rx) 7 h s = Inr (st, h', s')"
    by (simp add: PacketHandler_rxByte_def hs(2) byte)
  have "mem s' 1002 = 7"
    using byte hs(3) by (auto simp: rxPayload_step_def Let_def split: if_splits)
  then have "mem s' 1002 \<noteq> mem s 1002" using hs(4) by simp
  from deferred_writes_in_buffer[OF hs(1) run this refl refl] hs(2) show ?thesis by metis
qed

section \<open>Corrupted input\<close>

text \<open>
  C14. One wrong byte after type and size, or a wrong checksum byte, is always detected: the
  receiver reports a checksum error, the receive function is not called and the receiver is
  ready for the next frame.
\<close>

theorem corruption_detected:
  assumes idle: "rxFn h = rxAA" and t: "unat (pkt ! 0) < PACKET_TYPE_MAX"
    and a: "operations h ! unat (pkt ! 0) = a" "a \<noteq> NULL" and wf: "wf_packet pkt (ops_at s a)"
    and b: "gen (initialize_buffer_fn (ops_at s a)) (pkt ! 0) (pkt ! 1)
             (initialize_buffer_args (ops_at s a)) s = b" "b \<noteq> NULL"
    and i: "4 \<le> i" "i < length (frame pkt)" and x: "x \<noteq> frame pkt ! i"
  shows "\<exists>pkt'. rx_run gen on_rx ((frame pkt)[i := x]) h s =
    Inr (frame_statuses (length pkt) @ [ChecksumError], rx_idle pkt' a b h,
         s\<lparr>mem := write_mem (mem s) b pkt'\<rparr>) \<and> length pkt' = length pkt"
proof (cases "i = length pkt + 2")
  case True
  have len: "3 \<le> length pkt" using wf by (simp add: wf_packet_def)
  have "(frame pkt)[i := x] = 0xAA # 0x55 # pkt @ [x]"
    using True by (simp add: frame_def list_update_append numeral_2_eq_2)
  moreover have "x \<noteq> checksum pkt" using x True by (simp add: frame_def nth_append)
  ultimately show ?thesis
    using rx_frame_run[of h pkt a s gen b on_rx x] idle t a wf b
    by (intro exI[of _ pkt]) simp
next
  case False
  define j where "j = i - 2"
  have i': "i = Suc (Suc j)" and j: "2 \<le> j" "j < length pkt"
    using i False by (auto simp: j_def)
  define pkt' where "pkt' = pkt[j := x]"
  have fr: "(frame pkt)[i := x] = 0xAA # 0x55 # pkt' @ [checksum pkt]"
    using j by (simp add: frame_def i' list_update_append pkt'_def)
  have "x \<noteq> pkt ! j" using x j by (simp add: frame_def i' nth_append)
  then have ne: "checksum pkt \<noteq> checksum pkt'"
    using checksum_update[OF j(2)] by (simp add: pkt'_def eq_commute)
  have hd: "pkt' ! 0 = pkt ! 0" "pkt' ! 1 = pkt ! 1" "length pkt' = length pkt"
    using j by (simp_all add: pkt'_def)
  have "wf_packet pkt' (ops_at s a)" using wf hd by (simp add: wf_packet_def)
  then show ?thesis
    using rx_frame_run[of h pkt' a s gen b on_rx "checksum pkt"] idle t a b hd ne
    by (intro exI[of _ pkt']) (simp add: fr)
qed

theorem corruption_detected_witness:
  "\<exists>pkt'. rx_run (Deferred_gen no_gen) (Deferred_on_rx no_rx) ((frame [10, 4, 7, 0])[5 := 1]) (fst demo) (snd demo) =
    Inr (frame_statuses (length [10, 4, 7, 0 :: u8]) @ [ChecksumError], rx_idle pkt' 11 1000 (fst demo),
         (snd demo)\<lparr>mem := write_mem (mem (snd demo)) 1000 pkt'\<rparr>) \<and> length pkt' = length [10, 4, 7, 0 :: u8]"
  by (rule corruption_detected)
    (simp_all add: demo_store wf_packet_def Deferred_gen_def Deferred_initializeBuffer_call_def frame_def,
     simp_all add: demo_ok(1) empty_handler_def)

section \<open>Transmission\<close>

text \<open>
  C15. Sending is all or nothing: with room for the packet and three more bytes the whole frame
  is appended to what waits for transmission, otherwise the handler is left as it was and the
  caller is told; reception is not affected either way.
\<close>

theorem send_all_or_nothing:
  assumes "tx_ok h" and "length pkt = unat (pkt ! 1)"
  shows "case PacketHandler_sendPacket pkt h of (st, h') \<Rightarrow>
    (if tx_size h + int (length pkt) + 3 \<le> int PACKET_SIZE_MAX
     then st = Success \<and> tx_items h' = tx_items h @ frame pkt
     else st = TxBufferFull \<and> h' = h) \<and> tx_ok h' \<and> same_rx h h'"
proof -
  have sz: "tx_size h = int (length (tx_items h))" using assms(1) by (simp add: tx_ok_def)
  show ?thesis
  proof (cases "length (tx_items h) + length pkt + 3 \<le> 254")
    case True
    then have "tx_size h + int (length pkt) + 3 \<le> 254" unfolding sz by linarith
    then show ?thesis
      using sendPacket_ok[OF assms True] by (cases "PacketHandler_sendPacket pkt h") simp
  next
    case False
    then have "\<not> tx_size h + int (length pkt) + 3 \<le> 254" unfolding sz by linarith
    moreover have "PacketHandler_sendPacket pkt h = (TxBufferFull, h)"
      using sendPacket_full[of h pkt] assms False by simp
    ultimately show ?thesis using assms(1) by simp
  qed
qed

theorem send_all_or_nothing_witness:
  "case PacketHandler_sendPacket [10, 4, 7, 0] empty_handler of (st, h') \<Rightarrow>
    st = Success \<and> tx_items h' = [] @ frame [10, 4, 7, 0]"
proof -
  have "tx_items empty_handler = []" using empty_handler_tx by (simp add: tx_items_def)
  then show ?thesis
    using send_all_or_nothing[OF empty_handler_tx(1), of "[10, 4, 7, 0]"] empty_handler_tx(2)
    by (simp split: prod.splits)
qed

section \<open>Installation and processing\<close>

text \<open>
  A packet type that is not registered yet can be installed with one or two buffers that
  overlap no others: the handler accepts it, the queue and the other types are untouched and
  the invariant holds.
\<close>

theorem deferred_install:
  assumes "handler_inv h s" and "unat type < PACKET_TYPE_MAX" and "\<not> installed s (unat type)"
    and "operations h ! unat type = NULL" and "3 \<le> unat sz" and "sz \<noteq> PACKET_SIZE_ANY"
    and "1 \<le> num" and "num \<le> int PACKETS_PER_TYPE_MAX" and "fresh_area s buffer (nat num * unat sz)"
  shows "\<exists>h' s'. DeferredPacketHandler_installPacket type sz buffer num action args h s
      = Inr (Success, h', s') \<and> handler_inv h' s' \<and> installed s' (unat type)
    \<and> operations h' ! unat type \<noteq> NULL \<and> pending s' = pending s \<and> mem s' = mem s
    \<and> (\<forall>u < PACKET_TYPE_MAX. u \<noteq> unat type \<longrightarrow>
         installed s' u = installed s u \<and> operations h' ! u = operations h ! u)"
proof -
  have num2: "num \<le> 2" using assms(8) by simp
  have len: "length (operations h) = 20"
    using assms(1) by (simp add: handler_inv_def receiver_inv_def table_ok_def)
  obtain h' s' where r: "DeferredPacketHandler_installPacket type sz buffer num action args h s
      = Inr (Success, h', s')" "handler_inv h' s'" "installed s' (unat type)" "pending s' = pending s"
    "mem s' = mem s" "\<forall>u < 20. u \<noteq> unat type \<longrightarrow> installed s' u = installed s u"
    using installPacket_ok[OF assms(1-7) num2 assms(9), of action args] by auto
  have "h' = h\<lparr>operations := (operations h)[unat type := info_ops (unat type)]\<rparr>"
    using r(1) assms(2,4,8)
    by (auto simp: DeferredPacketHandler_installPacket_def PacketHandler_installPacket_def Let_def
        split: if_splits)
  then show ?thesis using r assms(2) len by (intro exI[of _ h'] exI[of _ s']) simp
qed

theorem deferred_install_witness:
  "\<exists>h' s'. DeferredPacketHandler_installPacket 5 8 2000 1 None NULL (fst demo) (snd demo)
      = Inr (Success, h', s') \<and> handler_inv h' s' \<and> installed s' 5"
proof -
  have "\<not> installed (snd demo) (unat (5 :: u8))" "operations (fst demo) ! unat (5 :: u8) = NULL"
    by (simp_all add: demo_def DeferredPacketHandler_installPacket_def PacketHandler_installPacket_def
        Let_def empty_handler_def empty_store_def installed_def zero_info_def)
  moreover have "fresh_area (snd demo) 2000 (nat 1 * unat (8 :: u8))"
    unfolding fresh_area_def num_buffers_of_def region_def disjoint_regions_def
  proof (intro conjI allI impI)
    fix t i
    assume t: "t < 20" and i: "i < nat (packet_buffers_max (packet_infos (snd demo) ! t))"
    have "t = 10"
      using t i by (cases "t = 10") (simp_all add: demo_def DeferredPacketHandler_installPacket_def
          PacketHandler_installPacket_def Let_def empty_handler_def empty_store_def zero_info_def)
    moreover have "i = 0 \<or> i = 1" using i calculation by (simp add: demo_store) linarith
    ultimately show "fst (2000, nat 1 * unat (8 :: u8)) + snd (2000, nat 1 * unat (8 :: u8))
        \<le> fst (packet_buffers (packet_infos (snd demo) ! t) ! i, unat (op_size (ops_at (snd demo) (info_ops t)))) \<or>
      fst (packet_buffers (packet_infos (snd demo) ! t) ! i, unat (op_size (ops_at (snd demo) (info_ops t))))
        + snd (packet_buffers (packet_infos (snd demo) ! t) ! i, unat (op_size (ops_at (snd demo) (info_ops t))))
        \<le> fst (2000, nat 1 * unat (8 :: u8))"
      by (auto simp: demo_store info_ops_def)
  qed simp
  ultimately show ?thesis
    using deferred_install[OF demo_ok(2), of 5 8 1 2000 None NULL] by auto
qed

text \<open>
  C11. Processing runs the action of every queued packet once, in the order of arrival, with the
  handler's asserts holding throughout; it can only fail if an action fails. Afterwards the
  queue is empty, every buffer is free again and reception can go on, also in the middle of a
  packet. The actions are those that respect the handler (\<open>same_queue\<close>) and do not inspect its
  bookkeeping.
\<close>

theorem deferred_processing:
  assumes inv: "handler_inv h s"
    and act: "\<And>f p args s s'. act f p args s = Inr s' \<Longrightarrow> same_queue s s'"
    and ind: "\<And>f p args s I. act f p args (s\<lparr>packet_infos := I\<rparr>)
      = bindR (act f p args s) (\<lambda>s'. Inr (s'\<lparr>packet_infos := I\<rparr>))"
  shows "DeferredPacketHandler_processPendingPackets act s =
      bindR (foldR (run_action act) (pending s) s) (\<lambda>s'. Inr (retire_all s')) \<and>
    (\<forall>s'. DeferredPacketHandler_processPendingPackets act s = Inr s' \<longrightarrow>
      handler_inv h s' \<and> pending s' = [] \<and> mem s' = mem s \<and>
      (\<forall>t < PACKET_TYPE_MAX. packet_buffers_size (packet_infos s' ! t) = 0))"
proof (intro conjI allI impI)
  have acts: "deferred_actions act" by (rule deferred_actions.intro) (use act ind in blast)+
  have dinv: "deferred_inv s" using inv by (simp add: handler_inv_def receiver_inv_def)
  show eq: "DeferredPacketHandler_processPendingPackets act s =
      bindR (foldR (run_action act) (pending s) s) (\<lambda>s'. Inr (retire_all s'))"
    by (rule deferred_actions.processPendingPackets_spec[OF acts dinv])
  fix s'
  assume run: "DeferredPacketHandler_processPendingPackets act s = Inr s'"
  then obtain s1 where s1: "foldR (run_action act) (pending s) s = Inr s1" "s' = retire_all s1"
    unfolding eq by (auto simp: bindR_Inr_iff)
  have q: "same_queue s s1" by (rule deferred_actions.foldR_run_action_queue[OF acts s1(1)])
  have h1: "handler_inv h s1" and d1: "deferred_inv s1"
    using inv dinv same_queue_inv[OF q] by simp_all
  show "handler_inv h s'" unfolding s1(2) by (rule retire_all_handler_inv[OF h1])
  show "pending s' = []" unfolding s1(2) by (rule retire_all_inv(2)[OF d1])
  show "mem s' = mem s" using q by (simp add: s1(2) retire_all_def same_queue_def)
  fix t :: nat
  assume t: "t < 20"
  have "0 \<le> packet_buffers_size (packet_infos s1 ! t)"
    using deferred_invD(5)[OF d1 t] by (simp add: info_ok_def)
  then show "packet_buffers_size (packet_infos s' ! t) = 0"
    using t deferred_invD(1)[OF d1] by (simp add: s1(2) retire_all_def flush_info_def)
qed

theorem deferred_processing_witness:
  "DeferredPacketHandler_processPendingPackets (\<lambda>f p args s. Inr s) (snd demo) =
      bindR (foldR (run_action (\<lambda>f p args s. Inr s)) (pending (snd demo)) (snd demo)) (\<lambda>s'. Inr (retire_all s'))"
  using deferred_processing[OF demo_ok(2), of "\<lambda>f p args s. Inr s"] by (simp add: same_queue_def)

section \<open>Limits of the receiver\<close>

lemma rx_skip:
  "rxFn h = rxAA \<Longrightarrow> 0xAA \<notin> set bs \<Longrightarrow> bs \<noteq> [] \<Longrightarrow>
    rx_run gen on_rx bs h s = Inr (replicate (length bs) Unsync, h\<lparr>rx_checksum := 0\<rparr>, s)"
proof (induction bs arbitrary: h)
  case Nil
  then show ?case by simp
next
  case (Cons c bs)
  have step: "PacketHandler_rxByte gen on_rx c h s = Inr (Unsync, h\<lparr>rx_checksum := 0\<rparr>, s)"
    using Cons.prems by (auto simp: PacketHandler_rxByte_def rxAA_step_def Let_def)
  show ?case
    using Cons.IH[of "h\<lparr>rx_checksum := 0\<rparr>"] Cons.prems by (cases "bs = []") (simp_all add: step)
qed

text \<open>
  A stray \<open>0xAA\<close> in front of a frame makes the receiver miss it: the second \<open>0xAA\<close>, the
  first byte of the frame, sends it back to the start, so the \<open>0x55\<close> that follows is ignored
  and no byte up to the next \<open>0xAA\<close> is used. Nothing is stored and nothing is received.
\<close>

theorem stray_sync_loses_frame:
  assumes "rxFn h = rxAA" and "0xAA \<notin> set (pkt @ [checksum pkt])"
  shows "rx_run gen on_rx (0xAA # frame pkt) h s =
    Inr ([SyncAA, Unsync] @ replicate (length pkt + 2) Unsync, h\<lparr>rx_checksum := 0\<rparr>, s)"
proof -
  let ?rest = "0x55 # pkt @ [checksum pkt]"
  have skip: "rx_run gen on_rx ?rest (h\<lparr>rx_checksum := 0\<rparr>) s =
      Inr (replicate (length pkt + 2) Unsync, h\<lparr>rx_checksum := 0\<rparr>, s)"
    by (subst rx_skip) (use assms in auto)
  have eq: "h\<lparr>rx_checksum := 0, rxFn := rxAA\<rparr> = h\<lparr>rx_checksum := 0\<rparr>"
    using assms(1) by (cases h) simp
  have 1: "PacketHandler_rxByte gen on_rx 0xAA h s = Inr (SyncAA, h\<lparr>rx_checksum := 0, rxFn := rx55\<rparr>, s)"
    using assms(1) by (simp add: PacketHandler_rxByte_def rxAA_step_def Let_def)
  have 2: "PacketHandler_rxByte gen on_rx 0xAA (h\<lparr>rx_checksum := 0, rxFn := rx55\<rparr>) s
      = Inr (Unsync, h\<lparr>rx_checksum := 0\<rparr>, s)"
    using eq by (simp add: PacketHandler_rxByte_def rx55_step_def)
  have "rx_run gen on_rx (0xAA # frame pkt) h s =
      bindR (rx_run gen on_rx ?rest (h\<lparr>rx_checksum := 0\<rparr>) s) (\<lambda>(sts, h2, s2). Inr (SyncAA # Unsync # sts, h2, s2))"
    unfolding frame_def rx_run.simps(2)[of gen on_rx "0xAA" "0xAA # ?rest"] 1 bindR_simps prod.case
      rx_run.simps(2)[of gen on_rx "0xAA" ?rest] 2
    by (auto simp: bindR_def split: sum.splits)
  then show ?thesis by (simp only: skip) simp
qed

theorem stray_sync_loses_frame_witness:
  "rx_run (Deferred_gen no_gen) (Deferred_on_rx no_rx) (0xAA # frame [10, 4, 7, 0]) (fst demo) (snd demo) =
    Inr ([SyncAA, Unsync] @ replicate (length [10, 4, 7, 0 :: u8] + 2) Unsync, (fst demo)\<lparr>rx_checksum := 0\<rparr>, snd demo)"
  by (rule stray_sync_loses_frame) (simp_all add: demo_ok(1) empty_handler_def checksum_def)

text \<open>
  Registering a type a second time is refused, but only after the bookkeeping of the type
  has been overwritten: the buffers are exchanged and the queued packets of the type are
  forgotten by their ring although they stay in the queue.
\<close>

theorem reinstall_clobbers:
  assumes "handler_inv h s" and "installed s (unat type)" and "operations h ! unat type \<noteq> NULL"
    and "0 \<le> num" and "num \<le> int PACKETS_PER_TYPE_MAX"
  shows "\<exists>s'. DeferredPacketHandler_installPacket type sz buffer num action args h s
      = Inr (PacketInstallError, h, s') \<and> pending s' = pending s
    \<and> packet_buffers_max (packet_infos s' ! unat type) = num
    \<and> packet_buffers_size (packet_infos s' ! unat type) = 0
    \<and> deferred_action_fn (packet_infos s' ! unat type) = action"
proof -
  have "deferred_inv s" using assms(1) by (simp add: handler_inv_def receiver_inv_def)
  then have "length (packet_infos s) = 20" by (rule deferred_invD(1))
  then have "unat type < length (packet_infos s)" "unat type < 20"
    using assms(2) by (auto simp: installed_def)
  then show ?thesis
    using assms(3,5)
    by (simp add: DeferredPacketHandler_installPacket_def PacketHandler_installPacket_def Let_def
        pending_def)
qed

theorem reinstall_clobbers_witness:
  "\<exists>s'. DeferredPacketHandler_installPacket 10 4 3000 1 None NULL (fst demo) (snd demo)
      = Inr (PacketInstallError, fst demo, s') \<and> packet_buffers_max (packet_infos s' ! 10) = 1"
  using reinstall_clobbers[OF demo_ok(2), of 10 1 4 3000 None NULL]
  by (simp add: installed_def demo_store) (auto simp: demo_ok(1) empty_handler_def)

text \<open>
  For a type registered with the wildcard size, a size byte of 1 makes the count of bytes
  to read wrap to 255: the receiver stores 255 bytes after the header, wherever the buffer
  ends.
\<close>

theorem any_size_wraps:
  assumes "rxFn h = rxAA" and "unat t < PACKET_TYPE_MAX" and "operations h ! unat t = a" and "a \<noteq> NULL"
    and "ops_at s a = op" and "op_size op = PACKET_SIZE_ANY" and "op_type op = t"
    and "gen (initialize_buffer_fn op) t PACKET_SIZE_ANY (initialize_buffer_args op) s = b" and "b \<noteq> NULL"
    and "length bs = 255"
  shows "\<exists>h'. rx_run gen on_rx (0xAA # 0x55 # t # 1 # bs) h s =
    Inr (frame_statuses 257, h', s\<lparr>mem := write_mem (mem s) b (t # 0xFF # bs)\<rparr>)"
proof -
  define h1 where "h1 = h\<lparr>rx_checksum := t XOR 1, rx_current_op := a, rx_current_packet := b,
    rx_bytes_to_read := 1 - 4 + 2, rx_buffer := b, rx_buffer_end := b + 2, rxFn := rxPayload\<rparr>"
  define s1 where "s1 = s\<lparr>mem := (mem s)(b := t, b + 1 := 0xFF)\<rparr>"
  have hd: "rx_run gen on_rx [0xAA, 0x55, t, 1] h s = Inr ([SyncAA, Sync55, SyncType, SyncSize], h1, s1)"
    using assms
    by (simp add: PacketHandler_rxByte_def rxAA_step_def rx55_step_def rxType_step_def
        rxSize_step_def Let_def h1_def s1_def)
  have ne: "bs \<noteq> []" using assms(10) by auto
  have pl: "rx_run gen on_rx bs h1 s1 =
    Inr (replicate (length bs - 1) SyncPayload @ [SyncPayloadComplete],
         h1\<lparr>rx_checksum := foldl (XOR) (rx_checksum h1) bs,
           rx_buffer_end := rx_buffer_end h1 + length bs,
           rx_bytes_to_read := 0, rxFn := rxChecksum\<rparr>,
         s1\<lparr>mem := write_mem (mem s1) (rx_buffer_end h1) bs\<rparr>)"
    by (rule rx_payload_run[OF _ ne]) (simp_all add: h1_def assms(10) unsigned_minus_1_eq_mask mask_eq_exp_minus_1)
  have m: "s1\<lparr>mem := write_mem (mem s1) (rx_buffer_end h1) bs\<rparr>
      = s\<lparr>mem := write_mem (mem s) b (t # 0xFF # bs)\<rparr>"
    using write_mem_Cons[of "(mem s)(b := t)" "b + 1" "0xFF" bs] write_mem_Cons[of "mem s" b t "0xFF # bs"]
    by (simp add: s1_def h1_def)
  have st: "[SyncAA, Sync55, SyncType, SyncSize] @ replicate (length bs - 1) SyncPayload @ [SyncPayloadComplete]
      = frame_statuses 257"
    using assms(10) by (simp add: frame_statuses_def)
  have split: "0xAA # 0x55 # t # 1 # bs = [0xAA, 0x55, t, 1] @ bs" by simp
  show ?thesis
    unfolding split rx_run_append hd pl bindR_simps prod.case st m by blast
qed

text \<open>A handler with a type of wildcard size.\<close>

definition demo_any :: "PacketHandler \<times> unit deferred" where
  "demo_any = (case DeferredPacketHandler_installPacket 3 PACKET_SIZE_ANY 1000 1 None NULL
       empty_handler empty_store of
     Inr (st, h, s) \<Rightarrow> (h, s) | Inl e \<Rightarrow> (empty_handler, empty_store))"

theorem any_size_wraps_witness:
  "\<exists>h'. rx_run (Deferred_gen no_gen) (Deferred_on_rx no_rx) (0xAA # 0x55 # 3 # 1 # replicate 255 7)
      (fst demo_any) (snd demo_any) = Inr (frame_statuses 257, h',
    (snd demo_any)\<lparr>mem := write_mem (mem (snd demo_any)) 1000 (3 # 0xFF # replicate 255 7)\<rparr>)"
  by (rule any_size_wraps[where a = 4 and op = "ops_at (snd demo_any) 4"])
    (simp_all add: demo_any_def DeferredPacketHandler_installPacket_def PacketHandler_installPacket_def
      Let_def empty_handler_def empty_store_def info_ops_def Deferred_gen_def
      Deferred_initializeBuffer_call_def)

end
