(* ===== verification/Avr.thy ===== *)
theory Avr
  imports Prelude
begin

text \<open>
  The part of the ATmega2560 that \<open>src/orazio_lib/src/arch/atmega2560\<close> touches: its 8- and
  16-bit registers, the global interrupt flag and the EEPROM cells. The headers of the
  C library (\<open>avr/io.h\<close>, \<open>util/setbaud.h\<close>) are not part of the repository: the bit numbers
  they define and the baud rate settings they compute are fields of the state that no
  operation changes.
\<close>

section \<open>Registers\<close>

datatype Port = PB | PC | PE | PG | PH | PK
datatype Chan = ChA | ChB | ChC

text \<open>\<open>PIN PB\<close> is \<open>PINB\<close>, \<open>TCCRA 3\<close> is \<open>TCCR3A\<close>, \<open>OCR 3 ChB\<close> is \<open>OCR3BL\<close> (\<open>OCR0B\<close> for an
  8-bit timer), \<open>OCRH 3 ChB\<close> is \<open>OCR3BH\<close>.\<close>

datatype Reg8 =
    PIN Port | PORT Port | DDR Port
  | TIMSK nat | TCCRA nat | TCCRB nat | OCR nat Chan | OCRH nat Chan
  | PCICR | PCMSK nat
  | UBRR0H | UBRR0L | UCSR0A | UCSR0B | UCSR0C | UDR0

datatype Reg16 = OCR4A | TCNT4 | OCR5A | TCNT5

text \<open>Names of bits: \<open>COM 3 ChB 0\<close> is \<open>COM3B0\<close>, \<open>WGM 1 2\<close> is \<open>WGM12\<close>, \<open>CS 5 0\<close> is \<open>CS50\<close>.\<close>

datatype IoBit =
    COM nat Chan nat | WGM nat nat | CS nat nat | OCIEA nat | PCIE nat
  | U2X0 | UCSZ01 | UCSZ00 | RXEN0 | TXEN0 | RXCIE0 | UDRIE0

record avr =
  io :: "Reg8 \<Rightarrow> u8"
  io16 :: "Reg16 \<Rightarrow> u16"
  irq_enabled :: bool
  eeprom :: "u16 \<Rightarrow> u8"
  io_bit :: "IoBit \<Rightarrow> nat"
  setbaud :: "nat \<Rightarrow> u8 \<times> u8 \<times> bool"

definition set_reg :: "Reg8 \<Rightarrow> u8 \<Rightarrow> 'a avr_scheme \<Rightarrow> 'a avr_scheme" where
  "set_reg r v d = d\<lparr>io := (io d)(r := v)\<rparr>"

definition or_reg :: "Reg8 \<Rightarrow> u8 \<Rightarrow> 'a avr_scheme \<Rightarrow> 'a avr_scheme" where
  "or_reg r m d = set_reg r (io d r OR m) d"

definition clear_reg :: "Reg8 \<Rightarrow> u8 \<Rightarrow> 'a avr_scheme \<Rightarrow> 'a avr_scheme" where
  "clear_reg r m d = set_reg r (io d r AND NOT m) d"

definition set_reg16 :: "Reg16 \<Rightarrow> u16 \<Rightarrow> 'a avr_scheme \<Rightarrow> 'a avr_scheme" where
  "set_reg16 r v d = d\<lparr>io16 := (io16 d)(r := v)\<rparr>"

text \<open>\<open>1 << n\<close> stored in a byte.\<close>

definition bit8 :: "nat \<Rightarrow> u8" where
  "bit8 n = push_bit n 1"

definition iobit :: "'a avr_scheme \<Rightarrow> IoBit \<Rightarrow> u8" where
  "iobit d b = bit8 (io_bit d b)"

definition cli :: "'a avr_scheme \<Rightarrow> 'a avr_scheme" where
  "cli d = d\<lparr>irq_enabled := False\<rparr>"

definition sei :: "'a avr_scheme \<Rightarrow> 'a avr_scheme" where
  "sei d = d\<lparr>irq_enabled := True\<rparr>"

lemma reg_simps [simp]:
  "io (set_reg r v d) = (io d)(r := v)" "io16 (set_reg r v d) = io16 d"
  "irq_enabled (set_reg r v d) = irq_enabled d" "eeprom (set_reg r v d) = eeprom d"
  "io_bit (set_reg r v d) = io_bit d" "setbaud (set_reg r v d) = setbaud d"
  "iobit (set_reg r v d) = iobit d"
  by (simp_all add: set_reg_def iobit_def fun_eq_iff)

lemma or_clear_reg_simps [simp]:
  "io (or_reg r m d) = (io d)(r := io d r OR m)" "io (clear_reg r m d) = (io d)(r := io d r AND NOT m)"
  "io_bit (or_reg r m d) = io_bit d" "io_bit (clear_reg r m d) = io_bit d"
  "iobit (or_reg r m d) = iobit d" "iobit (clear_reg r m d) = iobit d"
  "io16 (or_reg r m d) = io16 d" "io16 (clear_reg r m d) = io16 d"
  "irq_enabled (or_reg r m d) = irq_enabled d" "irq_enabled (clear_reg r m d) = irq_enabled d"
  "eeprom (or_reg r m d) = eeprom d" "eeprom (clear_reg r m d) = eeprom d"
  by (simp_all add: or_reg_def clear_reg_def)

lemma reg16_simps [simp]:
  "io (set_reg16 r v d) = io d" "io16 (set_reg16 r v d) = (io16 d)(r := v)"
  "irq_enabled (set_reg16 r v d) = irq_enabled d" "io_bit (set_reg16 r v d) = io_bit d"
  "iobit (set_reg16 r v d) = iobit d" "eeprom (set_reg16 r v d) = eeprom d"
  by (simp_all add: set_reg16_def iobit_def fun_eq_iff)

lemma irq_simps [simp]:
  "io (cli d) = io d" "io (sei d) = io d" "io16 (cli d) = io16 d" "io16 (sei d) = io16 d"
  "irq_enabled (cli d) = False" "irq_enabled (sei d) = True" "io_bit (cli d) = io_bit d"
  "io_bit (sei d) = io_bit d" "iobit (cli d) = iobit d" "iobit (sei d) = iobit d"
  "eeprom (cli d) = eeprom d" "eeprom (sei d) = eeprom d"
  by (simp_all add: cli_def sei_def iobit_def fun_eq_iff)

lemma bit_bit8 [simp]: "n < 8 \<Longrightarrow> bit (bit8 n) i = (i = n)"
proof -
  assume "n < 8"
  then have "n < LENGTH(8)" by simp
  then show ?thesis
    unfolding bit8_def bit_push_bit_iff bit_1_iff by (auto simp: possible_bit_word)
qed

section \<open>EEPROM\<close>

text \<open>
  \<open>eeprom.c\<close>. Addresses are 16 bits wide; the end of a read is computed in the same width,
  so a range that crosses the top of the address space is read as empty.
\<close>

function EEPROM_read_loop :: "(u16 \<Rightarrow> u8) \<Rightarrow> u16 \<Rightarrow> u16 \<Rightarrow> u8 list" where
  "EEPROM_read_loop cells s s_end =
     (if s < s_end then cells s # EEPROM_read_loop cells (s + 1) s_end else [])"
  by pat_completeness auto
termination
proof (relation "measure (\<lambda>(cells, s, s_end). unat s_end - unat s)", goal_cases)
  case (2 cells s s_end)
  then have "unat s < unat s_end" by (simp add: word_less_nat_alt)
  moreover have "unat (s + 1) = unat s + 1"
    using calculation unat_u16_less[of s_end] unat_word_ariths(1)[of s 1]
    by (simp del: unat_u16_less)
  ultimately show ?case by simp
qed simp

declare EEPROM_read_loop.simps [simp del]

definition EEPROM_read :: "u16 \<Rightarrow> u16 \<Rightarrow> 'a avr_scheme \<Rightarrow> u8 list" where
  "EEPROM_read src size' d = EEPROM_read_loop (eeprom d) src (src + size')"

fun EEPROM_write :: "u16 \<Rightarrow> u8 list \<Rightarrow> 'a avr_scheme \<Rightarrow> 'a avr_scheme" where
  "EEPROM_write dest [] d = d"
| "EEPROM_write dest (b # bs) d = EEPROM_write (dest + 1) bs (d\<lparr>eeprom := (eeprom d)(dest := b)\<rparr>)"

lemma EEPROM_read_loop_eq:
  assumes "unat s \<le> unat e"
  shows "EEPROM_read_loop cells s e = map (\<lambda>i. cells (s + word_of_nat i)) [0..<unat e - unat s]"
  using assms
proof (induction cells s e rule: EEPROM_read_loop.induct)
  case (1 cells s e)
  show ?case
  proof (cases "s < e")
    case False
    then have "unat e - unat s = 0" using 1(2) by (simp add: word_less_nat_alt)
    then show ?thesis using False by (simp add: EEPROM_read_loop.simps)
  next
    case True
    then have lt: "unat s < unat e" by (simp add: word_less_nat_alt)
    have s1: "unat (s + 1) = unat s + 1"
      using lt unat_u16_less[of e] unat_word_ariths(1)[of s 1] by (simp del: unat_u16_less)
    obtain k where k: "unat e - unat s = Suc k" "unat e - unat (s + 1) = k"
      using lt s1 by (cases "unat e - unat s") auto
    have "EEPROM_read_loop cells (s + 1) e = map (\<lambda>i. cells (s + 1 + word_of_nat i)) [0..<k]"
      using 1(1)[OF True] lt s1 k by simp
    then show ?thesis
      using True k
      by (simp add: EEPROM_read_loop.simps[of cells s] upt_conv_Cons map_Suc_upt[symmetric] o_def
          add.assoc del: upt_Suc)
  qed
qed

lemma EEPROM_write_eeprom:
  assumes "unat dest + length bs \<le> 65536"
  shows "eeprom (EEPROM_write dest bs d) = (\<lambda>a. if unat dest \<le> unat a \<and> unat a < unat dest + length bs
    then bs ! (unat a - unat dest) else eeprom d a)"
  using assms
proof (induction bs arbitrary: dest d)
  case Nil
  then show ?case by (auto simp: fun_eq_iff)
next
  case (Cons b bs)
  show ?case
  proof (cases "bs = []")
    case True
    then show ?thesis by (auto simp: fun_eq_iff word_unat_eq_iff)
  next
    case False
    then have "unat dest + 1 < 65536" using Cons.prems by (cases bs) auto
    then have d1: "unat (dest + 1) = unat dest + 1"
      using unat_word_ariths(1)[of dest 1] by simp
    then have "eeprom (EEPROM_write (dest + 1) bs (d\<lparr>eeprom := (eeprom d)(dest := b)\<rparr>)) =
      (\<lambda>a. if unat dest + 1 \<le> unat a \<and> unat a < unat dest + 1 + length bs
        then bs ! (unat a - (unat dest + 1)) else ((eeprom d)(dest := b)) a)"
      using Cons.IH[of "dest + 1" "d\<lparr>eeprom := (eeprom d)(dest := b)\<rparr>"] Cons.prems
      by (auto simp: fun_eq_iff d1)
    then show ?thesis
      by (auto simp: fun_eq_iff nth_Cons' word_unat_eq_iff)
  qed
qed

lemma EEPROM_read_eq:
  assumes "unat src + unat n < 65536"
  shows "EEPROM_read src n d = map (\<lambda>i. eeprom d (src + word_of_nat i)) [0..<unat n]"
proof -
  have "unat (src + n) = unat src + unat n"
    using assms unat_word_ariths(1)[of src n] by simp
  then show ?thesis by (simp add: EEPROM_read_def EEPROM_read_loop_eq)
qed

lemma EEPROM_read_write:
  assumes "unat dest + length bs < 65536"
  shows "EEPROM_read dest (word_of_nat (length bs)) (EEPROM_write dest bs d) = bs"
proof -
  have n: "unat (word_of_nat (length bs) :: u16) = length bs" using assms by (simp add: unat_of_nat)
  have a: "unat (dest + word_of_nat i) = unat dest + i" if "i < length bs" for i
    using assms that unat_word_ariths(1)[of dest "word_of_nat i"] by (simp add: unat_of_nat)
  show ?thesis
    using assms by (subst EEPROM_read_eq) (auto simp: n a EEPROM_write_eeprom intro!: nth_equalityI)
qed

text \<open>A range disjoint from the one written keeps its bytes.\<close>

lemma EEPROM_read_write_other:
  assumes "unat src + unat n < 65536" and "unat dest + length bs \<le> 65536"
    and "unat src + unat n \<le> unat dest \<or> unat dest + length bs \<le> unat src"
  shows "EEPROM_read src n (EEPROM_write dest bs d) = EEPROM_read src n d"
proof -
  have a: "unat (src + word_of_nat i) = unat src + i" if "i < unat n" for i
  proof -
    have "unat (word_of_nat i :: u16) = i" using assms(1) that by (simp add: unat_of_nat)
    then show ?thesis using assms(1) that unat_word_ariths(1)[of src "word_of_nat i"] by simp
  qed
  show ?thesis
    using assms by (subst (1 2) EEPROM_read_eq) (auto simp: a EEPROM_write_eeprom)
qed

lemma EEPROM_read_wraps:
  assumes "65536 \<le> unat src + unat n" and "unat n < 65536"
  shows "EEPROM_read src n d = []"
proof -
  have "unat (src + n) = unat src + unat n - 65536"
    using assms unat_word_ariths(1)[of src n] unat_u16_less[of src]
    by (simp add: mod_if del: unat_u16_less)
  then have "\<not> src < src + n"
    using assms unat_u16_less[of src] by (simp add: word_less_nat_alt del: unat_u16_less)
  then show ?thesis by (simp add: EEPROM_read_def EEPROM_read_loop.simps)
qed

end
