(* ===== verification/Hal.thy ===== *)
theory Hal
  imports Prelude
begin

text \<open>
  \<open>src/orazio_lib/src/arch/include\<close>: the interface behind which the firmware sees its targets, as far as digital
  I/O and PWM go. What a driver promises is a locale; the ATmega2560 (\<open>Pins\<close>) and the dsPIC (\<open>Dspic\<close>) are
  its interpretations, and what follows for a set-up loop or for several channels is proved here once.
\<close>

section \<open>Types of the interface\<close>

datatype PinDirection = Input | Output

datatype PWMError =
    PWMSuccess | PWMEnabled | PWMChannelOutOfBound | PWMInvalidDutyCycle | PWMInvalidPeriod

fun PWMError_code :: "PWMError \<Rightarrow> int" where
  "PWMError_code PWMSuccess = 0"
| "PWMError_code PWMEnabled = 1"
| "PWMError_code PWMChannelOutOfBound = - 1"
| "PWMError_code PWMInvalidDutyCycle = - 2"
| "PWMError_code PWMInvalidPeriod = - 3"

section \<open>Digital I/O\<close>

text \<open>
  A pin has a direction and an output level. Setting one of them is read back on that pin and touches nothing
  else of any pin; a number that is no pin is refused.
\<close>

locale digital_io =
  fixes pin :: "u8 \<Rightarrow> bool"
    and set_direction :: "u8 \<Rightarrow> PinDirection \<Rightarrow> 's \<Rightarrow> int \<times> 's"
    and get_direction :: "u8 \<Rightarrow> 's \<Rightarrow> int"
    and set_value :: "u8 \<Rightarrow> u8 \<Rightarrow> 's \<Rightarrow> int \<times> 's"
    and level :: "u8 \<Rightarrow> 's \<Rightarrow> bool"
  assumes set_direction: "pin p \<Longrightarrow> pin q \<Longrightarrow> case set_direction p dir s of (r, s') \<Rightarrow> r = 0
      \<and> get_direction q s' = (if q = p then of_bool (dir = Output) else get_direction q s) \<and> level q s' = level q s"
    and set_value: "pin p \<Longrightarrow> pin q \<Longrightarrow> case set_value p v s of (r, s') \<Rightarrow> r = 0
      \<and> level q s' = (if q = p then v \<noteq> 0 else level q s) \<and> get_direction q s' = get_direction q s"
    and no_pin: "\<not> pin p \<Longrightarrow> set_direction p dir s = (- 1, s) \<and> set_value p v s = (- 1, s) \<and> get_direction p s = - 1"
begin

text \<open>The loop of \<open>DigIO_init\<close>: every pin gets the direction and a high level.\<close>

lemma setup_pins:
  fixes s :: 's and dir :: PinDirection
  assumes "pin q" and "n \<le> 256"
  defines "t \<equiv> fold (\<lambda>i s. snd (set_value (word_of_nat i) 1 (snd (set_direction (word_of_nat i) dir s)))) [0..<n] s"
  shows "get_direction q t = (if unat q < n then of_bool (dir = Output) else get_direction q s) \<and> level q t = (unat q < n \<or> level q s)"
  using assms(2) unfolding t_def
proof (induction n)
  case (Suc n)
  let ?i = "word_of_nat n :: u8"
  let ?t = "fold (\<lambda>i s. snd (set_value (word_of_nat i) 1 (snd (set_direction (word_of_nat i) dir s)))) [0..<n] s"
  have i: "unat ?i = n" using Suc.prems by (simp add: unat_of_nat)
  then have q: "q = ?i \<longleftrightarrow> unat q = n" by (metis word_unat_eq_iff)
  show ?case
  proof (cases "pin ?i")
    case True
    show ?thesis
      using set_direction[OF True assms(1), of dir ?t] set_value[OF True assms(1), of 1 "snd (set_direction ?i dir ?t)"] Suc q
      by (auto simp: split_beta less_Suc_eq)
  next
    case False
    then have "q \<noteq> ?i" using assms(1) by auto
    then show ?thesis using no_pin[OF False] Suc q by (auto simp: less_Suc_eq)
  qed
qed simp

end

section \<open>PWM\<close>

locale pwm_driver =
  fixes channel :: "u8 \<Rightarrow> bool"
    and set_duty :: "u8 \<Rightarrow> u8 \<Rightarrow> 's \<Rightarrow> PWMError \<times> 's"
    and get_duty :: "u8 \<Rightarrow> 's \<Rightarrow> int"
  assumes set_duty: "case set_duty c v s of (r, s') \<Rightarrow>
      if channel c then r = PWMSuccess \<and> get_duty c s' = uint v \<and> (\<forall>b. b \<noteq> c \<longrightarrow> get_duty b s' = get_duty b s)
      else r = PWMChannelOutOfBound \<and> s' = s"
begin

text \<open>Several channels, one after the other.\<close>

lemma set_duties:
  fixes s :: 's
  assumes "\<forall>cv \<in> set cs. channel (fst cv)" and "distinct (map fst cs)"
  defines "t \<equiv> fold (\<lambda>(c, v) s. snd (set_duty c v s)) cs s"
  shows "(c, v) \<in> set cs \<Longrightarrow> get_duty c t = uint v" and "c \<notin> fst ` set cs \<Longrightarrow> get_duty c t = get_duty c s"
proof -
  have "((c, v) \<in> set cs \<longrightarrow> get_duty c t = uint v) \<and> (c \<notin> fst ` set cs \<longrightarrow> get_duty c t = get_duty c s)"
    using assms(1,2) unfolding t_def
  proof (induction cs arbitrary: s)
    case (Cons x xs)
    obtain d w where x: "x = (d, w)" by (cases x)
    have d: "get_duty d (snd (set_duty d w s)) = uint w" "b \<noteq> d \<Longrightarrow> get_duty b (snd (set_duty d w s)) = get_duty b s" for b
      using set_duty[of d w s] Cons.prems(1) x by (auto simp: split_beta)
    have IH: "((c, v) \<in> set xs \<longrightarrow> get_duty c (fold (\<lambda>(c, v) s. snd (set_duty c v s)) xs (snd (set_duty d w s))) = uint v)
      \<and> (c \<notin> fst ` set xs \<longrightarrow> get_duty c (fold (\<lambda>(c, v) s. snd (set_duty c v s)) xs (snd (set_duty d w s))) = get_duty c (snd (set_duty d w s)))"
      using Cons.IH[of "snd (set_duty d w s)"] Cons.prems by simp
    have "d \<notin> fst ` set xs" using Cons.prems(2) x by simp
    then show ?case using IH d x by auto
  qed simp
  then show "(c, v) \<in> set cs \<Longrightarrow> get_duty c t = uint v" and "c \<notin> fst ` set cs \<Longrightarrow> get_duty c t = get_duty c s" by blast+
qed

end

end
