(* ===== verification/Pins.thy ===== *)
theory Pins
  imports Avr Hal
begin

text \<open>
  \<open>src/orazio_lib/src/arch/atmega2560/pins.c\<close>, \<open>digio.c\<close>, \<open>pwm.c\<close> and \<open>counter.c\<close>: the
  table that maps Arduino pins to registers, the digital I/O and PWM operations over it, and
  the free-running counter. Failing calls return a negative code and touch no register.
\<close>

section \<open>The table of pins\<close>

record Pin =
  in_register :: Reg8
  out_register :: Reg8
  dir_register :: Reg8
  pin_bit :: nat
  tcc_register :: "Reg8 option"
  oc_register :: "Reg8 option"
  com_mask :: u8

abbreviation (input) PINS_NUM :: nat where "PINS_NUM \<equiv> 14"

definition io_pin :: "Port \<Rightarrow> nat \<Rightarrow> Pin" where
  "io_pin p b = \<lparr>in_register = PIN p, out_register = PORT p, dir_register = DDR p, pin_bit = b,
     tcc_register = None, oc_register = None, com_mask = 0\<rparr>"

definition pwm_pin_entry :: "'a avr_scheme \<Rightarrow> Port \<Rightarrow> nat \<Rightarrow> nat \<Rightarrow> Chan \<Rightarrow> Pin" where
  "pwm_pin_entry d p b timer c = (io_pin p b)\<lparr>tcc_register := Some (TCCRA timer),
     oc_register := Some (OCR timer c), com_mask := iobit d (COM timer c 0) OR iobit d (COM timer c 1)\<rparr>"

definition pins :: "'a avr_scheme \<Rightarrow> Pin list" where
  "pins d =
    [io_pin PE 0, io_pin PE 1,
     pwm_pin_entry d PE 4 3 ChB, pwm_pin_entry d PE 5 3 ChC, pwm_pin_entry d PG 5 0 ChB,
     pwm_pin_entry d PE 3 3 ChA,
     io_pin PH 3, io_pin PH 4, io_pin PH 5,
     pwm_pin_entry d PH 6 2 ChB, pwm_pin_entry d PB 4 2 ChA, pwm_pin_entry d PB 5 1 ChA,
     pwm_pin_entry d PB 6 1 ChB, pwm_pin_entry d PB 7 1 ChC]"

section \<open>Digital I/O\<close>

definition DigIO_numChannels :: u8 where
  "DigIO_numChannels = word_of_nat PINS_NUM"

definition DigIO_setDirection :: "u8 \<Rightarrow> PinDirection \<Rightarrow> 'a avr_scheme \<Rightarrow> int \<times> 'a avr_scheme" where
  "DigIO_setDirection pin dir d =
     (if PINS_NUM \<le> unat pin then (- 1, d)
      else
        let mapping = pins d ! unat pin; mask = bit8 (pin_bit mapping) in
        (0, if dir = Output then or_reg (dir_register mapping) mask d
            else clear_reg (dir_register mapping) mask d))"

definition DigIO_getDirection :: "u8 \<Rightarrow> 'a avr_scheme \<Rightarrow> int" where
  "DigIO_getDirection pin d =
     (if PINS_NUM \<le> unat pin then - 1
      else
        let mapping = pins d ! unat pin; v = io d (dir_register mapping) in
        uint (drop_bit (pin_bit mapping) v AND 1))"

definition DigIO_setValue :: "u8 \<Rightarrow> u8 \<Rightarrow> 'a avr_scheme \<Rightarrow> int \<times> 'a avr_scheme" where
  "DigIO_setValue pin v d =
     (if PINS_NUM \<le> unat pin then (- 1, d)
      else
        let mapping = pins d ! unat pin; mask = bit8 (pin_bit mapping) in
        (0, if v \<noteq> 0 then or_reg (out_register mapping) mask d
            else clear_reg (out_register mapping) mask d))"

definition DigIO_getValue :: "u8 \<Rightarrow> 'a avr_scheme \<Rightarrow> int" where
  "DigIO_getValue pin d =
     (if PINS_NUM \<le> unat pin then - 1
      else
        let mapping = pins d ! unat pin; v = io d (in_register mapping) in
        uint (drop_bit (pin_bit mapping) v AND 1))"

definition DigIO_init :: "'a avr_scheme \<Rightarrow> 'a avr_scheme" where
  "DigIO_init d = fold (\<lambda>i d. snd (DigIO_setValue (word_of_nat i) 1
     (snd (DigIO_setDirection (word_of_nat i) Input d)))) [0..<unat DigIO_numChannels] d"

section \<open>PWM\<close>

definition TCCRA_MASK :: "'a avr_scheme \<Rightarrow> u8" where
  "TCCRA_MASK d = iobit d (WGM 1 0)"

definition TCCRB_MASK :: "'a avr_scheme \<Rightarrow> u8" where
  "TCCRB_MASK d = iobit d (WGM 1 2) OR iobit d (CS 1 0)"

definition PWM_init :: "'a avr_scheme \<Rightarrow> PWMError \<times> 'a avr_scheme" where
  "PWM_init d0 =
     (let d = cli d0;
          d = fold (\<lambda>t. set_reg (TIMSK t) 0) [0, 1, 2, 3, 4] d;
          d = set_reg (TCCRA 0) (iobit d (WGM 0 0) OR iobit d (WGM 0 1)) d;
          d = set_reg (TCCRB 0) (iobit d (CS 0 0)) d;
          d = set_reg (TCCRA 2) (io d (TCCRA 0)) d;
          d = set_reg (TCCRB 2) (io d (TCCRB 0)) d;
          d = set_reg (TCCRA 1) (TCCRA_MASK d) d;
          d = set_reg (TCCRB 1) (TCCRB_MASK d) d;
          d = set_reg (OCRH 1 ChC) 0 (set_reg (OCRH 1 ChB) 0 (set_reg (OCRH 1 ChA) 0 d));
          d = set_reg (TCCRA 3) (TCCRA_MASK d) d;
          d = set_reg (TCCRB 3) (TCCRB_MASK d) d;
          d = set_reg (OCRH 3 ChC) 0 (set_reg (OCRH 3 ChB) 0 (set_reg (OCRH 3 ChA) 0 d))
      in (PWMSuccess, sei d))"

definition PWM_numChannels :: u8 where
  "PWM_numChannels = word_of_nat PINS_NUM"

text \<open>The result type of \<open>PWM_isEnabled\<close> is \<open>PWMError\<close>, and 0 is \<open>PWMSuccess\<close>.\<close>

definition PWM_isEnabled :: "u8 \<Rightarrow> 'a avr_scheme \<Rightarrow> PWMError" where
  "PWM_isEnabled c d =
     (if PINS_NUM \<le> unat c then PWMChannelOutOfBound
      else
        let pin = pins d ! unat c in
        case tcc_register pin of
          None \<Rightarrow> PWMChannelOutOfBound
        | Some tcc \<Rightarrow> if io d tcc AND com_mask pin = 0 then PWMSuccess else PWMEnabled)"

definition PWM_enable :: "u8 \<Rightarrow> u8 \<Rightarrow> 'a avr_scheme \<Rightarrow> PWMError \<times> 'a avr_scheme" where
  "PWM_enable c enable d =
     (if PINS_NUM \<le> unat c then (PWMChannelOutOfBound, d)
      else
        let pin = pins d ! unat c in
        case (tcc_register pin, oc_register pin) of
          (Some tcc, Some oc) \<Rightarrow>
            let d1 = set_reg oc 0 d in
            (PWMSuccess,
             if enable \<noteq> 0
             then or_reg (dir_register pin) (bit8 (pin_bit pin)) (or_reg tcc (com_mask pin) d1)
             else clear_reg (dir_register pin) (bit8 (pin_bit pin)) (clear_reg tcc (com_mask pin) d1))
        | _ \<Rightarrow> (PWMChannelOutOfBound, d))"

definition PWM_getDutyCycle :: "u8 \<Rightarrow> 'a avr_scheme \<Rightarrow> int" where
  "PWM_getDutyCycle c d =
     (if PINS_NUM \<le> unat c then PWMError_code PWMChannelOutOfBound
      else
        let pin = pins d ! unat c in
        case (tcc_register pin, oc_register pin) of
          (Some tcc, Some oc) \<Rightarrow> 255 - uint (io d oc)
        | _ \<Rightarrow> PWMError_code PWMChannelOutOfBound)"

definition PWM_setDutyCycle :: "u8 \<Rightarrow> u8 \<Rightarrow> 'a avr_scheme \<Rightarrow> PWMError \<times> 'a avr_scheme" where
  "PWM_setDutyCycle c duty_cycle d =
     (if PINS_NUM \<le> unat c then (PWMChannelOutOfBound, d)
      else
        let pin = pins d ! unat c in
        case (tcc_register pin, oc_register pin) of
          (Some tcc, Some oc) \<Rightarrow> (PWMSuccess, set_reg oc (255 - duty_cycle) d)
        | _ \<Rightarrow> (PWMChannelOutOfBound, d))"

section \<open>Counter\<close>

definition Counter_init :: "'a avr_scheme \<Rightarrow> 'a avr_scheme" where
  "Counter_init d = set_reg16 OCR4A 0xFFFF
     (set_reg (TCCRB 4) (iobit d (CS 4 2)) (set_reg (TCCRA 4) 0 d))"

definition Counter_get :: "'a avr_scheme \<Rightarrow> u16" where
  "Counter_get d = io16 d TCNT4"

section \<open>Facts about the table\<close>

text \<open>The pins the table offers for PWM.\<close>

definition pwm_channels :: "nat list" where
  "pwm_channels = [2, 3, 4, 5, 9, 10, 11, 12, 13]"

lemma length_pins [simp]: "length (pins d) = 14"
  by (simp add: pins_def)

lemma less_14_cases:
  fixes n :: nat
  assumes "n < 14"
  obtains "n = 0" | "n = 1" | "n = 2" | "n = 3" | "n = 4" | "n = 5" | "n = 6" | "n = 7" | "n = 8"
    | "n = 9" | "n = 10" | "n = 11" | "n = 12" | "n = 13"
proof -
  have "[0..<14] = [0, 1, 2, 3, 4, 5, 6, 7, 8, 9, 10, 11, 12, 13 :: nat]" by (simp add: upt_rec)
  moreover have "n \<in> set [0..<14]" using assms by simp
  ultimately have "n \<in> set [0, 1, 2, 3, 4, 5, 6, 7, 8, 9, 10, 11, 12, 13]" by (simp only:)
  then show ?thesis unfolding list.set insert_iff empty_iff by (elim disjE FalseE) (erule that)+
qed

text \<open>The table depends on the state only through the bit numbers.\<close>

lemma pins_cong: "io_bit d' = io_bit d \<Longrightarrow> pins d' = pins d"
  by (simp add: pins_def pwm_pin_entry_def iobit_def)

lemma pins_same [simp]:
  "pins (set_reg r v d) = pins d" "pins (or_reg r m d) = pins d" "pins (clear_reg r m d) = pins d"
  "pins (cli d) = pins d" "pins (sei d) = pins d" "pins (set_reg16 q w d) = pins d"
  by (rule pins_cong, simp)+

lemma pin_regs:
  assumes "n < 14"
  shows "\<exists>p. dir_register (pins d ! n) = DDR p \<and> out_register (pins d ! n) = PORT p
    \<and> in_register (pins d ! n) = PIN p \<and> pin_bit (pins d ! n) < 8"
  using assms by (cases rule: less_14_cases) (simp_all add: pins_def pwm_pin_entry_def io_pin_def)

lemma pin_pwm:
  assumes "n < 14"
  shows "if n \<in> set pwm_channels
    then \<exists>t c. tcc_register (pins d ! n) = Some (TCCRA t) \<and> oc_register (pins d ! n) = Some (OCR t c)
    else tcc_register (pins d ! n) = None \<and> oc_register (pins d ! n) = None"
  using assms
  by (cases rule: less_14_cases) (simp_all add: pins_def pwm_pin_entry_def io_pin_def pwm_channels_def)

text \<open>No two pins share a port bit, and no two PWM pins a compare register.\<close>

definition pin_key :: "Pin \<Rightarrow> Reg8 \<times> nat" where
  "pin_key p = (dir_register p, pin_bit p)"

lemma pins_distinct: "distinct (map pin_key (pins d))"
  by (simp add: pins_def pin_key_def pwm_pin_entry_def io_pin_def)

lemma oc_distinct: "distinct (map oc_register (map ((!) (pins d)) pwm_channels))"
  by (simp add: pins_def pwm_channels_def pwm_pin_entry_def io_pin_def)

lemma pin_key_inj:
  assumes "m < 14" and "n < 14" and "m \<noteq> n"
  shows "dir_register (pins d ! m) \<noteq> dir_register (pins d ! n) \<or> pin_bit (pins d ! m) \<noteq> pin_bit (pins d ! n)"
proof -
  have "pin_key (pins d ! m) \<noteq> pin_key (pins d ! n)"
    using pins_distinct[of d] assms unfolding distinct_conv_nth by force
  then show ?thesis by (auto simp: pin_key_def)
qed

lemma oc_inj:
  assumes "m \<in> set pwm_channels" and "n \<in> set pwm_channels" and "m \<noteq> n"
  shows "oc_register (pins d ! m) \<noteq> oc_register (pins d ! n)"
proof
  assume "oc_register (pins d ! m) = oc_register (pins d ! n)"
  then have "m = n"
    using oc_distinct[of d] assms(1,2) unfolding distinct_map inj_on_def by auto
  then show False using assms(3) by contradiction
qed

section \<open>Correctness of pins and channels\<close>

lemma drop_bit_and_1: "uint (drop_bit n v AND 1) = of_bool (bit (v :: u8) n)"
  by (simp add: and_one_eq bit_iff_odd_drop_bit odd_iff_mod_2_eq_one)

lemma bit_or_mask: "n < 8 \<Longrightarrow> bit (v OR bit8 n) m = (m = n \<or> bit v m)"
  by (auto simp: bit_or_iff)

lemma bit_and_not_mask: "n < 8 \<Longrightarrow> m < 8 \<Longrightarrow> bit (v AND NOT (bit8 n)) m = (m \<noteq> n \<and> bit v m)"
  by (auto simp: bit_and_iff bit_not_iff possible_bit_word)

text \<open>The output level of a pin, as its port register holds it.\<close>

definition out_level :: "u8 \<Rightarrow> 'a avr_scheme \<Rightarrow> bool" where
  "out_level pin d = bit (io d (out_register (pins d ! unat pin))) (pin_bit (pins d ! unat pin))"

text \<open>A device with the bit numbers of the data sheet, for concrete evaluations.\<close>

fun sheet_bit :: "IoBit \<Rightarrow> nat" where
  "sheet_bit (COM t ChA k) = 6 + k" | "sheet_bit (COM t ChB k) = 4 + k" | "sheet_bit (COM t ChC k) = 2 + k"
| "sheet_bit (WGM t k) = (if k < 2 then k else k + 1)" | "sheet_bit (CS t k) = k"
| "sheet_bit (OCIEA t) = 1" | "sheet_bit (PCIE k) = k" | "sheet_bit U2X0 = 1" | "sheet_bit UCSZ01 = 2"
| "sheet_bit UCSZ00 = 1" | "sheet_bit RXEN0 = 4" | "sheet_bit TXEN0 = 3" | "sheet_bit RXCIE0 = 7"
| "sheet_bit UDRIE0 = 5"

definition avr0 :: avr where
  "avr0 = \<lparr>io = (\<lambda>_. 0), io16 = (\<lambda>_. 0), irq_enabled = False, eeprom = (\<lambda>_. 0xFF), io_bit = sheet_bit,
     setbaud = (\<lambda>_. (0, 16, False))\<rparr>"

text \<open>
  Direction of a pin: reading it back gives what was set, on every pin of the board, and
  setting one pin leaves the direction of every other pin and every output level alone.
\<close>

lemma DigIO_setDirection_spec:
  assumes "unat p < PINS_NUM" and "unat q < PINS_NUM"
  shows "case DigIO_setDirection p dir d of (r, d') \<Rightarrow> r = 0
    \<and> DigIO_getDirection q d' = (if q = p then of_bool (dir = Output) else DigIO_getDirection q d)
    \<and> out_level q d' = out_level q d"
proof -
  obtain a where a: "dir_register (pins d ! unat p) = DDR a" "out_register (pins d ! unat p) = PORT a"
    "pin_bit (pins d ! unat p) < 8"
    using pin_regs[OF assms(1), of d] by auto
  obtain b where b: "dir_register (pins d ! unat q) = DDR b" "out_register (pins d ! unat q) = PORT b"
    "pin_bit (pins d ! unat q) < 8"
    using pin_regs[OF assms(2), of d] by auto
  have key: "a = b \<Longrightarrow> q \<noteq> p \<Longrightarrow> pin_bit (pins d ! unat q) \<noteq> pin_bit (pins d ! unat p)"
    using pin_key_inj[OF assms, of d] a b by (auto simp: word_unat_eq_iff)
  show ?thesis
    using assms a b key
    by (auto simp: DigIO_setDirection_def DigIO_getDirection_def Let_def drop_bit_and_1 out_level_def
        bit_or_mask bit_and_not_mask)
qed

lemma DigIO_setValue_spec:
  assumes "unat p < PINS_NUM" and "unat q < PINS_NUM"
  shows "case DigIO_setValue p v d of (r, d') \<Rightarrow> r = 0
    \<and> out_level q d' = (if q = p then v \<noteq> 0 else out_level q d)
    \<and> DigIO_getDirection q d' = DigIO_getDirection q d"
proof -
  obtain a where a: "dir_register (pins d ! unat p) = DDR a" "out_register (pins d ! unat p) = PORT a"
    "pin_bit (pins d ! unat p) < 8"
    using pin_regs[OF assms(1), of d] by auto
  obtain b where b: "dir_register (pins d ! unat q) = DDR b" "out_register (pins d ! unat q) = PORT b"
    "pin_bit (pins d ! unat q) < 8"
    using pin_regs[OF assms(2), of d] by auto
  have key: "a = b \<Longrightarrow> q \<noteq> p \<Longrightarrow> pin_bit (pins d ! unat q) \<noteq> pin_bit (pins d ! unat p)"
    using pin_key_inj[OF assms, of d] a b by (auto simp: word_unat_eq_iff)
  show ?thesis
    using assms a b key
    by (auto simp: DigIO_setValue_def DigIO_getDirection_def Let_def drop_bit_and_1 out_level_def
        bit_or_mask bit_and_not_mask)
qed

interpretation avr_io: digital_io "\<lambda>p. unat p < PINS_NUM" DigIO_setDirection DigIO_getDirection DigIO_setValue out_level
  by unfold_locales (auto simp: DigIO_setDirection_spec DigIO_setValue_spec, auto simp: DigIO_setDirection_def DigIO_setValue_def DigIO_getDirection_def)

lemma PWM_regs:
  assumes "unat c \<in> set pwm_channels"
  shows "unat c < 14" and "\<exists>t k. tcc_register (pins d ! unat c) = Some (TCCRA t) \<and> oc_register (pins d ! unat c) = Some (OCR t k)"
proof -
  show "unat c < 14" using assms by (auto simp: pwm_channels_def)
  then show "\<exists>t k. tcc_register (pins d ! unat c) = Some (TCCRA t) \<and> oc_register (pins d ! unat c) = Some (OCR t k)"
    using pin_pwm[of "unat c" d] assms by simp
qed

lemma PWM_setDutyCycle_spec:
  "case PWM_setDutyCycle c v d of (r, d') \<Rightarrow>
    (if unat c \<in> set pwm_channels
     then r = PWMSuccess \<and> PWM_getDutyCycle c d' = uint v
       \<and> (\<forall>b. b \<noteq> c \<longrightarrow> PWM_getDutyCycle b d' = PWM_getDutyCycle b d)
     else r = PWMChannelOutOfBound \<and> d' = d)"
proof (cases "unat c \<in> set pwm_channels")
  case True
  then obtain t k where c: "unat c < 14" "tcc_register (pins d ! unat c) = Some (TCCRA t)"
    "oc_register (pins d ! unat c) = Some (OCR t k)"
    using PWM_regs(1)[of c] PWM_regs(2)[of c d] by auto
  have v: "255 - uint (255 - v) = uint v"
  proof -
    have "unat v \<le> 255" using unat_u8_less[of v] by linarith
    then have "v \<le> 255" by (simp add: word_le_nat_alt)
    then have "unat (255 - v) = 255 - unat v" using unat_sub[of v 255] by simp
    then have "int (unat (255 - v)) = 255 - int (unat v)" using \<open>unat v \<le> 255\<close> by linarith
    then show ?thesis by simp
  qed
  have other: "PWM_getDutyCycle b (set_reg (OCR t k) (255 - v) d) = PWM_getDutyCycle b d" if "b \<noteq> c" for b
  proof (cases "unat b \<in> set pwm_channels")
    case b: True
    then obtain t' k' where b': "unat b < 14" "tcc_register (pins d ! unat b) = Some (TCCRA t')"
      "oc_register (pins d ! unat b) = Some (OCR t' k')"
      using PWM_regs(1)[of b] PWM_regs(2)[of b d] by auto
    have "unat b \<noteq> unat c" using that by (simp add: word_unat_eq_iff)
    then have "OCR t' k' \<noteq> OCR t k" using oc_inj[OF b True, of d] b' c by simp
    then show ?thesis using b' by (auto simp: PWM_getDutyCycle_def Let_def)
  next
    case b: False
    then show ?thesis using pin_pwm[of "unat b" d] by (auto simp: PWM_getDutyCycle_def Let_def)
  qed
  show ?thesis
    using True c v other by (simp add: PWM_setDutyCycle_def PWM_getDutyCycle_def Let_def)
next
  case False
  then show ?thesis using pin_pwm[of "unat c" d] by (auto simp: PWM_setDutyCycle_def Let_def)
qed

interpretation avr_pwm: pwm_driver "\<lambda>c. unat c \<in> set pwm_channels" PWM_setDutyCycle PWM_getDutyCycle
  by unfold_locales (rule PWM_setDutyCycle_spec)

text \<open>
  Enabling (or disabling) a channel writes 0 to its compare register, which is the
  representation of the full duty cycle: until the next \<open>PWM_setDutyCycle\<close> the channel drives
  at 255.
\<close>

theorem PWM_enable_full_duty:
  assumes "unat c \<in> set pwm_channels"
  shows "fst (PWM_enable c e d) = PWMSuccess \<and> PWM_getDutyCycle c (snd (PWM_enable c e d)) = 255"
proof -
  obtain t k where c: "unat c < 14" "tcc_register (pins d ! unat c) = Some (TCCRA t)"
    "oc_register (pins d ! unat c) = Some (OCR t k)"
    using PWM_regs(1)[OF assms] PWM_regs(2)[OF assms, of d] by auto
  obtain p where "dir_register (pins d ! unat c) = DDR p" using pin_regs[OF c(1), of d] by auto
  then show ?thesis using c by (simp add: PWM_enable_def PWM_getDutyCycle_def Let_def)
qed

theorem PWM_enable_full_duty_witness:
  "fst (PWM_enable 5 1 avr0) = PWMSuccess \<and> PWM_getDutyCycle 5 (snd (PWM_enable 5 1 avr0)) = 255"
  by (rule PWM_enable_full_duty) (simp add: pwm_channels_def)

end
