(* ===== verification/Float32.thy ===== *)
theory Float32
  imports Prelude
begin

text \<open>
  Single precision arithmetic on bit patterns. On the AVR target \<open>double\<close> is \<open>float\<close>, so every
  floating point operation of the firmware is one of these. Values are exact rationals
  \<open>(-1)^s * m * 2^e\<close>; each operation computes the exact result and rounds it once, to the
  nearest pattern and to even on ties (IEEE 754 binary32, with subnormals).
\<close>

datatype fval = FNan | FInf bool | FFin bool nat int

definition f32_decode :: "f32 \<Rightarrow> fval" where
  "f32_decode w =
     (let n = unat w; s = 2147483648 \<le> n; e = n div 8388608 mod 256; m = n mod 8388608 in
      if e = 255 then (if m = 0 then FInf s else FNan)
      else if e = 0 then FFin s m (- 149)
      else FFin s (m + 8388608) (int e - 150))"

definition f32_pack :: "bool \<Rightarrow> nat \<Rightarrow> f32" where
  "f32_pack s bits = word_of_nat ((if s then 2147483648 else 0) + bits)"

definition f32_nan :: f32 where "f32_nan = 0x7FC00000"

definition f32_inf :: "bool \<Rightarrow> f32" where "f32_inf s = f32_pack s 0x7F800000"

fun ilog2 :: "nat \<Rightarrow> nat" where
  "ilog2 n = (if n < 2 then 0 else Suc (ilog2 (n div 2)))"

declare ilog2.simps [simp del]

text \<open>The quotient \<open>num/den * 2^d\<close> as a pair of naturals.\<close>

definition scaled :: "nat \<Rightarrow> nat \<Rightarrow> int \<Rightarrow> nat \<times> nat" where
  "scaled num den d = (num * 2 ^ nat d, den * 2 ^ nat (- d))"

definition f32_round :: "bool \<Rightarrow> nat \<Rightarrow> nat \<Rightarrow> int \<Rightarrow> f32" where
  "f32_round s num den e =
     (if num = 0 then f32_pack s 0
      else
        let k0 = e + int (ilog2 num) - int (ilog2 den) - 24;
            k1 = (case scaled num den (e - k0) of (n, d) \<Rightarrow> if n div d < 16777216 then k0 else k0 + 1);
            k = max k1 (- 149)
        in case scaled num den (e - k) of (n, d) \<Rightarrow>
          let q = n div d; r = n mod d;
              q' = (if d < 2 * r \<or> (2 * r = d \<and> odd q) then q + 1 else q);
              bits = nat (k + 149) * 8388608 + q'
          in if 0x7F800000 \<le> bits then f32_inf s else f32_pack s bits)"

definition signed_mant :: "bool \<Rightarrow> nat \<Rightarrow> int" where
  "signed_mant s m = (if s then - int m else int m)"

definition f32_add :: "f32 \<Rightarrow> f32 \<Rightarrow> f32" where
  "f32_add a b =
     (case (f32_decode a, f32_decode b) of
        (FNan, _) \<Rightarrow> f32_nan
      | (_, FNan) \<Rightarrow> f32_nan
      | (FInf s, FInf t) \<Rightarrow> if s = t then f32_inf s else f32_nan
      | (FInf s, FFin _ _ _) \<Rightarrow> f32_inf s
      | (FFin _ _ _, FInf t) \<Rightarrow> f32_inf t
      | (FFin s m e, FFin t n f) \<Rightarrow>
          let g = min e f;
              v = signed_mant s m * 2 ^ nat (e - g) + signed_mant t n * 2 ^ nat (f - g)
          in if v = 0 then f32_pack (s \<and> t) 0 else f32_round (v < 0) (nat \<bar>v\<bar>) 1 g)"

definition f32_neg :: "f32 \<Rightarrow> f32" where
  "f32_neg a = a XOR 0x80000000"

definition f32_sub :: "f32 \<Rightarrow> f32 \<Rightarrow> f32" where
  "f32_sub a b = f32_add a (f32_neg b)"

definition f32_mul :: "f32 \<Rightarrow> f32 \<Rightarrow> f32" where
  "f32_mul a b =
     (case (f32_decode a, f32_decode b) of
        (FNan, _) \<Rightarrow> f32_nan
      | (_, FNan) \<Rightarrow> f32_nan
      | (FInf s, FInf t) \<Rightarrow> f32_inf (s \<noteq> t)
      | (FInf s, FFin t n _) \<Rightarrow> if n = 0 then f32_nan else f32_inf (s \<noteq> t)
      | (FFin s m _, FInf t) \<Rightarrow> if m = 0 then f32_nan else f32_inf (s \<noteq> t)
      | (FFin s m e, FFin t n f) \<Rightarrow> f32_round (s \<noteq> t) (m * n) 1 (e + f))"

definition f32_div :: "f32 \<Rightarrow> f32 \<Rightarrow> f32" where
  "f32_div a b =
     (case (f32_decode a, f32_decode b) of
        (FNan, _) \<Rightarrow> f32_nan
      | (_, FNan) \<Rightarrow> f32_nan
      | (FInf _, FInf _) \<Rightarrow> f32_nan
      | (FInf s, FFin t _ _) \<Rightarrow> f32_inf (s \<noteq> t)
      | (FFin s _ _, FInf t) \<Rightarrow> f32_pack (s \<noteq> t) 0
      | (FFin s m e, FFin t n f) \<Rightarrow>
          if n = 0 then (if m = 0 then f32_nan else f32_inf (s \<noteq> t))
          else f32_round (s \<noteq> t) m n (e - f))"

definition f32_lt :: "f32 \<Rightarrow> f32 \<Rightarrow> bool" where
  "f32_lt a b =
     (case (f32_decode a, f32_decode b) of
        (FNan, _) \<Rightarrow> False
      | (_, FNan) \<Rightarrow> False
      | (FInf s, FInf t) \<Rightarrow> s \<and> \<not> t
      | (FInf s, FFin _ _ _) \<Rightarrow> s
      | (FFin _ _ _, FInf t) \<Rightarrow> \<not> t
      | (FFin s m e, FFin t n f) \<Rightarrow>
          let g = min e f in
          signed_mant s m * 2 ^ nat (e - g) < signed_mant t n * 2 ^ nat (f - g))"

definition f32_is_zero :: "f32 \<Rightarrow> bool" where
  "f32_is_zero a = (case f32_decode a of FFin _ m _ \<Rightarrow> m = 0 | _ \<Rightarrow> False)"

definition f32_of_int :: "int \<Rightarrow> f32" where
  "f32_of_int i = f32_round (i < 0) (nat \<bar>i\<bar>) 1 0"

text \<open>Literals: \<open>f32_ratio 405 1000\<close> is \<open>0.405\<close>.\<close>

definition f32_ratio :: "nat \<Rightarrow> nat \<Rightarrow> f32" where
  "f32_ratio n d = f32_round False n d 0"

text \<open>
  Conversion to an integer truncates towards zero; the result is undefined in C when it does
  not fit, so the value is \<open>None\<close> for NaN and infinities and the caller checks the range.
\<close>

definition f32_trunc :: "f32 \<Rightarrow> int option" where
  "f32_trunc a =
     (case f32_decode a of
        FFin s m e \<Rightarrow>
          let v = (if 0 \<le> e then int m * 2 ^ nat e else int m div 2 ^ nat (- e)) in
          Some (if s then - v else v)
      | _ \<Rightarrow> None)"

section \<open>Facts\<close>

lemma f32_lt_irrefl [simp]: "\<not> f32_lt a a"
  by (simp add: f32_lt_def split: fval.splits)

lemma f32_lt_nan: "f32_decode a = FNan \<Longrightarrow> \<not> f32_lt a b" "f32_decode b = FNan \<Longrightarrow> \<not> f32_lt a b"
  by (simp_all add: f32_lt_def split: fval.splits)

lemma f32_lt_asym: "f32_lt a b \<Longrightarrow> \<not> f32_lt b a"
  by (cases "f32_decode a"; cases "f32_decode b") (auto simp: f32_lt_def Let_def min.commute)

lemmas f32_eval = f32_decode_def f32_pack_def f32_nan_def f32_inf_def ilog2.simps scaled_def f32_round_def
  signed_mant_def f32_add_def f32_neg_def f32_sub_def f32_mul_def f32_div_def f32_lt_def f32_is_zero_def
  f32_of_int_def f32_ratio_def f32_trunc_def Let_def

end
