(* ===== verification/Board.thy ===== *)
theory Board
  imports Pins Ring Float32
begin

text \<open>
  The stateful drivers of \<open>src/orazio_lib/src/arch/atmega2560\<close>: \<open>uart.c\<close> (interrupt-driven
  byte queues), \<open>encoder.c\<close> (quadrature decoding), \<open>timer.c\<close> and \<open>sonar.c\<close>. Interrupt service
  routines are functions on the state of the board; which one runs when is up to the step
  relation of the program.
\<close>

section \<open>State of the drivers\<close>

record UART =
  uart_tx_buffer :: "u8 list"
  uart_tx_start :: u8
  uart_tx_end :: u8
  uart_tx_size :: u8
  uart_rx_buffer :: "u8 list"
  uart_rx_start :: u8
  uart_rx_end :: u8
  uart_rx_size :: u8
  uart_num :: nat

text \<open>The program installs one timer function, \<open>onTimerTick\<close> of \<open>orazio.c\<close>.\<close>

datatype TimerFn = OnTimerTick

record Timer =
  timer_num :: int
  duration_ms :: u16
  timer_fn :: "TimerFn option"
  timer_args :: addr

text \<open>
  What the target leaves to its run-time library: the value of a float to integer conversion
  that does not fit (undefined in C), and the sine and cosine of \<open>math.h\<close>.
\<close>

record board = avr +
  uart_0 :: UART
  encoder_status :: u8
  encoder_current_value :: "u16 list"
  encoder_sampled_value :: "u16 list"
  timers :: "Timer list"
  counters :: "u16 list"
  triggers :: u8
  echos :: u8
  conversion_overflow :: "f32 \<Rightarrow> int"
  sin_fn :: "f32 \<Rightarrow> f32"
  cos_fn :: "f32 \<Rightarrow> f32"

text \<open>A float converted to an integer of the range \<open>lo..hi\<close>.\<close>

definition f32_to_int :: "'a board_scheme \<Rightarrow> int \<Rightarrow> int \<Rightarrow> f32 \<Rightarrow> int" where
  "f32_to_int d lo hi x =
     (case f32_trunc x of
        Some i \<Rightarrow> if lo \<le> i \<and> i \<le> hi then i else conversion_overflow d x
      | None \<Rightarrow> conversion_overflow d x)"

section \<open>UART\<close>

abbreviation (input) UART_BUFFER_SIZE :: nat where "UART_BUFFER_SIZE \<equiv> 256"

definition setBaud :: "nat \<Rightarrow> 'a avr_scheme \<Rightarrow> 'a avr_scheme" where
  "setBaud baud d =
     (case setbaud d baud of (h, l, use_2x) \<Rightarrow>
        let d1 = set_reg UBRR0L l (set_reg UBRR0H h d) in
        if use_2x then or_reg UCSR0A (iobit d U2X0) d1 else d1)"

definition setBaud57600 :: "'a avr_scheme \<Rightarrow> 'a avr_scheme" where
  "setBaud57600 d = setBaud 57600 d"

definition setBaud115200 :: "'a avr_scheme \<Rightarrow> 'a avr_scheme" where
  "setBaud115200 d = setBaud 115200 d"

definition UART_reset :: "'a board_scheme \<Rightarrow> 'a board_scheme" where
  "UART_reset d =
     (let d1 = d\<lparr>uart_0 := (uart_0 d)\<lparr>uart_tx_start := 0, uart_tx_end := 0, uart_tx_size := 0,
                 uart_rx_start := 0, uart_rx_end := 0, uart_rx_size := 0\<rparr>\<rparr>;
          d2 = set_reg UCSR0C (iobit d UCSZ01 OR iobit d UCSZ00) d1
      in sei (set_reg UCSR0B (iobit d RXEN0 OR iobit d TXEN0 OR iobit d RXCIE0) d2))"

text \<open>\<open>UART_init\<close> returns the object, or null for another baud rate.\<close>

definition UART_init :: "u32 \<Rightarrow> 'a board_scheme \<Rightarrow> bool \<times> 'a board_scheme" where
  "UART_init baud d0 =
     (let d = d0\<lparr>uart_0 := (uart_0 d0)\<lparr>uart_num := 0\<rparr>\<rparr> in
      if unat baud = 57600 then (True, UART_reset (setBaud57600 d))
      else if unat baud = 115200 then (True, UART_reset (setBaud115200 d))
      else (False, d))"

definition UART_rxbufferSize :: int where "UART_rxbufferSize = int UART_BUFFER_SIZE"

definition UART_txBufferSize :: int where "UART_txBufferSize = int UART_BUFFER_SIZE"

definition UART_rxBufferFull :: "UART \<Rightarrow> int" where
  "UART_rxBufferFull u = uint (uart_rx_size u)"

definition UART_txBufferFull :: "UART \<Rightarrow> int" where
  "UART_txBufferFull u = uint (uart_tx_size u)"

definition UART_txBufferFree :: "UART \<Rightarrow> int" where
  "UART_txBufferFree u = int UART_BUFFER_SIZE - uint (uart_tx_size u)"

definition uart_tx_put :: "u8 \<Rightarrow> UART \<Rightarrow> UART" where
  "uart_tx_put c u =
     (case BUFFER_PUT_u8 (int UART_BUFFER_SIZE) (uart_tx_end u, uart_tx_size u) of (e, n) \<Rightarrow>
        u\<lparr>uart_tx_buffer := (uart_tx_buffer u)[unat (uart_tx_end u) := c],
          uart_tx_end := e, uart_tx_size := n\<rparr>)"

definition uart_tx_get :: "UART \<Rightarrow> u8 \<times> UART" where
  "uart_tx_get u =
     (case BUFFER_GET_u8 (int UART_BUFFER_SIZE) (uart_tx_start u, uart_tx_size u) of (s, n) \<Rightarrow>
        (uart_tx_buffer u ! unat (uart_tx_start u), u\<lparr>uart_tx_start := s, uart_tx_size := n\<rparr>))"

definition uart_rx_put :: "u8 \<Rightarrow> UART \<Rightarrow> UART" where
  "uart_rx_put c u =
     (case BUFFER_PUT_u8 (int UART_BUFFER_SIZE) (uart_rx_end u, uart_rx_size u) of (e, n) \<Rightarrow>
        u\<lparr>uart_rx_buffer := (uart_rx_buffer u)[unat (uart_rx_end u) := c],
          uart_rx_end := e, uart_rx_size := n\<rparr>)"

definition uart_rx_get :: "UART \<Rightarrow> u8 \<times> UART" where
  "uart_rx_get u =
     (case BUFFER_GET_u8 (int UART_BUFFER_SIZE) (uart_rx_start u, uart_rx_size u) of (s, n) \<Rightarrow>
        (uart_rx_buffer u ! unat (uart_rx_start u), u\<lparr>uart_rx_start := s, uart_rx_size := n\<rparr>))"

text \<open>
  \<open>UART_putChar\<close> waits while \<open>tx_size >= 256\<close>, which a \<open>uint8_t\<close> never is: it never waits.
  \<open>UART_getChar\<close> waits while the receive queue is empty (\<open>None\<close>). Both change the queue in
  an \<open>ATOMIC_BLOCK(ATOMIC_FORCEON)\<close>, which leaves the interrupts enabled.
\<close>

definition UART_putChar :: "u8 \<Rightarrow> 'a board_scheme \<Rightarrow> 'a board_scheme option" where
  "UART_putChar c d =
     (if int UART_BUFFER_SIZE \<le> uint (uart_tx_size (uart_0 d)) then None
      else Some (or_reg UCSR0B (iobit d UDRIE0)
        (sei ((cli d)\<lparr>uart_0 := uart_tx_put c (uart_0 d)\<rparr>))))"

definition UART_getChar :: "'a board_scheme \<Rightarrow> (u8 \<times> 'a board_scheme) option" where
  "UART_getChar d =
     (if uart_rx_size (uart_0 d) = 0 then None
      else case uart_rx_get (uart_0 d) of (c, u) \<Rightarrow> Some (c, sei ((cli d)\<lparr>uart_0 := u\<rparr>)))"

text \<open>\<open>ISR(USART0_RX_vect)\<close> and \<open>ISR(USART0_UDRE_vect)\<close>; \<open>UDR0\<close> is the data register.\<close>

definition USART0_RX_isr :: "'a board_scheme \<Rightarrow> 'a board_scheme" where
  "USART0_RX_isr d =
     (let c = io d UDR0 in
      if uint (uart_rx_size (uart_0 d)) < int UART_BUFFER_SIZE
      then d\<lparr>uart_0 := uart_rx_put c (uart_0 d)\<rparr> else d)"

definition USART0_UDRE_isr :: "'a board_scheme \<Rightarrow> 'a board_scheme" where
  "USART0_UDRE_isr d =
     (if uart_tx_size (uart_0 d) = 0 then clear_reg UCSR0B (iobit d UDRIE0) d
      else case uart_tx_get (uart_0 d) of (c, u) \<Rightarrow> set_reg UDR0 c (d\<lparr>uart_0 := u\<rparr>))"

section \<open>Encoders\<close>

abbreviation (input) NUM_ENCODERS :: nat where "NUM_ENCODERS \<equiv> 2"
abbreviation (input) ENCODER_MASK :: u8 where "ENCODER_MASK \<equiv> 0x0F"

definition transition_table :: "int list" where
  "transition_table = [0, 1, - 1, 0, - 1, 0, 0, 1, 1, 0, 0, - 1, 0, - 1, 1, 0]"

definition Encoder_init :: "'a board_scheme \<Rightarrow> 'a board_scheme" where
  "Encoder_init d0 =
     (let d = cli d0;
          d = d\<lparr>encoder_current_value := replicate NUM_ENCODERS 0,
                encoder_sampled_value := replicate NUM_ENCODERS 0, encoder_status := 0\<rparr>;
          d = clear_reg (DDR PB) ENCODER_MASK d;
          d = or_reg (PORT PB) ENCODER_MASK d;
          d = or_reg PCICR (iobit d (PCIE 0)) d;
          d = or_reg (PCMSK 0) ENCODER_MASK d
      in sei d)"

definition Encoder_sample :: "'a board_scheme \<Rightarrow> 'a board_scheme" where
  "Encoder_sample d = sei ((cli d)\<lparr>encoder_sampled_value := encoder_current_value d\<rparr>)"

definition Encoder_numEncoders :: u8 where
  "Encoder_numEncoders = word_of_nat NUM_ENCODERS"

definition Encoder_getValue :: "u8 \<Rightarrow> 'a board_scheme \<Rightarrow> u16" where
  "Encoder_getValue num_encoder d = encoder_sampled_value d ! unat num_encoder"

text \<open>One encoder: the two bits before and after select the step.\<close>

definition encoder_step :: "u8 \<Rightarrow> u8 \<Rightarrow> u16 \<Rightarrow> u16" where
  "encoder_step ps ns c =
     (let idx = (ns AND 3) OR push_bit 2 (ps AND 3) in
      c + word_of_int (transition_table ! unat idx))"

fun encoder_loop :: "u8 \<Rightarrow> u8 \<Rightarrow> u16 list \<Rightarrow> u16 list" where
  "encoder_loop ps ns [] = []"
| "encoder_loop ps ns (c # cs) = encoder_step ps ns c # encoder_loop (drop_bit 2 ps) (drop_bit 2 ns) cs"

definition PCINT0_isr :: "'a board_scheme \<Rightarrow> 'a board_scheme" where
  "PCINT0_isr d0 =
     (let d = cli d0; port_value = io d (PIN PB) AND ENCODER_MASK in
      sei (d\<lparr>encoder_current_value := encoder_loop (encoder_status d) port_value (encoder_current_value d),
            encoder_status := port_value\<rparr>))"

section \<open>Timer\<close>

abbreviation (input) NUM_TIMERS :: nat where "NUM_TIMERS \<equiv> 1"

definition zero_timer :: Timer where
  "zero_timer = \<lparr>timer_num = 0, duration_ms = 0, timer_fn = None, timer_args = NULL\<rparr>"

definition Timers_init :: "'a board_scheme \<Rightarrow> 'a board_scheme" where
  "Timers_init d = d\<lparr>timers := map (\<lambda>i. zero_timer\<lparr>timer_num := int i\<rparr>) [0..<NUM_TIMERS]\<rparr>"

text \<open>A timer is handed out as its index in \<open>timers\<close>; \<open>None\<close> is the null pointer.\<close>

definition Timer_create :: "string \<Rightarrow> u16 \<Rightarrow> TimerFn \<Rightarrow> addr \<Rightarrow> 'a board_scheme \<Rightarrow> nat option \<times> 'a board_scheme" where
  "Timer_create device duration fn args d =
     (if device = ''timer_0''
      then (Some 0, d\<lparr>timers := (timers d)[0 := (timers d ! 0)\<lparr>duration_ms := duration, timer_num := 0,
              timer_fn := Some fn, timer_args := args\<rparr>]\<rparr>)
      else (None, d))"

definition timer_stop_regs :: "'a avr_scheme \<Rightarrow> 'a avr_scheme" where
  "timer_stop_regs d = sei (clear_reg (TIMSK 5) (iobit d (OCIEA 5)) (cli d))"

definition Timer_stop :: "nat \<Rightarrow> 'a board_scheme \<Rightarrow> 'a board_scheme" where
  "Timer_stop t d = (if timer_num (timers d ! t) \<noteq> 0 then d else timer_stop_regs d)"

definition Timer_destroy :: "nat \<Rightarrow> 'a board_scheme \<Rightarrow> 'a board_scheme" where
  "Timer_destroy t d0 =
     (let d = cli (Timer_stop t d0); num = timer_num (timers d ! t) in
      sei (d\<lparr>timers := (timers d)[t := zero_timer\<lparr>timer_num := num\<rparr>]\<rparr>))"

text \<open>\<open>(uint16_t)(15.62*duration_ms)\<close>\<close>

definition timer_ocrval :: "'a board_scheme \<Rightarrow> u16 \<Rightarrow> u16" where
  "timer_ocrval d duration =
     word_of_int (f32_to_int d 0 65535 (f32_mul (f32_ratio 1562 100) (f32_of_int (uint duration))))"

definition timer0_start :: "nat \<Rightarrow> 'a board_scheme \<Rightarrow> 'a board_scheme" where
  "timer0_start t d0 =
     (let ocrval = timer_ocrval d0 (duration_ms (timers d0 ! t));
          d = set_reg (TCCRA 5) 0 d0;
          d = set_reg (TCCRB 5) 0 d;
          d = set_reg16 OCR5A ocrval d;
          d = or_reg (TCCRB 5) (iobit d (WGM 5 2) OR iobit d (CS 5 0) OR iobit d (CS 5 2)) d
      in or_reg (TIMSK 5) (iobit d (OCIEA 5)) d)"

definition Timer_start :: "nat \<Rightarrow> 'a board_scheme \<Rightarrow> 'a board_scheme" where
  "Timer_start t d0 =
     (let d = cli d0 in sei (if timer_num (timers d ! t) = 0 then timer0_start t d else d))"

text \<open>\<open>ISR(TIMER5_COMPA_vect)\<close>; \<open>call\<close> is what the installed function does.\<close>

definition TIMER5_COMPA_isr ::
  "(TimerFn \<Rightarrow> addr \<Rightarrow> 'a board_scheme \<Rightarrow> 'a board_scheme result) \<Rightarrow> 'a board_scheme \<Rightarrow>
     'a board_scheme result" where
  "TIMER5_COMPA_isr call d0 =
     (let d = set_reg16 TCNT5 0 d0; t = timers d ! 0 in
      case timer_fn t of None \<Rightarrow> Inr d | Some f \<Rightarrow> call f (timer_args t) d)"

section \<open>Sonar\<close>

abbreviation (input) SONARS_NUM :: nat where "SONARS_NUM \<equiv> 8"

definition Sonar_init :: "'a board_scheme \<Rightarrow> 'a board_scheme" where
  "Sonar_init d0 =
     (let d = Counter_init d0;
          d = set_reg (DDR PC) 0xFF d;
          d = set_reg (PORT PC) 0 d;
          d = set_reg (DDR PK) 0 d;
          d = set_reg (PORT PK) 0xFF d;
          d = d\<lparr>triggers := 0, echos := 0\<rparr>;
          d = set_reg (PCMSK 2) (triggers d) d
      in or_reg PCICR (iobit d (PCIE 2)) d)"

text \<open>The 10 us trigger pulse leaves no trace in the state but the final level.\<close>

definition Sonar_pollPattern :: "u8 \<Rightarrow> 'a board_scheme \<Rightarrow> u8 \<times> 'a board_scheme" where
  "Sonar_pollPattern pattern d0 =
     (let d = d0\<lparr>triggers := pattern, counters := replicate SONARS_NUM 0\<rparr>;
          d = set_reg (PORT PC) (triggers d) d;
          d = set_reg (PORT PC) 0 d;
          d = sei d;
          d = set_reg (PCMSK 2) (triggers d) d
      in (1, cli d))"

definition Sonar_get :: "'a board_scheme \<Rightarrow> u16 list" where
  "Sonar_get d = map (\<lambda>s. if triggers d AND bit8 s \<noteq> 0 then counters d ! s else 0) [0..<SONARS_NUM]"

text \<open>One sonar of the echo interrupt: start time on a rising edge, duration on a falling one.\<close>

definition sonar_echo :: "u16 \<Rightarrow> u8 \<Rightarrow> u8 \<Rightarrow> u8 \<Rightarrow> nat \<Rightarrow> u16 \<Rightarrow> u16" where
  "sonar_echo current_time current_echo trig old_echos s c =
     (let mask = bit8 s in
      if trig AND mask = 0 then c
      else if current_echo AND mask = old_echos AND mask then c
      else if current_echo AND mask \<noteq> 0 then current_time
      else current_time - c)"

definition PCINT2_isr :: "'a board_scheme \<Rightarrow> 'a board_scheme" where
  "PCINT2_isr d0 =
     (let current_time = Counter_get d0; current_echo = io d0 (PIN PK); d = cli d0 in
      sei (d\<lparr>counters := map (\<lambda>s. sonar_echo current_time current_echo (triggers d) (echos d) s (counters d ! s))
              [0..<SONARS_NUM],
            echos := current_echo\<rparr>))"

section \<open>The UART queues are FIFOs of up to 255 bytes\<close>

definition uart_tx_ok :: "UART \<Rightarrow> bool" where
  "uart_tx_ok u \<longleftrightarrow> length (uart_tx_buffer u) = UART_BUFFER_SIZE
     \<and> uart_tx_end u = uart_tx_start u + uart_tx_size u"

definition uart_rx_ok :: "UART \<Rightarrow> bool" where
  "uart_rx_ok u \<longleftrightarrow> length (uart_rx_buffer u) = UART_BUFFER_SIZE
     \<and> uart_rx_end u = uart_rx_start u + uart_rx_size u"

definition uart_tx_items :: "UART \<Rightarrow> u8 list" where
  "uart_tx_items u = ring_items (uart_tx_buffer u) (unat (uart_tx_start u)) (unat (uart_tx_size u)) 256"

definition uart_rx_items :: "UART \<Rightarrow> u8 list" where
  "uart_rx_items u = ring_items (uart_rx_buffer u) (unat (uart_rx_start u)) (unat (uart_rx_size u)) 256"

text \<open>The ring that both directions share.\<close>

lemma u8_ring_put:
  assumes "length buf = 256" and "unat n < 255"
  shows "ring_items (buf[unat (s + n) := x]) (unat s) (unat (n + 1 :: u8)) 256
    = ring_items buf (unat s) (unat n) 256 @ [x]"
proof -
  have "unat (n + 1) = Suc (unat n)"
    using assms(2) unat_word_ariths(1)[of n 1] by simp
  moreover have "unat (s + n) = (unat s + unat n) mod 256" using unat_word_ariths(1)[of s n] by simp
  ultimately show ?thesis using ring_items_put[of "unat n" 256 buf _ "unat s" x] assms by simp
qed

lemma u8_ring_get:
  assumes "(n :: u8) \<noteq> 0"
  shows "ring_items buf (unat s) (unat n) 256
    = buf ! unat s # ring_items buf (unat (s + 1 :: u8)) (unat (n - 1)) 256"
proof -
  have "0 < unat n" using assms by (simp add: unat_gt_0)
  moreover have "unat (s + 1) = (unat s + 1) mod 256" using unat_word_ariths(1)[of s 1] by simp
  moreover have "unat (n - 1) = unat n - 1" using assms by (rule unat_minus_one)
  ultimately show ?thesis using ring_items_get[of "unat n" "unat s" 256 buf] by simp
qed

lemma length_uart_items [simp]:
  "length (uart_tx_items u) = unat (uart_tx_size u)" "length (uart_rx_items u) = unat (uart_rx_size u)"
  by (simp_all add: uart_tx_items_def uart_rx_items_def)

lemma uart_items_Nil:
  "uart_tx_items u = [] \<longleftrightarrow> uart_tx_size u = 0" "uart_rx_items u = [] \<longleftrightarrow> uart_rx_size u = 0"
  by (simp_all add: uart_tx_items_def uart_rx_items_def unat_eq_0)

lemma uart_tx_put_ok:
  assumes "uart_tx_ok u" and "length (uart_tx_items u) < 255"
  shows "uart_tx_items (uart_tx_put c u) = uart_tx_items u @ [c] \<and> uart_tx_ok (uart_tx_put c u)"
  using assms u8_ring_put[of "uart_tx_buffer u" "uart_tx_size u" "uart_tx_start u" c]
  by (simp add: uart_tx_put_def BUFFER_u8_256 uart_tx_items_def uart_tx_ok_def add.assoc)

lemma uart_rx_put_ok:
  assumes "uart_rx_ok u" and "length (uart_rx_items u) < 255"
  shows "uart_rx_items (uart_rx_put c u) = uart_rx_items u @ [c] \<and> uart_rx_ok (uart_rx_put c u)"
  using assms u8_ring_put[of "uart_rx_buffer u" "uart_rx_size u" "uart_rx_start u" c]
  by (simp add: uart_rx_put_def BUFFER_u8_256 uart_rx_items_def uart_rx_ok_def add.assoc)

lemma uart_tx_get_ok:
  assumes "uart_tx_ok u" and "uart_tx_items u = x # xs"
  shows "fst (uart_tx_get u) = x \<and> uart_tx_items (snd (uart_tx_get u)) = xs \<and> uart_tx_ok (snd (uart_tx_get u))"
proof -
  have "uart_tx_size u \<noteq> 0" using assms(2) uart_items_Nil(1)[of u] by simp
  then show ?thesis
    using assms u8_ring_get[of "uart_tx_size u" "uart_tx_buffer u" "uart_tx_start u"]
    by (simp add: uart_tx_get_def BUFFER_u8_256 uart_tx_items_def uart_tx_ok_def)
qed

lemma uart_rx_get_ok:
  assumes "uart_rx_ok u" and "uart_rx_items u = x # xs"
  shows "fst (uart_rx_get u) = x \<and> uart_rx_items (snd (uart_rx_get u)) = xs \<and> uart_rx_ok (snd (uart_rx_get u))"
proof -
  have "uart_rx_size u \<noteq> 0" using assms(2) uart_items_Nil(2)[of u] by simp
  then show ?thesis
    using assms u8_ring_get[of "uart_rx_size u" "uart_rx_buffer u" "uart_rx_start u"]
    by (simp add: uart_rx_get_def BUFFER_u8_256 uart_rx_items_def uart_rx_ok_def)
qed

interpretation uart_tx: fifo uart_tx_put uart_tx_get "\<lambda>u. uart_tx_size u = 0" uart_tx_items uart_tx_ok
  "\<lambda>n. n \<le> 255"
  by unfold_locales (use uart_tx_put_ok uart_tx_get_ok uart_items_Nil in auto)

interpretation uart_rx: fifo uart_rx_put uart_rx_get "\<lambda>u. uart_rx_size u = 0" uart_rx_items uart_rx_ok
  "\<lambda>n. n \<le> 255"
  by unfold_locales (use uart_rx_put_ok uart_rx_get_ok uart_items_Nil in auto)

end
