(* ===== verification/BoardProperties.thy ===== *)
theory BoardProperties
  imports Board
begin

text \<open>
  Correctness of the drivers: bytes received by the UART interrupt are read in order up to
  255 of them, the quadrature decoder follows the Gray code, and the sonar interrupt measures
  the length of the echo. Each limit of the code is a theorem as well.
\<close>

section \<open>A concrete board\<close>

definition uart0 :: UART where
  "uart0 = \<lparr>uart_tx_buffer = replicate UART_BUFFER_SIZE 0, uart_tx_start = 0, uart_tx_end = 0,
     uart_tx_size = 0, uart_rx_buffer = replicate UART_BUFFER_SIZE 0, uart_rx_start = 0,
     uart_rx_end = 0, uart_rx_size = 0, uart_num = 0\<rparr>"

definition board0 :: board where
  "board0 = \<lparr>io = (\<lambda>_. 0), io16 = (\<lambda>_. 0), irq_enabled = False, eeprom = (\<lambda>_. 0xFF), io_bit = sheet_bit,
     setbaud = (\<lambda>_. (0, 16, False)), uart_0 = uart0, encoder_status = 0,
     encoder_current_value = [0, 0], encoder_sampled_value = [0, 0], timers = [zero_timer],
     counters = replicate SONARS_NUM 0, triggers = 0, echos = 0,
     conversion_overflow = (\<lambda>_. 0), sin_fn = (\<lambda>x. x), cos_fn = (\<lambda>_. 0x3F800000)\<rparr>"

section \<open>UART\<close>

text \<open>A byte arrives: it is in the data register when the interrupt runs.\<close>

definition receive_byte :: "u8 \<Rightarrow> 'a board_scheme \<Rightarrow> 'a board_scheme" where
  "receive_byte c d = USART0_RX_isr (set_reg UDR0 c d)"

lemma receive_byte_uart: "uart_0 (receive_byte c d) = uart_rx_put c (uart_0 d)"
proof -
  have "uint (uart_rx_size (uart_0 d)) < 256" using uint_lt2p[of "uart_rx_size (uart_0 d)"] by simp
  then show ?thesis by (simp add: receive_byte_def USART0_RX_isr_def Let_def) (simp add: set_reg_def)
qed

lemma receive_bytes_uart: "uart_0 (fold receive_byte bs d) = fold uart_rx_put bs (uart_0 d)"
  by (induction bs arbitrary: d) (simp_all add: receive_byte_uart)

text \<open>Reading until the queue is empty; \<open>n\<close> bounds the number of reads.\<close>

fun read_all :: "nat \<Rightarrow> 'a board_scheme \<Rightarrow> u8 list" where
  "read_all 0 d = []"
| "read_all (Suc n) d = (case UART_getChar d of None \<Rightarrow> [] | Some (c, d') \<Rightarrow> c # read_all n d')"

lemma read_all_drain:
  "read_all n d = fst (drain (\<lambda>u. uart_rx_size u = 0) uart_rx_get n (uart_0 d))"
  by (induction n arbitrary: d) (auto simp: UART_getChar_def cli_def sei_def split: prod.splits)

text \<open>
  C30. Bytes that arrive one by one through the receive interrupt are read back by
  \<open>UART_getChar\<close> in the same order and none is lost, as long as not more than 255 of them are
  waiting.
\<close>

theorem uart_in_order:
  assumes "uart_rx_ok (uart_0 d)" and "length (uart_rx_items (uart_0 d)) + length bs \<le> 255"
  shows "read_all 255 (fold receive_byte bs d) = uart_rx_items (uart_0 d) @ bs"
  using uart_rx.put_all[OF assms]
    uart_rx.drain_all[of "fold uart_rx_put bs (uart_0 d)" 255] assms(2)
  by (simp add: read_all_drain receive_bytes_uart del: length_uart_items)

theorem uart_in_order_witness: "read_all 255 (fold receive_byte [1, 2, 3] board0) = [] @ [1, 2, 3]"
proof -
  have "uart_rx_ok (uart_0 board0)" "uart_rx_items (uart_0 board0) = []"
    by (simp_all add: uart_rx_ok_def uart_rx_items_def board0_def uart0_def)
  then show ?thesis using uart_in_order[of board0 "[1, 2, 3]"] by simp
qed

text \<open>
  C40. The 256th waiting byte makes the 8-bit count wrap to 0: the queue then reports that it
  is empty, \<open>UART_getChar\<close> waits and all 256 bytes are lost. The test that should stop this
  compares an 8-bit value with 256 and never fires.
\<close>

theorem uart_overrun_loses_all:
  assumes "uart_rx_ok (uart_0 d)" and "length (uart_rx_items (uart_0 d)) + length bs = 255"
  shows "UART_rxBufferFull (uart_0 (fold receive_byte (bs @ [c]) d)) = 0
    \<and> UART_getChar (fold receive_byte (bs @ [c]) d) = None"
proof -
  let ?u = "fold uart_rx_put bs (uart_0 d)"
  have "length (uart_rx_items ?u) = 255"
    using uart_rx.put_all[OF assms(1), of bs] assms(2) by simp
  then have "unat (uart_rx_size ?u) = unat (255 :: u8)" by simp
  then have "uart_rx_size ?u = 255" by (simp only: word_unat_eq_iff)
  then have "uart_rx_size (uart_rx_put c ?u) = 0" by (simp add: uart_rx_put_def BUFFER_u8_256)
  then show ?thesis
    using receive_bytes_uart[of "bs @ [c]" d] by (simp add: UART_getChar_def UART_rxBufferFull_def)
qed

theorem uart_overrun_loses_all_witness:
  "UART_getChar (fold receive_byte (replicate 255 7 @ [8]) board0) = None"
proof -
  have "uart_rx_ok (uart_0 board0)" "uart_rx_items (uart_0 board0) = []"
    by (simp_all add: uart_rx_ok_def uart_rx_items_def board0_def uart0_def)
  then show ?thesis using uart_overrun_loses_all[of board0 "replicate 255 7" 8] by simp
qed

section \<open>Encoders\<close>

text \<open>The position of a pair of channel bits in the Gray code cycle \<open>00, 01, 11, 10\<close>.\<close>

definition gray_pos :: "u8 \<Rightarrow> int" where
  "gray_pos s = (if s AND 3 = 0 then 0 else if s AND 3 = 1 then 1 else if s AND 3 = 3 then 2 else 3)"

text \<open>The specification of a step: one forward, one back, or nothing.\<close>

definition gray_step :: "u8 \<Rightarrow> u8 \<Rightarrow> int" where
  "gray_step ps ns = (let k = (gray_pos ns - gray_pos ps) mod 4 in if k = 1 then 1 else if k = 3 then - 1 else 0)"

lemma and_3_cases: "(s :: u8) AND 3 = 0 \<or> s AND 3 = 1 \<or> s AND 3 = 2 \<or> s AND 3 = 3"
proof -
  have "unat (s AND 3) < 4"
    using word_and_le1[of s 3] by (simp add: word_le_nat_alt)
  then have "unat (s AND 3) = 0 \<or> unat (s AND 3) = 1 \<or> unat (s AND 3) = 2 \<or> unat (s AND 3) = 3"
    by linarith
  then show ?thesis by (simp add: word_unat_eq_iff)
qed

lemma encoder_step_gray: "encoder_step ps ns c = c + word_of_int (gray_step ps ns)"
proof -
  have "transition_table ! unat ((ns AND 3) OR push_bit 2 (ps AND 3)) = gray_step ps ns"
    using and_3_cases[of ps] and_3_cases[of ns]
    by (elim disjE) (simp_all add: transition_table_def gray_step_def gray_pos_def)
  then show ?thesis by (simp add: encoder_step_def Let_def)
qed

text \<open>
  C29. The pin change interrupt follows the Gray code: the count of each encoder changes by one
  forward, one backward or not at all, exactly as its own two channel bits move along the
  cycle \<open>00, 01, 11, 10\<close> (a jump over two positions counts nothing), the channel bits are
  remembered, and the sampled values stay as they are until the next sampling.
\<close>

theorem encoder_interrupt:
  assumes "encoder_current_value d = [c0, c1]"
  shows "let v = io d (PIN PB) AND ENCODER_MASK; d' = PCINT0_isr d in
    encoder_current_value d' = [c0 + word_of_int (gray_step (encoder_status d) v),
      c1 + word_of_int (gray_step (drop_bit 2 (encoder_status d)) (drop_bit 2 v))]
    \<and> encoder_status d' = v \<and> encoder_sampled_value d' = encoder_sampled_value d \<and> irq_enabled d'
    \<and> encoder_sampled_value (Encoder_sample d') = encoder_current_value d'"
  using assms
  by (simp add: PCINT0_isr_def Let_def encoder_step_gray Encoder_sample_def)
    (simp add: cli_def sei_def encoder_step_gray)

theorem encoder_interrupt_witness:
  "encoder_current_value (PCINT0_isr (set_reg (PIN PB) 0b0001 board0)) = [1, 0]"
  using encoder_interrupt[of "set_reg (PIN PB) 0b0001 board0" 0 0]
  by (simp add: board0_def set_reg_def Let_def gray_step_def gray_pos_def)

text \<open>A wheel seen through its channel bits: the count after a sequence of readings.\<close>

fun encoder_track :: "u8 \<Rightarrow> u8 list \<Rightarrow> u16 \<Rightarrow> u16" where
  "encoder_track s [] c = c"
| "encoder_track s (t # ts) c = encoder_track t ts (encoder_step s t c)"

fun no_jump :: "u8 \<Rightarrow> u8 list \<Rightarrow> bool" where
  "no_jump s [] \<longleftrightarrow> True"
| "no_jump s (t # ts) \<longleftrightarrow> (gray_pos t - gray_pos s) mod 4 \<noteq> 2 \<and> no_jump t ts"

lemma gray_step_mod: "(gray_pos t - gray_pos s) mod 4 \<noteq> 2 \<Longrightarrow> gray_step s t mod 4 = (gray_pos t - gray_pos s) mod 4"
  using and_3_cases[of s] and_3_cases[of t] by (elim disjE) (simp_all add: gray_step_def gray_pos_def)

text \<open>
  C28. As long as no reading skips a position, the count keeps step with the wheel: over any
  sequence of readings it changes by a number of ticks that is congruent, modulo the four
  positions of the cycle, to the change of the channel bits.
\<close>

theorem encoder_keeps_step:
  assumes "no_jump s ts"
  shows "\<exists>net. encoder_track s ts c = c + word_of_int net
    \<and> net mod 4 = (gray_pos (last (s # ts)) - gray_pos s) mod 4 \<and> \<bar>net\<bar> \<le> int (length ts)"
  using assms
proof (induction ts arbitrary: s c)
  case Nil
  show ?case by (rule exI[of _ 0]) simp
next
  case (Cons t ts)
  obtain net where net: "encoder_track t ts (encoder_step s t c) = encoder_step s t c + word_of_int net"
    "net mod 4 = (gray_pos (last (t # ts)) - gray_pos t) mod 4" "\<bar>net\<bar> \<le> int (length ts)"
    using Cons.IH[of t "encoder_step s t c"] Cons.prems by auto
  have "(gray_step s t + net) mod 4 = ((gray_pos t - gray_pos s) + (gray_pos (last (t # ts)) - gray_pos t)) mod 4"
    using net(2) gray_step_mod[of t s] Cons.prems by (intro mod_add_cong) simp_all
  moreover have "\<bar>gray_step s t\<bar> \<le> 1" by (simp add: gray_step_def Let_def)
  ultimately show ?case
    using net(1,3) by (intro exI[of _ "gray_step s t + net"]) (simp add: encoder_step_gray add.assoc)
qed

theorem encoder_keeps_step_witness:
  "\<exists>net. encoder_track 0 [1, 3, 2, 0] 5 = 5 + word_of_int net \<and> net mod 4 = 0"
  using encoder_keeps_step[of 0 "[1, 3, 2, 0]" 5] by (auto simp: gray_pos_def)

section \<open>Sonar\<close>

lemma and_bit8: "n < 8 \<Longrightarrow> (v AND bit8 n = 0) = (\<not> bit v n)"
proof -
  assume n: "n < 8"
  have "bit (v AND bit8 n) i = (i = n \<and> bit v n)" for i
    using n by (auto simp: bit_and_iff)
  then show ?thesis using n by (metis bit_eq_iff bit_0_eq bot_apply bot_bool_def)
qed

lemma and_bit8_eq: "n < 8 \<Longrightarrow> (v AND bit8 n = w AND bit8 n) = (bit v n = bit w n)"
proof -
  assume n: "n < 8"
  have "bit (u AND bit8 n) i = (i = n \<and> bit u n)" for i u
    using n by (auto simp: bit_and_iff)
  then show ?thesis by (metis bit_eq_iff)
qed

text \<open>An echo edge: the counter register and the echo port as the interrupt sees them.\<close>

definition echo_at :: "u16 \<Rightarrow> u8 \<Rightarrow> 'a board_scheme \<Rightarrow> 'a board_scheme" where
  "echo_at t pink d = PCINT2_isr (set_reg16 TCNT4 t (set_reg (PIN PK) pink d))"

lemma echo_at_fields:
  "triggers (echo_at t v d) = triggers d" "echos (echo_at t v d) = v"
  "counters (echo_at t v d) = map (\<lambda>s. sonar_echo t v (triggers d) (echos d) s (counters d ! s)) [0..<8]"
  by (simp_all add: echo_at_def PCINT2_isr_def Let_def Counter_get_def)
    (simp_all add: set_reg_def set_reg16_def cli_def sei_def)

fun echo_run :: "(u16 \<times> u8) list \<Rightarrow> 'a board_scheme \<Rightarrow> 'a board_scheme" where
  "echo_run [] d = d"
| "echo_run ((t, v) # es) d = echo_run es (echo_at t v d)"

lemma echo_run_same:
  assumes "s < 8" and "\<forall>(t, v) \<in> set es. bit v s = bit (echos d) s"
  shows "counters (echo_run es d) ! s = counters d ! s" "triggers (echo_run es d) = triggers d"
    "bit (echos (echo_run es d)) s = bit (echos d) s"
proof -
  have "counters (echo_run es d) ! s = counters d ! s \<and> triggers (echo_run es d) = triggers d
      \<and> bit (echos (echo_run es d)) s = bit (echos d) s"
    using assms(2)
  proof (induction es arbitrary: d)
    case Nil
    then show ?case by simp
  next
    case (Cons e es)
    obtain t v where e: "e = (t, v)" by (cases e)
    have v: "bit v s = bit (echos d) s" using Cons.prems by (simp add: e)
    have "counters (echo_at t v d) ! s = counters d ! s"
      using assms(1) v by (simp add: echo_at_fields sonar_echo_def Let_def and_bit8_eq)
    moreover have "\<forall>(t', w) \<in> set es. bit w s = bit (echos (echo_at t v d)) s"
      using Cons.prems v by (auto simp: e echo_at_fields)
    ultimately show ?case
      using Cons.IH[of "echo_at t v d"] v by (simp add: e echo_at_fields)
  qed
  then show "counters (echo_run es d) ! s = counters d ! s" "triggers (echo_run es d) = triggers d"
    "bit (echos (echo_run es d)) s = bit (echos d) s" by simp_all
qed

lemma echo_run_append: "echo_run (xs @ ys) d = echo_run ys (echo_run xs d)"
  by (induction xs arbitrary: d) auto

text \<open>
  C31. A sonar that was triggered and whose echo rises at counter value \<open>t1\<close> and falls at \<open>t2\<close>
  reports the duration of the echo, \<open>t2 - t1\<close> modulo the width of the counter, whatever edges
  other sonars have in between; a sonar that was not triggered reports 0.
\<close>

theorem sonar_measures_echo:
  assumes s: "s < SONARS_NUM" and low: "\<not> bit (echos d) s"
    and before: "\<forall>(t, v) \<in> set es1. \<not> bit v s" and up: "bit v1 s"
    and between: "\<forall>(t, v) \<in> set es2. bit v s" and down: "\<not> bit v2 s"
    and after: "\<forall>(t, v) \<in> set es3. \<not> bit v s"
  shows "Sonar_get (echo_run (es1 @ (t1, v1) # es2 @ (t2, v2) # es3) d) ! s
    = (if bit (triggers d) s then t2 - t1 else 0)"
proof -
  define d1 where "d1 = echo_run es1 d"
  define d2 where "d2 = echo_at t1 v1 d1"
  define d3 where "d3 = echo_run es2 d2"
  define d4 where "d4 = echo_at t2 v2 d3"
  define d5 where "d5 = echo_run es3 d4"
  have run: "echo_run (es1 @ (t1, v1) # es2 @ (t2, v2) # es3) d = d5"
    by (simp add: echo_run_append d1_def d2_def d3_def d4_def d5_def)
  have d1: "triggers d1 = triggers d" "\<not> bit (echos d1) s"
    using echo_run_same[OF s, of es1 d] before low by (auto simp: d1_def split: prod.splits)
  have d2: "triggers d2 = triggers d" "bit (echos d2) s"
    "bit (triggers d) s \<Longrightarrow> counters d2 ! s = t1"
    using s up d1 by (simp_all add: d2_def echo_at_fields sonar_echo_def Let_def and_bit8 and_bit8_eq)
  have d3: "triggers d3 = triggers d" "bit (echos d3) s" "counters d3 ! s = counters d2 ! s"
    using echo_run_same[OF s, of es2 d2] between d2 by (auto simp: d3_def split: prod.splits)
  have d4: "triggers d4 = triggers d" "\<not> bit (echos d4) s"
    "bit (triggers d) s \<Longrightarrow> counters d4 ! s = t2 - t1"
    using s down d2 d3 by (simp_all add: d4_def echo_at_fields sonar_echo_def Let_def and_bit8 and_bit8_eq)
  have d5: "triggers d5 = triggers d" "counters d5 ! s = counters d4 ! s"
    using echo_run_same[OF s, of es3 d4] after d4 by (auto simp: d5_def split: prod.splits)
  show ?thesis
    unfolding run using s d4 d5 by (simp add: Sonar_get_def and_bit8)
qed

theorem sonar_measures_echo_witness:
  "Sonar_get (echo_run ([] @ (100, 4) # [] @ (350, 0) # []) (snd (Sonar_pollPattern 4 board0))) ! 2
    = (if bit (triggers (snd (Sonar_pollPattern 4 board0))) 2 then 350 - 100 else 0)"
  by (rule sonar_measures_echo)
    (simp_all add: Sonar_pollPattern_def Let_def board0_def set_reg_def sei_def cli_def bit_numeral_rec)

text \<open>
  Starting a measurement enables interrupts before it changes the interrupt mask and
  disables them afterwards, the reverse of a critical section: it returns with interrupts
  disabled, so no echo, encoder or timer interrupt is served until some other operation
  enables them again.
\<close>

theorem sonar_poll_disables_interrupts:
  "case Sonar_pollPattern p d of (r, d') \<Rightarrow> r = 1 \<and> \<not> irq_enabled d' \<and> triggers d' = p
    \<and> counters d' = replicate SONARS_NUM 0 \<and> io d' (PCMSK 2) = p"
  by (simp add: Sonar_pollPattern_def Let_def) (simp add: sei_def cli_def set_reg_def)

section \<open>Timer\<close>

text \<open>
  Starting the timer sets its compare value to the number of 15.62 kHz ticks of the period
  (the default of 10 ms gives 156), resets the mode to prescaler 1024 with clear on compare,
  and enables exactly the compare interrupt beside those already enabled.
\<close>

theorem timer_start_registers:
  assumes "timer_num (timers d ! 0) = 0" and "duration_ms (timers d ! 0) = 10"
  shows "let d' = Timer_start 0 d in io16 d' OCR5A = 156 \<and> io d' (TCCRA 5) = 0
    \<and> io d' (TCCRB 5) = iobit d (WGM 5 2) OR iobit d (CS 5 0) OR iobit d (CS 5 2)
    \<and> io d' (TIMSK 5) = io d (TIMSK 5) OR iobit d (OCIEA 5) \<and> irq_enabled d'"
proof -
  have mul: "f32_trunc (f32_mul (f32_ratio 1562 100) (f32_of_int 10)) = Some 156"
    by (simp add: f32_eval)
  have "timers (cli d) = timers d" by (simp add: cli_def)
  then show ?thesis
    using assms
    by (simp add: Timer_start_def timer0_start_def timer_ocrval_def f32_to_int_def mul Let_def)
qed

theorem timer_start_registers_witness:
  "io16 (Timer_start 0 (snd (Timer_create ''timer_0'' 10 OnTimerTick NULL (Timers_init board0)))) OCR5A = 156"
  using timer_start_registers[of "snd (Timer_create ''timer_0'' 10 OnTimerTick NULL (Timers_init board0))"]
  by (simp add: Timer_create_def Timers_init_def zero_timer_def Let_def)

end
