(* ===== verification/HBridge.thy ===== *)
theory HBridge
  imports Pins Packets
begin

text \<open>
  \<open>src/orazio_lib/src/orazio_firmware/orazio_hbridge_internal.c\<close> and \<open>.h\<close>: the three kinds
  of motor drivers, each with an initialisation, a finalisation and a set-speed function. The
  pointer \<open>ops\<close> into the table \<open>h_bridge_ops\<close> is the index of the kind, and the union
  \<open>params\<close> is its three bytes, shared by the three views.
\<close>

section \<open>State\<close>

record HBridge =
  hb_ops :: "HBridgeType option"
  hb_param0 :: u8  \<comment> \<open>\<open>pwmdir.pwm_pin\<close>, \<open>dualpwm.pwm_forward_pin\<close>, \<open>halfpwm.pwm_pin\<close>\<close>
  hb_param1 :: u8  \<comment> \<open>\<open>pwmdir.dir_pin\<close>, \<open>dualpwm.pwm_backward_pin\<close>, \<open>halfpwm.enable_pin\<close>\<close>
  hb_param2 :: s8  \<comment> \<open>\<open>pwmdir.brake_pin\<close>\<close>

text \<open>Short-circuit \<open>||\<close> of two calls: the second runs only when the first succeeded.\<close>

definition pwm_both ::
  "('d \<Rightarrow> PWMError \<times> 'd) \<Rightarrow> ('d \<Rightarrow> PWMError \<times> 'd) \<Rightarrow> 'd \<Rightarrow> bool \<times> 'd" where
  "pwm_both f g d =
     (case f d of (r, d1) \<Rightarrow> if PWMError_code r < 0 then (True, d1)
      else case g d1 of (r2, d2) \<Rightarrow> (PWMError_code r2 < 0, d2))"

definition dig_both :: "('d \<Rightarrow> int \<times> 'd) \<Rightarrow> ('d \<Rightarrow> int \<times> 'd) \<Rightarrow> 'd \<Rightarrow> bool \<times> 'd" where
  "dig_both f g d =
     (case f d of (r, d1) \<Rightarrow> if r < 0 then (True, d1)
      else case g d1 of (r2, d2) \<Rightarrow> (r2 < 0, d2))"

section \<open>PWM and direction\<close>

definition HBridgePWMDir_fini :: "HBridge \<Rightarrow> 'a avr_scheme \<Rightarrow> 'a avr_scheme" where
  "HBridgePWMDir_fini b d0 =
     (let d = snd (PWM_setDutyCycle (hb_param0 b) 0 d0);
          d = snd (PWM_enable (hb_param0 b) 0 d);
          d = snd (DigIO_setValue (hb_param1 b) 0 d);
          d = snd (DigIO_setDirection (hb_param1 b) Input d)
      in if 0 \<le> sint (hb_param2 b)
         then snd (DigIO_setDirection (hb_param2 b) Input (snd (DigIO_setValue (hb_param2 b) 0 d)))
         else d)"

definition HBridgePWMDir_setSpeed :: "HBridge \<Rightarrow> s16 \<Rightarrow> 'a avr_scheme \<Rightarrow> 'a avr_scheme" where
  "HBridgePWMDir_setSpeed b speed d =
     (let dir_pin = hb_param1 b; pwm_pin = hb_param0 b;
          (pwm, dir) = (if 0 \<le> sint speed then (speed, 0) else (- speed, 1));
          pwm = (if 255 < uint pwm then 255 else pwm);
          d1 = snd (DigIO_setValue dir_pin dir d)
      in snd (PWM_setDutyCycle pwm_pin (ucast pwm) d1))"

section \<open>Dual PWM\<close>

definition HBridgeDualPWM_fini :: "HBridge \<Rightarrow> 'a avr_scheme \<Rightarrow> 'a avr_scheme" where
  "HBridgeDualPWM_fini b d0 =
     (let d = snd (PWM_setDutyCycle (hb_param0 b) 0 d0);
          d = snd (PWM_enable (hb_param0 b) 0 d);
          d = snd (PWM_setDutyCycle (hb_param1 b) 0 d)
      in snd (PWM_enable (hb_param1 b) 0 d))"

definition clamp255 :: "s16 \<Rightarrow> s16" where
  "clamp255 speed =
     (let s1 = (if 255 < sint speed then 255 else speed) in if sint s1 < - 255 then - 255 else s1)"

definition HBridgeDualPWM_setSpeed :: "HBridge \<Rightarrow> s16 \<Rightarrow> 'a avr_scheme \<Rightarrow> 'a avr_scheme" where
  "HBridgeDualPWM_setSpeed b speed d =
     (let fpwm_pin = hb_param0 b; bpwm_pin = hb_param1 b; speed = clamp255 speed in
      if 0 \<le> sint speed
      then snd (PWM_setDutyCycle bpwm_pin 0 (snd (PWM_setDutyCycle fpwm_pin (ucast speed) d)))
      else snd (PWM_setDutyCycle bpwm_pin (ucast (- speed)) (snd (PWM_setDutyCycle fpwm_pin 0 d))))"

section \<open>Half-cycle PWM\<close>

text \<open>\<open>enable_pin\<close> is copied to a \<open>uint8_t\<close>, so the test \<open>enable_pin>=0\<close> always holds.\<close>

definition HBridgeHalfPWM_fini :: "HBridge \<Rightarrow> 'a avr_scheme \<Rightarrow> 'a avr_scheme" where
  "HBridgeHalfPWM_fini b d0 =
     (let pwm_pin = hb_param0 b; enable_pin = hb_param1 b;
          d = snd (PWM_setDutyCycle pwm_pin 0 d0);
          d = snd (DigIO_setValue enable_pin 0 d)
      in if 0 \<le> uint enable_pin
         then snd (DigIO_setDirection enable_pin Input (snd (PWM_enable pwm_pin 0 d)))
         else d)"

definition HBridgeHalfPWM_setSpeed :: "HBridge \<Rightarrow> s16 \<Rightarrow> 'a avr_scheme \<Rightarrow> 'a avr_scheme" where
  "HBridgeHalfPWM_setSpeed b speed d =
     (let speed = clamp255 speed; speed = 127 + word_of_int (c_div (sint speed) 2) in
      snd (PWM_setDutyCycle (hb_param0 b) (ucast (speed :: s16)) d))"

section \<open>The table of functions\<close>

fun hb_fini :: "HBridgeType \<Rightarrow> HBridge \<Rightarrow> 'a avr_scheme \<Rightarrow> 'a avr_scheme" where
  "hb_fini HBridgeTypePWMDir = HBridgePWMDir_fini"
| "hb_fini HBridgeTypeDualPWM = HBridgeDualPWM_fini"
| "hb_fini HBridgeTypeHalfCyclePWM = HBridgeHalfPWM_fini"

fun hb_setSpeed :: "HBridgeType \<Rightarrow> HBridge \<Rightarrow> s16 \<Rightarrow> 'a avr_scheme \<Rightarrow> 'a avr_scheme" where
  "hb_setSpeed HBridgeTypePWMDir = HBridgePWMDir_setSpeed"
| "hb_setSpeed HBridgeTypeDualPWM = HBridgeDualPWM_setSpeed"
| "hb_setSpeed HBridgeTypeHalfCyclePWM = HBridgeHalfPWM_setSpeed"

definition hb_release :: "HBridge \<Rightarrow> 'a avr_scheme \<Rightarrow> 'a avr_scheme" where
  "hb_release b d = (case hb_ops b of None \<Rightarrow> d | Some t \<Rightarrow> hb_fini t b d)"

section \<open>Initialisation\<close>

text \<open>
  The pins are passed by reference: a pin that is refused is replaced by the one in use. The
  result is the status, the bridge, the pins and the device.
\<close>

type_synonym 'd init_result = "PacketStatus \<times> HBridge \<times> s8 list \<times> 'd"

definition HBridgePWMDir_init :: "HBridge \<Rightarrow> s8 list \<Rightarrow> 'a avr_scheme \<Rightarrow> 'a avr_scheme init_result" where
  "HBridgePWMDir_init b0 hpins d0 =
     (let d = hb_release b0 d0; pwm_pin = hpins ! 0; dir_pin = hpins ! 1; brake_pin = hpins ! 2;
          b = b0\<lparr>hb_ops := Some HBridgeTypePWMDir\<rparr> in
      case dig_both (DigIO_setDirection dir_pin Output) (DigIO_setValue dir_pin 0) d of (bad, d) \<Rightarrow>
      if bad then (WrongPins, b, hpins[1 := hb_param1 b], d)
      else
        let b = b\<lparr>hb_param1 := dir_pin\<rparr> in
        case (if 0 \<le> sint brake_pin
              then dig_both (DigIO_setDirection brake_pin Output) (DigIO_setValue brake_pin 0) d
              else (False, d)) of (bad, d) \<Rightarrow>
        if bad then (WrongPins, b, hpins[2 := hb_param2 b], d)
        else
          let d = (if 0 \<le> sint brake_pin then snd (DigIO_setValue brake_pin 0 d) else d);
              b = b\<lparr>hb_param2 := brake_pin\<rparr> in
          case pwm_both (PWM_enable pwm_pin 1) (PWM_setDutyCycle pwm_pin 0) d of (bad, d) \<Rightarrow>
          if bad then (WrongPins, b, hpins[0 := hb_param0 b], d)
          else (Success, b\<lparr>hb_param0 := pwm_pin\<rparr>, hpins, d))"

text \<open>A refused backward pin is replaced, but the call still succeeds.\<close>

definition HBridgeDualPWM_init :: "HBridge \<Rightarrow> s8 list \<Rightarrow> 'a avr_scheme \<Rightarrow> 'a avr_scheme init_result" where
  "HBridgeDualPWM_init b0 hpins d0 =
     (let d = hb_release b0 d0; fwd = hpins ! 0; bwd = hpins ! 1;
          b = b0\<lparr>hb_ops := Some HBridgeTypeDualPWM\<rparr> in
      case pwm_both (PWM_enable fwd 1) (PWM_setDutyCycle fwd 0) d of (bad, d) \<Rightarrow>
      if bad then (WrongPins, b, hpins[0 := hb_param0 b], d)
      else
        let b = b\<lparr>hb_param0 := fwd\<rparr> in
        case pwm_both (PWM_enable bwd 1) (PWM_setDutyCycle bwd 0) d of (bad, d) \<Rightarrow>
        let hpins = (if bad then hpins[1 := hb_param1 b] else hpins) in
        (Success, b\<lparr>hb_param1 := hpins ! 1\<rparr>, hpins, d))"

definition HBridgeHalfPWM_init :: "HBridge \<Rightarrow> s8 list \<Rightarrow> 'a avr_scheme \<Rightarrow> 'a avr_scheme init_result" where
  "HBridgeHalfPWM_init b0 hpins d0 =
     (let d = hb_release b0 d0; pwm_pin = hpins ! 0; enable_pin = hpins ! 1;
          b = b0\<lparr>hb_ops := Some HBridgeTypeHalfCyclePWM\<rparr> in
      case pwm_both (PWM_setDutyCycle pwm_pin 0) (PWM_enable pwm_pin 1) d of (bad, d) \<Rightarrow>
      if bad then (WrongPins, b, hpins[0 := hb_param0 b], d)
      else
        let b = b\<lparr>hb_param0 := pwm_pin\<rparr> in
        case (if 0 \<le> sint enable_pin
              then dig_both (DigIO_setDirection enable_pin Output) (DigIO_setValue enable_pin 1) d
              else (False, d)) of (bad, d) \<Rightarrow>
        if bad then (WrongPins, b, hpins[1 := hb_param1 b], d)
        else (Success, b\<lparr>hb_param1 := enable_pin\<rparr>, hpins, d))"

text \<open>The kind comes from a byte of the parameters; \<open>-1\<close> is the status \<open>UnknownType\<close>.\<close>

definition HBridge_init :: "u8 \<Rightarrow> HBridge \<Rightarrow> s8 list \<Rightarrow> 'a avr_scheme \<Rightarrow> 'a avr_scheme init_result" where
  "HBridge_init type b hpins d =
     (if type = 0 then HBridgePWMDir_init b hpins d
      else if type = 1 then HBridgeDualPWM_init b hpins d
      else if type = 2 then HBridgeHalfPWM_init b hpins d
      else (UnknownType, b, hpins, d))"

definition HBridge_setSpeed :: "HBridge \<Rightarrow> s16 \<Rightarrow> 'a avr_scheme \<Rightarrow> PacketStatus \<times> 'a avr_scheme" where
  "HBridge_setSpeed b speed d =
     (case hb_ops b of None \<Rightarrow> (GenericError, d) | Some t \<Rightarrow> (Success, hb_setSpeed t b speed d))"

end
