(* ===== verification/HBridgeProperties.thy ===== *)
theory HBridgeProperties
  imports HBridge
begin

text \<open>
  What a motor driver does to its pins: the duty cycles and the direction are those of the
  requested speed, clamped to what the hardware can do, and the two channels of a dual bridge
  are never driven together.
\<close>

section \<open>Speeds as duty cycles\<close>

lemma clamp255_bounds: "sint (clamp255 v) = max (- 255) (min 255 (sint v))"
  by (simp add: clamp255_def Let_def)

lemma uint_ucast_small: "0 \<le> sint (w :: s16) \<Longrightarrow> sint w \<le> 255 \<Longrightarrow> uint (ucast w :: u8) = sint w"
  by (simp add: uint_ucast_u8 uint_s16_nonneg)

lemma uint_ucast_minus_small:
  "sint (w :: s16) < 0 \<Longrightarrow> - 255 \<le> sint w \<Longrightarrow> uint (ucast (- w) :: u8) = - sint w"
  by (simp add: uint_ucast_u8 uint_s16_minus)

lemma PWM_set_duty:
  assumes "unat c \<in> set pwm_channels"
  shows "PWM_getDutyCycle c (snd (PWM_setDutyCycle c v d)) = uint v"
    and "b \<noteq> c \<Longrightarrow> PWM_getDutyCycle b (snd (PWM_setDutyCycle c v d)) = PWM_getDutyCycle b d"
  using PWM_setDutyCycle_spec[of c v d] assms by (simp_all split: prod.splits)

lemma pwm_not_io:
  "io (snd (PWM_setDutyCycle c v d)) (PORT p) = io d (PORT p)"
  "pins (snd (PWM_setDutyCycle c v d)) = pins d"
proof -
  have "PWM_setDutyCycle c v d = (PWMChannelOutOfBound, d) \<or>
      (\<exists>t k x. PWM_setDutyCycle c v d = (PWMSuccess, set_reg (OCR t k) x d))"
  proof (cases "unat c \<in> set pwm_channels")
    case True
    then obtain t k where "tcc_register (pins d ! unat c) = Some (TCCRA t)"
      "oc_register (pins d ! unat c) = Some (OCR t k)" "unat c < 14"
      using PWM_regs(1)[of c] PWM_regs(2)[of c d] by blast
    then have "PWM_setDutyCycle c v d = (PWMSuccess, set_reg (OCR t k) (255 - v) d)"
      by (simp add: PWM_setDutyCycle_def Let_def)
    then show ?thesis by blast
  next
    case False
    then show ?thesis using PWM_setDutyCycle_spec[of c v d] by (simp split: prod.splits)
  qed
  then show "io (snd (PWM_setDutyCycle c v d)) (PORT p) = io d (PORT p)"
    "pins (snd (PWM_setDutyCycle c v d)) = pins d" by auto
qed

lemma out_level_setDuty: "unat q < 14 \<Longrightarrow> out_level q (snd (PWM_setDutyCycle c v d)) = out_level q d"
  using pin_regs[of "unat q" d] by (auto simp: out_level_def pwm_not_io)

text \<open>
  A dual bridge on two different PWM channels: the forward channel gets the speed clamped
  to 255 and the backward channel gets 0, or the other way round for a negative speed. The
  two channels are never driven at the same time.
\<close>

theorem dual_bridge_speed:
  assumes "hb_ops b = Some HBridgeTypeDualPWM"
    and "unat (hb_param0 b) \<in> set pwm_channels" and "unat (hb_param1 b) \<in> set pwm_channels"
    and "hb_param0 b \<noteq> hb_param1 b"
  shows "case HBridge_setSpeed b v d of (r, d') \<Rightarrow> r = Success
    \<and> PWM_getDutyCycle (hb_param0 b) d' = max 0 (min 255 (sint v))
    \<and> PWM_getDutyCycle (hb_param1 b) d' = max 0 (min 255 (- sint v))
    \<and> (PWM_getDutyCycle (hb_param0 b) d' = 0 \<or> PWM_getDutyCycle (hb_param1 b) d' = 0)"
proof -
  let ?s = "clamp255 v"
  note set0 = PWM_set_duty(1)[OF assms(2)] PWM_set_duty(2)[OF assms(3) assms(4)]
  note set1 = PWM_set_duty(1)[OF assms(3)]
  have s: "sint ?s = max (- 255) (min 255 (sint v))" by (rule clamp255_bounds)
  show ?thesis
  proof (cases "0 \<le> sint ?s")
    case True
    have "sint ?s \<le> 255" using s by linarith
    from uint_ucast_small[OF True this] have "uint (ucast ?s :: u8) = sint ?s" .
    moreover have "0 \<le> sint v" using True s by linarith
    ultimately show ?thesis
      using assms(1) True s
      by (simp add: HBridge_setSpeed_def HBridgeDualPWM_setSpeed_def Let_def set0 set1)
  next
    case False
    have "- 255 \<le> sint ?s" "sint ?s < 0" using s False by linarith+
    from uint_ucast_minus_small[OF this(2,1)] have "uint (ucast (- ?s) :: u8) = - sint ?s" .
    moreover have "sint v < 0" using False s by linarith
    ultimately show ?thesis
      using assms(1) False s
      by (simp add: HBridge_setSpeed_def HBridgeDualPWM_setSpeed_def Let_def set0 set1)
  qed
qed

theorem dual_bridge_speed_witness:
  "case HBridge_setSpeed \<lparr>hb_ops = Some HBridgeTypeDualPWM, hb_param0 = 2, hb_param1 = 3, hb_param2 = - 1\<rparr>
      (- 300) avr0 of (r, d') \<Rightarrow> PWM_getDutyCycle 2 d' = 0 \<and> PWM_getDutyCycle 3 d' = 255"
  using dual_bridge_speed[of "\<lparr>hb_ops = Some HBridgeTypeDualPWM, hb_param0 = 2, hb_param1 = 3,
    hb_param2 = - 1\<rparr>" "- 300" avr0] sint_of_int_s16[of "- 300"]
  by (simp add: pwm_channels_def split: prod.splits)

text \<open>
  A bridge with direction pin: the channel gets the magnitude of the speed, clamped to
  255, and the direction pin is high exactly for negative speeds; also for the most negative
  speed, whose negation does not fit in 16 bits.
\<close>

theorem pwmdir_bridge_speed:
  assumes "hb_ops b = Some HBridgeTypePWMDir"
    and "unat (hb_param0 b) \<in> set pwm_channels" and "unat (hb_param1 b) < PINS_NUM"
  shows "case HBridge_setSpeed b v d of (r, d') \<Rightarrow> r = Success
    \<and> PWM_getDutyCycle (hb_param0 b) d' = min 255 \<bar>sint v\<bar>
    \<and> out_level (hb_param1 b) d' = (sint v < 0)"
proof -
  have lev: "out_level (hb_param1 b) (snd (DigIO_setValue (hb_param1 b) x d)) = (x \<noteq> 0)" for x
    using DigIO_setValue_spec[OF assms(3) assms(3), of x d] by (simp split: prod.splits)
  have val: "uint (ucast (if 255 < uint p then 255 else p) :: u8) = min 255 (uint p)" for p :: s16
    by (simp add: uint_ucast_u8 min_def)
  note defs = HBridge_setSpeed_def HBridgePWMDir_setSpeed_def Let_def PWM_set_duty(1)[OF assms(2)]
  show ?thesis
  proof (cases "0 \<le> sint v")
    case True
    then show ?thesis
      using assms(1,3) lev val[of v] uint_s16_nonneg[OF True] by (simp add: defs out_level_setDuty)
  next
    case False
    then have "uint (- v) = - sint v" using uint_s16_minus by simp
    then show ?thesis
      using assms(1,3) lev val[of "- v"] False by (simp add: defs out_level_setDuty)
  qed
qed

theorem pwmdir_bridge_speed_witness:
  "case HBridge_setSpeed \<lparr>hb_ops = Some HBridgeTypePWMDir, hb_param0 = 3, hb_param1 = 12, hb_param2 = - 1\<rparr>
      (- 32768) avr0 of (r, d') \<Rightarrow> PWM_getDutyCycle 3 d' = 255 \<and> out_level 12 d'"
  using pwmdir_bridge_speed[of "\<lparr>hb_ops = Some HBridgeTypePWMDir, hb_param0 = 3, hb_param1 = 12,
    hb_param2 = - 1\<rparr>" "- 32768" avr0] sint_of_int_s16[of "- 32768"]
  by (simp add: pwm_channels_def split: prod.splits)

text \<open>
  A half-cycle bridge: the duty cycle is 127 plus half of the clamped speed, so it stays
  between 0 and 254 and rest is the middle of the range.
\<close>

theorem half_bridge_speed:
  assumes "hb_ops b = Some HBridgeTypeHalfCyclePWM" and "unat (hb_param0 b) \<in> set pwm_channels"
  shows "case HBridge_setSpeed b v d of (r, d') \<Rightarrow> r = Success
    \<and> PWM_getDutyCycle (hb_param0 b) d' = 127 + c_div (max (- 255) (min 255 (sint v))) 2
    \<and> 0 \<le> PWM_getDutyCycle (hb_param0 b) d' \<and> PWM_getDutyCycle (hb_param0 b) d' \<le> 254"
proof -
  define k where "k = c_div (sint (clamp255 v)) 2"
  have "\<bar>sint (clamp255 v)\<bar> \<le> 255" using clamp255_bounds[of v] by linarith
  then have "\<bar>sint (clamp255 v)\<bar> div 2 \<le> 127" by linarith
  then have "\<bar>k\<bar> \<le> 127" using abs_c_div[of 2 "sint (clamp255 v)"] by (simp add: k_def)
  moreover have s: "sint (127 + word_of_int k :: s16) = 127 + k"
    using sint_of_int_s16[of "127 + k"] calculation by simp
  ultimately have u: "uint (ucast (127 + word_of_int k :: s16) :: u8) = 127 + k"
    using uint_ucast_small[of "127 + word_of_int k"] by (simp only: s)
  have k: "0 \<le> 127 + k" "127 + k \<le> 254" using \<open>\<bar>k\<bar> \<le> 127\<close> by linarith+
  show ?thesis
    using assms k u
    by (simp add: HBridge_setSpeed_def HBridgeHalfPWM_setSpeed_def Let_def PWM_set_duty(1)
        clamp255_bounds[symmetric] k_def)
qed

theorem half_bridge_speed_witness:
  "case HBridge_setSpeed \<lparr>hb_ops = Some HBridgeTypeHalfCyclePWM, hb_param0 = 2, hb_param1 = 3, hb_param2 = - 1\<rparr>
      0 avr0 of (r, d') \<Rightarrow> PWM_getDutyCycle 2 d' = 127"
  using half_bridge_speed[of "\<lparr>hb_ops = Some HBridgeTypeHalfCyclePWM, hb_param0 = 2, hb_param1 = 3,
    hb_param2 = - 1\<rparr>" 0 avr0]
  by (simp add: pwm_channels_def c_div_def split: prod.splits)

end
