(* ===== verification/Globals.thy ===== *)
theory Globals
  imports Board HBridge
begin

text \<open>
  The global state of the firmware: \<open>orazio_globals.c\<close> and \<open>.h\<close>, \<open>orazio_pins.h\<close> (ATmega2560
  section) and the static variables of the other files of
  \<open>src/orazio_lib/src/orazio_firmware\<close>, on top of the board. Pointers to elements of the global
  arrays are indices, \<open>None\<close> is null.
\<close>

section \<open>Static variables of the controllers\<close>

text \<open>\<open>JointController\<close> of \<open>orazio_joints_internal.h\<close>\<close>

record JointController =
  ctl_params :: "nat option"
  ctl_status :: "nat option"
  ctl_control :: "nat option"
  ctl_output :: s16
  ctl_ramp_reference :: s16
  ctl_reference :: s16
  ctl_error_integral :: s16
  ctl_error :: s16
  ctl_previous_error :: s16

definition zero_controller :: JointController where
  "zero_controller = \<lparr>ctl_params = None, ctl_status = None, ctl_control = None, ctl_output = 0,
     ctl_ramp_reference = 0, ctl_reference = 0, ctl_error_integral = 0, ctl_error = 0,
     ctl_previous_error = 0\<rparr>"

text \<open>
  \<open>DifferentialDriveController\<close> of \<open>orazio_drive_internal.h\<close>; \<open>dd_set\<close> tells that its pointers
  \<open>params\<close>, \<open>status\<close> and \<open>control\<close> are set (they can only point to the global packets). An \<open>int\<close>
  is 16 bits wide.
\<close>

record DifferentialDriveController =
  dd_set :: bool
  dd_status_left :: "nat option"
  dd_status_right :: "nat option"
  dd_control_left :: "nat option"
  dd_control_right :: "nat option"
  dd_dt :: f32
  dd_idt :: f32
  dd_joints_dt :: f32
  dd_kr :: f32
  dd_kl :: f32
  dd_ikr :: f32
  dd_ikl :: f32
  dd_baseline :: f32
  dd_ibaseline :: f32
  dd_max_dtv :: f32
  dd_max_drv :: f32
  dd_encoder_left_previous :: s16
  dd_encoder_right_previous :: s16

definition zero_drive_controller :: DifferentialDriveController where
  "zero_drive_controller = \<lparr>dd_set = False, dd_status_left = None, dd_status_right = None,
     dd_control_left = None, dd_control_right = None, dd_dt = 0, dd_idt = 0, dd_joints_dt = 0,
     dd_kr = 0, dd_kl = 0, dd_ikr = 0, dd_ikl = 0, dd_baseline = 0, dd_ibaseline = 0,
     dd_max_dtv = 0, dd_max_drv = 0, dd_encoder_left_previous = 0, dd_encoder_right_previous = 0\<rparr>"

section \<open>The state of the firmware\<close>

text \<open>
  \<open>null_encoder\<close> is what the target returns when the code reads an encoder position through a
  null pointer (which it does once, before the joints are initialised).
\<close>

record firmware = board +
  system_params :: SystemParamPacket
  drive_params :: DifferentialDriveParamPacket
  system_status :: SystemStatusPacket
  drive_status :: DifferentialDriveStatusPacket
  drive_control :: DifferentialDriveControlPacket
  string_message :: StringMessagePacket
  joint_params :: "JointParamPacket list"
  joint_status :: "JointStatusPacket list"
  joint_control :: "JointControlPacket list"
  sonar_status :: SonarStatusPacket
  sonar_params :: SonarParamPacket
  bridges :: "HBridge list"
  joint_controllers :: "JointController list"
  drive_controller :: DifferentialDriveController
  last_drive_control_seq :: u16
  sonar_max_cycle :: u8
  sonar_current_cycle :: u8
  sonar_ready :: u8
  global_seq :: u16
  response :: ResponsePacket
  end_epoch :: EndEpochPacket
  uart_ready :: bool
  tick_counter :: u8
  comm_handle :: u8
  null_encoder :: u16

section \<open>Initial values\<close>

definition ORAZIO_FIRMWARE_VERSION :: u32 where
  "ORAZIO_FIRMWARE_VERSION = 0x20180805"

abbreviation (input) H_BRIDGE_DUAL_PWM_0_FWD_PIN :: s8 where "H_BRIDGE_DUAL_PWM_0_FWD_PIN \<equiv> 2"
abbreviation (input) H_BRIDGE_DUAL_PWM_0_BWD_PIN :: s8 where "H_BRIDGE_DUAL_PWM_0_BWD_PIN \<equiv> 3"
abbreviation (input) H_BRIDGE_DUAL_PWM_1_FWD_PIN :: s8 where "H_BRIDGE_DUAL_PWM_1_FWD_PIN \<equiv> 4"
abbreviation (input) H_BRIDGE_DUAL_PWM_1_BWD_PIN :: s8 where "H_BRIDGE_DUAL_PWM_1_BWD_PIN \<equiv> 5"

definition header :: "u8 \<Rightarrow> nat \<Rightarrow> PacketHeader" where
  "header t n = \<lparr>h_type = t, h_size = word_of_nat n, h_seq = 0\<rparr>"

definition init_system_params :: SystemParamPacket where
  "init_system_params = \<lparr>sp_header = header SYSTEM_PARAM_PACKET_ID sizeof_SystemParamPacket,
     sp_protocol_version = ORAZIO_PROTOCOL_VERSION, sp_firmware_version = ORAZIO_FIRMWARE_VERSION,
     sp_timer_period_ms = 10, sp_comm_speed = 115200, sp_comm_cycles = 2,
     sp_periodic_packet_mask = PSystemStatusFlag OR PJointStatusFlag OR PDriveStatusFlag OR PSonarStatusFlag,
     sp_watchdog_cycles = 0, sp_num_joints = word_of_nat NUM_JOINTS\<rparr>"

definition init_drive_params :: DifferentialDriveParamPacket where
  "init_drive_params = \<lparr>
     dp_header = header DIFFERENTIAL_DRIVE_PARAM_PACKET_ID sizeof_DifferentialDriveParamPacket,
     dp_ikr = f32_of_int (- 10000), dp_ikl = f32_of_int 10000, dp_baseline = f32_ratio 405 1000,
     dp_max_translational_velocity = f32_of_int 1, dp_max_translational_acceleration = f32_of_int 3,
     dp_max_translational_brake = f32_of_int 4, dp_max_rotational_velocity = f32_of_int 2,
     dp_max_rotational_acceleration = f32_of_int 15,
     dp_right_joint_index = 0, dp_left_joint_index = 1\<rparr>"

definition init_system_status :: SystemStatusPacket where
  "init_system_status = \<lparr>ss_header = header SYSTEM_STATUS_PACKET_ID sizeof_SystemStatusPacket,
     ss_rx_buffer_size = 0, ss_rx_packets = 0, ss_rx_packet_errors = 0, ss_tx_buffer_size = 0,
     ss_tx_packets = 0, ss_tx_packet_errors = 0, ss_battery_level = 0, ss_watchdog_count = 0,
     ss_rx_seq = 0, ss_rx_packet_queue = 0, ss_idle_cycles = 0\<rparr>"

definition init_drive_status :: DifferentialDriveStatusPacket where
  "init_drive_status = \<lparr>
     ds_header = header DIFFERENTIAL_DRIVE_STATUS_PACKET_ID sizeof_DifferentialDriveStatusPacket,
     ds_odom_x = 0, ds_odom_y = 0, ds_odom_theta = 0, ds_translational_velocity_measured = 0,
     ds_rotational_velocity_measured = 0, ds_translational_velocity_desired = 0,
     ds_rotational_velocity_desired = 0, ds_translational_velocity_adjusted = 0,
     ds_rotational_velocity_adjusted = 0, ds_enabled = 0\<rparr>"

definition init_drive_control :: DifferentialDriveControlPacket where
  "init_drive_control = \<lparr>
     dc_header = header DIFFERENTIAL_DRIVE_CONTROL_PACKET_ID sizeof_DifferentialDriveControlPacket,
     dc_translational_velocity = 0, dc_rotational_velocity = 0\<rparr>"

definition init_string_message :: StringMessagePacket where
  "init_string_message = \<lparr>sm_header = header MESSAGE_PACKET_ID sizeof_StringMessagePacket,
     sm_message = replicate MESSAGE_MAX_SIZE 0\<rparr>"

definition init_joint_param :: "u8 \<Rightarrow> s8 \<Rightarrow> s8 \<Rightarrow> JointParamPacket" where
  "init_joint_param i fwd bwd = \<lparr>
     jpp_header = \<lparr>pi_header = header JOINT_PARAM_PACKET_ID sizeof_JointParamPacket, pi_index = i\<rparr>,
     jpp_param = \<lparr>jp_kp = 255, jp_ki = 32, jp_kd = 0, jp_max_i = 255, jp_min_pwm = 0, jp_max_pwm = 255,
       jp_max_speed = 100, jp_slope = 10, jp_h_bridge_type = 1, jp_h_bridge_pins = [fwd, bwd, - 1]\<rparr>\<rparr>"

definition init_joint_params :: "JointParamPacket list" where
  "init_joint_params =
     [init_joint_param 0 H_BRIDGE_DUAL_PWM_0_FWD_PIN H_BRIDGE_DUAL_PWM_0_BWD_PIN,
      init_joint_param 1 H_BRIDGE_DUAL_PWM_1_FWD_PIN H_BRIDGE_DUAL_PWM_1_BWD_PIN]"

definition init_joint_status :: "JointStatusPacket list" where
  "init_joint_status = map (\<lambda>i. \<lparr>
     jst_header = \<lparr>pi_header = header JOINT_STATUS_PACKET_ID sizeof_JointStatusPacket, pi_index = i\<rparr>,
     jst_info = \<lparr>ji_encoder_position = 0, ji_encoder_speed = 0, ji_desired_speed = 0, ji_pwm = 0,
       ji_sensed_current = 0, ji_mode = JointDisabled\<rparr>\<rparr>) [0, 1]"

definition init_joint_control :: "JointControlPacket list" where
  "init_joint_control = map (\<lambda>i. \<lparr>
     jct_header = \<lparr>pi_header = header JOINT_CONTROL_PACKET_ID sizeof_JointControlPacket, pi_index = i\<rparr>,
     jct_control = \<lparr>jc_speed = 0, jc_mode = JointDisabled\<rparr>\<rparr>) [0, 1]"

definition init_sonar_status :: SonarStatusPacket where
  "init_sonar_status = \<lparr>sns_header = header SONAR_STATUS_PACKET_ID sizeof_SonarStatusPacket,
     sns_ranges = replicate SONARS_MAX 0\<rparr>"

definition init_sonar_params :: SonarParamPacket where
  "init_sonar_params = \<lparr>snp_header = header SONAR_PARAM_PACKET_ID sizeof_SonarParamPacket,
     snp_pattern = [10, 20, 30, 40, 10, 20, 30, 40]\<rparr>"

definition init_bridges :: "HBridge list" where
  "init_bridges = replicate NUM_JOINTS \<lparr>hb_ops = None, hb_param0 = 0, hb_param1 = 0, hb_param2 = 0\<rparr>"

definition init_response :: ResponsePacket where
  "init_response = \<lparr>rp_header = header RESPONSE_PACKET_ID sizeof_ResponsePacket, rp_p_type = 0,
     rp_p_seq = 0, rp_p_result = 0\<rparr>"

definition init_end_epoch :: EndEpochPacket where
  "init_end_epoch = header END_EPOCH_PACKET_ID sizeof_PacketHeader"

text \<open>The state at reset: the globals as initialised, on a given board.\<close>

definition reset_state :: "board \<Rightarrow> u16 \<Rightarrow> firmware" where
  "reset_state b null = board.extend b
     (firmware.fields init_system_params init_drive_params init_system_status init_drive_status
        init_drive_control init_string_message init_joint_params init_joint_status init_joint_control
        init_sonar_status init_sonar_params init_bridges (replicate NUM_JOINTS zero_controller)
        zero_drive_controller 0 0 0 0 0 init_response init_end_epoch False 0 0 null)"

section \<open>Shape of the state\<close>

text \<open>The array sizes, which no operation changes.\<close>

definition wf_fw :: "'a firmware_scheme \<Rightarrow> bool" where
  "wf_fw f \<longleftrightarrow> length (joint_params f) = NUM_JOINTS \<and> length (joint_status f) = NUM_JOINTS
     \<and> length (joint_control f) = NUM_JOINTS \<and> length (bridges f) = NUM_JOINTS
     \<and> length (joint_controllers f) = NUM_JOINTS \<and> length (encoder_sampled_value f) = NUM_ENCODERS
     \<and> length (encoder_current_value f) = NUM_ENCODERS
     \<and> (\<forall>p \<in> set (joint_params f). wf_JointParamPacket p)
     \<and> wf_SonarStatusPacket (sonar_status f) \<and> wf_SonarParamPacket (sonar_params f)
     \<and> wf_StringMessagePacket (string_message f)"

end
