(* ===== verification/Joints.thy ===== *)
theory Joints
  imports Globals
begin

text \<open>
  \<open>orazio_joints_internal.c\<close> and \<open>orazio_joints.c\<close>: the controller of one joint (disabled,
  direct PWM, or PID on the speed with a ramp) and the operations on both joints. Arithmetic
  is that of the target, where \<open>int\<close> has 16 bits: the sums of products wrap, and \<open>/32\<close>
  truncates towards zero.
\<close>

section \<open>One controller\<close>

definition clamp :: "s16 \<Rightarrow> s16 \<Rightarrow> s16" where
  "clamp v value = (if sint value < sint v then value else if sint v < sint (- value) then - value else v)"

definition JointController_init :: "nat \<Rightarrow> nat \<Rightarrow> nat \<Rightarrow> JointController \<Rightarrow> JointController" where
  "JointController_init params status control c =
     c\<lparr>ctl_params := Some params, ctl_status := Some status, ctl_control := Some control\<rparr>"

text \<open>The \<open>JointPID\<close> case of \<open>JointController_handle\<close>.\<close>

definition JointController_pid ::
  "JointParams \<Rightarrow> s16 \<Rightarrow> JointInfo \<times> JointController \<Rightarrow> JointInfo \<times> JointController" where
  "JointController_pid params speed = (\<lambda>(status, j).
     let status = status\<lparr>ji_desired_speed := clamp speed (jp_max_speed params)\<rparr>;
         j = j\<lparr>ctl_error := clamp (ji_desired_speed status - ji_encoder_speed status) (jp_slope params)\<rparr>;
         j = j\<lparr>ctl_ramp_reference := ji_encoder_speed status + ctl_error j\<rparr>;
         j = j\<lparr>ctl_error_integral := ctl_error_integral j + ctl_error j\<rparr>;
         j = j\<lparr>ctl_error_integral := clamp (ctl_error_integral j) (jp_max_i params)\<rparr>;
         d_error = ctl_error j - ctl_previous_error j;
         pid = jp_kp params * ctl_error j + jp_ki params * ctl_error_integral j + jp_kd params * d_error;
         j = j\<lparr>ctl_output := ctl_ramp_reference j + word_of_int (c_div (sint pid) 32)\<rparr>;
         j = j\<lparr>ctl_output := clamp (ctl_output j) (jp_max_pwm params)\<rparr>;
         j = (if sint (ctl_output j) < sint (jp_min_pwm params)
                \<and> sint (- jp_min_pwm params) < sint (ctl_output j)
              then j\<lparr>ctl_output := 0\<rparr> else j)
     in (status, j\<lparr>ctl_previous_error := ctl_error j\<rparr>))"

text \<open>The update of the status that precedes the switch.\<close>

definition JointController_sense ::
  "u16 \<Rightarrow> JointControl \<Rightarrow> JointInfo \<Rightarrow> JointController \<Rightarrow> JointInfo" where
  "JointController_sense enc control status j =
     status\<lparr>ji_encoder_speed := enc - ji_encoder_position status, ji_encoder_position := enc,
            ji_mode := jc_mode control, ji_pwm := ctl_output j\<rparr>"

definition JointController_handle ::
  "nat \<Rightarrow> u8 \<Rightarrow> 'a firmware_scheme \<Rightarrow> 'a firmware_scheme result" where
  "JointController_handle k joint_num f =
     (let j = joint_controllers f ! k in
      case (ctl_status j, ctl_control j) of
        (Some si, Some ci) \<Rightarrow>
          let control = jct_control (joint_control f ! ci);
              enc = Encoder_getValue joint_num f;
              status = JointController_sense enc control (jst_info (joint_status f ! si)) j;
              put = (\<lambda>(st, c). Inr (f\<lparr>
                joint_status := (joint_status f)[si := (joint_status f ! si)\<lparr>jst_info := st\<rparr>],
                joint_controllers := (joint_controllers f)[k := c]\<rparr>))
          in if jc_mode control = JointDisabled
             then put (status, j\<lparr>ctl_output := 0, ctl_error_integral := 0\<rparr>)
             else if jc_mode control = JointPWM
             then put (status, j\<lparr>ctl_output := jc_speed control\<rparr>)
             else if jc_mode control = JointPID
             then (case ctl_params j of
                     None \<Rightarrow> Inl NullDeref
                   | Some pi \<Rightarrow> put (JointController_pid (jpp_param (joint_params f ! pi))
                                      (jc_speed control) (status, j)))
             else put (status, j)
      | _ \<Rightarrow> Inl NullDeref)"

section \<open>All joints\<close>

text \<open>One round of the loop of \<open>Orazio_jointsInit\<close>: status and state.\<close>

definition joint_init_one :: "nat \<Rightarrow> 'a firmware_scheme \<Rightarrow> PacketStatus \<times> 'a firmware_scheme" where
  "joint_init_one i f0 =
     (let f = f0\<lparr>joint_controllers :=
                  (joint_controllers f0)[i := JointController_init i i i zero_controller]\<rparr>;
          p = joint_params f ! i; params = jpp_param p in
      case HBridge_init (jp_h_bridge_type params) (bridges f ! i) (jp_h_bridge_pins params) f of
        (r, b, hpins, f1) \<Rightarrow>
          (r, f1\<lparr>bridges := (bridges f1)[i := b],
                joint_params := (joint_params f1)[i := p\<lparr>jpp_param := params\<lparr>jp_h_bridge_pins := hpins\<rparr>\<rparr>]\<rparr>))"

fun joints_init_from :: "nat list \<Rightarrow> 'a firmware_scheme \<Rightarrow> PacketStatus \<times> 'a firmware_scheme" where
  "joints_init_from [] f = (Success, f)"
| "joints_init_from (i # is) f =
     (case joint_init_one i f of (r, f1) \<Rightarrow>
        if is_error r then (r, f1) else joints_init_from is f1)"

definition Orazio_jointsInit :: "'a firmware_scheme \<Rightarrow> PacketStatus \<times> 'a firmware_scheme" where
  "Orazio_jointsInit f = joints_init_from [0..<NUM_JOINTS] f"

definition joint_apply :: "nat \<Rightarrow> 'a firmware_scheme \<Rightarrow> 'a firmware_scheme" where
  "joint_apply i f = snd (HBridge_setSpeed (bridges f ! i) (ctl_output (joint_controllers f ! i)) f)"

definition Orazio_jointsHandle :: "'a firmware_scheme \<Rightarrow> 'a firmware_scheme result" where
  "Orazio_jointsHandle f =
     bindR (foldR (\<lambda>i. JointController_handle i (word_of_nat i)) [0..<NUM_JOINTS] (Encoder_sample f))
       (\<lambda>f1. Inr (fold joint_apply [0..<NUM_JOINTS] f1))"

definition joint_disable_one :: "nat \<Rightarrow> 'a firmware_scheme \<Rightarrow> 'a firmware_scheme result" where
  "joint_disable_one i f =
     (case ctl_control (joint_controllers f ! i) of
        None \<Rightarrow> Inl NullDeref
      | Some ci \<Rightarrow>
          let p = joint_control f ! ci in
          Inr (f\<lparr>joint_control := (joint_control f)[ci :=
                    p\<lparr>jct_control := (jct_control p)\<lparr>jc_mode := JointDisabled\<rparr>\<rparr>],
                 joint_controllers := (joint_controllers f)[i :=
                    (joint_controllers f ! i)\<lparr>ctl_output := 0\<rparr>]\<rparr>))"

definition Orazio_jointsDisable :: "'a firmware_scheme \<Rightarrow> 'a firmware_scheme result" where
  "Orazio_jointsDisable f = foldR joint_disable_one [0..<NUM_JOINTS] f"

section \<open>The controllers are connected\<close>

text \<open>After initialisation, controller \<open>i\<close> points to the data of joint \<open>i\<close>.\<close>

definition joints_ready :: "'a firmware_scheme \<Rightarrow> bool" where
  "joints_ready f \<longleftrightarrow> (\<forall>i < NUM_JOINTS. ctl_params (joint_controllers f ! i) = Some i
     \<and> ctl_status (joint_controllers f ! i) = Some i \<and> ctl_control (joint_controllers f ! i) = Some i)"

lemma joints_list: "[0..<2] = [0, 1 :: nat]"
  by (simp add: upt_rec)

lemma joints_ready_iff:
  "joints_ready f \<longleftrightarrow> (\<forall>i \<in> {0, 1}. ctl_params (joint_controllers f ! i) = Some i
     \<and> ctl_status (joint_controllers f ! i) = Some i \<and> ctl_control (joint_controllers f ! i) = Some i)"
proof -
  have "(\<forall>i < 2. P i) = (\<forall>i \<in> {0, 1}. P i)" for P :: "nat \<Rightarrow> bool"
    by (auto simp: less_2_cases_iff)
  then show ?thesis unfolding joints_ready_def by (simp only: numeral_2_eq_2[symmetric])
qed

section \<open>Bounds of the controller\<close>

lemma clamp_bounds:
  assumes "0 \<le> sint m"
  shows "\<bar>sint (clamp v m)\<bar> \<le> sint m" and "clamp v m = (if \<bar>sint v\<bar> \<le> sint m then v else if 0 < sint v then m else - m)"
proof -
  have n: "sint (- m) = - sint m"
  proof -
    have "- m = word_of_int (- sint m)" by simp
    then show ?thesis using sint_of_int_s16[of "- sint m"] assms sint_s16_bounds[of m] by simp
  qed
  show "\<bar>sint (clamp v m)\<bar> \<le> sint m" using assms by (auto simp: clamp_def n)
  show "clamp v m = (if \<bar>sint v\<bar> \<le> sint m then v else if 0 < sint v then m else - m)"
    using assms by (auto simp: clamp_def n)
qed

lemma JointController_pid_fields:
  assumes "JointController_pid params speed (status, j) = (status', j')"
  shows "status' = status\<lparr>ji_desired_speed := clamp speed (jp_max_speed params)\<rparr>"
    and "ctl_error j' = clamp (ji_desired_speed status' - ji_encoder_speed status) (jp_slope params)"
    and "ctl_error_integral j' = clamp (ctl_error_integral j + ctl_error j') (jp_max_i params)"
    and "ctl_previous_error j' = ctl_error j'"
    and "ctl_ramp_reference j' = ji_encoder_speed status + ctl_error j'"
    and "ctl_params j' = ctl_params j \<and> ctl_status j' = ctl_status j \<and> ctl_control j' = ctl_control j"
    and "ctl_output j' = 0 \<or> (\<exists>u. ctl_output j' = clamp u (jp_max_pwm params)
      \<and> \<not> (sint (ctl_output j') < sint (jp_min_pwm params) \<and> sint (- jp_min_pwm params) < sint (ctl_output j')))"
  using assms by (auto simp: JointController_pid_def Let_def split: if_splits)

end
