(* ===== verification/Drive.thy ===== *)
theory Drive
  imports Joints
begin

text \<open>
  \<open>orazio_drive_internal.c\<close> and \<open>orazio_drive.c\<close>: odometry from the encoder ticks, velocity
  profile, and the wheel speeds for the joints. All floating point is single precision (on the
  target \<open>double\<close> is \<open>float\<close>); \<open>sin\<close> and \<open>cos\<close> are those of the target's library.
\<close>

section \<open>Constants\<close>

definition half :: f32 where "half = f32_ratio 1 2"

definition pi_f32 :: f32 where "pi_f32 = 0x40490FDB"

definition cos_coeffs :: "f32 list" where
  "cos_coeffs = [0, half, 0, f32_div (f32_of_int (- 1)) (f32_of_int 24), 0,
     f32_div (f32_of_int 1) (f32_of_int 720)]"

definition sin_coeffs :: "f32 list" where
  "sin_coeffs = [f32_of_int 1, 0, f32_div (f32_of_int (- 1)) (f32_of_int 6), 0,
     f32_div (f32_of_int 1) (f32_of_int 120), 0]"

section \<open>Helpers\<close>

text \<open>\<open>_computeThetaTerms\<close>: the pair of sums over the six terms of the expansions.\<close>

fun theta_terms_from :: "nat list \<Rightarrow> f32 \<Rightarrow> f32 \<times> f32 \<times> f32 \<Rightarrow> f32 \<times> f32 \<times> f32" where
  "theta_terms_from [] theta acc = acc"
| "theta_terms_from (i # is) theta (s, c, theta_acc) =
     theta_terms_from is theta
       (if odd i then (s, f32_add c (f32_mul theta_acc (cos_coeffs ! i)), f32_mul theta_acc theta)
        else (f32_add s (f32_mul theta_acc (sin_coeffs ! i)), c, f32_mul theta_acc theta))"

definition computeThetaTerms :: "f32 \<Rightarrow> f32 \<times> f32" where
  "computeThetaTerms theta =
     (case theta_terms_from [0..<6] theta (0, 0, f32_of_int 1) of (s, c, _) \<Rightarrow> (s, c))"

definition f32_clamp :: "f32 \<Rightarrow> f32 \<Rightarrow> f32" where
  "f32_clamp v threshold =
     (if f32_lt threshold v then threshold
      else if f32_lt v (f32_neg threshold) then f32_neg threshold else v)"

section \<open>The controller\<close>

text \<open>Reading an encoder position through a pointer that may still be null.\<close>

definition encoder_at :: "'a firmware_scheme \<Rightarrow> nat option \<Rightarrow> u16" where
  "encoder_at f p = (case p of None \<Rightarrow> null_encoder f
     | Some i \<Rightarrow> ji_encoder_position (jst_info (joint_status f ! i)))"

definition DifferentialDriveController_reset ::
  "f32 \<Rightarrow> f32 \<Rightarrow> f32 \<Rightarrow> 'a firmware_scheme \<Rightarrow> 'a firmware_scheme" where
  "DifferentialDriveController_reset x y theta f =
     (let ctr = drive_controller f in
      f\<lparr>drive_status := (drive_status f)\<lparr>ds_odom_x := x, ds_odom_y := y, ds_odom_theta := theta,
          ds_translational_velocity_measured := 0, ds_rotational_velocity_measured := 0,
          ds_translational_velocity_adjusted := 0, ds_rotational_velocity_adjusted := 0,
          ds_translational_velocity_desired := 0, ds_rotational_velocity_desired := 0\<rparr>,
        drive_controller := ctr\<lparr>
          dd_encoder_left_previous := encoder_at f (dd_status_left ctr),
          dd_encoder_right_previous := encoder_at f (dd_status_right ctr)\<rparr>\<rparr>)"

text \<open>
  \<open>DifferentialDriveController_init\<close> gets the joint controllers by their indices; an index out
  of range is a read past the array.
\<close>

definition DifferentialDriveController_init ::
  "nat \<Rightarrow> nat \<Rightarrow> f32 \<Rightarrow> f32 \<Rightarrow> 'a firmware_scheme \<Rightarrow> 'a firmware_scheme result" where
  "DifferentialDriveController_init left right dt joints_dt f =
     (if NUM_JOINTS \<le> left \<or> NUM_JOINTS \<le> right then Inl OutOfBounds
      else
        let cl = joint_controllers f ! left; cr = joint_controllers f ! right;
            params = drive_params f; one = f32_of_int 1;
            ctr = (drive_controller f)\<lparr>dd_set := True,
              dd_status_left := ctl_status cl, dd_control_left := ctl_control cl,
              dd_status_right := ctl_status cr, dd_control_right := ctl_control cr,
              dd_dt := dt, dd_idt := f32_div one dt, dd_joints_dt := joints_dt,
              dd_ikr := dp_ikr params, dd_ikl := dp_ikl params,
              dd_kr := f32_div one (dp_ikr params), dd_kl := f32_div one (dp_ikl params),
              dd_baseline := dp_baseline params, dd_ibaseline := f32_div one (dp_baseline params),
              dd_max_dtv := f32_mul (dp_max_translational_acceleration params) dt,
              dd_max_drv := f32_mul (dp_max_rotational_acceleration params) dt\<rparr>
        in Inr (DifferentialDriveController_reset 0 0 0 (f\<lparr>drive_controller := ctr\<rparr>)))"

text \<open>
  The odometry part of \<open>DifferentialDriveController_update\<close>: from the tick counts the new
  status and the two measured velocities.
\<close>

definition drive_odometry ::
  "s16 \<Rightarrow> s16 \<Rightarrow> 'a firmware_scheme \<Rightarrow> DifferentialDriveStatusPacket \<times> f32 \<times> f32" where
  "drive_odometry left_ticks right_ticks f =
     (let ctr = drive_controller f; status = drive_status f in
      if left_ticks = 0 \<and> right_ticks = 0 then (status, 0, 0)
      else
        let delta_l = f32_mul (dd_kl ctr) (f32_of_int (sint left_ticks));
            delta_r = f32_mul (dd_kr ctr) (f32_of_int (sint right_ticks));
            delta_plus = f32_add delta_r delta_l;
            delta_minus = f32_sub delta_r delta_l;
            dth = f32_mul delta_minus (dd_ibaseline ctr);
            (sin_terms, cos_terms) = computeThetaTerms dth;
            dx = f32_mul (f32_mul half delta_plus) sin_terms;
            dy = f32_mul (f32_mul half delta_plus) cos_terms;
            s = sin_fn f (ds_odom_theta status);
            c = cos_fn f (ds_odom_theta status);
            status = status\<lparr>ds_odom_x := f32_add (ds_odom_x status) (f32_sub (f32_mul c dx) (f32_mul s dy))\<rparr>;
            status = status\<lparr>ds_odom_y := f32_add (ds_odom_y status) (f32_add (f32_mul s dx) (f32_mul c dy))\<rparr>;
            theta = f32_add (ds_odom_theta status) dth;
            two_pi = f32_mul (f32_of_int 2) pi_f32;
            theta = (if f32_lt pi_f32 theta then f32_sub theta two_pi
                     else if f32_lt theta (f32_neg pi_f32) then f32_add theta two_pi else theta)
        in (status\<lparr>ds_odom_theta := theta\<rparr>,
            f32_mul (f32_mul half delta_plus) (dd_idt ctr), f32_mul dth (dd_idt ctr)))"

text \<open>One velocity of the profile: step limited by \<open>max_step\<close>, result by \<open>max_velocity\<close>.\<close>

definition velocity_profile :: "f32 \<Rightarrow> f32 \<Rightarrow> f32 \<Rightarrow> f32 \<Rightarrow> f32" where
  "velocity_profile desired measured max_step max_velocity =
     f32_clamp (f32_add measured (f32_clamp (f32_sub desired measured) max_step)) max_velocity"

definition DifferentialDriveController_update :: "'a firmware_scheme \<Rightarrow> 'a firmware_scheme result" where
  "DifferentialDriveController_update f0 =
     (let ctr0 = drive_controller f0 in
      if \<not> dd_set ctr0 then Inl NullDeref
      else
        let encoder_right = encoder_at f0 (dd_status_right ctr0);
            encoder_left = encoder_at f0 (dd_status_left ctr0);
            left_ticks = encoder_left - dd_encoder_left_previous ctr0;
            right_ticks = encoder_right - dd_encoder_right_previous ctr0;
            ctr = ctr0\<lparr>dd_encoder_right_previous := encoder_right, dd_encoder_left_previous := encoder_left\<rparr>;
            f = f0\<lparr>drive_controller := ctr\<rparr>;
            (status, tvm, rvm) = drive_odometry left_ticks right_ticks f;
            des_tv = dc_translational_velocity (drive_control f);
            des_rv = dc_rotational_velocity (drive_control f);
            status = status\<lparr>ds_translational_velocity_measured := tvm,
                            ds_rotational_velocity_measured := rvm,
                            ds_translational_velocity_desired := des_tv,
                            ds_rotational_velocity_desired := des_rv\<rparr>;
            max_dtv = (if f32_is_zero des_tv then dp_max_translational_brake (drive_params f)
                       else dd_max_dtv ctr)
        in Inr (f\<lparr>drive_status := status\<lparr>
             ds_translational_velocity_adjusted :=
               velocity_profile des_tv tvm max_dtv (dp_max_translational_velocity (drive_params f)),
             ds_rotational_velocity_adjusted :=
               velocity_profile des_rv rvm (dd_max_drv ctr) (dp_max_rotational_velocity (drive_params f))\<rparr>\<rparr>))"

text \<open>The wheel speeds are floats stored into \<open>int16_t\<close> fields.\<close>

definition f32_to_s16 :: "'a firmware_scheme \<Rightarrow> f32 \<Rightarrow> s16" where
  "f32_to_s16 f x = word_of_int (f32_to_int f (- 32768) 32767 x)"

definition set_joint_speed :: "nat \<Rightarrow> s16 \<Rightarrow> 'a firmware_scheme \<Rightarrow> 'a firmware_scheme" where
  "set_joint_speed i v f = f\<lparr>joint_control := (joint_control f)[i :=
     (joint_control f ! i)\<lparr>jct_control := (jct_control (joint_control f ! i))\<lparr>jc_speed := v\<rparr>\<rparr>]\<rparr>"

definition set_joint_mode :: "nat \<Rightarrow> u8 \<Rightarrow> 'a firmware_scheme \<Rightarrow> 'a firmware_scheme" where
  "set_joint_mode i m f = f\<lparr>joint_control := (joint_control f)[i :=
     (joint_control f ! i)\<lparr>jct_control := (jct_control (joint_control f ! i))\<lparr>jc_mode := m\<rparr>\<rparr>]\<rparr>"

definition DifferentialDriveController_control :: "'a firmware_scheme \<Rightarrow> 'a firmware_scheme result" where
  "DifferentialDriveController_control f =
     (let ctr = drive_controller f in
      if \<not> dd_set ctr then Inl NullDeref
      else
        let dt = dd_joints_dt ctr;
            tv = ds_translational_velocity_adjusted (drive_status f);
            rv = ds_rotational_velocity_adjusted (drive_status f);
            d2p = f32_mul tv dt;
            d2m = f32_mul (f32_mul (f32_mul half (dp_baseline (drive_params f))) rv) dt;
            jlv = f32_mul (dd_ikl ctr) (f32_sub d2p d2m);
            jrv = f32_mul (dd_ikr ctr) (f32_add d2p d2m)
        in case (dd_control_left ctr, dd_control_right ctr) of
             (Some l, Some r) \<Rightarrow>
               Inr (set_joint_mode r JointPID (set_joint_mode l JointPID
                 (set_joint_speed r (f32_to_s16 f jrv) (set_joint_speed l (f32_to_s16 f jlv) f))))
           | _ \<Rightarrow> Inl NullDeref)"

section \<open>The subsystem\<close>

definition Orazio_driveInit :: "'a firmware_scheme \<Rightarrow> (PacketStatus \<times> 'a firmware_scheme) result" where
  "Orazio_driveInit f =
     (let left_idx = unat (dp_left_joint_index (drive_params f));
          right_idx = unat (dp_right_joint_index (drive_params f));
          milli = f32_ratio 1 1000;
          joints_dt = f32_mul milli (f32_of_int (sint (sp_timer_period_ms (system_params f))));
          dt = f32_mul joints_dt (f32_of_int (uint (sp_comm_cycles (system_params f))))
      in bindR (DifferentialDriveController_init left_idx right_idx dt joints_dt f)
           (\<lambda>f1. Inr (Success, f1\<lparr>last_drive_control_seq := h_seq (dc_header (drive_control f1))\<rparr>)))"

definition Orazio_driveUpdate :: "'a firmware_scheme \<Rightarrow> 'a firmware_scheme result" where
  "Orazio_driveUpdate f = DifferentialDriveController_update f"

definition Orazio_driveControl :: "'a firmware_scheme \<Rightarrow> 'a firmware_scheme result" where
  "Orazio_driveControl f0 =
     (let f = (if last_drive_control_seq f0 \<noteq> h_seq (dc_header (drive_control f0))
               then f0\<lparr>drive_status := (drive_status f0)\<lparr>ds_enabled := 1\<rparr>,
                       last_drive_control_seq := h_seq (dc_header (drive_control f0))\<rparr>
               else f0)
      in if ds_enabled (drive_status f) \<noteq> 0 then DifferentialDriveController_control f else Inr f)"

end
