(* ===== verification/Param.thy ===== *)
theory Param
  imports Drive
begin

text \<open>
  \<open>orazio_sonar.c\<close> (the schedule of the sonars), \<open>orazio_watchdog.c\<close> and \<open>orazio_param.c\<close> (the
  parameters in the EEPROM).
\<close>

section \<open>Sonar schedule\<close>

definition Orazio_sonarReady :: "'a firmware_scheme \<Rightarrow> u8" where
  "Orazio_sonarReady f = sonar_ready f"

definition Orazio_sonarInit :: "'a firmware_scheme \<Rightarrow> PacketStatus \<times> 'a firmware_scheme" where
  "Orazio_sonarInit f = (Success, f\<lparr>
     sonar_max_cycle := fold (\<lambda>s m. if m < snp_pattern (sonar_params f) ! s
                                   then snp_pattern (sonar_params f) ! s else m) [0..<SONARS_NUM] 0,
     sonar_current_cycle := 0, sonar_ready := 0\<rparr>)"

definition sonar_mask :: "u8 list \<Rightarrow> u8 \<Rightarrow> u8" where
  "sonar_mask pattern cycle = fold (\<lambda>s mask.
     if pattern ! s = 0 then mask
     else if pattern ! s = cycle then mask OR bit8 s else mask) [0..<SONARS_NUM] 0"

definition Orazio_sonarHandle :: "'a firmware_scheme \<Rightarrow> 'a firmware_scheme" where
  "Orazio_sonarHandle f0 =
     (let f = f0\<lparr>sonar_ready := 0, sonar_current_cycle := sonar_current_cycle f0 + 1\<rparr> in
      if sonar_max_cycle f < sonar_current_cycle f then f\<lparr>sonar_current_cycle := 0\<rparr>
      else
        let mask = sonar_mask (snp_pattern (sonar_params f)) (sonar_current_cycle f) in
        if mask = 0 then f
        else
          let f = f\<lparr>sonar_status := (sonar_status f)\<lparr>sns_ranges := Sonar_get f\<rparr>, sonar_ready := 1\<rparr>
          in snd (Sonar_pollPattern mask f))"

section \<open>Watchdog\<close>

text \<open>\<open>watchdog_count\<close> is an \<open>int16_t\<close> that receives the \<open>uint16_t\<close> \<open>watchdog_cycles\<close>.\<close>

definition Orazio_watchdogReset :: "'a firmware_scheme \<Rightarrow> 'a firmware_scheme" where
  "Orazio_watchdogReset f = f\<lparr>system_status := (system_status f)\<lparr>
     ss_watchdog_count := sp_watchdog_cycles (system_params f)\<rparr>\<rparr>"

definition Orazio_watchdogHandle :: "'a firmware_scheme \<Rightarrow> 'a firmware_scheme result" where
  "Orazio_watchdogHandle f0 =
     (if sp_watchdog_cycles (system_params f0) = 0
      then Inr (f0\<lparr>system_status := (system_status f0)\<lparr>
             ss_watchdog_count := sp_watchdog_cycles (system_params f0)\<rparr>\<rparr>)
      else
        let f = (if 0 < sint (ss_watchdog_count (system_status f0))
                 then f0\<lparr>system_status := (system_status f0)\<lparr>
                        ss_watchdog_count := ss_watchdog_count (system_status f0) - 1\<rparr>\<rparr>
                 else f0)
        in if ss_watchdog_count (system_status f) = 0
           then Orazio_jointsDisable (f\<lparr>drive_status := (drive_status f)\<lparr>ds_enabled := 0\<rparr>\<rparr>)
           else Inr f)"

section \<open>Parameters\<close>

definition PROTOCOL_VERSION_OFFSET :: nat where "PROTOCOL_VERSION_OFFSET = 32"
definition FIRMWARE_VERSION_OFFSET :: nat where "FIRMWARE_VERSION_OFFSET = PROTOCOL_VERSION_OFFSET + 4"
definition SYSTEM_PARAM_OFFSET :: nat where "SYSTEM_PARAM_OFFSET = FIRMWARE_VERSION_OFFSET + 4"
definition DRIVE_PARAM_OFFSET :: nat where
  "DRIVE_PARAM_OFFSET = SYSTEM_PARAM_OFFSET + sizeof_SystemParamPacket"
definition SONAR_PARAM_OFFSET :: nat where
  "SONAR_PARAM_OFFSET = DRIVE_PARAM_OFFSET + sizeof_DifferentialDriveParamPacket"
definition JOINT_PARAM_OFFSET :: nat where
  "JOINT_PARAM_OFFSET = SONAR_PARAM_OFFSET + sizeof_SonarParamPacket"

lemmas offsets = PROTOCOL_VERSION_OFFSET_def FIRMWARE_VERSION_OFFSET_def SYSTEM_PARAM_OFFSET_def
  DRIVE_PARAM_OFFSET_def SONAR_PARAM_OFFSET_def JOINT_PARAM_OFFSET_def

text \<open>A read of \<open>sizeof\<close> bytes at an offset; the destination is overwritten byte by byte.\<close>

definition ee_read :: "nat \<Rightarrow> nat \<Rightarrow> 'a avr_scheme \<Rightarrow> u8 list" where
  "ee_read off n d = EEPROM_read (word_of_nat off) (word_of_nat n) d"

definition ee_write :: "nat \<Rightarrow> u8 list \<Rightarrow> 'a avr_scheme \<Rightarrow> 'a avr_scheme" where
  "ee_write off bs d = EEPROM_write (word_of_nat off) bs d"

text \<open>The joint parameters are addressed by a signed index that is not checked.\<close>

definition joint_offset :: "s8 \<Rightarrow> nat" where
  "joint_offset index = unat (word_of_int (int JOINT_PARAM_OFFSET
     + sint index * int sizeof_JointParamPacket) :: u16)"

definition joint_index_ok :: "s8 \<Rightarrow> bool" where
  "joint_index_ok index \<longleftrightarrow> 0 \<le> sint index \<and> sint index < int NUM_JOINTS"

definition Orazio_paramSet :: "u8 \<Rightarrow> s8 \<Rightarrow> 'a firmware_scheme \<Rightarrow> (PacketStatus \<times> 'a firmware_scheme) result" where
  "Orazio_paramSet param_type index f =
     (if param_type = ParamSystem then Orazio_driveInit f
      else if param_type = ParamJointsSingle then Inr (Orazio_jointsInit f)
      else if param_type = ParamDrive then Orazio_driveInit f
      else if param_type = ParamSonar then Inr (Orazio_sonarInit f)
      else Inr (GenericError, f))"

text \<open>The first part of \<open>Orazio_paramLoad\<close>: fill the packet from the EEPROM.\<close>

definition param_fetch :: "u8 \<Rightarrow> s8 \<Rightarrow> 'a firmware_scheme \<Rightarrow> 'a firmware_scheme result" where
  "param_fetch param_type index f =
     (if param_type = ParamSystem then
        Inr (f\<lparr>system_params := fst (get_SystemParamPacket
               (ee_read SYSTEM_PARAM_OFFSET sizeof_SystemParamPacket f))\<rparr>)
      else if param_type = ParamJointsSingle then
        (if \<not> joint_index_ok index then Inl OutOfBounds
         else Inr (f\<lparr>joint_params := (joint_params f)[nat (sint index) :=
                fst (get_JointParamPacket (ee_read (joint_offset index) sizeof_JointParamPacket f))]\<rparr>))
      else if param_type = ParamDrive then
        Inr (f\<lparr>drive_params := fst (get_DifferentialDriveParamPacket
               (ee_read DRIVE_PARAM_OFFSET sizeof_DifferentialDriveParamPacket f))\<rparr>)
      else
        Inr (f\<lparr>sonar_params := fst (get_SonarParamPacket
               (ee_read SONAR_PARAM_OFFSET sizeof_SonarParamPacket f))\<rparr>))"

definition known_param :: "u8 \<Rightarrow> bool" where
  "known_param t \<longleftrightarrow> t \<in> {ParamSystem, ParamJointsSingle, ParamDrive, ParamSonar}"

definition Orazio_paramLoad :: "u8 \<Rightarrow> s8 \<Rightarrow> 'a firmware_scheme \<Rightarrow> (PacketStatus \<times> 'a firmware_scheme) result" where
  "Orazio_paramLoad param_type index f =
     (if \<not> known_param param_type then Inr (GenericError, f)
      else bindR (param_fetch param_type index f) (\<lambda>f1.
             bindR (Orazio_paramSet param_type index f1) (\<lambda>(_, f2). Inr (Success, f2))))"

definition Orazio_paramSave :: "u8 \<Rightarrow> s8 \<Rightarrow> 'a firmware_scheme \<Rightarrow> (PacketStatus \<times> 'a firmware_scheme) result" where
  "Orazio_paramSave param_type index f =
     (if param_type = ParamSystem then
        Inr (Success, ee_write SYSTEM_PARAM_OFFSET (put_SystemParamPacket (system_params f)) f)
      else if param_type = ParamJointsSingle then
        (if \<not> joint_index_ok index then Inl OutOfBounds
         else Inr (Success, ee_write (joint_offset index)
                (put_JointParamPacket (joint_params f ! nat (sint index))) f))
      else if param_type = ParamDrive then
        Inr (Success, ee_write DRIVE_PARAM_OFFSET (put_DifferentialDriveParamPacket (drive_params f)) f)
      else if param_type = ParamSonar then
        Inr (Success, ee_write SONAR_PARAM_OFFSET (put_SonarParamPacket (sonar_params f)) f)
      else Inr (GenericError, f))"

text \<open>Calls whose status is ignored.\<close>

definition ignore_status :: "(PacketStatus \<times> 'f) result \<Rightarrow> 'f result" where
  "ignore_status m = bindR m (\<lambda>(_, f). Inr f)"

definition param_save_defaults :: "'a firmware_scheme \<Rightarrow> 'a firmware_scheme result" where
  "param_save_defaults f0 =
     (let f = ee_write PROTOCOL_VERSION_OFFSET (put32 (sp_protocol_version (system_params f0))) f0;
          f = ee_write FIRMWARE_VERSION_OFFSET (put32 (sp_firmware_version (system_params f))) f in
      bindR (ignore_status (Orazio_paramSave ParamSystem (- 1) f)) (\<lambda>f.
      bindR (foldR (\<lambda>i f. ignore_status (Orazio_paramSave ParamJointsSingle (word_of_nat i) f)) [0..<NUM_JOINTS] f) (\<lambda>f.
      bindR (ignore_status (Orazio_paramSave ParamDrive (- 1) f)) (\<lambda>f.
      ignore_status (Orazio_paramSave ParamSonar (- 1) f)))))"

definition param_load_all :: "'a firmware_scheme \<Rightarrow> 'a firmware_scheme result" where
  "param_load_all f =
     bindR (ignore_status (Orazio_paramLoad ParamSystem (- 1) f)) (\<lambda>f.
     bindR (foldR (\<lambda>i f. ignore_status (Orazio_paramLoad ParamJointsSingle (word_of_nat i) f)) [0..<NUM_JOINTS] f) (\<lambda>f.
     bindR (ignore_status (Orazio_paramLoad ParamDrive (- 1) f)) (\<lambda>f.
     ignore_status (Orazio_paramLoad ParamSonar (- 1) f))))"

definition Orazio_paramInit :: "'a firmware_scheme \<Rightarrow> 'a firmware_scheme result" where
  "Orazio_paramInit f =
     (let cpv = fst (get32 (ee_read PROTOCOL_VERSION_OFFSET 4 f));
          cfv = fst (get32 (ee_read FIRMWARE_VERSION_OFFSET 4 f)) in
      bindR (if cpv \<noteq> sp_protocol_version (system_params f) then param_save_defaults f else Inr f) (\<lambda>f.
      bindR (param_load_all f) (\<lambda>f.
        Inr (f\<lparr>system_params := (system_params f)\<lparr>sp_protocol_version := cpv, sp_firmware_version := cfv\<rparr>\<rparr>))))"

end
