(* ===== verification/Objects.thy ===== *)
theory Objects
  imports Param
begin

text \<open>
  The global packets of the firmware as the byte objects that the communication code sees:
  \<open>orazio_comm.c\<close> copies received packets over them with \<open>memcpy\<close> and sends them byte by byte,
  through pointers into them. A pointer is an object and a byte offset.
\<close>

section \<open>Byte objects\<close>

text \<open>
  The interface: a part of the state that can be read and overwritten as a fixed number of
  bytes. Copies into the middle of an object are derived from it once.
\<close>

locale byte_object =
  fixes rd :: "'s \<Rightarrow> u8 list" and wr :: "u8 list \<Rightarrow> 's \<Rightarrow> 's" and ok :: "'s \<Rightarrow> bool"
  assumes rd_wr: "ok s \<Longrightarrow> length bs = length (rd s) \<Longrightarrow> rd (wr bs s) = bs"
    and wr_rd: "ok s \<Longrightarrow> wr (rd s) s = s"
    and wr_wr: "ok s \<Longrightarrow> length bs = length (rd s) \<Longrightarrow> length cs = length (rd s) \<Longrightarrow> wr cs (wr bs s) = wr cs s"
    and wr_ok: "ok s \<Longrightarrow> length bs = length (rd s) \<Longrightarrow> ok (wr bs s)"
begin

definition copy_in :: "nat \<Rightarrow> u8 list \<Rightarrow> 's \<Rightarrow> 's" where
  "copy_in off bs s = wr (take off (rd s) @ bs @ drop (off + length bs) (rd s)) s"

lemma rd_copy_in:
  assumes "ok s" and "off + length bs \<le> length (rd s)"
  shows "rd (copy_in off bs s) = take off (rd s) @ bs @ drop (off + length bs) (rd s)"
  using assms by (simp add: copy_in_def rd_wr)

lemma copied_bytes:
  assumes "ok s" and "off + length bs \<le> length (rd s)"
  shows "take (length bs) (drop off (rd (copy_in off bs s))) = bs"
    and "j + n \<le> off \<or> off + length bs \<le> j \<Longrightarrow>
      take n (drop j (rd (copy_in off bs s))) = take n (drop j (rd s))"
proof -
  have off: "off \<le> length (rd s)" using assms(2) by simp
  show "take (length bs) (drop off (rd (copy_in off bs s))) = bs"
    using off by (simp add: rd_copy_in[OF assms])
  assume "j + n \<le> off \<or> off + length bs \<le> j"
  then show "take n (drop j (rd (copy_in off bs s))) = take n (drop j (rd s))"
  proof
    assume j: "j + n \<le> off"
    then have "take n (drop j (take off (rd s) @ xs)) = take n (drop j (rd s))" for xs
      using off by (simp add: drop_take min_absorb1 min_absorb2)
    from this[of "bs @ drop (off + length bs) (rd s)"] show ?thesis by (simp only: rd_copy_in[OF assms])
  next
    assume j: "off + length bs \<le> j"
    then have "drop j (take off (rd s) @ bs @ drop (off + length bs) (rd s)) = drop j (rd s)"
      using off by simp
    then show ?thesis by (simp add: rd_copy_in[OF assms])
  qed
qed

lemma copy_in_same:
  assumes "ok s" and "take (length bs) (drop off (rd s)) = bs"
  shows "copy_in off bs s = s"
proof -
  have "bs @ drop (off + length bs) (rd s) = drop off (rd s)"
    using append_take_drop_id[of "length bs" "drop off (rd s)"] assms(2) by (simp add: add.commute)
  then have "take off (rd s) @ bs @ drop (off + length bs) (rd s) = rd s" by simp
  then show ?thesis using wr_rd[OF assms(1)] by (simp add: copy_in_def)
qed

lemma copy_in_ok:
  assumes "ok s" and "off + length bs \<le> length (rd s)"
  shows "ok (copy_in off bs s)"
  unfolding copy_in_def by (rule wr_ok[OF assms(1)]) (use assms(2) in simp)

end

section \<open>The globals\<close>

datatype Obj = OSystemParams | OSystemStatus | ODriveParams | ODriveStatus | ODriveControl
  | OJointParams | OJointStatus | OJointControl | OSonarParams | OSonarStatus
  | OStringMessage | OResponse | OEndEpoch

fun get_array :: "(u8 list \<Rightarrow> 'a \<times> u8 list) \<Rightarrow> nat \<Rightarrow> u8 list \<Rightarrow> 'a list" where
  "get_array get 0 bs = []"
| "get_array get (Suc n) bs = (case get bs of (x, bs1) \<Rightarrow> x # get_array get n bs1)"

fun obj_bytes :: "Obj \<Rightarrow> 'a firmware_scheme \<Rightarrow> u8 list" where
  "obj_bytes OSystemParams f = put_SystemParamPacket (system_params f)"
| "obj_bytes OSystemStatus f = put_SystemStatusPacket (system_status f)"
| "obj_bytes ODriveParams f = put_DifferentialDriveParamPacket (drive_params f)"
| "obj_bytes ODriveStatus f = put_DifferentialDriveStatusPacket (drive_status f)"
| "obj_bytes ODriveControl f = put_DifferentialDriveControlPacket (drive_control f)"
| "obj_bytes OJointParams f = concat (map put_JointParamPacket (joint_params f))"
| "obj_bytes OJointStatus f = concat (map put_JointStatusPacket (joint_status f))"
| "obj_bytes OJointControl f = concat (map put_JointControlPacket (joint_control f))"
| "obj_bytes OSonarParams f = put_SonarParamPacket (sonar_params f)"
| "obj_bytes OSonarStatus f = put_SonarStatusPacket (sonar_status f)"
| "obj_bytes OStringMessage f = put_StringMessagePacket (string_message f)"
| "obj_bytes OResponse f = put_ResponsePacket (response f)"
| "obj_bytes OEndEpoch f = put_PacketHeader (end_epoch f)"

fun obj_store :: "Obj \<Rightarrow> u8 list \<Rightarrow> 'a firmware_scheme \<Rightarrow> 'a firmware_scheme" where
  "obj_store OSystemParams bs f = f\<lparr>system_params := fst (get_SystemParamPacket bs)\<rparr>"
| "obj_store OSystemStatus bs f = f\<lparr>system_status := fst (get_SystemStatusPacket bs)\<rparr>"
| "obj_store ODriveParams bs f = f\<lparr>drive_params := fst (get_DifferentialDriveParamPacket bs)\<rparr>"
| "obj_store ODriveStatus bs f = f\<lparr>drive_status := fst (get_DifferentialDriveStatusPacket bs)\<rparr>"
| "obj_store ODriveControl bs f = f\<lparr>drive_control := fst (get_DifferentialDriveControlPacket bs)\<rparr>"
| "obj_store OJointParams bs f = f\<lparr>joint_params := get_array get_JointParamPacket NUM_JOINTS bs\<rparr>"
| "obj_store OJointStatus bs f = f\<lparr>joint_status := get_array get_JointStatusPacket NUM_JOINTS bs\<rparr>"
| "obj_store OJointControl bs f = f\<lparr>joint_control := get_array get_JointControlPacket NUM_JOINTS bs\<rparr>"
| "obj_store OSonarParams bs f = f\<lparr>sonar_params := fst (get_SonarParamPacket bs)\<rparr>"
| "obj_store OSonarStatus bs f = f\<lparr>sonar_status := fst (get_SonarStatusPacket bs)\<rparr>"
| "obj_store OStringMessage bs f = f\<lparr>string_message := fst (get_StringMessagePacket bs)\<rparr>"
| "obj_store OResponse bs f = f\<lparr>response := fst (get_ResponsePacket bs)\<rparr>"
| "obj_store OEndEpoch bs f = f\<lparr>end_epoch := fst (get_PacketHeader bs)\<rparr>"

text \<open>A copy of bytes to a pointer, and what is found from a pointer on.\<close>

type_synonym obj_ptr = "Obj \<times> int"

definition ptr_store :: "obj_ptr \<Rightarrow> u8 list \<Rightarrow> 'a firmware_scheme \<Rightarrow> 'a firmware_scheme result" where
  "ptr_store p bs f =
     (case p of (ob, off) \<Rightarrow>
        let old = obj_bytes ob f in
        if off < 0 \<or> length old < nat off + length bs then Inl OutOfBounds
        else Inr (obj_store ob (take (nat off) old @ bs @ drop (nat off + length bs) old) f))"

definition ptr_bytes :: "obj_ptr \<Rightarrow> 'a firmware_scheme \<Rightarrow> u8 list" where
  "ptr_bytes p f = (case p of (ob, off) \<Rightarrow> drop (nat off) (obj_bytes ob f))"

section \<open>The globals are byte objects\<close>

definition sizeof_Obj :: "Obj \<Rightarrow> nat" where
  "sizeof_Obj ob = (case ob of OSystemParams \<Rightarrow> sizeof_SystemParamPacket
     | OSystemStatus \<Rightarrow> sizeof_SystemStatusPacket
     | ODriveParams \<Rightarrow> sizeof_DifferentialDriveParamPacket
     | ODriveStatus \<Rightarrow> sizeof_DifferentialDriveStatusPacket
     | ODriveControl \<Rightarrow> sizeof_DifferentialDriveControlPacket
     | OJointParams \<Rightarrow> NUM_JOINTS * sizeof_JointParamPacket
     | OJointStatus \<Rightarrow> NUM_JOINTS * sizeof_JointStatusPacket
     | OJointControl \<Rightarrow> NUM_JOINTS * sizeof_JointControlPacket
     | OSonarParams \<Rightarrow> sizeof_SonarParamPacket | OSonarStatus \<Rightarrow> sizeof_SonarStatusPacket
     | OStringMessage \<Rightarrow> sizeof_StringMessagePacket | OResponse \<Rightarrow> sizeof_ResponsePacket
     | OEndEpoch \<Rightarrow> sizeof_PacketHeader)"

text \<open>The codec of a packed structure: what is written is read back, and any bytes can be read.\<close>

locale packed =
  fixes put :: "'r \<Rightarrow> u8 list" and get :: "u8 list \<Rightarrow> 'r \<times> u8 list" and n :: nat and wf :: "'r \<Rightarrow> bool"
  assumes get_put: "wf p \<Longrightarrow> get (put p @ bs) = (p, bs)"
    and put_get: "n \<le> length bs \<Longrightarrow> put (fst (get bs)) @ snd (get bs) = bs"
    and put_length: "wf p \<Longrightarrow> length (put p) = n"
    and get_length: "length (snd (get bs)) = length bs - n"
    and get_wf: "n \<le> length bs \<Longrightarrow> wf (fst (get bs))"
begin

lemma exact: "length bs = n \<Longrightarrow> put (fst (get bs)) = bs"
  using put_get[of bs] get_length[of bs] by simp

lemma exact_back: "wf p \<Longrightarrow> fst (get (put p)) = p"
  using get_put[of p "[]"] by simp

lemma array_put:
  "k * n \<le> length bs \<Longrightarrow> concat (map put (get_array get k bs)) = take (k * n) bs
    \<and> length (get_array get k bs) = k \<and> (\<forall>p \<in> set (get_array get k bs). wf p)"
proof (induction k arbitrary: bs)
  case 0
  then show ?case by simp
next
  case (Suc k)
  obtain x r where g: "get bs = (x, r)" by (cases "get bs")
  have n: "n \<le> length bs" using Suc.prems by simp
  have bs: "bs = put x @ r" and r: "length r = length bs - n" and x: "wf x"
    using put_get[OF n] get_length[of bs] get_wf[OF n] g by simp_all
  have lx: "length (put x) = n" by (rule put_length[OF x])
  have ih: "concat (map put (get_array get k r)) = take (k * n) r
      \<and> length (get_array get k r) = k \<and> (\<forall>p \<in> set (get_array get k r). wf p)"
    using Suc.prems r by (intro Suc.IH) simp
  have "take (Suc k * n) bs = put x @ take (k * n) r"
    unfolding bs using lx by simp
  then show ?case using ih x by (simp add: g)
qed

lemma array_get:
  "\<forall>p \<in> set ps. wf p \<Longrightarrow> get_array get (length ps) (concat (map put ps) @ bs) = ps
    \<and> length (concat (map put ps)) = length ps * n"
  by (induction ps) (simp_all add: get_put put_length)

end

abbreviation (input) any_record :: "'r \<Rightarrow> bool" where "any_record \<equiv> \<lambda>_. True"

interpretation system_param: packed put_SystemParamPacket get_SystemParamPacket sizeof_SystemParamPacket any_record
  by unfold_locales simp_all
interpretation system_status: packed put_SystemStatusPacket get_SystemStatusPacket sizeof_SystemStatusPacket any_record
  by unfold_locales simp_all
interpretation drive_param: packed put_DifferentialDriveParamPacket get_DifferentialDriveParamPacket
  sizeof_DifferentialDriveParamPacket any_record
  by unfold_locales simp_all
interpretation drive_status: packed put_DifferentialDriveStatusPacket get_DifferentialDriveStatusPacket
  sizeof_DifferentialDriveStatusPacket any_record
  by unfold_locales simp_all
interpretation drive_control: packed put_DifferentialDriveControlPacket get_DifferentialDriveControlPacket
  sizeof_DifferentialDriveControlPacket any_record
  by unfold_locales simp_all
interpretation joint_param: packed put_JointParamPacket get_JointParamPacket sizeof_JointParamPacket
  wf_JointParamPacket
  by unfold_locales simp_all
interpretation joint_status: packed put_JointStatusPacket get_JointStatusPacket sizeof_JointStatusPacket any_record
  by unfold_locales simp_all
interpretation joint_control: packed put_JointControlPacket get_JointControlPacket sizeof_JointControlPacket any_record
  by unfold_locales simp_all
interpretation sonar_param: packed put_SonarParamPacket get_SonarParamPacket sizeof_SonarParamPacket
  wf_SonarParamPacket
  by unfold_locales simp_all
interpretation sonar_status: packed put_SonarStatusPacket get_SonarStatusPacket sizeof_SonarStatusPacket
  wf_SonarStatusPacket
  by unfold_locales simp_all
interpretation string_message: packed put_StringMessagePacket get_StringMessagePacket
  sizeof_StringMessagePacket wf_StringMessagePacket
  by unfold_locales simp_all
interpretation response: packed put_ResponsePacket get_ResponsePacket sizeof_ResponsePacket any_record
  by unfold_locales simp_all
interpretation header: packed put_PacketHeader get_PacketHeader sizeof_PacketHeader any_record
  by unfold_locales simp_all

lemmas packed_exact =
  system_param.exact system_status.exact drive_param.exact drive_status.exact drive_control.exact
  sonar_param.exact sonar_status.exact string_message.exact response.exact header.exact

lemmas packed_exact_back =
  system_param.exact_back system_status.exact_back drive_param.exact_back drive_status.exact_back
  drive_control.exact_back sonar_param.exact_back sonar_status.exact_back string_message.exact_back
  response.exact_back header.exact_back

lemma obj_bytes_length: "wf_fw f \<Longrightarrow> length (obj_bytes ob f) = sizeof_Obj ob"
  using joint_param.array_get[of "joint_params f" "[]"] joint_status.array_get[of "joint_status f" "[]"]
    joint_control.array_get[of "joint_control f" "[]"]
  by (cases ob) (simp_all add: wf_fw_def sizeof_Obj_def)

lemma obj_store_bytes:
  assumes "length bs = sizeof_Obj ob"
  shows "obj_bytes ob (obj_store ob bs f) = bs"
  using assms joint_param.array_put[of 2 bs] joint_status.array_put[of 2 bs] joint_control.array_put[of 2 bs]
  by (cases ob) (simp_all add: sizeof_Obj_def packed_exact)

lemma obj_store_wf:
  assumes "wf_fw f" and "length bs = sizeof_Obj ob"
  shows "wf_fw (obj_store ob bs f)"
  using assms joint_param.array_put[of 2 bs] joint_status.array_put[of 2 bs] joint_control.array_put[of 2 bs]
  by (cases ob) (simp_all add: sizeof_Obj_def wf_fw_def)

lemma obj_bytes_store_id:
  assumes "wf_fw f"
  shows "obj_store ob (obj_bytes ob f) f = f"
proof -
  have "get_array get_JointParamPacket 2 (concat (map put_JointParamPacket (joint_params f))) = joint_params f"
    "get_array get_JointStatusPacket 2 (concat (map put_JointStatusPacket (joint_status f))) = joint_status f"
    "get_array get_JointControlPacket 2 (concat (map put_JointControlPacket (joint_control f))) = joint_control f"
    using assms joint_param.array_get[of "joint_params f" "[]"] joint_status.array_get[of "joint_status f" "[]"]
      joint_control.array_get[of "joint_control f" "[]"] by (simp_all add: wf_fw_def)
  then show ?thesis using assms by (cases ob) (simp_all add: wf_fw_def packed_exact_back)
qed

interpretation obj: byte_object "obj_bytes ob" "obj_store ob" "wf_fw :: 'a firmware_scheme \<Rightarrow> bool" for ob
proof unfold_locales
  fix f :: "'a firmware_scheme" and bs cs :: "u8 list"
  assume f: "wf_fw f"
  show "obj_store ob (obj_bytes ob f) f = f" by (rule obj_bytes_store_id[OF f])
  assume bs: "length bs = length (obj_bytes ob f)"
  then have n: "length bs = sizeof_Obj ob" using obj_bytes_length[OF f] by simp
  show "obj_bytes ob (obj_store ob bs f) = bs" by (rule obj_store_bytes[OF n])
  show "wf_fw (obj_store ob bs f)" by (rule obj_store_wf[OF f n])
  assume "length cs = length (obj_bytes ob f)"
  show "obj_store ob cs (obj_store ob bs f) = obj_store ob cs f" by (cases ob) simp_all
qed

lemma ptr_store_copy_in:
  "ptr_store (ob, int off) bs f = (if length (obj_bytes ob f) < off + length bs then Inl OutOfBounds
     else Inr (obj.copy_in ob off bs f))"
  by (simp add: ptr_store_def obj.copy_in_def Let_def)

lemma length_two: "length xs = 2 \<longleftrightarrow> (\<exists>a b. xs = [a, b])"
  by (auto simp: length_Suc_conv numeral_2_eq_2)

end
