(* ===== verification/Comm.thy ===== *)
theory Comm
  imports Objects Deferred
begin

text \<open>
  \<open>orazio_comm.c\<close>: what the firmware does with the packets it receives, what it sends in each
  communication cycle, and the flow of bytes between the packet handler and the serial line.
\<close>

section \<open>State\<close>

text \<open>The functions that \<open>deferred_action_fn\<close> and \<open>post_copy_fn\<close> point to.\<close>

datatype ActionFn = Fn_handlePacket | Fn_handleParamCtl

datatype PostCopyFn = Fn_driveInit | Fn_sonarInit | Fn_jointsInit

text \<open>\<open>packet_handler\<close> (the deferred handler and its base) and all the globals.\<close>

record orazio = "ActionFn deferred" +
  base_handler :: PacketHandler
  fw :: firmware

text \<open>The receive buffers: arrays of \<open>PACKETS_PER_TYPE_MAX\<close> packets, one after the other.\<close>

definition param_control_packet_buffer :: addr where "param_control_packet_buffer = 0x200"
definition system_param_packet_buffer :: addr where
  "system_param_packet_buffer = param_control_packet_buffer + PACKETS_PER_TYPE_MAX * sizeof_ParamControlPacket"
definition differential_drive_control_packet_buffer :: addr where
  "differential_drive_control_packet_buffer =
     system_param_packet_buffer + PACKETS_PER_TYPE_MAX * sizeof_SystemParamPacket"
definition differential_drive_param_packet_buffer :: addr where
  "differential_drive_param_packet_buffer =
     differential_drive_control_packet_buffer + PACKETS_PER_TYPE_MAX * sizeof_DifferentialDriveControlPacket"
definition joint_control_packet_buffer :: addr where
  "joint_control_packet_buffer =
     differential_drive_param_packet_buffer + PACKETS_PER_TYPE_MAX * sizeof_DifferentialDriveParamPacket"
definition joint_param_packet_buffer :: addr where
  "joint_param_packet_buffer =
     joint_control_packet_buffer + PACKETS_PER_TYPE_MAX * sizeof_JointControlPacket"
definition sonar_param_packet_buffer :: addr where
  "sonar_param_packet_buffer =
     joint_param_packet_buffer + PACKETS_PER_TYPE_MAX * sizeof_JointParamPacket"

lemmas buffer_defs = param_control_packet_buffer_def system_param_packet_buffer_def
  differential_drive_control_packet_buffer_def differential_drive_param_packet_buffer_def
  joint_control_packet_buffer_def joint_param_packet_buffer_def sonar_param_packet_buffer_def

section \<open>Sending\<close>

definition upd_fw :: "(firmware \<Rightarrow> firmware) \<Rightarrow> orazio \<Rightarrow> orazio" where
  "upd_fw g s = s\<lparr>fw := g (fw s)\<rparr>"

definition upd_status :: "(SystemStatusPacket \<Rightarrow> SystemStatusPacket) \<Rightarrow> orazio \<Rightarrow> orazio" where
  "upd_status g s = upd_fw (\<lambda>f. f\<lparr>system_status := g (system_status f)\<rparr>) s"

text \<open>
  \<open>Orazio_sendPacket\<close>: stores the sequence number in the packet, then sends as many bytes as
  the packet says it has.
\<close>

definition Orazio_sendPacket :: "obj_ptr \<Rightarrow> orazio \<Rightarrow> (PacketStatus \<times> orazio) result" where
  "Orazio_sendPacket p s =
     bindR (ptr_store (fst p, snd p + 2) (put16 (global_seq (fw s))) (fw s)) (\<lambda>f.
       let pkt = ptr_bytes p f in
       case PacketHandler_sendPacket pkt (base_handler s) of (status, h) \<Rightarrow>
         if status = Success \<and> length pkt < unat (pkt ! 1) then Inl OutOfBounds
         else
           let s1 = s\<lparr>base_handler := h, fw := f\<rparr> in
           Inr (status,
             if status = Success
             then upd_status (\<lambda>st. st\<lparr>ss_tx_packets := ss_tx_packets st + 1\<rparr>) s1
             else upd_status (\<lambda>st. st\<lparr>ss_tx_packet_errors := ss_tx_packet_errors st + 1\<rparr>) s1))"

text \<open>A call of \<open>Orazio_sendPacket\<close> whose status is not used.\<close>

definition send :: "obj_ptr \<Rightarrow> orazio \<Rightarrow> orazio result" where
  "send p s = bindR (Orazio_sendPacket p s) (\<lambda>(_, s1). Inr s1)"

definition Orazio_sendResponse :: "PacketHeader \<Rightarrow> PacketStatus \<Rightarrow> orazio \<Rightarrow> orazio result" where
  "Orazio_sendResponse p result s =
     send (OResponse, 0) (upd_fw (\<lambda>f. f\<lparr>response := (response f)\<lparr>rp_p_seq := h_seq p,
       rp_p_type := h_type p, rp_p_result := word_of_int (status_code result)\<rparr>\<rparr>) s)"

section \<open>Reactions to packets\<close>

abbreviation (input) DISABLE_DRIVE :: u8 where "DISABLE_DRIVE \<equiv> 1"
abbreviation (input) ECHO :: u8 where "ECHO \<equiv> 2"
abbreviation (input) COPY :: u8 where "COPY \<equiv> 4"

record PacketHandlerArgs =
  action_flags :: u8
  args_dest :: "Obj option"
  post_copy_fn :: "PostCopyFn option"
  max_index :: s8

definition system_param_args :: PacketHandlerArgs where
  "system_param_args = \<lparr>action_flags = COPY OR ECHO, args_dest = Some OSystemParams,
     post_copy_fn = Some Fn_driveInit, max_index = - 1\<rparr>"

definition drive_control_args :: PacketHandlerArgs where
  "drive_control_args = \<lparr>action_flags = COPY, args_dest = Some ODriveControl,
     post_copy_fn = None, max_index = - 1\<rparr>"

definition drive_param_args :: PacketHandlerArgs where
  "drive_param_args = \<lparr>action_flags = COPY OR ECHO, args_dest = Some ODriveParams,
     post_copy_fn = Some Fn_driveInit, max_index = - 1\<rparr>"

definition sonar_param_args :: PacketHandlerArgs where
  "sonar_param_args = \<lparr>action_flags = COPY OR ECHO, args_dest = Some OSonarParams,
     post_copy_fn = Some Fn_sonarInit, max_index = - 1\<rparr>"

definition joint_control_args :: PacketHandlerArgs where
  "joint_control_args = \<lparr>action_flags = COPY OR DISABLE_DRIVE, args_dest = Some OJointControl,
     post_copy_fn = None, max_index = word_of_nat NUM_JOINTS\<rparr>"

definition joint_param_args :: PacketHandlerArgs where
  "joint_param_args = \<lparr>action_flags = COPY OR ECHO, args_dest = Some OJointParams,
     post_copy_fn = Some Fn_jointsInit, max_index = word_of_nat NUM_JOINTS\<rparr>"

text \<open>The addresses of these constants.\<close>

fun handler_args :: "addr \<Rightarrow> PacketHandlerArgs option" where
  "handler_args a =
     (if a = 0x101 then Some system_param_args
      else if a = 0x102 then Some drive_control_args
      else if a = 0x103 then Some drive_param_args
      else if a = 0x104 then Some sonar_param_args
      else if a = 0x105 then Some joint_control_args
      else if a = 0x106 then Some joint_param_args
      else None)"

fun run_post_copy :: "PostCopyFn \<Rightarrow> firmware \<Rightarrow> (PacketStatus \<times> firmware) result" where
  "run_post_copy Fn_driveInit f = Orazio_driveInit f"
| "run_post_copy Fn_sonarInit f = Inr (Orazio_sonarInit f)"
| "run_post_copy Fn_jointsInit f = Inr (Orazio_jointsInit f)"

definition packet_header :: "addr \<Rightarrow> 'a store_scheme \<Rightarrow> PacketHeader" where
  "packet_header p s = fst (get_PacketHeader (read_mem (mem s) p sizeof_PacketHeader))"

text \<open>A function of the firmware called from here, keeping its status.\<close>

definition call_fw :: "(firmware \<Rightarrow> ('r \<times> firmware) result) \<Rightarrow> orazio \<Rightarrow> ('r \<times> orazio) result" where
  "call_fw g s = bindR (g (fw s)) (\<lambda>(r, f). Inr (r, s\<lparr>fw := f\<rparr>))"

definition run_fw :: "(firmware \<Rightarrow> firmware result) \<Rightarrow> orazio \<Rightarrow> orazio result" where
  "run_fw g s = bindR (g (fw s)) (\<lambda>f. Inr (s\<lparr>fw := f\<rparr>))"

text \<open>
  The copy step of \<open>Orazio_handlePacket\<close>: \<open>memcpy(dest, p, p->size)\<close>, then the function to call
  after it.
\<close>

definition packet_copy :: "PacketHandlerArgs \<Rightarrow> int \<Rightarrow> addr \<Rightarrow> nat \<Rightarrow> orazio \<Rightarrow> (PacketStatus \<times> orazio) result" where
  "packet_copy args off p sz s =
     (case args_dest args of
        None \<Rightarrow> Inr (Success, s)
      | Some dest \<Rightarrow>
          bindR (run_fw (ptr_store (dest, off) (read_mem (mem s) p sz)) s) (\<lambda>s1.
            case post_copy_fn args of
              None \<Rightarrow> Inr (Success, s1)
            | Some g \<Rightarrow> call_fw (run_post_copy g) s1))"

text \<open>
  The index of a packet is an \<open>int8_t\<close> made from a \<open>uint8_t\<close>: from 128 on it is negative and
  passes the test against \<open>max_index\<close>.
\<close>

definition Orazio_handlePacket :: "addr \<Rightarrow> addr \<Rightarrow> orazio \<Rightarrow> (PacketStatus \<times> orazio) result" where
  "Orazio_handlePacket p args_ptr s0 =
     (case handler_args args_ptr of
        None \<Rightarrow> Inl NullDeref
      | Some args \<Rightarrow>
          let header = packet_header p s0;
              sz = unat (h_size header);
              s = upd_status (\<lambda>st. st\<lparr>ss_rx_seq := h_seq header\<rparr>) s0;
              idx = (if 0 \<le> sint (max_index args) then mem s (p + sizeof_PacketHeader) else - 1) :: s8
          in
          if 0 \<le> sint (max_index args) \<and> sint (max_index args) \<le> sint idx
          then bindR (Orazio_sendResponse header GenericError s) (\<lambda>s1. Inr (GenericError, s1))
          else
            let off = (if 0 \<le> sint (max_index args) \<and> action_flags args AND COPY \<noteq> 0
                       then sint idx * int sz else 0);
                s = (if action_flags args AND DISABLE_DRIVE \<noteq> 0
                     then upd_fw (\<lambda>f. f\<lparr>drive_status := (drive_status f)\<lparr>ds_enabled := 0\<rparr>\<rparr>) s else s)
            in
            bindR (if action_flags args AND COPY \<noteq> 0 then packet_copy args off p sz s
                   else Inr (Success, s)) (\<lambda>(r, s).
            bindR (if action_flags args AND ECHO \<noteq> 0
                   then (case args_dest args of None \<Rightarrow> Inl NullDeref | Some dest \<Rightarrow> send (dest, off) s)
                   else Inr s) (\<lambda>s.
            bindR (Orazio_sendResponse header r s) (\<lambda>s. Inr (Success, s)))))"

text \<open>The two switches of \<open>Orazio_handleParamCtl\<close>.\<close>

definition param_target :: "u8 \<Rightarrow> u8 \<Rightarrow> obj_ptr option" where
  "param_target param_type index =
     (if param_type = ParamSystem then Some (OSystemParams, 0)
      else if param_type = ParamJointsSingle
        then Some (OJointParams, uint index * int sizeof_JointParamPacket)
      else if param_type = ParamDrive then Some (ODriveParams, 0)
      else if param_type = ParamSonar then Some (OSonarParams, 0)
      else None)"

definition param_action :: "u8 \<Rightarrow> u8 \<Rightarrow> u8 \<Rightarrow> firmware \<Rightarrow> (PacketStatus \<times> firmware) result" where
  "param_action action param_type index f =
     (if action = ParamRequest then Inr (Success, f)
      else if action = ParamLoad then Orazio_paramLoad param_type index f
      else if action = ParamSave then Orazio_paramSave param_type index f
      else Inr (GenericError, f))"

definition Orazio_handleParamCtl :: "addr \<Rightarrow> addr \<Rightarrow> orazio \<Rightarrow> (PacketStatus \<times> orazio) result" where
  "Orazio_handleParamCtl p args s0 =
     (let ctl = fst (get_ParamControlPacket (read_mem (mem s0) p sizeof_ParamControlPacket));
          s = upd_status (\<lambda>st. st\<lparr>ss_rx_seq := h_seq (pc_header ctl)\<rparr>) s0
      in
      bindR (call_fw (param_action (pc_action ctl) (pc_param_type ctl) (pc_index ctl)) s) (\<lambda>(r, s).
      bindR (case param_target (pc_param_type ctl) (pc_index ctl) of None \<Rightarrow> Inr s | Some target \<Rightarrow> send target s) (\<lambda>s.
      bindR (Orazio_sendResponse (pc_header ctl) r s) (\<lambda>s. Inr (r, s)))))"

definition orazio_action :: "(ActionFn, orazio) action_call" where
  "orazio_action g p args s =
     bindR (case g of Fn_handlePacket \<Rightarrow> Orazio_handlePacket p args s
                    | Fn_handleParamCtl \<Rightarrow> Orazio_handleParamCtl p args s) (\<lambda>(_, s1). Inr s1)"

section \<open>Installation\<close>

text \<open>One call of \<open>DeferredPacketHandler_installPacket\<close>, its status ignored.\<close>

definition install :: "u8 \<times> nat \<times> addr \<times> ActionFn \<times> addr \<Rightarrow> orazio \<Rightarrow> orazio result" where
  "install = (\<lambda>(type, size, buffer, action, args) s.
     bindR (DeferredPacketHandler_installPacket type (word_of_nat size) buffer (int PACKETS_PER_TYPE_MAX)
              (Some action) args (base_handler s) s)
       (\<lambda>(_, h, s1). Inr (s1\<lparr>base_handler := h\<rparr>)))"

definition packet_table :: "(u8 \<times> nat \<times> addr \<times> ActionFn \<times> addr) list" where
  "packet_table =
     [(PARAM_CONTROL_PACKET_ID, sizeof_ParamControlPacket, param_control_packet_buffer, Fn_handleParamCtl, NULL),
      (SYSTEM_PARAM_PACKET_ID, sizeof_SystemParamPacket, system_param_packet_buffer, Fn_handlePacket, 0x101),
      (JOINT_CONTROL_PACKET_ID, sizeof_JointControlPacket, joint_control_packet_buffer, Fn_handlePacket, 0x105),
      (JOINT_PARAM_PACKET_ID, sizeof_JointParamPacket, joint_param_packet_buffer, Fn_handlePacket, 0x106),
      (DIFFERENTIAL_DRIVE_CONTROL_PACKET_ID, sizeof_DifferentialDriveControlPacket,
         differential_drive_control_packet_buffer, Fn_handlePacket, 0x102),
      (DIFFERENTIAL_DRIVE_PARAM_PACKET_ID, sizeof_DifferentialDriveParamPacket,
         differential_drive_param_packet_buffer, Fn_handlePacket, 0x103),
      (SONAR_PARAM_PACKET_ID, sizeof_SonarParamPacket, sonar_param_packet_buffer, Fn_handlePacket, 0x104)]"

definition Orazio_initializePackets :: "orazio \<Rightarrow> orazio result" where
  "Orazio_initializePackets s = foldR install packet_table s"

definition Orazio_commInit :: "orazio \<Rightarrow> orazio result" where
  "Orazio_commInit s0 =
     (case UART_init (sp_comm_speed (system_params (fw s0))) (fw s0) of (ready, f) \<Rightarrow>
        let s1 = s0\<lparr>fw := f\<lparr>uart_ready := ready, global_seq := 0\<rparr>\<rparr> in
        case DeferredPacketHandler_initialize (base_handler s1) s1 of (h, s2) \<Rightarrow>
          Orazio_initializePackets (s2\<lparr>base_handler := h\<rparr>))"

section \<open>The flow of bytes\<close>

text \<open>Other packet functions are never installed.\<close>

definition orazio_gen :: "orazio gen_call" where
  "orazio_gen = Deferred_gen (\<lambda>_ _ _ _ _. NULL)"

definition orazio_on_rx :: "orazio rx_call" where
  "orazio_on_rx = Deferred_on_rx (\<lambda>_ _ _ _. Inl NullDeref)"

text \<open>The counters of \<open>Orazio_flushInputBuffers\<close>.\<close>

definition count_rx :: "PacketStatus \<Rightarrow> orazio \<Rightarrow> orazio" where
  "count_rx status s =
     (let s = (if is_error status
               then upd_status (\<lambda>st. st\<lparr>ss_rx_packet_errors := ss_rx_packet_errors st + 1\<rparr>) s else s) in
      if status = SyncChecksum
      then upd_status (\<lambda>st. st\<lparr>ss_rx_packets := ss_rx_packets st + 1\<rparr>) s else s)"

text \<open>The bodies of the two loops; \<open>Diverges\<close> stands for waiting for an empty or full queue.\<close>

definition flushInput_body :: "orazio \<Rightarrow> orazio result" where
  "flushInput_body s =
     (case UART_getChar (fw s) of
        None \<Rightarrow> Inl Diverges
      | Some (c, f) \<Rightarrow>
          bindR (PacketHandler_rxByte orazio_gen orazio_on_rx c (base_handler s) (s\<lparr>fw := f\<rparr>))
            (\<lambda>(status, h, s1). Inr (count_rx status (s1\<lparr>base_handler := h\<rparr>))))"

definition flushOutput_body :: "orazio \<Rightarrow> orazio result" where
  "flushOutput_body s =
     (case PacketHandler_txByte (base_handler s) of (c, h) \<Rightarrow>
        case UART_putChar c (fw s) of
          None \<Rightarrow> Inl Diverges
        | Some f \<Rightarrow> Inr (s\<lparr>base_handler := h, fw := f\<rparr>))"

definition rx_waiting :: "orazio \<Rightarrow> nat" where
  "rx_waiting s = unat (uart_rx_size (uart_0 (fw s)))"

text \<open>Receiving a byte does not touch the globals.\<close>

lemma rxByte_more:
  assumes "PacketHandler_rxByte (Deferred_gen og) (Deferred_on_rx (\<lambda>_ _ _ _. Inl NullDeref)) c h s = Inr (st, h1, s1)"
  shows "deferred.more s1 = deferred.more s"
proof -
  have call: "deferred.more s' = deferred.more s" if "Deferred_onReceive_call b s = Inr s'" for b s'
    using that by (auto simp: Deferred_onReceive_call_def Let_def split: if_splits prod.splits)
  show ?thesis
    using assms
    by (auto simp: PacketHandler_rxByte_def rxSize_step_def rxPayload_step_def rxChecksum_step_def Let_def
        Deferred_on_rx_def call bindR_Inr_iff split: RxFn.splits if_splits option.splits prod.splits)
qed

lemma rxByte_fw:
  assumes "PacketHandler_rxByte orazio_gen orazio_on_rx c h s = Inr (st, h1, s1)"
  shows "fw s1 = fw s" and "base_handler s1 = base_handler s"
  using rxByte_more[OF assms[unfolded orazio_gen_def orazio_on_rx_def]]
  by (cases s; cases s1; simp)+

lemma count_rx_uart [simp]: "uart_0 (fw (count_rx st s)) = uart_0 (fw s)"
  by (simp add: count_rx_def upd_status_def upd_fw_def Let_def)

lemma getChar_size:
  assumes "UART_getChar d = Some (c, d')"
  shows "Suc (unat (uart_rx_size (uart_0 d'))) = unat (uart_rx_size (uart_0 d))"
proof -
  have n: "uart_rx_size (uart_0 d) \<noteq> 0" using assms by (simp add: UART_getChar_def split: if_splits)
  then have "uart_rx_size (uart_0 d') = uart_rx_size (uart_0 d) - 1"
    using assms by (auto simp: UART_getChar_def uart_rx_get_def BUFFER_u8_256 sei_def cli_def)
  then show ?thesis using n unat_minus_one[OF n] by (simp add: unat_gt_0)
qed

lemma flushInput_body_waiting:
  assumes "flushInput_body s = Inr s'"
  shows "Suc (rx_waiting s') = rx_waiting s"
  using assms getChar_size[of "fw s"]
  by (auto simp: flushInput_body_def rx_waiting_def bindR_Inr_iff dest!: rxByte_fw(1) split: option.splits)

function flushInput_loop :: "orazio \<Rightarrow> orazio result" where
  "flushInput_loop s =
     (if rx_waiting s = 0 then Inr s
      else case flushInput_body s of Inl e \<Rightarrow> Inl e | Inr s1 \<Rightarrow> flushInput_loop s1)"
  by pat_completeness auto
termination
  by (relation "measure rx_waiting") (use flushInput_body_waiting in fastforce)+

declare flushInput_loop.simps [simp del]

definition Orazio_flushInputBuffers :: "orazio \<Rightarrow> orazio result" where
  "Orazio_flushInputBuffers s =
     (if \<not> uart_ready (fw s) then Inl NullDeref
      else flushInput_loop (upd_status (\<lambda>st. st\<lparr>ss_rx_buffer_size := word_of_nat (rx_waiting s)\<rparr>) s))"

text \<open>The output loop counts \<open>tx_size\<close> down to zero; from a negative size it would not end.\<close>

lemma flushOutput_body_size:
  assumes "flushOutput_body s = Inr s'" and "tx_size (base_handler s) \<noteq> 0"
  shows "tx_size (base_handler s') = tx_size (base_handler s) - 1"
  using assms
  by (auto simp: flushOutput_body_def PacketHandler_txByte_def BUFFER_GET_def Let_def split: option.splits prod.splits if_splits)

function flushOutput_loop :: "orazio \<Rightarrow> orazio result" where
  "flushOutput_loop s =
     (if tx_size (base_handler s) = 0 then Inr s
      else if tx_size (base_handler s) < 0 then Inl Diverges
      else case flushOutput_body s of Inl e \<Rightarrow> Inl e | Inr s1 \<Rightarrow> flushOutput_loop s1)"
  by pat_completeness auto
termination
  by (relation "measure (\<lambda>s. nat (tx_size (base_handler s)))") (use flushOutput_body_size in fastforce)+

declare flushOutput_loop.simps [simp del]

definition tx_status :: "orazio \<Rightarrow> orazio" where
  "tx_status s = upd_status (\<lambda>st. st\<lparr>ss_tx_buffer_size := word_of_int (UART_txBufferFull (uart_0 (fw s)))\<rparr>) s"

definition Orazio_flushOutputBuffers :: "orazio \<Rightarrow> orazio result" where
  "Orazio_flushOutputBuffers s =
     (if \<not> uart_ready (fw s) then Inl NullDeref
      else bindR (flushOutput_loop s) (\<lambda>s1. Inr (tx_status s1)))"

section \<open>One communication cycle\<close>

definition when_mask :: "u8 \<Rightarrow> (orazio \<Rightarrow> orazio result) \<Rightarrow> orazio \<Rightarrow> orazio result" where
  "when_mask flag g s =
     (if sp_periodic_packet_mask (system_params (fw s)) AND flag \<noteq> 0 then g s else Inr s)"

text \<open>The part of \<open>Orazio_commHandle\<close> that queues the periodic packets.\<close>

definition send_message :: "orazio \<Rightarrow> orazio result" where
  "send_message s =
     (let m = string_message (fw s) in
      if 0 < uint (h_seq (sm_header m)) \<and> sm_message m ! 0 \<noteq> 0
      then bindR (send (OStringMessage, 0) s) (\<lambda>s1.
             Inr (upd_fw (\<lambda>f. f\<lparr>string_message := (string_message f)\<lparr>
               sm_header := (sm_header (string_message f))\<lparr>h_seq := 0\<rparr>\<rparr>\<rparr>) s1))
      else Inr s)"

definition send_periodic :: "orazio \<Rightarrow> orazio result" where
  "send_periodic s =
     bindR (when_mask PSystemStatusFlag (send (OSystemStatus, 0)) s) (\<lambda>s.
     bindR (when_mask PJointStatusFlag (foldR (\<lambda>i. send (OJointStatus, int (i * sizeof_JointStatusPacket)))
              [0..<NUM_JOINTS]) s) (\<lambda>s.
     bindR (when_mask PDriveStatusFlag (send (ODriveStatus, 0)) s) (\<lambda>s.
     bindR (if Orazio_sonarReady (fw s) \<noteq> 0 then when_mask PSonarStatusFlag (send (OSonarStatus, 0)) s
            else Inr s) (\<lambda>s.
     bindR (send_message s) (\<lambda>s. send (OEndEpoch, 0) s)))))"

definition process_packets :: "orazio \<Rightarrow> orazio result" where
  "process_packets s0 =
     (let s = upd_fw (\<lambda>f. f\<lparr>global_seq := global_seq f + 1\<rparr>) s0;
          s = upd_status (\<lambda>st. st\<lparr>ss_rx_packet_queue := word_of_int (pending_packets_size s)\<rparr>) s
      in DeferredPacketHandler_processPendingPackets orazio_action s)"

definition Orazio_commHandle :: "orazio \<Rightarrow> orazio result" where
  "Orazio_commHandle s =
     bindR (Orazio_flushInputBuffers s) (\<lambda>s.
     bindR (process_packets s) (\<lambda>s.
     bindR (send_periodic s) Orazio_flushOutputBuffers))"

text \<open>The characters of a C string up to its terminating zero, the end of the list.\<close>

fun copy_string :: "nat \<Rightarrow> u8 list \<Rightarrow> u8 list \<Rightarrow> u8 list" where
  "copy_string k (c # src) dest =
     (if c \<noteq> 0 \<and> k < MESSAGE_MAX_SIZE - 1 then copy_string (Suc k) src (dest[k := c]) else dest[k := 0])"
| "copy_string k [] dest = dest[k := 0]"

definition Orazio_commSendString :: "u8 list \<Rightarrow> 'a firmware_scheme \<Rightarrow> 'a firmware_scheme" where
  "Orazio_commSendString src f =
     f\<lparr>string_message := (string_message f)\<lparr>sm_message := copy_string 0 src (sm_message (string_message f)),
         sm_header := (sm_header (string_message f))\<lparr>h_seq := 1\<rparr>\<rparr>\<rparr>"

end
