(* ===== verification/Ready.thy ===== *)
theory Ready
  imports Objects
begin

text \<open>
  The invariant of the initialised firmware: array sizes, pointers of the joint and drive
  controllers, serial queues. Every operation of the firmware that returns keeps it, and with
  it the periodic operations never fault.
\<close>

section \<open>Drivers that only touch registers\<close>

definition regs_only :: "'a avr_scheme \<Rightarrow> 'a avr_scheme \<Rightarrow> bool" where
  "regs_only d d' \<longleftrightarrow> d' = d\<lparr>io := io d', io16 := io16 d'\<rparr>"

lemma regs_only_refl [simp]: "regs_only d d"
  by (simp add: regs_only_def)

lemma regs_only_trans: "regs_only a b \<Longrightarrow> regs_only b c \<Longrightarrow> regs_only a c"
  by (cases a; cases b; cases c) (simp add: regs_only_def)

lemma regs_only_more: "regs_only d d' \<Longrightarrow> avr.more d' = avr.more d"
  by (cases d; cases d') (simp add: regs_only_def)

lemma regs_only_reg [simp]:
  "regs_only d (set_reg r v e) = regs_only d e" "regs_only d (or_reg r v e) = regs_only d e"
  "regs_only d (clear_reg r v e) = regs_only d e" "regs_only d (set_reg16 q w e) = regs_only d e"
  by (cases d; cases e; simp add: regs_only_def or_reg_def clear_reg_def set_reg_def set_reg16_def)+

lemma regs_only_pins [simp]:
  "regs_only d (snd (DigIO_setDirection p dir e)) = regs_only d e"
  "regs_only d (snd (DigIO_setValue p v e)) = regs_only d e"
  "regs_only d (snd (PWM_enable p v e)) = regs_only d e"
  "regs_only d (snd (PWM_setDutyCycle p v e)) = regs_only d e"
  by (simp_all add: DigIO_setDirection_def DigIO_setValue_def PWM_enable_def PWM_setDutyCycle_def Let_def
      split: option.splits PinDirection.splits)


lemma regs_only_dig_both:
  "\<lbrakk>\<And>e. regs_only e (snd (f e)); \<And>e. regs_only e (snd (g e))\<rbrakk> \<Longrightarrow> regs_only e (snd (dig_both f g e))"
  by (auto simp: dig_both_def split: prod.splits) (metis regs_only_trans snd_conv)+

lemma regs_only_pwm_both:
  "\<lbrakk>\<And>e. regs_only e (snd (f e)); \<And>e. regs_only e (snd (g e))\<rbrakk> \<Longrightarrow> regs_only e (snd (pwm_both f g e))"
  by (auto simp: pwm_both_def split: prod.splits) (metis regs_only_trans snd_conv)+

lemma regs_only_both:
  "regs_only e (snd (dig_both (DigIO_setDirection p dir) (DigIO_setValue q v) e))"
  "regs_only e (snd (pwm_both (PWM_enable c v) (PWM_setDutyCycle c w) e))"
  "regs_only e (snd (pwm_both (PWM_setDutyCycle c w) (PWM_enable c v) e))"
  by (rule regs_only_dig_both regs_only_pwm_both; simp)+

lemma regs_only_release: "regs_only d (hb_release b d)"
proof -
  have "regs_only d (hb_fini t b d)" for t
    by (cases t) (simp_all add: HBridgePWMDir_fini_def HBridgeDualPWM_fini_def HBridgeHalfPWM_fini_def Let_def)
  then show ?thesis by (simp add: hb_release_def split: option.splits)
qed

lemma regs_only_setSpeed: "regs_only d (snd (HBridge_setSpeed b v d))"
proof -
  have "regs_only d (hb_setSpeed t b v d)" for t
    by (cases t) (simp_all add: HBridgePWMDir_setSpeed_def HBridgeDualPWM_setSpeed_def
        HBridgeHalfPWM_setSpeed_def Let_def split: prod.splits)
  then show ?thesis by (simp add: HBridge_setSpeed_def split: option.splits)
qed

text \<open>Two register steps in a row, the second one guarded by the status of the first.\<close>

lemma regs_only_init:
  assumes "HBridge_init type b hpins d = (r, b', hpins', d')"
  shows "regs_only d d'" and "length hpins' = length hpins"
proof -
  have bothI: "regs_only d e'" if "dig_both (DigIO_setDirection p dir) (DigIO_setValue q v) e = (bad, e')"
    "regs_only d e" for p dir q v e bad e'
    using regs_only_both(1)[of e p dir q v] regs_only_trans[OF that(2)] that(1) by simp
  have pwmI: "regs_only d e'" if "pwm_both (PWM_enable c v) (PWM_setDutyCycle c w) e = (bad, e')"
    "regs_only d e" for c v w e bad e'
    using regs_only_both(2)[of e c v w] regs_only_trans[OF that(2)] that(1) by simp
  have pwmI2: "regs_only d e'" if "pwm_both (PWM_setDutyCycle c w) (PWM_enable c v) e = (bad, e')"
    "regs_only d e" for c v w e bad e'
    using regs_only_both(3)[of e c w v] regs_only_trans[OF that(2)] that(1) by simp
  note rel = regs_only_release[of d b]
  have "regs_only d d' \<and> length hpins' = length hpins"
    using assms rel
    by (auto simp: HBridge_init_def HBridgePWMDir_init_def HBridgeDualPWM_init_def HBridgeHalfPWM_init_def Let_def
        dest!: bothI pwmI pwmI2 split: if_splits prod.splits)
  then show "regs_only d d'" and "length hpins' = length hpins" by simp_all
qed

section \<open>The invariant\<close>

definition drive_ready :: "'a firmware_scheme \<Rightarrow> bool" where
  "drive_ready f \<longleftrightarrow> (let c = drive_controller f in dd_set c \<and>
     (\<forall>p \<in> {dd_status_left c, dd_status_right c, dd_control_left c, dd_control_right c}.
        \<exists>i < NUM_JOINTS. p = Some i))"

text \<open>The headers of the packets that the firmware sends on its own.\<close>

definition header_ok :: "PacketHeader \<Rightarrow> u8 \<Rightarrow> nat \<Rightarrow> bool" where
  "header_ok h t n \<longleftrightarrow> h_type h = t \<and> h_size h = word_of_nat n"

definition headers_ok :: "'a firmware_scheme \<Rightarrow> bool" where
  "headers_ok f \<longleftrightarrow> header_ok (ss_header (system_status f)) SYSTEM_STATUS_PACKET_ID sizeof_SystemStatusPacket
     \<and> (\<forall>i \<in> {0, 1}. header_ok (pi_header (jst_header (joint_status f ! i))) JOINT_STATUS_PACKET_ID sizeof_JointStatusPacket)
     \<and> header_ok (ds_header (drive_status f)) DIFFERENTIAL_DRIVE_STATUS_PACKET_ID sizeof_DifferentialDriveStatusPacket
     \<and> header_ok (sns_header (sonar_status f)) SONAR_STATUS_PACKET_ID sizeof_SonarStatusPacket
     \<and> header_ok (sm_header (string_message f)) MESSAGE_PACKET_ID sizeof_StringMessagePacket
     \<and> header_ok (rp_header (response f)) RESPONSE_PACKET_ID sizeof_ResponsePacket
     \<and> header_ok (end_epoch f) END_EPOCH_PACKET_ID sizeof_PacketHeader"

definition fw_ready :: "'a firmware_scheme \<Rightarrow> bool" where
  "fw_ready f \<longleftrightarrow> wf_fw f \<and> joints_ready f \<and> drive_ready f \<and> headers_ok f"

definition serial_ok :: "'a firmware_scheme \<Rightarrow> bool" where
  "serial_ok f \<longleftrightarrow> uart_ready f \<and> uart_tx_ok (uart_0 f) \<and> uart_rx_ok (uart_0 f)"

lemmas ready_defs = fw_ready_def wf_fw_def joints_ready_iff drive_ready_def headers_ok_def

text \<open>What the invariant does not depend on.\<close>

lemma ready_avr [simp]:
  "fw_ready (f\<lparr>io := a, io16 := b\<rparr>) = fw_ready f" "serial_ok (f\<lparr>io := a, io16 := b\<rparr>) = serial_ok f"
  "fw_ready (f\<lparr>eeprom := e\<rparr>) = fw_ready f" "serial_ok (f\<lparr>eeprom := e\<rparr>) = serial_ok f"
  "fw_ready (f\<lparr>irq_enabled := q\<rparr>) = fw_ready f" "serial_ok (f\<lparr>irq_enabled := q\<rparr>) = serial_ok f"
  by (simp_all add: ready_defs serial_ok_def)

lemma headers_fields [simp]:
  "headers_ok (f\<lparr>joint_controllers := a\<rparr>) = headers_ok f" "headers_ok (f\<lparr>joint_control := b\<rparr>) = headers_ok f"
  "headers_ok (f\<lparr>joint_params := c\<rparr>) = headers_ok f" "headers_ok (f\<lparr>bridges := d\<rparr>) = headers_ok f"
  "headers_ok (f\<lparr>drive_controller := e\<rparr>) = headers_ok f" "headers_ok (f\<lparr>io := g\<rparr>) = headers_ok f"
  "headers_ok (f\<lparr>io16 := h\<rparr>) = headers_ok f" "headers_ok (f\<lparr>eeprom := i\<rparr>) = headers_ok f"
  "headers_ok (f\<lparr>system_params := j\<rparr>) = headers_ok f" "headers_ok (f\<lparr>drive_params := k\<rparr>) = headers_ok f"
  "headers_ok (f\<lparr>sonar_params := l\<rparr>) = headers_ok f" "headers_ok (f\<lparr>drive_control := m\<rparr>) = headers_ok f"
  "headers_ok (f\<lparr>last_drive_control_seq := n\<rparr>) = headers_ok f"
  by (simp_all add: headers_ok_def)

lemma headers_joint_status [simp]:
  "jst_header p = jst_header (joint_status f ! k) \<Longrightarrow>
     headers_ok (f\<lparr>joint_status := (joint_status f)[k := p]\<rparr>) = headers_ok f"
  by (cases "k < length (joint_status f)") (auto simp: headers_ok_def nth_list_update list_update_beyond)

lemma headers_drive_status [simp]:
  "ds_header b = ds_header (drive_status f) \<Longrightarrow> headers_ok (f\<lparr>drive_status := b\<rparr>) = headers_ok f"
  by (simp add: headers_ok_def)

lemma ready_regs:
  assumes "regs_only f f'"
  shows "fw_ready f' = fw_ready f" and "serial_ok f' = serial_ok f"
  using assms ready_avr(1)[where f = f and a = "io f'" and b = "io16 f'"]
    ready_avr(2)[where f = f and a = "io f'" and b = "io16 f'"]
  by (simp_all add: regs_only_def)

lemma ready_fields [simp]:
  "fw_ready (f\<lparr>global_seq := c\<rparr>) = fw_ready f"
  "fw_ready (f\<lparr>system_params := e\<rparr>) = fw_ready f" "fw_ready (f\<lparr>drive_params := g\<rparr>) = fw_ready f"
  "fw_ready (f\<lparr>drive_control := h\<rparr>) = fw_ready f"
  "fw_ready (f\<lparr>last_drive_control_seq := j\<rparr>) = fw_ready f" "fw_ready (f\<lparr>comm_handle := k\<rparr>) = fw_ready f"
  "fw_ready (f\<lparr>tick_counter := k\<rparr>) = fw_ready f" "fw_ready (f\<lparr>uart_0 := u\<rparr>) = fw_ready f"
  "fw_ready (f\<lparr>sonar_ready := k\<rparr>) = fw_ready f" "fw_ready (f\<lparr>sonar_current_cycle := k\<rparr>) = fw_ready f"
  "fw_ready (f\<lparr>sonar_max_cycle := k\<rparr>) = fw_ready f" "fw_ready (f\<lparr>uart_ready := l\<rparr>) = fw_ready f"
  by (simp_all add: ready_defs)

text \<open>Updates of the status packets that leave their headers alone.\<close>

lemma ready_status [simp]:
  "ss_header a = ss_header (system_status f) \<Longrightarrow> fw_ready (f\<lparr>system_status := a\<rparr>) = fw_ready f"
  "ds_header b = ds_header (drive_status f) \<Longrightarrow> fw_ready (f\<lparr>drive_status := b\<rparr>) = fw_ready f"
  "rp_header r = rp_header (response f) \<Longrightarrow> fw_ready (f\<lparr>response := r\<rparr>) = fw_ready f"
  by (simp_all add: ready_defs)

lemma fw_readyD:
  "fw_ready f \<Longrightarrow> wf_fw f" "fw_ready f \<Longrightarrow> joints_ready f" "fw_ready f \<Longrightarrow> drive_ready f"
  "fw_ready f \<Longrightarrow> headers_ok f"
  by (simp_all add: fw_ready_def)

lemma serial_fields [simp]:
  "serial_ok (f\<lparr>system_status := a\<rparr>) = serial_ok f" "serial_ok (f\<lparr>drive_status := b\<rparr>) = serial_ok f"
  "serial_ok (f\<lparr>global_seq := c\<rparr>) = serial_ok f" "serial_ok (f\<lparr>response := d\<rparr>) = serial_ok f"
  "serial_ok (f\<lparr>joint_controllers := e\<rparr>) = serial_ok f" "serial_ok (f\<lparr>joint_control := g\<rparr>) = serial_ok f"
  "serial_ok (f\<lparr>joint_status := h\<rparr>) = serial_ok f" "serial_ok (f\<lparr>drive_controller := i\<rparr>) = serial_ok f"
  "serial_ok (f\<lparr>last_drive_control_seq := j\<rparr>) = serial_ok f" "serial_ok (f\<lparr>comm_handle := k\<rparr>) = serial_ok f"
  "serial_ok (f\<lparr>tick_counter := k\<rparr>) = serial_ok f" "serial_ok (f\<lparr>bridges := l\<rparr>) = serial_ok f"
  "serial_ok (f\<lparr>joint_params := m\<rparr>) = serial_ok f" "serial_ok (f\<lparr>sonar_status := n\<rparr>) = serial_ok f"
  "serial_ok (f\<lparr>sonar_ready := k\<rparr>) = serial_ok f" "serial_ok (f\<lparr>sonar_current_cycle := k\<rparr>) = serial_ok f"
  "serial_ok (f\<lparr>sonar_max_cycle := k\<rparr>) = serial_ok f" "serial_ok (f\<lparr>string_message := p\<rparr>) = serial_ok f"
  "serial_ok (f\<lparr>system_params := q\<rparr>) = serial_ok f" "serial_ok (f\<lparr>drive_params := r\<rparr>) = serial_ok f"
  "serial_ok (f\<lparr>sonar_params := v\<rparr>) = serial_ok f" "serial_ok (f\<lparr>encoder_sampled_value := w\<rparr>) = serial_ok f"
  by (simp_all add: serial_ok_def)

section \<open>Joints\<close>

text \<open>Both joints have their status and control, so handling them cannot fault.\<close>

lemma JointController_handle_ready:
  assumes "fw_ready f" and "k < 2"
  shows "\<exists>f'. JointController_handle k n f = Inr f' \<and> fw_ready f' \<and> serial_ok f' = serial_ok f
    \<and> bridges f' = bridges f \<and> joint_control f' = joint_control f \<and> joint_params f' = joint_params f
    \<and> (\<forall>i. i \<noteq> k \<longrightarrow> joint_controllers f' ! i = joint_controllers f ! i)"
proof -
  have wf: "wf_fw f" and dr: "drive_ready f"
    and c: "ctl_params (joint_controllers f ! k) = Some k" "ctl_status (joint_controllers f ! k) = Some k"
      "ctl_control (joint_controllers f ! k) = Some k"
    using assms by (auto simp: fw_ready_def joints_ready_def)
  let ?put = "\<lambda>st c. f\<lparr>joint_status := (joint_status f)[k := (joint_status f ! k)\<lparr>jst_info := st\<rparr>],
    joint_controllers := (joint_controllers f)[k := c]\<rparr>"
  have ok: "fw_ready (?put st c) \<and> serial_ok (?put st c) = serial_ok f \<and> bridges (?put st c) = bridges f
      \<and> joint_control (?put st c) = joint_control f \<and> joint_params (?put st c) = joint_params f
      \<and> (\<forall>i. i \<noteq> k \<longrightarrow> joint_controllers (?put st c) ! i = joint_controllers f ! i)"
    if "ctl_params c = Some k" "ctl_status c = Some k" "ctl_control c = Some k" for st c
    using assms that wf dr
    by (auto simp: fw_ready_def wf_fw_def joints_ready_def drive_ready_def Let_def nth_list_update)
  have pid: "ctl_params c' = Some k \<and> ctl_status c' = Some k \<and> ctl_control c' = Some k"
    if "JointController_pid ps v (st, joint_controllers f ! k) = (st', c')" for ps v st st' c'
    using JointController_pid_fields(6)[OF that] c by simp
  obtain st' c' where p: "JointController_pid (jpp_param (joint_params f ! k)) (jc_speed (jct_control (joint_control f ! k)))
      (JointController_sense (Encoder_getValue n f) (jct_control (joint_control f ! k)) (jst_info (joint_status f ! k))
         (joint_controllers f ! k), joint_controllers f ! k) = (st', c')"
    by (metis surj_pair)
  show ?thesis
    using ok pid[OF p] c ok[OF c] by (simp add: JointController_handle_def Let_def p)
qed

lemma joint_apply_ready:
  "fw_ready (joint_apply i f) = fw_ready f" "serial_ok (joint_apply i f) = serial_ok f"
  using ready_regs[OF regs_only_setSpeed] by (simp_all add: joint_apply_def)

lemma Encoder_sample_ready [simp]:
  "fw_ready f \<Longrightarrow> fw_ready (Encoder_sample f)" "serial_ok (Encoder_sample f) = serial_ok f"
  by (simp_all add: Encoder_sample_def sei_def cli_def ready_defs serial_ok_def)

lemma Orazio_jointsHandle_ready:
  assumes "fw_ready f"
  shows "\<exists>f'. Orazio_jointsHandle f = Inr f' \<and> fw_ready f' \<and> serial_ok f' = serial_ok f"
proof -
  have r0: "fw_ready (Encoder_sample f)" using assms by simp
  obtain f1 where f1: "JointController_handle 0 0 (Encoder_sample f) = Inr f1" "fw_ready f1"
    "serial_ok f1 = serial_ok f"
    using JointController_handle_ready[OF r0, of 0 0] by auto
  obtain f2 where f2: "JointController_handle 1 1 f1 = Inr f2" "fw_ready f2" "serial_ok f2 = serial_ok f1"
    using JointController_handle_ready[OF f1(2), of 1 1] by auto
  show ?thesis
    using f1 f2 by (simp add: Orazio_jointsHandle_def joints_list joint_apply_ready)
qed

lemma Orazio_jointsDisable_ready:
  assumes "fw_ready f"
  shows "\<exists>f'. Orazio_jointsDisable f = Inr f' \<and> fw_ready f' \<and> serial_ok f' = serial_ok f"
proof -
  have step: "\<exists>g'. joint_disable_one k g = Inr g' \<and> fw_ready g' \<and> serial_ok g' = serial_ok g"
    if "fw_ready g" "k < 2" for g :: "'a firmware_scheme" and k
    using that
    by (auto simp: joint_disable_one_def Let_def fw_ready_def wf_fw_def joints_ready_def drive_ready_def
        nth_list_update)
  obtain f1 where f1: "joint_disable_one 0 f = Inr f1" "fw_ready f1" "serial_ok f1 = serial_ok f"
    using step[OF assms, of 0] by auto
  obtain f2 where "joint_disable_one 1 f1 = Inr f2" "fw_ready f2" "serial_ok f2 = serial_ok f1"
    using step[OF f1(2), of 1] by auto
  with f1 show ?thesis by (simp add: Orazio_jointsDisable_def joints_list)
qed

text \<open>Initialising the joints connects the controllers, whatever the pins are.\<close>

lemma joint_init_one_ready:
  assumes "wf_fw f" and "i < 2" and "joint_init_one i f = (r, f')"
  shows "wf_fw f'" and "serial_ok f' = serial_ok f" and "drive_ready f' = drive_ready f"
    and "joint_controllers f' = (joint_controllers f)[i := JointController_init i i i zero_controller]"
    and "headers_ok f' = headers_ok f"
proof -
  let ?f = "f\<lparr>joint_controllers := (joint_controllers f)[i := JointController_init i i i zero_controller]\<rparr>"
  let ?p = "joint_params f ! i"
  obtain b hp f1 where init: "HBridge_init (jp_h_bridge_type (jpp_param ?p)) (bridges f ! i)
      (jp_h_bridge_pins (jpp_param ?p)) ?f = (r, b, hp, f1)"
    and f': "f' = f1\<lparr>bridges := (bridges f1)[i := b], joint_params := (joint_params f1)[i :=
      ?p\<lparr>jpp_param := (jpp_param ?p)\<lparr>jp_h_bridge_pins := hp\<rparr>\<rparr>]\<rparr>"
    using assms(3) by (auto simp: joint_init_one_def Let_def split: prod.splits)
  obtain ia ib where f1: "f1 = ?f\<lparr>io := ia, io16 := ib\<rparr>"
    using regs_only_init(1)[OF init] by (auto simp: regs_only_def)
  have hp: "length hp = length (jp_h_bridge_pins (jpp_param ?p))" by (rule regs_only_init(2)[OF init])
  have p: "wf_JointParamPacket ?p" using assms(1,2) by (auto simp: wf_fw_def)
  then have "wf_JointParamPacket (?p\<lparr>jpp_param := (jpp_param ?p)\<lparr>jp_h_bridge_pins := hp\<rparr>\<rparr>)"
    using hp by (simp add: wf_JointParamPacket_def wf_JointParams_def)
  then show "wf_fw f'"
    unfolding f' f1 using assms(1) set_update_subset_insert[of "joint_params f" i]
    by (auto simp: wf_fw_def)
  show "serial_ok f' = serial_ok f" "drive_ready f' = drive_ready f"
    "joint_controllers f' = (joint_controllers f)[i := JointController_init i i i zero_controller]"
    "headers_ok f' = headers_ok f"
    unfolding f' f1 by (simp_all add: serial_ok_def drive_ready_def)
qed

definition controller_set :: "nat \<Rightarrow> 'a firmware_scheme \<Rightarrow> bool" where
  "controller_set i f \<longleftrightarrow> ctl_params (joint_controllers f ! i) = Some i
     \<and> ctl_status (joint_controllers f ! i) = Some i \<and> ctl_control (joint_controllers f ! i) = Some i"

lemma joint_init_one_controller:
  assumes "wf_fw f" and "i < 2" and "joint_init_one i f = (r, f')"
  shows "controller_set i f'" and "controller_set k f \<Longrightarrow> controller_set k f'"
  using assms(1,2) joint_init_one_ready(4)[OF assms]
  by (auto simp: controller_set_def JointController_init_def wf_fw_def nth_list_update)

text \<open>
  The initialisation of all joints stops at the first bridge that cannot be set up; when both
  controllers were set, or the first bridge works, they are set afterwards.
\<close>

lemma Orazio_jointsInit_ready:
  assumes "wf_fw f" and "Orazio_jointsInit f = (r, f')"
  shows "wf_fw f'" and "serial_ok f' = serial_ok f" and "drive_ready f' = drive_ready f"
    and "headers_ok f' = headers_ok f" and "joints_ready f \<or> \<not> is_error r \<Longrightarrow> joints_ready f'"
proof -
  obtain r1 f1 where f1: "joint_init_one 0 f = (r1, f1)" by (metis surj_pair)
  note s1 = joint_init_one_ready[OF assms(1) _ f1] joint_init_one_controller[OF assms(1) _ f1]
  obtain r2 f2 where f2: "joint_init_one 1 f1 = (r2, f2)" by (metis surj_pair)
  have w1: "wf_fw f1" using s1(1) by simp
  note s2 = joint_init_one_ready[OF w1 _ f2] joint_init_one_controller[OF w1 _ f2]
  have eq: "Orazio_jointsInit f = (if is_error r1 then (r1, f1) else if is_error r2 then (r2, f2) else (Success, f2))"
    using f1 f2 by (simp add: Orazio_jointsInit_def joints_list)
  have ready: "joints_ready g \<longleftrightarrow> controller_set 0 g \<and> controller_set 1 g" for g :: "'a firmware_scheme"
    by (auto simp: joints_ready_iff controller_set_def)
  show "wf_fw f'" "serial_ok f' = serial_ok f" "drive_ready f' = drive_ready f" "headers_ok f' = headers_ok f"
    using assms(2) s1 s2 unfolding eq by (auto split: if_splits)
  assume "joints_ready f \<or> \<not> is_error r"
  then show "joints_ready f'"
    using assms(2) s1(6,7) s2(6,7) unfolding eq ready by (auto split: if_splits)
qed

section \<open>Drive, sonar, watchdog\<close>

lemma Orazio_driveInit_ready:
  assumes "wf_fw f" and "joints_ready f" and "headers_ok f" and "Orazio_driveInit f = Inr (r, f')"
  shows "fw_ready f'" and "serial_ok f' = serial_ok f"
proof -
  let ?l = "unat (dp_left_joint_index (drive_params f))" and ?r = "unat (dp_right_joint_index (drive_params f))"
  obtain dt jdt f1 where f1: "DifferentialDriveController_init ?l ?r dt jdt f = Inr f1"
    and f': "f' = f1\<lparr>last_drive_control_seq := h_seq (dc_header (drive_control f1))\<rparr>"
    using assms(4) by (auto simp: Orazio_driveInit_def Let_def bindR_Inr_iff)
  have lr: "?l < 2" "?r < 2" using f1 by (auto simp: DifferentialDriveController_init_def split: if_splits)
  have "fw_ready f1 \<and> serial_ok f1 = serial_ok f"
    using f1 assms(1-3) lr
    by (auto simp: DifferentialDriveController_init_def DifferentialDriveController_reset_def Let_def
        fw_ready_def wf_fw_def joints_ready_def drive_ready_def serial_ok_def)
  then show "fw_ready f'" "serial_ok f' = serial_ok f" by (simp_all add: f')
qed

lemma drive_odometry_header: "drive_odometry l r f = (st, v, w) \<Longrightarrow> ds_header st = ds_header (drive_status f)"
  by (auto simp: drive_odometry_def Let_def split: if_splits prod.splits)

lemma Orazio_driveUpdate_ready:
  assumes "fw_ready f"
  shows "\<exists>f'. Orazio_driveUpdate f = Inr f' \<and> fw_ready f' \<and> serial_ok f' = serial_ok f"
  using assms
  by (auto simp: Orazio_driveUpdate_def DifferentialDriveController_update_def Let_def fw_ready_def wf_fw_def
      joints_ready_def drive_ready_def serial_ok_def dest!: drive_odometry_header split: prod.splits)

lemma set_joint_ready:
  "fw_ready f \<Longrightarrow> fw_ready (set_joint_speed i v f)" "fw_ready f \<Longrightarrow> fw_ready (set_joint_mode i m f)"
  "serial_ok (set_joint_speed i v f) = serial_ok f" "serial_ok (set_joint_mode i m f) = serial_ok f"
  by (simp_all add: set_joint_speed_def set_joint_mode_def fw_ready_def wf_fw_def joints_ready_def drive_ready_def)

lemma Orazio_driveControl_ready:
  assumes "fw_ready f"
  shows "\<exists>f'. Orazio_driveControl f = Inr f' \<and> fw_ready f' \<and> serial_ok f' = serial_ok f"
proof -
  have c: "\<exists>g'. DifferentialDriveController_control g = Inr g' \<and> fw_ready g' \<and> serial_ok g' = serial_ok g"
    if "fw_ready g" for g :: "'a firmware_scheme"
  proof -
    have "dd_set (drive_controller g)" "\<exists>l. dd_control_left (drive_controller g) = Some l"
      "\<exists>r. dd_control_right (drive_controller g) = Some r"
      using that by (auto simp: fw_ready_def drive_ready_def Let_def)
    then show ?thesis
      using that by (auto simp: DifferentialDriveController_control_def Let_def set_joint_ready)
  qed
  define g where "g = (if last_drive_control_seq f \<noteq> h_seq (dc_header (drive_control f))
    then f\<lparr>drive_status := (drive_status f)\<lparr>ds_enabled := 1\<rparr>,
           last_drive_control_seq := h_seq (dc_header (drive_control f))\<rparr> else f)"
  have "fw_ready g" "serial_ok g = serial_ok f" using assms by (simp_all add: g_def)
  then show ?thesis
    using c[of g] by (simp add: Orazio_driveControl_def Let_def g_def[symmetric])
qed

lemma wf_Sonar_get [simp]: "length (Sonar_get d) = 8"
  by (simp add: Sonar_get_def)

lemma Sonar_pollPattern_ready:
  "fw_ready (snd (Sonar_pollPattern m g)) = fw_ready g" "serial_ok (snd (Sonar_pollPattern m g)) = serial_ok g"
  by (simp_all add: Sonar_pollPattern_def Let_def set_reg_def sei_def cli_def ready_defs serial_ok_def)

lemma sonar_status_ready:
  assumes "fw_ready f" and "length rs = 8"
  shows "fw_ready (f\<lparr>sonar_status := (sonar_status f)\<lparr>sns_ranges := rs\<rparr>\<rparr>)"
  using assms by (simp add: ready_defs wf_SonarStatusPacket_def)

lemma Orazio_sonarHandle_ready:
  assumes "fw_ready f"
  shows "fw_ready (Orazio_sonarHandle f)" and "serial_ok (Orazio_sonarHandle f) = serial_ok f"
proof -
  have "fw_ready (f\<lparr>sonar_current_cycle := c, sonar_status := (sonar_status f)\<lparr>sns_ranges := rs\<rparr>\<rparr>)"
    if "length rs = 8" for c rs
    using sonar_status_ready[of "f\<lparr>sonar_current_cycle := c\<rparr>" rs] assms that by simp
  then show "fw_ready (Orazio_sonarHandle f)"
    using assms by (simp add: Orazio_sonarHandle_def Let_def Sonar_pollPattern_ready)
  show "serial_ok (Orazio_sonarHandle f) = serial_ok f"
    by (simp add: Orazio_sonarHandle_def Let_def Sonar_pollPattern_ready)
qed

lemma Orazio_sonarInit_ready [simp]:
  "fw_ready (snd (Orazio_sonarInit f)) = fw_ready f" "serial_ok (snd (Orazio_sonarInit f)) = serial_ok f"
  "wf_fw (snd (Orazio_sonarInit f)) = wf_fw f"
  by (simp_all add: Orazio_sonarInit_def wf_fw_def)

lemma Orazio_watchdogHandle_ready:
  assumes "fw_ready f"
  shows "\<exists>f'. Orazio_watchdogHandle f = Inr f' \<and> fw_ready f' \<and> serial_ok f' = serial_ok f"
proof -
  define g where "g = (if 0 < sint (ss_watchdog_count (system_status f))
    then f\<lparr>system_status := (system_status f)\<lparr>ss_watchdog_count := ss_watchdog_count (system_status f) - 1\<rparr>\<rparr>
    else f)"
  let ?h = "g\<lparr>drive_status := (drive_status g)\<lparr>ds_enabled := 0\<rparr>\<rparr>"
  have g: "fw_ready g" "serial_ok g = serial_ok f" using assms by (simp_all add: g_def)
  then obtain h where "Orazio_jointsDisable ?h = Inr h" "fw_ready h" "serial_ok h = serial_ok f"
    using Orazio_jointsDisable_ready[of ?h] by auto
  then show ?thesis
    using assms g by (simp add: Orazio_watchdogHandle_def Let_def g_def[symmetric])
qed

section \<open>Parameters\<close>

lemma length_ee_read [simp]: "off + n < 65536 \<Longrightarrow> length (ee_read off n d) = n"
  by (simp add: ee_read_def EEPROM_read_eq unat_of_nat)

lemma EEPROM_write_only: "EEPROM_write dest bs d = d\<lparr>eeprom := eeprom (EEPROM_write dest bs d)\<rparr>"
proof (induction bs arbitrary: dest d)
  case Nil
  then show ?case by simp
next
  case (Cons b bs)
  show ?case by (simp, subst Cons.IH) simp
qed

lemma ee_write_ready [simp]:
  "fw_ready (ee_write off bs f) = fw_ready f" "serial_ok (ee_write off bs f) = serial_ok f"
  "wf_fw (ee_write off bs f) = wf_fw f" "joints_ready (ee_write off bs f) = joints_ready f"
proof -
  obtain e where "ee_write off bs f = f\<lparr>eeprom := e\<rparr>"
    using EEPROM_write_only[of "word_of_nat off" bs f] by (auto simp: ee_write_def)
  then show "fw_ready (ee_write off bs f) = fw_ready f" "serial_ok (ee_write off bs f) = serial_ok f"
    "wf_fw (ee_write off bs f) = wf_fw f" "joints_ready (ee_write off bs f) = joints_ready f"
    by (simp_all add: wf_fw_def joints_ready_def)
qed

lemma joint_offset_ok:
  assumes "joint_index_ok index"
  shows "joint_offset index = JOINT_PARAM_OFFSET + nat (sint index) * sizeof_JointParamPacket"
proof -
  have i: "index = word_of_int (sint index)" by simp
  have "sint index = 0 \<or> sint index = 1" using assms by (auto simp: joint_index_ok_def)
  then have "index = 0 \<or> index = 1" using i by (auto simp del: of_int_sint)
  then show ?thesis
    by (auto simp: joint_offset_def offsets sizeof_defs)
qed

text \<open>Whatever the EEPROM holds, the packets read from it are well-formed.\<close>

lemma param_fetch_wf:
  assumes "wf_fw f" and "param_fetch t i f = Inr f'"
  shows "wf_fw f'" and "joints_ready f' = joints_ready f" and "drive_ready f' = drive_ready f"
    and "serial_ok f' = serial_ok f" and "headers_ok f' = headers_ok f"
proof -
  let ?p = "fst (get_JointParamPacket (ee_read (joint_offset i) sizeof_JointParamPacket f))"
  have "joint_offset i + sizeof_JointParamPacket < 65536" if "joint_index_ok i"
  proof -
    have "nat (sint i) \<le> 1" using that unfolding joint_index_ok_def by linarith
    then show ?thesis using joint_offset_ok[OF that] by (simp add: offsets sizeof_defs)
  qed
  then have p: "wf_JointParamPacket ?p" if "joint_index_ok i" using that by simp
  have s: "wf_SonarParamPacket (fst (get_SonarParamPacket (ee_read SONAR_PARAM_OFFSET sizeof_SonarParamPacket f)))"
    by (rule wf_get_SonarParamPacket) (simp add: offsets sizeof_defs)
  show "wf_fw f'"
    using assms p s set_update_subset_insert[of "joint_params f" "nat (sint i)" ?p]
    by (auto simp: param_fetch_def wf_fw_def split: if_splits)
  show "joints_ready f' = joints_ready f" "drive_ready f' = drive_ready f" "serial_ok f' = serial_ok f"
    "headers_ok f' = headers_ok f"
    using assms(2) by (auto simp: param_fetch_def joints_ready_def drive_ready_def split: if_splits)
qed

lemma Orazio_paramSet_ready:
  assumes "fw_ready f" and "Orazio_paramSet t i f = Inr (r, f')"
  shows "fw_ready f'" and "serial_ok f' = serial_ok f"
proof -
  have w: "wf_fw f" "joints_ready f" "drive_ready f" "headers_ok f" using assms(1) by (simp_all add: fw_ready_def)
  have ji: "fw_ready f' \<and> serial_ok f' = serial_ok f" if "Orazio_jointsInit f = (r, f')"
    using Orazio_jointsInit_ready[OF w(1) that] w by (simp add: fw_ready_def)
  have si: "fw_ready f' \<and> serial_ok f' = serial_ok f" if "Orazio_sonarInit f = (r, f')"
    using Orazio_sonarInit_ready(1,2)[of f] assms(1) unfolding that by simp
  consider "Orazio_driveInit f = Inr (r, f')" | "Orazio_jointsInit f = (r, f')" | "Orazio_sonarInit f = (r, f')"
    | "f' = f"
    using assms(2) by (auto simp: Orazio_paramSet_def split: if_splits)
  then have "fw_ready f' \<and> serial_ok f' = serial_ok f"
    using assms(1) Orazio_driveInit_ready[OF w(1,2,4)] ji si by cases auto
  then show "fw_ready f'" "serial_ok f' = serial_ok f" by simp_all
qed

lemma Orazio_paramLoad_ready:
  assumes "fw_ready f" and "Orazio_paramLoad t i f = Inr (r, f')"
  shows "fw_ready f'" and "serial_ok f' = serial_ok f"
proof -
  have "fw_ready f' \<and> serial_ok f' = serial_ok f"
  proof (cases "known_param t")
    case False
    then show ?thesis using assms by (simp add: Orazio_paramLoad_def)
  next
    case True
    then obtain f1 r1 where f1: "param_fetch t i f = Inr f1" and f2: "Orazio_paramSet t i f1 = Inr (r1, f')"
      using assms(2) by (auto simp: Orazio_paramLoad_def bindR_Inr_iff)
    have "wf_fw f" using assms(1) by (simp add: fw_ready_def)
    note w = param_fetch_wf[OF this f1]
    have "fw_ready f1" using w assms(1) by (simp add: fw_ready_def)
    from Orazio_paramSet_ready[OF this f2] w show ?thesis by simp
  qed
  then show "fw_ready f'" "serial_ok f' = serial_ok f" by simp_all
qed

lemma Orazio_paramSave_ready:
  assumes "Orazio_paramSave t i f = Inr (r, f')"
  shows "fw_ready f' = fw_ready f" and "serial_ok f' = serial_ok f"
  using assms by (auto simp: Orazio_paramSave_def split: if_splits)

section \<open>Copies over the globals\<close>

text \<open>The objects that received packets are copied to.\<close>

definition input_obj :: "Obj \<Rightarrow> bool" where
  "input_obj ob \<longleftrightarrow> ob \<in> {OSystemParams, ODriveParams, ODriveControl, OSonarParams, OJointParams, OJointControl}"

lemma obj_store_ready:
  assumes "fw_ready f" and "length bs = sizeof_Obj ob" and "input_obj ob"
  shows "fw_ready (obj_store ob bs f)" and "serial_ok (obj_store ob bs f) = serial_ok f"
proof -
  have "joints_ready (obj_store ob bs f) = joints_ready f" "drive_ready (obj_store ob bs f) = drive_ready f"
    "serial_ok (obj_store ob bs f) = serial_ok f" "headers_ok (obj_store ob bs f) = headers_ok f"
    using assms(3) by (cases ob; simp add: joints_ready_def drive_ready_def serial_ok_def input_obj_def)+
  then show "fw_ready (obj_store ob bs f)" "serial_ok (obj_store ob bs f) = serial_ok f"
    using assms obj_store_wf[of f bs ob] by (simp_all add: fw_ready_def)
qed

lemma ptr_store_ready:
  assumes "fw_ready f" and "ptr_store p bs f = Inr f'" and "input_obj (fst p)"
  shows "fw_ready f'" and "serial_ok f' = serial_ok f"
proof -
  obtain ob off where p: "p = (ob, off)" by (cases p)
  have w: "wf_fw f" using assms(1) by (simp add: fw_ready_def)
  let ?old = "obj_bytes ob f"
  have len: "length ?old = sizeof_Obj ob" by (rule obj_bytes_length[OF w])
  have f': "f' = obj_store ob (take (nat off) ?old @ bs @ drop (nat off + length bs) ?old) f"
    and "nat off + length bs \<le> length ?old"
    using assms(2) by (auto simp: p ptr_store_def Let_def split: if_splits)
  then have "length (take (nat off) ?old @ bs @ drop (nat off + length bs) ?old) = sizeof_Obj ob"
    using len by simp
  from obj_store_ready[OF assms(1) this] assms(3) show "fw_ready f'" "serial_ok f' = serial_ok f"
    by (simp_all add: f' p)
qed

text \<open>A whole object, or one element of an array, is within its bounds.\<close>

lemma ptr_store_total:
  assumes "wf_fw f" and "0 \<le> snd p" and "nat (snd p) + length bs \<le> sizeof_Obj (fst p)"
  shows "\<exists>f'. ptr_store p bs f = Inr f'"
  using assms obj_bytes_length[OF assms(1), of "fst p"] by (auto simp: ptr_store_def Let_def split: prod.splits)

end
