(* ===== verification/CommInv.thy ===== *)
theory CommInv
  imports Comm Ready
begin

text \<open>
  The communication layer keeps the invariants of the parts it connects: the receiver and its
  queue (\<open>handler_inv\<close>), the transmit ring (\<open>tx_ok\<close>) and the firmware (\<open>fw_ready\<close>). The actions
  on received packets satisfy the contract of the deferred handler (\<open>deferred_actions\<close>).
\<close>

section \<open>The sequence number of a packet\<close>

definition stamped :: "u16 \<Rightarrow> u8 list \<Rightarrow> u8 list" where
  "stamped q bs = take 2 bs @ put16 q @ drop 4 bs"

lemma stamped_header: "stamped q (put_PacketHeader h @ r) = put_PacketHeader (h\<lparr>h_seq := q\<rparr>) @ r"
  by (simp add: stamped_def put_PacketHeader_bytes)

lemma length_stamped [simp]: "4 \<le> length bs \<Longrightarrow> length (stamped q bs) = length bs"
  by (simp add: stamped_def)

lemma stamped_size [simp]: "2 \<le> length bs \<Longrightarrow> stamped q bs ! Suc 0 = bs ! Suc 0"
  by (simp add: stamped_def nth_append)

lemma take_stamped: "4 \<le> n \<Longrightarrow> n \<le> length bs \<Longrightarrow> take n (stamped q bs) = stamped q (take n bs)"
  by (simp add: stamped_def take_drop min_def)

lemma ptr_store_stamp:
  assumes "wf_fw f" and "off + 4 \<le> sizeof_Obj ob"
  shows "ptr_store (ob, int off + 2) (put16 q) f
      = Inr (obj_store ob (take off (obj_bytes ob f) @ stamped q (drop off (obj_bytes ob f))) f)"
    and "ptr_bytes (ob, int off) (obj_store ob (take off (obj_bytes ob f) @ stamped q (drop off (obj_bytes ob f))) f)
      = stamped q (drop off (obj_bytes ob f))"
proof -
  let ?old = "obj_bytes ob f"
  have len: "length ?old = sizeof_Obj ob" by (rule obj_bytes_length[OF assms(1)])
  have "nat (int off + 2) = off + 2" by linarith
  moreover have "take (off + 2) ?old = take off ?old @ take 2 (drop off ?old)" by (rule take_add)
  ultimately show "ptr_store (ob, int off + 2) (put16 q) f = Inr (obj_store ob (take off ?old @ stamped q (drop off ?old)) f)"
    using assms(2) len by (simp add: ptr_store_def Let_def stamped_def add.commute del: add_2_eq_Suc add_2_eq_Suc')
  have "length (take off ?old @ stamped q (drop off ?old)) = sizeof_Obj ob" using len assms(2) by simp
  from obj_store_bytes[OF this, of f] show "ptr_bytes (ob, int off) (obj_store ob (take off ?old @ stamped q (drop off ?old)) f)
      = stamped q (drop off ?old)"
    using len assms(2) by (simp add: ptr_bytes_def)
qed

text \<open>The packets that the firmware sends on its own.\<close>

definition status_ptrs :: "(Obj \<times> nat \<times> nat) list" where
  "status_ptrs = [(OSystemStatus, 0, sizeof_SystemStatusPacket),
     (OJointStatus, 0, sizeof_JointStatusPacket),
     (OJointStatus, sizeof_JointStatusPacket, sizeof_JointStatusPacket),
     (ODriveStatus, 0, sizeof_DifferentialDriveStatusPacket), (OSonarStatus, 0, sizeof_SonarStatusPacket),
     (OStringMessage, 0, sizeof_StringMessagePacket), (OResponse, 0, sizeof_ResponsePacket),
     (OEndEpoch, 0, sizeof_PacketHeader)]"

lemma stamp_system_status:
  "obj_store OSystemStatus (stamped q (obj_bytes OSystemStatus f)) f
     = f\<lparr>system_status := (system_status f)\<lparr>ss_header := (ss_header (system_status f))\<lparr>h_seq := q\<rparr>\<rparr>\<rparr>"
proof -
  let ?p = "(system_status f)\<lparr>ss_header := (ss_header (system_status f))\<lparr>h_seq := q\<rparr>\<rparr>"
  have "stamped q (obj_bytes OSystemStatus f) = put_SystemStatusPacket ?p"
    by (simp add: put_SystemStatusPacket_def stamped_header)
  then show ?thesis using system_status.exact_back[of ?p] by simp
qed

lemma stamp_drive_status:
  "obj_store ODriveStatus (stamped q (obj_bytes ODriveStatus f)) f
     = f\<lparr>drive_status := (drive_status f)\<lparr>ds_header := (ds_header (drive_status f))\<lparr>h_seq := q\<rparr>\<rparr>\<rparr>"
proof -
  let ?p = "(drive_status f)\<lparr>ds_header := (ds_header (drive_status f))\<lparr>h_seq := q\<rparr>\<rparr>"
  have "stamped q (obj_bytes ODriveStatus f) = put_DifferentialDriveStatusPacket ?p"
    by (simp add: put_DifferentialDriveStatusPacket_def stamped_header)
  then show ?thesis using drive_status.exact_back[of ?p] by simp
qed

lemma stamp_sonar_status:
  assumes "wf_fw f"
  shows "obj_store OSonarStatus (stamped q (obj_bytes OSonarStatus f)) f
     = f\<lparr>sonar_status := (sonar_status f)\<lparr>sns_header := (sns_header (sonar_status f))\<lparr>h_seq := q\<rparr>\<rparr>\<rparr>"
proof -
  let ?p = "(sonar_status f)\<lparr>sns_header := (sns_header (sonar_status f))\<lparr>h_seq := q\<rparr>\<rparr>"
  have "wf_SonarStatusPacket ?p" using assms by (simp add: wf_fw_def wf_SonarStatusPacket_def)
  moreover have "stamped q (obj_bytes OSonarStatus f) = put_SonarStatusPacket ?p"
    by (simp add: put_SonarStatusPacket_def stamped_header)
  ultimately show ?thesis using sonar_status.exact_back[of ?p] by simp
qed

lemma stamp_string_message:
  assumes "wf_fw f"
  shows "obj_store OStringMessage (stamped q (obj_bytes OStringMessage f)) f
     = f\<lparr>string_message := (string_message f)\<lparr>sm_header := (sm_header (string_message f))\<lparr>h_seq := q\<rparr>\<rparr>\<rparr>"
proof -
  let ?p = "(string_message f)\<lparr>sm_header := (sm_header (string_message f))\<lparr>h_seq := q\<rparr>\<rparr>"
  have "wf_StringMessagePacket ?p" using assms by (simp add: wf_fw_def wf_StringMessagePacket_def)
  moreover have "stamped q (obj_bytes OStringMessage f) = put_StringMessagePacket ?p"
    by (simp add: put_StringMessagePacket_def stamped_header)
  ultimately show ?thesis using string_message.exact_back[of ?p] by simp
qed

lemma stamp_response:
  "obj_store OResponse (stamped q (obj_bytes OResponse f)) f
     = f\<lparr>response := (response f)\<lparr>rp_header := (rp_header (response f))\<lparr>h_seq := q\<rparr>\<rparr>\<rparr>"
proof -
  let ?p = "(response f)\<lparr>rp_header := (rp_header (response f))\<lparr>h_seq := q\<rparr>\<rparr>"
  have "stamped q (obj_bytes OResponse f) = put_ResponsePacket ?p"
    by (simp add: put_ResponsePacket_def stamped_header)
  then show ?thesis using response.exact_back[of ?p] by simp
qed

lemma stamp_end_epoch:
  "obj_store OEndEpoch (stamped q (obj_bytes OEndEpoch f)) f = f\<lparr>end_epoch := (end_epoch f)\<lparr>h_seq := q\<rparr>\<rparr>"
proof -
  let ?p = "(end_epoch f)\<lparr>h_seq := q\<rparr>"
  have "stamped q (obj_bytes OEndEpoch f) = put_PacketHeader ?p"
    using stamped_header[of q "end_epoch f" "[]"] by simp
  then show ?thesis using header.exact_back[of ?p] by simp
qed

definition stamp_joint :: "u16 \<Rightarrow> JointStatusPacket \<Rightarrow> JointStatusPacket" where
  "stamp_joint q p = p\<lparr>jst_header := (jst_header p)\<lparr>pi_header := (pi_header (jst_header p))\<lparr>h_seq := q\<rparr>\<rparr>\<rparr>"

lemma stamp_joint_status:
  assumes "wf_fw f" and "i < 2"
  shows "obj_store OJointStatus (take (i * 16) (obj_bytes OJointStatus f)
      @ stamped q (drop (i * 16) (obj_bytes OJointStatus f))) f
     = f\<lparr>joint_status := (joint_status f)[i := stamp_joint q (joint_status f ! i)]\<rparr>"
proof -
  have put: "stamped q (put_JointStatusPacket p @ r) = put_JointStatusPacket (stamp_joint q p) @ r" for p r
    by (simp add: put_JointStatusPacket_def put_PacketIndexed_def stamped_header stamp_joint_def)
  have sz: "sizeof_JointStatusPacket = 16" by (simp add: sizeof_JointStatusPacket_def)
  have "length (joint_status f) = 2" using assms(1) by (simp add: wf_fw_def)
  then obtain a b where js: "joint_status f = [a, b]" unfolding length_two by blast
  let ?xs = "(joint_status f)[i := stamp_joint q (joint_status f ! i)]"
  have eq: "take (i * 16) (obj_bytes OJointStatus f) @ stamped q (drop (i * 16) (obj_bytes OJointStatus f))
      = concat (map put_JointStatusPacket ?xs)"
    using assms(2) put[of _ "[]"] by (auto simp: js less_2_cases_iff sz put)
  have "length ?xs = 2" by (simp only: length_list_update js) simp
  then have "get_array get_JointStatusPacket 2 (concat (map put_JointStatusPacket ?xs)) = ?xs"
    using joint_status.array_get[of ?xs "[]"] by simp
  then show ?thesis by (simp only: eq obj_store.simps)
qed

lemma stamp_joint_frame:
  assumes "wf_fw f" and "i < 2"
  shows "fw_ready (f\<lparr>joint_status := (joint_status f)[i := stamp_joint q (joint_status f ! i)]\<rparr>) = fw_ready f"
proof -
  have "length (joint_status f) = 2" using assms(1) by (simp add: wf_fw_def)
  then obtain a b where ab: "joint_status f = [a, b]" unfolding length_two by blast
  show ?thesis
    using assms(2) by (auto simp: less_2_cases_iff ready_defs header_ok_def stamp_joint_def ab)
qed

lemma stamp_frame:
  "fw_ready (f\<lparr>system_status := (system_status f)\<lparr>ss_header := (ss_header (system_status f))\<lparr>h_seq := q\<rparr>\<rparr>\<rparr>) = fw_ready f"
  "fw_ready (f\<lparr>drive_status := (drive_status f)\<lparr>ds_header := (ds_header (drive_status f))\<lparr>h_seq := q\<rparr>\<rparr>\<rparr>) = fw_ready f"
  "fw_ready (f\<lparr>sonar_status := (sonar_status f)\<lparr>sns_header := (sns_header (sonar_status f))\<lparr>h_seq := q\<rparr>\<rparr>\<rparr>) = fw_ready f"
  "fw_ready (f\<lparr>string_message := (string_message f)\<lparr>sm_header := (sm_header (string_message f))\<lparr>h_seq := q\<rparr>\<rparr>\<rparr>) = fw_ready f"
  "fw_ready (f\<lparr>response := (response f)\<lparr>rp_header := (rp_header (response f))\<lparr>h_seq := q\<rparr>\<rparr>\<rparr>) = fw_ready f"
  "fw_ready (f\<lparr>end_epoch := (end_epoch f)\<lparr>h_seq := q\<rparr>\<rparr>) = fw_ready f"
  by (auto simp: ready_defs header_ok_def stamp_joint_def nth_list_update wf_SonarStatusPacket_def
      wf_StringMessagePacket_def)

lemma put_JointStatus_1: "(put_JointStatusPacket p @ r) ! Suc 0 = h_size (pi_header (jst_header p))"
  "put_JointStatusPacket p ! Suc 0 = h_size (pi_header (jst_header p))"
  by (simp_all add: put_JointStatusPacket_def put_PacketIndexed_def put_PacketHeader_bytes)

lemma stamp_ready:
  assumes "fw_ready f" and "(ob, off, n) \<in> set status_ptrs"
  shows "fw_ready (obj_store ob (take off (obj_bytes ob f) @ stamped q (drop off (obj_bytes ob f))) f)"
    and "serial_ok (obj_store ob (take off (obj_bytes ob f) @ stamped q (drop off (obj_bytes ob f))) f) = serial_ok f"
    and "obj_bytes ob f ! (off + 1) = word_of_nat n" and "off + n \<le> sizeof_Obj ob" and "4 \<le> n" and "n < 256"
proof -
  note w = fw_readyD[OF assms(1)]
  have joint: "fw_ready (obj_store OJointStatus (take (i * 16) (obj_bytes OJointStatus f)
      @ stamped q (drop (i * 16) (obj_bytes OJointStatus f))) f)" if "i < 2" for i
    unfolding stamp_joint_status[OF w(1) that] using stamp_joint_frame[OF w(1) that] assms(1) by simp
  have whole: "fw_ready (obj_store ob (stamped q (obj_bytes ob f)) f)"
    if "ob \<in> {OSystemStatus, ODriveStatus, OSonarStatus, OStringMessage, OResponse, OEndEpoch}" for ob
    using that assms(1)
    by (elim insertE emptyE)
      (simp_all only: stamp_system_status stamp_drive_status stamp_sonar_status[OF w(1)]
        stamp_string_message[OF w(1)] stamp_response stamp_end_epoch stamp_frame)
  have sz: "sizeof_JointStatusPacket = 16" by (simp add: sizeof_JointStatusPacket_def)
  consider "off = 0" "ob \<in> {OSystemStatus, ODriveStatus, OSonarStatus, OStringMessage, OResponse, OEndEpoch}"
    | i where "i < 2" "ob = OJointStatus" "off = i * 16"
  proof -
    assume a: "off = 0 \<Longrightarrow> ob \<in> {OSystemStatus, ODriveStatus, OSonarStatus, OStringMessage, OResponse, OEndEpoch} \<Longrightarrow> thesis"
      and b: "\<And>i. i < 2 \<Longrightarrow> ob = OJointStatus \<Longrightarrow> off = i * 16 \<Longrightarrow> thesis"
    show thesis using assms(2) a b[of 0] b[of 1] by (auto simp: status_ptrs_def sz)
  qed
  then show "fw_ready (obj_store ob (take off (obj_bytes ob f) @ stamped q (drop off (obj_bytes ob f))) f)"
  proof cases
    case 1
    have "take off (obj_bytes ob f) @ stamped q (drop off (obj_bytes ob f)) = stamped q (obj_bytes ob f)"
      by (simp only: 1(1) take_0 drop_0 append_Nil)
    then show ?thesis using whole[OF 1(2)] by (simp only:)
  next
    case 2
    then show ?thesis using joint[OF 2(1)] by (simp only:)
  qed
  show "serial_ok (obj_store ob (take off (obj_bytes ob f) @ stamped q (drop off (obj_bytes ob f))) f) = serial_ok f"
    by (cases ob) (simp_all add: serial_ok_def)
  show "off + n \<le> sizeof_Obj ob" "4 \<le> n" "n < 256"
    using assms(2) by (auto simp: status_ptrs_def sizeof_Obj_def sizeof_defs)
  have "length (joint_status f) = 2" using w(1) by (simp add: wf_fw_def)
  then obtain a b where ab: "joint_status f = [a, b]" unfolding length_two by blast
  have skip: "(put_JointStatusPacket a @ xs) ! 17 = xs ! 1" for xs
    by (simp add: nth_append sz)
  show "obj_bytes ob f ! (off + 1) = word_of_nat n"
    using assms(2) w(4)
    by (auto simp: status_ptrs_def ab skip headers_ok_def header_ok_def put_PacketHeader_bytes put_PacketIndexed_def
        put_SystemStatusPacket_def put_JointStatus_1 put_DifferentialDriveStatusPacket_def
        put_SonarStatusPacket_def put_StringMessagePacket_def put_ResponsePacket_def sz)
qed

section \<open>The actions as clients of the deferred handler\<close>

text \<open>
  \<open>quiet\<close>: a step that leaves the receive queue alone and does not look at the bookkeeping of
  the buffers, which is what the deferred handler asks of its actions.
\<close>

definition quiet :: "(orazio \<Rightarrow> orazio result) \<Rightarrow> bool" where
  "quiet g \<longleftrightarrow> (\<forall>s s'. g s = Inr s' \<longrightarrow> same_queue s s')
     \<and> (\<forall>s I. g (s\<lparr>packet_infos := I\<rparr>) = bindR (g s) (\<lambda>s'. Inr (s'\<lparr>packet_infos := I\<rparr>)))"

definition quiet_call :: "(orazio \<Rightarrow> ('r \<times> orazio) result) \<Rightarrow> bool" where
  "quiet_call g \<longleftrightarrow> (\<forall>s r s'. g s = Inr (r, s') \<longrightarrow> same_queue s s')
     \<and> (\<forall>s I. g (s\<lparr>packet_infos := I\<rparr>) = bindR (g s) (\<lambda>(r, s'). Inr (r, s'\<lparr>packet_infos := I\<rparr>)))"

lemma quietI:
  "\<lbrakk>\<And>s s'. g s = Inr s' \<Longrightarrow> same_queue s s'; \<And>s I. g (s\<lparr>packet_infos := I\<rparr>) = bindR (g s) (\<lambda>s'. Inr (s'\<lparr>packet_infos := I\<rparr>))\<rbrakk>
   \<Longrightarrow> quiet g"
  "\<lbrakk>\<And>s r s'. h s = Inr (r, s') \<Longrightarrow> same_queue s s';
    \<And>s I. h (s\<lparr>packet_infos := I\<rparr>) = bindR (h s) (\<lambda>(r, s'). Inr (r, s'\<lparr>packet_infos := I\<rparr>))\<rbrakk> \<Longrightarrow> quiet_call h"
  by (simp_all add: quiet_def quiet_call_def)

lemma quietD:
  "quiet g \<Longrightarrow> g s = Inr s' \<Longrightarrow> same_queue s s'"
  "quiet g \<Longrightarrow> g (s\<lparr>packet_infos := I\<rparr>) = bindR (g s) (\<lambda>s'. Inr (s'\<lparr>packet_infos := I\<rparr>))"
  "quiet_call h \<Longrightarrow> h s = Inr (r, s') \<Longrightarrow> same_queue s s'"
  "quiet_call h \<Longrightarrow> h (s\<lparr>packet_infos := I\<rparr>) = bindR (h s) (\<lambda>(r, s'). Inr (r, s'\<lparr>packet_infos := I\<rparr>))"
  by (simp_all add: quiet_def quiet_call_def)

lemma quiet_bind:
  assumes "quiet g" and "quiet h"
  shows "quiet (\<lambda>s. bindR (g s) h)"
  by (rule quietI) (auto simp: bindR_Inr_iff bindR_bindR quietD(2)[OF assms(1)] quietD(2)[OF assms(2)]
    dest!: quietD(1)[OF assms(1)] quietD(1)[OF assms(2)] elim: same_queue_trans)

lemma quiet_call_bind:
  assumes "quiet_call g" and "\<And>r. quiet (h r)"
  shows "quiet (\<lambda>s. bindR (g s) (\<lambda>(r, s1). h r s1))"
  by (rule quietI) (auto simp: bindR_Inr_iff bindR_bindR quietD(4)[OF assms(1)] quietD(2)[OF assms(2)] split_beta
    dest!: quietD(3)[OF assms(1)] quietD(1)[OF assms(2)] elim: same_queue_trans)

lemma quiet_call_call:
  assumes "quiet_call g" and "\<And>r. quiet_call (h r)"
  shows "quiet_call (\<lambda>s. bindR (g s) (\<lambda>(r, s1). h r s1))"
  by (rule quietI) (auto simp: bindR_Inr_iff bindR_bindR quietD(4)[OF assms(1)] quietD(4)[OF assms(2)] split_beta
    dest!: quietD(3)[OF assms(1)] quietD(3)[OF assms(2)] elim: same_queue_trans)

lemma quiet_then_call:
  assumes "quiet g" and "quiet_call h"
  shows "quiet_call (\<lambda>s. bindR (g s) h)"
  by (rule quietI) (auto simp: bindR_Inr_iff bindR_bindR quietD(2)[OF assms(1)] quietD(4)[OF assms(2)]
    dest!: quietD(1)[OF assms(1)] quietD(3)[OF assms(2)] elim: same_queue_trans)

lemma quiet_return:
  "quiet Inr" "quiet (\<lambda>s. Inl e)" "quiet_call (\<lambda>s. Inr (r, s))" "quiet_call (\<lambda>s. Inl e)"
  by (simp_all add: quiet_def quiet_call_def)

lemma quiet_fw:
  "quiet (run_fw g)" "quiet_call (call_fw h)"
  by (auto simp: quiet_def quiet_call_def run_fw_def call_fw_def same_queue_def bindR_def split: sum.splits)

lemma quiet_upd:
  "quiet h \<Longrightarrow> quiet (\<lambda>s. h (upd_fw g s))" "quiet_call k \<Longrightarrow> quiet_call (\<lambda>s. k (upd_fw g s))"
  "quiet h \<Longrightarrow> quiet (\<lambda>s. h (upd_status j s))" "quiet_call k \<Longrightarrow> quiet_call (\<lambda>s. k (upd_status j s))"
proof -
  have u: "quiet (\<lambda>s. Inr (upd_fw g s))" for g by (simp add: quiet_def upd_fw_def same_queue_def)
  then have v: "quiet (\<lambda>s. Inr (upd_status j s))" by (simp add: upd_status_def)
  show "quiet h \<Longrightarrow> quiet (\<lambda>s. h (upd_fw g s))" "quiet_call k \<Longrightarrow> quiet_call (\<lambda>s. k (upd_fw g s))"
    using quiet_bind[OF u, of h g] quiet_then_call[OF u, of k g] by simp_all
  show "quiet h \<Longrightarrow> quiet (\<lambda>s. h (upd_status j s))" "quiet_call k \<Longrightarrow> quiet_call (\<lambda>s. k (upd_status j s))"
    using quiet_bind[OF v, of h] quiet_then_call[OF v, of k] by simp_all
qed

lemma quiet_if:
  "quiet g \<Longrightarrow> quiet h \<Longrightarrow> quiet (\<lambda>s. if b then g s else h s)"
  "quiet_call k \<Longrightarrow> quiet_call l \<Longrightarrow> quiet_call (\<lambda>s. if b then k s else l s)"
  by (cases b; simp)+

lemma quiet_sendPacket: "quiet_call (Orazio_sendPacket p)"
  by (auto simp: quiet_call_def Orazio_sendPacket_def upd_status_def upd_fw_def same_queue_def bindR_def Let_def
      split: sum.splits prod.splits if_splits)

lemma quiet_send: "quiet (send p)"
  unfolding send_def by (rule quiet_call_bind[OF quiet_sendPacket quiet_return(1)])

lemma quiet_sendResponse: "quiet (Orazio_sendResponse p r)"
  unfolding Orazio_sendResponse_def by (rule quiet_upd(1)[OF quiet_send])

lemma quiet_packet_copy: "quiet_call (packet_copy args off p sz)"
proof -
  have "quiet_call (\<lambda>s. bindR (run_fw (ptr_store (dest, off) bs) s) (\<lambda>s1. case post_copy_fn args of
      None \<Rightarrow> Inr (Success, s1) | Some g \<Rightarrow> call_fw (run_post_copy g) s1))" for dest bs
    by (rule quiet_then_call[OF quiet_fw(1)], cases "post_copy_fn args")
      (simp_all add: quiet_return quiet_fw)
  note q = this[unfolded quiet_call_def]
  show ?thesis
    unfolding quiet_call_def packet_copy_def
    using q by (auto split: option.splits)
qed

text \<open>What the two handlers do once they have read the packet.\<close>

lemma quiet_reply:
  "quiet_call (\<lambda>s. bindR (Orazio_sendResponse p r s) (\<lambda>s1. Inr (st, s1)))"
  by (rule quiet_then_call[OF quiet_sendResponse quiet_return(3)])

lemma quiet_echo: "quiet (\<lambda>s. case dest of None \<Rightarrow> Inl e | Some d \<Rightarrow> send (d, off) s)"
  by (cases dest) (simp_all add: quiet_return quiet_send)

lemma quiet_target: "quiet (\<lambda>s. case t of None \<Rightarrow> Inr s | Some d \<Rightarrow> send d s)"
  by (cases t) (simp_all add: quiet_return quiet_send)

definition handle_body :: "PacketHandlerArgs \<Rightarrow> PacketHeader \<Rightarrow> int \<Rightarrow> addr \<Rightarrow> orazio \<Rightarrow> (PacketStatus \<times> orazio) result" where
  "handle_body args hdr off p s =
     bindR (if action_flags args AND COPY \<noteq> 0 then packet_copy args off p (unat (h_size hdr)) s else Inr (Success, s)) (\<lambda>(r, s).
     bindR (if action_flags args AND ECHO \<noteq> 0
            then (case args_dest args of None \<Rightarrow> Inl NullDeref | Some dest \<Rightarrow> send (dest, off) s) else Inr s) (\<lambda>s.
     bindR (Orazio_sendResponse hdr r s) (\<lambda>s. Inr (Success, s))))"

lemma quiet_handle_body: "quiet_call (handle_body args hdr off p)"
  unfolding handle_body_def
  by (rule quiet_call_call quiet_then_call quiet_if quiet_packet_copy quiet_return quiet_echo quiet_reply)+

text \<open>\<open>Orazio_handlePacket\<close>, told apart by what it reads from the packet.\<close>

definition handle_index :: "PacketHandlerArgs \<Rightarrow> addr \<Rightarrow> 'a store_scheme \<Rightarrow> s8" where
  "handle_index args p s = (if 0 \<le> sint (max_index args) then mem s (p + sizeof_PacketHeader) else - 1)"

definition handle_offset :: "PacketHandlerArgs \<Rightarrow> PacketHeader \<Rightarrow> s8 \<Rightarrow> int" where
  "handle_offset args hdr idx = (if 0 \<le> sint (max_index args) \<and> action_flags args AND COPY \<noteq> 0
     then sint idx * int (unat (h_size hdr)) else 0)"

definition handle_prepare :: "PacketHandlerArgs \<Rightarrow> PacketHeader \<Rightarrow> orazio \<Rightarrow> orazio" where
  "handle_prepare args hdr s =
     (let s = upd_status (\<lambda>st. st\<lparr>ss_rx_seq := h_seq hdr\<rparr>) s in
      if action_flags args AND DISABLE_DRIVE \<noteq> 0
      then upd_fw (\<lambda>f. f\<lparr>drive_status := (drive_status f)\<lparr>ds_enabled := 0\<rparr>\<rparr>) s else s)"

lemma Orazio_handlePacket_eq:
  fixes s :: orazio and p :: addr
  assumes "handler_args a = Some args"
  defines "hdr \<equiv> packet_header p s" and "idx \<equiv> handle_index args p s"
  shows "Orazio_handlePacket p a s =
    (if 0 \<le> sint (max_index args) \<and> sint (max_index args) \<le> sint idx
     then bindR (Orazio_sendResponse hdr GenericError (upd_status (\<lambda>st. st\<lparr>ss_rx_seq := h_seq hdr\<rparr>) s))
            (\<lambda>s1. Inr (GenericError, s1))
     else handle_body args hdr (handle_offset args hdr idx) p (handle_prepare args hdr s))"
proof -
  have "mem (upd_status g s) = mem s" for g by (simp add: upd_status_def upd_fw_def)
  then show ?thesis
    using assms(1)
    by (cases "args_dest args")
      (simp_all add: Orazio_handlePacket_def handle_body_def handle_prepare_def handle_offset_def handle_index_def
        hdr_def idx_def Let_def del: handler_args.simps)
qed

lemma quiet_handle_prepare: "quiet_call k \<Longrightarrow> quiet_call (\<lambda>s. k (handle_prepare args hdr s))"
proof -
  assume "quiet_call k"
  then show "quiet_call (\<lambda>s. k (handle_prepare args hdr s))"
    unfolding handle_prepare_def Let_def
    by (cases "action_flags args AND DISABLE_DRIVE \<noteq> 0")
      (simp_all only: if_True if_False simp_thms quiet_upd(4) quiet_upd(4)[OF quiet_upd(2)])
qed

lemma quiet_handlePacket: "quiet_call (Orazio_handlePacket p a)"
proof (cases "handler_args a")
  case None
  then have "Orazio_handlePacket p a = (\<lambda>s. Inl NullDeref)"
    by (simp add: Orazio_handlePacket_def fun_eq_iff del: handler_args.simps)
  then show ?thesis by (simp add: quiet_return)
next
  case (Some args)
  note eq = Orazio_handlePacket_eq[OF Some]
  let ?rej = "\<lambda>hdr s. bindR (Orazio_sendResponse hdr GenericError (upd_status (\<lambda>st. st\<lparr>ss_rx_seq := h_seq hdr\<rparr>) s))
    (\<lambda>s1. Inr (GenericError, s1))"
  have q: "quiet_call (?rej hdr)" for hdr
    by (rule quiet_upd(4)[OF quiet_reply])
  have b: "quiet_call (\<lambda>s. handle_body args hdr off p (handle_prepare args hdr s))" for hdr off
    by (rule quiet_handle_prepare[OF quiet_handle_body])
  have same: "packet_header p (s\<lparr>packet_infos := I\<rparr>) = packet_header p s"
    "handle_index args p (s\<lparr>packet_infos := I\<rparr>) = handle_index args p s" for s :: orazio and I
    by (simp_all add: packet_header_def handle_index_def)
  show ?thesis
  proof (rule quietI(2))
    fix s r s'
    assume "Orazio_handlePacket p a s = Inr (r, s')"
    then show "same_queue s s'" unfolding eq using quietD(3)[OF q] quietD(3)[OF b] by (auto split: if_splits)
  next
    fix s :: orazio and I
    show "Orazio_handlePacket p a (s\<lparr>packet_infos := I\<rparr>)
        = bindR (Orazio_handlePacket p a s) (\<lambda>(r, s'). Inr (r, s'\<lparr>packet_infos := I\<rparr>))"
      unfolding eq same using quietD(4)[OF q] quietD(4)[OF b] by auto
  qed
qed

lemma quiet_handleParamCtl: "quiet_call (Orazio_handleParamCtl p a)"
proof -
  let ?body = "\<lambda>ctl s. bindR (call_fw (param_action (pc_action ctl) (pc_param_type ctl) (pc_index ctl))
        (upd_status (\<lambda>st. st\<lparr>ss_rx_seq := h_seq (pc_header ctl)\<rparr>) s)) (\<lambda>(r, s).
      bindR (case param_target (pc_param_type ctl) (pc_index ctl) of None \<Rightarrow> Inr s | Some target \<Rightarrow> send target s) (\<lambda>s.
      bindR (Orazio_sendResponse (pc_header ctl) r s) (\<lambda>s. Inr (r, s))))"
  have q: "quiet_call (?body ctl)" for ctl
    by (rule quiet_upd(4)) (intro quiet_call_call quiet_then_call quiet_fw quiet_target quiet_reply)
  show ?thesis
    using quietD(3,4)[OF q] by (intro quietI(2)) (simp_all add: Orazio_handleParamCtl_def Let_def)
qed

interpretation orazio_acts: deferred_actions orazio_action
proof unfold_locales
  fix g p args s s' I
  have "quiet (orazio_action g p args)"
    unfolding orazio_action_def
    by (cases g; simp; rule quiet_call_bind[OF _ quiet_return(1)];
        simp add: quiet_handlePacket quiet_handleParamCtl)
  note q = quietD(1,2)[OF this]
  show "orazio_action g p args s = Inr s' \<Longrightarrow> same_queue s s'" by (rule q(1))
  show "orazio_action g p args (s\<lparr>packet_infos := I\<rparr>) = bindR (orazio_action g p args s) (\<lambda>s'. Inr (s'\<lparr>packet_infos := I\<rparr>))"
    by (rule q(2))
qed

section \<open>What sending does\<close>

definition orazio_inv :: "orazio \<Rightarrow> bool" where
  "orazio_inv s \<longleftrightarrow> handler_inv (base_handler s) s \<and> tx_ok (base_handler s) \<and> fw_ready (fw s) \<and> serial_ok (fw s)"

lemma handler_inv_same_rx: "same_rx h h' \<Longrightarrow> handler_inv h' s = handler_inv h s"
  by (simp add: same_rx_def handler_inv_def receiver_inv_def table_ok_def)

text \<open>The packet at a pointer: as many bytes as its header says.\<close>

definition packet_at :: "Obj \<times> nat \<Rightarrow> 'a firmware_scheme \<Rightarrow> u8 list" where
  "packet_at = (\<lambda>(ob, off) f. take (unat (obj_bytes ob f ! (off + 1))) (drop off (obj_bytes ob f)))"

definition count_tx :: "PacketStatus \<Rightarrow> 'a firmware_scheme \<Rightarrow> 'a firmware_scheme" where
  "count_tx status f = f\<lparr>system_status := (if status = Success
     then (system_status f)\<lparr>ss_tx_packets := ss_tx_packets (system_status f) + 1\<rparr>
     else (system_status f)\<lparr>ss_tx_packet_errors := ss_tx_packet_errors (system_status f) + 1\<rparr>)\<rparr>"

definition stamp :: "Obj \<times> nat \<Rightarrow> 'a firmware_scheme \<Rightarrow> 'a firmware_scheme" where
  "stamp = (\<lambda>(ob, off) f. obj_store ob (take off (obj_bytes ob f)
     @ stamped (global_seq f) (drop off (obj_bytes ob f))) f)"

definition room :: "nat \<Rightarrow> PacketHandler \<Rightarrow> bool" where
  "room n h \<longleftrightarrow> length (tx_items h) + n + 3 \<le> 254"

lemma Orazio_sendPacket_spec:
  fixes s :: orazio and ob :: Obj and off :: nat
  assumes wf: "wf_fw (fw s)" and tx: "tx_ok (base_handler s)"
  defines "n \<equiv> unat (obj_bytes ob (fw s) ! (off + 1))"
  assumes size: "4 \<le> n" "off + n \<le> sizeof_Obj ob"
  shows "\<exists>h. Orazio_sendPacket (ob, int off) s =
      (let status = if room n (base_handler s) then Success else TxBufferFull in
       Inr (status, s\<lparr>base_handler := h, fw := count_tx status (stamp (ob, off) (fw s))\<rparr>))
    \<and> tx_ok h \<and> same_rx (base_handler s) h
    \<and> tx_items h = tx_items (base_handler s)
        @ (if room n (base_handler s) then frame (stamped (global_seq (fw s)) (packet_at (ob, off) (fw s))) else [])"
proof -
  let ?q = "global_seq (fw s)" and ?old = "drop off (obj_bytes ob (fw s))"
  let ?pkt = "stamped ?q ?old" and ?f = "stamp (ob, off) (fw s)"
  have off4: "off + 4 \<le> sizeof_Obj ob" using size by simp
  have len: "length (obj_bytes ob (fw s)) = sizeof_Obj ob" by (rule obj_bytes_length[OF wf])
  have store: "ptr_store (ob, int off + 2) (put16 ?q) (fw s) = Inr ?f"
    using ptr_store_stamp(1)[OF wf off4, of ?q] by (simp add: stamp_def)
  have bytes: "ptr_bytes (ob, int off) ?f = ?pkt"
    using ptr_store_stamp(2)[OF wf off4, of ?q] by (simp add: stamp_def)
  have pkt1: "unat (?pkt ! 1) = n" and plen: "n \<le> length ?pkt"
    using size len by (simp_all add: n_def)
  have taken: "take n ?pkt = stamped ?q (packet_at (ob, off) (fw s))"
    using take_stamped[OF size(1), of ?old ?q] size(2) len by (simp add: packet_at_def n_def)
  show ?thesis
  proof (cases "room n (base_handler s)")
    case True
    then have "length (tx_items (base_handler s)) + unat (?pkt ! 1) + 3 \<le> 254"
      unfolding room_def pkt1 by simp
    note fit = sendPacket_fits[OF tx _ this, unfolded pkt1 taken, OF plen]
    obtain h where h: "PacketHandler_sendPacket ?pkt (base_handler s) = (Success, h)"
      using fit(1) by (cases "PacketHandler_sendPacket ?pkt (base_handler s)") simp
    have "Orazio_sendPacket (ob, int off) s = Inr (Success, s\<lparr>base_handler := h, fw := count_tx Success ?f\<rparr>)"
      using plen pkt1
      by (simp add: Orazio_sendPacket_def store bytes h Let_def upd_status_def upd_fw_def count_tx_def)
    then show ?thesis using True fit(2-4) h by (intro exI[of _ h]) (simp add: Let_def)
  next
    case False
    then have "PacketHandler_sendPacket ?pkt (base_handler s) = (TxBufferFull, base_handler s)"
      by (intro sendPacket_full[OF tx], unfold pkt1) (simp add: room_def del: length_tx_items)
    then have "Orazio_sendPacket (ob, int off) s
        = Inr (TxBufferFull, s\<lparr>base_handler := base_handler s, fw := count_tx TxBufferFull ?f\<rparr>)"
      by (simp add: Orazio_sendPacket_def store bytes Let_def upd_status_def upd_fw_def count_tx_def)
    then show ?thesis using False tx by (intro exI[of _ "base_handler s"]) (simp add: Let_def)
  qed
qed

lemma count_tx_ready [simp]:
  "fw_ready (count_tx st f) = fw_ready f" "serial_ok (count_tx st f) = serial_ok f"
  by (simp_all add: count_tx_def)

lemma same_queue_fields [simp]:
  "same_queue s (s\<lparr>base_handler := h, fw := f\<rparr>)" "same_queue s (s\<lparr>fw := f\<rparr>)" "same_queue s (s\<lparr>base_handler := h\<rparr>)"
  by (simp_all add: same_queue_def)

text \<open>Sending one of the packets of \<open>status_ptrs\<close> always returns and keeps the invariant.\<close>

lemma send_status:
  assumes inv: "orazio_inv s" and ptr: "(ob, off, n) \<in> set status_ptrs"
  shows "\<exists>h st. send (ob, int off) s = Inr (s\<lparr>base_handler := h, fw := count_tx st (stamp (ob, off) (fw s))\<rparr>)
    \<and> orazio_inv (s\<lparr>base_handler := h, fw := count_tx st (stamp (ob, off) (fw s))\<rparr>)
    \<and> tx_items h = tx_items (base_handler s)
        @ (if room n (base_handler s) then frame (stamped (global_seq (fw s)) (packet_at (ob, off) (fw s))) else [])"
proof -
  have r: "fw_ready (fw s)" "serial_ok (fw s)" "tx_ok (base_handler s)" "handler_inv (base_handler s) s"
    using inv by (simp_all add: orazio_inv_def)
  note st = stamp_ready[OF r(1) ptr]
  have n: "unat (obj_bytes ob (fw s) ! (off + 1)) = n" using st(3,6) by (simp add: unat_of_nat)
  obtain h where h: "Orazio_sendPacket (ob, int off) s =
      (let status = if room n (base_handler s) then Success else TxBufferFull in
       Inr (status, s\<lparr>base_handler := h, fw := count_tx status (stamp (ob, off) (fw s))\<rparr>))"
    "tx_ok h" "same_rx (base_handler s) h"
    "tx_items h = tx_items (base_handler s)
        @ (if room n (base_handler s) then frame (stamped (global_seq (fw s)) (packet_at (ob, off) (fw s))) else [])"
    using Orazio_sendPacket_spec[OF fw_readyD(1)[OF r(1)] r(3), of ob off] st(4,5) unfolding n by blast
  have "orazio_inv (s\<lparr>base_handler := h, fw := count_tx x (stamp (ob, off) (fw s))\<rparr>)" for x
  proof -
    let ?s = "s\<lparr>base_handler := h, fw := count_tx x (stamp (ob, off) (fw s))\<rparr>"
    have "handler_inv h ?s" using same_queue_inv(5)[of s ?s h] handler_inv_same_rx[OF h(3), of s] r(4) by simp
    then show ?thesis using h(2) st(1,2)[of "global_seq (fw s)"] r(2) by (simp add: orazio_inv_def stamp_def)
  qed
  then show ?thesis
    using h(1,4)
    by (intro exI[of _ h] exI[of _ "if room n (base_handler s) then Success else TxBufferFull"])
      (simp add: send_def Let_def)
qed

end
