(* ===== verification/CommCycle.thy ===== *)
theory CommCycle
  imports CommInv
begin

text \<open>
  One communication cycle keeps the invariant, and only the processing of a received packet
  can fault in it: receiving, queueing the periodic packets and transmitting always return.
\<close>

section \<open>Steps on the firmware\<close>

lemma orazio_invI:
  assumes "orazio_inv s" and "fw_ready f" and "serial_ok f"
  shows "orazio_inv (s\<lparr>fw := f\<rparr>)"
  using assms same_queue_inv(5)[of s "s\<lparr>fw := f\<rparr>" "base_handler s"] by (simp add: orazio_inv_def)

lemma orazio_invD:
  "orazio_inv s \<Longrightarrow> handler_inv (base_handler s) s" "orazio_inv s \<Longrightarrow> tx_ok (base_handler s)"
  "orazio_inv s \<Longrightarrow> fw_ready (fw s)" "orazio_inv s \<Longrightarrow> serial_ok (fw s)"
  by (simp_all add: orazio_inv_def)

lemma upd_fw_inv:
  "orazio_inv s \<Longrightarrow> (\<And>f. fw_ready f \<Longrightarrow> fw_ready (g f)) \<Longrightarrow> (\<And>f. serial_ok (g f) = serial_ok f) \<Longrightarrow>
    orazio_inv (upd_fw g s)"
  by (simp add: upd_fw_def orazio_invI orazio_invD)

lemma upd_status_inv:
  "orazio_inv s \<Longrightarrow> (\<And>st. ss_header (g st) = ss_header st) \<Longrightarrow> orazio_inv (upd_status g s)"
  unfolding upd_status_def by (rule upd_fw_inv) simp_all

lemma run_fw_inv:
  assumes "orazio_inv s" and "run_fw g s = Inr s'"
    and "\<And>f'. g (fw s) = Inr f' \<Longrightarrow> fw_ready f' \<and> serial_ok f' = serial_ok (fw s)"
  shows "orazio_inv s'"
  using assms by (auto simp: run_fw_def bindR_Inr_iff intro!: orazio_invI dest: orazio_invD)

lemma call_fw_inv:
  assumes "orazio_inv s" and "call_fw g s = Inr (r, s')"
    and "\<And>f'. g (fw s) = Inr (r, f') \<Longrightarrow> fw_ready f' \<and> serial_ok f' = serial_ok (fw s)"
  shows "orazio_inv s'"
  using assms by (auto simp: call_fw_def bindR_Inr_iff intro!: orazio_invI dest: orazio_invD)

section \<open>Sending\<close>

lemma sendPacket_tx_ok:
  assumes "tx_ok h" and "PacketHandler_sendPacket pkt h = (st, h')"
    and "st = Success \<longrightarrow> unat (pkt ! 1) \<le> length pkt"
  shows "tx_ok h'" and "same_rx h h'"
proof -
  have "tx_ok h' \<and> same_rx h h'"
  proof (cases "length (tx_items h) + unat (pkt ! 1) + 3 \<le> 254")
    case True
    have "st = Success"
    proof -
      have "0 \<le> tx_size h" using assms(1) by (simp add: tx_ok_def)
      then have "\<not> 254 - tx_size h < int (unat (pkt ! 1)) + 3"
        using True length_tx_items[of h] by linarith
      then show ?thesis using assms(2) by (auto simp: PacketHandler_sendPacket_def Let_def)
    qed
    then show ?thesis using sendPacket_fits(3,4)[OF assms(1) _ True] assms(2,3) by simp
  next
    case False
    then have "PacketHandler_sendPacket pkt h = (TxBufferFull, h)"
      by (intro sendPacket_full[OF assms(1)]) simp
    then show ?thesis using assms(1,2) by simp
  qed
  then show "tx_ok h'" and "same_rx h h'" by simp_all
qed

lemma send_input_inv:
  assumes inv: "orazio_inv s" and "send p s = Inr s'" and ob: "input_obj (fst p)"
  shows "orazio_inv s'"
proof -
  obtain st0 where call: "Orazio_sendPacket p s = Inr (st0, s')" using assms(2) by (auto simp: send_def bindR_Inr_iff)
  from call obtain f where store: "ptr_store (fst p, snd p + 2) (put16 (global_seq (fw s))) (fw s) = Inr f"
    unfolding Orazio_sendPacket_def by (rule bindR_InrE)
  obtain st h where pkt: "PacketHandler_sendPacket (ptr_bytes p f) (base_handler s) = (st, h)" by (metis surj_pair)
  have size: "\<not> (st = Success \<and> length (ptr_bytes p f) < unat (ptr_bytes p f ! 1))"
    and s'_eq: "s' = (if st = Success
      then upd_status (\<lambda>st. st\<lparr>ss_tx_packets := ss_tx_packets st + 1\<rparr>) (s\<lparr>base_handler := h, fw := f\<rparr>)
      else upd_status (\<lambda>st. st\<lparr>ss_tx_packet_errors := ss_tx_packet_errors st + 1\<rparr>) (s\<lparr>base_handler := h, fw := f\<rparr>))"
    using call by (auto simp: Orazio_sendPacket_def store pkt Let_def split: if_splits)
  have f: "fw_ready f" "serial_ok f = serial_ok (fw s)"
    using ptr_store_ready[OF orazio_invD(3)[OF inv] store] ob by simp_all
  have "unat (ptr_bytes p f ! 1) \<le> length (ptr_bytes p f)" if "st = Success"
    using size that by simp
  then have h: "tx_ok h" "same_rx (base_handler s) h"
    using sendPacket_tx_ok[OF orazio_invD(2)[OF inv] pkt] by simp_all
  have "orazio_inv (s\<lparr>base_handler := h, fw := f\<rparr>)"
    using f h(1) orazio_invD[OF inv] handler_inv_same_rx[OF h(2), of s]
      same_queue_inv(5)[of s "s\<lparr>base_handler := h, fw := f\<rparr>" h]
    by (simp add: orazio_inv_def)
  then show ?thesis unfolding s'_eq by (auto intro: upd_status_inv)
qed

lemma sendResponse_inv:
  assumes inv: "orazio_inv s"
  shows "\<exists>s'. Orazio_sendResponse p r s = Inr s' \<and> orazio_inv s'"
proof -
  let ?s = "upd_fw (\<lambda>f. f\<lparr>response := (response f)\<lparr>rp_p_seq := h_seq p,
       rp_p_type := h_type p, rp_p_result := word_of_int (status_code r)\<rparr>\<rparr>) s"
  have "orazio_inv ?s" by (rule upd_fw_inv[OF inv]) simp_all
  from send_status[OF this, of OResponse 0 sizeof_ResponsePacket] show ?thesis
    by (auto simp: Orazio_sendResponse_def status_ptrs_def)
qed

section \<open>Reactions\<close>

lemma run_post_copy_ready:
  assumes "fw_ready f" and "run_post_copy g f = Inr (r, f')"
  shows "fw_ready f' \<and> serial_ok f' = serial_ok f"
proof (cases g)
  case Fn_driveInit
  then show ?thesis using assms Orazio_driveInit_ready[of f r f'] by (simp add: fw_ready_def)
next
  case Fn_sonarInit
  then have "Orazio_sonarInit f = (r, f')" using assms(2) by simp
  then show ?thesis using Orazio_sonarInit_ready(1,2)[of f] assms(1) by simp
next
  case Fn_jointsInit
  then have "Orazio_jointsInit f = (r, f')" using assms(2) by simp
  from Orazio_jointsInit_ready[OF fw_readyD(1)[OF assms(1)] this] assms(1) show ?thesis
    by (simp add: fw_ready_def)
qed

definition args_ok :: "PacketHandlerArgs \<Rightarrow> bool" where
  "args_ok args \<longleftrightarrow> (\<exists>dest. args_dest args = Some dest \<and> input_obj dest)"

lemma handler_args_ok: "handler_args a = Some args \<Longrightarrow> args_ok args"
  by (auto simp: args_ok_def input_obj_def system_param_args_def drive_control_args_def drive_param_args_def
      sonar_param_args_def joint_control_args_def joint_param_args_def split: if_splits)

lemma packet_copy_inv:
  assumes inv: "orazio_inv s" and args: "args_ok args" and copy: "packet_copy args off p sz s = Inr (r, s')"
  shows "orazio_inv s'"
proof -
  obtain dest where dest: "args_dest args = Some dest" "input_obj dest" using args by (auto simp: args_ok_def)
  obtain s1 where s1: "run_fw (ptr_store (dest, off) (read_mem (mem s) p sz)) s = Inr s1"
    and s': "(case post_copy_fn args of None \<Rightarrow> Inr (Success, s1) | Some g \<Rightarrow> call_fw (run_post_copy g) s1) = Inr (r, s')"
    using copy dest(1) by (auto simp: packet_copy_def bindR_Inr_iff)
  have i1: "orazio_inv s1"
    by (rule run_fw_inv[OF inv s1]) (use ptr_store_ready[OF orazio_invD(3)[OF inv]] dest(2) in auto)
  show ?thesis
    using s' i1 call_fw_inv[OF i1, of _ r s'] run_post_copy_ready[OF orazio_invD(3)[OF i1]]
    by (auto split: option.splits)
qed

lemma handle_prepare_inv: "orazio_inv s \<Longrightarrow> orazio_inv (handle_prepare args hdr s)"
  by (auto simp: handle_prepare_def Let_def intro!: upd_fw_inv upd_status_inv)

lemma handle_body_inv:
  assumes inv: "orazio_inv s" and args: "args_ok args" and body: "handle_body args hdr off p s = Inr (r, s')"
  shows "orazio_inv s'"
proof -
  obtain dest where dest: "args_dest args = Some dest" "input_obj dest" using args by (auto simp: args_ok_def)
  obtain r1 s1 s2 where s1: "(if action_flags args AND COPY \<noteq> 0 then packet_copy args off p (unat (h_size hdr)) s
        else Inr (Success, s)) = Inr (r1, s1)"
    and s2: "(if action_flags args AND ECHO \<noteq> 0 then send (dest, off) s1 else Inr s1) = Inr s2"
    and s3: "Orazio_sendResponse hdr r1 s2 = Inr s'"
    using body unfolding handle_body_def dest(1) option.case by (auto simp: bindR_Inr_iff)
  have "orazio_inv s1" using s1 packet_copy_inv[OF inv args] inv by (auto split: if_splits)
  then have "orazio_inv s2" using s2 send_input_inv[of s1 "(dest, off)" s2] dest(2) by (auto split: if_splits)
  then show ?thesis using sendResponse_inv[of s2 hdr r1] s3 by auto
qed

lemma handlePacket_inv:
  assumes inv: "orazio_inv s" and call: "Orazio_handlePacket p a s = Inr (r, s')"
  shows "orazio_inv s'"
proof -
  obtain args where args: "handler_args a = Some args"
    using call by (auto simp: Orazio_handlePacket_def simp del: handler_args.simps split: option.splits)
  let ?hdr = "packet_header p s"
  let ?s = "upd_status (\<lambda>st. st\<lparr>ss_rx_seq := h_seq ?hdr\<rparr>) s"
  have "orazio_inv ?s" by (rule upd_status_inv[OF inv]) simp
  from sendResponse_inv[OF this, of ?hdr GenericError] obtain s1 where
    "Orazio_sendResponse ?hdr GenericError ?s = Inr s1" "orazio_inv s1" by blast
  moreover have "orazio_inv s'" if "handle_body args ?hdr off p (handle_prepare args ?hdr s) = Inr (r, s')" for off
    by (rule handle_body_inv[OF handle_prepare_inv[OF inv] handler_args_ok[OF args] that])
  ultimately show ?thesis
    using call unfolding Orazio_handlePacket_eq[OF args] by (auto split: if_splits)
qed

lemma param_action_ready:
  assumes "fw_ready f" and "param_action a t i f = Inr (r, f')"
  shows "fw_ready f' \<and> serial_ok f' = serial_ok f"
  using assms Orazio_paramLoad_ready[OF assms(1)] Orazio_paramSave_ready[of t i f r f']
  by (auto simp: param_action_def split: if_splits)

lemma param_target_input: "param_target t i = Some p \<Longrightarrow> input_obj (fst p)"
  by (auto simp: param_target_def input_obj_def split: if_splits)

lemma handleParamCtl_inv:
  assumes inv: "orazio_inv s" and call: "Orazio_handleParamCtl p a s = Inr (r, s')"
  shows "orazio_inv s'"
proof -
  define ctl where "ctl = fst (get_ParamControlPacket (read_mem (mem s) p sizeof_ParamControlPacket))"
  let ?s = "upd_status (\<lambda>st. st\<lparr>ss_rx_seq := h_seq (pc_header ctl)\<rparr>) s"
  obtain s1 s2 where s1: "call_fw (param_action (pc_action ctl) (pc_param_type ctl) (pc_index ctl)) ?s = Inr (r, s1)"
    and s2: "(case param_target (pc_param_type ctl) (pc_index ctl) of None \<Rightarrow> Inr s1 | Some t \<Rightarrow> send t s1) = Inr s2"
    and s3: "Orazio_sendResponse (pc_header ctl) r s2 = Inr s'"
    using call by (auto simp: Orazio_handleParamCtl_def Let_def bindR_Inr_iff ctl_def)
  have i0: "orazio_inv ?s" by (rule upd_status_inv[OF inv]) simp
  have i1: "orazio_inv s1"
    by (rule call_fw_inv[OF i0 s1]) (use param_action_ready[OF orazio_invD(3)[OF i0]] in auto)
  have "orazio_inv s2"
    using s2 i1 send_input_inv[OF i1] param_target_input by (auto split: option.splits)
  then show ?thesis using sendResponse_inv[of s2 "pc_header ctl" r] s3 by auto
qed

lemma orazio_action_inv:
  assumes "orazio_inv s" and "orazio_action g p args s = Inr s'"
  shows "orazio_inv s'"
  using assms handlePacket_inv[OF assms(1)] handleParamCtl_inv[OF assms(1)]
  by (auto simp: orazio_action_def bindR_Inr_iff split: ActionFn.splits)

section \<open>Processing the queue\<close>

lemma run_action_inv:
  "orazio_inv s \<Longrightarrow> run_action orazio_action p s = Inr s' \<Longrightarrow> orazio_inv s'"
  by (auto simp: run_action_def Let_def orazio_action_inv split: option.splits)

lemma retire_all_inv_orazio:
  assumes "orazio_inv s"
  shows "orazio_inv (retire_all s)"
proof -
  have "base_handler (retire_all s) = base_handler s" "fw (retire_all s) = fw s"
    by (simp_all add: retire_all_def)
  then show ?thesis
    using retire_all_handler_inv[OF orazio_invD(1)[OF assms]] orazio_invD[OF assms] by (simp add: orazio_inv_def)
qed

text \<open>The queue as it is before processing: sequence number and queue length updated.\<close>

definition cycle_start :: "orazio \<Rightarrow> orazio" where
  "cycle_start s0 = (let s = upd_fw (\<lambda>f. f\<lparr>global_seq := global_seq f + 1\<rparr>) s0 in
     upd_status (\<lambda>st. st\<lparr>ss_rx_packet_queue := word_of_int (pending_packets_size s)\<rparr>) s)"

lemma cycle_start_inv: "orazio_inv s \<Longrightarrow> orazio_inv (cycle_start s)"
  by (auto simp: cycle_start_def Let_def serial_ok_def intro!: upd_fw_inv upd_status_inv)

lemma process_packets_eq:
  assumes "orazio_inv s"
  shows "process_packets s = bindR (foldR (run_action orazio_action) (pending s) (cycle_start s)) (\<lambda>s'. Inr (retire_all s'))"
proof -
  have d: "deferred_inv (cycle_start s)"
    using cycle_start_inv[OF assms] by (simp add: orazio_inv_def handler_inv_def receiver_inv_def)
  have "same_queue s (cycle_start s)"
    by (simp add: cycle_start_def upd_status_def upd_fw_def same_queue_def Let_def)
  then have "pending (cycle_start s) = pending s" by (rule same_queue_inv(4))
  then show ?thesis
    using orazio_acts.processPendingPackets_spec[OF d]
    by (simp add: process_packets_def cycle_start_def Let_def)
qed

lemma process_packets_inv:
  assumes "orazio_inv s" and "process_packets s = Inr s'"
  shows "orazio_inv s'" and "pending s' = []"
proof -
  obtain s1 where s1: "foldR (run_action orazio_action) (pending s) (cycle_start s) = Inr s1" and s': "s' = retire_all s1"
    using assms(2) unfolding process_packets_eq[OF assms(1)] by (auto simp: bindR_Inr_iff)
  have i1: "orazio_inv s1"
    using run_action_inv foldR_invariant[where I = orazio_inv, OF _ cycle_start_inv[OF assms(1)] s1] by blast
  show "orazio_inv s'" unfolding s' by (rule retire_all_inv_orazio[OF i1])
  show "pending s' = []" unfolding s' by (simp add: retire_all_def pending_def)
qed

section \<open>The flow of bytes\<close>

lemma rxByte_tx:
  assumes "PacketHandler_rxByte g r c h s = Inr (st, h', s')"
  shows "tx_ok h' = tx_ok h" and "tx_items h' = tx_items h" and "tx_size h' = tx_size h"
proof -
  have "tx_buffer h' = tx_buffer h \<and> tx_start h' = tx_start h \<and> tx_end h' = tx_end h \<and> tx_size h' = tx_size h"
    using assms
    by (auto simp: PacketHandler_rxByte_def rxAA_step_def rx55_step_def rxType_step_def rxSize_step_def
        rxPayload_step_def rxChecksum_step_def Let_def bindR_Inr_iff
        split: RxFn.splits if_splits option.splits prod.splits)
  then show "tx_ok h' = tx_ok h" and "tx_items h' = tx_items h" and "tx_size h' = tx_size h"
    by (simp_all add: tx_ok_def tx_items_def)
qed

lemma count_rx_inv: "orazio_inv s \<Longrightarrow> orazio_inv (count_rx st s)"
  by (auto simp: count_rx_def Let_def intro!: upd_status_inv)

lemma getChar_ready:
  assumes "UART_getChar f = Some (c, f')" and "serial_ok f"
  shows "fw_ready f' = fw_ready f" and "serial_ok f'" and "tick_counter f' = tick_counter f"
proof -
  have "uart_rx_size (uart_0 f) \<noteq> 0" using assms(1) by (simp add: UART_getChar_def split: if_splits)
  then obtain x xs where items: "uart_rx_items (uart_0 f) = x # xs"
    using uart_items_Nil(2)[of "uart_0 f"] by (cases "uart_rx_items (uart_0 f)") auto
  obtain u where u: "uart_rx_get (uart_0 f) = (c, u)" and f': "f' = sei ((cli f)\<lparr>uart_0 := u\<rparr>)"
    using assms(1) by (auto simp: UART_getChar_def split: if_splits prod.splits)
  have "uart_rx_ok u \<and> uart_tx_ok u"
    using uart_rx_get_ok[OF _ items] assms(2) u
    by (auto simp: serial_ok_def uart_rx_get_def uart_tx_ok_def split: prod.splits)
  then show "fw_ready f' = fw_ready f" "serial_ok f'" "tick_counter f' = tick_counter f"
    using assms(2) by (simp_all add: f' sei_def cli_def ready_defs serial_ok_def)
qed

lemma flushInput_body_inv:
  assumes inv: "orazio_inv s" and n: "rx_waiting s \<noteq> 0"
  shows "\<exists>s'. flushInput_body s = Inr s' \<and> orazio_inv s' \<and> tx_items (base_handler s') = tx_items (base_handler s)"
proof -
  have "uart_rx_size (uart_0 (fw s)) \<noteq> 0" using n by (auto simp: rx_waiting_def)
  then obtain c f where get: "UART_getChar (fw s) = Some (c, f)"
    by (cases "uart_rx_get (uart_0 (fw s))") (simp add: UART_getChar_def)
  have f: "fw_ready f" "serial_ok f"
    using getChar_ready[OF get orazio_invD(4)[OF inv]] orazio_invD(3)[OF inv] by simp_all
  let ?s = "s\<lparr>fw := f\<rparr>"
  have i: "orazio_inv ?s" using orazio_invI[OF inv f] .
  then have h: "receiver_inv deferred_inv deferred_valid deferred_owns (base_handler s) ?s"
    by (simp add: orazio_inv_def handler_inv_def)
  obtain st h1 s1 where rx: "PacketHandler_rxByte orazio_gen orazio_on_rx c (base_handler s) ?s = Inr (st, h1, s1)"
    using defrx.rxByte_total[OF h] unfolding orazio_gen_def orazio_on_rx_def by blast
  have h1: "handler_inv h1 s1"
    using defrx.rxByte_inv[OF h rx[unfolded orazio_gen_def orazio_on_rx_def]] by (simp add: handler_inv_def)
  note same = rxByte_fw[OF rx] and tx = rxByte_tx[OF rx]
  have "orazio_inv (s1\<lparr>base_handler := h1\<rparr>)"
    using h1 same_queue_inv(5)[of s1 "s1\<lparr>base_handler := h1\<rparr>" h1] tx(1) same i by (simp add: orazio_inv_def)
  moreover have "base_handler (count_rx st s2) = base_handler s2" for s2
    by (simp add: count_rx_def Let_def upd_status_def upd_fw_def)
  ultimately show ?thesis
    using tx(2) count_rx_inv by (simp add: flushInput_body_def get rx)
qed

lemma flushInput_loop_inv:
  "orazio_inv s \<Longrightarrow> \<exists>s'. flushInput_loop s = Inr s' \<and> orazio_inv s' \<and> rx_waiting s' = 0
    \<and> tx_items (base_handler s') = tx_items (base_handler s)"
proof (induction s rule: flushInput_loop.induct)
  case (1 s)
  show ?case
  proof (cases "rx_waiting s = 0")
    case True
    then show ?thesis using 1(2) by (simp add: flushInput_loop.simps)
  next
    case False
    from flushInput_body_inv[OF 1(2) False] obtain s1 where
      s1: "flushInput_body s = Inr s1" "orazio_inv s1" "tx_items (base_handler s1) = tx_items (base_handler s)"
      by blast
    from 1(1)[OF False s1(1,2)] show ?thesis using False s1 by (subst flushInput_loop.simps) simp
  qed
qed

lemma flushInputBuffers_inv:
  assumes "orazio_inv s"
  shows "\<exists>s'. Orazio_flushInputBuffers s = Inr s' \<and> orazio_inv s' \<and> rx_waiting s' = 0
    \<and> tx_items (base_handler s') = tx_items (base_handler s)"
proof -
  let ?s = "upd_status (\<lambda>st. st\<lparr>ss_rx_buffer_size := word_of_nat (rx_waiting s)\<rparr>) s"
  have "orazio_inv ?s" by (rule upd_status_inv[OF assms]) simp
  moreover have "uart_ready (fw s)" using orazio_invD(4)[OF assms] by (simp add: serial_ok_def)
  moreover have "base_handler ?s = base_handler s" by (simp add: upd_status_def upd_fw_def)
  ultimately show ?thesis using flushInput_loop_inv[of ?s] by (auto simp: Orazio_flushInputBuffers_def)
qed

end
