(* ===== verification/CommEpoch.thy ===== *)
theory CommEpoch
  imports CommCycle
begin

text \<open>
  What the firmware transmits in one cycle: the list of status packets it chooses, each
  stamped with the sequence number of the cycle and framed, and how they leave through the
  serial line.
\<close>

section \<open>Which packets\<close>

definition send_ptr :: "Obj \<times> nat \<times> nat \<Rightarrow> orazio \<Rightarrow> orazio result" where
  "send_ptr = (\<lambda>(ob, off, n). send (ob, int off))"

definition masked :: "u8 \<Rightarrow> 'a firmware_scheme \<Rightarrow> 'b list \<Rightarrow> 'b list" where
  "masked flag f xs = (if sp_periodic_packet_mask (system_params f) AND flag \<noteq> 0 then xs else [])"

definition message_due :: "'a firmware_scheme \<Rightarrow> bool" where
  "message_due f \<longleftrightarrow> h_seq (sm_header (string_message f)) \<noteq> 0 \<and> sm_message (string_message f) ! 0 \<noteq> 0"

definition status_list :: "'a firmware_scheme \<Rightarrow> (Obj \<times> nat \<times> nat) list" where
  "status_list f =
     masked PSystemStatusFlag f [(OSystemStatus, 0, sizeof_SystemStatusPacket)]
     @ masked PJointStatusFlag f [(OJointStatus, 0, sizeof_JointStatusPacket),
         (OJointStatus, sizeof_JointStatusPacket, sizeof_JointStatusPacket)]
     @ masked PDriveStatusFlag f [(ODriveStatus, 0, sizeof_DifferentialDriveStatusPacket)]
     @ (if Orazio_sonarReady f \<noteq> 0 then masked PSonarStatusFlag f [(OSonarStatus, 0, sizeof_SonarStatusPacket)] else [])"

definition epoch_list :: "'a firmware_scheme \<Rightarrow> (Obj \<times> nat \<times> nat) list" where
  "epoch_list f = status_list f
     @ (if message_due f then [(OStringMessage, 0, sizeof_StringMessagePacket)] else [])
     @ [(OEndEpoch, 0, sizeof_PacketHeader)]"

text \<open>What no sending of a status packet changes.\<close>

definition same_config :: "orazio \<Rightarrow> orazio \<Rightarrow> bool" where
  "same_config s s' \<longleftrightarrow> system_params (fw s') = system_params (fw s) \<and> sonar_ready (fw s') = sonar_ready (fw s)
     \<and> global_seq (fw s') = global_seq (fw s) \<and> uart_0 (fw s') = uart_0 (fw s)"

lemma same_config_refl [simp]: "same_config s s"
  by (simp add: same_config_def)

lemma same_config_trans: "same_config a b \<Longrightarrow> same_config b c \<Longrightarrow> same_config a c"
  by (simp add: same_config_def)

lemma send_keeps:
  assumes "send (ob, off) s = Inr s'" and "\<not> input_obj ob"
  shows "same_config s s'" and "ob \<noteq> OStringMessage \<Longrightarrow> string_message (fw s') = string_message (fw s)"
proof -
  obtain st where call: "Orazio_sendPacket (ob, off) s = Inr (st, s')"
    using assms(1) by (auto simp: send_def bindR_Inr_iff)
  from call obtain f where store: "ptr_store (ob, off + 2) (put16 (global_seq (fw s))) (fw s) = Inr f"
    unfolding Orazio_sendPacket_def by (auto simp: bindR_Inr_iff)
  obtain g h where s': "s' = s\<lparr>base_handler := h, fw := f\<lparr>system_status := g\<rparr>\<rparr>"
    using call by (auto simp: Orazio_sendPacket_def store Let_def upd_status_def upd_fw_def split: prod.splits if_splits)
  have "\<exists>bs. f = obj_store ob bs (fw s)" using store by (auto simp: ptr_store_def Let_def split: if_splits)
  then show "same_config s s'" "ob \<noteq> OStringMessage \<Longrightarrow> string_message (fw s') = string_message (fw s)"
    using assms(2) by (cases ob; auto simp: s' same_config_def input_obj_def)+
qed

lemma send_ptrs_keep:
  assumes "foldR send_ptr ps s = Inr s'" and "\<forall>p \<in> set ps. \<not> input_obj (fst p)"
  shows "same_config s s'" and "OStringMessage \<notin> fst ` set ps \<Longrightarrow> string_message (fw s') = string_message (fw s)"
  using assms
proof (induction ps arbitrary: s)
  case Nil
  case 1 then show ?case using Nil by simp
  case 2 then show ?case using Nil by simp
next
  case (Cons p ps)
  obtain ob off n where p: "p = (ob, off, n)" by (cases p)
  {
    case 1
    then obtain s1 where "send (ob, int off) s = Inr s1" "foldR send_ptr ps s1 = Inr s'"
      by (auto simp: bindR_Inr_iff send_ptr_def p)
    then show ?case using Cons.IH(1)[of s1] send_keeps(1)[of ob "int off" s s1] 1(2) same_config_trans by (auto simp: p)
  next
    case 2
    then obtain s1 where "send (ob, int off) s = Inr s1" "foldR send_ptr ps s1 = Inr s'"
      by (auto simp: bindR_Inr_iff send_ptr_def p)
    then show ?case using Cons.IH(2)[of s1] send_keeps(2)[of ob "int off" s s1] 2 by (auto simp: p)
  }
qed

lemma bindR_cong: "m = m' \<Longrightarrow> (\<And>x. m' = Inr x \<Longrightarrow> f x = g x) \<Longrightarrow> bindR m f = bindR m' g"
  by (cases m') simp_all

lemma when_mask_masked:
  assumes "same_config s0 s"
  shows "foldR send_ptr (masked flag (fw s0) ps) s = when_mask flag (foldR send_ptr ps) s"
  using assms by (simp add: masked_def when_mask_def same_config_def)

lemma foldR_single: "foldR f [x] = f x"
proof
  fix s
  show "foldR f [x] s = f x s" by (cases "f x s") simp_all
qed

lemma send_single: "foldR send_ptr [(ob, off, n)] = send (ob, int off)"
  by (simp add: foldR_single send_ptr_def)

lemma status_list_inputs:
  "p \<in> set (masked fl f ps) \<Longrightarrow> p \<in> set ps" "p \<in> set (status_list f) \<Longrightarrow> \<not> input_obj (fst p)"
  "p \<in> set (status_list f) \<Longrightarrow> fst p \<noteq> OStringMessage"
  by (auto simp: status_list_def masked_def input_obj_def split: if_splits)

text \<open>The sequence of conditional sends is one pass over the list chosen at the start.\<close>

lemma send_periodic_eq:
  "send_periodic s = bindR (foldR send_ptr (status_list (fw s)) s) (\<lambda>s1. bindR (send_message s1) (send (OEndEpoch, 0)))"
proof -
  let ?sys = "[(OSystemStatus, 0, sizeof_SystemStatusPacket)]"
  let ?joints = "[(OJointStatus, 0, sizeof_JointStatusPacket), (OJointStatus, sizeof_JointStatusPacket, sizeof_JointStatusPacket)]"
  let ?drive = "[(ODriveStatus, 0, sizeof_DifferentialDriveStatusPacket)]"
  let ?sonar = "[(OSonarStatus, 0, sizeof_SonarStatusPacket)]"
  let ?rest = "\<lambda>s1. bindR (send_message s1) (send (OEndEpoch, 0))"
  have keep: "same_config s t'" if "same_config s t" "foldR send_ptr (masked fl (fw s) ps) t = Inr t'"
    "\<forall>p \<in> set ps. \<not> input_obj (fst p)" for t t' fl ps
    using send_ptrs_keep(1)[OF that(2)] status_list_inputs(1) that(1,3) same_config_trans by blast
  have joints: "foldR (\<lambda>i. send (OJointStatus, int (i * sizeof_JointStatusPacket))) [0..<NUM_JOINTS] = foldR send_ptr ?joints"
    by (simp add: joints_list send_ptr_def fun_eq_iff foldR_single)
  have sonar: "(if Orazio_sonarReady (fw t) \<noteq> 0 then when_mask PSonarStatusFlag (send (OSonarStatus, 0)) t else Inr t)
      = foldR send_ptr (if Orazio_sonarReady (fw s) \<noteq> 0 then masked PSonarStatusFlag (fw s) ?sonar else []) t"
    if "same_config s t" for t
    using that when_mask_masked[OF that, of PSonarStatusFlag ?sonar] send_single[of OSonarStatus 0]
    by (simp add: same_config_def Orazio_sonarReady_def)
  have "send_periodic s = bindR (foldR send_ptr (masked PSystemStatusFlag (fw s) ?sys) s) (\<lambda>s.
      bindR (when_mask PJointStatusFlag (foldR send_ptr ?joints) s) (\<lambda>s.
      bindR (when_mask PDriveStatusFlag (send (ODriveStatus, 0)) s) (\<lambda>s.
      bindR (if Orazio_sonarReady (fw s) \<noteq> 0 then when_mask PSonarStatusFlag (send (OSonarStatus, 0)) s else Inr s) ?rest)))"
    unfolding send_periodic_def joints when_mask_masked[OF same_config_refl] send_single by simp
  also have "\<dots> = bindR (foldR send_ptr (masked PSystemStatusFlag (fw s) ?sys) s) (\<lambda>t.
      bindR (foldR send_ptr (masked PJointStatusFlag (fw s) ?joints) t) (\<lambda>t.
      bindR (foldR send_ptr (masked PDriveStatusFlag (fw s) ?drive) t) (\<lambda>t.
      bindR (foldR send_ptr (if Orazio_sonarReady (fw s) \<noteq> 0 then masked PSonarStatusFlag (fw s) ?sonar else []) t) ?rest)))"
  proof (intro bindR_cong[OF refl])
    fix t1
    assume t1: "foldR send_ptr (masked PSystemStatusFlag (fw s) ?sys) s = Inr t1"
    have c1: "same_config s t1" by (rule keep[OF same_config_refl t1]) (simp add: input_obj_def)
    show "bindR (when_mask PJointStatusFlag (foldR send_ptr ?joints) t1) (\<lambda>s.
        bindR (when_mask PDriveStatusFlag (send (ODriveStatus, 0)) s) (\<lambda>s.
        bindR (if Orazio_sonarReady (fw s) \<noteq> 0 then when_mask PSonarStatusFlag (send (OSonarStatus, 0)) s else Inr s) ?rest))
      = bindR (foldR send_ptr (masked PJointStatusFlag (fw s) ?joints) t1) (\<lambda>t.
        bindR (foldR send_ptr (masked PDriveStatusFlag (fw s) ?drive) t) (\<lambda>t.
        bindR (foldR send_ptr (if Orazio_sonarReady (fw s) \<noteq> 0 then masked PSonarStatusFlag (fw s) ?sonar else []) t) ?rest))"
    proof (rule bindR_cong[OF when_mask_masked[OF c1, symmetric]])
      fix t2
      assume t2: "foldR send_ptr (masked PJointStatusFlag (fw s) ?joints) t1 = Inr t2"
      have c2: "same_config s t2" by (rule keep[OF c1 t2]) (simp add: input_obj_def)
      show "bindR (when_mask PDriveStatusFlag (send (ODriveStatus, 0)) t2) (\<lambda>s.
          bindR (if Orazio_sonarReady (fw s) \<noteq> 0 then when_mask PSonarStatusFlag (send (OSonarStatus, 0)) s else Inr s) ?rest)
        = bindR (foldR send_ptr (masked PDriveStatusFlag (fw s) ?drive) t2) (\<lambda>t.
          bindR (foldR send_ptr (if Orazio_sonarReady (fw s) \<noteq> 0 then masked PSonarStatusFlag (fw s) ?sonar else []) t) ?rest)"
      proof (rule bindR_cong)
        show "when_mask PDriveStatusFlag (send (ODriveStatus, 0)) t2 = foldR send_ptr (masked PDriveStatusFlag (fw s) ?drive) t2"
          using when_mask_masked[OF c2, of PDriveStatusFlag ?drive] send_single[of ODriveStatus 0] by simp
        fix t3
        assume t3: "foldR send_ptr (masked PDriveStatusFlag (fw s) ?drive) t2 = Inr t3"
        have c3: "same_config s t3" by (rule keep[OF c2 t3]) (simp add: input_obj_def)
        show "bindR (if Orazio_sonarReady (fw t3) \<noteq> 0 then when_mask PSonarStatusFlag (send (OSonarStatus, 0)) t3 else Inr t3) ?rest
          = bindR (foldR send_ptr (if Orazio_sonarReady (fw s) \<noteq> 0 then masked PSonarStatusFlag (fw s) ?sonar else []) t3) ?rest"
          unfolding sonar[OF c3] ..
      qed
    qed
  qed
  also have "\<dots> = bindR (foldR send_ptr (status_list (fw s)) s) ?rest"
    by (simp only: status_list_def foldR_append bindR_bindR)
  finally show ?thesis .
qed

section \<open>What is queued\<close>

text \<open>The bytes of a packet as this cycle sends it.\<close>

definition out_frame :: "'a firmware_scheme \<Rightarrow> Obj \<times> nat \<times> nat \<Rightarrow> u8 list" where
  "out_frame f = (\<lambda>(ob, off, n). frame (stamped (global_seq f) (packet_at (ob, off) f)))"

definition out_size :: "(Obj \<times> nat \<times> nat) list \<Rightarrow> nat" where
  "out_size ps = sum_list (map (\<lambda>(ob, off, n). n + 3) ps)"

lemma count_tx_bytes: "ob \<noteq> OSystemStatus \<Longrightarrow> obj_bytes ob (count_tx st f) = obj_bytes ob f"
  by (cases ob) (simp_all add: count_tx_def)

lemma obj_store_other: "ob' \<noteq> ob \<Longrightarrow> obj_bytes ob' (obj_store ob bs f) = obj_bytes ob' f"
  by (cases ob; cases ob') simp_all

lemma stamp_other:
  assumes "wf_fw f" and "(ob, off, n) \<in> set status_ptrs" and "(ob', off', n') \<in> set status_ptrs"
    and "(ob, off) \<noteq> (ob', off')" and "n = unat (obj_bytes ob f ! (off + 1))" and "n' = unat (obj_bytes ob' f ! (off' + 1))"
  shows "packet_at (ob', off') (stamp (ob, off) f) = packet_at (ob', off') f"
proof (cases "ob' = ob")
  case False
  then show ?thesis by (simp add: packet_at_def stamp_def obj_store_other)
next
  case True
  have sz: "sizeof_JointStatusPacket = 16" by (simp add: sizeof_JointStatusPacket_def)
  have pos: "ob = OJointStatus" "off = 0 \<and> off' = 16 \<or> off = 16 \<and> off' = 0"
    using assms(2-4) True by (auto simp: status_ptrs_def sz)
  have len: "length (obj_bytes OJointStatus f) = 32"
    using obj_bytes_length[OF assms(1), of OJointStatus] by (simp add: sizeof_Obj_def sz)
  have n': "n' = 16" using assms(3) True pos(1) by (auto simp: status_ptrs_def sz)
  let ?old = "obj_bytes OJointStatus f"
  let ?new = "take off ?old @ stamped (global_seq f) (drop off ?old)"
  have "length ?new = sizeof_Obj OJointStatus" using len pos(2) by (auto simp: sizeof_Obj_def sz)
  then have new: "obj_bytes OJointStatus (stamp (OJointStatus, off) f) = ?new"
    using obj_store_bytes[of ?new OJointStatus f] by (simp add: stamp_def)
  have "take 16 (drop off' ?new) = take 16 (drop off' ?old)" "?new ! (off' + 1) = ?old ! (off' + 1)"
    using pos(2) len by (auto simp: stamped_def nth_append)
  then show ?thesis
    using n' assms(6) True pos(1) unfolding packet_at_def split by (simp only: new)
qed

end
