(* ===== verification/CommFlow.thy ===== *)
theory CommFlow
  imports CommEpoch
begin

text \<open>
  The transmitting half of a communication cycle as a whole: queueing the periodic packets
  never faults and appends exactly their frames, draining the packet handler into the serial
  line returns and moves all bytes, and a cycle can fault only while it processes a received
  packet.
\<close>

section \<open>Queueing a list of packets\<close>

lemma status_ptrs_distinct:
  assumes "p \<in> set status_ptrs" and "p' \<in> set status_ptrs" and "fst p = fst p'" and "fst (snd p) = fst (snd p')"
  shows "p = p'"
  using assms by (auto simp: status_ptrs_def sizeof_JointStatusPacket_def)

lemma packet_at_count_tx: "ob \<noteq> OSystemStatus \<Longrightarrow> packet_at (ob, off) (count_tx st f) = packet_at (ob, off) f"
  by (simp add: packet_at_def count_tx_bytes)

lemma out_frame_step:
  assumes "fw_ready f" and "p \<in> set status_ptrs" and "p' \<in> set status_ptrs" and "p \<noteq> p'" and "fst p' \<noteq> OSystemStatus"
  shows "out_frame (count_tx st (stamp (fst p, fst (snd p)) f)) p' = out_frame f p'"
proof -
  obtain ob off n where p: "p = (ob, off, n)" by (cases p)
  obtain ob' off' n' where p': "p' = (ob', off', n')" by (cases p')
  have "(ob, off) \<noteq> (ob', off')" using status_ptrs_distinct[OF assms(2,3)] assms(4) by (auto simp: p p')
  moreover have "n = unat (obj_bytes ob f ! (off + 1))" "n' = unat (obj_bytes ob' f ! (off' + 1))"
    using stamp_ready(3,6)[OF assms(1)] assms(2,3) unfolding p p' by (simp_all add: unat_of_nat)
  ultimately have "packet_at (ob', off') (stamp (ob, off) f) = packet_at (ob', off') f"
    using stamp_other[OF fw_readyD(1)[OF assms(1)]] assms(2,3) unfolding p p' by blast
  moreover have "global_seq (count_tx st (stamp (ob, off) f)) = global_seq f"
    by (cases ob) (simp_all add: count_tx_def stamp_def)
  ultimately show ?thesis using assms(5) by (simp add: out_frame_def p p' packet_at_count_tx)
qed

lemma length_out_frame:
  assumes "fw_ready f" and "(ob, off, n) \<in> set status_ptrs"
  shows "length (out_frame f (ob, off, n)) = n + 3"
proof -
  note st = stamp_ready[OF assms]
  have "length (obj_bytes ob f) = sizeof_Obj ob" by (rule obj_bytes_length[OF fw_readyD(1)[OF assms(1)]])
  then have "length (packet_at (ob, off) f) = n"
    using st(3,4,6) by (simp add: packet_at_def unat_of_nat)
  then show ?thesis using st(5) by (simp add: out_frame_def)
qed

text \<open>Whatever the free space, queueing returns and keeps the invariant.\<close>

lemma send_list_inv:
  "orazio_inv s \<Longrightarrow> set ps \<subseteq> set status_ptrs \<Longrightarrow> \<exists>s'. foldR send_ptr ps s = Inr s' \<and> orazio_inv s'"
proof (induction ps arbitrary: s)
  case (Cons p ps)
  obtain ob off n where p: "p = (ob, off, n)" by (cases p)
  from send_status[OF Cons.prems(1), of ob off n] Cons.prems(2) obtain s1 where
    "send_ptr p s = Inr s1" "orazio_inv s1"
    by (auto simp: p send_ptr_def)
  then show ?case using Cons.IH[of s1] Cons.prems(2) by simp
qed simp

text \<open>With room for all of them, every packet leaves its frame, in order.\<close>

lemma send_list_out:
  assumes "orazio_inv s" and "set ps \<subseteq> set status_ptrs" and "distinct ps" and "OSystemStatus \<notin> fst ` set (tl ps)"
    and "length (tx_items (base_handler s)) + out_size ps \<le> 254"
  shows "\<exists>s'. foldR send_ptr ps s = Inr s' \<and> orazio_inv s'
    \<and> tx_items (base_handler s') = tx_items (base_handler s) @ concat (map (out_frame (fw s)) ps)"
  using assms
proof (induction ps arbitrary: s)
  case Nil
  then show ?case by simp
next
  case (Cons p ps)
  obtain ob off n where p: "p = (ob, off, n)" by (cases p)
  have mem: "(ob, off, n) \<in> set status_ptrs" using Cons.prems(2) by (simp add: p)
  note ready = orazio_invD(3)[OF Cons.prems(1)]
  from send_status[OF Cons.prems(1) mem] obtain h st where
    send: "send (ob, int off) s = Inr (s\<lparr>base_handler := h, fw := count_tx st (stamp (ob, off) (fw s))\<rparr>)"
    and i1: "orazio_inv (s\<lparr>base_handler := h, fw := count_tx st (stamp (ob, off) (fw s))\<rparr>)"
    and items: "tx_items h = tx_items (base_handler s)
      @ (if room n (base_handler s) then frame (stamped (global_seq (fw s)) (packet_at (ob, off) (fw s))) else [])"
    by blast
  let ?s1 = "s\<lparr>base_handler := h, fw := count_tx st (stamp (ob, off) (fw s))\<rparr>"
  have "room n (base_handler s)" using Cons.prems(5) by (simp add: room_def out_size_def p)
  then have h: "tx_items h = tx_items (base_handler s) @ out_frame (fw s) p"
    using items by (simp add: out_frame_def p)
  have "length (out_frame (fw s) p) = n + 3" using length_out_frame[OF ready mem] by (simp add: p)
  then have fits: "length (tx_items (base_handler ?s1)) + out_size ps \<le> 254"
    using Cons.prems(5) by (simp add: h out_size_def p)
  have tl: "OSystemStatus \<notin> fst ` set (tl ps)" using Cons.prems(4) by (cases ps) auto
  from Cons.IH[OF i1 _ _ tl fits] Cons.prems(2,3) obtain s' where
    s': "foldR send_ptr ps ?s1 = Inr s'" "orazio_inv s'"
      "tx_items (base_handler s') = tx_items h @ concat (map (out_frame (fw ?s1)) ps)"
    by auto
  have "out_frame (fw ?s1) p' = out_frame (fw s) p'" if "p' \<in> set ps" for p'
  proof -
    have "p' \<in> set status_ptrs" "p \<noteq> p'" "fst p' \<noteq> OSystemStatus" using Cons.prems(2-4) that by force+
    then show ?thesis using out_frame_step[OF ready, of p p' st] mem by (simp add: p)
  qed
  then have frames: "map (out_frame (fw ?s1)) ps = map (out_frame (fw s)) ps" by (intro map_cong[OF refl])
  show ?case using s'[unfolded frames] send h by (auto simp: send_ptr_def p)
qed

section \<open>The text message and the end of the epoch\<close>

lemma message_due_iff: "0 < uint (h_seq (sm_header (string_message f))) \<and> sm_message (string_message f) ! 0 \<noteq> 0
    \<longleftrightarrow> message_due f"
  using uint_ge_0[of "h_seq (sm_header (string_message f))"]
  by (auto simp: message_due_def less_le uint_0_iff simp del: uint_ge_0)

lemma clear_seq_inv: "orazio_inv s \<Longrightarrow> orazio_inv (upd_fw (\<lambda>f. f\<lparr>string_message := (string_message f)\<lparr>
    sm_header := (sm_header (string_message f))\<lparr>h_seq := q\<rparr>\<rparr>\<rparr>) s)"
  by (rule upd_fw_inv) (auto simp: ready_defs serial_ok_def header_ok_def wf_StringMessagePacket_def)

lemma send_message_inv:
  assumes "orazio_inv s"
  shows "\<exists>s'. send_message s = Inr s' \<and> orazio_inv s'"
proof -
  have "(OStringMessage, 0, sizeof_StringMessagePacket) \<in> set status_ptrs" by (simp add: status_ptrs_def)
  from send_status[OF assms this] obtain s1 where "send (OStringMessage, 0) s = Inr s1" "orazio_inv s1" by auto
  then show ?thesis using assms clear_seq_inv[of s1 0] by (auto simp: send_message_def Let_def)
qed

lemma status_list_ptrs: "set (status_list f) \<subseteq> set status_ptrs"
  by (auto simp: status_list_def masked_def status_ptrs_def)

lemma send_periodic_inv:
  assumes "orazio_inv s"
  shows "\<exists>s'. send_periodic s = Inr s' \<and> orazio_inv s'"
proof -
  obtain s1 where s1: "foldR send_ptr (status_list (fw s)) s = Inr s1" "orazio_inv s1"
    using send_list_inv[OF assms status_list_ptrs] by blast
  obtain s2 where s2: "send_message s1 = Inr s2" "orazio_inv s2" using send_message_inv[OF s1(2)] by blast
  have "(OEndEpoch, 0, sizeof_PacketHeader) \<in> set status_ptrs" by (simp add: status_ptrs_def)
  from send_status[OF s2(2) this] show ?thesis by (auto simp: send_periodic_eq s1 s2)
qed

section \<open>The frames of one epoch\<close>

text \<open>Sending other packets does not change the frame of a packet.\<close>

lemma send_list_frames:
  assumes "orazio_inv s" and "set ps \<subseteq> set status_ptrs" and "foldR send_ptr ps s = Inr s'"
    and "p' \<in> set status_ptrs" and "p' \<notin> set ps" and "fst p' \<noteq> OSystemStatus"
  shows "out_frame (fw s') p' = out_frame (fw s) p'"
  using assms
proof (induction ps arbitrary: s)
  case Nil
  then show ?case by simp
next
  case (Cons p ps)
  obtain ob off n where p: "p = (ob, off, n)" by (cases p)
  have mem: "(ob, off, n) \<in> set status_ptrs" using Cons.prems(2) by (simp add: p)
  from send_status[OF Cons.prems(1) mem] obtain h st where
    send: "send (ob, int off) s = Inr (s\<lparr>base_handler := h, fw := count_tx st (stamp (ob, off) (fw s))\<rparr>)"
    and i1: "orazio_inv (s\<lparr>base_handler := h, fw := count_tx st (stamp (ob, off) (fw s))\<rparr>)"
    by blast
  have rest: "foldR send_ptr ps (s\<lparr>base_handler := h, fw := count_tx st (stamp (ob, off) (fw s))\<rparr>) = Inr s'"
    using Cons.prems(3) send by (simp add: send_ptr_def p)
  have "out_frame (fw s') p' = out_frame (count_tx st (stamp (ob, off) (fw s))) p'"
    using Cons.IH[OF i1 _ rest] Cons.prems(2,4-6) by simp
  also have "\<dots> = out_frame (fw s) p'"
    using out_frame_step[OF orazio_invD(3)[OF Cons.prems(1)], of p p' st] mem Cons.prems(4-6) by (auto simp: p)
  finally show ?case .
qed

lemma out_frame_message [simp]:
  "ob \<noteq> OStringMessage \<Longrightarrow> out_frame (f\<lparr>string_message := m\<rparr>) (ob, off, n) = out_frame f (ob, off, n)"
proof -
  assume "ob \<noteq> OStringMessage"
  then have "obj_bytes ob (f\<lparr>string_message := m\<rparr>) = obj_bytes ob f" by (cases ob) simp_all
  then show ?thesis by (simp add: out_frame_def packet_at_def)
qed

text \<open>The frames before the end of the epoch.\<close>

lemma send_before_end:
  assumes inv: "orazio_inv s" and room: "length (tx_items (base_handler s)) + out_size (epoch_list (fw s)) \<le> 254"
  defines "ps \<equiv> status_list (fw s) @ (if message_due (fw s) then [(OStringMessage, 0, sizeof_StringMessagePacket)] else [])"
  shows "\<exists>s1 s2. foldR send_ptr (status_list (fw s)) s = Inr s1 \<and> send_message s1 = Inr s2 \<and> orazio_inv s2
    \<and> tx_items (base_handler s2) = tx_items (base_handler s) @ concat (map (out_frame (fw s)) ps)
    \<and> out_frame (fw s2) (OEndEpoch, 0, sizeof_PacketHeader) = out_frame (fw s) (OEndEpoch, 0, sizeof_PacketHeader)"
proof -
  let ?last = "(OEndEpoch, 0, sizeof_PacketHeader)"
  have sub: "set ps \<subseteq> set status_ptrs" "distinct ps" "OSystemStatus \<notin> fst ` set (tl ps)" "?last \<notin> set ps"
    by (auto simp: ps_def status_list_def masked_def status_ptrs_def sizeof_JointStatusPacket_def)
  have "length (tx_items (base_handler s)) + out_size ps \<le> 254"
    using room by (simp add: epoch_list_def ps_def out_size_def)
  then obtain s2 where s2: "foldR send_ptr ps s = Inr s2" "orazio_inv s2"
    "tx_items (base_handler s2) = tx_items (base_handler s) @ concat (map (out_frame (fw s)) ps)"
    using send_list_out[OF inv sub(1-3)] by blast
  have fend: "out_frame (fw s2) ?last = out_frame (fw s) ?last"
    by (rule send_list_frames[OF inv sub(1) s2(1)]) (use sub(4) in \<open>simp_all add: status_ptrs_def\<close>)
  obtain s1 where s1: "foldR send_ptr (status_list (fw s)) s = Inr s1" "orazio_inv s1"
    using send_list_inv[OF inv status_list_ptrs] by blast
  have "OStringMessage \<notin> fst ` set (status_list (fw s))" using status_list_inputs(3) by fastforce
  then have "string_message (fw s1) = string_message (fw s)"
    using send_ptrs_keep(2)[OF s1(1)] status_list_inputs(2) by blast
  then have due: "message_due (fw s1) = message_due (fw s)" by (simp add: message_due_def)
  show ?thesis
  proof (cases "message_due (fw s)")
    case True
    then have "foldR send_ptr [(OStringMessage, 0, sizeof_StringMessagePacket)] s1 = Inr s2"
      using s2(1) s1(1) by (simp only: ps_def foldR_append if_True bindR_simps)
    then have "send (OStringMessage, 0) s1 = Inr s2" unfolding send_single by simp
    then show ?thesis
      using s1(1) due True clear_seq_inv[OF s2(2), of 0] s2(3) fend
      by (simp add: send_message_def Let_def message_due_iff) (simp add: upd_fw_def)
  next
    case False
    then have "s2 = s1" using s2(1) s1(1) by (simp add: ps_def)
    then show ?thesis using s1(1) due False s2 fend by (simp add: send_message_def Let_def message_due_iff)
  qed
qed

lemma send_periodic_out:
  assumes inv: "orazio_inv s" and room: "length (tx_items (base_handler s)) + out_size (epoch_list (fw s)) \<le> 254"
  shows "\<exists>s'. send_periodic s = Inr s' \<and> orazio_inv s'
    \<and> tx_items (base_handler s') = tx_items (base_handler s) @ concat (map (out_frame (fw s)) (epoch_list (fw s)))"
proof -
  let ?last = "(OEndEpoch, 0, sizeof_PacketHeader)"
  obtain s1 s2 where s1: "foldR send_ptr (status_list (fw s)) s = Inr s1" and s2: "send_message s1 = Inr s2" "orazio_inv s2"
    "tx_items (base_handler s2) = tx_items (base_handler s) @ concat (map (out_frame (fw s))
       (status_list (fw s) @ (if message_due (fw s) then [(OStringMessage, 0, sizeof_StringMessagePacket)] else [])))"
    "out_frame (fw s2) ?last = out_frame (fw s) ?last"
    using send_before_end[OF inv room] by blast
  have e: "set [?last] \<subseteq> set status_ptrs" "distinct [?last]" "OSystemStatus \<notin> fst ` set (tl [?last])"
    by (simp_all add: status_ptrs_def)
  have "(OEndEpoch, 0, sizeof_PacketHeader) \<in> set status_ptrs" by (simp add: status_ptrs_def)
  have "length (tx_items (base_handler s2)) + out_size [?last] \<le> 254"
  proof -
    have "length (concat (map (out_frame (fw s)) qs)) = out_size qs" if "set qs \<subseteq> set status_ptrs" for qs
      using that by (induction qs) (auto simp: out_size_def length_out_frame[OF orazio_invD(3)[OF inv]])
    moreover have "set (status_list (fw s) @ (if message_due (fw s) then [(OStringMessage, 0, sizeof_StringMessagePacket)] else []))
        \<subseteq> set status_ptrs"
      using status_list_ptrs[of "fw s"] by (auto simp: status_ptrs_def)
    ultimately show ?thesis using room by (simp add: s2(3) epoch_list_def out_size_def)
  qed
  from send_list_out[OF s2(2) e this] show ?thesis
    unfolding send_single by (auto simp: send_periodic_eq s1 s2(1,3,4) epoch_list_def)
qed

section \<open>Draining the queue into the serial line\<close>

lemma uart_tx_put_always: "uart_tx_ok u \<Longrightarrow> uart_tx_ok (uart_tx_put c u)"
  by (simp add: uart_tx_put_def BUFFER_u8_256 uart_tx_ok_def add.assoc)

lemma uart_tx_put_rx [simp]: "uart_rx_ok (uart_tx_put c u) = uart_rx_ok u"
  by (simp add: uart_tx_put_def uart_rx_ok_def split: prod.splits)

lemma putChar_spec:
  assumes "fw_ready f" and "serial_ok f"
  shows "\<exists>f'. UART_putChar c f = Some f' \<and> fw_ready f' \<and> serial_ok f' \<and> uart_0 f' = uart_tx_put c (uart_0 f)
    \<and> system_status f' = system_status f"
proof -
  have "uint (uart_tx_size (uart_0 f)) < 256" using uint_lt2p[of "uart_tx_size (uart_0 f)"] by simp
  then show ?thesis
    using assms uart_tx_put_always[of "uart_0 f" c]
    by (simp add: UART_putChar_def or_reg_def set_reg_def sei_def cli_def serial_ok_def ready_defs)
qed

text \<open>One byte moves from the packet handler to the serial queue.\<close>

lemma flushOutput_body_inv:
  assumes inv: "orazio_inv s" and items: "tx_items (base_handler s) = x # xs"
  shows "\<exists>s'. flushOutput_body s = Inr s' \<and> orazio_inv s' \<and> tx_items (base_handler s') = xs
    \<and> uart_0 (fw s') = uart_tx_put x (uart_0 (fw s))"
proof -
  obtain h where tx: "PacketHandler_txByte (base_handler s) = (x, h)" "tx_items h = xs" "tx_ok h"
    using PacketHandler_txByte_ok[OF orazio_invD(2)[OF inv] items] by (cases "PacketHandler_txByte (base_handler s)") auto
  have same: "same_rx (base_handler s) h" using PacketHandler_txByte_same_rx[of "base_handler s"] tx(1) by simp
  obtain f where f: "UART_putChar x (fw s) = Some f" "fw_ready f" "serial_ok f" "uart_0 f = uart_tx_put x (uart_0 (fw s))"
    using putChar_spec[OF orazio_invD(3,4)[OF inv]] by blast
  have "orazio_inv (s\<lparr>base_handler := h, fw := f\<rparr>)"
    using f tx(3) orazio_invD[OF inv] handler_inv_same_rx[OF same, of s]
      same_queue_inv(5)[of s "s\<lparr>base_handler := h, fw := f\<rparr>" h]
    by (simp add: orazio_inv_def)
  then show ?thesis using f tx by (simp add: flushOutput_body_def)
qed

lemma tx_size_pos: "tx_items (base_handler s) = x # xs \<Longrightarrow> 0 < tx_size (base_handler s)"
  using length_tx_items[of "base_handler s"] by simp

lemma tx_size_zero: "orazio_inv s \<Longrightarrow> tx_items (base_handler s) = [] \<Longrightarrow> tx_size (base_handler s) = 0"
  using length_tx_items[of "base_handler s"] orazio_invD(2)[of s] by (simp add: tx_ok_def)

text \<open>Every byte that waits is moved; the serial queue keeps them all while fewer than 256 wait.\<close>

lemma flushOutput_loop_inv:
  assumes "orazio_inv s"
  shows "\<exists>s'. flushOutput_loop s = Inr s' \<and> orazio_inv s' \<and> tx_items (base_handler s') = []
    \<and> (length (uart_tx_items (uart_0 (fw s))) + length (tx_items (base_handler s)) \<le> 255 \<longrightarrow>
       uart_tx_items (uart_0 (fw s')) = uart_tx_items (uart_0 (fw s)) @ tx_items (base_handler s))"
  using assms
proof (induction "tx_items (base_handler s)" arbitrary: s)
  case Nil
  then show ?case using tx_size_zero[OF Nil.prems] by (auto simp: flushOutput_loop.simps)
next
  case (Cons x xs)
  note items = Cons.hyps(2)[symmetric]
  obtain s1 where s1: "flushOutput_body s = Inr s1" "orazio_inv s1" "tx_items (base_handler s1) = xs"
    "uart_0 (fw s1) = uart_tx_put x (uart_0 (fw s))"
    using flushOutput_body_inv[OF Cons.prems items] by blast
  have step: "flushOutput_loop s = flushOutput_loop s1"
    using tx_size_pos[OF items] by (subst flushOutput_loop.simps) (simp add: s1(1))
  from Cons.hyps(1)[OF s1(3)[symmetric] s1(2)] obtain s' where s': "flushOutput_loop s1 = Inr s'" "orazio_inv s'"
    "tx_items (base_handler s') = []"
    "length (uart_tx_items (uart_0 (fw s1))) + length xs \<le> 255 \<longrightarrow>
       uart_tx_items (uart_0 (fw s')) = uart_tx_items (uart_0 (fw s1)) @ xs"
    unfolding s1(3) by blast
  have "uart_tx_items (uart_0 (fw s1)) = uart_tx_items (uart_0 (fw s)) @ [x]"
    if "length (uart_tx_items (uart_0 (fw s))) + length (tx_items (base_handler s)) \<le> 255"
    using uart_tx_put_ok[of "uart_0 (fw s)" x] that orazio_invD(4)[OF Cons.prems] by (simp add: s1(4) items serial_ok_def)
  then show ?case using s' by (simp add: step items del: length_uart_items)
qed

lemma flushOutputBuffers_inv:
  assumes "orazio_inv s"
  shows "\<exists>s'. Orazio_flushOutputBuffers s = Inr s' \<and> orazio_inv s' \<and> tx_items (base_handler s') = []
    \<and> (length (uart_tx_items (uart_0 (fw s))) + length (tx_items (base_handler s)) \<le> 255 \<longrightarrow>
       uart_tx_items (uart_0 (fw s')) = uart_tx_items (uart_0 (fw s)) @ tx_items (base_handler s))"
proof -
  have tx: "orazio_inv (tx_status s')" "base_handler (tx_status s') = base_handler s'"
    "uart_0 (fw (tx_status s')) = uart_0 (fw s')" if "orazio_inv s'" for s'
    using that by (auto simp: tx_status_def upd_status_def upd_fw_def intro!: upd_status_inv[unfolded upd_status_def upd_fw_def])
  have "uart_ready (fw s)" using orazio_invD(4)[OF assms] by (simp add: serial_ok_def)
  moreover obtain s1 where "flushOutput_loop s = Inr s1" "orazio_inv s1" "tx_items (base_handler s1) = []"
    "length (uart_tx_items (uart_0 (fw s))) + length (tx_items (base_handler s)) \<le> 255 \<longrightarrow>
       uart_tx_items (uart_0 (fw s1)) = uart_tx_items (uart_0 (fw s)) @ tx_items (base_handler s)"
    using flushOutput_loop_inv[OF assms] by blast
  ultimately show ?thesis using tx[of s1] by (simp add: Orazio_flushOutputBuffers_def)
qed

section \<open>The whole cycle\<close>

lemma commHandle_inv:
  assumes "orazio_inv s" and "Orazio_commHandle s = Inr s'"
  shows "orazio_inv s'"
proof -
  obtain s1 where s1: "Orazio_flushInputBuffers s = Inr s1" "orazio_inv s1" using flushInputBuffers_inv[OF assms(1)] by blast
  obtain s2 where s2: "process_packets s1 = Inr s2" using assms(2) s1(1) by (auto simp: Orazio_commHandle_def bindR_Inr_iff)
  then have i2: "orazio_inv s2" by (rule process_packets_inv(1)[OF s1(2)])
  obtain s3 where s3: "send_periodic s2 = Inr s3" "orazio_inv s3" using send_periodic_inv[OF i2] by blast
  obtain s4 where "Orazio_flushOutputBuffers s3 = Inr s4" "orazio_inv s4" using flushOutputBuffers_inv[OF s3(2)] by blast
  then show ?thesis using assms(2) s1(1) s2 s3(1) by (simp add: Orazio_commHandle_def)
qed

text \<open>The cycle returns exactly when the processing of the received packets does.\<close>

lemma commHandle_returns:
  assumes "orazio_inv s" and "Orazio_flushInputBuffers s = Inr s1"
  shows "(\<exists>s'. Orazio_commHandle s = Inr s') \<longleftrightarrow> (\<exists>s2. process_packets s1 = Inr s2)"
proof
  assume "\<exists>s'. Orazio_commHandle s = Inr s'"
  then show "\<exists>s2. process_packets s1 = Inr s2" using assms(2) by (auto simp: Orazio_commHandle_def bindR_Inr_iff)
next
  assume "\<exists>s2. process_packets s1 = Inr s2"
  then obtain s2 where s2: "process_packets s1 = Inr s2" by blast
  have "orazio_inv s1" using flushInputBuffers_inv[OF assms(1)] assms(2) by auto
  then have "orazio_inv s2" by (rule process_packets_inv(1)[OF _ s2])
  then obtain s3 where "send_periodic s2 = Inr s3" "orazio_inv s3" using send_periodic_inv by blast
  moreover then obtain s4 where "Orazio_flushOutputBuffers s3 = Inr s4" using flushOutputBuffers_inv by blast
  ultimately show "\<exists>s'. Orazio_commHandle s = Inr s'" using assms(2) s2 by (simp add: Orazio_commHandle_def)
qed

lemma process_nothing:
  assumes "orazio_inv s" and "pending s = []"
  shows "process_packets s = Inr (retire_all (cycle_start s))"
  using process_packets_eq[OF assms(1)] assms(2) by simp

end
