(* ===== verification/MainLoop.thy ===== *)
theory MainLoop
  imports CommFlow
begin

text \<open>
  \<open>orazio.c\<close>: the timer function, the initialisation and the infinite loop of \<open>main\<close>. The loop
  body is given twice: as a function that runs one iteration with nothing in between, and as
  a machine with a program counter whose steps interleave with the interrupts.
\<close>

section \<open>Timer function\<close>

definition onTimerTick :: "'a firmware_scheme \<Rightarrow> 'a firmware_scheme result" where
  "onTimerTick f0 =
     bindR (Orazio_jointsHandle f0) (\<lambda>f.
       let f = f\<lparr>tick_counter := tick_counter f - 1\<rparr> in
       if tick_counter f = 0
       then Inr (f\<lparr>tick_counter := ucast (sp_comm_cycles (system_params f)), comm_handle := 1\<rparr>)
       else Inr f)"

section \<open>Initialisation\<close>

text \<open>The characters of ''Ready''.\<close>

definition ready_text :: "u8 list" where
  "ready_text = [82, 101, 97, 100, 121]"

definition main_devices :: "firmware \<Rightarrow> firmware" where
  "main_devices f =
     (let f = DigIO_init f;
          f = snd (PWM_init f);
          f = Encoder_init f
      in Timers_init f)"

definition main_subsystems :: "firmware \<Rightarrow> firmware result" where
  "main_subsystems f =
     bindR (Orazio_paramInit f) (\<lambda>f.
     let f = snd (Orazio_jointsInit f) in
     bindR (Orazio_driveInit f) (\<lambda>(_, f).
     let f = Sonar_init f in
     Inr (snd (Orazio_sonarInit f))))"

definition main_timer :: "firmware \<Rightarrow> firmware" where
  "main_timer f =
     (case Timer_create ''timer_0'' (sp_timer_period_ms (system_params f)) OnTimerTick 0 f of
        (Some t, f) \<Rightarrow> Timer_start t f
      | (None, f) \<Rightarrow> f)"

definition main_init :: "orazio \<Rightarrow> orazio result" where
  "main_init s =
     bindR (main_subsystems (main_devices (fw s))) (\<lambda>f.
     bindR (Orazio_commInit (s\<lparr>fw := f\<rparr>)) (\<lambda>s.
       let f = main_timer (fw s);
           f = f\<lparr>tick_counter := ucast (sp_comm_cycles (system_params f))\<rparr>;
           f = f\<lparr>system_status := (system_status f)\<lparr>ss_watchdog_count := sp_watchdog_cycles (system_params f)\<rparr>\<rparr>
       in Inr (s\<lparr>fw := Orazio_commSendString ready_text f\<rparr>)))"

section \<open>One iteration\<close>

definition idle_tick :: "orazio \<Rightarrow> orazio" where
  "idle_tick = upd_status (\<lambda>st. st\<lparr>ss_idle_cycles := ss_idle_cycles st + 1\<rparr>)"

definition rx_count :: "orazio \<Rightarrow> u16" where
  "rx_count s = ss_rx_packets (system_status (fw s))"

definition watchdog_feed :: "u16 \<Rightarrow> orazio \<Rightarrow> orazio result" where
  "watchdog_feed previous s =
     run_fw Orazio_watchdogHandle (if previous \<noteq> rx_count s then upd_fw Orazio_watchdogReset s else s)"

definition end_iteration :: "orazio \<Rightarrow> orazio" where
  "end_iteration s = upd_status (\<lambda>st. st\<lparr>ss_idle_cycles := 0\<rparr>) (upd_fw (\<lambda>f. f\<lparr>comm_handle := 0\<rparr>) s)"

definition main_iteration :: "orazio \<Rightarrow> orazio result" where
  "main_iteration s0 =
     (let s = idle_tick s0 in
      if comm_handle (fw s) = 0 then Inr s
      else
        let previous = rx_count s in
        bindR (run_fw Orazio_driveUpdate s) (\<lambda>s.
        bindR (run_fw Orazio_driveControl s) (\<lambda>s.
        bindR (Orazio_commHandle (upd_fw Orazio_sonarHandle s)) (\<lambda>s.
        bindR (watchdog_feed previous s) (\<lambda>s. Inr (end_iteration s))))))"

section \<open>The loop with interrupts\<close>

text \<open>
  Where the loop is: \<open>AtRx\<close> and \<open>AtTx\<close> are the heads of the loops of
  \<open>Orazio_flushInputBuffers\<close> and \<open>Orazio_flushOutputBuffers\<close>.
\<close>

datatype pc = AtTop | AtUpdate | AtControl | AtSonar | AtInput | AtRx | AtProcess | AtSend | AtTx | AtWatchdog | AtEnd

record machine =
  at :: pc
  orz :: orazio
  previous_rx_packets :: u16

definition goto :: "pc \<Rightarrow> machine \<Rightarrow> orazio \<Rightarrow> machine" where
  "goto p m s = m\<lparr>at := p, orz := s\<rparr>"

definition main_step :: "machine \<Rightarrow> machine result" where
  "main_step m =
     (let s = orz m; to = (\<lambda>p r. bindR r (\<lambda>s'. Inr (goto p m s'))) in
      case at m of
        AtTop \<Rightarrow> let s1 = idle_tick s in
          if comm_handle (fw s1) = 0 then Inr (goto AtTop m s1)
          else Inr ((goto AtUpdate m s1)\<lparr>previous_rx_packets := rx_count s1\<rparr>)
      | AtUpdate \<Rightarrow> to AtControl (run_fw Orazio_driveUpdate s)
      | AtControl \<Rightarrow> to AtSonar (run_fw Orazio_driveControl s)
      | AtSonar \<Rightarrow> Inr (goto AtInput m (upd_fw Orazio_sonarHandle s))
      | AtInput \<Rightarrow> if \<not> uart_ready (fw s) then Inl NullDeref
          else Inr (goto AtRx m (upd_status (\<lambda>st. st\<lparr>ss_rx_buffer_size := word_of_nat (rx_waiting s)\<rparr>) s))
      | AtRx \<Rightarrow> if rx_waiting s = 0 then Inr (goto AtProcess m s) else to AtRx (flushInput_body s)
      | AtProcess \<Rightarrow> to AtSend (process_packets s)
      | AtSend \<Rightarrow> bindR (send_periodic s) (\<lambda>s'. if uart_ready (fw s') then Inr (goto AtTx m s') else Inl NullDeref)
      | AtTx \<Rightarrow> if tx_size (base_handler s) = 0 then Inr (goto AtWatchdog m (tx_status s))
          else if tx_size (base_handler s) < 0 then Inl Diverges
          else to AtTx (flushOutput_body s)
      | AtWatchdog \<Rightarrow> to AtEnd (watchdog_feed (previous_rx_packets m) s)
      | AtEnd \<Rightarrow> Inr (goto AtTop m (end_iteration s)))"

text \<open>What the hardware can do: a byte arrives, the transmitter is empty, a pin changes.\<close>

datatype irq = RxByte u8 | TxEmpty | TimerMatch | EncoderPins u8 | EchoPins u8

definition timer_call :: "TimerFn \<Rightarrow> addr \<Rightarrow> firmware \<Rightarrow> firmware result" where
  "timer_call fn args = (case fn of OnTimerTick \<Rightarrow> onTimerTick)"

definition irq_armed :: "irq \<Rightarrow> firmware \<Rightarrow> bool" where
  "irq_armed i f = (irq_enabled f \<and> (case i of
       RxByte c \<Rightarrow> io f UCSR0B AND iobit f RXCIE0 \<noteq> 0
     | TxEmpty \<Rightarrow> io f UCSR0B AND iobit f UDRIE0 \<noteq> 0
     | TimerMatch \<Rightarrow> io f (TIMSK 5) AND iobit f (OCIEA 5) \<noteq> 0
     | EncoderPins v \<Rightarrow> io f PCICR AND iobit f (PCIE 0) \<noteq> 0
     | EchoPins v \<Rightarrow> io f PCICR AND iobit f (PCIE 2) \<noteq> 0))"

definition irq_call :: "irq \<Rightarrow> firmware \<Rightarrow> firmware result" where
  "irq_call i f = (case i of
       RxByte c \<Rightarrow> Inr (USART0_RX_isr (set_reg UDR0 c f))
     | TxEmpty \<Rightarrow> Inr (USART0_UDRE_isr f)
     | TimerMatch \<Rightarrow> TIMER5_COMPA_isr timer_call f
     | EncoderPins v \<Rightarrow> Inr (PCINT0_isr (set_reg (PIN PB) v f))
     | EchoPins v \<Rightarrow> Inr (PCINT2_isr (set_reg (PIN PK) v f)))"

text \<open>An interrupt takes effect between two steps of the loop.\<close>

inductive step :: "machine \<Rightarrow> machine \<Rightarrow> bool" where
  program: "main_step m = Inr m' \<Longrightarrow> step m m'"
| interrupt: "irq_armed i (fw (orz m)) \<Longrightarrow> irq_call i (fw (orz m)) = Inr f \<Longrightarrow>
    step m (m\<lparr>orz := (orz m)\<lparr>fw := f\<rparr>\<rparr>)"

inductive_cases stepE: "step m m'"

inductive steps :: "machine \<Rightarrow> machine \<Rightarrow> bool" where
  steps_refl: "steps m m"
| steps_step: "steps m m' \<Longrightarrow> step m' m'' \<Longrightarrow> steps m m''"

text \<open>The program alone, for a number of steps.\<close>

fun run_steps :: "nat \<Rightarrow> machine \<Rightarrow> machine result" where
  "run_steps 0 m = Inr m"
| "run_steps (Suc n) m = bindR (main_step m) (run_steps n)"

lemma run_steps_add: "run_steps (j + k) m = bindR (run_steps j m) (run_steps k)"
  by (induction j arbitrary: m) (auto simp: bindR_def split: sum.splits)

lemma run_steps_reach: "run_steps n m = Inr m' \<Longrightarrow> steps m0 m \<Longrightarrow> steps m0 m'"
  by (induction n arbitrary: m) (auto simp: bindR_Inr_iff intro: steps_step program)

end
