(* ===== verification/MainSafety.thy ===== *)
theory MainSafety
  imports MainLoop
begin

text \<open>
  The loop of the firmware with its interrupts: the invariant holds in every reachable state,
  interrupts never fault, and the loop itself can only fault while it processes a received
  packet.
\<close>

section \<open>Interrupts\<close>

lemma uart_rx_put_always: "uart_rx_ok u \<Longrightarrow> uart_rx_ok (uart_rx_put c u) \<and> (uart_tx_ok (uart_rx_put c u) = uart_tx_ok u)"
  by (simp add: uart_rx_put_def BUFFER_u8_256 uart_rx_ok_def uart_tx_ok_def add.assoc)

lemma uart_tx_get_always: "uart_tx_ok u \<Longrightarrow> uart_tx_ok (snd (uart_tx_get u)) \<and> (uart_rx_ok (snd (uart_tx_get u)) = uart_rx_ok u)"
  by (simp add: uart_tx_get_def BUFFER_u8_256 uart_rx_ok_def uart_tx_ok_def)

lemma regs_only_fields:
  assumes "regs_only f f'"
  shows "tick_counter f' = tick_counter f" and "comm_handle f' = comm_handle f" and "system_params f' = system_params f"
    and "joint_controllers f' = joint_controllers f" and "bridges f' = bridges f"
proof -
  obtain a b where "f' = f\<lparr>io := a, io16 := b\<rparr>" using assms unfolding regs_only_def by blast
  then show "tick_counter f' = tick_counter f" and "comm_handle f' = comm_handle f" and "system_params f' = system_params f"
    and "joint_controllers f' = joint_controllers f" and "bridges f' = bridges f"
    by simp_all
qed

lemma JointController_handle_frame:
  assumes "JointController_handle k n f = Inr f'"
  shows "tick_counter f' = tick_counter f" and "comm_handle f' = comm_handle f" and "system_params f' = system_params f"
    and "encoder_sampled_value f' = encoder_sampled_value f"
  using assms by (auto simp: JointController_handle_def Let_def split: if_splits option.splits prod.splits)

lemma jointsHandle_frame:
  assumes "Orazio_jointsHandle f = Inr f'"
  shows "tick_counter f' = tick_counter f" and "comm_handle f' = comm_handle f" and "system_params f' = system_params f"
proof -
  obtain f1 f2 where f: "JointController_handle 0 0 (Encoder_sample f) = Inr f1" "JointController_handle 1 1 f1 = Inr f2"
    "f' = joint_apply 1 (joint_apply 0 f2)"
    using assms by (auto simp: Orazio_jointsHandle_def joints_list bindR_Inr_iff)
  note 1 = JointController_handle_frame[OF f(1)] and 2 = JointController_handle_frame[OF f(2)]
  note apply_one = regs_only_fields[OF regs_only_setSpeed[of g "bridges g ! i" "ctl_output (joint_controllers g ! i)" for g i],
    folded joint_apply_def]
  show "tick_counter f' = tick_counter f" and "comm_handle f' = comm_handle f" and "system_params f' = system_params f"
    using 1 2 unfolding f(3) apply_one by (simp_all add: Encoder_sample_def sei_def cli_def)
qed

lemma onTimerTick_ready:
  assumes "fw_ready f"
  shows "\<exists>f'. onTimerTick f = Inr f' \<and> fw_ready f' \<and> serial_ok f' = serial_ok f"
proof -
  obtain f1 where "Orazio_jointsHandle f = Inr f1" "fw_ready f1" "serial_ok f1 = serial_ok f"
    using Orazio_jointsHandle_ready[OF assms] by blast
  then show ?thesis by (simp add: onTimerTick_def Let_def)
qed

lemma length_encoder_loop [simp]: "length (encoder_loop p n cs) = length cs"
  by (induction p n cs rule: encoder_loop.induct) simp_all

lemma ready_encoders:
  "fw_ready f \<Longrightarrow> length cs = length (encoder_current_value f) \<Longrightarrow>
     fw_ready (f\<lparr>encoder_current_value := cs, encoder_status := e\<rparr>)"
  "serial_ok (f\<lparr>encoder_current_value := cs, encoder_status := e\<rparr>) = serial_ok f"
  "fw_ready (f\<lparr>counters := k, echos := h\<rparr>) = fw_ready f" "serial_ok (f\<lparr>counters := k, echos := h\<rparr>) = serial_ok f"
  by (simp_all add: ready_defs serial_ok_def)

lemma ready_reg [simp]:
  "fw_ready (set_reg r v f) = fw_ready f" "serial_ok (set_reg r v f) = serial_ok f"
  "fw_ready (clear_reg r v f) = fw_ready f" "serial_ok (clear_reg r v f) = serial_ok f"
  "fw_ready (set_reg16 q w f) = fw_ready f" "serial_ok (set_reg16 q w f) = serial_ok f"
  by (rule ready_regs; simp)+

lemma ready_irq:
  "fw_ready (sei f) = fw_ready f" "fw_ready (cli f) = fw_ready f" "serial_ok (sei f) = serial_ok f"
  "serial_ok (cli f) = serial_ok f" "encoder_current_value (cli f) = encoder_current_value f"
  by (simp_all add: sei_def cli_def)

text \<open>Every interrupt returns and keeps the invariant.\<close>

lemma irq_ready:
  assumes "fw_ready f" and "serial_ok f"
  shows "\<exists>f'. irq_call i f = Inr f' \<and> fw_ready f' \<and> serial_ok f'"
proof (cases i)
  case (RxByte c)
  have isr: "fw_ready (USART0_RX_isr g) \<and> serial_ok (USART0_RX_isr g)" if "fw_ready g" "serial_ok g" for g :: firmware
    using that uart_rx_put_always[of "uart_0 g"] by (simp add: USART0_RX_isr_def Let_def serial_ok_def)
  show ?thesis using assms isr[of "set_reg UDR0 c f"] by (simp add: RxByte irq_call_def)
next
  case TxEmpty
  have "uart_tx_ok (uart_0 f)" using assms(2) by (simp add: serial_ok_def)
  from uart_tx_get_always[OF this] have "serial_ok (f\<lparr>uart_0 := snd (uart_tx_get (uart_0 f))\<rparr>)"
    using assms(2) by (simp add: serial_ok_def)
  then show ?thesis
    using assms by (auto simp: TxEmpty irq_call_def USART0_UDRE_isr_def split: prod.splits)
next
  case TimerMatch
  let ?f = "set_reg16 TCNT5 0 f"
  have "fw_ready ?f" "serial_ok ?f" using assms by simp_all
  with onTimerTick_ready[of ?f] show ?thesis
    by (auto simp: TimerMatch irq_call_def TIMER5_COMPA_isr_def timer_call_def Let_def split: option.splits TimerFn.splits)
next
  case (EncoderPins v)
  have isr: "fw_ready (PCINT0_isr g) \<and> serial_ok (PCINT0_isr g)" if "fw_ready g" "serial_ok g" for g :: firmware
    using that ready_encoders(1,2)[where f = "cli g"] by (simp add: PCINT0_isr_def Let_def ready_irq)
  show ?thesis using assms isr[of "set_reg (PIN PB) v f"] by (simp add: EncoderPins irq_call_def)
next
  case (EchoPins v)
  have isr: "fw_ready (PCINT2_isr g) \<and> serial_ok (PCINT2_isr g)" if "fw_ready g" "serial_ok g" for g :: firmware
    using that ready_encoders(3,4)[where f = "cli g"] by (simp add: PCINT2_isr_def Let_def ready_irq)
  show ?thesis using assms isr[of "set_reg (PIN PK) v f"] by (simp add: EchoPins irq_call_def)
qed

section \<open>Steps\<close>

definition machine_inv :: "machine \<Rightarrow> bool" where
  "machine_inv m \<longleftrightarrow> orazio_inv (orz m)"

lemma machine_inv_goto [simp]: "machine_inv (goto p m s) = orazio_inv s" "at (goto p m s) = p" "orz (goto p m s) = s"
  by (simp_all add: machine_inv_def goto_def)

lemma idle_tick_inv: "orazio_inv s \<Longrightarrow> orazio_inv (idle_tick s)"
  unfolding idle_tick_def by (rule upd_status_inv) simp_all

lemma end_iteration_inv: "orazio_inv s \<Longrightarrow> orazio_inv (end_iteration s)"
  unfolding end_iteration_def by (intro upd_status_inv upd_fw_inv) simp_all

lemma run_fw_total:
  assumes "orazio_inv s" and "\<And>f. fw_ready f \<Longrightarrow> \<exists>f'. g f = Inr f' \<and> fw_ready f' \<and> serial_ok f' = serial_ok f"
  shows "\<exists>s'. run_fw g s = Inr s' \<and> orazio_inv s'"
proof -
  obtain f where "g (fw s) = Inr f" "fw_ready f" "serial_ok f = serial_ok (fw s)"
    using assms(2)[OF orazio_invD(3)[OF assms(1)]] by blast
  then show ?thesis using orazio_invI[OF assms(1), of f] orazio_invD(4)[OF assms(1)] by (simp add: run_fw_def)
qed

lemma watchdog_feed_inv:
  assumes "orazio_inv s"
  shows "\<exists>s'. watchdog_feed p s = Inr s' \<and> orazio_inv s'"
proof -
  have "orazio_inv (upd_fw Orazio_watchdogReset s)"
    by (rule upd_fw_inv[OF assms]) (simp_all add: Orazio_watchdogReset_def)
  then show ?thesis
    unfolding watchdog_feed_def
    using assms by (intro run_fw_total[OF _ Orazio_watchdogHandle_ready]) simp_all
qed

lemma tx_status_inv: "orazio_inv s \<Longrightarrow> orazio_inv (tx_status s)"
  unfolding tx_status_def by (rule upd_status_inv) simp_all

lemma main_step_total:
  assumes "machine_inv m" and "at m \<noteq> AtProcess"
  shows "\<exists>m'. main_step m = Inr m' \<and> machine_inv m'"
proof -
  have inv: "orazio_inv (orz m)" using assms(1) by (simp add: machine_inv_def)
  note r = orazio_invD(3)[OF inv]
  have u: "uart_ready (fw s)" if "orazio_inv s" for s using orazio_invD(4)[OF that] by (simp add: serial_ok_def)
  show ?thesis
  proof (cases "at m")
    case AtTop
    have "machine_inv (goto AtUpdate m (idle_tick (orz m))\<lparr>previous_rx_packets := c\<rparr>)" for c
      using idle_tick_inv[OF inv] by (simp add: machine_inv_def goto_def)
    then show ?thesis using idle_tick_inv[OF inv] by (simp add: main_step_def AtTop Let_def)
  next
    case AtUpdate
    then show ?thesis using run_fw_total[OF inv Orazio_driveUpdate_ready] by (auto simp: main_step_def)
  next
    case AtControl
    then show ?thesis using run_fw_total[OF inv Orazio_driveControl_ready] by (auto simp: main_step_def)
  next
    case AtSonar
    have "orazio_inv (upd_fw Orazio_sonarHandle (orz m))"
      using orazio_invI[OF inv Orazio_sonarHandle_ready(1)[OF r]] Orazio_sonarHandle_ready(2)[OF r]
        orazio_invD(4)[OF inv] by (simp add: upd_fw_def)
    then show ?thesis by (simp add: main_step_def AtSonar)
  next
    case AtInput
    have "orazio_inv (upd_status (\<lambda>st. st\<lparr>ss_rx_buffer_size := n\<rparr>) (orz m))" for n
      by (rule upd_status_inv[OF inv]) simp
    then show ?thesis using u[OF inv] by (simp add: main_step_def AtInput Let_def)
  next
    case AtRx
    then show ?thesis using inv flushInput_body_inv[OF inv] by (auto simp: main_step_def Let_def)
  next
    case AtProcess
    then show ?thesis using assms(2) by simp
  next
    case AtSend
    then show ?thesis using send_periodic_inv[OF inv] u by (auto simp: main_step_def)
  next
    case AtTx
    show ?thesis
    proof (cases "tx_items (base_handler (orz m))")
      case Nil
      then show ?thesis using tx_size_zero[OF inv Nil] tx_status_inv[OF inv] by (simp add: main_step_def AtTx Let_def)
    next
      case (Cons x xs)
      then show ?thesis
        using tx_size_pos[OF Cons] flushOutput_body_inv[OF inv Cons] by (auto simp: main_step_def AtTx Let_def)
    qed
  next
    case AtWatchdog
    then show ?thesis using watchdog_feed_inv[OF inv, of "previous_rx_packets m"] by (auto simp: main_step_def)
  next
    case AtEnd
    then show ?thesis using end_iteration_inv[OF inv] by (simp add: main_step_def)
  qed
qed

lemma main_step_inv:
  assumes "machine_inv m" and "main_step m = Inr m'"
  shows "machine_inv m'"
proof (cases "at m = AtProcess")
  case True
  then show ?thesis
    using assms process_packets_inv(1)[of "orz m"] by (auto simp: main_step_def machine_inv_def bindR_Inr_iff goto_def)
next
  case False
  then show ?thesis using main_step_total[OF assms(1)] assms(2) by auto
qed

lemma step_inv: "step m m' \<Longrightarrow> machine_inv m \<Longrightarrow> machine_inv m'"
proof (induction rule: step.induct)
  case (program m m')
  show ?case by (rule main_step_inv[OF program(2,1)])
next
  case (interrupt i m f)
  have inv: "orazio_inv (orz m)" using interrupt(3) by (simp add: machine_inv_def)
  have "fw_ready f \<and> serial_ok f"
    using irq_ready[OF orazio_invD(3,4)[OF inv], of i] interrupt(2) by auto
  then have "orazio_inv ((orz m)\<lparr>fw := f\<rparr>)" using orazio_invI[OF inv] by blast
  then show ?case by (simp add: machine_inv_def)
qed

lemma steps_inv: "steps m m' \<Longrightarrow> machine_inv m \<Longrightarrow> machine_inv m'"
  by (induction rule: steps.induct) (auto intro: step_inv)

end
