(* ===== verification/MainEquiv.thy ===== *)
theory MainEquiv
  imports MainSafety
begin

text \<open>
  Without interrupts the machine with a program counter runs exactly one iteration of the loop
  body of \<open>main\<close>: same result, same faults.
\<close>

section \<open>Runs with a result\<close>

definition leads :: "machine \<Rightarrow> machine result \<Rightarrow> bool" where
  "leads m r \<longleftrightarrow> (\<exists>n. run_steps n m = r)"

lemma leads_refl: "leads m (Inr m)"
  unfolding leads_def by (rule exI[of _ 0]) simp

lemma leads_step: "main_step m = r \<Longrightarrow> leads m r"
  unfolding leads_def by (rule exI[of _ 1]) (simp add: bindR_def split: sum.splits)

lemma leads_bind:
  assumes "leads m r" and "\<And>m'. r = Inr m' \<Longrightarrow> leads m' (g m')"
  shows "leads m (bindR r g)"
proof -
  obtain n where n: "run_steps n m = r" using assms(1) by (auto simp: leads_def)
  show ?thesis
  proof (cases r)
    case (Inl e)
    then show ?thesis using n by (auto simp: leads_def)
  next
    case (Inr m')
    then obtain k where "run_steps k m' = g m'" using assms(2) by (auto simp: leads_def)
    then have "run_steps (n + k) m = bindR r g" by (simp add: run_steps_add n Inr)
    then show ?thesis by (auto simp: leads_def)
  qed
qed

lemma leads_bind_state:
  assumes "leads x (bindR r (\<lambda>s. Inr (goto p m s)))" and "\<And>s. r = Inr s \<Longrightarrow> leads (goto p m s) (g s)"
  shows "leads x (bindR r g)"
proof -
  have "bindR (bindR r (\<lambda>s. Inr (goto p m s))) (\<lambda>m'. g (orz m')) = bindR r g" by (cases r) simp_all
  moreover have "leads x (bindR (bindR r (\<lambda>s. Inr (goto p m s))) (\<lambda>m'. g (orz m')))"
    by (rule leads_bind[OF assms(1)]) (use assms(2) in \<open>auto simp: bindR_Inr_iff\<close>)
  ultimately show ?thesis by simp
qed

lemma goto_goto [simp]: "goto p (goto q m s) s' = goto p m s'"
  by (simp add: goto_def)

section \<open>The loops\<close>

lemma leads_rx: "leads (goto AtRx m s) (bindR (flushInput_loop s) (\<lambda>s'. Inr (goto AtProcess m s')))"
proof (induction s rule: flushInput_loop.induct)
  case (1 s)
  show ?case
  proof (cases "rx_waiting s = 0")
    case True
    then show ?thesis by (simp add: flushInput_loop.simps) (rule leads_step, simp add: main_step_def Let_def)
  next
    case False
    have "leads (goto AtRx m s) (bindR (flushInput_body s) (\<lambda>s'. Inr (goto AtRx (goto AtRx m s) s')))"
      by (rule leads_step) (simp add: main_step_def Let_def False)
    then have "leads (goto AtRx m s) (bindR (flushInput_body s) (\<lambda>s1. bindR (flushInput_loop s1) (\<lambda>s'. Inr (goto AtProcess m s'))))"
      by (rule leads_bind_state) (use 1[OF False] in simp)
    moreover have "flushInput_loop s = bindR (flushInput_body s) flushInput_loop"
      using False by (subst flushInput_loop.simps) (simp add: bindR_def)
    ultimately show ?thesis by (simp add: bindR_bindR)
  qed
qed

lemma leads_tx: "leads (goto AtTx m s) (bindR (flushOutput_loop s) (\<lambda>s'. Inr (goto AtWatchdog m (tx_status s'))))"
proof (induction s rule: flushOutput_loop.induct)
  case (1 s)
  consider "tx_size (base_handler s) = 0" | "tx_size (base_handler s) < 0" | "0 < tx_size (base_handler s)" by linarith
  then show ?case
  proof cases
    case 1
    then show ?thesis by (simp add: flushOutput_loop.simps) (rule leads_step, simp add: main_step_def Let_def)
  next
    case 2
    then show ?thesis by (simp add: flushOutput_loop.simps) (rule leads_step, simp add: main_step_def Let_def)
  next
    case 3
    have "leads (goto AtTx m s) (bindR (flushOutput_body s) (\<lambda>s'. Inr (goto AtTx (goto AtTx m s) s')))"
      using 3 by (intro leads_step) (simp add: main_step_def Let_def)
    then have "leads (goto AtTx m s) (bindR (flushOutput_body s)
        (\<lambda>s1. bindR (flushOutput_loop s1) (\<lambda>s'. Inr (goto AtWatchdog m (tx_status s')))))"
      by (rule leads_bind_state) (use 1 3 in simp)
    moreover have "flushOutput_loop s = bindR (flushOutput_body s) flushOutput_loop"
      using 3 by (subst flushOutput_loop.simps) (simp add: bindR_def)
    ultimately show ?thesis by (simp add: bindR_bindR)
  qed
qed

section \<open>The statements of one iteration\<close>

text \<open>What is left to do from the watchdog, the transmission, the queueing, the processing on.\<close>

definition from_watchdog :: "machine \<Rightarrow> orazio \<Rightarrow> machine result" where
  "from_watchdog m s = bindR (watchdog_feed (previous_rx_packets m) s) (\<lambda>s. Inr (goto AtTop m (end_iteration s)))"

definition from_send :: "machine \<Rightarrow> orazio \<Rightarrow> machine result" where
  "from_send m s = bindR (send_periodic s) (\<lambda>s. bindR (Orazio_flushOutputBuffers s) (from_watchdog m))"

definition from_input :: "machine \<Rightarrow> orazio \<Rightarrow> machine result" where
  "from_input m s = bindR (Orazio_flushInputBuffers s) (\<lambda>s. bindR (process_packets s) (from_send m))"

lemma prev_goto [simp]: "previous_rx_packets (goto p m s) = previous_rx_packets m"
  by (simp add: goto_def)

lemma leads_watchdog: "leads (goto AtWatchdog m s) (from_watchdog m s)"
  unfolding from_watchdog_def
proof (rule leads_bind_state)
  show "leads (goto AtWatchdog m s) (bindR (watchdog_feed (previous_rx_packets m) s) (\<lambda>s. Inr (goto AtEnd m s)))"
    by (rule leads_step) (simp add: main_step_def)
  show "leads (goto AtEnd m s') (Inr (goto AtTop m (end_iteration s')))" for s'
    by (rule leads_step) (simp add: main_step_def)
qed

lemma leads_flush_out:
  assumes "uart_ready (fw s)"
  shows "leads (goto AtTx m s) (bindR (Orazio_flushOutputBuffers s) (from_watchdog m))"
proof (rule leads_bind_state)
  have "bindR (Orazio_flushOutputBuffers s) (\<lambda>s. Inr (goto AtWatchdog m s))
    = bindR (flushOutput_loop s) (\<lambda>s'. Inr (goto AtWatchdog m (tx_status s')))"
    using assms by (simp add: Orazio_flushOutputBuffers_def bindR_bindR)
  then show "leads (goto AtTx m s) (bindR (Orazio_flushOutputBuffers s) (\<lambda>s. Inr (goto AtWatchdog m s)))"
    using leads_tx by simp
qed (rule leads_watchdog)

lemma leads_send: "leads (goto AtSend m s) (from_send m s)"
proof -
  let ?sent = "bindR (send_periodic s) (\<lambda>s'. if uart_ready (fw s') then Inr (goto AtTx m s') else Inl NullDeref)"
  have "leads (goto AtSend m s) ?sent" by (rule leads_step) (simp add: main_step_def cong: if_cong)
  then have "leads (goto AtSend m s) (bindR ?sent (\<lambda>m'. bindR (Orazio_flushOutputBuffers (orz m')) (from_watchdog m)))"
    by (rule leads_bind) (use leads_flush_out in \<open>auto simp: bindR_Inr_iff split: if_splits\<close>)
  moreover have "bindR ?sent (\<lambda>m'. bindR (Orazio_flushOutputBuffers (orz m')) (from_watchdog m)) = from_send m s"
    unfolding from_send_def by (cases "send_periodic s") (simp_all add: Orazio_flushOutputBuffers_def)
  ultimately show ?thesis by simp
qed

lemma leads_input: "leads (goto AtInput m s) (from_input m s)"
proof (cases "uart_ready (fw s)")
  case False
  then show ?thesis
    by (intro leads_step) (simp add: main_step_def from_input_def Orazio_flushInputBuffers_def Let_def)
next
  case True
  let ?s = "upd_status (\<lambda>st. st\<lparr>ss_rx_buffer_size := word_of_nat (rx_waiting s)\<rparr>) s"
  have process: "leads (goto AtProcess m s') (bindR (process_packets s') (from_send m))" for s'
  proof (rule leads_bind_state)
    show "leads (goto AtProcess m s') (bindR (process_packets s') (\<lambda>s. Inr (goto AtSend m s)))"
      by (rule leads_step) (simp add: main_step_def)
  qed (rule leads_send)
  have rx: "leads (goto AtRx m ?s) (bindR (flushInput_loop ?s) (\<lambda>s. bindR (process_packets s) (from_send m)))"
    by (rule leads_bind_state[OF leads_rx process])
  have "leads (goto AtInput m s) (Inr (goto AtRx m ?s))"
    using True by (intro leads_step) (simp add: main_step_def Let_def)
  from leads_bind[OF this, of "\<lambda>m'. bindR (flushInput_loop (orz m')) (\<lambda>s. bindR (process_packets s) (from_send m))"] rx
  show ?thesis using True by (simp add: from_input_def Orazio_flushInputBuffers_def)
qed

lemma leads_update:
  "leads (goto AtUpdate m s) (bindR (run_fw Orazio_driveUpdate s) (\<lambda>s. bindR (run_fw Orazio_driveControl s) (\<lambda>s.
     from_input m (upd_fw Orazio_sonarHandle s))))"
proof (rule leads_bind_state)
  show "leads (goto AtUpdate m s) (bindR (run_fw Orazio_driveUpdate s) (\<lambda>s. Inr (goto AtControl m s)))"
    by (rule leads_step) (simp add: main_step_def)
  have sonar: "leads (goto AtSonar m t) (from_input m (upd_fw Orazio_sonarHandle t))" for t
  proof -
    have "leads (goto AtSonar m t) (Inr (goto AtInput m (upd_fw Orazio_sonarHandle t)))"
      by (rule leads_step) (simp add: main_step_def)
    from leads_bind[OF this, of "\<lambda>m'. from_input m (orz m')"] leads_input show ?thesis by simp
  qed
  show "leads (goto AtControl m t) (bindR (run_fw Orazio_driveControl t) (\<lambda>s. from_input m (upd_fw Orazio_sonarHandle s)))" for t
  proof (rule leads_bind_state)
    show "leads (goto AtControl m t) (bindR (run_fw Orazio_driveControl t) (\<lambda>s. Inr (goto AtSonar m s)))"
      by (rule leads_step) (simp add: main_step_def)
  qed (rule sonar)
qed

text \<open>The whole iteration; the register of the loop keeps the packet count it read.\<close>

definition finish :: "machine \<Rightarrow> orazio \<Rightarrow> machine" where
  "finish m s = (if comm_handle (fw (orz m)) = 0 then m\<lparr>at := AtTop, orz := s\<rparr>
     else m\<lparr>at := AtTop, orz := s, previous_rx_packets := rx_count (orz m)\<rparr>)"

lemma idle_tick_frame [simp]: "comm_handle (fw (idle_tick s)) = comm_handle (fw s)" "rx_count (idle_tick s) = rx_count s"
  by (simp_all add: idle_tick_def rx_count_def upd_status_def upd_fw_def)

lemma leads_iteration:
  assumes "at m = AtTop"
  shows "leads m (bindR (main_iteration (orz m)) (\<lambda>s. Inr (finish m s)))"
proof (cases "comm_handle (fw (orz m)) = 0")
  case True
  then show ?thesis
    using assms by (intro leads_step) (simp add: main_step_def main_iteration_def Let_def finish_def goto_def)
next
  case False
  let ?s = "idle_tick (orz m)"
  let ?m = "m\<lparr>at := AtUpdate, orz := ?s, previous_rx_packets := rx_count (orz m)\<rparr>"
  have "leads m (Inr ?m)"
    using assms False by (intro leads_step) (simp add: main_step_def Let_def goto_def)
  moreover have start: "goto AtUpdate ?m ?s = ?m" by (cases m) (simp add: goto_def)
  have "leads ?m (bindR (run_fw Orazio_driveUpdate ?s) (\<lambda>s. bindR (run_fw Orazio_driveControl s) (\<lambda>s.
     from_input ?m (upd_fw Orazio_sonarHandle s))))"
    using leads_update[of ?m ?s] unfolding start .
  ultimately have "leads m (bindR (Inr ?m) (\<lambda>m'. bindR (run_fw Orazio_driveUpdate ?s) (\<lambda>s. bindR (run_fw Orazio_driveControl s) (\<lambda>s.
     from_input ?m (upd_fw Orazio_sonarHandle s)))))"
    by (intro leads_bind) simp_all
  moreover have "goto AtTop ?m s' = finish m s'" for s'
    using False by (cases m) (simp add: goto_def finish_def)
  ultimately show ?thesis
    using False
    by (simp add: main_iteration_def Let_def bindR_bindR from_input_def from_send_def[abs_def] from_watchdog_def[abs_def]
        Orazio_commHandle_def)
qed

end
