(* ===== verification/Boot.thy ===== *)
theory Boot
  imports MainEquiv
begin

text \<open>
  The initialisation of \<open>main\<close>: the receive buffers of the seven packet types are disjoint, so
  that installing them establishes the invariant of the packet queue, and a boot whose motor
  drivers can be set up ends in the invariant of the loop.
\<close>

section \<open>Installing the packet types\<close>

text \<open>Every receive buffer lies inside one of the given areas.\<close>

definition within :: "('f, 'z) deferred_scheme \<Rightarrow> (addr \<times> nat) list \<Rightarrow> bool" where
  "within s As \<longleftrightarrow> (\<forall>t < PACKET_TYPE_MAX. \<forall>i < num_buffers_of s t. \<exists>a \<in> set As.
     fst a \<le> fst (region s t i) \<and> fst (region s t i) + snd (region s t i) \<le> fst a + snd a)"

lemma within_fresh:
  assumes "within s As" and "buffer \<noteq> NULL" and "\<forall>a \<in> set As. disjoint_regions (buffer, n) a"
  shows "fresh_area s buffer n"
proof -
  have "disjoint_regions (buffer, n) (region s t i)" if ti: "t < 20" "i < num_buffers_of s t" for t i
  proof -
    obtain a where a: "a \<in> set As" "fst a \<le> fst (region s t i)"
      "fst (region s t i) + snd (region s t i) \<le> fst a + snd a"
      using assms(1) ti unfolding within_def by blast
    have "disjoint_regions (buffer, n) a" using assms(3) a(1) by blast
    then show ?thesis using a(2,3) by (auto simp: disjoint_regions_def)
  qed
  then show ?thesis using assms(2) by (simp add: fresh_area_def)
qed

lemma install_frame:
  assumes "DeferredPacketHandler_installPacket type sz buffer 2 action args h s = Inr (Success, h', s')"
    and "length (packet_infos s) = 20" and "unat type < 20" and "within s As"
  shows "within s' ((buffer, 2 * unat sz) # As)" and "operations h' = (operations h)[unat type := info_ops (unat type)]"
    and "tx_ok h' = tx_ok h" and "deferred.more s' = deferred.more s" and "packet_infos s' = (packet_infos s)[unat type := packet_infos s' ! unat type]"
proof -
  let ?t = "unat type"
  let ?bufs = "[buffer, buffer + unat sz]"
  obtain ops info where s': "s' = s\<lparr>ops_at := (ops_at s)(info_ops ?t := ops), packet_infos := (packet_infos s)[?t := info]\<rparr>"
    and ops: "op_size ops = sz" and info: "packet_buffers info = ?bufs" "packet_buffers_max info = 2"
    using assms(1,3)
    by (auto simp: DeferredPacketHandler_installPacket_def Let_def numeral_2_eq_2 split: prod.splits if_splits)
  have h': "h' = h\<lparr>operations := (operations h)[?t := info_ops ?t]\<rparr>"
    using assms(1,3)
    by (auto simp: DeferredPacketHandler_installPacket_def PacketHandler_installPacket_def Let_def split: prod.splits if_splits)
  show "operations h' = (operations h)[?t := info_ops ?t]" "tx_ok h' = tx_ok h" "deferred.more s' = deferred.more s"
    "packet_infos s' = (packet_infos s)[?t := packet_infos s' ! ?t]"
    using assms(2,3) by (simp_all add: h' s' tx_ok_def)
  have "\<exists>a \<in> set ((buffer, 2 * unat sz) # As). fst a \<le> fst (region s' t i) \<and>
      fst (region s' t i) + snd (region s' t i) \<le> fst a + snd a" if ti: "t < 20" "i < num_buffers_of s' t" for t i
  proof (cases "t = ?t")
    case True
    then have "num_buffers_of s' t = 2" "region s' t i = (?bufs ! i, unat sz)"
      using assms(2,3) info ops by (simp_all add: num_buffers_of_def region_def s')
    then show ?thesis using ti(2) by (cases i) auto
  next
    case False
    then have "num_buffers_of s' t = num_buffers_of s t" "region s' t i = region s t i"
      by (simp_all add: num_buffers_of_def region_def s')
    then show ?thesis using assms(4) ti by (simp add: within_def)
  qed
  then show "within s' ((buffer, 2 * unat sz) # As)" by (simp add: within_def)
qed

text \<open>One entry of the table.\<close>

definition free_type :: "orazio \<Rightarrow> nat \<Rightarrow> bool" where
  "free_type s t \<longleftrightarrow> \<not> installed s t \<and> operations (base_handler s) ! t = NULL"

lemma install_step:
  assumes inv: "handler_inv (base_handler s) s" and type: "unat type < 20" "free_type s (unat type)"
    and size: "3 \<le> size'" "size' < 128" and area: "within s As" "buffer \<noteq> NULL" "\<forall>a \<in> set As. disjoint_regions (buffer, 2 * size') a"
  shows "\<exists>s'. install (type, size', buffer, action, args) s = Inr s' \<and> handler_inv (base_handler s') s'
    \<and> within s' ((buffer, 2 * size') # As) \<and> (\<forall>u < 20. u \<noteq> unat type \<longrightarrow> free_type s' u = free_type s u)
    \<and> fw s' = fw s \<and> tx_ok (base_handler s') = tx_ok (base_handler s) \<and> pending s' = pending s"
proof -
  let ?sz = "word_of_nat size' :: u8"
  have sz: "unat ?sz = size'" using size by (simp add: unat_of_nat)
  have any: "?sz \<noteq> PACKET_SIZE_ANY"
  proof
    assume "?sz = PACKET_SIZE_ANY"
    then have "size' = unat PACKET_SIZE_ANY" using sz by simp
    then show False using size by simp
  qed
  have fresh: "fresh_area s buffer (nat 2 * unat ?sz)" using within_fresh[OF area] by (simp add: sz)
  obtain h' s1 where call: "DeferredPacketHandler_installPacket type ?sz buffer 2 (Some action) args (base_handler s) s = Inr (Success, h', s1)"
    and inv1: "handler_inv h' s1" and pend: "pending s1 = pending s"
    and inst: "\<forall>u < 20. u \<noteq> unat type \<longrightarrow> installed s1 u = installed s u"
    using installPacket_ok[OF inv type(1) _ _ _ any _ _ fresh, of "Some action" args] type(2) size sz
    by (auto simp: free_type_def)
  have "length (packet_infos s) = 20" using inv by (simp add: handler_inv_def receiver_inv_def deferred_inv_def)
  note frame = install_frame[OF call this type(1) area(1)]
  let ?s = "s1\<lparr>base_handler := h'\<rparr>"
  have "within ?s ((buffer, 2 * size') # As)" using frame(1) sz by (simp add: within_def num_buffers_of_def region_def)
  moreover have "handler_inv (base_handler ?s) ?s" using inv1 same_queue_inv(5)[of s1 ?s h'] by simp
  moreover have "free_type ?s u = free_type s u" if "u < 20" "u \<noteq> unat type" for u
    using that inst frame(2) by (simp add: free_type_def installed_def)
  moreover have "fw s1 = fw s" using frame(4) by (cases s; cases s1) simp
  moreover have "pending ?s = pending s" using pend by (simp add: pending_def)
  ultimately show ?thesis using call frame(3) by (simp add: install_def)
qed

text \<open>A table of distinct types whose areas do not overlap.\<close>

fun table_fits :: "nat list \<Rightarrow> (addr \<times> nat) list \<Rightarrow> (u8 \<times> nat \<times> addr \<times> ActionFn \<times> addr) list \<Rightarrow> bool" where
  "table_fits ts As [] \<longleftrightarrow> True"
| "table_fits ts As ((type, size', buffer, action, args) # es) \<longleftrightarrow>
     unat type < 20 \<and> unat type \<notin> set ts \<and> 3 \<le> size' \<and> size' < 128 \<and> buffer \<noteq> NULL \<and>
     (\<forall>a \<in> set As. disjoint_regions (buffer, 2 * size') a) \<and>
     table_fits (unat type # ts) ((buffer, 2 * size') # As) es"

lemma packet_table_fits: "table_fits [] [] packet_table"
  by (simp add: packet_table_def sizeof_defs buffer_defs disjoint_regions_def)

lemma install_all:
  assumes "handler_inv (base_handler s) s" and "within s As" and "table_fits ts As es"
    and "\<forall>u < 20. u \<notin> set ts \<longrightarrow> free_type s u"
  shows "\<exists>s'. foldR install es s = Inr s' \<and> handler_inv (base_handler s') s' \<and> fw s' = fw s
    \<and> tx_ok (base_handler s') = tx_ok (base_handler s) \<and> pending s' = pending s"
  using assms
proof (induction ts As es arbitrary: s rule: table_fits.induct)
  case (1 ts As)
  then show ?case by simp
next
  case (2 ts As type size' buffer action args es)
  note fits = 2(4)[unfolded table_fits.simps]
  have "free_type s (unat type)" using 2(5) fits by blast
  then obtain s1 where s1: "install (type, size', buffer, action, args) s = Inr s1" "handler_inv (base_handler s1) s1"
    "within s1 ((buffer, 2 * size') # As)" "\<forall>u < 20. u \<noteq> unat type \<longrightarrow> free_type s1 u = free_type s u"
    "fw s1 = fw s" "tx_ok (base_handler s1) = tx_ok (base_handler s)" "pending s1 = pending s"
    using install_step[OF 2(2) _ _ _ _ 2(3), of type size' buffer action args] fits by blast
  have "\<forall>u < 20. u \<notin> set (unat type # ts) \<longrightarrow> free_type s1 u" using s1(4) 2(5) by simp
  from 2(1)[OF s1(2,3) _ this] fits obtain s' where "foldR install es s1 = Inr s'" "handler_inv (base_handler s') s'"
    "fw s' = fw s1" "tx_ok (base_handler s') = tx_ok (base_handler s1)" "pending s' = pending s1"
    by blast
  then show ?case using s1 by simp
qed

lemma initialize_tx_ok:
  assumes "length (tx_buffer h) = PACKET_SIZE_MAX"
  shows "tx_ok (snd (PacketHandler_initialize h))"
  using assms by (simp add: PacketHandler_initialize_def tx_ok_def)

section \<open>Devices\<close>

definition avr_only :: "'a avr_scheme \<Rightarrow> 'a avr_scheme \<Rightarrow> bool" where
  "avr_only d d' \<longleftrightarrow> d' = d\<lparr>io := io d', io16 := io16 d', irq_enabled := irq_enabled d'\<rparr>"

lemma avr_only_refl [simp]: "avr_only d d"
  by (simp add: avr_only_def)

lemma avr_only_step [simp]:
  "avr_only d (set_reg r v e) = avr_only d e" "avr_only d (or_reg r v e) = avr_only d e"
  "avr_only d (clear_reg r v e) = avr_only d e" "avr_only d (set_reg16 q w e) = avr_only d e"
  "avr_only d (cli e) = avr_only d e" "avr_only d (sei e) = avr_only d e"
  by (cases d; cases e; simp add: avr_only_def or_reg_def clear_reg_def set_reg_def set_reg16_def cli_def sei_def)+

lemma avr_only_regs: "regs_only e e' \<Longrightarrow> avr_only d e \<Longrightarrow> avr_only d e'"
  by (cases d; cases e; cases e') (simp add: regs_only_def avr_only_def)

lemma avr_only_init: "avr_only d (DigIO_init d)" "avr_only d (snd (PWM_init d))"
proof -
  have "avr_only d (fold (\<lambda>i d. snd (DigIO_setValue (word_of_nat i) 1 (snd (DigIO_setDirection (word_of_nat i) Input d)))) is e)"
    if "avr_only d e" for "is" e
    using that
  proof (induction "is" arbitrary: e)
    case (Cons i "is")
    have "regs_only e (snd (DigIO_setValue (word_of_nat i) 1 (snd (DigIO_setDirection (word_of_nat i) Input e))))" by simp
    from Cons.IH[OF avr_only_regs[OF this Cons.prems]] show ?case by simp
  qed simp
  then show "avr_only d (DigIO_init d)" by (simp add: DigIO_init_def)
  show "avr_only d (snd (PWM_init d))" by (simp add: PWM_init_def Let_def)
qed

text \<open>What the initialisation assumes of the globals.\<close>

definition fw_shape :: "'a firmware_scheme \<Rightarrow> bool" where
  "fw_shape f \<longleftrightarrow> wf_fw f \<and> headers_ok f"

definition uart_arrays :: "'a board_scheme \<Rightarrow> bool" where
  "uart_arrays d \<longleftrightarrow> length (uart_tx_buffer (uart_0 d)) = UART_BUFFER_SIZE \<and> length (uart_rx_buffer (uart_0 d)) = UART_BUFFER_SIZE"

lemma avr_only_shape:
  assumes "avr_only f f'"
  shows "fw_shape f' = fw_shape f" and "fw_ready f' = fw_ready f" and "uart_arrays f' = uart_arrays f" and "uart_0 f' = uart_0 f"
    and "serial_ok f' = serial_ok f"
proof -
  obtain a b q where "f' = f\<lparr>io := a, io16 := b, irq_enabled := q\<rparr>" using assms unfolding avr_only_def by blast
  then show "fw_shape f' = fw_shape f" and "fw_ready f' = fw_ready f" and "uart_arrays f' = uart_arrays f"
    and "uart_0 f' = uart_0 f" and "serial_ok f' = serial_ok f"
    by (simp_all add: fw_shape_def wf_fw_def headers_ok_def fw_ready_def joints_ready_def drive_ready_def uart_arrays_def
        serial_ok_def)
qed

lemma main_devices_shape:
  assumes "fw_shape f" and "uart_arrays f"
  shows "fw_shape (main_devices f)" and "uart_arrays (main_devices f)"
proof -
  let ?f = "snd (PWM_init (DigIO_init f))"
  note a = avr_only_shape[OF avr_only_init(1)[of f]] avr_only_shape[OF avr_only_init(2)[of "DigIO_init f"]]
  have f: "fw_shape ?f" "uart_arrays ?f" using a assms by simp_all
  obtain i j q where enc: "Encoder_init ?f = ?f\<lparr>io := i, io16 := j, irq_enabled := q,
      encoder_current_value := replicate NUM_ENCODERS 0, encoder_sampled_value := replicate NUM_ENCODERS 0, encoder_status := 0\<rparr>"
    by (cases ?f) (auto simp: Encoder_init_def Let_def or_reg_def clear_reg_def set_reg_def cli_def sei_def)
  show "fw_shape (main_devices f)" "uart_arrays (main_devices f)"
    using f by (simp_all add: main_devices_def Let_def enc Timers_init_def fw_shape_def wf_fw_def headers_ok_def uart_arrays_def)
qed

section \<open>Parameters\<close>

definition shaped :: "'a firmware_scheme \<Rightarrow> bool" where
  "shaped f \<longleftrightarrow> fw_shape f \<and> uart_arrays f"

lemma jointsInit_board:
  assumes "Orazio_jointsInit f = (r, f')"
  shows "uart_0 f' = uart_0 f"
proof -
  have one: "uart_0 g' = uart_0 g" if init: "joint_init_one i g = (q, g')" for i q and g g' :: "'a firmware_scheme"
  proof -
    let ?g = "g\<lparr>joint_controllers := (joint_controllers g)[i := JointController_init i i i zero_controller]\<rparr>"
    let ?p = "jpp_param (joint_params ?g ! i)"
    obtain b hp g1 where h: "HBridge_init (jp_h_bridge_type ?p) (bridges ?g ! i) (jp_h_bridge_pins ?p) ?g = (q, b, hp, g1)"
      and g': "uart_0 g' = uart_0 g1"
      using init by (auto simp: joint_init_one_def Let_def split: prod.splits)
    obtain a c where "g1 = ?g\<lparr>io := a, io16 := c\<rparr>" using regs_only_init(1)[OF h] unfolding regs_only_def by blast
    then show ?thesis by (simp add: g')
  qed
  show ?thesis using assms one by (auto simp: Orazio_jointsInit_def joints_list split: prod.splits if_splits)
qed

lemma jointsInit_shaped:
  assumes "shaped f" and "Orazio_jointsInit f = (r, f')"
  shows "shaped f'" and "\<not> is_error r \<Longrightarrow> joints_ready f'"
proof -
  have "wf_fw f" "headers_ok f" using assms(1) by (simp_all add: shaped_def fw_shape_def)
  note j = Orazio_jointsInit_ready[OF this(1) assms(2)]
  show "shaped f'" using j(1,4) jointsInit_board[OF assms(2)] assms(1) by (simp add: shaped_def fw_shape_def uart_arrays_def)
  show "\<not> is_error r \<Longrightarrow> joints_ready f'" using j(5) by simp
qed

lemma driveInit_shaped:
  assumes "shaped f" and "Orazio_driveInit f = Inr (r, f')"
  shows "shaped f'" and "joints_ready f' = joints_ready f" and "joints_ready f \<Longrightarrow> fw_ready f'"
proof -
  have w: "wf_fw f" "headers_ok f" using assms(1) by (simp_all add: shaped_def fw_shape_def)
  show "shaped f'" "joints_ready f' = joints_ready f"
    using assms w
    by (auto simp: Orazio_driveInit_def DifferentialDriveController_init_def DifferentialDriveController_reset_def Let_def
        bindR_Inr_iff shaped_def fw_shape_def wf_fw_def joints_ready_def uart_arrays_def split: if_splits)
  show "joints_ready f \<Longrightarrow> fw_ready f'" using Orazio_driveInit_ready(1)[OF w(1) _ w(2) assms(2)] .
qed

lemma sonarInit_shaped: "shaped f \<Longrightarrow> shaped (snd (Orazio_sonarInit f))"
  by (simp add: Orazio_sonarInit_def shaped_def fw_shape_def wf_fw_def headers_ok_def uart_arrays_def)

lemma paramLoad_shaped:
  assumes "shaped f" and "Orazio_paramLoad t i f = Inr (r, f')"
  shows "shaped f'"
proof -
  have w: "wf_fw f" using assms(1) by (simp add: shaped_def fw_shape_def)
  have fetch: "shaped f1" if "param_fetch t i f = Inr f1" for f1
  proof -
    have "uart_0 f1 = uart_0 f" using that by (auto simp: param_fetch_def split: if_splits)
    then show ?thesis
      using param_fetch_wf(1,5)[OF w that] assms(1) by (simp add: shaped_def fw_shape_def uart_arrays_def)
  qed
  have set: "shaped f2" if "shaped f1" and call: "Orazio_paramSet t i f1 = Inr (q, f2)" for f1 f2 q
  proof -
    consider "Orazio_driveInit f1 = Inr (q, f2)" | "Orazio_jointsInit f1 = (q, f2)" | "Orazio_sonarInit f1 = (q, f2)" | "f2 = f1"
      using call by (auto simp: Orazio_paramSet_def split: if_splits)
    then show ?thesis
      using that(1) driveInit_shaped(1) jointsInit_shaped(1) sonarInit_shaped[of f1] by cases auto
  qed
  show ?thesis using assms fetch set by (auto simp: Orazio_paramLoad_def bindR_Inr_iff split: if_splits)
qed

lemma paramSave_shaped:
  assumes "shaped f" and "Orazio_paramSave t i f = Inr (r, f')"
  shows "shaped f'"
proof -
  have wr: "shaped (ee_write off bs f)" for off bs
  proof -
    obtain e where "ee_write off bs f = f\<lparr>eeprom := e\<rparr>"
      using EEPROM_write_only[of "word_of_nat off" bs f] by (auto simp: ee_write_def)
    then show ?thesis using assms(1) by (simp add: shaped_def fw_shape_def wf_fw_def headers_ok_def uart_arrays_def)
  qed
  show ?thesis using assms wr by (auto simp: Orazio_paramSave_def split: if_splits)
qed

lemma ignore_status_shaped:
  assumes "shaped f" and "ignore_status (g f) = Inr f'" and "\<And>r f'. g f = Inr (r, f') \<Longrightarrow> shaped f'"
  shows "shaped f'"
  using assms by (auto simp: ignore_status_def bindR_Inr_iff)

lemma paramInit_shaped:
  assumes "shaped f" and "Orazio_paramInit f = Inr f'"
  shows "shaped f'"
proof -
  have load: "shaped f2" if "shaped f1" "ignore_status (Orazio_paramLoad t i f1) = Inr f2" for f1 f2 t i
    using ignore_status_shaped[OF that(1), of "Orazio_paramLoad t i"] that paramLoad_shaped[OF that(1)] by blast
  have save: "shaped f2" if "shaped f1" "ignore_status (Orazio_paramSave t i f1) = Inr f2" for f1 f2 t i
    using ignore_status_shaped[OF that(1), of "Orazio_paramSave t i"] that paramSave_shaped[OF that(1)] by blast
  have wr: "shaped (ee_write off bs f1)" if "shaped f1" for off bs f1
  proof -
    obtain e where "ee_write off bs f1 = f1\<lparr>eeprom := e\<rparr>"
      using EEPROM_write_only[of "word_of_nat off" bs f1] by (auto simp: ee_write_def)
    then show ?thesis using that by (simp add: shaped_def fw_shape_def wf_fw_def headers_ok_def uart_arrays_def)
  qed
  have defaults: "shaped f2" if sh: "shaped f1" and d: "param_save_defaults f1 = Inr f2" for f1 f2
    using d save wr[OF wr[OF sh]]
    by (simp add: param_save_defaults_def Let_def bindR_Inr_iff joints_list) blast
  have all: "shaped f2" if sh: "shaped f1" and d: "param_load_all f1 = Inr f2" for f1 f2
    using d load sh by (simp add: param_load_all_def bindR_Inr_iff joints_list) blast
  obtain f1 f2 where f1: "(if fst (get32 (ee_read PROTOCOL_VERSION_OFFSET 4 f)) \<noteq> sp_protocol_version (system_params f)
      then param_save_defaults f else Inr f) = Inr f1" and f2: "param_load_all f1 = Inr f2"
    and f': "\<exists>p. f' = f2\<lparr>system_params := p\<rparr>"
    using assms(2) by (auto simp: Orazio_paramInit_def Let_def bindR_Inr_iff)
  have "shaped f1" using f1 assms(1) defaults by (auto split: if_splits)
  then have "shaped f2" using all f2 by blast
  then show ?thesis using f' by (auto simp: shaped_def fw_shape_def wf_fw_def headers_ok_def uart_arrays_def)
qed

section \<open>The whole boot\<close>

lemma Sonar_init_ready: "fw_ready (Sonar_init f) = fw_ready f" "uart_arrays (Sonar_init f) = uart_arrays f"
proof -
  obtain a b c d e where "Sonar_init f = f\<lparr>io := a, io16 := b, counters := c, triggers := d, echos := e\<rparr>"
    by (cases f) (auto simp: Sonar_init_def Counter_init_def Let_def or_reg_def set_reg_def set_reg16_def)
  then show "fw_ready (Sonar_init f) = fw_ready f" "uart_arrays (Sonar_init f) = uart_arrays f"
    by (simp_all add: ready_defs uart_arrays_def)
qed

lemma UART_init_ready:
  assumes "UART_init baud f = (u, f')" and "fw_ready f" and "uart_arrays f" and "unat baud = 57600 \<or> unat baud = 115200"
  shows "u" and "fw_ready f'" and "uart_tx_ok (uart_0 f') \<and> uart_rx_ok (uart_0 f')"
proof -
  let ?reset = "\<lambda>g. fw_ready (UART_reset g) = fw_ready g \<and> (uart_arrays g \<longrightarrow> uart_tx_ok (uart_0 (UART_reset g)) \<and> uart_rx_ok (uart_0 (UART_reset g)))"
  have reset: "?reset g" for g :: "'a firmware_scheme"
    by (simp add: UART_reset_def Let_def uart_tx_ok_def uart_rx_ok_def uart_arrays_def set_reg_def sei_def ready_defs)
  have baud: "avr_only g (setBaud n g)" for n and g :: "'a firmware_scheme"
    by (simp add: setBaud_def Let_def split: prod.splits)
  let ?f = "f\<lparr>uart_0 := (uart_0 f)\<lparr>uart_num := 0\<rparr>\<rparr>"
  have f: "fw_ready ?f" "uart_arrays ?f" using assms(2,3) by (simp_all add: uart_arrays_def)
  show "u" "fw_ready f'" "uart_tx_ok (uart_0 f') \<and> uart_rx_ok (uart_0 f')"
    using assms(1,4) f reset avr_only_shape[OF baud, of _ ?f]
    by (auto simp: UART_init_def Let_def setBaud57600_def setBaud115200_def split: if_splits)
qed

text \<open>The state before \<open>main\<close>: arrays of the declared sizes.\<close>

definition reset_ok :: "orazio \<Rightarrow> bool" where
  "reset_ok s \<longleftrightarrow> shaped (fw s) \<and> length (pending_packets s) = PENDING_PACKETS_MAX
     \<and> length (tx_buffer (base_handler s)) = PACKET_SIZE_MAX"

text \<open>The loaded parameters are usable: the motor drivers can be set up, the baud rate is known.\<close>

definition boot_params_ok :: "orazio \<Rightarrow> bool" where
  "boot_params_ok s \<longleftrightarrow> (case Orazio_paramInit (main_devices (fw s)) of
     Inl e \<Rightarrow> False
   | Inr f \<Rightarrow> \<not> is_error (fst (Orazio_jointsInit f)) \<and> unat (sp_comm_speed (system_params f)) \<in> {57600, 115200})"

lemma driveInit_params: "Orazio_driveInit f = Inr (r, f') \<Longrightarrow> system_params f' = system_params f"
  by (auto simp: Orazio_driveInit_def DifferentialDriveController_init_def DifferentialDriveController_reset_def Let_def
      bindR_Inr_iff split: if_splits)

lemma joint_init_one_params: "joint_init_one i f = (r, f') \<Longrightarrow> system_params f' = system_params f"
proof -
  assume init: "joint_init_one i f = (r, f')"
  let ?f = "f\<lparr>joint_controllers := (joint_controllers f)[i := JointController_init i i i zero_controller]\<rparr>"
  let ?p = "jpp_param (joint_params ?f ! i)"
  obtain b hp g where h: "HBridge_init (jp_h_bridge_type ?p) (bridges ?f ! i) (jp_h_bridge_pins ?p) ?f = (r, b, hp, g)"
    and f': "system_params f' = system_params g"
    using init by (auto simp: joint_init_one_def Let_def split: prod.splits)
  show ?thesis using regs_only_fields(3)[OF regs_only_init(1)[OF h]] by (simp add: f')
qed

lemma jointsInit_params: "Orazio_jointsInit f = (r, f') \<Longrightarrow> system_params f' = system_params f"
  by (auto simp: Orazio_jointsInit_def joints_list dest!: joint_init_one_params split: prod.splits if_splits)

lemma Sonar_init_params: "system_params (Sonar_init f) = system_params f"
  by (cases f) (simp add: Sonar_init_def Counter_init_def Let_def or_reg_def set_reg_def set_reg16_def)

lemma main_timer_ready: "fw_ready (main_timer f) = fw_ready f" "serial_ok (main_timer f) = serial_ok f"
proof -
  let ?g = "snd (Timer_create ''timer_0'' (sp_timer_period_ms (system_params f)) OnTimerTick 0 f)"
  have g: "fw_ready ?g = fw_ready f" "serial_ok ?g = serial_ok f"
    by (simp_all add: Timer_create_def ready_defs serial_ok_def)
  have "avr_only h (Timer_start t h)" for t and h :: firmware
    by (simp add: Timer_start_def timer0_start_def Let_def)
  from avr_only_shape(2,5)[OF this] show "fw_ready (main_timer f) = fw_ready f" "serial_ok (main_timer f) = serial_ok f"
    using g by (simp_all add: main_timer_def Timer_create_def)
qed

lemma commSendString_ready:
  "fw_ready (Orazio_commSendString txt f) = fw_ready f" "serial_ok (Orazio_commSendString txt f) = serial_ok f"
proof -
  have "length (copy_string k src dest) = length dest" for k src dest
    by (induction k src dest rule: copy_string.induct) simp_all
  then show "fw_ready (Orazio_commSendString txt f) = fw_ready f" "serial_ok (Orazio_commSendString txt f) = serial_ok f"
    by (auto simp: Orazio_commSendString_def ready_defs serial_ok_def header_ok_def wf_StringMessagePacket_def)
qed

lemma main_subsystems_ready:
  assumes "shaped f" and "Orazio_paramInit f = Inr f1" and "\<not> is_error (fst (Orazio_jointsInit f1))"
    and "main_subsystems f = Inr f'"
  shows "fw_ready f'" and "uart_arrays f'" and "system_params f' = system_params f1"
proof -
  have s1: "shaped f1" by (rule paramInit_shaped[OF assms(1,2)])
  obtain r f2 where f2: "Orazio_jointsInit f1 = (r, f2)" by (metis surj_pair)
  have s2: "shaped f2" "joints_ready f2" using jointsInit_shaped[OF s1 f2] assms(3) f2 by simp_all
  obtain q f3 where f3: "Orazio_driveInit f2 = Inr (q, f3)" and f': "f' = snd (Orazio_sonarInit (Sonar_init f3))"
    using assms(4) by (auto simp: main_subsystems_def assms(2) bindR_Inr_iff f2)
  have s3: "fw_ready f3" "shaped f3" using driveInit_shaped(1,3)[OF s2(1) f3] s2(2) by simp_all
  show "fw_ready f'" using s3(1) by (simp add: f' Sonar_init_ready)
  show "uart_arrays f'" "system_params f' = system_params f1"
    using s3(2) Sonar_init_ready(2)[of f3] driveInit_params[OF f3] jointsInit_params[OF f2]
    by (simp_all add: f' Orazio_sonarInit_def shaped_def uart_arrays_def Sonar_init_params)
qed

lemma commInit_inv:
  assumes "fw_ready (fw s)" and "uart_arrays (fw s)" and "unat (sp_comm_speed (system_params (fw s))) \<in> {57600, 115200}"
    and "length (pending_packets s) = PENDING_PACKETS_MAX" and "length (tx_buffer (base_handler s)) = PACKET_SIZE_MAX"
  shows "\<exists>s'. Orazio_commInit s = Inr s' \<and> orazio_inv s' \<and> pending s' = []"
proof -
  obtain u f where uart: "UART_init (sp_comm_speed (system_params (fw s))) (fw s) = (u, f)" by (metis surj_pair)
  note r = UART_init_ready[OF uart assms(1,2)]
  let ?s1 = "s\<lparr>fw := f\<lparr>uart_ready := u, global_seq := 0\<rparr>\<rparr>"
  have fw: "fw_ready (fw ?s1)" "serial_ok (fw ?s1)" using r assms(3) by (auto simp: serial_ok_def)
  obtain h s2 where start: "DeferredPacketHandler_initialize (base_handler ?s1) ?s1 = (h, s2)" by (metis surj_pair)
  have "length (pending_packets ?s1) = 8" using assms(4) by simp
  from initialize_inv[OF this, of "base_handler ?s1"] have i2: "handler_inv h s2" "pending s2 = []" "\<forall>t < 20. \<not> installed s2 t"
    unfolding start prod.case by blast+
  have s2: "fw s2 = fw ?s1" "h = snd (PacketHandler_initialize (base_handler s))"
    using start by (auto simp: DeferredPacketHandler_initialize_def)
  let ?s2 = "s2\<lparr>base_handler := h\<rparr>"
  have "handler_inv (base_handler ?s2) ?s2" using i2(1) same_queue_inv(5)[of s2 ?s2 h] by simp
  moreover have "num_buffers_of ?s2 t = 0" if "t < 20" for t
    using i2(3) that by (simp add: installed_def num_buffers_of_def not_less)
  then have "within ?s2 []" by (simp add: within_def)
  moreover have "\<forall>u < 20. u \<notin> set [] \<longrightarrow> free_type ?s2 u"
    using i2(3) by (simp add: free_type_def installed_def s2(2) PacketHandler_initialize_def)
  ultimately obtain s' where s': "foldR install packet_table ?s2 = Inr s'" "handler_inv (base_handler s') s'" "fw s' = fw ?s2"
    "tx_ok (base_handler s') = tx_ok h" "pending s' = pending ?s2"
    using install_all[OF _ _ packet_table_fits, of ?s2] by auto
  have "orazio_inv s'" using s' fw s2 initialize_tx_ok[OF assms(5)] by (simp add: orazio_inv_def)
  moreover have "pending s' = []" using s'(5) i2(2) by (simp add: pending_def)
  moreover have "Orazio_commInit s = foldR install packet_table ?s2"
    using start by (simp add: Orazio_commInit_def uart Let_def Orazio_initializePackets_def)
  ultimately show ?thesis using s'(1) by simp
qed

lemma main_init_inv:
  assumes "reset_ok s" and "boot_params_ok s" and "main_init s = Inr s'"
  shows "orazio_inv s'" and "pending s' = []"
proof -
  let ?f = "main_devices (fw s)"
  have sh: "shaped ?f" using assms(1) main_devices_shape[of "fw s"] by (simp add: reset_ok_def shaped_def)
  obtain f1 where f1: "Orazio_paramInit ?f = Inr f1" "\<not> is_error (fst (Orazio_jointsInit f1))"
    "unat (sp_comm_speed (system_params f1)) \<in> {57600, 115200}"
    using assms(2) by (auto simp: boot_params_ok_def split: sum.splits)
  obtain f2 s2 g where f2: "main_subsystems ?f = Inr f2" and s2: "Orazio_commInit (s\<lparr>fw := f2\<rparr>) = Inr s2"
    and s': "s' = s2\<lparr>fw := g\<rparr>" "fw_ready g = fw_ready (main_timer (fw s2))"
      "serial_ok g = serial_ok (main_timer (fw s2))"
    using assms(3) by (auto simp: main_init_def Let_def bindR_Inr_iff commSendString_ready)
  note sub = main_subsystems_ready[OF sh f1(1,2) f2]
  have i2: "orazio_inv s2" "pending s2 = []"
    using commInit_inv[of "s\<lparr>fw := f2\<rparr>"] sub f1(3) assms(1) s2 by (auto simp: reset_ok_def)
  then have "fw_ready g" "serial_ok g"
    using s'(2,3) orazio_invD(3,4)[OF i2(1)] by (simp_all add: main_timer_ready)
  then show "orazio_inv s'" using orazio_invI[OF i2(1)] by (simp add: s'(1))
  show "pending s' = []" using i2(2) by (simp add: s'(1) pending_def)
qed

end
