(* ===== verification/Sample.thy ===== *)
theory Sample
  imports MainEquiv Boot
begin

text \<open>
  A concrete robot for the examples: a board whose registers are zero, the packets of the
  firmware as they are initialised, the controllers connected, and the communication started.
\<close>

definition sample_board :: board where
  "sample_board = \<lparr>io = (\<lambda>_. 0), io16 = (\<lambda>_. 0), irq_enabled = True, eeprom = (\<lambda>_. 0xFF), io_bit = (\<lambda>_. 7),
     setbaud = (\<lambda>_. (0, 0, False)),
     uart_0 = \<lparr>uart_tx_buffer = replicate UART_BUFFER_SIZE 0, uart_tx_start = 0, uart_tx_end = 0, uart_tx_size = 0,
       uart_rx_buffer = replicate UART_BUFFER_SIZE 0, uart_rx_start = 0, uart_rx_end = 0, uart_rx_size = 0, uart_num = 0\<rparr>,
     encoder_status = 0, encoder_current_value = [0, 0], encoder_sampled_value = [0, 0], timers = [zero_timer],
     counters = replicate 8 0, triggers = 0, echos = 0, conversion_overflow = (\<lambda>_. 0), sin_fn = (\<lambda>x. x), cos_fn = (\<lambda>x. x)\<rparr>"

definition sample_controllers :: "JointController list" where
  "sample_controllers = map (\<lambda>i. zero_controller\<lparr>ctl_params := Some i, ctl_status := Some i, ctl_control := Some i\<rparr>) [0, 1]"

definition sample_fw :: firmware where
  "sample_fw = (reset_state sample_board 0)\<lparr>joint_controllers := sample_controllers,
     drive_controller := zero_drive_controller\<lparr>dd_set := True, dd_status_left := Some 1, dd_status_right := Some 0,
       dd_control_left := Some 1, dd_control_right := Some 0\<rparr>\<rparr>"

definition sample_handler :: PacketHandler where
  "sample_handler = \<lparr>operations = [], rx_current_op = NULL, rx_current_packet = NULL, rx_checksum = 0, rx_buffer = NULL,
     rx_buffer_end = NULL, rx_bytes_to_read = 0, rxFn = rxAA, tx_buffer = replicate PACKET_SIZE_MAX 0,
     tx_start = 0, tx_end = 0, tx_size = 0, tx_checksum = 0\<rparr>"

definition no_operations :: PacketOperations where
  "no_operations = \<lparr>op_type = 0, op_size = 0, initialize_buffer_fn = Deferred_initializeBuffer, initialize_buffer_args = NULL,
     on_receive_fn = None, on_receive_args = NULL\<rparr>"

definition sample_reset :: "memory \<Rightarrow> orazio" where
  "sample_reset m = \<lparr>mem = m, ops_at = (\<lambda>_. no_operations), packet_infos = [],
     pending_packets = replicate PENDING_PACKETS_MAX NULL, pending_packets_size = 0,
     base_handler = sample_handler, fw = sample_fw\<rparr>"

text \<open>The robot after \<open>Orazio_commInit\<close>, on a given memory and on an empty one.\<close>

definition sample_on :: "memory \<Rightarrow> orazio" where
  "sample_on m = (case Orazio_commInit (sample_reset m) of Inr s \<Rightarrow> s | Inl _ \<Rightarrow> sample_reset m)"

definition sample :: orazio where
  "sample = sample_on (\<lambda>_. 0)"

lemmas sample_fields = sample_fw_def reset_state_def sample_board_def sample_controllers_def board.defs firmware.defs
  zero_controller_def zero_drive_controller_def

lemma sample_fw_ready: "fw_ready sample_fw" "uart_arrays sample_fw" "shaped sample_fw"
proof -
  have wf: "wf_fw sample_fw"
    by (simp add: wf_fw_def sample_fields init_joint_params_def init_joint_param_def init_joint_status_def init_joint_control_def
        init_bridges_def init_sonar_status_def init_sonar_params_def init_string_message_def wf_JointParamPacket_def wf_JointParams_def
        wf_SonarStatusPacket_def wf_SonarParamPacket_def wf_StringMessagePacket_def numeral_2_eq_2)
  have headers: "headers_ok sample_fw"
    by (simp add: headers_ok_def header_ok_def header_def sample_fields init_system_status_def init_joint_status_def
        init_drive_status_def init_sonar_status_def init_string_message_def init_response_def init_end_epoch_def)
  have "joints_ready sample_fw" "drive_ready sample_fw"
    by (simp_all add: joints_ready_iff drive_ready_def sample_fields Let_def)
  then show "fw_ready sample_fw" using wf headers by (simp add: fw_ready_def)
  show arrays: "uart_arrays sample_fw" by (simp add: uart_arrays_def sample_fields)
  show "shaped sample_fw" using wf headers arrays by (simp add: shaped_def fw_shape_def)
qed

lemma sample_on_boot:
  "Orazio_commInit (sample_reset m) = Inr (sample_on m)" "orazio_inv (sample_on m)" "pending (sample_on m) = []"
proof -
  have speed: "unat (sp_comm_speed (system_params (fw (sample_reset m)))) \<in> {57600, 115200}"
    by (simp add: sample_reset_def sample_fields init_system_params_def)
  have "\<exists>s'. Orazio_commInit (sample_reset m) = Inr s' \<and> orazio_inv s' \<and> pending s' = []"
    by (rule commInit_inv[OF _ _ speed]) (simp_all add: sample_reset_def sample_handler_def sample_fw_ready)
  then show "Orazio_commInit (sample_reset m) = Inr (sample_on m)" "orazio_inv (sample_on m)" "pending (sample_on m) = []"
    by (auto simp: sample_on_def)
qed

lemmas sample_boot = sample_on_boot[of "\<lambda>_. 0", folded sample_def]

text \<open>Starting the communication queues nothing and sets only the serial line and the sequence number.\<close>

lemma install_frame_sample:
  assumes "install e s = Inr s'"
  shows "tx_size (base_handler s') = tx_size (base_handler s)" and "fw s' = fw s" and "mem s' = mem s"
  using assms
  by (auto simp: install_def bindR_Inr_iff DeferredPacketHandler_installPacket_def PacketHandler_installPacket_def Let_def
      split: prod.splits if_splits)

lemma install_all_frame_sample:
  "foldR install es s = Inr s' \<Longrightarrow> tx_size (base_handler s') = tx_size (base_handler s) \<and> fw s' = fw s \<and> mem s' = mem s"
  by (induction es arbitrary: s) (auto simp: bindR_Inr_iff install_frame_sample)

lemma commInit_frame:
  assumes "Orazio_commInit s = Inr s'"
  shows "tx_size (base_handler s') = 0" and "mem s' = mem s"
    and "fw s' = (snd (UART_init (sp_comm_speed (system_params (fw s))) (fw s)))\<lparr>
      uart_ready := fst (UART_init (sp_comm_speed (system_params (fw s))) (fw s)), global_seq := 0\<rparr>"
  using assms
  by (auto simp: Orazio_commInit_def Let_def Orazio_initializePackets_def DeferredPacketHandler_initialize_def
      PacketHandler_initialize_def split: prod.splits dest!: install_all_frame_sample)

definition started_fw :: firmware where
  "started_fw = (snd (UART_init 115200 sample_fw))\<lparr>uart_ready := True, global_seq := 0\<rparr>"

lemma sample_on_fw:
  "tx_size (base_handler (sample_on m)) = 0" "fw (sample_on m) = started_fw" "mem (sample_on m) = m"
proof -
  have speed: "sp_comm_speed (system_params sample_fw) = 115200" "fw (sample_reset m) = sample_fw" "mem (sample_reset m) = m"
    by (simp_all add: sample_reset_def sample_fields init_system_params_def)
  obtain u f where uart: "UART_init 115200 sample_fw = (u, f)" by (metis surj_pair)
  have "u" using UART_init_ready(1)[OF uart sample_fw_ready(1,2)] by simp
  then show "tx_size (base_handler (sample_on m)) = 0" "fw (sample_on m) = started_fw" "mem (sample_on m) = m"
    using commInit_frame[OF sample_on_boot(1)] by (simp_all add: speed started_fw_def uart)
qed

lemmas sample_fw = sample_on_fw[of "\<lambda>_. 0", folded sample_def]

lemma started_fw_ready: "fw_ready started_fw"
  using sample_boot(2) by (simp add: orazio_inv_def sample_fw)

lemma started_fields:
  "system_params started_fw = init_system_params" "system_status started_fw = init_system_status"
  "drive_control started_fw = init_drive_control" "drive_params started_fw = init_drive_params"
  "joint_params started_fw = init_joint_params" "joint_status started_fw = init_joint_status"
  "joint_control started_fw = init_joint_control" "joint_controllers started_fw = sample_controllers"
  "drive_status started_fw = init_drive_status" "comm_handle started_fw = 0" "tick_counter started_fw = 0"
  "string_message started_fw = init_string_message" "uart_tx_items (uart_0 started_fw) = []"
  "uart_rx_size (uart_0 started_fw) = 0" "last_drive_control_seq started_fw = 0" "sonar_ready started_fw = 0" "eeprom started_fw = (\<lambda>_. 0xFF)"
  by (simp_all add: started_fw_def UART_init_def UART_reset_def setBaud57600_def setBaud115200_def setBaud_def Let_def
      sample_fields uart_tx_items_def ring_items_def set_reg_def or_reg_def sei_def cli_def clear_reg_def
      del: length_uart_items split: prod.splits)

end
