(* ===== verification/FirmwareProperties.thy ===== *)
theory FirmwareProperties
  imports Sample
begin

text \<open>
  What the main loop of the firmware and its subsystems guarantee: safety of the loop under any
  interleaving of interrupts, the end of every iteration, the timing of the
  communication cycles, a watchdog that never fires, and the joints.
\<close>

section \<open>The main loop\<close>

definition start :: machine where
  "start = \<lparr>at = AtTop, orz = sample, previous_rx_packets = 0\<rparr>"

lemma start_inv: "orazio_inv (orz start)" "at start = AtTop" "machine_inv start"
  by (simp_all add: start_def sample_boot machine_inv_def)

text \<open>
  C4. In every state the loop and the interrupts can reach, the invariant of the robot holds, every
  interrupt handler returns, and the only statement of the loop that can fault is the
  processing of received packets.
\<close>

theorem main_loop_safe:
  assumes "orazio_inv (orz m0)" and "steps m0 m"
  shows "orazio_inv (orz m) \<and> (\<forall>i. \<exists>f. irq_call i (fw (orz m)) = Inr f)
    \<and> (\<forall>e. main_step m = Inl e \<longrightarrow> at m = AtProcess)"
proof -
  have inv: "machine_inv m" using steps_inv[OF assms(2)] assms(1) by (simp add: machine_inv_def)
  then have "fw_ready (fw (orz m))" "serial_ok (fw (orz m))" by (simp_all add: machine_inv_def orazio_inv_def)
  then have "\<exists>f. irq_call i (fw (orz m)) = Inr f" for i using irq_ready by blast
  moreover have "at m = AtProcess" if "main_step m = Inl e" for e
    using main_step_total[OF inv] that by (cases "at m = AtProcess") auto
  ultimately show ?thesis using inv by (simp add: machine_inv_def)
qed

theorem main_loop_safe_witness:
  "\<exists>m. main_step start = Inr m \<and> orazio_inv (orz m) \<and> (\<forall>i. \<exists>f. irq_call i (fw (orz m)) = Inr f)"
proof -
  obtain m where m: "main_step start = Inr m" using main_step_total[OF start_inv(3)] by (auto simp: start_inv)
  then have "steps start m" by (intro steps_step[OF steps_refl] program)
  from main_loop_safe[OF start_inv(1) this] m show ?thesis by blast
qed

lemma fault_step: "run_steps n m = Inl e \<Longrightarrow> \<exists>k < n. \<exists>m1. run_steps k m = Inr m1 \<and> main_step m1 = Inl e"
proof (induction n arbitrary: m)
  case (Suc n)
  show ?case
  proof (cases "main_step m")
    case (Inl e')
    then show ?thesis using Suc.prems by (intro exI[of _ 0]) simp
  next
    case (Inr m')
    then obtain k m1 where "k < n" "run_steps k m' = Inr m1" "main_step m1 = Inl e" using Suc by fastforce
    then show ?thesis using Inr by (intro exI[of _ "Suc k"]) simp
  qed
qed simp

text \<open>
  C13. Every iteration ends: the loop comes back to its top with the state of the loop body and the
  invariant, or it stops at a packet whose handler faults.
\<close>

theorem iteration_ends:
  assumes "orazio_inv (orz m)" and "at m = AtTop"
  shows "(\<exists>n s'. main_iteration (orz m) = Inr s' \<and> orazio_inv s' \<and> run_steps n m = Inr (finish m s'))
    \<or> (\<exists>k m1 e. main_iteration (orz m) = Inl e \<and> run_steps k m = Inr m1 \<and> at m1 = AtProcess \<and> main_step m1 = Inl e)"
proof -
  obtain n where n: "run_steps n m = bindR (main_iteration (orz m)) (\<lambda>s. Inr (finish m s))"
    using leads_iteration[OF assms(2)] by (auto simp: leads_def)
  have inv: "machine_inv m" using assms(1) by (simp add: machine_inv_def)
  have keep: "machine_inv m1" if "run_steps k m = Inr m1" for k m1
    using steps_inv[OF run_steps_reach[OF that steps_refl] inv] .
  show ?thesis
  proof (cases "main_iteration (orz m)")
    case (Inr s')
    then have "run_steps n m = Inr (finish m s')" using n by simp
    moreover from keep[OF this] have "orazio_inv s'" by (simp add: machine_inv_def finish_def split: if_splits)
    ultimately show ?thesis using Inr by blast
  next
    case (Inl e)
    then obtain k m1 where k: "run_steps k m = Inr m1" "main_step m1 = Inl e" using fault_step n by fastforce
    then have "at m1 = AtProcess" using main_step_total[OF keep[OF k(1)]] by (cases "at m1 = AtProcess") auto
    then show ?thesis using k Inl by blast
  qed
qed

lemma sample_iteration: "main_iteration sample = Inr (idle_tick sample)"
  by (simp add: main_iteration_def Let_def sample_fw started_fields)

theorem iteration_ends_witness:
  "\<exists>n. run_steps n start = Inr (finish start (idle_tick sample))"
proof -
  have "orz start = sample" by (simp add: start_def)
  then show ?thesis using iteration_ends[OF start_inv(1,2)] by (auto simp: sample_iteration)
qed

section \<open>The timer\<close>

definition run_ticks :: "nat \<Rightarrow> 'a firmware_scheme \<Rightarrow> 'a firmware_scheme result" where
  "run_ticks n = foldR (\<lambda>i. onTimerTick) [0..<n]"

lemma run_ticks_0 [simp]: "run_ticks 0 f = Inr f"
  by (simp add: run_ticks_def)

lemma run_ticks_Suc: "run_ticks (Suc n) f = bindR (run_ticks n f) onTimerTick"
  by (simp add: run_ticks_def foldR_append foldR_single)

lemma tick_once:
  assumes "fw_ready f"
  shows "\<exists>f'. onTimerTick f = Inr f' \<and> fw_ready f' \<and> system_params f' = system_params f
    \<and> tick_counter f' = (if tick_counter f = 1 then ucast (sp_comm_cycles (system_params f)) else tick_counter f - 1)
    \<and> comm_handle f' = (if tick_counter f = 1 then 1 else comm_handle f)"
proof -
  obtain f' where f': "onTimerTick f = Inr f'" "fw_ready f'" using onTimerTick_ready[OF assms] by blast
  then obtain g where g: "Orazio_jointsHandle f = Inr g" by (auto simp: onTimerTick_def bindR_Inr_iff)
  note fr = jointsHandle_frame[OF g]
  have "tick_counter f - 1 = 0 \<longleftrightarrow> tick_counter f = 1" by simp
  then show ?thesis using f' fr by (auto simp: onTimerTick_def g Let_def)
qed

lemma ticks_before:
  assumes "fw_ready f" and "word_of_nat n = tick_counter f" and "0 < n" and "n \<le> 256" and "k < n"
  shows "\<exists>g. run_ticks k f = Inr g \<and> fw_ready g \<and> system_params g = system_params f \<and> comm_handle g = comm_handle f
    \<and> tick_counter g = word_of_nat (n - k)"
  using assms(5)
proof (induction k)
  case (Suc k)
  then obtain g where g: "run_ticks k f = Inr g" "fw_ready g" "system_params g = system_params f" "comm_handle g = comm_handle f"
    "tick_counter g = word_of_nat (n - k)" by auto
  define q where "q = n - k"
  have q: "2 \<le> q" "q \<le> 256" "n - Suc k = q - 1" using Suc.prems assms(4) by (auto simp: q_def)
  have "word_of_nat q \<noteq> (1 :: u8)"
  proof
    assume "word_of_nat q = (1 :: u8)"
    then have "q mod 256 = 1" using unat_of_nat[of q, where 'a = 8] by simp
    then show False using q by (cases "q = 256") auto
  qed
  moreover have "word_of_nat (n - Suc k) = (word_of_nat q - 1 :: u8)" unfolding q(3) using q(1) by (simp add: of_nat_diff)
  moreover have "tick_counter g = word_of_nat q" using g(5) by (simp add: q_def)
  ultimately show ?case using tick_once[OF g(2)] g by (auto simp: run_ticks_Suc)
qed (use assms in simp)

text \<open>
  C27. The timer starts a communication cycle after exactly as many ticks as the counter says (256
  when it is zero), not before, and reloads the counter with the low eight bits of \<open>comm_cycles\<close>.
\<close>

theorem timer_starts_cycle:
  assumes "fw_ready f" and "n = (if tick_counter f = 0 then 256 else unat (tick_counter f))"
  shows "(\<forall>k < n. \<exists>g. run_ticks k f = Inr g \<and> comm_handle g = comm_handle f)
    \<and> (\<exists>g. run_ticks n f = Inr g \<and> comm_handle g = 1 \<and> tick_counter g = ucast (sp_comm_cycles (system_params f)))"
proof -
  have n: "word_of_nat n = tick_counter f" "0 < n" "n \<le> 256"
    using assms(2) unat_gt_0[of "tick_counter f"] unsigned_less[where 'a = nat, of "tick_counter f"] by (auto simp: less_imp_le)
  note before = ticks_before[OF assms(1) n]
  obtain k where k: "n = Suc k" using n(2) by (cases n) auto
  obtain g where g: "run_ticks k f = Inr g" "fw_ready g" "system_params g = system_params f" "tick_counter g = 1"
    using before[of k] by (auto simp: k)
  have "\<exists>g. run_ticks n f = Inr g \<and> comm_handle g = 1 \<and> tick_counter g = ucast (sp_comm_cycles (system_params f))"
    using tick_once[OF g(2)] g by (auto simp: k run_ticks_Suc)
  then show ?thesis using before by blast
qed

theorem timer_starts_cycle_witness:
  "\<exists>g. run_ticks 256 started_fw = Inr g \<and> comm_handle g = 1 \<and> tick_counter g = 2"
  using timer_starts_cycle[OF started_fw_ready, of 256]
  by (simp add: started_fields init_system_params_def)

section \<open>The watchdog\<close>

lemma jointsDisable_effect:
  assumes "fw_ready f"
  shows "\<exists>f'. Orazio_jointsDisable f = Inr f' \<and> system_status f' = system_status f \<and> system_params f' = system_params f
    \<and> drive_status f' = drive_status f
    \<and> (\<forall>i < NUM_JOINTS. jc_mode (jct_control (joint_control f' ! i)) = JointDisabled \<and> ctl_output (joint_controllers f' ! i) = 0)"
proof -
  have c: "ctl_control (joint_controllers f ! 0) = Some 0" "ctl_control (joint_controllers f ! 1) = Some 1"
    and len: "length (joint_control f) = 2" "length (joint_controllers f) = 2"
    using assms by (simp_all add: ready_defs)
  have two: "(\<forall>i < 2. P i) \<longleftrightarrow> P 0 \<and> P 1" for P :: "nat \<Rightarrow> bool" by (auto simp: less_2_cases_iff)
  show ?thesis
    unfolding two using c len by (simp add: Orazio_jointsDisable_def joints_list joint_disable_one_def Let_def foldR_single)
qed

definition watchdog_rounds :: "nat \<Rightarrow> 'a firmware_scheme \<Rightarrow> 'a firmware_scheme result" where
  "watchdog_rounds n = foldR (\<lambda>i. Orazio_watchdogHandle) [0..<n]"

lemma watchdog_rounds_simps [simp]:
  "watchdog_rounds 0 f = Inr f" "watchdog_rounds (Suc n) f = bindR (watchdog_rounds n f) Orazio_watchdogHandle"
  by (simp_all add: watchdog_rounds_def foldR_append foldR_single)

lemma sint_small: "n < 32768 \<Longrightarrow> sint (word_of_nat n :: s16) = int n"
  using sint_of_int_s16[of "int n"] by simp

definition guarded_fw :: "u16 \<Rightarrow> firmware" where
  "guarded_fw w = started_fw\<lparr>system_params := init_system_params\<lparr>sp_watchdog_cycles := w\<rparr>\<rparr>"

lemma guarded_fw_ready: "fw_ready (guarded_fw w)"
  using started_fw_ready by (simp add: guarded_fw_def ready_defs)

text \<open>
  A watchdog of 32768 cycles or more is negative as soon as it is reset: it never counts down and
  never stops the robot.
\<close>

theorem watchdog_never_fires:
  assumes "32768 \<le> unat (sp_watchdog_cycles (system_params f))"
  shows "watchdog_rounds k (Orazio_watchdogReset f) = Inr (Orazio_watchdogReset f)"
proof -
  let ?w = "sp_watchdog_cycles (system_params f)"
  have "32768 \<le> uint ?w" using uint_unat_bounds(1)[OF assms] by simp
  then have n: "sint ?w < 0" using uint_lt2p[of ?w] by (simp add: sint_s16_split)
  then have "sp_watchdog_cycles (system_params f) \<noteq> 0" by auto
  then have "Orazio_watchdogHandle (Orazio_watchdogReset f) = Inr (Orazio_watchdogReset f)"
    using n by (auto simp: Orazio_watchdogHandle_def Orazio_watchdogReset_def Let_def)
  then show ?thesis by (induction k) simp_all
qed

theorem watchdog_never_fires_witness:
  "watchdog_rounds 100000 (Orazio_watchdogReset (guarded_fw 40000)) = Inr (Orazio_watchdogReset (guarded_fw 40000))"
  by (rule watchdog_never_fires) (simp add: guarded_fw_def)

section \<open>The joints\<close>

lemma joint_pid_step:
  assumes "fw_ready f" and "i < NUM_JOINTS" and "jc_mode (jct_control (joint_control f ! i)) = JointPID"
  shows "\<exists>st j st' j'. JointController_pid (jpp_param (joint_params f ! i)) (jc_speed (jct_control (joint_control f ! i))) (st, j) = (st', j')
    \<and> j = joint_controllers f ! i
    \<and> JointController_handle i n f = Inr (f\<lparr>joint_status := (joint_status f)[i := (joint_status f ! i)\<lparr>jst_info := st'\<rparr>],
      joint_controllers := (joint_controllers f)[i := j']\<rparr>)"
proof -
  let ?j = "joint_controllers f ! i"
  have ptrs: "ctl_params ?j = Some i" "ctl_status ?j = Some i" "ctl_control ?j = Some i"
    using assms(1,2) by (simp_all add: fw_ready_def joints_ready_def)
  define st where "st = JointController_sense (Encoder_getValue n f) (jct_control (joint_control f ! i)) (jst_info (joint_status f ! i)) ?j"
  obtain st' j' where pid: "JointController_pid (jpp_param (joint_params f ! i)) (jc_speed (jct_control (joint_control f ! i))) (st, ?j) = (st', j')"
    by (metis surj_pair)
  have "JointController_handle i n f = Inr (f\<lparr>joint_status := (joint_status f)[i := (joint_status f ! i)\<lparr>jst_info := st'\<rparr>],
      joint_controllers := (joint_controllers f)[i := j']\<rparr>)"
    using pid by (simp add: JointController_handle_def Let_def ptrs assms(3) st_def)
  then show ?thesis using pid by blast
qed

text \<open>
  C18. A step of the speed controller of a joint returns and respects the limits of its parameters:
  the output and the integral of the error are bounded, the error by the slope, the desired speed by
  the maximum speed, and an output other than zero is not inside of the dead band.
\<close>

theorem joint_controller_bounds:
  assumes "fw_ready f" and "i < NUM_JOINTS" and "jc_mode (jct_control (joint_control f ! i)) = JointPID"
    and "p = jpp_param (joint_params f ! i)"
    and "0 \<le> sint (jp_max_pwm p)" and "0 \<le> sint (jp_max_i p)" and "0 \<le> sint (jp_slope p)" and "0 \<le> sint (jp_max_speed p)"
  shows "\<exists>f'. JointController_handle i n f = Inr f'
    \<and> \<bar>sint (ctl_output (joint_controllers f' ! i))\<bar> \<le> sint (jp_max_pwm p)
    \<and> \<bar>sint (ctl_error_integral (joint_controllers f' ! i))\<bar> \<le> sint (jp_max_i p)
    \<and> \<bar>sint (ctl_error (joint_controllers f' ! i))\<bar> \<le> sint (jp_slope p)
    \<and> \<bar>sint (ji_desired_speed (jst_info (joint_status f' ! i)))\<bar> \<le> sint (jp_max_speed p)
    \<and> (ctl_output (joint_controllers f' ! i) = 0
       \<or> \<not> (sint (ctl_output (joint_controllers f' ! i)) < sint (jp_min_pwm p)
            \<and> sint (- jp_min_pwm p) < sint (ctl_output (joint_controllers f' ! i))))"
proof -
  have len: "i < length (joint_controllers f)" "i < length (joint_status f)" using assms(1,2) by (simp_all add: ready_defs)
  let ?g = "\<lambda>st' j'. f\<lparr>joint_status := (joint_status f)[i := (joint_status f ! i)\<lparr>jst_info := st'\<rparr>],
      joint_controllers := (joint_controllers f)[i := j']\<rparr>"
  obtain st j st' j' where pid: "JointController_pid p (jc_speed (jct_control (joint_control f ! i))) (st, j) = (st', j')"
    and handle: "JointController_handle i n f = Inr (?g st' j')"
    using joint_pid_step[OF assms(1-3), of n] assms(4) by force
  note r = JointController_pid_fields[OF pid]
  have "\<bar>sint (ctl_output j')\<bar> \<le> sint (jp_max_pwm p)"
    using r(7) clamp_bounds(1)[OF assms(5)] assms(5) by auto
  then show ?thesis
    using r len clamp_bounds(1) assms(5-8) handle by (intro exI[of _ "?g st' j'"]) auto
qed

definition moving_fw :: firmware where
  "moving_fw = started_fw\<lparr>joint_control := map (\<lambda>c. c\<lparr>jct_control := \<lparr>jc_speed = 500, jc_mode = JointPID\<rparr>\<rparr>) init_joint_control\<rparr>"

lemma moving_fw_ready: "fw_ready moving_fw"
  using started_fw_ready by (simp add: moving_fw_def ready_defs init_joint_control_def)

theorem joint_controller_bounds_witness:
  "\<exists>f'. JointController_handle 1 1 moving_fw = Inr f' \<and> \<bar>sint (ctl_output (joint_controllers f' ! 1))\<bar> \<le> 255"
proof -
  have p: "jpp_param (joint_params moving_fw ! 1) = jpp_param (init_joint_param 1 4 5)"
    by (simp add: moving_fw_def started_fields init_joint_params_def)
  have mode: "jc_mode (jct_control (joint_control moving_fw ! 1)) = JointPID"
    by (simp add: moving_fw_def init_joint_control_def)
  show ?thesis using joint_controller_bounds[OF moving_fw_ready _ mode p[symmetric]] by (auto simp: init_joint_param_def)
qed

end
