(* ===== verification/Watchdog.thy ===== *)
theory Watchdog
  imports FirmwareProperties
begin

text \<open>
  The watchdog in the running firmware: the loop of \<open>orazio.c\<close> with its interrupts while no byte arrives on the serial
  line. After \<open>watchdog_cycles\<close> communication cycles the drive is disabled and every joint stopped, and they stay so.
\<close>

section \<open>What the loop leaves alone\<close>

text \<open>The data of the watchdog and the drive that interrupts do not touch when no byte arrives.\<close>

definition drive_data :: "firmware \<Rightarrow> SystemParamPacket \<times> DifferentialDriveControlPacket \<times> u16 \<times> u8 \<times> s16 \<times> u16 \<times> JointControlPacket list \<times> u8" where
  "drive_data f = (system_params f, drive_control f, last_drive_control_seq f, ds_enabled (drive_status f),
     ss_watchdog_count (system_status f), ss_rx_packets (system_status f), joint_control f, uart_rx_size (uart_0 f))"

definition idle_data :: "orazio \<Rightarrow> orazio \<Rightarrow> bool" where
  "idle_data s s' \<longleftrightarrow> drive_data (fw s') = drive_data (fw s) \<and> joint_controllers (fw s') = joint_controllers (fw s) \<and> pending s' = pending s"

lemma idle_data_refl [simp]: "idle_data s s"
  by (simp add: idle_data_def)

lemma idle_data_trans: "idle_data a b \<Longrightarrow> idle_data b c \<Longrightarrow> idle_data a c"
  by (simp add: idle_data_def)

text \<open>Sending a packet of the firmware changes its sequence number and a counter only.\<close>

lemma stamp_zero: "stamp (ob, 0) f = obj_store ob (stamped (global_seq f) (obj_bytes ob f)) f"
  by (simp add: stamp_def)

lemma stamp_data:
  assumes "fw_ready f" and "(ob, off, n) \<in> set status_ptrs"
  shows "drive_data (stamp (ob, off) f) = drive_data f \<and> joint_controllers (stamp (ob, off) f) = joint_controllers f"
proof -
  have w: "wf_fw f" using fw_readyD(1)[OF assms(1)] .
  have j: "drive_data (stamp (OJointStatus, i * 16) f) = drive_data f \<and> joint_controllers (stamp (OJointStatus, i * 16) f) = joint_controllers f"
    if "i < 2" for i
    unfolding stamp_def fst_conv snd_conv stamp_joint_status[OF w that] by (simp add: drive_data_def)
  consider "ob = OJointStatus" "off = 0" | "ob = OJointStatus" "off = 16" | "ob = OSystemStatus" "off = 0" | "ob = ODriveStatus" "off = 0"
    | "ob = OSonarStatus" "off = 0" | "ob = OStringMessage" "off = 0" | "ob = OResponse" "off = 0" | "ob = OEndEpoch" "off = 0"
    using assms(2) by (auto simp: status_ptrs_def sizeof_JointStatusPacket_def)
  then show ?thesis
  proof cases
    case 1
    then show ?thesis using j[of 0] by simp
  next
    case 2
    then show ?thesis using j[of 1] by simp
  next
    case 3
    show ?thesis unfolding 3 stamp_zero stamp_system_status by (simp add: drive_data_def)
  next
    case 4
    show ?thesis unfolding 4 stamp_zero stamp_drive_status by (simp add: drive_data_def)
  next
    case 5
    show ?thesis unfolding 5 stamp_zero stamp_sonar_status[OF w] by (simp add: drive_data_def)
  next
    case 6
    show ?thesis unfolding 6 stamp_zero stamp_string_message[OF w] by (simp add: drive_data_def)
  next
    case 7
    show ?thesis unfolding 7 stamp_zero stamp_response by (simp add: drive_data_def)
  next
    case 8
    show ?thesis unfolding 8 stamp_zero stamp_end_epoch by (simp add: drive_data_def)
  qed
qed

lemma count_tx_data: "drive_data (count_tx st f) = drive_data f" "joint_controllers (count_tx st f) = joint_controllers f"
  by (simp_all add: drive_data_def count_tx_def)

lemma send_idle:
  assumes "orazio_inv s" and "(ob, off, n) \<in> set status_ptrs" and "send (ob, int off) s = Inr s'"
  shows "orazio_inv s'" and "idle_data s s'"
proof -
  obtain h st where "s' = s\<lparr>base_handler := h, fw := count_tx st (stamp (ob, off) (fw s))\<rparr>" "orazio_inv s'"
    using send_status[OF assms(1,2)] assms(3) by auto
  then show "orazio_inv s'" "idle_data s s'"
    using stamp_data[OF orazio_invD(3)[OF assms(1)] assms(2)] by (simp_all add: idle_data_def pending_def count_tx_data)
qed

lemma send_list_idle:
  "foldR send_ptr ps s = Inr s' \<Longrightarrow> orazio_inv s \<Longrightarrow> set ps \<subseteq> set status_ptrs \<Longrightarrow> orazio_inv s' \<and> idle_data s s'"
proof (induction ps arbitrary: s)
  case (Cons p ps)
  obtain ob off n where p: "p = (ob, off, n)" by (cases p)
  obtain s1 where s1: "send (ob, int off) s = Inr s1" "foldR send_ptr ps s1 = Inr s'"
    using Cons.prems(1) by (auto simp: bindR_Inr_iff send_ptr_def p)
  have "(ob, off, n) \<in> set status_ptrs" using Cons.prems(3) by (simp add: p)
  note i = send_idle[OF Cons.prems(2) this s1(1)]
  from Cons.IH[OF s1(2) i(1)] Cons.prems(3) i(2) show ?case by (auto intro: idle_data_trans)
qed simp

lemma send_periodic_idle:
  assumes "orazio_inv s" and "send_periodic s = Inr s'"
  shows "idle_data s s'"
proof -
  obtain s1 s2 where s1: "foldR send_ptr (status_list (fw s)) s = Inr s1" and s2: "send_message s1 = Inr s2"
    and s3: "send (OEndEpoch, 0) s2 = Inr s'"
    using assms(2) unfolding send_periodic_eq by (auto simp: bindR_Inr_iff)
  have i1: "orazio_inv s1" "idle_data s s1" using send_list_idle[OF s1 assms(1) status_list_ptrs] by simp_all
  have "(OStringMessage, 0, sizeof_StringMessagePacket) \<in> set status_ptrs" by (simp add: status_ptrs_def)
  note m = send_idle[OF i1(1) this]
  have i2: "idle_data s1 s2"
  proof (cases "send_message s1 = Inr s1")
    case True
    then show ?thesis using s2 by simp
  next
    case False
    then obtain t where t: "send (OStringMessage, 0) s1 = Inr t" "s2 = upd_fw (\<lambda>f. f\<lparr>string_message := (string_message f)\<lparr>
        sm_header := (sm_header (string_message f))\<lparr>h_seq := 0\<rparr>\<rparr>\<rparr>) t"
      using s2 by (auto simp: send_message_def Let_def bindR_Inr_iff split: if_splits)
    then show ?thesis using m(2)[of t] by (simp add: idle_data_def drive_data_def upd_fw_def pending_def)
  qed
  have o2: "orazio_inv s2" using send_message_inv[OF i1(1)] s2 by auto
  have "(OEndEpoch, 0, sizeof_PacketHeader) \<in> set status_ptrs" by (simp add: status_ptrs_def)
  from send_idle(2)[OF o2 this] s3 have "idle_data s2 s'" by simp
  then show ?thesis using i1(2) i2 by (blast intro: idle_data_trans)
qed

lemma flushOutput_body_idle:
  assumes "flushOutput_body s = Inr s'"
  shows "idle_data s s'"
proof -
  have "uart_rx_size (uart_tx_put c u) = uart_rx_size u" for c u by (simp add: uart_tx_put_def split: prod.splits)
  then show ?thesis
    using assms
    by (auto simp: flushOutput_body_def UART_putChar_def idle_data_def drive_data_def pending_def or_reg_def set_reg_def sei_def cli_def
        split: prod.splits if_splits)
qed

section \<open>What every step leaves alone\<close>

definition drive_core :: "firmware \<Rightarrow> u16 \<times> u16 \<times> u16 \<times> u8 \<times> s16 \<times> u16 \<times> u8" where
  "drive_core f = (sp_watchdog_cycles (system_params f), h_seq (dc_header (drive_control f)), last_drive_control_seq f,
     ds_enabled (drive_status f), ss_watchdog_count (system_status f), ss_rx_packets (system_status f), uart_rx_size (uart_0 f))"

text \<open>Every joint is disabled with no output.\<close>

definition joints_stopped :: "firmware \<Rightarrow> bool" where
  "joints_stopped f \<longleftrightarrow> (\<forall>i < NUM_JOINTS. jc_mode (jct_control (joint_control f ! i)) = JointDisabled
     \<and> ctl_output (joint_controllers f ! i) = 0)"

definition undisturbed :: "orazio \<Rightarrow> orazio \<Rightarrow> bool" where
  "undisturbed s s' \<longleftrightarrow> drive_core (fw s') = drive_core (fw s) \<and> pending s' = pending s
     \<and> (ds_enabled (drive_status (fw s)) = 0 \<and> joints_stopped (fw s) \<longrightarrow> joints_stopped (fw s'))"

lemma idle_undisturbed: "idle_data s s' \<Longrightarrow> undisturbed s s'"
  by (simp add: idle_data_def undisturbed_def drive_data_def drive_core_def joints_stopped_def)

lemma upd_fw_undisturbed:
  assumes "drive_core (g (fw s)) = drive_core (fw s)" and "joints_stopped (fw s) \<Longrightarrow> joints_stopped (g (fw s))"
  shows "undisturbed s (upd_fw g s)"
  using assms by (simp add: undisturbed_def upd_fw_def pending_def)

lemma run_fw_undisturbed:
  assumes "run_fw g s = Inr s'"
    and "\<And>f'. g (fw s) = Inr f' \<Longrightarrow> drive_core f' = drive_core (fw s) \<and> (ds_enabled (drive_status (fw s)) = 0 \<and> joints_stopped (fw s) \<longrightarrow> joints_stopped f')"
  shows "undisturbed s s'"
  using assms by (auto simp: undisturbed_def run_fw_def pending_def bindR_Inr_iff)

lemma driveUpdate_core:
  assumes "Orazio_driveUpdate f = Inr f'"
  shows "drive_core f' = drive_core f" and "joints_stopped f' = joints_stopped f"
proof -
  have odo: "ds_enabled st = ds_enabled (drive_status g)" if "drive_odometry l r g = (st, a, b)" for l r a b st and g :: firmware
    using that by (auto simp: drive_odometry_def Let_def split: if_splits prod.splits)
  obtain c st where "f' = f\<lparr>drive_controller := c, drive_status := st\<rparr>" "ds_enabled st = ds_enabled (drive_status f)"
    using assms
    by (fastforce simp: Orazio_driveUpdate_def DifferentialDriveController_update_def Let_def split: if_splits prod.splits dest: odo)
  then show "drive_core f' = drive_core f" "joints_stopped f' = joints_stopped f"
    by (simp_all add: drive_core_def joints_stopped_def)
qed

lemma driveControl_core:
  assumes "Orazio_driveControl f = Inr f'" and "last_drive_control_seq f = h_seq (dc_header (drive_control f))"
  shows "drive_core f' = drive_core f" and "ds_enabled (drive_status f) = 0 \<Longrightarrow> f' = f"
  using assms
  by (auto simp: Orazio_driveControl_def DifferentialDriveController_control_def Let_def drive_core_def
      set_joint_mode_def set_joint_speed_def split: if_splits option.splits)

lemma sonarHandle_core: "drive_core (Orazio_sonarHandle f) = drive_core f" "joints_stopped (Orazio_sonarHandle f) = joints_stopped f"
  by (simp_all add: Orazio_sonarHandle_def Sonar_pollPattern_def sei_def cli_def set_reg_def Let_def drive_core_def joints_stopped_def)

lemma process_undisturbed:
  assumes "orazio_inv s" and "pending s = []" and "process_packets s = Inr s'"
  shows "undisturbed s s'"
proof -
  have "s' = retire_all (cycle_start s)" using process_nothing[OF assms(1,2)] assms(3) by simp
  moreover have "pending s' = []" by (rule process_packets_inv(2)[OF assms(1,3)])
  ultimately show ?thesis
    using assms(2)
    by (simp add: undisturbed_def cycle_start_def retire_all_def upd_status_def upd_fw_def drive_core_def joints_stopped_def Let_def)
qed

section \<open>Interrupts\<close>

text \<open>A disabled joint stays without output, whatever the timer does.\<close>

lemma JointController_handle_core:
  assumes "JointController_handle k n f = Inr f'" and "fw_ready f" and "k < 2"
  shows "drive_core f' = drive_core f" and "joints_stopped f \<Longrightarrow> joints_stopped f'"
proof -
  have c: "ctl_status (joint_controllers f ! k) = Some k" "ctl_control (joint_controllers f ! k) = Some k"
    using assms(2,3) by (auto simp: fw_ready_def joints_ready_def)
  show "drive_core f' = drive_core f"
    using assms(1) by (auto simp: JointController_handle_def Let_def drive_core_def split: if_splits option.splits prod.splits)
  assume st: "joints_stopped f"
  then have "jc_mode (jct_control (joint_control f ! k)) = JointDisabled" using assms(3) by (simp add: joints_stopped_def)
  then have "\<exists>st. f' = f\<lparr>joint_status := (joint_status f)[k := st],
      joint_controllers := (joint_controllers f)[k := (joint_controllers f ! k)\<lparr>ctl_output := 0, ctl_error_integral := 0\<rparr>]\<rparr>"
    using assms(1) by (auto simp: JointController_handle_def Let_def c)
  then obtain st where "f' = f\<lparr>joint_status := (joint_status f)[k := st],
      joint_controllers := (joint_controllers f)[k := (joint_controllers f ! k)\<lparr>ctl_output := 0, ctl_error_integral := 0\<rparr>]\<rparr>" by blast
  then show "joints_stopped f'"
    using st by (cases "k < length (joint_controllers f)") (auto simp: joints_stopped_def nth_list_update list_update_beyond)
qed

lemma regs_only_core:
  assumes "regs_only f f'"
  shows "drive_core f' = drive_core f" and "joints_stopped f' = joints_stopped f"
proof -
  obtain a b where "f' = f\<lparr>io := a, io16 := b\<rparr>" using assms unfolding regs_only_def by blast
  then show "drive_core f' = drive_core f" "joints_stopped f' = joints_stopped f" by (simp_all add: drive_core_def joints_stopped_def)
qed

lemma tick_core:
  assumes "onTimerTick f = Inr f'" and "fw_ready f"
  shows "drive_core f' = drive_core f" and "joints_stopped f \<Longrightarrow> joints_stopped f'"
proof -
  obtain g where g: "Orazio_jointsHandle f = Inr g" using assms(1) by (auto simp: onTimerTick_def bindR_Inr_iff)
  then obtain f1 f2 where f: "JointController_handle 0 0 (Encoder_sample f) = Inr f1" "JointController_handle 1 1 f1 = Inr f2"
    "g = joint_apply 1 (joint_apply 0 f2)"
    by (auto simp: Orazio_jointsHandle_def joints_list bindR_Inr_iff)
  have r: "fw_ready (Encoder_sample f)" using assms(2) by simp
  have r1: "fw_ready f1" using JointController_handle_ready[OF r, of 0 0] f(1) by auto
  note 1 = JointController_handle_core[OF f(1) r] and 2 = JointController_handle_core[OF f(2) r1]
  note apply_one = regs_only_core[OF regs_only_setSpeed[of h "bridges h ! i" "ctl_output (joint_controllers h ! i)" for h i],
    folded joint_apply_def]
  have sample: "drive_core (Encoder_sample f) = drive_core f" "joints_stopped (Encoder_sample f) = joints_stopped f"
    by (simp_all add: Encoder_sample_def sei_def cli_def drive_core_def joints_stopped_def)
  have "drive_core g = drive_core f" "joints_stopped f \<Longrightarrow> joints_stopped g"
    using 1 2 sample unfolding f(3) apply_one by simp_all
  moreover have "drive_core f' = drive_core g \<and> joints_stopped f' = joints_stopped g"
    using assms(1) by (auto simp: onTimerTick_def g Let_def drive_core_def joints_stopped_def split: if_splits)
  ultimately show "drive_core f' = drive_core f" "joints_stopped f \<Longrightarrow> joints_stopped f'" by simp_all
qed

lemma irq_core:
  assumes "irq_call i f = Inr f'" and "fw_ready f" and "\<nexists>c. i = RxByte c"
  shows "drive_core f' = drive_core f" and "joints_stopped f \<Longrightarrow> joints_stopped f'"
proof -
  have "drive_core f' = drive_core f \<and> (joints_stopped f \<longrightarrow> joints_stopped f')"
  proof (cases i)
    case (RxByte c)
    then show ?thesis using assms(3) by simp
  next
    case TxEmpty
    then show ?thesis
      using assms(1)
      by (auto simp: irq_call_def USART0_UDRE_isr_def uart_tx_get_def clear_reg_def set_reg_def drive_core_def joints_stopped_def
          split: prod.splits if_splits)
  next
    case TimerMatch
    let ?f = "set_reg16 TCNT5 0 f"
    have "fw_ready ?f" using assms(2) by simp
    moreover have "drive_core ?f = drive_core f" "joints_stopped ?f = joints_stopped f"
      by (simp_all add: set_reg16_def drive_core_def joints_stopped_def)
    ultimately have "fw_ready ?f" "drive_core ?f = drive_core f" "joints_stopped ?f = joints_stopped f" .
    then show ?thesis
      using assms(1) tick_core[of ?f f']
      by (auto simp: TimerMatch irq_call_def TIMER5_COMPA_isr_def timer_call_def Let_def split: option.splits TimerFn.splits)
  next
    case (EncoderPins v)
    then show ?thesis
      using assms(1) by (auto simp: irq_call_def PCINT0_isr_def set_reg_def sei_def cli_def Let_def drive_core_def joints_stopped_def)
  next
    case (EchoPins v)
    then show ?thesis
      using assms(1) by (auto simp: irq_call_def PCINT2_isr_def set_reg_def sei_def cli_def Let_def drive_core_def joints_stopped_def)
  qed
  then show "drive_core f' = drive_core f" "joints_stopped f \<Longrightarrow> joints_stopped f'" by simp_all
qed

section \<open>One step of the loop\<close>

lemma step_undisturbed:
  assumes "machine_inv m" and "main_step m = Inr m'" and "pending (orz m) = []" and "rx_waiting (orz m) = 0"
    and "last_drive_control_seq (fw (orz m)) = h_seq (dc_header (drive_control (fw (orz m))))" and "at m \<noteq> AtWatchdog"
  shows "undisturbed (orz m) (orz m')" and "at m' \<noteq> AtEnd"
    and "previous_rx_packets m' = (if at m = AtTop \<and> at m' \<noteq> AtTop then rx_count (orz m) else previous_rx_packets m)"
proof -
  have inv: "orazio_inv (orz m)" using assms(1) by (simp add: machine_inv_def)
  have upd: "undisturbed s (idle_tick s)" "undisturbed s (end_iteration s)" "undisturbed s (upd_status (\<lambda>st. st\<lparr>ss_rx_buffer_size := a\<rparr>) s)"
    "undisturbed s (tx_status s)" for s a
    by (simp_all add: undisturbed_def idle_tick_def end_iteration_def tx_status_def upd_status_def upd_fw_def pending_def drive_core_def joints_stopped_def)
  have "undisturbed (orz m) (orz m') \<and> at m' \<noteq> AtEnd \<and> previous_rx_packets m' = (if at m = AtTop \<and> at m' \<noteq> AtTop then rx_count (orz m) else previous_rx_packets m)"
  proof (cases "at m")
    case AtTop
    then show ?thesis using assms(2) upd(1)[of "orz m"]
      by (auto simp: main_step_def goto_def Let_def rx_count_def idle_tick_def upd_status_def upd_fw_def split: if_splits)
  next
    case AtUpdate
    then obtain s' where "run_fw Orazio_driveUpdate (orz m) = Inr s'" "m' = goto AtControl m s'"
      using assms(2) by (auto simp: main_step_def bindR_Inr_iff)
    then show ?thesis using run_fw_undisturbed[of Orazio_driveUpdate "orz m" s'] driveUpdate_core by (auto simp: goto_def AtUpdate)
  next
    case AtControl
    then obtain s' where "run_fw Orazio_driveControl (orz m) = Inr s'" "m' = goto AtSonar m s'"
      using assms(2) by (auto simp: main_step_def bindR_Inr_iff)
    then show ?thesis
      using run_fw_undisturbed[of Orazio_driveControl "orz m" s'] driveControl_core[of "fw (orz m)"] assms(5) by (auto simp: goto_def AtControl)
  next
    case AtSonar
    then show ?thesis using assms(2) upd_fw_undisturbed[of Orazio_sonarHandle "orz m"] by (auto simp: main_step_def goto_def sonarHandle_core)
  next
    case AtInput
    then show ?thesis using assms(2) upd(3) by (auto simp: main_step_def goto_def Let_def split: if_splits)
  next
    case AtRx
    then show ?thesis using assms(2,4) by (auto simp: main_step_def goto_def undisturbed_def)
  next
    case AtProcess
    then obtain s' where "process_packets (orz m) = Inr s'" "m' = goto AtSend m s'" using assms(2) by (auto simp: main_step_def bindR_Inr_iff)
    then show ?thesis using process_undisturbed[OF inv assms(3)] by (simp add: goto_def AtProcess)
  next
    case AtSend
    then obtain s' where "send_periodic (orz m) = Inr s'" "m' = goto AtTx m s'"
      using assms(2) by (auto simp: main_step_def bindR_Inr_iff split: if_splits)
    then show ?thesis using idle_undisturbed[OF send_periodic_idle[OF inv]] by (simp add: goto_def AtSend)
  next
    case AtTx
    consider "m' = goto AtWatchdog m (tx_status (orz m))" | s' where "flushOutput_body (orz m) = Inr s'" "m' = goto AtTx m s'"
      using assms(2) by (auto simp: main_step_def AtTx Let_def bindR_Inr_iff split: if_splits)
    then show ?thesis
    proof cases
      case 1
      then show ?thesis using upd(4) by (simp add: goto_def AtTx)
    next
      case 2
      then show ?thesis using idle_undisturbed[OF flushOutput_body_idle[OF 2(1)]] by (simp add: goto_def AtTx)
    qed
  next
    case AtWatchdog
    then show ?thesis using assms(6) by simp
  next
    case AtEnd
    then show ?thesis using assms(2) upd(2)[of "orz m"] by (auto simp: main_step_def goto_def)
  qed
  then show "undisturbed (orz m) (orz m')" and "at m' \<noteq> AtEnd"
    and "previous_rx_packets m' = (if at m = AtTop \<and> at m' \<noteq> AtTop then rx_count (orz m) else previous_rx_packets m)" by simp_all
qed

section \<open>The count\<close>

lemma jointsDisable_core:
  assumes "fw_ready f" and "Orazio_jointsDisable f = Inr f'"
  shows "drive_core f' = drive_core f" and "joints_stopped f'"
proof -
  show "joints_stopped f'" using jointsDisable_effect[OF assms(1)] assms(2) by (auto simp: joints_stopped_def)
  show "drive_core f' = drive_core f"
    using assms(2)
    by (auto simp: Orazio_jointsDisable_def joints_list joint_disable_one_def Let_def drive_core_def bindR_Inr_iff split: option.splits)
qed

text \<open>After \<open>j\<close> calls without feeding: the count, the drive and the joints of an \<open>n\<close> cycle watchdog.\<close>

definition watched :: "nat \<Rightarrow> nat \<Rightarrow> u8 \<Rightarrow> firmware \<Rightarrow> bool" where
  "watched n j e f \<longleftrightarrow> sp_watchdog_cycles (system_params f) = word_of_nat n
     \<and> last_drive_control_seq f = h_seq (dc_header (drive_control f)) \<and> uart_rx_size (uart_0 f) = 0
     \<and> ss_watchdog_count (system_status f) = word_of_nat (n - j)
     \<and> ds_enabled (drive_status f) = (if j < n then e else 0) \<and> (n \<le> j \<longrightarrow> joints_stopped f)"

lemma watched_undisturbed:
  assumes "watched n j e (fw s)" and "undisturbed s s'"
  shows "watched n j e (fw s')"
  using assms by (auto simp: watched_def undisturbed_def drive_core_def)

lemma watched_handle:
  assumes "fw_ready f" and "watched n j e f" and "0 < n" and "n < 32768" and "Orazio_watchdogHandle f = Inr f'"
  shows "watched n (Suc j) e f'" and "ss_rx_packets (system_status f') = ss_rx_packets (system_status f)"
proof -
  have nz: "sp_watchdog_cycles (system_params f) \<noteq> 0"
    using sint_small[of n] assms(2-4) by (auto simp: watched_def)
  define g where "g = f\<lparr>system_status := (system_status f)\<lparr>ss_watchdog_count := word_of_nat (n - Suc j)\<rparr>\<rparr>"
  have c: "ss_watchdog_count (system_status f) = word_of_nat (n - j)" using assms(2) by (simp add: watched_def)
  have s: "sint (ss_watchdog_count (system_status f)) = int (n - j)" unfolding c using sint_small assms(4) by simp
  have step: "(if 0 < sint (ss_watchdog_count (system_status f))
      then f\<lparr>system_status := (system_status f)\<lparr>ss_watchdog_count := ss_watchdog_count (system_status f) - 1\<rparr>\<rparr> else f) = g"
  proof (cases "j < n")
    case True
    then have "(word_of_nat (n - j) :: s16) - 1 = word_of_nat (n - Suc j)" by (simp add: of_nat_diff)
    then show ?thesis using True unfolding s by (simp add: g_def c)
  next
    case False
    then have "n - j = 0" "n - Suc j = 0" by auto
    then show ?thesis unfolding s using c by (simp add: g_def)
  qed
  have zero: "ss_watchdog_count (system_status g) = 0 \<longleftrightarrow> n \<le> Suc j"
    using sint_small[of "n - Suc j"] assms(4) by (auto simp: g_def)
  have f': "(if ss_watchdog_count (system_status g) = 0 then Orazio_jointsDisable (g\<lparr>drive_status := (drive_status g)\<lparr>ds_enabled := 0\<rparr>\<rparr>)
      else Inr g) = Inr f'"
    using assms(5) nz step by (simp add: Orazio_watchdogHandle_def Let_def)
  have keep: "watched n (Suc j) e f' \<and> ss_rx_packets (system_status f') = ss_rx_packets (system_status f)"
  proof (cases "n \<le> Suc j")
    case True
    let ?h = "g\<lparr>drive_status := (drive_status g)\<lparr>ds_enabled := 0\<rparr>\<rparr>"
    have "fw_ready ?h" using assms(1) by (simp add: g_def)
    moreover have "Orazio_jointsDisable ?h = Inr f'" using f' zero True by simp
    ultimately have "drive_core f' = drive_core ?h" "joints_stopped f'" using jointsDisable_core by blast+
    then show ?thesis using assms(2) True by (simp add: watched_def drive_core_def g_def)
  next
    case False
    then have "f' = g" using f' zero by simp
    then show ?thesis using assms(2) False by (simp add: watched_def g_def)
  qed
  then show "watched n (Suc j) e f'" "ss_rx_packets (system_status f') = ss_rx_packets (system_status f)" by simp_all
qed

section \<open>The silent line\<close>

text \<open>
  Runs of the loop and the interrupts while no byte arrives, with the number of communication cycles they complete.
\<close>

inductive silent :: "machine \<Rightarrow> nat \<Rightarrow> machine \<Rightarrow> bool" where
  silent_start: "silent m0 0 m0"
| silent_loop: "silent m0 k m \<Longrightarrow> main_step m = Inr m' \<Longrightarrow> silent m0 (if at m = AtEnd then Suc k else k) m'"
| silent_irq: "silent m0 k m \<Longrightarrow> irq_armed i (fw (orz m)) \<Longrightarrow> \<nexists>c. i = RxByte c \<Longrightarrow> irq_call i (fw (orz m)) = Inr f \<Longrightarrow>
    silent m0 k (m\<lparr>orz := (orz m)\<lparr>fw := f\<rparr>\<rparr>)"

text \<open>The cycles whose watchdog statement is done.\<close>

definition watchdog_calls :: "nat \<Rightarrow> machine \<Rightarrow> nat" where
  "watchdog_calls k m = (if at m = AtEnd then Suc k else k)"

lemma silent_watched:
  assumes "silent m0 k m" and "machine_inv m0" and "at m0 = AtTop" and "pending (orz m0) = []" and "0 < n" and "n < 32768"
    and "watched n 0 e (fw (orz m0))"
  shows "machine_inv m \<and> pending (orz m) = [] \<and> watched n (watchdog_calls k m) e (fw (orz m))
    \<and> (at m \<notin> {AtTop, AtEnd} \<longrightarrow> previous_rx_packets m = rx_count (orz m))"
  using assms
proof (induction rule: silent.induct)
  case (silent_start m0)
  then show ?case by (simp add: watchdog_calls_def)
next
  case (silent_loop m0 k m m')
  note IH = silent_loop.IH[OF silent_loop.prems]
  have inv: "machine_inv m'" using main_step_inv[OF _ silent_loop.hyps(2)] IH by blast
  show ?case
  proof (cases "at m = AtWatchdog")
    case True
    then obtain f where f: "Orazio_watchdogHandle (fw (orz m)) = Inr f" "m' = goto AtEnd m ((orz m)\<lparr>fw := f\<rparr>)"
      using silent_loop.hyps(2) IH by (auto simp: main_step_def watchdog_feed_def run_fw_def Let_def bindR_Inr_iff)
    have "fw_ready (fw (orz m))" using IH orazio_invD(3) by (simp add: machine_inv_def)
    moreover have "watched n k e (fw (orz m))" using IH True by (simp add: watchdog_calls_def)
    ultimately have "watched n (Suc k) e f" using watched_handle(1)[OF _ _ silent_loop.prems(4,5) f(1)] by blast
    then show ?thesis using IH inv True by (simp add: f(2) goto_def watchdog_calls_def pending_def)
  next
    case False
    have w: "watched n (watchdog_calls k m) e (fw (orz m))" and p: "pending (orz m) = []" using IH by simp_all
    then have "rx_waiting (orz m) = 0" "last_drive_control_seq (fw (orz m)) = h_seq (dc_header (drive_control (fw (orz m))))"
      by (simp_all add: watched_def rx_waiting_def)
    note st = step_undisturbed[OF _ silent_loop.hyps(2) p this False]
    have u: "undisturbed (orz m) (orz m')" and e: "at m' \<noteq> AtEnd" using st IH by blast+
    have "pending (orz m') = []" "rx_count (orz m') = rx_count (orz m)"
      using u p by (simp_all add: undisturbed_def drive_core_def rx_count_def)
    moreover have "watchdog_calls (if at m = AtEnd then Suc k else k) m' = watchdog_calls k m"
      using e by (simp add: watchdog_calls_def)
    moreover have "at m = AtEnd \<Longrightarrow> at m' = AtTop" using silent_loop.hyps(2) by (auto simp: main_step_def)
    ultimately show ?thesis using inv watched_undisturbed[OF w u] st(3) IH by auto
  qed
next
  case (silent_irq m0 k m i f)
  note IH = silent_irq.IH[OF silent_irq.prems]
  have o: "orazio_inv (orz m)" using IH by (simp add: machine_inv_def)
  have step: "step m (m\<lparr>orz := (orz m)\<lparr>fw := f\<rparr>\<rparr>)" using silent_irq.hyps(2,4) by (rule step.interrupt)
  have "machine_inv (m\<lparr>orz := (orz m)\<lparr>fw := f\<rparr>\<rparr>)" using step_inv[OF step] IH by blast
  moreover have core: "drive_core f = drive_core (fw (orz m))" "joints_stopped (fw (orz m)) \<Longrightarrow> joints_stopped f"
    using irq_core[OF silent_irq.hyps(4) orazio_invD(3)[OF o] silent_irq.hyps(3)] by blast+
  moreover from core have "undisturbed (orz m) ((orz m)\<lparr>fw := f\<rparr>)" by (simp add: undisturbed_def pending_def)
  ultimately show ?case
    using IH watched_undisturbed[of n _ e "orz m" "(orz m)\<lparr>fw := f\<rparr>"]
    by (auto simp: watchdog_calls_def pending_def rx_count_def drive_core_def)
qed

text \<open>Without interrupts a run from inside of a cycle to the top of the loop completes the cycle.\<close>

lemma run_silent:
  "run_steps j m = Inr m' \<Longrightarrow> silent m0 k m \<Longrightarrow> \<exists>k' \<ge> k. silent m0 k' m' \<and> (at m \<noteq> AtTop \<and> at m' = AtTop \<longrightarrow> k < k')"
proof (induction j arbitrary: m k)
  case (Suc j)
  then obtain m1 where m1: "main_step m = Inr m1" "run_steps j m1 = Inr m'" by (auto simp: bindR_Inr_iff)
  have top: "at m1 = AtTop \<Longrightarrow> at m = AtTop \<or> at m = AtEnd"
    using m1(1) by (cases "at m") (auto simp: main_step_def Let_def goto_def bindR_Inr_iff split: if_splits)
  let ?k = "if at m = AtEnd then Suc k else k"
  have s1: "silent m0 ?k m1" using Suc.prems(2) m1(1) by (rule silent_loop)
  then obtain k' where "?k \<le> k'" "silent m0 k' m'" "at m1 \<noteq> AtTop \<and> at m' = AtTop \<longrightarrow> ?k < k'" using Suc.IH[OF m1(2) s1] by blast
  then show ?case using top by (intro exI[of _ k']) (auto split: if_splits)
qed auto

text \<open>
  C17. From the top of the loop, with no received byte or packet waiting and no new drive command, and while no byte arrives:
  the loop never stops, whatever the other interrupts do. A watchdog of \<open>n\<close> cycles (1 to
  32767) that was just fed counts every communication cycle down and leaves the drive alone until the \<open>n\<close>th; in the
  \<open>n\<close>th it disables the drive and every joint, with no output, and from then on they stay so.
\<close>

theorem silent_robot_stops:
  assumes "orazio_inv (orz m)" and "at m = AtTop" and "pending (orz m) = []" and "rx_waiting (orz m) = 0"
    and "last_drive_control_seq (fw (orz m)) = h_seq (dc_header (drive_control (fw (orz m))))"
    and "sp_watchdog_cycles (system_params (fw (orz m))) = word_of_nat n" and "0 < n" and "n < 32768"
    and "ss_watchdog_count (system_status (fw (orz m))) = word_of_nat n"
    and "silent m k m'"
  shows "(\<exists>m''. main_step m' = Inr m'')
    \<and> (watchdog_calls k m' < n \<longrightarrow> ss_watchdog_count (system_status (fw (orz m'))) = word_of_nat (n - watchdog_calls k m')
         \<and> ds_enabled (drive_status (fw (orz m'))) = ds_enabled (drive_status (fw (orz m))))
    \<and> (n \<le> watchdog_calls k m' \<longrightarrow> ds_enabled (drive_status (fw (orz m'))) = 0
         \<and> (\<forall>i < NUM_JOINTS. jc_mode (jct_control (joint_control (fw (orz m')) ! i)) = JointDisabled
              \<and> ctl_output (joint_controllers (fw (orz m')) ! i) = 0))"
proof -
  have "uart_rx_size (uart_0 (fw (orz m))) = 0" using assms(4) by (simp add: rx_waiting_def unat_eq_0)
  then have "watched n 0 (ds_enabled (drive_status (fw (orz m)))) (fw (orz m))" using assms(5-9) by (simp add: watched_def)
  moreover have "machine_inv m" using assms(1) by (simp add: machine_inv_def)
  ultimately have w: "machine_inv m'" "pending (orz m') = []"
    "watched n (watchdog_calls k m') (ds_enabled (drive_status (fw (orz m)))) (fw (orz m'))"
    using silent_watched[OF assms(10) _ assms(2,3,7,8)] by blast+
  have "\<exists>m''. main_step m' = Inr m''"
  proof (cases "at m' = AtProcess")
    case True
    then show ?thesis using process_nothing[of "orz m'"] w(1,2) by (simp add: main_step_def machine_inv_def)
  next
    case False
    then show ?thesis using main_step_total[OF w(1)] by blast
  qed
  then show ?thesis using w(3) by (simp add: watched_def joints_stopped_def)
qed

text \<open>A robot that is moving, with a watchdog of one cycle, at the start of a cycle.\<close>

definition watched_robot :: machine where
  "watched_robot = start\<lparr>orz := sample\<lparr>fw := (guarded_fw 1)\<lparr>comm_handle := 1,
     system_status := init_system_status\<lparr>ss_watchdog_count := 1\<rparr>, drive_status := init_drive_status\<lparr>ds_enabled := 1\<rparr>,
     last_drive_control_seq := h_seq (dc_header init_drive_control)\<rparr>\<rparr>\<rparr>"

lemma watched_robot_ok: "orazio_inv (orz watched_robot)" "at watched_robot = AtTop"
proof -
  have "serial_ok (guarded_fw 1)" using orazio_invD(4)[OF start_inv(1)] by (simp add: start_def sample_fw guarded_fw_def)
  then show "orazio_inv (orz watched_robot)" "at watched_robot = AtTop"
    using orazio_invI[OF start_inv(1)] guarded_fw_ready[of 1]
    by (simp_all add: watched_robot_def start_def ready_defs guarded_fw_def started_fields serial_ok_def)
qed

theorem silent_robot_stops_witness:
  "ds_enabled (drive_status (fw (orz watched_robot))) = 1
    \<and> (\<exists>k m'. silent watched_robot k m' \<and> 0 < k \<and> ds_enabled (drive_status (fw (orz m'))) = 0)"
proof -
  have q: "pending (orz watched_robot) = []" "rx_waiting (orz watched_robot) = 0"
    using sample_boot(3) uart_items_Nil(2)[of "uart_0 started_fw"]
    by (simp_all add: watched_robot_def start_def pending_def rx_waiting_def guarded_fw_def started_fields)
  have d: "last_drive_control_seq (fw (orz watched_robot)) = h_seq (dc_header (drive_control (fw (orz watched_robot))))"
    "sp_watchdog_cycles (system_params (fw (orz watched_robot))) = word_of_nat 1" "ss_watchdog_count (system_status (fw (orz watched_robot))) = word_of_nat 1"
    by (simp_all add: watched_robot_def start_def guarded_fw_def started_fields)
  note stops = silent_robot_stops[OF watched_robot_ok q d(1,2) _ _ d(3)]
  have handle: "comm_handle (fw (orz watched_robot)) = 1" by (simp add: watched_robot_def)
  obtain m1 where m1: "main_step watched_robot = Inr m1" "at m1 \<noteq> AtTop"
    using handle by (simp add: main_step_def watched_robot_ok(2) Let_def idle_tick_def upd_status_def upd_fw_def goto_def)
  have s1: "silent watched_robot 0 m1" using silent_loop[OF silent_start m1(1)] watched_robot_ok(2) by simp
  have ok: "machine_inv watched_robot" using watched_robot_ok(1) by (simp add: machine_inv_def)
  obtain n s' where n: "main_iteration (orz watched_robot) = Inr s'" "run_steps n watched_robot = Inr (finish watched_robot s')"
  proof -
    have "\<exists>m2. main_step m' = Inr m2" if "run_steps j watched_robot = Inr m'" for j m'
      using run_silent[OF that silent_start] stops by auto
    then show ?thesis using that fault_step leads_iteration[OF watched_robot_ok(2)] unfolding leads_def
      by (cases "main_iteration (orz watched_robot)") fastforce+
  qed
  have "comm_handle (fw (orz (finish watched_robot s'))) = 0"
    using n(1) handle
    by (auto simp: main_iteration_def Let_def bindR_Inr_iff finish_def end_iteration_def idle_tick_def upd_status_def upd_fw_def split: if_splits)
  then have "finish watched_robot s' \<noteq> watched_robot" using handle by auto
  then obtain j where "run_steps j m1 = Inr (finish watched_robot s')" using n(2) m1(1) by (cases n) auto
  then obtain k where k: "silent watched_robot k (finish watched_robot s')" "0 < k"
    using run_silent[OF _ s1] m1(2) by (fastforce simp: finish_def goto_def)
  then have "1 \<le> watchdog_calls k (finish watched_robot s')" by (simp add: watchdog_calls_def)
  then have "ds_enabled (drive_status (fw (orz (finish watched_robot s')))) = 0" using stops[OF _ _ k(1)] by simp
  then show ?thesis using k by (auto simp: watched_robot_def)
qed

end
