(* ===== verification/CommProperties.thy ===== *)
theory CommProperties
  imports FirmwareProperties
begin

text \<open>
  What a communication cycle sends, how the received packets act on the robot, and the
  parameters in the EEPROM.
\<close>

section \<open>A cycle without input\<close>

text \<open>The firmware state whose packets the cycle sends.\<close>

definition cycle_fw :: "orazio \<Rightarrow> firmware" where
  "cycle_fw s = fw (cycle_start (upd_status (\<lambda>st. st\<lparr>ss_rx_buffer_size := 0\<rparr>) s))"

lemma flushInput_nothing:
  assumes "orazio_inv s" and "rx_waiting s = 0"
  shows "Orazio_flushInputBuffers s = Inr (upd_status (\<lambda>st. st\<lparr>ss_rx_buffer_size := 0\<rparr>) s)"
proof -
  have "uart_ready (fw s)" using assms(1) by (simp add: orazio_inv_def serial_ok_def)
  then show ?thesis
    using assms(2) flushInput_loop.simps[of "upd_status (\<lambda>st. st\<lparr>ss_rx_buffer_size := 0\<rparr>) s"]
    by (simp add: Orazio_flushInputBuffers_def rx_waiting_def upd_status_def upd_fw_def)
qed

lemma send_message_uart: "send_message s = Inr s' \<Longrightarrow> uart_0 (fw s') = uart_0 (fw s)"
  using send_keeps(1)[of OStringMessage 0 s]
  by (auto simp: send_message_def Let_def bindR_Inr_iff same_config_def input_obj_def upd_fw_def split: if_splits)

lemma send_periodic_uart:
  assumes "send_periodic s = Inr s'"
  shows "uart_0 (fw s') = uart_0 (fw s)"
proof -
  obtain s1 s2 where s1: "foldR send_ptr (status_list (fw s)) s = Inr s1" and s2: "send_message s1 = Inr s2"
    and s3: "send (OEndEpoch, 0) s2 = Inr s'"
    using assms unfolding send_periodic_eq by (auto simp: bindR_Inr_iff)
  have "same_config s s1" by (rule send_ptrs_keep(1)[OF s1]) (use status_list_inputs(2) in blast)
  moreover have "same_config s2 s'" by (rule send_keeps(1)[OF s3]) (simp add: input_obj_def)
  ultimately show ?thesis using send_message_uart[OF s2] by (simp add: same_config_def)
qed

lemma epoch_size: "out_size (epoch_list f) \<le> 229"
proof -
  have masked: "out_size (masked fl f ps) \<le> out_size ps" for fl ps by (simp add: masked_def out_size_def)
  have app: "out_size (ps @ qs) = out_size ps + out_size qs" for ps qs by (simp add: out_size_def)
  show ?thesis
    unfolding epoch_list_def status_list_def app
    using masked[of PSystemStatusFlag "[(OSystemStatus, 0, sizeof_SystemStatusPacket)]"]
      masked[of PJointStatusFlag "[(OJointStatus, 0, sizeof_JointStatusPacket), (OJointStatus, sizeof_JointStatusPacket, sizeof_JointStatusPacket)]"]
      masked[of PDriveStatusFlag "[(ODriveStatus, 0, sizeof_DifferentialDriveStatusPacket)]"]
      masked[of PSonarStatusFlag "[(OSonarStatus, 0, sizeof_SonarStatusPacket)]"]
    by (auto simp: out_size_def sizeof_SystemStatusPacket_def sizeof_JointStatusPacket_def sizeof_DifferentialDriveStatusPacket_def
        sizeof_SonarStatusPacket_def sizeof_StringMessagePacket_def sizeof_PacketHeader_def)
qed

lemma idle_cycle:
  assumes inv: "orazio_inv s" and quiet: "pending s = []" "rx_waiting s = 0"
    and tx: "tx_size (base_handler s) = 0" "uart_tx_items (uart_0 (fw s)) = []"
  shows "\<exists>s'. Orazio_commHandle s = Inr s' \<and> orazio_inv s' \<and> tx_items (base_handler s') = []
    \<and> uart_tx_items (uart_0 (fw s')) = concat (map (out_frame (cycle_fw s)) (epoch_list (cycle_fw s)))"
proof -
  let ?s1 = "upd_status (\<lambda>st. st\<lparr>ss_rx_buffer_size := 0\<rparr>) s"
  let ?s2 = "retire_all (cycle_start ?s1)"
  have i1: "orazio_inv ?s1" by (rule upd_status_inv[OF inv]) simp
  have p1: "pending ?s1 = []" using quiet(1) by (simp add: pending_def upd_status_def upd_fw_def)
  have proc: "process_packets ?s1 = Inr ?s2" by (rule process_nothing[OF i1 p1])
  have i2: "orazio_inv ?s2" by (rule process_packets_inv(1)[OF i1 proc])
  have fw2: "fw ?s2 = cycle_fw s" "base_handler ?s2 = base_handler s" "uart_0 (fw ?s2) = uart_0 (fw s)"
    by (simp_all add: cycle_fw_def retire_all_def cycle_start_def upd_status_def upd_fw_def Let_def)
  have items: "tx_items (base_handler ?s2) = []" using fw2(2) tx(1) by (simp add: tx_items_def ring_items_def)
  have "length (tx_items (base_handler ?s2)) + out_size (epoch_list (fw ?s2)) \<le> 254"
    unfolding items using epoch_size[of "fw ?s2"] by simp
  from send_periodic_out[OF i2 this] obtain s3 where s3: "send_periodic ?s2 = Inr s3" "orazio_inv s3"
    "tx_items (base_handler s3) = concat (map (out_frame (cycle_fw s)) (epoch_list (cycle_fw s)))"
    unfolding items fw2(1) by auto
  have ptrs: "p \<in> set status_ptrs" if "p \<in> set (epoch_list (cycle_fw s))" for p
    using that status_list_ptrs by (auto simp: epoch_list_def status_ptrs_def split: if_splits)
  have ready: "fw_ready (cycle_fw s)" using i2 fw2(1) by (simp add: orazio_inv_def)
  have "length (out_frame (cycle_fw s) p) = (case p of (ob, off, n) \<Rightarrow> n + 3)" if "p \<in> set (epoch_list (cycle_fw s))" for p
    using length_out_frame[OF ready] ptrs[OF that] by (cases p) auto
  then have "length (concat (map (out_frame (cycle_fw s)) (epoch_list (cycle_fw s)))) = out_size (epoch_list (cycle_fw s))"
    by (simp add: out_size_def length_concat o_def cong: map_cong)
  then have "length (tx_items (base_handler s3)) \<le> 255" using s3(3) epoch_size[of "cycle_fw s"] by simp
  moreover have "uart_tx_items (uart_0 (fw s3)) = []" using send_periodic_uart[OF s3(1)] fw2(3) tx(2) by simp
  ultimately obtain s' where s': "Orazio_flushOutputBuffers s3 = Inr s'" "orazio_inv s'" "tx_items (base_handler s') = []"
    "uart_tx_items (uart_0 (fw s')) = tx_items (base_handler s3)"
    using flushOutputBuffers_inv[OF s3(2)] by (auto simp del: length_uart_items)
  have "Orazio_commHandle s = Inr s'"
    by (simp add: Orazio_commHandle_def flushInput_nothing[OF inv quiet(2)] proc s3(1) s'(1))
  then show ?thesis using s' s3(3) by auto
qed

text \<open>
  A communication cycle that finds no input and empty queues puts exactly one epoch on the serial
  line: the frames of the status packets that the mask selects, a pending message, and the end of
  the epoch, with the sequence number of the cycle.
\<close>

theorem cycle_sends_epoch:
  assumes "orazio_inv s" and "pending s = []" and "rx_waiting s = 0"
    and "tx_size (base_handler s) = 0" and "uart_tx_items (uart_0 (fw s)) = []"
  shows "\<exists>s'. Orazio_commHandle s = Inr s' \<and> orazio_inv s' \<and> tx_items (base_handler s') = []
    \<and> uart_tx_items (uart_0 (fw s')) = concat (map (out_frame (cycle_fw s)) (epoch_list (cycle_fw s)))"
  using idle_cycle[OF assms] .

theorem cycle_sends_epoch_witness:
  "\<exists>s'. Orazio_commHandle sample = Inr s' \<and> orazio_inv s'
    \<and> uart_tx_items (uart_0 (fw s')) = concat (map (out_frame (cycle_fw sample)) (epoch_list (cycle_fw sample)))"
  using cycle_sends_epoch[OF sample_boot(2,3)]
  by (auto simp: rx_waiting_def sample_fw started_fields simp del: length_uart_items)

section \<open>Received packets\<close>

text \<open>The data that packets set.\<close>

definition settings :: "'a firmware_scheme \<Rightarrow> SystemParamPacket \<times> DifferentialDriveParamPacket \<times> JointParamPacket list
    \<times> SonarParamPacket \<times> DifferentialDriveControlPacket \<times> JointControlPacket list" where
  "settings f = (system_params f, drive_params f, joint_params f, sonar_params f, drive_control f, joint_control f)"

lemma response_keeps:
  assumes "Orazio_sendResponse h r s = Inr s'"
  shows "settings (fw s') = settings (fw s)" and "drive_status (fw s') = drive_status (fw s)"
    and "last_drive_control_seq (fw s') = last_drive_control_seq (fw s)"
    and "drive_controller (fw s') = drive_controller (fw s)"
proof -
  obtain s0 where s0: "send (OResponse, 0) s0 = Inr s'" "settings (fw s0) = settings (fw s)" "drive_status (fw s0) = drive_status (fw s)"
    "last_drive_control_seq (fw s0) = last_drive_control_seq (fw s)" "drive_controller (fw s0) = drive_controller (fw s)"
    using assms by (auto simp: Orazio_sendResponse_def settings_def upd_fw_def)
  obtain st where call: "Orazio_sendPacket (OResponse, 0) s0 = Inr (st, s')" using s0(1) by (auto simp: send_def bindR_Inr_iff)
  obtain r' where f: "ptr_store (OResponse, 0 + 2) (put16 (global_seq (fw s0))) (fw s0) = Inr ((fw s0)\<lparr>response := r'\<rparr>)"
    using call unfolding Orazio_sendPacket_def by (auto simp: bindR_Inr_iff ptr_store_def Let_def split: if_splits)
  obtain h g where "s' = s0\<lparr>base_handler := h, fw := (fw s0)\<lparr>response := r'\<rparr>\<lparr>system_status := g\<rparr>\<rparr>"
    using call f by (auto simp: Orazio_sendPacket_def Let_def upd_status_def upd_fw_def split: prod.splits if_splits)
  then show "settings (fw s') = settings (fw s)" "drive_status (fw s') = drive_status (fw s)"
    "last_drive_control_seq (fw s') = last_drive_control_seq (fw s)" "drive_controller (fw s') = drive_controller (fw s)"
    using s0 by (simp_all add: settings_def)
qed

text \<open>The response to a packet with the given header, in a cycle with the given number.\<close>

definition reply :: "u16 \<Rightarrow> PacketHeader \<Rightarrow> PacketStatus \<Rightarrow> u8 list" where
  "reply q p r = put_ResponsePacket \<lparr>
     rp_header = \<lparr>h_type = RESPONSE_PACKET_ID, h_size = word_of_nat sizeof_ResponsePacket, h_seq = q\<rparr>,
     rp_p_type = h_type p, rp_p_seq = h_seq p, rp_p_result = word_of_int (status_code r)\<rparr>"

lemma response_bytes:
  assumes "fw_ready f"
  shows "stamped q (packet_at (OResponse, 0) f) = put_ResponsePacket ((response f)\<lparr>rp_header :=
    \<lparr>h_type = RESPONSE_PACKET_ID, h_size = word_of_nat sizeof_ResponsePacket, h_seq = q\<rparr>\<rparr>)"
proof -
  have hdr: "h_type (rp_header (response f)) = RESPONSE_PACKET_ID" "h_size (rp_header (response f)) = word_of_nat sizeof_ResponsePacket"
    using assms by (simp_all add: fw_ready_def headers_ok_def header_ok_def)
  have "put_ResponsePacket (response f) ! 1 = word_of_nat sizeof_ResponsePacket"
    using hdr(2) by (simp add: put_ResponsePacket_def put_PacketHeader_bytes)
  then have "packet_at (OResponse, 0) f = put_ResponsePacket (response f)"
    by (simp add: packet_at_def sizeof_ResponsePacket_def)
  then show ?thesis
    using hdr by (cases "rp_header (response f)") (simp add: put_ResponsePacket_def stamped_header)
qed

text \<open>The response is queued whole when there is room for it.\<close>

lemma response_queued:
  assumes "orazio_inv s" and "Orazio_sendResponse p r s = Inr s'"
  shows "tx_items (base_handler s') = tx_items (base_handler s)
    @ (if room sizeof_ResponsePacket (base_handler s) then frame (reply (global_seq (fw s)) p r) else [])"
proof -
  let ?s = "upd_fw (\<lambda>f. f\<lparr>response := (response f)\<lparr>rp_p_seq := h_seq p,
       rp_p_type := h_type p, rp_p_result := word_of_int (status_code r)\<rparr>\<rparr>) s"
  have i: "orazio_inv ?s" by (rule upd_fw_inv[OF assms(1)]) simp_all
  have ptr: "(OResponse, 0, sizeof_ResponsePacket) \<in> set status_ptrs" by (simp add: status_ptrs_def)
  obtain h st where h: "send (OResponse, 0) ?s = Inr (?s\<lparr>base_handler := h, fw := count_tx st (stamp (OResponse, 0) (fw ?s))\<rparr>)"
    "tx_items h = tx_items (base_handler ?s) @ (if room sizeof_ResponsePacket (base_handler ?s)
       then frame (stamped (global_seq (fw ?s)) (packet_at (OResponse, 0) (fw ?s))) else [])"
    using send_status[OF i ptr] by auto
  have "stamped (global_seq (fw ?s)) (packet_at (OResponse, 0) (fw ?s)) = reply (global_seq (fw s)) p r"
    using response_bytes[OF orazio_invD(3)[OF i]] by (cases "response (fw s)") (simp add: reply_def upd_fw_def)
  moreover have "base_handler s' = h" using assms(2) h(1) by (auto simp: Orazio_sendResponse_def)
  ultimately show ?thesis using h(2) by (simp add: upd_fw_def)
qed

lemma joint_args:
  assumes "a = 0x105 \<or> a = 0x106"
  shows "\<exists>args. handler_args a = Some args \<and> sint (max_index args) = 2 \<and> action_flags args AND COPY \<noteq> 0
    \<and> (\<exists>dest. args_dest args = Some dest)"
  using assms by (auto simp: joint_control_args_def joint_param_args_def)

text \<open>
  A joint packet whose index is not below the number of joints, but fits a signed byte, is answered
  with an error and changes no setting.
\<close>

theorem joint_index_rejected:
  assumes "orazio_inv s" and "a = 0x105 \<or> a = 0x106"
    and "NUM_JOINTS \<le> unat (mem s (p + sizeof_PacketHeader))" and "unat (mem s (p + sizeof_PacketHeader)) < 128"
  shows "\<exists>s'. Orazio_handlePacket p a s = Inr (GenericError, s') \<and> orazio_inv s' \<and> settings (fw s') = settings (fw s)
    \<and> drive_status (fw s') = drive_status (fw s)"
proof -
  obtain args where args: "handler_args a = Some args" "sint (max_index args) = 2" using joint_args[OF assms(2)] by blast
  let ?i = "mem s (p + sizeof_PacketHeader)"
  have "uint ?i < 128" "2 \<le> uint ?i" using uint_unat_bounds(1)[of 2 ?i] uint_unat_bounds(2)[of ?i 128] assms(3,4) by simp_all
  then have i: "2 \<le> sint (handle_index args p s)" using args(2) by (simp add: handle_index_def sint_s8_split)
  let ?s = "upd_status (\<lambda>st. st\<lparr>ss_rx_seq := h_seq (packet_header p s)\<rparr>) s"
  have "orazio_inv ?s" by (rule upd_status_inv[OF assms(1)]) simp
  then obtain s' where s': "Orazio_sendResponse (packet_header p s) GenericError ?s = Inr s'" "orazio_inv s'"
    using sendResponse_inv by blast
  have "settings (fw ?s) = settings (fw s)" "drive_status (fw ?s) = drive_status (fw s)"
    by (simp_all add: upd_status_def upd_fw_def settings_def)
  then show ?thesis
    using s' i response_keeps[OF s'(1)] by (simp add: Orazio_handlePacket_eq[OF args(1)] args(2))
qed

theorem joint_index_rejected_witness:
  "\<exists>s'. Orazio_handlePacket 1000 0x105 (sample_on (\<lambda>a. 2)) = Inr (GenericError, s')
    \<and> settings (fw s') = settings (fw (sample_on (\<lambda>a. 2)))"
  using joint_index_rejected[OF sample_on_boot(2), of "0x105" "\<lambda>a. 2" 1000] by (auto simp: sample_on_fw)

text \<open>
  C37. With an index from 128 on, the same handler writes in front of the array: the conversion to a
  signed byte makes the index negative, and the test lets it pass.
\<close>

theorem joint_index_negative:
  assumes "a = 0x105 \<or> a = 0x106" and "128 \<le> unat (mem s (p + sizeof_PacketHeader))"
    and "h_size (packet_header p s) \<noteq> 0"
  shows "Orazio_handlePacket p a s = Inl OutOfBounds"
proof -
  obtain args dest where args: "handler_args a = Some args" "sint (max_index args) = 2" "action_flags args AND COPY \<noteq> 0"
    "args_dest args = Some dest" using joint_args[OF assms(1)] by blast
  let ?i = "mem s (p + sizeof_PacketHeader)"
  have "128 \<le> uint ?i" using uint_unat_bounds(1)[of 128 ?i] assms(2) by simp
  then have i: "sint (handle_index args p s) < 0" using args(2) uint_lt2p[of ?i] by (simp add: handle_index_def sint_s8_split)
  have "0 < unat (h_size (packet_header p s))" using assms(3) by (simp add: unat_gt_0)
  then have "0 < uint (h_size (packet_header p s))" using uint_unat_bounds(1)[of 1 "h_size (packet_header p s)"] by simp
  from mult_neg_pos[OF i this] have off: "handle_offset args (packet_header p s) (handle_index args p s) < 0"
    using args(2,3) by (simp add: handle_offset_def)
  then have "ptr_store (dest, handle_offset args (packet_header p s) (handle_index args p s)) bs f = Inl OutOfBounds" for bs and f :: firmware
    by (simp add: ptr_store_def Let_def)
  then show ?thesis
    using i args(2-4) by (simp add: Orazio_handlePacket_eq[OF args(1)] handle_body_def packet_copy_def run_fw_def)
qed

theorem joint_index_negative_witness:
  "Orazio_handlePacket 1000 0x105 (sample_on (\<lambda>a. 0xFF)) = Inl OutOfBounds"
proof (rule joint_index_negative)
  show "h_size (packet_header 1000 (sample_on (\<lambda>a. 0xFF))) \<noteq> 0"
    by (simp add: packet_header_def sample_on_fw get_PacketHeader_def read_mem_def sizeof_PacketHeader_def get8_def upt_rec
        split: prod.splits)
qed (simp_all add: sample_on_fw)

text \<open>What a drive command does when the next control step sees it.\<close>

lemma handle_plain:
  assumes "handler_args a = Some args" and "sint (max_index args) < 0" and "action_flags args AND DISABLE_DRIVE = 0"
    and "action_flags args AND ECHO = 0" and "action_flags args AND COPY \<noteq> 0" and "post_copy_fn args = None"
    and "args_dest args = Some dest" and "input_obj dest"
    and "orazio_inv s" and "length (obj_bytes dest (fw s)) = n" and "unat (h_size (packet_header p s)) = n"
  shows "\<exists>s'. Orazio_handlePacket p a s = Inr (Success, s') \<and> orazio_inv s'
    \<and> settings (fw s') = settings (obj_store dest (read_mem (mem s) p n) (fw s)) \<and> drive_status (fw s') = drive_status (fw s)
    \<and> last_drive_control_seq (fw s') = last_drive_control_seq (fw s) \<and> drive_controller (fw s') = drive_controller (fw s)
    \<and> tx_items (base_handler s') = tx_items (base_handler s)
        @ (if room sizeof_ResponsePacket (base_handler s) then frame (reply (global_seq (fw s)) (packet_header p s) Success) else [])"
proof -
  let ?hdr = "packet_header p s"
  let ?s1 = "handle_prepare args ?hdr s"
  have s1: "?s1 = upd_status (\<lambda>st. st\<lparr>ss_rx_seq := h_seq ?hdr\<rparr>) s" using assms(3) by (simp add: handle_prepare_def Let_def)
  have dest: "dest \<noteq> OSystemStatus" using assms(8) by (auto simp: input_obj_def)
  have len: "length (obj_bytes dest (fw ?s1)) = n"
    using assms(10) dest by (cases dest) (simp_all add: s1 upd_status_def upd_fw_def)
  let ?s2 = "?s1\<lparr>fw := obj_store dest (read_mem (mem s) p n) (fw ?s1)\<rparr>"
  have copy: "packet_copy args 0 p n ?s1 = Inr (Success, ?s2)"
    using assms(6,7) len by (simp add: packet_copy_def run_fw_def ptr_store_def s1 upd_status_def upd_fw_def)
  have i1: "orazio_inv ?s1" by (rule handle_prepare_inv[OF assms(9)])
  have ok: "args_ok args" using assms(7,8) by (simp add: args_ok_def)
  from packet_copy_inv[OF i1 ok copy] have i2: "orazio_inv ?s2" .
  obtain s' where s': "Orazio_sendResponse ?hdr Success ?s2 = Inr s'" "orazio_inv s'" using sendResponse_inv[OF i2] by blast
  have "Orazio_handlePacket p a s = Inr (Success, s')"
    using assms(2-5,11) copy s'(1)
    by (simp add: Orazio_handlePacket_eq[OF assms(1)] handle_body_def handle_offset_def not_le)
  moreover have "settings (fw ?s2) = settings (obj_store dest (read_mem (mem s) p n) (fw s))"
    "drive_status (fw ?s2) = drive_status (fw s)" "last_drive_control_seq (fw ?s2) = last_drive_control_seq (fw s)"
    "drive_controller (fw ?s2) = drive_controller (fw s)"
    using assms(8) by (cases dest; simp add: s1 upd_status_def upd_fw_def settings_def input_obj_def)+
  moreover have "global_seq (fw ?s2) = global_seq (fw s)" "base_handler ?s2 = base_handler s"
    using assms(8) by (cases dest; simp add: s1 upd_status_def upd_fw_def input_obj_def)+
  ultimately show ?thesis using s'(2) response_keeps[OF s'(1)] response_queued[OF i2 s'(1)] by auto
qed

lemma drive_ready_control:
  assumes "fw_ready f"
  shows "\<exists>l r. l < NUM_JOINTS \<and> r < NUM_JOINTS \<and> dd_set (drive_controller f)
    \<and> dd_control_left (drive_controller f) = Some l \<and> dd_control_right (drive_controller f) = Some r"
  using assms by (auto simp: fw_ready_def drive_ready_def Let_def)

lemma driveControl_new_command:
  assumes "fw_ready f" and "h_seq (dc_header (drive_control f)) \<noteq> last_drive_control_seq f"
  shows "\<exists>f' l r. Orazio_driveControl f = Inr f' \<and> ds_enabled (drive_status f') = 1
    \<and> dd_control_left (drive_controller f) = Some l \<and> dd_control_right (drive_controller f) = Some r
    \<and> jc_mode (jct_control (joint_control f' ! l)) = JointPID \<and> jc_mode (jct_control (joint_control f' ! r)) = JointPID
    \<and> last_drive_control_seq f' = h_seq (dc_header (drive_control f))"
proof -
  obtain l r where lr: "l < 2" "r < 2" "dd_set (drive_controller f)" "dd_control_left (drive_controller f) = Some l"
    "dd_control_right (drive_controller f) = Some r" using drive_ready_control[OF assms(1)] by blast
  have "length (joint_control f) = 2" using assms(1) by (simp add: ready_defs)
  then show ?thesis
    using lr assms(2)
    by (simp add: Orazio_driveControl_def Let_def DifferentialDriveController_control_def set_joint_mode_def set_joint_speed_def
        nth_list_update)
qed

lemma drive_command_handled:
  assumes "orazio_inv s" and "read_mem (mem s) p sizeof_DifferentialDriveControlPacket = put_DifferentialDriveControlPacket pkt"
    and "h_size (dc_header pkt) = word_of_nat sizeof_DifferentialDriveControlPacket"
    and "h_seq (dc_header pkt) \<noteq> last_drive_control_seq (fw s)"
  shows "\<exists>s' f' l r. Orazio_handlePacket p 0x102 s = Inr (Success, s') \<and> orazio_inv s'
    \<and> settings (fw s') = settings ((fw s)\<lparr>drive_control := pkt\<rparr>)
    \<and> tx_items (base_handler s') = tx_items (base_handler s)
        @ (if room sizeof_ResponsePacket (base_handler s) then frame (reply (global_seq (fw s)) (dc_header pkt) Success) else [])
    \<and> Orazio_driveControl (fw s') = Inr f' \<and> ds_enabled (drive_status f') = 1
    \<and> dd_control_left (drive_controller (fw s)) = Some l \<and> dd_control_right (drive_controller (fw s)) = Some r
    \<and> jc_mode (jct_control (joint_control f' ! l)) = JointPID \<and> jc_mode (jct_control (joint_control f' ! r)) = JointPID"
proof -
  let ?n = sizeof_DifferentialDriveControlPacket
  have "read_mem (mem s) p sizeof_PacketHeader = take sizeof_PacketHeader (read_mem (mem s) p ?n)"
    by (simp add: read_mem_def sizeof_PacketHeader_def sizeof_DifferentialDriveControlPacket_def take_map)
  also have "\<dots> = put_PacketHeader (dc_header pkt)" unfolding assms(2) by (simp add: put_DifferentialDriveControlPacket_def)
  finally have hdr: "packet_header p s = dc_header pkt" by (simp add: packet_header_def header.exact_back)
  have size: "unat (h_size (packet_header p s)) = ?n"
    using assms(3) hdr by (simp add: sizeof_DifferentialDriveControlPacket_def)
  have "length (obj_bytes ODriveControl (fw s)) = ?n" by simp
  from handle_plain[where args = drive_control_args and a = "0x102" and dest = ODriveControl, OF _ _ _ _ _ _ _ _ assms(1) this size]
  obtain s' where s': "Orazio_handlePacket p 0x102 s = Inr (Success, s')" "orazio_inv s'"
    "settings (fw s') = settings (obj_store ODriveControl (read_mem (mem s) p ?n) (fw s))"
    "last_drive_control_seq (fw s') = last_drive_control_seq (fw s)" "drive_controller (fw s') = drive_controller (fw s)"
    "tx_items (base_handler s') = tx_items (base_handler s)
        @ (if room sizeof_ResponsePacket (base_handler s) then frame (reply (global_seq (fw s)) (dc_header pkt) Success) else [])"
    unfolding hdr by (auto simp: drive_control_args_def input_obj_def)
  have set: "settings (fw s') = settings ((fw s)\<lparr>drive_control := pkt\<rparr>)"
    using s'(3) drive_control.exact_back[of pkt] by (simp add: assms(2))
  then have "drive_control (fw s') = pkt" by (simp add: settings_def)
  then show ?thesis
    using driveControl_new_command[of "fw s'"] s' set assms(4) by (fastforce simp: orazio_inv_def)
qed

text \<open>
  C20. A drive command of the right size whose sequence number is not the one of the last executed command is stored whole
  and leaves the other settings alone. The response, with the type and the number of the command and the result
  \<open>Success\<close>, is queued for the host behind what waits there, when there is room for it. The next control step
  enables the drive and puts both wheels under speed control.
\<close>

theorem drive_command_takes_effect:
  assumes "orazio_inv s" and "read_mem (mem s) p sizeof_DifferentialDriveControlPacket = put_DifferentialDriveControlPacket pkt"
    and "h_size (dc_header pkt) = word_of_nat sizeof_DifferentialDriveControlPacket"
    and "h_seq (dc_header pkt) \<noteq> last_drive_control_seq (fw s)"
  shows "\<exists>s' f' l r. Orazio_handlePacket p 0x102 s = Inr (Success, s') \<and> orazio_inv s'
    \<and> settings (fw s') = settings ((fw s)\<lparr>drive_control := pkt\<rparr>)
    \<and> tx_items (base_handler s') = tx_items (base_handler s)
        @ (if room sizeof_ResponsePacket (base_handler s) then frame (reply (global_seq (fw s)) (dc_header pkt) Success) else [])
    \<and> Orazio_driveControl (fw s') = Inr f' \<and> ds_enabled (drive_status f') = 1
    \<and> dd_control_left (drive_controller (fw s)) = Some l \<and> dd_control_right (drive_controller (fw s)) = Some r
    \<and> jc_mode (jct_control (joint_control f' ! l)) = JointPID \<and> jc_mode (jct_control (joint_control f' ! r)) = JointPID"
  using drive_command_handled[OF assms] .

definition sample_command :: DifferentialDriveControlPacket where
  "sample_command = \<lparr>dc_header = \<lparr>h_type = DIFFERENTIAL_DRIVE_CONTROL_PACKET_ID,
     h_size = word_of_nat sizeof_DifferentialDriveControlPacket, h_seq = 7\<rparr>,
     dc_translational_velocity = f32_of_int 1, dc_rotational_velocity = 0\<rparr>"

theorem drive_command_takes_effect_witness:
  "\<exists>s' f'. Orazio_handlePacket 1000 0x102 (sample_on (write_mem (\<lambda>_. 0) 1000 (put_DifferentialDriveControlPacket sample_command))) = Inr (Success, s')
    \<and> tx_items (base_handler s') = frame (reply 0 (dc_header sample_command) Success)
    \<and> drive_control (fw s') = sample_command \<and> Orazio_driveControl (fw s') = Inr f' \<and> ds_enabled (drive_status f') = 1"
proof -
  let ?m = "write_mem (\<lambda>_. 0) 1000 (put_DifferentialDriveControlPacket sample_command)"
  have "read_mem (mem (sample_on ?m)) 1000 sizeof_DifferentialDriveControlPacket = put_DifferentialDriveControlPacket sample_command"
    by (simp add: sample_on_fw)
  moreover have "h_seq (dc_header sample_command) \<noteq> last_drive_control_seq (fw (sample_on ?m))"
    by (simp add: sample_on_fw started_fields sample_command_def)
  moreover have "tx_items (base_handler (sample_on ?m)) = []" "global_seq (fw (sample_on ?m)) = 0"
    by (simp_all add: tx_items_def ring_items_def sample_on_fw started_fw_def)
  ultimately show ?thesis
    using drive_command_takes_effect[OF sample_on_boot(2), of ?m 1000 sample_command]
    by (auto simp: sample_command_def settings_def room_def sizeof_ResponsePacket_def)
qed

section \<open>Parameters in the EEPROM\<close>

text \<open>Where the parameters of a kind are kept, and their bytes.\<close>

definition param_region :: "u8 \<Rightarrow> s8 \<Rightarrow> nat \<times> nat" where
  "param_region t i =
     (if t = ParamSystem then (SYSTEM_PARAM_OFFSET, sizeof_SystemParamPacket)
      else if t = ParamJointsSingle then (joint_offset i, sizeof_JointParamPacket)
      else if t = ParamDrive then (DRIVE_PARAM_OFFSET, sizeof_DifferentialDriveParamPacket)
      else (SONAR_PARAM_OFFSET, sizeof_SonarParamPacket))"

definition param_bytes :: "u8 \<Rightarrow> s8 \<Rightarrow> 'a firmware_scheme \<Rightarrow> u8 list" where
  "param_bytes t i f =
     (if t = ParamSystem then put_SystemParamPacket (system_params f)
      else if t = ParamJointsSingle then put_JointParamPacket (joint_params f ! nat (sint i))
      else if t = ParamDrive then put_DifferentialDriveParamPacket (drive_params f)
      else put_SonarParamPacket (sonar_params f))"

definition param_ok :: "u8 \<Rightarrow> s8 \<Rightarrow> bool" where
  "param_ok t i \<longleftrightarrow> known_param t \<and> (t = ParamJointsSingle \<longrightarrow> joint_index_ok i)"

lemma param_region_cases:
  assumes "param_ok t i"
  shows "param_region t i \<in> {(40, 24), (64, 38), (102, 12), (114, 25), (139, 25)}"
proof (cases "t = ParamJointsSingle")
  case True
  then have "sint i = 0 \<or> sint i = 1" using assms by (auto simp: param_ok_def joint_index_ok_def)
  moreover have "i = word_of_int (sint i)" by simp
  ultimately have "i = 0 \<or> i = 1" by (metis of_int_0 of_int_1)
  then show ?thesis
    using True by (auto simp: param_region_def joint_offset_def offsets sizeof_SystemParamPacket_def sizeof_DifferentialDriveParamPacket_def
        sizeof_SonarParamPacket_def sizeof_JointParamPacket_def)
next
  case False
  then show ?thesis
    using assms by (auto simp: param_ok_def known_param_def param_region_def offsets sizeof_SystemParamPacket_def
        sizeof_DifferentialDriveParamPacket_def sizeof_SonarParamPacket_def sizeof_JointParamPacket_def)
qed

lemma param_save_writes:
  assumes "param_ok t i"
  shows "Orazio_paramSave t i f = Inr (Success, ee_write (fst (param_region t i)) (param_bytes t i f) f)"
  using assms by (auto simp: param_ok_def known_param_def Orazio_paramSave_def param_region_def param_bytes_def)

lemma param_bytes_length:
  assumes "wf_fw f" and "param_ok t i"
  shows "length (param_bytes t i f) = snd (param_region t i)"
proof -
  have "nat (sint i) < 2 \<Longrightarrow> wf_JointParamPacket (joint_params f ! nat (sint i))" using assms(1) by (simp add: wf_fw_def)
  then show ?thesis
    using assms by (auto simp: param_bytes_def param_region_def param_ok_def joint_index_ok_def wf_fw_def)
qed

lemma param_fetch_reads:
  assumes "wf_fw f" and "param_ok t i" and "eeprom f = eeprom d"
    and "length (ee_read (fst (param_region t i)) (snd (param_region t i)) d) = snd (param_region t i)"
  shows "\<exists>f'. param_fetch t i f = Inr f' \<and> param_bytes t i f' = ee_read (fst (param_region t i)) (snd (param_region t i)) d"
proof -
  have same: "ee_read a n f = ee_read a n d" for a n by (simp add: ee_read_def EEPROM_read_def assms(3))
  have "0 \<le> sint i \<Longrightarrow> sint i < 2 \<Longrightarrow> nat (sint i) < length (joint_params f)" using assms(1) by (simp add: wf_fw_def)
  then show ?thesis
    using assms(2,4)
    by (auto simp: param_ok_def known_param_def param_fetch_def param_bytes_def param_region_def joint_index_ok_def same
        system_param.exact joint_param.exact drive_param.exact sonar_param.exact)
qed

lemma ee_read_written:
  assumes "off + length bs < 65536"
  shows "ee_read off (length bs) (ee_write off bs d) = bs"
  using EEPROM_read_write[of "word_of_nat off" bs d] assms by (simp add: ee_read_def ee_write_def unat_of_nat)

lemma ee_read_elsewhere:
  assumes "off + n < 65536" and "off' + length bs < 65536" and "off + n \<le> off' \<or> off' + length bs \<le> off"
  shows "ee_read off n (ee_write off' bs d) = ee_read off n d"
  using EEPROM_read_write_other[of "word_of_nat off" "word_of_nat n" "word_of_nat off'" bs d] assms
  by (simp add: ee_read_def ee_write_def unat_of_nat)

lemma params_kept:
  assumes "wf_fw f" and "param_ok t i" and "Orazio_paramSave t i f = Inr (r, f1)"
    and "wf_fw f2" and "eeprom f2 = eeprom f1"
  shows "r = Success \<and> (\<exists>f3. param_fetch t i f2 = Inr f3 \<and> param_bytes t i f3 = param_bytes t i f)
    \<and> (\<forall>t' i'. param_ok t' i' \<longrightarrow> param_region t' i' \<noteq> param_region t i \<longrightarrow>
         ee_read (fst (param_region t' i')) (snd (param_region t' i')) f1 = ee_read (fst (param_region t' i')) (snd (param_region t' i')) f)"
proof -
  let ?off = "fst (param_region t i)" and ?bs = "param_bytes t i f"
  have f1: "r = Success" "f1 = ee_write ?off ?bs f" using assms(3) by (simp_all add: param_save_writes[OF assms(2)])
  note len = param_bytes_length[OF assms(1,2)]
  have bound: "fst (param_region t' i') + snd (param_region t' i') < 65536" if "param_ok t' i'" for t' i'
    using param_region_cases[OF that] by auto
  have own: "ee_read ?off (snd (param_region t i)) f1 = ?bs"
    using ee_read_written[of ?off ?bs f] bound[OF assms(2)] by (simp add: f1 len)
  then have "\<exists>f3. param_fetch t i f2 = Inr f3 \<and> param_bytes t i f3 = ?bs"
    using param_fetch_reads[OF assms(4,2,5)] by (simp add: len)
  moreover have "ee_read (fst (param_region t' i')) (snd (param_region t' i')) f1
      = ee_read (fst (param_region t' i')) (snd (param_region t' i')) f"
    if "param_ok t' i'" "param_region t' i' \<noteq> param_region t i" for t' i'
    unfolding f1
  proof (rule ee_read_elsewhere)
    show "fst (param_region t' i') + snd (param_region t' i') \<le> ?off \<or> ?off + length ?bs \<le> fst (param_region t' i')"
      using param_region_cases[OF that(1)] param_region_cases[OF assms(2)] that(2) unfolding len by auto
  qed (use bound[OF that(1)] bound[OF assms(2)] len in simp_all)
  ultimately show ?thesis using f1(1) by blast
qed

text \<open>
  C21. What \<open>Orazio_paramSave\<close> stores is what a later load fetches, whatever happened to the
  variables in between, and no other parameters in the EEPROM change.
\<close>

theorem params_survive:
  fixes f :: "'a firmware_scheme"
  assumes "wf_fw f" and "param_ok t i"
  shows "\<exists>f1. Orazio_paramSave t i f = Inr (Success, f1)
    \<and> (\<forall>f2 :: 'a firmware_scheme. wf_fw f2 \<longrightarrow> eeprom f2 = eeprom f1 \<longrightarrow>
         (\<exists>f3. param_fetch t i f2 = Inr f3 \<and> param_bytes t i f3 = param_bytes t i f))
    \<and> (\<forall>t' i'. param_ok t' i' \<longrightarrow> param_region t' i' \<noteq> param_region t i \<longrightarrow>
         ee_read (fst (param_region t' i')) (snd (param_region t' i')) f1 = ee_read (fst (param_region t' i')) (snd (param_region t' i')) f)"
proof -
  obtain f1 where f1: "Orazio_paramSave t i f = Inr (Success, f1)" using param_save_writes[OF assms(2)] by blast
  have kept: "wf_fw f1" using f1 assms(1) by (auto simp: param_save_writes[OF assms(2)])
  show ?thesis
    using f1 params_kept[OF assms f1] params_kept[OF assms f1 kept refl] by (intro exI[of _ f1]) auto
qed

theorem params_survive_witness:
  "\<exists>f1 f3. Orazio_paramSave ParamDrive 0 started_fw = Inr (Success, f1)
    \<and> param_fetch ParamDrive 0 (f1\<lparr>drive_params := init_drive_params\<lparr>dp_baseline := 0\<rparr>\<rparr>) = Inr f3
    \<and> param_bytes ParamDrive 0 f3 = put_DifferentialDriveParamPacket init_drive_params"
proof -
  have ok: "param_ok ParamDrive 0" by (simp add: param_ok_def known_param_def)
  have wf: "wf_fw started_fw" using started_fw_ready by (simp add: fw_ready_def)
  obtain f1 where f1: "Orazio_paramSave ParamDrive 0 started_fw = Inr (Success, f1)"
    "\<And>f2 :: firmware. wf_fw f2 \<Longrightarrow> eeprom f2 = eeprom f1 \<Longrightarrow>
       \<exists>f3. param_fetch ParamDrive 0 f2 = Inr f3 \<and> param_bytes ParamDrive 0 f3 = param_bytes ParamDrive 0 started_fw"
    using params_survive[OF wf ok] by blast
  have "wf_fw f1" using f1(1) wf by (auto simp: param_save_writes[OF ok])
  then have "wf_fw (f1\<lparr>drive_params := init_drive_params\<lparr>dp_baseline := 0\<rparr>\<rparr>)" by (simp add: wf_fw_def)
  from f1(2)[OF this] f1(1) show ?thesis by (auto simp: param_bytes_def started_fields)
qed

end
