(* ===== verification/DriveProperties.thy ===== *)
theory DriveProperties
  imports CommProperties
begin

text \<open>
  The velocity limits and the odometry of the differential drive, on the bit patterns of the
  single precision arithmetic.
\<close>

section \<open>Order and sign of the floats\<close>

lemma f32_split: "unat (w :: f32) = (if bit w 31 then 2147483648 else 0) + unat (take_bit 31 w)"
proof -
  have "unat w = take_bit (Suc 31) (unat w)" by (simp add: take_bit_nat_eq_self)
  also have "\<dots> = 2 ^ 31 * of_bool (bit (unat w) 31) + take_bit 31 (unat w)" by (rule take_bit_Suc_from_most)
  finally show ?thesis by (cases "bit w 31") (simp_all add: bit_unsigned_iff unsigned_take_bit_eq)
qed

lemma f32_low: "unat (take_bit 31 w :: f32) < 2147483648"
  using take_bit_nat_less_exp[of 31 "unat w"] by (simp add: unsigned_take_bit_eq)

definition flip :: "fval \<Rightarrow> fval" where
  "flip x = (case x of FNan \<Rightarrow> FNan | FInf s \<Rightarrow> FInf (\<not> s) | FFin s m e \<Rightarrow> FFin (\<not> s) m e)"

lemma f32_decode_low:
  "f32_decode w = (let n = unat (take_bit 31 w); s = bit w 31; e = n div 8388608; m = n mod 8388608 in
     if e = 255 then (if m = 0 then FInf s else FNan)
     else if e = 0 then FFin s m (- 149) else FFin s (m + 8388608) (int e - 150))"
proof -
  let ?n = "unat (take_bit 31 w)"
  have n: "?n div 8388608 < 256" using f32_low[of w] by simp
  have "(2147483648 \<le> unat w) = bit w 31" using f32_split[of w] f32_low[of w] by auto
  moreover have "unat w div 8388608 mod 256 = ?n div 8388608" "unat w mod 8388608 = ?n mod 8388608"
    using n by (simp_all add: f32_split[of w] mod_add_left_eq[symmetric]) (use div_add1_eq[of 2147483648 ?n 8388608] in auto)
  ultimately show ?thesis by (simp add: f32_decode_def Let_def)
qed

lemma f32_decode_neg: "f32_decode (f32_neg w) = flip (f32_decode w)"
proof -
  have "take_bit 31 (f32_neg w) = take_bit 31 w" "bit (f32_neg w) 31 \<longleftrightarrow> \<not> bit w 31"
    by (simp_all add: f32_neg_def take_bit_xor bit_simps)
  then show ?thesis by (simp add: f32_decode_low flip_def Let_def)
qed

text \<open>A limit: a number that is not below zero.\<close>

definition f32_limit :: "f32 \<Rightarrow> bool" where
  "f32_limit t \<longleftrightarrow> f32_decode t \<noteq> FNan \<and> \<not> f32_lt t 0"

lemma f32_zero: "f32_decode 0 = FFin False 0 (- 149)"
  by (simp add: f32_decode_def)

lemma f32_limit_neg: "f32_limit t \<Longrightarrow> \<not> f32_lt t (f32_neg t)"
  by (cases "f32_decode t")
    (auto simp: f32_limit_def f32_lt_def f32_decode_neg flip_def f32_zero Let_def signed_mant_def mult_less_0_iff split: if_splits)

text \<open>A number between the limit and its negation.\<close>

definition within_limit :: "f32 \<Rightarrow> f32 \<Rightarrow> bool" where
  "within_limit v t \<longleftrightarrow> f32_decode v \<noteq> FNan \<and> \<not> f32_lt t v \<and> \<not> f32_lt v (f32_neg t)"

definition f32_finite :: "f32 \<Rightarrow> bool" where
  "f32_finite v \<longleftrightarrow> (case f32_decode v of FFin s m e \<Rightarrow> True | _ \<Rightarrow> False)"

section \<open>Not a number\<close>

lemma f32_nan_decode: "f32_decode f32_nan = FNan"
  by (simp add: f32_decode_def f32_nan_def)

lemma f32_pack_decode:
  assumes "bits \<le> 0x7F800000"
  shows "f32_decode (f32_pack s bits) \<noteq> FNan"
proof -
  have n: "unat (f32_pack s bits) = (if s then 2147483648 else 0) + bits"
    unfolding f32_pack_def unat_of_nat using assms by simp
  have "((if s then 2147483648 else 0) + bits) div 8388608 mod 256 = bits div 8388608"
    using assms div_add1_eq[of 2147483648 bits 8388608] by (auto simp: div_less_iff_less_mult)
  moreover have "((if s then 2147483648 else 0) + bits) mod 8388608 = bits mod 8388608"
    using mod_add_left_eq[of 2147483648 8388608 bits] by simp
  moreover have "bits mod 8388608 = 0" if "bits div 8388608 = 255"
    using that assms div_mult_mod_eq[of bits 8388608] by simp
  ultimately show ?thesis unfolding f32_decode_def n by (simp add: Let_def)
qed

lemma f32_round_decode: "f32_decode (f32_round s num den e) \<noteq> FNan"
  by (simp add: f32_round_def Let_def f32_inf_def f32_pack_decode split: prod.splits)

text \<open>A sum is a number when one summand is and the other one is finite; an operation on no number gives none.\<close>

lemma f32_add_number:
  assumes "f32_decode a \<noteq> FNan" and "f32_decode b \<noteq> FNan" and "f32_finite a \<or> f32_finite b"
  shows "f32_decode (f32_add a b) \<noteq> FNan"
  using assms
  by (cases "f32_decode a"; cases "f32_decode b")
    (auto simp: f32_add_def f32_finite_def f32_inf_def f32_pack_decode f32_round_decode Let_def)

lemma f32_add_nan: "f32_decode a = FNan \<or> f32_decode b = FNan \<Longrightarrow> f32_decode (f32_add a b) = FNan"
  by (auto simp: f32_add_def f32_nan_decode split: fval.splits)

lemma f32_neg_number: "f32_decode (f32_neg a) = FNan \<longleftrightarrow> f32_decode a = FNan" "f32_finite (f32_neg a) = f32_finite a"
  by (simp_all add: f32_finite_def f32_decode_neg flip_def split: fval.splits)

lemma f32_clamp_number: "f32_decode (f32_clamp v t) = FNan \<longleftrightarrow> f32_decode v = FNan"
  using f32_lt_nan(1)[of t v] f32_lt_nan(2)[of v t] f32_lt_nan(1)[of v "f32_neg t"] f32_lt_nan(2)[of "f32_neg t" v]
  by (auto simp: f32_clamp_def f32_neg_number)

lemma f32_clamp_within: "f32_limit t \<Longrightarrow> f32_decode v \<noteq> FNan \<Longrightarrow> within_limit (f32_clamp v t) t"
  unfolding within_limit_def f32_clamp_number by (simp add: f32_clamp_def f32_limit_neg)

lemma velocity_profile_number:
  assumes "f32_finite measured" and "f32_decode desired \<noteq> FNan" and "f32_limit t"
  shows "within_limit (velocity_profile desired measured w t) t"
proof -
  have m: "f32_decode measured \<noteq> FNan" using assms(1) by (auto simp: f32_finite_def)
  have "f32_decode (f32_sub desired measured) \<noteq> FNan"
    unfolding f32_sub_def using assms(1,2) m by (intro f32_add_number) (simp_all add: f32_neg_number)
  then have "f32_decode (f32_add measured (f32_clamp (f32_sub desired measured) w)) \<noteq> FNan"
    using assms(1) m by (intro f32_add_number) (simp_all add: f32_clamp_number)
  then show ?thesis unfolding velocity_profile_def by (rule f32_clamp_within[OF assms(3)])
qed

lemma velocity_profile_nan: "f32_decode desired = FNan \<Longrightarrow> f32_decode (velocity_profile desired measured w t) = FNan"
  by (simp add: velocity_profile_def f32_clamp_number f32_sub_def f32_add_nan)

section \<open>The drive\<close>

text \<open>What an update leaves in the status.\<close>

lemma driveUpdate_profile:
  assumes "Orazio_driveUpdate f = Inr f'"
  shows "\<exists>w. ds_translational_velocity_adjusted (drive_status f') = velocity_profile (dc_translational_velocity (drive_control f))
      (ds_translational_velocity_measured (drive_status f')) w (dp_max_translational_velocity (drive_params f))"
    and "\<exists>w. ds_rotational_velocity_adjusted (drive_status f') = velocity_profile (dc_rotational_velocity (drive_control f))
      (ds_rotational_velocity_measured (drive_status f')) w (dp_max_rotational_velocity (drive_params f))"
  using assms
  by (auto simp: Orazio_driveUpdate_def DifferentialDriveController_update_def Let_def split: if_splits prod.splits)

lemma driveUpdate_rest:
  assumes "Orazio_driveUpdate f = Inr f'"
    and "encoder_at f (dd_status_left (drive_controller f)) = dd_encoder_left_previous (drive_controller f)"
    and "encoder_at f (dd_status_right (drive_controller f)) = dd_encoder_right_previous (drive_controller f)"
  shows "ds_odom_x (drive_status f') = ds_odom_x (drive_status f)" and "ds_odom_y (drive_status f') = ds_odom_y (drive_status f)"
    and "ds_odom_theta (drive_status f') = ds_odom_theta (drive_status f)"
    and "ds_translational_velocity_measured (drive_status f') = 0" and "ds_rotational_velocity_measured (drive_status f') = 0"
  using assms
  by (auto simp: Orazio_driveUpdate_def DifferentialDriveController_update_def drive_odometry_def Let_def split: if_splits prod.splits)

text \<open>
  C19. Limits that are numbers and not negative hold for each of the two velocities that the drive requests from the wheels,
  when the commanded velocity is a number and the measured one is finite, whatever the acceleration limits are. A command
  that is not a number passes both clamps: the requested velocity is then not a number either. When neither encoder moved,
  the estimated position is unchanged and the measured velocities are zero.
\<close>

theorem drive_update_limits:
  assumes "fw_ready f"
    and "f32_limit (dp_max_translational_velocity (drive_params f))"
    and "f32_limit (dp_max_rotational_velocity (drive_params f))"
  shows "\<exists>f'. Orazio_driveUpdate f = Inr f'
    \<and> (f32_decode (dc_translational_velocity (drive_control f)) \<noteq> FNan
         \<and> f32_finite (ds_translational_velocity_measured (drive_status f')) \<longrightarrow>
       within_limit (ds_translational_velocity_adjusted (drive_status f')) (dp_max_translational_velocity (drive_params f)))
    \<and> (f32_decode (dc_rotational_velocity (drive_control f)) \<noteq> FNan
         \<and> f32_finite (ds_rotational_velocity_measured (drive_status f')) \<longrightarrow>
       within_limit (ds_rotational_velocity_adjusted (drive_status f')) (dp_max_rotational_velocity (drive_params f)))
    \<and> (f32_decode (dc_translational_velocity (drive_control f)) = FNan \<longrightarrow>
       f32_decode (ds_translational_velocity_adjusted (drive_status f')) = FNan)
    \<and> (f32_decode (dc_rotational_velocity (drive_control f)) = FNan \<longrightarrow>
       f32_decode (ds_rotational_velocity_adjusted (drive_status f')) = FNan)
    \<and> (encoder_at f (dd_status_left (drive_controller f)) = dd_encoder_left_previous (drive_controller f)
       \<and> encoder_at f (dd_status_right (drive_controller f)) = dd_encoder_right_previous (drive_controller f) \<longrightarrow>
       ds_odom_x (drive_status f') = ds_odom_x (drive_status f) \<and> ds_odom_y (drive_status f') = ds_odom_y (drive_status f)
       \<and> ds_odom_theta (drive_status f') = ds_odom_theta (drive_status f)
       \<and> ds_translational_velocity_measured (drive_status f') = 0 \<and> ds_rotational_velocity_measured (drive_status f') = 0)"
proof -
  obtain f' where f': "Orazio_driveUpdate f = Inr f'" using Orazio_driveUpdate_ready[OF assms(1)] by blast
  note rest = driveUpdate_rest[OF f']
  from driveUpdate_profile[OF f'] obtain a b where
    "ds_translational_velocity_adjusted (drive_status f') = velocity_profile (dc_translational_velocity (drive_control f))
      (ds_translational_velocity_measured (drive_status f')) a (dp_max_translational_velocity (drive_params f))"
    "ds_rotational_velocity_adjusted (drive_status f') = velocity_profile (dc_rotational_velocity (drive_control f))
      (ds_rotational_velocity_measured (drive_status f')) b (dp_max_rotational_velocity (drive_params f))"
    by blast
  then show ?thesis
    by (intro exI[of _ f'] conjI impI) (simp_all add: f' assms(2,3) velocity_profile_number velocity_profile_nan rest)
qed

theorem drive_update_limits_witness:
  "\<exists>f'. Orazio_driveUpdate started_fw = Inr f' \<and> within_limit (ds_translational_velocity_adjusted (drive_status f')) (f32_of_int 1)"
proof -
  have lim: "f32_limit (f32_of_int 1)" "f32_limit (f32_of_int 2)"
    by (simp_all add: f32_limit_def f32_lt_def f32_zero f32_decode_def f32_of_int_def f32_round_def ilog2.simps scaled_def
        f32_pack_def Let_def signed_mant_def)
  have "drive_controller started_fw = zero_drive_controller\<lparr>dd_set := True, dd_status_left := Some 1, dd_status_right := Some 0,
      dd_control_left := Some 1, dd_control_right := Some 0\<rparr>"
    by (simp add: started_fw_def UART_init_def UART_reset_def setBaud115200_def setBaud_def Let_def sample_fw_def
        set_reg_def or_reg_def sei_def cli_def clear_reg_def split: prod.splits)
  then have still: "encoder_at started_fw (dd_status_left (drive_controller started_fw)) = dd_encoder_left_previous (drive_controller started_fw)"
    "encoder_at started_fw (dd_status_right (drive_controller started_fw)) = dd_encoder_right_previous (drive_controller started_fw)"
    by (simp_all add: encoder_at_def started_fields init_joint_status_def zero_drive_controller_def)
  have "f32_finite 0" "f32_decode 0 \<noteq> FNan" by (simp_all add: f32_finite_def f32_zero)
  then show ?thesis using drive_update_limits[OF started_fw_ready] lim still by (auto simp: started_fields init_drive_params_def init_drive_control_def)
qed

end
