(* ===== verification/Client.thy ===== *)
theory Client
  imports PacketReceiver
begin

text \<open>
  \<open>src/orazio_lib/src/orazio_host/orazio_client.c\<close>: the host side of the protocol. The client is
  the second user of the packet handler: every packet is received into one buffer and copied
  to the variable of its type at once. The packets that \<open>struct OrazioClient\<close> contains are areas
  of the byte memory; a call that another thread would have to unblock ends in \<open>Diverges\<close>.
\<close>

section \<open>State\<close>

abbreviation (input) NUM_JOINTS_MAX :: nat where "NUM_JOINTS_MAX \<equiv> 4"

text \<open>The members of \<open>struct OrazioClient\<close> that the receiver writes.\<close>

definition cl_response :: addr where "cl_response = 0x100"
definition cl_message :: addr where "cl_message = cl_response + sizeof_ResponsePacket"
definition cl_end_epoch :: addr where "cl_end_epoch = cl_message + sizeof_StringMessagePacket"
definition cl_system_param :: addr where "cl_system_param = cl_end_epoch + sizeof_PacketHeader"
definition cl_system_status :: addr where "cl_system_status = cl_system_param + sizeof_SystemParamPacket"
definition cl_joint_param :: addr where "cl_joint_param = cl_system_status + sizeof_SystemStatusPacket"
definition cl_joint_status :: addr where "cl_joint_status = cl_joint_param + NUM_JOINTS_MAX * sizeof_JointParamPacket"
definition cl_drive_param :: addr where "cl_drive_param = cl_joint_status + NUM_JOINTS_MAX * sizeof_JointStatusPacket"
definition cl_drive_status :: addr where "cl_drive_status = cl_drive_param + sizeof_DifferentialDriveParamPacket"
definition cl_sonar_status :: addr where "cl_sonar_status = cl_drive_status + sizeof_DifferentialDriveStatusPacket"
definition cl_sonar_param :: addr where "cl_sonar_param = cl_sonar_status + sizeof_SonarStatusPacket"
definition cl_packet_buffer :: addr where "cl_packet_buffer = cl_sonar_param + sizeof_SonarParamPacket"

lemmas cl_areas = cl_response_def cl_message_def cl_end_epoch_def cl_system_param_def cl_system_status_def
  cl_joint_param_def cl_joint_status_def cl_drive_param_def cl_drive_status_def cl_sonar_status_def
  cl_sonar_param_def cl_packet_buffer_def

text \<open>
  The serial line as the program sees it: the results of the coming \<open>read\<close> calls (a failing call
  leaves the byte variable as it is, so its value belongs to the result) and, for the bytes
  written so far, whether the next \<open>write\<close> succeeds.
\<close>

datatype read_result = Data u8 | NoData | ReadError u8

record client = store +
  packet_handler :: PacketHandler
  cl_global_seq :: u16
  packet_sizes :: "u8 list"
  write_locked :: bool
  read_locked :: bool
  num_joints :: int
  drive_control_packet :: DifferentialDriveControlPacket
  cl_joint_control :: "JointControlPacket list"
  rx_bytes :: int
  tx_bytes :: int
  incoming :: "read_result list"
  written :: "u8 list"
  write_ok :: "u8 list \<Rightarrow> bool"

section \<open>Callbacks\<close>

text \<open>
  \<open>_copyToBuffer\<close> and \<open>_copyToIndexedBuffer\<close>: the length is the one in the packet. The index of
  an indexed packet selects the entry of an array of \<open>NUM_JOINTS_MAX\<close>; the code does not
  check it, and an index past the array is a write outside of it.
\<close>

definition client_copy :: "addr \<Rightarrow> addr \<Rightarrow> 'a store_scheme \<Rightarrow> 'a store_scheme" where
  "client_copy dest p s = s\<lparr>mem := write_mem (mem s) dest (read_mem (mem s) p (unat (mem s (p + 1))))\<rparr>"

definition packet_index :: "addr \<Rightarrow> 'a store_scheme \<Rightarrow> nat" where
  "packet_index p s = unat (pi_index (fst (get_PacketIndexed (read_mem (mem s) p sizeof_PacketIndexed))))"

definition client_on_rx :: "'a store_scheme rx_call" where
  "client_on_rx f p args s = (case f of
       Client_copyToBuffer \<Rightarrow> Inr (client_copy args p s)
     | Client_copyToIndexedBuffer \<Rightarrow>
         if NUM_JOINTS_MAX \<le> packet_index p s then Inl OutOfBounds
         else Inr (client_copy (args + unat (mem s (p + 1)) * packet_index p s) p s)
     | Deferred_onReceive \<Rightarrow> Inl NullDeref)"

text \<open>\<open>_initializeBuffer\<close>\<close>

definition client_gen :: "'a store_scheme gen_call" where
  "client_gen f type sz args s = (case f of Client_initializeBuffer \<Rightarrow> cl_packet_buffer | Deferred_initializeBuffer \<Rightarrow> NULL)"

text \<open>\<open>_installPacketOp\<close>; the operations of a type are allocated at an address of their own.\<close>

definition client_ops :: "u8 \<Rightarrow> addr" where
  "client_ops type = Suc (unat type)"

definition client_op :: "addr \<Rightarrow> u8 \<Rightarrow> u8 \<Rightarrow> bool \<Rightarrow> PacketOperations" where
  "client_op dest type sz indexed = \<lparr>op_type = type, op_size = sz,
     initialize_buffer_fn = Client_initializeBuffer, initialize_buffer_args = NULL,
     on_receive_fn = Some (if indexed then Client_copyToIndexedBuffer else Client_copyToBuffer),
     on_receive_args = dest\<rparr>"

text \<open>A type that cannot be installed ends the program (\<open>exit(0)\<close>): \<open>None\<close>.\<close>

definition installPacketOp :: "addr \<times> u8 \<times> nat \<times> bool \<Rightarrow> client \<Rightarrow> client option" where
  "installPacketOp = (\<lambda>(dest, type, sz, indexed) cl.
     let cl1 = cl\<lparr>ops_at := (ops_at cl)(client_ops type := client_op dest type (word_of_nat sz) indexed)\<rparr> in
     case PacketHandler_installPacket cl1 (client_ops type) (packet_handler cl1) of
       (st, h) \<Rightarrow> if st = Success then Some (cl1\<lparr>packet_handler := h\<rparr>) else None)"

definition client_table :: "(addr \<times> u8 \<times> nat \<times> bool) list" where
  "client_table =
     [(cl_response, RESPONSE_PACKET_ID, sizeof_ResponsePacket, False),
      (cl_message, MESSAGE_PACKET_ID, sizeof_StringMessagePacket, False),
      (cl_system_param, SYSTEM_PARAM_PACKET_ID, sizeof_SystemParamPacket, False),
      (cl_system_status, SYSTEM_STATUS_PACKET_ID, sizeof_SystemStatusPacket, False),
      (cl_joint_status, JOINT_STATUS_PACKET_ID, sizeof_JointStatusPacket, True),
      (cl_joint_param, JOINT_PARAM_PACKET_ID, sizeof_JointParamPacket, True),
      (cl_drive_param, DIFFERENTIAL_DRIVE_PARAM_PACKET_ID, sizeof_DifferentialDriveParamPacket, False),
      (cl_drive_status, DIFFERENTIAL_DRIVE_STATUS_PACKET_ID, sizeof_DifferentialDriveStatusPacket, False),
      (cl_end_epoch, END_EPOCH_PACKET_ID, sizeof_PacketHeader, False),
      (cl_sonar_status, SONAR_STATUS_PACKET_ID, sizeof_SonarStatusPacket, False),
      (cl_sonar_param, SONAR_PARAM_PACKET_ID, sizeof_SonarParamPacket, False)]"

fun install_ops :: "(addr \<times> u8 \<times> nat \<times> bool) list \<Rightarrow> client \<Rightarrow> client option" where
  "install_ops [] cl = Some cl"
| "install_ops (e # es) cl = (case installPacketOp e cl of None \<Rightarrow> None | Some cl1 \<Rightarrow> install_ops es cl1)"

section \<open>Bytes in and out\<close>

definition client_rxByte :: "u8 \<Rightarrow> client \<Rightarrow> (PacketStatus \<times> client) result" where
  "client_rxByte c cl =
     bindR (PacketHandler_rxByte client_gen client_on_rx c (packet_handler cl) cl)
       (\<lambda>(st, h, cl1). Inr (st, cl1\<lparr>packet_handler := h\<rparr>))"

text \<open>\<open>_readPacket\<close>: the loop ends with a complete packet; without more data it waits.\<close>

fun readPacket_from :: "read_result list \<Rightarrow> client \<Rightarrow> client result" where
  "readPacket_from [] cl = Inl Diverges"
| "readPacket_from (r # rs) cl0 =
     (let cl = cl0\<lparr>incoming := rs\<rparr>;
          got = (\<lambda>c n. bindR (client_rxByte c cl) (\<lambda>(st, cl1).
                  let cl2 = cl1\<lparr>rx_bytes := rx_bytes cl1 + n\<rparr> in
                  if st = SyncChecksum then Inr cl2 else readPacket_from rs cl2))
      in case r of Data c \<Rightarrow> got c 1 | ReadError c \<Rightarrow> got c (- 1) | NoData \<Rightarrow> readPacket_from rs cl)"

definition readPacket :: "client \<Rightarrow> client result" where
  "readPacket cl = readPacket_from (incoming cl) cl"

text \<open>\<open>_flushBuffer\<close>\<close>

definition write_byte :: "u8 \<Rightarrow> client \<Rightarrow> client" where
  "write_byte c cl =
     (if write_ok cl (written cl) then cl\<lparr>written := written cl @ [c], tx_bytes := tx_bytes cl + 1\<rparr>
      else cl\<lparr>tx_bytes := tx_bytes cl - 1\<rparr>)"

definition flush_step :: "client \<Rightarrow> client" where
  "flush_step cl = (case PacketHandler_txByte (packet_handler cl) of (c, h) \<Rightarrow> write_byte c (cl\<lparr>packet_handler := h\<rparr>))"

lemma write_byte_handler [simp]: "packet_handler (write_byte c cl) = packet_handler cl"
  by (simp add: write_byte_def)

lemma flush_step_size: "tx_size (packet_handler cl) \<noteq> 0 \<Longrightarrow> tx_size (packet_handler (flush_step cl)) = tx_size (packet_handler cl) - 1"
  by (auto simp: flush_step_def PacketHandler_txByte_def BUFFER_GET_def Let_def split: prod.splits)

function flushBuffer :: "client \<Rightarrow> client result" where
  "flushBuffer cl =
     (if tx_size (packet_handler cl) = 0 then Inr cl
      else if tx_size (packet_handler cl) < 0 then Inl Diverges
      else flushBuffer (flush_step cl))"
  by pat_completeness auto
termination
  by (relation "measure (\<lambda>cl. nat (tx_size (packet_handler cl)))") (use flush_step_size in auto)

declare flushBuffer.simps [simp del]

section \<open>Life cycle\<close>

definition host_joint_control :: JointControlPacket where
  "host_joint_control = \<lparr>
     jct_header = \<lparr>pi_header = \<lparr>h_type = JOINT_CONTROL_PACKET_ID, h_size = word_of_nat sizeof_JointControlPacket, h_seq = 0\<rparr>,
       pi_index = 0\<rparr>,
     jct_control = \<lparr>jc_speed = 0, jc_mode = JointDisabled\<rparr>\<rparr>"

definition host_drive_control :: DifferentialDriveControlPacket where
  "host_drive_control = \<lparr>
     dc_header = \<lparr>h_type = DIFFERENTIAL_DRIVE_CONTROL_PACKET_ID,
       h_size = word_of_nat sizeof_DifferentialDriveControlPacket, h_seq = 0\<rparr>,
     dc_translational_velocity = 0, dc_rotational_velocity = 0\<rparr>"

text \<open>One round of the loop that numbers the joint packets of the client.\<close>

definition number_joint :: "nat \<Rightarrow> client \<Rightarrow> client" where
  "number_joint i cl = cl\<lparr>
     mem := (mem cl)(cl_joint_param + i * sizeof_JointParamPacket + sizeof_PacketHeader := word_of_nat i,
                     cl_joint_status + i * sizeof_JointStatusPacket + sizeof_PacketHeader := word_of_nat i),
     cl_joint_control := (cl_joint_control cl)[i := host_joint_control\<lparr>
       jct_header := (jct_header host_joint_control)\<lparr>pi_index := word_of_nat i\<rparr>\<rparr>]\<rparr>"

text \<open>The table of outgoing sizes.\<close>

definition outgoing_sizes :: "u8 list" where
  "outgoing_sizes = fold (\<lambda>(t, n) xs. xs[unat (t :: u8) := word_of_nat n])
     [(PARAM_CONTROL_PACKET_ID, sizeof_ParamControlPacket), (SYSTEM_PARAM_PACKET_ID, sizeof_SystemParamPacket),
      (JOINT_PARAM_PACKET_ID, sizeof_JointParamPacket), (JOINT_CONTROL_PACKET_ID, sizeof_JointControlPacket),
      (DIFFERENTIAL_DRIVE_PARAM_PACKET_ID, sizeof_DifferentialDriveParamPacket),
      (DIFFERENTIAL_DRIVE_CONTROL_PACKET_ID, sizeof_DifferentialDriveControlPacket),
      (SONAR_PARAM_PACKET_ID, sizeof_SonarParamPacket)] (replicate PACKET_TYPE_MAX 0)"

text \<open>
  \<open>OrazioClient_init\<close>: \<open>fd\<close> and \<open>attribs\<close> are the results of the calls to the serial driver,
  \<open>cl0\<close> is the freshly allocated structure. \<open>Some None\<close> is the null pointer, \<open>None\<close> the end of
  the program in \<open>_installPacketOp\<close>. The loop over the joints runs \<open>num_joints\<close> times, which
  was just set to zero. The result code of \<open>response\<close> stays uninitialised.
\<close>

definition put_area :: "addr \<Rightarrow> u8 list \<Rightarrow> client \<Rightarrow> client" where
  "put_area a bs cl = cl\<lparr>mem := write_mem (mem cl) a bs\<rparr>"

definition OrazioClient_init :: "int \<Rightarrow> int \<Rightarrow> client \<Rightarrow> client option option" where
  "OrazioClient_init fd attribs cl0 =
     (if fd < 0 \<or> attribs < 0 \<or> fd = 0 then Some None
      else
        let cl = cl0\<lparr>cl_global_seq := 0, num_joints := 0, rx_bytes := 0, tx_bytes := 0,
                     drive_control_packet := host_drive_control\<rparr>;
            cl = fold number_joint [0..<nat (num_joints cl)] cl;
            cl = cl\<lparr>packet_handler := snd (PacketHandler_initialize (packet_handler cl))\<rparr>
        in case install_ops client_table cl of
             None \<Rightarrow> None
           | Some cl \<Rightarrow>
               let cl = put_area cl_end_epoch (put_PacketHeader \<lparr>h_type = END_EPOCH_PACKET_ID,
                          h_size = word_of_nat sizeof_PacketHeader, h_seq = 0\<rparr>) cl;
                   r = fst (get_ResponsePacket (read_mem (mem cl) cl_response sizeof_ResponsePacket));
                   cl = put_area cl_response (put_ResponsePacket (r\<lparr>rp_header := \<lparr>h_type = RESPONSE_PACKET_ID,
                          h_size = word_of_nat sizeof_ResponsePacket, h_seq = 0\<rparr>,
                          rp_p_seq := 0, rp_p_type := word_of_nat PACKET_TYPE_MAX\<rparr>)) cl
               in Some (Some (cl\<lparr>packet_sizes := outgoing_sizes, write_locked := False, read_locked := False\<rparr>)))"

definition OrazioClient_numJoints :: "client \<Rightarrow> u8" where
  "OrazioClient_numJoints cl = word_of_int (num_joints cl)"

section \<open>Sending\<close>

text \<open>
  \<open>_sendPacket\<close> on the bytes of the packet, into which the sequence number is stored. Types and
  sizes are checked against the table.
\<close>

definition client_send :: "u8 list \<Rightarrow> client \<Rightarrow> PacketStatus \<times> u8 list \<times> client" where
  "client_send pkt cl0 =
     (let cl = cl0\<lparr>cl_global_seq := cl_global_seq cl0 + 1\<rparr>; type = unat (pkt ! 0) in
      if PACKET_TYPE_MAX \<le> type then (UnknownType, pkt, cl)
      else
        let expected_size = packet_sizes cl ! type in
        if expected_size = 0 then (UnknownType, pkt, cl)
        else if pkt ! 1 \<noteq> expected_size then (InvalidSize, pkt, cl)
        else
          let pkt' = take 2 pkt @ put16 (cl_global_seq cl) @ drop 4 pkt in
          case PacketHandler_sendPacket pkt' (packet_handler cl) of
            (st, h) \<Rightarrow> (st, pkt', cl\<lparr>packet_handler := h\<rparr>))"

text \<open>Mutexes are not recursive: locking one that nobody will release never returns.\<close>

definition lock_write :: "client \<Rightarrow> client result" where
  "lock_write cl = (if write_locked cl then Inl Diverges else Inr (cl\<lparr>write_locked := True\<rparr>))"

definition lock_read :: "client \<Rightarrow> client result" where
  "lock_read cl = (if read_locked cl then Inl Diverges else Inr (cl\<lparr>read_locked := True\<rparr>))"

definition unlock_write :: "client \<Rightarrow> client" where
  "unlock_write cl = cl\<lparr>write_locked := False\<rparr>"

definition unlock_read :: "client \<Rightarrow> client" where
  "unlock_read cl = cl\<lparr>read_locked := False\<rparr>"

definition client_response :: "client \<Rightarrow> ResponsePacket" where
  "client_response cl = fst (get_ResponsePacket (read_mem (mem cl) cl_response sizeof_ResponsePacket))"

fun await_response :: "nat \<Rightarrow> u8 \<Rightarrow> u16 \<Rightarrow> client \<Rightarrow> (PacketStatus \<times> client) result" where
  "await_response 0 type seq cl = Inr (Timeout, cl)"
| "await_response (Suc timeout) type seq cl =
     bindR (readPacket cl) (\<lambda>cl.
       if rp_p_type (client_response cl) = type \<and> rp_p_seq (client_response cl) = seq then Inr (Success, cl)
       else await_response timeout type seq cl)"

definition OrazioClient_sendPacket :: "u8 list \<Rightarrow> int \<Rightarrow> client \<Rightarrow> (PacketStatus \<times> u8 list \<times> client) result" where
  "OrazioClient_sendPacket pkt timeout cl0 =
     bindR (lock_write cl0) (\<lambda>cl.
       if timeout = 0
       then (case client_send pkt cl of (st, pkt, cl) \<Rightarrow> Inr (st, pkt, unlock_write cl))
       else
         bindR (lock_read cl) (\<lambda>cl.
           case client_send pkt cl of (st, pkt, cl) \<Rightarrow>
             if st \<noteq> Success then Inr (st, pkt, unlock_write (unlock_read cl))
             else bindR (flushBuffer cl) (\<lambda>cl.
                    bindR (await_response (nat timeout) (pkt ! 0) (fst (get16 (drop 2 pkt))) cl) (\<lambda>(st, cl).
                      Inr (st, pkt, unlock_write (unlock_read cl))))))"

section \<open>Receiving an epoch\<close>

definition client_end_epoch :: "client \<Rightarrow> PacketHeader" where
  "client_end_epoch cl = fst (get_PacketHeader (read_mem (mem cl) cl_end_epoch sizeof_PacketHeader))"

lemma rxByte_incoming:
  assumes "client_rxByte c cl = Inr (st, cl')"
  shows "incoming cl' = incoming cl"
proof -
  have copy: "client_on_rx f p a (x :: client) = Inr s' \<Longrightarrow> incoming s' = incoming x" for f p a x s'
    by (auto simp: client_on_rx_def client_copy_def split: PacketFn.splits if_splits)
  show ?thesis
    using assms copy
    by (auto simp: client_rxByte_def PacketHandler_rxByte_def rxSize_step_def rxPayload_step_def rxChecksum_step_def
        Let_def bindR_Inr_iff split: RxFn.splits prod.splits if_splits option.splits)
qed

lemma readPacket_from_consumes:
  "readPacket_from rs cl = Inr cl' \<Longrightarrow> length (incoming cl') < length rs"
proof (induction rs arbitrary: cl)
  case (Cons r rs)
  have got: "length (incoming cl') < Suc (length rs)"
    if "bindR (client_rxByte c (cl\<lparr>incoming := rs\<rparr>)) (\<lambda>(st, cl1). if st = SyncChecksum then Inr (cl1\<lparr>rx_bytes := rx_bytes cl1 + n\<rparr>)
        else readPacket_from rs (cl1\<lparr>rx_bytes := rx_bytes cl1 + n\<rparr>)) = Inr cl'" for c n
    using that Cons.IH
    by (auto simp: bindR_Inr_iff less_Suc_eq dest!: rxByte_incoming split: if_splits)
  show ?case
    using Cons.prems got Cons.IH
    by (auto simp: Let_def less_Suc_eq split: read_result.splits)
qed simp

lemma readPacket_consumes: "readPacket cl = Inr cl' \<Longrightarrow> length (incoming cl') < length (incoming cl)"
  unfolding readPacket_def by (rule readPacket_from_consumes)

function read_epoch :: "u16 \<Rightarrow> client \<Rightarrow> client result" where
  "read_epoch current_seq cl =
     (case lock_read cl of
        Inl e \<Rightarrow> Inl e
      | Inr cl1 \<Rightarrow>
          (case readPacket cl1 of
             Inl e \<Rightarrow> Inl e
           | Inr cl2 \<Rightarrow>
               let cl3 = unlock_read cl2 in
               if h_seq (client_end_epoch cl3) = current_seq then read_epoch current_seq cl3 else Inr cl3))"
  by pat_completeness auto
termination
proof (relation "measure (\<lambda>(q, cl). length (incoming cl))", simp, goal_cases)
  case (1 current_seq cl cl1 cl2 cl3)
  then have "length (incoming cl2) < length (incoming cl1)" using readPacket_consumes by blast
  then show ?case using 1 by (auto simp: lock_read_def unlock_read_def split: if_splits)
qed

declare read_epoch.simps [simp del]

definition sync_once :: "client \<Rightarrow> client result" where
  "sync_once cl =
     bindR (lock_write cl) (\<lambda>cl.
     bindR (flushBuffer cl) (\<lambda>cl.
       let cl = (if h_seq (dc_header (drive_control_packet cl)) \<noteq> 0
                 then case client_send (put_DifferentialDriveControlPacket (drive_control_packet cl)) cl of
                        (st, pkt, cl) \<Rightarrow> cl\<lparr>drive_control_packet := fst (get_DifferentialDriveControlPacket pkt)\<rparr>
                 else cl);
           cl = unlock_write cl
       in read_epoch (h_seq (client_end_epoch cl)) cl))"

fun OrazioClient_sync :: "nat \<Rightarrow> client \<Rightarrow> (PacketStatus \<times> client) result" where
  "OrazioClient_sync 0 cl = Inr (Success, cl)"
| "OrazioClient_sync (Suc cycles) cl = bindR (sync_once cl) (OrazioClient_sync cycles)"

section \<open>Configuration\<close>

text \<open>\<open>OrazioClient_readConfiguration\<close> returns a status or ends the program.\<close>

datatype config_result = Returned PacketStatus | Exited

definition client_system_param :: "client \<Rightarrow> SystemParamPacket" where
  "client_system_param cl = fst (get_SystemParamPacket (read_mem (mem cl) cl_system_param sizeof_SystemParamPacket))"

definition config_query :: ParamControlPacket where
  "config_query = \<lparr>
     pc_header = \<lparr>h_type = PARAM_CONTROL_PACKET_ID, h_size = word_of_nat sizeof_ParamControlPacket, h_seq = 0\<rparr>,
     pc_action = ParamRequest, pc_param_type = ParamSystem, pc_index = - 1\<rparr>"

definition send_query :: "int \<Rightarrow> ParamControlPacket \<times> client \<Rightarrow> (PacketStatus \<times> ParamControlPacket \<times> client) result" where
  "send_query timeout = (\<lambda>(q, cl).
     bindR (OrazioClient_sendPacket (put_ParamControlPacket q) timeout cl)
       (\<lambda>(st, pkt, cl). Inr (st, fst (get_ParamControlPacket pkt), cl)))"

text \<open>A query after which the function goes on only with \<open>Success\<close>.\<close>

definition query_then ::
  "int \<Rightarrow> ParamControlPacket \<times> client \<Rightarrow>
     (ParamControlPacket \<times> client \<Rightarrow> (config_result \<times> client) result) \<Rightarrow> (config_result \<times> client) result" where
  "query_then timeout qcl rest =
     bindR (send_query timeout qcl) (\<lambda>(st, q, cl). if st \<noteq> Success then Inr (Returned st, cl) else rest (q, cl))"

fun query_joints ::
  "int \<Rightarrow> nat list \<Rightarrow> (ParamControlPacket \<times> client \<Rightarrow> (config_result \<times> client) result) \<Rightarrow>
     ParamControlPacket \<times> client \<Rightarrow> (config_result \<times> client) result" where
  "query_joints timeout [] rest qcl = rest qcl"
| "query_joints timeout (i # is) rest (q, cl) =
     query_then timeout (q\<lparr>pc_param_type := ParamJointsSingle, pc_index := word_of_nat i\<rparr>, cl)
       (query_joints timeout is rest)"

definition OrazioClient_readConfiguration :: "int \<Rightarrow> client \<Rightarrow> (config_result \<times> client) result" where
  "OrazioClient_readConfiguration timeout cl0 =
     query_then timeout (config_query, cl0) (\<lambda>(q, cl).
       let cl = cl\<lparr>num_joints := uint (sp_num_joints (client_system_param cl))\<rparr> in
       if sp_protocol_version (client_system_param cl) \<noteq> ORAZIO_PROTOCOL_VERSION then Inr (Exited, cl)
       else if int NUM_JOINTS_MAX < num_joints cl then Inr (Exited, cl)
       else query_joints timeout [0..<nat (num_joints cl)] (\<lambda>(q, cl).
         query_then timeout (q\<lparr>pc_index := - 1, pc_param_type := ParamDrive\<rparr>, cl) (\<lambda>(q, cl).
           query_then timeout (q\<lparr>pc_param_type := ParamSonar\<rparr>, cl) (\<lambda>(q, cl). Inr (Returned Success, cl))))
         (q, cl))"

section \<open>Access to the variables\<close>

text \<open>
  \<open>OrazioClient_get\<close> on the bytes of the destination: its type selects the variable, its index
  the entry of an array. The early return for a bad index leaves \<open>read_mutex\<close> locked.
\<close>

definition OrazioClient_get :: "u8 list \<Rightarrow> client \<Rightarrow> (PacketStatus \<times> u8 list \<times> client) result" where
  "OrazioClient_get dest cl =
     (let type = unat (dest ! 0) in
      if PACKET_TYPE_MAX \<le> type then Inr (PacketTypeOutOfBounds, dest, cl)
      else
        let a = operations (packet_handler cl) ! type; ops = ops_at cl a in
        if a = NULL then Inr (UnknownType, dest, cl)
        else if op_type ops \<noteq> dest ! 0 then Inl AssertFailed
        else
          bindR (lock_read cl) (\<lambda>cl.
            let n = unat (op_size ops);
                copy = (\<lambda>src. Inr (Success, read_mem (mem cl) src n @ drop n dest, unlock_read cl)) in
            if on_receive_fn ops = Some Client_copyToBuffer then copy (on_receive_args ops)
            else
              let index = int (unat (pi_index (fst (get_PacketIndexed dest)))) in
              if index < 0 \<or> num_joints cl \<le> index then Inr (GenericError, dest, cl)
              else copy (on_receive_args ops + nat index * n)))"

definition OrazioClient_setBaseVelocity :: "f32 \<Rightarrow> f32 \<Rightarrow> client \<Rightarrow> client result" where
  "OrazioClient_setBaseVelocity tv rv cl0 =
     bindR (lock_write cl0) (\<lambda>cl.
       let p = drive_control_packet cl;
           p = p\<lparr>dc_header := (dc_header p)\<lparr>h_seq := 1\<rparr>, dc_translational_velocity := tv, dc_rotational_velocity := rv\<rparr>
       in Inr (unlock_write (cl\<lparr>drive_control_packet := p\<rparr>)))"

definition client_drive_status :: "client \<Rightarrow> DifferentialDriveStatusPacket" where
  "client_drive_status cl =
     fst (get_DifferentialDriveStatusPacket (read_mem (mem cl) cl_drive_status sizeof_DifferentialDriveStatusPacket))"

definition OrazioClient_getOdometryPosition :: "client \<Rightarrow> ((f32 \<times> f32 \<times> f32) \<times> client) result" where
  "OrazioClient_getOdometryPosition cl0 =
     bindR (lock_read cl0) (\<lambda>cl.
       let st = client_drive_status cl in
       Inr ((ds_odom_x st, ds_odom_y st, ds_odom_theta st), unlock_read cl))"

end
