(* ===== verification/ClientInv.thy ===== *)
theory ClientInv
  imports Client PacketFraming
begin

text \<open>
  The client satisfies the contract of the packet handler's users (the locale
  \<open>packet_client\<close>); receiving a frame stores its packet in the variable of its type and
  nowhere else.
\<close>

section \<open>The contract\<close>

definition client_ops_ok :: "'a store_scheme \<Rightarrow> bool" where
  "client_ops_ok s \<longleftrightarrow> (\<forall>(dest, type, sz, indexed) \<in> set client_table.
     ops_at s (client_ops type) = client_op dest type (word_of_nat sz) indexed)"

definition client_valid :: "'a store_scheme \<Rightarrow> addr \<Rightarrow> bool" where
  "client_valid s a \<longleftrightarrow> (\<exists>(dest, type, sz, indexed) \<in> set client_table.
     a = client_ops type \<and> ops_at s a = client_op dest type (word_of_nat sz) indexed)"

definition client_owns :: "'a store_scheme \<Rightarrow> addr \<Rightarrow> addr \<Rightarrow> bool" where
  "client_owns s a b \<longleftrightarrow> b = cl_packet_buffer"

lemma client_table_sizes:
  "(dest, type, sz, indexed) \<in> set client_table \<Longrightarrow> 4 \<le> sz \<and> sz < 128 \<and> unat type < PACKET_TYPE_MAX"
  by (auto simp: client_table_def sizeof_defs)

lemma client_copy_fields [simp]: "ops_at (client_copy d p s) = ops_at s" "store.more (client_copy d p s) = store.more s"
  by (simp_all add: client_copy_def)

lemma client_on_rx_ops:
  assumes "client_on_rx f p args s = Inr s'"
  shows "ops_at s' = ops_at s" and "store.more s' = store.more s"
  using assms by (auto simp: client_on_rx_def split: PacketFn.splits if_splits)

interpretation clientrx: packet_client client_gen client_on_rx client_ops_ok client_valid client_owns
proof unfold_locales
  fix s s' :: "'a store_scheme" and a b a' :: addr and args f m c x op
  show "client_valid s a \<Longrightarrow> op_sane (ops_at s a)"
  proof -
    assume "client_valid s a"
    then obtain dest type sz indexed where e: "(dest, type, sz, indexed) \<in> set client_table"
      "ops_at s a = client_op dest type (word_of_nat sz) indexed"
      by (auto simp: client_valid_def)
    have "unat (word_of_nat sz :: u8) = sz" using client_table_sizes[OF e(1)] by (simp add: unat_of_nat)
    then have "3 \<le> unat (word_of_nat sz :: u8)" "(word_of_nat sz :: u8) \<noteq> PACKET_SIZE_ANY"
      using client_table_sizes[OF e(1)] by (simp, auto dest: arg_cong[where f = unat])
    then show ?thesis by (simp add: e(2) op_sane_def client_op_def)
  qed
  show "client_ops_ok s \<Longrightarrow> client_valid s a \<Longrightarrow> op = ops_at s a \<Longrightarrow>
      client_gen (initialize_buffer_fn op) (op_type op) (op_size op) (initialize_buffer_args op) s = b \<Longrightarrow>
      b \<noteq> NULL \<Longrightarrow> client_owns s a b"
    by (auto simp: client_valid_def client_gen_def client_op_def client_owns_def)
  show "client_ops_ok s \<Longrightarrow> client_valid s a \<Longrightarrow> client_owns s a b \<Longrightarrow> in_buffer s a b x \<Longrightarrow>
      client_ops_ok (s\<lparr>mem := (mem s)(x := c)\<rparr>)"
    by (simp add: client_ops_ok_def)
  show "client_owns s a b \<Longrightarrow> client_owns (s\<lparr>mem := m\<rparr>) a b" by (simp add: client_owns_def)
  show "client_valid s a \<Longrightarrow> client_valid (s\<lparr>mem := m\<rparr>) a" by (simp add: client_valid_def)
  show "client_ops_ok s \<Longrightarrow> client_on_rx f b (on_receive_args (ops_at s a)) s = Inr s' \<Longrightarrow> client_ops_ok s'"
    using client_on_rx_ops(1)[of f b "on_receive_args (ops_at s a)" s s'] by (simp add: client_ops_ok_def)
  show "client_on_rx f b args s = Inr s' \<Longrightarrow> ops_at s' = ops_at s" by (rule client_on_rx_ops)
  show "client_on_rx f b args s = Inr s' \<Longrightarrow> client_valid s a' \<Longrightarrow> client_valid s' a'"
    using client_on_rx_ops(1)[of f b args s s'] by (simp add: client_valid_def)
qed

section \<open>The receiver sees only the memory and the operations\<close>

definition core :: "'a store_scheme \<Rightarrow> store" where
  "core s = \<lparr>mem = mem s, ops_at = ops_at s\<rparr>"

lemma core_simps [simp]: "mem (core s) = mem s" "ops_at (core s) = ops_at s"
  by (simp_all add: core_def)

lemma client_on_rx_core:
  "client_on_rx f p args s = bindR (client_on_rx f p args (core s)) (\<lambda>t. Inr (s\<lparr>mem := mem t\<rparr>))"
  by (simp add: client_on_rx_def packet_index_def client_copy_def split: PacketFn.splits)

lemma rxByte_core:
  "PacketHandler_rxByte client_gen client_on_rx c h s =
     bindR (PacketHandler_rxByte client_gen client_on_rx c h (core s)) (\<lambda>(st, h', t). Inr (st, h', s\<lparr>mem := mem t\<rparr>))"
proof -
  have on: "(case on_receive_fn op of None \<Rightarrow> Inr (SyncChecksum, h1, s)
      | Some f \<Rightarrow> bindR (client_on_rx f p args s) (\<lambda>s1. Inr (SyncChecksum, h1, s1)))
    = bindR (case on_receive_fn op of None \<Rightarrow> Inr (SyncChecksum, h1, core s)
      | Some f \<Rightarrow> bindR (client_on_rx f p args (core s)) (\<lambda>s1. Inr (SyncChecksum, h1, s1)))
      (\<lambda>(st, h', t). Inr (st, h', s\<lparr>mem := mem t\<rparr>))" for op h1 p args
    by (cases "on_receive_fn op") (simp_all add: client_on_rx_core[of _ _ _ s] bindR_bindR)
  show ?thesis
    by (cases "rxFn h")
      (simp_all add: PacketHandler_rxByte_def rxSize_step_def rxPayload_step_def rxChecksum_step_def Let_def on
        client_gen_def split: prod.splits)
qed

text \<open>A run of the receiver that ends with its only complete packet is one \<open>_readPacket\<close>.\<close>

definition after_run :: "PacketHandler \<Rightarrow> memory \<Rightarrow> read_result list \<Rightarrow> nat \<Rightarrow> client \<Rightarrow> client" where
  "after_run h m rs n cl = cl\<lparr>incoming := rs, mem := m, packet_handler := h, rx_bytes := rx_bytes cl + int n\<rparr>"

lemma readPacket_run:
  assumes "rx_run client_gen client_on_rx bs (packet_handler cl) (core cl) = Inr (sts @ [SyncChecksum], h', t)"
    and "SyncChecksum \<notin> set sts"
  shows "readPacket_from (map Data bs @ rs) cl = Inr (after_run h' (mem t) rs (length bs) cl)"
  using assms
proof (induction bs arbitrary: cl sts)
  case Nil
  then show ?case by simp
next
  case (Cons b bs)
  obtain st h1 t1 sts1 h2 t2 where byte: "PacketHandler_rxByte client_gen client_on_rx b (packet_handler cl) (core cl) = Inr (st, h1, t1)"
    and run: "rx_run client_gen client_on_rx bs h1 t1 = Inr (sts1, h2, t2)"
    and eq: "sts @ [SyncChecksum] = st # sts1" "h' = h2" "t = t2"
    using Cons.prems(1) by (auto simp: bindR_Inr_iff)
  let ?cl = "cl\<lparr>incoming := map Data bs @ rs, mem := mem t1, packet_handler := h1, rx_bytes := rx_bytes cl + 1\<rparr>"
  have core_in: "core (cl\<lparr>incoming := map Data bs @ rs\<rparr>) = core cl" by (simp add: core_def)
  have rx: "client_rxByte b (cl\<lparr>incoming := map Data bs @ rs\<rparr>)
      = Inr (st, cl\<lparr>incoming := map Data bs @ rs, mem := mem t1, packet_handler := h1\<rparr>)"
    unfolding client_rxByte_def using rxByte_core[of b "packet_handler cl" "cl\<lparr>incoming := map Data bs @ rs\<rparr>"] byte
    by (simp add: core_in)
  have ops: "ops_at t1 = ops_at cl"
    using byte
    by (auto dest!: client_on_rx_ops(1) simp: PacketHandler_rxByte_def rxSize_step_def rxPayload_step_def rxChecksum_step_def Let_def bindR_Inr_iff
        split: RxFn.splits prod.splits if_splits option.splits)
  have core1: "core ?cl = t1" using ops by (cases t1) (simp add: core_def)
  show ?case
  proof (cases "sts1 = []")
    case True
    then have "bs = []" using run by (cases bs) (auto simp: bindR_Inr_iff)
    then show ?thesis
      using True eq run rx by (simp add: after_run_def)
  next
    case False
    then obtain sts2 where sts: "sts1 = sts2 @ [SyncChecksum]" "sts = st # sts2"
      using eq(1) by (cases sts) auto
    have "readPacket_from (map Data bs @ rs) ?cl = Inr (after_run h' (mem t) rs (length bs) ?cl)"
      by (rule Cons.IH[of ?cl sts2]) (use run sts eq Cons.prems(2) core1 in auto)
    moreover have "st \<noteq> SyncChecksum" using Cons.prems(2) sts(2) by auto
    ultimately show ?thesis using rx by (simp add: after_run_def Let_def add.assoc)
  qed
qed

section \<open>Receiving a frame\<close>

definition client_target :: "addr \<times> u8 \<times> nat \<times> bool \<Rightarrow> u8 list \<Rightarrow> addr" where
  "client_target = (\<lambda>(dest, type, sz, indexed) pkt.
     if indexed then dest + sz * unat (pkt ! sizeof_PacketHeader) else dest)"

text \<open>A packet the client accepts: type and size of an entry, index inside the array.\<close>

definition acceptable :: "addr \<times> u8 \<times> nat \<times> bool \<Rightarrow> u8 list \<Rightarrow> bool" where
  "acceptable = (\<lambda>(dest, type, sz, indexed) pkt. length pkt = sz \<and> pkt ! 0 = type \<and> pkt ! 1 = word_of_nat sz
     \<and> (indexed \<longrightarrow> unat (pkt ! sizeof_PacketHeader) < NUM_JOINTS_MAX))"

definition client_idle :: "client \<Rightarrow> bool" where
  "client_idle cl \<longleftrightarrow> client_ops_ok cl \<and> rxFn (packet_handler cl) = rxAA \<and> length (operations (packet_handler cl)) = PACKET_TYPE_MAX
     \<and> (\<forall>(dest, type, sz, indexed) \<in> set client_table. operations (packet_handler cl) ! unat type = client_ops type)"

definition deliver :: "addr \<times> u8 \<times> nat \<times> bool \<Rightarrow> u8 list \<Rightarrow> memory \<Rightarrow> memory" where
  "deliver e pkt m = write_mem (write_mem m cl_packet_buffer pkt) (client_target e pkt) pkt"

lemma packet_index_read:
  assumes "read_mem (mem s) p n = pkt" and "sizeof_PacketIndexed \<le> n"
  shows "packet_index p s = unat (pkt ! sizeof_PacketHeader)"
proof -
  have "read_mem (mem s) p sizeof_PacketIndexed = map (\<lambda>i. mem s (p + i)) [0, 1, 2, 3, 4]"
    by (simp add: read_mem_def sizeof_PacketIndexed_def upt_rec eval_nat_numeral)
  moreover have "pkt ! 4 = mem s (p + 4)" using assms by (auto simp: sizeof_PacketIndexed_def)
  ultimately show ?thesis
    by (simp add: packet_index_def get_PacketIndexed_def get_PacketHeader_def get8_def get16_def sizeof_PacketHeader_def
        split: prod.splits)
qed

lemma client_on_rx_packet:
  assumes e: "(dest, type, sz, indexed) \<in> set client_table" and acc: "acceptable (dest, type, sz, indexed) pkt"
    and at_p: "read_mem (mem s) p sz = pkt"
  shows "client_on_rx (if indexed then Client_copyToIndexedBuffer else Client_copyToBuffer) p dest s
    = Inr (s\<lparr>mem := write_mem (mem s) (client_target (dest, type, sz, indexed) pkt) pkt\<rparr>)"
proof -
  note size = client_table_sizes[OF e]
  have "mem s (p + 1) = word_of_nat sz" using at_p acc size by (auto simp: acceptable_def)
  then have n: "unat (mem s (p + 1)) = sz" using size by (simp add: unat_of_nat)
  show ?thesis
  proof (cases indexed)
    case True
    then have "5 \<le> sz" using e by (auto simp: client_table_def sizeof_defs)
    then have "packet_index p s = unat (pkt ! sizeof_PacketHeader)"
      using packet_index_read[OF at_p] by (simp add: sizeof_PacketIndexed_def)
    then show ?thesis
      using True acc n at_p by (simp add: client_on_rx_def client_copy_def client_target_def acceptable_def)
  next
    case False
    then show ?thesis using n at_p by (simp add: client_on_rx_def client_copy_def client_target_def)
  qed
qed

lemma frame_statuses_no_checksum: "SyncChecksum \<notin> set (frame_statuses n)"
  by (auto simp: frame_statuses_def)

lemma client_frame:
  assumes idle: "client_idle cl" and e: "e \<in> set client_table" and acc: "acceptable e pkt"
  shows "\<exists>h. readPacket_from (map Data (frame pkt) @ rs) cl = Inr (after_run h (deliver e pkt (mem cl)) rs (length pkt + 3) cl)
    \<and> rxFn h = rxAA \<and> operations h = operations (packet_handler cl) \<and> tx_ok h = tx_ok (packet_handler cl)
    \<and> tx_items h = tx_items (packet_handler cl)"
proof -
  obtain dest type sz indexed where e_eq: "e = (dest, type, sz, indexed)" by (cases e)
  note size = client_table_sizes[OF e[unfolded e_eq]]
  let ?h = "packet_handler cl" and ?a = "client_ops type" and ?b = cl_packet_buffer
  let ?h' = "rx_idle pkt ?a ?b ?h"
  have pkt: "length pkt = sz" "pkt ! 0 = type" "pkt ! 1 = word_of_nat sz"
    using acc by (simp_all add: acceptable_def e_eq)
  have ops: "ops_at (core cl) ?a = client_op dest type (word_of_nat sz) indexed"
    using idle e by (auto simp: client_idle_def client_ops_ok_def e_eq)
  have wf: "wf_packet pkt (ops_at (core cl) ?a)"
    unfolding wf_packet_def ops using pkt size by (simp add: client_op_def unat_of_nat)
  have entry: "operations ?h ! unat (pkt ! 0) = ?a" using idle e pkt(2) by (auto simp: client_idle_def e_eq)
  have b0: "?b \<noteq> NULL" by (simp add: cl_areas)
  have gen: "client_gen (initialize_buffer_fn (ops_at (core cl) ?a)) (pkt ! 0) (pkt ! 1)
      (initialize_buffer_args (ops_at (core cl) ?a)) (core cl) = ?b"
    unfolding ops by (simp add: client_op_def client_gen_def)
  have "\<exists>sts. rx_run client_gen client_on_rx (frame pkt) ?h (core cl)
      = Inr (sts @ [SyncChecksum], ?h', (core cl)\<lparr>mem := deliver e pkt (mem cl)\<rparr>) \<and> SyncChecksum \<notin> set sts"
  proof (intro exI conjI)
    have "read_mem (mem ((core cl)\<lparr>mem := write_mem (mem (core cl)) ?b pkt\<rparr>)) ?b sz = pkt" by (simp add: pkt(1))
    from client_on_rx_packet[OF e[unfolded e_eq] acc[unfolded e_eq] this]
    have "client_on_rx (if indexed then Client_copyToIndexedBuffer else Client_copyToBuffer) ?b dest
        ((core cl)\<lparr>mem := write_mem (mem (core cl)) ?b pkt\<rparr>) = Inr ((core cl)\<lparr>mem := deliver e pkt (mem cl)\<rparr>)"
      by (simp add: deliver_def e_eq)
    then show "rx_run client_gen client_on_rx (frame pkt) ?h (core cl)
        = Inr (frame_statuses (length pkt) @ [SyncChecksum], ?h', (core cl)\<lparr>mem := deliver e pkt (mem cl)\<rparr>)"
      using rx_frame_run[where gen = client_gen and on_rx = client_on_rx and c = "checksum pkt", OF _ _ entry _ wf gen b0, unfolded ops] idle size pkt(2)
      by (simp add: frame_def client_idle_def client_op_def client_ops_def)
  qed (rule frame_statuses_no_checksum)
  then obtain sts where run: "rx_run client_gen client_on_rx (frame pkt) ?h (core cl)
      = Inr (sts @ [SyncChecksum], ?h', (core cl)\<lparr>mem := deliver e pkt (mem cl)\<rparr>)" "SyncChecksum \<notin> set sts"
    by blast
  have "readPacket_from (map Data (frame pkt) @ rs) cl = Inr (after_run ?h' (deliver e pkt (mem cl)) rs (length pkt + 3) cl)"
    using readPacket_run[OF run] by simp
  moreover have "rxFn ?h' = rxAA" "operations ?h' = operations ?h" "tx_ok ?h' = tx_ok ?h" "tx_items ?h' = tx_items ?h"
    by (simp_all add: rx_idle_def tx_ok_def tx_items_def)
  ultimately show ?thesis by blast
qed

end
