(* ===== verification/ClientEpoch.thy ===== *)
theory ClientEpoch
  imports ClientInv
begin

text \<open>
  Receiving whole epochs: the variables of the client are disjoint areas of memory, so that
  after a run of frames each of them holds the last packet received for it.
\<close>

section \<open>The variables do not overlap\<close>

definition client_area :: "addr \<times> u8 \<times> nat \<times> bool \<Rightarrow> addr \<times> nat" where
  "client_area = (\<lambda>(dest, type, sz, indexed). (dest, if indexed then NUM_JOINTS_MAX * sz else sz))"

definition apart :: "addr \<times> nat \<Rightarrow> addr \<times> nat \<Rightarrow> bool" where
  "apart r q \<longleftrightarrow> fst r + snd r \<le> fst q \<or> fst q + snd q \<le> fst r"

lemma client_areas_apart:
  "e \<in> set client_table \<Longrightarrow> e' \<in> set client_table \<Longrightarrow> e \<noteq> e' \<Longrightarrow> apart (client_area e) (client_area e')"
proof -
  have all: "\<forall>e \<in> set client_table. \<forall>e' \<in> set client_table. e \<noteq> e' \<longrightarrow> apart (client_area e) (client_area e')"
    by (simp add: client_table_def client_area_def apart_def cl_areas sizeof_defs)
  show "e \<in> set client_table \<Longrightarrow> e' \<in> set client_table \<Longrightarrow> e \<noteq> e' \<Longrightarrow> apart (client_area e) (client_area e')"
    using all by blast
qed

lemma client_area_buffer: "e \<in> set client_table \<Longrightarrow> fst (client_area e) + snd (client_area e) \<le> cl_packet_buffer"
  by (auto simp: client_table_def client_area_def cl_areas sizeof_defs)

lemma client_target_inside:
  assumes "acceptable e pkt"
  shows "fst (client_area e) \<le> client_target e pkt"
    and "client_target e pkt + length pkt \<le> fst (client_area e) + snd (client_area e)"
proof -
  obtain dest type sz indexed where e: "e = (dest, type, sz, indexed)" by (cases e)
  let ?i = "unat (pkt ! sizeof_PacketHeader)"
  have len: "length pkt = sz" "indexed \<longrightarrow> ?i < 4" using assms by (simp_all add: acceptable_def e)
  show "fst (client_area e) \<le> client_target e pkt" by (simp add: client_area_def client_target_def e)
  have "indexed \<longrightarrow> sz * Suc ?i \<le> sz * 4" using len(2) by (intro impI mult_le_mono2) simp
  then show "client_target e pkt + length pkt \<le> fst (client_area e) + snd (client_area e)"
    using len(1) by (auto simp: client_area_def client_target_def e)
qed

text \<open>A delivery changes its own variable only.\<close>

lemma deliver_own:
  assumes "e \<in> set client_table" and "acceptable e pkt"
  shows "read_mem (deliver e pkt m) (client_target e pkt) (length pkt) = pkt"
  by (simp add: deliver_def)

lemma deliver_apart:
  assumes "e \<in> set client_table" and "acceptable e pkt" and "a + n \<le> cl_packet_buffer"
    and "a + n \<le> client_target e pkt \<or> client_target e pkt + length pkt \<le> a"
  shows "read_mem (deliver e pkt m) a n = read_mem m a n"
  using assms(3,4) by (simp add: deliver_def read_write_mem_disjoint)

lemma deliver_other:
  assumes "e \<in> set client_table" and "acceptable e pkt" and "e' \<in> set client_table" and "e' \<noteq> e"
    and "fst (client_area e') \<le> a" and "a + n \<le> fst (client_area e') + snd (client_area e')"
  shows "read_mem (deliver e pkt m) a n = read_mem m a n"
proof (rule deliver_apart[OF assms(1,2)])
  show "a + n \<le> cl_packet_buffer" using assms(6) client_area_buffer[OF assms(3)] by simp
  show "a + n \<le> client_target e pkt \<or> client_target e pkt + length pkt \<le> a"
    using client_areas_apart[OF assms(3,1,4)] client_target_inside[OF assms(2)] assms(5,6) by (auto simp: apart_def)
qed

section \<open>A run of frames\<close>

definition deliver_all :: "((addr \<times> u8 \<times> nat \<times> bool) \<times> u8 list) list \<Rightarrow> memory \<Rightarrow> memory" where
  "deliver_all = fold (\<lambda>(e, pkt). deliver e pkt)"

definition end_entry :: "addr \<times> u8 \<times> nat \<times> bool" where
  "end_entry = (cl_end_epoch, END_EPOCH_PACKET_ID, sizeof_PacketHeader, False)"

definition packet_seq :: "u8 list \<Rightarrow> u16" where
  "packet_seq pkt = h_seq (fst (get_PacketHeader pkt))"

text \<open>What receiving leaves alone.\<close>

definition same_link :: "client \<Rightarrow> client \<Rightarrow> bool" where
  "same_link cl cl' \<longleftrightarrow> ops_at cl' = ops_at cl \<and> operations (packet_handler cl') = operations (packet_handler cl)
     \<and> tx_items (packet_handler cl') = tx_items (packet_handler cl) \<and> tx_ok (packet_handler cl') = tx_ok (packet_handler cl)
     \<and> num_joints cl' = num_joints cl \<and> write_locked cl' = write_locked cl \<and> read_locked cl' = read_locked cl
     \<and> written cl' = written cl \<and> cl_global_seq cl' = cl_global_seq cl
     \<and> packet_sizes cl' = packet_sizes cl \<and> drive_control_packet cl' = drive_control_packet cl \<and> write_ok cl' = write_ok cl"

lemma same_link_refl [simp]: "same_link cl cl"
  by (simp add: same_link_def)

lemma same_link_trans: "same_link a b \<Longrightarrow> same_link b c \<Longrightarrow> same_link a c"
  by (simp add: same_link_def)

lemma end_entry_table [simp]: "end_entry \<in> set client_table"
  by (simp add: end_entry_def client_table_def)

lemma readPacket_frame:
  assumes "client_idle cl" and "e \<in> set client_table" and "acceptable e pkt"
    and "incoming cl = map Data (frame pkt) @ rs"
  shows "\<exists>cl'. readPacket cl = Inr cl' \<and> mem cl' = deliver e pkt (mem cl) \<and> incoming cl' = rs \<and> client_idle cl'
    \<and> same_link cl cl'"
proof -
  obtain h where h: "readPacket_from (map Data (frame pkt) @ rs) cl = Inr (after_run h (deliver e pkt (mem cl)) rs (length pkt + 3) cl)"
    "rxFn h = rxAA" "operations h = operations (packet_handler cl)" "tx_ok h = tx_ok (packet_handler cl)"
    "tx_items h = tx_items (packet_handler cl)"
    using client_frame[OF assms(1-3)] by blast
  let ?cl = "after_run h (deliver e pkt (mem cl)) rs (length pkt + 3) cl"
  have "mem ?cl = deliver e pkt (mem cl)" "incoming ?cl = rs" "client_idle ?cl" "same_link cl ?cl"
    using h(2-5) assms(1) by (simp_all add: after_run_def client_idle_def client_ops_ok_def same_link_def)
  then show ?thesis using h(1) by (auto simp: readPacket_def assms(4))
qed

lemma client_end_epoch_deliver:
  assumes "e \<in> set client_table" and "acceptable e pkt" and "mem cl' = deliver e pkt (mem cl)"
  shows "h_seq (client_end_epoch cl') = (if e = end_entry then packet_seq pkt else h_seq (client_end_epoch cl))"
proof (cases "e = end_entry")
  case True
  then have "read_mem (mem cl') cl_end_epoch sizeof_PacketHeader = pkt"
    using deliver_own[OF assms(1,2)] assms(2,3) by (simp add: acceptable_def client_target_def end_entry_def)
  then show ?thesis using True by (simp add: client_end_epoch_def packet_seq_def)
next
  case False
  have "read_mem (mem cl') cl_end_epoch sizeof_PacketHeader = read_mem (mem cl) cl_end_epoch sizeof_PacketHeader"
    unfolding assms(3)
    by (rule deliver_other[OF assms(1,2), of end_entry]) (use False in \<open>simp_all add: client_area_def, simp_all add: end_entry_def\<close>)
  then show ?thesis using False by (simp add: client_end_epoch_def)
qed

lemma read_epoch_frames:
  assumes "client_idle cl" and "\<not> read_locked cl"
    and "\<forall>(e, pkt) \<in> set eps. e \<in> set client_table \<and> acceptable e pkt \<and> e \<noteq> end_entry"
    and "acceptable end_entry endp" and "packet_seq endp \<noteq> q" and "h_seq (client_end_epoch cl) = q"
    and "incoming cl = map Data (concat (map (\<lambda>(e, pkt). frame pkt) eps) @ frame endp) @ rs"
  shows "\<exists>cl'. read_epoch q cl = Inr cl' \<and> mem cl' = deliver end_entry endp (deliver_all eps (mem cl))
    \<and> incoming cl' = rs \<and> client_idle cl' \<and> same_link cl cl'"
  using assms
proof (induction eps arbitrary: cl)
  case Nil
  let ?cl = "cl\<lparr>read_locked := True\<rparr>"
  have lock: "lock_read cl = Inr ?cl" using Nil.prems(2) by (simp add: lock_read_def)
  have "client_idle ?cl" "incoming ?cl = map Data (frame endp) @ rs"
    using Nil.prems(1,7) by (simp_all add: client_idle_def client_ops_ok_def)
  from readPacket_frame[OF this(1) end_entry_table Nil.prems(4) this(2)] obtain cl1 where
    cl1: "readPacket ?cl = Inr cl1" "mem cl1 = deliver end_entry endp (mem cl)" "incoming cl1 = rs" "client_idle cl1"
      "same_link ?cl cl1"
    by auto
  let ?cl' = "unlock_read cl1"
  have seq: "h_seq (client_end_epoch ?cl') = packet_seq endp"
    using client_end_epoch_deliver[OF end_entry_table Nil.prems(4), of ?cl' cl] cl1(2) by (simp add: unlock_read_def)
  have "read_epoch q cl = Inr ?cl'"
    using lock cl1(1) seq Nil.prems(5) by (subst read_epoch.simps) (simp add: Let_def)
  moreover have "client_idle ?cl'" "same_link cl ?cl'"
    using cl1(4,5) Nil.prems(2) by (simp_all add: unlock_read_def client_idle_def client_ops_ok_def same_link_def)
  ultimately show ?case using cl1(2,3) by (intro exI[of _ ?cl']) (simp add: deliver_all_def unlock_read_def)
next
  case (Cons ep eps)
  obtain e pkt where ep: "ep = (e, pkt)" by (cases ep)
  have e: "e \<in> set client_table" "acceptable e pkt" "e \<noteq> end_entry" using Cons.prems(3) by (auto simp: ep)
  let ?cl = "cl\<lparr>read_locked := True\<rparr>" and ?rs = "map Data (concat (map (\<lambda>(e, pkt). frame pkt) eps) @ frame endp) @ rs"
  have lock: "lock_read cl = Inr ?cl" using Cons.prems(2) by (simp add: lock_read_def)
  have "client_idle ?cl" "incoming ?cl = map Data (frame pkt) @ ?rs"
    using Cons.prems(1,7) by (simp_all add: client_idle_def client_ops_ok_def ep)
  from readPacket_frame[OF this(1) e(1,2) this(2)] obtain cl1 where
    cl1: "readPacket ?cl = Inr cl1" "mem cl1 = deliver e pkt (mem cl)" "incoming cl1 = ?rs" "client_idle cl1"
      "same_link ?cl cl1"
    by auto
  let ?cl' = "unlock_read cl1"
  have seq: "h_seq (client_end_epoch ?cl') = q"
    using client_end_epoch_deliver[OF e(1,2), of ?cl' cl] cl1(2) e(3) Cons.prems(6) by (simp add: unlock_read_def)
  have step: "read_epoch q cl = read_epoch q ?cl'"
    using lock cl1(1) seq by (subst read_epoch.simps) (simp add: Let_def)
  have link: "client_idle ?cl'" "\<not> read_locked ?cl'" "same_link cl ?cl'" "incoming ?cl' = ?rs" "mem ?cl' = deliver e pkt (mem cl)"
    using cl1 Cons.prems(2) by (simp_all add: unlock_read_def client_idle_def client_ops_ok_def same_link_def)
  have "\<forall>(e, pkt) \<in> set eps. e \<in> set client_table \<and> acceptable e pkt \<and> e \<noteq> end_entry" using Cons.prems(3) by simp
  from Cons.IH[OF link(1,2) this Cons.prems(4,5) seq link(4)] obtain cl' where
    "read_epoch q ?cl' = Inr cl'" "mem cl' = deliver end_entry endp (deliver_all eps (mem ?cl'))" "incoming cl' = rs"
    "client_idle cl'" "same_link ?cl' cl'"
    by blast
  then show ?case using step link(3,5) same_link_trans[of cl ?cl' cl'] by (auto simp: deliver_all_def ep)
qed

end
