(* ===== verification/ClientReady.thy ===== *)
theory ClientReady
  imports ClientEpoch
begin

text \<open>
  The initialised client: every packet type installed, nothing locked, nothing queued; and
  what the operations that use the variables do in such a state.
\<close>

section \<open>Installing the operations\<close>

definition type_of :: "addr \<times> u8 \<times> nat \<times> bool \<Rightarrow> nat" where
  "type_of = (\<lambda>(dest, type, sz, indexed). unat type)"

definition op_of :: "addr \<times> u8 \<times> nat \<times> bool \<Rightarrow> PacketOperations" where
  "op_of = (\<lambda>(dest, type, sz, indexed). client_op dest type (word_of_nat sz) indexed)"

lemma installPacketOp_ok:
  assumes "type_of e < 20" and "length (operations (packet_handler cl)) = 20" and "operations (packet_handler cl) ! type_of e = NULL"
  shows "installPacketOp e cl = Some (cl\<lparr>ops_at := (ops_at cl)(Suc (type_of e) := op_of e),
     packet_handler := (packet_handler cl)\<lparr>operations := (operations (packet_handler cl))[type_of e := Suc (type_of e)]\<rparr>\<rparr>)"
  using assms
  by (cases e) (simp add: installPacketOp_def PacketHandler_installPacket_def Let_def type_of_def op_of_def client_ops_def client_op_def)

lemma install_ops_ok:
  assumes "distinct (map type_of es)" and "\<forall>e \<in> set es. type_of e < 20 \<and> operations (packet_handler cl) ! type_of e = NULL"
    and "length (operations (packet_handler cl)) = 20"
  shows "\<exists>ops tab. install_ops es cl = Some (cl\<lparr>ops_at := ops, packet_handler := (packet_handler cl)\<lparr>operations := tab\<rparr>\<rparr>)
    \<and> length tab = 20 \<and> (\<forall>e \<in> set es. tab ! type_of e = Suc (type_of e) \<and> ops (Suc (type_of e)) = op_of e)
    \<and> (\<forall>t < 20. t \<notin> type_of ` set es \<longrightarrow> tab ! t = operations (packet_handler cl) ! t \<and> ops (Suc t) = ops_at cl (Suc t))"
  using assms
proof (induction es arbitrary: cl)
  case Nil
  then show ?case by (intro exI[of _ "ops_at cl"] exI[of _ "operations (packet_handler cl)"]) simp
next
  case (Cons e es)
  let ?t = "type_of e"
  let ?cl = "cl\<lparr>ops_at := (ops_at cl)(Suc ?t := op_of e),
     packet_handler := (packet_handler cl)\<lparr>operations := (operations (packet_handler cl))[?t := Suc ?t]\<rparr>\<rparr>"
  have t: "?t < 20" "installPacketOp e cl = Some ?cl" using installPacketOp_ok[of e cl] Cons.prems(2,3) by simp_all
  have "\<forall>e \<in> set es. type_of e < 20 \<and> operations (packet_handler ?cl) ! type_of e = NULL"
  proof
    fix e'
    assume e': "e' \<in> set es"
    then have "type_of e' \<noteq> ?t" using Cons.prems(1) by (metis distinct.simps(2) image_eqI list.map(2) list.set_map)
    then show "type_of e' < 20 \<and> operations (packet_handler ?cl) ! type_of e' = NULL"
      using Cons.prems(2) e' by (simp add: nth_list_update)
  qed
  from Cons.IH[OF _ this] Cons.prems(1,3) obtain ops tab where
    rec: "install_ops es ?cl = Some (?cl\<lparr>ops_at := ops, packet_handler := (packet_handler ?cl)\<lparr>operations := tab\<rparr>\<rparr>)"
      "length tab = 20" "\<forall>e \<in> set es. tab ! type_of e = Suc (type_of e) \<and> ops (Suc (type_of e)) = op_of e"
      "\<forall>t < 20. t \<notin> type_of ` set es \<longrightarrow> tab ! t = operations (packet_handler ?cl) ! t \<and> ops (Suc t) = ops_at ?cl (Suc t)"
    by auto
  have "?t \<notin> type_of ` set es" using Cons.prems(1) by auto
  then have "tab ! ?t = Suc ?t" "ops (Suc ?t) = op_of e" using rec(4) t(1) Cons.prems(3) by auto
  then show ?case
    using rec t Cons.prems(3) by (intro exI[of _ ops] exI[of _ tab]) (auto simp: nth_list_update)
qed

section \<open>The ready state\<close>

definition client_ready :: "client \<Rightarrow> bool" where
  "client_ready cl \<longleftrightarrow> client_idle cl \<and> tx_ok (packet_handler cl) \<and> packet_sizes cl = outgoing_sizes
     \<and> \<not> write_locked cl \<and> \<not> read_locked cl"

lemma client_table_types: "distinct (map type_of client_table)" "\<forall>e \<in> set client_table. type_of e < 20"
  by (simp_all add: client_table_def type_of_def)

lemma client_init_ok:
  assumes "0 < fd" and "0 \<le> attribs" and "length (tx_buffer (packet_handler cl0)) = PACKET_SIZE_MAX"
  shows "\<exists>cl. OrazioClient_init fd attribs cl0 = Some (Some cl) \<and> client_ready cl \<and> num_joints cl = 0
    \<and> tx_items (packet_handler cl) = [] \<and> cl_joint_control cl = cl_joint_control cl0
    \<and> h_seq (client_end_epoch cl) = 0 \<and> rp_p_type (client_response cl) = word_of_nat PACKET_TYPE_MAX"
proof -
  let ?cl1 = "cl0\<lparr>cl_global_seq := 0, num_joints := 0, rx_bytes := 0, tx_bytes := 0, drive_control_packet := host_drive_control\<rparr>"
  let ?h = "snd (PacketHandler_initialize (packet_handler cl0))"
  let ?cl2 = "?cl1\<lparr>packet_handler := ?h\<rparr>"
  have h: "operations ?h = replicate 20 NULL" "rxFn ?h = rxAA" "tx_items ?h = []" "tx_ok ?h"
    using assms(3) by (simp_all add: PacketHandler_initialize_def tx_items_def tx_ok_def)
  have "\<forall>e \<in> set client_table. type_of e < 20 \<and> operations (packet_handler ?cl2) ! type_of e = NULL"
    using client_table_types(2) by (simp add: h(1))
  from install_ops_ok[OF client_table_types(1) this] h(1) obtain ops tab where
    inst: "install_ops client_table ?cl2 = Some (?cl2\<lparr>ops_at := ops, packet_handler := ?h\<lparr>operations := tab\<rparr>\<rparr>)"
    and tab: "length tab = 20" "\<forall>e \<in> set client_table. tab ! type_of e = Suc (type_of e) \<and> ops (Suc (type_of e)) = op_of e"
    by auto
  let ?cl3 = "?cl2\<lparr>ops_at := ops, packet_handler := ?h\<lparr>operations := tab\<rparr>\<rparr>"
  have idle3: "client_idle ?cl3"
    using tab h(2) by (fastforce simp: client_idle_def client_ops_ok_def type_of_def op_of_def client_ops_def)
  let ?last = "put_PacketHeader \<lparr>h_type = END_EPOCH_PACKET_ID, h_size = word_of_nat sizeof_PacketHeader, h_seq = 0\<rparr>"
  let ?cl4 = "put_area cl_end_epoch ?last ?cl3"
  define r where "r = fst (get_ResponsePacket (read_mem (mem ?cl4) cl_response sizeof_ResponsePacket))"
  let ?r = "put_ResponsePacket (r\<lparr>rp_header := \<lparr>h_type = RESPONSE_PACKET_ID, h_size = word_of_nat sizeof_ResponsePacket, h_seq = 0\<rparr>,
      rp_p_seq := 0, rp_p_type := word_of_nat PACKET_TYPE_MAX\<rparr>)"
  let ?cl = "(put_area cl_response ?r ?cl4)\<lparr>packet_sizes := outgoing_sizes, write_locked := False, read_locked := False\<rparr>"
  have init: "OrazioClient_init fd attribs cl0 = Some (Some ?cl)"
    using assms(1,2) inst by (simp add: OrazioClient_init_def Let_def r_def)
  have "client_idle ?cl" using idle3 by (simp add: put_area_def client_idle_def client_ops_ok_def)
  moreover have "tx_ok (packet_handler ?cl)" "tx_items (packet_handler ?cl) = []"
    using h(3,4) by (simp_all add: put_area_def tx_ok_def tx_items_def)
  moreover have "read_mem (mem ?cl) cl_end_epoch sizeof_PacketHeader = ?last"
    by (simp add: put_area_def read_write_mem_disjoint cl_areas sizeof_defs)
  then have "h_seq (client_end_epoch ?cl) = 0"
    using get_put_PacketHeader[of _ "[]"] by (simp add: client_end_epoch_def)
  moreover have "read_mem (mem ?cl) cl_response sizeof_ResponsePacket = ?r" by (simp add: put_area_def)
  then have "rp_p_type (client_response ?cl) = word_of_nat PACKET_TYPE_MAX"
    using get_put_ResponsePacket[of _ "[]"] by (simp add: client_response_def)
  ultimately show ?thesis by (intro exI[of _ ?cl]) (simp add: init client_ready_def put_area_def)
qed

end
