(* ===== verification/Link.thy ===== *)
theory Link
  imports DriveProperties ClientReady
begin

text \<open>
  Both ends of the serial line together: the bytes of a communication cycle of the firmware, read
  by the client of the host.
\<close>

section \<open>The packets of an epoch\<close>

definition sent :: "'a firmware_scheme \<Rightarrow> Obj \<times> nat \<times> nat \<Rightarrow> u8 list" where
  "sent f = (\<lambda>(ob, off, n). stamped (global_seq f) (packet_at (ob, off) f))"

lemma out_frame_sent: "out_frame f p = frame (sent f p)"
  by (cases p) (simp add: out_frame_def sent_def)

lemma out_frame_fun: "out_frame f = (\<lambda>p. frame (sent f p))"
  by (rule ext) (rule out_frame_sent)

definition joint_numbered :: "'a firmware_scheme \<Rightarrow> bool" where
  "joint_numbered f \<longleftrightarrow> (\<forall>i \<in> {0, 1}. pi_index (jst_header (joint_status f ! i)) = word_of_nat i)"

text \<open>The variable of the client that receives a packet of the firmware.\<close>

definition host_entry :: "Obj \<times> nat \<times> nat \<Rightarrow> addr \<times> u8 \<times> nat \<times> bool" where
  "host_entry = (\<lambda>(ob, off, n). case ob of
       OSystemStatus \<Rightarrow> (cl_system_status, SYSTEM_STATUS_PACKET_ID, sizeof_SystemStatusPacket, False)
     | OJointStatus \<Rightarrow> (cl_joint_status, JOINT_STATUS_PACKET_ID, sizeof_JointStatusPacket, True)
     | ODriveStatus \<Rightarrow> (cl_drive_status, DIFFERENTIAL_DRIVE_STATUS_PACKET_ID, sizeof_DifferentialDriveStatusPacket, False)
     | OSonarStatus \<Rightarrow> (cl_sonar_status, SONAR_STATUS_PACKET_ID, sizeof_SonarStatusPacket, False)
     | OStringMessage \<Rightarrow> (cl_message, MESSAGE_PACKET_ID, sizeof_StringMessagePacket, False)
     | _ \<Rightarrow> end_entry)"

definition epoch_ptrs :: "(Obj \<times> nat \<times> nat) list" where
  "epoch_ptrs = [(OSystemStatus, 0, sizeof_SystemStatusPacket), (OJointStatus, 0, sizeof_JointStatusPacket),
     (OJointStatus, sizeof_JointStatusPacket, sizeof_JointStatusPacket), (ODriveStatus, 0, sizeof_DifferentialDriveStatusPacket),
     (OSonarStatus, 0, sizeof_SonarStatusPacket), (OStringMessage, 0, sizeof_StringMessagePacket), (OEndEpoch, 0, sizeof_PacketHeader)]"

lemma epoch_list_ptrs: "p \<in> set (epoch_list f) \<Longrightarrow> p \<in> set epoch_ptrs"
  by (auto simp: epoch_list_def status_list_def masked_def epoch_ptrs_def split: if_splits)

lemma epoch_list_distinct: "distinct (epoch_list f)"
  by (auto simp: epoch_list_def status_list_def masked_def sizeof_JointStatusPacket_def)

definition stamp_header :: "u16 \<Rightarrow> PacketHeader \<Rightarrow> PacketHeader" where
  "stamp_header q h = h\<lparr>h_seq := q\<rparr>"

text \<open>The bytes of each packet, with the sequence number of the cycle in its header.\<close>

lemma sent_bytes:
  assumes "drop off (obj_bytes ob f) = P @ X" and "P = put_PacketHeader h @ r" and "length P = n"
    and "h_size h = word_of_nat n" and "n < 256"
  shows "sent f (ob, off, m) = put_PacketHeader (stamp_header (global_seq f) h) @ r"
proof -
  have nth: "xs ! (k + 1) = y ! 1" if "drop k xs = y" "1 < length y" for k and xs y :: "u8 list"
    using that by (auto simp: nth_drop)
  have "obj_bytes ob f ! (off + 1) = (P @ X) ! 1"
    by (rule nth[OF assms(1)]) (simp add: assms(2) put_PacketHeader_bytes)
  also have "\<dots> = word_of_nat n" by (simp add: assms(2,4) put_PacketHeader_bytes)
  finally have "packet_at (ob, off) f = P"
    using assms(1,3,5) by (simp add: packet_at_def unat_of_nat)
  then show ?thesis unfolding sent_def by (simp add: assms(2) stamped_header stamp_header_def)
qed

lemma put_joint_status_header:
  "put_JointStatusPacket p = put_PacketHeader (pi_header (jst_header p)) @ put8 (pi_index (jst_header p)) @ put_JointInfo (jst_info p)"
  by (simp add: put_JointStatusPacket_def put_PacketIndexed_def)

lemma sent_packets:
  assumes "fw_ready f"
  shows "sent f (OSystemStatus, 0, n) = put_SystemStatusPacket ((system_status f)\<lparr>ss_header := stamp_header (global_seq f) (ss_header (system_status f))\<rparr>)"
    and "sent f (ODriveStatus, 0, n) = put_DifferentialDriveStatusPacket ((drive_status f)\<lparr>ds_header := stamp_header (global_seq f) (ds_header (drive_status f))\<rparr>)"
    and "sent f (OSonarStatus, 0, n) = put_SonarStatusPacket ((sonar_status f)\<lparr>sns_header := stamp_header (global_seq f) (sns_header (sonar_status f))\<rparr>)"
    and "sent f (OStringMessage, 0, n) = put_StringMessagePacket ((string_message f)\<lparr>sm_header := stamp_header (global_seq f) (sm_header (string_message f))\<rparr>)"
    and "sent f (OEndEpoch, 0, n) = put_PacketHeader (stamp_header (global_seq f) (end_epoch f))"
    and "sent f (OJointStatus, 0, n) = put_JointStatusPacket (stamp_joint (global_seq f) (joint_status f ! 0))"
    and "sent f (OJointStatus, sizeof_JointStatusPacket, n) = put_JointStatusPacket (stamp_joint (global_seq f) (joint_status f ! 1))"
proof -
  have ok: "headers_ok f" "wf_fw f" using assms by (simp_all add: fw_ready_def)
  obtain a b where js: "joint_status f = [a, b]" using ok(2) by (auto simp: wf_fw_def length_two)
  have wf: "wf_SonarStatusPacket (sonar_status f)" "wf_StringMessagePacket (string_message f)" using ok(2) by (simp_all add: wf_fw_def)
  note h = ok(1)[unfolded headers_ok_def header_ok_def]
  show "sent f (OSystemStatus, 0, n) = put_SystemStatusPacket ((system_status f)\<lparr>ss_header := stamp_header (global_seq f) (ss_header (system_status f))\<rparr>)"
    by (subst sent_bytes[where P="put_SystemStatusPacket (system_status f)" and X="[]" and n=sizeof_SystemStatusPacket,
          OF _ put_SystemStatusPacket_def]) (use h in \<open>simp_all add: sizeof_SystemStatusPacket_def put_SystemStatusPacket_def[of "_\<lparr>ss_header := _\<rparr>"]\<close>)
  show "sent f (ODriveStatus, 0, n) = put_DifferentialDriveStatusPacket ((drive_status f)\<lparr>ds_header := stamp_header (global_seq f) (ds_header (drive_status f))\<rparr>)"
    by (subst sent_bytes[where P="put_DifferentialDriveStatusPacket (drive_status f)" and X="[]" and n=sizeof_DifferentialDriveStatusPacket,
          OF _ put_DifferentialDriveStatusPacket_def]) (use h in \<open>simp_all add: sizeof_DifferentialDriveStatusPacket_def put_DifferentialDriveStatusPacket_def[of "_\<lparr>ds_header := _\<rparr>"]\<close>)
  show "sent f (OSonarStatus, 0, n) = put_SonarStatusPacket ((sonar_status f)\<lparr>sns_header := stamp_header (global_seq f) (sns_header (sonar_status f))\<rparr>)"
    by (subst sent_bytes[where P="put_SonarStatusPacket (sonar_status f)" and X="[]" and n=sizeof_SonarStatusPacket,
          OF _ put_SonarStatusPacket_def]) (use h wf in \<open>simp_all add: sizeof_SonarStatusPacket_def put_SonarStatusPacket_def[of "_\<lparr>sns_header := _\<rparr>"]\<close>)
  show "sent f (OStringMessage, 0, n) = put_StringMessagePacket ((string_message f)\<lparr>sm_header := stamp_header (global_seq f) (sm_header (string_message f))\<rparr>)"
    by (subst sent_bytes[where P="put_StringMessagePacket (string_message f)" and X="[]" and n=sizeof_StringMessagePacket,
          OF _ put_StringMessagePacket_def]) (use h wf in \<open>simp_all add: sizeof_StringMessagePacket_def put_StringMessagePacket_def[of "_\<lparr>sm_header := _\<rparr>"]\<close>)
  show "sent f (OEndEpoch, 0, n) = put_PacketHeader (stamp_header (global_seq f) (end_epoch f))"
    by (subst sent_bytes[where P="put_PacketHeader (end_epoch f)" and X="[]" and r="[]" and n=sizeof_PacketHeader])
      (use h in \<open>simp_all add: sizeof_PacketHeader_def\<close>)
  show "sent f (OJointStatus, 0, n) = put_JointStatusPacket (stamp_joint (global_seq f) (joint_status f ! 0))"
    by (subst sent_bytes[where P="put_JointStatusPacket a" and X="put_JointStatusPacket b" and n=sizeof_JointStatusPacket,
          OF _ put_joint_status_header]) (use h js in \<open>simp_all add: sizeof_JointStatusPacket_def put_joint_status_header[of "_\<lparr>jst_header := _\<rparr>"] stamp_joint_def stamp_header_def\<close>)
  show "sent f (OJointStatus, sizeof_JointStatusPacket, n) = put_JointStatusPacket (stamp_joint (global_seq f) (joint_status f ! 1))"
    by (subst sent_bytes[where P="put_JointStatusPacket b" and X="[]" and n=sizeof_JointStatusPacket,
          OF _ put_joint_status_header]) (use h js in \<open>simp_all add: sizeof_JointStatusPacket_def put_joint_status_header[of "_\<lparr>jst_header := _\<rparr>"] stamp_joint_def stamp_header_def\<close>)
qed

section \<open>Every packet of an epoch is accepted\<close>

lemma put_joint_nth:
  "put_JointStatusPacket p ! 0 = h_type (pi_header (jst_header p))" "put_JointStatusPacket p ! Suc 0 = h_size (pi_header (jst_header p))"
  "put_JointStatusPacket p ! sizeof_PacketHeader = pi_index (jst_header p)"
proof -
  show "put_JointStatusPacket p ! 0 = h_type (pi_header (jst_header p))" "put_JointStatusPacket p ! Suc 0 = h_size (pi_header (jst_header p))"
    by (simp_all add: put_joint_status_header put_PacketHeader_bytes)
  show "put_JointStatusPacket p ! sizeof_PacketHeader = pi_index (jst_header p)"
    by (simp add: put_joint_status_header nth_append put8_def)
qed

lemma sent_acceptable:
  assumes "fw_ready f" and "joint_numbered f" and "p \<in> set epoch_ptrs"
  shows "acceptable (host_entry p) (sent f p)" and "host_entry p \<in> set client_table"
    and "length (sent f p) = snd (snd p)"
proof -
  have ok: "headers_ok f" "wf_fw f" using assms(1) by (simp_all add: fw_ready_def)
  have wf: "wf_SonarStatusPacket ((sonar_status f)\<lparr>sns_header := h\<rparr>)" "wf_StringMessagePacket ((string_message f)\<lparr>sm_header := h\<rparr>)" for h
    using ok(2) by (simp_all add: wf_fw_def wf_SonarStatusPacket_def wf_StringMessagePacket_def)
  note hs = ok(1)[unfolded headers_ok_def header_ok_def]
  have nums: "pi_index (jst_header (joint_status f ! 0)) = 0" "pi_index (jst_header (joint_status f ! 1)) = 1"
    using assms(2) by (simp_all add: joint_numbered_def)
  note eqs = host_entry_def acceptable_def end_entry_def client_table_def stamp_header_def put_PacketHeader_bytes wf
  consider "p = (OSystemStatus, 0, sizeof_SystemStatusPacket)" | "p = (OJointStatus, 0, sizeof_JointStatusPacket)"
    | "p = (OJointStatus, sizeof_JointStatusPacket, sizeof_JointStatusPacket)"
    | "p = (ODriveStatus, 0, sizeof_DifferentialDriveStatusPacket)" | "p = (OSonarStatus, 0, sizeof_SonarStatusPacket)"
    | "p = (OStringMessage, 0, sizeof_StringMessagePacket)" | "p = (OEndEpoch, 0, sizeof_PacketHeader)"
    using assms(3) by (auto simp: epoch_ptrs_def)
  then have "acceptable (host_entry p) (sent f p) \<and> host_entry p \<in> set client_table \<and> length (sent f p) = snd (snd p)"
  proof cases
    case 1
    show ?thesis unfolding 1 sent_packets(1)[OF assms(1)] using hs by (simp add: eqs, simp add: put_SystemStatusPacket_def eqs)
  next
    case 2
    show ?thesis unfolding 2 sent_packets(6)[OF assms(1)] using hs nums
      by (simp add: eqs put_joint_nth stamp_joint_def)
  next
    case 3
    show ?thesis unfolding 3 sent_packets(7)[OF assms(1)] using hs nums
      by (simp add: eqs put_joint_nth stamp_joint_def)
  next
    case 4
    show ?thesis unfolding 4 sent_packets(2)[OF assms(1)] using hs by (simp add: eqs, simp add: put_DifferentialDriveStatusPacket_def eqs)
  next
    case 5
    show ?thesis unfolding 5 sent_packets(3)[OF assms(1)] using hs by (simp add: eqs, simp add: put_SonarStatusPacket_def eqs)
  next
    case 6
    show ?thesis unfolding 6 sent_packets(4)[OF assms(1)] using hs by (simp add: eqs, simp add: put_StringMessagePacket_def eqs)
  next
    case 7
    show ?thesis unfolding 7 sent_packets(5)[OF assms(1)] using hs by (simp add: eqs sizeof_PacketHeader_def)
  qed
  then show "acceptable (host_entry p) (sent f p)" "host_entry p \<in> set client_table" "length (sent f p) = snd (snd p)" by simp_all
qed

section \<open>The memory after an epoch\<close>

definition target_area :: "(addr \<times> u8 \<times> nat \<times> bool) \<times> u8 list \<Rightarrow> addr \<times> nat" where
  "target_area = (\<lambda>(e, pkt). (client_target e pkt, length pkt))"

lemma deliver_all_read:
  assumes "\<forall>(e, pkt) \<in> set eps. e \<in> set client_table \<and> acceptable e pkt" and "x \<in> set eps"
    and "\<forall>y \<in> set eps. y = x \<or> apart (target_area x) (target_area y)"
  shows "read_mem (deliver_all eps m) (fst (target_area x)) (snd (target_area x)) = snd x"
  using assms
proof (induction eps arbitrary: m rule: rev_induct)
  case (snoc y eps)
  obtain e pkt e' pkt' where xy: "x = (e, pkt)" "y = (e', pkt')" by (cases x, cases y)
  have ok: "e' \<in> set client_table" "acceptable e' pkt'" "e \<in> set client_table" "acceptable e pkt"
    using snoc.prems(1,2) by (auto simp: xy)
  have app: "deliver_all (eps @ [y]) m = deliver e' pkt' (deliver_all eps m)" by (simp add: deliver_all_def xy)
  show ?case
  proof (cases "y = x")
    case True
    then show ?thesis unfolding app using deliver_own[OF ok(3,4)] by (simp add: xy target_area_def)
  next
    case False
    have "read_mem (deliver e' pkt' (deliver_all eps m)) (client_target e pkt) (length pkt)
        = read_mem (deliver_all eps m) (client_target e pkt) (length pkt)"
    proof (rule deliver_apart[OF ok(1,2)])
      show "client_target e pkt + length pkt \<le> cl_packet_buffer"
        using client_target_inside(2)[OF ok(4)] client_area_buffer[OF ok(3)] by simp
      have "apart (target_area x) (target_area y)" using snoc.prems(3) False by simp
      then show "client_target e pkt + length pkt \<le> client_target e' pkt' \<or> client_target e' pkt' + length pkt' \<le> client_target e pkt"
        by (auto simp: apart_def xy target_area_def)
    qed
    moreover have "read_mem (deliver_all eps m) (fst (target_area x)) (snd (target_area x)) = snd x"
      by (rule snoc.IH) (use snoc.prems False in auto)
    ultimately show ?thesis unfolding app by (simp add: xy target_area_def)
  qed
qed simp

lemma sent_targets_apart:
  assumes "fw_ready f" and "joint_numbered f" and "p \<in> set epoch_ptrs" and "p' \<in> set epoch_ptrs" and "p \<noteq> p'"
  shows "apart (target_area (host_entry p, sent f p)) (target_area (host_entry p', sent f p'))"
proof (cases "host_entry p = host_entry p'")
  case False
  note a = sent_acceptable[OF assms(1,2,3)] and b = sent_acceptable[OF assms(1,2,4)]
  show ?thesis
    using client_areas_apart[OF a(2) b(2) False] client_target_inside[OF a(1)] client_target_inside[OF b(1)]
    by (auto simp: apart_def target_area_def)
next
  case True
  have nums: "pi_index (jst_header (joint_status f ! 0)) = 0" "pi_index (jst_header (joint_status f ! 1)) = 1"
    using assms(2) by (simp_all add: joint_numbered_def)
  have idx: "sent f (OJointStatus, 0, n) ! sizeof_PacketHeader = 0"
    "sent f (OJointStatus, sizeof_JointStatusPacket, n) ! sizeof_PacketHeader = 1" for n
    unfolding sent_packets(6,7)[OF assms(1)]
    using nums by (simp_all add: put_joint_nth stamp_joint_def)
  consider "p = (OJointStatus, 0, sizeof_JointStatusPacket)" "p' = (OJointStatus, sizeof_JointStatusPacket, sizeof_JointStatusPacket)"
    | "p' = (OJointStatus, 0, sizeof_JointStatusPacket)" "p = (OJointStatus, sizeof_JointStatusPacket, sizeof_JointStatusPacket)"
    using assms(3-5) True by (auto simp: epoch_ptrs_def host_entry_def end_entry_def cl_areas sizeof_defs)
  then show ?thesis
    using sent_acceptable(3)[OF assms(1,2,3)] sent_acceptable(3)[OF assms(1,2,4)]
    by cases (simp_all add: apart_def target_area_def client_target_def host_entry_def idx)
qed

section \<open>From the robot to the host\<close>

definition epoch_body :: "'a firmware_scheme \<Rightarrow> (Obj \<times> nat \<times> nat) list" where
  "epoch_body f = status_list f @ (if message_due f then [(OStringMessage, 0, sizeof_StringMessagePacket)] else [])"

lemma epoch_list_body: "epoch_list f = epoch_body f @ [(OEndEpoch, 0, sizeof_PacketHeader)]"
  by (simp add: epoch_list_def epoch_body_def)

definition host_packet :: "'a firmware_scheme \<Rightarrow> Obj \<times> nat \<times> nat \<Rightarrow> (addr \<times> u8 \<times> nat \<times> bool) \<times> u8 list" where
  "host_packet f p = (host_entry p, sent f p)"

lemma host_entry_end: "p \<in> set (epoch_body f) \<Longrightarrow> host_entry p \<noteq> end_entry"
  by (auto simp: epoch_body_def status_list_def masked_def host_entry_def end_entry_def split: if_splits)

lemma sent_end_seq: "fw_ready f \<Longrightarrow> packet_seq (sent f (OEndEpoch, 0, n)) = global_seq f"
  using get_put_PacketHeader[of _ "[]"] by (simp add: sent_packets(5) packet_seq_def stamp_header_def)

text \<open>A client that receives the frames of an epoch returns from it with every packet in its variable.\<close>

lemma epoch_received:
  assumes "fw_ready f" and "joint_numbered f" and "client_idle cl" and "\<not> read_locked cl"
    and "h_seq (client_end_epoch cl) \<noteq> global_seq f"
    and "incoming cl = map Data (concat (map (out_frame f) (epoch_list f))) @ rs"
  shows "\<exists>cl'. read_epoch (h_seq (client_end_epoch cl)) cl = Inr cl' \<and> client_idle cl' \<and> incoming cl' = rs \<and> same_link cl cl'
    \<and> h_seq (client_end_epoch cl') = global_seq f
    \<and> (\<forall>p \<in> set (epoch_list f). read_mem (mem cl') (client_target (host_entry p) (sent f p)) (snd (snd p)) = sent f p)"
proof -
  let ?last = "(OEndEpoch, 0, sizeof_PacketHeader) :: Obj \<times> nat \<times> nat"
  let ?eps = "map (host_packet f) (epoch_body f)" and ?all = "map (host_packet f) (epoch_list f)"
  have acc: "acceptable (host_entry p) (sent f p)" "host_entry p \<in> set client_table" "length (sent f p) = snd (snd p)"
    if "p \<in> set (epoch_list f)" for p
    using sent_acceptable[OF assms(1,2) epoch_list_ptrs[OF that]] by simp_all
  have body: "\<forall>(e, pkt) \<in> set ?eps. e \<in> set client_table \<and> acceptable e pkt \<and> e \<noteq> end_entry"
    using acc(1,2) host_entry_end[of _ f] by (fastforce simp: host_packet_def epoch_list_body)
  have entry: "host_entry ?last = end_entry" "acceptable end_entry (sent f ?last)"
    using acc(1)[of ?last] by (simp_all add: epoch_list_body host_entry_def)
  have seq: "packet_seq (sent f ?last) \<noteq> h_seq (client_end_epoch cl)" using assms(1,5) by (simp add: sent_end_seq)
  have "concat (map (out_frame f) (epoch_list f)) = concat (map (\<lambda>(e, pkt). frame pkt) ?eps) @ frame (sent f ?last)"
    by (simp add: epoch_list_body out_frame_fun host_packet_def o_def)
  with assms(6) have inc: "incoming cl = map Data (concat (map (\<lambda>(e, pkt). frame pkt) ?eps) @ frame (sent f ?last)) @ rs" by simp
  from read_epoch_frames[OF assms(3,4) body entry(2) seq refl inc] obtain cl' where
    cl': "read_epoch (h_seq (client_end_epoch cl)) cl = Inr cl'" "mem cl' = deliver end_entry (sent f ?last) (deliver_all ?eps (mem cl))"
      "incoming cl' = rs" "client_idle cl'" "same_link cl cl'"
    by blast
  have mem: "mem cl' = deliver_all ?all (mem cl)"
    by (simp add: cl'(2) deliver_all_def epoch_list_body host_packet_def entry(1))
  have read: "read_mem (mem cl') (client_target (host_entry p) (sent f p)) (snd (snd p)) = sent f p" if p: "p \<in> set (epoch_list f)" for p
  proof -
    have "read_mem (deliver_all ?all (mem cl)) (fst (target_area (host_packet f p))) (snd (target_area (host_packet f p)))
        = snd (host_packet f p)"
    proof (rule deliver_all_read)
      show "\<forall>(e, pkt) \<in> set ?all. e \<in> set client_table \<and> acceptable e pkt" using acc by (auto simp: host_packet_def)
      show "host_packet f p \<in> set ?all" using p by simp
      show "\<forall>y \<in> set ?all. y = host_packet f p \<or> apart (target_area (host_packet f p)) (target_area y)"
        using sent_targets_apart[OF assms(1,2) epoch_list_ptrs[OF p] epoch_list_ptrs] by (auto simp: host_packet_def)
    qed
    then show ?thesis using acc(3)[OF p] by (simp add: mem host_packet_def target_area_def)
  qed
  have "read_mem (mem cl') cl_end_epoch sizeof_PacketHeader = sent f ?last"
    using read[of ?last] by (simp add: epoch_list_body entry(1)) (simp add: end_entry_def client_target_def)
  then have "h_seq (client_end_epoch cl') = global_seq f"
    using sent_end_seq[OF assms(1)] by (simp add: client_end_epoch_def packet_seq_def)
  then show ?thesis using cl' read by (intro exI[of _ cl']) simp
qed

lemma cycle_fw_fields:
  "joint_status (cycle_fw s) = joint_status (fw s)" "drive_status (cycle_fw s) = drive_status (fw s)"
  "system_params (cycle_fw s) = system_params (fw s)" "global_seq (cycle_fw s) = global_seq (fw s) + 1"
  by (simp_all add: cycle_fw_def cycle_start_def upd_status_def upd_fw_def Let_def)

lemma cycle_fw_ready: "orazio_inv s \<Longrightarrow> fw_ready (cycle_fw s)"
  using cycle_start_inv[OF upd_status_inv, of s "\<lambda>st. st\<lparr>ss_rx_buffer_size := 0\<rparr>"] by (simp add: cycle_fw_def orazio_inv_def)

lemma drive_status_received:
  assumes "fw_ready f" and "sp_periodic_packet_mask (system_params f) AND PDriveStatusFlag \<noteq> 0"
    and "\<forall>p \<in> set (epoch_list f). read_mem (mem cl) (client_target (host_entry p) (sent f p)) (snd (snd p)) = sent f p"
  shows "client_drive_status cl = (drive_status f)\<lparr>ds_header := stamp_header (global_seq f) (ds_header (drive_status f))\<rparr>"
proof -
  let ?p = "(ODriveStatus, 0, sizeof_DifferentialDriveStatusPacket) :: Obj \<times> nat \<times> nat"
  have "?p \<in> set (epoch_list f)" using assms(2) by (simp add: epoch_list_def status_list_def masked_def)
  with assms(3) have "read_mem (mem cl) (client_target (host_entry ?p) (sent f ?p)) (snd (snd ?p)) = sent f ?p" by blast
  then have "read_mem (mem cl) cl_drive_status sizeof_DifferentialDriveStatusPacket = sent f ?p"
    by (simp add: host_entry_def client_target_def)
  then show ?thesis
    using get_put_DifferentialDriveStatusPacket[of _ "[]"] by (simp add: client_drive_status_def sent_packets(2)[OF assms(1)])
qed

text \<open>
  C1. A communication cycle of the robot and the client of the host together: when the cycle finds no
  input and empty queues, the bytes it puts on the serial line make the waiting client return from
  the epoch with exactly these bytes consumed. The client has then seen the sequence number of
  the cycle, every packet of the epoch is in the variable of its type and index, and the
  odometry the host reads is the one of the robot (if the mask selects the drive status).
\<close>

theorem epoch_reaches_client:
  assumes "orazio_inv s" and "pending s = []" and "rx_waiting s = 0"
    and "tx_size (base_handler s) = 0" and "uart_tx_items (uart_0 (fw s)) = []" and "joint_numbered (fw s)"
    and "client_idle cl" and "\<not> read_locked cl" and "h_seq (client_end_epoch cl) \<noteq> global_seq (fw s) + 1"
  shows "\<exists>s' cl'. Orazio_commHandle s = Inr s'
    \<and> read_epoch (h_seq (client_end_epoch cl)) (cl\<lparr>incoming := map Data (uart_tx_items (uart_0 (fw s'))) @ rs\<rparr>) = Inr cl'
    \<and> client_idle cl' \<and> incoming cl' = rs \<and> h_seq (client_end_epoch cl') = global_seq (fw s) + 1
    \<and> (\<forall>p \<in> set (epoch_list (cycle_fw s)).
         read_mem (mem cl') (client_target (host_entry p) (sent (cycle_fw s) p)) (snd (snd p)) = sent (cycle_fw s) p)
    \<and> (sp_periodic_packet_mask (system_params (fw s)) AND PDriveStatusFlag \<noteq> 0 \<longrightarrow>
         client_drive_status cl' = (drive_status (fw s))\<lparr>ds_header := stamp_header (global_seq (fw s) + 1) (ds_header (drive_status (fw s)))\<rparr>)"
proof -
  let ?f = "cycle_fw s"
  obtain s' where s': "Orazio_commHandle s = Inr s'" "uart_tx_items (uart_0 (fw s')) = concat (map (out_frame ?f) (epoch_list ?f))"
    using idle_cycle[OF assms(1-5)] by (auto simp del: length_uart_items)
  let ?cl = "cl\<lparr>incoming := map Data (uart_tx_items (uart_0 (fw s'))) @ rs\<rparr>"
  note f = cycle_fw_ready[OF assms(1)]
  have cl: "client_idle ?cl" "\<not> read_locked ?cl" "h_seq (client_end_epoch ?cl) \<noteq> global_seq ?f" "joint_numbered ?f"
    "client_end_epoch ?cl = client_end_epoch cl" "incoming ?cl = map Data (concat (map (out_frame ?f) (epoch_list ?f))) @ rs"
    using assms(6-9) s'(2)
    by (simp_all add: client_idle_def client_ops_ok_def client_end_epoch_def joint_numbered_def cycle_fw_fields del: length_uart_items)
  from epoch_received[OF f cl(4,1,2,3,6)] obtain cl' where
    "read_epoch (h_seq (client_end_epoch cl)) ?cl = Inr cl'" "client_idle cl'" "incoming cl' = rs"
    "h_seq (client_end_epoch cl') = global_seq ?f"
    "\<forall>p \<in> set (epoch_list ?f). read_mem (mem cl') (client_target (host_entry p) (sent ?f p)) (snd (snd p)) = sent ?f p"
    unfolding cl(5) by blast
  then show ?thesis
    using s'(1) drive_status_received[OF f] by (intro exI[of _ s'] exI[of _ cl']) (simp add: cycle_fw_fields del: length_uart_items)
qed

text \<open>A client for the examples: the one that \<open>OrazioClient_init\<close> makes.\<close>

definition blank_client :: client where
  "blank_client = \<lparr>mem = (\<lambda>_. 0), ops_at = (\<lambda>_. no_operations), packet_handler = sample_handler, cl_global_seq = 0,
     packet_sizes = [], write_locked = False, read_locked = False, num_joints = 0, drive_control_packet = host_drive_control,
     cl_joint_control = replicate NUM_JOINTS_MAX host_joint_control, rx_bytes = 0, tx_bytes = 0, incoming = [], written = [],
     write_ok = (\<lambda>_. True)\<rparr>"

definition sample_client :: client where
  "sample_client = (case OrazioClient_init 3 0 blank_client of Some (Some cl) \<Rightarrow> cl | _ \<Rightarrow> blank_client)"

lemma sample_client_ready:
  "OrazioClient_init 3 0 blank_client = Some (Some sample_client)" "client_ready sample_client" "num_joints sample_client = 0"
  "tx_items (packet_handler sample_client) = []" "h_seq (client_end_epoch sample_client) = 0"
proof -
  obtain cl where "OrazioClient_init 3 0 blank_client = Some (Some cl)" "client_ready cl" "num_joints cl = 0"
    "tx_items (packet_handler cl) = []" "h_seq (client_end_epoch cl) = 0"
    using client_init_ok[of 3 0 blank_client] by (auto simp: blank_client_def sample_handler_def)
  then show "OrazioClient_init 3 0 blank_client = Some (Some sample_client)" "client_ready sample_client" "num_joints sample_client = 0"
    "tx_items (packet_handler sample_client) = []" "h_seq (client_end_epoch sample_client) = 0"
    by (simp_all add: sample_client_def)
qed

lemma started_seq: "global_seq started_fw = 0" "joint_numbered started_fw"
  by (simp add: started_fw_def) (simp add: joint_numbered_def started_fields init_joint_status_def)

theorem epoch_reaches_client_witness:
  "\<exists>s' cl'. Orazio_commHandle sample = Inr s'
    \<and> read_epoch 0 (sample_client\<lparr>incoming := map Data (uart_tx_items (uart_0 (fw s')))\<rparr>) = Inr cl'
    \<and> incoming cl' = [] \<and> h_seq (client_end_epoch cl') = 1
    \<and> client_drive_status cl' = init_drive_status\<lparr>ds_header := stamp_header 1 (ds_header init_drive_status)\<rparr>"
proof -
  have "client_idle sample_client" "\<not> read_locked sample_client" using sample_client_ready(2) by (simp_all add: client_ready_def)
  then show ?thesis
    using epoch_reaches_client[OF sample_boot(2,3), where cl = sample_client and rs = "[]"]
    by (simp add: rx_waiting_def sample_fw started_fields started_seq sample_client_ready(5) init_system_params_def del: length_uart_items)
      blast
qed

end
