(* ===== verification/CommandLink.thy ===== *)
theory CommandLink
  imports Link PacketProperties BoardProperties
begin

text \<open>
  The other direction of the serial line: a command of the client of the host, received and executed
  by the robot.
\<close>

section \<open>Receiving from the serial line\<close>

text \<open>The receiver neither reads nor changes the globals.\<close>

definition with_globals :: "PacketHandler \<Rightarrow> firmware \<Rightarrow> orazio \<Rightarrow> orazio" where
  "with_globals h f s = s\<lparr>base_handler := h, fw := f\<rparr>"

lemma with_globals_fields [simp]:
  "mem (with_globals h f s) = mem s" "ops_at (with_globals h f s) = ops_at s" "packet_infos (with_globals h f s) = packet_infos s"
  "pending_packets (with_globals h f s) = pending_packets s" "pending_packets_size (with_globals h f s) = pending_packets_size s"
  "base_handler (with_globals h f s) = h" "fw (with_globals h f s) = f"
  "with_globals h f (with_globals h' f' s) = with_globals h f s" "pending (with_globals h f s) = pending s"
  "(with_globals h f s)\<lparr>base_handler := h'\<rparr> = with_globals h' f s"
  by (simp_all add: with_globals_def pending_def)

lemma rxByte_globals:
  "PacketHandler_rxByte orazio_gen orazio_on_rx c h (with_globals b f s)
     = bindR (PacketHandler_rxByte orazio_gen orazio_on_rx c h s) (\<lambda>(st, h', s'). Inr (st, h', with_globals b f s'))"
proof -
  have call: "Deferred_onReceive_call p (with_globals b f s) = bindR (Deferred_onReceive_call p s) (\<lambda>s'. Inr (with_globals b f s'))"
    for p and s :: orazio
    by (simp add: Deferred_onReceive_call_def with_globals_def Let_def split: prod.splits)
  have mem: "(with_globals b f s)\<lparr>mem := m\<rparr> = with_globals b f (s\<lparr>mem := m\<rparr>)" for m
    by (simp add: with_globals_def)
  have init: "Deferred_initializeBuffer_call t (with_globals b f s) = Deferred_initializeBuffer_call t s" for t
    by (simp add: Deferred_initializeBuffer_call_def with_globals_def)
  show ?thesis
    by (cases "rxFn h")
      (simp_all add: PacketHandler_rxByte_def rxSize_step_def rxPayload_step_def rxChecksum_step_def Let_def call init
        orazio_gen_def orazio_on_rx_def Deferred_gen_def Deferred_on_rx_def bindR_bindR mem
        split: prod.splits option.splits PacketFn.splits)
qed

lemma rx_run_globals:
  "rx_run orazio_gen orazio_on_rx bs h (with_globals b f s)
     = bindR (rx_run orazio_gen orazio_on_rx bs h s) (\<lambda>(sts, h', s'). Inr (sts, h', with_globals b f s'))"
proof (induction bs arbitrary: h s)
  case (Cons c bs)
  show ?case
    by (cases "PacketHandler_rxByte orazio_gen orazio_on_rx c h s") (auto simp: rxByte_globals Cons.IH bindR_bindR split_def)
qed simp

definition same_data :: "firmware \<Rightarrow> firmware \<Rightarrow> bool" where
  "same_data f f' \<longleftrightarrow> settings f' = settings f \<and> drive_status f' = drive_status f \<and> drive_controller f' = drive_controller f
     \<and> last_drive_control_seq f' = last_drive_control_seq f \<and> joint_status f' = joint_status f
     \<and> string_message f' = string_message f \<and> sonar_ready f' = sonar_ready f \<and> global_seq f' = global_seq f
     \<and> uart_tx_items (uart_0 f') = uart_tx_items (uart_0 f)"

lemma same_data_refl [simp]: "same_data f f"
  by (simp add: same_data_def)

lemma same_data_trans: "same_data a b \<Longrightarrow> same_data b c \<Longrightarrow> same_data a c"
  by (simp add: same_data_def)

lemma with_globals_id [simp]: "with_globals (base_handler s) (fw s) s = s"
  by (simp add: with_globals_def)

lemma getChar_item:
  assumes "uart_rx_ok (uart_0 d)" and "uart_rx_items (uart_0 d) = c # cs"
  shows "\<exists>u. UART_getChar d = Some (c, d\<lparr>uart_0 := u, irq_enabled := True\<rparr>) \<and> uart_rx_items u = cs
    \<and> uart_tx_items u = uart_tx_items (uart_0 d)"
proof -
  have "uart_tx_items (snd (uart_rx_get u)) = uart_tx_items u" for u :: UART
    by (simp add: uart_rx_get_def uart_tx_items_def del: length_uart_items split: prod.splits)
  note tx = this[of "uart_0 d"]
  have "uart_rx_size (uart_0 d) \<noteq> 0" using assms(2) uart_items_Nil(2)[of "uart_0 d"] by auto
  then show ?thesis
    using uart_rx_get_ok[OF assms] tx by (auto simp: UART_getChar_def sei_def cli_def simp del: length_uart_items split: prod.splits)
qed

lemma count_rx_globals: "\<exists>st. count_rx status (with_globals h f s) = with_globals h (f\<lparr>system_status := st\<rparr>) s"
proof -
  have upd: "upd_status g (with_globals h f s) = with_globals h (f\<lparr>system_status := g (system_status f)\<rparr>) s" for g f
    by (simp add: upd_status_def upd_fw_def with_globals_def)
  have triv: "\<exists>st. with_globals h (f\<lparr>system_status := x\<rparr>) s = with_globals h (f\<lparr>system_status := st\<rparr>) s" for x by blast
  have same: "\<exists>st. with_globals h f s = with_globals h (f\<lparr>system_status := st\<rparr>) s"
    by (rule exI[of _ "system_status f"]) simp
  show ?thesis
    by (cases "is_error status"; cases "status = SyncChecksum") (simp_all add: count_rx_def upd same triv del: ex_simps)
qed

lemma flushInput_loop_run:
  assumes "orazio_inv s" and "uart_rx_items (uart_0 (fw s)) = bs"
    and "rx_run orazio_gen orazio_on_rx bs (base_handler s) s = Inr (sts, h', s1)"
  shows "\<exists>f. flushInput_loop s = Inr (with_globals h' f s1) \<and> same_data (fw s) f"
  using assms
proof (induction bs arbitrary: s sts s1)
  case Nil
  then have "rx_waiting s = 0" using uart_items_Nil(2)[of "uart_0 (fw s)"] by (simp add: rx_waiting_def)
  moreover have "h' = base_handler s" "s1 = s" using Nil.prems(3) by auto
  ultimately show ?case by (intro exI[of _ "fw s"]) (simp add: flushInput_loop.simps[of s])
next
  case (Cons b bs)
  have ok: "uart_rx_ok (uart_0 (fw s))" using Cons.prems(1) by (simp add: orazio_inv_def serial_ok_def)
  obtain u where get: "UART_getChar (fw s) = Some (b, (fw s)\<lparr>uart_0 := u, irq_enabled := True\<rparr>)"
    and u: "uart_rx_items u = bs" "uart_tx_items u = uart_tx_items (uart_0 (fw s))"
    using getChar_item[OF ok Cons.prems(2)] by blast
  let ?f = "(fw s)\<lparr>uart_0 := u, irq_enabled := True\<rparr>"
  obtain st h1 t1 sts1 where byte: "PacketHandler_rxByte orazio_gen orazio_on_rx b (base_handler s) s = Inr (st, h1, t1)"
    and run: "rx_run orazio_gen orazio_on_rx bs h1 t1 = Inr (sts1, h', s1)"
    using Cons.prems(3) by (auto simp: bindR_Inr_iff)
  have n: "rx_waiting s \<noteq> 0" using Cons.prems(2) uart_items_Nil(2)[of "uart_0 (fw s)"] by (auto simp: rx_waiting_def unat_eq_0)
  have upd: "s\<lparr>fw := ?f\<rparr> = with_globals (base_handler s) ?f s" by (simp add: with_globals_def)
  obtain g where g: "count_rx st (with_globals h1 ?f t1) = with_globals h1 (?f\<lparr>system_status := g\<rparr>) t1"
    using count_rx_globals by blast
  let ?s = "with_globals h1 (?f\<lparr>system_status := g\<rparr>) t1"
  have body: "flushInput_body s = Inr ?s"
    by (simp add: flushInput_body_def get upd rxByte_globals byte g)
  obtain s' where "flushInput_body s = Inr s'" "orazio_inv s'" using flushInput_body_inv[OF Cons.prems(1) n] by blast
  then have inv: "orazio_inv ?s" using body by simp
  have "uart_rx_items (uart_0 (fw ?s)) = bs" "rx_run orazio_gen orazio_on_rx bs (base_handler ?s) ?s
      = Inr (sts1, h', with_globals h1 (?f\<lparr>system_status := g\<rparr>) s1)"
    using u run by (simp_all add: rx_run_globals del: length_uart_items)
  from Cons.IH[OF inv this] obtain f where "flushInput_loop ?s = Inr (with_globals h' f s1)" "same_data (fw ?s) f" by auto
  moreover have "same_data (fw s) (fw ?s)" using u(2) by (simp add: same_data_def settings_def del: length_uart_items)
  ultimately show ?case
    using n body by (intro exI[of _ f]) (simp add: flushInput_loop.simps[of s] same_data_trans[of "fw s" "fw ?s" f])
qed

section \<open>The registered packet types\<close>

definition registered :: "u8 \<times> nat \<times> addr \<times> ActionFn \<times> addr \<Rightarrow> orazio \<Rightarrow> bool" where
  "registered = (\<lambda>(type, size, buffer, action, args) s. let t = unat type; info = packet_infos s ! t in
     operations (base_handler s) ! t = info_ops t \<and> op_type (ops_at s (info_ops t)) = type
     \<and> op_size (ops_at s (info_ops t)) = word_of_nat size \<and> packet_buffers_max info = 2
     \<and> deferred_action_fn info = Some action \<and> deferred_action_args info = args)"

definition entry_type :: "u8 \<times> nat \<times> addr \<times> ActionFn \<times> addr \<Rightarrow> nat" where
  "entry_type = (\<lambda>(type, size, buffer, action, args). unat type)"

definition tables_full :: "orazio \<Rightarrow> bool" where
  "tables_full s \<longleftrightarrow> length (packet_infos s) = 20 \<and> length (operations (base_handler s)) = 20"

lemma install_registers:
  assumes "install e s = Inr s'" and "tables_full s" and "entry_type e < 20" and "operations (base_handler s) ! entry_type e = NULL"
  shows "registered e s'" and "tables_full s'"
    and "entry_type e' \<noteq> entry_type e \<Longrightarrow> registered e' s' = registered e' s"
    and "t \<noteq> entry_type e \<Longrightarrow> operations (base_handler s') ! t = operations (base_handler s) ! t"
proof -
  obtain type size buffer action args where e: "e = (type, size, buffer, action, args)" by (cases e)
  let ?t = "unat type"
  obtain bufs where s': "s' = s\<lparr>ops_at := (ops_at s)(info_ops ?t := \<lparr>op_type = type, op_size = word_of_nat size,
       initialize_buffer_fn = Deferred_initializeBuffer, initialize_buffer_args = DEFERRED_HANDLER,
       on_receive_fn = Some Deferred_onReceive, on_receive_args = DEFERRED_HANDLER\<rparr>),
     packet_infos := (packet_infos s)[?t := \<lparr>packet_buffers = bufs, packet_buffers_max = 2, packet_buffers_size = 0,
       packet_buffers_start = 0, packet_buffers_end = 0, deferred_action_fn = Some action, deferred_action_args = args\<rparr>],
     base_handler := (base_handler s)\<lparr>operations := (operations (base_handler s))[?t := info_ops ?t]\<rparr>\<rparr>"
    using assms
    by (auto simp: e install_def DeferredPacketHandler_installPacket_def PacketHandler_installPacket_def Let_def entry_type_def bindR_Inr_iff
        split: prod.splits if_splits)
  have t: "?t < 20" "length (packet_infos s) = 20" "length (operations (base_handler s)) = 20"
    using assms(2,3) by (simp_all add: e entry_type_def tables_full_def)
  show "registered e s'" using t by (simp add: e registered_def s' Let_def)
  show "tables_full s'" using t by (simp add: tables_full_def s')
  show "registered e' s' = registered e' s" if "entry_type e' \<noteq> entry_type e"
    using that by (cases e') (simp add: registered_def s' Let_def e entry_type_def)
  show "operations (base_handler s') ! t = operations (base_handler s) ! t" if "t \<noteq> entry_type e"
    using that by (simp add: s' e entry_type_def)
qed

lemma install_all_registers:
  assumes "foldR install es s = Inr s'" and "tables_full s" and "distinct (map entry_type es)"
    and "\<forall>e \<in> set es. entry_type e < 20 \<and> operations (base_handler s) ! entry_type e = NULL"
  shows "(\<forall>e \<in> set es. registered e s') \<and> (\<forall>e. entry_type e \<notin> entry_type ` set es \<longrightarrow> registered e s \<longrightarrow> registered e s')"
  using assms
proof (induction es arbitrary: s)
  case (Cons e es)
  obtain s1 where s1: "install e s = Inr s1" "foldR install es s1 = Inr s'" using Cons.prems(1) by (auto simp: bindR_Inr_iff)
  note r = install_registers[OF s1(1) Cons.prems(2)]
  have e: "entry_type e < 20" "operations (base_handler s) ! entry_type e = NULL" using Cons.prems(4) by simp_all
  have "\<forall>e' \<in> set es. entry_type e' < 20 \<and> operations (base_handler s1) ! entry_type e' = NULL"
    using Cons.prems(3,4) r(4)[OF e] by (metis distinct.simps(2) image_eqI list.set_intros(2) list.set_map list.simps(9))
  from Cons.IH[OF s1(2) r(2)[OF e] _ this] Cons.prems(3)
  have ih: "\<forall>e \<in> set es. registered e s'" "\<forall>e. entry_type e \<notin> entry_type ` set es \<longrightarrow> registered e s1 \<longrightarrow> registered e s'" by auto
  have "entry_type e \<notin> entry_type ` set es" using Cons.prems(3) by auto
  then have "registered e s'" using ih(2) r(1)[OF e] by blast
  moreover have "registered e' s'" if "entry_type e' \<notin> entry_type ` set (e # es)" "registered e' s" for e'
    using that ih(2)[rule_format, of e'] r(3)[OF e, of e'] by simp
  ultimately show ?case using ih(1) by simp
qed simp

lemma packet_table_types: "distinct (map entry_type packet_table)" "\<forall>e \<in> set packet_table. entry_type e < 20"
  by (simp_all add: packet_table_def entry_type_def)

lemma commInit_registers:
  assumes "Orazio_commInit s = Inr s'" and "e \<in> set packet_table"
  shows "registered e s'"
proof -
  obtain s2 where s2: "foldR install packet_table s2 = Inr s'" "tables_full s2" "\<forall>t < 20. operations (base_handler s2) ! t = NULL"
    using assms(1)
    by (auto simp: Orazio_commInit_def Let_def Orazio_initializePackets_def DeferredPacketHandler_initialize_def
        PacketHandler_initialize_def tables_full_def split: prod.splits)
  from install_all_registers[OF s2(1,2) packet_table_types(1)] packet_table_types(2) s2(3) assms(2) show ?thesis by blast
qed

section \<open>From the line to the action\<close>

text \<open>After a whole packet the receiver is as it was before.\<close>

definition same_receiver :: "orazio \<Rightarrow> orazio \<Rightarrow> bool" where
  "same_receiver s s' \<longleftrightarrow> rxFn (base_handler s') = rxFn (base_handler s) \<and> (\<forall>e. registered e s' = registered e s)
     \<and> tx_items (base_handler s') = tx_items (base_handler s) \<and> rx_waiting s' = 0"

lemma registered_cong:
  assumes "operations (base_handler s') = operations (base_handler s)" and "ops_at s' = ops_at s" and "same_actions s s'"
  shows "registered e s' = registered e s"
  using assms by (cases e) (simp add: registered_def same_actions_def Let_def)

lemma registered_ring:
  assumes "orazio_inv s" and "pending s = []" and "registered (type, sz, buffer, action, args) s" and "unat type < 20"
  shows "packet_buffers_size (packet_infos s ! unat type) < packet_buffers_max (packet_infos s ! unat type)"
proof -
  have d: "deferred_inv s" using assms(1) by (simp add: orazio_inv_def handler_inv_def receiver_inv_def)
  have "info_items (packet_infos s ! unat type) = []" using deferred_invD(6)[OF d assms(4)] assms(2) by simp
  from info_items_Nil[OF deferred_invD(5)[OF d assms(4)] this] show ?thesis
    using assms(3) by (simp add: registered_def Let_def)
qed

text \<open>
  A frame of a registered type that waits in the serial queue: reading the line queues the packet, and processing
  runs the action of the type on it.
\<close>

lemma command_dispatched:
  assumes inv: "orazio_inv s" "pending s = []" "rxFn (base_handler s) = rxAA"
    and reg: "registered (type, sz, buffer, action, args) s" "(type, sz, buffer, action, args) \<in> set packet_table"
    and pkt: "length pkt = sz" "pkt ! 0 = type" "pkt ! 1 = word_of_nat sz"
    and line: "uart_rx_items (uart_0 (fw s)) = frame pkt"
  shows "\<exists>s1 b. Orazio_flushInputBuffers s = Inr s1 \<and> orazio_inv s1 \<and> same_data (fw s) (fw s1) \<and> same_receiver s s1
    \<and> read_mem (mem s1) b sz = pkt
    \<and> process_packets s1 = bindR (orazio_action action b args (cycle_start s1)) (\<lambda>s'. Inr (retire_all s'))"
proof -
  let ?t = "unat type"
  let ?s = "upd_status (\<lambda>st. st\<lparr>ss_rx_buffer_size := word_of_nat (rx_waiting s)\<rparr>) s"
  have ty: "?t < 20" "3 \<le> sz" "sz < 256" using reg(2) by (auto simp: packet_table_def sizeof_defs)
  have i: "orazio_inv ?s" by (rule upd_status_inv[OF inv(1)]) simp
  have s: "orazio_inv ?s" "pending ?s = []" "base_handler ?s = base_handler s" "registered (type, sz, buffer, action, args) ?s"
    "uart_rx_items (uart_0 (fw ?s)) = frame pkt" "same_data (fw s) (fw ?s)"
    using i inv reg line
    by (simp_all add: upd_status_def upd_fw_def pending_def registered_def same_data_def settings_def Let_def
        del: length_uart_items)
  have h: "handler_inv (base_handler ?s) ?s" using s(1) by (simp add: orazio_inv_def)
  have wf: "wf_packet pkt (ops_at ?s (info_ops ?t))"
    using s(4) pkt ty by (simp add: wf_packet_def registered_def Let_def unat_of_nat)
  have op: "operations (base_handler ?s) ! ?t \<noteq> NULL" using s(4) by (simp add: registered_def Let_def)
  have few: "pending_packets_size ?s < int PENDING_PACKETS_MAX"
  proof -
    have "deferred_inv ?s" using h by (simp add: handler_inv_def receiver_inv_def)
    from deferred_invD(2,3)[OF this] s(2) show ?thesis by (auto simp: pending_def)
  qed
  obtain sts h' s2 b where run: "rx_run orazio_gen orazio_on_rx (frame pkt) (base_handler ?s) ?s = Inr (sts, h', s2)"
    and s2: "pending s2 = [b]" "read_mem (mem s2) b (length pkt) = pkt" "ops_at s2 = ops_at ?s" "same_actions ?s s2"
      "rxFn h' = rxAA" "operations h' = operations (base_handler ?s)"
    using queue_frame[OF h _ ty(1) op, where pkt = pkt] inv(3) s(2,3) pkt(2) wf registered_ring[OF s(1,2,4) ty(1)] few
    unfolding orazio_gen_def orazio_on_rx_def by fastforce
  obtain f where f: "flushInput_loop ?s = Inr (with_globals h' f s2)" "same_data (fw ?s) f"
    using flushInput_loop_run[OF s(1,5) run] by blast
  let ?s1 = "with_globals h' f s2"
  have "uart_ready (fw s)" using inv(1) by (simp add: orazio_inv_def serial_ok_def)
  then have flush: "Orazio_flushInputBuffers s = Inr ?s1" using f(1) by (simp add: Orazio_flushInputBuffers_def)
  obtain s' where "Orazio_flushInputBuffers s = Inr s'" "orazio_inv s'" using flushInputBuffers_inv[OF inv(1)] by blast
  moreover obtain s'' where "Orazio_flushInputBuffers s = Inr s''" "rx_waiting s'' = 0" "tx_items (base_handler s'') = tx_items (base_handler s)"
    using flushInputBuffers_inv[OF inv(1)] by blast
  ultimately have i1: "orazio_inv ?s1" "rx_waiting ?s1 = 0" "tx_items (base_handler ?s1) = tx_items (base_handler s)"
    using flush by simp_all
  have "ops_at ?s1 = ops_at s" "operations (base_handler ?s1) = operations (base_handler s)" "same_actions s ?s1"
    using s2(3,4,6) s(3) by (simp_all add: same_actions_def upd_status_def upd_fw_def)
  from registered_cong[OF this(2,1,3)] have rcv: "same_receiver s ?s1"
    using i1(2,3) s2(5) inv(3) by (simp add: same_receiver_def)
  have "mem ?s1 b = type" using s2(2) pkt(1,2) ty(2) nth_read_mem[of 0 "length pkt" "mem s2" b] by simp
  moreover have "deferred_action_fn (packet_infos ?s1 ! ?t) = Some action" "deferred_action_args (packet_infos ?s1 ! ?t) = args"
    using s(4) s2(4) by (simp_all add: registered_def same_actions_def Let_def)
  ultimately have "run_action orazio_action b (cycle_start ?s1) = orazio_action action b args (cycle_start ?s1)"
    by (simp add: run_action_def cycle_start_def upd_status_def upd_fw_def Let_def)
  then have "process_packets ?s1 = bindR (orazio_action action b args (cycle_start ?s1)) (\<lambda>s'. Inr (retire_all s'))"
    using process_packets_eq[OF i1(1)] s2(1) by (simp add: foldR_single)
  then show ?thesis
    using flush i1(1) rcv same_data_trans[OF s(6) f(2)] s2(2) pkt(1) by (intro exI[of _ ?s1] exI[of _ b]) simp
qed

section \<open>The command of the host\<close>

definition robot_receives :: "u8 list \<Rightarrow> orazio \<Rightarrow> orazio" where
  "robot_receives bs s = s\<lparr>fw := fold receive_byte bs (fw s)\<rparr>"

lemma receive_byte_ok:
  assumes "fw_ready f" and "serial_ok f"
  shows "fw_ready (receive_byte c f)" and "serial_ok (receive_byte c f)" and "same_data f (receive_byte c f)"
proof -
  show "fw_ready (receive_byte c f)" "serial_ok (receive_byte c f)"
    using irq_ready[OF assms, of "RxByte c"] by (simp_all add: irq_call_def receive_byte_def)
  have "uart_tx_items (uart_rx_put c u) = uart_tx_items u" for u :: UART
    by (simp add: uart_rx_put_def uart_tx_items_def del: length_uart_items split: prod.splits)
  then show "same_data f (receive_byte c f)"
    by (simp add: same_data_def settings_def receive_byte_def USART0_RX_isr_def Let_def set_reg_def del: length_uart_items)
qed

lemma receive_bytes_ok:
  "fw_ready f \<Longrightarrow> serial_ok f \<Longrightarrow> fw_ready (fold receive_byte bs f) \<and> serial_ok (fold receive_byte bs f) \<and> same_data f (fold receive_byte bs f)"
proof (induction bs arbitrary: f)
  case (Cons c bs)
  note b = receive_byte_ok[OF Cons.prems, of c]
  from Cons.IH[OF b(1,2)] same_data_trans[OF b(3)] show ?case by auto
qed simp

lemma robot_receives_ok:
  assumes "orazio_inv s" and "uart_rx_items (uart_0 (fw s)) = []" and "length bs \<le> 255"
  shows "orazio_inv (robot_receives bs s)" and "uart_rx_items (uart_0 (fw (robot_receives bs s))) = bs"
    and "same_data (fw s) (fw (robot_receives bs s))"
proof -
  note r = receive_bytes_ok[OF orazio_invD(3,4)[OF assms(1)], of bs]
  show "orazio_inv (robot_receives bs s)" using r orazio_invI[OF assms(1)] by (simp add: robot_receives_def)
  show "same_data (fw s) (fw (robot_receives bs s))" using r by (simp add: robot_receives_def)
  have "uart_rx_ok (uart_0 (fw s))" using assms(1) by (simp add: orazio_inv_def serial_ok_def)
  then show "uart_rx_items (uart_0 (fw (robot_receives bs s))) = bs"
    using uart_rx.put_all[of "uart_0 (fw s)" bs] assms(2,3)
    by (simp add: robot_receives_def receive_bytes_uart del: length_uart_items)
qed

lemma flushBuffer_writes:
  assumes "tx_ok (packet_handler cl)" and "\<forall>bs. write_ok cl bs"
  shows "\<exists>cl'. flushBuffer cl = Inr cl' \<and> written cl' = written cl @ tx_items (packet_handler cl)
    \<and> tx_items (packet_handler cl') = [] \<and> tx_ok (packet_handler cl')"
  using assms
proof (induction "tx_items (packet_handler cl)" arbitrary: cl)
  case Nil
  then have "tx_size (packet_handler cl) = 0" using tx_okI length_tx_items[of "packet_handler cl"] by (auto simp: tx_ok_def)
  then show ?case using Nil by (simp add: flushBuffer.simps[of cl])
next
  case (Cons x xs)
  note t = PacketHandler_txByte_ok[OF Cons.prems(1) Cons.hyps(2)[symmetric]]
  have n: "0 < tx_size (packet_handler cl)"
    using arg_cong[OF Cons.hyps(2), of length] by simp
  let ?cl = "flush_step cl"
  have f: "packet_handler ?cl = snd (PacketHandler_txByte (packet_handler cl))" "written ?cl = written cl @ [x]" "\<forall>bs. write_ok ?cl bs"
    using t Cons.prems(2) by (auto simp: flush_step_def write_byte_def split: prod.splits)
  have "xs = tx_items (packet_handler ?cl)" "tx_ok (packet_handler ?cl)" using t f(1) by simp_all
  from Cons.hyps(1)[OF this f(3)] obtain cl' where "flushBuffer ?cl = Inr cl'" "written cl' = written ?cl @ tx_items (packet_handler ?cl)"
    "tx_items (packet_handler cl') = []" "tx_ok (packet_handler cl')" by blast
  moreover have "tx_items (packet_handler cl) = x # tx_items (packet_handler ?cl)" using Cons.hyps(2) t f(1) by simp
  ultimately show ?case using n f(2) by (simp add: flushBuffer.simps[of cl])
qed

definition drive_entry :: "u8 \<times> nat \<times> addr \<times> ActionFn \<times> addr" where
  "drive_entry = (DIFFERENTIAL_DRIVE_CONTROL_PACKET_ID, sizeof_DifferentialDriveControlPacket,
     differential_drive_control_packet_buffer, Fn_handlePacket, 0x102)"

lemma drive_entry_table: "drive_entry \<in> set packet_table"
  by (simp add: drive_entry_def packet_table_def)

definition velocity_command :: "u16 \<Rightarrow> f32 \<Rightarrow> f32 \<Rightarrow> DifferentialDriveControlPacket" where
  "velocity_command q tv rv = \<lparr>dc_header = \<lparr>h_type = DIFFERENTIAL_DRIVE_CONTROL_PACKET_ID,
     h_size = word_of_nat sizeof_DifferentialDriveControlPacket, h_seq = q\<rparr>,
     dc_translational_velocity = tv, dc_rotational_velocity = rv\<rparr>"

lemma velocity_command_bytes:
  "put_DifferentialDriveControlPacket (velocity_command q tv rv) ! 0 = DIFFERENTIAL_DRIVE_CONTROL_PACKET_ID"
  "put_DifferentialDriveControlPacket (velocity_command q tv rv) ! Suc 0 = word_of_nat sizeof_DifferentialDriveControlPacket"
  "take 2 (put_DifferentialDriveControlPacket (velocity_command q tv rv)) @ put16 q'
     @ drop 4 (put_DifferentialDriveControlPacket (velocity_command q tv rv)) = put_DifferentialDriveControlPacket (velocity_command q' tv rv)"
  by (simp_all add: put_DifferentialDriveControlPacket_def velocity_command_def put_PacketHeader_bytes)

lemma client_sends_velocity:
  assumes "client_ready cl" and "tx_items (packet_handler cl) = []" and "\<forall>bs. write_ok cl bs"
  shows "\<exists>cl1 cl2. client_send (put_DifferentialDriveControlPacket (velocity_command q tv rv)) cl
      = (Success, put_DifferentialDriveControlPacket (velocity_command (cl_global_seq cl + 1) tv rv), cl1)
    \<and> flushBuffer cl1 = Inr cl2
    \<and> written cl2 = written cl @ frame (put_DifferentialDriveControlPacket (velocity_command (cl_global_seq cl + 1) tv rv))"
proof -
  let ?p = "put_DifferentialDriveControlPacket (velocity_command (cl_global_seq cl + 1) tv rv)"
  have size: "packet_sizes cl ! unat (DIFFERENTIAL_DRIVE_CONTROL_PACKET_ID :: u8) = word_of_nat sizeof_DifferentialDriveControlPacket"
    using assms(1) by (simp add: client_ready_def outgoing_sizes_def)
  have tx: "tx_ok (packet_handler cl)" using assms(1) by (simp add: client_ready_def)
  have len: "length ?p = unat (?p ! 1)" by (simp add: velocity_command_bytes sizeof_DifferentialDriveControlPacket_def)
  note s = sendPacket_ok[OF tx len]
  have fits: "length (tx_items (packet_handler cl)) + length ?p + 3 \<le> 254"
    unfolding assms(2) by (simp add: sizeof_DifferentialDriveControlPacket_def)
  obtain h where h: "PacketHandler_sendPacket ?p (packet_handler cl) = (Success, h)" "tx_items h = frame ?p" "tx_ok h"
    using s[OF fits] unfolding assms(2) by (cases "PacketHandler_sendPacket ?p (packet_handler cl)") simp
  let ?cl1 = "cl\<lparr>cl_global_seq := cl_global_seq cl + 1, packet_handler := h\<rparr>"
  have send: "client_send (put_DifferentialDriveControlPacket (velocity_command q tv rv)) cl = (Success, ?p, ?cl1)"
    using size h(1) by (simp add: client_send_def Let_def velocity_command_bytes sizeof_DifferentialDriveControlPacket_def)
  obtain cl2 where "flushBuffer ?cl1 = Inr cl2" "written cl2 = written ?cl1 @ tx_items (packet_handler ?cl1)"
    using flushBuffer_writes[of ?cl1] h(3) assms(3) by auto
  then show ?thesis using send h(2) by auto
qed

text \<open>
  C2. A velocity command from the host to the wheels: the client stores, numbers and writes the command. When the robot, idle
  and with nothing on its line, has received exactly the written bytes, reading its serial line and processing the packets
  stores the command with its velocities, leaves the other settings alone (the parameters and the joint controls; counters and the response change)
  and queues the response \<open>Success\<close> when there is room for it. Provided the number is not the one of the last executed command,
  the next control step enables the drive and puts both wheels under speed control.
\<close>

theorem command_reaches_robot:
  assumes "client_ready cl" and "tx_items (packet_handler cl) = []" and "\<forall>bs. write_ok cl bs"
    and "drive_control_packet cl = velocity_command q tv0 rv0"
    and "orazio_inv s" and "pending s = []" and "rxFn (base_handler s) = rxAA" and "uart_rx_items (uart_0 (fw s)) = []"
    and "registered drive_entry s" and "cl_global_seq cl + 1 \<noteq> last_drive_control_seq (fw s)"
  shows "\<exists>cl1 pkt cl2 cl3 s1 s2 f l r.
      OrazioClient_setBaseVelocity tv rv cl = Inr cl1
    \<and> client_send (put_DifferentialDriveControlPacket (drive_control_packet cl1)) cl1 = (Success, pkt, cl2)
    \<and> flushBuffer cl2 = Inr cl3 \<and> written cl3 = written cl @ frame pkt
    \<and> Orazio_flushInputBuffers (robot_receives (frame pkt) s) = Inr s1 \<and> process_packets s1 = Inr s2 \<and> orazio_inv s2
    \<and> settings (fw s2) = settings ((fw s)\<lparr>drive_control := velocity_command (cl_global_seq cl + 1) tv rv\<rparr>)
    \<and> tx_items (base_handler s2) = tx_items (base_handler s) @ (if room sizeof_ResponsePacket (base_handler s)
        then frame (reply (global_seq (fw s) + 1) (dc_header (velocity_command (cl_global_seq cl + 1) tv rv)) Success) else [])
    \<and> Orazio_driveControl (fw s2) = Inr f \<and> ds_enabled (drive_status f) = 1
    \<and> dd_control_left (drive_controller (fw s)) = Some l \<and> dd_control_right (drive_controller (fw s)) = Some r
    \<and> jc_mode (jct_control (joint_control f ! l)) = JointPID \<and> jc_mode (jct_control (joint_control f ! r)) = JointPID"
proof -
  let ?cl1 = "cl\<lparr>drive_control_packet := velocity_command 1 tv rv\<rparr>"
  let ?cmd = "velocity_command (cl_global_seq cl + 1) tv rv"
  let ?pkt = "put_DifferentialDriveControlPacket ?cmd"
  let ?n = sizeof_DifferentialDriveControlPacket
  have set: "OrazioClient_setBaseVelocity tv rv cl = Inr ?cl1"
    using assms(1,4) by (simp add: OrazioClient_setBaseVelocity_def lock_write_def unlock_write_def client_ready_def velocity_command_def Let_def)
  have "client_ready ?cl1" using assms(1) by (simp add: client_ready_def client_idle_def client_ops_ok_def)
  from client_sends_velocity[OF this, of 1 tv rv] assms(2,3) obtain cl2 cl3 where
    host: "client_send (put_DifferentialDriveControlPacket (drive_control_packet ?cl1)) ?cl1 = (Success, ?pkt, cl2)"
      "flushBuffer cl2 = Inr cl3" "written cl3 = written cl @ frame ?pkt"
    by auto
  let ?s = "robot_receives (frame ?pkt) s"
  have "length (frame ?pkt) \<le> 255" by (simp add: sizeof_DifferentialDriveControlPacket_def)
  note r = robot_receives_ok[OF assms(5,8) this]
  have s: "pending ?s = []" "rxFn (base_handler ?s) = rxAA" "registered drive_entry ?s"
    using assms(6,7,9) by (simp_all add: robot_receives_def pending_def registered_def drive_entry_def Let_def)
  from command_dispatched[OF r(1) s(1,2) s(3)[unfolded drive_entry_def] drive_entry_table[unfolded drive_entry_def], of ?pkt] r(2)
  obtain s1 b where s1: "Orazio_flushInputBuffers ?s = Inr s1" "orazio_inv s1" "same_data (fw ?s) (fw s1)" "read_mem (mem s1) b ?n = ?pkt"
    "tx_items (base_handler s1) = tx_items (base_handler ?s)"
    "process_packets s1 = bindR (orazio_action Fn_handlePacket b 0x102 (cycle_start s1)) (\<lambda>s'. Inr (retire_all s'))"
    by (auto simp: velocity_command_bytes same_receiver_def del: length_uart_items)
  have same: "same_data (fw s) (fw s1)" using same_data_trans[OF r(3) s1(3)] .
  let ?c = "cycle_start s1"
  have c: "orazio_inv ?c" "mem ?c = mem s1" "settings (fw ?c) = settings (fw s1)" "last_drive_control_seq (fw ?c) = last_drive_control_seq (fw s1)"
    "drive_controller (fw ?c) = drive_controller (fw s1)" "global_seq (fw ?c) = global_seq (fw s1) + 1" "base_handler ?c = base_handler s1"
    using cycle_start_inv[OF s1(2)] by (simp_all add: cycle_start_def upd_status_def upd_fw_def settings_def Let_def)
  have "h_seq (dc_header ?cmd) \<noteq> last_drive_control_seq (fw ?c)" "h_size (dc_header ?cmd) = word_of_nat ?n"
    using assms(10) same c(4) by (simp_all add: velocity_command_def same_data_def)
  moreover have "read_mem (mem ?c) b ?n = ?pkt" using s1(4) c(2) by simp
  ultimately obtain s' f l r where
    s': "Orazio_handlePacket b 0x102 ?c = Inr (Success, s')" "orazio_inv s'" "settings (fw s') = settings ((fw ?c)\<lparr>drive_control := ?cmd\<rparr>)"
      "tx_items (base_handler s') = tx_items (base_handler ?c) @ (if room sizeof_ResponsePacket (base_handler ?c)
         then frame (reply (global_seq (fw ?c)) (dc_header ?cmd) Success) else [])"
    and f: "Orazio_driveControl (fw s') = Inr f" "ds_enabled (drive_status f) = 1"
      "dd_control_left (drive_controller (fw ?c)) = Some l" "dd_control_right (drive_controller (fw ?c)) = Some r"
      "jc_mode (jct_control (joint_control f ! l)) = JointPID" "jc_mode (jct_control (joint_control f ! r)) = JointPID"
    using drive_command_handled[OF c(1)] by blast
  have robot: "drive_controller (fw ?c) = drive_controller (fw s)" "global_seq (fw ?c) = global_seq (fw s) + 1"
    "tx_items (base_handler ?c) = tx_items (base_handler s)"
    using c(5-7) same s1(5) by (simp_all add: same_data_def robot_receives_def)
  have proc: "process_packets s1 = Inr (retire_all s')" using s'(1) by (simp add: s1(6) orazio_action_def)
  have i2: "orazio_inv (retire_all s')" by (rule process_packets_inv(1)[OF s1(2) proc])
  have keep: "fw (retire_all s') = fw s'" "base_handler (retire_all s') = base_handler s'" by (simp_all add: retire_all_def)
  have set': "settings (fw s') = settings ((fw s)\<lparr>drive_control := ?cmd\<rparr>)"
    using s'(3) c(3) same by (simp add: settings_def same_data_def)
  have tx: "tx_items (base_handler s') = tx_items (base_handler s) @ (if room sizeof_ResponsePacket (base_handler s)
      then frame (reply (global_seq (fw s) + 1) (dc_header ?cmd) Success) else [])"
    using s'(4) by (simp only: robot room_def)
  show ?thesis
    using set host s1(1) proc i2 set' tx f unfolding robot(1)
    by (intro exI[of _ ?cl1] exI[of _ ?pkt] exI[of _ cl2] exI[of _ cl3] exI[of _ s1] exI[of _ "retire_all s'"] exI[of _ f] exI[of _ l] exI[of _ r])
      (simp add: keep)
qed

text \<open>The example robot and client satisfy the hypotheses.\<close>

lemma install_rx: "install e s = Inr s' \<Longrightarrow> rxFn (base_handler s') = rxFn (base_handler s)"
  by (auto simp: install_def bindR_Inr_iff DeferredPacketHandler_installPacket_def PacketHandler_installPacket_def Let_def
      split: prod.splits if_splits)

lemma install_all_rx: "foldR install es s = Inr s' \<Longrightarrow> rxFn (base_handler s') = rxFn (base_handler s)"
  by (induction es arbitrary: s) (auto simp: bindR_Inr_iff install_rx)

lemma commInit_rx: "Orazio_commInit s = Inr s' \<Longrightarrow> rxFn (base_handler s') = rxAA"
  by (auto simp: Orazio_commInit_def Let_def Orazio_initializePackets_def DeferredPacketHandler_initialize_def
      PacketHandler_initialize_def split: prod.splits dest!: install_all_rx)

lemma install_ops_keep:
  "install_ops es cl = Some cl' \<Longrightarrow> write_ok cl' = write_ok cl \<and> drive_control_packet cl' = drive_control_packet cl
    \<and> cl_global_seq cl' = cl_global_seq cl"
  by (induction es arbitrary: cl) (auto simp: installPacketOp_def Let_def split: option.splits prod.splits if_splits)

lemma client_init_keep:
  "OrazioClient_init fd attribs cl0 = Some (Some cl) \<Longrightarrow> write_ok cl = write_ok cl0 \<and> drive_control_packet cl = host_drive_control
    \<and> cl_global_seq cl = 0"
  by (auto simp: OrazioClient_init_def Let_def put_area_def dest!: install_ops_keep split: option.splits if_splits)

lemma sample_client_fields: "write_ok sample_client = (\<lambda>_. True)" "drive_control_packet sample_client = host_drive_control"
  "cl_global_seq sample_client = 0"
  using client_init_keep[OF sample_client_ready(1)] by (simp_all add: blank_client_def)

theorem command_reaches_robot_witness:
  "\<exists>pkt cl1 cl2 cl3 s1 s2 f. OrazioClient_setBaseVelocity 1056964608 0 sample_client = Inr cl1
    \<and> client_send (put_DifferentialDriveControlPacket (drive_control_packet cl1)) cl1 = (Success, pkt, cl2)
    \<and> flushBuffer cl2 = Inr cl3
    \<and> Orazio_flushInputBuffers (robot_receives (frame pkt) sample) = Inr s1 \<and> process_packets s1 = Inr s2
    \<and> dc_translational_velocity (drive_control (fw s2)) = 1056964608
    \<and> Orazio_driveControl (fw s2) = Inr f \<and> ds_enabled (drive_status f) = 1"
proof -
  have "drive_control_packet sample_client = velocity_command 0 0 0"
    by (simp add: sample_client_fields host_drive_control_def velocity_command_def)
  moreover have "uart_rx_items (uart_0 (fw sample)) = []" by (simp add: sample_fw started_fields uart_items_Nil del: length_uart_items)
  moreover have "cl_global_seq sample_client + 1 \<noteq> last_drive_control_seq (fw sample)"
    by (simp add: sample_client_fields sample_fw started_fields)
  ultimately show ?thesis
    using command_reaches_robot[OF sample_client_ready(2,4) _ _ sample_boot(2,3) commInit_rx[OF sample_boot(1)] _
        commInit_registers[OF sample_boot(1) drive_entry_table], where tv = 1056964608 and rv = 0]
    by (fastforce simp: sample_client_fields(1) settings_def velocity_command_def)
qed

end
