(* ===== verification/Query.thy ===== *)
theory Query
  imports CommandLink
begin

text \<open>
  The robot answers a request for parameters: the parameters leave in front of the response, and
  the response in front of the epoch of the cycle. Only sequence numbers and counters of the robot change.
\<close>

section \<open>The parameter packets\<close>

text \<open>Where the answer to a request is taken from: object, offset and size.\<close>

definition asked :: "u8 \<Rightarrow> u8 \<Rightarrow> (Obj \<times> nat \<times> nat) option" where
  "asked t i =
     (if t = ParamSystem then Some (OSystemParams, 0, sizeof_SystemParamPacket)
      else if t = ParamJointsSingle
        then (if unat i < NUM_JOINTS then Some (OJointParams, unat i * sizeof_JointParamPacket, sizeof_JointParamPacket) else None)
      else if t = ParamDrive then Some (ODriveParams, 0, sizeof_DifferentialDriveParamPacket)
      else if t = ParamSonar then Some (OSonarParams, 0, sizeof_SonarParamPacket)
      else None)"

definition param_ptrs :: "(Obj \<times> nat \<times> nat) list" where
  "param_ptrs = [(OSystemParams, 0, sizeof_SystemParamPacket), (OJointParams, 0, sizeof_JointParamPacket),
     (OJointParams, sizeof_JointParamPacket, sizeof_JointParamPacket), (ODriveParams, 0, sizeof_DifferentialDriveParamPacket),
     (OSonarParams, 0, sizeof_SonarParamPacket)]"

lemma asked_ptr:
  assumes "asked t i = Some (ob, off, n)"
  shows "(ob, off, n) \<in> set param_ptrs" and "param_target t i = Some (ob, int off)" and "input_obj ob"
proof -
  have "(ob, off, n) \<in> set param_ptrs \<and> param_target t i = Some (ob, int off) \<and> input_obj ob"
  proof (cases "t \<noteq> ParamSystem \<and> t = ParamJointsSingle")
    case True
    then have "unat i < 2" "ob = OJointParams" "off = unat i * sizeof_JointParamPacket" "n = sizeof_JointParamPacket"
      using assms by (simp_all add: asked_def split: if_splits)
    then show ?thesis using True by (auto simp: param_ptrs_def param_target_def input_obj_def less_2_cases_iff)
  next
    case False
    then show ?thesis using assms by (auto simp: asked_def param_ptrs_def param_target_def input_obj_def split: if_splits)
  qed
  then show "(ob, off, n) \<in> set param_ptrs" "param_target t i = Some (ob, int off)" "input_obj ob" by simp_all
qed

text \<open>The headers of the parameter packets: types, sizes, and indices of the joints.\<close>

definition param_headers :: "'a firmware_scheme \<Rightarrow> bool" where
  "param_headers f \<longleftrightarrow> header_ok (sp_header (system_params f)) SYSTEM_PARAM_PACKET_ID sizeof_SystemParamPacket
     \<and> (\<forall>i \<in> {0, 1}. header_ok (pi_header (jpp_header (joint_params f ! i))) JOINT_PARAM_PACKET_ID sizeof_JointParamPacket
          \<and> pi_index (jpp_header (joint_params f ! i)) = word_of_nat i)
     \<and> header_ok (dp_header (drive_params f)) DIFFERENTIAL_DRIVE_PARAM_PACKET_ID sizeof_DifferentialDriveParamPacket
     \<and> header_ok (snp_header (sonar_params f)) SONAR_PARAM_PACKET_ID sizeof_SonarParamPacket"

text \<open>A packet with another sequence number.\<close>

definition stamp_joint_param :: "u16 \<Rightarrow> JointParamPacket \<Rightarrow> JointParamPacket" where
  "stamp_joint_param q p = p\<lparr>jpp_header := (jpp_header p)\<lparr>pi_header := stamp_header q (pi_header (jpp_header p))\<rparr>\<rparr>"

definition stamp_system_param :: "u16 \<Rightarrow> SystemParamPacket \<Rightarrow> SystemParamPacket" where
  "stamp_system_param q p = p\<lparr>sp_header := stamp_header q (sp_header p)\<rparr>"

definition stamp_drive_param :: "u16 \<Rightarrow> DifferentialDriveParamPacket \<Rightarrow> DifferentialDriveParamPacket" where
  "stamp_drive_param q p = p\<lparr>dp_header := stamp_header q (dp_header p)\<rparr>"

definition stamp_sonar_param :: "u16 \<Rightarrow> SonarParamPacket \<Rightarrow> SonarParamPacket" where
  "stamp_sonar_param q p = p\<lparr>snp_header := stamp_header q (snp_header p)\<rparr>"

lemmas stamp_params = stamp_joint_param_def stamp_system_param_def stamp_drive_param_def stamp_sonar_param_def stamp_header_def

lemma stamp_params_twice [simp]:
  "stamp_joint_param q (stamp_joint_param r p) = stamp_joint_param q p"
  "stamp_system_param q (stamp_system_param r p1) = stamp_system_param q p1"
  "stamp_drive_param q (stamp_drive_param r p2) = stamp_drive_param q p2"
  "stamp_sonar_param q (stamp_sonar_param r p3) = stamp_sonar_param q p3"
  by (simp_all add: stamp_params)

text \<open>The configuration of the robot: its parameters without the sequence numbers of the last sending.\<close>

definition config :: "'a firmware_scheme \<Rightarrow> SystemParamPacket \<times> JointParamPacket list \<times> DifferentialDriveParamPacket \<times> SonarParamPacket" where
  "config f = (stamp_system_param 0 (system_params f), map (stamp_joint_param 0) (joint_params f),
     stamp_drive_param 0 (drive_params f), stamp_sonar_param 0 (sonar_params f))"

lemma stamp_joint_put:
  "stamped q (put_JointParamPacket p @ r) = put_JointParamPacket (stamp_joint_param q p) @ r"
  by (simp add: put_JointParamPacket_def put_PacketIndexed_def stamped_header stamp_params)

lemma stamp_param_records:
  assumes "wf_fw f"
  shows "stamp (OSystemParams, 0) f = f\<lparr>system_params := stamp_system_param (global_seq f) (system_params f)\<rparr>"
    and "stamp (ODriveParams, 0) f = f\<lparr>drive_params := stamp_drive_param (global_seq f) (drive_params f)\<rparr>"
    and "stamp (OSonarParams, 0) f = f\<lparr>sonar_params := stamp_sonar_param (global_seq f) (sonar_params f)\<rparr>"
proof -
  have "stamped q (put_SystemParamPacket p) = put_SystemParamPacket (stamp_system_param q p)" for q p
    by (simp add: put_SystemParamPacket_def stamped_header stamp_params)
  then show "stamp (OSystemParams, 0) f = f\<lparr>system_params := stamp_system_param (global_seq f) (system_params f)\<rparr>"
    using system_param.exact_back[of "stamp_system_param (global_seq f) (system_params f)"] by (simp add: stamp_def)
  have "stamped q (put_DifferentialDriveParamPacket p) = put_DifferentialDriveParamPacket (stamp_drive_param q p)" for q p
    by (simp add: put_DifferentialDriveParamPacket_def stamped_header stamp_params)
  then show "stamp (ODriveParams, 0) f = f\<lparr>drive_params := stamp_drive_param (global_seq f) (drive_params f)\<rparr>"
    using drive_param.exact_back[of "stamp_drive_param (global_seq f) (drive_params f)"] by (simp add: stamp_def)
  have "stamped q (put_SonarParamPacket p) = put_SonarParamPacket (stamp_sonar_param q p)" for q p
    by (simp add: put_SonarParamPacket_def stamped_header stamp_params)
  moreover have "wf_SonarParamPacket (stamp_sonar_param q (sonar_params f))" for q
    using assms by (simp add: wf_fw_def wf_SonarParamPacket_def stamp_params)
  ultimately show "stamp (OSonarParams, 0) f = f\<lparr>sonar_params := stamp_sonar_param (global_seq f) (sonar_params f)\<rparr>"
    using sonar_param.exact_back[of "stamp_sonar_param (global_seq f) (sonar_params f)"] by (simp add: stamp_def)
qed

lemma stamp_joint_record:
  assumes "wf_fw f" and "i < 2"
  shows "stamp (OJointParams, i * sizeof_JointParamPacket) f
    = f\<lparr>joint_params := (joint_params f)[i := stamp_joint_param (global_seq f) (joint_params f ! i)]\<rparr>"
proof -
  have "length (joint_params f) = 2" using assms(1) by (simp add: wf_fw_def)
  then obtain a b where jp: "joint_params f = [a, b]" unfolding length_two by blast
  have wf: "wf_JointParamPacket a" "wf_JointParamPacket b" using assms(1) jp by (simp_all add: wf_fw_def)
  let ?xs = "(joint_params f)[i := stamp_joint_param (global_seq f) (joint_params f ! i)]"
  have "length (put_JointParamPacket a) = sizeof_JointParamPacket" using wf by simp
  then have eq: "take (i * sizeof_JointParamPacket) (obj_bytes OJointParams f)
      @ stamped (global_seq f) (drop (i * sizeof_JointParamPacket) (obj_bytes OJointParams f)) = concat (map put_JointParamPacket ?xs)"
    using assms(2) stamp_joint_put[of _ _ "[]"] by (auto simp: jp less_2_cases_iff stamp_joint_put)
  have "\<forall>p \<in> set ?xs. wf_JointParamPacket p"
    using wf assms(2) by (auto simp: jp less_2_cases_iff wf_JointParamPacket_def stamp_params)
  moreover have "length ?xs = 2" by (simp only: length_list_update jp) simp
  ultimately have "get_array get_JointParamPacket 2 (concat (map put_JointParamPacket ?xs)) = ?xs"
    using joint_param.array_get[of ?xs "[]"] by simp
  then show ?thesis by (simp only: stamp_def split eq obj_store.simps)
qed

text \<open>What a request asks for, as records.\<close>

lemma param_ptr_cases:
  assumes "p \<in> set param_ptrs"
  obtains "p = (OSystemParams, 0, sizeof_SystemParamPacket)" | "p = (ODriveParams, 0, sizeof_DifferentialDriveParamPacket)"
    | "p = (OSonarParams, 0, sizeof_SonarParamPacket)"
    | i where "i < 2" "p = (OJointParams, i * sizeof_JointParamPacket, sizeof_JointParamPacket)"
proof -
  note r = that
  have "p = (OJointParams, 0 * sizeof_JointParamPacket, sizeof_JointParamPacket)
      \<or> p = (OJointParams, 1 * sizeof_JointParamPacket, sizeof_JointParamPacket)
      \<or> p \<in> {(OSystemParams, 0, sizeof_SystemParamPacket), (ODriveParams, 0, sizeof_DifferentialDriveParamPacket),
          (OSonarParams, 0, sizeof_SonarParamPacket)}"
    using assms by (auto simp: param_ptrs_def)
  then show thesis using r(1-3) r(4)[of 0] r(4)[of 1] by fastforce
qed

lemma put_joint_param_header:
  "put_JointParamPacket p = put_PacketHeader (pi_header (jpp_header p)) @ put8 (pi_index (jpp_header p)) @ put_JointParams (jpp_param p)"
  by (simp add: put_JointParamPacket_def put_PacketIndexed_def)

lemma sent_params:
  assumes "wf_fw f" and "param_headers f"
  shows "sent f (OSystemParams, 0, n) = put_SystemParamPacket (stamp_system_param (global_seq f) (system_params f))"
    and "sent f (ODriveParams, 0, n) = put_DifferentialDriveParamPacket (stamp_drive_param (global_seq f) (drive_params f))"
    and "sent f (OSonarParams, 0, n) = put_SonarParamPacket (stamp_sonar_param (global_seq f) (sonar_params f))"
    and "i < 2 \<Longrightarrow> sent f (OJointParams, i * sizeof_JointParamPacket, n)
      = put_JointParamPacket (stamp_joint_param (global_seq f) (joint_params f ! i))"
proof -
  obtain a b where jp: "joint_params f = [a, b]" using assms(1) by (auto simp: wf_fw_def length_two)
  have wf: "wf_JointParamPacket a" "wf_JointParamPacket b" "wf_SonarParamPacket (sonar_params f)" using assms(1) jp by (simp_all add: wf_fw_def)
  note h = assms(2)[unfolded param_headers_def header_ok_def]
  show "sent f (OSystemParams, 0, n) = put_SystemParamPacket (stamp_system_param (global_seq f) (system_params f))"
    by (subst sent_bytes[where P="put_SystemParamPacket (system_params f)" and X="[]" and n=sizeof_SystemParamPacket,
          OF _ put_SystemParamPacket_def]) (use h in \<open>simp_all add: sizeof_SystemParamPacket_def put_SystemParamPacket_def[of "_\<lparr>sp_header := _\<rparr>"] stamp_params\<close>)
  show "sent f (ODriveParams, 0, n) = put_DifferentialDriveParamPacket (stamp_drive_param (global_seq f) (drive_params f))"
    by (subst sent_bytes[where P="put_DifferentialDriveParamPacket (drive_params f)" and X="[]" and n=sizeof_DifferentialDriveParamPacket,
          OF _ put_DifferentialDriveParamPacket_def]) (use h in \<open>simp_all add: sizeof_DifferentialDriveParamPacket_def put_DifferentialDriveParamPacket_def[of "_\<lparr>dp_header := _\<rparr>"] stamp_params\<close>)
  show "sent f (OSonarParams, 0, n) = put_SonarParamPacket (stamp_sonar_param (global_seq f) (sonar_params f))"
    by (subst sent_bytes[where P="put_SonarParamPacket (sonar_params f)" and X="[]" and n=sizeof_SonarParamPacket,
          OF _ put_SonarParamPacket_def]) (use h wf in \<open>simp_all add: sizeof_SonarParamPacket_def put_SonarParamPacket_def[of "_\<lparr>snp_header := _\<rparr>"] stamp_params\<close>)
  have joint: "sent f (OJointParams, off, n) = put_JointParamPacket (stamp_joint_param (global_seq f) p)"
    if "drop off (obj_bytes OJointParams f) = put_JointParamPacket p @ X" "wf_JointParamPacket p"
      "h_size (pi_header (jpp_header p)) = word_of_nat sizeof_JointParamPacket" for off p X
    by (subst sent_bytes[where P="put_JointParamPacket p" and X=X and n=sizeof_JointParamPacket, OF that(1) put_joint_param_header])
      (use that in \<open>simp_all add: sizeof_JointParamPacket_def put_joint_param_header[of "_\<lparr>jpp_header := _\<rparr>"] stamp_params\<close>)
  show "sent f (OJointParams, i * sizeof_JointParamPacket, n) = put_JointParamPacket (stamp_joint_param (global_seq f) (joint_params f ! i))"
    if "i < 2"
    using joint[of 0 a "put_JointParamPacket b"] joint[of sizeof_JointParamPacket b "[]"] that wf h
    by (auto simp: jp less_2_cases_iff)
qed

section \<open>Sending parameters\<close>

text \<open>What answering leaves alone.\<close>

definition answered :: "firmware \<Rightarrow> firmware \<Rightarrow> bool" where
  "answered f f' \<longleftrightarrow> config f' = config f \<and> joint_status f' = joint_status f \<and> string_message f' = string_message f
     \<and> sonar_ready f' = sonar_ready f \<and> global_seq f' = global_seq f \<and> uart_0 f' = uart_0 f"

lemma answered_refl [simp]: "answered f f"
  by (simp add: answered_def)

lemma answered_trans: "answered a b \<Longrightarrow> answered b c \<Longrightarrow> answered a c"
  by (simp add: answered_def)

lemma answered_count_tx [simp]: "answered f (count_tx st g) = answered f g"
  by (simp add: answered_def count_tx_def config_def)

lemma config_fields:
  assumes "config f' = config f"
  shows "stamp_system_param q (system_params f') = stamp_system_param q (system_params f)"
    and "stamp_drive_param q (drive_params f') = stamp_drive_param q (drive_params f)"
    and "stamp_sonar_param q (sonar_params f') = stamp_sonar_param q (sonar_params f)"
    and "map (stamp_joint_param q) (joint_params f') = map (stamp_joint_param q) (joint_params f)"
proof -
  have c: "stamp_system_param 0 (system_params f') = stamp_system_param 0 (system_params f)"
    "stamp_drive_param 0 (drive_params f') = stamp_drive_param 0 (drive_params f)"
    "stamp_sonar_param 0 (sonar_params f') = stamp_sonar_param 0 (sonar_params f)"
    "map (stamp_joint_param 0) (joint_params f') = map (stamp_joint_param 0) (joint_params f)"
    using assms by (simp_all add: config_def)
  show "stamp_system_param q (system_params f') = stamp_system_param q (system_params f)"
    using arg_cong[OF c(1), of "stamp_system_param q"] by simp
  show "stamp_drive_param q (drive_params f') = stamp_drive_param q (drive_params f)"
    using arg_cong[OF c(2), of "stamp_drive_param q"] by simp
  show "stamp_sonar_param q (sonar_params f') = stamp_sonar_param q (sonar_params f)"
    using arg_cong[OF c(3), of "stamp_sonar_param q"] by simp
  show "map (stamp_joint_param q) (joint_params f') = map (stamp_joint_param q) (joint_params f)"
    using arg_cong[OF c(4), of "map (stamp_joint_param q)"] by (simp add: o_def)
qed

lemma config_system:
  assumes "config f' = config f"
  shows "sp_periodic_packet_mask (system_params f') = sp_periodic_packet_mask (system_params f)"
    and "sp_num_joints (system_params f') = sp_num_joints (system_params f)"
    and "sp_protocol_version (system_params f') = sp_protocol_version (system_params f)"
proof -
  have "P (stamp_system_param 0 (system_params f')) = P (stamp_system_param 0 (system_params f))" for P :: "SystemParamPacket \<Rightarrow> 'z"
    using config_fields(1)[OF assms, of 0] by simp
  note this[of sp_periodic_packet_mask] this[of sp_num_joints] this[of sp_protocol_version]
  then show "sp_periodic_packet_mask (system_params f') = sp_periodic_packet_mask (system_params f)"
    "sp_num_joints (system_params f') = sp_num_joints (system_params f)"
    "sp_protocol_version (system_params f') = sp_protocol_version (system_params f)"
    by (simp_all add: stamp_system_param_def)
qed

lemma param_headers_config:
  assumes "config f' = config f" and "wf_fw f" and "wf_fw f'"
  shows "param_headers f' = param_headers f"
proof -
  have "param_headers g = (case config g of (sp, jps, dp, snp) \<Rightarrow>
      header_ok (sp_header sp) SYSTEM_PARAM_PACKET_ID sizeof_SystemParamPacket
      \<and> (\<forall>i \<in> {0, 1}. header_ok (pi_header (jpp_header (jps ! i))) JOINT_PARAM_PACKET_ID sizeof_JointParamPacket
           \<and> pi_index (jpp_header (jps ! i)) = word_of_nat i)
      \<and> header_ok (dp_header dp) DIFFERENTIAL_DRIVE_PARAM_PACKET_ID sizeof_DifferentialDriveParamPacket
      \<and> header_ok (snp_header snp) SONAR_PARAM_PACKET_ID sizeof_SonarParamPacket)" if "wf_fw g" for g :: "'z firmware_scheme"
  proof -
    have "length (joint_params g) = 2" using that by (simp add: wf_fw_def)
    then show ?thesis by (simp add: param_headers_def config_def header_ok_def stamp_params)
  qed
  from this[OF assms(2)] this[OF assms(3)] show ?thesis using assms(1) by simp
qed

lemma stamp_answered:
  assumes "wf_fw f" and "(ob, off, n) \<in> set param_ptrs"
  shows "answered f (stamp (ob, off) f)"
  using assms(2)
proof (cases rule: param_ptr_cases)
  case (4 i)
  have "map (stamp_joint_param 0) ((joint_params f)[i := stamp_joint_param q (joint_params f ! i)]) = map (stamp_joint_param 0) (joint_params f)" for q
    by (rule nth_equalityI) (auto simp: nth_update_if)
  then show ?thesis using 4 stamp_joint_record[OF assms(1) 4(1)] by (simp add: answered_def config_def)
qed (simp_all add: stamp_param_records[OF assms(1)] answered_def config_def)

lemma param_sizes:
  assumes "wf_fw f" and "param_headers f" and "(ob, off, n) \<in> set param_ptrs"
  shows "obj_bytes ob f ! (off + 1) = word_of_nat n" and "off + n \<le> sizeof_Obj ob" and "4 \<le> n" and "n < 256"
proof -
  show size: "off + n \<le> sizeof_Obj ob" "4 \<le> n" "n < 256"
    using assms(3) by (auto simp: param_ptrs_def sizeof_Obj_def sizeof_defs)
  have len: "length (obj_bytes ob f) = sizeof_Obj ob" by (rule obj_bytes_length[OF assms(1)])
  have h: "header_ok (sp_header (system_params f)) SYSTEM_PARAM_PACKET_ID sizeof_SystemParamPacket"
    "header_ok (dp_header (drive_params f)) DIFFERENTIAL_DRIVE_PARAM_PACKET_ID sizeof_DifferentialDriveParamPacket"
    "header_ok (snp_header (sonar_params f)) SONAR_PARAM_PACKET_ID sizeof_SonarParamPacket"
    "i < 2 \<Longrightarrow> header_ok (pi_header (jpp_header (joint_params f ! i))) JOINT_PARAM_PACKET_ID sizeof_JointParamPacket" for i
    using assms(2) by (auto simp: param_headers_def less_2_cases_iff)
  obtain a b where jp: "joint_params f = [a, b]" "wf_JointParamPacket a" using assms(1) by (auto simp: wf_fw_def length_two)
  have skip: "(put_JointParamPacket a @ xs) ! (sizeof_JointParamPacket + k) = xs ! k" for xs k
    using jp(2) by (metis length_put_JointParamPacket nth_append_length_plus)
  show "obj_bytes ob f ! (off + 1) = word_of_nat n"
    using assms(3)
  proof (cases rule: param_ptr_cases)
    case (4 i)
    then show ?thesis using h(4)[of i] skip[of _ 1]
      by (auto simp: less_2_cases_iff jp header_ok_def put_joint_param_header put_PacketHeader_bytes nth_append)
  qed (use h in \<open>simp_all add: header_ok_def put_SystemParamPacket_def put_DifferentialDriveParamPacket_def put_SonarParamPacket_def
      put_PacketHeader_bytes\<close>)
qed

lemma send_param:
  assumes "orazio_inv s" and "param_headers (fw s)" and "(ob, off, n) \<in> set param_ptrs" and "room n (base_handler s)"
  shows "\<exists>s'. send (ob, int off) s = Inr s' \<and> orazio_inv s' \<and> answered (fw s) (fw s') \<and> same_rx (base_handler s) (base_handler s')
    \<and> tx_items (base_handler s') = tx_items (base_handler s) @ frame (sent (fw s) (ob, off, n))"
proof -
  note wf = fw_readyD(1)[OF orazio_invD(3)[OF assms(1)]]
  note size = param_sizes[OF wf assms(2,3)]
  have n: "unat (obj_bytes ob (fw s) ! (off + 1)) = n" using size(1,4) by (simp add: unat_of_nat)
  obtain h where h: "Orazio_sendPacket (ob, int off) s
      = Inr (Success, s\<lparr>base_handler := h, fw := count_tx Success (stamp (ob, off) (fw s))\<rparr>)"
    "same_rx (base_handler s) h"
    "tx_items h = tx_items (base_handler s) @ frame (stamped (global_seq (fw s)) (packet_at (ob, off) (fw s)))"
    using Orazio_sendPacket_spec[OF wf orazio_invD(2)[OF assms(1)], of ob off] size(2,3) assms(4) unfolding n by auto
  let ?s = "s\<lparr>base_handler := h, fw := count_tx Success (stamp (ob, off) (fw s))\<rparr>"
  have snd: "send (ob, int off) s = Inr ?s" by (simp add: send_def h(1))
  have "input_obj ob" using assms(3) by (auto simp: param_ptrs_def input_obj_def)
  then have "orazio_inv ?s" using send_input_inv[OF assms(1) snd] by simp
  moreover have "answered (fw s) (fw ?s)" using stamp_answered[OF wf assms(3)] by simp
  ultimately show ?thesis using snd h(2,3) by (intro exI[of _ ?s]) (simp add: sent_def)
qed

text \<open>With room for it, the response leaves in front of what follows.\<close>

lemma send_reply:
  assumes "orazio_inv s" and "room sizeof_ResponsePacket (base_handler s)"
  shows "\<exists>s'. Orazio_sendResponse p r s = Inr s' \<and> orazio_inv s' \<and> answered (fw s) (fw s') \<and> same_rx (base_handler s) (base_handler s')
    \<and> tx_items (base_handler s') = tx_items (base_handler s) @ frame (reply (global_seq (fw s)) p r)"
proof -
  let ?s = "upd_fw (\<lambda>f. f\<lparr>response := (response f)\<lparr>rp_p_seq := h_seq p,
       rp_p_type := h_type p, rp_p_result := word_of_int (status_code r)\<rparr>\<rparr>) s"
  have i: "orazio_inv ?s" by (rule upd_fw_inv[OF assms(1)]) simp_all
  have ptr: "(OResponse, 0, sizeof_ResponsePacket) \<in> set status_ptrs" by (simp add: status_ptrs_def)
  note st = stamp_ready[OF orazio_invD(3)[OF i] ptr]
  have n: "unat (obj_bytes OResponse (fw ?s) ! (0 + 1)) = sizeof_ResponsePacket" using st(3,6) by (simp add: unat_of_nat)
  have room: "room sizeof_ResponsePacket (base_handler ?s)" using assms(2) by (simp add: upd_fw_def)
  obtain h where h: "Orazio_sendPacket (OResponse, int 0) ?s
      = Inr (Success, ?s\<lparr>base_handler := h, fw := count_tx Success (stamp (OResponse, 0) (fw ?s))\<rparr>)"
    "same_rx (base_handler ?s) h"
    "tx_items h = tx_items (base_handler ?s) @ frame (stamped (global_seq (fw ?s)) (packet_at (OResponse, 0) (fw ?s)))"
    using Orazio_sendPacket_spec[OF fw_readyD(1)[OF orazio_invD(3)[OF i]] orazio_invD(2)[OF i], of OResponse 0] st(4,5) room
    unfolding n by auto
  let ?t = "?s\<lparr>base_handler := h, fw := count_tx Success (stamp (OResponse, 0) (fw ?s))\<rparr>"
  have resp: "Orazio_sendResponse p r s = Inr ?t" using h(1) by (simp add: Orazio_sendResponse_def send_def)
  obtain s' where "Orazio_sendResponse p r s = Inr s'" "orazio_inv s'" using sendResponse_inv[OF assms(1)] by blast
  then have t: "orazio_inv ?t" using resp by simp
  have hdr: "header_ok (rp_header (response (fw s))) RESPONSE_PACKET_ID sizeof_ResponsePacket"
    using orazio_invD(3)[OF assms(1)] by (simp add: fw_ready_def headers_ok_def)
  then have fresh: "(rp_header (response (fw s)))\<lparr>h_seq := k\<rparr>
      = \<lparr>h_type = RESPONSE_PACKET_ID, h_size = word_of_nat sizeof_ResponsePacket, h_seq = k\<rparr>" for k
    by (cases "rp_header (response (fw s))") (simp add: header_ok_def)
  have "sent (fw ?s) (OResponse, 0, n) = reply (global_seq (fw s)) p r" for n
    by (subst sent_bytes[where P="put_ResponsePacket (response (fw ?s))" and X="[]" and n=sizeof_ResponsePacket,
          OF _ put_ResponsePacket_def])
      (use hdr in \<open>simp_all add: header_ok_def reply_def upd_fw_def sizeof_ResponsePacket_def sizeof_PacketHeader_def put_ResponsePacket_def
        stamp_header_def fresh[unfolded sizeof_ResponsePacket_def]\<close>)
  then have frames: "tx_items h = tx_items (base_handler s) @ frame (reply (global_seq (fw s)) p r)"
    using h(3) by (simp add: sent_def upd_fw_def)
  have "answered (fw s) (fw ?t)"
    using stamp_response[of "global_seq (fw s)" "fw ?s"] by (simp add: stamp_def upd_fw_def) (simp add: answered_def config_def)
  then show ?thesis using resp t h(2) frames by (intro exI[of _ ?t]) (simp add: upd_fw_def)
qed

section \<open>A request\<close>

definition request_size :: "nat \<Rightarrow> nat" where
  "request_size n = n + 3 + (sizeof_ResponsePacket + 3)"

lemma handle_request:
  assumes inv: "orazio_inv s" and hs: "param_headers (fw s)" and at_p: "read_mem (mem s) b sizeof_ParamControlPacket = put_ParamControlPacket q"
    and act: "pc_action q = ParamRequest" and ask: "asked (pc_param_type q) (pc_index q) = Some (ob, off, n)"
    and space: "length (tx_items (base_handler s)) + request_size n \<le> 254"
  shows "\<exists>s'. Orazio_handleParamCtl b a s = Inr (Success, s') \<and> orazio_inv s' \<and> answered (fw s) (fw s')
    \<and> same_rx (base_handler s) (base_handler s')
    \<and> tx_items (base_handler s') = tx_items (base_handler s) @ frame (sent (fw s) (ob, off, n))
        @ frame (reply (global_seq (fw s)) (pc_header q) Success)"
proof -
  note ptr = asked_ptr[OF ask]
  let ?s = "upd_status (\<lambda>st. st\<lparr>ss_rx_seq := h_seq (pc_header q)\<rparr>) s"
  have i: "orazio_inv ?s" by (rule upd_status_inv[OF inv]) simp
  have same: "base_handler ?s = base_handler s" "answered (fw s) (fw ?s)" "param_headers (fw ?s)" "sent (fw ?s) (ob, off, n) = sent (fw s) (ob, off, n)"
    using hs ptr(3) by (simp_all add: upd_status_def upd_fw_def answered_def config_def param_headers_def sent_def packet_at_def)
      (cases ob; simp add: input_obj_def)
  have "room n (base_handler ?s)" using space same(1) by (simp add: room_def request_size_def)
  from send_param[OF i same(3) ptr(1) this] obtain s1 where s1: "send (ob, int off) ?s = Inr s1" "orazio_inv s1" "answered (fw ?s) (fw s1)"
    "same_rx (base_handler ?s) (base_handler s1)" "tx_items (base_handler s1) = tx_items (base_handler ?s) @ frame (sent (fw s) (ob, off, n))"
    unfolding same(4) by blast
  have "length (sent (fw s) (ob, off, n)) = n"
  proof -
    note sz = param_sizes[OF fw_readyD(1)[OF orazio_invD(3)[OF inv]] hs ptr(1)]
    have "length (packet_at (ob, off) (fw s)) = n"
      using sz obj_bytes_length[OF fw_readyD(1)[OF orazio_invD(3)[OF inv]], of ob] by (simp add: packet_at_def unat_of_nat)
    then show ?thesis using sz(3) by (simp add: sent_def)
  qed
  then have "room sizeof_ResponsePacket (base_handler s1)"
    using space s1(5) same(1) by (simp add: room_def request_size_def)
  from send_reply[OF s1(2) this] obtain s2 where s2: "Orazio_sendResponse (pc_header q) Success s1 = Inr s2" "orazio_inv s2"
    "answered (fw s1) (fw s2)" "same_rx (base_handler s1) (base_handler s2)"
    "tx_items (base_handler s2) = tx_items (base_handler s1) @ frame (reply (global_seq (fw s1)) (pc_header q) Success)"
    by blast
  have ctl: "fst (get_ParamControlPacket (read_mem (mem s) b sizeof_ParamControlPacket)) = q"
    unfolding at_p using get_put_ParamControlPacket[of q "[]"] by simp
  have "Orazio_handleParamCtl b a s = Inr (Success, s2)"
    using s1(1) s2(1) act ptr(2)
    by (simp add: Orazio_handleParamCtl_def ctl Let_def param_action_def call_fw_def)
  moreover have "global_seq (fw s1) = global_seq (fw s)" using s1(3) same(2) by (simp add: answered_def)
  moreover have "answered (fw s) (fw s2)" using same(2) s1(3) s2(3) answered_trans by blast
  moreover have "same_rx (base_handler s) (base_handler s2)" using s1(4) s2(4) same(1) by (simp add: same_rx_def)
  ultimately show ?thesis using s2(2,5) s1(5) same(1) by (intro exI[of _ s2]) simp
qed

section \<open>What a cycle leaves alone\<close>

definition undisturbed :: "orazio \<Rightarrow> orazio \<Rightarrow> bool" where
  "undisturbed s s' \<longleftrightarrow> same_rx (base_handler s) (base_handler s') \<and> same_queue s s' \<and> config (fw s') = config (fw s)
     \<and> joint_numbered (fw s') = joint_numbered (fw s) \<and> string_message (fw s') = string_message (fw s)
     \<and> global_seq (fw s') = global_seq (fw s) \<and> uart_rx_items (uart_0 (fw s')) = uart_rx_items (uart_0 (fw s))"

lemma undisturbed_refl [simp]: "undisturbed s s"
  by (simp add: undisturbed_def)

lemma undisturbed_trans: "undisturbed a b \<Longrightarrow> undisturbed b c \<Longrightarrow> undisturbed a c"
  by (auto simp: undisturbed_def same_rx_def elim: same_queue_trans)

lemma stamp_status_keeps:
  assumes "fw_ready f" and "(ob, off, n) \<in> set status_ptrs" and "ob \<noteq> OStringMessage"
  shows "config (stamp (ob, off) f) = config f" and "joint_numbered (stamp (ob, off) f) = joint_numbered f"
    and "string_message (stamp (ob, off) f) = string_message f" and "global_seq (stamp (ob, off) f) = global_seq f"
    and "uart_0 (stamp (ob, off) f) = uart_0 f"
proof -
  note wf = fw_readyD(1)[OF assms(1)]
  have sz: "sizeof_JointStatusPacket = 16" by (simp add: sizeof_JointStatusPacket_def)
  have two: "length (joint_status f) = 2" using wf by (simp add: wf_fw_def)
  have joint: "stamp (OJointStatus, i * 16) f = f\<lparr>joint_status := (joint_status f)[i := stamp_joint (global_seq f) (joint_status f ! i)]\<rparr>"
    if "i < 2" for i
    using stamp_joint_status[OF wf that] by (simp add: stamp_def)
  consider i where "i < 2" "ob = OJointStatus" "off = i * 16" | "ob \<in> {OSystemStatus, ODriveStatus, OSonarStatus, OResponse, OEndEpoch}" "off = 0"
  proof -
    assume a: "\<And>i. i < 2 \<Longrightarrow> ob = OJointStatus \<Longrightarrow> off = i * 16 \<Longrightarrow> thesis"
      and b: "ob \<in> {OSystemStatus, ODriveStatus, OSonarStatus, OResponse, OEndEpoch} \<Longrightarrow> off = 0 \<Longrightarrow> thesis"
    show thesis using assms(2,3) a[of 0] a[of 1] b by (auto simp: status_ptrs_def sz)
  qed
  then have "config (stamp (ob, off) f) = config f \<and> joint_numbered (stamp (ob, off) f) = joint_numbered f
    \<and> string_message (stamp (ob, off) f) = string_message f \<and> global_seq (stamp (ob, off) f) = global_seq f
    \<and> uart_0 (stamp (ob, off) f) = uart_0 f"
  proof cases
    case (1 i)
    then show ?thesis using two by (auto simp: joint config_def joint_numbered_def stamp_joint_def less_2_cases_iff)
  next
    case 2
    then show ?thesis
      by (auto simp: stamp_def stamp_sonar_status[OF wf] config_def joint_numbered_def)
  qed
  then show "config (stamp (ob, off) f) = config f" "joint_numbered (stamp (ob, off) f) = joint_numbered f"
    "string_message (stamp (ob, off) f) = string_message f" "global_seq (stamp (ob, off) f) = global_seq f"
    "uart_0 (stamp (ob, off) f) = uart_0 f" by simp_all
qed

lemma send_status_undisturbed:
  assumes "orazio_inv s" and "(ob, off, n) \<in> set status_ptrs" and "ob \<noteq> OStringMessage" and "send (ob, int off) s = Inr s'"
  shows "undisturbed s s'" and "orazio_inv s'"
proof -
  note wf = fw_readyD(1)[OF orazio_invD(3)[OF assms(1)]] and st = stamp_ready[OF orazio_invD(3)[OF assms(1)] assms(2)]
  have n: "unat (obj_bytes ob (fw s) ! (off + 1)) = n" using st(3,6) by (simp add: unat_of_nat)
  obtain r h where h: "Orazio_sendPacket (ob, int off) s = Inr (r, s\<lparr>base_handler := h, fw := count_tx r (stamp (ob, off) (fw s))\<rparr>)"
    "same_rx (base_handler s) h"
    using Orazio_sendPacket_spec[OF wf orazio_invD(2)[OF assms(1)], of ob off] st(4,5) unfolding n by (auto simp: Let_def)
  have s': "s' = s\<lparr>base_handler := h, fw := count_tx r (stamp (ob, off) (fw s))\<rparr>" using assms(4) by (simp add: send_def h(1))
  show "undisturbed s s'"
    using h(2) stamp_status_keeps[OF orazio_invD(3)[OF assms(1)] assms(2,3)]
    by (simp add: undisturbed_def s' same_queue_def count_tx_def config_def joint_numbered_def del: length_uart_items)
  show "orazio_inv s'" using send_status[OF assms(1,2)] assms(4) by auto
qed

lemma send_list_undisturbed:
  "orazio_inv s \<Longrightarrow> set ps \<subseteq> set status_ptrs \<Longrightarrow> \<forall>p \<in> set ps. fst p \<noteq> OStringMessage \<Longrightarrow> foldR send_ptr ps s = Inr s' \<Longrightarrow>
    undisturbed s s' \<and> orazio_inv s'"
proof (induction ps arbitrary: s)
  case (Cons p ps)
  obtain ob off n where p: "p = (ob, off, n)" by (cases p)
  obtain s1 where s1: "send (ob, int off) s = Inr s1" "foldR send_ptr ps s1 = Inr s'"
    using Cons.prems(4) by (auto simp: bindR_Inr_iff send_ptr_def p)
  have u: "undisturbed s s1" "orazio_inv s1"
    using send_status_undisturbed[OF Cons.prems(1) _ _ s1(1), of n] Cons.prems(2,3) by (simp_all add: p)
  then show ?case using Cons.IH[OF u(2) _ _ s1(2)] Cons.prems(2,3) undisturbed_trans by auto
qed simp

lemma message_due_string: "string_message f' = string_message f \<Longrightarrow> message_due f' = message_due f"
  by (simp add: message_due_def)

lemma send_periodic_undisturbed:
  assumes "orazio_inv s" and "\<not> message_due (fw s)" and "send_periodic s = Inr s'"
  shows "undisturbed s s'"
proof -
  obtain s1 s2 where s1: "foldR send_ptr (status_list (fw s)) s = Inr s1" "send_message s1 = Inr s2" "send (OEndEpoch, 0) s2 = Inr s'"
    using assms(3) unfolding send_periodic_eq by (auto simp: bindR_Inr_iff)
  have u1: "undisturbed s s1" "orazio_inv s1"
    using send_list_undisturbed[OF assms(1) status_list_ptrs _ s1(1)] status_list_inputs(3)[of _ "fw s"] by auto
  then have "\<not> message_due (fw s1)" using assms(2) by (simp add: message_due_def undisturbed_def)
  then have "s2 = s1" using s1(2) by (simp add: send_message_def Let_def message_due_iff)
  then have "undisturbed s1 s'"
    using send_status_undisturbed(1)[OF u1(2), of OEndEpoch 0 sizeof_PacketHeader s'] s1(3) by (simp add: status_ptrs_def)
  then show ?thesis using u1(1) undisturbed_trans by blast
qed

lemma putChar_keeps:
  assumes "UART_putChar c f = Some f'"
  shows "config f' = config f" and "joint_numbered f' = joint_numbered f" and "string_message f' = string_message f"
    and "global_seq f' = global_seq f" and "uart_rx_items (uart_0 f') = uart_rx_items (uart_0 f)"
proof -
  have "uart_rx_items (uart_tx_put c u) = uart_rx_items u" for u :: UART
    by (simp add: uart_tx_put_def uart_rx_items_def del: length_uart_items split: prod.splits)
  then show "config f' = config f" "joint_numbered f' = joint_numbered f" "string_message f' = string_message f"
    "global_seq f' = global_seq f" "uart_rx_items (uart_0 f') = uart_rx_items (uart_0 f)"
    using assms
    by (auto simp: UART_putChar_def or_reg_def set_reg_def sei_def cli_def config_def joint_numbered_def
        simp del: length_uart_items split: if_splits)
qed

lemma flushOutput_loop_undisturbed:
  "flushOutput_loop s = Inr s' \<Longrightarrow> undisturbed s s'"
proof (induction s rule: flushOutput_loop.induct)
  case (1 s)
  show ?case
  proof (cases "tx_size (base_handler s) = 0")
    case True
    then show ?thesis using 1(2) by (simp add: flushOutput_loop.simps[of s])
  next
    case False
    then have pos: "\<not> tx_size (base_handler s) < 0" using 1(2) by (auto simp: flushOutput_loop.simps[of s])
    then obtain s1 where s1: "flushOutput_body s = Inr s1" "flushOutput_loop s1 = Inr s'"
      using 1(2) False by (auto simp: flushOutput_loop.simps[of s] split: sum.splits)
    obtain c h f where c: "PacketHandler_txByte (base_handler s) = (c, h)" "UART_putChar c (fw s) = Some f" "s1 = s\<lparr>base_handler := h, fw := f\<rparr>"
      using s1(1) by (auto simp: flushOutput_body_def split: prod.splits option.splits)
    have "same_rx (base_handler s) h" using PacketHandler_txByte_same_rx[of "base_handler s"] c(1) by simp
    then have "undisturbed s s1"
      using putChar_keeps[OF c(2)] by (simp add: undisturbed_def c(3) same_queue_def del: length_uart_items)
    then show ?thesis using 1(1)[OF False pos s1(1,2)] undisturbed_trans by blast
  qed
qed

lemma flushOutput_undisturbed:
  assumes "Orazio_flushOutputBuffers s = Inr s'"
  shows "undisturbed s s'"
proof -
  obtain s1 where s1: "flushOutput_loop s = Inr s1" "s' = tx_status s1"
    using assms by (auto simp: Orazio_flushOutputBuffers_def bindR_Inr_iff split: if_splits)
  have "undisturbed s1 (tx_status s1)"
    by (simp add: undisturbed_def tx_status_def upd_status_def upd_fw_def same_queue_def config_def joint_numbered_def)
  then show ?thesis using flushOutput_loop_undisturbed[OF s1(1)] s1(2) undisturbed_trans by blast
qed

section \<open>The bytes leave the robot\<close>

text \<open>The transmit interrupt runs until the queue is empty; \<open>n\<close> bounds its number.\<close>

fun transmit_all :: "nat \<Rightarrow> 'a board_scheme \<Rightarrow> u8 list \<times> 'a board_scheme" where
  "transmit_all 0 d = ([], d)"
| "transmit_all (Suc n) d =
     (if uart_tx_size (uart_0 d) = 0 then ([], d)
      else let d1 = USART0_UDRE_isr d in case transmit_all n d1 of (bs, d2) \<Rightarrow> (io d1 UDR0 # bs, d2))"

lemma transmit_all_ok:
  fixes f :: firmware
  assumes "fw_ready f" and "serial_ok f" and "length (uart_tx_items (uart_0 f)) \<le> n"
  shows "fst (transmit_all n f) = uart_tx_items (uart_0 f) \<and> fw_ready (snd (transmit_all n f)) \<and> serial_ok (snd (transmit_all n f))
    \<and> uart_tx_items (uart_0 (snd (transmit_all n f))) = []"
  using assms
proof (induction n arbitrary: f)
  case 0
  then have "uart_tx_items (uart_0 f) = []" by (simp del: length_uart_items)
  then show ?case using 0 by simp
next
  case (Suc n)
  have ok: "uart_tx_ok (uart_0 f)" using Suc.prems(2) by (simp add: serial_ok_def)
  show ?case
  proof (cases "uart_tx_items (uart_0 f)")
    case Nil
    then show ?thesis using Suc.prems uart_items_Nil(1)[of "uart_0 f"] by (simp del: length_uart_items)
  next
    case (Cons x xs)
    then have n: "uart_tx_size (uart_0 f) \<noteq> 0" using uart_items_Nil(1)[of "uart_0 f"] by auto
    let ?f = "USART0_UDRE_isr f"
    note get = uart_tx_get_ok[OF ok Cons]
    have f: "uart_0 ?f = snd (uart_tx_get (uart_0 f))" "io ?f UDR0 = x"
      using n get by (auto simp: USART0_UDRE_isr_def set_reg_def split: prod.splits)
    obtain f' where "irq_call TxEmpty f = Inr f'" "fw_ready f'" "serial_ok f'" using irq_ready[OF Suc.prems(1,2)] by blast
    then have r: "fw_ready ?f" "serial_ok ?f" by (simp_all add: irq_call_def)
    have "length (uart_tx_items (uart_0 ?f)) \<le> n" using Suc.prems(3) get f(1) Cons by (simp del: length_uart_items)
    from Suc.IH[OF r this] show ?thesis using n f get Cons by (simp add: Let_def split_beta del: length_uart_items)
  qed
qed

lemma transmit_all_keeps:
  fixes f :: firmware
  shows "config (snd (transmit_all n f)) = config f \<and> joint_numbered (snd (transmit_all n f)) = joint_numbered f
    \<and> string_message (snd (transmit_all n f)) = string_message f \<and> global_seq (snd (transmit_all n f)) = global_seq f
    \<and> uart_rx_items (uart_0 (snd (transmit_all n f))) = uart_rx_items (uart_0 f)"
proof (induction n arbitrary: f)
  case (Suc n)
  have rx: "uart_rx_items (snd (uart_tx_get u)) = uart_rx_items u" for u :: UART
    by (simp add: uart_tx_get_def uart_rx_items_def del: length_uart_items split: prod.splits)
  show ?case
    using Suc.IH[of "USART0_UDRE_isr f"] rx[of "uart_0 f"]
    by (auto simp: Let_def USART0_UDRE_isr_def set_reg_def clear_reg_def config_def joint_numbered_def
        simp del: length_uart_items split: prod.splits)
qed simp

section \<open>A question and its answer\<close>

text \<open>The robot receives bytes, runs a cycle and transmits what the cycle has queued.\<close>

definition exchange :: "u8 list \<Rightarrow> orazio \<Rightarrow> (u8 list \<times> orazio) result" where
  "exchange bs s = bindR (Orazio_commHandle (robot_receives bs s)) (\<lambda>s1.
     case transmit_all 255 (fw s1) of (out, f) \<Rightarrow> Inr (out, s1\<lparr>fw := f\<rparr>))"

definition robot_idle :: "orazio \<Rightarrow> bool" where
  "robot_idle s \<longleftrightarrow> orazio_inv s \<and> pending s = [] \<and> rxFn (base_handler s) = rxAA \<and> tx_items (base_handler s) = []
     \<and> uart_rx_items (uart_0 (fw s)) = [] \<and> uart_tx_items (uart_0 (fw s)) = []
     \<and> (\<forall>e \<in> set packet_table. registered e s) \<and> joint_numbered (fw s) \<and> param_headers (fw s) \<and> \<not> message_due (fw s)"

definition param_packet :: "u16 \<Rightarrow> 'a firmware_scheme \<Rightarrow> u8 \<Rightarrow> u8 \<Rightarrow> u8 list" where
  "param_packet q f t i =
     (if t = ParamSystem then put_SystemParamPacket (stamp_system_param q (system_params f))
      else if t = ParamJointsSingle then put_JointParamPacket (stamp_joint_param q (joint_params f ! unat i))
      else if t = ParamDrive then put_DifferentialDriveParamPacket (stamp_drive_param q (drive_params f))
      else put_SonarParamPacket (stamp_sonar_param q (sonar_params f)))"

lemma sent_asked:
  assumes "wf_fw f" and "param_headers f" and "asked t i = Some p"
  shows "sent f p = param_packet (global_seq f) f t i"
  using assms(3) sent_params[OF assms(1,2)] by (auto simp: asked_def param_packet_def split: if_splits)

lemma param_packet_config:
  assumes "config f' = config f" and "wf_fw f" and "wf_fw f'" and "asked t i = Some p"
  shows "param_packet q f' t i = param_packet q f t i"
proof -
  have "stamp_joint_param q (joint_params f' ! k) = stamp_joint_param q (joint_params f ! k)" if "k < 2" for k
    using arg_cong[OF config_fields(4)[OF assms(1), of q], of "\<lambda>xs. xs ! k"] assms(2,3) that by (simp add: wf_fw_def)
  then show ?thesis
    using config_fields(1-3)[OF assms(1), of q] assms(4) by (auto simp: param_packet_def asked_def split: if_splits)
qed

lemma length_param_packet:
  assumes "wf_fw f" and "asked t i = Some (ob, off, n)"
  shows "length (param_packet q f t i) = n"
proof -
  have "wf_JointParamPacket (stamp_joint_param q (joint_params f ! k))" if "k < 2" for k
    using assms(1) that by (simp add: wf_fw_def wf_JointParamPacket_def stamp_params)
  moreover have "wf_SonarParamPacket (stamp_sonar_param q (sonar_params f))"
    using assms(1) by (simp add: wf_fw_def wf_SonarParamPacket_def stamp_params)
  ultimately show ?thesis using assms(2) by (auto simp: asked_def param_packet_def split: if_splits)
qed

lemma quiet_epoch_size:
  assumes "\<not> message_due f"
  shows "out_size (epoch_list f) \<le> 142" and "length (epoch_list f) \<le> 6"
proof -
  have masked: "out_size (masked fl f ps) \<le> out_size ps" "length (masked fl f ps) \<le> length ps" for fl ps
    by (simp_all add: masked_def out_size_def)
  have app: "out_size (ps @ qs) = out_size ps + out_size qs" for ps qs by (simp add: out_size_def)
  have st: "out_size (status_list f) \<le> 135 \<and> length (status_list f) \<le> 5"
    unfolding status_list_def app length_append
    using masked[of PSystemStatusFlag "[(OSystemStatus, 0, sizeof_SystemStatusPacket)]"]
      masked[of PJointStatusFlag "[(OJointStatus, 0, sizeof_JointStatusPacket), (OJointStatus, sizeof_JointStatusPacket, sizeof_JointStatusPacket)]"]
      masked[of PDriveStatusFlag "[(ODriveStatus, 0, sizeof_DifferentialDriveStatusPacket)]"]
      masked[of PSonarStatusFlag "[(OSonarStatus, 0, sizeof_SonarStatusPacket)]"]
    by (auto simp: out_size_def sizeof_SystemStatusPacket_def sizeof_JointStatusPacket_def sizeof_DifferentialDriveStatusPacket_def
        sizeof_SonarStatusPacket_def)
  then show "out_size (epoch_list f) \<le> 142" "length (epoch_list f) \<le> 6"
    using assms by (simp_all add: epoch_list_def app) (simp add: out_size_def sizeof_PacketHeader_def)
qed

lemma registered_retired:
  assumes "length (packet_infos s) = 20" and "e \<in> set packet_table"
  shows "registered e (retire_all s) = registered e s"
proof -
  obtain type sz buffer action args where e: "e = (type, sz, buffer, action, args)" by (cases e)
  have t: "unat type < 20" using packet_table_types(2) assms(2) by (auto simp: entry_type_def e)
  have "base_handler (retire_all s) = base_handler s" "ops_at (retire_all s) = ops_at s"
    "packet_infos (retire_all s) ! unat type = flush_info (packet_infos s ! unat type)"
    using t assms(1) by (simp_all add: retire_all_def)
  then show ?thesis by (simp add: e registered_def Let_def flush_info_def)
qed

lemma registered_same:
  assumes "operations (base_handler s') = operations (base_handler s)" and "ops_at s' = ops_at s" and "packet_infos s' = packet_infos s"
  shows "registered e s' = registered e s"
  by (rule registered_cong[OF assms(1,2)]) (simp add: same_actions_def assms(3))

lemma same_receiver_registered: "same_receiver s s' \<Longrightarrow> registered e s' = registered e s"
  unfolding same_receiver_def by blast

lemma registered_undisturbed: "undisturbed s s' \<Longrightarrow> registered e s' = registered e s"
  by (cases e) (simp add: undisturbed_def same_queue_def same_rx_def registered_def Let_def)

lemma length_epoch_frames:
  assumes "fw_ready f"
  shows "length (concat (map (out_frame f) (epoch_list f))) = out_size (epoch_list f)"
proof -
  have ptrs: "set (epoch_list f) \<subseteq> set status_ptrs"
    using status_list_ptrs[of f] by (auto simp: epoch_list_def status_ptrs_def)
  have "length (concat (map (out_frame f) qs)) = out_size qs" if "set qs \<subseteq> set status_ptrs" for qs
    using that by (induction qs) (auto simp: out_size_def length_out_frame[OF assms])
  then show ?thesis using ptrs by blast
qed

text \<open>The second half of a cycle: the epoch is appended and everything leaves.\<close>

lemma cycle_tail:
  assumes inv: "orazio_inv s" and quiet: "\<not> message_due (fw s)" and few: "length (tx_items (base_handler s)) \<le> 112"
    and line: "uart_tx_items (uart_0 (fw s)) = []"
  shows "\<exists>s3 s4. send_periodic s = Inr s3 \<and> Orazio_flushOutputBuffers s3 = Inr s4 \<and> orazio_inv s4 \<and> undisturbed s s4
    \<and> tx_items (base_handler s4) = []
    \<and> uart_tx_items (uart_0 (fw s4)) = tx_items (base_handler s) @ concat (map (out_frame (fw s)) (epoch_list (fw s)))"
proof -
  note size = quiet_epoch_size(1)[OF quiet]
  have "length (tx_items (base_handler s)) + out_size (epoch_list (fw s)) \<le> 254" using size few by linarith
  from send_periodic_out[OF inv this] obtain s3 where s3: "send_periodic s = Inr s3" "orazio_inv s3"
    "tx_items (base_handler s3) = tx_items (base_handler s) @ concat (map (out_frame (fw s)) (epoch_list (fw s)))"
    by blast
  have len: "length (tx_items (base_handler s3)) \<le> 255"
    using size few by (simp only: s3(3) length_append length_epoch_frames[OF orazio_invD(3)[OF inv]])
  have "uart_tx_items (uart_0 (fw s3)) = []" using send_periodic_uart[OF s3(1)] line by simp
  then obtain s4 where s4: "Orazio_flushOutputBuffers s3 = Inr s4" "orazio_inv s4" "tx_items (base_handler s4) = []"
    "uart_tx_items (uart_0 (fw s4)) = tx_items (base_handler s3)"
    using flushOutputBuffers_inv[OF s3(2)] len by (auto simp del: length_uart_items length_tx_items)
  have "undisturbed s s4"
    using undisturbed_trans[OF send_periodic_undisturbed[OF inv quiet s3(1)] flushOutput_undisturbed[OF s4(1)]] .
  then show ?thesis using s3 s4 by auto
qed

lemma transmit_cycle:
  assumes "orazio_inv s" and "length (uart_tx_items (uart_0 (fw s))) \<le> 255"
  shows "\<exists>f. transmit_all 255 (fw s) = (uart_tx_items (uart_0 (fw s)), f) \<and> orazio_inv (s\<lparr>fw := f\<rparr>) \<and> undisturbed s (s\<lparr>fw := f\<rparr>)
    \<and> uart_tx_items (uart_0 f) = []"
proof -
  note t = transmit_all_ok[OF orazio_invD(3,4)[OF assms(1)] assms(2)] transmit_all_keeps[of 255 "fw s"]
  obtain out f where f: "transmit_all 255 (fw s) = (out, f)" by (metis surj_pair)
  have "undisturbed s (s\<lparr>fw := f\<rparr>)" using t(2) f by (simp add: undisturbed_def same_queue_def del: length_uart_items)
  then show ?thesis using t(1) f orazio_invI[OF assms(1)] by (simp del: length_uart_items)
qed

text \<open>A request, from the bytes on the line to the bytes on the line.\<close>

definition request_ok :: "ParamControlPacket \<Rightarrow> bool" where
  "request_ok q \<longleftrightarrow> header_ok (pc_header q) PARAM_CONTROL_PACKET_ID sizeof_ParamControlPacket \<and> pc_action q = ParamRequest
     \<and> asked (pc_param_type q) (pc_index q) \<noteq> None"

lemma request_processed:
  assumes idle: "robot_idle s" and q: "request_ok q"
  shows "\<exists>s1 s3. Orazio_flushInputBuffers (robot_receives (frame (put_ParamControlPacket q)) s) = Inr s1 \<and> process_packets s1 = Inr s3
    \<and> orazio_inv s3 \<and> pending s3 = [] \<and> rxFn (base_handler s3) = rxAA \<and> (\<forall>e \<in> set packet_table. registered e s3)
    \<and> answered ((fw s)\<lparr>global_seq := global_seq (fw s) + 1\<rparr>) ((fw s3)\<lparr>uart_0 := uart_0 (fw s)\<rparr>)
    \<and> uart_rx_items (uart_0 (fw s3)) = [] \<and> uart_tx_items (uart_0 (fw s3)) = []
    \<and> tx_items (base_handler s3) = frame (param_packet (global_seq (fw s) + 1) (fw s) (pc_param_type q) (pc_index q))
        @ frame (reply (global_seq (fw s) + 1) (pc_header q) Success)"
proof -
  let ?pkt = "put_ParamControlPacket q" and ?r = "robot_receives (frame (put_ParamControlPacket q)) s"
  note idle' = idle[unfolded robot_idle_def]
  obtain ob off n where ask: "asked (pc_param_type q) (pc_index q) = Some (ob, off, n)" using q by (auto simp: request_ok_def)
  have hdr: "?pkt ! 0 = PARAM_CONTROL_PACKET_ID" "?pkt ! 1 = word_of_nat sizeof_ParamControlPacket" "length ?pkt = sizeof_ParamControlPacket"
    using q by (simp_all add: request_ok_def header_ok_def put_ParamControlPacket_def put_PacketHeader_bytes sizeof_ParamControlPacket_def sizeof_PacketHeader_def)
  have "length (frame ?pkt) \<le> 255" by (simp add: sizeof_ParamControlPacket_def)
  note r = robot_receives_ok[OF conjunct1[OF idle'] _ this]
  have r': "orazio_inv ?r" "uart_rx_items (uart_0 (fw ?r)) = frame ?pkt" "same_data (fw s) (fw ?r)" using r idle' by blast+
  have rf: "pending ?r = []" "rxFn (base_handler ?r) = rxAA" "\<And>e. registered e ?r = registered e s" "tx_items (base_handler ?r) = []"
    using idle' registered_same[of ?r s] by (simp_all add: robot_receives_def pending_def)
  let ?e = "(PARAM_CONTROL_PACKET_ID, sizeof_ParamControlPacket, param_control_packet_buffer, Fn_handleParamCtl, NULL)"
  have e: "?e \<in> set packet_table" by (simp add: packet_table_def)
  have "registered ?e ?r" using e idle' rf(3) by blast
  from command_dispatched[OF r'(1) rf(1,2) this e hdr(3,1,2) r'(2)] obtain s1 b where
    s1: "Orazio_flushInputBuffers ?r = Inr s1" "orazio_inv s1" "same_data (fw ?r) (fw s1)" "same_receiver ?r s1"
      "read_mem (mem s1) b sizeof_ParamControlPacket = ?pkt"
      "process_packets s1 = bindR (orazio_action Fn_handleParamCtl b NULL (cycle_start s1)) (\<lambda>s'. Inr (retire_all s'))"
    by blast
  let ?c = "cycle_start s1"
  have same: "same_data (fw s) (fw s1)" using same_data_trans[OF r'(3) s1(3)] .
  have c: "orazio_inv ?c" "mem ?c = mem s1" "base_handler ?c = base_handler s1" "settings (fw ?c) = settings (fw s1)"
    "joint_status (fw ?c) = joint_status (fw s1)" "string_message (fw ?c) = string_message (fw s1)" "sonar_ready (fw ?c) = sonar_ready (fw s1)"
    "global_seq (fw ?c) = global_seq (fw s1) + 1" "uart_0 (fw ?c) = uart_0 (fw s1)" "\<And>e. registered e ?c = registered e s1"
    using cycle_start_inv[OF s1(2)] registered_same[of ?c s1]
    by (simp_all add: cycle_start_def upd_status_def upd_fw_def settings_def Let_def)
  have cfg: "config (fw ?c) = config (fw s)" "param_headers (fw ?c)"
    using same c(4) idle' by (auto simp: same_data_def settings_def config_def param_headers_def)
  have wf: "wf_fw (fw s)" "wf_fw (fw ?c)" using fw_readyD(1)[OF orazio_invD(3)] idle' c(1) by blast+
  have n: "n \<le> 38" using ask by (auto simp: asked_def sizeof_defs split: if_splits)
  have tx0: "tx_items (base_handler ?c) = []" using s1(4) rf(4) c(3) by (simp add: same_receiver_def)
  have "length (tx_items (base_handler ?c)) + request_size n \<le> 254"
    unfolding tx0 using n by (simp add: request_size_def sizeof_ResponsePacket_def)
  moreover have "pc_action q = ParamRequest" using q by (simp add: request_ok_def)
  ultimately obtain s2 where s2: "Orazio_handleParamCtl b NULL ?c = Inr (Success, s2)" "orazio_inv s2" "answered (fw ?c) (fw s2)"
    "same_rx (base_handler ?c) (base_handler s2)"
    "tx_items (base_handler s2) = tx_items (base_handler ?c) @ frame (sent (fw ?c) (ob, off, n))
        @ frame (reply (global_seq (fw ?c)) (pc_header q) Success)"
    using handle_request[OF c(1) cfg(2) _ _ ask, of b NULL] s1(5) c(2) by fastforce
  have queue: "same_queue ?c s2" using quietD(3)[OF quiet_handleParamCtl s2(1)] .
  have proc: "process_packets s1 = Inr (retire_all s2)" using s1(6) s2(1) by (simp add: orazio_action_def)
  have seq: "global_seq (fw ?c) = global_seq (fw s) + 1" using same c(8) by (simp add: same_data_def)
  have "sent (fw ?c) (ob, off, n) = param_packet (global_seq (fw s) + 1) (fw s) (pc_param_type q) (pc_index q)"
    using sent_asked[OF wf(2) cfg(2) ask] param_packet_config[OF cfg(1) wf ask] seq by simp
  then have items: "tx_items (base_handler (retire_all s2)) = frame (param_packet (global_seq (fw s) + 1) (fw s) (pc_param_type q) (pc_index q))
        @ frame (reply (global_seq (fw s) + 1) (pc_header q) Success)"
    using s2(5) tx0 seq by (simp add: retire_all_def)
  have retired: "fw (retire_all s2) = fw s2" "base_handler (retire_all s2) = base_handler s2" by (simp_all add: retire_all_def)
  have "deferred_inv s2" using s2(2) by (simp add: orazio_inv_def handler_inv_def receiver_inv_def)
  then have infos: "length (packet_infos s2) = 20" by (simp add: deferred_inv_def)
  have reg: "registered e (retire_all s2)" if "e \<in> set packet_table" for e
  proof -
    have "registered e s2 = registered e ?c"
      using queue s2(4) by (intro registered_same) (simp_all add: same_queue_def same_rx_def)
    then show ?thesis
      using registered_retired[OF infos that] c(10)[of e] same_receiver_registered[OF s1(4), of e] rf(3)[of e] idle' that by blast
  qed
  have rx: "rxFn (base_handler s2) = rxAA" using s2(4) c(3) s1(4) rf(2) by (simp add: same_rx_def same_receiver_def)
  have "uart_rx_items (uart_0 (fw s1)) = []" using s1(4) uart_items_Nil(2)[of "uart_0 (fw s1)"] by (simp add: same_receiver_def rx_waiting_def unat_eq_0)
  moreover have "uart_tx_items (uart_0 (fw s1)) = []" using same idle' by (simp add: same_data_def del: length_uart_items)
  ultimately have line: "uart_rx_items (uart_0 (fw s2)) = []" "uart_tx_items (uart_0 (fw s2)) = []"
    using s2(3) c(9) by (simp_all add: answered_def)
  have "answered ((fw s)\<lparr>global_seq := global_seq (fw s) + 1\<rparr>) ((fw s2)\<lparr>uart_0 := uart_0 (fw s)\<rparr>)"
    using s2(3) same c(5-8) cfg(1) by (simp add: answered_def config_def same_data_def)
  then show ?thesis
    using s1(1) proc process_packets_inv[OF s1(2) proc] retired rx line items reg by (intro exI[of _ s1] exI[of _ "retire_all s2"]) simp
qed

text \<open>
  An idle robot answers a request with the parameters asked for, the response, and the epoch of the cycle; it is
  idle again, with the same configuration.
\<close>

lemma robot_answers:
  assumes "robot_idle s" and "request_ok q"
  shows "\<exists>(f :: firmware) s'. exchange (frame (put_ParamControlPacket q)) s =
      Inr (frame (param_packet (global_seq (fw s) + 1) (fw s) (pc_param_type q) (pc_index q))
        @ frame (reply (global_seq (fw s) + 1) (pc_header q) Success) @ concat (map (out_frame f) (epoch_list f)), s')
    \<and> robot_idle s' \<and> config (fw s') = config (fw s) \<and> global_seq (fw s') = global_seq (fw s) + 1
    \<and> fw_ready f \<and> joint_numbered f \<and> \<not> message_due f"
proof -
  let ?p = "param_packet (global_seq (fw s) + 1) (fw s) (pc_param_type q) (pc_index q)"
    and ?r = "reply (global_seq (fw s) + 1) (pc_header q) Success"
  obtain s1 s3 where s1: "Orazio_flushInputBuffers (robot_receives (frame (put_ParamControlPacket q)) s) = Inr s1" "process_packets s1 = Inr s3"
    "orazio_inv s3" "pending s3 = []" "rxFn (base_handler s3) = rxAA" "\<forall>e \<in> set packet_table. registered e s3"
    "answered ((fw s)\<lparr>global_seq := global_seq (fw s) + 1\<rparr>) ((fw s3)\<lparr>uart_0 := uart_0 (fw s)\<rparr>)"
    "uart_rx_items (uart_0 (fw s3)) = []" "uart_tx_items (uart_0 (fw s3)) = []"
    "tx_items (base_handler s3) = frame ?p @ frame ?r"
    using request_processed[OF assms] by blast
  note idle = assms(1)[unfolded robot_idle_def]
  have f: "config (fw s3) = config (fw s)" "joint_numbered (fw s3)" "string_message (fw s3) = string_message (fw s)"
    "global_seq (fw s3) = global_seq (fw s) + 1" "\<not> message_due (fw s3)"
    using s1(7) idle by (auto simp: answered_def config_def joint_numbered_def message_due_def)
  obtain ob off n where ask: "asked (pc_param_type q) (pc_index q) = Some (ob, off, n)" using assms(2) by (auto simp: request_ok_def)
  have wf: "wf_fw (fw s)" "wf_fw (fw s3)" using fw_readyD(1)[OF orazio_invD(3)] idle s1(3) by blast+
  have "n \<le> 38" using ask by (auto simp: asked_def sizeof_defs split: if_splits)
  then have few: "length (tx_items (base_handler s3)) \<le> 112"
    using length_param_packet[OF wf(1) ask] by (simp only: s1(10)) (simp add: reply_def sizeof_ResponsePacket_def)
  obtain s4 s5 where s4: "send_periodic s3 = Inr s4" "Orazio_flushOutputBuffers s4 = Inr s5" "orazio_inv s5" "undisturbed s3 s5"
    "tx_items (base_handler s5) = []" "uart_tx_items (uart_0 (fw s5)) = tx_items (base_handler s3) @ concat (map (out_frame (fw s3)) (epoch_list (fw s3)))"
    using cycle_tail[OF s1(3) f(5) few s1(9)] by blast
  have "length (uart_tx_items (uart_0 (fw s5))) \<le> 255"
    using few quiet_epoch_size(1)[OF f(5)]
    by (simp only: s4(6) length_append length_epoch_frames[OF orazio_invD(3)[OF s1(3)]])
  from transmit_cycle[OF s4(3) this] obtain g where
    g: "transmit_all 255 (fw s5) = (uart_tx_items (uart_0 (fw s5)), g)" "orazio_inv (s5\<lparr>fw := g\<rparr>)" "undisturbed s5 (s5\<lparr>fw := g\<rparr>)"
      "uart_tx_items (uart_0 g) = []"
    by blast
  let ?s = "s5\<lparr>fw := g\<rparr>"
  have u: "undisturbed s3 ?s" using undisturbed_trans[OF s4(4) g(3)] .
  have "Orazio_commHandle (robot_receives (frame (put_ParamControlPacket q)) s) = Inr s5"
    by (simp add: Orazio_commHandle_def s1(1,2) s4(1,2))
  then have ex: "exchange (frame (put_ParamControlPacket q)) s = Inr (frame ?p @ frame ?r @ concat (map (out_frame (fw s3)) (epoch_list (fw s3))), ?s)"
    by (simp add: exchange_def g(1) s4(6) s1(10))
  have "param_headers (fw s3)" using param_headers_config[OF f(1) wf] idle by blast
  moreover have cfg: "config (fw ?s) = config (fw s3)" "joint_numbered (fw ?s) = joint_numbered (fw s3)" "global_seq (fw ?s) = global_seq (fw s3)"
    "string_message (fw ?s) = string_message (fw s3)" "same_rx (base_handler s3) (base_handler ?s)" "same_queue s3 ?s"
    "uart_rx_items (uart_0 (fw ?s)) = []"
    using u s1(8) by (simp_all add: undisturbed_def del: length_uart_items)
  moreover have "wf_fw (fw ?s)" using fw_readyD(1)[OF orazio_invD(3)[OF g(2)]] .
  ultimately have "param_headers (fw ?s)" using param_headers_config[OF cfg(1) wf(2)] by blast
  moreover have "\<not> message_due (fw ?s)" using f(5) message_due_string[OF cfg(4)] by blast
  moreover have "pending ?s = []" using same_queue_inv(4)[OF cfg(6)] s1(4) by simp
  moreover have "\<forall>e \<in> set packet_table. registered e ?s" using registered_undisturbed[OF u] s1(6) by blast
  moreover have "rxFn (base_handler ?s) = rxAA" using cfg(5) s1(5) by (simp add: same_rx_def)
  ultimately have "robot_idle ?s" using g(2,4) s4(5) cfg(2,7) f(2) unfolding robot_idle_def by simp
  then show ?thesis using ex cfg(1,3) f(1,2,4,5) orazio_invD(3)[OF s1(3)] by (intro exI[of _ "fw s3"] exI[of _ ?s]) simp
qed

end
