(* ===== verification/Configure.thy ===== *)
theory Configure
  imports Query
begin

text \<open>
  The host asks the robot for its configuration: \<open>OrazioClient_readConfiguration\<close> against the robot
  that answers, over the bytes of both sides.
\<close>

section \<open>The variables of the client for the answers\<close>

definition response_entry :: "addr \<times> u8 \<times> nat \<times> bool" where
  "response_entry = (cl_response, RESPONSE_PACKET_ID, sizeof_ResponsePacket, False)"

definition param_entry :: "u8 \<Rightarrow> addr \<times> u8 \<times> nat \<times> bool" where
  "param_entry t =
     (if t = ParamSystem then (cl_system_param, SYSTEM_PARAM_PACKET_ID, sizeof_SystemParamPacket, False)
      else if t = ParamJointsSingle then (cl_joint_param, JOINT_PARAM_PACKET_ID, sizeof_JointParamPacket, True)
      else if t = ParamDrive then (cl_drive_param, DIFFERENTIAL_DRIVE_PARAM_PACKET_ID, sizeof_DifferentialDriveParamPacket, False)
      else (cl_sonar_param, SONAR_PARAM_PACKET_ID, sizeof_SonarParamPacket, False))"

text \<open>Where the client keeps the parameters of a kind, and how long they are.\<close>

definition param_place :: "u8 \<Rightarrow> u8 \<Rightarrow> addr \<times> nat" where
  "param_place t i = (case param_entry t of (dest, type, sz, indexed) \<Rightarrow> (if indexed then dest + sz * unat i else dest, sz))"

definition host_param :: "u8 \<Rightarrow> u8 \<Rightarrow> client \<Rightarrow> u8 list" where
  "host_param t i cl = read_mem (mem cl) (fst (param_place t i)) (snd (param_place t i))"

lemma entries_table: "response_entry \<in> set client_table" "param_entry t \<in> set client_table"
  "param_entry t \<noteq> response_entry" "response_entry \<noteq> param_entry t"
  by (simp_all add: response_entry_def param_entry_def client_table_def)

lemma reply_acceptable: "acceptable response_entry (reply q p r)"
  by (simp add: acceptable_def response_entry_def reply_def put_ResponsePacket_def put_PacketHeader_bytes sizeof_ResponsePacket_def
      sizeof_PacketHeader_def)

lemma joint_param_nth:
  "put_JointParamPacket p ! 0 = h_type (pi_header (jpp_header p))" "put_JointParamPacket p ! Suc 0 = h_size (pi_header (jpp_header p))"
  "put_JointParamPacket p ! sizeof_PacketHeader = pi_index (jpp_header p)"
proof -
  show "put_JointParamPacket p ! 0 = h_type (pi_header (jpp_header p))" "put_JointParamPacket p ! Suc 0 = h_size (pi_header (jpp_header p))"
    by (simp_all add: put_joint_param_header put_PacketHeader_bytes)
  show "put_JointParamPacket p ! sizeof_PacketHeader = pi_index (jpp_header p)"
    by (simp add: put_joint_param_header nth_append put8_def)
qed

text \<open>An answer is accepted, and lands where the client keeps these parameters.\<close>

lemma param_packet_accepted:
  assumes "wf_fw f" and "param_headers f" and ask: "asked t i = Some (ob, off, n)"
  shows "acceptable (param_entry t) (param_packet q f t i)"
    and "client_target (param_entry t) (param_packet q f t i) = fst (param_place t i)"
    and "length (param_packet q f t i) = snd (param_place t i)"
proof -
  have len: "length (param_packet q f t i) = n" by (rule length_param_packet[OF assms(1) ask])
  have n: "n = snd (param_place t i)" using ask by (auto simp: asked_def param_place_def param_entry_def split: if_splits)
  show "length (param_packet q f t i) = snd (param_place t i)" using len n by simp
  have h: "header_ok (sp_header (system_params f)) SYSTEM_PARAM_PACKET_ID sizeof_SystemParamPacket"
    "header_ok (dp_header (drive_params f)) DIFFERENTIAL_DRIVE_PARAM_PACKET_ID sizeof_DifferentialDriveParamPacket"
    "header_ok (snp_header (sonar_params f)) SONAR_PARAM_PACKET_ID sizeof_SonarParamPacket"
    using assms(2) by (simp_all add: param_headers_def)
  have "acceptable (param_entry t) (param_packet q f t i) \<and> client_target (param_entry t) (param_packet q f t i) = fst (param_place t i)"
  proof (cases "t \<noteq> ParamSystem \<and> t = ParamJointsSingle")
    case True
    then have i: "unat i < 2" using ask by (simp add: asked_def split: if_splits)
    then have "unat i = 0 \<or> unat i = 1" by linarith
    then have j: "header_ok (pi_header (jpp_header (joint_params f ! unat i))) JOINT_PARAM_PACKET_ID sizeof_JointParamPacket"
      "pi_index (jpp_header (joint_params f ! unat i)) = word_of_nat (unat i)"
      using assms(2) unfolding param_headers_def by (metis insertI1 insertI2)+
    have len': "length (param_packet q f t i) = sizeof_JointParamPacket" using len ask True by (simp add: asked_def split: if_splits)
    show ?thesis
      using True i j len'
      by (simp add: acceptable_def param_entry_def param_packet_def joint_param_nth header_ok_def stamp_params param_place_def client_target_def)
  next
    case False
    then show ?thesis
      using h len n
      by (auto simp: acceptable_def param_entry_def param_packet_def header_ok_def stamp_params param_place_def client_target_def
          put_SystemParamPacket_def put_DifferentialDriveParamPacket_def put_SonarParamPacket_def put_PacketHeader_bytes)
  qed
  then show "acceptable (param_entry t) (param_packet q f t i)"
    "client_target (param_entry t) (param_packet q f t i) = fst (param_place t i)" by simp_all
qed

lemma places_apart:
  assumes "asked t i \<noteq> None" and "asked t' i' \<noteq> None" and "param_place t i \<noteq> param_place t' i'"
  shows "apart (param_place t i) (param_place t' i')"
proof -
  have place: "param_place t i \<in> {(cl_system_param, 24), (cl_joint_param, 25), (cl_joint_param + 25, 25), (cl_drive_param, 38), (cl_sonar_param, 12)}"
    if "asked t i \<noteq> None" for t i
  proof -
    have "unat i = 0 \<or> unat i = 1" if "unat i < 2" using that by linarith
    then show ?thesis
      using that by (auto simp: asked_def param_place_def param_entry_def sizeof_defs split: if_splits)
  qed
  have "\<forall>p \<in> {(cl_system_param, 24), (cl_joint_param, 25), (cl_joint_param + 25, 25), (cl_drive_param, 38), (cl_sonar_param, 12)}.
      \<forall>p' \<in> {(cl_system_param, 24), (cl_joint_param, 25), (cl_joint_param + 25, 25), (cl_drive_param, 38), (cl_sonar_param, 12)}.
      p \<noteq> p' \<longrightarrow> apart p p'"
    by (simp add: apart_def cl_areas sizeof_defs)
  then show ?thesis using place[OF assms(1)] place[OF assms(2)] assms(3) by blast
qed

section \<open>Packets that do not matter\<close>

definition harmless :: "((addr \<times> u8 \<times> nat \<times> bool) \<times> u8 list) list \<Rightarrow> bool" where
  "harmless eps \<longleftrightarrow> (\<forall>(e, pkt) \<in> set eps. e \<in> set client_table \<and> acceptable e pkt \<and> e \<noteq> response_entry \<and> e \<notin> range param_entry)"

definition line_of :: "((addr \<times> u8 \<times> nat \<times> bool) \<times> u8 list) list \<Rightarrow> u8 list" where
  "line_of eps = concat (map (\<lambda>(e, pkt). frame pkt) eps)"

lemma epoch_harmless:
  assumes "fw_ready f" and "joint_numbered f"
  shows "harmless (map (host_packet f) (epoch_list f))"
    and "line_of (map (host_packet f) (epoch_list f)) = concat (map (out_frame f) (epoch_list f))"
proof -
  have other: "e \<noteq> response_entry \<and> e \<notin> range param_entry" if "e = host_entry p" "p \<in> set epoch_ptrs" for e p
    using that by (auto simp: epoch_ptrs_def host_entry_def response_entry_def param_entry_def end_entry_def split: if_splits)
  have "e \<in> set client_table \<and> acceptable e pkt \<and> e \<noteq> response_entry \<and> e \<notin> range param_entry"
    if packet: "(e, pkt) \<in> set (map (host_packet f) (epoch_list f))" for e pkt
  proof -
    obtain p where p: "e = host_entry p" "pkt = sent f p" "p \<in> set epoch_ptrs"
      using packet epoch_list_ptrs[of _ f] by (auto simp: host_packet_def)
    then show ?thesis using sent_acceptable[OF assms p(3)] other[OF p(1,3)] by blast
  qed
  then show "harmless (map (host_packet f) (epoch_list f))" unfolding harmless_def by blast
  show "line_of (map (host_packet f) (epoch_list f)) = concat (map (out_frame f) (epoch_list f))"
    by (simp add: line_of_def out_frame_fun host_packet_def o_def)
qed

text \<open>They change neither the response nor the parameters.\<close>

lemma deliver_all_other:
  assumes "\<forall>(e, pkt) \<in> set eps. e \<in> set client_table \<and> acceptable e pkt \<and> e \<noteq> e'" and "e' \<in> set client_table"
    and "fst (client_area e') \<le> a" and "a + n \<le> fst (client_area e') + snd (client_area e')"
  shows "read_mem (deliver_all eps m) a n = read_mem m a n"
  using assms(1)
proof (induction eps arbitrary: m)
  case (Cons ep eps)
  obtain e pkt where ep: "ep = (e, pkt)" by (cases ep)
  have e: "e \<in> set client_table" "acceptable e pkt" "e' \<noteq> e" using Cons.prems by (auto simp: ep)
  have "read_mem (deliver_all (ep # eps) m) a n = read_mem (deliver_all eps (deliver e pkt m)) a n"
    by (simp add: deliver_all_def ep)
  also have "\<dots> = read_mem (deliver e pkt m) a n" using Cons.IH Cons.prems by simp
  also have "\<dots> = read_mem m a n" by (rule deliver_other[OF e(1,2) assms(2) e(3) assms(3,4)])
  finally show ?case .
qed (simp add: deliver_all_def)

lemma place_in_area:
  assumes "asked t i \<noteq> None"
  shows "fst (client_area (param_entry t)) \<le> fst (param_place t i)"
    and "fst (param_place t i) + snd (param_place t i) \<le> fst (client_area (param_entry t)) + snd (client_area (param_entry t))"
  using assms by (auto simp: client_area_def param_place_def param_entry_def asked_def sizeof_defs split: if_splits)

lemma harmless_params:
  assumes "harmless eps" and "asked t i \<noteq> None"
  shows "read_mem (deliver_all eps m) (fst (param_place t i)) (snd (param_place t i)) = read_mem m (fst (param_place t i)) (snd (param_place t i))"
  by (rule deliver_all_other[OF _ entries_table(2) place_in_area[OF assms(2)]]) (use assms(1) in \<open>auto simp: harmless_def\<close>)

section \<open>Waiting for the response\<close>

lemma response_read:
  assumes "\<forall>(e, pkt) \<in> set eps. e \<in> set client_table \<and> acceptable e pkt \<and> e \<noteq> response_entry" and "mem cl' = deliver_all eps (mem cl)"
  shows "client_response cl' = client_response cl"
proof -
  have "read_mem (mem cl') cl_response sizeof_ResponsePacket = read_mem (mem cl) cl_response sizeof_ResponsePacket"
    unfolding assms(2)
    by (rule deliver_all_other[OF assms(1) entries_table(1)]) (simp_all add: client_area_def response_entry_def)
  then show ?thesis by (simp add: client_response_def)
qed

lemma await_frames:
  assumes "client_idle cl" and "\<forall>(e, pkt) \<in> set eps. e \<in> set client_table \<and> acceptable e pkt \<and> e \<noteq> response_entry"
    and "\<not> (rp_p_type (client_response cl) = h_type p \<and> rp_p_seq (client_response cl) = h_seq p)"
    and "incoming cl = map Data (line_of eps @ frame (reply q p r)) @ rs" and "length eps < timeout"
  shows "\<exists>cl'. await_response timeout (h_type p) (h_seq p) cl = Inr (Success, cl')
    \<and> mem cl' = deliver response_entry (reply q p r) (deliver_all eps (mem cl)) \<and> incoming cl' = rs \<and> client_idle cl' \<and> same_link cl cl'"
  using assms
proof (induction eps arbitrary: cl timeout)
  case Nil
  obtain n where n: "timeout = Suc n" using Nil.prems(5) by (cases timeout) auto
  have "incoming cl = map Data (frame (reply q p r)) @ rs" using Nil.prems(4) by (simp add: line_of_def)
  from readPacket_frame[OF Nil.prems(1) entries_table(1) reply_acceptable this] obtain cl' where
    cl': "readPacket cl = Inr cl'" "mem cl' = deliver response_entry (reply q p r) (mem cl)" "incoming cl' = rs" "client_idle cl'" "same_link cl cl'"
    by blast
  have "read_mem (mem cl') cl_response sizeof_ResponsePacket = reply q p r"
    using deliver_own[OF entries_table(1) reply_acceptable[of q p r], of "mem cl"]
    by (simp add: cl'(2) client_target_def response_entry_def reply_def)
  then have "rp_p_type (client_response cl') = h_type p" "rp_p_seq (client_response cl') = h_seq p"
    using get_put_ResponsePacket[of _ "[]"] by (simp_all add: client_response_def reply_def)
  then show ?case using cl' by (simp add: n deliver_all_def)
next
  case (Cons ep eps)
  obtain e pkt where ep: "ep = (e, pkt)" by (cases ep)
  have e: "e \<in> set client_table" "acceptable e pkt" "e \<noteq> response_entry" using Cons.prems(2) by (auto simp: ep)
  obtain n where n: "timeout = Suc n" using Cons.prems(5) by (cases timeout) auto
  have "incoming cl = map Data (frame pkt) @ map Data (line_of eps @ frame (reply q p r)) @ rs"
    using Cons.prems(4) by (simp add: line_of_def ep)
  from readPacket_frame[OF Cons.prems(1) e(1,2) this] obtain cl1 where
    cl1: "readPacket cl = Inr cl1" "mem cl1 = deliver e pkt (mem cl)" "incoming cl1 = map Data (line_of eps @ frame (reply q p r)) @ rs"
      "client_idle cl1" "same_link cl cl1"
    by blast
  have "client_response cl1 = client_response cl"
    using response_read[of "[(e, pkt)]" cl1 cl] e by (simp add: cl1(2) deliver_all_def)
  then have no: "\<not> (rp_p_type (client_response cl1) = h_type p \<and> rp_p_seq (client_response cl1) = h_seq p)" using Cons.prems(3) by simp
  have "\<forall>(e, pkt) \<in> set eps. e \<in> set client_table \<and> acceptable e pkt \<and> e \<noteq> response_entry" "length eps < n"
    using Cons.prems(2,5) n by simp_all
  from Cons.IH[OF cl1(4) this(1) no cl1(3) this(2)] obtain cl' where
    "await_response n (h_type p) (h_seq p) cl1 = Inr (Success, cl')"
    "mem cl' = deliver response_entry (reply q p r) (deliver_all eps (mem cl1))" "incoming cl' = rs" "client_idle cl'" "same_link cl1 cl'"
    by blast
  then show ?case
    using cl1(1,2,5) no same_link_trans[of cl cl1 cl'] by (intro exI[of _ cl']) (auto simp: n deliver_all_def ep)
qed

section \<open>Sending a request\<close>

text \<open>Writing the queue to the line touches nothing but the queue and the counter of bytes.\<close>

definition same_rest :: "client \<Rightarrow> client \<Rightarrow> bool" where
  "same_rest cl cl' \<longleftrightarrow> mem cl' = mem cl \<and> ops_at cl' = ops_at cl \<and> same_rx (packet_handler cl) (packet_handler cl')
     \<and> incoming cl' = incoming cl \<and> num_joints cl' = num_joints cl \<and> write_locked cl' = write_locked cl \<and> read_locked cl' = read_locked cl
     \<and> cl_global_seq cl' = cl_global_seq cl \<and> packet_sizes cl' = packet_sizes cl \<and> write_ok cl' = write_ok cl"

lemma flush_step_rest: "same_rest cl (flush_step cl)"
proof -
  obtain c h where h: "PacketHandler_txByte (packet_handler cl) = (c, h)" by (metis surj_pair)
  then have "same_rx (packet_handler cl) h" using PacketHandler_txByte_same_rx[of "packet_handler cl"] by simp
  then show ?thesis by (simp add: flush_step_def h write_byte_def same_rest_def)
qed

lemma flushBuffer_rest: "flushBuffer cl = Inr cl' \<Longrightarrow> same_rest cl cl'"
proof (induction cl rule: flushBuffer.induct)
  case (1 cl)
  show ?case
  proof (cases "0 < tx_size (packet_handler cl)")
    case True
    then have "same_rest (flush_step cl) cl'" using 1 by (simp add: flushBuffer.simps[of cl])
    then show ?thesis using flush_step_rest[of cl] by (simp add: same_rest_def same_rx_def)
  next
    case False
    then show ?thesis using 1(2) by (simp add: flushBuffer.simps[of cl] same_rest_def split: if_splits)
  qed
qed

definition numbered :: "u16 \<Rightarrow> ParamControlPacket \<Rightarrow> ParamControlPacket" where
  "numbered k q = q\<lparr>pc_header := stamp_header k (pc_header q)\<rparr>"

lemma numbered_simps [simp]:
  "pc_action (numbered k q) = pc_action q" "pc_param_type (numbered k q) = pc_param_type q" "pc_index (numbered k q) = pc_index q"
  "h_seq (pc_header (numbered k q)) = k" "h_type (pc_header (numbered k q)) = h_type (pc_header q)"
  "numbered k (numbered j q) = numbered k q" "request_ok (numbered k q) = request_ok q"
  by (simp_all add: numbered_def stamp_header_def request_ok_def header_ok_def)

text \<open>A client with nothing queued that has not yet seen the response to its next packet.\<close>

definition client_fit :: "client \<Rightarrow> bool" where
  "client_fit cl \<longleftrightarrow> client_ready cl \<and> tx_items (packet_handler cl) = [] \<and> (\<forall>bs. write_ok cl bs)
     \<and> \<not> (rp_p_type (client_response cl) = PARAM_CONTROL_PACKET_ID \<and> rp_p_seq (client_response cl) = cl_global_seq cl + 1)"

lemma request_bytes:
  assumes "header_ok (pc_header q) PARAM_CONTROL_PACKET_ID sizeof_ParamControlPacket"
  shows "put_ParamControlPacket q ! 0 = PARAM_CONTROL_PACKET_ID" and "put_ParamControlPacket q ! Suc 0 = 7"
    and "take 2 (put_ParamControlPacket q) @ put16 k @ drop 4 (put_ParamControlPacket q) = put_ParamControlPacket (numbered k q)"
    and "fst (get16 (drop 2 (put_ParamControlPacket q))) = h_seq (pc_header q)"
  using assms stamped_header[of k "pc_header q", unfolded stamped_def]
  by (simp_all add: header_ok_def put_ParamControlPacket_def numbered_def stamp_header_def put_PacketHeader_bytes
      sizeof_ParamControlPacket_def)

lemma request_written:
  assumes "packet_sizes cl = outgoing_sizes" and "tx_ok (packet_handler cl)" and "tx_items (packet_handler cl) = []"
    and "\<forall>bs. write_ok cl bs" and "header_ok (pc_header q) PARAM_CONTROL_PACKET_ID sizeof_ParamControlPacket"
  shows "\<exists>cl1 cl2. client_send (put_ParamControlPacket q) cl = (Success, put_ParamControlPacket (numbered (cl_global_seq cl + 1) q), cl1)
    \<and> flushBuffer cl1 = Inr cl2 \<and> written cl2 = written cl @ frame (put_ParamControlPacket (numbered (cl_global_seq cl + 1) q))
    \<and> same_rest (cl\<lparr>cl_global_seq := cl_global_seq cl + 1\<rparr>) cl2 \<and> tx_items (packet_handler cl2) = [] \<and> tx_ok (packet_handler cl2)"
proof -
  let ?q = "numbered (cl_global_seq cl + 1) q"
  let ?p = "put_ParamControlPacket ?q"
  have size: "packet_sizes cl ! unat (PARAM_CONTROL_PACKET_ID :: u8) = 7"
    by (simp add: assms(1) outgoing_sizes_def sizeof_ParamControlPacket_def)
  have qok: "header_ok (pc_header ?q) PARAM_CONTROL_PACKET_ID sizeof_ParamControlPacket"
    using assms(5) by (simp add: numbered_def stamp_header_def header_ok_def)
  have len: "length ?p = unat (?p ! 1)" using request_bytes(2)[OF qok] by (simp add: sizeof_ParamControlPacket_def)
  have fits: "length (tx_items (packet_handler cl)) + unat (?p ! 1) + 3 \<le> 254"
    unfolding assms(3) using request_bytes(2)[OF qok] by simp
  have "unat (?p ! 1) \<le> length ?p" using len by simp
  note s = sendPacket_fits[OF assms(2) this fits]
  obtain h where h: "PacketHandler_sendPacket ?p (packet_handler cl) = (Success, h)" "tx_items h = frame ?p" "tx_ok h" "same_rx (packet_handler cl) h"
    using s len unfolding assms(3) by (cases "PacketHandler_sendPacket ?p (packet_handler cl)") simp
  let ?cl1 = "cl\<lparr>cl_global_seq := cl_global_seq cl + 1, packet_handler := h\<rparr>"
  have send: "client_send (put_ParamControlPacket q) cl = (Success, ?p, ?cl1)"
    using size h(1) request_bytes[OF assms(5)] by (simp add: client_send_def Let_def)
  obtain cl2 where cl2: "flushBuffer ?cl1 = Inr cl2" "written cl2 = written ?cl1 @ tx_items (packet_handler ?cl1)"
    "tx_items (packet_handler cl2) = []" "tx_ok (packet_handler cl2)"
    using flushBuffer_writes[of ?cl1] h(3) assms(4) by auto
  have "same_rest (cl\<lparr>cl_global_seq := cl_global_seq cl + 1\<rparr>) cl2"
    using flushBuffer_rest[OF cl2(1)] h(4) by (simp add: same_rest_def same_rx_def)
  then show ?thesis using send h(2) cl2 by auto
qed

text \<open>The memory of the client after the answer.\<close>

lemma answer_in_memory:
  assumes f: "wf_fw f" "param_headers f" and ask: "asked t i \<noteq> None" and L: "harmless L"
    and m: "mem cl' = deliver response_entry (reply g p r) (deliver_all (L @ [(param_entry t, param_packet g f t i)]) (mem cl))"
  shows "host_param t i cl' = param_packet g f t i"
    and "asked t' i' \<noteq> None \<Longrightarrow> param_place t' i' \<noteq> param_place t i \<Longrightarrow> host_param t' i' cl' = host_param t' i' cl"
    and "rp_p_type (client_response cl') = h_type p" and "rp_p_seq (client_response cl') = h_seq p"
proof -
  obtain ob off n where ask': "asked t i = Some (ob, off, n)" using ask by auto
  let ?P = "param_packet g f t i" and ?R = "reply g p r"
  note P = param_packet_accepted[OF f ask', of g]
  have all: "deliver_all (L @ [(param_entry t, ?P)]) m = deliver (param_entry t) ?P (deliver_all L m)" for m by (simp add: deliver_all_def)
  have keep: "read_mem (deliver response_entry ?R m) (fst (param_place u j)) (snd (param_place u j)) = read_mem m (fst (param_place u j)) (snd (param_place u j))"
    if "asked u j \<noteq> None" for u j m
    by (rule deliver_other[OF entries_table(1) reply_acceptable entries_table(2,3) place_in_area[OF that]])
  show "host_param t i cl' = ?P"
    using deliver_own[OF entries_table(2) P(1), of "deliver_all L (mem cl)"] keep[OF ask] by (simp add: host_param_def m all P(2,3))
  show "host_param t' i' cl' = host_param t' i' cl" if o: "asked t' i' \<noteq> None" "param_place t' i' \<noteq> param_place t i"
  proof -
    have "read_mem (deliver (param_entry t) ?P (deliver_all L (mem cl))) (fst (param_place t' i')) (snd (param_place t' i'))
        = read_mem (deliver_all L (mem cl)) (fst (param_place t' i')) (snd (param_place t' i'))"
    proof (rule deliver_apart[OF entries_table(2) P(1)])
      show "fst (param_place t' i') + snd (param_place t' i') \<le> cl_packet_buffer"
        using place_in_area(2)[OF o(1)] client_area_buffer[OF entries_table(2)[of t']] by linarith
      show "fst (param_place t' i') + snd (param_place t' i') \<le> client_target (param_entry t) ?P
          \<or> client_target (param_entry t) ?P + length ?P \<le> fst (param_place t' i')"
        using places_apart[OF o(1) ask o(2)] P(2,3) by (simp add: apart_def)
    qed
    then show ?thesis using keep[OF o(1)] harmless_params[OF L o(1)] by (simp add: host_param_def m all)
  qed
  have "read_mem (mem cl') cl_response sizeof_ResponsePacket = ?R"
    using deliver_own[OF entries_table(1) reply_acceptable[of g p r]] by (simp add: m client_target_def response_entry_def reply_def)
  then show "rp_p_type (client_response cl') = h_type p" "rp_p_seq (client_response cl') = h_seq p"
    using get_put_ResponsePacket[of _ "[]"] by (simp_all add: client_response_def reply_def)
qed

text \<open>One request of the client, with the answer of the robot and what was left of the last epoch on the line.\<close>

lemma client_asks:
  assumes fit: "client_fit cl" and q: "request_ok q" and f: "wf_fw f" "param_headers f" and L: "harmless L" "length L \<le> 6" and time: "8 \<le> timeout"
    and inc: "incoming cl = map Data (line_of L @ frame (param_packet g f (pc_param_type q) (pc_index q))
        @ frame (reply g (pc_header (numbered (cl_global_seq cl + 1) q)) r)) @ X"
  shows "\<exists>cl'. OrazioClient_sendPacket (put_ParamControlPacket q) timeout cl
      = Inr (Success, put_ParamControlPacket (numbered (cl_global_seq cl + 1) q), cl')
    \<and> client_fit cl' \<and> incoming cl' = X \<and> cl_global_seq cl' = cl_global_seq cl + 1 \<and> num_joints cl' = num_joints cl
    \<and> written cl' = written cl @ frame (put_ParamControlPacket (numbered (cl_global_seq cl + 1) q))
    \<and> host_param (pc_param_type q) (pc_index q) cl' = param_packet g f (pc_param_type q) (pc_index q)
    \<and> (\<forall>t' i'. asked t' i' \<noteq> None \<longrightarrow> param_place t' i' \<noteq> param_place (pc_param_type q) (pc_index q) \<longrightarrow> host_param t' i' cl' = host_param t' i' cl)"
proof -
  let ?q = "numbered (cl_global_seq cl + 1) q" and ?t = "pc_param_type q" and ?i = "pc_index q"
  let ?cl = "cl\<lparr>write_locked := True, read_locked := True\<rparr>" and ?eps = "L @ [(param_entry ?t, param_packet g f ?t ?i)]"
  note fit' = fit[unfolded client_fit_def client_ready_def]
  have ask: "asked ?t ?i \<noteq> None" using q by (simp add: request_ok_def)
  then obtain ob off n where ask': "asked ?t ?i = Some (ob, off, n)" by auto
  have locks: "lock_write cl = Inr (cl\<lparr>write_locked := True\<rparr>)" "lock_read (cl\<lparr>write_locked := True\<rparr>) = Inr ?cl"
    using fit' by (simp_all add: lock_write_def lock_read_def)
  obtain cl1 cl2 where send: "client_send (put_ParamControlPacket q) ?cl = (Success, put_ParamControlPacket ?q, cl1)"
    "flushBuffer cl1 = Inr cl2" "written cl2 = written cl @ frame (put_ParamControlPacket ?q)"
    "same_rest (?cl\<lparr>cl_global_seq := cl_global_seq cl + 1\<rparr>) cl2" "tx_items (packet_handler cl2) = []" "tx_ok (packet_handler cl2)"
    using request_written[of ?cl q] fit' q by (auto simp: request_ok_def)
  note rest = send(4)[unfolded same_rest_def same_rx_def]
  have idle: "client_idle cl2" using fit' rest by (simp add: client_idle_def client_ops_ok_def)
  have eps: "\<forall>(e, pkt) \<in> set ?eps. e \<in> set client_table \<and> acceptable e pkt \<and> e \<noteq> response_entry"
    using L(1) param_packet_accepted(1)[OF f ask'] entries_table by (auto simp: harmless_def)
  have resp: "client_response cl2 = client_response cl" using rest by (simp add: client_response_def)
  have type: "h_type (pc_header ?q) = PARAM_CONTROL_PACKET_ID" using q by (simp add: request_ok_def header_ok_def)
  have no: "\<not> (rp_p_type (client_response cl2) = h_type (pc_header ?q) \<and> rp_p_seq (client_response cl2) = h_seq (pc_header ?q))"
    using fit' type by (simp add: resp)
  have line: "incoming cl2 = map Data (line_of ?eps @ frame (reply g (pc_header ?q) r)) @ X"
    using rest inc by (simp add: line_of_def)
  have "length ?eps < nat timeout" using L(2) time by simp
  from await_frames[OF idle eps no line this] obtain cl3 where
    cl3: "await_response (nat timeout) (h_type (pc_header ?q)) (h_seq (pc_header ?q)) cl2 = Inr (Success, cl3)"
      "mem cl3 = deliver response_entry (reply g (pc_header ?q) r) (deliver_all ?eps (mem cl2))" "incoming cl3 = X" "client_idle cl3" "same_link cl2 cl3"
    by blast
  let ?cl' = "unlock_write (unlock_read cl3)"
  have ok: "header_ok (pc_header ?q) PARAM_CONTROL_PACKET_ID sizeof_ParamControlPacket"
    using q by (simp add: request_ok_def numbered_def stamp_header_def header_ok_def)
  have args: "put_ParamControlPacket ?q ! 0 = h_type (pc_header ?q)" "fst (get16 (drop 2 (put_ParamControlPacket ?q))) = h_seq (pc_header ?q)"
    using request_bytes(1,4)[OF ok] type by simp_all
  have call: "OrazioClient_sendPacket (put_ParamControlPacket q) timeout cl = Inr (Success, put_ParamControlPacket ?q, ?cl')"
    using locks send(1,2) cl3(1) time unfolding OrazioClient_sendPacket_def by (simp add: args)
  have m: "mem ?cl' = deliver response_entry (reply g (pc_header ?q) r) (deliver_all ?eps (mem cl))"
    using cl3(2) rest by (simp add: unlock_write_def unlock_read_def)
  note mem = answer_in_memory[OF f ask L(1) m]
  have link: "packet_handler ?cl' = packet_handler cl3" "cl_global_seq ?cl' = cl_global_seq cl + 1" "num_joints ?cl' = num_joints cl"
    "written ?cl' = written cl2" "packet_sizes ?cl' = packet_sizes cl" "write_ok ?cl' = write_ok cl" "incoming ?cl' = X"
    using cl3(3,5) rest by (simp_all add: unlock_write_def unlock_read_def same_link_def)
  have "client_idle ?cl'" "\<not> write_locked ?cl'" "\<not> read_locked ?cl'"
    using cl3(4) by (simp_all add: unlock_write_def unlock_read_def client_idle_def client_ops_ok_def)
  moreover have "tx_ok (packet_handler ?cl')" "tx_items (packet_handler ?cl') = []"
    using cl3(5) send(5,6) link(1) by (simp_all add: same_link_def)
  moreover have "\<forall>bs. write_ok ?cl' bs" "packet_sizes ?cl' = outgoing_sizes" using fit' link(5,6) by simp_all
  moreover have "rp_p_seq (client_response ?cl') \<noteq> cl_global_seq ?cl' + 1" using mem(4) link(2) by simp
  ultimately have "client_fit ?cl'" unfolding client_fit_def client_ready_def by blast
  then show ?thesis using call link send(3) mem(1,2) by (intro exI[of _ ?cl']) simp
qed

section \<open>The robot and the client side by side\<close>

definition request :: "u16 \<Rightarrow> u8 \<Rightarrow> u8 \<Rightarrow> ParamControlPacket" where
  "request k t i = \<lparr>pc_header = \<lparr>h_type = PARAM_CONTROL_PACKET_ID, h_size = word_of_nat sizeof_ParamControlPacket, h_seq = k\<rparr>,
     pc_action = ParamRequest, pc_param_type = t, pc_index = i\<rparr>"

definition is_query :: "ParamControlPacket \<Rightarrow> bool" where
  "is_query q \<longleftrightarrow> header_ok (pc_header q) PARAM_CONTROL_PACKET_ID sizeof_ParamControlPacket \<and> pc_action q = ParamRequest"

lemma is_query_simps [simp]: "is_query (request k t i)" "is_query (q\<lparr>pc_param_type := t\<rparr>) = is_query q" "is_query (q\<lparr>pc_index := i\<rparr>) = is_query q"
  by (simp_all add: is_query_def request_def header_ok_def)

lemma numbered_query: "is_query q \<Longrightarrow> numbered k q = request k (pc_param_type q) (pc_index q)"
  by (cases q, cases "pc_header q") (simp add: numbered_def request_def is_query_def header_ok_def stamp_header_def)

lemma query_request_ok: "is_query q \<Longrightarrow> request_ok q \<longleftrightarrow> asked (pc_param_type q) (pc_index q) \<noteq> None"
  by (simp add: request_ok_def is_query_def)

lemma request_fields [simp]:
  "pc_param_type (request k t i) = t" "pc_index (request k t i) = i" "request_ok (request k t i) \<longleftrightarrow> asked t i \<noteq> None"
  using query_request_ok[OF is_query_simps(1), of k t i] by (simp_all add: request_def)

text \<open>The robot serves one packet after the other.\<close>

fun conversation :: "ParamControlPacket list \<Rightarrow> orazio \<Rightarrow> (u8 list \<times> orazio) result" where
  "conversation [] s = Inr ([], s)"
| "conversation (q # qs) s = bindR (exchange (frame (put_ParamControlPacket q)) s) (\<lambda>(out, s1).
     bindR (conversation qs s1) (\<lambda>(outs, s2). Inr (out @ outs, s2)))"

definition serves :: "firmware \<Rightarrow> orazio \<Rightarrow> bool" where
  "serves f s \<longleftrightarrow> robot_idle s \<and> config (fw s) = config f"

lemma exchange_serves:
  assumes "serves f s" and "wf_fw f" and "request_ok q"
  shows "\<exists>L s'. exchange (frame (put_ParamControlPacket q)) s =
      Inr (frame (param_packet (global_seq (fw s) + 1) f (pc_param_type q) (pc_index q))
        @ frame (reply (global_seq (fw s) + 1) (pc_header q) Success) @ line_of L, s')
    \<and> serves f s' \<and> harmless L \<and> length L \<le> 6"
proof -
  have idle: "robot_idle s" "config (fw s) = config f" using assms(1) by (simp_all add: serves_def)
  then have wf: "wf_fw (fw s)" using fw_readyD(1)[OF orazio_invD(3)] by (simp add: robot_idle_def)
  obtain ob off n where ask: "asked (pc_param_type q) (pc_index q) = Some (ob, off, n)" using assms(3) by (auto simp: request_ok_def)
  obtain f' :: firmware and s' where a: "exchange (frame (put_ParamControlPacket q)) s =
      Inr (frame (param_packet (global_seq (fw s) + 1) (fw s) (pc_param_type q) (pc_index q))
        @ frame (reply (global_seq (fw s) + 1) (pc_header q) Success) @ concat (map (out_frame f') (epoch_list f')), s')"
    "robot_idle s'" "config (fw s') = config (fw s)" "fw_ready f'" "joint_numbered f'" "\<not> message_due f'"
    using robot_answers[OF idle(1) assms(3)] by blast
  note e = epoch_harmless[OF a(4,5)]
  show ?thesis
    using a(1-3) e idle(2) quiet_epoch_size(2)[OF a(6)] param_packet_config[OF idle(2) assms(2) wf ask]
    by (intro exI[of _ "map (host_packet f') (epoch_list f')"] exI[of _ s']) (simp add: serves_def)
qed

lemma conversation_serves:
  "serves f s \<Longrightarrow> wf_fw f \<Longrightarrow> \<forall>q \<in> set qs. request_ok q \<Longrightarrow> \<exists>out s'. conversation qs s = Inr (out, s') \<and> serves f s'"
proof (induction qs arbitrary: s)
  case (Cons q qs)
  from exchange_serves[OF Cons.prems(1,2), of q] Cons.prems(3) obtain out1 s1 where
    s1: "exchange (frame (put_ParamControlPacket q)) s = Inr (out1, s1)" "serves f s1" by auto
  from Cons.IH[OF s1(2) Cons.prems(2)] Cons.prems(3) obtain out2 s2 where "conversation qs s1 = Inr (out2, s2)" "serves f s2" by auto
  then show ?case using s1 by simp
qed simp

lemma conversation_append:
  "conversation (qs @ rs) s = bindR (conversation qs s) (\<lambda>(out, s1). bindR (conversation rs s1) (\<lambda>(outs, s2). Inr (out @ outs, s2)))"
  by (induction qs arbitrary: s) (auto simp: bindR_def split: sum.splits)

text \<open>What the client has when the rest of its input is \<open>X\<close>.\<close>

definition reads :: "client \<Rightarrow> read_result list \<Rightarrow> bool" where
  "reads cl X \<longleftrightarrow> client_fit cl \<and> (\<exists>L. harmless L \<and> length L \<le> 6 \<and> incoming cl = map Data (line_of L) @ X)"

definition knows :: "firmware \<Rightarrow> u8 \<Rightarrow> u8 \<Rightarrow> client \<Rightarrow> bool" where
  "knows f t i cl \<longleftrightarrow> (\<exists>g. host_param t i cl = param_packet g f t i)"

text \<open>One query of the configuration.\<close>

lemma query_answered:
  assumes link: "serves f s" "reads cl (map Data out @ X)" and f: "wf_fw f" "param_headers f"
    and q: "is_query q" "asked (pc_param_type q) (pc_index q) \<noteq> None" and time: "8 \<le> timeout"
    and ex: "exchange (frame (put_ParamControlPacket (request (cl_global_seq cl + 1) (pc_param_type q) (pc_index q)))) s = Inr (out, s')"
  shows "\<exists>cl'. send_query timeout (q, cl) = Inr (Success, request (cl_global_seq cl + 1) (pc_param_type q) (pc_index q), cl')
    \<and> serves f s' \<and> reads cl' X \<and> cl_global_seq cl' = cl_global_seq cl + 1 \<and> num_joints cl' = num_joints cl
    \<and> written cl' = written cl @ frame (put_ParamControlPacket (request (cl_global_seq cl + 1) (pc_param_type q) (pc_index q)))
    \<and> knows f (pc_param_type q) (pc_index q) cl'
    \<and> (\<forall>t i. asked t i \<noteq> None \<longrightarrow> param_place t i \<noteq> param_place (pc_param_type q) (pc_index q) \<longrightarrow> host_param t i cl' = host_param t i cl)"
proof -
  let ?q = "numbered (cl_global_seq cl + 1) q" and ?g = "global_seq (fw s) + 1"
  have req: "?q = request (cl_global_seq cl + 1) (pc_param_type q) (pc_index q)" by (rule numbered_query[OF q(1)])
  have ok: "request_ok q" "request_ok ?q" using query_request_ok[OF q(1)] q(2) by simp_all
  obtain L' where out: "out = frame (param_packet ?g f (pc_param_type q) (pc_index q)) @ frame (reply ?g (pc_header ?q) Success) @ line_of L'"
    "serves f s'" "harmless L'" "length L' \<le> 6"
    using exchange_serves[OF link(1) f(1) ok(2)] ex by (auto simp: req[symmetric])
  obtain L where L: "client_fit cl" "harmless L" "length L \<le> 6" "incoming cl = map Data (line_of L) @ map Data out @ X"
    using link(2) by (auto simp: reads_def)
  have "incoming cl = map Data (line_of L @ frame (param_packet ?g f (pc_param_type q) (pc_index q)) @ frame (reply ?g (pc_header ?q) Success))
      @ map Data (line_of L') @ X"
    using L(4) by (simp add: out(1))
  from client_asks[OF L(1) ok(1) f L(2,3) time this] obtain cl' where
    cl': "OrazioClient_sendPacket (put_ParamControlPacket q) timeout cl = Inr (Success, put_ParamControlPacket ?q, cl')"
      "client_fit cl'" "incoming cl' = map Data (line_of L') @ X" "cl_global_seq cl' = cl_global_seq cl + 1" "num_joints cl' = num_joints cl"
      "written cl' = written cl @ frame (put_ParamControlPacket ?q)"
      "host_param (pc_param_type q) (pc_index q) cl' = param_packet ?g f (pc_param_type q) (pc_index q)"
      "\<forall>t i. asked t i \<noteq> None \<longrightarrow> param_place t i \<noteq> param_place (pc_param_type q) (pc_index q) \<longrightarrow> host_param t i cl' = host_param t i cl"
    by blast
  have "send_query timeout (q, cl) = Inr (Success, ?q, cl')"
    using cl'(1) get_put_ParamControlPacket[of ?q "[]"] by (simp add: send_query_def)
  moreover have "reads cl' X" using cl'(2,3) out(3,4) by (auto simp: reads_def)
  moreover have "knows f (pc_param_type q) (pc_index q) cl'" using cl'(7) by (auto simp: knows_def)
  ultimately show ?thesis using cl'(4-6,8) out(2) unfolding req by blast
qed

section \<open>The whole configuration\<close>

fun joint_requests :: "u16 \<Rightarrow> nat list \<Rightarrow> ParamControlPacket list" where
  "joint_requests k [] = []"
| "joint_requests k (i # is) = request k ParamJointsSingle (word_of_nat i) # joint_requests (k + 1) is"

definition config_requests :: "u16 \<Rightarrow> nat \<Rightarrow> ParamControlPacket list" where
  "config_requests k n = request k ParamSystem (- 1) # joint_requests (k + 1) [0..<n]
     @ [request (k + 1 + word_of_nat n) ParamDrive (- 1), request (k + 2 + word_of_nat n) ParamSonar (- 1)]"

definition request_line :: "ParamControlPacket list \<Rightarrow> u8 list" where
  "request_line qs = concat (map (\<lambda>q. frame (put_ParamControlPacket q)) qs)"

lemma asked_kinds:
  "asked ParamSystem i \<noteq> None" "asked ParamDrive i \<noteq> None" "asked ParamSonar i \<noteq> None"
  "k < 2 \<Longrightarrow> asked ParamJointsSingle (word_of_nat k) \<noteq> None"
  by (simp_all add: asked_def unat_of_nat)

lemma joint_requests_ok: "\<forall>i \<in> set is. i < 2 \<Longrightarrow> q \<in> set (joint_requests k is) \<Longrightarrow> request_ok q"
proof (induction k "is" rule: joint_requests.induct)
  case (2 k i "is")
  then show ?case using asked_kinds(4)[of i] by auto
qed simp

lemma joint_places:
  assumes "i < 2" and "j < 2"
  shows "param_place ParamJointsSingle (word_of_nat i) = param_place ParamJointsSingle (word_of_nat j) \<longleftrightarrow> i = j"
  using assms by (simp add: param_place_def param_entry_def unat_of_nat sizeof_JointParamPacket_def)

lemma joints_answered:
  assumes "serves f s" and "reads cl (map Data out @ X)" and f: "wf_fw f" "param_headers f" and "is_query q"
    and "\<forall>i \<in> set is. i < 2" and "distinct is" and time: "8 \<le> timeout"
    and "conversation (joint_requests (cl_global_seq cl + 1) is) s = Inr (out, s')"
  shows "\<exists>q' cl'. query_joints timeout is rest (q, cl) = rest (q', cl') \<and> is_query q' \<and> serves f s' \<and> reads cl' X
    \<and> cl_global_seq cl' = cl_global_seq cl + word_of_nat (length is) \<and> num_joints cl' = num_joints cl
    \<and> written cl' = written cl @ request_line (joint_requests (cl_global_seq cl + 1) is)
    \<and> (\<forall>i \<in> set is. knows f ParamJointsSingle (word_of_nat i) cl')
    \<and> (\<forall>t i. asked t i \<noteq> None \<longrightarrow> (\<forall>j \<in> set is. param_place t i \<noteq> param_place ParamJointsSingle (word_of_nat j)) \<longrightarrow>
         host_param t i cl' = host_param t i cl)"
  using assms(1,2,5-7,9)
proof (induction "is" arbitrary: s cl out q)
  case Nil
  then show ?case by (intro exI[of _ q] exI[of _ cl]) (simp add: request_line_def)
next
  case (Cons i "is")
  let ?r = "request (cl_global_seq cl + 1) ParamJointsSingle (word_of_nat i)"
    and ?q = "q\<lparr>pc_param_type := ParamJointsSingle, pc_index := word_of_nat i\<rparr>"
  obtain out1 s1 out2 where ex: "exchange (frame (put_ParamControlPacket ?r)) s = Inr (out1, s1)"
    "conversation (joint_requests (cl_global_seq cl + 1 + 1) is) s1 = Inr (out2, s')" "out = out1 @ out2"
    using Cons.prems(6) by (auto simp: bindR_Inr_iff)
  have rd: "reads cl (map Data out1 @ map Data out2 @ X)" using Cons.prems(2) by (simp add: ex(3))
  have i: "i < 2" "i \<notin> set is" using Cons.prems(4,5) by simp_all
  have q: "is_query ?q" "asked (pc_param_type ?q) (pc_index ?q) \<noteq> None" "pc_param_type ?q = ParamJointsSingle" "pc_index ?q = word_of_nat i"
    using Cons.prems(3) asked_kinds(4)[OF i(1)] by simp_all
  from query_answered[OF Cons.prems(1) rd f q(1,2) time, unfolded q(3,4), OF ex(1)] obtain cl1 where
    cl1: "send_query timeout (?q, cl) = Inr (Success, ?r, cl1)" "serves f s1" "reads cl1 (map Data out2 @ X)"
      "cl_global_seq cl1 = cl_global_seq cl + 1" "num_joints cl1 = num_joints cl" "written cl1 = written cl @ frame (put_ParamControlPacket ?r)"
      "knows f ParamJointsSingle (word_of_nat i) cl1"
      "\<forall>t j. asked t j \<noteq> None \<longrightarrow> param_place t j \<noteq> param_place ParamJointsSingle (word_of_nat i) \<longrightarrow> host_param t j cl1 = host_param t j cl"
    by blast
  have step: "query_joints timeout (i # is) rest (q, cl) = query_joints timeout is rest (?r, cl1)"
    by (simp add: query_then_def cl1(1))
  have "\<forall>i \<in> set is. i < 2" "distinct is" "conversation (joint_requests (cl_global_seq cl1 + 1) is) s1 = Inr (out2, s')"
    using Cons.prems(4,5) ex(2) cl1(4) by simp_all
  from Cons.IH[OF cl1(2,3) is_query_simps(1) this] obtain q' cl' where
    cl': "query_joints timeout is rest (?r, cl1) = rest (q', cl')" "is_query q'" "serves f s'" "reads cl' X"
      "cl_global_seq cl' = cl_global_seq cl1 + word_of_nat (length is)" "num_joints cl' = num_joints cl1"
      "written cl' = written cl1 @ request_line (joint_requests (cl_global_seq cl1 + 1) is)"
      "\<forall>i \<in> set is. knows f ParamJointsSingle (word_of_nat i) cl'"
      "\<forall>t i. asked t i \<noteq> None \<longrightarrow> (\<forall>j \<in> set is. param_place t i \<noteq> param_place ParamJointsSingle (word_of_nat j)) \<longrightarrow>
         host_param t i cl' = host_param t i cl1"
    by blast
  have "\<forall>j \<in> set is. param_place ParamJointsSingle (word_of_nat i) \<noteq> param_place ParamJointsSingle (word_of_nat j)"
    using joint_places[OF i(1)] Cons.prems(4) i(2) by auto
  then have "knows f ParamJointsSingle (word_of_nat i) cl'"
    using cl1(7) cl'(9) asked_kinds(4)[OF i(1)] unfolding knows_def by metis
  moreover have "written cl' = written cl @ request_line (joint_requests (cl_global_seq cl + 1) (i # is))"
    using cl'(7) cl1(4,6) by (simp add: request_line_def)
  moreover have "cl_global_seq cl' = cl_global_seq cl + word_of_nat (length (i # is))" using cl'(5) cl1(4) by (simp add: ac_simps)
  ultimately show ?case using step cl'(1-4,6,8,9) cl1(5,8) by (intro exI[of _ q'] exI[of _ cl']) simp
qed

lemma reads_num_joints [simp]: "reads (cl\<lparr>num_joints := n\<rparr>) X = reads cl X" "knows f t i (cl\<lparr>num_joints := n\<rparr>) = knows f t i cl"
  "host_param t i (cl\<lparr>num_joints := n\<rparr>) = host_param t i cl"
  by (simp_all add: reads_def knows_def host_param_def client_fit_def client_ready_def client_idle_def client_ops_ok_def client_response_def)

text \<open>The parameters in the variables of the client, without the sequence numbers.\<close>

definition host_config :: "nat \<Rightarrow> client \<Rightarrow> SystemParamPacket \<times> JointParamPacket list \<times> DifferentialDriveParamPacket \<times> SonarParamPacket" where
  "host_config n cl = (stamp_system_param 0 (client_system_param cl),
     map (\<lambda>i. stamp_joint_param 0 (fst (get_JointParamPacket (host_param ParamJointsSingle (word_of_nat i) cl)))) [0..<n],
     stamp_drive_param 0 (fst (get_DifferentialDriveParamPacket (host_param ParamDrive (- 1) cl))),
     stamp_sonar_param 0 (fst (get_SonarParamPacket (host_param ParamSonar (- 1) cl))))"

lemma knows_system:
  assumes "knows f ParamSystem i cl"
  shows "\<exists>g. client_system_param cl = stamp_system_param g (system_params f)"
proof -
  obtain g where "host_param ParamSystem i cl = param_packet g f ParamSystem i" using assms by (auto simp: knows_def)
  then have "read_mem (mem cl) cl_system_param sizeof_SystemParamPacket = put_SystemParamPacket (stamp_system_param g (system_params f))"
    by (simp add: host_param_def param_place_def param_entry_def param_packet_def)
  then show ?thesis using get_put_SystemParamPacket[of _ "[]"] by (auto simp: client_system_param_def)
qed

lemma knows_config:
  assumes "knows f ParamSystem i cl" and "\<forall>k < n. knows f ParamJointsSingle (word_of_nat k) cl" and "knows f ParamDrive (- 1) cl"
    and "knows f ParamSonar (- 1) cl" and "wf_fw f" and "n \<le> 2"
  shows "host_config n cl = (case config f of (sp, jps, dp, snp) \<Rightarrow> (sp, take n jps, dp, snp))"
proof -
  have len: "length (joint_params f) = 2" using assms(5) by (simp add: wf_fw_def)
  have sys: "stamp_system_param 0 (client_system_param cl) = stamp_system_param 0 (system_params f)" using knows_system[OF assms(1)] by auto
  have joint: "stamp_joint_param 0 (fst (get_JointParamPacket (host_param ParamJointsSingle (word_of_nat k) cl)))
      = stamp_joint_param 0 (joint_params f ! k)" if k: "k < n" for k
  proof -
    obtain g where g: "host_param ParamJointsSingle (word_of_nat k) cl = put_JointParamPacket (stamp_joint_param g (joint_params f ! k))"
      using assms(2,6) k by (auto simp: knows_def param_packet_def unat_of_nat)
    have "wf_JointParamPacket (stamp_joint_param g (joint_params f ! k))"
      using assms(5,6) k by (simp add: wf_fw_def wf_JointParamPacket_def stamp_params)
    then show ?thesis using joint_param.exact_back[of "stamp_joint_param g (joint_params f ! k)"] by (simp add: g)
  qed
  obtain g where "host_param ParamDrive (- 1) cl = put_DifferentialDriveParamPacket (stamp_drive_param g (drive_params f))"
    using assms(3) by (auto simp: knows_def param_packet_def)
  then have drive: "stamp_drive_param 0 (fst (get_DifferentialDriveParamPacket (host_param ParamDrive (- 1) cl))) = stamp_drive_param 0 (drive_params f)"
    using drive_param.exact_back[of "stamp_drive_param g (drive_params f)"] by simp
  obtain h where h: "host_param ParamSonar (- 1) cl = put_SonarParamPacket (stamp_sonar_param h (sonar_params f))"
    using assms(4) by (auto simp: knows_def param_packet_def)
  have "wf_SonarParamPacket (stamp_sonar_param h (sonar_params f))"
    using assms(5) by (simp add: wf_fw_def wf_SonarParamPacket_def stamp_params)
  then have sonar: "stamp_sonar_param 0 (fst (get_SonarParamPacket (host_param ParamSonar (- 1) cl))) = stamp_sonar_param 0 (sonar_params f)"
    using sonar_param.exact_back[of "stamp_sonar_param h (sonar_params f)"] by (simp add: h)
  have "map (\<lambda>i. stamp_joint_param 0 (fst (get_JointParamPacket (host_param ParamJointsSingle (word_of_nat i) cl)))) [0..<n]
      = take n (map (stamp_joint_param 0) (joint_params f))"
    by (rule nth_equalityI) (use joint assms(6) len in simp_all)
  then show ?thesis by (simp add: host_config_def config_def sys drive sonar)
qed

lemma request_line_append [simp]: "request_line (qs @ rs) = request_line qs @ request_line rs"
  "request_line (q # qs) = frame (put_ParamControlPacket q) @ request_line qs" "request_line [] = []"
  by (simp_all add: request_line_def)

text \<open>The first query sets the number of joints, the rest follows it.\<close>

lemma configuration_run:
  assumes serve: "serves f s" and rd: "reads cl (map Data out @ X)" and f: "wf_fw f" "param_headers f" and time: "8 \<le> timeout"
    and version: "sp_protocol_version (system_params f) = ORAZIO_PROTOCOL_VERSION" and n: "n = unat (sp_num_joints (system_params f))" "n \<le> 2"
    and conv: "conversation (config_requests (cl_global_seq cl + 1) n) s = Inr (out, s')"
  shows "\<exists>cl'. OrazioClient_readConfiguration timeout cl = Inr (Returned Success, cl') \<and> serves f s' \<and> reads cl' X
    \<and> num_joints cl' = int n \<and> written cl' = written cl @ request_line (config_requests (cl_global_seq cl + 1) n)
    \<and> host_config n cl' = (case config f of (sp, jps, dp, snp) \<Rightarrow> (sp, take n jps, dp, snp))"
proof -
  let ?k = "cl_global_seq cl + 1"
  let ?r1 = "request ?k ParamSystem (- 1)" and ?js = "joint_requests (?k + 1) [0..<n]"
    and ?r2 = "request (?k + 1 + word_of_nat n) ParamDrive (- 1)" and ?r3 = "request (?k + 2 + word_of_nat n) ParamSonar (- 1)"
  obtain o1 s1 o2 s2 o3 s3 o4 where ex: "exchange (frame (put_ParamControlPacket ?r1)) s = Inr (o1, s1)" "conversation ?js s1 = Inr (o2, s2)"
    "exchange (frame (put_ParamControlPacket ?r2)) s2 = Inr (o3, s3)" "exchange (frame (put_ParamControlPacket ?r3)) s3 = Inr (o4, s')"
    "out = o1 @ o2 @ o3 @ o4"
    using conv by (auto simp: config_requests_def conversation_append bindR_Inr_iff)
  have q1: "is_query config_query" "pc_param_type config_query = ParamSystem" "pc_index config_query = - 1"
    by (simp_all add: is_query_def config_query_def header_ok_def)
  have "reads cl (map Data o1 @ map Data (o2 @ o3 @ o4) @ X)" using rd by (simp add: ex(5))
  from query_answered[OF serve this f q1(1) _ time, unfolded q1(2,3), OF asked_kinds(1) ex(1)] obtain cl1 where
    cl1: "send_query timeout (config_query, cl) = Inr (Success, ?r1, cl1)" "serves f s1" "reads cl1 (map Data (o2 @ o3 @ o4) @ X)"
      "cl_global_seq cl1 = ?k" "written cl1 = written cl @ frame (put_ParamControlPacket ?r1)" "knows f ParamSystem (- 1) cl1"
    by blast
  obtain g where sys: "client_system_param cl1 = stamp_system_param g (system_params f)" using knows_system[OF cl1(6)] by blast
  let ?cl = "cl1\<lparr>num_joints := int n\<rparr>"
  have nj: "uint (sp_num_joints (client_system_param cl1)) = int n" by (simp add: sys stamp_system_param_def n(1))
  have ver: "sp_protocol_version (client_system_param ?cl) = ORAZIO_PROTOCOL_VERSION"
    using version sys by (simp add: client_system_param_def stamp_system_param_def)
  let ?last = "\<lambda>(q, cl). query_then timeout (q\<lparr>pc_index := - 1, pc_param_type := ParamDrive\<rparr>, cl) (\<lambda>(q, cl).
           query_then timeout (q\<lparr>pc_param_type := ParamSonar\<rparr>, cl) (\<lambda>(q, cl). Inr (Returned Success, cl)))"
  have start: "OrazioClient_readConfiguration timeout cl = query_joints timeout [0..<n] ?last (?r1, ?cl)"
    using n(2) by (simp add: OrazioClient_readConfiguration_def query_then_def cl1(1) Let_def nj ver)
  have rd1: "reads ?cl (map Data o2 @ map Data (o3 @ o4) @ X)" using cl1(3) by simp
  have "\<forall>i \<in> set [0..<n]. i < 2" "distinct [0..<n]" "conversation (joint_requests (cl_global_seq ?cl + 1) [0..<n]) s1 = Inr (o2, s2)"
    using n(2) ex(2) cl1(4) by simp_all
  note js = joints_answered[OF cl1(2) rd1 f is_query_simps(1) this(1,2) time this(3), of ?last]
  have fields: "cl_global_seq ?cl = ?k" "num_joints ?cl = int n" "written ?cl = written cl1" using cl1(4) by simp_all
  from js[unfolded fields] obtain q2 cl2 where
    cl2: "query_joints timeout [0..<n] ?last (?r1, ?cl) = ?last (q2, cl2)" "is_query q2" "serves f s2" "reads cl2 (map Data (o3 @ o4) @ X)"
      "cl_global_seq cl2 = ?k + word_of_nat n" "num_joints cl2 = int n" "written cl2 = written cl1 @ request_line ?js"
      "\<forall>i \<in> set [0..<n]. knows f ParamJointsSingle (word_of_nat i) cl2"
      "\<forall>t i. asked t i \<noteq> None \<longrightarrow> (\<forall>j \<in> set [0..<n]. param_place t i \<noteq> param_place ParamJointsSingle (word_of_nat j)) \<longrightarrow>
         host_param t i cl2 = host_param t i ?cl"
    unfolding length_upt diff_zero by blast
  have k2: "cl_global_seq cl2 + 1 = ?k + 1 + word_of_nat n" using cl2(5) by simp
  let ?q2 = "q2\<lparr>pc_index := - 1, pc_param_type := ParamDrive\<rparr>"
  have q2: "is_query ?q2" "pc_param_type ?q2 = ParamDrive" "pc_index ?q2 = - 1" using cl2(2) by simp_all
  have "reads cl2 (map Data o3 @ map Data o4 @ X)" using cl2(4) by simp
  from query_answered[OF cl2(3) this f q2(1) _ time, unfolded q2(2,3) k2, OF asked_kinds(2) ex(3)] obtain cl3 where
    cl3: "send_query timeout (?q2, cl2) = Inr (Success, ?r2, cl3)" "serves f s3" "reads cl3 (map Data o4 @ X)"
      "cl_global_seq cl3 = ?k + 1 + word_of_nat n" "num_joints cl3 = num_joints cl2" "written cl3 = written cl2 @ frame (put_ParamControlPacket ?r2)"
      "knows f ParamDrive (- 1) cl3"
      "\<forall>t i. asked t i \<noteq> None \<longrightarrow> param_place t i \<noteq> param_place ParamDrive (- 1) \<longrightarrow> host_param t i cl3 = host_param t i cl2"
    using k2 by metis
  have k3: "cl_global_seq cl3 + 1 = ?k + 2 + word_of_nat n" using cl3(4) by simp
  let ?q3 = "?r2\<lparr>pc_param_type := ParamSonar\<rparr>"
  have q3: "is_query ?q3" "pc_param_type ?q3 = ParamSonar" "pc_index ?q3 = - 1" by (simp_all add: is_query_def request_def header_ok_def)
  from query_answered[OF cl3(2,3) f q3(1) _ time, unfolded q3(2,3) k3, OF asked_kinds(3) ex(4)] obtain cl4 where
    cl4: "send_query timeout (?q3, cl3) = Inr (Success, ?r3, cl4)" "serves f s'" "reads cl4 X" "num_joints cl4 = num_joints cl3"
      "written cl4 = written cl3 @ frame (put_ParamControlPacket ?r3)" "knows f ParamSonar (- 1) cl4"
      "\<forall>t i. asked t i \<noteq> None \<longrightarrow> param_place t i \<noteq> param_place ParamSonar (- 1) \<longrightarrow> host_param t i cl4 = host_param t i cl3"
    by blast
  have "?last (q2, cl2) = Inr (Returned Success, cl4)" by (simp only: query_then_def split cl3(1) cl4(1) bindR_simps simp_thms if_False)
  then have ret: "OrazioClient_readConfiguration timeout cl = Inr (Returned Success, cl4)" by (rule trans[OF start trans[OF cl2(1)]])
  have places: "param_place ParamSystem i \<noteq> param_place ParamJointsSingle j" "param_place ParamSystem i \<noteq> param_place ParamDrive j"
    "param_place ParamSystem i \<noteq> param_place ParamSonar j" "param_place ParamJointsSingle i \<noteq> param_place ParamDrive j"
    "param_place ParamJointsSingle i \<noteq> param_place ParamSonar j" "param_place ParamDrive i \<noteq> param_place ParamSonar j" for i j
    by (simp_all add: param_place_def param_entry_def sizeof_defs)
  have "knows f ParamSystem (- 1) cl4"
    using cl1(6) cl2(9) cl3(8) cl4(7) places asked_kinds(1) by (simp add: knows_def)
  moreover have "\<forall>i < n. knows f ParamJointsSingle (word_of_nat i) cl4"
    using cl2(8) cl3(8) cl4(7) places asked_kinds(4) n(2) by (simp add: knows_def)
  moreover have "knows f ParamDrive (- 1) cl4" using cl3(7) cl4(7) places asked_kinds(2) by (simp add: knows_def)
  ultimately have "host_config n cl4 = (case config f of (sp, jps, dp, snp) \<Rightarrow> (sp, take n jps, dp, snp))"
    by (rule knows_config[OF _ _ _ cl4(6) f(1) n(2)])
  moreover have "written cl4 = written cl @ request_line (config_requests ?k n)"
    using cl1(5) cl2(7) cl3(6) cl4(5) by (simp add: config_requests_def)
  ultimately show ?thesis using ret cl2(6) cl3(5) cl4(2-4) by (intro exI[of _ cl4]) simp
qed

lemma config_requests_ok: "n \<le> 2 \<Longrightarrow> q \<in> set (config_requests k n) \<Longrightarrow> request_ok q"
  using asked_kinds(1-3) joint_requests_ok[of "[0..<n]" q "k + 1"] by (auto simp: config_requests_def)

text \<open>
  C3. The host reads the configuration of the robot: a client with nothing queued and a robot that is idle, with the
  protocol version of the host and at most two joints. The client writes the requests for the system, every joint,
  the drive and the sonar with consecutive sequence numbers; the robot, reading exactly these frames one per cycle,
  answers them; and reading the bytes of the robot, status epochs in between included, the client returns
  \<open>Success\<close> with the parameters of the robot in its variables. Eight packets are enough for each response.
\<close>

theorem configuration_read:
  assumes "robot_idle s" and "client_fit cl" and "sp_protocol_version (system_params (fw s)) = ORAZIO_PROTOCOL_VERSION"
    and "n = unat (sp_num_joints (system_params (fw s)))" and "n \<le> NUM_JOINTS" and "8 \<le> timeout"
  shows "\<exists>out s' cl'. conversation (config_requests (cl_global_seq cl + 1) n) s = Inr (out, s') \<and> robot_idle s'
    \<and> config (fw s') = config (fw s)
    \<and> OrazioClient_readConfiguration timeout (cl\<lparr>incoming := map Data out\<rparr>) = Inr (Returned Success, cl')
    \<and> written cl' = written cl @ request_line (config_requests (cl_global_seq cl + 1) n)
    \<and> num_joints cl' = int n
    \<and> host_config n cl' = (case config (fw s) of (sp, jps, dp, snp) \<Rightarrow> (sp, take n jps, dp, snp))"
proof -
  have serve: "serves (fw s) s" using assms(1) by (simp add: serves_def)
  have f: "wf_fw (fw s)" "param_headers (fw s)" using assms(1) fw_readyD(1)[OF orazio_invD(3)] by (simp_all add: robot_idle_def)
  have "\<forall>q \<in> set (config_requests (cl_global_seq cl + 1) n). request_ok q" using config_requests_ok assms(5) by blast
  from conversation_serves[OF serve f(1) this] obtain out s' where
    conv: "conversation (config_requests (cl_global_seq cl + 1) n) s = Inr (out, s')" by blast
  let ?cl = "cl\<lparr>incoming := map Data out\<rparr>"
  have "client_fit ?cl" using assms(2)
    by (simp add: client_fit_def client_ready_def client_idle_def client_ops_ok_def client_response_def)
  then have rd: "reads ?cl (map Data out @ [])" by (auto simp: reads_def harmless_def line_of_def intro!: exI[of _ "[]"])
  have conv': "conversation (config_requests (cl_global_seq ?cl + 1) n) s = Inr (out, s')" using conv by simp
  have n: "n \<le> 2" using assms(5) by simp
  from configuration_run[OF serve rd f assms(6) assms(3,4) n conv'] conv show ?thesis by (auto simp: serves_def)
qed

lemma sample_robot_idle: "robot_idle sample"
proof -
  have "param_headers started_fw"
    by (simp add: param_headers_def started_fields header_ok_def init_system_params_def init_joint_params_def init_joint_param_def
        init_drive_params_def header_def)
      (simp add: started_fw_def sample_fields init_sonar_params_def header_def UART_init_def UART_reset_def setBaud57600_def setBaud115200_def
        setBaud_def Let_def set_reg_def or_reg_def sei_def cli_def clear_reg_def split: prod.splits)
  moreover have "\<not> message_due started_fw" by (simp add: message_due_def started_fields init_string_message_def header_def)
  moreover have "tx_items (base_handler sample) = []" using sample_fw(1) by (simp add: tx_items_def ring_items_def)
  moreover have "uart_rx_items (uart_0 started_fw) = []" using uart_items_Nil(2)[of "uart_0 started_fw"] by (simp add: started_fields del: length_uart_items)
  ultimately show ?thesis
    using sample_boot(2,3) commInit_rx[OF sample_boot(1)] commInit_registers[OF sample_boot(1)] started_seq(2)
    by (simp add: robot_idle_def sample_fw started_fields del: length_uart_items)
qed

lemma sample_client_fit: "client_fit sample_client"
proof -
  have "rp_p_type (client_response sample_client) = word_of_nat PACKET_TYPE_MAX"
    using client_init_ok[of 3 0 blank_client] sample_client_ready(1) by (auto simp: blank_client_def sample_handler_def)
  then show ?thesis using sample_client_ready(2,4) by (simp add: client_fit_def sample_client_fields)
qed

theorem configuration_read_witness:
  "\<exists>out s' cl'. conversation (config_requests 1 2) sample = Inr (out, s')
    \<and> OrazioClient_readConfiguration 100 (sample_client\<lparr>incoming := map Data out\<rparr>) = Inr (Returned Success, cl')
    \<and> num_joints cl' = 2 \<and> host_config 2 cl' = config (fw sample)"
proof -
  have p: "sp_protocol_version (system_params (fw sample)) = ORAZIO_PROTOCOL_VERSION" "2 = unat (sp_num_joints (system_params (fw sample)))"
    by (simp_all add: sample_fw started_fields init_system_params_def)
  have "length (joint_params (fw sample)) = 2" by (simp add: sample_fw started_fields init_joint_params_def)
  then have "(case config (fw sample) of (sp, jps, dp, snp) \<Rightarrow> (sp, take 2 jps, dp, snp)) = config (fw sample)" by (simp add: config_def)
  then show ?thesis
    using configuration_read[OF sample_robot_idle sample_client_fit p(1,2), of 100] by (auto simp: sample_client_fields(3))
qed

text \<open>
  C39. The client does not look at the result in a response: a control packet whose response reports any result, an error
  for example, makes \<open>OrazioClient_sendPacket\<close> return \<open>Success\<close>; the result itself is in the variable of the response.
\<close>

theorem refusal_is_success:
  assumes "client_fit cl" and "header_ok (pc_header q) PARAM_CONTROL_PACKET_ID sizeof_ParamControlPacket" and "0 < timeout"
    and "incoming cl = map Data (frame (reply g (pc_header (numbered (cl_global_seq cl + 1) q)) r)) @ X"
  shows "\<exists>cl'. OrazioClient_sendPacket (put_ParamControlPacket q) timeout cl
      = Inr (Success, put_ParamControlPacket (numbered (cl_global_seq cl + 1) q), cl')
    \<and> rp_p_result (client_response cl') = word_of_int (status_code r) \<and> incoming cl' = X"
proof -
  let ?q = "numbered (cl_global_seq cl + 1) q" and ?cl = "cl\<lparr>write_locked := True, read_locked := True\<rparr>"
  note fit = assms(1)[unfolded client_fit_def client_ready_def]
  have locks: "lock_write cl = Inr (cl\<lparr>write_locked := True\<rparr>)" "lock_read (cl\<lparr>write_locked := True\<rparr>) = Inr ?cl"
    using fit by (simp_all add: lock_write_def lock_read_def)
  obtain cl1 cl2 where send: "client_send (put_ParamControlPacket q) ?cl = (Success, put_ParamControlPacket ?q, cl1)"
    "flushBuffer cl1 = Inr cl2" "same_rest (?cl\<lparr>cl_global_seq := cl_global_seq cl + 1\<rparr>) cl2"
    using request_written[of ?cl q] fit assms(2) by auto
  note rest = send(3)[unfolded same_rest_def same_rx_def]
  have idle: "client_idle cl2" using fit rest by (simp add: client_idle_def client_ops_ok_def)
  have hdr: "header_ok (pc_header ?q) PARAM_CONTROL_PACKET_ID sizeof_ParamControlPacket"
    using assms(2) by (simp add: numbered_def stamp_header_def header_ok_def)
  then have type: "h_type (pc_header ?q) = PARAM_CONTROL_PACKET_ID" by (simp add: header_ok_def)
  have "client_response cl2 = client_response cl" using rest by (simp add: client_response_def)
  then have no: "\<not> (rp_p_type (client_response cl2) = h_type (pc_header ?q) \<and> rp_p_seq (client_response cl2) = h_seq (pc_header ?q))"
    using fit type by simp
  have line: "incoming cl2 = map Data (line_of [] @ frame (reply g (pc_header ?q) r)) @ X"
    using rest assms(4) by (simp add: line_of_def)
  from await_frames[OF idle _ no line, of "nat timeout"] assms(3) obtain cl3 where
    cl3: "await_response (nat timeout) (h_type (pc_header ?q)) (h_seq (pc_header ?q)) cl2 = Inr (Success, cl3)"
      "mem cl3 = deliver response_entry (reply g (pc_header ?q) r) (mem cl2)" "incoming cl3 = X"
    by (auto simp: deliver_all_def)
  have "put_ParamControlPacket ?q ! 0 = h_type (pc_header ?q)" "fst (get16 (drop 2 (put_ParamControlPacket ?q))) = h_seq (pc_header ?q)"
    using request_bytes(1,4)[OF hdr] type by simp_all
  then have call: "OrazioClient_sendPacket (put_ParamControlPacket q) timeout cl
      = Inr (Success, put_ParamControlPacket ?q, unlock_write (unlock_read cl3))"
    using locks send(1,2) cl3(1) assms(3) unfolding OrazioClient_sendPacket_def by simp
  have "read_mem (mem cl3) cl_response sizeof_ResponsePacket = reply g (pc_header ?q) r"
    using deliver_own[OF entries_table(1) reply_acceptable[of g "pc_header ?q" r], of "mem cl2"]
    by (simp add: cl3(2) client_target_def response_entry_def reply_def)
  then have "rp_p_result (client_response (unlock_write (unlock_read cl3))) = word_of_int (status_code r)"
    using get_put_ResponsePacket[of _ "[]"] by (simp add: client_response_def reply_def unlock_write_def unlock_read_def)
  then show ?thesis using call cl3(3) by (simp add: unlock_write_def unlock_read_def)
qed

theorem refusal_is_success_witness:
  "\<exists>cl'. OrazioClient_sendPacket (put_ParamControlPacket (request 0 9 0)) 10 (sample_client\<lparr>incoming :=
      map Data (frame (reply 5 (pc_header (request 1 9 0)) GenericError))\<rparr>)
    = Inr (Success, put_ParamControlPacket (request 1 9 0), cl') \<and> rp_p_result (client_response cl') = - 127"
proof -
  let ?cl = "sample_client\<lparr>incoming := map Data (frame (reply 5 (pc_header (request 1 9 0)) GenericError))\<rparr>"
  have "client_fit ?cl" using sample_client_fit
    by (simp add: client_fit_def client_ready_def client_idle_def client_ops_ok_def client_response_def)
  moreover have "numbered (cl_global_seq ?cl + 1) (request 0 9 0) = request 1 9 0"
    by (simp add: sample_client_fields(3) numbered_def request_def stamp_header_def)
  moreover have "header_ok (pc_header (request 0 9 0)) PARAM_CONTROL_PACKET_ID sizeof_ParamControlPacket" by (simp add: request_def header_ok_def)
  ultimately show ?thesis using refusal_is_success[of ?cl "request 0 9 0" 10 5 GenericError "[]"] by auto
qed

end
