(* ===== verification/HostText.thy ===== *)
theory HostText
  imports Float32 "HOL-Library.Char_ord"
begin

text \<open>
  The part of \<open>printf\<close> and \<open>scanf\<close> that the host program uses: decimal and hexadecimal integers,
  zero padding, fixed-point floats and strings. Texts are lists of characters.
\<close>

section \<open>Printing\<close>

definition digit_char :: "nat \<Rightarrow> char" where
  "digit_char d = ''0123456789abcdef'' ! d"

fun dec_digits :: "nat \<Rightarrow> string" where
  "dec_digits n = (if n < 10 then [digit_char n] else dec_digits (n div 10) @ [digit_char (n mod 10)])"

fun hex_digits :: "nat \<Rightarrow> string" where
  "hex_digits n = (if n < 16 then [digit_char n] else hex_digits (n div 16) @ [digit_char (n mod 16)])"

declare dec_digits.simps [simp del] hex_digits.simps [simp del]

definition zero_pad :: "nat \<Rightarrow> string \<Rightarrow> string" where
  "zero_pad w s = replicate (w - length s) CHR ''0'' @ s"

text \<open>\<open>%d\<close>, \<open>%0<w>d\<close>, \<open>%u\<close>, \<open>%x\<close>, \<open>%0<w>x\<close>\<close>

definition fmt_d :: "int \<Rightarrow> string" where
  "fmt_d i = (if i < 0 then CHR ''-'' # dec_digits (nat (- i)) else dec_digits (nat i))"

definition fmt_0d :: "nat \<Rightarrow> int \<Rightarrow> string" where
  "fmt_0d w i = (if i < 0 then CHR ''-'' # zero_pad (w - 1) (dec_digits (nat (- i))) else zero_pad w (dec_digits (nat i)))"

definition fmt_u :: "nat \<Rightarrow> string" where
  "fmt_u n = dec_digits n"

definition fmt_x :: "nat \<Rightarrow> string" where
  "fmt_x n = hex_digits n"

definition fmt_0x :: "nat \<Rightarrow> nat \<Rightarrow> string" where
  "fmt_0x w n = zero_pad w (hex_digits n)"

text \<open>\<open>%.<p>f\<close>: the exact value rounded to \<open>p\<close> decimals, to even on ties.\<close>

definition round_half_even :: "nat \<Rightarrow> nat \<Rightarrow> nat" where
  "round_half_even n d = (let q = n div d; r = n mod d in if d < 2 * r \<or> (2 * r = d \<and> odd q) then q + 1 else q)"

definition fmt_f :: "nat \<Rightarrow> f32 \<Rightarrow> string" where
  "fmt_f p x =
     (case f32_decode x of
        FNan \<Rightarrow> if 2147483648 \<le> unat x then ''-nan'' else ''nan''
      | FInf s \<Rightarrow> if s then ''-inf'' else ''inf''
      | FFin s m e \<Rightarrow>
          let v = (if 0 \<le> e then m * 2 ^ nat e * 10 ^ p else round_half_even (m * 10 ^ p) (2 ^ nat (- e))) in
          (if s then ''-'' else '''') @ dec_digits (v div 10 ^ p) @ ''.'' @ zero_pad p (dec_digits (v mod 10 ^ p)))"

section \<open>Scanning\<close>

definition is_blank :: "char \<Rightarrow> bool" where
  "is_blank c \<longleftrightarrow> of_char c = (32 :: nat) \<or> (9 \<le> (of_char c :: nat) \<and> (of_char c :: nat) \<le> 13)"

definition skip_blanks :: "string \<Rightarrow> string" where
  "skip_blanks s = dropWhile is_blank s"

text \<open>The value of a digit, 16 for a character that is none.\<close>

definition digit_value :: "char \<Rightarrow> nat" where
  "digit_value c =
     (let n = of_char c in
      if 48 \<le> n \<and> n \<le> 57 then n - 48
      else if 97 \<le> n \<and> n \<le> 102 then n - 87
      else if 65 \<le> n \<and> n \<le> 70 then n - 55
      else 16)"

definition is_digit :: "nat \<Rightarrow> char \<Rightarrow> bool" where
  "is_digit b c \<longleftrightarrow> digit_value c < b"

definition digits_value :: "nat \<Rightarrow> string \<Rightarrow> nat" where
  "digits_value b s = foldl (\<lambda>n c. n * b + digit_value c) 0 s"

text \<open>What a conversion of \<open>sscanf\<close> yields: the end of the text, no match, or a value and the rest.\<close>

datatype 'a scan = ScanEnd | ScanFail | Scanned 'a string

definition split_sign :: "string \<Rightarrow> bool \<times> string" where
  "split_sign s = (case s of
       c # r \<Rightarrow> if c = CHR ''-'' then (True, r) else if c = CHR ''+'' then (False, r) else (False, s)
     | [] \<Rightarrow> (False, s))"

text \<open>\<open>%d\<close> and \<open>%u\<close> (base 10), \<open>%x\<close> (base 16, with an optional prefix).\<close>

definition hex_prefix :: "string \<Rightarrow> bool" where
  "hex_prefix s \<longleftrightarrow> (case s of c # d # r \<Rightarrow> c = CHR ''0'' \<and> (d = CHR ''x'' \<or> d = CHR ''X'') | _ \<Rightarrow> False)"

definition scan_int :: "nat \<Rightarrow> string \<Rightarrow> int scan" where
  "scan_int b s0 =
     (let s = skip_blanks s0 in
      if s = [] then ScanEnd
      else case split_sign s of (neg, r0) \<Rightarrow>
        let r = (if b = 16 \<and> hex_prefix r0 then drop 2 r0 else r0);
            ds = takeWhile (is_digit b) r; v = int (digits_value b ds)
        in if ds = [] then ScanFail else Scanned (if neg then - v else v) (dropWhile (is_digit b) r))"

text \<open>\<open>%s\<close>\<close>

definition scan_word :: "string \<Rightarrow> string scan" where
  "scan_word s0 =
     (let s = skip_blanks s0 in
      if s = [] then ScanEnd
      else Scanned (takeWhile (\<lambda>c. \<not> is_blank c) s) (dropWhile (\<lambda>c. \<not> is_blank c) s))"

text \<open>
  \<open>%f\<close>: digits with an optional point and exponent, in base 10 or, after \<open>0x\<close>, in base 16 with a
  binary exponent; \<open>inf\<close>, \<open>infinity\<close> and \<open>nan\<close> in any case. The value is rounded once.
\<close>

definition lower :: "char \<Rightarrow> char" where
  "lower c = (let n = (of_char c :: nat) in if 65 \<le> n \<and> n \<le> 90 then char_of (n + 32) else c)"

definition scan_exponent :: "char \<Rightarrow> string \<Rightarrow> int option \<times> string" where
  "scan_exponent mark s = (case s of
       c # r \<Rightarrow>
         if lower c = mark
         then (case split_sign r of (neg, r1) \<Rightarrow>
           let ds = takeWhile (is_digit 10) r1; v = int (digits_value 10 ds) in
           if ds = [] then (None, r1) else (Some (if neg then - v else v), dropWhile (is_digit 10) r1))
         else (Some 0, s)
     | [] \<Rightarrow> (Some 0, s))"

definition scan_mantissa :: "nat \<Rightarrow> string \<Rightarrow> string \<times> string \<times> string" where
  "scan_mantissa b s =
     (let whole = takeWhile (is_digit b) s; r = dropWhile (is_digit b) s in
      case r of
        c # r1 \<Rightarrow> if c = CHR ''.'' then (whole, takeWhile (is_digit b) r1, dropWhile (is_digit b) r1) else (whole, [], r)
      | [] \<Rightarrow> (whole, [], r))"

definition scan_number :: "bool \<Rightarrow> nat \<Rightarrow> nat \<Rightarrow> char \<Rightarrow> string \<Rightarrow> f32 scan" where
  "scan_number neg b eb mark s =
     (case scan_mantissa b s of (whole, frac, r) \<Rightarrow>
        if whole @ frac = [] then ScanFail
        else case scan_exponent mark r of
            (None, _) \<Rightarrow> ScanFail
          | (Some e, r1) \<Rightarrow>
              Scanned (f32_round neg (digits_value b (whole @ frac) * eb ^ nat e) (b ^ length frac * eb ^ nat (- e)) 0) r1)"

definition scan_float :: "string \<Rightarrow> f32 scan" where
  "scan_float s0 =
     (let s = skip_blanks s0 in
      if s = [] then ScanEnd
      else case split_sign s of (neg, r) \<Rightarrow>
        let l = map lower r in
        if take 8 l = ''infinity'' then Scanned (f32_inf neg) (drop 8 r)
        else if take 3 l = ''inf'' then Scanned (f32_inf neg) (drop 3 r)
        else if take 3 l = ''nan'' then Scanned (if neg then f32_neg f32_nan else f32_nan) (drop 3 r)
        else if hex_prefix r then scan_number neg 16 2 CHR ''p'' (drop 2 r)
        else scan_number neg 10 10 CHR ''e'' r)"

section \<open>Reading back what was printed\<close>

lemma digit_value_char: "d < 16 \<Longrightarrow> digit_value (digit_char d) = d"
proof -
  have "\<forall>d \<in> set [0..<16]. digit_value (digit_char d) = d"
    by (simp add: upt_rec digit_char_def digit_value_def)
  then show "d < 16 \<Longrightarrow> digit_value (digit_char d) = d" by simp
qed

lemma digits_value_snoc: "digits_value b (s @ [c]) = digits_value b s * b + digit_value c"
  by (simp add: digits_value_def)

lemma dec_digits_value: "digits_value 10 (dec_digits n) = n"
proof (induction n rule: dec_digits.induct)
  case (1 n)
  then show ?case
    by (subst dec_digits.simps) (auto simp: digits_value_snoc digit_value_char, simp add: digits_value_def digit_value_char)
qed

lemma hex_digits_value: "digits_value 16 (hex_digits n) = n"
proof (induction n rule: hex_digits.induct)
  case (1 n)
  then show ?case
    by (subst hex_digits.simps) (auto simp: digits_value_snoc digit_value_char, simp add: digits_value_def digit_value_char)
qed

lemma dec_digits_are: "c \<in> set (dec_digits n) \<Longrightarrow> is_digit 10 c"
proof (induction n rule: dec_digits.induct)
  case (1 n)
  from 1(2) show ?case
    by (subst (asm) dec_digits.simps) (use 1(1) in \<open>auto simp: is_digit_def digit_value_char split: if_splits\<close>)
qed

lemma hex_digits_are: "c \<in> set (hex_digits n) \<Longrightarrow> is_digit 16 c"
proof (induction n rule: hex_digits.induct)
  case (1 n)
  from 1(2) show ?case
    by (subst (asm) hex_digits.simps) (use 1(1) in \<open>auto simp: is_digit_def digit_value_char split: if_splits\<close>)
qed

lemma dec_digits_nonempty [simp]: "dec_digits n \<noteq> []" "hex_digits n \<noteq> []"
  by (subst dec_digits.simps, simp) (subst hex_digits.simps, simp)

lemma digit_not_special: "is_digit 16 c \<Longrightarrow> \<not> is_blank c \<and> c \<noteq> CHR ''-'' \<and> c \<noteq> CHR ''+'' \<and> c \<noteq> CHR ''x'' \<and> c \<noteq> CHR ''X''"
  by (auto simp: is_digit_def digit_value_def is_blank_def Let_def split: if_splits)

lemma is_digit_mono: "is_digit 10 c \<Longrightarrow> is_digit 16 c"
  by (simp add: is_digit_def)

text \<open>A sign, digits of the base and then the end or a character that is no digit.\<close>

lemma scan_int_digits:
  assumes "ds \<noteq> []" and "\<forall>c \<in> set ds. is_digit b c" and "b = 10 \<or> b = 16"
    and "rest = [] \<or> \<not> is_digit b (hd rest)" and "b = 16 \<longrightarrow> \<not> hex_prefix (ds @ rest)"
  shows "scan_int b (ds @ rest) = Scanned (int (digits_value b ds)) rest"
    and "scan_int b (CHR ''-'' # ds @ rest) = Scanned (- int (digits_value b ds)) rest"
proof -
  obtain d ds' where ds: "ds = d # ds'" using assms(1) by (cases ds) auto
  have d: "\<not> is_blank d" "d \<noteq> CHR ''-''" "d \<noteq> CHR ''+''"
    using assms(2,3) digit_not_special[of d] is_digit_mono[of d] by (auto simp: ds)
  have sp: "takeWhile (is_digit b) (ds @ rest) = ds" "dropWhile (is_digit b) (ds @ rest) = rest"
    using assms(2,4) by (cases rest; auto simp: takeWhile_append2 dropWhile_append2)+
  have "skip_blanks (ds @ rest) = ds @ rest" "split_sign (ds @ rest) = (False, ds @ rest)"
    using d by (simp_all add: ds skip_blanks_def split_sign_def)
  then show "scan_int b (ds @ rest) = Scanned (int (digits_value b ds)) rest"
    using sp assms(1,5) by (auto simp: scan_int_def Let_def)
  have "skip_blanks (CHR ''-'' # ds @ rest) = CHR ''-'' # ds @ rest"
    "split_sign (CHR ''-'' # ds @ rest) = (True, ds @ rest)"
    by (simp_all add: skip_blanks_def split_sign_def is_blank_def)
  then show "scan_int b (CHR ''-'' # ds @ rest) = Scanned (- int (digits_value b ds)) rest"
    using sp assms(1,5) by (auto simp: scan_int_def Let_def)
qed

lemma scan_fmt_d:
  assumes "rest = [] \<or> \<not> is_digit 10 (hd rest)"
  shows "scan_int 10 (fmt_d i @ rest) = Scanned i rest"
  using scan_int_digits[of "dec_digits (nat i)" 10 rest] scan_int_digits[of "dec_digits (nat (- i))" 10 rest] assms dec_digits_are
  by (auto simp: fmt_d_def dec_digits_value)

lemma hex_digits_no_prefix: "rest = [] \<or> hd rest \<noteq> CHR ''x'' \<and> hd rest \<noteq> CHR ''X'' \<Longrightarrow> \<not> hex_prefix (hex_digits n @ rest)"
proof -
  assume rest: "rest = [] \<or> hd rest \<noteq> CHR ''x'' \<and> hd rest \<noteq> CHR ''X''"
  obtain c ds where ds: "hex_digits n = c # ds" using dec_digits_nonempty(2)[of n] by (cases "hex_digits n") auto
  show ?thesis
  proof (cases ds)
    case Nil
    then show ?thesis using rest by (cases rest) (auto simp: ds hex_prefix_def)
  next
    case (Cons d ds')
    then have "is_digit 16 d" using hex_digits_are[of d n] ds by simp
    then show ?thesis using digit_not_special[of d] by (simp add: ds Cons hex_prefix_def)
  qed
qed

lemma digits_value_zeros: "digits_value b (replicate k CHR ''0'' @ s) = digits_value b s"
  by (induction k) (simp_all add: digits_value_def digit_value_def)

lemma scan_fmt_0x:
  assumes "rest = [] \<or> \<not> is_digit 16 (hd rest) \<and> hd rest \<noteq> CHR ''x'' \<and> hd rest \<noteq> CHR ''X''"
  shows "scan_int 16 (fmt_0x w n @ rest) = Scanned (int n) rest"
proof -
  let ?z = "replicate (w - length (hex_digits n)) CHR ''0''"
  have zero: "is_digit 16 CHR ''0''" by (simp add: is_digit_def digit_value_def)
  have "\<not> hex_prefix ((?z @ hex_digits n) @ rest)"
  proof (cases "w - length (hex_digits n)")
    case 0
    then show ?thesis using hex_digits_no_prefix[of rest n] assms by auto
  next
    case (Suc k)
    have "hd (replicate k CHR ''0'' @ hex_digits n) \<in> set (CHR ''0'' # hex_digits n)"
      by (cases k; cases "hex_digits n") (use dec_digits_nonempty(2)[of n] in simp_all)
    then have "is_digit 16 (hd (replicate k CHR ''0'' @ hex_digits n))" using zero hex_digits_are by auto
    then show ?thesis
      using Suc digit_not_special by (cases "replicate k CHR ''0'' @ hex_digits n") (auto simp: hex_prefix_def)
  qed
  moreover have "\<forall>c \<in> set (?z @ hex_digits n). is_digit 16 c" using zero hex_digits_are by auto
  ultimately show ?thesis
    using scan_int_digits(1)[of "?z @ hex_digits n" 16 rest] assms
    by (auto simp: fmt_0x_def zero_pad_def digits_value_zeros hex_digits_value)
qed

end
