(* ===== verification/PrintPacket.thy ===== *)
theory PrintPacket
  imports HostText Packets
begin

text \<open>
  \<open>src/orazio_lib/src/orazio_host/orazio_print_packet.c\<close>: the text of every packet. The functions
  append to a buffer and return the number of characters; here they are the text itself.
  Arguments of \<open>%d\<close> are promoted to \<open>int\<close>, so unsigned fields of 32 bits print as signed.
\<close>

definition seq_text :: "PacketHeader \<Rightarrow> string" where
  "seq_text h = ''{seq:'' @ fmt_0d 5 (uint (h_seq h))"

definition SystemStatusPacket_print :: "SystemStatusPacket \<Rightarrow> string" where
  "SystemStatusPacket_print p =
     seq_text (ss_header p) @
     '', rxb:'' @
     fmt_d (uint (ss_rx_buffer_size p)) @
     '', rxp:'' @
     fmt_d (uint (ss_rx_packets p)) @
     '', rxe:'' @
     fmt_d (uint (ss_rx_packet_errors p)) @
     '', rxseq:'' @
     fmt_0d 5 (uint (ss_rx_seq p)) @
     '', txb:'' @
     fmt_d (uint (ss_tx_buffer_size p)) @
     '', txp:'' @
     fmt_d (uint (ss_tx_packets p)) @
     '', txe:'' @
     fmt_d (uint (ss_tx_packet_errors p)) @
     '', batt: '' @
     fmt_d (uint (ss_battery_level p)) @
     '', wd: '' @
     fmt_d (sint (ss_watchdog_count p)) @
     '' idle:'' @
     fmt_d (sint (ss_idle_cycles p)) @
     ''}''"

definition SystemParamPacket_print :: "SystemParamPacket \<Rightarrow> string" where
  "SystemParamPacket_print p =
     seq_text (sp_header p) @
     '', protocol:'' @
     fmt_x (unat (sp_protocol_version p)) @
     '', firmware:'' @
     fmt_x (unat (sp_firmware_version p)) @
     '', period:'' @
     fmt_d (sint (sp_timer_period_ms p)) @
     '', baud:'' @
     fmt_d (sint (sp_comm_speed p)) @
     '', com_c:'' @
     fmt_d (uint (sp_comm_cycles p)) @
     '', com_f: '' @
     fmt_0x 2 (unat (sp_periodic_packet_mask p)) @
     '' wd:'' @
     fmt_d (uint (sp_watchdog_cycles p)) @
     '', mot:'' @
     fmt_d (uint (sp_num_joints p)) @
     '' }''"

definition JointInfo_print :: "JointInfo \<Rightarrow> string" where
  "JointInfo_print p =
     ''{m:'' @
     fmt_d (uint (ji_mode p)) @
     '', pos: '' @
     fmt_d (uint (ji_encoder_position p)) @
     '', ms: '' @
     fmt_d (sint (ji_encoder_speed p)) @
     '', ds: '' @
     fmt_d (sint (ji_desired_speed p)) @
     '', pwm: '' @
     fmt_d (sint (ji_pwm p)) @
     '', curr:'' @
     fmt_d (sint (ji_sensed_current p)) @
     ''}''"

definition JointParams_print :: "JointParams \<Rightarrow> string" where
  "JointParams_print p =
     ''{kp:'' @
     fmt_d (sint (jp_kp p)) @
     '', ki:'' @
     fmt_d (sint (jp_ki p)) @
     '', kd:'' @
     fmt_d (sint (jp_kd p)) @
     '', maxI:'' @
     fmt_d (sint (jp_max_i p)) @
     '', max_pwm:'' @
     fmt_d (sint (jp_max_pwm p)) @
     '', min_pwm:'' @
     fmt_d (sint (jp_min_pwm p)) @
     '', max_speed:'' @
     fmt_d (sint (jp_max_speed p)) @
     '', slope:'' @
     fmt_d (sint (jp_slope p)) @
     '', ht:'' @
     fmt_d (uint (jp_h_bridge_type p)) @
     '', hp0:'' @
     fmt_d (sint (jp_h_bridge_pins p ! 0)) @
     '', hp1:'' @
     fmt_d (sint (jp_h_bridge_pins p ! 1)) @
     '', hp2:'' @
     fmt_d (sint (jp_h_bridge_pins p ! 2)) @
     ''}''"

definition joint_text :: "PacketIndexed \<Rightarrow> string" where
  "joint_text p =
     seq_text (pi_header p) @
     '', j'' @
     fmt_d (uint (pi_index p)) @
     '':''"

definition JointStatusPacket_print :: "JointStatusPacket \<Rightarrow> string" where
  "JointStatusPacket_print p =
     joint_text (jst_header p) @
     JointInfo_print (jst_info p) @
     ''}''"

definition JointParamPacket_print :: "JointParamPacket \<Rightarrow> string" where
  "JointParamPacket_print p =
     joint_text (jpp_header p) @
     JointParams_print (jpp_param p) @
     ''}''"

definition DifferentialDriveStatusPacket_print :: "DifferentialDriveStatusPacket \<Rightarrow> string" where
  "DifferentialDriveStatusPacket_print p =
     seq_text (ds_header p) @
     '', x:'' @
     fmt_f 3 (ds_odom_x p) @
     '', y:'' @
     fmt_f 3 (ds_odom_y p) @
     '', t:'' @
     fmt_f 3 (ds_odom_theta p) @
     '', tvm:'' @
     fmt_f 3 (ds_translational_velocity_measured p) @
     '', tvd:'' @
     fmt_f 3 (ds_translational_velocity_desired p) @
     '', tva:'' @
     fmt_f 3 (ds_translational_velocity_adjusted p) @
     '', rvm:'' @
     fmt_f 3 (ds_rotational_velocity_measured p) @
     '', rvd:'' @
     fmt_f 3 (ds_rotational_velocity_desired p) @
     '', rva:'' @
     fmt_f 3 (ds_rotational_velocity_adjusted p) @
     ''}''"

definition DifferentialDriveParamPacket_print :: "DifferentialDriveParamPacket \<Rightarrow> string" where
  "DifferentialDriveParamPacket_print p =
     seq_text (dp_header p) @
     '', ikl:'' @
     fmt_f 3 (dp_ikl p) @
     '', ikr:'' @
     fmt_f 3 (dp_ikr p) @
     '', b:'' @
     fmt_f 3 (dp_baseline p) @
     '', lji:'' @
     fmt_d (uint (dp_left_joint_index p)) @
     '', rji:'' @
     fmt_d (uint (dp_right_joint_index p)) @
     '', tvmax:'' @
     fmt_f 3 (dp_max_translational_velocity p) @
     '', tamax:'' @
     fmt_f 3 (dp_max_translational_acceleration p) @
     '', tdmax:'' @
     fmt_f 3 (dp_max_translational_brake p) @
     '', rvmax:'' @
     fmt_f 3 (dp_max_rotational_velocity p) @
     '', ramax:'' @
     fmt_f 3 (dp_max_rotational_acceleration p) @
     ''}''"

text \<open>\<open>%s\<close> prints up to a zero character; without one it reads past the packet.\<close>

definition c_text :: "u8 list \<Rightarrow> string result" where
  "c_text bs = (if 0 \<in> set bs then Inr (map (\<lambda>b. char_of (unat b)) (takeWhile (\<lambda>b. b \<noteq> 0) bs)) else Inl OutOfBounds)"

definition StringMessagePacket_print :: "StringMessagePacket \<Rightarrow> string result" where
  "StringMessagePacket_print p =
     bindR (c_text (sm_message p)) (\<lambda>msg. Inr (seq_text (sm_header p) @ '', message:['' @ msg @ '']}''))"

definition numbers_text :: "nat list \<Rightarrow> string" where
  "numbers_text ns = '', ['' @ concat (map (\<lambda>i. (if i = 0 then '''' else '' '') @ fmt_u (ns ! i)) [0..<SONARS_MAX]) @ '']}''"

definition SonarStatusPacket_print :: "SonarStatusPacket \<Rightarrow> string" where
  "SonarStatusPacket_print p = seq_text (sns_header p) @ numbers_text (map unat (sns_ranges p))"

definition SonarParamPacket_print :: "SonarParamPacket \<Rightarrow> string" where
  "SonarParamPacket_print p = seq_text (snp_header p) @ numbers_text (map unat (snp_pattern p))"

text \<open>
  \<open>_packet_print_ops\<close> after \<open>Orazio_printPacketInit\<close>: what the function of a type prints of the
  bytes of a packet, \<open>None\<close> for a type without one. A packet shorter than its type is read
  past its end.
\<close>

definition sized :: "nat \<Rightarrow> (u8 list \<Rightarrow> string result) \<Rightarrow> u8 list \<Rightarrow> string result" where
  "sized n f bs = (if length bs < n then Inl OutOfBounds else f bs)"

definition packet_print_ops :: "u8 \<Rightarrow> (u8 list \<Rightarrow> string result) option" where
  "packet_print_ops t =
     (if t = SYSTEM_STATUS_PACKET_ID then Some (sized sizeof_SystemStatusPacket (\<lambda>bs. Inr (SystemStatusPacket_print (fst (get_SystemStatusPacket bs)))))
      else if t = SYSTEM_PARAM_PACKET_ID then Some (sized sizeof_SystemParamPacket (\<lambda>bs. Inr (SystemParamPacket_print (fst (get_SystemParamPacket bs)))))
      else if t = DIFFERENTIAL_DRIVE_STATUS_PACKET_ID then Some (sized sizeof_DifferentialDriveStatusPacket
        (\<lambda>bs. Inr (DifferentialDriveStatusPacket_print (fst (get_DifferentialDriveStatusPacket bs)))))
      else if t = DIFFERENTIAL_DRIVE_PARAM_PACKET_ID then Some (sized sizeof_DifferentialDriveParamPacket
        (\<lambda>bs. Inr (DifferentialDriveParamPacket_print (fst (get_DifferentialDriveParamPacket bs)))))
      else if t = MESSAGE_PACKET_ID then Some (sized sizeof_StringMessagePacket (\<lambda>bs. StringMessagePacket_print (fst (get_StringMessagePacket bs))))
      else if t = SONAR_STATUS_PACKET_ID then Some (sized sizeof_SonarStatusPacket (\<lambda>bs. Inr (SonarStatusPacket_print (fst (get_SonarStatusPacket bs)))))
      else if t = SONAR_PARAM_PACKET_ID then Some (sized sizeof_SonarParamPacket (\<lambda>bs. Inr (SonarParamPacket_print (fst (get_SonarParamPacket bs)))))
      else if t = JOINT_STATUS_PACKET_ID then Some (sized sizeof_JointStatusPacket (\<lambda>bs. Inr (JointStatusPacket_print (fst (get_JointStatusPacket bs)))))
      else if t = JOINT_PARAM_PACKET_ID then Some (sized sizeof_JointParamPacket (\<lambda>bs. Inr (JointParamPacket_print (fst (get_JointParamPacket bs)))))
      else None)"

definition Orazio_printPacket :: "u8 list \<Rightarrow> string result" where
  "Orazio_printPacket bs =
     (let type = bs ! 0 in
      if PACKET_TYPE_MAX \<le> unat type then Inr ''''
      else case packet_print_ops type of None \<Rightarrow> Inr '''' | Some print_fn \<Rightarrow> print_fn bs)"

end
