(* ===== verification/ShellVars.thy ===== *)
theory ShellVars
  imports PrintPacket Client
begin

text \<open>
  \<open>src/orazio_lib/src/orazio_host/ventry.c\<close> and \<open>orazio_shell_globals.c\<close>: the packets that the shell
  and the web server show, the table that names every field, and the functions that print,
  set and refresh them.
\<close>

section \<open>Entries\<close>

datatype VariableType = TypePacket | TypeUInt8 | TypeInt8 | TypeUInt16 | TypeInt16 | TypeUInt32 | TypeInt32
  | TypeInt32Hex | TypeFloat | TypeString

abbreviation (input) VarRead :: u8 where "VarRead \<equiv> 1"
abbreviation (input) VarWrite :: u8 where "VarWrite \<equiv> 2"

text \<open>The global packets; the joint packets are arrays of two.\<close>

datatype VObj = V_system_status | V_system_params | V_sonar_status | V_sonar_params | V_message | V_drive_status
  | V_drive_params | V_end_epoch | V_response | V_param_control | V_joint_params | V_joint_status
  | V_joint_control | V_drive_control

text \<open>A pointer to a field is the packet and the offset in it.\<close>

record VEntry =
  ve_name :: string
  ve_type :: VariableType
  ve_obj :: VObj
  ve_off :: nat
  ve_access_flags :: u8

definition entry :: "string \<Rightarrow> VariableType \<Rightarrow> VObj \<Rightarrow> nat \<Rightarrow> u8 \<Rightarrow> VEntry" where
  "entry name type obj off flags = \<lparr>ve_name = name, ve_type = type, ve_obj = obj, ve_off = off, ve_access_flags = flags\<rparr>"

text \<open>
  The state of the shell: the packets as bytes, the client, the flags that the threads share,
  the text printed so far, and the files of the working directory.
\<close>

record shell =
  vmem :: "VObj \<Rightarrow> u8 list"
  sh_client :: client
  sh_run :: bool
  op_result :: PacketStatus
  state_sem_init :: bool
  param_sem_init :: bool
  console :: string
  readable :: "string \<Rightarrow> string option"
  writable :: "string \<Rightarrow> bool"

definition say :: "string \<Rightarrow> shell \<Rightarrow> shell" where
  "say t sh = sh\<lparr>console := console sh @ t\<rparr>"

definition newline :: string where "newline = [CHR 0x0A]"

definition access_error :: "VEntry \<Rightarrow> string" where
  "access_error v = ''access error Owned: '' @ fmt_d (uint (ve_access_flags v)) @ '' Required: 1'' @ newline"

section \<open>Reading and writing a field\<close>

text \<open>
  \<open>VEntry_read\<close>. A number outside of the range of its conversion stores \<open>big\<close> of it, which the
  C library is free to choose. The result is the number of converted items, \<open>-1\<close> at the end
  of the text.
\<close>

definition store_bytes :: "VEntry \<Rightarrow> u8 list \<Rightarrow> shell \<Rightarrow> shell result" where
  "store_bytes v bs sh =
     (let old = vmem sh (ve_obj v); n = ve_off v + length bs in
      if length old < n then Inl OutOfBounds
      else Inr (sh\<lparr>vmem := (vmem sh)(ve_obj v := take (ve_off v) old @ bs @ drop n old)\<rparr>))"

definition store_scanned :: "VEntry \<Rightarrow> ('a \<Rightarrow> u8 list) \<Rightarrow> 'a scan \<Rightarrow> shell \<Rightarrow> (int \<times> shell) result" where
  "store_scanned v enc r sh =
     (case r of
        ScanEnd \<Rightarrow> Inr (- 1, sh)
      | ScanFail \<Rightarrow> Inr (0, sh)
      | Scanned x _ \<Rightarrow> bindR (store_bytes v (enc x) sh) (\<lambda>sh'. Inr (1, sh')))"

definition in_range :: "(int \<Rightarrow> int) \<Rightarrow> int \<Rightarrow> int \<Rightarrow> int \<Rightarrow> int" where
  "in_range big lo hi i = (if lo \<le> i \<and> i \<le> hi then i else big i)"

definition VEntry_read :: "(int \<Rightarrow> int) \<Rightarrow> VEntry \<Rightarrow> string \<Rightarrow> shell \<Rightarrow> (int \<times> shell) result" where
  "VEntry_read big v s sh =
     (let number = (\<lambda>b enc lo hi. store_scanned v (\<lambda>i. enc (in_range big lo hi i)) (scan_int b s) sh) in
      if ve_access_flags v AND VarWrite = 0 then Inr (0, say (access_error v) sh)
      else case ve_type v of
          TypeInt8 \<Rightarrow> number 10 (\<lambda>i. put8 (word_of_int i)) (- 128) 127
        | TypeUInt8 \<Rightarrow> number 10 (\<lambda>i. put8 (word_of_int i)) 0 255
        | TypeInt16 \<Rightarrow> number 10 (\<lambda>i. put16 (word_of_int i)) (- 32768) 32767
        | TypeUInt16 \<Rightarrow> number 10 (\<lambda>i. put16 (word_of_int i)) 0 65535
        | TypeInt32 \<Rightarrow> number 10 (\<lambda>i. put32 (word_of_int i)) (- 2147483648) 2147483647
        | TypeUInt32 \<Rightarrow> number 10 (\<lambda>i. put32 (word_of_int i)) 0 4294967295
        | TypeInt32Hex \<Rightarrow> number 16 (\<lambda>i. put32 (word_of_int i)) 0 4294967295
        | TypeFloat \<Rightarrow> store_scanned v put32 (scan_float s) sh
        | TypeString \<Rightarrow> store_scanned v (\<lambda>w. map (\<lambda>c. of_char c) w @ [0]) (scan_word s) sh
        | TypePacket \<Rightarrow> Inr (0, sh))"

text \<open>\<open>VEntry_write\<close>: the text that is written; its length is the result of the C function.\<close>

definition type_width :: "VariableType \<Rightarrow> nat" where
  "type_width t = (case t of TypeInt8 \<Rightarrow> 1 | TypeUInt8 \<Rightarrow> 1 | TypeInt16 \<Rightarrow> 2 | TypeUInt16 \<Rightarrow> 2 | TypeInt32 \<Rightarrow> 4
     | TypeUInt32 \<Rightarrow> 4 | TypeInt32Hex \<Rightarrow> 4 | TypeFloat \<Rightarrow> 4 | TypePacket \<Rightarrow> 4 | TypeString \<Rightarrow> 0)"

definition field_text :: "VariableType \<Rightarrow> u8 list \<Rightarrow> string result" where
  "field_text t bs =
     (case t of
        TypeInt8 \<Rightarrow> Inr (fmt_d (sint (fst (get8 bs))))
      | TypeUInt8 \<Rightarrow> Inr (fmt_u (unat (fst (get8 bs))))
      | TypeInt16 \<Rightarrow> Inr (fmt_d (sint (fst (get16 bs))))
      | TypeUInt16 \<Rightarrow> Inr (fmt_u (unat (fst (get16 bs))))
      | TypeInt32 \<Rightarrow> Inr (fmt_d (sint (fst (get32 bs))))
      | TypeUInt32 \<Rightarrow> Inr (fmt_u (unat (fst (get32 bs))))
      | TypeInt32Hex \<Rightarrow> Inr (fmt_0x 8 (unat (fst (get32 bs))))
      | TypeFloat \<Rightarrow> Inr (fmt_f 5 (fst (get32 bs)))
      | TypeString \<Rightarrow> c_text bs
      | TypePacket \<Rightarrow> Orazio_printPacket bs)"

definition VEntry_write :: "VEntry \<Rightarrow> shell \<Rightarrow> (string \<times> shell) result" where
  "VEntry_write v sh =
     (if ve_access_flags v AND VarRead = 0 then Inr ('''', say (access_error v) sh)
      else
        let bs = drop (ve_off v) (vmem sh (ve_obj v)) in
        if length bs < type_width (ve_type v) then Inl OutOfBounds
        else
          let sh' = (if ve_type v = TypePacket
                     then say (''printing packet '' @ fmt_d (uint (bs ! 0)) @ newline) sh else sh)
          in bindR (field_text (ve_type v) bs) (\<lambda>t. Inr (t, sh')))"

section \<open>The table of variables\<close>

definition system_vars :: "VEntry list" where
  "system_vars =
     [entry ''system_status'' TypePacket V_system_status 0 VarRead,
      entry ''system_status.header.seq'' TypeUInt16 V_system_status 2 VarRead,
      entry ''system_status.rx_buffer_size'' TypeUInt16 V_system_status 4 VarRead,
      entry ''system_status.rx_packets'' TypeUInt16 V_system_status 6 VarRead,
      entry ''system_status.rx_packet_errors'' TypeUInt16 V_system_status 8 VarRead,
      entry ''system_status.tx_buffer_size'' TypeUInt16 V_system_status 10 VarRead,
      entry ''system_status.tx_packets'' TypeUInt16 V_system_status 12 VarRead,
      entry ''system_status.tx_packet_errors'' TypeUInt16 V_system_status 14 VarRead,
      entry ''system_status.battery_level'' TypeUInt16 V_system_status 16 VarRead,
      entry ''system_status.watchdog_count'' TypeUInt16 V_system_status 18 VarRead,
      entry ''system_status.idle_cycles'' TypeUInt32 V_system_status 23 VarRead,
      entry ''system_status.rx_seq'' TypeUInt16 V_system_status 20 VarRead,
      entry ''system_params'' TypePacket V_system_params 0 VarRead,
      entry ''system_params.header.seq'' TypeUInt16 V_system_params 2 VarRead,
      entry ''system_params.protocol_version'' TypeInt32Hex V_system_params 4 VarRead,
      entry ''system_params.firmware_version'' TypeInt32Hex V_system_params 8 VarRead,
      entry ''system_params.timer_period_ms'' TypeUInt16 V_system_params 12 VarRead,
      entry ''system_params.comm_speed'' TypeInt32 V_system_params 14 VarRead,
      entry ''system_params.comm_cycles'' TypeUInt16 V_system_params 18 (VarRead OR VarWrite),
      entry ''system_params.periodic_packet_mask'' TypeUInt8 V_system_params 20 (VarRead OR VarWrite),
      entry ''system_params.watchdog_cycles'' TypeUInt16 V_system_params 21 (VarRead OR VarWrite),
      entry ''system_params.num_joints'' TypeUInt8 V_system_params 23 VarRead]"

definition joint0_vars :: "VEntry list" where
  "joint0_vars =
     [entry ''joint_params[0]'' TypePacket V_joint_params 0 VarRead,
      entry ''joint_params[0].header.header.seq'' TypeUInt16 V_joint_params 2 VarRead,
      entry ''joint_params[0].param.kp'' TypeInt16 V_joint_params 5 (VarRead OR VarWrite),
      entry ''joint_params[0].param.ki'' TypeInt16 V_joint_params 7 (VarRead OR VarWrite),
      entry ''joint_params[0].param.kd'' TypeInt16 V_joint_params 9 (VarRead OR VarWrite),
      entry ''joint_params[0].param.max_i'' TypeInt16 V_joint_params 11 (VarRead OR VarWrite),
      entry ''joint_params[0].param.max_pwm'' TypeInt16 V_joint_params 15 (VarRead OR VarWrite),
      entry ''joint_params[0].param.min_pwm'' TypeInt16 V_joint_params 13 (VarRead OR VarWrite),
      entry ''joint_params[0].param.max_speed'' TypeInt16 V_joint_params 17 (VarRead OR VarWrite),
      entry ''joint_params[0].param.slope'' TypeInt16 V_joint_params 19 (VarRead OR VarWrite),
      entry ''joint_params[0].param.h_bridge_type'' TypeUInt8 V_joint_params 21 (VarRead OR VarWrite),
      entry ''joint_params[0].param.h_bridge_pins[0]'' TypeInt8 V_joint_params 22 (VarRead OR VarWrite),
      entry ''joint_params[0].param.h_bridge_pins[1]'' TypeInt8 V_joint_params 23 (VarRead OR VarWrite),
      entry ''joint_params[0].param.h_bridge_pins[2]'' TypeInt8 V_joint_params 24 (VarRead OR VarWrite),
      entry ''joint_control[0]'' TypePacket V_joint_control 0 VarRead,
      entry ''joint_control[0].header.header.seq'' TypeInt16 V_joint_control 2 VarRead,
      entry ''joint_control[0].control.mode'' TypeUInt8 V_joint_control 7 (VarRead OR VarWrite),
      entry ''joint_control[0].control.speed'' TypeInt16 V_joint_control 5 (VarRead OR VarWrite),
      entry ''joint_status[0]'' TypePacket V_joint_status 0 VarRead,
      entry ''joint_status[0].header.header.seq'' TypeUInt16 V_joint_status 2 VarRead,
      entry ''joint_status[0].info.mode'' TypeInt8 V_joint_status 15 VarRead,
      entry ''joint_status[0].info.encoder_position'' TypeUInt16 V_joint_status 5 VarRead,
      entry ''joint_status[0].info.encoder_speed'' TypeInt16 V_joint_status 7 VarRead,
      entry ''joint_status[0].info.desired_speed'' TypeInt16 V_joint_status 9 VarRead,
      entry ''joint_status[0].info.pwm'' TypeInt16 V_joint_status 11 VarRead,
      entry ''joint_status[0].info.sensed_current'' TypeInt16 V_joint_status 13 VarRead]"

definition joint1_vars :: "VEntry list" where
  "joint1_vars =
     [entry ''joint_params[1]'' TypePacket V_joint_params 25 VarRead,
      entry ''joint_params[1].header.header.seq'' TypeUInt16 V_joint_params 27 VarRead,
      entry ''joint_params[1].param.kp'' TypeInt16 V_joint_params 30 (VarRead OR VarWrite),
      entry ''joint_params[1].param.ki'' TypeInt16 V_joint_params 32 (VarRead OR VarWrite),
      entry ''joint_params[1].param.kd'' TypeInt16 V_joint_params 34 (VarRead OR VarWrite),
      entry ''joint_params[1].param.max_i'' TypeInt16 V_joint_params 36 (VarRead OR VarWrite),
      entry ''joint_params[1].param.max_pwm'' TypeInt16 V_joint_params 40 (VarRead OR VarWrite),
      entry ''joint_params[1].param.min_pwm'' TypeInt16 V_joint_params 38 (VarRead OR VarWrite),
      entry ''joint_params[1].param.max_speed'' TypeInt16 V_joint_params 42 (VarRead OR VarWrite),
      entry ''joint_params[1].param.slope'' TypeInt16 V_joint_params 44 (VarRead OR VarWrite),
      entry ''joint_params[1].param.h_bridge_type'' TypeUInt8 V_joint_params 46 (VarRead OR VarWrite),
      entry ''joint_params[1].param.h_bridge_pins[0]'' TypeInt8 V_joint_params 47 (VarRead OR VarWrite),
      entry ''joint_params[1].param.h_bridge_pins[1]'' TypeInt8 V_joint_params 48 (VarRead OR VarWrite),
      entry ''joint_params[1].param.h_bridge_pins[2]'' TypeInt8 V_joint_params 49 (VarRead OR VarWrite),
      entry ''joint_control[1]'' TypePacket V_joint_control 8 VarRead,
      entry ''joint_control[1].header.header.seq'' TypeInt16 V_joint_control 10 VarRead,
      entry ''joint_control[1].control.mode'' TypeUInt8 V_joint_control 15 (VarRead OR VarWrite),
      entry ''joint_control[1].control.speed'' TypeInt16 V_joint_control 13 (VarRead OR VarWrite),
      entry ''joint_status[1]'' TypePacket V_joint_status 16 VarRead,
      entry ''joint_status[1].header.header.seq'' TypeUInt16 V_joint_status 18 VarRead,
      entry ''joint_status[1].info.mode'' TypeInt8 V_joint_status 31 VarRead,
      entry ''joint_status[1].info.encoder_position'' TypeUInt16 V_joint_status 21 VarRead,
      entry ''joint_status[1].info.encoder_speed'' TypeInt16 V_joint_status 23 VarRead,
      entry ''joint_status[1].info.desired_speed'' TypeInt16 V_joint_status 25 VarRead,
      entry ''joint_status[1].info.pwm'' TypeInt16 V_joint_status 27 VarRead,
      entry ''joint_status[1].info.sensed_current'' TypeInt16 V_joint_status 29 VarRead]"

definition drive_vars :: "VEntry list" where
  "drive_vars =
     [entry ''drive_status'' TypePacket V_drive_status 0 VarRead,
      entry ''drive_status.header.seq'' TypeUInt16 V_drive_status 2 VarRead,
      entry ''drive_status.enabled'' TypeUInt8 V_drive_status 40 VarRead,
      entry ''drive_status.odom_x'' TypeFloat V_drive_status 4 VarRead,
      entry ''drive_status.odom_y'' TypeFloat V_drive_status 8 VarRead,
      entry ''drive_status.odom_theta'' TypeFloat V_drive_status 12 VarRead,
      entry ''drive_status.translational_velocity_measured'' TypeFloat V_drive_status 16 VarRead,
      entry ''drive_status.translational_velocity_desired'' TypeFloat V_drive_status 24 VarRead,
      entry ''drive_status.translational_velocity_adjusted'' TypeFloat V_drive_status 32 VarRead,
      entry ''drive_status.rotational_velocity_measured'' TypeFloat V_drive_status 20 VarRead,
      entry ''drive_status.rotational_velocity_desired'' TypeFloat V_drive_status 28 VarRead,
      entry ''drive_status.rotational_velocity_adjusted'' TypeFloat V_drive_status 36 VarRead,
      entry ''drive_params'' TypePacket V_drive_params 0 VarRead,
      entry ''drive_params.header.seq'' TypeUInt16 V_drive_params 2 VarRead,
      entry ''drive_params.ikr'' TypeFloat V_drive_params 4 (VarRead OR VarWrite),
      entry ''drive_params.ikl'' TypeFloat V_drive_params 8 (VarRead OR VarWrite),
      entry ''drive_params.baseline'' TypeFloat V_drive_params 12 (VarRead OR VarWrite),
      entry ''drive_params.right_joint_index'' TypeUInt8 V_drive_params 36 (VarRead OR VarWrite),
      entry ''drive_params.left_joint_index'' TypeUInt8 V_drive_params 37 (VarRead OR VarWrite),
      entry ''drive_params.max_translational_velocity'' TypeFloat V_drive_params 16 (VarRead OR VarWrite),
      entry ''drive_params.max_translational_acceleration'' TypeFloat V_drive_params 20 (VarRead OR VarWrite),
      entry ''drive_params.max_translational_brake'' TypeFloat V_drive_params 24 (VarRead OR VarWrite),
      entry ''drive_params.max_rotational_velocity'' TypeFloat V_drive_params 28 (VarRead OR VarWrite),
      entry ''drive_params.max_rotational_acceleration'' TypeFloat V_drive_params 32 (VarRead OR VarWrite)]"

definition other_vars :: "VEntry list" where
  "other_vars =
     [entry ''param_control'' TypePacket V_param_control 0 VarRead,
      entry ''param_control.header.seq'' TypeInt16 V_param_control 2 VarRead,
      entry ''param_control.action'' TypeUInt8 V_param_control 4 (VarRead OR VarWrite),
      entry ''param_control.param_type'' TypeUInt8 V_param_control 5 (VarRead OR VarWrite),
      entry ''drive_control'' TypePacket V_drive_control 0 VarRead,
      entry ''drive_control.header.seq'' TypeInt16 V_drive_control 2 VarRead,
      entry ''drive_control.translational_velocity'' TypeFloat V_drive_control 4 (VarRead OR VarWrite),
      entry ''drive_control.rotational_velocity'' TypeFloat V_drive_control 8 (VarRead OR VarWrite),
      entry ''sonar_params'' TypePacket V_sonar_params 0 VarRead,
      entry ''sonar_params.pattern[0]'' TypeUInt8 V_sonar_params 4 (VarRead OR VarWrite),
      entry ''sonar_params.pattern[1]'' TypeUInt8 V_sonar_params 5 (VarRead OR VarWrite),
      entry ''sonar_params.pattern[2]'' TypeUInt8 V_sonar_params 6 (VarRead OR VarWrite),
      entry ''sonar_params.pattern[3]'' TypeUInt8 V_sonar_params 7 (VarRead OR VarWrite),
      entry ''sonar_params.pattern[4]'' TypeUInt8 V_sonar_params 8 (VarRead OR VarWrite),
      entry ''sonar_params.pattern[5]'' TypeUInt8 V_sonar_params 9 (VarRead OR VarWrite),
      entry ''sonar_params.pattern[6]'' TypeUInt8 V_sonar_params 10 (VarRead OR VarWrite),
      entry ''sonar_params.pattern[7]'' TypeUInt8 V_sonar_params 11 (VarRead OR VarWrite),
      entry ''sonar_status'' TypePacket V_sonar_status 0 VarRead,
      entry ''sonar_status.ranges[0]'' TypeUInt16 V_sonar_status 4 VarRead,
      entry ''sonar_status.ranges[1]'' TypeUInt16 V_sonar_status 6 VarRead,
      entry ''sonar_status.ranges[2]'' TypeUInt16 V_sonar_status 8 VarRead,
      entry ''sonar_status.ranges[3]'' TypeUInt16 V_sonar_status 10 VarRead,
      entry ''sonar_status.ranges[4]'' TypeUInt16 V_sonar_status 12 VarRead,
      entry ''sonar_status.ranges[5]'' TypeUInt16 V_sonar_status 14 VarRead,
      entry ''sonar_status.ranges[6]'' TypeUInt16 V_sonar_status 16 VarRead,
      entry ''sonar_status.ranges[7]'' TypeUInt16 V_sonar_status 18 VarRead,
      entry ''message'' TypePacket V_message 0 VarRead,
      entry ''message.message'' TypeString V_message 4 VarRead]"

definition variable_entries :: "VEntry list" where
  "variable_entries = system_vars @ joint0_vars @ joint1_vars @ drive_vars @ other_vars"

definition num_variables :: nat where
  "num_variables = length variable_entries"

definition param_names :: "string list" where
  "param_names = [''system_params'', ''joint_params'', ''joint_params[0]'', ''joint_params[1]'', ''drive_params'', ''sonar_params'']"

definition control_names :: "string list" where
  "control_names = [''param_control'', ''joint_control'', ''joint_control[0]'', ''joint_control[1]'', ''drive_control'']"

fun stringInSet :: "string list \<Rightarrow> string \<Rightarrow> bool" where
  "stringInSet [] s = False"
| "stringInSet (b # base) s = (if b = s then True else stringInSet base s)"

definition isParamPacket :: "string \<Rightarrow> bool" where
  "isParamPacket name = stringInSet param_names name"

definition isControlPacket :: "string \<Rightarrow> bool" where
  "isControlPacket name = stringInSet control_names name"

fun find_entry :: "string \<Rightarrow> VEntry list \<Rightarrow> VEntry option" where
  "find_entry name [] = None"
| "find_entry name (v # vs) = (if ve_name v = name then Some v else find_entry name vs)"

definition findVar :: "string \<Rightarrow> VEntry option" where
  "findVar name = find_entry name variable_entries"

text \<open>\<open>strncmp\<close> of two texts without zero characters.\<close>

definition strncmp_eq :: "string \<Rightarrow> string \<Rightarrow> nat \<Rightarrow> bool" where
  "strncmp_eq a b n \<longleftrightarrow> take n a = take n b"

text \<open>The entries, in the order of the table; the number of them is the result of the C function.\<close>

definition getVarsByPrefix :: "string \<Rightarrow> VEntry list" where
  "getVarsByPrefix prefix = [v \<leftarrow> variable_entries. strncmp_eq prefix (ve_name v) (length prefix)]"

section \<open>Initial values\<close>

definition joint_pair :: "(u8 \<Rightarrow> u8 list) \<Rightarrow> u8 list" where
  "joint_pair p = p 0 @ p 1"

definition zeroed :: "nat \<Rightarrow> u8 \<Rightarrow> u8 \<Rightarrow> u8 list" where
  "zeroed n type sz = type # sz # replicate (n - 2) 0"

definition zeroed_joint :: "nat \<Rightarrow> u8 \<Rightarrow> u8 \<Rightarrow> u8 list" where
  "zeroed_joint n type index = (zeroed n type (word_of_nat n))[sizeof_PacketHeader := index]"

definition initial_vmem :: "VObj \<Rightarrow> u8 list" where
  "initial_vmem obj =
     (let full = (\<lambda>n type. zeroed n type (word_of_nat n)) in
      case obj of
        V_system_status \<Rightarrow> full sizeof_SystemStatusPacket SYSTEM_STATUS_PACKET_ID
      | V_system_params \<Rightarrow> full sizeof_SystemParamPacket SYSTEM_PARAM_PACKET_ID
      | V_sonar_status \<Rightarrow> full sizeof_SonarStatusPacket SONAR_STATUS_PACKET_ID
      | V_sonar_params \<Rightarrow> full sizeof_SonarParamPacket SONAR_PARAM_PACKET_ID
      | V_message \<Rightarrow> zeroed sizeof_StringMessagePacket MESSAGE_PACKET_ID 0
      | V_drive_status \<Rightarrow> full sizeof_DifferentialDriveStatusPacket DIFFERENTIAL_DRIVE_STATUS_PACKET_ID
      | V_drive_params \<Rightarrow> full sizeof_DifferentialDriveParamPacket DIFFERENTIAL_DRIVE_PARAM_PACKET_ID
      | V_end_epoch \<Rightarrow> full sizeof_PacketHeader END_EPOCH_PACKET_ID
      | V_response \<Rightarrow> full sizeof_ResponsePacket RESPONSE_PACKET_ID
      | V_param_control \<Rightarrow> put_ParamControlPacket \<lparr>
          pc_header = \<lparr>h_type = PARAM_CONTROL_PACKET_ID, h_size = word_of_nat sizeof_ParamControlPacket, h_seq = 0\<rparr>,
          pc_action = ParamRequest, pc_param_type = ParamSystem, pc_index = 0\<rparr>
      | V_joint_params \<Rightarrow> joint_pair (zeroed_joint sizeof_JointParamPacket JOINT_PARAM_PACKET_ID)
      | V_joint_status \<Rightarrow> joint_pair (zeroed_joint sizeof_JointStatusPacket JOINT_STATUS_PACKET_ID)
      | V_joint_control \<Rightarrow> joint_pair (zeroed_joint sizeof_JointControlPacket JOINT_CONTROL_PACKET_ID)
      | V_drive_control \<Rightarrow> full sizeof_DifferentialDriveControlPacket DIFFERENTIAL_DRIVE_CONTROL_PACKET_ID)"

section \<open>Refreshing from the client\<close>

definition get_into :: "VObj \<Rightarrow> nat \<Rightarrow> shell \<Rightarrow> (PacketStatus \<times> shell) result" where
  "get_into obj off sh =
     bindR (OrazioClient_get (drop off (vmem sh obj)) (sh_client sh)) (\<lambda>(st, dest, cl).
       Inr (st, sh\<lparr>vmem := (vmem sh)(obj := take off (vmem sh obj) @ dest), sh_client := cl\<rparr>))"

text \<open>A sequence of calls that each set \<open>op_result\<close>; it stops at the first that is not \<open>Success\<close>.\<close>

fun get_all :: "(VObj \<times> nat) list \<Rightarrow> shell \<Rightarrow> (PacketStatus \<times> shell) result" where
  "get_all [] sh = Inr (op_result sh, sh)"
| "get_all ((obj, off) # rest) sh =
     bindR (get_into obj off sh) (\<lambda>(st, sh).
       let sh = sh\<lparr>op_result := st\<rparr> in
       if st \<noteq> Success then Inr (st, sh) else get_all rest sh)"

text \<open>After the end of the epoch \<open>refreshState\<close> gets the response whatever the result was.\<close>

definition refreshState :: "shell \<Rightarrow> (PacketStatus \<times> shell) result" where
  "refreshState sh =
     bindR (get_all ([(V_system_status, 0), (V_drive_status, 0)]
              @ map (\<lambda>i. (V_joint_status, i * sizeof_JointStatusPacket)) [0..<NUM_JOINTS]
              @ [(V_sonar_status, 0)]) (sh\<lparr>op_result := Success\<rparr>)) (\<lambda>(st, sh).
       if st \<noteq> Success then Inr (st, sh)
       else bindR (get_into V_end_epoch 0 sh) (\<lambda>(st, sh).
         let sh = sh\<lparr>op_result := st\<rparr> in
         bindR (get_into V_response 0 sh) (\<lambda>(_, sh). Inr (op_result sh, sh))))"

definition refreshParams :: "u8 \<Rightarrow> shell \<Rightarrow> (PacketStatus \<times> shell) result" where
  "refreshParams type sh0 =
     (let sh = sh0\<lparr>op_result := Success\<rparr> in
      if type = ParamSystem then get_into V_system_params 0 sh
      else if type = ParamJointsSingle
        then get_all (map (\<lambda>i. (V_joint_params, i * sizeof_JointParamPacket)) [0..<NUM_JOINTS]) sh
      else if type = ParamDrive then get_into V_drive_params 0 sh
      else if type = ParamSonar then get_into V_sonar_params 0 sh
      else Inr (GenericError, sh))"

definition refreshMessage :: "shell \<Rightarrow> (PacketStatus \<times> shell) result" where
  "refreshMessage sh = get_into V_message 0 sh"

section \<open>Completion\<close>

text \<open>\<open>commonSubstring\<close>: what is left of the first text.\<close>

fun commonSubstring :: "string \<Rightarrow> string \<Rightarrow> string" where
  "commonSubstring (d # dest) (c # src) = (if d = c then d # commonSubstring dest src else [])"
| "commonSubstring _ _ = []"

text \<open>The loop shared by the two completion functions: the matches found so far and their common part.\<close>

definition complete_step :: "string \<Rightarrow> nat \<Rightarrow> string \<Rightarrow> (string \<times> string list) option \<Rightarrow> (string \<times> string list) option" where
  "complete_step line n name found =
     (if strncmp_eq line name n
      then Some (case found of None \<Rightarrow> (name, [name]) | Some (common, names) \<Rightarrow> (commonSubstring common name, names @ [name]))
      else found)"

definition complete_from :: "string list \<Rightarrow> string \<Rightarrow> nat \<Rightarrow> (string \<times> string list) option" where
  "complete_from all line n = fold (complete_step line n) all None"

definition completeVar :: "string \<Rightarrow> nat \<Rightarrow> nat \<Rightarrow> (string \<times> string list) option" where
  "completeVar line start stop = complete_from (map ve_name variable_entries) line (stop - start)"

end
