(* ===== verification/Shell.thy ===== *)
theory Shell
  imports ShellVars
begin

text \<open>
  \<open>src/orazio_lib/src/orazio_host/orazio_shell_commands.c\<close> and the loop \<open>Orazio_shellStart\<close>: the commands of
  the shell. A command gets its arguments and yields its return value and the text of its
  response. What the C library and the other threads decide is an environment.
\<close>

section \<open>The environment\<close>

text \<open>
  \<open>env_serve\<close> is what the runner thread does up to the next post of a semaphore, \<open>env_big\<close> the
  conversion of a number that is too large, \<open>env_junk\<close> the contents of the two word buffers of
  \<open>loadConfigFn\<close> when \<open>fscanf\<close> leaves them alone.
\<close>

record environment =
  env_serve :: "shell \<Rightarrow> shell result"
  env_big :: "int \<Rightarrow> int"
  env_junk :: "string \<times> string"

type_synonym outcome = "(int \<times> string \<times> shell) result"

section \<open>Commands\<close>

definition printFn :: "string list \<Rightarrow> shell \<Rightarrow> outcome" where
  "printFn args sh =
     (let var_name = args ! 0 in
      case findVar var_name of
        None \<Rightarrow> Inr (- 1, ''print: unknown variable name ['' @ var_name @ '']'' @ newline, sh)
      | Some var \<Rightarrow> bindR (VEntry_write var sh) (\<lambda>(t, sh). Inr (0, t, say newline sh)))"

text \<open>The text that \<open>set\<close> and \<open>load_config\<close> answer with, and \<open>save_config\<close> writes.\<close>

definition assignment_text :: "VEntry \<Rightarrow> string \<Rightarrow> shell \<Rightarrow> (string \<times> shell) result" where
  "assignment_text var var_name sh = bindR (VEntry_write var sh) (\<lambda>(t, sh). Inr (var_name @ '' '' @ t @ newline, sh))"

definition setFn :: "environment \<Rightarrow> string list \<Rightarrow> shell \<Rightarrow> outcome" where
  "setFn env args sh =
     (let var_name = args ! 0 in
      case findVar var_name of
        None \<Rightarrow> Inr (- 1, ''set: unknown variable ['' @ var_name @ '']'' @ newline, sh)
      | Some var \<Rightarrow>
          bindR (VEntry_read (env_big env) var (args ! 1) sh) (\<lambda>(_, sh).
          bindR (assignment_text var var_name sh) (\<lambda>(t, sh). Inr (0, t, sh))))"

definition quitFn :: "string list \<Rightarrow> shell \<Rightarrow> outcome" where
  "quitFn args sh = Inr (0, '''', sh\<lparr>sh_run := False\<rparr>)"

text \<open>
  \<open>sendFn\<close>: the message of the first check goes through \<open>printf\<close> with the empty response as its
  format, so it prints nothing, and the command continues.
\<close>

definition send_object :: "VObj \<Rightarrow> nat \<Rightarrow> int \<Rightarrow> shell \<Rightarrow> (PacketStatus \<times> shell) result" where
  "send_object obj off timeout sh =
     bindR (OrazioClient_sendPacket (drop off (vmem sh obj)) timeout (sh_client sh)) (\<lambda>(st, pkt, cl).
       Inr (st, sh\<lparr>vmem := (vmem sh)(obj := take off (vmem sh obj) @ pkt), sh_client := cl\<rparr>))"

definition sendFn :: "string list \<Rightarrow> shell \<Rightarrow> outcome" where
  "sendFn args sh =
     (let var_name = args ! 0 in
      case findVar var_name of
        None \<Rightarrow> Inr (- 1, ''send: unknown variable ['' @ var_name @ '']'' @ newline, sh)
      | Some var \<Rightarrow>
          if ve_type var = TypePacket
          then bindR (send_object (ve_obj var) (ve_off var) 0 sh) (\<lambda>(st, sh). Inr (status_code st, '''', sh))
          else Inr (- 1, '''', say (''send: allowed only for full packets'' @ newline) sh))"

text \<open>\<open>paramFn\<close>: the type and index of the query, then the wait for the runner.\<close>

definition param_target :: "string \<Rightarrow> (u8 \<times> s8) option" where
  "param_target var_name =
     (if var_name = ''system_params'' then Some (ParamSystem, 0)
      else if var_name = ''joint_params[0]'' then Some (ParamJointsSingle, 0)
      else if var_name = ''joint_params[1]'' then Some (ParamJointsSingle, 1)
      else if var_name = ''drive_params'' then Some (ParamDrive, 0)
      else if var_name = ''sonar_params'' then Some (ParamSonar, 0)
      else None)"

definition shell_query :: "u8 \<Rightarrow> u8 \<Rightarrow> s8 \<Rightarrow> ParamControlPacket" where
  "shell_query action type index = \<lparr>
     pc_header = \<lparr>h_type = PARAM_CONTROL_PACKET_ID, h_size = word_of_nat sizeof_ParamControlPacket, h_seq = 0\<rparr>,
     pc_action = action, pc_param_type = type, pc_index = index\<rparr>"

definition paramFn :: "environment \<Rightarrow> string \<Rightarrow> u8 \<Rightarrow> string list \<Rightarrow> shell \<Rightarrow> outcome" where
  "paramFn env cmd_name action args sh =
     (let var_name = args ! 0 in
      if \<not> isParamPacket var_name then Inr (- 1, cmd_name @ '': only parameters can be loaded'' @ newline, sh)
      else case param_target var_name of
          None \<Rightarrow> Inr (- 1, cmd_name @ '': cannot handle params of type ['' @ var_name @ '']'' @ newline, sh)
        | Some (type, index) \<Rightarrow>
            bindR (env_serve env (sh\<lparr>vmem := (vmem sh)(V_param_control := put_ParamControlPacket (shell_query action type index)),
                                    param_sem_init := True\<rparr>)) (\<lambda>sh.
              Inr (status_code (op_result sh), '''', sh\<lparr>param_sem_init := False\<rparr>)))"

definition fetchFn :: "environment \<Rightarrow> string list \<Rightarrow> shell \<Rightarrow> outcome" where
  "fetchFn env = paramFn env ''fetch'' ParamLoad"

definition storeFn :: "environment \<Rightarrow> string list \<Rightarrow> shell \<Rightarrow> outcome" where
  "storeFn env = paramFn env ''store'' ParamSave"

definition requestFn :: "environment \<Rightarrow> string list \<Rightarrow> shell \<Rightarrow> outcome" where
  "requestFn env = paramFn env ''request'' ParamRequest"

section \<open>Configuration files\<close>

definition cannot_open :: "string \<Rightarrow> string" where
  "cannot_open name = ''cannot open file ['' @ name @ '']'' @ newline"

fun strstr :: "string \<Rightarrow> string \<Rightarrow> bool" where
  "strstr hay needle =
     (if take (length needle) hay = needle then True
      else case hay of [] \<Rightarrow> False | c # rest \<Rightarrow> strstr rest needle)"

declare strstr.simps [simp del]

definition config_entry :: "VEntry \<Rightarrow> bool" where
  "config_entry var \<longleftrightarrow> ve_type var \<noteq> TypePacket \<and> strstr (ve_name var) ''params''"

definition config_text :: "shell \<Rightarrow> (string \<times> shell) result" where
  "config_text sh0 =
     foldR (\<lambda>var (s, sh).
       if config_entry var then bindR (assignment_text var (ve_name var) sh) (\<lambda>(t, sh). Inr (s @ t, sh))
       else Inr (s, sh)) variable_entries ('''', sh0)"

abbreviation (input) CONFIG_BUFFER_SIZE :: nat where "CONFIG_BUFFER_SIZE \<equiv> 10240"

definition saveConfigFn :: "string list \<Rightarrow> shell \<Rightarrow> outcome" where
  "saveConfigFn args sh =
     (let name = args ! 0 in
      if \<not> writable sh name then Inr (- 1, cannot_open name, sh)
      else bindR (config_text sh) (\<lambda>(text, sh).
        if CONFIG_BUFFER_SIZE \<le> length text then Inl OutOfBounds
        else Inr (0, '''', sh\<lparr>readable := (readable sh)(name \<mapsto> text)\<rparr>)))"

text \<open>
  \<open>loadConfigFn\<close>: two words and the blanks behind them per round; the round that meets the end
  of the file is the last one. A word that does not fit its buffer is written past the end.
\<close>

abbreviation (input) WORD_BUFFER_SIZE :: nat where "WORD_BUFFER_SIZE \<equiv> 1024"

definition load_words :: "string \<times> string \<Rightarrow> string \<Rightarrow> (string \<times> string \<times> string) result" where
  "load_words junk text =
     (case scan_word text of
        Scanned name rest \<Rightarrow>
          if WORD_BUFFER_SIZE \<le> length name then Inl OutOfBounds
          else (case scan_word rest of
              Scanned val rest2 \<Rightarrow>
                if WORD_BUFFER_SIZE \<le> length val then Inl OutOfBounds else Inr (name, val, skip_blanks rest2)
            | _ \<Rightarrow> Inr (name, snd junk, []))
      | _ \<Rightarrow> Inr (fst junk, snd junk, []))"

lemma scan_word_shrinks: "scan_word s = Scanned w r \<Longrightarrow> length r < length s"
proof -
  assume s: "scan_word s = Scanned w r"
  obtain c t where ct: "skip_blanks s = c # t" and r: "r = dropWhile (\<lambda>c. \<not> is_blank c) (c # t)"
    using s by (cases "skip_blanks s") (auto simp: scan_word_def Let_def split: if_splits)
  have "\<not> is_blank c" using ct hd_dropWhile[of is_blank s] by (auto simp: skip_blanks_def)
  then have "length r \<le> length t" unfolding r by (simp add: length_dropWhile_le)
  moreover have "Suc (length t) \<le> length s" using ct length_dropWhile_le[of is_blank s] by (simp add: skip_blanks_def)
  ultimately show ?thesis by simp
qed

lemma load_words_shrinks: "load_words junk text = Inr (name, val, rest) \<Longrightarrow> rest \<noteq> [] \<Longrightarrow> length rest < length text"
proof -
  assume *: "load_words junk text = Inr (name, val, rest)" "rest \<noteq> []"
  then obtain w r v r2 where s: "scan_word text = Scanned w r" "scan_word r = Scanned v r2" "rest = skip_blanks r2"
    by (auto simp: load_words_def split: scan.splits if_splits)
  then have "length r2 < length text" using scan_word_shrinks by (meson less_trans)
  then show ?thesis using s(3) length_dropWhile_le[of is_blank r2] by (simp add: skip_blanks_def)
qed

function load_config :: "environment \<Rightarrow> string \<Rightarrow> string \<Rightarrow> shell \<Rightarrow> outcome" where
  "load_config env text r sh =
     (case load_words (env_junk env) text of
        Inl e \<Rightarrow> Inl e
      | Inr (var_name, var_value, rest) \<Rightarrow>
          let sh = say (''['' @ var_name @ '']=['' @ var_value @ '']'' @ newline) sh in
          case findVar var_name of
            None \<Rightarrow> Inr (- 1, r @ ''set: unknown variable ['' @ var_name @ '']'' @ newline, sh)
          | Some var \<Rightarrow>
              bindR (VEntry_read (env_big env) var var_value sh) (\<lambda>(_, sh).
              bindR (assignment_text var var_name sh) (\<lambda>(t, sh).
                if rest = [] then Inr (0, r @ t, sh) else load_config env rest (r @ t) sh)))"
  by pat_completeness auto
termination
  by (relation "measure (\<lambda>(env, text, r, sh). length text)") (auto dest: load_words_shrinks)

declare load_config.simps [simp del]

definition loadConfigFn :: "environment \<Rightarrow> string list \<Rightarrow> shell \<Rightarrow> outcome" where
  "loadConfigFn env args sh =
     (case readable sh (args ! 0) of
        None \<Rightarrow> Inr (- 1, cannot_open (args ! 0), sh)
      | Some text \<Rightarrow> load_config env text '''' sh)"

section \<open>Watching a variable\<close>

definition atoi :: "(int \<Rightarrow> int) \<Rightarrow> string \<Rightarrow> int" where
  "atoi big s = (case scan_int 10 s of Scanned i _ \<Rightarrow> in_range big (- 2147483648) 2147483647 i | _ \<Rightarrow> 0)"

definition dump_once :: "environment \<Rightarrow> VEntry \<Rightarrow> shell \<Rightarrow> shell result" where
  "dump_once env var sh =
     bindR (env_serve env sh) (\<lambda>sh.
     bindR (VEntry_write var sh) (\<lambda>(t, sh).
       let line = ve_name var @ '': '' @ t @ newline in
       if 1024 \<le> length line then Inl OutOfBounds else Inr (say line sh)))"

definition dumpFn :: "environment \<Rightarrow> string list \<Rightarrow> shell \<Rightarrow> outcome" where
  "dumpFn env args sh =
     (case findVar (args ! 0) of
        None \<Rightarrow> Inr (- 1, '''', sh)
      | Some var \<Rightarrow>
          let dump = min 100 (atoi (env_big env) (args ! 1));
              sh = say (''dumping value of var '' @ ve_name var @ '' for '' @ fmt_d dump @ '' cycles'' @ newline) sh
          in bindR (foldR (\<lambda>i sh. dump_once env var sh) [0..<nat dump] (sh\<lparr>state_sem_init := True\<rparr>)) (\<lambda>sh.
               Inr (0, '''', sh\<lparr>state_sem_init := False\<rparr>)))"

section \<open>The interpreter\<close>

record Command =
  cmd_name :: string
  n_args :: nat
  cmd_fn :: "environment \<Rightarrow> string list \<Rightarrow> shell \<Rightarrow> outcome"
  cmd_help :: string

definition command :: "string \<Rightarrow> nat \<Rightarrow> (environment \<Rightarrow> string list \<Rightarrow> shell \<Rightarrow> outcome) \<Rightarrow> string \<Rightarrow> Command" where
  "command name n f help = \<lparr>cmd_name = name, n_args = n, cmd_fn = f, cmd_help = help\<rparr>"

definition commands :: "Command list" where
  "commands =
     [command ''quit'' 0 (\<lambda>env. quitFn) ''usage: quit'',
      command ''print'' 1 (\<lambda>env. printFn) ''usage: print <variable or field>'',
      command ''set'' 2 setFn ''usage: set <variable or field> <value>'',
      command ''dump'' 2 dumpFn ''usage: dump <variable or field> <cycles>'',
      command ''send'' 1 (\<lambda>env. sendFn) ''usage: send <variable or field>'',
      command ''request'' 1 requestFn ''usage: request <parameter packet>'',
      command ''fetch'' 1 fetchFn ''usage: load <parameter packet>'',
      command ''store'' 1 storeFn ''usage: save <parameter packet>'',
      command ''save_config'' 1 (\<lambda>env. saveConfigFn) ''usage: save_config <filename>'',
      command ''load_config'' 1 loadConfigFn ''usage: load_config <filename>'']"

definition findCommand :: "string \<Rightarrow> Command option" where
  "findCommand name = find (\<lambda>c. cmd_name c = name) commands"

definition completeCommand :: "string \<Rightarrow> nat \<Rightarrow> nat \<Rightarrow> (string \<times> string list) option" where
  "completeCommand line start stop = complete_from (map cmd_name commands) line (stop - start)"

definition completeLine :: "string \<Rightarrow> nat \<Rightarrow> nat \<Rightarrow> (string \<times> string list) option" where
  "completeLine line start stop = (if start = 0 then completeCommand line start stop else completeVar line start stop)"

text \<open>\<open>strtok\<close> with the blank as the only separator.\<close>

function tokens :: "string \<Rightarrow> string list" where
  "tokens s =
     (let t = dropWhile (\<lambda>c. c = CHR '' '') s in
      if t = [] then [] else takeWhile (\<lambda>c. c \<noteq> CHR '' '') t # tokens (dropWhile (\<lambda>c. c \<noteq> CHR '' '') t))"
  by pat_completeness auto
termination
proof (relation "measure length", simp, goal_cases)
  case (1 s t)
  from 1(2) obtain c r where t: "t = c # r" by (meson neq_Nil_conv)
  then have "c \<noteq> CHR '' ''" using 1(1) hd_dropWhile[of "\<lambda>c. c = CHR '' ''" s] 1(2) by auto
  then have "length (dropWhile (\<lambda>c. c \<noteq> CHR '' '') t) < length t" using t by (simp add: length_dropWhile_le less_Suc_eq_le)
  also have "length t \<le> length s" unfolding 1(1) by (rule length_dropWhile_le)
  finally show ?case by simp
qed

declare tokens.simps [simp del]

text \<open>
  \<open>executeCommand\<close>. The response holds \<open>RESPONSE_SIZE\<close> characters in the caller; a longer one is
  written past its end.
\<close>

abbreviation (input) MAX_ARGS :: nat where "MAX_ARGS \<equiv> 10"

definition executeCommand :: "environment \<Rightarrow> nat \<Rightarrow> string \<Rightarrow> shell \<Rightarrow> (int \<times> shell) result" where
  "executeCommand env response_size line sh =
     (if 1024 \<le> length line then Inl OutOfBounds
      else case tokens line of
          [] \<Rightarrow> Inr (- 1, sh)
        | name # rest \<Rightarrow>
            (case findCommand name of
               None \<Rightarrow> Inr (- 1, say (''ERROR: unknown command ['' @ name @ '']'' @ newline) sh)
             | Some cmd \<Rightarrow>
                 let args = take MAX_ARGS rest in
                 if length args = n_args cmd
                 then bindR (cmd_fn cmd env args sh) (\<lambda>(retval, response, sh).
                   if response_size \<le> length response then Inl OutOfBounds
                   else
                     let sh = (if response \<noteq> '''' then say (response @ newline) sh else sh) in
                     Inr (retval, say (if retval \<noteq> 0 then ''ERROR '' @ fmt_d retval @ newline else ''OK'' @ newline) sh))
                 else Inr (0, say (''ERROR: command not issued. Wrong number of arguments'' @ newline @ '' '' @ cmd_help cmd @ newline) sh)))"

text \<open>
  \<open>Orazio_shellStart\<close>: the lines that are typed, the end of the input, and passes of the runner
  while \<open>readline\<close> waits. When the events end the thread waits for a line.
\<close>

datatype shell_event = Typed string | EndOfInput | RunnerPass

abbreviation (input) RESPONSE_SIZE :: nat where "RESPONSE_SIZE \<equiv> 10000"

fun shell_loop :: "environment \<Rightarrow> shell_event list \<Rightarrow> shell \<Rightarrow> shell result" where
  "shell_loop env events sh =
     (if \<not> sh_run sh then Inr sh
      else case events of
          [] \<Rightarrow> Inl Diverges
        | e # rest \<Rightarrow>
            (case e of
               Typed line \<Rightarrow> bindR (executeCommand env RESPONSE_SIZE line sh) (\<lambda>(_, sh). shell_loop env rest sh)
             | EndOfInput \<Rightarrow> shell_loop env rest (sh\<lparr>sh_run := False\<rparr>)
             | RunnerPass \<Rightarrow> bindR (env_serve env sh) (shell_loop env rest)))"

declare shell_loop.simps [simp del]

definition Orazio_shellStart :: "environment \<Rightarrow> shell_event list \<Rightarrow> shell \<Rightarrow> shell result" where
  "Orazio_shellStart env events sh = shell_loop env events (say (''shell started'' @ newline) sh)"

end
