(* ===== verification/Host.thy ===== *)
theory Host
  imports Shell
begin

text \<open>
  \<open>src/orazio_lib/src/orazio_host/orazio.c\<close>: the host program. The arguments, the start up to the
  first refresh, and one round of the runner thread that the shell relies on.
\<close>

section \<open>Arguments\<close>

record options =
  opt_resource_path :: string
  opt_device :: "string option"
  opt_baudrate :: u32
  opt_rate :: int

datatype arguments = RunWith options | Generate string | Help

abbreviation (input) PATH_SIZE :: nat where "PATH_SIZE \<equiv> 1024"

definition default_options :: options where
  "default_options = \<lparr>opt_resource_path = '''', opt_device = None, opt_baudrate = 115200, opt_rate = 20\<rparr>"

text \<open>
  The loop over \<open>argv\<close>. An option without its value reads the null pointer that ends \<open>argv\<close>.
  \<open>-baud\<close> sets the rate as well.
\<close>

fun parse_arguments :: "(int \<Rightarrow> int) \<Rightarrow> string list \<Rightarrow> options \<Rightarrow> arguments result" where
  "parse_arguments big [] op = Inr (RunWith op)"
| "parse_arguments big (a # rest) op =
     (if a = ''-resource-path'' then
        (case rest of
           [] \<Rightarrow> Inl NullDeref
         | p # rest' \<Rightarrow> if PATH_SIZE \<le> length p then Inl OutOfBounds
                       else parse_arguments big rest' (op\<lparr>opt_resource_path := p\<rparr>))
      else if a = ''-serial-device'' then
        (case rest of
           [] \<Rightarrow> Inr (RunWith (op\<lparr>opt_device := None\<rparr>))
         | d # rest' \<Rightarrow> parse_arguments big rest' (op\<lparr>opt_device := Some d\<rparr>))
      else if a = ''-rate'' then
        (case rest of
           [] \<Rightarrow> Inl NullDeref
         | n # rest' \<Rightarrow> parse_arguments big rest' (op\<lparr>opt_rate := atoi big n\<rparr>))
      else if a = ''-gen'' then Inr (Generate (if opt_resource_path op = '''' then ''.'' else opt_resource_path op))
      else if a = ''-baud'' then
        (case rest of
           [] \<Rightarrow> Inl NullDeref
         | n # rest' \<Rightarrow> parse_arguments big rest' (op\<lparr>opt_baudrate := word_of_int (atoi big n), opt_rate := atoi big n\<rparr>))
      else if a = ''-h'' \<or> a = ''-help'' then Inr Help
      else parse_arguments big rest op)"

section \<open>Start\<close>

text \<open>The program ends in \<open>OrazioClient_init\<close> or \<open>OrazioClient_readConfiguration\<close>, or the threads start.\<close>

datatype 'a started = ProgramExit | Ready 'a

definition refresh_all_params :: "shell \<Rightarrow> shell result" where
  "refresh_all_params =
     foldR (\<lambda>type sh. bindR (refreshParams type sh) (\<lambda>(_, sh). Inr sh)) [ParamSystem, ParamJointsSingle, ParamDrive, ParamSonar]"

definition sync_cycles :: nat where "sync_cycles = 50"

definition host_configure :: "shell \<Rightarrow> shell started result" where
  "host_configure sh =
     bindR (foldR (\<lambda>i cl. bindR (OrazioClient_sync 1 cl) (\<lambda>(_, cl). Inr cl)) [0..<sync_cycles] (sh_client sh)) (\<lambda>cl.
     bindR (OrazioClient_readConfiguration 100 cl) (\<lambda>(r, cl).
       if r = Exited then Inr ProgramExit
       else bindR (refresh_all_params (sh\<lparr>sh_client := cl\<rparr>)) (\<lambda>sh. Inr (Ready sh))))"

text \<open>\<open>fd\<close> and \<open>attribs\<close> are the results of the serial driver, \<open>cl0\<close> the memory of the new client.\<close>

definition host_start :: "int \<Rightarrow> int \<Rightarrow> client \<Rightarrow> shell \<Rightarrow> shell started result" where
  "host_start fd attribs cl0 sh =
     (case OrazioClient_init fd attribs cl0 of
        Some (Some cl) \<Rightarrow> host_configure (sh\<lparr>sh_client := cl\<rparr>)
      | _ \<Rightarrow> Inr ProgramExit)"

section \<open>The runner\<close>

text \<open>
  One round of \<open>_runnerFn\<close>. The results of the refreshes are ignored; a command that waits for a
  parameter operation finds its result in \<open>op_result\<close>.
\<close>

definition query_type :: "shell \<Rightarrow> u8" where
  "query_type sh = pc_param_type (fst (get_ParamControlPacket (vmem sh V_param_control)))"

definition runner_param :: "shell \<Rightarrow> shell result" where
  "runner_param sh =
     bindR (send_object V_param_control 0 100 sh) (\<lambda>(st, sh).
       let sh = sh\<lparr>op_result := st\<rparr> in
       if op_result sh = Success then bindR (refreshParams (query_type sh) sh) (\<lambda>(_, sh). Inr sh) else Inr sh)"

definition runner_pass :: "shell \<Rightarrow> shell result" where
  "runner_pass sh =
     bindR (OrazioClient_sync 1 (sh_client sh)) (\<lambda>(_, cl).
     bindR (refreshMessage (sh\<lparr>sh_client := cl\<rparr>)) (\<lambda>(_, sh).
     bindR (refreshState sh) (\<lambda>(_, sh).
       if param_sem_init sh then runner_param sh else Inr sh)))"

definition host_environment :: "(int \<Rightarrow> int) \<Rightarrow> string \<times> string \<Rightarrow> environment" where
  "host_environment big junk = \<lparr>env_serve = runner_pass, env_big = big, env_junk = junk\<rparr>"

end
