(* ===== verification/WebServer.thy ===== *)
theory WebServer
  imports Host
begin

text \<open>
  \<open>src/orazio_lib/src/orazio_host/orazio_ws_server.c\<close>: the pages of the web server, its connections
  and callbacks. The web socket library is outside of the program: what it is asked to send or
  serve is the result of the functions here.
\<close>

section \<open>State\<close>

datatype WindowMode = System | Joint0 | Joint1 | Drive | Sonar

text \<open>
  The context. A fresh one is allocated without being cleared, so the array of the response, the
  connections and the mode (none of the five, for example) can be anything. A connection is a
  pointer, zero when unused.
\<close>

abbreviation (input) MAX_CONNECTIONS :: nat where "MAX_CONNECTIONS \<equiv> 1024"
abbreviation (input) BUF_SIZE :: nat where "BUF_SIZE \<equiv> 10240"

record OrazioWSContext =
  client_response :: string
  client_response_begin :: nat
  client_response_length :: nat
  connections :: "nat list"
  ws_run :: bool
  ws_rate :: int
  ws_port :: int
  ws_mode :: "WindowMode option"
  ws_resource_path :: string

section \<open>Connections\<close>

fun index_of :: "nat \<Rightarrow> nat list \<Rightarrow> int \<Rightarrow> int" where
  "index_of c [] i = - 1"
| "index_of c (x # xs) i = (if x = c then i else index_of c xs (i + 1))"

definition findConnection :: "OrazioWSContext \<Rightarrow> nat \<Rightarrow> int" where
  "findConnection ctx conn = index_of conn (connections ctx) 0"

definition getFreeConnectionIdx :: "OrazioWSContext \<Rightarrow> int" where
  "getFreeConnectionIdx ctx = index_of 0 (connections ctx) 0"

definition freeConnection :: "OrazioWSContext \<Rightarrow> nat \<Rightarrow> int \<times> OrazioWSContext" where
  "freeConnection ctx conn =
     (let idx = findConnection ctx conn in
      if idx < 0 then (- 1, ctx) else (0, ctx\<lparr>connections := (connections ctx)[nat idx := 0]\<rparr>))"

definition initConnections :: "OrazioWSContext \<Rightarrow> OrazioWSContext" where
  "initConnections ctx = ctx\<lparr>connections := replicate MAX_CONNECTIONS 0\<rparr>"

definition openConnection :: "OrazioWSContext \<Rightarrow> nat \<Rightarrow> OrazioWSContext" where
  "openConnection ctx wsi =
     (let idx = getFreeConnectionIdx ctx in
      if 0 \<le> idx then ctx\<lparr>connections := (connections ctx)[nat idx := wsi]\<rparr> else ctx)"

section \<open>Pages\<close>

definition html_row :: "VEntry \<Rightarrow> shell \<Rightarrow> (string \<times> shell) result" where
  "html_row var sh =
     (let head = ''<tr><td valign=\"top\"> '' @ ve_name var @ '' </td>'' @ newline; tail = ''</tr>'' @ newline in
      if ve_access_flags var AND VarRead \<noteq> 0
      then bindR (VEntry_write var sh) (\<lambda>(t, sh). Inr (head @ ''<td style=\"min-width:80px\">'' @ t @ ''</td>'' @ tail, sh))
      else Inr (head @ tail, sh))"

text \<open>The buffers of all lists have \<open>BUF_SIZE\<close> characters.\<close>

definition printVarListHTML :: "VEntry list \<Rightarrow> shell \<Rightarrow> (string \<times> shell) result" where
  "printVarListHTML vars sh0 =
     bindR (foldR (\<lambda>var (s, sh). bindR (html_row var sh) (\<lambda>(t, sh). Inr (s @ t, sh))) vars
              (''<p> <table border=\"1\">'' @ newline, sh0)) (\<lambda>(s, sh).
       let text = s @ ''</table> </p>'' in
       if BUF_SIZE \<le> length text then Inl OutOfBounds else Inr (text, sh))"

text \<open>The name of an input field: no dots and brackets.\<close>

definition resource_char :: "char \<Rightarrow> char" where
  "resource_char c = (if c = CHR ''.'' \<or> c = CHR ''['' \<or> c = CHR '']'' then CHR ''_'' else c)"

definition resource_name :: "VEntry \<Rightarrow> string" where
  "resource_name var = map resource_char (ve_name var)"

definition input_row :: "VEntry \<Rightarrow> string" where
  "input_row var =
     (if ve_access_flags var AND VarWrite = 0 then ''''
      else ''<tr>'' @ newline
        @ ''   <td valign=\"top\"> '' @ ve_name var @ '' </td>'' @ newline
        @ ''   <td> <input width=\"100px\" type=\"text\" id=\"'' @ resource_name var @ ''\" /> </td>'' @ newline
        @ ''   <td> <button type=\"button\" onclick=\"setVariable('' @ [CHR 0x27] @ ve_name var @ [CHR 0x27]
        @ '')\"/> SET</td>'' @ newline
        @ ''</tr>'' @ newline)"

definition genVarInputHTML :: "string \<Rightarrow> VEntry list \<Rightarrow> shell \<Rightarrow> (int \<times> shell) result" where
  "genVarInputHTML filename vars sh =
     (let text = ''<p> <table border=\"3\">'' @ newline @ concat (map input_row vars) @ ''</table> </p>'' @ newline in
      if BUF_SIZE \<le> length text then Inl OutOfBounds
      else Inr (int (length text),
        if writable sh filename then sh\<lparr>readable := (readable sh)(filename \<mapsto> text)\<rparr>
        else say (''cannot open file ['' @ filename @ '']'' @ newline) sh))"

text \<open>The lists that \<open>printVarInit\<close> collects, and the pages that \<open>OrazioWebsocketServer_genHtml\<close> writes.\<close>

definition joint_prefix :: "string \<Rightarrow> nat \<Rightarrow> string" where
  "joint_prefix name i = name @ ''['' @ fmt_d (int i) @ ''].''"

definition generated_pages :: "(string \<times> string) list" where
  "generated_pages =
     [(''system_params.html'', ''system_params.''),
      (''joint0_params.html'', joint_prefix ''joint_params'' 0), (''joint0_control.html'', joint_prefix ''joint_control'' 0),
      (''joint1_params.html'', joint_prefix ''joint_params'' 1), (''joint1_control.html'', joint_prefix ''joint_control'' 1),
      (''drive_params.html'', ''drive_params.''), (''drive_control.html'', ''drive_control.''),
      (''sonar_params.html'', ''sonar_params.'')]"

definition printed_prefixes :: "(string \<times> string) list" where
  "printed_prefixes =
     [(''system_status_vars'', ''system_status.''), (''system_params_vars'', ''system_params.'')]
     @ concat (map (\<lambda>i. map (\<lambda>n. (n @ ''_vars['' @ fmt_d (int i) @ '']'', joint_prefix n i))
         [''joint_status'', ''joint_params'', ''joint_control'']) [0..<NUM_JOINTS])
     @ [(''drive_status_vars'', ''drive_status.''), (''drive_params_vars'', ''drive_params.''),
        (''drive_control_vars'', ''drive_control.''), (''sonar_status_vars'', ''sonar_status.''),
        (''sonar_params_vars'', ''sonar_params.''), (''message_vars'', ''message.''), (''response_vars'', ''response_vars.'')]"

definition printVarInit :: "shell \<Rightarrow> shell" where
  "printVarInit sh = fold (\<lambda>(label, prefix). say (label @ '': '' @ fmt_d (int (length (getVarsByPrefix prefix))) @ newline))
     printed_prefixes sh"

text \<open>The console line in front of the first and the last page.\<close>

definition page_notice :: "string \<Rightarrow> string \<Rightarrow> shell \<Rightarrow> shell" where
  "page_notice page filename =
     (if page = ''system_params.html'' \<or> page = ''sonar_params.html''
      then say (''filename: ['' @ filename @ '']'' @ newline) else id)"

definition OrazioWebsocketServer_genHtml :: "string \<Rightarrow> shell \<Rightarrow> shell result" where
  "OrazioWebsocketServer_genHtml resource_path sh =
     foldR (\<lambda>(page, prefix) sh.
       let filename = resource_path @ ''/'' @ page in
       if PATH_SIZE \<le> length filename then Inl OutOfBounds
       else bindR (genVarInputHTML filename (getVarsByPrefix prefix) (page_notice page filename sh)) (\<lambda>(_, sh). Inr sh))
     generated_pages (printVarInit sh)"

section \<open>One round of the server thread\<close>

definition mode_name :: "WindowMode \<Rightarrow> string" where
  "mode_name m = (case m of System \<Rightarrow> ''System'' | Joint0 \<Rightarrow> ''Joint0'' | Joint1 \<Rightarrow> ''Joint1'' | Drive \<Rightarrow> ''Drive'' | Sonar \<Rightarrow> ''Sonar'')"

text \<open>The lists that are rendered in every round, in their order.\<close>

definition rendered_prefixes :: "string list" where
  "rendered_prefixes =
     [''response_vars.'', ''system_status.'', ''system_params.'', joint_prefix ''joint_status'' 0, joint_prefix ''joint_params'' 0,
      joint_prefix ''joint_status'' 1, joint_prefix ''joint_params'' 1, ''drive_status.'', ''drive_params.'',
      ''sonar_status.'', ''sonar_params.'', ''message.'']"

definition render_all :: "shell \<Rightarrow> (string list \<times> shell) result" where
  "render_all sh0 =
     foldR (\<lambda>prefix (texts, sh). bindR (printVarListHTML (getVarsByPrefix prefix) sh) (\<lambda>(t, sh). Inr (texts @ [t], sh)))
       rendered_prefixes ([], sh0)"

definition mode_texts :: "WindowMode \<Rightarrow> string list \<Rightarrow> string \<times> string" where
  "mode_texts m t = (case m of System \<Rightarrow> (t ! 1, t ! 2) | Joint0 \<Rightarrow> (t ! 3, t ! 4) | Joint1 \<Rightarrow> (t ! 5, t ! 6)
     | Drive \<Rightarrow> (t ! 7, t ! 8) | Sonar \<Rightarrow> (t ! 9, t ! 10))"

definition page_text :: "WindowMode \<Rightarrow> string list \<Rightarrow> string" where
  "page_text m t = (case mode_texts m t of (status, params) \<Rightarrow>
     ''<p> <table border=\"0\">'' @ ''<tr>'' @ newline
     @ ''<th> '' @ mode_name m @ '' Status  </th>'' @ newline
     @ ''<th> '' @ mode_name m @ '' Params  </th>'' @ newline
     @ ''</tr>'' @ newline @ ''<tr>'' @ newline
     @ ''<td valign=\"top\"> '' @ status @ '' </td>'' @ newline
     @ ''<td valign=\"top\"> '' @ params @ '' </td>'' @ newline
     @ ''</tr>'' @ newline @ ''</table> </p>'' @ newline
     @ ''<p> '' @ t ! 0 @ '' </p>'' @ newline
     @ ''<p> '' @ t ! 11 @ '' </p>'' @ newline)"

text \<open>
  The part of the loop before the library is served: the page of the current mode is copied,
  with its final zero, behind the bytes that are reserved for the library. The flag tells that
  the connections are asked to become writeable. The pause divides by the rate.
\<close>

definition update_response :: "OrazioWSContext \<Rightarrow> shell \<Rightarrow> (bool \<times> OrazioWSContext \<times> shell) result" where
  "update_response ctx sh =
     bindR (render_all sh) (\<lambda>(texts, sh).
       case ws_mode ctx of
         None \<Rightarrow> Inr (False, ctx, sh)
       | Some m \<Rightarrow>
           let text = page_text m texts @ [CHR 0x00]; begin = client_response_begin ctx; old = client_response ctx in
           if length old < begin + length text then Inl OutOfBounds
           else Inr (True, ctx\<lparr>client_response_length := length text,
                  client_response := take begin old @ text @ drop (begin + length text) old\<rparr>, sh))"

definition pause :: "OrazioWSContext \<Rightarrow> int result" where
  "pause ctx = (if ws_rate ctx = 0 then Inl DivisionByZero else Inr (c_div 1000000 (ws_rate ctx)))"

section \<open>Callbacks\<close>

text \<open>The log lines of the callbacks are left out.\<close>

definition uri_mode :: "string \<Rightarrow> WindowMode option \<Rightarrow> WindowMode option" where
  "uri_mode uri old =
     (if strstr uri ''system'' then Some System
      else if strstr uri ''joint0'' then Some Joint0
      else if strstr uri ''joint1'' then Some Joint1
      else if strstr uri ''drive'' then Some Drive
      else if strstr uri ''sonar'' then Some Sonar
      else old)"

definition resource_file :: "OrazioWSContext \<Rightarrow> string \<Rightarrow> string result" where
  "resource_file ctx uri =
     (let file = ws_resource_path ctx @ (if uri = ''/'' then ''/index.html'' else uri) in
      if PATH_SIZE \<le> length file then Inl OutOfBounds else Inr file)"

text \<open>A request: the new mode and the file that the library is asked to serve.\<close>

definition callback_http :: "OrazioWSContext \<Rightarrow> string \<Rightarrow> (string \<times> OrazioWSContext) result" where
  "callback_http ctx uri =
     (let ctx' = ctx\<lparr>ws_mode := uri_mode uri (ws_mode ctx)\<rparr> in
      bindR (resource_file ctx' uri) (\<lambda>file. Inr (file, ctx')))"

datatype ws_event = Established nat | ServerWriteable nat | Received nat string | Closed nat

text \<open>
  The result is what is sent to the peer, if anything: as many characters as the page has, from the
  beginning of the array, where the reserved bytes are.
\<close>

definition callback_input_command ::
  "environment \<Rightarrow> ws_event \<Rightarrow> OrazioWSContext \<times> shell \<Rightarrow> (string option \<times> OrazioWSContext \<times> shell) result" where
  "callback_input_command env e = (\<lambda>(ctx, sh). case e of
       Established wsi \<Rightarrow> Inr (None, openConnection ctx wsi, sh)
     | ServerWriteable wsi \<Rightarrow> Inr (Some (take (client_response_length ctx) (client_response ctx)), ctx, sh)
     | Received wsi text \<Rightarrow> bindR (executeCommand env 1024 text sh) (\<lambda>(_, sh). Inr (None, ctx, sh))
     | Closed wsi \<Rightarrow> Inr (None, snd (freeConnection ctx wsi), sh))"

section \<open>The thread\<close>

text \<open>What the library reports while it is served, and what it is told to do.\<close>

datatype lws_callback = Http string | Protocol ws_event
datatype ws_output = Served string | Sent string

definition serve :: "environment \<Rightarrow> lws_callback \<Rightarrow> OrazioWSContext \<times> shell \<Rightarrow> (ws_output list \<times> OrazioWSContext \<times> shell) result" where
  "serve env e = (\<lambda>(ctx, sh). case e of
       Http uri \<Rightarrow> bindR (callback_http ctx uri) (\<lambda>(file, ctx). Inr ([Served file], ctx, sh))
     | Protocol e \<Rightarrow> bindR (callback_input_command env e (ctx, sh)) (\<lambda>(sent, ctx, sh).
         Inr (case sent of None \<Rightarrow> [] | Some text \<Rightarrow> [Sent text], ctx, sh)))"

fun lws_service :: "environment \<Rightarrow> lws_callback list \<Rightarrow> OrazioWSContext \<times> shell \<Rightarrow> (ws_output list \<times> OrazioWSContext \<times> shell) result" where
  "lws_service env [] st = Inr ([], st)"
| "lws_service env (e # es) st = bindR (serve env e st) (\<lambda>(out, st). bindR (lws_service env es st) (\<lambda>(outs, st). Inr (out @ outs, st)))"

definition server_round :: "environment \<Rightarrow> lws_callback list \<Rightarrow> OrazioWSContext \<times> shell \<Rightarrow> (ws_output list \<times> OrazioWSContext \<times> shell) result" where
  "server_round env es = (\<lambda>(ctx, sh).
     bindR (update_response ctx sh) (\<lambda>(asked, st).
     bindR (lws_service env es st) (\<lambda>(outs, ctx, sh).
     bindR (pause ctx) (\<lambda>_. Inr (outs, ctx, sh)))))"

text \<open>
  The loop. For each round the input says whether \<open>run\<close> has been cleared since the last one and what the
  library reports; the flag of the result says whether the thread has ended.
\<close>

fun server_loop :: "environment \<Rightarrow> (bool \<times> lws_callback list) list \<Rightarrow> OrazioWSContext \<times> shell \<Rightarrow> (bool \<times> ws_output list \<times> OrazioWSContext \<times> shell) result" where
  "server_loop env [] st = Inr (False, [], st)"
| "server_loop env ((stopped, es) # rounds) (ctx, sh) =
     (let ctx = (if stopped then ctx\<lparr>ws_run := False\<rparr> else ctx) in
      if \<not> ws_run ctx then Inr (True, [], ctx, sh)
      else bindR (server_round env es (ctx, sh)) (\<lambda>(out, st).
             bindR (server_loop env rounds st) (\<lambda>(ended, outs, st). Inr (ended, out @ outs, st))))"

text \<open>\<open>_websocketFn\<close>: \<open>created\<close> tells whether the library could create its context.\<close>

definition websocketFn ::
  "environment \<Rightarrow> bool \<Rightarrow> (bool \<times> lws_callback list) list \<Rightarrow> OrazioWSContext \<times> shell \<Rightarrow> (bool \<times> ws_output list \<times> OrazioWSContext \<times> shell) result" where
  "websocketFn env created rounds = (\<lambda>(ctx, sh).
     if \<not> created then Inr (True, [], ctx, sh) else server_loop env rounds (ctx\<lparr>ws_run := True\<rparr>, sh))"

text \<open>\<open>OrazioWebsocketServer_start\<close> on the memory that \<open>malloc\<close> returns; \<open>LWS_PRE\<close> is a constant of the library.\<close>

definition OrazioWebsocketServer_start ::
  "nat \<Rightarrow> int \<Rightarrow> string \<Rightarrow> int \<Rightarrow> OrazioWSContext \<Rightarrow> shell \<Rightarrow> (OrazioWSContext \<times> shell) result" where
  "OrazioWebsocketServer_start LWS_PRE port resource_path rate ctx sh =
     (if PATH_SIZE \<le> length resource_path then Inl OutOfBounds
      else Inr (ctx\<lparr>ws_port := port, client_response_begin := LWS_PRE, client_response_length := 0, ws_rate := rate,
                  ws_resource_path := resource_path\<rparr>, printVarInit sh))"

text \<open>\<open>OrazioWebsocketServer_stop\<close> clears the flag and waits for the thread.\<close>

definition OrazioWebsocketServer_stop :: "OrazioWSContext \<Rightarrow> OrazioWSContext" where
  "OrazioWebsocketServer_stop ctx = ctx\<lparr>ws_run := False\<rparr>"

end
