(* ===== verification/HostProperties.thy ===== *)
theory HostProperties
  imports CommandLink WebServer
begin

text \<open>
  What the programs of the host rely on: the table of variables and the packets of the shell, and
  the locks of the client.
\<close>

section \<open>The variables of the shell\<close>

lemma vmem_sizes:
  "length (initial_vmem obj) = (case obj of V_system_status \<Rightarrow> 27 | V_system_params \<Rightarrow> 24 | V_sonar_status \<Rightarrow> 20 | V_sonar_params \<Rightarrow> 12
    | V_message \<Rightarrow> 84 | V_drive_status \<Rightarrow> 41 | V_drive_params \<Rightarrow> 38 | V_end_epoch \<Rightarrow> 4 | V_response \<Rightarrow> 8 | V_param_control \<Rightarrow> 7
    | V_joint_params \<Rightarrow> 50 | V_joint_status \<Rightarrow> 32 | V_joint_control \<Rightarrow> 16 | V_drive_control \<Rightarrow> 12)"
  by (cases obj) (simp_all add: initial_vmem_def zeroed_def zeroed_joint_def joint_pair_def sizeof_defs)

text \<open>The packets keep their sizes.\<close>

definition vmem_ok :: "shell \<Rightarrow> bool" where
  "vmem_ok sh \<longleftrightarrow> (\<forall>obj. length (vmem sh obj) = length (initial_vmem obj))"

text \<open>Every entry lies inside of its packet, can be read, and texts cannot be set.\<close>

definition entry_ok :: "VEntry \<Rightarrow> bool" where
  "entry_ok v \<longleftrightarrow> ve_off v + type_width (ve_type v) \<le> length (initial_vmem (ve_obj v)) \<and> ve_access_flags v AND VarRead \<noteq> 0
     \<and> (ve_type v = TypeString \<longrightarrow> ve_access_flags v AND VarWrite = 0)"

lemma entry_ok_entry:
  "entry_ok (entry name t ob off fl) \<longleftrightarrow> off + type_width t \<le> length (initial_vmem ob) \<and> fl AND VarRead \<noteq> 0
     \<and> (t = TypeString \<longrightarrow> fl AND VarWrite = 0)"
  by (simp add: entry_ok_def entry_def)

lemma variables_ok: "list_all entry_ok variable_entries"
  by (simp add: variable_entries_def system_vars_def joint0_vars_def joint1_vars_def drive_vars_def other_vars_def
      entry_ok_entry vmem_sizes type_width_def)

lemma find_entry_in: "find_entry name vs = Some v \<Longrightarrow> v \<in> set vs \<and> ve_name v = name"
  by (induction vs) (auto split: if_splits)

lemma findVar_ok: "findVar name = Some v \<Longrightarrow> entry_ok v \<and> ve_name v = name"
  using find_entry_in[of name variable_entries v] variables_ok by (auto simp: findVar_def list_all_iff)

lemma type_width_not_string: "t \<noteq> TypeString \<Longrightarrow> t \<noteq> TypePacket \<Longrightarrow> 0 < type_width t"
  by (cases t) (simp_all add: type_width_def)

text \<open>What a store does to the packets.\<close>

definition stored_at :: "VEntry \<Rightarrow> nat \<Rightarrow> shell \<Rightarrow> shell \<Rightarrow> bool" where
  "stored_at v n sh sh' \<longleftrightarrow> vmem_ok sh' \<and> sh_client sh' = sh_client sh \<and> (\<forall>obj. obj \<noteq> ve_obj v \<longrightarrow> vmem sh' obj = vmem sh obj)
     \<and> (\<forall>i. i < ve_off v \<or> ve_off v + n \<le> i \<longrightarrow> vmem sh' (ve_obj v) ! i = vmem sh (ve_obj v) ! i)"

lemma store_bytes_ok:
  assumes "vmem_ok sh" and "ve_off v + n \<le> length (initial_vmem (ve_obj v))" and "length bs = n"
  shows "\<exists>sh'. store_bytes v bs sh = Inr sh' \<and> stored_at v n sh sh' \<and> take n (drop (ve_off v) (vmem sh' (ve_obj v))) = bs"
proof -
  let ?old = "vmem sh (ve_obj v)"
  have len: "length ?old = length (initial_vmem (ve_obj v))" using assms(1) by (simp add: vmem_ok_def)
  let ?sh = "sh\<lparr>vmem := (vmem sh)(ve_obj v := take (ve_off v) ?old @ bs @ drop (ve_off v + n) ?old)\<rparr>"
  have "store_bytes v bs sh = Inr ?sh" using assms(2,3) len by (simp add: store_bytes_def Let_def)
  moreover have "stored_at v n sh ?sh"
    using assms len by (auto simp: stored_at_def vmem_ok_def nth_append)
  moreover have "take n (drop (ve_off v) (vmem ?sh (ve_obj v))) = bs" using assms(2,3) len by simp
  ultimately show ?thesis by blast
qed

lemma store_scanned_ok:
  assumes "vmem_ok sh" and "ve_off v + n \<le> length (initial_vmem (ve_obj v))" and "\<And>x. length (enc x) = n"
  shows "\<exists>k sh'. store_scanned v enc r sh = Inr (k, sh') \<and> stored_at v n sh sh'"
proof (cases r)
  case (Scanned x rest)
  obtain sh' where "store_bytes v (enc x) sh = Inr sh'" "stored_at v n sh sh'"
    using store_bytes_ok[OF assms(1,2) assms(3)[of x]] by blast
  then show ?thesis by (simp add: store_scanned_def Scanned)
qed (use assms(1) in \<open>simp_all add: store_scanned_def stored_at_def\<close>)

lemma store_typed:
  assumes "vmem_ok sh" and "entry_ok v" and "type_width (ve_type v) = n" and "\<And>x. length (enc x) = n"
  shows "\<exists>k sh'. store_scanned v enc r sh = Inr (k, sh') \<and> stored_at v n sh sh'"
  by (rule store_scanned_ok) (use assms in \<open>auto simp: entry_ok_def\<close>)

text \<open>
  C24. Whatever text the user sets a variable to, the shell stores it without leaving the variable: the call
  returns, every packet keeps its size, other packets and the bytes around the field do not change.
\<close>

theorem set_stays_inside:
  assumes "vmem_ok sh" and "findVar name = Some v"
  shows "\<exists>k sh'. VEntry_read big v text sh = Inr (k, sh') \<and> stored_at v (type_width (ve_type v)) sh sh'"
proof -
  have v: "ve_off v + type_width (ve_type v) \<le> length (initial_vmem (ve_obj v))"
    "ve_type v = TypeString \<longrightarrow> ve_access_flags v AND VarWrite = 0"
    using findVar_ok[OF assms(2)] by (simp_all add: entry_ok_def)
  have same: "stored_at v n sh (say t sh)" "stored_at v n sh sh" for n t
    using assms(1) by (simp_all add: stored_at_def say_def vmem_ok_def)
  show ?thesis
  proof (cases "ve_access_flags v AND VarWrite = 0")
    case False
    then show ?thesis
      using v(2) same(2)
      by (cases "ve_type v") (auto simp: VEntry_read_def Let_def type_width_def intro!: store_typed[OF assms(1) findVar_ok[OF assms(2), THEN conjunct1]])
  qed (simp add: VEntry_read_def same)
qed

section \<open>Setting and printing\<close>

text \<open>The numbers that a type can hold, and their text.\<close>

definition int_range :: "VariableType \<Rightarrow> (int \<times> int) option" where
  "int_range t = (case t of TypeInt8 \<Rightarrow> Some (- 128, 127) | TypeUInt8 \<Rightarrow> Some (0, 255) | TypeInt16 \<Rightarrow> Some (- 32768, 32767)
     | TypeUInt16 \<Rightarrow> Some (0, 65535) | TypeInt32 \<Rightarrow> Some (- 2147483648, 2147483647) | TypeUInt32 \<Rightarrow> Some (0, 4294967295)
     | TypeInt32Hex \<Rightarrow> Some (0, 4294967295) | _ \<Rightarrow> None)"

definition int_text :: "VariableType \<Rightarrow> int \<Rightarrow> string" where
  "int_text t i = (if t = TypeInt32Hex then fmt_0x 8 (nat i) else fmt_d i)"

definition int_bytes :: "VariableType \<Rightarrow> int \<Rightarrow> u8 list" where
  "int_bytes t i = (if type_width t = 1 then put8 (word_of_int i) else if type_width t = 2 then put16 (word_of_int i) else put32 (word_of_int i))"

lemma int_bytes_text:
  assumes "int_range t = Some (lo, hi)" and "lo \<le> i" and "i \<le> hi"
  shows "field_text t (int_bytes t i @ rest) = Inr (int_text t i)" and "length (int_bytes t i) = type_width t"
proof -
  have u: "fmt_u (nat j) = fmt_d j" if "0 \<le> j" for j using that by (simp add: fmt_u_def fmt_d_def)
  have sgn: "sint (word_of_int i :: 8 word) = i" if "- 128 \<le> i" "i \<le> 127"
    using that by (simp add: signed_of_int signed_take_bit_int_eq_self_iff)
  have sgn16: "sint (word_of_int i :: 16 word) = i" if "- 32768 \<le> i" "i \<le> 32767"
    using that by (simp add: signed_of_int signed_take_bit_int_eq_self_iff)
  have sgn32: "sint (word_of_int i :: 32 word) = i" if "- 2147483648 \<le> i" "i \<le> 2147483647"
    using that by (simp add: signed_of_int signed_take_bit_int_eq_self_iff)
  have uns: "unat (word_of_int i :: 8 word) = nat i" if "0 \<le> i" "i \<le> 255"
    using that by (simp add: unat_eq_nat_uint uint_word_of_int)
  have uns16: "unat (word_of_int i :: 16 word) = nat i" if "0 \<le> i" "i \<le> 65535"
    using that by (simp add: unat_eq_nat_uint uint_word_of_int)
  have uns32: "unat (word_of_int i :: 32 word) = nat i" if "0 \<le> i" "i \<le> 4294967295"
    using that by (simp add: unat_eq_nat_uint uint_word_of_int)
  show "field_text t (int_bytes t i @ rest) = Inr (int_text t i)"
    using assms
    by (cases t)
      (simp_all add: int_range_def int_text_def int_bytes_def field_text_def type_width_def u sgn sgn16 sgn32 uns uns16 uns32)
  show "length (int_bytes t i) = type_width t"
    using assms(1) by (cases t) (simp_all add: int_range_def int_bytes_def type_width_def)
qed

lemma int_text_scan:
  assumes "int_range t = Some (lo, hi)" and "lo \<le> i"
  shows "scan_int (if t = TypeInt32Hex then 16 else 10) (int_text t i) = Scanned i []"
  using assms scan_fmt_d[of "[]" i] scan_fmt_0x[of "[]" 8 "nat i"] by (auto simp: int_text_def int_range_def)

lemma VEntry_read_int:
  assumes "int_range (ve_type v) = Some (lo, hi)" and "lo \<le> i" and "i \<le> hi" and "ve_access_flags v AND VarWrite \<noteq> 0"
  shows "VEntry_read big v (int_text (ve_type v) i) sh = bindR (store_bytes v (int_bytes (ve_type v) i) sh) (\<lambda>sh'. Inr (1, sh'))"
  using assms int_text_scan[OF assms(1,2)]
  by (cases "ve_type v")
    (simp_all add: VEntry_read_def int_range_def in_range_def store_scanned_def int_bytes_def type_width_def)

lemma VEntry_write_int:
  assumes "int_range (ve_type v) = Some (lo, hi)" and "lo \<le> i" and "i \<le> hi" and "ve_access_flags v AND VarRead \<noteq> 0"
    and "drop (ve_off v) (vmem sh (ve_obj v)) = int_bytes (ve_type v) i @ rest"
  shows "VEntry_write v sh = Inr (int_text (ve_type v) i, sh)"
proof -
  have "ve_type v \<noteq> TypePacket" using assms(1) by (auto simp: int_range_def)
  then show ?thesis
    using assms(4,5) int_bytes_text[OF assms(1-3)] by (simp add: VEntry_write_def Let_def)
qed

text \<open>
  C23. A number that fits the type of a writable integer variable survives the shell: \<open>set\<close> with the decimal text of the number (hexadecimal
  for the variables that are shown so) stores its bytes in the field of the variable and nothing else, answers with the same text,
  and a later \<open>print\<close> prints it.
\<close>

theorem set_then_print:
  assumes "vmem_ok sh" and "findVar name = Some v" and "ve_access_flags v AND VarWrite \<noteq> 0"
    and "int_range (ve_type v) = Some (lo, hi)" and "lo \<le> i" and "i \<le> hi"
  shows "\<exists>sh'. setFn env [name, int_text (ve_type v) i] sh = Inr (0, name @ '' '' @ int_text (ve_type v) i @ newline, sh')
    \<and> take (type_width (ve_type v)) (drop (ve_off v) (vmem sh' (ve_obj v))) = int_bytes (ve_type v) i
    \<and> printFn [name] sh' = Inr (0, int_text (ve_type v) i, say newline sh')
    \<and> stored_at v (type_width (ve_type v)) sh sh'"
proof -
  let ?n = "type_width (ve_type v)" and ?bs = "int_bytes (ve_type v) i"
  have v: "ve_off v + ?n \<le> length (initial_vmem (ve_obj v))" "ve_access_flags v AND VarRead \<noteq> 0"
    using findVar_ok[OF assms(2)] by (simp_all add: entry_ok_def)
  obtain sh' where sh': "store_bytes v ?bs sh = Inr sh'" "stored_at v ?n sh sh'" "take ?n (drop (ve_off v) (vmem sh' (ve_obj v))) = ?bs"
    using store_bytes_ok[OF assms(1) v(1) int_bytes_text(2)[OF assms(4-6)]] by blast
  have "drop (ve_off v) (vmem sh' (ve_obj v)) = ?bs @ drop ?n (drop (ve_off v) (vmem sh' (ve_obj v)))"
    using append_take_drop_id[of ?n "drop (ve_off v) (vmem sh' (ve_obj v))"] unfolding sh'(3) by simp
  from VEntry_write_int[OF assms(4-6) v(2) this] have prints: "VEntry_write v sh' = Inr (int_text (ve_type v) i, sh')" .
  have "VEntry_read (env_big env) v (int_text (ve_type v) i) sh = Inr (1, sh')"
    using VEntry_read_int[OF assms(4-6,3)] sh'(1) by simp
  then show ?thesis
    using prints sh'(2,3) assms(2) by (intro exI[of _ sh']) (simp add: setFn_def printFn_def assignment_text_def)
qed

text \<open>A shell for the examples.\<close>

definition sample_shell :: shell where
  "sample_shell = \<lparr>vmem = initial_vmem, sh_client = sample_client, sh_run = True, op_result = Success, state_sem_init = False,
     param_sem_init = False, console = [], readable = (\<lambda>_. None), writable = (\<lambda>_. True)\<rparr>"

lemma sample_shell_ok: "vmem_ok sample_shell"
  by (simp add: vmem_ok_def sample_shell_def)

definition watchdog_entry :: VEntry where
  "watchdog_entry = entry ''system_params.watchdog_cycles'' TypeUInt16 V_system_params 21 (VarRead OR VarWrite)"

lemma find_watchdog: "findVar ''system_params.watchdog_cycles'' = Some watchdog_entry"
  by (simp add: findVar_def variable_entries_def system_vars_def entry_def watchdog_entry_def)

theorem set_stays_inside_witness:
  "\<exists>k sh'. VEntry_read (\<lambda>i. 7) watchdog_entry ''99999999'' sample_shell = Inr (k, sh') \<and> stored_at watchdog_entry 2 sample_shell sh'"
  using set_stays_inside[OF sample_shell_ok find_watchdog, of "\<lambda>i. 7" "''99999999''"]
  by (simp add: watchdog_entry_def entry_def type_width_def)

theorem set_then_print_witness:
  "\<forall>env. \<exists>sh'. setFn env [''system_params.watchdog_cycles'', int_text TypeUInt16 500] sample_shell
      = Inr (0, ''system_params.watchdog_cycles'' @ '' '' @ int_text TypeUInt16 500 @ newline, sh')
    \<and> printFn [''system_params.watchdog_cycles''] sh' = Inr (0, int_text TypeUInt16 500, say newline sh')"
  using set_then_print[OF sample_shell_ok find_watchdog, of 0 65535 500] by (auto simp: watchdog_entry_def entry_def int_range_def)

section \<open>The lock of the client\<close>

lemma flush_step_keeps: "read_locked (flush_step cl) = read_locked cl" "write_locked (flush_step cl) = write_locked cl"
  by (simp_all add: flush_step_def write_byte_def split: prod.splits)

lemma flushBuffer_returns:
  "tx_ok (packet_handler cl) \<Longrightarrow> \<exists>cl'. flushBuffer cl = Inr cl' \<and> read_locked cl' = read_locked cl"
proof (induction "tx_items (packet_handler cl)" arbitrary: cl)
  case Nil
  then have "tx_size (packet_handler cl) = 0" using length_tx_items[of "packet_handler cl"] by (auto simp: tx_ok_def)
  then show ?case by (simp add: flushBuffer.simps[of cl])
next
  case (Cons x xs)
  note t = PacketHandler_txByte_ok[OF Cons.prems Cons.hyps(2)[symmetric]]
  have n: "0 < tx_size (packet_handler cl)" using arg_cong[OF Cons.hyps(2), of length] by simp
  have h: "packet_handler (flush_step cl) = snd (PacketHandler_txByte (packet_handler cl))"
    by (simp add: flush_step_def write_byte_def split: prod.splits)
  from Cons.hyps(1)[of "flush_step cl"] t h obtain cl' where
    "flushBuffer (flush_step cl) = Inr cl'" "read_locked cl' = read_locked (flush_step cl)" by auto
  then show ?case using n by (simp add: flushBuffer.simps[of cl] flush_step_keeps)
qed

lemma client_send_read_locked: "client_send pkt cl = (st, pkt', cl') \<Longrightarrow> read_locked cl' = read_locked cl"
  by (auto simp: client_send_def Let_def split: if_splits prod.splits)

lemma locked_read_epoch: "read_locked cl \<Longrightarrow> read_epoch q cl = Inl Diverges"
  by (subst read_epoch.simps) (simp add: lock_read_def)

lemma locked_sync:
  assumes "read_locked cl" and "\<not> write_locked cl" and "tx_ok (packet_handler cl)"
  shows "OrazioClient_sync (Suc n) cl = Inl Diverges"
proof -
  let ?cl = "cl\<lparr>write_locked := True\<rparr>"
  obtain cl1 where cl1: "flushBuffer ?cl = Inr cl1" "read_locked cl1" using flushBuffer_returns[of ?cl] assms(1,3) by auto
  have "sync_once cl = Inl Diverges"
    using assms(2) cl1 by (auto simp: sync_once_def lock_write_def Let_def unlock_write_def locked_read_epoch client_send_read_locked split: prod.splits)
  then show ?thesis by simp
qed

lemma client_table_op:
  assumes "client_idle cl" and "(dest, type, sz, indexed) \<in> set client_table"
  shows "operations (packet_handler cl) ! unat type = client_ops type" and "client_ops type \<noteq> NULL"
    and "ops_at cl (client_ops type) = client_op dest type (word_of_nat sz) indexed" and "unat type < PACKET_TYPE_MAX"
  using assms client_table_sizes[OF assms(2)] by (auto simp: client_idle_def client_ops_ok_def client_ops_def)

lemma client_get_eq:
  assumes "client_idle cl" and "(area, dest ! 0, sz, indexed) \<in> set client_table"
  shows "OrazioClient_get dest cl = bindR (lock_read cl) (\<lambda>cl.
     let copy = (\<lambda>src. Inr (Success, read_mem (mem cl) src sz @ drop sz dest, unlock_read cl));
         index = int (unat (pi_index (fst (get_PacketIndexed dest)))) in
     if \<not> indexed then copy area
     else if num_joints cl \<le> index then Inr (GenericError, dest, cl) else copy (area + nat index * sz))"
proof -
  note op = client_table_op[OF assms]
  have "unat (word_of_nat sz :: u8) = sz" using client_table_sizes[OF assms(2)] by (simp add: unat_of_nat)
  then show ?thesis
    using op by (simp add: OrazioClient_get_def Let_def client_op_def cong del: if_weak_cong)
qed

text \<open>
  C38. Asking the client for a joint that the robot does not have is refused with an error, but the lock of the
  readers is kept: no later read of a packet and no later synchronisation ever returns.
\<close>

theorem bad_joint_keeps_lock:
  assumes "client_ready cl" and "dest ! 0 = JOINT_STATUS_PACKET_ID \<or> dest ! 0 = JOINT_PARAM_PACKET_ID"
    and "num_joints cl \<le> int (unat (pi_index (fst (get_PacketIndexed dest))))"
  shows "\<exists>cl'. OrazioClient_get dest cl = Inr (GenericError, dest, cl')
    \<and> (\<forall>area dest' sz indexed. (area, dest' ! 0, sz, indexed) \<in> set client_table \<longrightarrow> OrazioClient_get dest' cl' = Inl Diverges)
    \<and> OrazioClient_sync (Suc n) cl' = Inl Diverges"
proof -
  let ?cl = "cl\<lparr>read_locked := True\<rparr>"
  have r: "client_idle cl" "\<not> read_locked cl" "\<not> write_locked cl" "tx_ok (packet_handler cl)"
    using assms(1) by (simp_all add: client_ready_def)
  have i: "client_idle ?cl" using r(1) by (simp add: client_idle_def client_ops_ok_def)
  obtain area sz where e: "(area, dest ! 0, sz, True) \<in> set client_table" using assms(2) by (auto simp: client_table_def)
  have "OrazioClient_get dest cl = Inr (GenericError, dest, ?cl)"
    using assms(3) r(2) by (simp add: client_get_eq[OF r(1) e] lock_read_def Let_def)
  moreover have "OrazioClient_get dest' ?cl = Inl Diverges" if "(area', dest' ! 0, sz', indexed) \<in> set client_table" for area' dest' sz' indexed
    by (simp add: client_get_eq[OF i that] lock_read_def)
  moreover have "OrazioClient_sync (Suc n) ?cl = Inl Diverges" by (rule locked_sync) (use r in simp_all)
  ultimately show ?thesis by blast
qed

theorem bad_joint_keeps_lock_witness:
  "\<exists>cl'. OrazioClient_get (initial_vmem V_joint_params) sample_client = Inr (GenericError, initial_vmem V_joint_params, cl')
    \<and> OrazioClient_sync (Suc 0) cl' = Inl Diverges"
proof -
  have "initial_vmem V_joint_params ! 0 = JOINT_PARAM_PACKET_ID"
    by (simp add: initial_vmem_def joint_pair_def zeroed_joint_def zeroed_def sizeof_defs nth_append)
  then show ?thesis using bad_joint_keeps_lock[OF sample_client_ready(2), where n = 0] sample_client_ready(3) by fastforce
qed

end
