(* ===== verification/WebServerProperties.thy ===== *)
theory WebServerProperties
  imports HostProperties "HOL-Library.Multiset"
begin

text \<open>
  What the web server of \<open>src/orazio_lib/src/orazio_host/orazio_ws_server.c\<close> does with its buffers, its
  table of connections and its thread.
\<close>

section \<open>The length of printed values\<close>

lemma length_dec_digits: "n < 10 ^ k \<Longrightarrow> 0 < k \<Longrightarrow> length (dec_digits n) \<le> k"
proof (induction n arbitrary: k rule: dec_digits.induct)
  case (1 n)
  show ?case
  proof (cases "n < 10")
    case False
    obtain j where k: "k = Suc j" using 1(3) by (cases k) auto
    have "n div 10 < 10 ^ j" using 1(2) by (simp add: k less_mult_imp_div_less mult.commute)
    moreover have "0 < j" using False 1(2) by (cases j) (auto simp: k)
    ultimately have "length (dec_digits (n div 10)) \<le> j" using 1(1)[OF False] by blast
    then show ?thesis using False by (subst dec_digits.simps) (simp add: k)
  qed (use 1(3) in \<open>subst dec_digits.simps, simp\<close>)
qed

lemma length_hex_digits: "n < 16 ^ k \<Longrightarrow> 0 < k \<Longrightarrow> length (hex_digits n) \<le> k"
proof (induction n arbitrary: k rule: hex_digits.induct)
  case (1 n)
  show ?case
  proof (cases "n < 16")
    case False
    obtain j where k: "k = Suc j" using 1(3) by (cases k) auto
    have "n div 16 < 16 ^ j" using 1(2) by (simp add: k less_mult_imp_div_less mult.commute)
    moreover have "0 < j" using False 1(2) by (cases j) (auto simp: k)
    ultimately have "length (hex_digits (n div 16)) \<le> j" using 1(1)[OF False] by blast
    then show ?thesis using False by (subst hex_digits.simps) (simp add: k)
  qed (use 1(3) in \<open>subst hex_digits.simps, simp\<close>)
qed

lemma length_fmt_d: "\<bar>i\<bar> < 10 ^ k \<Longrightarrow> 0 < k \<Longrightarrow> length (fmt_d i) \<le> k + 1"
  using length_dec_digits[of "nat i" k] length_dec_digits[of "nat (- i)" k]
  by (auto simp: fmt_d_def nat_less_iff)

text \<open>A float is below \<open>2 ^ 128\<close>, which has 39 digits.\<close>

lemma f32_decode_bounds:
  assumes "f32_decode x = FFin s m e"
  shows "m < 2 ^ 24" and "e \<le> 104"
proof -
  have "unat x div 8388608 mod 256 \<le> 255" using mod_less_divisor[of 256 "unat x div 8388608"] by linarith
  then show "m < 2 ^ 24" and "e \<le> 104"
    using assms mod_less_divisor[of 8388608 "unat x"] by (auto simp: f32_decode_def Let_def split: if_splits)
qed

lemma round_half_even_le: "0 < d \<Longrightarrow> round_half_even n d \<le> n div d + 1"
  by (simp add: round_half_even_def Let_def)

lemma fixed_point_bound:
  assumes "m < 2 ^ 24" and "e \<le> 104"
  shows "(if 0 \<le> e then m * 2 ^ nat e * 10 ^ 5 else round_half_even (m * 10 ^ 5) (2 ^ nat (- e))) div 10 ^ 5 < 10 ^ 39"
proof (cases "0 \<le> e")
  case True
  have "m * 2 ^ nat e \<le> 2 ^ 24 * 2 ^ 104"
  proof (rule mult_le_mono)
    show "(2 :: nat) ^ nat e \<le> 2 ^ 104" by (rule power_increasing) (use assms(2) in simp_all)
  qed (use assms(1) in simp)
  then show ?thesis using True by simp
next
  case False
  have "round_half_even (m * 10 ^ 5) (2 ^ nat (- e)) \<le> m * 10 ^ 5 div 2 ^ nat (- e) + 1" by (rule round_half_even_le) simp
  also have "\<dots> \<le> m * 10 ^ 5 + 1" by simp
  also have "\<dots> < 10 ^ 39 * 10 ^ 5" using assms(1) by simp
  finally show ?thesis using False by (simp add: less_mult_imp_div_less)
qed

lemma length_fmt_f: "length (fmt_f 5 x) \<le> 46"
proof (cases "f32_decode x")
  case (FFin s m e)
  let ?v = "if 0 \<le> e then m * 2 ^ nat e * 10 ^ 5 else round_half_even (m * 10 ^ 5) (2 ^ nat (- e))"
  have "length (dec_digits (?v div 10 ^ 5)) \<le> 39"
    by (rule length_dec_digits[OF fixed_point_bound[OF f32_decode_bounds[OF FFin]]]) simp
  moreover have "length (dec_digits (?v mod 10 ^ 5)) \<le> 5"
    by (rule length_dec_digits) simp_all
  ultimately show ?thesis unfolding fmt_f_def FFin fval.case Let_def by (simp add: zero_pad_def)
qed (simp_all add: fmt_f_def)

definition field_max :: "VariableType \<Rightarrow> nat \<Rightarrow> nat" where
  "field_max t n = (if t = TypeString then n else 46)"

lemma length_c_text: "c_text bs = Inr t \<Longrightarrow> length t \<le> length bs"
  by (auto simp: c_text_def length_takeWhile_le split: if_splits)

lemma length_number: "length (fmt_d i) \<le> 46" if "\<bar>i\<bar> < 2 ^ 32" for i
  using length_fmt_d[of i 10] that by simp

lemma sint_abs: "\<bar>sint (w :: 'a :: len word)\<bar> \<le> 2 ^ (LENGTH('a) - 1)"
  using sint_ge[of w] sint_lt[of w] by linarith

lemma length_field_text:
  assumes "field_text t bs = Inr s" and "t \<noteq> TypePacket"
  shows "length s \<le> field_max t (length bs)"
proof -
  have w: "\<bar>sint (a :: 8 word)\<bar> < 2 ^ 32" "\<bar>sint (b :: 16 word)\<bar> < 2 ^ 32" "\<bar>sint (c :: 32 word)\<bar> < 2 ^ 32" for a b c
    using sint_abs[of a] sint_abs[of b] sint_abs[of c] by simp_all
  have u: "unat (a :: 8 word) < 10 ^ 46" for a by (rule less_trans[OF unat_u8_less]) simp
  have u16: "unat (b :: 16 word) < 10 ^ 46" for b by (rule less_trans[OF unat_u16_less]) simp
  have u32: "unat (c :: 32 word) < 10 ^ 46" for c by (rule less_trans[OF unat_u32_less]) simp
  have x: "length (fmt_0x 8 (unat (c :: 32 word))) \<le> 46" for c
    using length_hex_digits[of "unat c" 8] unsigned_less[of c] by (simp add: fmt_0x_def zero_pad_def)
  show ?thesis
    using assms length_c_text[of bs s] length_number[OF w(1)] length_number[OF w(2)] length_number[OF w(3)]
      length_dec_digits[OF u] length_dec_digits[OF u16] length_dec_digits[OF u32] x length_fmt_f
    by (cases t) (auto simp: field_text_def field_max_def fmt_u_def)
qed

section \<open>Rendered lists\<close>

definition message_ends :: "shell \<Rightarrow> bool" where
  "message_ends sh \<longleftrightarrow> 0 \<in> set (drop sizeof_PacketHeader (vmem sh V_message))"

text \<open>An entry that is rendered: it is no packet, and only the text of the message is a string.\<close>

definition renders :: "VEntry \<Rightarrow> bool" where
  "renders v \<longleftrightarrow> entry_ok v \<and> ve_type v \<noteq> TypePacket \<and> (ve_type v = TypeString \<longrightarrow> ve_obj v = V_message \<and> ve_off v = sizeof_PacketHeader)"

lemma VEntry_write_renders:
  assumes "vmem_ok sh" and "ve_type v = TypeString \<longrightarrow> message_ends sh" and "renders v"
  shows "\<exists>t. VEntry_write v sh = Inr (t, sh) \<and> length t \<le> (if ve_type v = TypeString then 80 else 46)"
proof -
  let ?bs = "drop (ve_off v) (vmem sh (ve_obj v))"
  have v: "ve_access_flags v AND VarRead \<noteq> 0" "type_width (ve_type v) \<le> length ?bs"
    and len: "ve_type v = TypeString \<Longrightarrow> length ?bs = 80"
    using assms(1,3) by (auto simp: renders_def entry_ok_def vmem_ok_def vmem_sizes sizeof_defs)
  have "\<exists>t. field_text (ve_type v) ?bs = Inr t"
    using assms(2,3) by (cases "ve_type v") (auto simp: field_text_def renders_def message_ends_def c_text_def)
  then obtain t where t: "field_text (ve_type v) ?bs = Inr t" by blast
  have "length t \<le> (if ve_type v = TypeString then 80 else 46)"
    using length_field_text[OF t] len assms(3) by (auto simp: renders_def field_max_def split: if_splits)
  then show ?thesis using v t assms(3) by (auto simp: VEntry_write_def renders_def)
qed

text \<open>Upper bounds of the length of a row and of a list.\<close>

definition row_max :: "VEntry \<Rightarrow> nat" where
  "row_max v = 76 + length (ve_name v) + (if ve_type v = TypeString then 80 else 46)"

definition list_max :: "VEntry list \<Rightarrow> nat" where
  "list_max vs = 50 + sum_list (map row_max vs)"

lemma html_row_renders:
  assumes "vmem_ok sh" and "ve_type v = TypeString \<longrightarrow> message_ends sh" and "renders v"
  shows "\<exists>t. html_row v sh = Inr (t, sh) \<and> length t \<le> row_max v"
proof -
  obtain t where t: "VEntry_write v sh = Inr (t, sh)" "length t \<le> (if ve_type v = TypeString then 80 else 46)"
    using VEntry_write_renders[OF assms] by blast
  moreover have "ve_access_flags v AND VarRead \<noteq> 0" using assms(3) by (simp add: renders_def entry_ok_def)
  ultimately show ?thesis by (simp add: html_row_def Let_def row_max_def newline_def)
qed

lemma printVarListHTML_renders:
  assumes "vmem_ok sh" and "list_all (\<lambda>v. ve_type v = TypeString \<longrightarrow> message_ends sh) vs" and "list_all renders vs" and "list_max vs < BUF_SIZE"
  shows "\<exists>t. printVarListHTML vs sh = Inr (t, sh) \<and> length t \<le> list_max vs"
proof -
  have "\<exists>t. foldR (\<lambda>var (s, sh). bindR (html_row var sh) (\<lambda>(t, sh). Inr (s @ t, sh))) vs (s, sh) = Inr (s @ t, sh)
      \<and> length t \<le> sum_list (map row_max vs)" for s
    using assms(2,3)
  proof (induction vs arbitrary: s)
    case (Cons v vs)
    obtain t where t: "html_row v sh = Inr (t, sh)" "length t \<le> row_max v"
      using html_row_renders[OF assms(1), of v] Cons.prems by auto
    obtain t' where "foldR (\<lambda>var (s, sh). bindR (html_row var sh) (\<lambda>(t, sh). Inr (s @ t, sh))) vs (s @ t, sh) = Inr ((s @ t) @ t', sh)"
      "length t' \<le> sum_list (map row_max vs)" using Cons.IH[of "s @ t"] Cons.prems by auto
    then show ?case using t by (intro exI[of _ "t @ t'"]) simp
  qed simp
  from this[of "''<p> <table border=\"1\">'' @ newline"] show ?thesis
    using assms(4) by (auto simp: printVarListHTML_def Let_def list_max_def newline_def)
qed

text \<open>The lists of all rounds.\<close>

lemma dotted_entries: "list_all (\<lambda>v. (ve_type v = TypePacket \<longrightarrow> CHR ''.'' \<notin> set (ve_name v))
    \<and> (ve_type v = TypeString \<longrightarrow> ve_obj v = V_message \<and> ve_off v = sizeof_PacketHeader)) variable_entries"
  by (simp add: variable_entries_def system_vars_def joint0_vars_def joint1_vars_def drive_vars_def other_vars_def entry_def sizeof_defs)

lemma prefix_dot: "take (length prefix) name = prefix \<Longrightarrow> CHR ''.'' \<in> set prefix \<Longrightarrow> CHR ''.'' \<in> set name"
  using set_take_subset[of "length prefix" name] by auto

lemma getVarsByPrefix_renders:
  assumes "CHR ''.'' \<in> set prefix"
  shows "list_all renders (getVarsByPrefix prefix)"
  unfolding list_all_iff
proof
  fix v assume "v \<in> set (getVarsByPrefix prefix)"
  then have "v \<in> set variable_entries" "CHR ''.'' \<in> set (ve_name v)"
    using prefix_dot[OF _ assms] by (auto simp: getVarsByPrefix_def strncmp_eq_def)
  then show "renders v"
    using dotted_entries variables_ok by (auto simp: list_all_iff renders_def)
qed

fun starts :: "string \<Rightarrow> string \<Rightarrow> bool" where
  "starts [] s = True"
| "starts (c # p) [] = False"
| "starts (c # p) (d # s) = (c = d \<and> starts p s)"

lemma getVarsByPrefix_starts: "getVarsByPrefix p = [v \<leftarrow> variable_entries. starts p (ve_name v)]"
proof -
  have "strncmp_eq p s (length p) = starts p s" for s
    by (induction p s rule: starts.induct) (auto simp: strncmp_eq_def)
  then show ?thesis by (simp add: getVarsByPrefix_def)
qed

lemma rendered_lists: "list_all (\<lambda>p. list_max (getVarsByPrefix p) \<le> 2100) rendered_prefixes"
  unfolding getVarsByPrefix_starts by code_simp

lemma rendered_dots: "list_all (\<lambda>p. CHR ''.'' \<in> set p) rendered_prefixes"
  by code_simp

lemma render_prefixes:
  assumes "vmem_ok sh" and "list_all (\<lambda>p. list_max (getVarsByPrefix p) \<le> 2100) ps" and "list_all (\<lambda>p. CHR ''.'' \<in> set p) ps"
    and "list_all (\<lambda>p. list_all (\<lambda>v. ve_type v = TypeString \<longrightarrow> message_ends sh) (getVarsByPrefix p)) ps"
  shows "\<exists>texts. foldR (\<lambda>prefix (texts, sh). bindR (printVarListHTML (getVarsByPrefix prefix) sh) (\<lambda>(t, sh). Inr (texts @ [t], sh))) ps (done0, sh)
      = Inr (done0 @ texts, sh) \<and> length texts = length ps \<and> list_all (\<lambda>t. length t \<le> 2100) texts"
  using assms(2-4)
proof (induction ps arbitrary: done0)
  case (Cons p ps)
  let ?f = "\<lambda>prefix (texts, sh). bindR (printVarListHTML (getVarsByPrefix prefix) sh) (\<lambda>(t, sh). Inr (texts @ [t], sh))"
  obtain t where t: "printVarListHTML (getVarsByPrefix p) sh = Inr (t, sh)" "length t \<le> 2100"
    using printVarListHTML_renders[OF assms(1) _ getVarsByPrefix_renders, of p] Cons.prems by auto
  obtain ts where "foldR ?f ps (done0 @ [t], sh) = Inr ((done0 @ [t]) @ ts, sh)" "length ts = length ps" "list_all (\<lambda>t. length t \<le> 2100) ts"
    using Cons.IH[of "done0 @ [t]"] Cons.prems by auto
  then show ?case using t by (intro exI[of _ "t # ts"]) simp
qed simp

lemma render_all_returns:
  assumes "vmem_ok sh" and "message_ends sh"
  shows "\<exists>texts. render_all sh = Inr (texts, sh) \<and> length texts = 12 \<and> list_all (\<lambda>t. length t \<le> 2100) texts"
proof -
  have "length rendered_prefixes = 12" by (simp add: rendered_prefixes_def)
  moreover have "list_all (\<lambda>p. list_all (\<lambda>v. ve_type v = TypeString \<longrightarrow> message_ends sh) (getVarsByPrefix p)) rendered_prefixes"
    using assms(2) by (simp add: list_all_iff)
  from render_prefixes[OF assms(1) rendered_lists rendered_dots this, of "[]"] obtain texts where
    "render_all sh = Inr (texts, sh)" "length texts = length rendered_prefixes" "list_all (\<lambda>t. length t \<le> 2100) texts"
    by (auto simp: render_all_def)
  ultimately show ?thesis by auto
qed

text \<open>Without a final zero the text of the message is read beyond its end, when the last list is rendered.\<close>

lemma rendered_last:
  "rendered_prefixes = butlast rendered_prefixes @ [''message.'']"
  "list_all (\<lambda>p. list_all (\<lambda>v. ve_type v \<noteq> TypeString) (getVarsByPrefix p)) (butlast rendered_prefixes)"
  "getVarsByPrefix ''message.'' = [entry ''message.message'' TypeString V_message 4 VarRead]"
  unfolding getVarsByPrefix_starts by code_simp+

lemma render_all_faults:
  assumes "vmem_ok sh" and "\<not> message_ends sh"
  shows "render_all sh = Inl OutOfBounds"
proof -
  let ?f = "\<lambda>prefix (texts, sh). bindR (printVarListHTML (getVarsByPrefix prefix) sh) (\<lambda>(t, sh). Inr (texts @ [t], sh))"
  have init: "list_all (\<lambda>p. list_max (getVarsByPrefix p) \<le> 2100) (butlast rendered_prefixes)" "list_all (\<lambda>p. CHR ''.'' \<in> set p) (butlast rendered_prefixes)"
    using rendered_lists rendered_dots by (auto simp: list_all_iff dest: in_set_butlastD)
  have "list_all (\<lambda>p. list_all (\<lambda>v. ve_type v = TypeString \<longrightarrow> message_ends sh) (getVarsByPrefix p)) (butlast rendered_prefixes)"
    using rendered_last(2) by (simp add: list_all_iff)
  from render_prefixes[OF assms(1) init this, of "[]"] obtain texts where "foldR ?f (butlast rendered_prefixes) ([], sh) = Inr (texts, sh)" by auto
  then have "render_all sh = bindR (?f ''message.'' (texts, sh)) Inr"
    unfolding render_all_def by (subst rendered_last(1)) (simp add: foldR_append bindR_def split: sum.split)
  moreover have "html_row (entry ''message.message'' TypeString V_message 4 VarRead) sh = Inl OutOfBounds"
    using assms by (simp add: html_row_def VEntry_write_def entry_def field_text_def c_text_def message_ends_def type_width_def
        vmem_ok_def vmem_sizes sizeof_defs)
  ultimately show ?thesis by (simp add: rendered_last(3) printVarListHTML_def)
qed

lemma length_page_text:
  assumes "length texts = 12" and "list_all (\<lambda>t. length t \<le> 2100) texts"
  shows "length (page_text m texts) \<le> 8600"
proof -
  have "length (texts ! i) \<le> 2100" if "i < 12" for i using that assms by (simp add: list_all_length)
  from this[of 0] this[of 1] this[of 2] this[of 3] this[of 4] this[of 5] this[of 6] this[of 7] this[of 8] this[of 9]
    this[of 10] this[of 11] show ?thesis
    by (cases m) (simp_all add: page_text_def mode_texts_def mode_name_def newline_def)
qed

section \<open>The page of a round\<close>

text \<open>What the server needs to run: the packets of the shell, its own array and a rate.\<close>

definition server_ready :: "OrazioWSContext \<Rightarrow> shell \<Rightarrow> bool" where
  "server_ready ctx sh \<longleftrightarrow> vmem_ok sh \<and> message_ends sh \<and> length (client_response ctx) = BUF_SIZE
     \<and> client_response_begin ctx \<le> 1024 \<and> ws_rate ctx \<noteq> 0"

definition with_page :: "string \<Rightarrow> OrazioWSContext \<Rightarrow> OrazioWSContext" where
  "with_page page ctx =
     (let k = client_response_begin ctx; old = client_response ctx in
      ctx\<lparr>client_response_length := length page + 1,
          client_response := take k old @ page @ [CHR 0x00] @ drop (k + length page + 1) old\<rparr>)"

lemma update_response_ready:
  assumes "length (client_response ctx) = BUF_SIZE \<and> client_response_begin ctx \<le> 1024" and "render_all sh = Inr (texts, sh)" and "length texts = 12" and "list_all (\<lambda>t. length t \<le> 2100) texts"
  shows "update_response ctx sh = (case ws_mode ctx of None \<Rightarrow> Inr (False, ctx, sh) | Some m \<Rightarrow> Inr (True, with_page (page_text m texts) ctx, sh))"
proof (cases "ws_mode ctx")
  case (Some m)
  have "\<not> length (client_response ctx) < client_response_begin ctx + length (page_text m texts @ [CHR 0x00])"
    using length_page_text[OF assms(3,4), of m] assms(1) by simp
  then show ?thesis using assms(2) by (simp add: update_response_def Some Let_def with_page_def)
qed (use assms(2) in \<open>simp add: update_response_def\<close>)

lemma server_ready_buffers: "server_ready ctx sh \<Longrightarrow> length (client_response ctx) = BUF_SIZE \<and> client_response_begin ctx \<le> 1024"
  by (simp add: server_ready_def)

text \<open>
  C26. As long as the text of the message has its final zero, no value of a variable makes a buffer of the web server overflow: every
  list fits its buffer of \<open>BUF_SIZE\<close> characters and the page of the current mode fits behind the reserved bytes of the response, where a round stores
  it with its final zero. A message without a zero is read and printed beyond its end.
\<close>

theorem page_fits:
  assumes "vmem_ok sh" and "length (client_response ctx) = BUF_SIZE" and "client_response_begin ctx \<le> 1024" and "ws_mode ctx = Some m"
  shows "(message_ends sh \<longrightarrow> (\<exists>texts. render_all sh = Inr (texts, sh) \<and> list_all (\<lambda>t. length t < BUF_SIZE) texts
        \<and> client_response_begin ctx + length (page_text m texts) < BUF_SIZE
        \<and> update_response ctx sh = Inr (True, with_page (page_text m texts) ctx, sh)))
    \<and> (\<not> message_ends sh \<longrightarrow> update_response ctx sh = Inl OutOfBounds)"
proof (cases "message_ends sh")
  case True
  obtain texts where t: "render_all sh = Inr (texts, sh)" "length texts = 12" "list_all (\<lambda>t. length t \<le> 2100) texts"
    using render_all_returns[OF assms(1) True] by blast
  have "list_all (\<lambda>t. length t < BUF_SIZE) texts" using t(3) by (auto simp: list_all_iff)
  then show ?thesis
    using t(1) length_page_text[OF t(2,3), of m] update_response_ready[OF _ t] assms True by auto
next
  case False
  then show ?thesis using render_all_faults[OF assms(1) False] by (simp add: update_response_def)
qed

lemma server_round_ready:
  assumes "server_ready ctx sh"
  shows "\<exists>texts. render_all sh = Inr (texts, sh) \<and> server_round env es (ctx, sh)
    = bindR (lws_service env es (case ws_mode ctx of None \<Rightarrow> ctx | Some m \<Rightarrow> with_page (page_text m texts) ctx, sh))
        (\<lambda>(outs, ctx, sh). bindR (pause ctx) (\<lambda>_. Inr (outs, ctx, sh)))"
proof -
  obtain texts where t: "render_all sh = Inr (texts, sh)" "length texts = 12" "list_all (\<lambda>t. length t \<le> 2100) texts"
    using render_all_returns assms(1) unfolding server_ready_def by blast
  then show ?thesis
    using update_response_ready[OF server_ready_buffers[OF assms] t] by (intro exI[of _ texts]) (auto simp: server_round_def split: option.splits)
qed

text \<open>
  The page that a client receives begins with the reserved bytes of the array and misses as many characters at its end: the
  response is sent from the beginning of the array.
\<close>

theorem page_sent_cut:
  assumes "server_ready ctx sh" and "ws_mode ctx = Some m" and "0 < client_response_begin ctx"
    and "render_all sh = Inr (texts, sh)" and "client_response_begin ctx \<le> length (page_text m texts)"
  shows "server_round env [Protocol (ServerWriteable wsi)] (ctx, sh)
    = Inr ([Sent (take (client_response_begin ctx) (client_response ctx)
               @ take (length (page_text m texts) + 1 - client_response_begin ctx) (page_text m texts))],
           with_page (page_text m texts) ctx, sh)"
  using server_round_ready[OF assms(1), of env "[Protocol (ServerWriteable wsi)]"] assms
  by (auto simp: serve_def callback_input_command_def pause_def with_page_def server_ready_def Let_def)

section \<open>The table of connections\<close>

text \<open>
  The contract of a table of peers with a capacity: opening adds the peer unless the table is full, closing removes it. Whatever
  happens to a table that keeps this contract, it is the abstract multiset after the same events.
\<close>

datatype 'a peer_event = Opened 'a | Gone 'a

fun peer_of :: "'a peer_event \<Rightarrow> 'a" where
  "peer_of (Opened w) = w"
| "peer_of (Gone w) = w"

fun peers_after :: "nat \<Rightarrow> 'a peer_event \<Rightarrow> 'a multiset \<Rightarrow> 'a multiset" where
  "peers_after n (Opened w) P = (if size P < n then add_mset w P else P)"
| "peers_after n (Gone w) P = P - {#w#}"

locale peer_table =
  fixes table :: "'s \<Rightarrow> 'a multiset" and ok :: "'s \<Rightarrow> bool" and peer :: "'a \<Rightarrow> bool" and capacity :: nat
    and opens :: "'s \<Rightarrow> 'a \<Rightarrow> 's" and leaves :: "'s \<Rightarrow> 'a \<Rightarrow> 's"
  assumes table_opens: "ok s \<Longrightarrow> peer w \<Longrightarrow> table (opens s w) = peers_after capacity (Opened w) (table s) \<and> ok (opens s w)"
    and table_leaves: "ok s \<Longrightarrow> peer w \<Longrightarrow> table (leaves s w) = peers_after capacity (Gone w) (table s) \<and> ok (leaves s w)"
begin

definition change :: "'a peer_event \<Rightarrow> 's \<Rightarrow> 's" where
  "change e s = (case e of Opened w \<Rightarrow> opens s w | Gone w \<Rightarrow> leaves s w)"

lemma table_history:
  "ok s \<Longrightarrow> \<forall>e \<in> set es. peer (peer_of e) \<Longrightarrow>
   table (fold change es s) = fold (peers_after capacity) es (table s) \<and> ok (fold change es s)"
proof (induction es arbitrary: s)
  case (Cons e es)
  then have "table (change e s) = peers_after capacity e (table s) \<and> ok (change e s)"
    using table_opens table_leaves by (cases e) (auto simp: change_def)
  then show ?case using Cons by auto
qed simp

lemma table_bounded:
  assumes "ok s" and "\<forall>e \<in> set es. peer (peer_of e)" and "size (table s) \<le> capacity"
  shows "size (table (fold change es s)) \<le> capacity"
proof -
  have step: "size (peers_after capacity e P) \<le> capacity" if "size P \<le> capacity" for e and P :: "'a multiset"
    using that by (cases e) (auto intro: order_trans[OF size_Diff1_le])
  have "size (fold (peers_after capacity) es P) \<le> capacity" if "size P \<le> capacity" for P
    using that by (induction es arbitrary: P) (auto dest: step)
  then show ?thesis using table_history[OF assms(1,2)] assms(3) by simp
qed

end

text \<open>The peers in the array of the server.\<close>

definition peers :: "OrazioWSContext \<Rightarrow> nat multiset" where
  "peers ctx = filter_mset (\<lambda>c. c \<noteq> 0) (mset (connections ctx))"

definition ws_table_ok :: "OrazioWSContext \<Rightarrow> bool" where
  "ws_table_ok ctx \<longleftrightarrow> length (connections ctx) = MAX_CONNECTIONS"

lemma index_of_found:
  "index_of c xs i = (if c \<in> set xs then i + int (length (takeWhile (\<lambda>x. x \<noteq> c) xs)) else - 1)"
  by (induction xs arbitrary: i) auto

lemma position:
  assumes "c \<in> set xs"
  shows "length (takeWhile (\<lambda>x. x \<noteq> c) xs) < length xs" and "xs ! length (takeWhile (\<lambda>x. x \<noteq> c) xs) = c"
proof -
  show n: "length (takeWhile (\<lambda>x. x \<noteq> c) xs) < length xs" using assms by (induction xs) auto
  show "xs ! length (takeWhile (\<lambda>x. x \<noteq> c) xs) = c" using nth_length_takeWhile[OF n] by simp
qed

lemma mset_replace_first:
  assumes "c \<in> set xs"
  shows "mset (xs[nat (index_of c xs 0) := v]) = add_mset v (mset xs - {#c#})"
  using mset_update[OF position(1)[OF assms]] position(2)[OF assms] by (simp add: index_of_found assms)

lemma peers_full:
  assumes "ws_table_ok ctx"
  shows "size (peers ctx) < MAX_CONNECTIONS \<longleftrightarrow> 0 \<in> set (connections ctx)"
proof -
  have "size (filter_mset (\<lambda>c. c \<noteq> 0) (mset xs)) + count (mset xs) 0 = length xs" for xs :: "nat list"
    by (induction xs) auto
  then have "size (peers ctx) + count (mset (connections ctx)) 0 = MAX_CONNECTIONS"
    using assms by (simp add: peers_def ws_table_ok_def)
  moreover have "count (mset (connections ctx)) 0 = 0 \<longleftrightarrow> 0 \<notin> set (connections ctx)" by simp
  ultimately show ?thesis by linarith
qed

lemma peers_open:
  assumes "ws_table_ok ctx" and "w \<noteq> 0"
  shows "peers (openConnection ctx w) = peers_after MAX_CONNECTIONS (Opened w) (peers ctx) \<and> ws_table_ok (openConnection ctx w)"
proof (cases "0 \<in> set (connections ctx)")
  case True
  then show ?thesis
    using assms mset_replace_first[OF True, of w] peers_full[OF assms(1)]
    by (simp add: openConnection_def getFreeConnectionIdx_def Let_def index_of_found peers_def ws_table_ok_def)
next
  case False
  then show ?thesis
    using assms peers_full[OF assms(1)] by (simp add: openConnection_def getFreeConnectionIdx_def Let_def index_of_found)
qed

lemma peers_leave:
  assumes "ws_table_ok ctx" and "w \<noteq> 0"
  shows "peers (snd (freeConnection ctx w)) = peers_after MAX_CONNECTIONS (Gone w) (peers ctx) \<and> ws_table_ok (snd (freeConnection ctx w))"
proof (cases "w \<in> set (connections ctx)")
  case True
  then show ?thesis
    using assms mset_replace_first[OF True, of 0]
    by (simp add: freeConnection_def findConnection_def Let_def index_of_found peers_def ws_table_ok_def)
next
  case False
  then have "w \<notin># peers ctx" by (simp add: peers_def)
  then show ?thesis
    using False assms by (simp add: freeConnection_def findConnection_def Let_def index_of_found diff_single_trivial)
qed

interpretation ws_table: peer_table peers ws_table_ok "\<lambda>w. w \<noteq> 0" MAX_CONNECTIONS openConnection "\<lambda>ctx w. snd (freeConnection ctx w)"
  by unfold_locales (use peers_open peers_leave in blast)+

section \<open>The thread\<close>

text \<open>What the callbacks mean for the table, and those that cannot fail: no commands, and files whose path fits its buffer.\<close>

fun peer_events :: "lws_callback \<Rightarrow> nat peer_event list" where
  "peer_events (Protocol (Established w)) = [Opened w]"
| "peer_events (Protocol (Closed w)) = [Gone w]"
| "peer_events _ = []"

fun calm :: "string \<Rightarrow> lws_callback \<Rightarrow> bool" where
  "calm path (Http uri) \<longleftrightarrow> length path + length uri + 11 < PATH_SIZE"
| "calm path (Protocol (Received w text)) \<longleftrightarrow> False"
| "calm path _ \<longleftrightarrow> True"

definition same_server :: "OrazioWSContext \<Rightarrow> OrazioWSContext \<Rightarrow> bool" where
  "same_server ctx ctx' \<longleftrightarrow> client_response_begin ctx' = client_response_begin ctx \<and> ws_rate ctx' = ws_rate ctx
     \<and> ws_resource_path ctx' = ws_resource_path ctx \<and> length (client_response ctx') = length (client_response ctx) \<and> ws_run ctx' = ws_run ctx"

lemma same_server_trans: "same_server a b \<Longrightarrow> same_server b c \<Longrightarrow> same_server a c"
  by (simp add: same_server_def)

lemma same_server_refl: "same_server ctx ctx"
  by (simp add: same_server_def)

lemma server_ready_same: "same_server ctx ctx' \<Longrightarrow> server_ready ctx' sh = server_ready ctx sh"
  by (simp add: same_server_def server_ready_def)

definition peer_change :: "nat peer_event \<Rightarrow> OrazioWSContext \<Rightarrow> OrazioWSContext" where
  "peer_change e ctx = (case e of Opened w \<Rightarrow> openConnection ctx w | Gone w \<Rightarrow> snd (freeConnection ctx w))"

lemmas peer_history = ws_table.table_history[unfolded ws_table.change_def[abs_def], folded peer_change_def[abs_def]]
lemmas peer_bounded = ws_table.table_bounded[unfolded ws_table.change_def[abs_def], folded peer_change_def[abs_def]]

lemma change_connections: "connections a = connections b \<Longrightarrow> connections (peer_change e a) = connections (peer_change e b)"
  by (simp add: peer_change_def openConnection_def getFreeConnectionIdx_def freeConnection_def findConnection_def Let_def
      split: peer_event.split)

lemma changes_connections:
  "connections a = connections b \<Longrightarrow> connections (fold peer_change es a) = connections (fold peer_change es b)"
  proof (induction es arbitrary: a b)
  case (Cons e es)
  show ?case using Cons.IH[OF change_connections[OF Cons.prems]] by simp
qed simp

lemma same_server_connections: "same_server ctx (openConnection ctx w)" "same_server ctx (snd (freeConnection ctx w))"
  by (simp_all add: same_server_def openConnection_def freeConnection_def Let_def)

definition table_after :: "nat peer_event list \<Rightarrow> OrazioWSContext \<Rightarrow> OrazioWSContext \<Rightarrow> bool" where
  "table_after es ctx ctx' \<longleftrightarrow> same_server ctx ctx' \<and> connections ctx' = connections (fold peer_change es ctx)"

lemma table_after_trans:
  "table_after es a b \<Longrightarrow> table_after es' b c \<Longrightarrow> table_after (es @ es') a c"
  using changes_connections[of b "fold peer_change es a" es'] by (auto simp: table_after_def intro: same_server_trans)

lemma table_after_refl: "connections ctx' = connections ctx \<Longrightarrow> same_server ctx ctx' \<Longrightarrow> table_after [] ctx ctx'"
  by (simp add: table_after_def)

lemma serve_table:
  assumes "serve env e (ctx, sh) = Inr (out, ctx', sh')"
  shows "table_after (peer_events e) ctx ctx'"
proof (cases e)
  case (Http uri)
  then show ?thesis
    using assms by (auto simp: serve_def callback_http_def Let_def bindR_Inr_iff same_server_def intro!: table_after_refl)
next
  case (Protocol p)
  then show ?thesis
    using assms
    by (cases p) (auto simp: serve_def callback_input_command_def bindR_Inr_iff table_after_def peer_change_def same_server_connections
        same_server_refl)
qed

lemma serve_calm: "calm (ws_resource_path ctx) e \<Longrightarrow> \<exists>out ctx'. serve env e (ctx, sh) = Inr (out, ctx', sh)"
  by (cases "(ws_resource_path ctx, e)" rule: calm.cases)
    (auto simp: serve_def callback_input_command_def callback_http_def resource_file_def Let_def)

lemma lws_service_table:
  "lws_service env es (ctx, sh) = Inr (outs, ctx', sh') \<Longrightarrow> table_after (concat (map peer_events es)) ctx ctx'"
proof (induction es arbitrary: ctx sh outs)
  case (Cons e es)
  then show ?case by (fastforce simp: bindR_Inr_iff dest: serve_table intro: table_after_trans)
qed (simp add: table_after_def same_server_def)

lemma lws_service_calm:
  "list_all (calm (ws_resource_path ctx)) es \<Longrightarrow> \<exists>outs ctx'. lws_service env es (ctx, sh) = Inr (outs, ctx', sh)"
proof (induction es arbitrary: ctx)
  case (Cons e es)
  obtain out ctx' where r: "serve env e (ctx, sh) = Inr (out, ctx', sh)" using serve_calm[of ctx e env sh] Cons.prems by auto
  then have "ws_resource_path ctx' = ws_resource_path ctx"
    using serve_table[OF r] by (simp add: table_after_def same_server_def)
  then obtain outs ctx'' where "lws_service env es (ctx', sh) = Inr (outs, ctx'', sh)"
    using Cons.IH[of ctx'] Cons.prems by auto
  then show ?case using r by simp
qed simp

text \<open>One round keeps the server going; the events of its callbacks are the only changes of the table.\<close>

lemma with_page_table: "server_ready ctx sh \<Longrightarrow> length (page_text m texts) \<le> 8600 \<Longrightarrow> table_after [] ctx (with_page (page_text m texts) ctx)"
  by (simp add: table_after_def same_server_def with_page_def Let_def server_ready_def)

lemma server_round_calm:
  assumes "server_ready ctx sh" and "list_all (calm (ws_resource_path ctx)) es"
  shows "\<exists>outs ctx'. server_round env es (ctx, sh) = Inr (outs, ctx', sh) \<and> table_after (concat (map peer_events es)) ctx ctx'"
proof -
  obtain texts where t: "render_all sh = Inr (texts, sh)" "length texts = 12" "list_all (\<lambda>t. length t \<le> 2100) texts"
    using render_all_returns assms(1) unfolding server_ready_def by blast
  obtain asked ctx1 where u: "update_response ctx sh = Inr (asked, ctx1, sh)" "table_after [] ctx ctx1"
    using update_response_ready[OF server_ready_buffers[OF assms(1)] t] with_page_table[OF assms(1) length_page_text[OF t(2,3)]]
    by (cases "ws_mode ctx") (auto intro: table_after_refl same_server_refl)
  then have same: "same_server ctx ctx1" by (simp add: table_after_def)
  then obtain outs ctx2 where r: "lws_service env es (ctx1, sh) = Inr (outs, ctx2, sh)"
    using lws_service_calm[of ctx1 es env sh] assms(2) by (auto simp: same_server_def)
  have after: "table_after (concat (map peer_events es)) ctx ctx2"
    using table_after_trans[OF u(2) lws_service_table[OF r]] by simp
  then have "ws_rate ctx2 \<noteq> 0" using assms(1) by (simp add: table_after_def same_server_def server_ready_def)
  then show ?thesis using u(1) r after by (simp add: server_round_def pause_def)
qed

text \<open>The callbacks that the thread has handled when it ends, or until now.\<close>

definition handled :: "(bool \<times> lws_callback list) list \<Rightarrow> lws_callback list" where
  "handled rounds = concat (map snd (takeWhile (\<lambda>r. \<not> fst r) rounds))"

lemma server_loop_calm:
  assumes "server_ready ctx sh" and "ws_run ctx" and "list_all (\<lambda>(stopped, es). list_all (calm (ws_resource_path ctx)) es) rounds"
  shows "\<exists>outs ctx'. server_loop env rounds (ctx, sh) = Inr (\<exists>r \<in> set rounds. fst r, outs, ctx', sh)
    \<and> connections ctx' = connections (fold peer_change (concat (map peer_events (handled rounds))) ctx)"
  using assms
proof (induction rounds arbitrary: ctx)
  case (Cons r rounds)
  obtain stopped es where r: "r = (stopped, es)" by (cases r)
  show ?case
  proof (cases stopped)
    case False
    obtain out ctx1 where o: "server_round env es (ctx, sh) = Inr (out, ctx1, sh)" "table_after (concat (map peer_events es)) ctx ctx1"
      using server_round_calm[OF Cons.prems(1), of es env] Cons.prems(3) by (auto simp: r)
    then have same: "same_server ctx ctx1" and conn: "connections ctx1 = connections (fold peer_change (concat (map peer_events es)) ctx)"
      by (simp_all add: table_after_def)
    have "server_ready ctx1 sh" "ws_run ctx1" "ws_resource_path ctx1 = ws_resource_path ctx"
      using same Cons.prems(1,2) server_ready_same[OF same] by (simp_all add: same_server_def)
    then obtain outs ctx2 where l: "server_loop env rounds (ctx1, sh) = Inr (\<exists>r \<in> set rounds. fst r, outs, ctx2, sh)"
      "connections ctx2 = connections (fold peer_change (concat (map peer_events (handled rounds))) ctx1)"
      using Cons.IH[of ctx1] Cons.prems(3) by auto
    have "connections ctx2 = connections (fold peer_change (concat (map peer_events (handled (r # rounds)))) ctx)"
      unfolding l(2) using changes_connections[OF conn] by (simp add: handled_def r False)
    then show ?thesis using o(1) l(1) Cons.prems(2) by (simp add: r False)
  qed (simp add: r handled_def)
qed (simp add: handled_def)

text \<open>Whatever the callbacks bring: a round that returns has changed the table by its events only.\<close>

lemma update_response_table:
  assumes "update_response ctx sh = Inr (asked, ctx', sh')"
  shows "table_after [] ctx ctx'"
  using assms
  by (auto simp: update_response_def bindR_Inr_iff table_after_def same_server_def Let_def split: option.splits if_splits)

lemma server_round_table:
  assumes "server_round env es (ctx, sh) = Inr (outs, ctx', sh')"
  shows "table_after (concat (map peer_events es)) ctx ctx'"
proof -
  obtain asked ctx1 sh1 where u: "update_response ctx sh = Inr (asked, ctx1, sh1)" and l: "lws_service env es (ctx1, sh1) = Inr (outs, ctx', sh')"
    using assms by (auto simp: server_round_def bindR_Inr_iff)
  from table_after_trans[OF update_response_table[OF u] lws_service_table[OF l]] show ?thesis by simp
qed

lemma server_loop_table:
  assumes "server_loop env rounds (ctx, sh) = Inr (ended, outs, ctx', sh')" and "ws_run ctx"
  shows "ended = (\<exists>r \<in> set rounds. fst r)
    \<and> connections ctx' = connections (fold peer_change (concat (map peer_events (handled rounds))) ctx)"
  using assms
proof (induction rounds arbitrary: ctx sh outs)
  case (Cons r rounds)
  obtain stopped es where r: "r = (stopped, es)" by (cases r)
  show ?case
  proof (cases stopped)
    case False
    obtain out ctx1 sh1 outs1 where o: "server_round env es (ctx, sh) = Inr (out, ctx1, sh1)"
      and l: "server_loop env rounds (ctx1, sh1) = Inr (ended, outs1, ctx', sh')"
      using Cons.prems by (auto simp: r False bindR_Inr_iff)
    have t: "ws_run ctx1" "connections ctx1 = connections (fold peer_change (concat (map peer_events es)) ctx)"
      using server_round_table[OF o] Cons.prems(2) by (simp_all add: table_after_def same_server_def)
    show ?thesis using Cons.IH[OF l t(1)] changes_connections[OF t(2)] by (simp add: handled_def r False)
  qed (use Cons.prems in \<open>auto simp: r handled_def\<close>)
qed (simp add: handled_def)

text \<open>
  C25. When the thread of the web server has run through its rounds, whatever pages and commands its callbacks brought, it has
  ended exactly when it has been stopped, and its table is the multiset of the peers that were in it at the start, with those that have come and not left
  since, up to its capacity. With a positive or negative rate, a message that has its final zero, and callbacks that bring no command and
  no path that is too long, the thread does run through all rounds.
\<close>

theorem server_tracks_peers:
  assumes "ws_table_ok ctx" and "\<forall>e \<in> set (concat (map peer_events (handled rounds))). peer_of e \<noteq> 0"
  shows "(\<forall>ended outs ctx' sh'. websocketFn env True rounds (ctx, sh) = Inr (ended, outs, ctx', sh') \<longrightarrow>
        ended = (\<exists>r \<in> set rounds. fst r)
        \<and> peers ctx' = fold (peers_after MAX_CONNECTIONS) (concat (map peer_events (handled rounds))) (peers ctx)
        \<and> (size (peers ctx) \<le> MAX_CONNECTIONS \<longrightarrow> size (peers ctx') \<le> MAX_CONNECTIONS))
    \<and> (server_ready ctx sh \<and> list_all (\<lambda>(stopped, es). list_all (calm (ws_resource_path ctx)) es) rounds \<longrightarrow>
        (\<exists>outs ctx'. websocketFn env True rounds (ctx, sh) = Inr (\<exists>r \<in> set rounds. fst r, outs, ctx', sh)))"
proof (intro conjI allI impI)
  let ?ctx = "ctx\<lparr>ws_run := True\<rparr>" and ?es = "concat (map peer_events (handled rounds))"
  have t: "ws_table_ok ?ctx" "peers ?ctx = peers ctx" using assms(1) by (simp_all add: ws_table_ok_def peers_def)
  fix ended outs ctx' sh'
  assume "websocketFn env True rounds (ctx, sh) = Inr (ended, outs, ctx', sh')"
  then have "server_loop env rounds (?ctx, sh) = Inr (ended, outs, ctx', sh')" by (simp add: websocketFn_def)
  from server_loop_table[OF this] have end_: "ended = (\<exists>r \<in> set rounds. fst r)" and "connections ctx' = connections (fold peer_change ?es ?ctx)"
    by simp_all
  then have "peers ctx' = peers (fold peer_change ?es ?ctx)" by (simp add: peers_def)
  then show "ended = (\<exists>r \<in> set rounds. fst r)" and "peers ctx' = fold (peers_after MAX_CONNECTIONS) ?es (peers ctx)"
    and "size (peers ctx) \<le> MAX_CONNECTIONS \<Longrightarrow> size (peers ctx') \<le> MAX_CONNECTIONS"
    using peer_history[of ?ctx ?es] peer_bounded[of ?ctx ?es] assms(2) t end_ by simp_all
next
  assume "server_ready ctx sh \<and> list_all (\<lambda>(stopped, es). list_all (calm (ws_resource_path ctx)) es) rounds"
  then show "\<exists>outs ctx'. websocketFn env True rounds (ctx, sh) = Inr (\<exists>r \<in> set rounds. fst r, outs, ctx', sh)"
    using server_loop_calm[of "ctx\<lparr>ws_run := True\<rparr>" sh rounds env] by (auto simp: websocketFn_def server_ready_def)
qed

text \<open>
  A stop that comes before the thread has started is lost: the thread sets the flag again, and the loop goes on in every later
  round, so that the thread which waits for it never continues.
\<close>

theorem early_stop_lost:
  assumes "server_ready ctx sh" and "list_all (\<lambda>(stopped, es). \<not> stopped \<and> list_all (calm (ws_resource_path ctx)) es) rounds"
  shows "\<exists>outs ctx'. websocketFn env True rounds (OrazioWebsocketServer_stop ctx, sh) = Inr (False, outs, ctx', sh)"
proof -
  let ?ctx = "(OrazioWebsocketServer_stop ctx)\<lparr>ws_run := True\<rparr>"
  have "server_ready ?ctx sh" "ws_resource_path ?ctx = ws_resource_path ctx"
    using assms(1) by (simp_all add: server_ready_def OrazioWebsocketServer_stop_def)
  moreover have "(\<exists>r \<in> set rounds. fst r) = False" "list_all (\<lambda>(stopped, es). list_all (calm (ws_resource_path ctx)) es) rounds"
    using assms(2) by (auto simp: list_all_iff)
  ultimately show ?thesis
    using server_loop_calm[of ?ctx sh rounds env] by (auto simp: websocketFn_def)
qed

section \<open>Examples\<close>

definition sample_server :: OrazioWSContext where
  "sample_server = \<lparr>client_response = replicate BUF_SIZE CHR 0x00, client_response_begin = 16, client_response_length = 0,
     connections = replicate MAX_CONNECTIONS 0, ws_run = False, ws_rate = 10, ws_port = 9000, ws_mode = Some System,
     ws_resource_path = ''html''\<rparr>"

lemma sample_server_ready: "server_ready sample_server sample_shell"
proof -
  have "message_ends sample_shell" by (simp add: message_ends_def sample_shell_def initial_vmem_def zeroed_def sizeof_defs)
  then show ?thesis by (simp add: server_ready_def sample_server_def sample_shell_ok)
qed

lemma sample_server_table: "ws_table_ok sample_server" "peers sample_server = {#}" "ws_resource_path sample_server = ''html''"
  by (simp_all add: ws_table_ok_def sample_server_def peers_def)

theorem page_fits_witness:
  "\<exists>texts. render_all sample_shell = Inr (texts, sample_shell) \<and> 16 + length (page_text System texts) < BUF_SIZE
    \<and> update_response sample_server sample_shell = Inr (True, with_page (page_text System texts) sample_server, sample_shell)"
  using page_fits[OF sample_shell_ok, of sample_server System] sample_server_ready by (auto simp: sample_server_def server_ready_def)

lemma page_not_short: "180 \<le> length (page_text System texts)"
  by (simp add: page_text_def mode_texts_def mode_name_def newline_def)

theorem page_sent_cut_witness:
  "\<forall>env. \<exists>texts. server_round env [Protocol (ServerWriteable 5)] (sample_server, sample_shell)
    = Inr ([Sent (replicate 16 CHR 0x00 @ take (length (page_text System texts) - 15) (page_text System texts))],
           with_page (page_text System texts) sample_server, sample_shell)"
proof
  fix env
  obtain texts where "render_all sample_shell = Inr (texts, sample_shell)"
    using render_all_returns sample_server_ready by (auto simp: server_ready_def)
  then show "\<exists>texts. server_round env [Protocol (ServerWriteable 5)] (sample_server, sample_shell)
    = Inr ([Sent (replicate 16 CHR 0x00 @ take (length (page_text System texts) - 15) (page_text System texts))],
           with_page (page_text System texts) sample_server, sample_shell)"
    using page_sent_cut[OF sample_server_ready, of System texts env 5] page_not_short[of texts]
    by (intro exI[of _ texts]) (simp add: sample_server_def)
qed

text \<open>Two peers come, one leaves, and the thread is stopped.\<close>

definition sample_rounds :: "(bool \<times> lws_callback list) list" where
  "sample_rounds = [(False, [Protocol (Established 7), Http ''/drive.html'']), (False, [Protocol (Established 9), Protocol (Closed 7)]), (True, [])]"

theorem server_tracks_peers_witness:
  "\<forall>env. \<exists>outs ctx'. websocketFn env True sample_rounds (sample_server, sample_shell) = Inr (True, outs, ctx', sample_shell) \<and> peers ctx' = {#9#}"
  using server_tracks_peers[OF sample_server_table(1), of sample_rounds _ sample_shell] sample_server_ready
  by (simp add: sample_rounds_def handled_def sample_server_table(2,3)) metis

theorem early_stop_lost_witness:
  "\<forall>env. \<exists>outs ctx'. websocketFn env True [(False, []), (False, [])] (OrazioWebsocketServer_stop sample_server, sample_shell)
    = Inr (False, outs, ctx', sample_shell)"
  using early_stop_lost[OF sample_server_ready, of "[(False, []), (False, [])]"] by simp

end
