(* ===== verification/NodeQueue.thy ===== *)
theory NodeQueue
  imports Ring
begin

text \<open>
  \<open>src/queue.h\<close>, the queue between the threads of the logger: nodes that are linked on the heap.
  Nodes are allocated and never freed, so the heap is a list that only grows; the address of
  a node is its position, counted from 1, and 0 is the null pointer. The queue is shown to
  be a list (\<open>chain\<close>, \<open>queue_items\<close>) and to meet the FIFO contract of \<open>Ring\<close>.
\<close>

section \<open>The code\<close>

record 'a node =
  node_data :: 'a
  node_next :: addr

record 'a queue =
  head :: addr
  tail :: addr
  nodes :: "'a node list"

definition node_at :: "addr \<Rightarrow> 'a queue \<Rightarrow> 'a node result" where
  "node_at p q =
     (if p = NULL then Inl NullDeref else if length (nodes q) < p then Inl OutOfBounds else Inr (nodes q ! (p - 1)))"

text \<open>\<open>malloc\<close> is taken to succeed.\<close>

definition newNode :: "'a \<Rightarrow> 'a queue \<Rightarrow> addr \<times> 'a queue" where
  "newNode data q = (Suc (length (nodes q)), q\<lparr>nodes := nodes q @ [\<lparr>node_data = data, node_next = NULL\<rparr>]\<rparr>)"

definition createQueue :: "'a queue" where
  "createQueue = \<lparr>head = NULL, tail = NULL, nodes = []\<rparr>"

definition set_next :: "addr \<Rightarrow> addr \<Rightarrow> 'a queue \<Rightarrow> 'a queue result" where
  "set_next p x q = bindR (node_at p q) (\<lambda>n. Inr (q\<lparr>nodes := (nodes q)[p - 1 := n\<lparr>node_next := x\<rparr>]\<rparr>))"

definition enqueue :: "'a \<Rightarrow> 'a queue \<Rightarrow> 'a queue result" where
  "enqueue data q0 =
     (case newNode data q0 of (temp, q) \<Rightarrow>
       if tail q = NULL then Inr (q\<lparr>head := temp, tail := temp\<rparr>)
       else bindR (set_next (tail q) temp q) (\<lambda>q. Inr (q\<lparr>tail := temp\<rparr>)))"

text \<open>\<open>None\<close> is the null pointer that an empty queue returns.\<close>

definition dequeue :: "'a queue \<Rightarrow> ('a option \<times> 'a queue) result" where
  "dequeue q =
     (if head q = NULL then Inr (None, q)
      else bindR (node_at (head q) q) (\<lambda>temp.
        let q = q\<lparr>head := node_next temp\<rparr>;
            q = (if head q = NULL then q\<lparr>tail := NULL\<rparr> else q)
        in Inr (Some (node_data temp), q)))"

definition isempty :: "'a queue \<Rightarrow> bool" where
  "isempty q = (head q = NULL \<and> tail q = NULL)"

section \<open>The list that a queue stands for\<close>

text \<open>\<open>chain ns p as\<close>: from \<open>p\<close> the links of the nodes \<open>ns\<close> visit the addresses \<open>as\<close> and end.\<close>

fun chain :: "'a node list \<Rightarrow> addr \<Rightarrow> addr list \<Rightarrow> bool" where
  "chain ns p [] = (p = NULL)"
| "chain ns p (a # as) = (p = a \<and> 0 < a \<and> a \<le> length ns \<and> chain ns (node_next (ns ! (a - 1))) as)"

text \<open>
  The queued nodes are the last ones of the heap: \<open>taken\<close> counts the ones that were taken out,
  \<open>queue_history\<close> is what was ever put in, \<open>queue_items\<close> what is still there.
\<close>

definition taken :: "'a queue \<Rightarrow> nat" where
  "taken q = (if head q = NULL then length (nodes q) else head q - 1)"

definition queue_ok :: "'a queue \<Rightarrow> bool" where
  "queue_ok q =
     (taken q \<le> length (nodes q) \<and> chain (nodes q) (head q) [Suc (taken q)..<Suc (length (nodes q))]
      \<and> tail q = (if taken q = length (nodes q) then NULL else length (nodes q)))"

definition queue_history :: "'a queue \<Rightarrow> 'a list" where
  "queue_history q = map node_data (nodes q)"

definition queue_items :: "'a queue \<Rightarrow> 'a list" where
  "queue_items q = drop (taken q) (queue_history q)"

lemma chain_in_heap: "chain ns p as \<Longrightarrow> a \<in> set as \<Longrightarrow> 0 < a \<and> a \<le> length ns"
  by (induction ns p as rule: chain.induct) auto

lemma chain_append_node:
  "chain ns p as \<Longrightarrow> chain (ns @ [n]) p as"
  by (induction ns p as rule: chain.induct) (auto simp: nth_append)

lemma chain_snoc:
  assumes "chain ns p (as @ [a])" and "a \<notin> set as" and "0 < b" and "b \<le> length ns"
    and "b \<notin> set (as @ [a])" and "node_next (ns ! (b - 1)) = NULL"
  shows "chain (ns[a - 1 := (ns ! (a - 1))\<lparr>node_next := b\<rparr>]) p (as @ [a, b])"
  using assms
proof (induction as arbitrary: p)
  case Nil
  then have "a - 1 \<noteq> b - 1" by auto
  with Nil show ?case by (auto simp: nth_list_update)
next
  case (Cons c as)
  have "0 < a" using chain_in_heap[OF Cons.prems(1), of a] by simp
  then have "a - 1 \<noteq> c - 1" using Cons.prems(1,2) by (cases c) auto
  with Cons show ?case by (auto simp: nth_list_update)
qed

lemma chain_upt:
  "k < m \<Longrightarrow> chain ns p [Suc k..<Suc m]
    \<longleftrightarrow> p = Suc k \<and> k < length ns \<and> chain ns (node_next (ns ! k)) [Suc (Suc k)..<Suc m]"
  by (auto simp: upt_conv_Cons simp del: upt_Suc)

lemma queue_okD:
  assumes "queue_ok q"
  shows "taken q \<le> length (nodes q)" and "head q = NULL \<longleftrightarrow> taken q = length (nodes q)"
    and "tail q = NULL \<longleftrightarrow> taken q = length (nodes q)"
proof -
  have c: "chain (nodes q) (head q) [Suc (taken q)..<Suc (length (nodes q))]"
    and k: "taken q \<le> length (nodes q)" using assms by (simp_all add: queue_ok_def)
  show "taken q \<le> length (nodes q)" by (rule k)
  show "head q = NULL \<longleftrightarrow> taken q = length (nodes q)"
    using c chain_upt[of "taken q" "length (nodes q)" "nodes q" "head q"] k
    by (cases "taken q < length (nodes q)") (auto simp: taken_def)
  show "tail q = NULL \<longleftrightarrow> taken q = length (nodes q)"
    using assms k by (auto simp: queue_ok_def)
qed

section \<open>The operations are list operations\<close>

lemma queue_create: "queue_ok createQueue" "queue_items createQueue = []" "queue_history createQueue = []" "taken createQueue = 0"
  by (simp_all add: queue_ok_def createQueue_def taken_def queue_items_def queue_history_def)

lemma enqueue_ok:
  assumes "queue_ok q"
  obtains q' where "enqueue x q = Inr q'" and "queue_ok q'" and "queue_history q' = queue_history q @ [x]"
    and "taken q' = taken q"
proof -
  let ?ns = "nodes q" and ?n = "\<lparr>node_data = x, node_next = NULL\<rparr>"
  let ?m = "length ?ns" and ?k = "taken q"
  have k: "?k \<le> ?m" and c: "chain ?ns (head q) [Suc ?k..<Suc ?m]" and t: "tail q = (if ?k = ?m then NULL else ?m)"
    using assms by (auto simp: queue_ok_def)
  show ?thesis
  proof (cases "?k = ?m")
    case True
    then have "enqueue x q = Inr (q\<lparr>head := Suc ?m, tail := Suc ?m, nodes := ?ns @ [?n]\<rparr>)"
      using t by (simp add: enqueue_def newNode_def)
    then show ?thesis using that True by (simp add: queue_ok_def queue_history_def taken_def)
  next
    case False
    with k have km: "?k < ?m" by simp
    then have h: "head q = Suc ?k" using chain_upt[OF km, of ?ns "head q"] c by (simp del: upt_Suc)
    let ?ns' = "(?ns @ [?n])[?m - 1 := ((?ns @ [?n]) ! (?m - 1))\<lparr>node_next := Suc ?m\<rparr>]"
    let ?q = "q\<lparr>nodes := ?ns', tail := Suc ?m\<rparr>"
    have e: "enqueue x q = Inr ?q"
      using t km by (auto simp: enqueue_def newNode_def set_next_def node_at_def)
    have tk: "taken ?q = ?k" using h by (simp add: taken_def)
    have s: "[Suc ?k..<Suc ?m] = [Suc ?k..<?m] @ [?m]" using km by simp
    have "chain (?ns @ [?n]) (head q) ([Suc ?k..<?m] @ [?m])" using chain_append_node[OF c] s by simp
    then have "chain ?ns' (head q) ([Suc ?k..<?m] @ [?m, Suc ?m])"
      by (rule chain_snoc) (auto simp: nth_append)
    moreover have "[Suc ?k..<Suc (Suc ?m)] = [Suc ?k..<?m] @ [?m, Suc ?m]" using km by simp
    ultimately have "queue_ok ?q" using km tk by (simp add: queue_ok_def)
    moreover have "queue_history ?q = queue_history q @ [x]"
      by (rule nth_equalityI) (auto simp: queue_history_def nth_list_update nth_append)
    ultimately show ?thesis using that e tk by blast
  qed
qed

lemma dequeue_ok:
  assumes "queue_ok q" and "queue_items q = x # xs"
  obtains q' where "dequeue q = Inr (Some x, q')" and "queue_ok q'" and "queue_history q' = queue_history q"
    and "taken q' = Suc (taken q)"
proof -
  let ?ns = "nodes q" and ?k = "taken q"
  let ?m = "length ?ns"
  have km: "?k < ?m"
    using assms(2) by (cases "?k < ?m") (simp_all add: queue_items_def queue_history_def)
  then have h: "head q = Suc ?k" and c: "chain ?ns (node_next (?ns ! ?k)) [Suc (Suc ?k)..<Suc ?m]"
    using assms(1) chain_upt[OF km, of ?ns "head q"] by (simp_all add: queue_ok_def del: upt_Suc)
  have x: "node_data (?ns ! ?k) = x"
    using assms(2) km by (simp add: queue_items_def queue_history_def drop_map Cons_nth_drop_Suc[symmetric])
  let ?p = "node_next (?ns ! ?k)"
  let ?q = "q\<lparr>head := ?p, tail := if ?p = NULL then NULL else tail q\<rparr>"
  have e: "dequeue q = Inr (Some x, ?q)"
    using h km x by (simp add: dequeue_def node_at_def)
  have p: "?p = (if Suc ?k = ?m then NULL else Suc (Suc ?k))"
    using c chain_upt[of "Suc ?k" ?m ?ns ?p] km by (cases "Suc ?k = ?m") (simp_all del: upt_Suc)
  then have "taken ?q = Suc ?k" using km by (simp add: taken_def)
  moreover from this have "queue_ok ?q" using assms(1) km p c by (auto simp: queue_ok_def simp del: upt_Suc)
  ultimately show ?thesis using that e by (simp add: queue_history_def)
qed

lemma dequeue_empty:
  assumes "queue_ok q" and "queue_items q = []"
  shows "dequeue q = Inr (None, q)"
proof -
  have "head q = NULL"
    using queue_okD[OF assms(1)] assms(2) by (simp add: queue_items_def queue_history_def)
  then show ?thesis by (simp add: dequeue_def)
qed

lemma isempty_iff: "queue_ok q \<Longrightarrow> isempty q \<longleftrightarrow> queue_items q = []"
  using queue_okD[of q] by (auto simp: isempty_def queue_items_def queue_history_def)

lemma items_enqueue: "queue_ok q \<Longrightarrow> enqueue x q = Inr q' \<Longrightarrow> queue_items q' = queue_items q @ [x]"
  by (rule enqueue_ok[of q x]) (auto simp: queue_items_def queue_okD(1) queue_history_def)

lemma items_dequeue: "queue_ok q \<Longrightarrow> queue_items q = x # xs \<Longrightarrow> dequeue q = Inr (y, q') \<Longrightarrow> queue_items q' = xs"
  by (rule dequeue_ok[of q x xs]) (auto simp: queue_items_def drop_Suc simp flip: tl_drop)

section \<open>The FIFO contract\<close>

interpretation node_queue: fifo "\<lambda>x q. projr (enqueue x q)" "\<lambda>q. apfst the (projr (dequeue q))" isempty queue_items queue_ok "\<lambda>n. True"
proof unfold_locales
  fix x :: 'a and xs :: "'a list" and q :: "'a queue"
  assume q: "queue_ok q"
  obtain p where p: "enqueue x q = Inr p" "queue_ok p" by (rule enqueue_ok[OF q])
  show "queue_items (projr (enqueue x q)) = queue_items q @ [x]" "queue_ok (projr (enqueue x q))"
    using p items_enqueue[OF q p(1)] by simp_all
  show "isempty q \<longleftrightarrow> queue_items q = []" by (rule isempty_iff[OF q])
  assume x: "queue_items q = x # xs"
  obtain p where p: "dequeue q = Inr (Some x, p)" "queue_ok p" by (rule dequeue_ok[OF q x])
  show "fst (apfst the (projr (dequeue q))) = x" "queue_ok (snd (apfst the (projr (dequeue q))))"
    "queue_items (snd (apfst the (projr (dequeue q)))) = xs"
    using p items_dequeue[OF q x p(1)] by simp_all
qed simp

section \<open>Any sequence of operations\<close>

datatype 'a queue_op = Enqueue 'a | Dequeue | IsEmpty

datatype 'a queue_answer = NoAnswer | Taken "'a option" | WasEmpty bool

definition queue_call :: "'a queue_op \<Rightarrow> 'a queue \<Rightarrow> ('a queue_answer \<times> 'a queue) result" where
  "queue_call c q =
     (case c of
        Enqueue x \<Rightarrow> bindR (enqueue x q) (\<lambda>q. Inr (NoAnswer, q))
      | Dequeue \<Rightarrow> bindR (dequeue q) (\<lambda>(d, q). Inr (Taken d, q))
      | IsEmpty \<Rightarrow> Inr (WasEmpty (isempty q), q))"

definition list_call :: "'a queue_op \<Rightarrow> 'a list \<Rightarrow> 'a queue_answer \<times> 'a list" where
  "list_call c xs =
     (case c of
        Enqueue x \<Rightarrow> (NoAnswer, xs @ [x])
      | Dequeue \<Rightarrow> (case xs of [] \<Rightarrow> (Taken None, []) | x # xs' \<Rightarrow> (Taken (Some x), xs'))
      | IsEmpty \<Rightarrow> (WasEmpty (xs = []), xs))"

fun queue_calls :: "'a queue_op list \<Rightarrow> 'a queue \<Rightarrow> ('a queue_answer list \<times> 'a queue) result" where
  "queue_calls [] q = Inr ([], q)"
| "queue_calls (c # cs) q =
     bindR (queue_call c q) (\<lambda>(a, q). bindR (queue_calls cs q) (\<lambda>(as, q). Inr (a # as, q)))"

fun list_calls :: "'a queue_op list \<Rightarrow> 'a list \<Rightarrow> 'a queue_answer list \<times> 'a list" where
  "list_calls [] xs = ([], xs)"
| "list_calls (c # cs) xs = (case list_call c xs of (a, xs) \<Rightarrow> apfst (Cons a) (list_calls cs xs))"

lemma queue_call_refines:
  assumes "queue_ok q"
  obtains q' where "queue_call c q = Inr (fst (list_call c (queue_items q)), q')" and "queue_ok q'"
    and "queue_items q' = snd (list_call c (queue_items q))"
proof (cases c)
  case (Enqueue x)
  obtain p where p: "enqueue x q = Inr p" "queue_ok p" by (rule enqueue_ok[OF assms])
  with items_enqueue[OF assms p(1)] Enqueue that show ?thesis by (simp add: queue_call_def list_call_def)
next
  case Dequeue
  show ?thesis
  proof (cases "queue_items q")
    case Nil
    then show ?thesis using that dequeue_empty[OF assms Nil] Dequeue assms by (simp add: queue_call_def list_call_def)
  next
    case (Cons x xs)
    obtain p where p: "dequeue q = Inr (Some x, p)" "queue_ok p" by (rule dequeue_ok[OF assms Cons])
    with items_dequeue[OF assms Cons p(1)] Cons Dequeue that show ?thesis by (simp add: queue_call_def list_call_def)
  qed
next
  case IsEmpty
  then show ?thesis using that isempty_iff[OF assms] assms by (simp add: queue_call_def list_call_def)
qed

lemma queue_calls_refine:
  "queue_ok q \<Longrightarrow> \<exists>q'. queue_calls cs q = Inr (fst (list_calls cs (queue_items q)), q')
    \<and> queue_ok q' \<and> queue_items q' = snd (list_calls cs (queue_items q))"
proof (induction cs arbitrary: q)
  case (Cons c cs)
  obtain p where p: "queue_call c q = Inr (fst (list_call c (queue_items q)), p)" "queue_ok p"
    "queue_items p = snd (list_call c (queue_items q))" by (rule queue_call_refines[OF Cons.prems])
  from Cons.IH[OF p(2)] p show ?case by (auto simp: split_beta)
qed simp

text \<open>
  C22. On a new queue every sequence of calls returns, without following a bad pointer, and answers as a
  list does: \<open>enqueue\<close> appends, \<open>dequeue\<close> takes the first item or returns the null pointer, \<open>isempty\<close> tells
  whether there is one; what is linked in the end is the list.
\<close>

theorem queue_is_list:
  "\<exists>q. queue_calls cs createQueue = Inr (fst (list_calls cs []), q) \<and> queue_items q = snd (list_calls cs [])"
  using queue_calls_refine[OF queue_create(1), of cs] by (simp add: queue_create) blast

end
