(* ===== verification/Keyboard.thy ===== *)
theory Keyboard
  imports Prelude
begin

text \<open>
  \<open>src/orazio_lib/src/host_test/orazio_client_test_getkey.c\<close>: the keys of the logger. The terminal
  settings are the operating system's; what \<open>read\<close> returns is an argument, \<open>None\<close> for an error.
\<close>

text \<open>\<open>KeyCode\<close>: an enumeration from \<open>-1\<close> on, converted from an index.\<close>

type_synonym KeyCode = int

abbreviation (input) KeyUnknown :: KeyCode where "KeyUnknown \<equiv> - 1"
abbreviation (input) KeyEsc :: KeyCode where "KeyEsc \<equiv> 0"
abbreviation (input) KeyArrowUp :: KeyCode where "KeyArrowUp \<equiv> 1"
abbreviation (input) KeyArrowDown :: KeyCode where "KeyArrowDown \<equiv> 2"
abbreviation (input) KeyArrowRight :: KeyCode where "KeyArrowRight \<equiv> 3"
abbreviation (input) KeyArrowLeft :: KeyCode where "KeyArrowLeft \<equiv> 4"
abbreviation (input) KeyS :: KeyCode where "KeyS \<equiv> 5"
abbreviation (input) KeyR :: KeyCode where "KeyR \<equiv> 6"
abbreviation (input) KeyD :: KeyCode where "KeyD \<equiv> 7"
abbreviation (input) KeyJ :: KeyCode where "KeyJ \<equiv> 8"
abbreviation (input) KeyX :: KeyCode where "KeyX \<equiv> 9"
abbreviation (input) KeyBlank :: KeyCode where "KeyBlank \<equiv> 10"

text \<open>The strings of \<open>key_map\<close> without their final zero: escape, the arrows, s, r, d, j, x and the blank.\<close>

definition key_map :: "u8 list list" where
  "key_map = [[0x1b], [0x1b, 0x5b, 0x41], [0x1b, 0x5b, 0x42], [0x1b, 0x5b, 0x43], [0x1b, 0x5b, 0x44],
     [0x73], [0x72], [0x64], [0x6a], [0x78], [0x20]]"

fun find_key :: "KeyCode \<Rightarrow> u8 list list \<Rightarrow> u8 list \<Rightarrow> KeyCode" where
  "find_key idx [] s = KeyUnknown"
| "find_key idx (k # ks) s = (if k = s then idx else find_key (idx + 1) ks s)"

definition string2keycode :: "u8 list \<Rightarrow> KeyCode" where
  "string2keycode s = find_key 0 key_map s"

text \<open>
  \<open>getKey\<close>: up to ten bytes go into \<open>key_buffer[10]\<close>, and a zero is stored behind them, which for
  ten bytes is past the array and after an error before it. The string ends at its first zero.
\<close>

definition KEY_BUFFER_SIZE :: nat where "KEY_BUFFER_SIZE = 10"

definition getKey :: "u8 list option \<Rightarrow> KeyCode result" where
  "getKey received =
     (case received of
        None \<Rightarrow> Inl OutOfBounds
      | Some bs \<Rightarrow>
          if KEY_BUFFER_SIZE \<le> length bs then Inl OutOfBounds
          else Inr (string2keycode (takeWhile (\<lambda>b. b \<noteq> 0) bs)))"

lemma string2keycode_map:
  "string2keycode [0x1b] = KeyEsc" "string2keycode [0x1b, 0x5b, 0x41] = KeyArrowUp"
  "string2keycode [0x1b, 0x5b, 0x42] = KeyArrowDown" "string2keycode [0x1b, 0x5b, 0x43] = KeyArrowRight"
  "string2keycode [0x1b, 0x5b, 0x44] = KeyArrowLeft"
  by (simp_all add: string2keycode_def key_map_def)

lemma find_key_range: "find_key i ks s = KeyUnknown \<or> i \<le> find_key i ks s"
  by (induction ks arbitrary: i) (auto dest: order_trans[rotated], smt (verit))

lemma find_key_iff:
  "distinct ks \<Longrightarrow> i < length ks \<Longrightarrow> 0 \<le> j \<Longrightarrow> find_key j ks s = j + int i \<longleftrightarrow> s = ks ! i"
proof (induction ks arbitrary: i j)
  case (Cons k ks)
  show ?case
  proof (cases i)
    case 0
    then show ?thesis using Cons.prems(3) find_key_range[of "j + 1" ks s] by auto
  next
    case (Suc i')
    then show ?thesis using Cons.IH[of i' "j + 1"] Cons.prems by (auto simp: algebra_simps)
  qed
qed simp

text \<open>The code is the position of the key in the table, and only the keys of the table have one.\<close>

lemma keycode_iff: "i < length key_map \<Longrightarrow> string2keycode s = int i \<longleftrightarrow> s = key_map ! i"
  using find_key_iff[of key_map i 0 s] by (simp add: string2keycode_def key_map_def)

end
