(* ===== verification/Logger.thy ===== *)
theory Logger
  imports NodeQueue Keyboard Client PrintPacket
begin

text \<open>
  \<open>src/orazio_logger.c\<close>, the pieces that one thread runs at a time: the arguments, what a key or a
  joystick event does to the drive command, the packets that the main loop collects as text, and the
  lines of the file. How the threads interleave is in \<open>LoggerThreads\<close>.
\<close>

section \<open>Data\<close>

datatype Mode = Start | Stop

text \<open>
  The arrays of characters that the loops declare in their bodies. Every iteration has its own: a pointer
  names the array and the iteration of its loop, and the array is gone when the iteration is over.
\<close>

datatype local_array = system_buffer | joint_buffer | sonar_buffer | drive_buffer | nomefile

type_synonym pointer = "local_array \<times> nat"

record genData =
  gd_type :: int
  gd_ts :: int
  gd_data :: pointer

abbreviation (input) GEN_DATA_IMAGE :: int where "GEN_DATA_IMAGE \<equiv> 0"
abbreviation (input) GEN_DATA_SYSTEMPACKET :: int where "GEN_DATA_SYSTEMPACKET \<equiv> 1"
abbreviation (input) GEN_DATA_SONARPACKET :: int where "GEN_DATA_SONARPACKET \<equiv> 2"
abbreviation (input) GEN_DATA_DRIVEPACKET :: int where "GEN_DATA_DRIVEPACKET \<equiv> 3"
abbreviation (input) GEN_DATA_JOINTPACKET :: int where "GEN_DATA_JOINTPACKET \<equiv> 4"

definition LOCAL_BUFFER_SIZE :: nat where "LOCAL_BUFFER_SIZE = 1024"
definition INT_MAX :: int where "INT_MAX = 2147483647"

text \<open>
  The variables of the file, the semaphores \<open>empty\<close> and \<open>critical\<close>, and the memory: the local
  arrays (\<open>None\<close> before the first write), the current iterations of the main loop and of the
  camera's, and the text written to the file. Packets are kept as their bytes.
\<close>

record logger =
  mode :: Mode
  lg_client :: client
  timestamp :: int
  lg_drive_control :: DifferentialDriveControlPacket
  lg_system_params :: "u8 list"
  lg_system_status :: "u8 list"
  lg_sonar_status :: "u8 list"
  lg_drive_status :: "u8 list"
  lg_joint_status :: "u8 list list"
  lg_queue :: "genData queue"
  sem_empty :: nat
  sem_critical :: nat
  arrays :: "pointer \<Rightarrow> string option"
  main_round :: nat
  camera_round :: nat
  log_text :: string

section \<open>Arguments\<close>

text \<open>Both options set the joystick. \<open>None\<close>: the help text was printed and the program ends.\<close>

fun logger_arguments :: "string list \<Rightarrow> string \<times> string \<Rightarrow> (string \<times> string) option" where
  "logger_arguments [] devices = Some devices"
| "logger_arguments (a # rest) (serial_device, joy_device) =
     (if a = ''-h'' then None
      else if a = ''-serial-device'' \<or> a = ''-joy-device'' then
        (case rest of
           [] \<Rightarrow> Some (serial_device, joy_device)
         | d # rest' \<Rightarrow> logger_arguments rest' (serial_device, d))
      else logger_arguments rest (serial_device, joy_device))"

definition default_devices :: "string \<times> string" where
  "default_devices = (''/dev/ttyACM0'', ''/dev/input/js0'')"

section \<open>The drive command\<close>

definition set_velocities :: "u16 \<Rightarrow> f32 \<Rightarrow> f32 \<Rightarrow> DifferentialDriveControlPacket \<Rightarrow> DifferentialDriveControlPacket" where
  "set_velocities seq tv rv p =
     p\<lparr>dc_header := (dc_header p)\<lparr>h_seq := seq\<rparr>, dc_translational_velocity := tv, dc_rotational_velocity := rv\<rparr>"

definition send_drive_control :: "logger \<Rightarrow> (PacketStatus \<times> logger) result" where
  "send_drive_control s =
     bindR (OrazioClient_sendPacket (put_DifferentialDriveControlPacket (lg_drive_control s)) 0 (lg_client s)) (\<lambda>(st, pkt, cl).
       Inr (st, s\<lparr>lg_drive_control := fst (get_DifferentialDriveControlPacket pkt), lg_client := cl\<rparr>))"

definition stopRobot :: "logger \<Rightarrow> logger result" where
  "stopRobot s =
     bindR (send_drive_control (s\<lparr>lg_drive_control := set_velocities 0 0 0 (lg_drive_control s)\<rparr>)) (\<lambda>(_, s). Inr s)"

text \<open>
  \<open>v += 0.1\<close> on a \<open>float\<close>: the sum is computed in \<open>double\<close>, rounded to 53 bits, and then stored as a
  \<open>float\<close>. The constant is 3602879701896397 / 2^55.
\<close>

definition round_to :: "nat \<Rightarrow> nat \<Rightarrow> int \<Rightarrow> nat \<times> int" where
  "round_to p num e =
     (let k = Suc (ilog2 num) - p; q = num div 2 ^ k; r = num mod 2 ^ k;
          q' = (if 2 ^ k < 2 * r \<or> (0 < k \<and> 2 * r = 2 ^ k \<and> odd q) then q + 1 else q)
      in (q', e + int k))"

definition add_double :: "f32 \<Rightarrow> bool \<Rightarrow> nat \<Rightarrow> int \<Rightarrow> f32" where
  "add_double x t n f =
     (case f32_decode x of
        FNan \<Rightarrow> f32_nan
      | FInf s \<Rightarrow> f32_inf s
      | FFin s m e \<Rightarrow>
          let g = min e f; v = signed_mant s m * 2 ^ nat (e - g) + signed_mant t n * 2 ^ nat (f - g) in
          case round_to 53 (nat \<bar>v\<bar>) g of (q, h) \<Rightarrow> f32_round (v < 0) q 1 h)"

definition add_tenth :: "bool \<Rightarrow> f32 \<Rightarrow> f32" where
  "add_tenth negative x = add_double x negative 3602879701896397 (- 55)"

text \<open>One round of \<open>keyThread\<close> after \<open>getKey\<close>.\<close>

definition key_step :: "KeyCode \<Rightarrow> logger \<Rightarrow> logger result" where
  "key_step key_code s =
     (let p = lg_drive_control s; tv = dc_translational_velocity p; rv = dc_rotational_velocity p;
          drive = (\<lambda>tv rv. Inr (s\<lparr>lg_drive_control := set_velocities 1 tv rv p\<rparr>)) in
      if key_code = KeyEsc then Inr (s\<lparr>mode := Stop\<rparr>)
      else if key_code = KeyArrowUp then drive (add_tenth False tv) rv
      else if key_code = KeyArrowDown then drive (add_tenth True tv) rv
      else if key_code = KeyArrowRight then drive tv (add_tenth True rv)
      else if key_code = KeyArrowLeft then drive tv (add_tenth False rv)
      else stopRobot s)"

text \<open>The joystick: the arguments of \<open>main\<close> and the local variables of \<open>joyThread\<close>.\<close>

record js_event =
  je_value :: s16
  je_type :: u8
  je_number :: u8

record JoyArgs =
  tv_axis :: int
  rv_axis :: int
  boost_button :: int
  halt_button :: int
  tvscale :: f32
  rvscale :: f32

text \<open>\<open>max_tv\<close> and \<open>max_rv\<close> are 1; the scales are \<open>1 / 32767.0\<close> as a \<open>float\<close>.\<close>

definition joy_args :: JoyArgs where
  "joy_args = \<lparr>tv_axis = 1, rv_axis = 3, boost_button = 4, halt_button = 5,
     tvscale = f32_ratio 1 32767, rvscale = f32_ratio 1 32767\<rparr>"

record joystick =
  joy_tv :: f32
  joy_rv :: f32
  joy_gain :: f32

definition joy_start :: joystick where
  "joy_start = \<lparr>joy_tv = 0, joy_rv = 0, joy_gain = f32_ratio 1 1\<rparr>"

definition joy_update :: "JoyArgs \<Rightarrow> js_event \<Rightarrow> joystick \<Rightarrow> joystick" where
  "joy_update args e j =
     (let axis = uint (je_number e); value = sint (je_value e); type = uint (je_type e);
          j = (if axis = tv_axis args \<and> type = 2 then j\<lparr>joy_tv := f32_mul (f32_of_int (- value)) (tvscale args)\<rparr> else j);
          j = (if axis = rv_axis args \<and> type = 2 then j\<lparr>joy_rv := f32_mul (f32_of_int (- value)) (rvscale args)\<rparr> else j)
      in if axis = halt_button args \<and> type = 1 then j\<lparr>joy_tv := 0, joy_rv := 0\<rparr>
         else if axis = boost_button args \<and> type = 1
           then j\<lparr>joy_gain := if value \<noteq> 0 then f32_ratio 2 1 else f32_ratio 1 1\<rparr>
         else j)"

definition joy_step :: "JoyArgs \<Rightarrow> js_event \<Rightarrow> joystick \<times> logger \<Rightarrow> joystick \<times> logger" where
  "joy_step args e = (\<lambda>(j, s).
     let j = joy_update args e j in
     (j, s\<lparr>lg_drive_control := set_velocities 1 (f32_mul (joy_tv j) (joy_gain j)) (f32_mul (joy_rv j) (joy_gain j)) (lg_drive_control s)\<rparr>))"

section \<open>The packets as text\<close>

definition print_into :: "nat \<Rightarrow> pointer \<Rightarrow> string \<Rightarrow> logger \<Rightarrow> logger result" where
  "print_into pos p text s =
     (if text = [] then Inr s
      else if LOCAL_BUFFER_SIZE \<le> pos + length text then Inl OutOfBounds
      else Inr (s\<lparr>arrays := (arrays s)(p \<mapsto> take pos (case arrays s p of None \<Rightarrow> [] | Some t \<Rightarrow> t) @ text)\<rparr>))"

text \<open>\<open>OrazioClient_get\<close> into a packet and its text; the status is ignored.\<close>

definition get_text :: "u8 list \<Rightarrow> logger \<Rightarrow> (string \<times> u8 list \<times> logger) result" where
  "get_text packet s =
     bindR (OrazioClient_get packet (lg_client s)) (\<lambda>(_, packet, cl).
     bindR (Orazio_printPacket packet) (\<lambda>text. Inr (text, packet, s\<lparr>lg_client := cl\<rparr>)))"

fun gather_joints :: "nat list \<Rightarrow> nat \<Rightarrow> logger \<Rightarrow> logger result" where
  "gather_joints [] pos s = Inr s"
| "gather_joints (i # is) pos s =
     (if length (lg_joint_status s) \<le> i then Inl OutOfBounds
      else bindR (get_text (lg_joint_status s ! i) s) (\<lambda>(text, packet, s).
        bindR (print_into pos (joint_buffer, main_round s) text (s\<lparr>lg_joint_status := (lg_joint_status s)[i := packet]\<rparr>))
          (gather_joints is (pos + length text))))"

definition gather :: "nat \<Rightarrow> local_array \<Rightarrow> logger \<Rightarrow> logger result" where
  "gather joints a s =
     (let p = (a, main_round s) in
      case a of
        system_buffer \<Rightarrow> bindR (get_text (lg_system_status s) s) (\<lambda>(t, b, s). print_into 0 p t (s\<lparr>lg_system_status := b\<rparr>))
      | joint_buffer \<Rightarrow> gather_joints [0..<joints] 0 s
      | sonar_buffer \<Rightarrow> bindR (get_text (lg_sonar_status s) s) (\<lambda>(t, b, s). print_into 0 p t (s\<lparr>lg_sonar_status := b\<rparr>))
      | drive_buffer \<Rightarrow> bindR (get_text (lg_drive_status s) s) (\<lambda>(t, b, s). print_into 0 p t (s\<lparr>lg_drive_status := b\<rparr>))
      | nomefile \<Rightarrow> Inr s)"

text \<open>The type under which the array of the main loop is queued.\<close>

definition array_type :: "local_array \<Rightarrow> int" where
  "array_type a =
     (case a of system_buffer \<Rightarrow> GEN_DATA_SYSTEMPACKET | joint_buffer \<Rightarrow> GEN_DATA_JOINTPACKET
      | sonar_buffer \<Rightarrow> GEN_DATA_SONARPACKET | drive_buffer \<Rightarrow> GEN_DATA_DRIVEPACKET | nomefile \<Rightarrow> GEN_DATA_IMAGE)"

text \<open>Reading a string through a pointer: the array must still exist and have been written.\<close>

definition alive :: "pointer \<Rightarrow> 'a logger_scheme \<Rightarrow> bool" where
  "alive p s = (snd p = (if fst p = nomefile then camera_round s else main_round s))"

definition read_text :: "pointer \<Rightarrow> 'a logger_scheme \<Rightarrow> string result" where
  "read_text p s =
     (if alive p s then (case arrays s p of None \<Rightarrow> Inl OutOfBounds | Some t \<Rightarrow> Inr t) else Inl OutOfBounds)"

section \<open>The file\<close>

definition tab :: string where "tab = [CHR 0x09]"
definition newline_text :: string where "newline_text = [CHR 0x0A]"

definition type_name :: "int \<Rightarrow> string option" where
  "type_name type =
     (if type = GEN_DATA_IMAGE then Some ''FRAME''
      else if type = GEN_DATA_DRIVEPACKET then Some ''DRIVE''
      else if type = GEN_DATA_SONARPACKET then Some ''SONAR''
      else if type = GEN_DATA_SYSTEMPACKET then Some ''SYSTEM''
      else if type = GEN_DATA_JOINTPACKET then Some ''JOINT'' else None)"

definition line_of :: "int \<Rightarrow> string \<Rightarrow> string \<Rightarrow> string" where
  "line_of ts name text = fmt_0d 5 ts @ '';'' @ tab @ name @ '';'' @ tab @ text @ newline_text"

text \<open>What \<open>printfileThread\<close> does with the packet that it took out of the queue.\<close>

definition write_line :: "genData option \<Rightarrow> logger \<Rightarrow> logger result" where
  "write_line d s =
     (case d of
        None \<Rightarrow> Inl NullDeref
      | Some d \<Rightarrow>
          (case type_name (gd_type d) of
             None \<Rightarrow> Inr s
           | Some name \<Rightarrow> bindR (read_text (gd_data d) s) (\<lambda>t. Inr (s\<lparr>log_text := log_text s @ line_of (gd_ts d) name t\<rparr>))))"

section \<open>Start and end of the main thread\<close>

definition empty_packet :: "u8 \<Rightarrow> nat \<Rightarrow> u8 list" where
  "empty_packet type n = put_PacketHeader \<lparr>h_type = type, h_size = word_of_nat n, h_seq = 0\<rparr> @ replicate (n - sizeof_PacketHeader) 0"

definition joint_packet :: "nat \<Rightarrow> nat \<Rightarrow> u8 list" where
  "joint_packet joints i =
     (if i < joints
      then put_PacketIndexed \<lparr>pi_header = \<lparr>h_type = JOINT_STATUS_PACKET_ID, h_size = 0, h_seq = 0\<rparr>, pi_index = word_of_nat i\<rparr>
        @ replicate (sizeof_JointStatusPacket - sizeof_PacketIndexed) 0
      else replicate sizeof_JointStatusPacket 0)"

text \<open>The static variables before \<open>main\<close>; the client is not there yet.\<close>

definition logger_start :: "client \<Rightarrow> logger" where
  "logger_start cl = \<lparr>mode = Start, lg_client = cl, timestamp = 0,
     lg_drive_control = \<lparr>dc_header = \<lparr>h_type = DIFFERENTIAL_DRIVE_CONTROL_PACKET_ID,
        h_size = word_of_nat sizeof_DifferentialDriveControlPacket, h_seq = 1\<rparr>,
        dc_translational_velocity = 0, dc_rotational_velocity = 0\<rparr>,
     lg_system_params = empty_packet SYSTEM_PARAM_PACKET_ID sizeof_SystemParamPacket,
     lg_system_status = empty_packet SYSTEM_STATUS_PACKET_ID sizeof_SystemStatusPacket,
     lg_sonar_status = empty_packet SONAR_STATUS_PACKET_ID sizeof_SonarStatusPacket,
     lg_drive_status = empty_packet DIFFERENTIAL_DRIVE_STATUS_PACKET_ID sizeof_DifferentialDriveStatusPacket,
     lg_joint_status = replicate NUM_JOINTS_MAX (replicate sizeof_JointStatusPacket 0),
     lg_queue = createQueue, sem_empty = 0, sem_critical = 1, arrays = (\<lambda>_. None),
     main_round = 0, camera_round = 0, log_text = ''''\<rparr>"

definition sync_times :: "nat \<Rightarrow> nat \<Rightarrow> client \<Rightarrow> client result" where
  "sync_times n cycles = foldR (\<lambda>i cl. bindR (OrazioClient_sync cycles cl) (\<lambda>(_, cl). Inr cl)) [0..<n]"

text \<open>From the new client to the start of the threads; \<open>None\<close> when \<open>main\<close> returns or the program exits.\<close>

definition request_packets :: "logger \<Rightarrow> logger result" where
  "request_packets s =
     bindR (OrazioClient_get (lg_system_params s) (lg_client s)) (\<lambda>(_, b, cl).
     let b = put_SystemParamPacket ((fst (get_SystemParamPacket b))\<lparr>sp_periodic_packet_mask := 0xF\<rparr>) in
     bindR (OrazioClient_sendPacket b 10 cl) (\<lambda>(_, b, cl).
     bindR (OrazioClient_get b cl) (\<lambda>(_, b, cl).
       Inr (s\<lparr>lg_system_params := b, lg_client := cl\<rparr>))))"

definition configure_logger :: "client \<Rightarrow> (nat \<times> logger) option result" where
  "configure_logger cl =
     bindR (sync_times 50 1 cl) (\<lambda>cl.
     bindR (OrazioClient_readConfiguration 100 cl) (\<lambda>(r, cl).
       if r \<noteq> Returned Success then Inr None
       else
         let joints = unat (OrazioClient_numJoints cl); s = logger_start cl in
         if NUM_JOINTS_MAX < joints then Inl OutOfBounds
         else bindR (request_packets (s\<lparr>lg_joint_status := map (joint_packet joints) [0..<NUM_JOINTS_MAX]\<rparr>))
           (\<lambda>s. Inr (Some (joints, s)))))"

definition finish_logger :: "logger \<Rightarrow> logger result" where
  "finish_logger s =
     bindR (stopRobot s) (\<lambda>s. bindR (sync_times 10 10 (lg_client s)) (\<lambda>cl. Inr (s\<lparr>lg_client := cl\<rparr>)))"

end
