(* ===== verification/Webcam.thy ===== *)
theory Webcam
  imports Prelude
begin

text \<open>
  \<open>src/webcam_manager.h\<close>: the camera of the logger. What the driver answers to each \<open>ioctl\<close> and what it puts
  into the mapped buffer are inputs; the compression of the rows is the JPEG library's. The conversion from
  YUYV to RGB is shown to stay inside of its arrays and to compute every pixel, for even widths.
\<close>

section \<open>The device\<close>

text \<open>\<open>quit\<close> ends the program.\<close>

datatype 'a device_result = Quit string | Goes 'a

record camera =
  cam_fd :: int
  cam_width :: u32
  cam_height :: u32
  cam_buffer :: "u8 list"
  cam_frame :: "u8 list"
  cam_frame_length :: nat

definition camera_open :: "int \<Rightarrow> u32 \<Rightarrow> u32 \<Rightarrow> camera device_result" where
  "camera_open fd width height =
     (if fd = - 1 then Quit ''open''
      else Goes \<lparr>cam_fd = fd, cam_width = width, cam_height = height, cam_buffer = [], cam_frame = [], cam_frame_length = 0\<rparr>)"

text \<open>
  The answers: success of each call, the capabilities, the length of the driver's buffer and its contents
  when it is mapped (\<open>None\<close> for a failed \<open>mmap\<close>), and the fresh memory for the frame. The format that the
  driver grants is not looked at.
\<close>

record driver =
  querycap :: bool
  video_capture :: bool
  streaming :: bool
  s_fmt :: bool
  reqbufs :: bool
  querybuf :: bool
  mapped :: "u8 list option"
  fresh_frame :: "nat \<Rightarrow> u8 list"
  qbuf :: bool
  streamon :: bool

definition camera_init :: "driver \<Rightarrow> camera \<Rightarrow> camera device_result" where
  "camera_init d camera =
     (if \<not> querycap d then Quit ''VIDIOC_QUERYCAP''
      else if \<not> video_capture d then Quit ''no capture''
      else if \<not> streaming d then Quit ''no streaming''
      else if \<not> s_fmt d then Quit ''VIDIOC_S_FMT''
      else if \<not> reqbufs d then Quit ''VIDIOC_REQBUFS''
      else if \<not> querybuf d then Quit ''VIDIOC_QUERYBUF''
      else case mapped d of
          None \<Rightarrow> Quit ''mmap''
        | Some b \<Rightarrow>
            if \<not> qbuf d then Quit ''VIDIOC_QBUF''
            else if \<not> streamon d then Quit ''VIDIOC_STREAMON''
            else Goes (camera\<lparr>cam_buffer := b, cam_frame := fresh_frame d (length b)\<rparr>))"

text \<open>
  \<open>camera_frame\<close>: the driver's buffer now holds \<open>bytes\<close> of which \<open>used\<close> are valid (\<open>None\<close>: nothing to take out);
  \<open>again\<close> is the answer to giving the buffer back.
\<close>

definition camera_frame :: "(u8 list \<times> nat) option \<Rightarrow> bool \<Rightarrow> camera \<Rightarrow> (bool \<times> camera) result" where
  "camera_frame dqbuf again camera =
     (case dqbuf of
        None \<Rightarrow> Inr (False, camera)
      | Some (bytes, used) \<Rightarrow>
          let c = camera\<lparr>cam_buffer := bytes\<rparr> in
          if length bytes < used \<or> length (cam_frame c) < used then Inl OutOfBounds
          else Inr (again, c\<lparr>cam_frame := take used bytes @ drop used (cam_frame c), cam_frame_length := used\<rparr>))"

definition camera_stop :: "bool \<Rightarrow> int \<Rightarrow> camera \<Rightarrow> camera device_result" where
  "camera_stop streamoff close_result camera =
     (if \<not> streamoff then Quit ''VIDIOC_STREAMOFF''
      else if close_result = - 1 then Quit ''close''
      else Goes (camera\<lparr>cam_buffer := [], cam_frame := [], cam_frame_length := 0\<rparr>))"

section \<open>The conversion\<close>

definition minmax :: "int \<Rightarrow> int \<Rightarrow> int \<Rightarrow> int" where
  "minmax lo v hi = (if v < lo then lo else if hi < v then hi else v)"

text \<open>
  The three colours of a pixel from its luminance \<open>y\<close> and the colour bytes \<open>u\<close>, \<open>v\<close> that two pixels share.
  \<open>>> 8\<close> rounds down.
\<close>

definition pixel :: "u8 \<Rightarrow> u8 \<Rightarrow> u8 \<Rightarrow> u8 list" where
  "pixel y u v =
     (let y0 = uint y * 256; u0 = uint u - 128; v0 = uint v - 128 in
      map (\<lambda>c. word_of_int (minmax 0 (c div 256) 255))
        [y0 + 359 * v0, y0 + 88 * v0 - 183 * u0, y0 + 454 * u0])"

text \<open>
  One round of the inner loop: four bytes are read and six are written, \<open>index\<close> is the first pixel. An
  index behind either array is a fault.
\<close>

definition put_rgb :: "nat \<Rightarrow> u8 list \<Rightarrow> u8 list \<Rightarrow> u8 list" where
  "put_rgb k bs rgb = take k rgb @ bs @ drop (k + length bs) rgb"

definition pair_step :: "u8 list \<Rightarrow> nat \<Rightarrow> u8 list \<Rightarrow> u8 list result" where
  "pair_step yuyv index rgb =
     (if length yuyv \<le> index * 2 + 3 \<or> length rgb \<le> index * 3 + 5 then Inl OutOfBounds
      else
        let u = yuyv ! (index * 2 + 1); v = yuyv ! (index * 2 + 3) in
        Inr (put_rgb (index * 3) (pixel (yuyv ! (index * 2)) u v @ pixel (yuyv ! (index * 2 + 2)) u v) rgb))"

text \<open>The indices of the two loops, in their order: \<open>j\<close> goes in steps of two.\<close>

definition pair_indices :: "nat \<Rightarrow> nat \<Rightarrow> nat list" where
  "pair_indices width height =
     concat (map (\<lambda>i. map (\<lambda>k. i * width + 2 * k) [0..<(width + 1) div 2]) [0..<height])"

text \<open>The size of the result is computed in 32 bits.\<close>

definition yuyv2rgb :: "u8 list \<Rightarrow> u32 \<Rightarrow> u32 \<Rightarrow> u8 list result" where
  "yuyv2rgb yuyv width height =
     foldR (pair_step yuyv) (pair_indices (unat width) (unat height)) (replicate (unat (width * height * 3)) 0)"

text \<open>\<open>jpeg\<close> copies the picture row by row for the library.\<close>

definition jpeg_rows :: "u8 list \<Rightarrow> nat \<Rightarrow> nat \<Rightarrow> u8 list list" where
  "jpeg_rows rgb width height =
     map (\<lambda>i. concat (map (\<lambda>j. map (\<lambda>c. rgb ! ((i * width + j) * 3 + c)) [0..<3]) [0..<width])) [0..<height]"

section \<open>Even widths\<close>

lemma length_pixel [simp]: "length (pixel y u v) = 3"
  by (simp add: pixel_def Let_def)

lemma pair_indices_even:
  assumes "even w"
  shows "pair_indices w h = map (\<lambda>k. 2 * k) [0..<h * (w div 2)]"
proof (induction h)
  case (Suc h)
  have "(w + 1) div 2 = w div 2" and w: "w = 2 * (w div 2)" using assms by auto
  have "pair_indices w (Suc h) = pair_indices w h @ map (\<lambda>k. h * w + 2 * k) [0..<w div 2]"
    using \<open>(w + 1) div 2 = w div 2\<close> by (simp add: pair_indices_def)
  also have "map (\<lambda>k. h * w + 2 * k) [0..<w div 2] = map (\<lambda>k. 2 * k) (map (\<lambda>k. h * (w div 2) + k) [0..<w div 2])"
    using w by (simp add: algebra_simps)
  also have "map (\<lambda>k. h * (w div 2) + k) [0..<w div 2] = [h * (w div 2)..<Suc h * (w div 2)]"
    using map_add_upt[of "h * (w div 2)" "w div 2"] by (simp add: add.commute)
  finally show ?case
    using Suc upt_add_eq_append[of 0 "h * (w div 2)" "w div 2"] by (simp add: add.commute)
qed (simp add: pair_indices_def)

text \<open>What the pairs that were converted are, as one list.\<close>

definition pair_pixels :: "u8 list \<Rightarrow> nat \<Rightarrow> u8 list" where
  "pair_pixels yuyv k =
     pixel (yuyv ! (4 * k)) (yuyv ! (4 * k + 1)) (yuyv ! (4 * k + 3))
     @ pixel (yuyv ! (4 * k + 2)) (yuyv ! (4 * k + 1)) (yuyv ! (4 * k + 3))"

lemma length_pair_pixels [simp]: "length (pair_pixels yuyv k) = 6"
  by (simp add: pair_pixels_def)

lemma convert_pairs:
  assumes "n \<le> m" and "4 * m \<le> length yuyv"
  shows "foldR (pair_step yuyv) (map (\<lambda>k. 2 * k) [0..<n]) (replicate (6 * m) 0)
    = Inr (concat (map (pair_pixels yuyv) [0..<n]) @ replicate (6 * (m - n)) 0)"
  using assms(1)
proof (induction n)
  case (Suc n)
  let ?rgb = "concat (map (pair_pixels yuyv) [0..<n]) @ replicate (6 * (m - n)) 0"
  have len: "length (concat (map (pair_pixels yuyv) [0..<n])) = 6 * n"
    by (simp add: length_concat o_def sum_list_triv)
  have "put_rgb (6 * n) (pair_pixels yuyv n) ?rgb
      = concat (map (pair_pixels yuyv) [0..<Suc n]) @ replicate (6 * (m - Suc n)) 0"
    using len Suc.prems by (simp add: put_rgb_def)
  moreover have "pair_step yuyv (2 * n) ?rgb = Inr (put_rgb (6 * n) (pair_pixels yuyv n) ?rgb)"
    using len Suc.prems assms(2) by (simp add: pair_step_def pair_pixels_def Let_def)
  ultimately show ?case using Suc by (simp add: foldR_append)
qed simp

lemma yuyv2rgb_even:
  assumes "even w" and "2 * (w * h) \<le> length yuyv" and "w * h * 3 < 2 ^ 32" and "unat width = w" and "unat height = h"
  shows "yuyv2rgb yuyv width height = Inr (concat (map (pair_pixels yuyv) [0..<h * (w div 2)]))"
proof -
  have m: "w * h = 2 * (h * (w div 2))" using assms(1) by auto
  have "width * height * 3 = word_of_nat (w * h * 3)" using assms(4,5) by auto
  moreover have "unat (word_of_nat x :: u32) = x" if "x < 2 ^ 32" for x using that by (simp add: unat_of_nat)
  ultimately have "unat (width * height * 3) = w * h * 3" using assms(3) by metis
  then have "unat (width * height * 3) = 6 * (h * (w div 2))" using m by simp
  moreover have "4 * (h * (w div 2)) \<le> length yuyv" using assms(2) m by simp
  ultimately show ?thesis
    using convert_pairs[of "h * (w div 2)" "h * (w div 2)" yuyv] assms(4,5) by (simp add: yuyv2rgb_def pair_indices_even[OF assms(1)])
qed

lemma nth_concat_blocks:
  assumes "\<And>k. length (f k) = m" and "i < n" and "j < m"
  shows "concat (map f [0..<n]) ! (i * m + j) = f i ! j"
  using assms(2)
proof (induction n)
  case (Suc n)
  have len: "length (concat (map f [0..<n])) = n * m" using assms(1) by (simp add: length_concat o_def sum_list_triv)
  show ?case
  proof (cases "i = n")
    case True
    then show ?thesis using len assms(3) by (simp add: nth_append)
  next
    case False
    then have "i < n" using Suc.prems by simp
    then have "(i + 1) * m \<le> n * m" by (intro mult_le_mono1) simp
    then have "i * m + j < n * m" using assms(3) by simp
    then show ?thesis using Suc.IH[OF \<open>i < n\<close>] len by (simp add: nth_append)
  qed
qed simp

text \<open>The pixel \<open>p\<close> of a frame.\<close>

definition frame_pixel :: "u8 list \<Rightarrow> nat \<Rightarrow> u8 list" where
  "frame_pixel yuyv p = pixel (yuyv ! (2 * p)) (yuyv ! (4 * (p div 2) + 1)) (yuyv ! (4 * (p div 2) + 3))"

lemma pair_pixels_frame: "pair_pixels yuyv k = frame_pixel yuyv (2 * k) @ frame_pixel yuyv (2 * k + 1)"
  by (simp add: pair_pixels_def frame_pixel_def algebra_simps)

lemma pairs_frame: "concat (map (pair_pixels yuyv) [0..<n]) = concat (map (frame_pixel yuyv) [0..<2 * n])"
  by (induction n) (simp_all add: pair_pixels_frame)

lemma concat_upt_blocks: "concat (map (\<lambda>i. concat (map f [i * m..<i * m + m])) [0..<n]) = concat (map f [0..<n * m])"
proof (induction n)
  case (Suc n)
  then show ?case using upt_add_eq_append[of 0 "n * m" m] by (simp add: add.commute)
qed simp

lemma jpeg_rows_all:
  assumes "length rgb = w * h * 3"
  shows "concat (jpeg_rows rgb w h) = rgb"
proof -
  let ?p = "\<lambda>p. map (\<lambda>c. rgb ! (p * 3 + c)) [0..<3]" and ?b = "\<lambda>k. [rgb ! k]"
  have block: "?p p = concat (map ?b [p * 3..<p * 3 + 3])" for p
    by (simp add: upt_rec numeral_3_eq_3)
  have row: "concat (map (\<lambda>j. ?p (i * w + j)) [0..<w]) = concat (map ?p [i * w..<i * w + w])" for i
  proof -
    have "map (\<lambda>j. ?p (i * w + j)) [0..<w] = map ?p (map (\<lambda>j. j + i * w) [0..<w])" by (simp add: add.commute o_def del: upt_Suc)
    then show ?thesis by (simp only: map_add_upt add.commute[of w])
  qed
  have "concat (jpeg_rows rgb w h) = concat (map ?p [0..<h * w])"
    by (simp only: jpeg_rows_def row concat_upt_blocks)
  also have "\<dots> = concat (map ?b [0..<h * w * 3])" by (simp only: block concat_upt_blocks)
  also have "\<dots> = rgb" using assms map_nth[of rgb] by (simp add: concat_map_singleton mult.commute)
  finally show ?thesis .
qed

section \<open>Properties\<close>

text \<open>
  C36. For a picture of even width whose frame is long enough, the conversion stays inside of both arrays, the result has
  three bytes for every pixel, pixel \<open>p\<close> is computed from its own luminance and the colour of its pair, and
  the rows that are handed to the JPEG library are the pixels in order.
\<close>

theorem yuyv2rgb_pixels:
  assumes "even (unat width)" and "2 * (unat width * unat height) \<le> length yuyv" and "unat width * unat height * 3 < 2 ^ 32"
  shows "\<exists>rgb. yuyv2rgb yuyv width height = Inr rgb \<and> length rgb = unat width * unat height * 3
    \<and> (\<forall>p < unat width * unat height. \<forall>c < 3. rgb ! (p * 3 + c) = frame_pixel yuyv p ! c)
    \<and> concat (jpeg_rows rgb (unat width) (unat height)) = rgb"
proof -
  let ?n = "unat width * unat height"
  have n: "2 * (unat height * (unat width div 2)) = ?n" using assms(1) by auto
  let ?rgb = "concat (map (frame_pixel yuyv) [0..<?n])"
  have r: "yuyv2rgb yuyv width height = Inr ?rgb"
    using yuyv2rgb_even[OF assms refl refl] pairs_frame[of yuyv "unat height * (unat width div 2)"] n by simp
  have f: "length (frame_pixel yuyv k) = 3" for k by (simp add: frame_pixel_def)
  have l: "length ?rgb = ?n * 3" using f by (simp add: length_concat o_def sum_list_triv)
  then show ?thesis using r nth_concat_blocks[of "frame_pixel yuyv", OF f] jpeg_rows_all[OF l] by blast
qed

text \<open>
  For an odd width the last pair of the picture reaches behind a frame of two bytes per pixel, so the conversion
  reads outside of the array.
\<close>

theorem odd_width_overruns:
  assumes "odd (unat width)" and "0 < unat height" and "length yuyv = 2 * (unat width * unat height)"
  shows "yuyv2rgb yuyv width height = Inl OutOfBounds"
proof -
  let ?w = "unat width" and ?h = "unat height"
  obtain h where h: "?h = Suc h" using assms(2) by (cases ?h) auto
  obtain k where k: "?w = 2 * k + 1" using assms(1) by (elim oddE)
  obtain xs where xs: "pair_indices ?w ?h = xs @ [h * ?w + 2 * k]"
    using h k by (simp add: pair_indices_def)
  have last: "pair_step yuyv (h * ?w + 2 * k) rgb = Inl OutOfBounds" for rgb
    using assms(3) h k by (simp add: pair_step_def algebra_simps)
  have "foldR (pair_step yuyv) is rgb = Inl e \<Longrightarrow> e = OutOfBounds" for "is" rgb e
    by (induction "is" arbitrary: rgb) (auto simp: bindR_def pair_step_def Let_def split: sum.splits if_splits)
  then show ?thesis using last
    by (cases "foldR (pair_step yuyv) xs (replicate (unat (width * height * 3)) 0)") (auto simp: yuyv2rgb_def xs foldR_append)
qed

theorem yuyv2rgb_pixels_witness:
  "\<exists>rgb. yuyv2rgb [100, 90, 200, 240] 2 1 = Inr rgb \<and> length rgb = 6 \<and> rgb ! 3 = frame_pixel [100, 90, 200, 240] 1 ! 0"
proof -
  obtain rgb where r: "yuyv2rgb [100, 90, 200, 240] 2 1 = Inr rgb" "length rgb = 6"
    "\<forall>p < 2. \<forall>c < 3. rgb ! (p * 3 + c) = frame_pixel [100, 90, 200, 240] p ! c"
    using yuyv2rgb_pixels[of 2 1 "[100, 90, 200, 240]"] by auto
  from r(3)[rule_format, of 1 0] r(1,2) show ?thesis by auto
qed

theorem odd_width_overruns_witness: "yuyv2rgb (replicate 12 0) 3 2 = Inl OutOfBounds"
  by (rule odd_width_overruns) simp_all

end
