(* ===== verification/LoggerThreads.thy ===== *)
theory LoggerThreads
  imports Logger Webcam
begin

text \<open>
  \<open>src/orazio_logger.c\<close>, the threads: the main loop, the camera, the writer of the file, the keyboard and
  the joystick, as steps that interleave. One step is one semaphore operation, one operation on the
  queue, one round of the keyboard or joystick loop, or one call of the client, whose own mutexes make it
  atomic. \<open>isempty\<close> runs without the lock, as in the code; it reads two words that \<open>enqueue\<close> writes
  last, so it sees the queue before or after.
\<close>

section \<open>Where the threads are\<close>

text \<open>In \<open>addPacket\<close> and in its copy in \<open>getpictureThread\<close>.\<close>

datatype add_pc = AddWait | AddEnqueue | AddPostEmpty | AddPostCritical

text \<open>
  The main loop: \<open>MNew\<close> is at the test of the sequence number of the command, \<open>MSend\<close> at its sending and \<open>MClear\<close> at the
  assignment that marks it as sent. A key or joystick event in between is marked as sent as well.
\<close>

datatype main_pc = MTest | MNew | MSend | MClear | MSync | MGather local_array | MAdd local_array add_pc | MTail | MJoin | MDone

datatype camera_pc = CTest | CFrame | CName int | CAdd int add_pc | CSleep | CDone

datatype writer_pc =
    WTest | WWaitEmpty | WWaitCritical | WDequeue | WPostCritical "genData option" | WWrite "genData option" | WDone

datatype loop_pc = LTest | LRead | LDone

record threads = logger +
  main_at :: main_pc
  camera_at :: camera_pc
  writer_at :: writer_pc
  key_at :: loop_pc
  joy_at :: loop_pc
  joy_state :: joystick
  joints :: nat
  cam :: camera
  pictures :: "(string \<times> u8 list list) list"

definition on_logger :: "(logger \<Rightarrow> logger result) \<Rightarrow> threads \<Rightarrow> threads result" where
  "on_logger f s = bindR (f (logger.truncate s)) (\<lambda>l. Inr (logger.extend l (threads.fields
     (main_at s) (camera_at s) (writer_at s) (key_at s) (joy_at s) (joy_state s) (joints s) (cam s) (pictures s))))"

section \<open>Semaphores\<close>

text \<open>\<open>None\<close>: the thread is blocked.\<close>

definition wait_critical :: "threads \<Rightarrow> threads option" where
  "wait_critical s = (case sem_critical s of 0 \<Rightarrow> None | Suc n \<Rightarrow> Some (s\<lparr>sem_critical := n\<rparr>))"

definition wait_empty :: "threads \<Rightarrow> threads option" where
  "wait_empty s = (case sem_empty s of 0 \<Rightarrow> None | Suc n \<Rightarrow> Some (s\<lparr>sem_empty := n\<rparr>))"

text \<open>The statements of \<open>addPacket\<close>: the next one, or \<open>None\<close> at the end.\<close>

definition add_step :: "genData \<Rightarrow> add_pc \<Rightarrow> threads \<Rightarrow> (add_pc option \<times> threads) result option" where
  "add_step d p s =
     (case p of
        AddWait \<Rightarrow> map_option (\<lambda>s. Inr (Some AddEnqueue, s)) (wait_critical s)
      | AddEnqueue \<Rightarrow> Some (bindR (enqueue d (lg_queue s)) (\<lambda>q. Inr (Some AddPostEmpty, s\<lparr>lg_queue := q\<rparr>)))
      | AddPostEmpty \<Rightarrow> Some (Inr (Some AddPostCritical, s\<lparr>sem_empty := sem_empty s + 1\<rparr>))
      | AddPostCritical \<Rightarrow> Some (Inr (None, s\<lparr>sem_critical := sem_critical s + 1\<rparr>)))"

section \<open>The main loop\<close>

text \<open>The arrays are printed and queued in this order; \<open>None\<close> after the last one.\<close>

definition next_array :: "local_array \<Rightarrow> local_array option" where
  "next_array a =
     (case a of system_buffer \<Rightarrow> Some joint_buffer | joint_buffer \<Rightarrow> Some sonar_buffer
      | sonar_buffer \<Rightarrow> Some drive_buffer | _ \<Rightarrow> None)"

definition main_packet :: "local_array \<Rightarrow> threads \<Rightarrow> genData" where
  "main_packet a s = \<lparr>gd_type = array_type a, gd_ts = timestamp s, gd_data = (a, main_round s)\<rparr>"

definition send_command :: "logger \<Rightarrow> logger result" where
  "send_command s = bindR (send_drive_control s) (\<lambda>(_, s). Inr s)"

definition clear_command :: "logger \<Rightarrow> logger result" where
  "clear_command s =
     Inr (s\<lparr>lg_drive_control := (lg_drive_control s)\<lparr>dc_header := (dc_header (lg_drive_control s))\<lparr>h_seq := 0\<rparr>\<rparr>\<rparr>)"

definition sync_client :: "logger \<Rightarrow> logger result" where
  "sync_client s = bindR (OrazioClient_sync 1 (lg_client s)) (\<lambda>(_, cl). Inr (s\<lparr>lg_client := cl\<rparr>))"

text \<open>The end of the iteration prints \<open>drive_buffer\<close> and counts; the arrays of the iteration are gone.\<close>

definition end_round :: "threads \<Rightarrow> threads result" where
  "end_round s =
     bindR (read_text (drive_buffer, main_round s) s) (\<lambda>_.
       if timestamp s = INT_MAX then Inl OutOfBounds
       else Inr (s\<lparr>timestamp := timestamp s + 1, main_round := Suc (main_round s), main_at := MTest\<rparr>))"

definition main_runs :: "threads \<Rightarrow> threads result option" where
  "main_runs s =
     (case main_at s of
        MTest \<Rightarrow> Some (Inr (s\<lparr>main_at := if mode s = Stop then MJoin else MNew\<rparr>))
      | MNew \<Rightarrow> Some (Inr (s\<lparr>main_at := if h_seq (dc_header (lg_drive_control s)) \<noteq> 0 then MSend else MSync\<rparr>))
      | MSend \<Rightarrow> Some (bindR (on_logger send_command s) (\<lambda>s. Inr (s\<lparr>main_at := MClear\<rparr>)))
      | MClear \<Rightarrow> Some (bindR (on_logger clear_command s) (\<lambda>s. Inr (s\<lparr>main_at := MSync\<rparr>)))
      | MSync \<Rightarrow> Some (bindR (on_logger sync_client s) (\<lambda>s. Inr (s\<lparr>main_at := MGather system_buffer\<rparr>)))
      | MGather a \<Rightarrow> Some (bindR (on_logger (gather (joints s) a) s) (\<lambda>s. Inr (s\<lparr>main_at := MAdd a AddWait\<rparr>)))
      | MAdd a p \<Rightarrow> map_option (\<lambda>r. bindR r (\<lambda>(p', s). Inr (s\<lparr>main_at :=
            (case p' of Some p' \<Rightarrow> MAdd a p' | None \<Rightarrow> (case next_array a of Some b \<Rightarrow> MGather b | None \<Rightarrow> MTail))\<rparr>)))
          (add_step (main_packet a s) p s)
      | MTail \<Rightarrow> Some (end_round s)
      | MJoin \<Rightarrow> if key_at s = LDone \<and> joy_at s = LDone \<and> writer_at s = WDone \<and> camera_at s = CDone
          then Some (bindR (on_logger finish_logger s) (\<lambda>s. Inr (s\<lparr>main_at := MDone\<rparr>))) else None
      | MDone \<Rightarrow> None)"

section \<open>The camera\<close>

text \<open>
  Each round takes a frame, of which the driver's answer is an input, converts it and hands its rows to
  the JPEG library for the file of that name. \<open>ts\<close> is read before the name is printed, which reads
  \<open>timestamp\<close> again.
\<close>

type_synonym frame_answer = "(u8 list \<times> nat) option \<times> bool"

definition picture_name :: "int \<Rightarrow> string" where
  "picture_name ts = ''output_frames/'' @ fmt_d ts @ ''.jpg''"

definition camera_packet :: "int \<Rightarrow> threads \<Rightarrow> genData" where
  "camera_packet ts s = \<lparr>gd_type = GEN_DATA_IMAGE, gd_ts = ts, gd_data = (nomefile, camera_round s)\<rparr>"

definition take_frame :: "frame_answer \<Rightarrow> threads \<Rightarrow> threads result" where
  "take_frame a s = bindR (camera_frame (fst a) (snd a) (cam s)) (\<lambda>(_, c). Inr (s\<lparr>cam := c, camera_at := CName (timestamp s)\<rparr>))"

definition save_picture :: "int \<Rightarrow> threads \<Rightarrow> threads result" where
  "save_picture ts s =
     (let c = cam s; name = picture_name (timestamp s) in
      bindR (yuyv2rgb (cam_frame c) (cam_width c) (cam_height c)) (\<lambda>rgb.
        Inr (s\<lparr>arrays := (arrays s)((nomefile, camera_round s) \<mapsto> name),
               pictures := pictures s @ [(name, jpeg_rows rgb (unat (cam_width c)) (unat (cam_height c)))],
               camera_at := CAdd ts AddWait\<rparr>)))"

definition camera_runs :: "frame_answer \<Rightarrow> threads \<Rightarrow> threads result option" where
  "camera_runs a s =
     (case camera_at s of
        CTest \<Rightarrow> Some (Inr (s\<lparr>camera_at := if mode s = Stop then CDone else CFrame\<rparr>))
      | CFrame \<Rightarrow> Some (take_frame a s)
      | CName ts \<Rightarrow> Some (save_picture ts s)
      | CAdd ts p \<Rightarrow> map_option (\<lambda>r. bindR r (\<lambda>(p', s). Inr (s\<lparr>camera_at :=
            (case p' of Some p' \<Rightarrow> CAdd ts p' | None \<Rightarrow> CSleep)\<rparr>)))
          (add_step (camera_packet ts s) p s)
      | CSleep \<Rightarrow> Some (Inr (s\<lparr>camera_round := Suc (camera_round s), camera_at := CTest\<rparr>))
      | CDone \<Rightarrow> None)"

section \<open>The writer\<close>

definition writer_runs :: "threads \<Rightarrow> threads result option" where
  "writer_runs s =
     (case writer_at s of
        WTest \<Rightarrow> Some (Inr (s\<lparr>writer_at := if mode s = Stop \<and> isempty (lg_queue s) then WDone else WWaitEmpty\<rparr>))
      | WWaitEmpty \<Rightarrow> map_option (\<lambda>s. Inr (s\<lparr>writer_at := WWaitCritical\<rparr>)) (wait_empty s)
      | WWaitCritical \<Rightarrow> map_option (\<lambda>s. Inr (s\<lparr>writer_at := WDequeue\<rparr>)) (wait_critical s)
      | WDequeue \<Rightarrow> Some (bindR (dequeue (lg_queue s)) (\<lambda>(d, q). Inr (s\<lparr>lg_queue := q, writer_at := WPostCritical d\<rparr>)))
      | WPostCritical d \<Rightarrow> Some (Inr (s\<lparr>sem_critical := sem_critical s + 1, writer_at := WWrite d\<rparr>))
      | WWrite d \<Rightarrow> Some (bindR (on_logger (write_line d) s) (\<lambda>s. Inr (s\<lparr>writer_at := WTest\<rparr>)))
      | WDone \<Rightarrow> None)"

section \<open>Keyboard and joystick\<close>

definition key_runs :: "u8 list option \<Rightarrow> threads \<Rightarrow> threads result option" where
  "key_runs received s =
     (case key_at s of
        LTest \<Rightarrow> Some (Inr (s\<lparr>key_at := if mode s = Stop then LDone else LRead\<rparr>))
      | LRead \<Rightarrow> Some (bindR (getKey received) (\<lambda>k. bindR (on_logger (key_step k) s) (\<lambda>s. Inr (s\<lparr>key_at := LTest\<rparr>))))
      | LDone \<Rightarrow> None)"

text \<open>\<open>None\<close>: \<open>read\<close> found no event.\<close>

definition joy_runs :: "js_event option \<Rightarrow> threads \<Rightarrow> threads result option" where
  "joy_runs event s =
     (case joy_at s of
        LTest \<Rightarrow> Some (Inr (s\<lparr>joy_at := if mode s = Stop then LDone else LRead\<rparr>))
      | LRead \<Rightarrow> (case event of
            None \<Rightarrow> Some (Inr (s\<lparr>joy_at := LTest\<rparr>))
          | Some e \<Rightarrow>
              (case joy_step joy_args e (joy_state s, logger.truncate s) of (j, l) \<Rightarrow>
                 Some (Inr (s\<lparr>lg_drive_control := lg_drive_control l, joy_state := j, joy_at := LTest\<rparr>))))
      | LDone \<Rightarrow> None)"

section \<open>Executions\<close>

datatype thread_action = MainRuns | CameraRuns frame_answer | WriterRuns | KeyRuns "u8 list option" | JoyRuns "js_event option"
  | LineSends "read_result list"

definition thread_step :: "thread_action \<Rightarrow> threads \<Rightarrow> threads result option" where
  "thread_step a s =
     (case a of
        MainRuns \<Rightarrow> main_runs s
      | CameraRuns f \<Rightarrow> camera_runs f s
      | WriterRuns \<Rightarrow> writer_runs s
      | KeyRuns bs \<Rightarrow> key_runs bs s
      | JoyRuns e \<Rightarrow> joy_runs e s
      | LineSends rs \<Rightarrow> Some (Inr (s\<lparr>lg_client := (lg_client s)\<lparr>incoming := incoming (lg_client s) @ rs\<rparr>\<rparr>)))"

text \<open>When \<open>main\<close> has created the threads; \<open>joy_open\<close>: the joystick was found, \<open>c\<close>: the initialised camera.\<close>

definition threads_start :: "nat \<Rightarrow> bool \<Rightarrow> camera \<Rightarrow> logger \<Rightarrow> threads" where
  "threads_start n joy_open c l = logger.extend l
     (threads.fields MTest CTest WTest LTest (if joy_open then LTest else LDone) joy_start n c [])"

inductive thread_reach :: "threads \<Rightarrow> threads \<Rightarrow> bool" for s0 where
  start: "thread_reach s0 s0"
| step: "thread_reach s0 s \<Longrightarrow> thread_step a s = Some (Inr t) \<Longrightarrow> thread_reach s0 t"

fun run_threads :: "thread_action list \<Rightarrow> threads \<Rightarrow> threads result option" where
  "run_threads [] s = Some (Inr s)"
| "run_threads (a # as) s =
     (case thread_step a s of
        None \<Rightarrow> None | Some (Inl e) \<Rightarrow> Some (Inl e) | Some (Inr t) \<Rightarrow> run_threads as t)"

end
