(* ===== verification/LoggerInv.thy ===== *)
theory LoggerInv
  imports LoggerThreads
begin

text \<open>
  The invariants of the threads of the logger: who holds \<open>critical\<close>, how \<open>empty\<close> counts the queue, which
  arrays the queued packets point into, and what the file holds.
\<close>

section \<open>What the calls leave alone\<close>

text \<open>The variables that the threads share through the queue, and the rounds.\<close>

definition shared :: "'a logger_scheme \<Rightarrow> genData queue \<times> nat \<times> nat \<times> nat \<times> nat" where
  "shared s = (lg_queue s, sem_empty s, sem_critical s, main_round s, camera_round s)"

definition places :: "threads \<Rightarrow> main_pc \<times> camera_pc \<times> writer_pc \<times> loop_pc \<times> loop_pc \<times> nat \<times> camera" where
  "places s = (main_at s, camera_at s, writer_at s, key_at s, joy_at s, joints s, cam s)"

lemma on_logger_Inr:
  assumes "on_logger f s = Inr t"
  obtains l where "f (logger.truncate s) = Inr l" and "shared t = shared l" and "arrays t = arrays l"
    and "log_text t = log_text l" and "timestamp t = timestamp l" and "mode t = mode l" and "lg_client t = lg_client l"
    and "lg_drive_control t = lg_drive_control l" and "places t = places s" and "joy_state t = joy_state s"
  using assms
  by (auto simp: on_logger_def logger.defs threads.defs shared_def places_def elim!: bindR_InrE)

lemma truncate_sels [simp]:
  "shared (logger.truncate s) = shared s" "arrays (logger.truncate s) = arrays s" "log_text (logger.truncate s) = log_text s"
  "timestamp (logger.truncate s) = timestamp s" "mode (logger.truncate s) = mode s" "lg_client (logger.truncate s) = lg_client s"
  "lg_drive_control (logger.truncate s) = lg_drive_control s" "main_round (logger.truncate s) = main_round s"
  "camera_round (logger.truncate s) = camera_round s" "lg_queue (logger.truncate s) = lg_queue s"
  "sem_empty (logger.truncate s) = sem_empty s" "sem_critical (logger.truncate s) = sem_critical s"
  by (simp_all add: logger.defs shared_def)

text \<open>Only the client and the drive command change.\<close>

definition quiet :: "logger \<Rightarrow> logger \<Rightarrow> bool" where
  "quiet s s' \<longleftrightarrow> shared s' = shared s \<and> arrays s' = arrays s \<and> log_text s' = log_text s \<and> timestamp s' = timestamp s"

lemma send_drive_control_quiet: "send_drive_control s = Inr (st, s') \<Longrightarrow> quiet s s'"
  by (auto simp: send_drive_control_def quiet_def shared_def elim!: bindR_InrE)

lemma stopRobot_quiet:
  assumes "stopRobot s = Inr s'"
  shows "quiet s s'"
proof -
  obtain st where "send_drive_control (s\<lparr>lg_drive_control := set_velocities 0 0 0 (lg_drive_control s)\<rparr>) = Inr (st, s')"
    using assms by (auto simp: stopRobot_def elim!: bindR_InrE)
  from send_drive_control_quiet[OF this] show ?thesis by (simp add: quiet_def shared_def)
qed

lemma send_command_quiet: "send_command s = Inr s' \<Longrightarrow> quiet s s'"
  by (auto simp: send_command_def elim!: bindR_InrE dest: send_drive_control_quiet)

lemma clear_command_quiet: "clear_command s = Inr s' \<Longrightarrow> quiet s s'"
  by (auto simp: clear_command_def quiet_def shared_def)

lemma sync_client_quiet: "sync_client s = Inr s' \<Longrightarrow> quiet s s'"
  by (auto simp: sync_client_def quiet_def shared_def elim!: bindR_InrE)

lemma finish_logger_quiet:
  assumes "finish_logger s = Inr s'"
  shows "quiet s s'"
proof -
  obtain u where "stopRobot s = Inr u" and u: "shared s' = shared u" "arrays s' = arrays u"
      "log_text s' = log_text u" "timestamp s' = timestamp u"
    using assms by (auto simp: finish_logger_def shared_def elim!: bindR_InrE)
  from stopRobot_quiet[OF this(1)] u show ?thesis by (simp add: quiet_def)
qed

lemma key_step_quiet: "key_step k s = Inr s' \<Longrightarrow> quiet s s'"
  using stopRobot_quiet[of s s']
  by (auto simp: key_step_def Let_def quiet_def shared_def split: if_splits)

text \<open>Collecting an array of the main loop writes only that one.\<close>

definition writes_only :: "pointer \<Rightarrow> logger \<Rightarrow> logger \<Rightarrow> bool" where
  "writes_only p s s' \<longleftrightarrow> shared s' = shared s \<and> log_text s' = log_text s \<and> timestamp s' = timestamp s \<and> (\<forall>p'. p' \<noteq> p \<longrightarrow> arrays s' p' = arrays s p')"

lemma writes_only_trans: "writes_only p s t \<Longrightarrow> writes_only p t u \<Longrightarrow> writes_only p s u"
  by (simp add: writes_only_def)

lemma print_into_writes: "print_into pos p text s = Inr s' \<Longrightarrow> writes_only p s s'"
  by (auto simp: print_into_def writes_only_def shared_def split: if_splits)

lemma get_text_client: "get_text b s = Inr (t, b', s') \<Longrightarrow> \<exists>cl. s' = s\<lparr>lg_client := cl\<rparr>"
  by (auto simp: get_text_def elim!: bindR_InrE)

lemma gather_joints_writes:
  "gather_joints is pos s = Inr s' \<Longrightarrow> writes_only (joint_buffer, main_round s) s s'"
proof (induction "is" pos s rule: gather_joints.induct)
  case (1 pos s)
  then show ?case by (simp add: writes_only_def)
next
  case (2 i "is" pos s)
  from 2(2) obtain t b u v where g: "get_text (lg_joint_status s ! i) s = Inr (t, b, u)" and i: "i < length (lg_joint_status s)"
    and p: "print_into pos (joint_buffer, main_round u) t (u\<lparr>lg_joint_status := (lg_joint_status u)[i := b]\<rparr>) = Inr v"
    and r: "gather_joints is (pos + length t) v = Inr s'"
    by (auto split: if_splits elim!: bindR_InrE)
  obtain cl where u: "u = s\<lparr>lg_client := cl\<rparr>" using get_text_client[OF g] by blast
  have v: "writes_only (joint_buffer, main_round s) s v"
    using print_into_writes[OF p] u by (auto simp: writes_only_def shared_def)
  then have "main_round v = main_round s" by (simp add: writes_only_def shared_def)
  moreover have "writes_only (joint_buffer, main_round v) v s'" using "2.IH"[OF _ r] i by auto
  ultimately show ?case using writes_only_trans[OF v] by simp
qed

lemma gather_writes:
  assumes "gather n a s = Inr s'"
  shows "writes_only (a, main_round s) s s'"
proof -
  have one: "writes_only (x, main_round s) s s'"
    if "get_text b s = Inr (t, b', u)" and "print_into 0 (x, main_round s) t v = Inr s'"
      and "shared v = shared u" "log_text v = log_text u" "timestamp v = timestamp u" "arrays v = arrays u" for x b t b' u v
    using get_text_client[OF that(1)] print_into_writes[OF that(2)] that(3-6) by (auto simp: writes_only_def shared_def)
  show ?thesis
  proof (cases a)
    case joint_buffer
    then show ?thesis using assms gather_joints_writes by (auto simp: gather_def)
  next
    case nomefile
    then show ?thesis using assms by (simp add: gather_def writes_only_def)
  qed (use assms in \<open>auto simp: gather_def elim!: bindR_InrE dest: one simp: shared_def\<close>)
qed

lemma write_line_keeps: "write_line d s = Inr s' \<Longrightarrow> shared s' = shared s \<and> arrays s' = arrays s \<and> timestamp s' = timestamp s"
  by (auto simp: write_line_def shared_def split: option.splits elim!: bindR_InrE)

section \<open>Semaphores and the queue\<close>

fun main_add :: "main_pc \<Rightarrow> add_pc option" where
  "main_add (MAdd a p) = Some p"
| "main_add _ = None"

fun camera_add :: "camera_pc \<Rightarrow> add_pc option" where
  "camera_add (CAdd ts p) = Some p"
| "camera_add _ = None"

definition holds :: "add_pc option \<Rightarrow> nat" where
  "holds p = of_bool (p = Some AddEnqueue \<or> p = Some AddPostEmpty \<or> p = Some AddPostCritical)"

definition owes :: "add_pc option \<Rightarrow> nat" where
  "owes p = of_bool (p = Some AddPostEmpty)"

fun writer_holds :: "writer_pc \<Rightarrow> nat" where
  "writer_holds WDequeue = 1"
| "writer_holds (WPostCritical d) = 1"
| "writer_holds _ = 0"

fun writer_claims :: "writer_pc \<Rightarrow> nat" where
  "writer_claims WWaitCritical = 1"
| "writer_claims WDequeue = 1"
| "writer_claims _ = 0"

text \<open>
  One thread at a time holds \<open>critical\<close>. \<open>empty\<close> counts the queued packets, less the one that the writer has
  already claimed, and before the producer of the last one has posted it.
\<close>

definition sem_inv :: "threads \<Rightarrow> bool" where
  "sem_inv s \<longleftrightarrow> queue_ok (lg_queue s)
     \<and> sem_critical s + holds (main_add (main_at s)) + holds (camera_add (camera_at s)) + writer_holds (writer_at s) = 1
     \<and> length (queue_items (lg_queue s)) =
         sem_empty s + owes (main_add (main_at s)) + owes (camera_add (camera_at s)) + writer_claims (writer_at s)"

lemma add_step_effect:
  assumes "add_step d p s = Some (Inr (p', s'))" and "queue_ok (lg_queue s)"
  shows "queue_ok (lg_queue s')"
    and "sem_critical s' + holds p' = sem_critical s + holds (Some p)"
    and "length (queue_items (lg_queue s')) + sem_empty s + owes (Some p) = length (queue_items (lg_queue s)) + sem_empty s' + owes p'"
    and "queue_history (lg_queue s') = queue_history (lg_queue s) @ (if p = AddEnqueue then [d] else [])"
    and "taken (lg_queue s') = taken (lg_queue s)"
    and "p' = (case p of AddWait \<Rightarrow> Some AddEnqueue | AddEnqueue \<Rightarrow> Some AddPostEmpty | AddPostEmpty \<Rightarrow> Some AddPostCritical | AddPostCritical \<Rightarrow> None)"
    and "\<exists>q e c. s' = s\<lparr>lg_queue := q, sem_empty := e, sem_critical := c\<rparr>"
proof -
  obtain q' where q: "enqueue d (lg_queue s) = Inr q'" "queue_ok q'" "queue_history q' = queue_history (lg_queue s) @ [d]"
    "taken q' = taken (lg_queue s)" by (rule enqueue_ok[OF assms(2), of d])
  then have i: "queue_items q' = queue_items (lg_queue s) @ [d]" using items_enqueue[OF assms(2)] by blast
  note defs = add_step_def wait_critical_def holds_def owes_def
  show "queue_ok (lg_queue s')" "sem_critical s' + holds p' = sem_critical s + holds (Some p)"
    "length (queue_items (lg_queue s')) + sem_empty s + owes (Some p) = length (queue_items (lg_queue s)) + sem_empty s' + owes p'"
    "queue_history (lg_queue s') = queue_history (lg_queue s) @ (if p = AddEnqueue then [d] else [])"
    "taken (lg_queue s') = taken (lg_queue s)"
    "p' = (case p of AddWait \<Rightarrow> Some AddEnqueue | AddEnqueue \<Rightarrow> Some AddPostEmpty | AddPostEmpty \<Rightarrow> Some AddPostCritical | AddPostCritical \<Rightarrow> None)"
    using assms q i by (cases p; auto simp: defs split: nat.splits)+
  show "\<exists>q e c. s' = s\<lparr>lg_queue := q, sem_empty := e, sem_critical := c\<rparr>"
    using assms(1) q
    by (intro exI[of _ "lg_queue s'"] exI[of _ "sem_empty s'"] exI[of _ "sem_critical s'"])
       (cases p; auto simp: defs split: nat.splits)
qed

text \<open>The other statements: none of them touches the queue or the semaphores.\<close>

definition main_move :: "threads \<Rightarrow> threads \<Rightarrow> bool" where
  "main_move s t \<longleftrightarrow>
     lg_queue t = lg_queue s \<and> sem_empty t = sem_empty s \<and> sem_critical t = sem_critical s \<and> camera_round t = camera_round s
     \<and> log_text t = log_text s \<and> camera_at t = camera_at s \<and> writer_at t = writer_at s \<and> cam t = cam s
     \<and> (case main_at s of
          MTest \<Rightarrow> (main_at t = MJoin \<or> main_at t = MNew) \<and> arrays t = arrays s \<and> main_round t = main_round s \<and> timestamp t = timestamp s
        | MNew \<Rightarrow> (main_at t = MSend \<or> main_at t = MSync) \<and> arrays t = arrays s \<and> main_round t = main_round s \<and> timestamp t = timestamp s
        | MSend \<Rightarrow> main_at t = MClear \<and> arrays t = arrays s \<and> main_round t = main_round s \<and> timestamp t = timestamp s
        | MClear \<Rightarrow> main_at t = MSync \<and> arrays t = arrays s \<and> main_round t = main_round s \<and> timestamp t = timestamp s
        | MSync \<Rightarrow> main_at t = MGather system_buffer \<and> arrays t = arrays s \<and> main_round t = main_round s \<and> timestamp t = timestamp s
        | MGather a \<Rightarrow> main_at t = MAdd a AddWait \<and> main_round t = main_round s \<and> timestamp t = timestamp s
            \<and> (\<forall>p. p \<noteq> (a, main_round s) \<longrightarrow> arrays t p = arrays s p)
        | MAdd a p \<Rightarrow> False
        | MTail \<Rightarrow> main_at t = MTest \<and> arrays t = arrays s \<and> main_round t = Suc (main_round s) \<and> timestamp t = timestamp s + 1
        | MJoin \<Rightarrow> main_at t = MDone \<and> arrays t = arrays s \<and> main_round t = main_round s \<and> timestamp t = timestamp s
        | MDone \<Rightarrow> False)"

lemma on_logger_quiet:
  assumes "on_logger f s = Inr t" and "\<And>l. f (logger.truncate s) = Inr l \<Longrightarrow> quiet (logger.truncate s) l"
  shows "shared t = shared s \<and> arrays t = arrays s \<and> log_text t = log_text s \<and> timestamp t = timestamp s \<and> places t = places s"
  using on_logger_Inr[OF assms(1)] assms(2) by (metis quiet_def truncate_sels(1,2,3,4))

lemma main_runs_other:
  assumes "main_runs s = Some (Inr t)" and "\<And>a p. main_at s \<noteq> MAdd a p"
  shows "main_move s t"
proof (cases "main_at s")
  case MTest
  then show ?thesis using assms(1) by (auto simp: main_runs_def main_move_def split: if_splits)
next
  case MNew
  then show ?thesis using assms(1) by (auto simp: main_runs_def main_move_def split: if_splits)
next
  case MSend
  then show ?thesis using assms(1)
    by (auto simp: main_runs_def main_move_def shared_def places_def elim!: bindR_InrE dest!: on_logger_quiet[OF _ send_command_quiet])
next
  case MClear
  then show ?thesis using assms(1)
    by (auto simp: main_runs_def main_move_def shared_def places_def elim!: bindR_InrE dest!: on_logger_quiet[OF _ clear_command_quiet])
next
  case MSync
  then show ?thesis using assms(1)
    by (auto simp: main_runs_def main_move_def shared_def places_def elim!: bindR_InrE dest!: on_logger_quiet[OF _ sync_client_quiet])
next
  case (MGather a)
  then obtain u where u: "on_logger (gather (joints s) a) s = Inr u" "t = u\<lparr>main_at := MAdd a AddWait\<rparr>"
    using assms(1) by (auto simp: main_runs_def elim!: bindR_InrE)
  show ?thesis
    by (rule on_logger_Inr[OF u(1)]) (use MGather u(2) in \<open>auto simp: main_move_def shared_def places_def writes_only_def dest!: gather_writes\<close>)
next
  case (MAdd a p)
  then show ?thesis using assms(2) by simp
next
  case MTail
  then show ?thesis using assms(1)
    by (auto simp: main_runs_def main_move_def end_round_def split: if_splits elim!: bindR_InrE)
next
  case MJoin
  then show ?thesis using assms(1)
    by (auto simp: main_runs_def main_move_def shared_def places_def split: if_splits elim!: bindR_InrE
        dest!: on_logger_quiet[OF _ finish_logger_quiet])
next
  case MDone
  then show ?thesis using assms(1) by (simp add: main_runs_def)
qed

lemma main_runs_add:
  assumes "main_runs s = Some (Inr t)" and "main_at s = MAdd a p"
  obtains p' u where "add_step (main_packet a s) p s = Some (Inr (p', u))"
    and "t = u\<lparr>main_at := (case p' of Some p' \<Rightarrow> MAdd a p' | None \<Rightarrow> (case next_array a of Some b \<Rightarrow> MGather b | None \<Rightarrow> MTail))\<rparr>"
proof -
  obtain r where r: "add_step (main_packet a s) p s = Some r"
    "bindR r (\<lambda>(p', s). Inr (s\<lparr>main_at :=
            (case p' of Some p' \<Rightarrow> MAdd a p' | None \<Rightarrow> (case next_array a of Some b \<Rightarrow> MGather b | None \<Rightarrow> MTail))\<rparr>)) = Inr t"
    using assms by (auto simp: main_runs_def)
  then show ?thesis by (auto elim!: bindR_InrE intro: that)
qed

lemma camera_runs_add:
  assumes "camera_runs f s = Some (Inr t)" and "camera_at s = CAdd ts p"
  obtains p' u where "add_step (camera_packet ts s) p s = Some (Inr (p', u))"
    and "t = u\<lparr>camera_at := (case p' of Some p' \<Rightarrow> CAdd ts p' | None \<Rightarrow> CSleep)\<rparr>"
proof -
  obtain r where r: "add_step (camera_packet ts s) p s = Some r"
    "bindR r (\<lambda>(p', s). Inr (s\<lparr>camera_at := (case p' of Some p' \<Rightarrow> CAdd ts p' | None \<Rightarrow> CSleep)\<rparr>)) = Inr t"
    using assms by (auto simp: camera_runs_def)
  then show ?thesis by (auto elim!: bindR_InrE intro: that)
qed

definition camera_move :: "threads \<Rightarrow> threads \<Rightarrow> bool" where
  "camera_move s t \<longleftrightarrow>
     lg_queue t = lg_queue s \<and> sem_empty t = sem_empty s \<and> sem_critical t = sem_critical s \<and> main_round t = main_round s
     \<and> log_text t = log_text s \<and> timestamp t = timestamp s \<and> main_at t = main_at s \<and> writer_at t = writer_at s
     \<and> (\<forall>p. p \<noteq> (nomefile, camera_round s) \<longrightarrow> arrays t p = arrays s p)
     \<and> (case camera_at s of
          CTest \<Rightarrow> (camera_at t = CDone \<or> camera_at t = CFrame) \<and> camera_round t = camera_round s
        | CFrame \<Rightarrow> camera_at t = CName (timestamp s) \<and> camera_round t = camera_round s
        | CName ts \<Rightarrow> camera_at t = CAdd ts AddWait \<and> camera_round t = camera_round s
        | CSleep \<Rightarrow> camera_at t = CTest \<and> camera_round t = Suc (camera_round s) \<and> arrays t = arrays s
        | _ \<Rightarrow> False)"

lemma camera_runs_other:
  "camera_runs f s = Some (Inr t) \<Longrightarrow> (\<And>ts p. camera_at s \<noteq> CAdd ts p) \<Longrightarrow> camera_move s t"
  by (cases "camera_at s") (auto simp: camera_runs_def camera_move_def take_frame_def save_picture_def Let_def split: if_splits elim!: bindR_InrE)

text \<open>What the keyboard, the joystick and the line may do.\<close>

definition idle_move :: "threads \<Rightarrow> threads \<Rightarrow> bool" where
  "idle_move s t \<longleftrightarrow> shared t = shared s \<and> arrays t = arrays s \<and> log_text t = log_text s \<and> timestamp t = timestamp s
     \<and> main_at t = main_at s \<and> camera_at t = camera_at s \<and> writer_at t = writer_at s \<and> cam t = cam s"

lemma key_runs_idle: "key_runs bs s = Some (Inr t) \<Longrightarrow> idle_move s t"
  by (cases "key_at s") (auto simp: key_runs_def idle_move_def shared_def places_def elim!: bindR_InrE
      dest!: on_logger_quiet[OF _ key_step_quiet])

lemma joy_runs_idle: "joy_runs e s = Some (Inr t) \<Longrightarrow> idle_move s t"
  by (cases "joy_at s") (auto simp: joy_runs_def idle_move_def shared_def split: option.splits prod.splits)

lemma line_idle: "thread_step (LineSends rs) s = Some (Inr t) \<Longrightarrow> idle_move s t"
  by (auto simp: thread_step_def idle_move_def shared_def)

section \<open>Mutual exclusion and counting\<close>

lemma queue_items_Cons:
  assumes "queue_ok q" and "0 < length (queue_items q)"
  obtains x xs where "queue_items q = x # xs" and "queue_history q ! taken q = x" and "taken q < length (queue_history q)"
proof -
  obtain x xs where x: "queue_items q = x # xs" using assms(2) by (cases "queue_items q") auto
  then have "taken q < length (queue_history q)" by (cases "taken q < length (queue_history q)") (auto simp: queue_items_def)
  moreover from this have "queue_history q ! taken q = x" using x by (simp add: queue_items_def nth_via_drop)
  ultimately show ?thesis using that x by blast
qed

lemma sem_inv_add:
  assumes "sem_inv s" and "main_runs s = Some (Inr t)" and "main_at s = MAdd a p"
  shows "sem_inv t"
proof -
  obtain p' u where u: "add_step (main_packet a s) p s = Some (Inr (p', u))"
    and t: "t = u\<lparr>main_at := (case p' of Some p' \<Rightarrow> MAdd a p' | None \<Rightarrow> (case next_array a of Some b \<Rightarrow> MGather b | None \<Rightarrow> MTail))\<rparr>"
    by (rule main_runs_add[OF assms(2,3)])
  have q: "queue_ok (lg_queue s)" using assms(1) by (simp add: sem_inv_def)
  note e = add_step_effect[OF u q]
  obtain q e' c where ue: "u = s\<lparr>lg_queue := q, sem_empty := e', sem_critical := c\<rparr>" using e(7) by blast
  have "main_add (main_at t) = p'" using t by (cases p'; cases "next_array a") simp_all
  then show ?thesis using assms(1,3) e(1,2,3) t ue by (simp add: sem_inv_def)
qed

lemma sem_inv_camera_add:
  assumes "sem_inv s" and "camera_runs f s = Some (Inr t)" and "camera_at s = CAdd ts p"
  shows "sem_inv t"
proof -
  obtain p' u where u: "add_step (camera_packet ts s) p s = Some (Inr (p', u))"
    and t: "t = u\<lparr>camera_at := (case p' of Some p' \<Rightarrow> CAdd ts p' | None \<Rightarrow> CSleep)\<rparr>"
    by (rule camera_runs_add[OF assms(2,3)])
  have q: "queue_ok (lg_queue s)" using assms(1) by (simp add: sem_inv_def)
  note e = add_step_effect[OF u q]
  obtain q e' c where ue: "u = s\<lparr>lg_queue := q, sem_empty := e', sem_critical := c\<rparr>" using e(7) by blast
  have "camera_add (camera_at t) = p'" using t by (cases p') simp_all
  then show ?thesis using assms(1,3) e(1,2,3) t ue by (simp add: sem_inv_def)
qed

text \<open>The statements of the writer.\<close>

definition writer_move :: "threads \<Rightarrow> threads \<Rightarrow> bool" where
  "writer_move s t \<longleftrightarrow>
     main_round t = main_round s \<and> camera_round t = camera_round s \<and> arrays t = arrays s \<and> timestamp t = timestamp s
     \<and> main_at t = main_at s \<and> camera_at t = camera_at s \<and> cam t = cam s
     \<and> (case writer_at s of
          WTest \<Rightarrow> (writer_at t = WDone \<or> writer_at t = WWaitEmpty) \<and> lg_queue t = lg_queue s \<and> sem_empty t = sem_empty s
            \<and> sem_critical t = sem_critical s \<and> log_text t = log_text s
        | WWaitEmpty \<Rightarrow> writer_at t = WWaitCritical \<and> lg_queue t = lg_queue s \<and> sem_empty s = Suc (sem_empty t)
            \<and> sem_critical t = sem_critical s \<and> log_text t = log_text s
        | WWaitCritical \<Rightarrow> writer_at t = WDequeue \<and> lg_queue t = lg_queue s \<and> sem_empty t = sem_empty s
            \<and> sem_critical s = Suc (sem_critical t) \<and> log_text t = log_text s
        | WDequeue \<Rightarrow> (\<exists>d. dequeue (lg_queue s) = Inr (d, lg_queue t) \<and> writer_at t = WPostCritical d) \<and> sem_empty t = sem_empty s
            \<and> sem_critical t = sem_critical s \<and> log_text t = log_text s
        | WPostCritical d \<Rightarrow> writer_at t = WWrite d \<and> lg_queue t = lg_queue s \<and> sem_empty t = sem_empty s
            \<and> sem_critical t = Suc (sem_critical s) \<and> log_text t = log_text s
        | WWrite d \<Rightarrow> writer_at t = WTest \<and> lg_queue t = lg_queue s \<and> sem_empty t = sem_empty s \<and> sem_critical t = sem_critical s
            \<and> (\<exists>l. write_line d (logger.truncate s) = Inr l \<and> log_text t = log_text l)
        | WDone \<Rightarrow> False)"

lemma writer_runs_move:
  assumes "writer_runs s = Some (Inr t)"
  shows "writer_move s t"
proof (cases "writer_at s")
  case (WWrite d)
  then obtain u where u: "on_logger (write_line d) s = Inr u" "t = u\<lparr>writer_at := WTest\<rparr>"
    using assms by (auto simp: writer_runs_def elim!: bindR_InrE)
  obtain l where l: "write_line d (logger.truncate s) = Inr l" "shared u = shared l" "arrays u = arrays l" "log_text u = log_text l"
    "timestamp u = timestamp l" "places u = places s" by (rule on_logger_Inr[OF u(1)])
  with u WWrite write_line_keeps[OF l(1)] show ?thesis by (simp add: writer_move_def shared_def places_def)
qed (use assms in \<open>auto simp: writer_runs_def writer_move_def wait_empty_def wait_critical_def split: nat.splits if_splits elim!: bindR_InrE\<close>)

lemma sem_inv_writer:
  assumes "sem_inv s" and m: "writer_move s t"
  shows "sem_inv t"
proof (cases "writer_at s")
  case WDequeue
  have q: "queue_ok (lg_queue s)" and "0 < length (queue_items (lg_queue s))"
    using assms(1) WDequeue by (simp_all add: sem_inv_def)
  then obtain x xs where x: "queue_items (lg_queue s) = x # xs" by (rule queue_items_Cons)
  from m WDequeue obtain d where d: "dequeue (lg_queue s) = Inr (d, lg_queue t)" "writer_at t = WPostCritical d"
    by (auto simp: writer_move_def)
  have "queue_ok (lg_queue t)" using dequeue_ok[OF q x] d(1) by auto
  moreover have "queue_items (lg_queue t) = xs" by (rule items_dequeue[OF q x d(1)])
  ultimately show ?thesis using assms WDequeue d(2) x by (simp add: sem_inv_def writer_move_def)
qed (use assms in \<open>auto simp: sem_inv_def writer_move_def\<close>)

lemma sem_inv_step:
  assumes "sem_inv s" and "thread_step a s = Some (Inr t)"
  shows "sem_inv t"
proof -
  have idle: "sem_inv t" if "idle_move s t" using that assms(1) by (simp add: idle_move_def sem_inv_def shared_def)
  show ?thesis
  proof (cases a)
    case MainRuns
    then have m: "main_runs s = Some (Inr t)" using assms(2) by (simp add: thread_step_def)
    show ?thesis
    proof (cases "\<exists>b p. main_at s = MAdd b p")
      case True
      then show ?thesis using sem_inv_add[OF assms(1) m] by blast
    next
      case False
      then have "main_move s t" using main_runs_other[OF m] by blast
      then show ?thesis using assms(1) False
        by (cases "main_at s") (auto simp: main_move_def sem_inv_def holds_def owes_def)
    qed
  next
    case (CameraRuns f)
    then have m: "camera_runs f s = Some (Inr t)" using assms(2) by (simp add: thread_step_def)
    show ?thesis
    proof (cases "\<exists>b p. camera_at s = CAdd b p")
      case True
      then show ?thesis using sem_inv_camera_add[OF assms(1) m] by blast
    next
      case False
      then have "camera_move s t" using camera_runs_other[OF m] by blast
      then show ?thesis using assms(1) False
        by (cases "camera_at s") (auto simp: camera_move_def sem_inv_def holds_def owes_def)
    qed
  next
    case WriterRuns
    then show ?thesis using assms(2) sem_inv_writer[OF assms(1) writer_runs_move] by (simp add: thread_step_def)
  next
    case (KeyRuns bs)
    then show ?thesis using assms(2) idle key_runs_idle by (simp add: thread_step_def)
  next
    case (JoyRuns e)
    then show ?thesis using assms(2) idle joy_runs_idle by (simp add: thread_step_def)
  next
    case (LineSends rs)
    then show ?thesis using assms(2) idle line_idle by simp
  qed
qed

end
