(* ===== verification/LoggerLog.thy ===== *)
theory LoggerLog
  imports LoggerInv
begin

text \<open>
  The invariants about what is logged: which packets were queued, in which order, that their arrays keep
  their text, and that the file is the text of the packets that were taken out.
\<close>

section \<open>The queued packets\<close>

definition history :: "threads \<Rightarrow> genData list" where
  "history s = queue_history (lg_queue s)"

definition main_arrays :: "local_array list" where
  "main_arrays = [system_buffer, joint_buffer, sonar_buffer, drive_buffer]"

definition round_packet :: "nat \<Rightarrow> local_array \<Rightarrow> genData" where
  "round_packet r a = \<lparr>gd_type = array_type a, gd_ts = int r, gd_data = (a, r)\<rparr>"

definition from_main :: "genData \<Rightarrow> bool" where
  "from_main d = (fst (gd_data d) \<noteq> nomefile)"

text \<open>The arrays that the main loop has queued in its current iteration.\<close>

fun queued_arrays :: "main_pc \<Rightarrow> local_array list" where
  "queued_arrays (MGather a) = takeWhile (\<lambda>b. b \<noteq> a) main_arrays"
| "queued_arrays (MAdd a p) = takeWhile (\<lambda>b. b \<noteq> a) main_arrays @ (if p = AddPostEmpty \<or> p = AddPostCritical then [a] else [])"
| "queued_arrays MTail = main_arrays"
| "queued_arrays _ = []"

fun main_array :: "main_pc \<Rightarrow> bool" where
  "main_array (MGather a) = (a \<noteq> nomefile)"
| "main_array (MAdd a p) = (a \<noteq> nomefile)"
| "main_array _ = True"

fun camera_queued :: "camera_pc \<Rightarrow> bool" where
  "camera_queued (CAdd ts p) = (p = AddPostEmpty \<or> p = AddPostCritical)"
| "camera_queued CSleep = True"
| "camera_queued _ = False"

definition main_log :: "threads \<Rightarrow> genData list" where
  "main_log s = concat (map (\<lambda>r. map (round_packet r) main_arrays) [0..<main_round s])
     @ map (round_packet (main_round s)) (queued_arrays (main_at s))"

definition camera_log :: "threads \<Rightarrow> pointer list" where
  "camera_log s = map (Pair nomefile) [0..<camera_round s + of_bool (camera_queued (camera_at s))]"

definition order_inv :: "threads \<Rightarrow> bool" where
  "order_inv s \<longleftrightarrow> main_array (main_at s) \<and> timestamp s = int (main_round s)
     \<and> filter from_main (history s) = main_log s
     \<and> map gd_data (filter (\<lambda>d. \<not> from_main d) (history s)) = camera_log s
     \<and> (\<forall>d \<in> set (history s). \<not> from_main d \<longrightarrow> gd_type d = GEN_DATA_IMAGE)"

lemma queued_not_current: "main_at s = MGather a \<Longrightarrow> a \<notin> set (queued_arrays (main_at s))"
  by (auto dest: set_takeWhileD)

lemma order_inv_main:
  assumes o: "order_inv s" and m: "main_move s t"
  shows "order_inv t"
proof -
  have h: "history t = history s" and c: "camera_log t = camera_log s" using m by (simp_all add: main_move_def history_def camera_log_def)
  have "main_array (main_at t) \<and> timestamp t = int (main_round t) \<and> main_log t = main_log s"
    using o m by (cases "main_at s") (auto simp: order_inv_def main_move_def main_log_def main_arrays_def)
  then show ?thesis using o h c by (simp add: order_inv_def)
qed

lemma order_inv_add:
  assumes o: "order_inv s" and q: "queue_ok (lg_queue s)" and m: "main_runs s = Some (Inr t)" and a: "main_at s = MAdd a p"
  shows "order_inv t"
proof -
  obtain p' u where u: "add_step (main_packet a s) p s = Some (Inr (p', u))"
    and t: "t = u\<lparr>main_at := (case p' of Some p' \<Rightarrow> MAdd a p' | None \<Rightarrow> (case next_array a of Some b \<Rightarrow> MGather b | None \<Rightarrow> MTail))\<rparr>"
    by (rule main_runs_add[OF m a])
  note e = add_step_effect[OF u q]
  have an: "a \<noteq> nomefile" using o a by (simp add: order_inv_def)
  have d: "main_packet a s = round_packet (main_round s) a" "from_main (main_packet a s)"
    using o an by (simp_all add: main_packet_def round_packet_def order_inv_def from_main_def)
  have k: "main_round t = main_round s" "timestamp t = timestamp s" "camera_round t = camera_round s" "camera_at t = camera_at s"
    using e(7) t by auto
  have h: "history t = history s @ (if p = AddEnqueue then [round_packet (main_round s) a] else [])"
    using e(4) t d(1) by (simp add: history_def)
  have "main_array (main_at t)" "queued_arrays (main_at t) = queued_arrays (main_at s) @ (if p = AddEnqueue then [a] else [])"
    using a an t e(6) by (cases a; cases p; simp add: next_array_def main_arrays_def)+
  then show ?thesis using o h k d by (auto simp: order_inv_def main_log_def camera_log_def)
qed

lemma order_inv_camera:
  assumes o: "order_inv s" and m: "camera_move s t"
  shows "order_inv t"
proof -
  have h: "history t = history s" and c: "main_log t = main_log s" using m by (simp_all add: camera_move_def history_def main_log_def)
  have "camera_log t = camera_log s"
    using m by (cases "camera_at s") (auto simp: camera_move_def camera_log_def)
  then show ?thesis using o h c m by (simp add: order_inv_def camera_move_def)
qed

lemma order_inv_camera_add:
  assumes o: "order_inv s" and q: "queue_ok (lg_queue s)" and m: "camera_runs f s = Some (Inr t)" and a: "camera_at s = CAdd ts p"
  shows "order_inv t"
proof -
  obtain p' u where u: "add_step (camera_packet ts s) p s = Some (Inr (p', u))"
    and t: "t = u\<lparr>camera_at := (case p' of Some p' \<Rightarrow> CAdd ts p' | None \<Rightarrow> CSleep)\<rparr>"
    by (rule camera_runs_add[OF m a])
  note e = add_step_effect[OF u q]
  have d: "\<not> from_main (camera_packet ts s)" "gd_data (camera_packet ts s) = (nomefile, camera_round s)" "gd_type (camera_packet ts s) = GEN_DATA_IMAGE"
    by (simp_all add: camera_packet_def from_main_def)
  have k: "main_round t = main_round s" "timestamp t = timestamp s" "camera_round t = camera_round s" "main_at t = main_at s"
    using e(7) t by auto
  have h: "history t = history s @ (if p = AddEnqueue then [camera_packet ts s] else [])"
    using e(4) t by (simp add: history_def)
  have c: "camera_log t = camera_log s @ (if p = AddEnqueue then [(nomefile, camera_round s)] else [])"
    using a t e(6) k by (cases p) (simp_all add: camera_log_def)
  then have "filter from_main (history t) = filter from_main (history s)"
    "map gd_data (filter (\<lambda>d. \<not> from_main d) (history t)) = map gd_data (filter (\<lambda>d. \<not> from_main d) (history s)) @ (if p = AddEnqueue then [(nomefile, camera_round s)] else [])"
    "\<forall>d \<in> set (history t). d \<in> set (history s) \<or> gd_type d = GEN_DATA_IMAGE"
    using h d by auto
  moreover have "main_log t = main_log s" using k by (simp add: main_log_def)
  ultimately show ?thesis using o k c by (auto simp: order_inv_def)
qed

lemma order_inv_same:
  "order_inv s \<Longrightarrow> history t = history s \<Longrightarrow> main_round t = main_round s \<Longrightarrow> camera_round t = camera_round s
    \<Longrightarrow> timestamp t = timestamp s \<Longrightarrow> main_at t = main_at s \<Longrightarrow> camera_at t = camera_at s \<Longrightarrow> order_inv t"
  by (simp add: order_inv_def main_log_def camera_log_def)

lemma writer_history:
  assumes "sem_inv s" and "writer_move s t"
  shows "history t = history s"
proof (cases "writer_at s = WDequeue")
  case True
  have q: "queue_ok (lg_queue s)" and "0 < length (queue_items (lg_queue s))"
    using assms(1) True by (simp_all add: sem_inv_def)
  then obtain x xs where x: "queue_items (lg_queue s) = x # xs" by (rule queue_items_Cons)
  obtain d where "dequeue (lg_queue s) = Inr (d, lg_queue t)" using assms(2) True by (auto simp: writer_move_def)
  with dequeue_ok[OF q x] show ?thesis by (metis Inr_inject history_def prod.inject)
next
  case False
  then have "lg_queue t = lg_queue s" using assms(2) by (cases "writer_at s") (simp_all add: writer_move_def)
  then show ?thesis by (simp add: history_def)
qed

section \<open>The file\<close>

text \<open>The line of a packet, from the array it points to.\<close>

definition logged_line :: "threads \<Rightarrow> genData \<Rightarrow> string" where
  "logged_line s d = (case type_name (gd_type d) of
     None \<Rightarrow> []
     | Some name \<Rightarrow> (case arrays s (gd_data d) of None \<Rightarrow> [] | Some t \<Rightarrow> line_of (gd_ts d) name t))"

fun in_hand :: "writer_pc \<Rightarrow> genData option option" where
  "in_hand (WPostCritical d) = Some d"
| "in_hand (WWrite d) = Some d"
| "in_hand _ = None"

text \<open>How many packets have been written.\<close>

definition lines_written :: "threads \<Rightarrow> nat" where
  "lines_written s = taken (lg_queue s) - of_bool (in_hand (writer_at s) \<noteq> None)"

definition log_inv :: "threads \<Rightarrow> bool" where
  "log_inv s \<longleftrightarrow> taken (lg_queue s) \<le> length (history s)
     \<and> log_text s = concat (map (logged_line s) (take (lines_written s) (history s)))
     \<and> (\<forall>d. in_hand (writer_at s) = Some d \<longrightarrow> 0 < taken (lg_queue s) \<and> d = Some (history s ! (taken (lg_queue s) - 1)))"

lemma log_inv_keep:
  assumes i: "log_inv s" and h: "history t = history s @ ds" and k: "taken (lg_queue t) = taken (lg_queue s)"
    and w: "writer_at t = writer_at s" and o: "log_text t = log_text s"
    and a: "\<And>d. d \<in> set (history s) \<Longrightarrow> arrays t (gd_data d) = arrays s (gd_data d)"
  shows "log_inv t"
proof -
  have n: "lines_written t = lines_written s" using k w by (simp add: lines_written_def)
  have l: "taken (lg_queue s) \<le> length (history s)" using i by (simp add: log_inv_def)
  then have "lines_written s \<le> length (history s)" by (simp add: lines_written_def)
  then have "take (lines_written t) (history t) = take (lines_written s) (history s)" using n h by simp
  moreover have "map (logged_line t) (take (lines_written s) (history s)) = map (logged_line s) (take (lines_written s) (history s))"
    using a by (auto simp: logged_line_def dest!: in_set_takeD split: option.splits)
  moreover have "log_text t = concat (map (logged_line s) (take (lines_written s) (history s)))"
    using i o by (simp add: log_inv_def)
  ultimately have "log_text t = concat (map (logged_line t) (take (lines_written t) (history t)))" by metis
  moreover have "history t ! (taken (lg_queue s) - 1) = history s ! (taken (lg_queue s) - 1)" if "0 < taken (lg_queue s)"
    using h l that by (simp add: nth_append)
  ultimately show ?thesis using i h k w l by (auto simp: log_inv_def)
qed

text \<open>The pointers of the queued packets are not written any more.\<close>

lemma main_pointers:
  assumes "order_inv s" and "d \<in> set (history s)" and "from_main d"
  shows "snd (gd_data d) < main_round s \<or> snd (gd_data d) = main_round s \<and> fst (gd_data d) \<in> set (queued_arrays (main_at s))"
proof -
  have "d \<in> set (filter from_main (history s))" using assms(2,3) by simp
  then have "d \<in> set (main_log s)" using assms(1) by (simp only: order_inv_def)
  then show ?thesis by (auto simp: main_log_def round_packet_def)
qed

lemma camera_pointers:
  assumes "order_inv s" and "d \<in> set (history s)" and "\<not> from_main d"
  shows "fst (gd_data d) = nomefile"
    and "snd (gd_data d) < camera_round s \<or> snd (gd_data d) = camera_round s \<and> camera_queued (camera_at s)"
proof -
  have "gd_data d \<in> set (map gd_data (filter (\<lambda>d. \<not> from_main d) (history s)))" using assms(2,3) by simp
  then have "gd_data d \<in> set (camera_log s)" using assms(1) by (simp only: order_inv_def)
  then show "snd (gd_data d) < camera_round s \<or> snd (gd_data d) = camera_round s \<and> camera_queued (camera_at s)"
    by (cases "camera_queued (camera_at s)") (auto simp: camera_log_def)
  show "fst (gd_data d) = nomefile" using assms(3) by (simp add: from_main_def)
qed

lemma main_keeps_arrays:
  assumes "order_inv s" and "main_move s t" and "d \<in> set (history s)"
  shows "arrays t (gd_data d) = arrays s (gd_data d)"
proof (cases "\<exists>a. main_at s = MGather a")
  case True
  then obtain a where a: "main_at s = MGather a" by blast
  then have "a \<noteq> nomefile" using assms(1) by (auto simp: order_inv_def)
  then have "gd_data d \<noteq> (a, main_round s)"
    using main_pointers[OF assms(1,3)] camera_pointers(1)[OF assms(1,3)] queued_not_current[OF a] by (cases "from_main d") auto
  moreover have "\<forall>p. p \<noteq> (a, main_round s) \<longrightarrow> arrays t p = arrays s p" using a assms(2) by (simp add: main_move_def)
  ultimately show ?thesis by blast
next
  case False
  then show ?thesis using assms(2) by (cases "main_at s") (simp_all add: main_move_def)
qed

lemma camera_keeps_arrays:
  assumes "order_inv s" and "camera_move s t" and "d \<in> set (history s)"
  shows "arrays t (gd_data d) = arrays s (gd_data d)"
proof (cases "camera_queued (camera_at s)")
  case True
  then show ?thesis using assms(2) by (cases "camera_at s") (simp_all add: camera_move_def)
next
  case False
  then have "gd_data d \<noteq> (nomefile, camera_round s)"
    using camera_pointers[OF assms(1,3)] by (cases "from_main d") (auto simp: from_main_def)
  moreover have "\<forall>p. p \<noteq> (nomefile, camera_round s) \<longrightarrow> arrays t p = arrays s p" using assms(2) by (simp add: camera_move_def)
  ultimately show ?thesis by blast
qed

lemma add_keeps_log:
  assumes "log_inv s" and "queue_ok (lg_queue s)" and u: "add_step d p s = Some (Inr (p', u))"
    and "lg_queue t = lg_queue u" and "writer_at t = writer_at u" and "log_text t = log_text u" and "arrays t = arrays u"
  shows "log_inv t"
proof -
  note e = add_step_effect[OF u assms(2)]
  obtain q e' c where "u = s\<lparr>lg_queue := q, sem_empty := e', sem_critical := c\<rparr>" using e(7) by blast
  then have "writer_at t = writer_at s" "log_text t = log_text s" "arrays t = arrays s" using assms(5,6,7) by simp_all
  moreover have "history t = history s @ (if p = AddEnqueue then [d] else [])" "taken (lg_queue t) = taken (lg_queue s)"
    using e(4,5) assms(4) by (simp_all add: history_def)
  ultimately show ?thesis using log_inv_keep[OF assms(1)] by simp
qed

lemma write_line_text:
  assumes "write_line (Some d) (logger.truncate s) = Inr l"
  shows "log_text l = log_text s @ logged_line s d"
  using assms
  by (auto simp: write_line_def logged_line_def read_text_def split: option.splits if_splits elim!: bindR_InrE)

lemma log_inv_writer:
  assumes i: "log_inv s" and sem: "sem_inv s" and m: "writer_move s t"
  shows "log_inv t"
proof -
  have h: "history t = history s" by (rule writer_history[OF sem m])
  have "arrays t = arrays s" using m by (simp add: writer_move_def)
  then have l: "logged_line t = logged_line s" by (intro ext) (simp only: logged_line_def)
  have le: "taken (lg_queue s) \<le> length (history s)" using i by (simp add: log_inv_def)
  show ?thesis
  proof (cases "writer_at s")
    case WDequeue
    have q: "queue_ok (lg_queue s)" and "0 < length (queue_items (lg_queue s))"
      using sem WDequeue by (simp_all add: sem_inv_def)
    then obtain x xs where x: "queue_items (lg_queue s) = x # xs" "history s ! taken (lg_queue s) = x" "taken (lg_queue s) < length (history s)"
      by (rule queue_items_Cons) (simp add: history_def)
    obtain d where d: "dequeue (lg_queue s) = Inr (d, lg_queue t)" "writer_at t = WPostCritical d" "log_text t = log_text s"
      using m WDequeue by (auto simp: writer_move_def)
    have tk: "taken (lg_queue t) = Suc (taken (lg_queue s))" "d = Some x" using dequeue_ok[OF q x(1)] d(1) by auto
    have "lines_written t = lines_written s" using WDequeue d(2) tk by (simp add: lines_written_def)
    then show ?thesis using i h l d tk x(2,3) by (simp add: log_inv_def)
  next
    case (WWrite d)
    then have d: "0 < taken (lg_queue s)" "d = Some (history s ! (taken (lg_queue s) - 1))" using i by (simp_all add: log_inv_def)
    have t: "writer_at t = WTest" "lg_queue t = lg_queue s" using m WWrite by (simp_all add: writer_move_def)
    obtain r where "write_line d (logger.truncate s) = Inr r" "log_text t = log_text r" using m WWrite by (auto simp: writer_move_def)
    then have "log_text t = log_text s @ logged_line s (history s ! (taken (lg_queue s) - 1))"
      using d(2) write_line_text by simp
    moreover have "lines_written t = Suc (lines_written s)" "Suc (lines_written s) = taken (lg_queue s)"
      using t WWrite d(1) by (simp_all add: lines_written_def)
    moreover have "take (Suc (lines_written s)) (history s) = take (lines_written s) (history s) @ [history s ! lines_written s]"
      using le calculation(3) by (intro take_Suc_conv_app_nth) simp
    moreover have "lines_written s = taken (lg_queue s) - 1" using calculation(3) by simp
    ultimately show ?thesis using i h l t le by (simp add: log_inv_def)
  qed (use i h l m in \<open>auto simp: log_inv_def writer_move_def lines_written_def\<close>)
qed

section \<open>All steps\<close>

definition logger_inv :: "threads \<Rightarrow> bool" where
  "logger_inv s \<longleftrightarrow> sem_inv s \<and> order_inv s \<and> log_inv s"

lemma same_queue_log:
  assumes "log_inv s" and "lg_queue t = lg_queue s" and "writer_at t = writer_at s" and "log_text t = log_text s"
    and "\<And>d. d \<in> set (history s) \<Longrightarrow> arrays t (gd_data d) = arrays s (gd_data d)"
  shows "log_inv t"
  using log_inv_keep[OF assms(1), of t "[]"] assms(2-5) by (simp add: history_def)

lemma log_main_inv:
  assumes i: "sem_inv s" "order_inv s" "log_inv s" and m: "main_runs s = Some (Inr t)"
  shows "order_inv t \<and> log_inv t"
proof (cases "\<exists>a p. main_at s = MAdd a p")
  case True
  then obtain a p where a: "main_at s = MAdd a p" by blast
  have q: "queue_ok (lg_queue s)" using i(1) by (simp add: sem_inv_def)
  have "log_inv t" by (rule main_runs_add[OF m a]) (rule add_keeps_log[OF i(3) q], auto)
  then show ?thesis using order_inv_add[OF i(2) q m a] by simp
next
  case False
  then have "main_move s t" using main_runs_other[OF m] by blast
  then show ?thesis using order_inv_main[OF i(2)] main_keeps_arrays[OF i(2)]
    by (intro conjI same_queue_log[OF i(3)]) (simp_all add: main_move_def)
qed

lemma log_camera_inv:
  assumes i: "sem_inv s" "order_inv s" "log_inv s" and m: "camera_runs f s = Some (Inr t)"
  shows "order_inv t \<and> log_inv t"
proof (cases "\<exists>ts p. camera_at s = CAdd ts p")
  case True
  then obtain ts p where a: "camera_at s = CAdd ts p" by blast
  have q: "queue_ok (lg_queue s)" using i(1) by (simp add: sem_inv_def)
  have "log_inv t" by (rule camera_runs_add[OF m a]) (rule add_keeps_log[OF i(3) q], auto)
  then show ?thesis using order_inv_camera_add[OF i(2) q m a] by simp
next
  case False
  then have "camera_move s t" using camera_runs_other[OF m] by blast
  then show ?thesis using order_inv_camera[OF i(2)] camera_keeps_arrays[OF i(2)]
    by (intro conjI same_queue_log[OF i(3)]) (simp_all add: camera_move_def)
qed

lemma logger_inv_step:
  assumes "logger_inv s" and "thread_step a s = Some (Inr t)"
  shows "logger_inv t"
proof -
  have i: "sem_inv s" "order_inv s" "log_inv s" using assms(1) by (simp_all add: logger_inv_def)
  have idle: "order_inv t \<and> log_inv t" if "idle_move s t"
    using that order_inv_same[OF i(2)] same_queue_log[OF i(3)] by (simp add: idle_move_def shared_def history_def)
  have "order_inv t \<and> log_inv t"
  proof (cases a)
    case WriterRuns
    then have m: "writer_move s t" using assms(2) writer_runs_move by (simp add: thread_step_def)
    then show ?thesis using order_inv_same[OF i(2) writer_history[OF i(1) m]] log_inv_writer[OF i(3,1) m] by (simp add: writer_move_def)
  next
    case (KeyRuns bs)
    then show ?thesis using assms(2) idle key_runs_idle by (simp add: thread_step_def)
  next
    case (JoyRuns e)
    then show ?thesis using assms(2) idle joy_runs_idle by (simp add: thread_step_def)
  next
    case (LineSends rs)
    then show ?thesis using assms(2) idle line_idle by simp
  qed (use assms(2) log_main_inv[OF i] log_camera_inv[OF i] in \<open>simp_all add: thread_step_def\<close>)
  then show ?thesis using sem_inv_step[OF i(1) assms(2)] by (simp add: logger_inv_def)
qed

lemma threads_start_sels:
  "lg_queue (threads_start n open c l) = lg_queue l" "sem_empty (threads_start n open c l) = sem_empty l"
  "sem_critical (threads_start n open c l) = sem_critical l" "arrays (threads_start n open c l) = arrays l"
  "main_round (threads_start n open c l) = main_round l" "camera_round (threads_start n open c l) = camera_round l"
  "log_text (threads_start n open c l) = log_text l" "timestamp (threads_start n open c l) = timestamp l" "mode (threads_start n open c l) = mode l"
  "lg_drive_control (threads_start n open c l) = lg_drive_control l" "lg_client (threads_start n open c l) = lg_client l"
  "main_at (threads_start n open c l) = MTest" "camera_at (threads_start n open c l) = CTest" "writer_at (threads_start n open c l) = WTest"
  "cam (threads_start n open c l) = c" "pictures (threads_start n open c l) = []" "key_at (threads_start n open c l) = LTest" "joy_at (threads_start n open c l) = (if open then LTest else LDone)"
  by (simp_all add: threads_start_def logger.defs threads.defs)

text \<open>The logger when the threads start: nothing queued, nothing written.\<close>

definition fresh_logger :: "logger \<Rightarrow> bool" where
  "fresh_logger l \<longleftrightarrow> lg_queue l = createQueue \<and> sem_empty l = 0 \<and> sem_critical l = 1 \<and> main_round l = 0 \<and> camera_round l = 0
     \<and> timestamp l = 0 \<and> log_text l = [] \<and> mode l = Start"

lemma logger_inv_start: "fresh_logger l \<Longrightarrow> logger_inv (threads_start n open c l)"
  by (simp add: fresh_logger_def logger_inv_def sem_inv_def order_inv_def log_inv_def threads_start_sels queue_create history_def
      main_log_def camera_log_def holds_def owes_def lines_written_def)

lemma logger_inv_reach:
  assumes "fresh_logger l" and "thread_reach (threads_start n open c l) s"
  shows "logger_inv s"
  using assms(2)
  by (induction rule: thread_reach.induct) (use logger_inv_start[OF assms(1)] logger_inv_step in blast)+

end
