(* ===== verification/LoggerProperties.thy ===== *)
theory LoggerProperties
  imports LoggerLog CommandLink
begin

text \<open>
  The properties of the logger: mutual exclusion and counting, what the file holds, the packets that the
  writer takes too late, the stop that never ends, and the key that stops the robot.
\<close>

section \<open>A started logger\<close>

lemma logger_start_fresh: "fresh_logger (logger_start cl)"
  by (simp add: fresh_logger_def logger_start_def)

lemma run_threads_reach: "run_threads as s = Some (Inr t) \<Longrightarrow> thread_reach s0 s \<Longrightarrow> thread_reach s0 t"
proof (induction as arbitrary: s)
  case (Cons a as)
  then show ?case by (auto split: option.splits sum.splits intro: thread_reach.step)
qed simp

lemma run_threads_snoc:
  "run_threads (as @ [a]) s = (case run_threads as s of
     Some (Inr t) \<Rightarrow> (case thread_step a t of Some (Inr u) \<Rightarrow> Some (Inr u) | r \<Rightarrow> r) | r \<Rightarrow> r)"
  by (induction as arbitrary: s) (auto split: option.splits sum.splits)

lemmas run_logger = thread_step_def camera_runs_def writer_runs_def add_step_def wait_critical_def wait_empty_def

section \<open>Safety\<close>

lemma bindR_Inl_iff: "bindR m f = Inl e \<longleftrightarrow> m = Inl e \<or> (\<exists>x. m = Inr x \<and> f x = Inl e)"
  by (cases m) simp_all

lemma add_step_no_fault:
  "queue_ok (lg_queue s) \<Longrightarrow> add_step d p s \<noteq> Some (Inl e)"
  by (cases p) (auto simp: add_step_def elim: enqueue_ok[of "lg_queue s" d])

lemma writer_fault:
  assumes "logger_inv s" and "writer_runs s = Some (Inl e)"
  shows "\<exists>d. writer_at s = WWrite (Some d) \<and> e = OutOfBounds \<and> (\<not> alive (gd_data d) s \<or> arrays s (gd_data d) = None)"
proof (cases "writer_at s")
  case WDequeue
  have q: "queue_ok (lg_queue s)" and "0 < length (queue_items (lg_queue s))"
    using assms(1) WDequeue by (simp_all add: sem_inv_def logger_inv_def)
  then obtain x xs where x: "queue_items (lg_queue s) = x # xs" by (rule queue_items_Cons)
  obtain q' where "dequeue (lg_queue s) = Inr (Some x, q')" by (rule dequeue_ok[OF q x])
  then show ?thesis using assms(2) WDequeue by (simp add: writer_runs_def)
next
  case (WWrite d)
  then obtain d' where d: "d = Some d'" using assms(1) by (auto simp: logger_inv_def log_inv_def)
  have "write_line (Some d') (logger.truncate s) = Inl e"
    using assms(2) WWrite d by (auto simp: writer_runs_def on_logger_def bindR_def split: sum.splits)
  then have "read_text (gd_data d') s = Inl e"
    by (auto simp: write_line_def read_text_def alive_def logger.defs bindR_def split: option.splits sum.splits if_splits)
  then show ?thesis using WWrite d by (auto simp: read_text_def split: if_splits option.splits)
qed (use assms(2) in \<open>auto simp: writer_runs_def\<close>)

text \<open>A camera whose pictures can be converted; taking a frame keeps it so.\<close>

definition camera_ready :: "camera \<Rightarrow> bool" where
  "camera_ready c \<longleftrightarrow> even (unat (cam_width c)) \<and> 2 * (unat (cam_width c) * unat (cam_height c)) \<le> length (cam_frame c)
     \<and> unat (cam_width c) * unat (cam_height c) * 3 < 2 ^ 32"

lemma yuyv2rgb_pixel_count: "camera_ready c \<Longrightarrow> \<exists>rgb. yuyv2rgb (cam_frame c) (cam_width c) (cam_height c) = Inr rgb"
  using yuyv2rgb_even[of "unat (cam_width c)" "unat (cam_height c)" "cam_frame c"] by (auto simp: camera_ready_def)

lemma camera_frame_ready: "camera_ready c \<Longrightarrow> camera_frame d again c = Inr (r, c') \<Longrightarrow> camera_ready c'"
  by (auto simp: camera_frame_def camera_ready_def Let_def split: option.splits if_splits)

lemma camera_runs_ready:
  assumes "camera_ready (cam s)" and "queue_ok (lg_queue s)" and "camera_runs f s = Some (Inr t)"
  shows "camera_ready (cam t)"
proof (cases "camera_at s")
  case (CAdd ts p)
  show ?thesis
    by (rule camera_runs_add[OF assms(3) CAdd]) (use assms(1) add_step_effect(7)[OF _ assms(2)] in fastforce)
qed (use assms(1,3) camera_frame_ready in \<open>auto simp: camera_runs_def take_frame_def save_picture_def Let_def elim!: bindR_InrE\<close>)

lemma main_runs_cam:
  assumes "queue_ok (lg_queue s)" and "main_runs s = Some (Inr t)"
  shows "cam t = cam s"
proof (cases "\<exists>a p. main_at s = MAdd a p")
  case True
  then obtain a p where "main_at s = MAdd a p" by blast
  then show ?thesis
    by (rule main_runs_add[OF assms(2)]) (use add_step_effect(7)[OF _ assms(1)] in fastforce)
next
  case False
  then show ?thesis using main_runs_other[OF assms(2)] by (simp add: main_move_def)
qed

lemma camera_ready_step:
  assumes "camera_ready (cam s)" and "queue_ok (lg_queue s)" and "thread_step a s = Some (Inr t)"
  shows "camera_ready (cam t)"
proof (cases a)
  case (LineSends rs)
  then show ?thesis using assms line_idle by (simp add: idle_move_def)
qed (use assms main_runs_cam camera_runs_ready key_runs_idle joy_runs_idle writer_runs_move
    in \<open>auto simp: thread_step_def idle_move_def writer_move_def\<close>)

lemma camera_ready_reach:
  assumes "fresh_logger l" and "camera_ready c" and "thread_reach (threads_start n open c l) s"
  shows "camera_ready (cam s)"
  using assms(3)
proof (induction rule: thread_reach.induct)
  case start
  then show ?case using assms(2) by (simp add: threads_start_sels)
next
  case (step s a t)
  have "queue_ok (lg_queue s)" using logger_inv_reach[OF assms(1) step.hyps(1)] by (simp add: logger_inv_def sem_inv_def)
  from camera_ready_step[OF step.IH this step.hyps(2)] show ?case .
qed

text \<open>What the driver reports is more than the buffer or the frame holds.\<close>

definition frame_too_long :: "frame_answer \<Rightarrow> camera \<Rightarrow> bool" where
  "frame_too_long f c = (case fst f of None \<Rightarrow> False | Some (bytes, used) \<Rightarrow> length bytes < used \<or> length (cam_frame c) < used)"

lemma camera_fault:
  assumes "camera_ready (cam s)" and "queue_ok (lg_queue s)" and "camera_runs f s = Some (Inl e)"
  shows "camera_at s = CFrame \<and> e = OutOfBounds \<and> frame_too_long f (cam s)"
proof (cases "camera_at s")
  case (CName ts)
  then show ?thesis using yuyv2rgb_pixel_count[of "cam s"] assms(1,3)
    by (auto simp: camera_runs_def save_picture_def Let_def)
next
  case (CAdd ts p)
  then show ?thesis using assms(3) add_step_no_fault[OF assms(2)] by (auto simp: camera_runs_def bindR_Inl_iff)
qed (use assms(3) in \<open>auto simp: camera_runs_def take_frame_def frame_too_long_def camera_frame_def bindR_Inl_iff Let_def split: option.splits if_splits\<close>)

text \<open>
  C8. In every interleaving of the threads at most one of them is between the two operations on \<open>critical\<close>;
  queueing a packet never faults; a camera whose format has an even width and fits its frame buffers can fault only on a
  frame that is longer than them; the writer never takes a packet from an empty queue, and the only fault it can have is to read the text of a packet
  whose array is gone or was never written.
\<close>

theorem threads_safe:
  assumes "fresh_logger l" and "camera_ready c" and "thread_reach (threads_start n open c l) s"
  shows "holds (main_add (main_at s)) + holds (camera_add (camera_at s)) + writer_holds (writer_at s) \<le> 1
    \<and> (main_runs s = Some (Inl e) \<longrightarrow> main_add (main_at s) = None)
    \<and> (camera_runs f s = Some (Inl e) \<longrightarrow> camera_at s = CFrame \<and> frame_too_long f (cam s))
    \<and> (writer_runs s = Some (Inl e) \<longrightarrow>
        (\<exists>d. writer_at s = WWrite (Some d) \<and> e = OutOfBounds \<and> (\<not> alive (gd_data d) s \<or> arrays s (gd_data d) = None)))"
proof -
  have i: "logger_inv s" by (rule logger_inv_reach[OF assms(1,3)])
  then have q: "queue_ok (lg_queue s)"
    and "holds (main_add (main_at s)) + holds (camera_add (camera_at s)) + writer_holds (writer_at s) \<le> 1"
    by (auto simp: logger_inv_def sem_inv_def)
  moreover have "main_add (main_at s) = None" if "main_runs s = Some (Inl e)"
    using that add_step_no_fault[OF q]
    by (cases "main_at s") (auto simp: main_runs_def bindR_Inl_iff)
  ultimately show ?thesis using writer_fault[OF i] camera_fault[OF camera_ready_reach[OF assms] q] by blast
qed

section \<open>The file\<close>

lemma step_keeps_history:
  assumes i: "logger_inv s" and "thread_step a s = Some (Inr t)"
  shows "\<exists>ds. history t = history s @ ds" and "d \<in> set (history s) \<Longrightarrow> logged_line t d = logged_line s d"
proof -
  have i: "sem_inv s" "order_inv s" "log_inv s" and q: "queue_ok (lg_queue s)"
    using i by (simp_all add: logger_inv_def sem_inv_def)
  have line: "logged_line t d = logged_line s d" if "arrays t (gd_data d) = arrays s (gd_data d)" for d
    using that by (simp only: logged_line_def)
  have idle: "history t = history s \<and> arrays t = arrays s" if "idle_move s t"
    using that by (simp add: idle_move_def shared_def history_def)
  have add: "(\<exists>ds. history t = history s @ ds) \<and> arrays t = arrays s"
    if "add_step x p s = Some (Inr (p', u))" and "lg_queue t = lg_queue u" and "arrays t = arrays u" for x p p' u
    using add_step_effect(4,7)[OF that(1) q] that(2,3) by (auto simp: history_def)
  have "(\<exists>ds. history t = history s @ ds) \<and> (\<forall>d \<in> set (history s). arrays t (gd_data d) = arrays s (gd_data d))"
  proof (cases a)
    case MainRuns
    then have m: "main_runs s = Some (Inr t)" using assms(2) by (simp add: thread_step_def)
    show ?thesis
    proof (cases "\<exists>a p. main_at s = MAdd a p")
      case True
      then obtain b p where "main_at s = MAdd b p" by blast
      then show ?thesis by (rule main_runs_add[OF m]) (use add in simp)
    next
      case False
      then have "main_move s t" using main_runs_other[OF m] by blast
      then show ?thesis using main_keeps_arrays[OF i(2)] by (simp add: main_move_def history_def)
    qed
  next
    case (CameraRuns f)
    then have m: "camera_runs f s = Some (Inr t)" using assms(2) by (simp add: thread_step_def)
    show ?thesis
    proof (cases "\<exists>b p. camera_at s = CAdd b p")
      case True
      then obtain b p where "camera_at s = CAdd b p" by blast
      then show ?thesis by (rule camera_runs_add[OF m]) (use add in simp)
    next
      case False
      then have "camera_move s t" using camera_runs_other[OF m] by blast
      then show ?thesis using camera_keeps_arrays[OF i(2)] by (simp add: camera_move_def history_def)
    qed
  next
    case WriterRuns
    then have m: "writer_move s t" using assms(2) writer_runs_move by (simp add: thread_step_def)
    then show ?thesis using writer_history[OF i(1) m] by (simp add: writer_move_def)
  next
    case (KeyRuns bs)
    then show ?thesis using assms(2) idle key_runs_idle by (simp add: thread_step_def)
  next
    case (JoyRuns e)
    then show ?thesis using assms(2) idle joy_runs_idle by (simp add: thread_step_def)
  next
    case (LineSends rs)
    then show ?thesis using assms(2) idle line_idle by simp
  qed
  then show "\<exists>ds. history t = history s @ ds" and "d \<in> set (history s) \<Longrightarrow> logged_line t d = logged_line s d"
    using line by blast+
qed

text \<open>
  C7. What the file holds, in every interleaving: the lines of the packets that were queued first, in the order in
  which they were queued, as many as the writer has written. The main loop queues for each of its rounds
  the system, the joints, the sonar and the drive, stamped with the number of the round, and the camera one
  packet per picture. Once queued, a packet stays in the log with the same line.
\<close>

theorem file_is_log:
  assumes "fresh_logger l" and "thread_reach (threads_start n open c l) s"
  shows "log_text s = concat (map (logged_line s) (take (lines_written s) (history s)))
    \<and> filter from_main (history s) = main_log s \<and> map gd_data (filter (\<lambda>d. \<not> from_main d) (history s)) = camera_log s
    \<and> (thread_step a s = Some (Inr t) \<longrightarrow>
        (\<exists>ds. history t = history s @ ds) \<and> (\<forall>d \<in> set (history s). logged_line t d = logged_line s d))"
proof -
  have i: "logger_inv s" by (rule logger_inv_reach[OF assms])
  then have "order_inv s" "log_inv s" by (simp_all add: logger_inv_def)
  then show ?thesis using step_keeps_history[OF i] by (simp add: order_inv_def log_inv_def)
qed

section \<open>Packets that are taken too late\<close>

lemma type_known:
  assumes "order_inv s" and "d \<in> set (history s)"
  shows "\<exists>n. type_name (gd_type d) = Some n"
proof (cases "from_main d")
  case True
  then have "d \<in> set (filter from_main (history s))" using assms(2) by simp
  then have "d \<in> set (main_log s)" using assms(1) by (simp only: order_inv_def)
  then obtain r a where "d = round_packet r a" by (auto simp: main_log_def)
  then show ?thesis by (cases a) (simp_all add: round_packet_def array_type_def type_name_def)
next
  case False
  then have "gd_type d = GEN_DATA_IMAGE" using assms by (simp add: order_inv_def)
  then show ?thesis by (simp add: type_name_def)
qed

lemma write_dead:
  assumes "type_name (gd_type d) = Some n" and "\<not> alive (gd_data d) s"
  shows "on_logger (write_line (Some d)) s = Inl OutOfBounds"
proof -
  have "read_text (gd_data d) (logger.truncate s) = Inl OutOfBounds"
    using assms(2) by (auto simp: read_text_def alive_def)
  then show ?thesis using assms(1) by (simp add: on_logger_def write_line_def)
qed

text \<open>
  C35. A packet that is still queued when the loop that queued it is back at its test is lost, and with it the
  writer: when \<open>critical\<close> is free and the writer goes on, it takes the packet and reads the array of an iteration
  that is over. After \<open>Stop\<close> this holds for every packet that the main loop left behind.
\<close>

theorem late_writer_faults:
  assumes "fresh_logger l" and "thread_reach (threads_start n open c l) s"
    and "writer_at s = WWaitEmpty" and "queue_items (lg_queue s) = d # ds"
    and "main_at s \<in> {MTest, MNew, MSend, MClear, MSync, MJoin}" and "camera_at s = CTest \<or> camera_at s = CDone"
  shows "run_threads (replicate 5 WriterRuns) s = Some (Inl OutOfBounds)"
proof -
  have "logger_inv s" by (rule logger_inv_reach[OF assms(1,2)])
  then have sem: "sem_inv s" and ord: "order_inv s" by (simp_all add: logger_inv_def)
  have no: "main_add (main_at s) = None" "camera_add (camera_at s) = None" "queued_arrays (main_at s) = []" "\<not> camera_queued (camera_at s)"
    using assms(5,6) by auto
  have q: "queue_ok (lg_queue s)" and crit: "sem_critical s = 1" and emp: "sem_empty s = Suc (length ds)"
    using sem assms(3,4) no by (simp_all add: sem_inv_def holds_def owes_def)
  obtain q' where deq: "dequeue (lg_queue s) = Inr (Some d, q')" by (rule dequeue_ok[OF q assms(4)])
  have "d \<in> set (queue_items (lg_queue s))" using assms(4) by simp
  then have d: "d \<in> set (history s)" by (auto simp: queue_items_def history_def dest: in_set_dropD)
  have dead: "\<not> alive (gd_data d) s"
    using main_pointers[OF ord d] camera_pointers[OF ord d] no by (auto simp: alive_def from_main_def)
  obtain name where name: "type_name (gd_type d) = Some name" using type_known[OF ord d] by blast
  let ?t = "s\<lparr>sem_empty := length ds, sem_critical := Suc 0, lg_queue := q', writer_at := WWrite (Some d)\<rparr>"
  have dead': "\<not> alive (gd_data d) ?t" using dead by (auto simp: alive_def)
  have "run_threads (replicate 4 WriterRuns) s = Some (Inr ?t)"
    using assms(3) crit emp deq by (simp add: run_logger numeral_eq_Suc)
  moreover have "thread_step WriterRuns ?t = Some (Inl OutOfBounds)"
    using write_dead[OF name dead'] by (simp add: run_logger)
  moreover have "replicate 5 WriterRuns = replicate 4 WriterRuns @ [WriterRuns]" by (simp add: numeral_eq_Suc)
  ultimately show ?thesis by (simp only: run_threads_snoc option.case sum.case)
qed

section \<open>The stop that never ends\<close>

definition stop_schedule :: "thread_action list" where
  "stop_schedule = [WriterRuns, KeyRuns None, KeyRuns (Some [0x1b]), KeyRuns None, MainRuns, CameraRuns (None, True)]"

lemma stuck_step:
  assumes "thread_step a s = Some (Inr t)"
    and "main_at s = MJoin" and "camera_at s = CDone" and "writer_at s = WWaitEmpty" and "sem_empty s = 0"
  shows "main_at t = MJoin \<and> camera_at t = CDone \<and> writer_at t = WWaitEmpty \<and> sem_empty t = 0"
proof (cases a)
  case (KeyRuns bs)
  then show ?thesis using assms key_runs_idle by (auto simp: thread_step_def idle_move_def shared_def)
next
  case (JoyRuns e)
  then show ?thesis using assms joy_runs_idle by (auto simp: thread_step_def idle_move_def shared_def)
next
  case (LineSends rs)
  then show ?thesis using assms line_idle[of rs s t] by (auto simp: idle_move_def shared_def)
qed (use assms in \<open>simp_all add: thread_step_def main_runs_def camera_runs_def writer_runs_def wait_empty_def\<close>)

text \<open>
  C32. The program can hang on the escape key: when it comes while the writer waits for a packet and the producers
  have queued their last one, the producers leave their loops, nobody posts \<open>empty\<close> again, the writer
  waits for ever and \<open>main\<close> waits for the writer, whatever the other threads still do. The robot is then never
  told to stop.
\<close>

theorem stop_can_hang:
  assumes "fresh_logger l"
  shows "\<exists>s. run_threads stop_schedule (threads_start n open c l) = Some (Inr s) \<and> mode s = Stop
    \<and> (\<forall>t. thread_reach s t \<longrightarrow> main_at t = MJoin \<and> writer_at t = WWaitEmpty)"
proof -
  let ?start = "threads_start n open c l"
  have f: "sem_empty ?start = 0" "mode ?start = Start" "lg_queue ?start = createQueue" and at: "main_at ?start = MTest" "camera_at ?start = CTest"
    "writer_at ?start = WTest" "key_at ?start = LTest"
    using assms by (simp_all add: fresh_logger_def threads_start_sels)
  have esc: "getKey (Some [0x1b]) = Inr KeyEsc" by (simp add: getKey_def KEY_BUFFER_SIZE_def string2keycode_map)
  have stop: "on_logger (key_step KeyEsc) u = Inr (u\<lparr>mode := Stop\<rparr>)" for u
    by (simp add: on_logger_def key_step_def Let_def logger.defs threads.defs)
  let ?s1 = "?start\<lparr>writer_at := WWaitEmpty\<rparr>"
  let ?s2 = "?s1\<lparr>key_at := LRead\<rparr>"
  let ?s3 = "(?s2\<lparr>mode := Stop\<rparr>)\<lparr>key_at := LTest\<rparr>"
  let ?s4 = "?s3\<lparr>key_at := LDone\<rparr>"
  let ?s5 = "?s4\<lparr>main_at := MJoin\<rparr>"
  let ?fin = "?s5\<lparr>camera_at := CDone\<rparr>"
  have "thread_step WriterRuns ?start = Some (Inr ?s1)" using f at by (simp add: thread_step_def writer_runs_def)
  moreover have "thread_step (KeyRuns None) ?s1 = Some (Inr ?s2)" using f at by (simp add: thread_step_def key_runs_def)
  moreover have "thread_step (KeyRuns (Some [0x1b])) ?s2 = Some (Inr ?s3)" using esc stop by (simp add: thread_step_def key_runs_def)
  moreover have "thread_step (KeyRuns None) ?s3 = Some (Inr ?s4)" by (simp add: thread_step_def key_runs_def)
  moreover have "thread_step MainRuns ?s4 = Some (Inr ?s5)" using at by (simp add: thread_step_def main_runs_def)
  moreover have "thread_step (CameraRuns (None, True)) ?s5 = Some (Inr ?fin)" using at by (simp add: thread_step_def camera_runs_def)
  ultimately have "run_threads stop_schedule ?start = Some (Inr ?fin)"
    by (simp only: stop_schedule_def run_threads.simps option.case sum.case)
  moreover have "main_at t = MJoin \<and> camera_at t = CDone \<and> writer_at t = WWaitEmpty \<and> sem_empty t = 0" if "thread_reach ?fin t" for t
    using that by (induction rule: thread_reach.induct) (use f stuck_step in auto)
  ultimately show ?thesis by (intro exI[of _ ?fin]) simp
qed

section \<open>The keys\<close>

lemma key_code_other:
  assumes "s \<notin> set (take 5 key_map)"
  shows "string2keycode s \<notin> {KeyEsc, KeyArrowUp, KeyArrowDown, KeyArrowRight, KeyArrowLeft}"
proof -
  have "length (take 5 key_map) = 5" by (simp add: key_map_def)
  then have "s \<noteq> key_map ! i" if "i < 5" for i
    using assms that nth_mem[of i "take 5 key_map"] by (metis nth_take)
  then have "string2keycode s \<noteq> int i" if "i < 5" for i
    using that keycode_iff[of i s] by (simp add: key_map_def)
  from this[of 0] this[of 1] this[of 2] this[of 3] this[of 4] show ?thesis by simp
qed

lemma velocity_roundtrip:
  "fst (get_DifferentialDriveControlPacket (put_DifferentialDriveControlPacket (velocity_command q tv rv))) = velocity_command q tv rv"
  using get_put_DifferentialDriveControlPacket[of "velocity_command q tv rv" "[]"] by simp

text \<open>
  Every key but the arrows and escape stops the robot: what was read is no key of the first five of
  the table, fits the buffer, and the transmit ring has room; then the velocities are zero, the command is numbered and
  queued as one frame behind what was queued before. Its number makes the main loop send it once more.
\<close>

theorem other_key_stops:
  assumes "length bs < KEY_BUFFER_SIZE" and "takeWhile (\<lambda>b. b \<noteq> 0) bs \<notin> set (take 5 key_map)"
    and "client_ready (lg_client s)" and "length (tx_items (packet_handler (lg_client s))) + sizeof_DifferentialDriveControlPacket + 3 \<le> 254"
    and "lg_drive_control s = velocity_command q tv rv"
  shows "\<exists>k s'. getKey (Some bs) = Inr k \<and> key_step k s = Inr s' \<and> mode s' = mode s
    \<and> lg_drive_control s' = velocity_command (cl_global_seq (lg_client s) + 1) 0 0
    \<and> tx_items (packet_handler (lg_client s')) = tx_items (packet_handler (lg_client s))
        @ frame (put_DifferentialDriveControlPacket (velocity_command (cl_global_seq (lg_client s) + 1) 0 0))"
proof -
  let ?cl = "lg_client s" and ?k = "string2keycode (takeWhile (\<lambda>b. b \<noteq> 0) bs)"
  let ?q = "cl_global_seq (lg_client s) + 1"
  let ?p = "put_DifferentialDriveControlPacket (velocity_command ?q 0 0)"
  have key: "getKey (Some bs) = Inr ?k" using assms(1) by (simp add: getKey_def)
  have step: "key_step ?k s = stopRobot s" using key_code_other[OF assms(2)] by (simp add: key_step_def)
  have drive: "set_velocities 0 0 0 (lg_drive_control s) = velocity_command 0 0 0"
    using assms(5) by (simp add: set_velocities_def velocity_command_def)
  have size: "packet_sizes ?cl ! unat (DIFFERENTIAL_DRIVE_CONTROL_PACKET_ID :: u8) = word_of_nat sizeof_DifferentialDriveControlPacket"
    using assms(3) by (simp add: client_ready_def outgoing_sizes_def)
  have tx: "tx_ok (packet_handler ?cl)" using assms(3) by (simp add: client_ready_def)
  have len: "length ?p = unat (?p ! 1)" by (simp add: velocity_command_bytes sizeof_DifferentialDriveControlPacket_def)
  obtain h where h: "PacketHandler_sendPacket ?p (packet_handler ?cl) = (Success, h)"
    "tx_items h = tx_items (packet_handler ?cl) @ frame ?p"
    using sendPacket_ok(1,2)[OF tx len] assms(4)
    by (cases "PacketHandler_sendPacket ?p (packet_handler ?cl)") (simp add: sizeof_DifferentialDriveControlPacket_def del: length_tx_items)
  let ?cl1 = "?cl\<lparr>cl_global_seq := ?q, packet_handler := h\<rparr>"
  have "OrazioClient_sendPacket (put_DifferentialDriveControlPacket (velocity_command 0 0 0)) 0 ?cl = Inr (Success, ?p, ?cl1\<lparr>write_locked := False\<rparr>)"
    using size h(1) assms(3)
    by (simp add: OrazioClient_sendPacket_def lock_write_def unlock_write_def client_ready_def client_send_def Let_def velocity_command_bytes sizeof_DifferentialDriveControlPacket_def)
  then have "stopRobot s = Inr (s\<lparr>lg_drive_control := velocity_command ?q 0 0, lg_client := ?cl1\<lparr>write_locked := False\<rparr>\<rparr>)"
    using drive by (simp add: stopRobot_def send_drive_control_def velocity_roundtrip)
  then show ?thesis using key step h(2) by simp
qed

section \<open>Concrete executions\<close>

text \<open>A camera with the format of the program and a frame that is full of zeros.\<close>

definition sample_camera :: camera where
  "sample_camera = \<lparr>cam_fd = 4, cam_width = 352, cam_height = 288, cam_buffer = replicate (2 * (352 * 288)) 0,
     cam_frame = replicate (2 * (352 * 288)) 0, cam_frame_length = 0\<rparr>"

lemma sample_camera_ready: "camera_ready sample_camera"
  by (simp add: camera_ready_def sample_camera_def)

text \<open>One picture is queued, the camera goes on, and the writer has not come to it.\<close>

definition camera_schedule :: "thread_action list" where
  "camera_schedule = replicate 8 (CameraRuns (None, True)) @ [WriterRuns]"

definition sample_threads :: threads where
  "sample_threads = threads_start 0 False sample_camera (logger_start sample_client)"

lemma sample_threads_picture:
  "\<exists>s d. run_threads camera_schedule sample_threads = Some (Inr s) \<and> writer_at s = WWaitEmpty
    \<and> queue_items (lg_queue s) = [d] \<and> history s = [d] \<and> main_at s = MTest \<and> camera_at s = CTest \<and> main_round s = 0"
proof -
  obtain rgb where "yuyv2rgb (cam_frame sample_camera) (cam_width sample_camera) (cam_height sample_camera) = Inr rgb"
    using yuyv2rgb_pixel_count[OF sample_camera_ready] by blast
  then show ?thesis
  by (simp add: camera_schedule_def sample_threads_def run_logger threads_start_sels logger_start_def enqueue_def newNode_def
      createQueue_def queue_items_def queue_history_def taken_def history_def numeral_eq_Suc take_frame_def camera_frame_def save_picture_def Let_def)
qed

theorem threads_safe_witness:
  "\<exists>s. run_threads camera_schedule sample_threads = Some (Inr s)
    \<and> holds (main_add (main_at s)) + holds (camera_add (camera_at s)) + writer_holds (writer_at s) \<le> 1
    \<and> camera_runs (None, True) s \<noteq> Some (Inl OutOfBounds)"
proof -
  obtain s where s: "run_threads camera_schedule sample_threads = Some (Inr s)" using sample_threads_picture by blast
  have "thread_reach (threads_start 0 False sample_camera (logger_start sample_client)) s"
    using run_threads_reach[OF s[unfolded sample_threads_def] thread_reach.start] .
  then show ?thesis using threads_safe[OF logger_start_fresh sample_camera_ready, of 0 False sample_client s OutOfBounds "(None, True)"] s
    by (auto simp: frame_too_long_def)
qed

theorem file_is_log_witness:
  "\<exists>s. run_threads camera_schedule sample_threads = Some (Inr s)
    \<and> log_text s = concat (map (logged_line s) (take (lines_written s) (history s))) \<and> map gd_data (history s) = camera_log s"
proof -
  obtain s d where s: "run_threads camera_schedule sample_threads = Some (Inr s)" and h: "history s = [d]" and m: "main_at s = MTest" "main_round s = 0"
    using sample_threads_picture by blast
  have r: "thread_reach (threads_start 0 False sample_camera (logger_start sample_client)) s"
    using run_threads_reach[OF s[unfolded sample_threads_def] thread_reach.start] .
  note f = file_is_log[OF logger_start_fresh r]
  have "filter from_main (history s) = []" using f m by (simp add: main_log_def)
  then have "filter (\<lambda>d. \<not> from_main d) (history s) = history s" using h by (simp split: if_splits)
  then show ?thesis using f s by (metis (no_types, lifting))
qed

theorem late_writer_faults_witness:
  "\<exists>s. run_threads camera_schedule sample_threads = Some (Inr s) \<and> run_threads (replicate 5 WriterRuns) s = Some (Inl OutOfBounds)"
proof -
  obtain s d where s: "run_threads camera_schedule sample_threads = Some (Inr s)" "writer_at s = WWaitEmpty"
    "queue_items (lg_queue s) = [d]" "main_at s = MTest" "camera_at s = CTest"
    using sample_threads_picture by blast
  have "thread_reach (threads_start 0 False sample_camera (logger_start sample_client)) s"
    using run_threads_reach[OF s(1)[unfolded sample_threads_def] thread_reach.start] .
  from late_writer_faults[OF logger_start_fresh this s(2,3)] s show ?thesis by blast
qed

theorem stop_can_hang_witness:
  "\<exists>s. run_threads stop_schedule sample_threads = Some (Inr s) \<and> mode s = Stop
    \<and> (\<forall>t. thread_reach s t \<longrightarrow> main_at t = MJoin \<and> writer_at t = WWaitEmpty)"
  unfolding sample_threads_def by (rule stop_can_hang[OF logger_start_fresh])

theorem other_key_stops_witness:
  "\<exists>k s'. getKey (Some [0x73]) = Inr k \<and> key_step k (logger_start sample_client) = Inr s'
    \<and> lg_drive_control s' = velocity_command (cl_global_seq sample_client + 1) 0 0"
proof -
  have l: "lg_client (logger_start sample_client) = sample_client" "lg_drive_control (logger_start sample_client) = velocity_command 1 0 0"
    by (simp_all add: logger_start_def velocity_command_def)
  have "tx_items (packet_handler sample_client) = []" by (rule sample_client_ready)
  then show ?thesis
    using other_key_stops[of "[0x73]" "logger_start sample_client" 1 0 0] sample_client_ready(2) l
    by (simp add: KEY_BUFFER_SIZE_def key_map_def sizeof_DifferentialDriveControlPacket_def del: length_tx_items) blast
qed

end
