(* ===== verification/Dspic.thy ===== *)
theory Dspic
  imports Board
begin

text \<open>
  \<open>src/orazio_lib/src/arch/dspic\<close>, the second target of the firmware: the pins, the digital I/O, the PWM, the
  encoders, the UART and the timer of the dsPIC33FJ128MC802 behind the same interface as
  the ATmega2560. Registers are 16 bits wide; a bit field is its register, its first bit and its width, as
  the vendor's header \<open>p33FJ128MC802.h\<close> gives them. The EEPROM is in \<open>Dee\<close> and \<open>DspicEeprom\<close>.
\<close>

section \<open>Registers\<close>

datatype DReg =
    PORTB | LATB | TRISB | PWM1CON1 | PWM1CON2 | P1DC1 | P1DC2 | P1TPER | P1SECMP | P1TCON | P1OVDCON | P1TMR
  | RPINR14 | RPINR16 | RPINR18 | RPOR4 | QEI1CON | QEI2CON | DFLT1CON | DFLT2CON | POS1CNT | POS2CNT
  | T3CON | PR3 | IPC2 | IPC3 | IFS0 | IEC0
  | U1BRG | U1MODE | U1STA | U1RXREG | U1TXREG | PLLFBD | CLKDIV | OSCTUN | OSCCON | AD1PCFGL

type_synonym Field = "DReg \<times> nat \<times> nat"

fun qei :: "nat \<Rightarrow> DReg" where
  "qei n = (if n = 1 then QEI1CON else QEI2CON)"

text \<open>\<open>PENH 2\<close> is \<open>PEN2H\<close>, \<open>QEIM 1\<close> is \<open>QEI1CONbits.QEIM\<close>.\<close>

abbreviation (input) QEA1R :: "Field" where "QEA1R \<equiv> (RPINR14, 0, 5)"
abbreviation (input) QEB1R :: "Field" where "QEB1R \<equiv> (RPINR14, 8, 5)"
abbreviation (input) QEA2R :: "Field" where "QEA2R \<equiv> (RPINR16, 0, 5)"
abbreviation (input) QEB2R :: "Field" where "QEB2R \<equiv> (RPINR16, 8, 5)"
abbreviation (input) QEISIDL :: "nat \<Rightarrow> Field" where "QEISIDL n \<equiv> (qei n, 13, 1)"
abbreviation (input) SWPAB :: "nat \<Rightarrow> Field" where "SWPAB n \<equiv> (qei n, 7, 1)"
abbreviation (input) PCDOUT :: "nat \<Rightarrow> Field" where "PCDOUT n \<equiv> (qei n, 6, 1)"
abbreviation (input) POSRES :: "nat \<Rightarrow> Field" where "POSRES n \<equiv> (qei n, 2, 1)"
abbreviation (input) QEIM :: "nat \<Rightarrow> Field" where "QEIM n \<equiv> (qei n, 8, 3)"
abbreviation (input) TQCS :: "nat \<Rightarrow> Field" where "TQCS n \<equiv> (qei n, 1, 1)"
abbreviation (input) QEOUT :: "nat \<Rightarrow> Field" where "QEOUT n \<equiv> (if n = 1 then DFLT1CON else DFLT2CON, 7, 1)"
abbreviation (input) PTPER :: "Field" where "PTPER \<equiv> (P1TPER, 0, 15)"
abbreviation (input) SEVTCMP :: "Field" where "SEVTCMP \<equiv> (P1SECMP, 0, 15)"
abbreviation (input) PTEN :: "Field" where "PTEN \<equiv> (P1TCON, 15, 1)"
abbreviation (input) PTSIDL :: "Field" where "PTSIDL \<equiv> (P1TCON, 13, 1)"
abbreviation (input) PTOPS :: "Field" where "PTOPS \<equiv> (P1TCON, 4, 4)"
abbreviation (input) PTCKPS :: "Field" where "PTCKPS \<equiv> (P1TCON, 2, 2)"
abbreviation (input) PTMOD :: "Field" where "PTMOD \<equiv> (P1TCON, 0, 2)"
abbreviation (input) PMOD :: "nat \<Rightarrow> Field" where "PMOD n \<equiv> (PWM1CON1, n + 7, 1)"
abbreviation (input) PENH :: "nat \<Rightarrow> Field" where "PENH n \<equiv> (PWM1CON1, n + 3, 1)"
abbreviation (input) PENL :: "nat \<Rightarrow> Field" where "PENL n \<equiv> (PWM1CON1, n - 1, 1)"
abbreviation (input) POVDH :: "nat \<Rightarrow> Field" where "POVDH n \<equiv> (P1OVDCON, 2 * n + 7, 1)"
abbreviation (input) POVDL :: "nat \<Rightarrow> Field" where "POVDL n \<equiv> (P1OVDCON, 2 * n + 6, 1)"
abbreviation (input) IUE :: "Field" where "IUE \<equiv> (PWM1CON2, 2, 1)"
abbreviation (input) TCKPS :: "Field" where "TCKPS \<equiv> (T3CON, 4, 2)"
abbreviation (input) TON :: "Field" where "TON \<equiv> (T3CON, 15, 1)"
abbreviation (input) T3IP :: "Field" where "T3IP \<equiv> (IPC2, 0, 3)"
abbreviation (input) T3IF :: "Field" where "T3IF \<equiv> (IFS0, 8, 1)"
abbreviation (input) T3IE :: "Field" where "T3IE \<equiv> (IEC0, 8, 1)"
abbreviation (input) U1RXIP :: "Field" where "U1RXIP \<equiv> (IPC2, 12, 3)"
abbreviation (input) U1TXIP :: "Field" where "U1TXIP \<equiv> (IPC3, 0, 3)"
abbreviation (input) U1TXIF :: "Field" where "U1TXIF \<equiv> (IFS0, 12, 1)"
abbreviation (input) U1RXIF :: "Field" where "U1RXIF \<equiv> (IFS0, 11, 1)"
abbreviation (input) U1TXIE :: "Field" where "U1TXIE \<equiv> (IEC0, 12, 1)"
abbreviation (input) U1RXIE :: "Field" where "U1RXIE \<equiv> (IEC0, 11, 1)"
abbreviation (input) PLLPOST :: "Field" where "PLLPOST \<equiv> (CLKDIV, 6, 2)"
abbreviation (input) PLLPRE :: "Field" where "PLLPRE \<equiv> (CLKDIV, 0, 5)"
abbreviation (input) COSC :: "Field" where "COSC \<equiv> (OSCCON, 12, 3)"
abbreviation (input) LOCK :: "Field" where "LOCK \<equiv> (OSCCON, 5, 1)"
abbreviation (input) UARTEN :: "Field" where "UARTEN \<equiv> (U1MODE, 15, 1)"
abbreviation (input) USIDL :: "Field" where "USIDL \<equiv> (U1MODE, 13, 1)"
abbreviation (input) IREN :: "Field" where "IREN \<equiv> (U1MODE, 12, 1)"
abbreviation (input) RTSMD :: "Field" where "RTSMD \<equiv> (U1MODE, 11, 1)"
abbreviation (input) UEN :: "Field" where "UEN \<equiv> (U1MODE, 8, 2)"
abbreviation (input) WAKE :: "Field" where "WAKE \<equiv> (U1MODE, 7, 1)"
abbreviation (input) LPBACK :: "Field" where "LPBACK \<equiv> (U1MODE, 6, 1)"
abbreviation (input) ABAUD :: "Field" where "ABAUD \<equiv> (U1MODE, 5, 1)"
abbreviation (input) URXINV :: "Field" where "URXINV \<equiv> (U1MODE, 4, 1)"
abbreviation (input) BRGH :: "Field" where "BRGH \<equiv> (U1MODE, 3, 1)"
abbreviation (input) PDSEL :: "Field" where "PDSEL \<equiv> (U1MODE, 1, 2)"
abbreviation (input) STSEL :: "Field" where "STSEL \<equiv> (U1MODE, 0, 1)"
abbreviation (input) UTXINV :: "Field" where "UTXINV \<equiv> (U1STA, 14, 1)"
abbreviation (input) UTXBRK :: "Field" where "UTXBRK \<equiv> (U1STA, 11, 1)"
abbreviation (input) UTXBF :: "Field" where "UTXBF \<equiv> (U1STA, 9, 1)"
abbreviation (input) TRMT :: "Field" where "TRMT \<equiv> (U1STA, 8, 1)"
abbreviation (input) ADDEN :: "Field" where "ADDEN \<equiv> (U1STA, 5, 1)"
abbreviation (input) URXISEL :: "nat \<Rightarrow> Field" where "URXISEL n \<equiv> (U1STA, n + 6, 1)"
abbreviation (input) UTXISEL :: "nat \<Rightarrow> Field" where "UTXISEL n \<equiv> (U1STA, 2 * n + 13, 1)"
abbreviation (input) UTXEN :: "Field" where "UTXEN \<equiv> (U1STA, 10, 1)"
abbreviation (input) U1RXR :: "Field" where "U1RXR \<equiv> (RPINR18, 0, 5)"
abbreviation (input) RP8R :: "Field" where "RP8R \<equiv> (RPOR4, 0, 5)"

text \<open>
  The state. \<open>disi\<close> disables and enables the user interrupts; the objects of \<open>uart.c\<close> and \<open>timer.c\<close> have the
  fields of the other target's.
\<close>

record dspic =
  dregs :: "DReg \<Rightarrow> u16"
  irq_on :: bool
  duart :: UART
  dtimers :: "Timer list"
  EncodersValue :: "u16 list"

definition put_dreg :: "DReg \<Rightarrow> u16 \<Rightarrow> dspic \<Rightarrow> dspic" where
  "put_dreg r v d = d\<lparr>dregs := (dregs d)(r := v)\<rparr>"

definition field_mask :: "nat \<Rightarrow> u16" where
  "field_mask w = word_of_nat (2 ^ w - 1)"

definition put_field :: "Field \<Rightarrow> u16 \<Rightarrow> dspic \<Rightarrow> dspic" where
  "put_field f v d =
     (case f of (r, p, w) \<Rightarrow>
        put_dreg r ((dregs d r AND NOT (push_bit p (field_mask w))) OR push_bit p (v AND field_mask w)) d)"

definition get_field :: "Field \<Rightarrow> dspic \<Rightarrow> u16" where
  "get_field f d = (case f of (r, p, w) \<Rightarrow> drop_bit p (dregs d r) AND field_mask w)"

definition put_fields :: "(Field \<times> u16) list \<Rightarrow> dspic \<Rightarrow> dspic" where
  "put_fields = fold (\<lambda>(f, v). put_field f v)"

definition disi :: "bool \<Rightarrow> dspic \<Rightarrow> dspic" where
  "disi on d = d\<lparr>irq_on := on\<rparr>"

section \<open>Pins and digital I/O\<close>

text \<open>A pin whose three registers are missing belongs to the encoders. \<open>None\<close> is the null pointer.\<close>

record DPin =
  dp_io :: bool
  dp_bit :: nat
  dp_pwm :: "(DReg \<times> DReg) option"
  dp_com_mask :: u16

definition port_pin :: "nat \<Rightarrow> DPin" where
  "port_pin b = \<lparr>dp_io = True, dp_bit = b, dp_pwm = None, dp_com_mask = 0\<rparr>"

definition encoder_pin :: "nat \<Rightarrow> DPin" where
  "encoder_pin b = \<lparr>dp_io = False, dp_bit = b, dp_pwm = None, dp_com_mask = 0\<rparr>"

definition pwm_pin :: "nat \<Rightarrow> DReg \<Rightarrow> nat \<Rightarrow> DPin" where
  "pwm_pin b oc m = \<lparr>dp_io = True, dp_bit = b, dp_pwm = Some (PWM1CON1, oc), dp_com_mask = push_bit m 1\<rparr>"

definition dpins :: "DPin list" where
  "dpins = [port_pin 0, port_pin 1, port_pin 15, pwm_pin 14 P1DC1 4, port_pin 13, pwm_pin 12 P1DC2 5, encoder_pin 11,
     encoder_pin 10, port_pin 9, encoder_pin 6, encoder_pin 5, port_pin 4, port_pin 3, port_pin 2]"

abbreviation (input) DPINS_NUM :: nat where "DPINS_NUM \<equiv> 14"

definition DigIO_numChannels_d :: u8 where
  "DigIO_numChannels_d = word_of_nat DPINS_NUM"

definition bit16 :: "nat \<Rightarrow> u16" where
  "bit16 n = push_bit n 1"

definition io_ready :: "u8 \<Rightarrow> bool" where
  "io_ready pin = (unat pin < DPINS_NUM \<and> dp_io (dpins ! unat pin))"

definition set_bits :: "bool \<Rightarrow> DReg \<Rightarrow> u16 \<Rightarrow> dspic \<Rightarrow> dspic" where
  "set_bits on r m d = put_dreg r (if on then dregs d r OR m else dregs d r AND NOT m) d"

text \<open>A cleared bit of \<open>TRISB\<close> makes a pin an output, so the direction is stored inverted.\<close>

definition DigIO_setDirection_d :: "u8 \<Rightarrow> PinDirection \<Rightarrow> dspic \<Rightarrow> int \<times> dspic" where
  "DigIO_setDirection_d pin dir d =
     (if \<not> io_ready pin then (- 1, d)
      else (0, set_bits (dir = Input) TRISB (bit16 (dp_bit (dpins ! unat pin))) d))"

definition DigIO_getDirection_d :: "u8 \<Rightarrow> dspic \<Rightarrow> int" where
  "DigIO_getDirection_d pin d =
     (if \<not> io_ready pin then - 1
      else if drop_bit (dp_bit (dpins ! unat pin)) (dregs d TRISB) AND 1 \<noteq> 0 then 0 else 1)"

definition DigIO_setValue_d :: "u8 \<Rightarrow> u8 \<Rightarrow> dspic \<Rightarrow> int \<times> dspic" where
  "DigIO_setValue_d pin v d =
     (if \<not> io_ready pin then (- 1, d)
      else (0, set_bits (v \<noteq> 0) LATB (bit16 (dp_bit (dpins ! unat pin))) d))"

definition DigIO_getValue_d :: "u8 \<Rightarrow> dspic \<Rightarrow> int" where
  "DigIO_getValue_d pin d =
     (if \<not> io_ready pin then - 1
      else uint (drop_bit (dp_bit (dpins ! unat pin)) (dregs d PORTB) AND 1))"

text \<open>The direction is the number 1, which is \<open>Output\<close>.\<close>

definition DigIO_init_d :: "dspic \<Rightarrow> dspic" where
  "DigIO_init_d d = fold (\<lambda>i d. snd (DigIO_setValue_d (word_of_nat i) 1
     (snd (DigIO_setDirection_d (word_of_nat i) Output d)))) [0..<unat DigIO_numChannels_d] d"

section \<open>PWM\<close>

definition PWM_init_d :: "dspic \<Rightarrow> PWMError \<times> dspic" where
  "PWM_init_d d0 =
     (let d = disi False d0;
          d = put_fields [(PTPER, 499), (SEVTCMP, 0), (PTEN, 1), (PTSIDL, 0), (PTOPS, 0), (PTCKPS, 0), (PTMOD, 0),
                (PMOD 1, 1), (PMOD 2, 1), (PENH 1, 1), (PENL 1, 0), (PENH 2, 1), (PENL 2, 0), (PENH 3, 0), (PENL 3, 0),
                (POVDH 3, 0), (POVDL 3, 0), (POVDH 2, 1), (POVDL 2, 0), (POVDH 1, 1), (POVDL 1, 0), (IUE, 1)] d
      in (PWMSuccess, disi True (put_dreg P1TMR 0 d)))"

definition PWM_numChannels_d :: u8 where
  "PWM_numChannels_d = word_of_nat DPINS_NUM"

definition pwm_registers :: "u8 \<Rightarrow> (DReg \<times> DReg) option" where
  "pwm_registers c = (if DPINS_NUM \<le> unat c then None else dp_pwm (dpins ! unat c))"

definition PWM_isEnabled_d :: "u8 \<Rightarrow> dspic \<Rightarrow> PWMError" where
  "PWM_isEnabled_d c d =
     (case pwm_registers c of
        None \<Rightarrow> PWMChannelOutOfBound
      | Some (tcc, oc) \<Rightarrow> if dregs d tcc AND dp_com_mask (dpins ! unat c) = 0 then PWMSuccess else PWMEnabled)"

definition PWM_enable_d :: "u8 \<Rightarrow> u8 \<Rightarrow> dspic \<Rightarrow> PWMError \<times> dspic" where
  "PWM_enable_d c enable d =
     (case pwm_registers c of
        None \<Rightarrow> (PWMChannelOutOfBound, d)
      | Some (tcc, oc) \<Rightarrow>
          let pin = dpins ! unat c; on = (enable \<noteq> 0) in
          (PWMSuccess, set_bits on TRISB (bit16 (dp_bit pin)) (set_bits on tcc (dp_com_mask pin) (put_dreg oc 0 d))))"

definition PWM_getDutyCycle_d :: "u8 \<Rightarrow> dspic \<Rightarrow> int" where
  "PWM_getDutyCycle_d c d =
     (case pwm_registers c of
        None \<Rightarrow> PWMError_code PWMChannelOutOfBound
      | Some (tcc, oc) \<Rightarrow> uint (drop_bit 3 (dregs d oc)))"

definition PWM_setDutyCycle_d :: "u8 \<Rightarrow> u8 \<Rightarrow> dspic \<Rightarrow> PWMError \<times> dspic" where
  "PWM_setDutyCycle_d c duty_cycle d =
     (case pwm_registers c of
        None \<Rightarrow> (PWMChannelOutOfBound, d)
      | Some (tcc, oc) \<Rightarrow> (PWMSuccess, put_dreg oc (push_bit 3 (ucast duty_cycle)) d))"

section \<open>Encoders\<close>

definition qei_setup :: "nat \<Rightarrow> (Field \<times> u16) list" where
  "qei_setup n = [(QEISIDL n, 0), (SWPAB n, 0), (PCDOUT n, 0), (POSRES n, 0), (QEIM n, 6), (TQCS n, 0), (QEOUT n, 0)]"

definition Encoder_init_d :: "dspic \<Rightarrow> dspic" where
  "Encoder_init_d d0 =
     (let d = put_fields [(QEA1R, 10), (QEB1R, 11), (QEA2R, 6), (QEB2R, 5)] d0;
          d = put_dreg POS1CNT 0 (put_fields (qei_setup 1) d)
      in put_dreg POS2CNT 0 (put_fields (qei_setup 2) d))"

definition Encoder_sample_d :: "dspic \<Rightarrow> dspic" where
  "Encoder_sample_d d =
     disi True ((disi False d)\<lparr>EncodersValue := [dregs d POS1CNT, dregs d POS2CNT]\<rparr>)"

definition Encoder_numEncoders_d :: u8 where
  "Encoder_numEncoders_d = 2"

definition Encoder_getValue_d :: "u8 \<Rightarrow> dspic \<Rightarrow> u16 result" where
  "Encoder_getValue_d n d =
     (if length (EncodersValue d) \<le> unat n then Inl OutOfBounds else Inr (EncodersValue d ! unat n))"

section \<open>UART\<close>

text \<open>\<open>setBaud57600\<close> and \<open>setBaud115200\<close>: \<open>FCY / (4 * baud) - 1\<close>.\<close>

definition setBaud_d :: "nat \<Rightarrow> dspic \<Rightarrow> dspic" where
  "setBaud_d baud d = put_dreg U1BRG (word_of_nat (16000000 div (4 * baud) - 1)) d"

text \<open>
  The clock set up; the two loops wait for bits that the hardware sets, and \<open>switched\<close> is the state
  in which they are set.
\<close>

definition setupOscillator :: "(dspic \<Rightarrow> dspic) \<Rightarrow> dspic \<Rightarrow> dspic" where
  "setupOscillator switched d0 =
     (let d = put_dreg PLLFBD 62 d0;
          d = put_fields [(PLLPOST, 1), (PLLPRE, 3)] d;
          d = put_dreg OSCTUN 0 d;
          d = put_dreg OSCCON ((dregs d OSCCON AND 0x00FF) OR 0x0300) d;
          d = put_dreg OSCCON (dregs d OSCCON OR 1) d
      in switched d)"

definition uart_setup :: "(Field \<times> u16) list" where
  "uart_setup = [(UARTEN, 1), (USIDL, 0), (IREN, 0), (RTSMD, 1), (UEN, 0), (WAKE, 0), (LPBACK, 0), (ABAUD, 0), (URXINV, 0),
     (BRGH, 1), (PDSEL, 0), (STSEL, 0), (UTXINV, 0), (UTXBRK, 0), (UTXBF, 0), (TRMT, 0), (ADDEN, 0), (U1RXIP, 4), (U1TXIP, 4),
     (URXISEL 1, 0), (URXISEL 0, 0), (UTXISEL 1, 0), (UTXISEL 0, 0)]"

definition UART_reset_d :: "dspic \<Rightarrow> dspic" where
  "UART_reset_d d0 =
     (let d = d0\<lparr>duart := (duart d0)\<lparr>uart_tx_start := 0, uart_tx_end := 0, uart_tx_size := 0,
                   uart_rx_start := 0, uart_rx_end := 0, uart_rx_size := 0\<rparr>\<rparr>;
          d = put_fields uart_setup d;
          d = put_dreg OSCCON (dregs d OSCCON AND NOT (bit16 6)) d;
          d = put_dreg AD1PCFGL 0xFFFF (put_fields [(U1RXR, 7), (RP8R, 3)] d);
          d = put_dreg OSCCON (dregs d OSCCON OR bit16 6) d
      in put_fields [(UTXEN, 1), (U1TXIF, 0), (U1RXIF, 0), (U1TXIE, 1), (U1RXIE, 1)] d)"

definition UART_init_d :: "(dspic \<Rightarrow> dspic) \<Rightarrow> u32 \<Rightarrow> dspic \<Rightarrow> bool \<times> dspic" where
  "UART_init_d switched baud d0 =
     (let d = setupOscillator switched d0; d = d\<lparr>duart := (duart d)\<lparr>uart_num := 0\<rparr>\<rparr> in
      if unat baud = 57600 then (True, UART_reset_d (setBaud_d 57600 d))
      else if unat baud = 115200 then (True, UART_reset_d (setBaud_d 115200 d))
      else (False, d))"

definition UART_putChar_d :: "u8 \<Rightarrow> dspic \<Rightarrow> dspic option" where
  "UART_putChar_d c d =
     (if int UART_BUFFER_SIZE \<le> uint (uart_tx_size (duart d)) then None
      else Some (put_field U1TXIF 1 (disi True ((disi False d)\<lparr>duart := uart_tx_put c (duart d)\<rparr>))))"

definition UART_getChar_d :: "dspic \<Rightarrow> (u8 \<times> dspic) option" where
  "UART_getChar_d d =
     (if uart_rx_size (duart d) = 0 then None
      else case uart_rx_get (duart d) of (c, u) \<Rightarrow> Some (c, disi True ((disi False d)\<lparr>duart := u\<rparr>)))"

definition U1RXInterrupt :: "dspic \<Rightarrow> dspic" where
  "U1RXInterrupt d =
     (let c = ucast (dregs d U1RXREG) in
      put_field U1RXIF 0 (if uint (uart_rx_size (duart d)) < int UART_BUFFER_SIZE then d\<lparr>duart := uart_rx_put c (duart d)\<rparr> else d))"

definition U1TXInterrupt :: "dspic \<Rightarrow> dspic" where
  "U1TXInterrupt d =
     (if uart_tx_size (duart d) \<noteq> 0
      then case uart_tx_get (duart d) of (c, u) \<Rightarrow> put_dreg U1TXREG (ucast c) (d\<lparr>duart := u\<rparr>)
      else put_field U1TXIF 0 d)"

section \<open>Timer\<close>

definition prescaler_of :: "u8 \<Rightarrow> nat" where
  "prescaler_of s = (if s = 1 then 8 else if s = 2 then 64 else if s = 3 then 256 else 1)"

definition computeOcrval :: "u16 \<Rightarrow> u8 \<Rightarrow> u16" where
  "computeOcrval duration prescaler_set =
     word_of_nat (16000000 div prescaler_of prescaler_set div 1000 * unat duration)"

definition timer3_start :: "Timer \<Rightarrow> dspic \<Rightarrow> dspic" where
  "timer3_start t d0 =
     (let d = put_fields [(TCKPS, 3), (T3IP, 1), (T3IF, 0), (T3IE, 1)] (put_dreg T3CON 0 d0);
          d = put_dreg PR3 (computeOcrval (duration_ms t) (ucast (get_field TCKPS d))) d
      in put_field TON 1 d)"

definition zero_timer_d :: "int \<Rightarrow> Timer" where
  "zero_timer_d i = \<lparr>timer_num = i, duration_ms = 0, timer_fn = None, timer_args = NULL\<rparr>"

definition Timers_init_d :: "dspic \<Rightarrow> dspic" where
  "Timers_init_d d = d\<lparr>dtimers := [zero_timer_d 0]\<rparr>"

text \<open>\<open>Timer_create\<close> returns the index of the timer.\<close>

definition Timer_create_d :: "string \<Rightarrow> u16 \<Rightarrow> TimerFn \<Rightarrow> addr \<Rightarrow> dspic \<Rightarrow> nat option \<times> dspic" where
  "Timer_create_d device duration fn args d =
     (if device = ''timer_0''
      then (Some 0, d\<lparr>dtimers := (dtimers d)[0 := \<lparr>timer_num = 0, duration_ms = duration, timer_fn = Some fn, timer_args = args\<rparr>]\<rparr>)
      else (None, d))"

definition Timer_stop_d :: "nat \<Rightarrow> dspic \<Rightarrow> dspic" where
  "Timer_stop_d i d =
     (if timer_num (dtimers d ! i) \<noteq> 0 then d else disi True (put_field T3IE 0 (disi False d)))"

definition Timer_start_d :: "nat \<Rightarrow> dspic \<Rightarrow> dspic" where
  "Timer_start_d i d0 =
     (let d = disi False d0 in
      disi True (if timer_num (dtimers d ! i) = 0 then timer3_start (dtimers d ! i) d else d))"

definition Timer_destroy_d :: "nat \<Rightarrow> dspic \<Rightarrow> dspic" where
  "Timer_destroy_d i d0 =
     (let d = disi False (Timer_stop_d i d0)
      in disi True (d\<lparr>dtimers := (dtimers d)[i := zero_timer_d (timer_num (dtimers d ! i))]\<rparr>))"

text \<open>The interrupt: \<open>call\<close> runs the installed function. At its end every output of the port is inverted.\<close>

definition T3Interrupt :: "(TimerFn \<Rightarrow> addr \<Rightarrow> dspic \<Rightarrow> dspic result) \<Rightarrow> dspic \<Rightarrow> dspic result" where
  "T3Interrupt call d0 =
     (let d = put_field T3IF 0 d0; t = dtimers d ! 0 in
      bindR (case timer_fn t of None \<Rightarrow> Inr d | Some fn \<Rightarrow> call fn (timer_args t) d) (\<lambda>d.
        Inr (put_dreg LATB (NOT (dregs d LATB)) d)))"

end
