(* ===== verification/DspicProperties.thy ===== *)
theory DspicProperties
  imports Dspic
begin

text \<open>
  The dsPIC target meets the interface of \<open>Hal\<close>; its UART is a FIFO, its
  timer counts 62 steps per millisecond; what its \<open>DigIO_init\<close> does to the outputs.
\<close>

section \<open>The interface\<close>

definition d_level :: "u8 \<Rightarrow> dspic \<Rightarrow> bool" where
  "d_level p d = bit (dregs d LATB) (dp_bit (dpins ! unat p))"

lemma length_dpins [simp]: "length dpins = 14"
  by (simp add: dpins_def)

lemma dpins_distinct: "distinct (map dp_bit dpins)"
  by (simp add: dpins_def port_pin_def encoder_pin_def pwm_pin_def)

lemma dpin_bit:
  assumes "n < 14"
  shows "dp_bit (dpins ! n) < 16"
  using assms by (cases rule: less_14_cases) (simp_all add: dpins_def port_pin_def encoder_pin_def pwm_pin_def)

lemma bit_bit16 [simp]: "n < 16 \<Longrightarrow> bit (bit16 n) m \<longleftrightarrow> m = n"
  by (auto simp: bit16_def bit_push_bit_iff possible_bit_word bit_1_iff simp del: push_bit_of_1)

lemma dpin_inj:
  assumes "io_ready p" and "io_ready q"
  shows "dp_bit (dpins ! unat q) = dp_bit (dpins ! unat p) \<longleftrightarrow> q = p"
  using assms dpins_distinct nth_eq_iff_index_eq[of "map dp_bit dpins" "unat q" "unat p"]
  by (auto simp: io_ready_def word_unat_eq_iff)

lemma bit_set_bits:
  "n < 16 \<Longrightarrow> m < 16 \<Longrightarrow> bit (dregs (set_bits on r (bit16 n) d) r') m = (if r' = r \<and> m = n then on else bit (dregs d r') m)"
  by (auto simp: set_bits_def put_dreg_def bit_or_iff bit_and_iff bit_not_iff possible_bit_word)

lemma odd_drop: "drop_bit n w AND 1 \<noteq> (0 :: u16) \<longleftrightarrow> bit w n"
  by (simp add: and_one_eq bit_iff_odd_drop_bit odd_iff_mod_2_eq_one)

interpretation d_io: digital_io io_ready DigIO_setDirection_d DigIO_getDirection_d DigIO_setValue_d d_level
proof unfold_locales
  fix p q :: u8 and dir :: PinDirection and v :: u8 and s :: dspic
  have b: "io_ready p \<Longrightarrow> dp_bit (dpins ! unat p) < 16" for p by (rule dpin_bit) (simp add: io_ready_def)
  show "io_ready p \<Longrightarrow> io_ready q \<Longrightarrow> case DigIO_setDirection_d p dir s of (r, s') \<Rightarrow> r = 0
      \<and> DigIO_getDirection_d q s' = (if q = p then of_bool (dir = Output) else DigIO_getDirection_d q s) \<and> d_level q s' = d_level q s"
    using b[of p] b[of q] dpin_inj[of p q]
    by (cases dir) (simp_all add: DigIO_setDirection_d_def DigIO_getDirection_d_def d_level_def odd_drop bit_set_bits)
  show "io_ready p \<Longrightarrow> io_ready q \<Longrightarrow> case DigIO_setValue_d p v s of (r, s') \<Rightarrow> r = 0
      \<and> d_level q s' = (if q = p then v \<noteq> 0 else d_level q s) \<and> DigIO_getDirection_d q s' = DigIO_getDirection_d q s"
    using b[of p] b[of q] dpin_inj[of p q]
    by (simp add: DigIO_setValue_d_def DigIO_getDirection_d_def d_level_def odd_drop bit_set_bits)
  show "\<not> io_ready p \<Longrightarrow> DigIO_setDirection_d p dir s = (- 1, s) \<and> DigIO_setValue_d p v s = (- 1, s) \<and> DigIO_getDirection_d p s = - 1"
    by (simp add: DigIO_setDirection_d_def DigIO_setValue_d_def DigIO_getDirection_d_def)
qed

lemma pwm_registers_iff:
  "pwm_registers c = (if c = 3 then Some (PWM1CON1, P1DC1) else if c = 5 then Some (PWM1CON1, P1DC2) else None)"
proof (cases "unat c < 14")
  case True
  then show ?thesis
    by (cases rule: less_14_cases) (simp_all add: pwm_registers_def dpins_def port_pin_def encoder_pin_def pwm_pin_def word_unat_eq_iff)
next
  case False
  then show ?thesis by (auto simp: pwm_registers_def)
qed

lemma duty_word: "uint (drop_bit 3 (push_bit 3 (ucast v :: u16))) = uint (v :: u8)"
proof -
  have "uint v < 256" using uint_lt2p[of v] by simp
  then have "uint (ucast v :: u16) * 8 < 65536" and u: "uint (ucast v :: u16) = uint v"
    by (simp_all add: unsigned_ucast_eq take_bit_eq_mod)
  then have "uint (push_bit 3 (ucast v :: u16)) = uint v * 8"
    by (simp add: push_bit_eq_mult uint_word_ariths(3))
  moreover have "uint (drop_bit 3 w) = uint w div 8" for w :: u16 by (simp add: drop_bit_eq_div uint_div)
  ultimately show ?thesis by simp
qed

interpretation d_pwm: pwm_driver "\<lambda>c. c = 3 \<or> c = 5" PWM_setDutyCycle_d PWM_getDutyCycle_d
  by unfold_locales (auto simp: PWM_setDutyCycle_d_def PWM_getDutyCycle_d_def pwm_registers_iff put_dreg_def duty_word)

section \<open>Set-up\<close>

text \<open>
  After \<open>DigIO_init\<close> every pin of the ATmega2560 is an input with its pull-up, as the comments say; on the dsPIC, whose
  \<open>DigIO_init\<close> has the same comments, every pin that is not the encoders' is an output that is driven high.
\<close>

theorem DigIO_init_targets:
  "(unat p < 14 \<longrightarrow> DigIO_getDirection p (DigIO_init a) = 0 \<and> out_level p (DigIO_init a))
    \<and> (io_ready p \<longrightarrow> DigIO_getDirection_d p (DigIO_init_d d) = 1 \<and> d_level p (DigIO_init_d d))"
proof -
  have n: "unat DigIO_numChannels = 14" "unat DigIO_numChannels_d = 14"
    by (simp_all add: DigIO_numChannels_def DigIO_numChannels_d_def)
  have "io_ready p \<Longrightarrow> unat p < 14" by (simp add: io_ready_def)
  then show ?thesis
    using avr_io.setup_pins[of p 14 Input a] d_io.setup_pins[of p 14 Output d] n
    by (simp add: DigIO_init_def DigIO_init_d_def)
qed

theorem DigIO_init_targets_witness:
  "DigIO_getDirection 4 (DigIO_init avr0) = 0 \<and> (\<forall>d. DigIO_getDirection_d 2 (DigIO_init_d d) = 1)"
proof -
  have "io_ready 2" by (simp add: io_ready_def dpins_def port_pin_def)
  then show ?thesis using DigIO_init_targets[of 4 avr0] DigIO_init_targets[of 2 avr0] by simp
qed

section \<open>Timer\<close>

text \<open>The period is 62 counts per millisecond (the exact value is 62.5), modulo 65536.\<close>

lemma computeOcrval_256: "computeOcrval ms 3 = word_of_nat (62 * unat ms)"
  by (simp add: computeOcrval_def prescaler_of_def)

section \<open>UART\<close>

text \<open>What arrives is queued by the interrupt in order, up to 255 bytes.\<close>

definition dspic_receives :: "u8 list \<Rightarrow> dspic \<Rightarrow> dspic" where
  "dspic_receives bs d = fold (\<lambda>c d. U1RXInterrupt (put_dreg U1RXREG (ucast c) d)) bs d"

lemma dspic_receives_uart: "duart (dspic_receives bs d) = fold uart_rx_put bs (duart d)"
proof (induction bs arbitrary: d)
  case (Cons c bs)
  have "uint (uart_rx_size u) < 256" for u :: UART using uint_lt2p[of "uart_rx_size u"] by simp
  then have "duart (U1RXInterrupt (put_dreg U1RXREG (ucast c) d)) = uart_rx_put c (duart d)"
    by (simp add: U1RXInterrupt_def put_field_def put_dreg_def ucast_u8_u16 split: prod.splits)
  then show ?case using Cons by (simp add: dspic_receives_def)
qed (simp add: dspic_receives_def)

lemma dspic_receives_fifo:
  assumes "uart_rx_ok (duart d)" and "length (uart_rx_items (duart d) @ bs) \<le> 255"
  shows "uart_rx_items (duart (dspic_receives bs d)) = uart_rx_items (duart d) @ bs"
  using uart_rx.put_all[of "duart d" bs] assms by (simp add: dspic_receives_uart del: length_uart_items)

end
