(* ===== verification/Dee.thy ===== *)
theory Dee
  imports Prelude
begin

text \<open>
  \<open>src/orazio_lib/src/arch/dspic/DEE_Emulation_16-bit.c\<close> and \<open>.h\<close>: the EEPROM of the dsPIC, emulated in its program
  memory. Values are appended to the current one of 16 pages; when the page is full the last value of
  every address is packed into the next page. The processor has no \<open>__AUXFLASH\<close> and no \<open>__HAS_ECC\<close>, and its header defines
  \<open>_ERASE\<close>, so these branches of the source are the ones compiled. The table
  accesses of \<open>FlashOperations.s\<close> work on write latches and a flash controller as the processor documents them.
\<close>

section \<open>Program memory\<close>

abbreviation (input) DATA_EE_BANKS :: nat where "DATA_EE_BANKS \<equiv> 1"
abbreviation (input) DATA_EE_SIZE :: nat where "DATA_EE_SIZE \<equiv> 255"
abbreviation (input) DATA_EE_TOTAL_SIZE :: nat where "DATA_EE_TOTAL_SIZE \<equiv> 255"
abbreviation (input) NUM_DATA_EE_PAGES :: nat where "NUM_DATA_EE_PAGES \<equiv> 16"
abbreviation (input) NUMBER_OF_INSTRUCTIONS_IN_PAGE :: nat where "NUMBER_OF_INSTRUCTIONS_IN_PAGE \<equiv> 512"
abbreviation (input) NUMBER_OF_INSTRUCTIONS_IN_ROW :: nat where "NUMBER_OF_INSTRUCTIONS_IN_ROW \<equiv> 64"
abbreviation (input) ERASE_WRITE_CYCLE_MAX :: nat where "ERASE_WRITE_CYCLE_MAX \<equiv> 100"
abbreviation (input) ERASE_PAGE :: u16 where "ERASE_PAGE \<equiv> 0x4042"
abbreviation (input) PROGRAM_ROW :: u16 where "PROGRAM_ROW \<equiv> 0x4001"
abbreviation (input) PROGRAM_WORD :: u16 where "PROGRAM_WORD \<equiv> 0x4003"

text \<open>
  An instruction word has a high byte and a low half; two addresses belong to each. The linker places \<open>emulationPages\<close> at
  \<open>ee_base\<close>. A table write fills one of 64 latches and leaves its address for the next operation of the flash controller.
\<close>

record dee =
  ee_base :: nat
  flash :: "nat \<Rightarrow> u8 \<times> u16"
  latches :: "nat \<Rightarrow> u8 \<times> u16"
  latch_addr :: nat
  nvmcon :: u16
  dataEEFlags :: u8

text \<open>
  The operations of \<open>FlashOperations.s\<close>. \<open>TBLPAG\<close> is saved and restored by every function of the emulation, so its value
  is an argument here.
\<close>

definition pm_index :: "u16 \<Rightarrow> u16 \<Rightarrow> nat" where
  "pm_index tblpag off = (unat tblpag * 65536 + unat off) div 2"

definition ReadPMHigh :: "u16 \<Rightarrow> u16 \<Rightarrow> dee \<Rightarrow> u8" where
  "ReadPMHigh tblpag off d = fst (flash d (pm_index tblpag off))"

definition ReadPMLow :: "u16 \<Rightarrow> u16 \<Rightarrow> dee \<Rightarrow> u16" where
  "ReadPMLow tblpag off d = snd (flash d (pm_index tblpag off))"

definition WritePMHigh :: "u8 \<Rightarrow> u16 \<Rightarrow> u16 \<Rightarrow> dee \<Rightarrow> dee" where
  "WritePMHigh v tblpag off d =
     (let i = pm_index tblpag off; l = i mod NUMBER_OF_INSTRUCTIONS_IN_ROW in
      d\<lparr>latches := (latches d)(l := (v, snd (latches d l))), latch_addr := i\<rparr>)"

definition WritePMLow :: "u16 \<Rightarrow> u16 \<Rightarrow> u16 \<Rightarrow> dee \<Rightarrow> dee" where
  "WritePMLow v tblpag off d =
     (let i = pm_index tblpag off; l = i mod NUMBER_OF_INSTRUCTIONS_IN_ROW in
      d\<lparr>latches := (latches d)(l := (fst (latches d l), v)), latch_addr := i\<rparr>)"

text \<open>Programming clears bits, only erasing a whole page sets them.\<close>

definition program :: "u8 \<times> u16 \<Rightarrow> u8 \<times> u16 \<Rightarrow> u8 \<times> u16" where
  "program old new = (fst old AND fst new, snd old AND snd new)"

definition UnlockWrite :: "dee \<Rightarrow> dee" where
  "UnlockWrite d =
     (let a = latch_addr d; row = NUMBER_OF_INSTRUCTIONS_IN_ROW in
      if nvmcon d = PROGRAM_WORD then d\<lparr>flash := (flash d)(a := program (flash d a) (latches d (a mod row)))\<rparr>
      else if nvmcon d = PROGRAM_ROW
        then d\<lparr>flash := (\<lambda>i. if i div row = a div row then program (flash d i) (latches d (i mod row)) else flash d i)\<rparr>
      else if nvmcon d = ERASE_PAGE
        then d\<lparr>flash := (\<lambda>i. if i div NUMBER_OF_INSTRUCTIONS_IN_PAGE = a div NUMBER_OF_INSTRUCTIONS_IN_PAGE
                 then (0xFF, 0xFFFF) else flash d i)\<rparr>
      else d)"

section \<open>Flags\<close>

abbreviation (input) addrNotFound :: nat where "addrNotFound \<equiv> 0"
abbreviation (input) expiredPage :: nat where "expiredPage \<equiv> 1"
abbreviation (input) packBeforePageFull :: nat where "packBeforePageFull \<equiv> 2"
abbreviation (input) packBeforeInit :: nat where "packBeforeInit \<equiv> 3"
abbreviation (input) packSkipped :: nat where "packSkipped \<equiv> 4"
abbreviation (input) IllegalAddress :: nat where "IllegalAddress \<equiv> 5"
abbreviation (input) pageCorrupt :: nat where "pageCorrupt \<equiv> 6"
abbreviation (input) writeError :: nat where "writeError \<equiv> 7"

definition ee_flag :: "nat \<Rightarrow> dee \<Rightarrow> bool" where
  "ee_flag n d = bit (dataEEFlags d) n"

definition set_flag :: "nat \<Rightarrow> bool \<Rightarrow> dee \<Rightarrow> dee" where
  "set_flag n b d = d\<lparr>dataEEFlags := (if b then set_bit n (dataEEFlags d) else unset_bit n (dataEEFlags d))\<rparr>"

section \<open>Pages\<close>

definition page_addr :: "dee \<Rightarrow> nat \<Rightarrow> nat \<Rightarrow> nat" where
  "page_addr d bank page = ee_base d + (2 * NUMBER_OF_INSTRUCTIONS_IN_PAGE * NUM_DATA_EE_PAGES) * bank + 2 * NUMBER_OF_INSTRUCTIONS_IN_PAGE * page"

definition DEE_PAGE_TBL :: "dee \<Rightarrow> nat \<Rightarrow> nat \<Rightarrow> u16" where
  "DEE_PAGE_TBL d bank page = word_of_nat (page_addr d bank page div 65536)"

definition DEE_PAGE_OFFSET :: "dee \<Rightarrow> nat \<Rightarrow> nat \<Rightarrow> u16" where
  "DEE_PAGE_OFFSET d bank page = word_of_nat (page_addr d bank page mod 65536)"

text \<open>The bits of the status byte; a cleared bit means current or expired.\<close>

abbreviation (input) STATUS_AVAILABLE :: nat where "STATUS_AVAILABLE \<equiv> 18"
abbreviation (input) STATUS_CURRENT :: nat where "STATUS_CURRENT \<equiv> 19"
abbreviation (input) STATUS_EXPIRED :: nat where "STATUS_EXPIRED \<equiv> 20"

definition GetPageStatus :: "nat \<Rightarrow> nat \<Rightarrow> nat \<Rightarrow> dee \<Rightarrow> u8" where
  "GetPageStatus bank page field d =
     (let statusByte = ReadPMHigh (DEE_PAGE_TBL d bank page) (DEE_PAGE_OFFSET d bank page) d in
      if field = STATUS_AVAILABLE then drop_bit 2 (statusByte AND 4)
      else if field = STATUS_CURRENT then drop_bit 3 (statusByte AND 8)
      else if field = STATUS_EXPIRED then drop_bit 4 (statusByte AND 16)
      else 0)"

definition ErasePage :: "nat \<Rightarrow> nat \<Rightarrow> dee \<Rightarrow> dee" where
  "ErasePage bank page d =
     (let off = DEE_PAGE_OFFSET d bank page in
      UnlockWrite (WritePMLow off (DEE_PAGE_TBL d bank page) off (d\<lparr>nvmcon := ERASE_PAGE\<rparr>)))"

text \<open>The loops that look for the current page: its number, or the number of pages.\<close>

definition current_page :: "nat \<Rightarrow> dee \<Rightarrow> nat" where
  "current_page bank d = length (takeWhile (\<lambda>page. GetPageStatus bank page STATUS_CURRENT d = 1) [0..<NUM_DATA_EE_PAGES])"

text \<open>\<open>GetNextAvailCount\<close> walks over the words behind the status until one has no address; 0 when there is none.\<close>

definition GetNextAvailCount :: "nat \<Rightarrow> dee \<Rightarrow> nat" where
  "GetNextAvailCount bank d =
     (let page = current_page bank d; tblpag = DEE_PAGE_TBL d bank page; off = DEE_PAGE_OFFSET d bank page;
          i = 2 * (1 + length (takeWhile (\<lambda>k. ReadPMHigh tblpag (off + word_of_nat (2 * k)) d \<noteq> 0xFF)
                [1..<NUMBER_OF_INSTRUCTIONS_IN_PAGE]))
      in if i = 2 * NUMBER_OF_INSTRUCTIONS_IN_PAGE then 0 else i)"

section \<open>Reading\<close>

text \<open>The search starts at the last word of the page; the status word never matches.\<close>

definition DataEERead :: "u16 \<Rightarrow> dee \<Rightarrow> u16 \<times> dee" where
  "DataEERead addr d =
     (if DATA_EE_TOTAL_SIZE \<le> unat addr then (0xFFFF, set_flag IllegalAddress True d)
      else
        let bank = unat addr div DATA_EE_SIZE; page = current_page bank d in
        if page = NUM_DATA_EE_PAGES then (0xFFFF, set_flag pageCorrupt True d)
        else
          let tblpag = DEE_PAGE_TBL d bank page;
              word = (\<lambda>i. DEE_PAGE_OFFSET d bank (page + 1) - word_of_nat (2 * (NUMBER_OF_INSTRUCTIONS_IN_PAGE - i)))
          in case find (\<lambda>i. unat (ReadPMHigh tblpag (word i) d) = unat addr mod DATA_EE_SIZE) (rev [1..<NUMBER_OF_INSTRUCTIONS_IN_PAGE]) of
               None \<Rightarrow> (0xFFFF, set_flag addrNotFound True d)
             | Some i \<Rightarrow> (ReadPMLow tblpag (word i) d, d))"

section \<open>Packing\<close>

text \<open>The innermost loop: the rest of the row after the last address.\<close>

function fill_row :: "u16 \<Rightarrow> u16 \<Rightarrow> nat \<Rightarrow> dee \<Rightarrow> u16 \<times> dee" where
  "fill_row tblpag off i d =
     (if i < NUMBER_OF_INSTRUCTIONS_IN_ROW
      then fill_row tblpag (off + 2) (i + 1) (WritePMHigh 0xFF tblpag off (WritePMLow 0xFFFF tblpag off d))
      else (off, d))"
  by pat_completeness auto
termination by (relation "measure (\<lambda>(tblpag, off, i, d). NUMBER_OF_INSTRUCTIONS_IN_ROW - i)") auto

text \<open>One address: its value goes to the next word, an address without a value is left out.\<close>

definition pack_value :: "nat \<Rightarrow> u16 \<Rightarrow> nat \<Rightarrow> u16 \<times> nat \<times> dee \<Rightarrow> u16 \<times> nat \<times> dee" where
  "pack_value bank tblpag latchAddr = (\<lambda>(off, i, d).
     case DataEERead (word_of_nat (DATA_EE_SIZE * bank + latchAddr)) d of (latchData, d) \<Rightarrow>
       if ee_flag addrNotFound d then (off, i, set_flag addrNotFound False d)
       else (off + 2, i + 1, WritePMHigh (word_of_nat latchAddr) tblpag off (WritePMLow latchData tblpag off d)))"

definition end_row :: "u16 \<Rightarrow> nat \<Rightarrow> u16 \<times> nat \<times> dee \<Rightarrow> u16 \<times> nat \<times> dee" where
  "end_row tblpag latchAddr = (\<lambda>(off, i, d).
     if latchAddr = DATA_EE_SIZE then case fill_row tblpag off i d of (off, d) \<Rightarrow> (off, NUMBER_OF_INSTRUCTIONS_IN_ROW, d) else (off, i, d))"

text \<open>One row of the packed page: the next address, the next offset and the memory.\<close>

function pack_row :: "nat \<Rightarrow> u16 \<Rightarrow> nat \<Rightarrow> u16 \<Rightarrow> nat \<Rightarrow> dee \<Rightarrow> nat \<times> u16 \<times> dee" where
  "pack_row bank tblpag latchAddr off i d =
     (if DATA_EE_SIZE \<le> latchAddr \<or> NUMBER_OF_INSTRUCTIONS_IN_ROW \<le> i then (latchAddr, off, d)
      else case end_row tblpag (latchAddr + 1) (pack_value bank tblpag latchAddr (off, i, d)) of (off, i, d) \<Rightarrow>
        pack_row bank tblpag (latchAddr + 1) off i d)"
  by pat_completeness auto
termination by (relation "measure (\<lambda>(bank, tblpag, latchAddr, off, i, d). DATA_EE_SIZE - latchAddr)") auto

declare fill_row.simps [simp del] pack_row.simps [simp del]

lemma pack_row_case:
  "case pack_row bank tblpag latchAddr off i d of (latchAddr', _) \<Rightarrow>
     latchAddr \<le> latchAddr' \<and> (latchAddr < DATA_EE_SIZE \<and> i < NUMBER_OF_INSTRUCTIONS_IN_ROW \<longrightarrow> latchAddr < latchAddr')"
proof (induction bank tblpag latchAddr off i d rule: pack_row.induct)
  case (1 bank tblpag latchAddr off i d)
  show ?case
    by (subst pack_row.simps) (use 1 in \<open>fastforce simp: Let_def split: prod.splits if_splits\<close>)
qed

lemma pack_row_progress:
  assumes "(a, r) = pack_row bank tblpag latchAddr off i d"
  shows "latchAddr \<le> a" and "latchAddr < DATA_EE_SIZE \<Longrightarrow> i < NUMBER_OF_INSTRUCTIONS_IN_ROW \<Longrightarrow> latchAddr < a"
  using pack_row_case[of latchAddr i bank tblpag off d] assms by (auto split: prod.splits)

function pack_rows :: "nat \<Rightarrow> u16 \<Rightarrow> nat \<Rightarrow> u16 \<Rightarrow> nat \<Rightarrow> dee \<Rightarrow> dee" where
  "pack_rows bank tblpag latchAddr off i d =
     (case pack_row bank tblpag latchAddr off i d of (latchAddr', off', d') \<Rightarrow>
        if DATA_EE_SIZE \<le> latchAddr' then UnlockWrite d' else pack_rows bank tblpag latchAddr' off' 0 (UnlockWrite d'))"
  by pat_completeness auto
termination
proof (relation "measures [\<lambda>(bank, tblpag, latchAddr, off, i, d). DATA_EE_SIZE - latchAddr, \<lambda>(bank, tblpag, latchAddr, off, i, d). i]", simp)
  fix bank :: nat and tblpag off off' :: u16 and latchAddr latchAddr' i :: nat and d d' :: dee and y :: "u16 \<times> dee"
  assume "(latchAddr', y) = pack_row bank tblpag latchAddr off i d" "\<not> DATA_EE_SIZE \<le> latchAddr'"
  then show "((bank, tblpag, latchAddr', off', 0, UnlockWrite d'), (bank, tblpag, latchAddr, off, i, d))
    \<in> measures [\<lambda>(bank, tblpag, latchAddr, off, i, d). DATA_EE_SIZE - latchAddr, \<lambda>(bank, tblpag, latchAddr, off, i, d). i]"
    using pack_row_progress[of latchAddr' y bank tblpag latchAddr off i d] by (cases "i < NUMBER_OF_INSTRUCTIONS_IN_ROW") auto
qed

declare pack_rows.simps [simp del]

text \<open>
  The comparison of the packed values with the current page, up to a word without address. The offset has 16 bits, so
  after 32768 words the loop would go round for ever.
\<close>

fun verify_pack :: "nat \<Rightarrow> u16 \<Rightarrow> u16 \<Rightarrow> nat \<Rightarrow> dee \<Rightarrow> (bool \<times> dee) result" where
  "verify_pack bank tblpag off 0 d = Inl Diverges"
| "verify_pack bank tblpag off (Suc n) d =
     (let latchAddr = ReadPMHigh tblpag off d; latchData = ReadPMLow tblpag off d in
      if latchAddr = 0xFF then Inr (True, d)
      else case DataEERead (word_of_nat (DATA_EE_SIZE * bank + unat latchAddr)) d of (v, d) \<Rightarrow>
        if v \<noteq> latchData then Inr (False, d) else verify_pack bank tblpag (off + 2) n d)"

text \<open>The status of the packed page, and the end of the current one.\<close>

definition finish_pack :: "nat \<Rightarrow> nat \<Rightarrow> nat \<Rightarrow> dee \<Rightarrow> nat \<times> dee" where
  "finish_pack bank currentPage packedPage d0 =
     (let tblpag = DEE_PAGE_TBL d0 bank currentPage; off = DEE_PAGE_OFFSET d0 bank currentPage;
          latchData = ReadPMLow tblpag off d0; latchAddr = ReadPMHigh tblpag off d0;
          latchData = (if packedPage = 0 then latchData + 1 else latchData);
          expired = (ERASE_WRITE_CYCLE_MAX - 1 \<le> unat latchData);
          d = (if expired then set_flag expiredPage True d0 else d0);
          latchAddr = (if expired then latchAddr AND 0xEF else latchAddr);
          tblpag = DEE_PAGE_TBL d bank packedPage; off = DEE_PAGE_OFFSET d bank packedPage;
          d = UnlockWrite (WritePMLow latchData tblpag off (WritePMHigh latchAddr tblpag off (d\<lparr>nvmcon := PROGRAM_WORD\<rparr>)))
      in if latchAddr \<noteq> ReadPMHigh tblpag off d \<or> latchData \<noteq> ReadPMLow tblpag off d then (7, set_flag writeError True d)
         else let d = ErasePage bank currentPage d in (if ee_flag expiredPage d then 1 else 0, d))"

definition next_unexpired :: "nat \<Rightarrow> nat \<Rightarrow> dee \<Rightarrow> nat option" where
  "next_unexpired bank currentPage d =
     find (\<lambda>page. GetPageStatus bank page STATUS_EXPIRED d \<noteq> 0) (map (\<lambda>i. (currentPage + i) mod NUM_DATA_EE_PAGES) [1..<NUM_DATA_EE_PAGES])"

text \<open>The values are collected and programmed into the packed page; the flags are those from before.\<close>

definition pack_values :: "nat \<Rightarrow> nat \<Rightarrow> dee \<Rightarrow> dee" where
  "pack_values bank packedPage d0 =
     (let d = (if GetNextAvailCount bank d0 \<noteq> 0 then set_flag packBeforePageFull True d0 else d0);
          flags = dataEEFlags d; tblpag = DEE_PAGE_TBL d bank packedPage; off = DEE_PAGE_OFFSET d bank packedPage;
          d = (set_flag addrNotFound False d)\<lparr>nvmcon := PROGRAM_ROW\<rparr>;
          d = WritePMHigh 0xFF tblpag off (WritePMLow 0xFFFF tblpag off d);
          d = pack_rows bank tblpag 0 (off + 2) 1 d
      in d\<lparr>dataEEFlags := flags\<rparr>)"

definition PackEE :: "nat \<Rightarrow> dee \<Rightarrow> (nat \<times> dee) result" where
  "PackEE bank d =
     (let currentPage = current_page bank d in
      if currentPage = NUM_DATA_EE_PAGES then Inr (3, set_flag packBeforeInit True d)
      else case next_unexpired bank currentPage d of
          None \<Rightarrow> Inr (1, set_flag expiredPage True d)
        | Some packedPage \<Rightarrow>
            let d = pack_values bank packedPage d in
            bindR (verify_pack bank (DEE_PAGE_TBL d bank packedPage) (DEE_PAGE_OFFSET d bank packedPage + 2) 32768 d) (\<lambda>(ok, d).
              Inr (if ok then finish_pack bank currentPage packedPage d else (7, set_flag writeError True d))))"

section \<open>Start\<close>

text \<open>What \<open>DataEEInit\<close> does with a bank; an error code ends it.\<close>

definition init_bank :: "nat \<Rightarrow> dee \<Rightarrow> (nat \<times> dee) result" where
  "init_bank bank d =
     (let current = filter (\<lambda>page. GetPageStatus bank page STATUS_CURRENT d = 0) [0..<NUM_DATA_EE_PAGES] in
      if \<forall>page \<in> set [0..<NUM_DATA_EE_PAGES]. GetPageStatus bank page STATUS_EXPIRED d = 0 then Inr (1, set_flag expiredPage True d)
      else if length current = 0 then
        let d = (ErasePage bank 0 d)\<lparr>nvmcon := PROGRAM_WORD\<rparr>;
            tblpag = DEE_PAGE_TBL d bank 0; off = DEE_PAGE_OFFSET d bank 0
        in Inr (0, UnlockWrite (WritePMHigh 0xF3 tblpag off (WritePMLow 0 tblpag off d)))
      else if length current = 1 then Inr (0, d)
      else if length current = 2 then
        let erasePage = (if GetPageStatus bank (NUM_DATA_EE_PAGES - 1) STATUS_CURRENT d = 0 \<and> GetPageStatus bank 0 STATUS_CURRENT d = 0 then 0
              else if current_page bank d + 1 = NUM_DATA_EE_PAGES then 0 else current_page bank d + 1);
            d = ErasePage bank erasePage d
        in if GetNextAvailCount bank d = 0 then bindR (PackEE bank d) (\<lambda>(_, d). Inr (0, d)) else Inr (0, d)
      else Inr (6, set_flag pageCorrupt True d))"

fun init_banks :: "nat list \<Rightarrow> dee \<Rightarrow> (nat \<times> dee) result" where
  "init_banks [] d = Inr (0, d)"
| "init_banks (bank # banks) d =
     bindR (init_bank bank d) (\<lambda>(code, d). if code \<noteq> 0 then Inr (code, d) else init_banks banks d)"

definition DataEEInit :: "dee \<Rightarrow> (nat \<times> dee) result" where
  "DataEEInit d = init_banks [0..<DATA_EE_BANKS] d"

section \<open>Writing\<close>

text \<open>The check of the programmed word: low byte, address and high byte of the data.\<close>

definition write_ok :: "u16 \<Rightarrow> u16 \<Rightarrow> u16 \<Rightarrow> nat \<Rightarrow> dee \<Rightarrow> bool" where
  "write_ok tblpag off data addr d \<longleftrightarrow> ReadPMLow tblpag off d AND 0xFF = data AND 0xFF \<and> unat (ReadPMHigh tblpag off d) = addr
     \<and> drop_bit 8 (ReadPMLow tblpag (off + 1) d) = drop_bit 8 data"

definition DataEEWrite :: "u16 \<Rightarrow> u16 \<Rightarrow> dee \<Rightarrow> (nat \<times> dee) result" where
  "DataEEWrite data addr d0 =
     (if DATA_EE_TOTAL_SIZE \<le> unat addr then Inr (5, set_flag IllegalAddress True d0)
      else
        let bank = unat addr div DATA_EE_SIZE; d = d0\<lparr>nvmcon := PROGRAM_WORD\<rparr>; page = current_page bank d in
        if page = NUM_DATA_EE_PAGES then Inr (6, set_flag pageCorrupt True d)
        else
          let tblpag = DEE_PAGE_TBL d bank page; (v, d') = DataEERead addr d in
          if v = data \<and> \<not> ee_flag addrNotFound d' then Inr (0, d'\<lparr>dataEEFlags := dataEEFlags d\<rparr>)
          else
            let d = d'\<lparr>dataEEFlags := dataEEFlags d\<rparr>; nextLoc = GetNextAvailCount bank d in
            if nextLoc = 0 then Inr (4, set_flag packSkipped True d)
            else
              let off = DEE_PAGE_OFFSET d bank page + word_of_nat nextLoc; a = unat addr mod DATA_EE_SIZE;
                  d = UnlockWrite (WritePMHigh (word_of_nat a) tblpag off (WritePMLow data tblpag off d))
              in if \<not> write_ok tblpag off data a d then Inr (7, set_flag writeError True d)
                 else if nextLoc + 2 = 2 * NUMBER_OF_INSTRUCTIONS_IN_PAGE then bindR (PackEE bank d) (\<lambda>(_, d). Inr (0, d))
                 else Inr (0, d))"

end
