(* ===== verification/DeeLog.thy ===== *)
theory DeeLog
  imports Dee
begin

text \<open>
  The emulated EEPROM as a log: the words of a page, what reading and the search for a free word see of them, and
  what the flash controller does to them.
\<close>

section \<open>Words of a page\<close>

text \<open>\<open>emulationPages\<close> is aligned to its pages and lies in the program memory.\<close>

definition base_ok :: "dee \<Rightarrow> bool" where
  "base_ok d \<longleftrightarrow> ee_base d mod 1024 = 0 \<and> ee_base d + 16384 \<le> 2 ^ 24"

definition word_index :: "dee \<Rightarrow> nat \<Rightarrow> nat \<Rightarrow> nat" where
  "word_index d p k = ee_base d div 2 + 512 * p + k"

definition cell :: "dee \<Rightarrow> nat \<Rightarrow> nat \<Rightarrow> u8 \<times> u16" where
  "cell d p k = flash d (word_index d p k)"

abbreviation erased_word :: "u8 \<times> u16" where
  "erased_word \<equiv> (0xFF, 0xFFFF)"

definition loc :: "dee \<Rightarrow> nat \<Rightarrow> nat \<Rightarrow> u16" where
  "loc d p k = DEE_PAGE_OFFSET d 0 p + word_of_nat (2 * k)"

lemma word_of_nat_mod_u16: "(word_of_nat (n mod 65536) :: u16) = word_of_nat n"
  by (simp add: word_unat_eq_iff unat_of_nat)

lemma unat_word_of_nat_u16: "unat (word_of_nat n :: u16) = n mod 65536"
  by (simp add: unat_of_nat)

lemma pm_index_page:
  assumes "base_ok d" and "p < 16" and "j < 1024"
  shows "pm_index (DEE_PAGE_TBL d 0 p) (DEE_PAGE_OFFSET d 0 p + word_of_nat j) = ee_base d div 2 + 512 * p + j div 2"
proof -
  obtain b where b: "ee_base d = 1024 * b" using assms(1) by (auto simp: base_ok_def)
  let ?a = "1024 * (b + p)"
  have a: "page_addr d 0 p = ?a" by (simp add: page_addr_def b algebra_simps)
  have lim: "?a < 2 ^ 24" using assms(1,2) by (simp add: base_ok_def b)
  have tbl: "unat (DEE_PAGE_TBL d 0 p) = ?a div 65536"
    using lim by (simp add: DEE_PAGE_TBL_def a unat_of_nat)
  have "DEE_PAGE_OFFSET d 0 p + word_of_nat j = (word_of_nat (?a + j) :: u16)"
    unfolding DEE_PAGE_OFFSET_def a word_of_nat_mod_u16 by (simp only: of_nat_add)
  then have off: "unat (DEE_PAGE_OFFSET d 0 p + word_of_nat j) = (?a + j) mod 65536" by (simp only: unat_word_of_nat_u16)
  have "?a mod 65536 + j < 65536"
  proof -
    have "?a mod 65536 = 1024 * ((b + p) mod 64)" using mult_mod_right[of 1024 "b + p" 64] by simp
    moreover have "(b + p) mod 64 \<le> 63" using mod_less_divisor[of 64 "b + p"] by linarith
    ultimately show ?thesis using assms(3) by linarith
  qed
  then have "(?a + j) mod 65536 = ?a mod 65536 + j" by (metis mod_add_left_eq mod_less)
  then have "unat (DEE_PAGE_TBL d 0 p) * 65536 + unat (DEE_PAGE_OFFSET d 0 p + word_of_nat j) = ?a + j"
    unfolding tbl off using div_mult_mod_eq[of ?a 65536] by linarith
  moreover have "(?a + j) div 2 = ee_base d div 2 + 512 * p + j div 2" by (simp add: b)
  ultimately show ?thesis by (simp add: pm_index_def)
qed

lemma pm_index_loc: "base_ok d \<Longrightarrow> p < 16 \<Longrightarrow> k < 512 \<Longrightarrow> pm_index (DEE_PAGE_TBL d 0 p) (loc d p k) = word_index d p k"
  using pm_index_page[of d p "2 * k"] by (simp add: loc_def word_index_def)

lemma pm_index_odd: "base_ok d \<Longrightarrow> p < 16 \<Longrightarrow> k < 512 \<Longrightarrow> pm_index (DEE_PAGE_TBL d 0 p) (loc d p k + 1) = word_index d p k"
  using pm_index_page[of d p "2 * k + 1"] by (simp add: loc_def word_index_def ac_simps)

lemma ReadPM_loc:
  assumes "base_ok d" and "p < 16" and "k < 512"
  shows "ReadPMHigh (DEE_PAGE_TBL d 0 p) (loc d p k) d = fst (cell d p k)"
    and "ReadPMLow (DEE_PAGE_TBL d 0 p) (loc d p k) d = snd (cell d p k)"
    and "ReadPMLow (DEE_PAGE_TBL d 0 p) (loc d p k + 1) d = snd (cell d p k)"
  using pm_index_loc[OF assms] pm_index_odd[OF assms] by (simp_all add: ReadPMHigh_def ReadPMLow_def cell_def)

lemma loc_0: "DEE_PAGE_OFFSET d 0 p = loc d p 0"
  by (simp add: loc_def)

lemma loc_step: "loc d p k + 2 = loc d p (Suc k)"
  by (simp add: loc_def)

lemma loc_back:
  assumes "k \<le> 512"
  shows "DEE_PAGE_OFFSET d 0 (p + 1) - word_of_nat (2 * (512 - k)) = loc d p k"
proof -
  have "page_addr d 0 (p + 1) = page_addr d 0 p + 2 * k + 2 * (512 - k)" using assms by (simp add: page_addr_def)
  then have "(word_of_nat (page_addr d 0 (p + 1)) :: u16) = word_of_nat (page_addr d 0 p + 2 * k) + word_of_nat (2 * (512 - k))"
    by (simp only: of_nat_add)
  then show ?thesis by (simp add: loc_def DEE_PAGE_OFFSET_def word_of_nat_mod_u16)
qed

lemma loc_add: "DEE_PAGE_OFFSET d 0 p + word_of_nat (2 * k) = loc d p k"
  by (simp add: loc_def)

text \<open>Words of different places are different.\<close>

lemma block_eq:
  fixes n :: nat
  assumes "k < n" and "j < n"
  shows "n * p + k = n * q + j \<longleftrightarrow> p = q \<and> k = j"
proof
  assume eq: "n * p + k = n * q + j"
  have "(n * p + k) div n = p" "(n * q + j) div n = q" using assms by simp_all
  then have "p = q" using eq by simp
  then show "p = q \<and> k = j" using eq by simp
qed simp

lemma word_index_inj: "k < 512 \<Longrightarrow> j < 512 \<Longrightarrow> word_index d p k = word_index d q j \<longleftrightarrow> p = q \<and> k = j"
  using block_eq[of k 512 j p q] by (simp add: word_index_def)

lemma word_index_page:
  assumes "base_ok d" and "k < 512" and "j < 512"
  shows "word_index d p k div 512 = word_index d q j div 512 \<longleftrightarrow> p = q"
proof -
  obtain b where "ee_base d = 1024 * b" using assms(1) by (auto simp: base_ok_def)
  then have "word_index d p k = 512 * (b + p) + k" "word_index d q j = 512 * (b + q) + j" by (simp_all add: word_index_def)
  then have "word_index d p k div 512 = b + p" "word_index d q j div 512 = b + q" using assms(2,3) by presburger+
  then show ?thesis by simp
qed

lemma word_index_row:
  assumes "base_ok d" and "k < 512" and "j < 512"
  shows "word_index d p k div 64 = word_index d q j div 64 \<longleftrightarrow> p = q \<and> k div 64 = j div 64"
proof -
  obtain b where b: "ee_base d = 1024 * b" using assms(1) by (auto simp: base_ok_def)
  have "word_index d p k = 64 * (8 * (b + p)) + k" "word_index d q j = 64 * (8 * (b + q)) + j" by (simp_all add: word_index_def b)
  then have "word_index d p k div 64 = 8 * (b + p) + k div 64" "word_index d q j div 64 = 8 * (b + q) + j div 64" by simp_all
  moreover have "k div 64 < 8" "j div 64 < 8" using assms(2,3) by simp_all
  ultimately show ?thesis using block_eq[of "k div 64" 8 "j div 64" "b + p" "b + q"] by simp
qed

lemma word_index_latch:
  assumes "base_ok d"
  shows "word_index d p k mod 64 = k mod 64"
proof -
  obtain b where "ee_base d = 1024 * b" using assms(1) by (auto simp: base_ok_def)
  then have "word_index d p k = k + 64 * (8 * (b + p))" by (simp add: word_index_def)
  then show ?thesis by (simp only: mod_mult_self2)
qed

section \<open>The current page\<close>

lemma GetPageStatus_cell:
  assumes "base_ok d" and "p < 16"
  shows "GetPageStatus 0 p STATUS_CURRENT d = of_bool (bit (fst (cell d p 0)) 3)"
    and "GetPageStatus 0 p STATUS_EXPIRED d = of_bool (bit (fst (cell d p 0)) 4)"
proof -
  have b: "drop_bit n (w AND 2 ^ n) = of_bool (bit w n)" for w :: u8 and n
  proof (rule bit_word_eqI)
    fix m
    show "bit (drop_bit n (w AND 2 ^ n)) m \<longleftrightarrow> bit (of_bool (bit w n) :: u8) m"
      by (cases "m = 0") (auto simp: bit_drop_bit_eq bit_and_iff bit_exp_iff bit_1_iff dest: bit_imp_le_length)
  qed
  show "GetPageStatus 0 p STATUS_CURRENT d = of_bool (bit (fst (cell d p 0)) 3)"
    using b[of 3] by (simp add: GetPageStatus_def Let_def loc_0 ReadPM_loc[OF assms])
  show "GetPageStatus 0 p STATUS_EXPIRED d = of_bool (bit (fst (cell d p 0)) 4)"
    using b[of 4] by (simp add: GetPageStatus_def Let_def loc_0 ReadPM_loc[OF assms])
qed

text \<open>
  A page holds a log: its words after the status are the entries, oldest first, and then only erased words. An
  entry's high byte is an address, which is never \<open>0xFF\<close>.
\<close>

definition holds_log :: "dee \<Rightarrow> nat \<Rightarrow> (u8 \<times> u16) list \<Rightarrow> bool" where
  "holds_log d p es \<longleftrightarrow> length es < 512 \<and> (\<forall>e \<in> set es. fst e \<noteq> 0xFF)
     \<and> map (cell d p) [1..<512] = es @ replicate (511 - length es) erased_word"

definition reads_log :: "dee \<Rightarrow> nat \<Rightarrow> (u8 \<times> u16) list \<Rightarrow> bool" where
  "reads_log d p es \<longleftrightarrow> base_ok d \<and> p < 16 \<and> (\<forall>q < 16. bit (fst (cell d q 0)) 3 \<longleftrightarrow> q \<noteq> p) \<and> holds_log d p es"

text \<open>The value of every address: that of its last entry.\<close>

definition log_map :: "(u8 \<times> u16) list \<Rightarrow> nat \<Rightarrow> u16 option" where
  "log_map es = map_of (rev (map (apfst unat) es))"

lemma log_map_snoc: "log_map (es @ [(a, v)]) = (log_map es)(unat a \<mapsto> v)"
  by (simp add: log_map_def)

lemma log_map_bound: "\<forall>e \<in> set es. fst e \<noteq> 0xFF \<Longrightarrow> log_map es a = Some v \<Longrightarrow> a < 255"
proof -
  assume es: "\<forall>e \<in> set es. fst e \<noteq> 0xFF" and "log_map es a = Some v"
  then have "(a, v) \<in> set (map (apfst unat) es)" by (auto simp: log_map_def dest: map_of_SomeD)
  then obtain e where e: "e \<in> set es" "a = unat (fst e)" by auto
  then have "unat (fst e) \<noteq> unat (0xFF :: u8)" using es word_unat_eq_iff by blast
  then have "unat (fst e) \<noteq> 255" by simp
  then show "a < 255" using e(2) unat_u8_less[of "fst e"] by linarith
qed

lemma current_page_reads:
  assumes "reads_log d p es"
  shows "current_page 0 d = p"
proof -
  have p: "p < 16" "base_ok d" using assms by (simp_all add: reads_log_def)
  have st: "GetPageStatus 0 q STATUS_CURRENT d = of_bool (q \<noteq> p)" if "q < 16" for q
    using GetPageStatus_cell(1)[OF p(2) that] assms that by (simp add: reads_log_def)
  have "[0..<16] = [0..<p] @ p # [Suc p..<16]" using p(1) by (metis less_imp_add_positive less_imp_le_nat upt_add_eq_append upt_conv_Cons zero_le le_add_diff_inverse)
  moreover have "takeWhile (\<lambda>q. GetPageStatus 0 q STATUS_CURRENT d = 1) ([0..<p] @ p # [Suc p..<16]) = [0..<p]"
    using st p(1) by (subst takeWhile_append2) auto
  ultimately show ?thesis unfolding current_page_def by simp
qed

lemma takeWhile_log:
  assumes "holds_log d p es"
  shows "length (takeWhile (\<lambda>k. fst (cell d p k) \<noteq> 0xFF) [1..<512]) = length es"
proof -
  have "map (cell d p) (takeWhile (\<lambda>k. fst (cell d p k) \<noteq> 0xFF) [1..<512])
    = takeWhile (\<lambda>c. fst c \<noteq> 0xFF) (map (cell d p) [1..<512])" by (simp add: takeWhile_map comp_def)
  also have "\<dots> = es" using assms by (simp add: holds_log_def takeWhile_append2 takeWhile_replicate)
  finally show ?thesis by (metis length_map)
qed

lemma GetNextAvailCount_reads:
  assumes "reads_log d p es"
  shows "GetNextAvailCount 0 d = (if length es = 511 then 0 else 2 * (1 + length es))"
proof -
  have p: "p < 16" "base_ok d" "holds_log d p es" using assms by (simp_all add: reads_log_def)
  have "takeWhile (\<lambda>k. ReadPMHigh (DEE_PAGE_TBL d 0 p) (loc d p k) d \<noteq> 0xFF) [1..<512]
    = takeWhile (\<lambda>k. fst (cell d p k) \<noteq> 0xFF) [1..<512]"
    by (rule takeWhile_cong) (use ReadPM_loc[OF p(2,1)] in auto)
  then show ?thesis
    using takeWhile_log[OF p(3)] by (simp add: GetNextAvailCount_def current_page_reads[OF assms] Let_def loc_def)
qed

text \<open>The search from the end of the page finds the last entry of an address.\<close>

lemma find_mapped: "map_option f (find (\<lambda>x. Q (f x)) xs) = find Q (map f xs)"
  by (induction xs) auto

lemma find_append: "find Q (xs @ ys) = (case find Q xs of None \<Rightarrow> find Q ys | Some x \<Rightarrow> Some x)"
  by (induction xs) auto

lemma find_replicate: "\<not> Q x \<Longrightarrow> find Q (replicate n x) = None"
  by (induction n) auto

lemma find_map_of: "map_option snd (find (\<lambda>e. unat (fst e) = a) es) = map_of (map (apfst unat) es) a"
  by (induction es) auto

lemma find_log:
  assumes "holds_log d p es" and "a < 255"
  shows "map_option (\<lambda>i. snd (cell d p i)) (find (\<lambda>i. unat (fst (cell d p i)) = a) (rev [1..<512])) = log_map es a"
proof -
  let ?Q = "\<lambda>c :: u8 \<times> u16. unat (fst c) = a" and ?z = "replicate (511 - length es) erased_word"
  have "map (cell d p) (rev [1..<512]) = rev (es @ ?z)" 
    using assms(1) unfolding holds_log_def rev_map[symmetric] by (simp only:)
  then have "map_option (cell d p) (find (\<lambda>i. ?Q (cell d p i)) (rev [1..<512])) = find ?Q (?z @ rev es)"
    using find_mapped[of "cell d p" ?Q "rev [1..<512]"] by (simp only: rev_append rev_replicate)
  also have "find ?Q ?z = None" by (rule find_replicate) (use assms(2) in simp)
  then have "find ?Q (?z @ rev es) = find ?Q (rev es)" by (simp only: find_append option.case)
  finally have "map_option snd (map_option (cell d p) (find (\<lambda>i. ?Q (cell d p i)) (rev [1..<512]))) = log_map es a"
    by (simp only: find_map_of log_map_def rev_map)
  then show ?thesis by (simp only: option.map_comp comp_def)
qed

lemma DataEERead_reads:
  assumes "reads_log d p es" and "unat addr < 255"
  shows "DataEERead addr d = (case log_map es (unat addr) of None \<Rightarrow> (0xFFFF, set_flag addrNotFound True d) | Some v \<Rightarrow> (v, d))"
proof -
  have p: "p < 16" "base_ok d" "holds_log d p es" using assms by (simp_all add: reads_log_def)
  let ?f = "\<lambda>i. unat (ReadPMHigh (DEE_PAGE_TBL d 0 p) (DEE_PAGE_OFFSET d 0 (p + 1) - word_of_nat (2 * (512 - i))) d) = unat addr"
  let ?g = "\<lambda>i. unat (fst (cell d p i)) = unat addr"
  have same: "find ?f (rev [1..<512]) = find ?g (rev [1..<512])"
  proof (rule find_cong)
    fix i assume "i \<in> set (rev [1..<512])"
    then have "i < 512" by simp
    then show "?f i = ?g i" by (simp only: loc_back less_imp_le ReadPM_loc(1)[OF p(2,1)])
  qed simp
  have bank: "unat addr div 255 = 0" "unat addr mod 255 = unat addr" using assms(2) by simp_all
  note r = DataEERead_def[of addr d] bank current_page_reads[OF assms(1)] Let_def same
  show ?thesis
  proof (cases "find ?g (rev [1..<512])")
    case None
    then have "log_map es (unat addr) = None" using find_log[OF p(3) assms(2)] by simp
    moreover have "DataEERead addr d = (0xFFFF, set_flag addrNotFound True d)"
      using assms(2) p(1) None by (simp only: r) simp
    ultimately show ?thesis by simp
  next
    case (Some i)
    then have "log_map es (unat addr) = Some (snd (cell d p i))" using find_log[OF p(3) assms(2)] by (metis option.map(2))
    moreover have "i \<in> set (rev [1..<512])" using Some by (metis find_Some_iff nth_mem)
    then have "i < 512" by simp
    then have "ReadPMLow (DEE_PAGE_TBL d 0 p) (DEE_PAGE_OFFSET d 0 (p + 1) - word_of_nat (2 * (512 - i))) d = snd (cell d p i)"
      using ReadPM_loc(2)[OF p(2,1)] by (simp only: loc_back less_imp_le)
    then have "DataEERead addr d = (snd (cell d p i), d)" using assms(2) p(1) Some by (simp only: r) simp
    ultimately show ?thesis by simp
  qed
qed

section \<open>Programming and erasing\<close>

lemma program_erased [simp]: "program erased_word w = w"
proof -
  have "(0xFF :: u8) = - 1" "(0xFFFF :: u16) = - 1" by simp_all
  then show ?thesis by (simp only: program_def fst_conv snd_conv and.left_neutral prod.collapse)
qed

lemma base_cong: "ee_base d' = ee_base d \<Longrightarrow> base_ok d' = base_ok d \<and> DEE_PAGE_TBL d' = DEE_PAGE_TBL d
    \<and> DEE_PAGE_OFFSET d' = DEE_PAGE_OFFSET d \<and> loc d' = loc d \<and> word_index d' = word_index d"
  by (simp add: base_ok_def DEE_PAGE_TBL_def DEE_PAGE_OFFSET_def page_addr_def word_index_def loc_def fun_eq_iff)

lemma flash_cong:
  assumes "ee_base d' = ee_base d" and "flash d' = flash d"
  shows "reads_log d' p es = reads_log d p es" and "cell d' = cell d"
proof -
  show "cell d' = cell d" using base_cong[OF assms(1)] assms(2) by (simp add: cell_def fun_eq_iff)
  then show "reads_log d' p es = reads_log d p es" using base_cong[OF assms(1)] by (simp add: reads_log_def holds_log_def)
qed

text \<open>Both halves of a word go to its latch, in either order.\<close>

definition latched :: "dee \<Rightarrow> nat \<Rightarrow> nat \<Rightarrow> u8 \<times> u16 \<Rightarrow> dee" where
  "latched d q k w = d\<lparr>latches := (latches d)(k mod 64 := w), latch_addr := word_index d q k\<rparr>"

lemma latch_word:
  assumes "base_ok d" and "q < 16" and "k < 512"
  shows "WritePMHigh h (DEE_PAGE_TBL d 0 q) (loc d q k) (WritePMLow l (DEE_PAGE_TBL d 0 q) (loc d q k) d) = latched d q k (h, l)"
    and "WritePMLow l (DEE_PAGE_TBL d 0 q) (loc d q k) (WritePMHigh h (DEE_PAGE_TBL d 0 q) (loc d q k) d) = latched d q k (h, l)"
  by (simp_all add: WritePMHigh_def WritePMLow_def latched_def Let_def pm_index_loc[OF assms] word_index_latch[OF assms(1)])

lemma latched_fields [simp]:
  "ee_base (latched d q k w) = ee_base d" "flash (latched d q k w) = flash d" "nvmcon (latched d q k w) = nvmcon d"
  "dataEEFlags (latched d q k w) = dataEEFlags d" "latch_addr (latched d q k w) = word_index d q k"
  "latches (latched d q k w) = (latches d)(k mod 64 := w)"
  by (simp_all add: latched_def)

lemma UnlockWrite_fields [simp]:
  "ee_base (UnlockWrite d) = ee_base d" "nvmcon (UnlockWrite d) = nvmcon d" "dataEEFlags (UnlockWrite d) = dataEEFlags d"
  by (simp_all add: UnlockWrite_def Let_def)

lemma cell_write_word:
  assumes "base_ok d" and "k < 512" and "nvmcon d = PROGRAM_WORD" and "j < 512"
  shows "cell (UnlockWrite (latched d q k w)) p j = (if p = q \<and> j = k then program (cell d q k) w else cell d p j)"
proof -
  have "word_index (UnlockWrite (latched d q k w)) = word_index d" using base_cong[of "UnlockWrite (latched d q k w)" d] by simp
  then have "cell (UnlockWrite (latched d q k w)) p j = flash (UnlockWrite (latched d q k w)) (word_index d p j)" by (simp only: cell_def)
  then show ?thesis
    using word_index_inj[OF assms(4,2), of d p q] word_index_latch[OF assms(1), of q k] assms(3)
    by (simp add: UnlockWrite_def Let_def cell_def)
qed

lemma cell_erase_page:
  assumes "base_ok d" and "q < 16" and "j < 512"
  shows "cell (ErasePage 0 q d) p j = (if p = q then erased_word else cell d p j)" and "ee_base (ErasePage 0 q d) = ee_base d"
    and "dataEEFlags (ErasePage 0 q d) = dataEEFlags d"
proof -
  have i: "pm_index (DEE_PAGE_TBL d 0 q) (DEE_PAGE_OFFSET d 0 q) = word_index d q 0" using pm_index_loc[OF assms(1,2), of 0] by (simp add: loc_0)
  show base: "ee_base (ErasePage 0 q d) = ee_base d" and "dataEEFlags (ErasePage 0 q d) = dataEEFlags d"
    by (simp_all add: ErasePage_def Let_def WritePMLow_def)
  have "word_index (ErasePage 0 q d) = word_index d" using base_cong[OF base] by simp
  then have "cell (ErasePage 0 q d) p j = flash (ErasePage 0 q d) (word_index d p j)" by (simp only: cell_def)
  then show "cell (ErasePage 0 q d) p j = (if p = q then erased_word else cell d p j)"
    using word_index_page[OF assms(1,3), of 0 p q] i by (simp add: ErasePage_def UnlockWrite_def WritePMLow_def Let_def cell_def)
qed

lemma cell_write_row:
  assumes "base_ok d" and "r < 8" and "nvmcon d = PROGRAM_ROW" and "j < 512" and "latch_addr d div 64 = word_index d q (64 * r) div 64"
  shows "cell (UnlockWrite d) p j = (if p = q \<and> j div 64 = r then program (cell d p j) (latches d (j mod 64)) else cell d p j)"
proof -
  have "word_index (UnlockWrite d) = word_index d" using base_cong[of "UnlockWrite d" d] by simp
  moreover have "64 * r < 512" using assms(2) by simp
  from word_index_row[OF assms(1,4) this, of p q] have "word_index d p j div 64 = latch_addr d div 64 \<longleftrightarrow> p = q \<and> j div 64 = r"
    using assms(5) by simp
  moreover have "cell (UnlockWrite d) p j = flash (UnlockWrite d) (word_index d p j)" unfolding cell_def calculation(1) ..
  ultimately show ?thesis
    using assms(3) by (auto simp: UnlockWrite_def Let_def cell_def word_index_latch[OF assms(1)])
qed

section \<open>The state between two operations\<close>

text \<open>One page is current and holds the log, all others are erased.\<close>

definition dee_state :: "dee \<Rightarrow> nat \<Rightarrow> (u8 \<times> u16) list \<Rightarrow> bool" where
  "dee_state d p es \<longleftrightarrow> reads_log d p es \<and> (\<forall>q < 16. \<forall>k < 512. q \<noteq> p \<longrightarrow> cell d q k = erased_word)"

lemma dee_stateI:
  assumes "base_ok d" and "p < 16" and "\<not> bit (fst (cell d p 0)) 3" and "holds_log d p es"
    and "\<And>q k. q < 16 \<Longrightarrow> k < 512 \<Longrightarrow> q \<noteq> p \<Longrightarrow> cell d q k = erased_word"
  shows "dee_state d p es"
proof -
  have "bit (0xFF :: u8) 3" by simp
  then have "bit (fst (cell d q 0)) 3" if "q < 16" "q \<noteq> p" for q using assms(5)[OF that(1) _ that(2), of 0] by simp
  then show ?thesis using assms by (auto simp: dee_state_def reads_log_def)
qed

text \<open>The word behind the log.\<close>

lemma cells_log:
  assumes "holds_log d p es" and "0 < k" and "k < 512"
  shows "cell d p k = (if k \<le> length es then es ! (k - 1) else erased_word)"
proof -
  have "cell d p k = map (cell d p) [1..<512] ! (k - 1)" using assms(2,3) by simp
  also have "\<dots> = (es @ replicate (511 - length es) erased_word) ! (k - 1)" using assms(1) by (simp only: holds_log_def)
  finally show ?thesis using assms by (auto simp: nth_append holds_log_def)
qed

lemma holds_logI:
  assumes "length es < 512" and "\<forall>e \<in> set es. fst e \<noteq> 0xFF"
    and "\<And>k. 0 < k \<Longrightarrow> k < 512 \<Longrightarrow> cell d p k = (if k \<le> length es then es ! (k - 1) else erased_word)"
  shows "holds_log d p es"
proof -
  have "map (cell d p) [1..<512] = es @ replicate (511 - length es) erased_word"
    by (rule nth_equalityI) (use assms(1,3) in \<open>auto simp: nth_append\<close>)
  then show ?thesis using assms(1,2) by (simp only: holds_log_def simp_thms)
qed

lemma holds_log_snoc:
  assumes "holds_log d p es" and "length es < 511" and "h \<noteq> 0xFF"
    and "\<And>k. k < 512 \<Longrightarrow> cell d' p k = (if k = Suc (length es) then (h, l) else cell d p k)"
  shows "holds_log d' p (es @ [(h, l)])"
proof (rule holds_logI)
  fix k :: nat assume k: "0 < k" "k < 512"
  show "cell d' p k = (if k \<le> length (es @ [(h, l)]) then (es @ [(h, l)]) ! (k - 1) else erased_word)"
    using assms(4)[OF k(2)] cells_log[OF assms(1) k] k(1) by (auto simp: nth_append)
qed (use assms(1-3) in \<open>auto simp: holds_log_def\<close>)

end
