(* ===== verification/DeePack.thy ===== *)
theory DeePack
  imports DeeLog
begin

text \<open>
  Packing: the next page gets the last value of every address, the status of the old page moves over, and the old
  page is erased. The map of addresses to values is the same afterwards.
\<close>

section \<open>What is packed\<close>

primrec packed_to :: "(nat \<Rightarrow> u16 option) \<Rightarrow> nat \<Rightarrow> (u8 \<times> u16) list" where
  "packed_to m 0 = []"
| "packed_to m (Suc a) = packed_to m a @ (case m a of None \<Rightarrow> [] | Some v \<Rightarrow> [(word_of_nat a, v)])"

lemma length_packed: "length (packed_to m a) \<le> a"
  by (induction a) (auto split: option.splits)

lemma packed_prefix: "a \<le> b \<Longrightarrow> \<exists>ys. packed_to m b = packed_to m a @ ys"
  by (induction rule: dec_induct) auto

lemma packed_addresses:
  assumes "a \<le> 255"
  shows "\<forall>e \<in> set (packed_to m a). unat (fst e) < a \<and> m (unat (fst e)) = Some (snd e)"
  using assms by (induction a) (auto simp: unat_of_nat split: option.splits)

lemma packed_distinct: "a \<le> 255 \<Longrightarrow> distinct (map (unat \<circ> fst) (packed_to m a))"
proof (induction a)
  case (Suc a)
  have "a \<notin> (unat \<circ> fst) ` set (packed_to m a)" using packed_addresses[of a m] Suc.prems by auto
  then show ?case using Suc by (auto simp: unat_of_nat split: option.splits)
qed simp

lemma packed_complete: "b < a \<Longrightarrow> m b = Some v \<Longrightarrow> (word_of_nat b, v) \<in> set (packed_to m a)"
  by (induction a) (auto simp: less_Suc_eq split: option.splits)

lemma log_map_packed:
  assumes "\<And>a v. m a = Some v \<Longrightarrow> a < 255"
  shows "log_map (packed_to m 255) = m"
proof
  fix a
  let ?E = "map (apfst unat) (packed_to m 255)"
  have d: "distinct (map fst ?E)" using packed_distinct[of 255 m] by (simp add: comp_def)
  show "log_map (packed_to m 255) a = m a"
  proof (cases "m a")
    case None
    then have "a \<notin> fst ` set ?E" using packed_addresses[of 255 m] by auto
    then show ?thesis using None by (simp add: log_map_def map_of_eq_None_iff image_image)
  next
    case (Some v)
    then have "(a, v) \<in> set ?E"
      using packed_complete[of a 255 m v] Some assms[OF Some] by (force simp: unat_of_nat image_iff)
    then have "(a, v) \<in> set (rev ?E)" by (simp only: set_rev)
    moreover have "distinct (map fst (rev ?E))" using d by (simp only: rev_map[symmetric] distinct_rev)
    ultimately show ?thesis using Some map_of_is_SomeI by (simp only: log_map_def)
  qed
qed

text \<open>The words of the packed page before its status is written.\<close>

definition target :: "(nat \<Rightarrow> u16 option) \<Rightarrow> nat \<Rightarrow> u8 \<times> u16" where
  "target m j = (let E = packed_to m 255 in if 0 < j \<and> j \<le> length E then E ! (j - 1) else erased_word)"

lemma target_entry:
  assumes "a < 255" and "m a = Some v"
  shows "target m (1 + length (packed_to m a)) = (word_of_nat a, v)"
proof -
  obtain ys where "packed_to m 255 = packed_to m (Suc a) @ ys" using packed_prefix[of "Suc a" 255 m] assms(1) by auto
  then show ?thesis using assms(2) by (simp add: target_def Let_def nth_append)
qed

lemma target_end: "length (packed_to m 255) < j \<Longrightarrow> target m j = erased_word"
  by (simp add: target_def Let_def)

section \<open>The rows\<close>

definition row_filled :: "dee \<Rightarrow> nat \<Rightarrow> nat \<Rightarrow> nat \<Rightarrow> (nat \<Rightarrow> u8 \<times> u16) \<Rightarrow> bool" where
  "row_filled d q r i t \<longleftrightarrow> (\<forall>j < i. latches d j = t (64 * r + j)) \<and> (0 < i \<longrightarrow> latch_addr d div 64 = word_index d q (64 * r) div 64)"

definition same_flash :: "dee \<Rightarrow> dee \<Rightarrow> bool" where
  "same_flash d d' \<longleftrightarrow> ee_base d' = ee_base d \<and> flash d' = flash d \<and> nvmcon d' = nvmcon d"

lemma row_filled_step:
  assumes "row_filled d q r i t" and "base_ok d" and "i < 64" and "r < 8" and "w = t (64 * r + i)"
  shows "row_filled (latched d q (64 * r + i) w) q r (Suc i) t"
proof -
  have "64 * r + i < 512" "64 * r < 512" using assms(3,4) by linarith+
  then have "word_index d q (64 * r + i) div 64 = word_index d q (64 * r) div 64"
    using word_index_row[OF assms(2), of "64 * r + i" "64 * r" q q] assms(3) by simp
  moreover have "word_index (latched d q (64 * r + i) w) = word_index d" using base_cong[of "latched d q (64 * r + i) w" d] by simp
  ultimately show ?thesis using assms by (auto simp: row_filled_def less_Suc_eq)
qed

lemma fill_row_spec:
  assumes "base_ok d" and "q < 16" and "r < 8" and "i \<le> 64" and "row_filled d q r i t"
    and "\<And>j. i \<le> j \<Longrightarrow> j < 64 \<Longrightarrow> t (64 * r + j) = erased_word"
  shows "\<exists>off d'. fill_row (DEE_PAGE_TBL d 0 q) (loc d q (64 * r + i)) i d = (off, d') \<and> same_flash d d'
    \<and> dataEEFlags d' = dataEEFlags d \<and> row_filled d' q r 64 t"
  using assms
proof (induction "64 - i" arbitrary: i d)
  case 0
  then show ?case by (subst fill_row.simps) (simp add: same_flash_def)
next
  case (Suc n)
  let ?k = "64 * r + i" and ?d = "latched d q (64 * r + i) erased_word"
  have i: "i < 64" "?k < 512" using Suc.hyps(2) Suc.prems(3) by linarith+
  have c: "base_ok ?d" "DEE_PAGE_TBL ?d = DEE_PAGE_TBL d" "loc ?d = loc d" using base_cong[of ?d d] Suc.prems(1) by simp_all
  have rf: "row_filled ?d q r (Suc i) t"
    by (rule row_filled_step[OF Suc.prems(5,1) i(1) Suc.prems(3)]) (simp add: Suc.prems(6)[OF order_refl i(1)])
  have n: "n = 64 - Suc i" "Suc i \<le> 64" using Suc.hyps(2) i by simp_all
  obtain off d' where IH: "fill_row (DEE_PAGE_TBL ?d 0 q) (loc ?d q (64 * r + Suc i)) (Suc i) ?d = (off, d')" "same_flash ?d d'"
    "dataEEFlags d' = dataEEFlags ?d" "row_filled d' q r 64 t"
    using Suc.hyps(1)[OF n(1) c(1) Suc.prems(2,3) n(2) rf] Suc.prems(6) by auto
  have step: "fill_row (DEE_PAGE_TBL d 0 q) (loc d q ?k) i d = fill_row (DEE_PAGE_TBL d 0 q) (loc d q (64 * r + Suc i)) (Suc i) ?d"
    using i latch_word(1)[OF Suc.prems(1,2) i(2), of "0xFF" "0xFFFF"] loc_step[of d q ?k] by (subst fill_row.simps) simp
  show ?case using IH by (intro exI[of _ off] exI[of _ d']) (simp only: step c, simp add: same_flash_def)
qed

lemma same_flash_reads: "same_flash d d' \<Longrightarrow> reads_log d' p es = reads_log d p es"
  using flash_cong(1)[of d' d p es] by (simp add: same_flash_def)

lemma set_flag_fields [simp]:
  "ee_base (set_flag n b d) = ee_base d" "flash (set_flag n b d) = flash d" "nvmcon (set_flag n b d) = nvmcon d"
  "latches (set_flag n b d) = latches d" "latch_addr (set_flag n b d) = latch_addr d"
  by (simp_all add: set_flag_def)

lemma flag_off: "\<not> ee_flag n (set_flag n False d)" "same_flash d (set_flag n b d)" "row_filled (set_flag k b d) q r i t = row_filled d q r i t"
  by (simp add: ee_flag_def set_flag_def bit_unset_bit_iff, simp add: same_flash_def, simp add: row_filled_def word_index_def)

lemma flag_on: "n < 8 \<Longrightarrow> ee_flag n (set_flag n True d)"
  by (simp add: ee_flag_def set_flag_def bit_set_bit_iff)

lemma same_flash_trans: "same_flash a b \<Longrightarrow> same_flash b c \<Longrightarrow> same_flash a c"
  by (simp add: same_flash_def)

lemma same_flash_cong:
  assumes "same_flash d d'"
  shows "DEE_PAGE_TBL d' = DEE_PAGE_TBL d" and "loc d' = loc d" and "base_ok d' = base_ok d" and "cell d' = cell d"
    and "DEE_PAGE_OFFSET d' = DEE_PAGE_OFFSET d"
  using assms base_cong[of d' d] flash_cong(2)[of d' d] by (simp_all add: same_flash_def)

text \<open>
  A row is filled with the next entries; it ends with the last address, or in front of the next entry. The row starts in front
  of the entry of address \<open>a\<close>.
\<close>

definition row_done :: "(nat \<Rightarrow> u16 option) \<Rightarrow> dee \<Rightarrow> nat \<Rightarrow> nat \<Rightarrow> nat \<times> u16 \<times> dee \<Rightarrow> bool" where
  "row_done m d q r = (\<lambda>(a', off', d'). same_flash d d' \<and> row_filled d' q r 64 (target m) \<and> \<not> ee_flag addrNotFound d'
     \<and> (255 \<le> a' \<and> length (packed_to m 255) < 64 * r + 64
        \<or> a' < 255 \<and> off' = loc d q (64 * r + 64) \<and> 64 * r + 64 = 1 + length (packed_to m a')))"

lemma pack_row_last:
  assumes "base_ok d" and "q < 16" and "r < 8" and "i \<le> 64" and "row_filled d q r i (target m)" and "\<not> ee_flag addrNotFound d"
    and "64 * r + i = 1 + length (packed_to m 255)"
  shows "row_done m d q r (case fill_row (DEE_PAGE_TBL d 0 q) (loc d q (64 * r + i)) i d of (off, d) \<Rightarrow> (255, off, d))"
proof -
  have rest: "target m (64 * r + j) = erased_word" if "i \<le> j" for j using target_end[of m "64 * r + j"] assms(7) that by simp
  obtain off d' where "fill_row (DEE_PAGE_TBL d 0 q) (loc d q (64 * r + i)) i d = (off, d')" "same_flash d d'"
    "dataEEFlags d' = dataEEFlags d" "row_filled d' q r 64 (target m)"
    using fill_row_spec[OF assms(1-5) rest] by blast
  then show ?thesis using assms(4,6,7) by (simp add: row_done_def ee_flag_def)
qed

lemma pack_row_spec:
  assumes "reads_log d p es" and "q < 16" and "r < 8" and "i \<le> 64" and "row_filled d q r i (target (log_map es))"
    and "\<not> ee_flag addrNotFound d" and "64 * r + i = 1 + length (packed_to (log_map es) a)" and "a < 255"
  shows "row_done (log_map es) d q r (pack_row 0 (DEE_PAGE_TBL d 0 q) a (loc d q (64 * r + i)) i d)"
  using assms
proof (induction "255 - a" arbitrary: a i d)
  case (Suc n)
  let ?m = "log_map es" and ?k = "64 * r + i" and ?tbl = "DEE_PAGE_TBL d 0 q"
  have base: "base_ok d" using Suc.prems(1) by (simp add: reads_log_def)
  show ?case
  proof (cases "i = 64")
    case True
    then show ?thesis using Suc.prems by (subst pack_row.simps) (simp add: row_done_def same_flash_def)
  next
    case False
    then have i: "i < 64" "?k < 512" using Suc.prems(3,4) by linarith+
    have addr: "unat (word_of_nat a :: u16) = a" using Suc.prems(8) by (simp add: unat_of_nat)
    obtain i' d1 where
      body: "pack_value 0 ?tbl a (loc d q ?k, i, d) = (loc d q (64 * r + i'), i', d1)"
      and d1: "same_flash d d1" "i' \<le> 64" "row_filled d1 q r i' (target ?m)" "\<not> ee_flag addrNotFound d1"
      and len: "64 * r + i' = 1 + length (packed_to ?m (Suc a))"
    proof (cases "?m a")
      case None
      let ?d = "set_flag addrNotFound False (set_flag addrNotFound True d)"
      have "DataEERead (word_of_nat a) d = (0xFFFF, set_flag addrNotFound True d)"
        using DataEERead_reads[OF Suc.prems(1), of "word_of_nat a"] Suc.prems(8) None by (simp add: addr)
      moreover have "loc (set_flag addrNotFound True d) = loc d" using same_flash_cong(2)[OF flag_off(2)] .
      ultimately show ?thesis
        using that[of i ?d] flag_on[of 0 d] Suc.prems(4,5,7) None flag_off same_flash_trans[OF flag_off(2)[of d 0 True] flag_off(2)[of _ 0 False]]
        by (simp add: pack_value_def)
    next
      case (Some v)
      have "DataEERead (word_of_nat a) d = (v, d)"
        using DataEERead_reads[OF Suc.prems(1), of "word_of_nat a"] Suc.prems(8) Some by (simp add: addr)
      moreover have "row_filled (latched d q ?k (word_of_nat a, v)) q r (Suc i) (target ?m)"
        by (rule row_filled_step[OF Suc.prems(5) base i(1) Suc.prems(3)]) (simp only: Suc.prems(7) target_entry[where m = ?m, OF Suc.prems(8) Some])
      ultimately show ?thesis
        using that[of "Suc i" "latched d q ?k (word_of_nat a, v)"] Suc.prems(6,7) Some i latch_word(1)[OF base Suc.prems(2) i(2)] loc_step[of d q ?k]
        by (simp add: same_flash_def ee_flag_def pack_value_def)
    qed
    have c: "DEE_PAGE_TBL d1 = DEE_PAGE_TBL d" "loc d1 = loc d" "base_ok d1" using same_flash_cong[OF d1(1)] base by simp_all
    have step: "pack_row 0 ?tbl a (loc d q ?k) i d
      = (case end_row ?tbl (a + 1) (loc d q (64 * r + i'), i', d1) of (off, i, d) \<Rightarrow> pack_row 0 ?tbl (a + 1) off i d)"
      by (subst pack_row.simps) (use i(1) Suc.prems(8) in \<open>simp add: body\<close>)
    show ?thesis
    proof (cases "a = 254")
      case True
      have "row_done ?m d1 q r (case fill_row (DEE_PAGE_TBL d1 0 q) (loc d1 q (64 * r + i')) i' d1 of (off, d) \<Rightarrow> (255, off, d))"
        by (rule pack_row_last[OF c(3) Suc.prems(2,3) d1(2-4)]) (use len True in simp)
      then have "row_done ?m d q r (case fill_row ?tbl (loc d q (64 * r + i')) i' d1 of (off, d) \<Rightarrow> (255, off, d))"
        using same_flash_trans[OF d1(1)] by (auto simp: row_done_def c split: prod.splits)
      then show ?thesis
        unfolding step end_row_def by (auto simp: True pack_row.simps[of _ _ 255] split: prod.splits)
    next
      case False
      have "row_done ?m d1 q r (pack_row 0 (DEE_PAGE_TBL d1 0 q) (Suc a) (loc d1 q (64 * r + i')) i' d1)"
        by (rule Suc.hyps(1)) (use Suc.hyps(2) Suc.prems(1,2,3,8) d1 len False in \<open>simp_all add: same_flash_reads\<close>)
      then have "row_done ?m d q r (pack_row 0 ?tbl (Suc a) (loc d q (64 * r + i')) i' d1)"
        using same_flash_trans[OF d1(1)] by (auto simp: row_done_def c split: prod.splits)
      then show ?thesis using False unfolding step end_row_def by simp
    qed
  qed
qed simp

lemma reads_log_cells:
  assumes "reads_log d p es" and "ee_base d' = ee_base d" and "\<And>q. q < 16 \<Longrightarrow> cell d' q 0 = cell d q 0"
    and "\<And>k. k < 512 \<Longrightarrow> cell d' p k = cell d p k"
  shows "reads_log d' p es"
proof -
  have "map (cell d' p) [1..<512] = map (cell d p) [1..<512]" using assms(4) by (intro map_cong) auto
  then show ?thesis using assms(1,3) base_cong[OF assms(2)] by (simp only: reads_log_def holds_log_def) auto
qed

text \<open>All rows: afterwards the page holds the packed entries, and the other pages are as before.\<close>

lemma pack_rows_spec:
  assumes "reads_log d p es" and "q < 16" and "q \<noteq> p" and "nvmcon d = PROGRAM_ROW" and "i < 64"
    and "row_filled d q r i (target (log_map es))" and "\<not> ee_flag addrNotFound d" and "64 * r + i = 1 + length (packed_to (log_map es) a)"
    and "a < 255" and "\<And>k. k < 512 \<Longrightarrow> cell d q k = (if k < 64 * r then target (log_map es) k else erased_word)"
    and "d' = pack_rows 0 (DEE_PAGE_TBL d 0 q) a (loc d q (64 * r + i)) i d"
  shows "ee_base d' = ee_base d \<and> (\<forall>k < 512. cell d' q k = target (log_map es) k) \<and> (\<forall>q'. \<forall>k < 512. q' \<noteq> q \<longrightarrow> cell d' q' k = cell d q' k)"
  using assms
proof (induction "255 - a" arbitrary: a i r d d' rule: less_induct)
  case less
  let ?m = "log_map es" and ?tbl = "DEE_PAGE_TBL d 0 q"
  note prems = less.prems
  have base: "base_ok d" using prems(1) by (simp add: reads_log_def)
  have r: "r < 8" using prems(8) length_packed[of ?m a] prems(9) by linarith
  obtain a' off' d1 where row: "pack_row 0 ?tbl a (loc d q (64 * r + i)) i d = (a', off', d1)" by (cases "pack_row 0 ?tbl a (loc d q (64 * r + i)) i d") auto
  have rd: "row_done ?m d q r (a', off', d1)"
    using pack_row_spec[OF prems(1,2) r _ prems(6-9)] prems(5) row by simp
  then have d1: "same_flash d d1" "row_filled d1 q r 64 (target ?m)" "\<not> ee_flag addrNotFound d1" by (simp_all add: row_done_def)
  note c = same_flash_cong[OF d1(1)]
  let ?d2 = "UnlockWrite d1"
  have "latch_addr d1 div 64 = word_index d1 q (64 * r) div 64" "nvmcon d1 = PROGRAM_ROW"
    using d1 prems(4) by (simp_all add: row_filled_def same_flash_def)
  then have w: "cell ?d2 q' j = (if q' = q \<and> j div 64 = r then program (cell d q' j) (latches d1 (j mod 64)) else cell d q' j)" if "j < 512" for q' j
    using cell_write_row[of d1 r j q q'] c base r that by simp
  have latch: "latches d1 (j mod 64) = target ?m j" if "j div 64 = r" for j
  proof -
    have "64 * r + j mod 64 = j" using that div_mult_mod_eq[of j 64] by linarith
    then show ?thesis using d1(2) by (simp add: row_filled_def)
  qed
  have d2: "cell ?d2 q k = (if k < 64 * (r + 1) then target ?m k else erased_word)" if "k < 512" for k
  proof (cases "k div 64 = r")
    case True
    then have "\<not> k < 64 * r" "k < 64 * (r + 1)" by auto
    then show ?thesis using w[OF that, of q] prems(10)[OF that] latch[OF True] True by simp
  next
    case False
    then have "k < 64 * (r + 1) \<longleftrightarrow> k < 64 * r" by auto
    then show ?thesis using w[OF that, of q] prems(10)[OF that] False by simp
  qed
  have others: "cell ?d2 q' k = cell d q' k" if "k < 512" "q' \<noteq> q" for q' k using w[OF that(1)] that(2) by simp
  have base2: "ee_base ?d2 = ee_base d" using d1(1) by (simp add: same_flash_def)
  have d': "d' = (if 255 \<le> a' then ?d2 else pack_rows 0 ?tbl a' off' 0 ?d2)"
    using prems(11) by (subst (asm) pack_rows.simps) (simp add: row)
  show ?case
  proof (cases "255 \<le> a'")
    case True
    then have "length (packed_to ?m 255) < 64 * (r + 1)" using rd by (auto simp: row_done_def)
    then have "cell ?d2 q k = target ?m k" if "k < 512" for k using d2[OF that] target_end[of ?m k] by auto
    then show ?thesis using True d' others base2 by auto
  next
    case False
    then have a': "a' < 255" "off' = loc d q (64 * (r + 1))" "64 * (r + 1) = 1 + length (packed_to ?m a')"
      using rd by (auto simp: row_done_def add.commute)
    have "a < a'" using pack_row_progress(2)[OF row[symmetric] prems(9,5)] .
    moreover have "reads_log ?d2 p es"
    proof (rule reads_log_cells[OF prems(1) base2])
      fix q' :: nat assume "q' < 16"
      show "cell ?d2 q' 0 = cell d q' 0"
        using w[of 0 q'] latch[of 0] prems(10)[of 0] by (cases "q' = q \<and> r = 0") (auto simp: target_def)
    qed (use others prems(3) in auto)
    moreover have "\<not> ee_flag addrNotFound ?d2" "nvmcon ?d2 = PROGRAM_ROW" using d1 prems(4) by (simp_all add: ee_flag_def same_flash_def)
    moreover have cc: "DEE_PAGE_TBL ?d2 = DEE_PAGE_TBL d" "loc ?d2 = loc d" using base_cong[OF base2] by simp_all
    ultimately have "ee_base d' = ee_base ?d2 \<and> (\<forall>k < 512. cell d' q k = target ?m k) \<and> (\<forall>q'. \<forall>k < 512. q' \<noteq> q \<longrightarrow> cell d' q' k = cell ?d2 q' k)"
      using less.hyps[of a' ?d2 0 "r + 1" d'] prems(2,3) a' d2 d' False by (simp add: row_filled_def)
    then show ?thesis using others base2 by auto
  qed
qed

section \<open>The whole of PackEE\<close>

lemma pack_values_spec:
  assumes "dee_state d p es" and "q < 16" and "q \<noteq> p" and "d' = pack_values 0 q d"
  shows "ee_base d' = ee_base d \<and> (\<forall>k < 512. cell d' q k = target (log_map es) k) \<and> (\<forall>q'. \<forall>k < 512. q' \<noteq> q \<longrightarrow> cell d' q' k = cell d q' k)"
proof -
  define d1 where "d1 = (if GetNextAvailCount 0 d \<noteq> 0 then set_flag packBeforePageFull True d else d)"
  let ?d2 = "(set_flag addrNotFound False d1)\<lparr>nvmcon := PROGRAM_ROW\<rparr>"
  let ?d3 = "latched ?d2 q 0 erased_word"
  have same: "ee_base d1 = ee_base d" "ee_base ?d2 = ee_base d" "ee_base ?d3 = ee_base d" "flash ?d3 = flash d" "nvmcon ?d3 = PROGRAM_ROW"
    by (simp_all add: d1_def)
  have base: "base_ok d" "reads_log d p es" using assms(1) by (simp_all add: dee_state_def reads_log_def)
  have cong: "DEE_PAGE_TBL d1 = DEE_PAGE_TBL d" "DEE_PAGE_OFFSET d1 = DEE_PAGE_OFFSET d" "base_ok ?d2" "DEE_PAGE_TBL ?d2 = DEE_PAGE_TBL d" "loc ?d2 = loc d" "loc d1 = loc d"
    using base_cong[OF same(1)] base_cong[OF same(2)] base(1) by simp_all
  have cong3: "DEE_PAGE_TBL ?d3 = DEE_PAGE_TBL d" "loc ?d3 = loc d" "cell ?d3 = cell d" "reads_log ?d3 p es"
    using base_cong[OF same(3)] flash_cong[OF same(3,4)] base(2) by simp_all
  have "WritePMHigh 0xFF (DEE_PAGE_TBL d 0 q) (loc d q 0) (WritePMLow 0xFFFF (DEE_PAGE_TBL d 0 q) (loc d q 0) ?d2) = ?d3"
    using latch_word(1)[OF cong(3) assms(2), of 0 "0xFF" "0xFFFF"] unfolding cong by simp
  then have d': "d' = (pack_rows 0 (DEE_PAGE_TBL ?d3 0 q) 0 (loc ?d3 q (64 * 0 + 1)) 1 ?d3)\<lparr>dataEEFlags := dataEEFlags d1\<rparr>"
    unfolding assms(4) pack_values_def d1_def[symmetric] Let_def cong loc_0 cong3 by (simp add: loc_step cong)
  let ?d4 = "pack_rows 0 (DEE_PAGE_TBL ?d3 0 q) 0 (loc ?d3 q (64 * 0 + 1)) 1 ?d3"
  have rf: "row_filled ?d3 q 0 1 (target (log_map es))"
    using base_cong[OF same(3)] base_cong[OF same(2)] by (simp add: row_filled_def target_def)
  have clear: "\<not> ee_flag addrNotFound ?d3" using flag_off(1)[of addrNotFound d1] by (simp add: ee_flag_def)
  have blank: "cell ?d3 q k = (if k < 64 * 0 then target (log_map es) k else erased_word)" if "k < 512" for k
    using assms(1-3) that by (simp add: cong3 dee_state_def)
  have r: "ee_base ?d4 = ee_base ?d3 \<and> (\<forall>k < 512. cell ?d4 q k = target (log_map es) k) \<and> (\<forall>q'. \<forall>k < 512. q' \<noteq> q \<longrightarrow> cell ?d4 q' k = cell ?d3 q' k)"
    by (rule pack_rows_spec[OF cong3(4) assms(2,3) same(5) _ rf clear _ _ blank refl]) simp_all
  have e: "ee_base d' = ee_base ?d4" "flash d' = flash ?d4" unfolding d' by simp_all
  show ?thesis using r unfolding e(1) flash_cong(2)[OF e] same(3) cong3(3) by blast
qed

lemma verify_pack_spec:
  assumes "reads_log d p es" and "q < 16" and "\<And>j. j < 512 \<Longrightarrow> cell d q j = (if 0 < j \<and> j \<le> length E then E ! (j - 1) else erased_word)"
    and "E = packed_to (log_map es) 255" and "0 < k" and "k \<le> length E + 1" and "length E + 1 < k + n"
  shows "verify_pack 0 (DEE_PAGE_TBL d 0 q) (loc d q k) n d = Inr (True, d)"
  using assms(5-7)
proof (induction n arbitrary: k)
  case (Suc n)
  have base: "base_ok d" using assms(1) by (simp add: reads_log_def)
  have "length E \<le> 255" using length_packed assms(4) by simp
  then have k: "k < 512" using Suc.prems(2) by simp
  note rd = ReadPM_loc(1,2)[OF base assms(2) k] assms(3)[OF k]
  show ?case
  proof (cases "k \<le> length E")
    case True
    let ?e = "E ! (k - 1)"
    have "?e \<in> set E" using True Suc.prems(1) by simp
    then have e: "unat (fst ?e) < 255" "log_map es (unat (fst ?e)) = Some (snd ?e)" using packed_addresses[of 255 "log_map es"] assms(4) by auto
    have u: "unat (word_of_nat (unat (fst ?e)) :: u16) = unat (fst ?e)"
      unfolding unat_word_of_nat_u16 using e(1) by (intro mod_less) simp
    have "DataEERead (word_of_nat (255 * 0 + unat (fst ?e))) d = (snd ?e, d)"
      using DataEERead_reads[OF assms(1), of "word_of_nat (unat (fst ?e))"] e unfolding u by simp
    moreover have "fst ?e \<noteq> 0xFF" using e(1) by auto
    ultimately show ?thesis
      using Suc.IH[of "Suc k"] Suc.prems True rd by (simp add: loc_step)
  next
    case False
    then show ?thesis using rd by simp
  qed
qed simp

lemma finish_pack_spec:
  assumes "base_ok d" and "p < 16" and "q < 16" and "q \<noteq> p" and "cell d q 0 = erased_word"
  shows "\<exists>code h l d'. finish_pack 0 p q d = (code, d') \<and> code \<le> 1 \<and> bit h 3 = bit (fst (cell d p 0)) 3 \<and> ee_base d' = ee_base d
    \<and> (\<forall>p' k. k < 512 \<longrightarrow> cell d' p' k = (if p' = p then erased_word else if p' = q \<and> k = 0 then (h, l) else cell d p' k))"
proof -
  define l where "l = (if q = 0 then snd (cell d p 0) + 1 else snd (cell d p 0))"
  define expired where "expired \<longleftrightarrow> ERASE_WRITE_CYCLE_MAX - 1 \<le> unat l"
  define h where "h = (if expired then fst (cell d p 0) AND 0xEF else fst (cell d p 0))"
  define d1 where "d1 = (if expired then set_flag expiredPage True d else d)"
  let ?d2 = "UnlockWrite (latched (d1\<lparr>nvmcon := PROGRAM_WORD\<rparr>) q 0 (h, l))"
  have same: "ee_base d1 = ee_base d" "flash d1 = flash d" by (simp_all add: d1_def)
  have b1: "base_ok (d1\<lparr>nvmcon := PROGRAM_WORD\<rparr>)" "DEE_PAGE_TBL d1 = DEE_PAGE_TBL d" "loc d1 = loc d" "DEE_PAGE_OFFSET d1 = DEE_PAGE_OFFSET d"
    "DEE_PAGE_TBL (d1\<lparr>nvmcon := PROGRAM_WORD\<rparr>) = DEE_PAGE_TBL d" "loc (d1\<lparr>nvmcon := PROGRAM_WORD\<rparr>) = loc d" "cell (d1\<lparr>nvmcon := PROGRAM_WORD\<rparr>) = cell d"
    using base_cong[of "d1\<lparr>nvmcon := PROGRAM_WORD\<rparr>" d] base_cong[OF same(1)] flash_cong(2)[of "d1\<lparr>nvmcon := PROGRAM_WORD\<rparr>" d] same assms(1) by simp_all
  have w: "cell ?d2 p' k = (if p' = q \<and> k = 0 then (h, l) else cell d p' k)" if "k < 512" for p' k
    using cell_write_word[OF b1(1), of 0 k q "(h, l)" p'] that assms(5) by (simp add: b1)
  have b2: "ee_base ?d2 = ee_base d" "base_ok ?d2" "DEE_PAGE_TBL ?d2 = DEE_PAGE_TBL d" "loc ?d2 = loc d"
    using base_cong[of ?d2 d] same assms(1) by simp_all
  have rd: "ReadPMHigh (DEE_PAGE_TBL d 0 q) (loc d q 0) ?d2 = h" "ReadPMLow (DEE_PAGE_TBL d 0 q) (loc d q 0) ?d2 = l"
    using ReadPM_loc(1,2)[OF b2(2) assms(3), of 0] w[of 0 q] by (simp_all add: b2)
  have lw: "WritePMLow l (DEE_PAGE_TBL d 0 q) (loc d q 0) (WritePMHigh h (DEE_PAGE_TBL d 0 q) (loc d q 0) (d1\<lparr>nvmcon := PROGRAM_WORD\<rparr>))
    = latched (d1\<lparr>nvmcon := PROGRAM_WORD\<rparr>) q 0 (h, l)"
    using latch_word(2)[OF b1(1) assms(3), of 0 l h] by (simp add: b1)
  have old: "ReadPMLow (DEE_PAGE_TBL d 0 p) (loc d p 0) d = snd (cell d p 0)" "ReadPMHigh (DEE_PAGE_TBL d 0 p) (loc d p 0) d = fst (cell d p 0)"
    using ReadPM_loc[OF assms(1,2), of 0] by simp_all
  let ?d3 = "ErasePage 0 p ?d2"
  have fin: "finish_pack 0 p q d = (if ee_flag expiredPage ?d3 then 1 else 0, ?d3)"
    unfolding finish_pack_def Let_def loc_0 old l_def[symmetric] expired_def[symmetric] h_def[symmetric] d1_def[symmetric] b1 lw rd by simp
  have "bit h 3 = bit (fst (cell d p 0)) 3" by (simp add: h_def bit_and_iff)
  moreover have "cell ?d3 p' k = (if p' = p then erased_word else if p' = q \<and> k = 0 then (h, l) else cell d p' k)" if "k < 512" for p' k
    using cell_erase_page(1)[OF b2(2) assms(2) that, of p'] w[OF that, of p'] by simp
  moreover have "ee_base ?d3 = ee_base d" using cell_erase_page(2)[OF b2(2) assms(2), of 0] b2(1) by simp
  ultimately show ?thesis using fin by (intro exI[of _ "if ee_flag expiredPage ?d3 then 1 else 0"] exI[of _ h] exI[of _ l] exI[of _ ?d3]) simp
qed

lemma next_page:
  assumes "dee_state d p es"
  shows "next_unexpired 0 p d = Some ((p + 1) mod 16)"
proof -
  have p: "p < 16" "base_ok d" using assms by (simp_all add: dee_state_def reads_log_def)
  have q: "(p + 1) mod 16 < 16" "(p + 1) mod 16 \<noteq> p" using p(1) by (simp, cases "p = 15") auto
  have "bit (0xFF :: u8) 4" by simp
  then have "GetPageStatus 0 ((p + 1) mod 16) STATUS_EXPIRED d = 1"
    using GetPageStatus_cell(2)[OF p(2) q(1)] assms q by (simp add: dee_state_def)
  moreover have "[1..<16] = 1 # [Suc 1..<16]" by (rule upt_conv_Cons) simp
  ultimately show ?thesis unfolding next_unexpired_def by (simp only: list.map find.simps) simp
qed

lemma holds_log_packed:
  assumes "\<And>k. k < 512 \<Longrightarrow> 0 < k \<Longrightarrow> cell d q k = target m k"
  shows "holds_log d q (packed_to m 255)"
proof (rule holds_logI)
  show "length (packed_to m 255) < 512" using length_packed[of m 255] by simp
  show "\<forall>e \<in> set (packed_to m 255). fst e \<noteq> 0xFF" using packed_addresses[of 255 m] by fastforce
  fix k :: nat assume "0 < k" "k < 512"
  then show "cell d q k = (if k \<le> length (packed_to m 255) then packed_to m 255 ! (k - 1) else erased_word)"
    using assms[of k] by (simp add: target_def Let_def)
qed

lemma PackEE_spec:
  assumes "dee_state d p es"
  shows "\<exists>code d' q. PackEE 0 d = Inr (code, d') \<and> code \<le> 1 \<and> dee_state d' q (packed_to (log_map es) 255) \<and> ee_base d' = ee_base d"
proof -
  define q where "q = (p + 1) mod 16"
  let ?m = "log_map es" and ?E = "packed_to (log_map es) 255"
  have p: "p < 16" "base_ok d" "reads_log d p es" using assms by (simp_all add: dee_state_def reads_log_def)
  have q: "q < 16" "q \<noteq> p" using p(1) unfolding q_def by (simp, cases "p = 15") auto
  let ?d1 = "pack_values 0 q d"
  have v: "ee_base ?d1 = ee_base d" "\<And>k. k < 512 \<Longrightarrow> cell ?d1 q k = target ?m k" "\<And>q' k. k < 512 \<Longrightarrow> q' \<noteq> q \<Longrightarrow> cell ?d1 q' k = cell d q' k"
    using pack_values_spec[OF assms q refl] by auto
  have t0: "target ?m 0 = erased_word" by (simp add: target_def)
  have rd: "reads_log ?d1 p es"
  proof (rule reads_log_cells[OF p(3) v(1)])
    fix q' :: nat assume "q' < 16"
    show "cell ?d1 q' 0 = cell d q' 0"
      using v(2)[of 0] v(3)[of 0 q'] t0 assms q by (cases "q' = q") (auto simp: dee_state_def)
  qed (use v(3) q(2) in auto)
  have E: "length ?E \<le> 255" by (rule length_packed)
  have "verify_pack 0 (DEE_PAGE_TBL ?d1 0 q) (loc ?d1 q 1) 32768 ?d1 = Inr (True, ?d1)"
    by (rule verify_pack_spec[OF rd q(1) _ refl]) (use v(2) E in \<open>simp_all add: target_def Let_def\<close>)
  then have ver: "verify_pack 0 (DEE_PAGE_TBL ?d1 0 q) (DEE_PAGE_OFFSET ?d1 0 q + 2) 32768 ?d1 = Inr (True, ?d1)"
    by (simp add: loc_0 loc_step)
  have b1: "base_ok ?d1" using rd by (simp add: reads_log_def)
  obtain code h l d' where f: "finish_pack 0 p q ?d1 = (code, d')" "code \<le> 1" "bit h 3 = bit (fst (cell ?d1 p 0)) 3" "ee_base d' = ee_base ?d1"
    "\<And>p' k. k < 512 \<Longrightarrow> cell d' p' k = (if p' = p then erased_word else if p' = q \<and> k = 0 then (h, l) else cell ?d1 p' k)"
    using finish_pack_spec[OF b1 p(1) q v(2)[of 0, unfolded t0]] by auto
  have "PackEE 0 d = Inr (code, d')"
    using p(1) f(1) unfolding PackEE_def Let_def current_page_reads[OF p(3)] next_page[OF assms, folded q_def] by (simp add: ver)
  moreover have "dee_state d' q ?E"
  proof (rule dee_stateI)
    show "base_ok d'" using base_cong[OF f(4)] b1 by simp
    have "\<not> bit (fst (cell ?d1 p 0)) 3" using rd p(1) by (simp add: reads_log_def)
    then show "\<not> bit (fst (cell d' q 0)) 3" using f(3) f(5)[of 0 q] q(2) by simp
    show "holds_log d' q ?E" by (rule holds_log_packed) (use f(5) v(2) q(2) in auto)
    show "cell d' q' k = erased_word" if "q' < 16" "k < 512" "q' \<noteq> q" for q' k
      using f(5)[OF that(2), of q'] v(3)[OF that(2,3)] that assms by (auto simp: dee_state_def)
  qed (rule q(1))
  ultimately show ?thesis using f(2,4) v(1) by (intro exI[of _ code] exI[of _ d'] exI[of _ q]) simp
qed

end
