(* ===== verification/DspicEeprom.thy ===== *)
theory DspicEeprom
  imports DeePack
begin

text \<open>
  \<open>src/orazio_lib/src/arch/dspic/eeprom.c\<close>: blocks of bytes in the emulated EEPROM. What the emulation
  promises is a contract, \<open>word_store\<close>; on everything that meets it a block is read as it was written.
\<close>

section \<open>Blocks\<close>

text \<open>
  \<open>rd\<close> and \<open>wr\<close> are \<open>DataEERead\<close> and \<open>DataEEWrite\<close>. The addresses are
  16 bit words and the loops compare them, so a block that passes the end of the addresses is not touched.
  The status of a write is not looked at.
\<close>

function EEPROM_read_d :: "(u16 \<Rightarrow> 'e \<Rightarrow> u16 \<times> 'e) \<Rightarrow> u16 \<Rightarrow> u16 \<Rightarrow> 'e \<Rightarrow> u8 list \<times> 'e" where
  "EEPROM_read_d rd s s_end e =
     (if s < s_end then case rd s e of (v, e) \<Rightarrow> apfst ((#) (ucast v)) (EEPROM_read_d rd (s + 1) s_end e) else ([], e))"
  by pat_completeness auto
termination
proof (relation "measure (\<lambda>(rd, s, s_end, e). unat s_end - unat s)", simp)
  fix rd :: "u16 \<Rightarrow> 'e \<Rightarrow> u16 \<times> 'e" and s s_end v :: u16 and e e' :: 'e
  assume "s < s_end"
  then have lt: "unat s < unat s_end" by (simp add: word_less_nat_alt)
  then have "unat (s + 1) = unat s + 1" using unat_word_ariths(1)[of s 1] unat_u16_less[of s_end] by simp
  then show "((rd, s + 1, s_end, e'), (rd, s, s_end, e)) \<in> measure (\<lambda>(rd, s, s_end, e). unat s_end - unat s)"
    using lt by simp
qed

declare EEPROM_read_d.simps [simp del]

fun EEPROM_write_d :: "(u16 \<Rightarrow> u16 \<Rightarrow> 'e \<Rightarrow> (nat \<times> 'e) result) \<Rightarrow> u16 \<Rightarrow> u8 list \<Rightarrow> 'e \<Rightarrow> 'e result" where
  "EEPROM_write_d wr dest [] e = Inr e"
| "EEPROM_write_d wr dest (b # bs) e = bindR (wr (ucast b) dest e) (\<lambda>(_, e). EEPROM_write_d wr (dest + 1) bs e)"

definition EEPROM_init_d :: "dee \<Rightarrow> dee result" where
  "EEPROM_init_d d = bindR (DataEEInit d) (\<lambda>(_, d). Inr (d\<lparr>dataEEFlags := 0\<rparr>))"

section \<open>The contract\<close>

text \<open>The value of an address, all ones when it has none; and a map after a block has been written.\<close>

definition word_at :: "(nat \<Rightarrow> u16 option) \<Rightarrow> nat \<Rightarrow> u16" where
  "word_at m a = (case m a of None \<Rightarrow> 0xFFFF | Some v \<Rightarrow> v)"

definition block_map :: "nat \<Rightarrow> u8 list \<Rightarrow> (nat \<Rightarrow> u16 option) \<Rightarrow> nat \<Rightarrow> u16 option" where
  "block_map dest bs m = (\<lambda>a. if dest \<le> a \<and> a < dest + length bs then Some (ucast (bs ! (a - dest))) else m a)"

lemma block_map_Nil [simp]: "block_map dest [] m = m"
  by (auto simp: block_map_def fun_eq_iff)

lemma block_map_Cons: "block_map dest (b # bs) m = block_map (Suc dest) bs (m(dest \<mapsto> ucast b))"
  by (auto simp: block_map_def fun_eq_iff nth_Cons')

lemma block_map_read: "map (\<lambda>i. ucast (word_at (block_map n bs m) (n + i))) [0..<length bs] = bs"
  by (rule nth_equalityI) (simp_all add: block_map_def word_at_def ucast_u8_u16)

locale word_store =
  fixes rd :: "u16 \<Rightarrow> 'e \<Rightarrow> u16 \<times> 'e" and wr :: "u16 \<Rightarrow> u16 \<Rightarrow> 'e \<Rightarrow> (nat \<times> 'e) result"
    and ok :: "'e \<Rightarrow> bool" and view :: "'e \<Rightarrow> nat \<Rightarrow> u16 option" and limit :: nat
  assumes limit: "limit < 65536"
    and reads: "ok e \<Longrightarrow> unat a < limit \<Longrightarrow> \<exists>e'. rd a e = (word_at (view e) (unat a), e') \<and> ok e' \<and> view e' = view e"
    and writes: "ok e \<Longrightarrow> unat a < limit \<Longrightarrow> \<exists>e'. wr v a e = Inr (0, e') \<and> ok e' \<and> view e' = (view e)(unat a \<mapsto> v)"
begin

lemma next_address: "unat (a :: u16) < limit \<Longrightarrow> unat (a + 1) = unat a + 1"
  using limit unat_word_ariths(1)[of a 1] by simp

lemma write_block:
  assumes "ok e" and "unat dest + length bs \<le> limit"
  shows "\<exists>e'. EEPROM_write_d wr dest bs e = Inr e' \<and> ok e' \<and> view e' = block_map (unat dest) bs (view e)"
  using assms
proof (induction bs arbitrary: dest e)
  case (Cons b bs)
  have dest: "unat dest < limit" using Cons.prems(2) by simp
  obtain e1 where e1: "wr (ucast b) dest e = Inr (0, e1)" "ok e1" "view e1 = (view e)(unat dest \<mapsto> ucast b)"
    using writes[OF Cons.prems(1) dest] by blast
  have "unat (dest + 1) + length bs \<le> limit" using Cons.prems(2) next_address[OF dest] by simp
  from Cons.IH[OF e1(2) this] show ?case using e1 next_address[OF dest] by (simp add: block_map_Cons fun_upd_def)
qed simp

lemma read_block:
  assumes "ok e" and "unat src + n \<le> limit"
  shows "\<exists>e'. EEPROM_read_d rd src (src + word_of_nat n) e = (map (\<lambda>i. ucast (word_at (view e) (unat src + i))) [0..<n], e')
    \<and> ok e' \<and> view e' = view e"
  using assms
proof (induction n arbitrary: src e)
  case 0
  then show ?case by (simp add: EEPROM_read_d.simps)
next
  case (Suc n)
  let ?stop = "src + word_of_nat (Suc n)"
  have src: "unat src < limit" using Suc.prems(2) by simp
  have "unat (word_of_nat (Suc n) :: u16) = Suc n" using Suc.prems(2) limit by (simp add: unat_of_nat del: of_nat_Suc)
  then have "unat ?stop = unat src + Suc n" using Suc.prems(2) limit unat_word_ariths(1)[of src "word_of_nat (Suc n)"] by (simp del: of_nat_Suc)
  then have less: "src < ?stop" by (simp add: word_less_nat_alt)
  obtain e1 where e1: "rd src e = (word_at (view e) (unat src), e1)" "ok e1" "view e1 = view e" using reads[OF Suc.prems(1) src] by blast
  have "unat (src + 1) + n \<le> limit" using Suc.prems(2) next_address[OF src] by simp
  from Suc.IH[OF e1(2) this] obtain e' where
    IH: "EEPROM_read_d rd (src + 1) ?stop e1 = (map (\<lambda>i. ucast (word_at (view e) (unat src + 1 + i))) [0..<n], e')" "ok e'" "view e' = view e"
    using e1(3) next_address[OF src] by (auto simp: add.assoc)
  have "map (\<lambda>i. ucast (word_at (view e) (unat src + i)) :: u8) [0..<Suc n]
    = ucast (word_at (view e) (unat src)) # map (\<lambda>i. ucast (word_at (view e) (unat src + 1 + i))) [0..<n]"
    by (simp add: upt_conv_Cons map_Suc_upt[symmetric] del: upt_Suc)
  then show ?case using less e1(1) IH by (subst EEPROM_read_d.simps) simp
qed

text \<open>A block is read as it was written.\<close>

lemma read_written:
  assumes "ok e" and "view e = block_map (unat dest) bs m" and "unat dest + length bs \<le> limit"
  shows "\<exists>e'. EEPROM_read_d rd dest (dest + word_of_nat (length bs)) e = (bs, e')"
  using read_block[OF assms(1,3)] unfolding assms(2) block_map_read by blast

end

end
