(* ===== verification/DeeProperties.thy ===== *)
theory DeeProperties
  imports DspicEeprom
begin

text \<open>
  The emulated EEPROM of the dsPIC is a map from addresses to values, through any number of packs; what a reset in the
  middle of a pack does to it; and the blocks of bytes that the firmware keeps in it.
\<close>

section \<open>The map\<close>

text \<open>Between two operations one word of the current page is free.\<close>

definition dee_inv :: "dee \<Rightarrow> bool" where
  "dee_inv d \<longleftrightarrow> (\<exists>p es. dee_state d p es \<and> length es < 511)"

definition ee_map :: "dee \<Rightarrow> nat \<Rightarrow> u16 option" where
  "ee_map d = log_map (takeWhile (\<lambda>c. fst c \<noteq> 0xFF) (map (cell d (current_page 0 d)) [1..<512]))"

lemma ee_map_reads: "reads_log d p es \<Longrightarrow> ee_map d = log_map es"
  using current_page_reads[of d p es]
  by (simp only: ee_map_def reads_log_def holds_log_def) (simp add: takeWhile_append2 takeWhile_replicate)

lemma ee_map_state: "dee_state d p es \<Longrightarrow> ee_map d = log_map es"
  unfolding dee_state_def by (blast intro: ee_map_reads)

lemma dee_cong:
  assumes "ee_base d' = ee_base d" and "flash d' = flash d"
  shows "dee_state d' p es = dee_state d p es" and "dee_inv d' = dee_inv d" and "ee_map d' = ee_map d"
proof -
  show st: "dee_state d' p es = dee_state d p es" for p es using flash_cong[OF assms] by (simp add: dee_state_def)
  then show "dee_inv d' = dee_inv d" by (simp add: dee_inv_def)
  have "current_page 0 d' = current_page 0 d"
    using base_cong[OF assms(1)] assms(2) by (simp add: current_page_def GetPageStatus_def ReadPMHigh_def)
  then show "ee_map d' = ee_map d" using flash_cong(2)[OF assms] by (simp add: ee_map_def)
qed

lemma PackEE_map:
  assumes "dee_state d p es"
  shows "\<exists>code d'. PackEE 0 d = Inr (code, d') \<and> code \<le> 1 \<and> dee_inv d' \<and> ee_map d' = ee_map d"
proof -
  obtain code d' q where r: "PackEE 0 d = Inr (code, d')" "code \<le> 1" "dee_state d' q (packed_to (log_map es) 255)"
    using PackEE_spec[OF assms] by blast
  have "\<forall>e \<in> set es. fst e \<noteq> 0xFF" using assms by (simp add: dee_state_def reads_log_def holds_log_def)
  then have "log_map (packed_to (log_map es) 255) = log_map es" using log_map_packed log_map_bound by blast
  moreover have "length (packed_to (log_map es) 255) < 511" using length_packed[of "log_map es" 255] by simp
  ultimately show ?thesis using r ee_map_state[OF assms] ee_map_state[OF r(3)] by (auto simp: dee_inv_def)
qed

text \<open>One word is appended.\<close>

lemma append_word:
  assumes "dee_state d p es" and "length es < 511" and "h \<noteq> 0xFF" and "nvmcon d = PROGRAM_WORD"
    and d'_def: "d' = UnlockWrite (latched d p (Suc (length es)) (h, l))"
  shows "dee_state d' p (es @ [(h, l)])" and "cell d' p (Suc (length es)) = (h, l)"
proof -
  let ?k = "Suc (length es)"
  have p: "p < 16" "base_ok d" "holds_log d p es" using assms(1) by (simp_all add: dee_state_def reads_log_def)
  have k: "?k < 512" using assms(2) by simp
  have "cell d p ?k = erased_word" using cells_log[OF p(3) _ k] by simp
  then have w: "cell d' q j = (if q = p \<and> j = ?k then (h, l) else cell d q j)" if "j < 512" for q j
    using cell_write_word[OF p(2) k assms(4) that, of p "(h, l)" q] by (simp add: d'_def)
  show "cell d' p ?k = (h, l)" using w[OF k] by simp
  show "dee_state d' p (es @ [(h, l)])"
  proof (rule dee_stateI)
    show "base_ok d'" using base_cong[of d' d] p(2) by (simp add: d'_def)
    show "\<not> bit (fst (cell d' p 0)) 3" using w[of 0 p] assms(1) p(1) by (simp add: dee_state_def reads_log_def)
    show "holds_log d' p (es @ [(h, l)])" by (rule holds_log_snoc[OF p(3) assms(2,3)]) (simp add: w)
    show "cell d' q j = erased_word" if "q < 16" "j < 512" "q \<noteq> p" for q j using w[OF that(2)] that assms(1) by (simp add: dee_state_def)
  qed (rule p(1))
qed

lemma flags_back [simp]: "(set_flag n b d)\<lparr>dataEEFlags := dataEEFlags d\<rparr> = d"
  by (simp add: set_flag_def)

lemma read_restores:
  assumes "reads_log d p es" and "unat addr < 255"
  shows "\<exists>d'. DataEERead addr d = (case log_map es (unat addr) of None \<Rightarrow> 0xFFFF | Some v \<Rightarrow> v, d') \<and> d'\<lparr>dataEEFlags := dataEEFlags d\<rparr> = d
    \<and> (\<not> ee_flag addrNotFound d' \<longrightarrow> log_map es (unat addr) \<noteq> None)"
  using DataEERead_reads[OF assms] flag_on[of addrNotFound d] by (cases "log_map es (unat addr)") auto

text \<open>What \<open>DataEEWrite\<close> does up to the search for a free word.\<close>

definition write_word :: "u16 \<Rightarrow> nat \<Rightarrow> nat \<Rightarrow> nat \<Rightarrow> dee \<Rightarrow> (nat \<times> dee) result" where
  "write_word data a p n d =
     (let tblpag = DEE_PAGE_TBL d 0 p; off = loc d p n;
          d = UnlockWrite (WritePMHigh (word_of_nat a) tblpag off (WritePMLow data tblpag off d))
      in if \<not> write_ok tblpag off data a d then Inr (7, set_flag writeError True d)
         else if 2 * n + 2 = 2 * NUMBER_OF_INSTRUCTIONS_IN_PAGE then bindR (PackEE 0 d) (\<lambda>(_, d). Inr (0, d))
         else Inr (0, d))"

lemma DataEEWrite_cases:
  assumes "reads_log d0 p es" and "unat addr < 255"
  defines "d \<equiv> d0\<lparr>nvmcon := PROGRAM_WORD\<rparr>"
  shows "DataEEWrite data addr d0 = Inr (0, d) \<and> log_map es (unat addr) = Some data
    \<or> DataEEWrite data addr d0 = (if length es = 511 then Inr (4, set_flag packSkipped True d) else write_word data (unat addr) p (Suc (length es)) d)"
proof -
  have rd: "reads_log d p es" using assms(1) flash_cong(1)[of d d0] by (simp add: d_def)
  then have p: "p < 16" by (simp add: reads_log_def)
  obtain d' where r: "DataEERead addr d = (case log_map es (unat addr) of None \<Rightarrow> 0xFFFF | Some v \<Rightarrow> v, d')"
    "d'\<lparr>dataEEFlags := dataEEFlags d\<rparr> = d" "\<not> ee_flag addrNotFound d' \<longrightarrow> log_map es (unat addr) \<noteq> None"
    using read_restores[OF rd assms(2)] by blast
  let ?v = "case log_map es (unat addr) of None \<Rightarrow> 0xFFFF | Some v \<Rightarrow> v"
  have a: "unat addr div 255 = 0" "unat addr mod 255 = unat addr" "\<not> 255 \<le> unat addr" using assms(2) by simp_all
  have n: "GetNextAvailCount 0 d = (if length es = 511 then 0 else 2 * Suc (length es))" using GetNextAvailCount_reads[OF rd] by simp
  note w = DataEEWrite_def[of data addr d0] d_def[symmetric] a if_False Let_def current_page_reads[OF rd] r(1) split r(2) n
  show ?thesis
  proof (cases "?v = data \<and> \<not> ee_flag addrNotFound d'")
    case True
    then have "log_map es (unat addr) = Some data" using r(3) by auto
    moreover have "DataEEWrite data addr d0 = Inr (0, d)" using True p assms(2) unfolding w by simp
    ultimately show ?thesis by simp
  next
    case False
    have "DataEEWrite data addr d0 = (if length es = 511 then Inr (4, set_flag packSkipped True d) else write_word data (unat addr) p (Suc (length es)) d)"
    proof (cases "length es = 511")
      case True
      then show ?thesis using False p assms(2) unfolding w by simp
    next
      case full: False
      obtain N where N: "N = Suc (length es)" by blast
      have n': "GetNextAvailCount 0 d = 2 * N" "2 * N \<noteq> 0" using n full N by simp_all
      have "DataEEWrite data addr d0 = write_word data (unat addr) p N d"
        using p assms(2) n'(2) unfolding DataEEWrite_def[of data addr d0] d_def[symmetric] a if_False Let_def
          current_page_reads[OF rd] r(1) split r(2) if_not_P[OF False] n'(1) write_word_def loc_def by simp
      then show ?thesis using full N by simp
    qed
    then show ?thesis by simp
  qed
qed

text \<open>
  Writing a value changes the map at its address and nowhere else, whether the value was there before, was appended,
  or filled the page, which is then packed. The result is always success.
\<close>

lemma write_word_spec:
  assumes "dee_state d p es" and "length es < 511" and "a < 255" and "nvmcon d = PROGRAM_WORD"
  shows "\<exists>d'. write_word data a p (Suc (length es)) d = Inr (0, d') \<and> dee_inv d' \<and> ee_map d' = (ee_map d)(a \<mapsto> data)"
proof -
  let ?k = "Suc (length es)" and ?h = "word_of_nat a :: u8"
  let ?d1 = "UnlockWrite (latched d p ?k (?h, data))"
  have p: "p < 16" "base_ok d" using assms(1) by (simp_all add: dee_state_def reads_log_def)
  have k: "?k < 512" using assms(2) by simp
  have ua: "unat ?h = a" using assms(3) by (simp add: unat_of_nat)
  then have "?h \<noteq> 0xFF" using assms(3) by auto
  note ap = append_word[OF assms(1,2) this assms(4) refl, of data]
  have "base_ok ?d1" "DEE_PAGE_TBL ?d1 = DEE_PAGE_TBL d" "loc ?d1 = loc d" using base_cong[of ?d1 d] p(2) by simp_all
  then have ok: "write_ok (DEE_PAGE_TBL d 0 p) (loc d p ?k) data a ?d1"
    using ReadPM_loc[of ?d1 p ?k] p(1) k ap(2) ua by (simp add: write_ok_def)
  have lw: "WritePMHigh ?h (DEE_PAGE_TBL d 0 p) (loc d p ?k) (WritePMLow data (DEE_PAGE_TBL d 0 p) (loc d p ?k) d) = latched d p ?k (?h, data)"
    by (rule latch_word(1)[OF p(2,1) k])
  have m: "ee_map ?d1 = (ee_map d)(a \<mapsto> data)" using ee_map_state[OF ap(1)] ee_map_state[OF assms(1)] log_map_snoc[of es ?h data] ua by simp
  show ?thesis
  proof (cases "length es = 510")
    case True
    obtain code d' where "PackEE 0 ?d1 = Inr (code, d')" "dee_inv d'" "ee_map d' = ee_map ?d1" using PackEE_map[OF ap(1)] by blast
    then show ?thesis using m ok True unfolding write_word_def Let_def lw by simp
  next
    case False
    then have "dee_inv ?d1" unfolding dee_inv_def using ap(1) assms(2) by (intro exI[of _ p] exI[of _ "es @ [(?h, data)]"]) simp
    then show ?thesis using m ok False unfolding write_word_def Let_def lw by simp
  qed
qed

lemma DataEEWrite_spec:
  assumes "dee_inv d" and "unat addr < 255"
  shows "\<exists>d'. DataEEWrite v addr d = Inr (0, d') \<and> dee_inv d' \<and> ee_map d' = (ee_map d)(unat addr \<mapsto> v)"
proof -
  obtain p es where st: "dee_state d p es" and es: "length es < 511" using assms(1) by (auto simp: dee_inv_def)
  let ?d = "d\<lparr>nvmcon := PROGRAM_WORD\<rparr>"
  have st': "dee_state ?d p es" and d: "dee_inv ?d" "ee_map ?d = ee_map d" using dee_cong[of ?d d] st assms(1) by simp_all
  have "reads_log d p es" using st by (simp add: dee_state_def)
  from DataEEWrite_cases[OF this assms(2), of v] consider
    "DataEEWrite v addr d = Inr (0, ?d)" "log_map es (unat addr) = Some v" | "DataEEWrite v addr d = write_word v (unat addr) p (Suc (length es)) ?d"
    using es by auto
  then show ?thesis
  proof cases
    case 1
    then show ?thesis using d ee_map_state[OF st] by (auto simp: fun_eq_iff)
  next
    case 2
    then show ?thesis using write_word_spec[OF st' es assms(2), of v] d(2) by simp
  qed
qed

lemma DataEERead_spec:
  assumes "dee_inv d" and "unat addr < 255"
  shows "\<exists>d'. DataEERead addr d = (word_at (ee_map d) (unat addr), d') \<and> dee_inv d' \<and> ee_map d' = ee_map d"
proof -
  obtain p es where st: "dee_state d p es" using assms(1) by (auto simp: dee_inv_def)
  then have rd: "reads_log d p es" by (simp add: dee_state_def)
  have "dee_inv (set_flag n b d) = dee_inv d" "ee_map (set_flag n b d) = ee_map d" for n b
    using dee_cong[of "set_flag n b d" d] by simp_all
  then show ?thesis
    using DataEERead_reads[OF rd assms(2)] ee_map_state[OF st] assms(1) by (cases "log_map es (unat addr)") (auto simp: word_at_def)
qed

interpretation dee_store: word_store DataEERead DataEEWrite dee_inv ee_map 255
  by unfold_locales (simp, rule DataEERead_spec, assumption+, rule DataEEWrite_spec, assumption+)

section \<open>Start\<close>

lemma DataEEInit_bank: "DataEEInit d = bindR (init_bank 0 d) (\<lambda>(code, d). Inr (code, d))"
  by (cases "init_bank 0 d") (auto simp: DataEEInit_def)

text \<open>The pages that are current, when some page has never been written.\<close>

definition currents :: "dee \<Rightarrow> nat set" where
  "currents d = {r. r < 16 \<and> \<not> bit (fst (cell d r 0)) 3}"

lemma current_pages:
  assumes "base_ok d"
  shows "length (filter (\<lambda>page. GetPageStatus 0 page STATUS_CURRENT d = 0) [0..<16]) = card (currents d)"
proof -
  have "set (filter (\<lambda>page. GetPageStatus 0 page STATUS_CURRENT d = 0) [0..<16]) = currents d"
    using GetPageStatus_cell(1)[OF assms] by (auto simp: currents_def)
  then show ?thesis by (metis distinct_card distinct_filter distinct_upt)
qed

lemma init_bank_cases:
  assumes "base_ok d" and "r < 16" and "cell d r 0 = erased_word"
  shows "init_bank 0 d =
     (if card (currents d) = 0 then
        let d = (ErasePage 0 0 d)\<lparr>nvmcon := PROGRAM_WORD\<rparr> in Inr (0, UnlockWrite (WritePMHigh 0xF3 (DEE_PAGE_TBL d 0 0) (loc d 0 0) (WritePMLow 0 (DEE_PAGE_TBL d 0 0) (loc d 0 0) d)))
      else if card (currents d) = 1 then Inr (0, d)
      else if card (currents d) = 2 then
        let d = ErasePage 0 (if GetPageStatus 0 15 STATUS_CURRENT d = 0 \<and> GetPageStatus 0 0 STATUS_CURRENT d = 0 then 0
              else if current_page 0 d + 1 = 16 then 0 else current_page 0 d + 1) d
        in if GetNextAvailCount 0 d = 0 then bindR (PackEE 0 d) (\<lambda>(_, d). Inr (0, d)) else Inr (0, d)
      else Inr (6, set_flag pageCorrupt True d))"
proof -
  have "GetPageStatus 0 r STATUS_EXPIRED d \<noteq> 0" using GetPageStatus_cell(2)[OF assms(1,2)] assms(3) by simp
  then have "\<not> (\<forall>page \<in> set [0..<16]. GetPageStatus 0 page STATUS_EXPIRED d = 0)" using assms(2) by auto
  then show ?thesis unfolding init_bank_def current_pages[OF assms(1)] Let_def loc_0 by (simp only: if_False diff_Suc_numeral) simp
qed

lemma currents_one: "reads_log d p es \<Longrightarrow> currents d = {p}"
  by (auto simp: currents_def reads_log_def)

text \<open>One current page is left as it is, when one of the others has never been written.\<close>

lemma init_kept:
  assumes "reads_log d p es" and "r < 16" and "cell d r 0 = erased_word"
  shows "DataEEInit d = Inr (0, d)"
  using init_bank_cases[OF _ assms(2,3)] currents_one[OF assms(1)] assms(1) by (simp add: DataEEInit_bank reads_log_def)

lemma init_erased:
  assumes "base_ok d" and "bit (fst (cell d 0 0)) 3" and "\<And>r k. 0 < r \<Longrightarrow> r < 16 \<Longrightarrow> k < 512 \<Longrightarrow> cell d r k = erased_word"
  shows "\<exists>d'. DataEEInit d = Inr (0, d') \<and> dee_state d' 0 []"
proof -
  let ?d1 = "(ErasePage 0 0 d)\<lparr>nvmcon := PROGRAM_WORD\<rparr>"
  let ?d2 = "UnlockWrite (latched ?d1 0 0 (0xF3, 0))"
  have base: "ee_base ?d1 = ee_base d" using cell_erase_page(2)[OF assms(1), of 0 0] by simp
  then have ok: "base_ok ?d1" using base_cong[OF base] assms(1) by simp
  have b: "bit (0xFF :: u8) 3" by simp
  have "currents d = {}"
  proof -
    have "bit (fst (cell d r 0)) 3" if "r < 16" for r using that assms(2) assms(3)[of r 0] b by (cases "r = 0") auto
    then show ?thesis by (auto simp: currents_def)
  qed
  then have "init_bank 0 d = Inr (0, UnlockWrite (WritePMHigh 0xF3 (DEE_PAGE_TBL ?d1 0 0) (loc ?d1 0 0) (WritePMLow 0 (DEE_PAGE_TBL ?d1 0 0) (loc ?d1 0 0) ?d1)))"
    using init_bank_cases[OF assms(1), of 1] assms(3)[of 1 0] by (simp add: Let_def)
  then have init: "DataEEInit d = Inr (0, ?d2)" using latch_word(1)[OF ok, of 0 0 "0xF3" 0] by (simp add: DataEEInit_bank)
  have e: "cell ?d1 r k = erased_word" if "r < 16" "k < 512" for r k
  proof -
    have "cell ?d1 r k = cell (ErasePage 0 0 d) r k" using flash_cong(2)[of ?d1 "ErasePage 0 0 d"] by simp
    then show ?thesis using cell_erase_page(1)[OF assms(1) _ that(2), of 0 r] assms(3)[of r k] that by auto
  qed
  have c: "cell ?d2 r k = (if r = 0 \<and> k = 0 then (0xF3, 0) else erased_word)" if "r < 16" "k < 512" for r k
    using cell_write_word[OF ok, of 0 k 0 "(0xF3, 0)" r] e[OF that] e[of 0 0] that by auto
  have "dee_state ?d2 0 []"
  proof (rule dee_stateI)
    show "base_ok ?d2" using base_cong[of ?d2 ?d1] ok by simp
    show "\<not> bit (fst (cell ?d2 0 0)) 3" using c[of 0 0] by simp
    show "holds_log ?d2 0 []" by (rule holds_logI) (use c[of 0] in auto)
    show "cell ?d2 r k = erased_word" if "r < 16" "k < 512" "r \<noteq> 0" for r k using c[OF that(1,2)] that(3) by simp
  qed simp
  then show ?thesis using init by blast
qed

text \<open>Two current pages, the second of them the one that was being packed.\<close>

lemma init_recovers:
  assumes "dee_state d p es" and q: "q = (p + 1) mod 16" and base: "ee_base d' = ee_base d"
    and cells: "\<And>r k. r < 16 \<Longrightarrow> k < 512 \<Longrightarrow> r \<noteq> q \<Longrightarrow> cell d' r k = cell d r k" and "\<not> bit (fst (cell d' q 0)) 3"
  shows "\<exists>d''. DataEEInit d' = Inr (0, d'') \<and> dee_inv d'' \<and> ee_map d'' = log_map es"
proof -
  let ?e = "ErasePage 0 q d'"
  have rd: "reads_log d p es" and p: "p < 16" "base_ok d" using assms(1) by (simp_all add: dee_state_def reads_log_def)
  have qp: "q < 16" "q \<noteq> p" unfolding q using p(1) by (cases "p = 15"; simp)+
  have ok: "base_ok d'" using base_cong[OF base] p(2) by simp
  have c3: "bit (fst (cell d' r 0)) 3 \<longleftrightarrow> r \<noteq> p \<and> r \<noteq> q" if "r < 16" for r
    using cells[OF that, of 0] rd assms(5) qp(2) that by (cases "r = q") (auto simp: reads_log_def)
  then have "currents d' = {p, q}" using p(1) qp(1) by (auto simp: currents_def)
  then have two: "card (currents d') = 2" using qp(2) by simp
  obtain r where r: "r < 16" "r \<noteq> p" "r \<noteq> q"
  proof
    let ?r = "if p < 14 then p + 2 else p - 14"
    have "q = (if p = 15 then 0 else p + 1)" unfolding q using p(1) by simp
    then show "?r < 16" "?r \<noteq> p" "?r \<noteq> q" using p(1) by auto
  qed
  have "cell d' r 0 = erased_word" using cells[OF r(1) _ r(3)] assms(1) r by (simp add: dee_state_def)
  note bank = init_bank_cases[OF ok r(1) this] two
  have st: "GetPageStatus 0 r STATUS_CURRENT d' = of_bool (r \<noteq> p \<and> r \<noteq> q)" if "r < 16" for r
    using GetPageStatus_cell(1)[OF ok that] c3[OF that] by simp
  have erase: "(if GetPageStatus 0 15 STATUS_CURRENT d' = 0 \<and> GetPageStatus 0 0 STATUS_CURRENT d' = 0 then 0
      else if current_page 0 d' + 1 = 16 then 0 else current_page 0 d' + 1) = q"
  proof (cases "p = 15")
    case True
    then show ?thesis using st[of 15] st[of 0] q by simp
  next
    case False
    then have q1: "q = Suc p" using p(1) q by simp
    have "[0..<16] = [0..<p] @ p # [Suc p..<16]"
      using p(1) by (metis less_imp_add_positive less_imp_le_nat upt_add_eq_append upt_conv_Cons zero_le le_add_diff_inverse)
    moreover have "takeWhile (\<lambda>r. GetPageStatus 0 r STATUS_CURRENT d' = 1) ([0..<p] @ p # [Suc p..<16]) = [0..<p]"
      using st p(1) q1 by (subst takeWhile_append2) auto
    ultimately have "current_page 0 d' = p" unfolding current_page_def by simp
    then show ?thesis using st[of 15] st[of 0] q1 False p(1) qp(1) by auto
  qed
  have e: "cell ?e r k = (if r = q then erased_word else cell d r k)" if "r < 16" "k < 512" for r k
    using cell_erase_page(1)[OF ok qp(1) that(2), of r] cells[OF that] by simp
  have base': "ee_base ?e = ee_base d" using cell_erase_page(2)[OF ok qp(1), of 0] base by simp
  have "dee_state ?e p es"
  proof (rule dee_stateI[OF _ p(1)])
    show "base_ok ?e" using base_cong[OF base'] p(2) by simp
    show "\<not> bit (fst (cell ?e p 0)) 3" using e[OF p(1), of 0] qp(2) rd p(1) by (simp add: reads_log_def)
    have hl: "holds_log d p es" using rd by (simp add: reads_log_def)
    show "holds_log ?e p es"
      by (rule holds_logI) (use hl cells_log[OF hl] e[OF p(1)] qp(2) in \<open>auto simp: holds_log_def\<close>)
    show "cell ?e r k = erased_word" if "r < 16" "k < 512" "r \<noteq> p" for r k using e[OF that(1,2)] that assms(1) by (simp add: dee_state_def)
  qed
  note ste = this
  have len: "length es < 512" using rd by (simp add: reads_log_def holds_log_def)
  have n: "GetNextAvailCount 0 ?e = (if length es = 511 then 0 else 2 * (1 + length es))"
    using ste GetNextAvailCount_reads[of ?e p es] unfolding dee_state_def by blast
  obtain code d'' where pk: "PackEE 0 ?e = Inr (code, d'')" "dee_inv d''" "ee_map d'' = log_map es"
    using PackEE_map[OF ste] ee_map_state[OF ste] by auto
  have init: "init_bank 0 d' = (if GetNextAvailCount 0 ?e = 0 then bindR (PackEE 0 ?e) (\<lambda>(_, d). Inr (0, d)) else Inr (0, ?e))"
    unfolding bank Let_def erase by simp
  show ?thesis
  proof (cases "length es = 511")
    case True
    then show ?thesis using init n pk by (simp add: DataEEInit_bank)
  next
    case False
    have "dee_inv ?e" unfolding dee_inv_def by (intro exI[of _ p] exI[of _ es] conjI ste) (use len False in simp)
    moreover have "DataEEInit d' = Inr (0, ?e)" unfolding DataEEInit_bank init n using False by simp
    ultimately show ?thesis using ee_map_state[OF ste] by blast
  qed
qed

lemma dee_inv_init:
  assumes "dee_inv d"
  shows "DataEEInit d = Inr (0, d)"
proof -
  obtain p es where st: "dee_state d p es" using assms by (auto simp: dee_inv_def)
  have r: "(if p = 0 then 1 else 0) < (16 :: nat)" "(if p = 0 then 1 else 0) \<noteq> p" by simp_all
  have "reads_log d p es" using st by (simp add: dee_state_def)
  from init_kept[OF this r(1)] show ?thesis using st r by (simp add: dee_state_def)
qed

section \<open>A full page\<close>

text \<open>
  The word that fills the page is programmed before the page is packed. When the processor stops between that and the
  status of the packed page, the current page stays full: nothing packs it later.
\<close>

definition frozen :: "dee \<Rightarrow> bool" where
  "frozen d \<longleftrightarrow> (\<exists>p es r. reads_log d p es \<and> length es = 511 \<and> r < 16 \<and> cell d r 0 = erased_word)"

lemma frozen_cong:
  assumes "ee_base d' = ee_base d" and "flash d' = flash d"
  shows "frozen d' = frozen d"
  using flash_cong[OF assms] by (simp add: frozen_def)

lemma frozen_write:
  assumes "frozen d" and "unat addr < 255"
  shows "\<exists>code d'. DataEEWrite v addr d = Inr (code, d') \<and> frozen d' \<and> ee_map d' = ee_map d \<and> flash d' = flash d
    \<and> (if ee_map d (unat addr) = Some v then code = 0 \<or> code = 4 else code = 4)"
proof -
  obtain p es where rd: "reads_log d p es" and es: "length es = 511" using assms(1) by (auto simp: frozen_def)
  let ?d = "d\<lparr>nvmcon := PROGRAM_WORD\<rparr>"
  have same: "frozen d'" "ee_map d' = ee_map d" if "ee_base d' = ee_base d" "flash d' = flash d" for d'
    using frozen_cong[OF that] dee_cong(3)[OF that] assms(1) by simp_all
  have "DataEEWrite v addr d = Inr (0, ?d) \<and> ee_map d (unat addr) = Some v \<or> DataEEWrite v addr d = Inr (4, set_flag packSkipped True ?d)"
    using DataEEWrite_cases[OF rd assms(2), of v] es ee_map_reads[OF rd] by auto
  moreover have "flash (set_flag packSkipped True ?d) = flash d" "ee_base (set_flag packSkipped True ?d) = ee_base d" by simp_all
  ultimately show ?thesis using same[of ?d] same[of "set_flag packSkipped True ?d"] by auto
qed

lemma frozen_block:
  assumes "frozen d" and "unat dest + length bs \<le> 255"
  shows "\<exists>d'. EEPROM_write_d DataEEWrite dest bs d = Inr d' \<and> frozen d' \<and> ee_map d' = ee_map d \<and> flash d' = flash d"
  using assms
proof (induction bs arbitrary: dest d)
  case (Cons b bs)
  have dest: "unat dest < 255" using Cons.prems(2) by simp
  obtain code d1 where d1: "DataEEWrite (ucast b) dest d = Inr (code, d1)" "frozen d1" "ee_map d1 = ee_map d" "flash d1 = flash d"
    using frozen_write[OF Cons.prems(1) dest] by blast
  have "unat (dest + 1) + length bs \<le> 255" using Cons.prems(2) dee_store.next_address[OF dest] by simp
  from Cons.IH[OF d1(2) this] show ?case using d1 by auto
qed simp

lemma frozen_start: "frozen d \<Longrightarrow> DataEEInit d = Inr (0, d)"
  unfolding frozen_def using init_kept by blast

text \<open>The state in the middle of a pack, and before it.\<close>

lemma full_frozen:
  assumes "dee_state d p es" and "length es = 511"
  shows "frozen d" and "frozen (pack_values 0 ((p + 1) mod 16) d)"
proof -
  let ?q = "(p + 1) mod 16"
  have rd: "reads_log d p es" and p: "p < 16" using assms(1) by (simp_all add: dee_state_def reads_log_def)
  have q: "?q < 16" "?q \<noteq> p" using p by (cases "p = 15"; simp)+
  have e: "cell d ?q 0 = erased_word" using assms(1) q by (simp add: dee_state_def)
  then show "frozen d" unfolding frozen_def using rd assms(2) q(1) by blast
  let ?d = "pack_values 0 ?q d"
  have ps: "ee_base ?d = ee_base d" "\<And>k. k < 512 \<Longrightarrow> cell ?d ?q k = target (log_map es) k" "\<And>r k. k < 512 \<Longrightarrow> r \<noteq> ?q \<Longrightarrow> cell ?d r k = cell d r k"
    using pack_values_spec[OF assms(1) q refl] by simp_all
  have z: "cell ?d ?q 0 = cell d ?q 0" using ps(2)[of 0] e by (simp add: target_def)
  have "cell ?d r 0 = cell d r 0" for r using ps(3)[of 0 r] z by (cases "r = ?q") simp_all
  then have "reads_log ?d p es" using reads_log_cells[OF rd ps(1)] ps(3) q(2) by auto
  then show "frozen ?d" unfolding frozen_def using assms(2) q(1) z e by (metis (no_types))
qed

section \<open>Properties\<close>

text \<open>A memory that holds a given log in page 0.\<close>

definition log_image :: "(u8 \<times> u16) list \<Rightarrow> dee" where
  "log_image es = \<lparr>ee_base = 0, flash = (\<lambda>i. if i = 0 then (0xF3, 0) else if i \<le> length es then es ! (i - 1) else erased_word),
     latches = (\<lambda>_. erased_word), latch_addr = 0, nvmcon = 0, dataEEFlags = 0\<rparr>"

lemma log_image_state:
  assumes "length es < 512" and "\<forall>e \<in> set es. fst e \<noteq> 0xFF"
  shows "dee_state (log_image es) 0 es"
proof (rule dee_stateI)
  have c: "cell (log_image es) p k = (if 512 * p + k = 0 then (0xF3, 0) else if 512 * p + k \<le> length es then es ! (512 * p + k - 1) else erased_word)"
    for p k by (simp add: cell_def word_index_def log_image_def)
  show "base_ok (log_image es)" by (simp add: base_ok_def log_image_def)
  show "\<not> bit (fst (cell (log_image es) 0 0)) 3" using c[of 0 0] by simp
  show "holds_log (log_image es) 0 es" by (rule holds_logI[OF assms]) (use c[of 0] in simp)
  show "cell (log_image es) q k = erased_word" if "q < 16" "k < 512" "q \<noteq> 0" for q k
  proof -
    have "512 \<le> 512 * q" using that(3) by simp
    then have "\<not> 512 * q + k \<le> length es" "512 * q + k \<noteq> 0" using assms(1) by linarith+
    then show ?thesis using c[of q k] by simp
  qed
qed simp

lemma log_image_inv: "dee_inv (log_image [])"
  unfolding dee_inv_def using log_image_state[of "[]"] by fastforce

lemma log_image_map: "ee_map (log_image []) = Map.empty"
  using ee_map_state[OF log_image_state[of "[]"]] by (simp add: log_map_def)

text \<open>
  C5. The emulated EEPROM is a map: a write puts the value at its address and succeeds, a read gives the value of the map
  and all ones for an address that has none, and the invariant is kept, also by the write that fills the page and packs it.
\<close>

theorem eeprom_is_map:
  assumes "dee_inv d" and "unat addr < 255"
  shows "(\<exists>d'. DataEEWrite v addr d = Inr (0, d') \<and> dee_inv d' \<and> ee_map d' = (ee_map d)(unat addr \<mapsto> v))
    \<and> (\<exists>d'. DataEERead addr d = (word_at (ee_map d) (unat addr), d') \<and> dee_inv d' \<and> ee_map d' = ee_map d)"
  using dee_store.writes[OF assms] dee_store.reads[OF assms] by blast

theorem eeprom_is_map_witness:
  "(\<exists>d'. DataEEWrite 7 3 (log_image []) = Inr (0, d') \<and> dee_inv d' \<and> ee_map d' = (ee_map (log_image []))(3 \<mapsto> 7))
    \<and> (\<exists>d'. DataEERead 3 (log_image []) = (0xFFFF, d') \<and> dee_inv d' \<and> ee_map d' = ee_map (log_image []))"
  using eeprom_is_map[OF log_image_inv, of 3 7] by (simp add: log_image_map word_at_def)

text \<open>
  C6. A block of bytes that the firmware writes is read back as it was written after the processor has been restarted, where
  everything but the program memory has arbitrary content.
\<close>

theorem block_survives_restart:
  assumes "dee_inv d" and "unat dest + length bs \<le> 255"
  shows "\<exists>d'. EEPROM_write_d DataEEWrite dest bs d = Inr d' \<and>
    (\<forall>d0. ee_base d0 = ee_base d' \<and> flash d0 = flash d' \<longrightarrow>
      (\<exists>d1 d2. EEPROM_init_d d0 = Inr d1 \<and> EEPROM_read_d DataEERead dest (dest + word_of_nat (length bs)) d1 = (bs, d2)))"
proof -
  obtain d' where d': "EEPROM_write_d DataEEWrite dest bs d = Inr d'" "dee_inv d'" "ee_map d' = block_map (unat dest) bs (ee_map d)"
    using dee_store.write_block[OF assms] by blast
  have "\<exists>d1 d2. EEPROM_init_d d0 = Inr d1 \<and> EEPROM_read_d DataEERead dest (dest + word_of_nat (length bs)) d1 = (bs, d2)"
    if same: "ee_base d0 = ee_base d'" "flash d0 = flash d'" for d0
  proof -
    let ?d1 = "d0\<lparr>dataEEFlags := 0\<rparr>"
    have "DataEEInit d0 = Inr (0, d0)" using dee_inv_init d'(2) dee_cong(2)[OF same] by blast
    then have init: "EEPROM_init_d d0 = Inr ?d1" by (simp add: EEPROM_init_d_def)
    have "dee_inv ?d1" "ee_map ?d1 = block_map (unat dest) bs (ee_map d)" using dee_cong[of ?d1 d'] same d'(2,3) by simp_all
    from dee_store.read_written[OF this assms(2)] show ?thesis using init by blast
  qed
  then show ?thesis using d'(1) by blast
qed

theorem block_survives_restart_witness:
  "\<exists>d'. EEPROM_write_d DataEEWrite 10 [1, 2, 3] (log_image []) = Inr d' \<and>
    (\<forall>d0. ee_base d0 = ee_base d' \<and> flash d0 = flash d' \<longrightarrow>
      (\<exists>d1 d2. EEPROM_init_d d0 = Inr d1 \<and> EEPROM_read_d DataEERead 10 13 d1 = ([1, 2, 3], d2)))"
  using block_survives_restart[OF log_image_inv, of 10 "[1, 2, 3]"] by simp

text \<open>
  C33. A reset between the status of the packed page and the erasure of the old one is repaired at the next start: whatever
  else the packed page holds, the map is that of the old page.
\<close>

theorem reset_in_pack_recovered:
  assumes "dee_state d p es" and "ee_base d' = ee_base d" and "\<not> bit (fst (cell d' ((p + 1) mod 16) 0)) 3"
    and "\<And>r k. r < 16 \<Longrightarrow> k < 512 \<Longrightarrow> r \<noteq> (p + 1) mod 16 \<Longrightarrow> cell d' r k = cell d r k"
  shows "\<exists>d''. DataEEInit d' = Inr (0, d'') \<and> dee_inv d'' \<and> ee_map d'' = ee_map d"
  using init_recovers[OF assms(1) refl assms(2,4,3)] ee_map_state[OF assms(1)] by simp

theorem reset_in_pack_recovered_witness:
  "\<exists>d''. DataEEInit ((log_image [(4, 9)])\<lparr>flash := (flash (log_image [(4, 9)]))(512 := (0xF3, 0))\<rparr>) = Inr (0, d'') \<and> dee_inv d''
    \<and> ee_map d'' = ee_map (log_image [(4, 9)])"
proof (rule reset_in_pack_recovered)
  let ?d = "log_image [(4, 9)]"
  let ?d' = "?d\<lparr>flash := (flash ?d)(512 := (0xF3, 0))\<rparr>"
  show "dee_state ?d 0 [(4, 9)]" by (rule log_image_state) simp_all
  have c: "cell ?d' r k = (if 512 * r + k = 512 then (0xF3, 0) else cell ?d r k)" for r k
    by (simp add: cell_def word_index_def log_image_def)
  show "\<not> bit (fst (cell ?d' ((0 + 1) mod 16) 0)) 3" using c[of 1 0] by simp
  show "cell ?d' r k = cell ?d r k" if "r < 16" "k < 512" "r \<noteq> (0 + 1) mod 16" for r k
  proof -
    have "512 * r + k \<noteq> 512 * 1 + 0" using block_eq[of k 512 0 r 1] that by simp
    then show ?thesis using c[of r k] by simp
  qed
qed simp

text \<open>
  C34. A reset before that status leaves the memory read-only: when the page is full, before its pack begins or after all values of
  the new page are programmed, every later start reports success and changes nothing, and every block that the firmware writes then is lost
  without an error.
\<close>

theorem full_page_freezes:
  assumes "dee_state d p es" and "length es = 511" and "d' \<in> {d, pack_values 0 ((p + 1) mod 16) d}"
    and "ee_base d0 = ee_base d'" and "flash d0 = flash d'" and "unat dest + length bs \<le> 255"
  shows "DataEEInit d0 = Inr (0, d0) \<and> (\<exists>d''. EEPROM_write_d DataEEWrite dest bs d0 = Inr d'' \<and> frozen d'' \<and> flash d'' = flash d0 \<and> ee_map d'' = ee_map d0)"
proof -
  have "frozen d'" using full_frozen[OF assms(1,2)] assms(3) by auto
  then have "frozen d0" using frozen_cong[OF assms(4,5)] by simp
  then show ?thesis using frozen_start frozen_block[OF _ assms(6)] by blast
qed

theorem full_page_freezes_witness:
  "let d = log_image (replicate 511 (0, 7)) in
    DataEEInit d = Inr (0, d) \<and> (\<exists>d''. EEPROM_write_d DataEEWrite 0 [8] d = Inr d'' \<and> frozen d'' \<and> flash d'' = flash d \<and> ee_map d'' = ee_map d)"
  unfolding Let_def by (rule full_page_freezes[OF log_image_state length_replicate insertI1 refl refl]) simp_all

end
