(* ===== verification/Teensy.thy ===== *)
theory Teensy
  imports Board
begin

text \<open>
  \<open>src/orazio_lib/src/arch/teensy36\<close>, a port that has only been started: the drivers are there, but their statements on
  registers are commented out and no interrupt routine exists. What is left has a small state and a
  consequence, that nothing is ever received.
\<close>

section \<open>Drivers without registers\<close>

abbreviation (input) PINS_NUM_t :: nat where "PINS_NUM_t \<equiv> 14"
abbreviation (input) PWM_PINS_t :: nat where "PWM_PINS_t \<equiv> 13"

definition DigIO_numChannels_t :: u8 where "DigIO_numChannels_t = word_of_nat PINS_NUM_t"

definition DigIO_setDirection_t :: "u8 \<Rightarrow> PinDirection \<Rightarrow> 's \<Rightarrow> int \<times> 's" where
  "DigIO_setDirection_t p dir s = (- 1, s)"

definition DigIO_getDirection_t :: "u8 \<Rightarrow> 's \<Rightarrow> int" where
  "DigIO_getDirection_t p s = - 1"

definition DigIO_setValue_t :: "u8 \<Rightarrow> u8 \<Rightarrow> 's \<Rightarrow> int \<times> 's" where
  "DigIO_setValue_t p v s = (- 1, s)"

definition DigIO_getValue_t :: "u8 \<Rightarrow> 's \<Rightarrow> int" where
  "DigIO_getValue_t p s = - 1"

definition PWM_init_t :: PWMError where "PWM_init_t = PWMSuccess"

definition PWM_numChannels_t :: u8 where "PWM_numChannels_t = word_of_nat PWM_PINS_t"

definition PWM_isEnabled_t :: "u8 \<Rightarrow> PWMError" where "PWM_isEnabled_t c = PWMEnabled"

definition PWM_enable_t :: "u8 \<Rightarrow> u8 \<Rightarrow> 's \<Rightarrow> PWMError \<times> 's" where
  "PWM_enable_t c enable s = (PWMSuccess, s)"

definition PWM_getDutyCycle_t :: "u8 \<Rightarrow> 's \<Rightarrow> int" where "PWM_getDutyCycle_t c s = 255"

definition PWM_setDutyCycle_t :: "u8 \<Rightarrow> u8 \<Rightarrow> 's \<Rightarrow> PWMError \<times> 's" where
  "PWM_setDutyCycle_t c duty_cycle s = (PWMSuccess, s)"

definition Counter_get_t :: u16 where "Counter_get_t = 0"

definition EEPROM_read_t :: "u8 list \<Rightarrow> u16 \<Rightarrow> 's \<Rightarrow> u8 list \<times> 's" where
  "EEPROM_read_t dest src s = (dest, s)"

definition EEPROM_write_t :: "u16 \<Rightarrow> u8 list \<Rightarrow> 's \<Rightarrow> 's" where
  "EEPROM_write_t dest bs s = s"

section \<open>Encoders, timer and UART\<close>

text \<open>The elements of the buffers are integers here, but only bytes are stored in them and read from them.\<close>

record teensy =
  t_sampled :: "u16 list"
  t_timers :: "Timer list"
  t_uart :: UART

definition Encoder_sample_t :: "teensy \<Rightarrow> teensy" where "Encoder_sample_t d = d"

definition Encoder_numEncoders_t :: u8 where "Encoder_numEncoders_t = 2"

text \<open>The index is not checked.\<close>

definition Encoder_getValue_t :: "u8 \<Rightarrow> teensy \<Rightarrow> u16 result" where
  "Encoder_getValue_t num_encoder d =
     (if unat num_encoder < length (t_sampled d) then Inr (t_sampled d ! unat num_encoder) else Inl OutOfBounds)"

definition Timers_init_t :: "teensy \<Rightarrow> teensy" where
  "Timers_init_t d = d\<lparr>t_timers := map (\<lambda>i. zero_timer\<lparr>timer_num := int i\<rparr>) [0..<NUM_TIMERS]\<rparr>"

definition Timer_create_t :: "string \<Rightarrow> u16 \<Rightarrow> TimerFn \<Rightarrow> addr \<Rightarrow> teensy \<Rightarrow> nat option \<times> teensy" where
  "Timer_create_t device duration fn args d =
     (if device = ''timer_0''
      then (Some 0, d\<lparr>t_timers := (t_timers d)[0 := (t_timers d ! 0)\<lparr>duration_ms := duration, timer_num := 0,
              timer_fn := Some fn, timer_args := args\<rparr>]\<rparr>)
      else (None, d))"

definition Timer_start_t :: "nat \<Rightarrow> teensy \<Rightarrow> teensy" where "Timer_start_t t d = d"

definition Timer_stop_t :: "nat \<Rightarrow> teensy \<Rightarrow> teensy" where "Timer_stop_t t d = d"

definition Timer_destroy_t :: "nat \<Rightarrow> teensy \<Rightarrow> teensy" where
  "Timer_destroy_t t d0 =
     (let d = Timer_stop_t t d0; num = timer_num (t_timers d ! t)
      in d\<lparr>t_timers := (t_timers d)[t := zero_timer\<lparr>timer_num := num\<rparr>]\<rparr>)"

definition UART_init_t :: "u32 \<Rightarrow> teensy \<Rightarrow> teensy" where
  "UART_init_t baud d = d\<lparr>t_uart := (t_uart d)\<lparr>uart_num := 0, uart_tx_start := 0, uart_tx_end := 0, uart_tx_size := 0,
     uart_rx_start := 0, uart_rx_end := 0, uart_rx_size := 0\<rparr>\<rparr>"

definition UART_rxBufferFull_t :: "teensy \<Rightarrow> int" where "UART_rxBufferFull_t d = uint (uart_rx_size (t_uart d))"

definition UART_txBufferFull_t :: "teensy \<Rightarrow> int" where "UART_txBufferFull_t d = uint (uart_tx_size (t_uart d))"

definition UART_txBufferFree_t :: "teensy \<Rightarrow> int" where "UART_txBufferFree_t d = 256 - uint (uart_tx_size (t_uart d))"

text \<open>Waiting is \<open>None\<close>, as in \<open>Board\<close>.\<close>

definition UART_putChar_t :: "u8 \<Rightarrow> teensy \<Rightarrow> teensy option" where
  "UART_putChar_t c d =
     (if 256 \<le> uint (uart_tx_size (t_uart d)) then None else Some (d\<lparr>t_uart := uart_tx_put c (t_uart d)\<rparr>))"

definition UART_getChar_t :: "teensy \<Rightarrow> (u8 \<times> teensy) option" where
  "UART_getChar_t d =
     (if uart_rx_size (t_uart d) = 0 then None else case uart_rx_get (t_uart d) of (c, u) \<Rightarrow> Some (c, d\<lparr>t_uart := u\<rparr>))"

section \<open>Nothing is received\<close>

text \<open>The operations of the port that change its state.\<close>

inductive t_step :: "teensy \<Rightarrow> teensy \<Rightarrow> bool" where
  sample: "t_step d (Encoder_sample_t d)"
| timers: "t_step d (Timers_init_t d)"
| create: "Timer_create_t device duration fn args d = (r, d') \<Longrightarrow> t_step d d'"
| start: "t_step d (Timer_start_t t d)"
| stop: "t_step d (Timer_stop_t t d)"
| destroy: "t_step d (Timer_destroy_t t d)"
| put: "UART_putChar_t c d = Some d' \<Longrightarrow> t_step d d'"
| get: "UART_getChar_t d = Some (c, d') \<Longrightarrow> t_step d d'"

lemma t_step_rx: "t_step d d' \<Longrightarrow> uart_rx_size (t_uart d) = 0 \<Longrightarrow> uart_rx_size (t_uart d') = 0"
  by (induction rule: t_step.induct)
    (auto simp: Encoder_sample_t_def Timers_init_t_def Timer_create_t_def Timer_start_t_def Timer_stop_t_def Timer_destroy_t_def
      UART_putChar_t_def UART_getChar_t_def uart_tx_put_def Let_def split: if_splits prod.splits)

text \<open>After the set-up a byte can never be fetched: the wait for one has no end.\<close>

theorem teensy_receives_nothing:
  assumes "t_step\<^sup>*\<^sup>* (UART_init_t baud d) d'"
  shows "UART_getChar_t d' = None \<and> UART_rxBufferFull_t d' = 0"
proof -
  have "uart_rx_size (t_uart d') = 0"
    using assms by (induction rule: rtranclp_induct) (simp add: UART_init_t_def, blast intro: t_step_rx)
  then show ?thesis by (simp add: UART_getChar_t_def UART_rxBufferFull_t_def)
qed

text \<open>Writing never waits, and nothing takes the bytes away: the 256th makes the count zero again.\<close>

lemma uart_tx_put_size: "uart_tx_size (uart_tx_put c u) = uart_tx_size u + 1"
  by (simp add: uart_tx_put_def BUFFER_PUT_u8_def Let_def split: prod.split)

theorem teensy_transmits_nothing:
  "\<exists>d'. UART_putChar_t c d = Some d' \<and> UART_txBufferFull_t d' = (UART_txBufferFull_t d + 1) mod 256"
proof -
  have "uint (uart_tx_size (t_uart d)) < 256" using uint_lt2p[of "uart_tx_size (t_uart d)"] by simp
  then show ?thesis
    by (simp add: UART_putChar_t_def UART_txBufferFull_t_def uart_tx_put_size uint_word_ariths)
qed

text \<open>The PWM is not that of the interface: the duty cycle of a channel is not what was set.\<close>

lemma teensy_no_pwm: "\<not> pwm_driver (\<lambda>c. c < PWM_numChannels_t) PWM_setDutyCycle_t (PWM_getDutyCycle_t :: u8 \<Rightarrow> 's \<Rightarrow> int)"
proof
  assume "pwm_driver (\<lambda>c. c < PWM_numChannels_t) PWM_setDutyCycle_t (PWM_getDutyCycle_t :: u8 \<Rightarrow> 's \<Rightarrow> int)"
  from pwm_driver.set_duty[OF this, of 0 0] show False
    by (simp add: PWM_setDutyCycle_t_def PWM_getDutyCycle_t_def PWM_numChannels_t_def)
qed

end
