(* ===== verification/Spec2Isabelle.thy ===== *)
theory Spec2Isabelle
  imports PacketProperties BoardProperties HBridgeProperties Watchdog Boot Configure WebServerProperties LoggerProperties DspicProperties DeeProperties Teensy
begin

text \<open>
  A verification development for the orazio robot platform: the firmware of a small differential drive robot, the
  packet protocol of its serial line, the client, shell and web server of the host, and a logger that records a drive.

  \<^bold>\<open>The program.\<close> The firmware (\<open>src/orazio_lib/src/orazio_firmware\<close>) runs on a board whose drivers are in \<open>src/orazio_lib/src/arch\<close>. Its
  main loop waits for the timer interrupt, samples the encoders, runs the drive and joint controllers, and every
  \<open>comm_cycles\<close> ticks receives packets, acts on them and sends its status. Both ends of the line use the packet
  handler of \<open>src/orazio_lib/src/common\<close>: the firmware through the deferred handler, which queues packets and acts on
  them later, the host (\<open>src/orazio_lib/src/orazio_host\<close>) through the client, which copies every packet into a variable.
  The shell and the web server show and set these variables; the logger (\<open>src/orazio_logger.c\<close>) is a second host program.

  \<^bold>\<open>Foundations.\<close> \<open>Prelude\<close>: machine integers, faults, sequencing of operations that can fault, little-endian bytes, byte memory.
  A C operation that the language leaves undefined, and an access outside of an object, is a value of type \<open>fault\<close>; an
  operation returns \<open>fault + 'a\<close>, and an error code of the program is an ordinary result. \<open>Float32\<close>: single precision on
  bit patterns. \<open>HostText\<close>: the conversions of \<open>printf\<close> and \<open>scanf\<close>, and that what was printed is scanned again.

  \<^bold>\<open>Protocol\<close> (\<open>src/orazio_lib/src/common\<close>).
  \<^item> \<open>Packets\<close>: \<open>packet_header.h\<close>, \<open>packet_operations.h\<close>, \<open>orazio_packets.h\<close>; every packed structure with its encoding, decoding and round trip.
  \<^item> \<open>Ring\<close>: \<open>buffer_utils.h\<close> and the contract \<open>fifo\<close> of a queue.
  \<^item> \<open>PacketHandler\<close>, \<open>PacketFraming\<close>, \<open>PacketReceiver\<close>: \<open>packet_handler.c\<close>; the transmit ring is a \<open>fifo\<close> of at most 254 bytes,
    a packet is queued whole or not at all, and the contract \<open>packet_client\<close> says what the code that
    installs packets owes to the receiver and what it gets on every stream of bytes.
  \<^item> \<open>Deferred\<close>: \<open>deferred_packet_handler.c\<close>, a \<open>packet_client_total\<close>; its own users meet \<open>deferred_actions\<close>.
  \<^item> \<open>PacketProperties\<close>: transfer from one side to the other, arbitrary and corrupted input.

  \<^bold>\<open>Boards.\<close>
  \<^item> \<open>Avr\<close>, \<open>Pins\<close>, \<open>Board\<close>, \<open>BoardProperties\<close>: \<open>arch/atmega2560\<close>, on the registers of the processor. The queues of the UART hold 255
    bytes (a \<open>uint8_t\<close> size): they are \<open>fifo\<close>s up to there, and \<open>uart_overrun_loses_all\<close> is what happens at 256.
  \<^item> \<open>Dspic\<close>, \<open>DspicProperties\<close>: \<open>arch/dspic\<close>, the second target.
  \<^item> \<open>Dee\<close>: \<open>arch/dspic/DEE_Emulation_16-bit.c\<close>, the EEPROM that the dsPIC emulates in its program memory, on the latches and the
    flash controller behind \<open>FlashOperations.s\<close>. \<open>DeeLog\<close>: a page is a log of the writes. \<open>DeePack\<close>: packing a page keeps the map of the log.
    \<open>DspicEeprom\<close>: \<open>arch/dspic/eeprom.c\<close> on the contract \<open>word_store\<close>. \<open>DeeProperties\<close>: the emulation meets the contract, with any
    number of packs; what a reset in the middle of a pack does. Its loops end by measures; the loop that verifies a pack
    counts down from 32768 words, one round of the offsets, and ends on every packed page.
  \<^item> \<open>Teensy\<close>: \<open>arch/teensy36\<close>, a started port; nothing is ever received on it.
  \<^item> \<open>Hal\<close>: the interface \<open>arch/include\<close> as the contracts \<open>digital_io\<close> and \<open>pwm_driver\<close>, with the first two targets as interpretations.

  \<^bold>\<open>Firmware\<close> (\<open>orazio_firmware\<close>).
  \<^item> \<open>HBridge\<close>, \<open>HBridgeProperties\<close>: \<open>orazio_hbridge_internal.c\<close>. \<open>Globals\<close>: \<open>orazio_globals.c\<close>. \<open>Joints\<close>: \<open>orazio_joints*.c\<close>. \<open>Drive\<close>: \<open>orazio_drive*.c\<close>.
    \<open>Param\<close>: \<open>orazio_sonar.c\<close>, \<open>orazio_watchdog.c\<close>, \<open>orazio_param.c\<close>.
  \<^item> \<open>Objects\<close>: the global packets as byte objects (contracts \<open>byte_object\<close> and \<open>packed\<close>), because packets are copied over
    them with \<open>memcpy\<close>. \<open>Comm\<close>: \<open>orazio_comm.c\<close>. \<open>MainLoop\<close>: \<open>orazio.c\<close>, as a function for one iteration and as a machine with a program counter whose
    steps interleave with the interrupts.
  \<^item> \<open>Ready\<close>, \<open>CommInv\<close>, \<open>CommCycle\<close>, \<open>CommFlow\<close>, \<open>CommEpoch\<close>, \<open>Boot\<close>: the invariant of the firmware, who establishes and keeps it, and what a cycle transmits.
  \<^item> \<open>MainSafety\<close>, \<open>MainEquiv\<close>, \<open>FirmwareProperties\<close>, \<open>CommProperties\<close>, \<open>DriveProperties\<close>: safety of the loop under all interleavings, the end of
    its iterations (through its agreement with the plain loop body), timing, limits of the controllers, reactions to packets with their
    responses, parameters. \<open>Watchdog\<close>: the loop and its interrupts on a silent line stop the robot after \<open>watchdog_cycles\<close> cycles.

  \<^bold>\<open>Host\<close> (\<open>orazio_host\<close>).
  \<^item> \<open>Client\<close>, \<open>ClientInv\<close>, \<open>ClientReady\<close>, \<open>ClientEpoch\<close>: \<open>orazio_client.c\<close>, the second \<open>packet_client\<close>.
  \<^item> \<open>PrintPacket\<close>, \<open>ShellVars\<close>, \<open>Shell\<close>, \<open>Host\<close>, \<open>HostProperties\<close>: \<open>orazio_print_packet.c\<close>, \<open>ventry.c\<close>, \<open>orazio_shell_globals.c\<close>,
    \<open>orazio_shell_commands.c\<close>, \<open>orazio.c\<close>.
  \<^item> \<open>WebServer\<close>, \<open>WebServerProperties\<close>: \<open>orazio_ws_server.c\<close>; the table of connections meets the contract \<open>peer_table\<close>.

  \<^bold>\<open>Both ends\<close>: \<open>Link\<close> (the bytes of a cycle make the client return from its epoch), \<open>CommandLink\<close> (a command of the host is received
  and executed), \<open>Query\<close> and \<open>Configure\<close> (the host reads the whole configuration of the robot). \<open>Sample\<close> is the robot of the examples.

  \<^bold>\<open>Logger\<close>: \<open>NodeQueue\<close> (\<open>src/queue.h\<close>, a \<open>fifo\<close>), \<open>Keyboard\<close> (\<open>orazio_client_test_getkey.c\<close>), \<open>Webcam\<close> (\<open>src/webcam_manager.h\<close>), \<open>Logger\<close> and
  \<open>LoggerThreads\<close> (\<open>src/orazio_logger.c\<close>: one thread at a time, and the interleaving of the five threads over semaphores and queue),
  \<open>LoggerInv\<close>, \<open>LoggerLog\<close>, \<open>LoggerProperties\<close>.

  \<^bold>\<open>Loops and bounds.\<close> Loops over bytes and arrays are recursions on lists or numbers. Loops that wait for another
  party are on what that party delivers: the waiting client reads a list of results of \<open>read\<close> and ends in the fault
  \<open>Diverges\<close> when the list is over; eight packets are enough for a response while the robot sends epochs. The
  busy waits on hardware flags end because the flag is set in the model of the register, or are faults.
  Interrupts run between the steps of the machine of the main loop; a step is one call of the loop body,
  one byte of a flush loop, the processing of the received packets, or a few assignments, and is atomic.

  \<^bold>\<open>Parameters.\<close> Outside of the repository, and arguments of the definitions: \<open>sin\<close> and \<open>cos\<close> of the target, the settings of the
  AVR headers, the answers of the operating system and of the video driver, the callbacks of the web socket library, the
  conversion of a number that does not fit. The contents of uninitialised memory is an argument as well.

  \<^bold>\<open>Not modelled.\<close> The pin table of \<open>arch/teensy36\<close>, which nothing uses; the register header \<open>p33FJ128MC802.h\<close>, which is declarations only (two thirds of the lines of the repository); the wait loops of \<open>delay.c\<close>;
  the terminal settings of \<open>serial_linux.c\<close>; the programs of \<open>host_test\<close> and \<open>micro_test\<close>, which print what the modelled functions do;
  \<open>src/capture.h\<close>, which no program includes; drawing, JPEG compression and the thread library itself.
\<close>

end
